(* ===== verification/Prelude.thy ===== *)
theory Prelude
  imports Main "HOL-Library.AList" "HOL-Library.Multiset"
begin

text \<open>
  Shared vocabulary of the development: the result type of fallible Go functions, the
  fixed-width integers the code uses, the collections of simplification rules the component
  theories extend, and the interfaces several components share (a replayed ledger, a guarded
  status machine, and a preorder of what the steps of a state may change).
\<close>

named_theorems ledger_simps \<open>equations of the event-sourced cost ledger\<close>
named_theorems status_simps \<open>equations of the task and phase status machines\<close>
named_theorems sched_simps \<open>field equations of the task-graph scheduler state\<close>

section \<open>Results\<close>

text \<open>A Go function returning \<open>(T, error)\<close> returns \<open>Inl\<close> the error or \<open>Inr\<close> the value.\<close>

definition bindR :: "'e + 'a \<Rightarrow> ('a \<Rightarrow> 'e + 'b) \<Rightarrow> 'e + 'b" where
  "bindR r f = (case r of Inl e \<Rightarrow> Inl e | Inr x \<Rightarrow> f x)"

lemma bindR_simps [simp]:
  "bindR (Inl e) f = Inl e"
  "bindR (Inr x) f = f x"
  by (simp_all add: bindR_def)

lemma bindR_eq_Inr: "bindR r f = Inr y \<longleftrightarrow> (\<exists>x. r = Inr x \<and> f x = Inr y)"
  by (cases r) auto

lemma bindR_eq_Inl: "bindR r f = Inl e \<longleftrightarrow> r = Inl e \<or> (\<exists>x. r = Inr x \<and> f x = Inl e)"
  by (cases r) auto

lemma bindR_InrE [elim]:
  assumes "bindR r f = Inr y"
  obtains x where "r = Inr x" "f x = Inr y"
  using assms by (auto simp: bindR_eq_Inr)

definition is_ok :: "'e + 'a \<Rightarrow> bool" where
  "is_ok r = (case r of Inl _ \<Rightarrow> False | Inr _ \<Rightarrow> True)"

lemma is_ok_simps [simp]: "\<not> is_ok (Inl e)" "is_ok (Inr x)"
  by (simp_all add: is_ok_def)

lemma is_ok_iff: "is_ok r \<longleftrightarrow> (\<exists>x. r = Inr x)"
  by (cases r) auto

section \<open>Fixed-width integers\<close>

text \<open>
  A Go \<open>int64\<close> is an \<open>int\<close> in the range \<open>is_int64\<close>; every operation of the source that can
  leave the range is written with its wrap-around, \<open>i64\<close> for signed and \<open>u64\<close> for unsigned
  arithmetic.
\<close>

definition MaxInt64 :: int where "MaxInt64 = 9223372036854775807"
definition MinInt64 :: int where "MinInt64 = -9223372036854775808"

definition is_int64 :: "int \<Rightarrow> bool" where
  "is_int64 x \<longleftrightarrow> MinInt64 \<le> x \<and> x \<le> MaxInt64"

definition u64 :: "int \<Rightarrow> int" where
  "u64 x = x mod 18446744073709551616"

definition i64 :: "int \<Rightarrow> int" where
  "i64 x = (x + 9223372036854775808) mod 18446744073709551616 - 9223372036854775808"

lemma u64_id [simp]: "0 \<le> x \<Longrightarrow> x < 18446744073709551616 \<Longrightarrow> u64 x = x"
  by (simp add: u64_def)

lemma u64_range: "0 \<le> u64 x \<and> u64 x < 18446744073709551616"
  by (simp add: u64_def)

lemma i64_id: "is_int64 x \<Longrightarrow> i64 x = x"
  by (simp add: i64_def is_int64_def MaxInt64_def MinInt64_def)

lemma i64_range: "is_int64 (i64 x)"
proof -
  have "0 \<le> (x + 9223372036854775808) mod 18446744073709551616"
    and "(x + 9223372036854775808) mod 18446744073709551616 < 18446744073709551616"
    by simp_all
  then show ?thesis
    unfolding i64_def is_int64_def MaxInt64_def MinInt64_def by linarith
qed

lemma MaxInt64_pos [simp]: "0 < MaxInt64" "0 \<le> MaxInt64"
  by (simp_all add: MaxInt64_def)

section \<open>Lists and association lists\<close>

lemma sum_list_nonneg_int: "\<forall>x \<in> set xs. 0 \<le> x \<Longrightarrow> 0 \<le> sum_list (xs :: int list)"
  by (induction xs) auto

lemma sum_list_map_sort:
  "sum_list (map f (sort xs)) = (sum_list (map f xs) :: 'b :: comm_monoid_add)"
  by (metis mset_map mset_sort sum_mset_sum_list)

lemma map_of_update_other: "k \<noteq> k' \<Longrightarrow> map_of (AList.update k v al) k' = map_of al k'"
  by (simp add: update_conv')

lemma map_of_update_same [simp]: "map_of (AList.update k v al) k = Some v"
  by (simp add: update_conv')

lemma update_fresh: "k \<notin> fst ` set al \<Longrightarrow> AList.update k v al = al @ [(k, v)]"
  by (induction al) auto

lemma update_same: "map_of al k = Some v \<Longrightarrow> AList.update k v al = al"
  by (induction al) (auto split: if_splits)

lemma set_update_subset: "set (AList.update k v al) \<subseteq> insert (k, v) (set al)"
  by (induction al) auto

lemma sum_list_update_fresh:
  "k \<notin> fst ` set al \<Longrightarrow>
   sum_list (map f (AList.update k v al)) = sum_list (map f al) + (f (k, v) :: 'b :: comm_monoid_add)"
  by (simp add: update_fresh)

lemma sum_list_update_known:
  assumes "distinct (map fst al)" "map_of al k = Some v"
  shows "sum_list (map f (AList.update k w al)) + f (k, v) =
         sum_list (map f al) + (f (k, w) :: 'b :: ab_group_add)"
  using assms
proof (induction al)
  case (Cons a al)
  then show ?case by (cases a) (auto split: if_splits simp: algebra_simps)
qed simp

section \<open>Interface: a ledger replayed from events\<close>

text \<open>
  Several components keep no state of their own but the fold of an event list
  (\<open>cost.Reduce\<close>, the event chain verifier). The provider promises that applying an accepted
  event keeps the ledger well formed; the client's laws of replay are proved here once.
\<close>

fun replay_with :: "('s \<Rightarrow> 'ev \<Rightarrow> 'err + 's) \<Rightarrow> 's \<Rightarrow> 'ev list \<Rightarrow> 'err + 's" where
  "replay_with app s [] = Inr s"
| "replay_with app s (e # es) = bindR (app s e) (\<lambda>s'. replay_with app s' es)"

lemma replay_with_append:
  "replay_with app s (xs @ ys) = bindR (replay_with app s xs) (\<lambda>s'. replay_with app s' ys)"
proof (induction xs arbitrary: s)
  case (Cons x xs)
  then show ?case by (cases "app s x") auto
qed simp

locale ledger =
  fixes app :: "'s \<Rightarrow> 'ev \<Rightarrow> 'err + 's"
    and typed :: "'ev \<Rightarrow> bool"
    and wf :: "'s \<Rightarrow> bool"
    and start :: 's
  assumes wf_start: "wf start"
    and wf_app: "wf s \<Longrightarrow> typed e \<Longrightarrow> app s e = Inr s' \<Longrightarrow> wf s'"
begin

lemma wf_replay: "wf s \<Longrightarrow> list_all typed es \<Longrightarrow> replay_with app s es = Inr s' \<Longrightarrow> wf s'"
proof (induction es arbitrary: s)
  case (Cons e es)
  then show ?case by (auto simp: bindR_eq_Inr intro: wf_app)
qed simp

lemma wf_replay_start: "list_all typed es \<Longrightarrow> replay_with app start es = Inr s' \<Longrightarrow> wf s'"
  by (rule wf_replay [OF wf_start])

lemma replay_prefix:
  "replay_with app s (xs @ ys) = Inr s' \<Longrightarrow> \<exists>s1. replay_with app s xs = Inr s1"
  by (auto simp: replay_with_append bindR_eq_Inr)

lemma replay_snoc:
  "replay_with app s xs = Inr s1 \<Longrightarrow> replay_with app s (xs @ [e]) = app s1 e"
  by (cases "app s1 e") (simp_all add: replay_with_append)

text \<open>A fact an accepted event never destroys holds at the end of a replay once it held on the way.\<close>

lemma stable_replay:
  assumes "\<And>s e s'. wf s \<Longrightarrow> typed e \<Longrightarrow> Q s \<Longrightarrow> app s e = Inr s' \<Longrightarrow> Q s'"
    and "wf s" "Q s" "list_all typed es" "replay_with app s es = Inr s'"
  shows "Q s'"
  using assms(2-)
proof (induction es arbitrary: s)
  case (Cons e es)
  then obtain s1 where "app s e = Inr s1" "replay_with app s1 es = Inr s'"
    by (auto simp: bindR_eq_Inr)
  with Cons.prems Cons.IH [of s1] show ?case by (auto intro: assms(1) wf_app)
qed simp

end

text \<open>
  A ledger whose events are idempotent: an accepted event applied again changes nothing, and no
  later event undoes that. Redelivery of any earlier events is then accepted and idle.
\<close>

locale idempotent_ledger = ledger +
  assumes redeliver: "app s e = Inr s' \<Longrightarrow> app s' e = Inr s'"
    and recorded: "app s e = Inr s \<Longrightarrow> app s d = Inr s' \<Longrightarrow> app s' e = Inr s'"
begin

lemma recorded_replay:
  "app s e = Inr s \<Longrightarrow> replay_with app s ds = Inr s' \<Longrightarrow> app s' e = Inr s'"
proof (induction ds arbitrary: s)
  case (Cons d ds)
  then show ?case by (auto simp: bindR_eq_Inr intro: recorded)
qed simp

lemma member_recorded:
  assumes "replay_with app s es = Inr s'" "e \<in> set es"
  shows "app s' e = Inr s'"
  using assms
proof (induction es arbitrary: s)
  case (Cons x es)
  from Cons.prems(1) obtain s1 where s1: "app s x = Inr s1" "replay_with app s1 es = Inr s'"
    by (auto simp: bindR_eq_Inr)
  show ?case
  proof (cases "e \<in> set es")
    case True
    with Cons.IH s1(2) show ?thesis by blast
  next
    case False
    with Cons.prems(2) have "e = x" by simp
    with redeliver [OF s1(1)] s1(2) show ?thesis by (simp add: recorded_replay)
  qed
qed simp

lemma replay_redelivered:
  assumes "replay_with app s es = Inr s'" "set ds \<subseteq> set es"
  shows "replay_with app s (es @ ds) = Inr s'"
proof -
  have "replay_with app s' ds = Inr s'"
    using assms(2) by (induction ds) (simp_all add: member_recorded [OF assms(1)])
  with assms(1) show ?thesis by (simp add: replay_with_append)
qed

end

section \<open>Interface: a guarded status machine\<close>

text \<open>
  A component whose status only changes through one guarded update. The guard is the code's
  transition table; what the client gets is that a status with no way out is final under
  every sequence of requested updates.
\<close>

fun run_guarded :: "('q \<Rightarrow> 'q \<Rightarrow> bool) \<Rightarrow> 'q \<Rightarrow> 'q list \<Rightarrow> 'q" where
  "run_guarded allowed q [] = q"
| "run_guarded allowed q (r # rs) = run_guarded allowed (if allowed q r then r else q) rs"

locale guarded_machine =
  fixes allowed :: "'q \<Rightarrow> 'q \<Rightarrow> bool"
    and final :: "'q \<Rightarrow> bool"
  assumes final_stuck: "final q \<Longrightarrow> allowed q r \<Longrightarrow> r = q"
begin

lemma final_absorbing: "final q \<Longrightarrow> run_guarded allowed q rs = q"
proof (induction rs)
  case (Cons r rs)
  then show ?case using final_stuck by (cases "allowed q r") auto
qed simp

lemma run_guarded_append:
  "run_guarded allowed q (rs @ ts) = run_guarded allowed (run_guarded allowed q rs) ts"
  by (induction rs arbitrary: q) auto

lemma run_reachable: "(q, run_guarded allowed q rs) \<in> {(a, b). allowed a b}\<^sup>*"
proof (induction rs arbitrary: q)
  case (Cons r rs)
  show ?case
  proof (cases "allowed q r")
    case True
    then have "(q, r) \<in> {(a, b). allowed a b}" by simp
    with Cons.IH [of r] True show ?thesis
      by (simp add: converse_rtrancl_into_rtrancl)
  next
    case False
    with Cons.IH [of q] show ?thesis by simp
  qed
qed simp

end

section \<open>What a step may change\<close>

text \<open>
  A relation between a state and its successor that holds of no change and of two changes in a row; it
  then holds of any run of operations each of which it holds of.
\<close>

locale step_preorder =
  fixes step :: "'s \<Rightarrow> 's \<Rightarrow> bool"
  assumes idle: "step s s"
    and chain: "step s t \<Longrightarrow> step t u \<Longrightarrow> step s u"
begin

lemma run_fold: "(\<And>x s. step s (f x s)) \<Longrightarrow> step s (fold f xs s)"
  by (induction xs arbitrary: s) (auto intro: idle chain)

end

end
