(* ===== verification/Recovery.thy ===== *)
theory Recovery
  imports Prelude
begin

text \<open>
  \<open>internal/team/disposition.go\<close> with the policies it reads from \<open>recovery.go\<close> and
  \<open>execution_contract.go\<close>: what the retry loop may do with a failed task attempt.
\<close>

section \<open>Data\<close>

datatype failure_class =
    FailureContract | FailureEnvironment | FailureExecution | FailureProtocol | FailureVerify
  | FailurePolicy | FailureTimeout | FailureCancelled | FailureWorkspaceConflict
  | FailureSessionResumeMismatch | FailureIdentityConflict | FailureSemanticRejection
  | FailureOther string

datatype side_effect =
    SideEffectNone | SideEffectWorkspaceWrite | SideEffectExternalWrite | SideEffectInfraMutation
  | SideEffectCredential | SideEffectUnknown | SideEffectOther string

datatype recovery_policy =
    RecoveryRetry | RecoveryReconcile | RecoveryManual | RecoveryNever | RecoveryOther string

datatype disposition = RetryNone | RetryWorker | ReconcileOnly | ReplanRequired | NeedsHuman

record recovery_input =
  ri_class :: failure_class
  ri_side_effect :: side_effect
  ri_policy :: recovery_policy
  ri_attempt :: int
  ri_max :: int
  ri_evidence :: bool
  ri_fingerprint :: string
  ri_previous :: string
  ri_terminal_blocked :: bool
  ri_protocol_failure :: bool
  ri_repair_exhausted :: bool
  ri_unfixable_verify :: bool
  ri_same_failure :: bool
  ri_cancelled :: bool
  ri_replayable :: bool
  ri_protocol_repair_retry :: bool
  ri_protocol_retry_safe :: bool

section \<open>Policies\<close>

fun nonReplayableSideEffect :: "side_effect \<Rightarrow> bool" where
  "nonReplayableSideEffect SideEffectExternalWrite = True"
| "nonReplayableSideEffect SideEffectInfraMutation = True"
| "nonReplayableSideEffect SideEffectCredential = True"
| "nonReplayableSideEffect SideEffectUnknown = True"
| "nonReplayableSideEffect _ = False"

fun DefaultRecoveryPolicy :: "side_effect \<Rightarrow> bool \<Rightarrow> recovery_policy" where
  "DefaultRecoveryPolicy SideEffectExternalWrite unattended =
     (if unattended then RecoveryManual else RecoveryReconcile)"
| "DefaultRecoveryPolicy SideEffectInfraMutation _ = RecoveryManual"
| "DefaultRecoveryPolicy SideEffectCredential _ = RecoveryManual"
| "DefaultRecoveryPolicy SideEffectUnknown _ = RecoveryManual"
| "DefaultRecoveryPolicy _ _ = RecoveryRetry"

text \<open>\<open>None\<close> is an omitted policy; the last argument is the profile's default, when there is a profile.\<close>

definition ResolveRecoveryPolicy ::
  "recovery_policy option \<Rightarrow> side_effect \<Rightarrow> bool \<Rightarrow> recovery_policy option \<Rightarrow> recovery_policy" where
  "ResolveRecoveryPolicy explicit class unattended profile =
     (case explicit of
        Some p \<Rightarrow> p
      | None \<Rightarrow>
          if DefaultRecoveryPolicy class unattended = RecoveryManual then RecoveryManual
          else case profile of Some p \<Rightarrow> p | None \<Rightarrow> DefaultRecoveryPolicy class unattended)"

text \<open>The side effect, the contract's \<open>AllowsReplay\<close>, and the task's own recovery policy.\<close>

definition IsTaskReplayable :: "side_effect \<Rightarrow> bool option \<Rightarrow> bool" where
  "IsTaskReplayable side allows =
     (if nonReplayableSideEffect side then False else if allows = Some False then False else True)"

definition CanAutomaticallyReplay :: "side_effect \<Rightarrow> bool option \<Rightarrow> recovery_policy option \<Rightarrow> bool" where
  "CanAutomaticallyReplay side allows recovery =
     (if \<not> IsTaskReplayable side allows then False
      else case recovery of
             Some RecoveryManual \<Rightarrow> False | Some RecoveryReconcile \<Rightarrow> False | Some RecoveryNever \<Rightarrow> False
           | _ \<Rightarrow> True)"

section \<open>The decision\<close>

definition isRepeatedFailure :: "recovery_input \<Rightarrow> bool" where
  "isRepeatedFailure i =
     (if ri_fingerprint i \<noteq> [] \<and> ri_previous i \<noteq> [] then ri_fingerprint i = ri_previous i
      else ri_same_failure i)"

fun classBasedDisposition :: "failure_class \<Rightarrow> disposition \<times> string" where
  "classBasedDisposition FailureTimeout = (RetryWorker, ''timeout on replayable task'')"
| "classBasedDisposition FailureExecution = (RetryWorker, ''execution failure'')"
| "classBasedDisposition FailureVerify = (RetryWorker, ''verification failure'')"
| "classBasedDisposition FailureWorkspaceConflict =
     (RetryWorker, ''isolated workspace conflict; retrying from the current project'')"
| "classBasedDisposition FailureCancelled = (RetryNone, ''cancelled'')"
| "classBasedDisposition _ = (RetryWorker, ''retry'')"

text \<open>The classes that decide before the budget is looked at; \<open>None\<close> falls through.\<close>

definition early_class :: "recovery_input \<Rightarrow> (disposition \<times> string) option" where
  "early_class i =
     (case ri_class i of
        FailureContract \<Rightarrow> Some (ReplanRequired, ''contract failure requires replan'')
      | FailureEnvironment \<Rightarrow> Some (ReplanRequired, ''environment failure requires replan'')
      | FailurePolicy \<Rightarrow> Some (ReplanRequired, ''policy failure requires replan'')
      | FailureSessionResumeMismatch \<Rightarrow>
          Some (ReconcileOnly, ''backend resumed a different session than the durable binding; reconcile before retry'')
      | FailureIdentityConflict \<Rightarrow>
          Some (ReconcileOnly, ''durable backend session identity conflicts or cannot be verified; reconcile before retry'')
      | FailureProtocol \<Rightarrow>
          if ri_protocol_retry_safe i \<and> ri_replayable i \<and> ri_protocol_repair_retry i then None
          else Some (ReconcileOnly, ''protocol failure requires result-only repair; worker tools must not be replayed'')
      | FailureTimeout \<Rightarrow>
          if nonReplayableSideEffect (ri_side_effect i)
          then Some (ReconcileOnly, ''timeout on non-replayable side effect; reconcile first'') else None
      | _ \<Rightarrow> None)"

text \<open>The gate of the resolved policy and of the evidence on a retry.\<close>

definition policy_gate :: "recovery_input \<Rightarrow> disposition \<times> string \<Rightarrow> disposition \<times> string" where
  "policy_gate i d =
     (if fst d \<noteq> RetryWorker then d
      else case ri_policy i of
        RecoveryReconcile \<Rightarrow> (ReconcileOnly, ''resolved recovery policy is reconcile; block for reconciliation'')
      | RecoveryManual \<Rightarrow> (NeedsHuman, ''resolved recovery policy is manual; human intervention required'')
      | RecoveryNever \<Rightarrow> (RetryNone, ''resolved recovery policy is never; no retry'')
      | _ \<Rightarrow>
          if \<not> ri_evidence i
          then (ReplanRequired, ''evidence incomplete; cannot retry without complete evidence'') else d)"

definition DecideRecovery :: "recovery_input \<Rightarrow> disposition \<times> string" where
  "DecideRecovery i =
     (if ri_cancelled i \<or> ri_class i = FailureCancelled then (RetryNone, ''cancelled'')
      else if ri_terminal_blocked i then (NeedsHuman, ''an owned terminal session remains active or unknown'')
      else if ri_repair_exhausted i then
        (ReconcileOnly, ''result-only repair exhausted; reconcile the preserved execution evidence instead of starting a new worker attempt'')
      else case early_class i of
        Some d \<Rightarrow> d
      | None \<Rightarrow>
          if ri_protocol_failure i \<and> (\<not> ri_replayable i \<or> \<not> ri_protocol_repair_retry i) then
            (ReconcileOnly, ''protocol-only failure cannot be automatically replayed; reconciliation required'')
          else if \<not> ri_replayable i then (ReconcileOnly, ''task replay policy requires reconciliation'')
          else if ri_unfixable_verify i \<and> ri_attempt i < ri_max i then
            (ReplanRequired, ''verify command has unfixable wrong polarity'')
          else if isRepeatedFailure i \<and> ri_attempt i < ri_max i then (ReplanRequired, ''same failure repeated'')
          else if ri_attempt i \<ge> ri_max i then (RetryNone, ''retry budget exhausted'')
          else policy_gate i (classBasedDisposition (ri_class i)))"

definition retrySuppressionReason :: "recovery_input \<Rightarrow> disposition \<Rightarrow> string option" where
  "retrySuppressionReason i d =
     (if d = RetryWorker \<or> ri_cancelled i \<or> ri_class i = FailureCancelled \<or> ri_attempt i \<ge> ri_max i then None
      else if isRepeatedFailure i then Some ''repeated_fingerprint''
      else if ri_unfixable_verify i then Some ''unfixable_verifier''
      else if \<not> ri_evidence i \<and> ri_replayable i \<and> \<not> ri_terminal_blocked i \<and> \<not> ri_protocol_failure i
        then Some ''evidence_incomplete''
      else None)"

definition IsRetryDisposition :: "disposition \<Rightarrow> bool" where
  "IsRetryDisposition d \<longleftrightarrow> d = RetryWorker"

fun IsStopDisposition :: "disposition \<Rightarrow> bool" where
  "IsStopDisposition RetryWorker = False"
| "IsStopDisposition _ = True"

definition ShouldBlockTask :: "disposition \<Rightarrow> bool" where
  "ShouldBlockTask d \<longleftrightarrow> d = ReconcileOnly"

section \<open>When a retry is granted\<close>

definition retry_granted :: "recovery_input \<Rightarrow> bool" where
  "retry_granted i \<longleftrightarrow>
     \<not> ri_cancelled i \<and> \<not> ri_terminal_blocked i \<and> \<not> ri_repair_exhausted i \<and>
     ri_class i \<notin> {FailureCancelled, FailureContract, FailureEnvironment, FailurePolicy,
                    FailureSessionResumeMismatch, FailureIdentityConflict} \<and>
     (ri_class i = FailureProtocol \<longrightarrow> ri_protocol_retry_safe i \<and> ri_protocol_repair_retry i) \<and>
     (ri_class i = FailureTimeout \<longrightarrow> \<not> nonReplayableSideEffect (ri_side_effect i)) \<and>
     (ri_protocol_failure i \<longrightarrow> ri_protocol_repair_retry i) \<and>
     ri_replayable i \<and> \<not> ri_unfixable_verify i \<and> \<not> isRepeatedFailure i \<and>
     ri_attempt i < ri_max i \<and> ri_policy i \<notin> {RecoveryReconcile, RecoveryManual, RecoveryNever} \<and>
     ri_evidence i"

lemma policy_gate_retry:
  "fst (policy_gate i d) = RetryWorker \<longleftrightarrow>
   fst d = RetryWorker \<and> ri_policy i \<notin> {RecoveryReconcile, RecoveryManual, RecoveryNever} \<and> ri_evidence i"
  by (auto simp: policy_gate_def split: recovery_policy.splits)

lemma early_class_stops: "early_class i = Some d \<Longrightarrow> fst d \<noteq> RetryWorker"
  by (auto simp: early_class_def split: failure_class.splits if_splits)

lemma class_retry: "fst (classBasedDisposition c) = RetryWorker \<longleftrightarrow> c \<noteq> FailureCancelled"
  by (cases c) simp_all

lemma early_class_None:
  "early_class i = None \<longleftrightarrow>
   ri_class i \<notin> {FailureContract, FailureEnvironment, FailurePolicy, FailureSessionResumeMismatch,
                  FailureIdentityConflict} \<and>
   (ri_class i = FailureProtocol \<longrightarrow> ri_protocol_retry_safe i \<and> ri_replayable i \<and> ri_protocol_repair_retry i) \<and>
   (ri_class i = FailureTimeout \<longrightarrow> \<not> nonReplayableSideEffect (ri_side_effect i))"
  by (auto simp: early_class_def split: failure_class.splits)

section \<open>Properties\<close>

text \<open>
  A worker is re-dispatched in exactly one situation: the attempt was not cancelled, nothing
  blocks it, its class admits a retry (a protocol failure only when proven observation-only, a
  timeout only without an unreplayable side effect), the task is replayable, the failure is new,
  attempts remain, the resolved policy allows it, and the evidence is complete.
\<close>

theorem retry_exactly_when:
  "fst (DecideRecovery i) = RetryWorker \<longleftrightarrow> retry_granted i"
proof (cases "early_class i")
  case None
  with early_class_None [of i] show ?thesis
    by (auto simp: DecideRecovery_def retry_granted_def policy_gate_retry class_retry)
next
  case (Some d)
  with early_class_stops [OF Some] early_class_None [of i] show ?thesis
    by (auto simp: DecideRecovery_def retry_granted_def)
qed

text \<open>
  C31. Unsafe work is never replayed: with the policy and the replayability the coordinator resolves
  for a task, a failed attempt whose side effect is an external write, an infrastructure or
  credential mutation or unknown never leads to a new worker, and outside cancellation, a blocked
  terminal session and the classes that require a replan it is held for reconciliation.
\<close>

theorem unsafe_never_replayed:
  assumes "nonReplayableSideEffect side" "ri_side_effect i = side"
    "ri_replayable i = CanAutomaticallyReplay side allows recovery"
  shows "fst (DecideRecovery i) \<noteq> RetryWorker \<and>
    (\<not> ri_cancelled i \<and> \<not> ri_terminal_blocked i \<and>
     ri_class i \<notin> {FailureCancelled, FailureContract, FailureEnvironment, FailurePolicy} \<longrightarrow>
     ShouldBlockTask (fst (DecideRecovery i)))"
proof -
  have r: "\<not> ri_replayable i" using assms by (simp add: CanAutomaticallyReplay_def IsTaskReplayable_def)
  then show ?thesis
    by (auto simp: DecideRecovery_def early_class_def ShouldBlockTask_def split: failure_class.splits)
qed

definition sample_input :: recovery_input where
  "sample_input = \<lparr>ri_class = FailureExecution, ri_side_effect = SideEffectExternalWrite,
     ri_policy = RecoveryRetry, ri_attempt = 1, ri_max = 3, ri_evidence = True, ri_fingerprint = ''a'',
     ri_previous = [], ri_terminal_blocked = False, ri_protocol_failure = False,
     ri_repair_exhausted = False, ri_unfixable_verify = False, ri_same_failure = False,
     ri_cancelled = False, ri_replayable = False, ri_protocol_repair_retry = False,
     ri_protocol_retry_safe = False\<rparr>"

theorem unsafe_never_replayed_witness:
  "ShouldBlockTask (fst (DecideRecovery sample_input)) \<and>
   fst (DecideRecovery (sample_input\<lparr>ri_replayable := True\<rparr>)) = RetryWorker"
proof -
  have "ri_replayable sample_input = CanAutomaticallyReplay SideEffectExternalWrite None (Some RecoveryRetry)"
    "ri_side_effect sample_input = SideEffectExternalWrite"
    by (simp_all add: sample_input_def CanAutomaticallyReplay_def IsTaskReplayable_def)
  from unsafe_never_replayed [OF _ this(2,1)]
  have "ShouldBlockTask (fst (DecideRecovery sample_input))" by (simp add: sample_input_def)
  then show ?thesis
    by (simp add: DecideRecovery_def early_class_def isRepeatedFailure_def policy_gate_def sample_input_def)
qed

end
