(* ===== verification/Go_Strings.thy ===== *)
theory Go_Strings
  imports Prelude "HOL-Library.Char_ord" "HOL-Library.List_Lexorder"
begin

text \<open>
  The part of Go's standard library the modelled code relies on: strings as byte lists,
  \<open>strings.TrimSpace\<close>, \<open>strings.Cut\<close>, decimal printing and \<open>strconv.ParseUint\<close>,
  \<open>json.Marshal\<close> for the few shapes that are hashed, and the acceptance of RFC 3339
  timestamps. A \<open>char\<close> is a byte, so a non-ASCII rune is several of them.
\<close>

abbreviation byte_of :: "char \<Rightarrow> nat" where
  "byte_of c \<equiv> (of_char c :: nat)"

section \<open>White space\<close>

text \<open>
  The UTF-8 encodings of the runes \<open>unicode.IsSpace\<close> accepts. An encoding starts with a lead
  byte, so a decoder meets it wherever it occurs as a substring; matching encodings byte-wise
  is what decoding runes does.
\<close>

definition ascii_spaces :: "nat list" where
  "ascii_spaces = [9, 10, 11, 12, 13, 32]"

definition space_encodings :: "nat list list" where
  "space_encodings =
     [[194, 133], [194, 160], [225, 154, 128],
      [226, 128, 128], [226, 128, 129], [226, 128, 130], [226, 128, 131], [226, 128, 132],
      [226, 128, 133], [226, 128, 134], [226, 128, 135], [226, 128, 136], [226, 128, 137],
      [226, 128, 138], [226, 128, 168], [226, 128, 169], [226, 128, 175], [226, 129, 159],
      [227, 128, 128]]"

fun strip_prefix :: "nat list \<Rightarrow> string \<Rightarrow> string option" where
  "strip_prefix [] s = Some s"
| "strip_prefix (p # ps) [] = None"
| "strip_prefix (p # ps) (c # s) = (if byte_of c = p then strip_prefix ps s else None)"

text \<open>The rest of the string after one leading space rune, if there is one.\<close>

definition leading_space :: "nat list list \<Rightarrow> string \<Rightarrow> string option" where
  "leading_space encs s =
     (case s of [] \<Rightarrow> None
      | c # cs \<Rightarrow> if byte_of c \<in> set ascii_spaces then Some cs
                 else if byte_of c < 128 then None
                 else List.find (\<lambda>_. True) (List.map_filter (\<lambda>e. strip_prefix e s) encs))"

lemma strip_prefix_length: "strip_prefix p s = Some t \<Longrightarrow> length s = length p + length t"
  by (induction p s rule: strip_prefix.induct) (auto split: if_splits)

lemma map_filter_strip:
  "List.find (\<lambda>_. True) (List.map_filter (\<lambda>e. strip_prefix e s) encs) = Some t \<Longrightarrow>
   \<exists>e \<in> set encs. strip_prefix e s = Some t"
  by (induction encs) (auto simp: List.map_filter_simps split: option.splits)

definition proper_encodings :: "nat list list \<Rightarrow> bool" where
  "proper_encodings encs = (\<forall>e \<in> set encs. e \<noteq> [])"

fun trim_with :: "nat \<Rightarrow> nat list list \<Rightarrow> string \<Rightarrow> string" where
  "trim_with 0 encs s = s"
| "trim_with (Suc n) encs s =
     (case leading_space encs s of None \<Rightarrow> s | Some t \<Rightarrow> trim_with n encs t)"

text \<open>Each stripped rune is at least one byte, so the string's own length is enough fuel.\<close>

definition TrimLeft :: "string \<Rightarrow> string" where
  "TrimLeft s = trim_with (length s) space_encodings s"

definition TrimRight :: "string \<Rightarrow> string" where
  "TrimRight s = rev (trim_with (length s) (map rev space_encodings) (rev s))"

definition TrimSpace :: "string \<Rightarrow> string" where
  "TrimSpace s = TrimRight (TrimLeft s)"

lemma leading_space_length:
  assumes "proper_encodings encs" "leading_space encs s = Some t"
  shows "length t < length s"
proof (cases s)
  case Nil
  with assms(2) show ?thesis by (simp add: leading_space_def)
next
  case (Cons c cs)
  show ?thesis
  proof (cases "byte_of c \<in> set ascii_spaces")
    case True
    with Cons assms(2) show ?thesis by (simp add: leading_space_def)
  next
    case False
    with Cons assms(2) obtain e where "e \<in> set encs" "strip_prefix e s = Some t"
      by (auto simp: leading_space_def split: if_splits dest!: map_filter_strip)
    with assms(1) show ?thesis
      by (auto simp: proper_encodings_def dest!: strip_prefix_length)
  qed
qed

lemma trim_with_enough:
  "proper_encodings encs \<Longrightarrow> length s \<le> n \<Longrightarrow> leading_space encs (trim_with n encs s) = None"
proof (induction n arbitrary: s)
  case 0
  then show ?case by (simp add: leading_space_def)
next
  case (Suc n)
  show ?case
  proof (cases "leading_space encs s")
    case None
    then show ?thesis by simp
  next
    case (Some t)
    with Suc.prems have "length t \<le> n"
      using leading_space_length [OF Suc.prems(1) Some] by simp
    with Suc.IH Suc.prems(1) Some show ?thesis by simp
  qed
qed

lemma proper_space_encodings: "proper_encodings space_encodings"
  by (simp add: proper_encodings_def space_encodings_def)

lemma TrimLeft_no_space: "leading_space space_encodings (TrimLeft s) = None"
  unfolding TrimLeft_def by (rule trim_with_enough) (simp_all add: proper_space_encodings)

lemma TrimSpace_Nil [simp]: "TrimSpace [] = []"
  by (simp add: TrimSpace_def TrimLeft_def TrimRight_def)

text \<open>\<open>strings.IndexFunc(s, unicode.IsSpace) \<ge> 0\<close>\<close>

fun has_space :: "string \<Rightarrow> bool" where
  "has_space [] = False"
| "has_space (c # s) = (leading_space space_encodings (c # s) \<noteq> None \<or> has_space s)"

lemma strip_prefix_Some: "strip_prefix p s = Some t \<longleftrightarrow> (\<exists>q. s = q @ t \<and> map byte_of q = p)"
proof (induction p s rule: strip_prefix.induct)
  case (3 p ps c s)
  show ?case
  proof
    assume "strip_prefix (p # ps) (c # s) = Some t"
    with 3 obtain q where "s = q @ t" "map byte_of q = ps" "byte_of c = p"
      by (auto split: if_splits)
    then show "\<exists>q. c # s = q @ t \<and> map byte_of q = p # ps"
      by (intro exI [of _ "c # q"]) simp
  qed (use 3 in \<open>auto simp: Cons_eq_append_conv\<close>)
qed auto

lemma leading_space_found:
  assumes "e \<in> set encs" "map byte_of q = e" "e \<noteq> []" "128 \<le> hd e"
  shows "leading_space encs (q @ t) \<noteq> None"
proof -
  obtain c cs where q: "q = c # cs" using assms by (cases q) auto
  have big: "128 \<le> byte_of c" using assms q by auto
  have "strip_prefix e (q @ t) = Some t" using assms(2) by (auto simp: strip_prefix_Some)
  then have "t \<in> set (List.map_filter (\<lambda>e. strip_prefix e (q @ t)) encs)"
    using assms(1) by (force simp: List.map_filter_def)
  then have "List.find (\<lambda>_. True) (List.map_filter (\<lambda>e. strip_prefix e (q @ t)) encs) \<noteq> None"
    by (auto simp: find_None_iff)
  then show ?thesis using big q by (auto simp: leading_space_def)
qed

lemma has_space_append: "leading_space space_encodings v \<noteq> None \<Longrightarrow> has_space (u @ v)"
proof (induction u)
  case Nil
  then show ?case by (cases v) (auto simp: leading_space_def)
qed simp

lemma lead_bytes: "e \<in> set space_encodings \<Longrightarrow> e \<noteq> [] \<and> 128 \<le> hd e"
  by (auto simp: space_encodings_def)

text \<open>A string without white space is unchanged by \<open>TrimSpace\<close>.\<close>

lemma trailing_has_space:
  assumes "leading_space (map rev space_encodings) (rev s) \<noteq> None"
  shows "has_space s"
proof (cases "rev s")
  case Nil
  with assms show ?thesis by (simp add: leading_space_def)
next
  case (Cons c cs)
  then have s: "s = rev cs @ [c]" by (metis rev.simps(2) rev_swap)
  show ?thesis
  proof (cases "byte_of c \<in> set ascii_spaces")
    case True
    then have "leading_space space_encodings [c] \<noteq> None" by (simp add: leading_space_def)
    then show ?thesis unfolding s by (rule has_space_append)
  next
    case False
    with assms Cons obtain e t where "e \<in> set space_encodings" "strip_prefix (rev e) (rev s) = Some t"
      by (auto simp: leading_space_def split: if_splits dest!: map_filter_strip)
    then obtain q where q: "rev s = q @ t" "map byte_of (rev q) = e" and e: "e \<in> set space_encodings"
      by (auto simp: strip_prefix_Some rev_map [symmetric] rev_swap)
    have "s = rev t @ rev q" using q(1) by (metis rev_append rev_rev_ident)
    moreover have "leading_space space_encodings (rev q @ []) \<noteq> None"
      using leading_space_found [OF e q(2)] lead_bytes [OF e] by blast
    ultimately show ?thesis using has_space_append by (metis append_Nil2)
  qed
qed

lemma TrimSpace_no_space:
  assumes "\<not> has_space s"
  shows "TrimSpace s = s"
proof -
  have none: "leading_space encs u = None \<Longrightarrow> trim_with n encs u = u" for n encs u
    by (cases n) simp_all
  have "leading_space space_encodings s = None"
    using assms by (metis append_Nil has_space_append)
  then have left: "TrimLeft s = s" by (simp add: TrimLeft_def none)
  have "leading_space (map rev space_encodings) (rev s) = None"
    using assms trailing_has_space by blast
  then show ?thesis by (simp add: TrimSpace_def left TrimRight_def none)
qed

section \<open>Cutting and digits\<close>

text \<open>\<open>strings.Cut(s, sep)\<close> for a one-byte separator: the part before, the part after, found.\<close>

fun Cut :: "char \<Rightarrow> string \<Rightarrow> string \<times> string \<times> bool" where
  "Cut sep [] = ([], [], False)"
| "Cut sep (c # s) =
     (if c = sep then ([], s, True)
      else (case Cut sep s of (b, a, f) \<Rightarrow> (c # b, a, f)))"

lemma Cut_join: "Cut sep s = (b, a, True) \<Longrightarrow> s = b @ sep # a"
  by (induction s arbitrary: b) (auto split: if_splits prod.splits)

lemma Cut_absent: "Cut sep s = (b, a, False) \<Longrightarrow> b = s \<and> a = [] \<and> sep \<notin> set s"
  by (induction s arbitrary: b) (auto split: if_splits prod.splits)

lemma Cut_append [simp]: "sep \<notin> set b \<Longrightarrow> Cut sep (b @ sep # a) = (b, a, True)"
  by (induction b) auto

lemma separator_split:
  fixes sep :: char
  assumes "sep \<notin> set a" "sep \<notin> set b" "a @ sep # x = b @ sep # y"
  shows "a = b \<and> x = y"
proof -
  have "Cut sep (a @ sep # x) = Cut sep (b @ sep # y)" using assms(3) by simp
  then show ?thesis unfolding Cut_append [OF assms(1)] Cut_append [OF assms(2)] by simp
qed

lemma Cut_none [simp]: "sep \<notin> set s \<Longrightarrow> Cut sep s = (s, [], False)"
  by (induction s) auto

definition is_digit :: "char \<Rightarrow> bool" where
  "is_digit c \<longleftrightarrow> 48 \<le> byte_of c \<and> byte_of c \<le> 57"

definition digit_val :: "char \<Rightarrow> nat" where
  "digit_val c = byte_of c - 48"

definition digit_char :: "nat \<Rightarrow> char" where
  "digit_char d = char_of (48 + d)"

lemma digit_char_inverse [simp]:
  assumes "d < 10"
  shows "is_digit (digit_char d)" "digit_val (digit_char d) = d"
  using assms by (simp_all add: is_digit_def digit_val_def digit_char_def)

lemma digit_val_char [simp]: "is_digit c \<Longrightarrow> digit_char (digit_val c) = c"
  by (simp add: is_digit_def digit_val_def digit_char_def)

lemma digit_val_less: "is_digit c \<Longrightarrow> digit_val c < 10"
  by (auto simp: is_digit_def digit_val_def)

lemma digit_not_dot: "is_digit c \<Longrightarrow> c \<noteq> CHR ''.''"
  by (auto simp: is_digit_def)

text \<open>The value of a digit string, most significant first.\<close>

definition dec_val :: "string \<Rightarrow> nat" where
  "dec_val s = foldl (\<lambda>v c. 10 * v + digit_val c) 0 s"

lemma dec_val_simps [simp]:
  "dec_val [] = 0"
  "dec_val (s @ [c]) = 10 * dec_val s + digit_val c"
  by (simp_all add: dec_val_def)

text \<open>\<open>fmt.Sprintf("%d", n)\<close> for a non-negative number.\<close>

fun dec :: "nat \<Rightarrow> string" where
  "dec n = (if n < 10 then [digit_char n] else dec (n div 10) @ [digit_char (n mod 10)])"

declare dec.simps [simp del]

lemma dec_digits: "list_all is_digit (dec n)"
  by (induction n rule: dec.induct) (subst dec.simps, auto)

lemma dec_val_dec [simp]: "dec_val (dec n) = n"
proof (induction n rule: dec.induct)
  case (1 n)
  show ?case
  proof (cases "n < 10")
    case True
    then have "dec_val ([] @ [digit_char n]) = n" by (simp del: append_Nil)
    with True show ?thesis by (subst dec.simps) simp
  next
    case False
    with 1 show ?thesis by (subst dec.simps) simp
  qed
qed

lemma dec_nonempty [simp]: "dec n \<noteq> []"
  by (subst dec.simps) simp

lemma dec_no_leading_zero: "1 < length (dec n) \<Longrightarrow> hd (dec n) \<noteq> CHR ''0''"
proof (induction n rule: dec.induct)
  case (1 n)
  show ?case
  proof (cases "n < 10")
    case True
    with 1 show ?thesis by (simp add: dec.simps)
  next
    case False
    have zero: "digit_char 0 = CHR ''0''" unfolding digit_char_def by code_simp
    have hd: "hd (dec n) = hd (dec (n div 10))"
      using False by (subst dec.simps) simp
    show ?thesis
    proof (cases "1 < length (dec (n div 10))")
      case True
      with 1 False hd show ?thesis by simp
    next
      case small: False
      then have "length (dec (n div 10)) = 1"
        by (metis One_nat_def Suc_lessI dec_nonempty length_greater_0_conv)
      then have "n div 10 < 10"
        by (metis Suc_eq_plus1 add_is_1 append_is_Nil_conv dec.simps dec_nonempty length_0_conv
            length_append list.size(3) list.size(4))
      then have "hd (dec n) = digit_char (n div 10)"
        using hd by (simp add: dec.simps)
      moreover have "digit_char (n div 10) \<noteq> digit_char 0"
        using \<open>n div 10 < 10\<close> False digit_char_inverse(2) [of "n div 10"] digit_char_inverse(2) [of 0]
        by (metis div_greater_zero_iff less_numeral_extra(3) linorder_not_less zero_less_numeral)
      ultimately show ?thesis using zero by simp
    qed
  qed
qed

text \<open>Printing a signed value.\<close>

definition dec_int :: "int \<Rightarrow> string" where
  "dec_int i = (if i < 0 then CHR ''-'' # dec (nat (- i)) else dec (nat i))"

text \<open>\<open>%06d\<close> for a value below one million.\<close>

definition pad6 :: "nat \<Rightarrow> string" where
  "pad6 n = map digit_char [n div 100000 mod 10, n div 10000 mod 10, n div 1000 mod 10,
                            n div 100 mod 10, n div 10 mod 10, n mod 10]"

lemma pad6_digits: "list_all is_digit (pad6 n)" "length (pad6 n) = 6"
  by (simp_all add: pad6_def)

lemma dec_val_pad6:
  assumes "n < 1000000"
  shows "dec_val (pad6 n) = n"
proof -
  have step: "10 * (n div (10 * k)) + n div k mod 10 = n div k" for k
    by (metis div_mult2_eq mult.commute mult_div_mod_eq)
  have top: "n div 100000 < 10" using assms by simp
  have "dec_val (pad6 n) = 100000 * (n div 100000) + 10000 * (n div 10000 mod 10) +
          1000 * (n div 1000 mod 10) + 100 * (n div 100 mod 10) + 10 * (n div 10 mod 10) + n mod 10"
    using top by (simp add: dec_val_def pad6_def)
  also have "\<dots> = n"
  proof -
    have "10 * (n div 100) + n div 10 mod 10 = n div 10"
      "10 * (n div 1000) + n div 100 mod 10 = n div 100"
      "10 * (n div 10000) + n div 1000 mod 10 = n div 1000"
      "10 * (n div 100000) + n div 10000 mod 10 = n div 10000"
      "10 * (n div 10) + n mod 10 = n"
      using step [of 10] step [of 100] step [of 1000] step [of 10000] by simp_all
    then show ?thesis by linarith
  qed
  finally show ?thesis .
qed

text \<open>\<open>strconv.ParseUint(s, 10, 64)\<close>: a syntax error or a range error is \<open>None\<close>.\<close>

definition ParseUint64 :: "string \<Rightarrow> int option" where
  "ParseUint64 s =
     (if s = [] \<or> \<not> list_all is_digit s then None
      else if int (dec_val s) < 18446744073709551616 then Some (int (dec_val s)) else None)"

section \<open>JSON\<close>

definition hex_digit :: "nat \<Rightarrow> char" where
  "hex_digit d = (if d < 10 then char_of (48 + d) else char_of (87 + d))"

text \<open>
  \<open>json.Marshal\<close> of a string, with its HTML escaping. Bytes of valid UTF-8 sequences other
  than U+2028 and U+2029 are copied; strings that are not valid UTF-8 are outside this model.
\<close>

definition json_char :: "char \<Rightarrow> string" where
  "json_char c = (let b = byte_of c in
     if b = 34 then [CHR 0x5C, CHR 0x22]
     else if b = 92 then [CHR 0x5C, CHR 0x5C]
     else if b = 8 then [CHR 0x5C, CHR ''b'']
     else if b = 12 then [CHR 0x5C, CHR ''f'']
     else if b = 10 then [CHR 0x5C, CHR ''n'']
     else if b = 13 then [CHR 0x5C, CHR ''r'']
     else if b = 9 then [CHR 0x5C, CHR ''t'']
     else if b < 32 \<or> b = 60 \<or> b = 62 \<or> b = 38
       then [CHR 0x5C, CHR ''u'', CHR ''0'', CHR ''0'', hex_digit (b div 16), hex_digit (b mod 16)]
     else [c])"

fun json_chars :: "string \<Rightarrow> string" where
  "json_chars [] = []"
| "json_chars (a # b # c # s) =
     (if byte_of a = 226 \<and> byte_of b = 128 \<and> (byte_of c = 168 \<or> byte_of c = 169)
      then [CHR 0x5C, CHR ''u'', CHR ''2'', CHR ''0'', CHR ''2'', hex_digit (byte_of c - 160)] @ json_chars s
      else json_char a @ json_chars (b # c # s))"
| "json_chars (a # s) = json_char a @ json_chars s"

definition json_string :: "string \<Rightarrow> string" where
  "json_string s = [CHR 0x22] @ json_chars s @ [CHR 0x22]"

text \<open>An object from the encoded fields that are present, in declaration order.\<close>

fun json_fields :: "(string \<times> string) list \<Rightarrow> string" where
  "json_fields [] = []"
| "json_fields [(k, v)] = json_string k @ '':'' @ v"
| "json_fields ((k, v) # f # fs) = json_string k @ '':'' @ v @ '','' @ json_fields (f # fs)"

definition json_object :: "(string \<times> string option) list \<Rightarrow> string" where
  "json_object fs =
     ''{'' @ json_fields (List.map_filter (\<lambda>(k, v). map_option (\<lambda>x. (k, x)) v) fs) @ ''}''"

fun json_items :: "string list \<Rightarrow> string" where
  "json_items [] = []"
| "json_items [v] = v"
| "json_items (v # w # vs) = v @ '','' @ json_items (w # vs)"

definition json_array :: "string list \<Rightarrow> string" where
  "json_array vs = ''['' @ json_items vs @ '']''"

section \<open>RFC 3339 timestamps\<close>

text \<open>
  Acceptance by \<open>time.Parse(time.RFC3339Nano, s)\<close>: fixed-width date fields, an hour of one or
  two digits, an optional fraction after a period or a comma, and \<open>Z\<close> or a numeric offset.
\<close>

definition days_in :: "nat \<Rightarrow> nat \<Rightarrow> nat" where
  "days_in m y =
     (if m = 2 then (if y mod 4 = 0 \<and> (y mod 100 \<noteq> 0 \<or> y mod 400 = 0) then 29 else 28)
      else if m \<in> {4, 6, 9, 11} then 30 else 31)"

text \<open>\<open>n\<close> digits and the rest.\<close>

definition take_digits :: "nat \<Rightarrow> string \<Rightarrow> (nat \<times> string) option" where
  "take_digits n s =
     (if n \<le> length s \<and> list_all is_digit (take n s) then Some (dec_val (take n s), drop n s) else None)"

definition eat :: "char \<Rightarrow> string \<Rightarrow> string option" where
  "eat c s = (case s of [] \<Rightarrow> None | d # t \<Rightarrow> if d = c then Some t else None)"

definition hour_digits :: "string \<Rightarrow> (nat \<times> string) option" where
  "hour_digits s = (case take_digits 2 s of Some r \<Rightarrow> Some r | None \<Rightarrow> take_digits 1 s)"

definition skip_fraction :: "string \<Rightarrow> string" where
  "skip_fraction s =
     (case s of
        c # d # t \<Rightarrow> if (c = CHR ''.'' \<or> c = CHR '','') \<and> is_digit d then dropWhile is_digit t else s
      | _ \<Rightarrow> s)"

definition zone_ok :: "string \<Rightarrow> bool" where
  "zone_ok s =
     (s = ''Z'' \<or>
      (case s of
         [g, h1, h2, c, m1, m2] \<Rightarrow>
           (g = CHR ''+'' \<or> g = CHR ''-'') \<and> c = CHR '':'' \<and> list_all is_digit [h1, h2, m1, m2] \<and>
           dec_val [h1, h2] \<le> 24 \<and> dec_val [m1, m2] \<le> 60
       | _ \<Rightarrow> False))"

definition validTimestamp :: "string \<Rightarrow> bool" where
  "validTimestamp s =
     (case Option.bind (take_digits 4 s) (\<lambda>(y, s). Option.bind (eat CHR ''-'' s) (\<lambda>s.
        Option.bind (take_digits 2 s) (\<lambda>(mo, s). Option.bind (eat CHR ''-'' s) (\<lambda>s.
        Option.bind (take_digits 2 s) (\<lambda>(d, s). Option.bind (eat CHR ''T'' s) (\<lambda>s.
        Option.bind (hour_digits s) (\<lambda>(h, s). Option.bind (eat CHR '':'' s) (\<lambda>s.
        Option.bind (take_digits 2 s) (\<lambda>(mi, s). Option.bind (eat CHR '':'' s) (\<lambda>s.
        Option.bind (take_digits 2 s) (\<lambda>(se, s).
          Some (1 \<le> mo \<and> mo \<le> 12 \<and> 1 \<le> d \<and> d \<le> days_in mo y \<and> h < 24 \<and> mi < 60 \<and> se < 60 \<and>
                zone_ok (skip_fraction s)))))))))))))
      of None \<Rightarrow> False | Some ok \<Rightarrow> ok)"

end
