(* ===== verification/Resource_Claims.thy ===== *)
theory Resource_Claims
  imports Go_Strings "HOL-Library.Sublist" "HOL-Library.List_Lexorder"
begin

text \<open>
  The scheduler's resource locks: \<open>internal/team/plan_revision.go\<close>, from
  \<open>normalizeResourceClaimMode\<close> to \<open>claimsConflict\<close>, with the path contract of
  \<open>invariant_manifest.go\<close> (\<open>normalizeInvariantPath\<close>, \<open>NormalizeTouchedPath\<close>) it relies on.
  A claim names a resource and a mode; \<open>workspace:path:<p>\<close> claims a repository-relative path and
  everything below it. The lemmas say what a conflict means: two well-formed workspace claims
  conflict exactly when one path is at or below the other and not both only read.
\<close>

section \<open>Data\<close>

datatype claim_mode = ResourceRead | ResourceWrite | ResourceExclusive | ModeEmpty | ModeOther string

record resource_claim =
  rc_resource :: string
  rc_mode :: claim_mode

datatype claim_error =
    InvalidMode | ReservedResource | EmptyResourcePath | BackslashInPath
  | EmptyPath | PathTooLong | PathSyntax | NotExactPath | DirtySegments | GlobalSelector

section \<open>Repository-relative paths\<close>

text \<open>\<open>strings.Split\<close> on a slash.\<close>

fun segments :: "string \<Rightarrow> string list" where
  "segments [] = [[]]"
| "segments (c # cs) =
     (if c = CHR ''/'' then [] # segments cs
      else case segments cs of (w # ws) \<Rightarrow> (c # w) # ws | [] \<Rightarrow> [[c]])"

definition TrimSuffixSlash :: "string \<Rightarrow> string" where
  "TrimSuffixSlash s = (if s \<noteq> [] \<and> last s = CHR ''/'' then butlast s else s)"

definition plain_segment :: "string \<Rightarrow> bool" where
  "plain_segment w \<longleftrightarrow> w \<noteq> [] \<and> w \<noteq> ''.'' \<and> w \<noteq> ''..''"

text \<open>
  The code also compares the core with its \<open>path.Clean\<close>. A relative path all of whose segments
  are plain is its own \<open>Clean\<close>, and one with another segment is refused by the loop over the
  segments with the same error, so the comparison decides nothing and is not modelled.
\<close>

definition normalizeInvariantPath :: "string \<Rightarrow> claim_error + string" where
  "normalizeInvariantPath raw =
     (let v = TrimSpace raw in
      if v = ''*'' then Inr v
      else if v = [] then Inl EmptyPath
      else if 256 < length v then Inl PathTooLong
      else if list_ex (\<lambda>c. c = CHR 0x00 \<or> c = CHR 0x5C) v then Inl PathSyntax
      else if hd v = CHR ''/'' \<or> list_ex (\<lambda>c. c \<in> set ''*?[]{}'') v then Inl NotExactPath
      else let core = TrimSuffixSlash v in
        if core = [] \<or> \<not> list_all plain_segment (segments core) then Inl DirtySegments
        else if last v = CHR ''/'' then Inr (core @ ''/'') else Inr core)"

definition NormalizeTouchedPath :: "string \<Rightarrow> claim_error + string" where
  "NormalizeTouchedPath raw =
     bindR (normalizeInvariantPath raw) (\<lambda>v. if v = ''*'' then Inl GlobalSelector else Inr v)"

section \<open>Claims\<close>

definition workspacePathResourcePrefix :: string where
  "workspacePathResourcePrefix = ''workspace:path:''"

definition ParseWorkspacePathResource :: "string \<Rightarrow> claim_error + (string \<times> bool)" where
  "ParseWorkspacePathResource r =
     (if \<not> prefix workspacePathResourcePrefix r
      then if prefix ''workspace:'' r then Inl ReservedResource else Inr ([], False)
      else let v = drop (length workspacePathResourcePrefix) r in
        if v = [] then Inl EmptyResourcePath
        else if v = ''.'' then Inr (v, True)
        else if list_ex (\<lambda>c. c = CHR 0x5C) v then Inl BackslashInPath
        else bindR (NormalizeTouchedPath v) (\<lambda>p. Inr (TrimSuffixSlash p, True)))"

fun normalizeResourceClaimMode :: "claim_mode \<Rightarrow> claim_mode" where
  "normalizeResourceClaimMode ModeEmpty = ResourceExclusive"
| "normalizeResourceClaimMode m = m"

definition normalizeResourceClaim :: "resource_claim \<Rightarrow> claim_error + resource_claim" where
  "normalizeResourceClaim c =
     (case normalizeResourceClaimMode (rc_mode c) of
        ModeOther _ \<Rightarrow> Inl InvalidMode
      | m \<Rightarrow> bindR (ParseWorkspacePathResource (rc_resource c)) (\<lambda>(p, workspace).
               Inr \<lparr>rc_resource = (if workspace then workspacePathResourcePrefix @ p else rc_resource c),
                    rc_mode = m\<rparr>))"

fun resourceClaimModeStrength :: "claim_mode \<Rightarrow> int" where
  "resourceClaimModeStrength ResourceRead = 1"
| "resourceClaimModeStrength ResourceWrite = 2"
| "resourceClaimModeStrength ResourceExclusive = 3"
| "resourceClaimModeStrength ModeEmpty = 3"
| "resourceClaimModeStrength (ModeOther _) = 4"

text \<open>The strongest mode per resource, in the order of the resource names; empty resources are dropped.\<close>

fun strongest :: "(string \<times> claim_mode) list \<Rightarrow> resource_claim list \<Rightarrow> claim_error + (string \<times> claim_mode) list"
where
  "strongest byResource [] = Inr byResource"
| "strongest byResource (c # cs) =
     bindR (normalizeResourceClaim c) (\<lambda>n.
       if rc_resource n = [] then strongest byResource cs
       else case map_of byResource (rc_resource n) of
              Some m \<Rightarrow>
                if resourceClaimModeStrength m < resourceClaimModeStrength (rc_mode n)
                then strongest (AList.update (rc_resource n) (rc_mode n) byResource) cs
                else strongest byResource cs
            | None \<Rightarrow> strongest (AList.update (rc_resource n) (rc_mode n) byResource) cs)"

definition normalizeResourceClaims :: "resource_claim list \<Rightarrow> claim_error + resource_claim list" where
  "normalizeResourceClaims cs =
     bindR (strongest [] cs) (\<lambda>m.
       Inr (map (\<lambda>k. \<lparr>rc_resource = k, rc_mode = the (map_of m k)\<rparr>)
              (sort_key (map byte_of) (map fst m))))"

definition workspacePathsOverlap :: "string \<Rightarrow> string \<Rightarrow> bool" where
  "workspacePathsOverlap l r \<longleftrightarrow>
     l = ''.'' \<or> r = ''.'' \<or> l = r \<or> prefix (r @ ''/'') l \<or> prefix (l @ ''/'') r"

text \<open>
  The second parse cannot fail on a normalized claim; the code drops its error, and what it then
  reads are the zero values.
\<close>

definition parsed :: "string \<Rightarrow> string \<times> bool" where
  "parsed r = (case ParseWorkspacePathResource r of Inl _ \<Rightarrow> ([], False) | Inr p \<Rightarrow> p)"

definition resourceClaimConflicts :: "resource_claim \<Rightarrow> resource_claim \<Rightarrow> bool" where
  "resourceClaimConflicts a b =
     (case (normalizeResourceClaim a, normalizeResourceClaim b) of
        (Inr l, Inr r) \<Rightarrow>
          if rc_resource l = [] \<or> rc_resource r = [] then False
          else let (lp, lw) = parsed (rc_resource l);
                   (rp, rw) = parsed (rc_resource r);
                   overlaps = (if lw \<and> rw then workspacePathsOverlap lp rp
                               else rc_resource l = rc_resource r) in
               overlaps \<and> (rc_mode l \<noteq> ResourceRead \<or> rc_mode r \<noteq> ResourceRead)
      | _ \<Rightarrow> True)"

fun claimsConflict :: "resource_claim list \<Rightarrow> resource_claim list \<Rightarrow> bool" where
  "claimsConflict [] right \<longleftrightarrow> False"
| "claimsConflict (a # left) right \<longleftrightarrow>
     list_ex (resourceClaimConflicts a) right \<or> claimsConflict left right"

section \<open>What a conflict means\<close>

subsection \<open>Paths and their segments\<close>

fun join_slash :: "string list \<Rightarrow> string" where
  "join_slash [] = []"
| "join_slash [w] = w"
| "join_slash (w # ws) = w @ CHR ''/'' # join_slash ws"

lemma segments_not_Nil [simp]: "segments s \<noteq> []"
  by (induction s) (simp_all split: list.splits)

lemma join_segments [simp]: "join_slash (segments s) = s"
proof (induction s)
  case (Cons c s)
  obtain w ws where "segments s = w # ws" by (cases "segments s") simp_all
  with Cons show ?case by (cases ws) (simp_all)
qed simp

lemma segments_append_slash [simp]: "segments (r @ CHR ''/'' # t) = segments r @ segments t"
proof (induction r)
  case (Cons c r)
  obtain w ws where "segments r = w # ws" by (cases "segments r") simp_all
  with Cons show ?case by simp
qed simp

lemma join_slash_append:
  "xs \<noteq> [] \<Longrightarrow> ys \<noteq> [] \<Longrightarrow> join_slash (xs @ ys) = join_slash xs @ CHR ''/'' # join_slash ys"
proof (induction xs rule: join_slash.induct)
  case (2 w)
  then show ?case by (cases ys) simp_all
qed simp_all

lemma path_prefix_segments:
  "l = r \<or> prefix (r @ ''/'') l \<longleftrightarrow> prefix (segments r) (segments l)" (is "?L \<longleftrightarrow> ?R")
proof
  show "?L \<Longrightarrow> ?R" by (auto simp: prefix_def)
next
  assume ?R
  then obtain ws where ws: "segments l = segments r @ ws" by (auto simp: prefix_def)
  show ?L
  proof (cases ws)
    case Nil
    with ws have "join_slash (segments l) = join_slash (segments r)" by simp
    then show ?thesis by simp
  next
    case (Cons w vs)
    then have "l = r @ CHR ''/'' # join_slash ws"
      using join_slash_append [of "segments r" ws] ws join_segments [of l] by simp
    then show ?thesis by (simp add: prefix_def)
  qed
qed

text \<open>\<open>q\<close> is the path \<open>p\<close> or lies below it; a dot is the whole workspace.\<close>

definition below :: "string \<Rightarrow> string \<Rightarrow> bool" where
  "below p q \<longleftrightarrow> p = ''.'' \<or> prefix (segments p) (segments q)"

lemma workspacePathsOverlap_below: "workspacePathsOverlap l r \<longleftrightarrow> below l r \<or> below r l"
  using path_prefix_segments [of l r] path_prefix_segments [of r l]
  by (auto simp: workspacePathsOverlap_def below_def)

lemma below_common: "below p f \<Longrightarrow> below q f \<Longrightarrow> below p q \<or> below q p"
  by (auto simp: below_def dest: prefix_same_cases)

subsection \<open>Well-formed workspace claims\<close>

definition workspace_path :: "string \<Rightarrow> bool" where
  "workspace_path p \<longleftrightarrow> p = ''.'' \<or>
     p \<noteq> [] \<and> TrimSpace p = p \<and> length p \<le> 256 \<and> list_all (\<lambda>c. c \<noteq> CHR 0x00 \<and> c \<notin> set ''*?[]{}'' \<and> c \<noteq> CHR 0x5C) p \<and>
     list_all plain_segment (segments p)"

definition path_claim :: "string \<Rightarrow> claim_mode \<Rightarrow> resource_claim" where
  "path_claim p m = \<lparr>rc_resource = workspacePathResourcePrefix @ p, rc_mode = m\<rparr>"

definition known_mode :: "claim_mode \<Rightarrow> bool" where
  "known_mode m \<longleftrightarrow> m \<in> {ResourceRead, ResourceWrite, ResourceExclusive, ModeEmpty}"

lemma plain_ends:
  assumes "list_all plain_segment (segments p)"
  shows "p \<noteq> [] \<and> hd p \<noteq> CHR ''/'' \<and> last p \<noteq> CHR ''/''"
proof -
  have "p \<noteq> []" using assms by (auto simp: plain_segment_def)
  moreover have "hd p \<noteq> CHR ''/''"
    using assms by (cases p) (auto simp: plain_segment_def)
  moreover have "last p \<noteq> CHR ''/''"
  proof
    assume "last p = CHR ''/''"
    with \<open>p \<noteq> []\<close> have "p = butlast p @ CHR ''/'' # []" by (metis append_butlast_last_id)
    then have "segments p = segments (butlast p) @ segments []"
      by (metis segments_append_slash)
    with assms show False by (simp add: plain_segment_def)
  qed
  ultimately show ?thesis by blast
qed

lemma normalize_plain:
  assumes "workspace_path p" "p \<noteq> ''.''"
  shows "NormalizeTouchedPath p = Inr p \<and> TrimSuffixSlash p = p"
proof -
  have t: "TrimSpace p = p" and w: "length p \<le> 256" "list_all plain_segment (segments p)"
    "list_all (\<lambda>c. c \<noteq> CHR 0x00 \<and> c \<notin> set ''*?[]{}'' \<and> c \<noteq> CHR 0x5C) p"
    using assms by (simp_all add: workspace_path_def)
  have star: "p \<noteq> ''*''" using w(3) by auto
  have ends: "p \<noteq> []" "hd p \<noteq> CHR ''/''" "last p \<noteq> CHR ''/''" using plain_ends [OF w(2)] by simp_all
  then have trim: "TrimSuffixSlash p = p" by (simp add: TrimSuffixSlash_def)
  have a: "\<not> list_ex (\<lambda>c. c = CHR 0x00 \<or> c = CHR 0x5C) p" "\<not> list_ex (\<lambda>c. c \<in> set ''*?[]{}'') p"
    using w(3) by (auto simp: list_ex_iff list_all_iff)
  have "normalizeInvariantPath p = Inr p"
    unfolding normalizeInvariantPath_def Let_def t trim using star ends w(1,2) a by simp
  with star trim show ?thesis by (simp add: NormalizeTouchedPath_def)
qed

lemma parse_path_claim:
  assumes "workspace_path p"
  shows "ParseWorkspacePathResource (workspacePathResourcePrefix @ p) = Inr (p, True)"
proof (cases "p = ''.''")
  case False
  with assms have "p \<noteq> []" "\<not> list_ex (\<lambda>c. c = CHR 0x5C) p"
    by (auto simp: workspace_path_def list_ex_iff list_all_iff)
  with False normalize_plain [OF assms False] show ?thesis
    by (simp add: ParseWorkspacePathResource_def)
qed (simp add: ParseWorkspacePathResource_def)

lemma path_claims_conflict:
  assumes "workspace_path p" "workspace_path q" "known_mode m" "known_mode n"
  shows "resourceClaimConflicts (path_claim p m) (path_claim q n) \<longleftrightarrow>
    (below p q \<or> below q p) \<and> (m \<noteq> ResourceRead \<or> n \<noteq> ResourceRead)"
proof -
  have n: "normalizeResourceClaim (path_claim r k) =
      Inr (path_claim r (normalizeResourceClaimMode k))" if "workspace_path r" "known_mode k" for r k
    using that parse_path_claim [OF that(1)]
    by (cases k) (simp_all add: normalizeResourceClaim_def path_claim_def known_mode_def)
  have ne: "workspacePathResourcePrefix \<noteq> []" by (simp add: workspacePathResourcePrefix_def)
  have pr: "parsed (workspacePathResourcePrefix @ r) = (r, True)" if "workspace_path r" for r
    using parse_path_claim [OF that] by (simp add: parsed_def)
  have md: "normalizeResourceClaimMode k = ResourceRead \<longleftrightarrow> k = ResourceRead" for k by (cases k) simp_all
  show ?thesis
    unfolding resourceClaimConflicts_def n [OF assms(1,3)] n [OF assms(2,4)]
    using pr [OF assms(1)] pr [OF assms(2)] ne
    by (simp add: path_claim_def md workspacePathsOverlap_below Let_def)
qed

text \<open>What the parser accepts is well-formed once no white space is left at its ends, as is all that it leaves of a claim.\<close>

lemma TrimSuffixSlash_simps: "TrimSuffixSlash (c @ ''/'') = c" "c \<noteq> [] \<Longrightarrow> last c \<noteq> CHR ''/'' \<Longrightarrow> TrimSuffixSlash c = c"
  by (simp_all add: TrimSuffixSlash_def)

lemma TrimSuffixSlash_sub: "length (TrimSuffixSlash v) \<le> length v" "set (TrimSuffixSlash v) \<subseteq> set v"
  by (auto simp: TrimSuffixSlash_def dest: in_set_butlastD)

lemma normalized_path:
  assumes "normalizeInvariantPath raw = Inr n" "n \<noteq> ''*''" "v = TrimSpace raw"
  shows "length v \<le> 256" "\<not> list_ex (\<lambda>c. c = CHR 0x00 \<or> c = CHR 0x5C) v" "\<not> list_ex (\<lambda>c. c \<in> set ''*?[]{}'') v"
    "list_all plain_segment (segments (TrimSuffixSlash v))" "n = TrimSuffixSlash v @ ''/'' \<or> n = TrimSuffixSlash v"
  using assms(1,2) unfolding normalizeInvariantPath_def Let_def assms(3) [symmetric]
  by (simp_all only: not_less not_not de_Morgan_disj sum.inject sum.distinct refl simp_thms split: if_splits)

lemma parsed_path:
  assumes "ParseWorkspacePathResource r = Inr (p, True)" "TrimSpace p = p"
  shows "workspace_path p"
proof (cases "p = ''.''")
  case False
  let ?raw = "drop (length workspacePathResourcePrefix) r"
  from False assms(1) obtain n where "NormalizeTouchedPath ?raw = Inr n" and n: "p = TrimSuffixSlash n"
    by (auto simp: ParseWorkspacePathResource_def Let_def bindR_eq_Inr split: if_splits)
  then have "normalizeInvariantPath ?raw = Inr n" "n \<noteq> ''*''"
    by (auto simp: NormalizeTouchedPath_def bindR_eq_Inr split: if_splits)
  note v = normalized_path [OF this refl]
  have p: "p = TrimSuffixSlash (TrimSpace ?raw)"
    using v(5)
  proof
    assume "n = TrimSuffixSlash (TrimSpace ?raw) @ ''/''"
    with n show ?thesis by (simp only: TrimSuffixSlash_simps(1))
  next
    assume "n = TrimSuffixSlash (TrimSpace ?raw)"
    moreover have "TrimSuffixSlash (TrimSuffixSlash (TrimSpace ?raw)) = TrimSuffixSlash (TrimSpace ?raw)"
      using plain_ends [OF v(4)] by (intro TrimSuffixSlash_simps(2)) simp_all
    ultimately show ?thesis using n by (simp only:)
  qed
  have "c \<noteq> CHR 0x00 \<and> c \<notin> set ''*?[]{}'' \<and> c \<noteq> CHR 0x5C" if "c \<in> set p" for c
  proof -
    have "c \<in> set (TrimSpace ?raw)" using that TrimSuffixSlash_sub(2) [of "TrimSpace ?raw"] p by (metis subsetD)
    with v(2,3) show ?thesis unfolding list_ex_iff bex_simps(7) by metis
  qed
  moreover have "length p \<le> 256" using v(1) TrimSuffixSlash_sub(1) [of "TrimSpace ?raw"] unfolding p by simp
  moreover have "p \<noteq> []" "list_all plain_segment (segments p)" using plain_ends [OF v(4)] v(4) p by simp_all
  ultimately show ?thesis using assms(2) unfolding workspace_path_def list_all_iff by blast
qed (simp add: workspace_path_def)

lemma accepted_claim:
  assumes "ParseWorkspacePathResource (rc_resource c) = Inr (p, True)" "known_mode (rc_mode c)"
  shows "normalizeResourceClaim c = Inr (path_claim p (normalizeResourceClaimMode (rc_mode c)))"
  using assms by (cases "rc_mode c") (simp_all add: normalizeResourceClaim_def path_claim_def known_mode_def)

lemma unknown_mode: "\<not> known_mode (rc_mode c) \<Longrightarrow> normalizeResourceClaim c = Inl InvalidMode"
  by (cases "rc_mode c") (simp_all add: normalizeResourceClaim_def known_mode_def)

lemma unknown_mode_conflicts: "\<not> known_mode (rc_mode a) \<or> \<not> known_mode (rc_mode b) \<Longrightarrow> resourceClaimConflicts a b"
  using unknown_mode [of a] unknown_mode [of b] by (auto simp: resourceClaimConflicts_def split: sum.split)

lemma accepted_claims_conflict:
  assumes "ParseWorkspacePathResource (rc_resource a) = Inr (p, True)" "ParseWorkspacePathResource (rc_resource b) = Inr (q, True)"
    and "TrimSpace p = p" "TrimSpace q = q"
  shows "resourceClaimConflicts a b \<longleftrightarrow> \<not> known_mode (rc_mode a) \<or> \<not> known_mode (rc_mode b) \<or>
    (below p q \<or> below q p) \<and> (rc_mode a \<noteq> ResourceRead \<or> rc_mode b \<noteq> ResourceRead)"
proof (cases "known_mode (rc_mode a) \<and> known_mode (rc_mode b)")
  case True
  have n: "normalizeResourceClaim (path_claim r k) = Inr (path_claim r k)"
    if "workspace_path r" "known_mode k" "k \<noteq> ModeEmpty" for r k
    using accepted_claim [of "path_claim r k" r] parse_path_claim [OF that(1)] that(2,3)
    by (cases k) (simp_all add: path_claim_def)
  let ?m = "normalizeResourceClaimMode (rc_mode a)" and ?n = "normalizeResourceClaimMode (rc_mode b)"
  have k: "known_mode ?m" "known_mode ?n" "?m \<noteq> ModeEmpty" "?n \<noteq> ModeEmpty" "?m = ResourceRead \<longleftrightarrow> rc_mode a = ResourceRead"
    "?n = ResourceRead \<longleftrightarrow> rc_mode b = ResourceRead"
    using True by (cases "rc_mode a"; cases "rc_mode b"; simp add: known_mode_def)+
  note w = parsed_path [OF assms(1,3)] parsed_path [OF assms(2,4)]
  have "resourceClaimConflicts a b = resourceClaimConflicts (path_claim p ?m) (path_claim q ?n)"
    unfolding resourceClaimConflicts_def accepted_claim [OF assms(1) True [THEN conjunct1]]
      accepted_claim [OF assms(2) True [THEN conjunct2]] n [OF w(1) k(1,3)] n [OF w(2) k(2,4)] ..
  also have "\<dots> \<longleftrightarrow> (below p q \<or> below q p) \<and> (?m \<noteq> ResourceRead \<or> ?n \<noteq> ResourceRead)"
    by (rule path_claims_conflict [OF w k(1,2)])
  finally show ?thesis using True k(5,6) by simp
qed (use unknown_mode_conflicts in blast)

lemma claimsConflict_iff:
  "claimsConflict L R \<longleftrightarrow> (\<exists>a\<in>set L. \<exists>b\<in>set R. resourceClaimConflicts a b)"
  by (induction L) (auto simp: list_ex_iff)

lemma resourceClaimConflicts_sym: "resourceClaimConflicts a b = resourceClaimConflicts b a"
proof -
  have o: "workspacePathsOverlap l r = workspacePathsOverlap r l" for l r
    by (auto simp: workspacePathsOverlap_def)
  show ?thesis
    by (cases "normalizeResourceClaim a"; cases "normalizeResourceClaim b")
       (auto simp: resourceClaimConflicts_def o Let_def split: prod.splits)
qed

lemma claimsConflict_sym: "claimsConflict L R = claimsConflict R L"
  unfolding claimsConflict_iff using resourceClaimConflicts_sym by blast

lemma claimsConflict_Nil [simp]: "\<not> claimsConflict L []"
  by (simp add: claimsConflict_iff)

text \<open>
  C30. Claims isolate files. Take two claim lists that do not conflict, and in each a claim, however it is spelled, that parses to a
  workspace path without white space at its ends (a path that ends in white space can escape, see below). If a file lies
  under both paths, then both claims only read it.
\<close>

theorem claims_isolate_files:
  assumes "\<not> claimsConflict L R" "a \<in> set L" "b \<in> set R"
    and "ParseWorkspacePathResource (rc_resource a) = Inr (p, True)" "ParseWorkspacePathResource (rc_resource b) = Inr (q, True)"
    and "TrimSpace p = p" "TrimSpace q = q" "below p f" "below q f"
  shows "rc_mode a = ResourceRead \<and> rc_mode b = ResourceRead"
  using assms(1-3) accepted_claims_conflict [OF assms(4-7)] below_common [OF assms(8,9)]
  by (auto simp: claimsConflict_iff)

theorem claims_isolate_files_witness:
  "\<not> claimsConflict [path_claim ''src/a'' ResourceRead] [path_claim ''src'' ResourceRead] \<and>
   below ''src/a'' ''src/a/f.go'' \<and> below ''src'' ''src/a/f.go'' \<and>
   claimsConflict [path_claim ''src/a'' ResourceRead] [path_claim ''src'' ResourceWrite] \<and>
   \<not> claimsConflict [path_claim ''src/a'' ResourceWrite] [path_claim ''src/ab'' ResourceWrite]"
proof -
  have trims: "TrimSpace ''src/a'' = ''src/a''" "TrimSpace ''src'' = ''src''" "TrimSpace ''src/ab'' = ''src/ab''"
    by (rule TrimSpace_no_space, simp add: has_space.simps leading_space_def space_encodings_def ascii_spaces_def)+
  then have paths: "workspace_path ''src/a''" "workspace_path ''src''" "workspace_path ''src/ab''"
    by (simp_all add: workspace_path_def plain_segment_def)
  have modes: "known_mode ResourceRead" "known_mode ResourceWrite" by (simp_all add: known_mode_def)
  have "\<not> claimsConflict [path_claim ''src/a'' ResourceRead] [path_claim ''src'' ResourceRead]"
    using paths modes by (simp add: path_claims_conflict)
  moreover have b: "below ''src/a'' ''src/a/f.go''" "below ''src'' ''src/a/f.go''"
    by (simp_all add: below_def)
  moreover have "claimsConflict [path_claim ''src/a'' ResourceRead] [path_claim ''src'' ResourceWrite]"
    using claims_isolate_files [of "[path_claim ''src/a'' ResourceRead]" "[path_claim ''src'' ResourceWrite]"
      "path_claim ''src/a'' ResourceRead" "path_claim ''src'' ResourceWrite" "''src/a''" "''src''" "''src/a/f.go''"]
      parse_path_claim [OF paths(1)] parse_path_claim [OF paths(2)] trims b
    by (auto simp: path_claim_def)
  moreover have "\<not> claimsConflict [path_claim ''src/a'' ResourceWrite] [path_claim ''src/ab'' ResourceWrite]"
    using paths modes by (simp add: path_claims_conflict below_def)
  ultimately show ?thesis by blast
qed

text \<open>
  A directory whose name ends in a space escapes its own claim. The claim on the directory
  \<open>a /\<close> is normalized to the path with the space kept; the conflict test parses the normalized
  claim again, which trims the space, so a write of a file inside the directory is not a conflict.
\<close>

theorem trailing_space_claim_escapes:
  "NormalizeTouchedPath ''a /'' = Inr ''a /'' \<and> NormalizeTouchedPath ''a /x'' = Inr ''a /x'' \<and>
   below ''a '' ''a /x'' \<and>
   \<not> resourceClaimConflicts (path_claim ''a /'' ResourceWrite) (path_claim ''a /x'' ResourceWrite)"
  by code_simp

end
