(* ===== verification/Task_Graph.thy ===== *)
theory Task_Graph
  imports Recovery Resource_Claims
begin

text \<open>
  The task graph of one delegation round (\<open>internal/team/dag_scheduler.go\<close>): the part of a
  \<open>TaskDef\<close> (\<open>coordinator.go\<close>) the scheduler reads, the cycle check and the check of the
  \<open>on_failure\<close> targets that admit a batch, the reverse dependencies and the order in which a reset
  wave visits them, and \<open>serializeConflictingMutationTasks\<close> (\<open>delegation_policy.go\<close>). The lemmas
  relate each traversal to reachability in the graph.
\<close>

section \<open>Data\<close>

datatype task_kind = TaskKindOutcome | TaskKindDiagnostic | TaskKindRepair | TaskKindOther string

record task_def =
  td_agent :: string
  td_model :: string
  td_kind :: task_kind
  td_depends :: "int list"
  td_order_after :: "int list"
  td_on_failure :: "int option"
  td_failure_classes :: "failure_class list"
  td_max_retries :: int
  td_advances :: "string list"
  td_side_effect :: side_effect
  td_allows_replay :: "bool option"
  td_recovery :: "recovery_policy option"

abbreviation in_batch :: "nat \<Rightarrow> int \<Rightarrow> bool" where
  "in_batch n d \<equiv> 0 \<le> d \<and> d < int n"

abbreviation task_replayable :: "task_def \<Rightarrow> bool" where
  "task_replayable t \<equiv> CanAutomaticallyReplay (td_side_effect t) (td_allows_replay t) (td_recovery t)"

section \<open>Cycles\<close>

text \<open>
  The depth-first search of \<open>detectTaskCycle\<close>: its \<open>state\<close> array is threaded, the loop over the
  edges of a task is \<open>scan_edges\<close>. The first argument of \<open>dfs\<close> bounds the depth of the recursion;
  \<open>None\<close> is running out of it, which the bound of \<open>detectTaskCycle\<close> never does.
\<close>

datatype mark = Unvisited | Visiting | Finished

fun scan_edges ::
  "(nat \<Rightarrow> mark list \<Rightarrow> (bool \<times> mark list) option) \<Rightarrow> nat \<Rightarrow> nat \<Rightarrow> int list \<Rightarrow> mark list
    \<Rightarrow> (bool \<times> mark list) option" where
  "scan_edges visit n i [] st = Some (False, st)"
| "scan_edges visit n i (d # ds) st =
     (if d = int i then Some (True, st)
      else if in_batch n d then
        (case visit (nat d) st of
           None \<Rightarrow> None
         | Some (found, st') \<Rightarrow> if found then Some (True, st') else scan_edges visit n i ds st')
      else scan_edges visit n i ds st)"

fun dfs :: "nat \<Rightarrow> task_def list \<Rightarrow> nat \<Rightarrow> mark list \<Rightarrow> (bool \<times> mark list) option" where
  "dfs 0 tasks i st = None"
| "dfs (Suc k) tasks i st =
     (case st ! i of
        Visiting \<Rightarrow> Some (True, st)
      | Finished \<Rightarrow> Some (False, st)
      | Unvisited \<Rightarrow>
          (case scan_edges (dfs k tasks) (length tasks) i
                  (td_depends (tasks ! i) @ td_order_after (tasks ! i)) (st[i := Visiting]) of
             None \<Rightarrow> None
           | Some (found, st') \<Rightarrow> Some (found, if found then st' else st'[i := Finished])))"

fun dfs_from :: "task_def list \<Rightarrow> nat list \<Rightarrow> mark list \<Rightarrow> bool option" where
  "dfs_from tasks [] st = Some False"
| "dfs_from tasks (i # is) st =
     (if st ! i = Unvisited then
        (case dfs (Suc (length tasks)) tasks i st of
           None \<Rightarrow> None
         | Some (found, st') \<Rightarrow> if found then Some True else dfs_from tasks is st')
      else dfs_from tasks is st)"

definition detectTaskCycle :: "task_def list \<Rightarrow> bool" where
  "detectTaskCycle tasks \<longleftrightarrow>
     dfs_from tasks [0..<length tasks] (replicate (length tasks) Unvisited) = Some True"

section \<open>Breadth-first traversals\<close>

text \<open>
  The queue loop of \<open>validateOnFailureTargets\<close> and \<open>resetWaveWithRemediation\<close>: the nodes in the
  order in which the loop first takes them from its queue.
\<close>

function bfs :: "(nat \<Rightarrow> int list) \<Rightarrow> nat \<Rightarrow> nat list \<Rightarrow> int list \<Rightarrow> nat list" where
  "bfs out n seen [] = seen"
| "bfs out n seen (c # q) =
     (if \<not> in_batch n c \<or> nat c \<in> set seen then bfs out n seen q
      else bfs out n (seen @ [nat c]) (q @ out (nat c)))"
  by pat_completeness auto

termination
proof (relation "measures [\<lambda>(out, n, seen, q). card ({..<n} - set seen), \<lambda>(out, n, seen, q). length q]")
  fix out :: "nat \<Rightarrow> int list" and n seen c q
  assume "\<not> (\<not> in_batch n c \<or> nat c \<in> set seen)"
  then have "nat c \<in> {..<n} - set seen" by auto
  then have "{..<n} - set (seen @ [nat c]) \<subset> {..<n} - set seen" by auto
  then have "card ({..<n} - set (seen @ [nat c])) < card ({..<n} - set seen)"
    by (intro psubset_card_mono) auto
  then show "((out, n, seen @ [nat c], q @ out (nat c)), out, n, seen, c # q)
      \<in> measures [\<lambda>(out, n, seen, q). card ({..<n} - set seen), \<lambda>(out, n, seen, q). length q]"
    by simp
qed auto

declare bfs.simps [simp del]

section \<open>on\_failure targets\<close>

datatype target_error = TargetOutOfRange | TargetNotAncestor

definition on_failure_error :: "task_def list \<Rightarrow> nat \<Rightarrow> target_error option" where
  "on_failure_error tasks i =
     (case td_on_failure (tasks ! i) of
        None \<Rightarrow> None
      | Some target \<Rightarrow>
          if \<not> in_batch (length tasks) target then Some TargetOutOfRange
          else if target = int i then None
          else if nat target \<in> set (bfs (\<lambda>c. td_depends (tasks ! c)) (length tasks) [] (td_depends (tasks ! i)))
          then None else Some TargetNotAncestor)"

definition validateOnFailureTargets :: "task_def list \<Rightarrow> (nat \<times> target_error) option" where
  "validateOnFailureTargets tasks =
     (case filter (\<lambda>i. on_failure_error tasks i \<noteq> None) [0..<length tasks] of
        [] \<Rightarrow> None
      | i # _ \<Rightarrow> Some (i, the (on_failure_error tasks i)))"

section \<open>Reverse dependencies and the reset wave\<close>

definition revDeps :: "task_def list \<Rightarrow> nat \<Rightarrow> nat list" where
  "revDeps tasks i =
     concat (map (\<lambda>j. map (\<lambda>_. j) (filter (\<lambda>d. d = int i \<and> d \<noteq> int j) (td_depends (tasks ! j))))
               [0..<length tasks])"

definition wave_order :: "task_def list \<Rightarrow> nat \<Rightarrow> nat list" where
  "wave_order tasks target =
     bfs (\<lambda>c. map int (revDeps tasks c)) (length tasks) [] [int target]"

section \<open>Ordering conflicting mutations\<close>

fun isMutationSideEffect :: "side_effect \<Rightarrow> bool" where
  "isMutationSideEffect SideEffectWorkspaceWrite = True"
| "isMutationSideEffect SideEffectExternalWrite = True"
| "isMutationSideEffect SideEffectInfraMutation = True"
| "isMutationSideEffect SideEffectCredential = True"
| "isMutationSideEffect SideEffectUnknown = True"
| "isMutationSideEffect _ = False"

definition order_edges :: "task_def list \<Rightarrow> resource_claim list list \<Rightarrow> nat \<Rightarrow> int list" where
  "order_edges tasks claims current =
     fold (\<lambda>earlier edges.
         if \<not> isMutationSideEffect (td_side_effect (tasks ! earlier))
            \<or> \<not> claimsConflict (claims ! current) (claims ! earlier) then edges
         else if \<not> list_ex (\<lambda>x. x = int earlier) (td_depends (tasks ! current))
                 \<and> \<not> list_ex (\<lambda>x. x = int earlier) edges
         then edges @ [int earlier] else edges)
       [0..<current] (td_order_after (tasks ! current))"

definition serializeConflictingMutationTasks ::
  "task_def list \<Rightarrow> resource_claim list list \<Rightarrow> task_def list" where
  "serializeConflictingMutationTasks tasks claims =
     map (\<lambda>current.
         if isMutationSideEffect (td_side_effect (tasks ! current))
         then (tasks ! current)\<lparr>td_order_after := order_edges tasks claims current\<rparr>
         else tasks ! current)
       [0..<length tasks]"

section \<open>The cycle check finds exactly the cycles\<close>

definition edges :: "task_def list \<Rightarrow> (nat \<times> nat) set" where
  "edges tasks = {(i, j). i < length tasks \<and> j < length tasks \<and>
     int j \<in> set (td_depends (tasks ! i) @ td_order_after (tasks ! i))}"

definition dep_edges :: "task_def list \<Rightarrow> (nat \<times> nat) set" where
  "dep_edges tasks = {(i, j). i < length tasks \<and> j < length tasks \<and> int j \<in> set (td_depends (tasks ! i))}"

definition marked :: "mark \<Rightarrow> mark list \<Rightarrow> nat set" where
  "marked m st = {i. i < length st \<and> st ! i = m}"

lemma mem_marked [simp]: "i \<in> marked m st \<longleftrightarrow> i < length st \<and> st ! i = m"
  by (simp add: marked_def)

lemma finite_marked [simp]: "finite (marked m st)"
  by (simp add: marked_def)

text \<open>What holds of the colours between two calls: finished tasks are closed and cycle-free.\<close>

definition colours_ok :: "task_def list \<Rightarrow> mark list \<Rightarrow> bool" where
  "colours_ok tasks st \<longleftrightarrow> length st = length tasks \<and>
     (\<forall>b\<in>marked Finished st. (b, b) \<notin> (edges tasks)\<^sup>+ \<and> edges tasks `` {b} \<subseteq> marked Finished st)"

lemma finished_closed:
  assumes "colours_ok tasks st" "(b, c) \<in> (edges tasks)\<^sup>+" "b \<in> marked Finished st"
  shows "c \<in> marked Finished st"
  using assms(2,1,3)
proof (induction rule: trancl_induct)
  case (base y)
  then show ?case unfolding colours_ok_def by blast
next
  case (step y z)
  then show ?case unfolding colours_ok_def by blast
qed

definition grows :: "mark list \<Rightarrow> mark list \<Rightarrow> bool" where
  "grows st st' \<longleftrightarrow> length st' = length st \<and> marked Visiting st' = marked Visiting st \<and>
     marked Finished st \<subseteq> marked Finished st'"

lemma grows_refl [simp]: "grows st st"
  by (simp add: grows_def)

lemma grows_trans: "grows st st' \<Longrightarrow> grows st' st'' \<Longrightarrow> grows st st''"
  unfolding grows_def by (elim conjE) (intro conjI, simp, simp, rule subset_trans)

lemma grows_unvisited:
  assumes "grows st st'"
  shows "marked Unvisited st' \<subseteq> marked Unvisited st"
proof
  fix x assume x: "x \<in> marked Unvisited st'"
  then have x': "x < length st'" "x \<notin> marked Visiting st'" "x \<notin> marked Finished st'" by simp_all
  have l: "length st' = length st" and v: "marked Visiting st' = marked Visiting st"
    and f: "marked Finished st \<subseteq> marked Finished st'" using assms by (simp_all only: grows_def)
  have "x < length st" using x'(1) by (simp only: l)
  moreover have "x \<notin> marked Visiting st" using x'(2) by (simp only: v simp_thms)
  moreover have "x \<notin> marked Finished st" using x'(3) f by (rule contra_subsetD [rotated])
  ultimately have "x < length st" "x \<notin> marked Visiting st" "x \<notin> marked Finished st" .
  then show "x \<in> marked Unvisited st" by (cases "st ! x") simp_all
qed

text \<open>What one call promises, for a node that every task being visited reaches.\<close>

definition call_ok :: "task_def list \<Rightarrow> nat \<Rightarrow> mark list \<Rightarrow> (bool \<times> mark list) option \<Rightarrow> bool" where
  "call_ok tasks i st r \<longleftrightarrow> (\<exists>found st'. r = Some (found, st') \<and>
     (if found then \<exists>c. (c, c) \<in> (edges tasks)\<^sup>+
      else colours_ok tasks st' \<and> grows st st' \<and> i \<in> marked Finished st'))"

lemma scan_edges_ok:
  assumes "\<And>j st. \<lbrakk>j < length tasks; colours_ok tasks st; card (marked Unvisited st) < k;
      \<forall>g\<in>marked Visiting st. (g, j) \<in> (edges tasks)\<^sup>+\<rbrakk> \<Longrightarrow> call_ok tasks j st (visit j st)"
    and "i < length tasks" "colours_ok tasks st" "card (marked Unvisited st) < k"
    and "\<forall>g\<in>marked Visiting st. (g, i) \<in> (edges tasks)\<^sup>*"
    and "set ds \<subseteq> set (td_depends (tasks ! i) @ td_order_after (tasks ! i))"
  shows "\<exists>found st'. scan_edges visit (length tasks) i ds st = Some (found, st') \<and>
    (if found then \<exists>c. (c, c) \<in> (edges tasks)\<^sup>+
     else colours_ok tasks st' \<and> grows st st' \<and>
          (\<forall>d\<in>set ds. in_batch (length tasks) d \<longrightarrow> nat d \<in> marked Finished st') \<and> int i \<notin> set ds)"
  using assms(3-)
proof (induction ds arbitrary: st)
  case (Cons d ds)
  note sub = Cons.prems(4)
  show ?case
  proof (cases "d = int i")
    case True
    then have "int i \<in> set (td_depends (tasks ! i) @ td_order_after (tasks ! i))" using sub by simp
    then have "(i, i) \<in> edges tasks" using assms(2) by (simp add: edges_def)
    then have "(i, i) \<in> (edges tasks)\<^sup>+" by (rule r_into_trancl)
    then have "\<exists>c. (c, c) \<in> (edges tasks)\<^sup>+" ..
    then show ?thesis using True by (intro exI [of _ True] exI [of _ st]) simp
  next
    case neq: False
    show ?thesis
    proof (cases "in_batch (length tasks) d")
      case False
      then have "\<exists>found st'. scan_edges visit (length tasks) i ds st = Some (found, st') \<and>
        (if found then \<exists>c. (c, c) \<in> (edges tasks)\<^sup>+
         else colours_ok tasks st' \<and> grows st st' \<and>
          (\<forall>d\<in>set ds. in_batch (length tasks) d \<longrightarrow> nat d \<in> marked Finished st') \<and> int i \<notin> set ds)"
        using Cons.prems by (intro Cons.IH) simp_all
      then show ?thesis using False neq by fastforce
    next
      case True
      then have "(i, nat d) \<in> edges tasks" using sub assms(2) by (auto simp: edges_def)
      then have "\<forall>g\<in>marked Visiting st. (g, nat d) \<in> (edges tasks)\<^sup>+"
        using Cons.prems(3) by (blast intro: rtrancl_into_trancl1)
      with True have "call_ok tasks (nat d) st (visit (nat d) st)"
        using Cons.prems(1,2) by (intro assms(1)) auto
      then obtain f s1 where v: "visit (nat d) st = Some (f, s1)"
        and f: "if f then \<exists>c. (c, c) \<in> (edges tasks)\<^sup>+
          else colours_ok tasks s1 \<and> grows st s1 \<and> nat d \<in> marked Finished s1"
        unfolding call_ok_def by blast
      show ?thesis
      proof (cases f)
        case True
        with f have "\<exists>c. (c, c) \<in> (edges tasks)\<^sup>+" by simp
        with True v neq \<open>in_batch (length tasks) d\<close> show ?thesis
          by (intro exI [of _ True] exI [of _ s1]) simp
      next
        case False
        with f have s1: "colours_ok tasks s1" "grows st s1" "nat d \<in> marked Finished s1" by simp_all
        have "marked Unvisited s1 \<subseteq> marked Unvisited st" using s1(2) by (rule grows_unvisited)
        then have "card (marked Unvisited s1) \<le> card (marked Unvisited st)"
          by (rule card_mono [rotated]) simp
        then have cs: "card (marked Unvisited s1) < k" using Cons.prems(2) by simp
        have vs: "\<forall>g\<in>marked Visiting s1. (g, i) \<in> (edges tasks)\<^sup>*"
          using Cons.prems(3) s1(2) by (simp only: grows_def)
        have ss: "set ds \<subseteq> set (td_depends (tasks ! i) @ td_order_after (tasks ! i))" using sub by simp
        from Cons.IH [OF s1(1) cs vs ss] obtain g s2 where s2: "scan_edges visit (length tasks) i ds s1 = Some (g, s2)"
          and g: "if g then \<exists>c. (c, c) \<in> (edges tasks)\<^sup>+
            else colours_ok tasks s2 \<and> grows s1 s2 \<and>
             (\<forall>d\<in>set ds. in_batch (length tasks) d \<longrightarrow> nat d \<in> marked Finished s2) \<and> int i \<notin> set ds"
          by (elim exE conjE) (rule that)
        have e: "scan_edges visit (length tasks) i (d # ds) st = Some (g, s2)"
          using neq \<open>in_batch (length tasks) d\<close> v False s2 by simp
        show ?thesis
        proof (cases g)
          case True
          with g e show ?thesis by (intro exI [of _ g] exI [of _ s2]) simp
        next
          case gF: False
          with g have h: "colours_ok tasks s2" "grows s1 s2" "int i \<notin> set ds"
            "\<forall>d\<in>set ds. in_batch (length tasks) d \<longrightarrow> nat d \<in> marked Finished s2" by simp_all
          have "nat d \<in> marked Finished s2" using s1(3) h(2) unfolding grows_def by blast
          with h neq have "\<forall>d'\<in>set (d # ds). in_batch (length tasks) d' \<longrightarrow> nat d' \<in> marked Finished s2"
            by simp
          moreover have "grows st s2" using s1(2) h(2) by (rule grows_trans)
          ultimately have "colours_ok tasks s2 \<and> grows st s2 \<and>
            (\<forall>d'\<in>set (d # ds). in_batch (length tasks) d' \<longrightarrow> nat d' \<in> marked Finished s2) \<and>
            int i \<notin> set (d # ds)" using h neq by simp
          with e gF show ?thesis by (intro exI [of _ False] exI [of _ s2]) simp
        qed
      qed
    qed
  qed
next
  case Nil
  then show ?case by (intro exI [of _ False] exI [of _ st]) simp
qed

lemma finish_ok:
  assumes "colours_ok tasks st1" "grows (st[i := Visiting]) st1" "i < length st" "st ! i = Unvisited"
    and "edges tasks `` {i} \<subseteq> marked Finished st1"
  shows "colours_ok tasks (st1[i := Finished]) \<and> grows st (st1[i := Finished])
    \<and> i \<in> marked Finished (st1[i := Finished])"
proof -
  let ?st' = "st1[i := Finished]"
  have len: "length st1 = length st" and vis: "marked Visiting st1 = marked Visiting (st[i := Visiting])"
    and fin: "marked Finished (st[i := Visiting]) \<subseteq> marked Finished st1"
    using assms(2) by (simp_all add: grows_def)
  have len': "length st = length tasks" using assms(1) len by (simp add: colours_ok_def)
  have vi: "st1 ! i = Visiting" using vis assms(3)
    by (metis (no_types, lifting) mem_marked length_list_update nth_list_update_eq)
  have F: "marked Finished ?st' = insert i (marked Finished st1)"
    using assms(3) len by (auto simp: marked_def nth_list_update split: if_splits)
  have V: "marked Visiting ?st' = marked Visiting st1 - {i}"
    using assms(3) len by (auto simp: marked_def nth_list_update split: if_splits)
  have V0: "marked Visiting (st[i := Visiting]) = insert i (marked Visiting st)"
    using assms(3) by (auto simp: marked_def nth_list_update split: if_splits)
  have F0: "marked Finished st \<subseteq> marked Finished (st[i := Visiting])"
    using assms(3,4) by (auto simp: marked_def nth_list_update split: if_splits)
  have ni: "(i, i) \<notin> (edges tasks)\<^sup>+"
  proof
    assume "(i, i) \<in> (edges tasks)\<^sup>+"
    then obtain c where c: "(i, c) \<in> edges tasks" "(c, i) \<in> (edges tasks)\<^sup>*" by (blast dest: tranclD)
    then have "c \<in> marked Finished st1" using assms(5) by blast
    with c(2) have "i \<in> marked Finished st1"
      using finished_closed [OF assms(1)] by (metis rtranclD)
    with vi show False by simp
  qed
  have old: "(b, b) \<notin> (edges tasks)\<^sup>+ \<and> edges tasks `` {b} \<subseteq> marked Finished st1"
    if "b \<in> marked Finished st1" for b
    using assms(1) that unfolding colours_ok_def by blast
  have "\<forall>b\<in>insert i (marked Finished st1). (b, b) \<notin> (edges tasks)\<^sup>+ \<and>
      edges tasks `` {b} \<subseteq> insert i (marked Finished st1)"
    using old ni assms(5) by blast
  then have "colours_ok tasks ?st'"
    using F len len' by (simp only: colours_ok_def length_list_update)
  moreover have "grows st ?st'"
  proof -
    have "marked Visiting ?st' = marked Visiting st"
      using V vis V0 assms(4) by auto
    moreover have "marked Finished st \<subseteq> marked Finished ?st'" using F0 fin F by blast
    ultimately show ?thesis using len by (simp only: grows_def length_list_update)
  qed
  moreover have "i \<in> marked Finished ?st'" using F by blast
  ultimately show ?thesis by blast
qed

lemma dfs_ok:
  assumes "i < length tasks" "colours_ok tasks st" "card (marked Unvisited st) < k"
    "\<forall>g\<in>marked Visiting st. (g, i) \<in> (edges tasks)\<^sup>+"
  shows "call_ok tasks i st (dfs k tasks i st)"
  using assms
proof (induction k arbitrary: i st)
  case (Suc k)
  have len: "length st = length tasks" using Suc.prems(2) by (simp add: colours_ok_def)
  show ?case
  proof (cases "st ! i")
    case Visiting
    with Suc.prems(1,4) len have "(i, i) \<in> (edges tasks)\<^sup>+" by simp
    then have "\<exists>c. (c, c) \<in> (edges tasks)\<^sup>+" ..
    with Visiting show ?thesis unfolding call_ok_def
      by (intro exI [of _ True] exI [of _ st]) simp
  next
    case Finished
    with Suc.prems(1,2) len show ?thesis unfolding call_ok_def
      by (intro exI [of _ False] exI [of _ st]) simp
  next
    case Unvisited
    let ?s0 = "st[i := Visiting]"
    have U: "marked Unvisited ?s0 = marked Unvisited st - {i}"
      using Suc.prems(1) len by (auto simp: marked_def nth_list_update split: if_splits)
    have iU: "i \<in> marked Unvisited st" using Unvisited Suc.prems(1) len by simp
    have c0: "card (marked Unvisited ?s0) < k"
      unfolding U using card_Suc_Diff1 [OF finite_marked iU] Suc.prems(3) by linarith
    have F0: "marked Finished ?s0 = marked Finished st"
      using Unvisited Suc.prems(1) len by (auto simp: marked_def nth_list_update split: if_splits)
    have k0: "colours_ok tasks ?s0"
      using Suc.prems(2) unfolding colours_ok_def F0 length_list_update .
    have V0: "marked Visiting ?s0 = insert i (marked Visiting st)"
      using Suc.prems(1) len by (auto simp: marked_def nth_list_update split: if_splits)
    have r0: "\<forall>g\<in>marked Visiting ?s0. (g, i) \<in> (edges tasks)\<^sup>*"
      unfolding V0 using Suc.prems(4) by (blast intro: trancl_into_rtrancl)
    have "\<exists>found st'. scan_edges (dfs k tasks) (length tasks) i
          (td_depends (tasks ! i) @ td_order_after (tasks ! i)) ?s0 = Some (found, st') \<and>
        (if found then \<exists>c. (c, c) \<in> (edges tasks)\<^sup>+
        else colours_ok tasks st' \<and> grows ?s0 st' \<and>
          (\<forall>d\<in>set (td_depends (tasks ! i) @ td_order_after (tasks ! i)).
             in_batch (length tasks) d \<longrightarrow> nat d \<in> marked Finished st') \<and>
          int i \<notin> set (td_depends (tasks ! i) @ td_order_after (tasks ! i)))"
      by (rule scan_edges_ok [OF _ Suc.prems(1) k0 c0 r0 subset_refl]) (rule Suc.IH)
    then obtain f s1 where s1: "scan_edges (dfs k tasks) (length tasks) i
          (td_depends (tasks ! i) @ td_order_after (tasks ! i)) ?s0 = Some (f, s1)"
      and f: "if f then \<exists>c. (c, c) \<in> (edges tasks)\<^sup>+
        else colours_ok tasks s1 \<and> grows ?s0 s1 \<and>
          (\<forall>d\<in>set (td_depends (tasks ! i) @ td_order_after (tasks ! i)).
             in_batch (length tasks) d \<longrightarrow> nat d \<in> marked Finished s1) \<and>
          int i \<notin> set (td_depends (tasks ! i) @ td_order_after (tasks ! i))"
      by (elim exE conjE) (rule that)
    show ?thesis
    proof (cases f)
      case True
      with f s1 Unvisited show ?thesis unfolding call_ok_def
        by (intro exI [of _ True] exI [of _ s1]) simp
    next
      case False
      from f have "colours_ok tasks s1 \<and> grows ?s0 s1 \<and>
          (\<forall>d\<in>set (td_depends (tasks ! i) @ td_order_after (tasks ! i)).
             in_batch (length tasks) d \<longrightarrow> nat d \<in> marked Finished s1) \<and>
          int i \<notin> set (td_depends (tasks ! i) @ td_order_after (tasks ! i))" unfolding if_not_P [OF False] .
      then have h: "colours_ok tasks s1" "grows ?s0 s1"
        and ds: "\<forall>d\<in>set (td_depends (tasks ! i) @ td_order_after (tasks ! i)).
             in_batch (length tasks) d \<longrightarrow> nat d \<in> marked Finished s1" by blast+
      have "edges tasks `` {i} \<subseteq> marked Finished s1"
      proof
        fix j assume "j \<in> edges tasks `` {i}"
        then have "j < length tasks" "int j \<in> set (td_depends (tasks ! i) @ td_order_after (tasks ! i))"
          by (simp_all add: edges_def)
        with ds have "nat (int j) \<in> marked Finished s1" by (metis of_nat_0_le_iff of_nat_less_iff)
        then show "j \<in> marked Finished s1" by (simp only: nat_int)
      qed
      from finish_ok [OF h _ Unvisited this] Suc.prems(1) len
      have "colours_ok tasks (s1[i := Finished]) \<and> grows st (s1[i := Finished])
        \<and> i \<in> marked Finished (s1[i := Finished])" by simp
      moreover have "dfs (Suc k) tasks i st = Some (False, s1[i := Finished])"
        using Unvisited s1 False by simp
      ultimately show ?thesis unfolding call_ok_def by (metis (full_types))
    qed
  qed
qed simp

lemma dfs_from_ok:
  assumes "set is \<subseteq> {..<length tasks}" "colours_ok tasks st" "marked Visiting st = {}"
  shows "\<exists>found. dfs_from tasks is st = Some found \<and>
    (if found then \<exists>c. (c, c) \<in> (edges tasks)\<^sup>+
     else \<forall>c\<in>set is \<union> marked Finished st. (c, c) \<notin> (edges tasks)\<^sup>+)"
  using assms
proof (induction "is" arbitrary: st)
  case Nil
  then show ?case unfolding colours_ok_def by (intro exI [of _ False]) simp
next
  case (Cons i js)
  have len: "length st = length tasks" using Cons.prems(2) by (simp add: colours_ok_def)
  have i: "i < length tasks" and js: "set js \<subseteq> {..<length tasks}" using Cons.prems(1) by simp_all
  show ?case
  proof (cases "st ! i = Unvisited")
    case False
    have "st ! i \<noteq> Visiting" using Cons.prems(3) i len by (metis empty_iff mem_marked)
    with False have "st ! i = Finished" by (cases "st ! i") simp_all
    with i len have "i \<in> marked Finished st" by simp
    then have "\<forall>c. c = i \<longrightarrow> c \<in> marked Finished st" by blast
    then have "set (i # js) \<union> marked Finished st = set js \<union> marked Finished st" by auto
    with Cons.IH [OF js Cons.prems(2,3)] False show ?thesis by (simp only: dfs_from.simps if_False)
  next
    case True
    have "card (marked Unvisited st) \<le> card {..<length tasks}"
      by (rule card_mono) (auto simp: marked_def len)
    then have "card (marked Unvisited st) < Suc (length tasks)" by simp
    then have "call_ok tasks i st (dfs (Suc (length tasks)) tasks i st)"
      by (rule dfs_ok [OF i Cons.prems(2)]) (simp add: Cons.prems(3))
    then obtain f s1 where d: "dfs (Suc (length tasks)) tasks i st = Some (f, s1)"
      and f: "if f then \<exists>c. (c, c) \<in> (edges tasks)\<^sup>+
        else colours_ok tasks s1 \<and> grows st s1 \<and> i \<in> marked Finished s1"
      unfolding call_ok_def by blast
    show ?thesis
    proof (cases f)
      case fT: True
      with f have "\<exists>c. (c, c) \<in> (edges tasks)\<^sup>+" by simp
      with fT d True show ?thesis by (intro exI [of _ True]) simp
    next
      case False
      with f have h: "colours_ok tasks s1" "grows st s1" "i \<in> marked Finished s1" by (simp_all only: if_False)
      have v: "marked Visiting s1 = {}" and fin: "marked Finished st \<subseteq> marked Finished s1"
        using h(2) Cons.prems(3) by (simp_all only: grows_def)
      from Cons.IH [OF js h(1) v] obtain g where g: "dfs_from tasks js s1 = Some g"
        "if g then \<exists>c. (c, c) \<in> (edges tasks)\<^sup>+
         else \<forall>c\<in>set js \<union> marked Finished s1. (c, c) \<notin> (edges tasks)\<^sup>+" by (elim exE conjE) (rule that)
      have e: "dfs_from tasks (i # js) st = Some g" using True d False g(1) by simp
      show ?thesis
      proof (cases g)
        case True
        with g(2) have "\<exists>c. (c, c) \<in> (edges tasks)\<^sup>+" by simp
        with e True show ?thesis by (intro exI [of _ True]) simp
      next
        case False
        with g(2) have "\<forall>c\<in>set js \<union> marked Finished s1. (c, c) \<notin> (edges tasks)\<^sup>+" by (simp only: if_False)
        with fin h(3) have "\<forall>c\<in>set (i # js) \<union> marked Finished st. (c, c) \<notin> (edges tasks)\<^sup>+" by auto
        with e False show ?thesis by (intro exI [of _ False]) simp
      qed
    qed
  qed
qed

lemma edges_in_batch: "(i, j) \<in> (edges tasks)\<^sup>+ \<Longrightarrow> i < length tasks"
  by (induction rule: trancl_induct) (auto simp: edges_def)

lemma detect_cycle_iff:
  "detectTaskCycle tasks \<longleftrightarrow> (\<exists>i. (i, i) \<in> (edges tasks)\<^sup>+)"
proof -
  let ?st = "replicate (length tasks) Unvisited"
  have m: "marked m ?st = {}" if "m \<noteq> Unvisited" for m using that by (auto simp: marked_def)
  have k: "colours_ok tasks ?st" using m [of Finished] by (simp add: colours_ok_def)
  have v: "marked Visiting ?st = {}" by (rule m) simp
  have r: "set [0..<length tasks] \<subseteq> {..<length tasks}" by auto
  from dfs_from_ok [OF r k v] obtain f where f: "dfs_from tasks [0..<length tasks] ?st = Some f"
    "if f then \<exists>c. (c, c) \<in> (edges tasks)\<^sup>+
     else \<forall>c\<in>set [0..<length tasks] \<union> marked Finished ?st. (c, c) \<notin> (edges tasks)\<^sup>+"
    by (elim exE conjE) (rule that)
  show ?thesis
  proof (cases f)
    case True
    with f show ?thesis by (simp add: detectTaskCycle_def)
  next
    case False
    with f have "\<forall>c<length tasks. (c, c) \<notin> (edges tasks)\<^sup>+" by simp
    then have "\<nexists>c. (c, c) \<in> (edges tasks)\<^sup>+" using edges_in_batch by blast
    with f False show ?thesis by (simp add: detectTaskCycle_def)
  qed
qed

text \<open>
  \<open>detectTaskCycle\<close> refuses exactly the batches whose \<open>depends_on\<close> and \<open>order_after\<close> edges
  form a cycle: it never misses one, never reports one that is not there, and always returns.
\<close>

theorem detect_cycle_exact:
  "detectTaskCycle tasks \<longleftrightarrow> (\<exists>i. (i, i) \<in> (edges tasks)\<^sup>+)"
  by (rule detect_cycle_iff)

text \<open>A two-task loop is refused; the same two tasks in a chain are not.\<close>

definition sample_task :: "int list \<Rightarrow> task_def" where
  "sample_task deps = \<lparr>td_agent = ''worker'', td_model = [], td_kind = TaskKindOutcome, td_depends = deps,
     td_order_after = [], td_on_failure = None, td_failure_classes = [], td_max_retries = 0,
     td_advances = [], td_side_effect = SideEffectNone, td_allows_replay = None, td_recovery = None\<rparr>"

lemma detect_cycle_examples:
  "detectTaskCycle [sample_task [1], sample_task [0]]"
  "\<not> detectTaskCycle [sample_task [], sample_task [0]]"
  by (simp_all add: detectTaskCycle_def sample_task_def upt_rec numeral_2_eq_2)

section \<open>Traversals reach exactly the reachable tasks\<close>

definition out_rel :: "(nat \<Rightarrow> int list) \<Rightarrow> nat \<Rightarrow> (nat \<times> nat) set" where
  "out_rel out n = {(a, b). a < n \<and> b < n \<and> int b \<in> set (out a)}"

definition in_queue :: "nat \<Rightarrow> int list \<Rightarrow> nat set" where
  "in_queue n q = {b. b < n \<and> int b \<in> set q}"

lemma in_queue_simps [simp]:
  "in_queue n [] = {}"
  "in_queue n (c # q) = (if in_batch n c then insert (nat c) (in_queue n q) else in_queue n q)"
  "in_queue n (p @ q) = in_queue n p \<union> in_queue n q"
  by (auto simp: in_queue_def)

lemma out_rel_image: "a < n \<Longrightarrow> out_rel out n `` {a} = in_queue n (out a)"
  by (auto simp: out_rel_def in_queue_def)

lemma rtrancl_from: "R\<^sup>* `` insert a S = insert a (R\<^sup>* `` (R `` {a} \<union> S))"
proof -
  have "R\<^sup>* `` {a} = insert a (R\<^sup>* `` (R `` {a}))"
    by (auto elim: converse_rtranclE intro: converse_rtrancl_into_rtrancl)
  moreover have "R\<^sup>* `` insert a S = R\<^sup>* `` {a} \<union> R\<^sup>* `` S" by blast
  ultimately show ?thesis by blast
qed

lemma closed_absorbs:
  assumes "R `` V \<subseteq> V \<union> S" "a \<in> V"
  shows "R\<^sup>* `` {a} \<subseteq> V \<union> R\<^sup>* `` S"
proof
  fix b assume "b \<in> R\<^sup>* `` {a}"
  then have "(a, b) \<in> R\<^sup>*" by simp
  then show "b \<in> V \<union> R\<^sup>* `` S"
  proof (induction rule: rtrancl_induct)
    case base
    then show ?case using assms(2) by simp
  next
    case (step y z)
    then show ?case using assms(1) by (blast intro: rtrancl_into_rtrancl)
  qed
qed

lemma bfs_reaches:
  assumes "out_rel out n `` set seen \<subseteq> set seen \<union> in_queue n q" "set seen \<subseteq> {..<n}"
  shows "set (bfs out n seen q) = set seen \<union> (out_rel out n)\<^sup>* `` in_queue n q"
  using assms
proof (induction out n seen q rule: bfs.induct)
  case (2 out n seen c q)
  let ?R = "out_rel out n"
  show ?case
  proof (cases "\<not> in_batch n c \<or> nat c \<in> set seen")
    case True
    then have q: "set seen \<union> in_queue n (c # q) = set seen \<union> in_queue n q" by auto
    then have inv: "?R `` set seen \<subseteq> set seen \<union> in_queue n q" using "2.prems"(1) by simp
    have "set (bfs out n seen (c # q)) = set seen \<union> ?R\<^sup>* `` in_queue n q"
      using "2.IH"(1) [OF True inv "2.prems"(2)] True by (simp add: bfs.simps)
    also have "\<dots> = set seen \<union> ?R\<^sup>* `` in_queue n (c # q)"
    proof (cases "in_batch n c")
      case True
      with \<open>\<not> in_batch n c \<or> nat c \<in> set seen\<close> have "nat c \<in> set seen" by simp
      from closed_absorbs [OF inv this]
      have "?R\<^sup>* `` {nat c} \<subseteq> set seen \<union> ?R\<^sup>* `` in_queue n q" .
      moreover have "?R\<^sup>* `` in_queue n (c # q) = ?R\<^sup>* `` {nat c} \<union> ?R\<^sup>* `` in_queue n q"
        using True by (simp add: Image_Un [symmetric] insert_is_Un [symmetric])
      ultimately show ?thesis by blast
    next
      case False
      then have "in_queue n (c # q) = in_queue n q" by (simp only: in_queue_simps if_False)
      then show ?thesis by simp
    qed
    finally show ?thesis .
  next
    case False
    then have c: "nat c < n" by auto
    have step: "?R `` {nat c} = in_queue n (out (nat c))" using c by (rule out_rel_image)
    have inv: "?R `` set (seen @ [nat c]) \<subseteq> set (seen @ [nat c]) \<union> in_queue n (q @ out (nat c))"
    proof -
      have "?R `` set seen \<subseteq> set seen \<union> insert (nat c) (in_queue n q)"
        using "2.prems"(1) False by simp
      then show ?thesis using step by auto
    qed
    have sub: "set (seen @ [nat c]) \<subseteq> {..<n}" using "2.prems"(2) c by simp
    have "set (bfs out n seen (c # q)) =
        set (seen @ [nat c]) \<union> ?R\<^sup>* `` in_queue n (q @ out (nat c))"
      using "2.IH"(2) [OF False inv sub] False by (simp add: bfs.simps)
    also have "\<dots> = set seen \<union> insert (nat c) (?R\<^sup>* `` (?R `` {nat c} \<union> in_queue n q))"
      by (simp add: step Un_commute)
    also have "\<dots> = set seen \<union> ?R\<^sup>* `` insert (nat c) (in_queue n q)"
      by (simp only: rtrancl_from)
    also have "insert (nat c) (in_queue n q) = in_queue n (c # q)" using False by simp
    finally show ?thesis .
  qed
qed (simp add: bfs.simps)

lemma bfs_from: "set (bfs out n [] q) = (out_rel out n)\<^sup>* `` in_queue n q"
  using bfs_reaches [of out n "[]" q] by simp

section \<open>The failed task is inside its reset wave\<close>

lemma out_rel_depends: "out_rel (\<lambda>c. td_depends (tasks ! c)) (length tasks) = dep_edges tasks"
  by (auto simp: out_rel_def dep_edges_def)

lemma revDeps_iff:
  "j \<in> set (revDeps tasks i) \<longleftrightarrow> j < length tasks \<and> int i \<in> set (td_depends (tasks ! j)) \<and> i \<noteq> j"
proof -
  have "j \<in> set (revDeps tasks i) \<longleftrightarrow>
      (\<exists>k<length tasks. \<exists>d\<in>set (td_depends (tasks ! k)). d = int i \<and> d \<noteq> int k \<and> j = k)"
    by (auto simp: revDeps_def image_iff)
  then show ?thesis by auto
qed

lemma out_rel_revDeps:
  "out_rel (\<lambda>c. map int (revDeps tasks c)) (length tasks) = (dep_edges tasks)\<inverse> - Id"
  by (auto simp: out_rel_def dep_edges_def revDeps_iff)

lemma wave_reaches:
  assumes "t < length tasks"
  shows "set (wave_order tasks t) = {j. (j, t) \<in> (dep_edges tasks)\<^sup>*}"
proof -
  have "((dep_edges tasks)\<inverse> - Id)\<^sup>* = ((dep_edges tasks)\<inverse>)\<^sup>*" by (rule rtrancl_r_diff_Id)
  then show ?thesis using assms
    by (auto simp: wave_order_def bfs_from out_rel_revDeps rtrancl_converse)
qed

lemma bfs_distinct:
  "distinct seen \<Longrightarrow> distinct (bfs out n seen q)"
  by (induction out n seen q rule: bfs.induct) (simp_all add: bfs.simps)

lemma wave_in_batch:
  assumes "c \<in> set (wave_order tasks t)"
  shows "c < length tasks"
  using assms
  by (auto simp: wave_order_def bfs_from in_queue_def out_rel_def elim: rtranclE)

lemma validated_target:
  assumes "validateOnFailureTargets tasks = None" "i < length tasks" "td_on_failure (tasks ! i) = Some target"
  shows "in_batch (length tasks) target \<and> (i, nat target) \<in> (dep_edges tasks)\<^sup>*"
proof -
  have "on_failure_error tasks i = None"
    using assms(1,2) by (auto simp: validateOnFailureTargets_def filter_empty_conv split: list.splits)
  with assms(3) have r: "in_batch (length tasks) target"
    and t: "target = int i \<or> nat target \<in> set (bfs (\<lambda>c. td_depends (tasks ! c)) (length tasks) [] (td_depends (tasks ! i)))"
    by (auto simp: on_failure_error_def split: if_splits)
  from t have "(i, nat target) \<in> (dep_edges tasks)\<^sup>*"
  proof
    assume "nat target \<in> set (bfs (\<lambda>c. td_depends (tasks ! c)) (length tasks) [] (td_depends (tasks ! i)))"
    then obtain d where "d < length tasks" "int d \<in> set (td_depends (tasks ! i))"
      "(d, nat target) \<in> (dep_edges tasks)\<^sup>*"
      by (auto simp: bfs_from out_rel_depends in_queue_def)
    moreover from this(1,2) assms(2) have "(i, d) \<in> dep_edges tasks" by (simp add: dep_edges_def)
    ultimately show ?thesis by (blast intro: converse_rtrancl_into_rtrancl)
  qed simp
  with r show ?thesis by blast
qed

text \<open>
  In a batch \<open>validateOnFailureTargets\<close> accepts, the reset wave of a failed task's target
  consists of exactly the target and the tasks that transitively depend on it, each visited once,
  and the failed task itself is one of them.
\<close>

theorem reset_wave_covers_failure:
  assumes "validateOnFailureTargets tasks = None" "i < length tasks" "td_on_failure (tasks ! i) = Some target"
  shows "nat target < length tasks \<and>
    set (wave_order tasks (nat target)) = {j. (j, nat target) \<in> (dep_edges tasks)\<^sup>*} \<and>
    distinct (wave_order tasks (nat target)) \<and> i \<in> set (wave_order tasks (nat target))"
proof -
  from validated_target [OF assms] have t: "nat target < length tasks" "(i, nat target) \<in> (dep_edges tasks)\<^sup>*"
    by auto
  with wave_reaches [OF t(1)] show ?thesis
    using bfs_distinct [of "[]"] by (simp add: wave_order_def)
qed

definition retry_batch :: "task_def list" where
  "retry_batch = [sample_task [], sample_task [0], (sample_task [1])\<lparr>td_on_failure := Some 0\<rparr>]"

theorem reset_wave_covers_failure_witness:
  "validateOnFailureTargets retry_batch = None \<and> wave_order retry_batch 0 = [0, 1, 2] \<and>
   2 \<in> set (wave_order retry_batch 0) \<and>
   validateOnFailureTargets [sample_task [], (sample_task [])\<lparr>td_on_failure := Some 0\<rparr>] = Some (1, TargetNotAncestor)"
proof -
  have v: "validateOnFailureTargets retry_batch = None"
    by (simp add: validateOnFailureTargets_def on_failure_error_def retry_batch_def sample_task_def upt_rec bfs.simps)
  have b: "2 < length retry_batch" "td_on_failure (retry_batch ! 2) = Some 0" by (simp_all add: retry_batch_def)
  have "2 \<in> set (wave_order retry_batch (nat 0))"
    using reset_wave_covers_failure [OF v b] by blast
  then have "2 \<in> set (wave_order retry_batch 0)" by simp
  moreover have "wave_order retry_batch 0 = [0, 1, 2]"
    by (simp add: wave_order_def revDeps_def retry_batch_def sample_task_def upt_rec bfs.simps)
  moreover have "validateOnFailureTargets [sample_task [], (sample_task [])\<lparr>td_on_failure := Some 0\<rparr>] =
      Some (1, TargetNotAncestor)"
    by (simp add: validateOnFailureTargets_def on_failure_error_def sample_task_def upt_rec bfs.simps)
  ultimately show ?thesis using v by blast
qed

section \<open>Conflicting mutations are ordered\<close>

lemma order_edges_fold:
  "e \<in> set es \<Longrightarrow> P e \<Longrightarrow>
   int e \<in> D \<union> set (fold (\<lambda>e edges. if \<not> P e then edges
       else if int e \<notin> D \<and> int e \<notin> set edges then edges @ [int e] else edges) es acc)"
proof (induction es arbitrary: acc)
  case (Cons x es)
  let ?f = "\<lambda>e edges. if \<not> P e then edges
       else if int e \<notin> D \<and> int e \<notin> set edges then edges @ [int e] else edges"
  have keep: "set acc \<subseteq> set (fold ?f es acc)" for acc
  proof (induction es arbitrary: acc)
    case (Cons y ys)
    have "set acc \<subseteq> set (?f y acc)" by auto
    also have "set (?f y acc) \<subseteq> set (fold ?f ys (?f y acc))" by (rule Cons)
    finally show ?case by (simp only: fold_simps)
  qed simp
  show ?case
  proof (cases "e = x")
    case True
    have "int e \<in> D \<union> set (?f x acc)" using True Cons.prems(2) by auto
    with keep [of "?f x acc"] show ?thesis by (simp only: fold_simps) blast
  next
    case False
    then have "e \<in> set es" using Cons.prems(1) by simp
    from Cons.IH [OF this Cons.prems(2), of "?f x acc"] show ?thesis by (simp only: fold_simps)
  qed
qed simp

text \<open>
  After \<open>serializeConflictingMutationTasks\<close>, of any two mutating tasks whose claims conflict the
  later one depends on the earlier or is ordered after it, and dependencies are left as declared.
\<close>

theorem conflicting_mutations_ordered:
  assumes "j < length tasks" "i < j" "isMutationSideEffect (td_side_effect (tasks ! i))"
    "isMutationSideEffect (td_side_effect (tasks ! j))" "claimsConflict (claims ! j) (claims ! i)"
  shows "(j, i) \<in> edges (serializeConflictingMutationTasks tasks claims) \<and>
    dep_edges (serializeConflictingMutationTasks tasks claims) = dep_edges tasks"
proof -
  let ?out = "serializeConflictingMutationTasks tasks claims"
  have len: "length ?out = length tasks" by (simp add: serializeConflictingMutationTasks_def)
  have nth: "td_depends (?out ! k) = td_depends (tasks ! k)" if "k < length tasks" for k
    using that by (simp add: serializeConflictingMutationTasks_def)
  have "td_order_after (?out ! j) = order_edges tasks claims j"
    using assms(1,4) by (simp add: serializeConflictingMutationTasks_def)
  moreover have "int i \<in> set (td_depends (tasks ! j)) \<union> set (order_edges tasks claims j)"
  proof -
    let ?P = "\<lambda>e. isMutationSideEffect (td_side_effect (tasks ! e)) \<and> claimsConflict (claims ! j) (claims ! e)"
    have "order_edges tasks claims j = fold (\<lambda>e edges. if \<not> ?P e then edges
        else if int e \<notin> set (td_depends (tasks ! j)) \<and> int e \<notin> set edges then edges @ [int e] else edges)
        [0..<j] (td_order_after (tasks ! j))"
      unfolding order_edges_def by (intro fold_cong refl ext) (auto simp: list_ex_iff)
    with order_edges_fold [of i "[0..<j]" ?P] assms show ?thesis by simp
  qed
  ultimately have "(j, i) \<in> edges ?out"
    using assms(1,2) nth [OF assms(1)] by (simp add: edges_def len)
  moreover have "dep_edges ?out = dep_edges tasks" using nth by (auto simp: dep_edges_def len)
  ultimately show ?thesis by blast
qed

theorem conflicting_mutations_ordered_witness:
  "let w = (sample_task [])\<lparr>td_side_effect := SideEffectWorkspaceWrite\<rparr>;
       c = [\<lparr>rc_resource = ''db'', rc_mode = ResourceWrite\<rparr>] in
   (1, 0) \<in> edges (serializeConflictingMutationTasks [w, w] [c, c])"
proof -
  let ?w = "(sample_task [])\<lparr>td_side_effect := SideEffectWorkspaceWrite\<rparr>"
  let ?c = "[\<lparr>rc_resource = ''db'', rc_mode = ResourceWrite\<rparr>]"
  have "claimsConflict ?c ?c" by code_simp
  then have "(1, 0) \<in> edges (serializeConflictingMutationTasks [?w, ?w] [?c, ?c])"
    using conflicting_mutations_ordered [of 1 "[?w, ?w]" 0 "[?c, ?c]"] by simp
  then show ?thesis by (simp only: Let_def)
qed

end
