(* ===== verification/Task_Status.thy ===== *)
theory Task_Status
  imports Go_Strings
begin

text \<open>
  The two status machines of \<open>internal/team\<close>: task statuses (\<open>status.go\<close>, \<open>CanTransition\<close>) and
  workflow phases (\<open>phase.go\<close>), with the failure signatures and the retry counters of the phases.
  Go's string enums carry any text; the last constructor is the value no case of the code names.
\<close>

section \<open>Task statuses\<close>

datatype task_status =
    TaskPending | TaskInProgress | TaskVerifying | TaskDone | TaskError | TaskBlocked | TaskSkipped
  | TaskPlanned | TaskPaused | TaskProtocolIncomplete | TaskOther string

fun status_successors :: "task_status \<Rightarrow> task_status list" where
  "status_successors TaskPending =
     [TaskPlanned, TaskInProgress, TaskDone, TaskSkipped, TaskBlocked, TaskError, TaskProtocolIncomplete]"
| "status_successors TaskPlanned =
     [TaskInProgress, TaskSkipped, TaskBlocked, TaskError, TaskProtocolIncomplete]"
| "status_successors TaskInProgress =
     [TaskPlanned, TaskPaused, TaskVerifying, TaskDone, TaskBlocked, TaskError, TaskSkipped,
      TaskProtocolIncomplete]"
| "status_successors TaskProtocolIncomplete =
     [TaskVerifying, TaskDone, TaskBlocked, TaskError, TaskInProgress]"
| "status_successors TaskVerifying = [TaskDone, TaskBlocked, TaskError]"
| "status_successors TaskPaused = [TaskInProgress, TaskSkipped, TaskBlocked, TaskError]"
| "status_successors TaskError = [TaskInProgress, TaskBlocked]"
| "status_successors TaskBlocked = [TaskInProgress]"
| "status_successors TaskDone = []"
| "status_successors TaskSkipped = []"
| "status_successors (TaskOther _) = []"

definition CanTransition :: "task_status \<Rightarrow> task_status \<Rightarrow> bool" where
  "CanTransition q r \<longleftrightarrow> q = r \<or> r \<in> set (status_successors q)"

definition final_status :: "task_status \<Rightarrow> bool" where
  "final_status s \<longleftrightarrow> status_successors s = []"

lemma final_statuses [status_simps]:
  "final_status s \<longleftrightarrow> s = TaskDone \<or> s = TaskSkipped \<or> (\<exists>t. s = TaskOther t)"
  by (cases s) (simp_all add: final_status_def)

interpretation status: guarded_machine CanTransition final_status
  by unfold_locales (auto simp: CanTransition_def final_status_def)

datatype progress = ProgressUnknown | ProgressAdvanced | ProgressNoChange | ProgressRegressed | ProgressOther string

section \<open>Workflow phases\<close>

datatype phase = PhaseInit | PhasePrepare | PhaseAudit | PhaseExecute | PhaseVerify | PhaseDone
  | PhaseFailed | PhaseOther string

fun allowedTransitions :: "phase \<Rightarrow> phase list" where
  "allowedTransitions PhaseInit = [PhasePrepare]"
| "allowedTransitions PhasePrepare = [PhaseAudit, PhaseFailed]"
| "allowedTransitions PhaseAudit = [PhaseExecute, PhaseFailed]"
| "allowedTransitions PhaseExecute = [PhaseVerify, PhaseFailed]"
| "allowedTransitions PhaseVerify = [PhaseDone, PhaseFailed]"
| "allowedTransitions _ = []"

definition IsValidTransition :: "phase \<Rightarrow> phase \<Rightarrow> bool" where
  "IsValidTransition p q \<longleftrightarrow> list_ex (\<lambda>x. x = q) (allowedTransitions p)"

definition terminal_phase :: "phase \<Rightarrow> bool" where
  "terminal_phase p \<longleftrightarrow> allowedTransitions p = []"

interpretation phases: guarded_machine IsValidTransition terminal_phase
  by unfold_locales (simp add: IsValidTransition_def terminal_phase_def)

text \<open>A sequence of phases each of which may follow the one before.\<close>

fun phase_chain :: "phase \<Rightarrow> phase list \<Rightarrow> bool" where
  "phase_chain p [] \<longleftrightarrow> True"
| "phase_chain p (q # qs) \<longleftrightarrow> IsValidTransition p q \<and> phase_chain q qs"

definition last_phase :: "phase \<Rightarrow> phase list \<Rightarrow> phase" where
  "last_phase p qs = (if qs = [] then p else last qs)"

section \<open>Failure signatures and retries\<close>

record execution_error =
  ee_phase :: phase
  ee_component :: string
  ee_category :: string
  ee_source :: string
  ee_cause :: string
  ee_retryable :: bool

record failure_signature =
  fs_phase :: phase
  fs_component :: string
  fs_category :: string
  fs_source :: string
  fs_cause :: string

fun phase_text :: "phase \<Rightarrow> string" where
  "phase_text PhaseInit = ''INIT''"
| "phase_text PhasePrepare = ''PREPARE''"
| "phase_text PhaseAudit = ''AUDIT''"
| "phase_text PhaseExecute = ''EXECUTE''"
| "phase_text PhaseVerify = ''VERIFY''"
| "phase_text PhaseDone = ''DONE''"
| "phase_text PhaseFailed = ''FAILED''"
| "phase_text (PhaseOther s) = s"

definition signature_string :: "failure_signature \<Rightarrow> string" where
  "signature_string f =
     json_object
       [(''phase'', Some (json_string (phase_text (fs_phase f)))),
        (''component'', Some (json_string (fs_component f))),
        (''category'', Some (json_string (fs_category f))),
        (''source'', Some (json_string (fs_source f))),
        (''cause'', Some (json_string (fs_cause f)))]"

text \<open>The class \<open>\s\<close> of Go's regular expressions, and one run of it replaced by a space.\<close>

definition re_space :: "char \<Rightarrow> bool" where
  "re_space c \<longleftrightarrow> byte_of c \<in> {9, 10, 12, 13, 32}"

fun collapse_spaces :: "bool \<Rightarrow> string \<Rightarrow> string" where
  "collapse_spaces inside [] = []"
| "collapse_spaces inside (c # s) =
     (if re_space c then (if inside then collapse_spaces True s else CHR '' '' # collapse_spaces True s)
      else c # collapse_spaces False s)"

definition hex_char :: "char \<Rightarrow> bool" where
  "hex_char c \<longleftrightarrow> is_digit c \<or> (97 \<le> byte_of c \<and> byte_of c \<le> 102)"

text \<open>Runs of at least eight hexadecimal digits become one placeholder; \<open>run\<close> is the run read so far.\<close>

definition close_run :: "string \<Rightarrow> string" where
  "close_run run = (if 8 \<le> length run then ''<id>'' else run)"

fun mask_ids :: "string \<Rightarrow> string \<Rightarrow> string" where
  "mask_ids run [] = close_run run"
| "mask_ids run (c # s) =
     (if hex_char c then mask_ids (run @ [c]) s else close_run run @ c # mask_ids [] s)"

text \<open>\<open>lower\<close> stands for \<open>strings.ToLower\<close>, whose Unicode tables are not reproduced.\<close>

definition normalizeCause :: "(string \<Rightarrow> string) \<Rightarrow> string \<Rightarrow> string" where
  "normalizeCause lower cause = mask_ids [] (collapse_spaces False (lower (TrimSpace cause)))"

definition Signature :: "(string \<Rightarrow> string) \<Rightarrow> execution_error \<Rightarrow> failure_signature" where
  "Signature lower e =
     \<lparr>fs_phase = ee_phase e, fs_component = ee_component e, fs_category = ee_category e,
      fs_source = (if ee_source e = [] then ee_component e else ee_source e),
      fs_cause = normalizeCause lower (ee_cause e)\<rparr>"

text \<open>The counters, by signature text; an absent one reads as zero.\<close>

type_synonym retry_state = "(string \<times> int) list"

definition attempts :: "retry_state \<Rightarrow> string \<Rightarrow> int" where
  "attempts s k = (case map_of s k of None \<Rightarrow> 0 | Some n \<Rightarrow> n)"

definition RecordFailure ::
  "(string \<Rightarrow> string) \<Rightarrow> retry_state \<Rightarrow> execution_error \<Rightarrow> int \<Rightarrow> retry_state \<times> bool" where
  "RecordFailure lower s e maxAttempts =
     (if \<not> ee_retryable e \<or> maxAttempts \<le> 0 then (s, False)
      else
        let key = signature_string (Signature lower e);
            s' = AList.update key (attempts s key + 1) s
        in (s', attempts s' key \<le> maxAttempts))"

fun record_all ::
  "(string \<Rightarrow> string) \<Rightarrow> retry_state \<Rightarrow> int \<Rightarrow> execution_error list \<Rightarrow> retry_state \<times> bool list" where
  "record_all lower s n [] = (s, [])"
| "record_all lower s n (e # es) =
     (case RecordFailure lower s e n of
        (s', ok) \<Rightarrow> (case record_all lower s' n es of (s'', oks) \<Rightarrow> (s'', ok # oks)))"

section \<open>Facts\<close>

lemma phase_next: "IsValidTransition p q \<longleftrightarrow> q \<in> set (allowedTransitions p)"
  by (auto simp: IsValidTransition_def list_ex_iff)

text \<open>How far a phase is from the end of the workflow; every allowed transition brings it closer.\<close>

fun phase_left :: "phase \<Rightarrow> nat" where
  "phase_left PhaseInit = 5"
| "phase_left PhasePrepare = 4"
| "phase_left PhaseAudit = 3"
| "phase_left PhaseExecute = 2"
| "phase_left PhaseVerify = 1"
| "phase_left _ = 0"

lemma phase_left_decreases: "IsValidTransition p q \<Longrightarrow> phase_left q < phase_left p"
  by (cases p) (auto simp: phase_next)

lemma phase_chain_length: "phase_chain p qs \<Longrightarrow> length qs \<le> phase_left p"
proof (induction qs arbitrary: p)
  case (Cons q qs)
  then show ?case using phase_left_decreases [of p q] by fastforce
qed simp

fun phase_path :: "phase \<Rightarrow> phase list" where
  "phase_path PhaseInit = [PhasePrepare, PhaseAudit, PhaseExecute, PhaseVerify, PhaseDone]"
| "phase_path PhasePrepare = [PhaseAudit, PhaseExecute, PhaseVerify, PhaseDone]"
| "phase_path PhaseAudit = [PhaseExecute, PhaseVerify, PhaseDone]"
| "phase_path PhaseExecute = [PhaseVerify, PhaseDone]"
| "phase_path PhaseVerify = [PhaseDone]"
| "phase_path _ = []"

lemma phase_chain_done:
  "phase_chain p qs \<Longrightarrow> last_phase p qs = PhaseDone \<Longrightarrow> qs = phase_path p"
proof (induction qs arbitrary: p)
  case Nil
  then show ?case by (simp add: last_phase_def)
next
  case (Cons q qs)
  have "last_phase q qs = PhaseDone" using Cons.prems(2) by (auto simp: last_phase_def split: if_splits)
  with Cons have qs: "qs = phase_path q" by simp
  have "q \<noteq> PhaseFailed"
    using Cons.prems(2) qs by (auto simp: last_phase_def)
  with Cons.prems(1) qs show ?case by (cases p) (auto simp: phase_next)
qed

lemma attempts_update: "attempts (AList.update k v s) k' = (if k = k' then v else attempts s k')"
  by (simp add: attempts_def update_conv')

definition signature_key :: "(string \<Rightarrow> string) \<Rightarrow> execution_error \<Rightarrow> string" where
  "signature_key lower e = signature_string (Signature lower e)"

text \<open>How many of the recorded failures with a given key were granted a retry.\<close>

definition granted :: "(string \<Rightarrow> string) \<Rightarrow> string \<Rightarrow> execution_error list \<Rightarrow> bool list \<Rightarrow> nat" where
  "granted lower k es oks = length (filter (\<lambda>(e, ok). ok \<and> signature_key lower e = k) (zip es oks))"

lemma granted_bound:
  assumes "record_all lower s n es = (s', oks)" "0 \<le> attempts s k"
  shows "int (granted lower k es oks) \<le> max 0 (n - attempts s k)"
  using assms
proof (induction es arbitrary: s oks)
  case (Cons e es)
  obtain s1 ok where r: "RecordFailure lower s e n = (s1, ok)" by fastforce
  obtain oks1 where rest: "record_all lower s1 n es = (s', oks1)" and oks: "oks = ok # oks1"
    using Cons.prems(1) r by (auto split: prod.splits)
  show ?case
  proof (cases "ee_retryable e \<and> 0 < n")
    case False
    then have "s1 = s" "\<not> ok" using r by (auto simp: RecordFailure_def)
    with Cons.IH [OF rest] Cons.prems(2) oks show ?thesis by (simp add: granted_def)
  next
    case True
    then have s1: "s1 = AList.update (signature_key lower e) (attempts s (signature_key lower e) + 1) s"
      and ok: "ok \<longleftrightarrow> attempts s (signature_key lower e) + 1 \<le> n"
      using r by (auto simp: RecordFailure_def Let_def signature_key_def attempts_update)
    have "0 \<le> attempts s1 k" using Cons.prems(2) by (simp add: s1 attempts_update)
    from Cons.IH [OF rest this] show ?thesis
      using oks ok by (cases "signature_key lower e = k") (auto simp: granted_def s1 attempts_update)
  qed
qed (simp add: granted_def)

section \<open>Properties\<close>

text \<open>
  A workflow that ends in DONE went through every phase: from INIT the only sequence of valid
  transitions that reaches DONE is PREPARE, AUDIT, EXECUTE, VERIFY, DONE; no audit or verification
  can be skipped, and no sequence of valid transitions from INIT is longer than five.
\<close>

theorem phases_to_done:
  assumes "phase_chain PhaseInit qs"
  shows "length qs \<le> 5 \<and>
    (last_phase PhaseInit qs = PhaseDone \<longrightarrow>
       qs = [PhasePrepare, PhaseAudit, PhaseExecute, PhaseVerify, PhaseDone])"
  using phase_chain_length [OF assms] phase_chain_done [OF assms] by simp

theorem phases_to_done_witness:
  "length [PhasePrepare, PhaseAudit, PhaseExecute, PhaseVerify, PhaseDone] \<le> 5"
  by (rule phases_to_done [THEN conjunct1]) (simp add: IsValidTransition_def)

text \<open>
  Retries are bounded by failure signature: over any sequence of recorded failures, in any
  order and mixed with other failures, at most \<open>maxAttempts\<close> failures with one signature are told
  that they can be retried.
\<close>

theorem retries_bounded:
  assumes "record_all lower [] maxAttempts es = (s, oks)"
  shows "int (granted lower k es oks) \<le> max 0 maxAttempts"
  using granted_bound [OF assms, of k] by (simp add: attempts_def)

theorem retries_bounded_witness:
  "let e = \<lparr>ee_phase = PhaseExecute, ee_component = ''w'', ee_category = ''TIMEOUT'', ee_source = [],
            ee_cause = ''timeout  deadbeef01'', ee_retryable = True\<rparr>
   in snd (record_all (\<lambda>s. s) [] 1 [e, e]) = [True, False] \<and>
      int (granted (\<lambda>s. s) (signature_key (\<lambda>s. s) e) [e, e] [True, False]) \<le> 1"
proof -
  define e where "e = \<lparr>ee_phase = PhaseExecute, ee_component = ''w'', ee_category = ''TIMEOUT'', ee_source = [],
            ee_cause = ''timeout  deadbeef01'', ee_retryable = True\<rparr>"
  have r: "ee_retryable e" by (simp add: e_def)
  obtain s where s: "record_all (\<lambda>s. s) [] 1 [e, e] = (s, [True, False])"
    using r by (simp add: RecordFailure_def Let_def attempts_update) (simp add: attempts_def)
  from retries_bounded [OF s, of "signature_key (\<lambda>s. s) e"] s show ?thesis
    by (simp add: e_def [symmetric] Let_def)
qed

end
