(* ===== verification/Dag_Scheduler.thy ===== *)
theory Dag_Scheduler
  imports Task_Graph Task_Status
begin

text \<open>
  The scheduler of one delegation round, \<open>internal/team/dag_scheduler.go\<close>: its state, launching,
  the handling of a completion with its retry routes, reset waves, cancellation and the stranding of
  what is left. The scheduler's goroutine owns its state, so the model is a state machine whose
  steps are the completions; what the coordinator answers while one is handled is a \<open>round_view\<close>,
  which every theorem quantifies over. A remediation context is named by the task it is evidence of.
\<close>

section \<open>What the scheduler reads of a todo item\<close>

datatype assessment_status = InvariantViolated | InvariantUnknown | AssessmentOther string

record todo_view =
  tv_failure :: "(failure_class \<times> disposition) option"
  tv_result :: "(string \<times> string) option"
  tv_gate :: bool
  tv_assessments :: "(bool \<times> assessment_status) list option"
  tv_task :: task_def
  tv_progress :: progress
  tv_retries :: int

definition isSubmittedResultSource :: "string \<Rightarrow> bool" where
  "isSubmittedResultSource s \<longleftrightarrow>
     (s = ''submitted'' \<or> s = ''collected'') \<or> s = ''external_provider_proposal''"

text \<open>An assessment is the pair of whether its severity is \<open>error\<close> and its status.\<close>

definition HasBlockingInvariantAssessment :: "bool \<Rightarrow> (bool \<times> assessment_status) list option \<Rightarrow> bool" where
  "HasBlockingInvariantAssessment gate verification =
     (if \<not> gate then False
      else case verification of
        None \<Rightarrow> False
      | Some as \<Rightarrow> list_ex (\<lambda>(is_error, st). is_error \<and> (st = InvariantViolated \<or> st = InvariantUnknown)) as)"

definition isGenuineWorkerReportedFailure :: "todo_view \<Rightarrow> bool" where
  "isGenuineWorkerReportedFailure t =
     (case tv_result t of None \<Rightarrow> False
      | Some (source, status) \<Rightarrow> isSubmittedResultSource source \<and> status = ''failed'')"

definition isRuntimeAttestedInvariantRejection :: "todo_view \<Rightarrow> bool" where
  "isRuntimeAttestedInvariantRejection t =
     (case tv_result t of None \<Rightarrow> False
      | Some (source, status) \<Rightarrow>
          tv_gate t \<and> isSubmittedResultSource source
          \<and> HasBlockingInvariantAssessment (tv_gate t) (tv_assessments t))"

text \<open>\<open>None\<close> is the empty class of a todo without a failure event.\<close>

definition failureClassForTodo :: "todo_view \<Rightarrow> failure_class option" where
  "failureClassForTodo t = map_option fst (tv_failure t)"

definition effectiveFailureClassForTodo :: "todo_view \<Rightarrow> failure_class option" where
  "effectiveFailureClassForTodo t =
     (if isRuntimeAttestedInvariantRejection t then Some FailureSemanticRejection
      else if isGenuineWorkerReportedFailure t then Some FailureSemanticRejection
      else failureClassForTodo t)"

definition failureClassAllowed :: "failure_class option \<Rightarrow> failure_class list \<Rightarrow> bool" where
  "failureClassAllowed class allowed \<longleftrightarrow> list_ex (\<lambda>c. Some c = class) allowed"

definition selfHealEligible :: "todo_view \<Rightarrow> bool" where
  "selfHealEligible t =
     (if isGenuineWorkerReportedFailure t then False
      else case tv_failure t of
        None \<Rightarrow> False
      | Some (class, disp) \<Rightarrow>
          if class = FailureCancelled then False
          else if disp \<noteq> RetryNone then False
          else task_replayable (tv_task t))"

section \<open>State\<close>

datatype completion = Completed | CheckpointControl bool | BudgetRefused | CapabilityBlocked | WorkerError

text \<open>The flag of \<open>CheckpointControl\<close>: the checkpoint asks to replan or to escalate.\<close>

datatype task_outcome = Returned completion | RefusedDispatch disposition | StrandedBlocked

datatype effect =
    Launched nat | PersistedFailure nat task_status | CacheInvalidated nat
  | ResetCommitted nat "nat option" | RemediationCommitted nat nat | Terminalized int
  | FailuresForgotten nat | CriterionRouted nat nat

record workflow =
  wf_enabled :: bool
  wf_repair_max :: int
  wf_policy_max :: int

record round_config =
  cf_tasks :: "task_def list"
  cf_claims :: "resource_claim list list"
  cf_limit :: nat
  cf_workflow :: "workflow option"

record sched =
  sc_states :: "task_status list"
  sc_retries :: "int list"
  sc_criterion_used :: int
  sc_criterion_counts :: "int list"
  sc_results :: "task_outcome option list"
  sc_needs_reset :: "bool list"
  sc_pending :: "nat \<Rightarrow> nat option"
  sc_in_progress :: int
  sc_active :: "nat \<Rightarrow> resource_claim list option"
  sc_slots :: "nat \<Rightarrow> bool option"
  sc_sem :: nat
  sc_models :: "string list"
  sc_todo_models :: "string list"
  sc_running :: bool
  sc_stopped :: bool
  sc_log :: "effect list"

record completion_event =
  ev_idx :: int
  ev_kind :: completion

record round_view =
  rv_cancelled :: "nat \<Rightarrow> bool"
  rv_cancelled_late :: "nat \<Rightarrow> bool"
  rv_block :: "nat \<Rightarrow> disposition option"
  rv_todo :: "nat \<Rightarrow> todo_view"
  rv_status :: "nat \<Rightarrow> task_status option"
  rv_action_retry :: "nat \<Rightarrow> bool"
  rv_permit_repair :: "nat \<Rightarrow> bool"
  rv_commit_ok :: "nat \<Rightarrow> bool"
  rv_reset_ok :: "nat \<Rightarrow> bool"
  rv_failed_criteria :: "nat \<Rightarrow> string list"
  rv_next_model :: "nat \<Rightarrow> string"

abbreviation batch_size :: "round_config \<Rightarrow> nat" where
  "batch_size cf \<equiv> length (cf_tasks cf)"

definition maxCriterionRetryBudget :: "nat \<Rightarrow> int" where
  "maxCriterionRetryBudget n = (let budget = int n * 2 in if budget < 1 then 1 else budget)"

definition newDAGScheduler :: "round_config \<Rightarrow> string list \<Rightarrow> sched" where
  "newDAGScheduler cf todo_models =
     (let n = batch_size cf in
      \<lparr>sc_states = replicate n TaskPending, sc_retries = replicate n 0, sc_criterion_used = 0,
       sc_criterion_counts = replicate n 0, sc_results = replicate n None,
       sc_needs_reset = replicate n False, sc_pending = (\<lambda>_. None), sc_in_progress = 0,
       sc_active = (\<lambda>_. None), sc_slots = (\<lambda>_. None), sc_sem = 0,
       sc_models = map td_model (cf_tasks cf), sc_todo_models = todo_models,
       sc_running = False, sc_stopped = False, sc_log = []\<rparr>)"

definition set_state :: "nat \<Rightarrow> task_status \<Rightarrow> sched \<Rightarrow> sched" where
  "set_state i st s = s\<lparr>sc_states := (sc_states s)[i := st]\<rparr>"

definition set_result :: "nat \<Rightarrow> task_outcome \<Rightarrow> sched \<Rightarrow> sched" where
  "set_result i r s = s\<lparr>sc_results := (sc_results s)[i := Some r]\<rparr>"

definition add_retry :: "nat \<Rightarrow> sched \<Rightarrow> sched" where
  "add_retry i s = s\<lparr>sc_retries := (sc_retries s)[i := sc_retries s ! i + 1]\<rparr>"

definition log_effect :: "effect \<Rightarrow> sched \<Rightarrow> sched" where
  "log_effect e s = s\<lparr>sc_log := sc_log s @ [e]\<rparr>"

section \<open>Readiness\<close>

fun isTerminalTaskStatus :: "task_status \<Rightarrow> bool" where
  "isTerminalTaskStatus TaskDone = True"
| "isTerminalTaskStatus TaskSkipped = True"
| "isTerminalTaskStatus TaskError = True"
| "isTerminalTaskStatus TaskBlocked = True"
| "isTerminalTaskStatus _ = False"

text \<open>
  \<open>cannotStart\<close> recurses over a map of visited tasks shared by all its calls and stops at the first
  failed dependency; the same search with an explicit stack: the dependencies of the task being
  visited come before those left over from its callers. A task's dependence on itself is skipped
  because the task is already visited.
\<close>

function blocked_search :: "task_def list \<Rightarrow> task_status list \<Rightarrow> nat list \<Rightarrow> int list \<Rightarrow> bool" where
  "blocked_search tasks sts seen [] = False"
| "blocked_search tasks sts seen (c # q) =
     (if \<not> in_batch (length tasks) c \<or> sts ! nat c = TaskDone then blocked_search tasks sts seen q
      else if isTerminalTaskStatus (sts ! nat c) then True
      else if sts ! nat c \<noteq> TaskPending \<or> nat c \<in> set seen then blocked_search tasks sts seen q
      else blocked_search tasks sts (nat c # seen) (td_depends (tasks ! nat c) @ q))"
  by pat_completeness auto

termination
proof (relation "measures [\<lambda>(tasks, sts, seen, q). card ({..<length tasks} - set seen),
    \<lambda>(tasks, sts, seen, q). length q]")
  fix tasks :: "task_def list" and sts :: "task_status list" and seen c q
  assume "\<not> (\<not> in_batch (length tasks) c \<or> sts ! nat c = TaskDone)"
    "\<not> (sts ! nat c \<noteq> TaskPending \<or> nat c \<in> set seen)"
  then have "nat c \<in> {..<length tasks} - set seen" by auto
  then have "{..<length tasks} - set (nat c # seen) \<subset> {..<length tasks} - set seen" by auto
  then have "card ({..<length tasks} - set (nat c # seen)) < card ({..<length tasks} - set seen)"
    by (intro psubset_card_mono) auto
  then show "((tasks, sts, nat c # seen, td_depends (tasks ! nat c) @ q), tasks, sts, seen, c # q)
      \<in> measures [\<lambda>(tasks, sts, seen, q). card ({..<length tasks} - set seen),
                   \<lambda>(tasks, sts, seen, q). length q]"
    by simp
qed auto

declare blocked_search.simps [simp del]

definition cannotStart :: "task_def list \<Rightarrow> task_status list \<Rightarrow> nat \<Rightarrow> bool" where
  "cannotStart tasks sts i \<longleftrightarrow>
     sts ! i = TaskPending \<and> blocked_search tasks sts [i] (td_depends (tasks ! i))"

definition orderPredecessorsSettled :: "task_def list \<Rightarrow> task_status list \<Rightarrow> nat \<Rightarrow> bool" where
  "orderPredecessorsSettled tasks sts i \<longleftrightarrow>
     list_all (\<lambda>p. \<not> in_batch (length tasks) p \<or> p = int i \<or> isTerminalTaskStatus (sts ! nat p)
                   \<or> cannotStart tasks sts (nat p))
       (td_order_after (tasks ! i))"

definition readyToLaunch :: "task_def list \<Rightarrow> task_status list \<Rightarrow> nat \<Rightarrow> bool" where
  "readyToLaunch tasks sts i \<longleftrightarrow>
     list_all (\<lambda>d. \<not> in_batch (length tasks) d \<or> sts ! nat d = TaskDone) (td_depends (tasks ! i))
     \<and> orderPredecessorsSettled tasks sts i"

definition resourceConflict :: "round_config \<Rightarrow> sched \<Rightarrow> nat \<Rightarrow> bool" where
  "resourceConflict cf s i \<longleftrightarrow>
     list_ex (\<lambda>j. j \<noteq> i \<and> (case sc_active s j of None \<Rightarrow> False
                        | Some held \<Rightarrow> claimsConflict (cf_claims cf ! i) held))
       [0..<batch_size cf]"

section \<open>Launching\<close>

text \<open>\<open>Some owned\<close>: a slot was acquired, which holds a permit unless there is no limit.\<close>

definition tryAcquireSem :: "round_config \<Rightarrow> sched \<Rightarrow> bool option" where
  "tryAcquireSem cf s =
     (if cf_limit cf = 0 then Some False
      else if sc_sem s < cf_limit cf then Some True else None)"

definition launch_task :: "round_config \<Rightarrow> nat \<Rightarrow> bool \<Rightarrow> sched \<Rightarrow> sched" where
  "launch_task cf i owned s =
     (set_state i TaskInProgress s)\<lparr>
        sc_in_progress := sc_in_progress s + 1,
        sc_active := (sc_active s)(i := Some (cf_claims cf ! i)),
        sc_slots := (sc_slots s)(i := Some owned),
        sc_sem := (if owned then sc_sem s + 1 else sc_sem s),
        sc_log := sc_log s @ [Launched i]\<rparr>"

definition blockDispatch :: "nat \<Rightarrow> disposition \<Rightarrow> sched \<Rightarrow> sched" where
  "blockDispatch i d s =
     (let status = (if d = ReplanRequired then TaskError else TaskBlocked);
          recorded = (if d = ReplanRequired then ReplanRequired else NeedsHuman) in
      log_effect (PersistedFailure i status)
        (set_result i (RefusedDispatch recorded) (set_state i status s)))"

definition dispatch_over :: "round_view \<Rightarrow> nat \<Rightarrow> sched \<Rightarrow> bool" where
  "dispatch_over v i s \<longleftrightarrow> sc_stopped s \<or> sc_running s \<and> rv_cancelled v i"

fun launch_loop :: "round_config \<Rightarrow> round_view \<Rightarrow> nat list \<Rightarrow> sched \<Rightarrow> sched" where
  "launch_loop cf v [] s = s"
| "launch_loop cf v (i # is) s =
     (if dispatch_over v i s then s
      else if sc_states s ! i \<noteq> TaskPending \<or> \<not> readyToLaunch (cf_tasks cf) (sc_states s) i
      then launch_loop cf v is s
      else if resourceConflict cf s i then launch_loop cf v is s
      else case rv_block v i of
             Some d \<Rightarrow> launch_loop cf v is (blockDispatch i d s)
           | None \<Rightarrow>
               (case tryAcquireSem cf s of
                  None \<Rightarrow> s
                | Some owned \<Rightarrow>
                    if sc_stopped s \<or> sc_running s \<and> rv_cancelled_late v i then s
                    else launch_loop cf v is (launch_task cf i owned s)))"

definition launchReady :: "round_config \<Rightarrow> round_view \<Rightarrow> sched \<Rightarrow> sched" where
  "launchReady cf v s = launch_loop cf v [0..<batch_size cf] s"

section \<open>Resetting\<close>

definition releaseInProgress :: "int \<Rightarrow> sched \<Rightarrow> sched" where
  "releaseInProgress idx s =
     (let i = nat idx;
          s1 = (case sc_slots s i of
                  None \<Rightarrow> s
                | Some owned \<Rightarrow> s\<lparr>sc_sem := (if owned then sc_sem s - 1 else sc_sem s),
                                   sc_slots := (sc_slots s)(i := None)\<rparr>) in
      s1\<lparr>sc_in_progress := sc_in_progress s1 - 1, sc_active := (sc_active s1)(i := None)\<rparr>)"

text \<open>The flag is whether no error was returned.\<close>

definition resetTaskWithRemediation ::
  "round_config \<Rightarrow> round_view \<Rightarrow> nat \<Rightarrow> nat option \<Rightarrow> sched \<Rightarrow> bool \<times> sched" where
  "resetTaskWithRemediation cf v i remediation s0 =
     (let s = log_effect (CacheInvalidated i) s0 in
      if sc_states s ! i = TaskPending then
        (case remediation of
           None \<Rightarrow> (True, s)
         | Some src \<Rightarrow> if rv_commit_ok v i then (True, log_effect (RemediationCommitted i src) s) else (False, s))
      else if \<not> task_replayable (cf_tasks cf ! i) then
        (True, log_effect (PersistedFailure i TaskBlocked) (set_state i TaskBlocked s))
      else if \<not> rv_reset_ok v i then (False, s)
      else
        (let override = (sc_models s ! i \<noteq> [] \<and> sc_models s ! i \<noteq> sc_todo_models s ! i);
             s1 = (if override then s\<lparr>sc_todo_models := (sc_todo_models s)[i := sc_models s ! i]\<rparr> else s) in
         (True, set_state i TaskPending (log_effect (ResetCommitted i remediation) s1))))"

fun wave_loop ::
  "round_config \<Rightarrow> round_view \<Rightarrow> nat \<Rightarrow> nat option \<Rightarrow> nat list \<Rightarrow> sched \<Rightarrow> bool \<times> sched" where
  "wave_loop cf v target remediation [] s = (True, s)"
| "wave_loop cf v target remediation (c # cs) s =
     (let correction = (if c = target then remediation else None) in
      if sc_states s ! c = TaskInProgress then
        wave_loop cf v target remediation cs
          (s\<lparr>sc_needs_reset := (sc_needs_reset s)[c := True],
             sc_pending := (case correction of None \<Rightarrow> sc_pending s
                            | Some src \<Rightarrow> (sc_pending s)(c := Some src))\<rparr>)
      else (case resetTaskWithRemediation cf v c correction s of
              (False, s') \<Rightarrow> (False, s')
            | (True, s') \<Rightarrow> wave_loop cf v target remediation cs s'))"

definition resetWaveWithRemediation ::
  "round_config \<Rightarrow> round_view \<Rightarrow> nat \<Rightarrow> nat option \<Rightarrow> sched \<Rightarrow> bool \<times> sched" where
  "resetWaveWithRemediation cf v target remediation s =
     wave_loop cf v target remediation (wave_order (cf_tasks cf) target) s"

section \<open>Criterion routing\<close>

definition criterionRetryTargets :: "task_def list \<Rightarrow> string list \<Rightarrow> nat list" where
  "criterionRetryTargets tasks failed =
     (let failed_set = filter (\<lambda>x. x \<noteq> []) (map TrimSpace failed) in
      filter (\<lambda>i. (td_kind (tasks ! i) = TaskKindRepair \<or> td_kind (tasks ! i) = TaskKindOutcome)
                  \<and> list_ex (\<lambda>x. list_ex (\<lambda>y. y = x) failed_set) (td_advances (tasks ! i)))
        [0..<length tasks])"

definition criterionRetryEligible :: "progress \<Rightarrow> string list \<Rightarrow> bool" where
  "criterionRetryEligible p failed \<longleftrightarrow> p = ProgressNoChange \<and> failed \<noteq> []"

text \<open>Taking the chosen target: the shared tail of the loop body of \<open>routeCriterionRetry\<close>.\<close>

definition dispatch_criterion_retry ::
  "round_config \<Rightarrow> round_view \<Rightarrow> nat \<Rightarrow> nat \<Rightarrow> sched \<Rightarrow> bool \<times> sched" where
  "dispatch_criterion_retry cf v idx t s =
     (let s1 = log_effect (CriterionRouted idx t) (s\<lparr>sc_criterion_used := sc_criterion_used s + 1\<rparr>);
          remediation = (if sc_states s1 ! idx = TaskError then Some idx else None) in
      case resetTaskWithRemediation cf v t remediation s1 of
        (False, s2) \<Rightarrow> (False, s2)
      | (True, s2) \<Rightarrow> (True, launchReady cf v s2))"

fun route_loop ::
  "round_config \<Rightarrow> round_view \<Rightarrow> nat \<Rightarrow> nat list \<Rightarrow> sched \<Rightarrow> bool \<times> sched" where
  "route_loop cf v idx [] s = (False, s)"
| "route_loop cf v idx (t # ts) s =
     (if t = idx \<or> sc_states s ! t = TaskInProgress then route_loop cf v idx ts s
      else if sc_states s ! t \<noteq> TaskPending then
        (if td_on_failure (cf_tasks cf ! t) \<noteq> None then route_loop cf v idx ts s
         else if \<not> task_replayable (cf_tasks cf ! t) then
           route_loop cf v idx ts
             (log_effect (PersistedFailure t TaskBlocked) (set_state t TaskBlocked s))
         else let maxRetries = td_max_retries (cf_tasks cf ! t) in
           if maxRetries \<le> 0 \<or> maxRetries \<le> max (sc_criterion_counts s ! t)
                                     (max (sc_retries s ! t) (tv_retries (rv_todo v t)))
           then route_loop cf v idx ts s
           else dispatch_criterion_retry cf v idx t
                  (add_retry t (s\<lparr>sc_criterion_counts :=
                     (sc_criterion_counts s)[t := sc_criterion_counts s ! t + 1]\<rparr>)))
      else dispatch_criterion_retry cf v idx t s)"

definition routeCriterionRetry ::
  "round_config \<Rightarrow> round_view \<Rightarrow> nat \<Rightarrow> string list \<Rightarrow> sched \<Rightarrow> bool \<times> sched" where
  "routeCriterionRetry cf v idx failed s =
     (if failed = [] \<or> maxCriterionRetryBudget (batch_size cf) \<le> sc_criterion_used s then (False, s)
      else route_loop cf v idx (criterionRetryTargets (cf_tasks cf) failed) s)"

definition routeNoProgressCriterionRetry ::
  "round_config \<Rightarrow> round_view \<Rightarrow> nat \<Rightarrow> sched \<Rightarrow> bool \<times> sched" where
  "routeNoProgressCriterionRetry cf v idx s =
     (if td_kind (cf_tasks cf ! idx) = TaskKindDiagnostic then (False, s)
      else let failed = rv_failed_criteria v idx in
        if \<not> criterionRetryEligible (tv_progress (rv_todo v idx)) failed then (False, s)
        else routeCriterionRetry cf v idx failed s)"

section \<open>Handling a completion\<close>

definition repairRetryLimit :: "workflow option \<Rightarrow> int \<Rightarrow> int" where
  "repairRetryLimit w taskMax =
     (case w of None \<Rightarrow> taskMax
      | Some flow \<Rightarrow> if \<not> wf_enabled flow then taskMax
          else if 0 < wf_repair_max flow then wf_repair_max flow
          else if 0 < wf_policy_max flow then wf_policy_max flow else taskMax)"

definition retry_limit :: "round_config \<Rightarrow> nat \<Rightarrow> int" where
  "retry_limit cf i = repairRetryLimit (cf_workflow cf) (td_max_retries (cf_tasks cf ! i))"

text \<open>Reset one task and launch, unless the reset could not be committed.\<close>

definition reset_and_launch :: "round_config \<Rightarrow> round_view \<Rightarrow> nat \<Rightarrow> sched \<Rightarrow> sched" where
  "reset_and_launch cf v i s =
     (case resetTaskWithRemediation cf v i None s of
        (False, s') \<Rightarrow> s' | (True, s') \<Rightarrow> launchReady cf v s')"

definition handle_stale :: "round_config \<Rightarrow> round_view \<Rightarrow> nat \<Rightarrow> sched \<Rightarrow> sched" where
  "handle_stale cf v i s =
     (case resetTaskWithRemediation cf v i (sc_pending s i)
             (set_state i TaskError (s\<lparr>sc_needs_reset := (sc_needs_reset s)[i := False]\<rparr>)) of
        (False, s') \<Rightarrow> s'
      | (True, s') \<Rightarrow> launchReady cf v (s'\<lparr>sc_pending := (sc_pending s')(i := None)\<rparr>))"

definition handle_checkpoint :: "round_config \<Rightarrow> round_view \<Rightarrow> nat \<Rightarrow> bool \<Rightarrow> sched \<Rightarrow> sched" where
  "handle_checkpoint cf v i replan s =
     (let s1 = set_result i (Returned (CheckpointControl replan)) s in
      case rv_status v i of
        None \<Rightarrow> set_state i TaskError s1
      | Some st \<Rightarrow>
          if replan then launchReady cf v (set_state i TaskPending (set_state i st s1))
          else set_state i st s1)"

definition handle_success :: "round_config \<Rightarrow> round_view \<Rightarrow> nat \<Rightarrow> sched \<Rightarrow> sched" where
  "handle_success cf v i s =
     (case routeNoProgressCriterionRetry cf v i
             (log_effect (FailuresForgotten i) (set_state i TaskDone (set_result i (Returned Completed) s))) of
        (True, s') \<Rightarrow> s'
      | (False, s') \<Rightarrow> launchReady cf v s')"

definition jump_back :: "round_config \<Rightarrow> round_view \<Rightarrow> nat \<Rightarrow> int \<Rightarrow> sched \<Rightarrow> sched" where
  "jump_back cf v i target s =
     (let s1 = add_retry i s;
          next_model = rv_next_model v i;
          s2 = (if next_model \<noteq> [] then s1\<lparr>sc_models := (sc_models s1)[i := next_model]\<rparr> else s1) in
      case resetWaveWithRemediation cf v (nat target) (if target \<noteq> int i then Some i else None) s2 of
        (False, s') \<Rightarrow> s' | (True, s') \<Rightarrow> launchReady cf v s')"

text \<open>The failure edge of a task: its retry limit, its class allowlist, the repair policy, the wave.\<close>

definition handle_failure_edge :: "round_config \<Rightarrow> round_view \<Rightarrow> nat \<Rightarrow> sched \<Rightarrow> sched" where
  "handle_failure_edge cf v i s =
     (let t = cf_tasks cf ! i in
      case td_on_failure t of
        None \<Rightarrow> launchReady cf v s
      | Some target \<Rightarrow>
          if retry_limit cf i \<le> sc_retries s ! i then launchReady cf v s
          else if td_failure_classes t \<noteq> []
                  \<and> \<not> failureClassAllowed (effectiveFailureClassForTodo (rv_todo v i)) (td_failure_classes t)
          then if \<not> selfHealEligible (rv_todo v i) then launchReady cf v s
               else reset_and_launch cf v i (add_retry i s)
          else if cf_workflow cf \<noteq> None \<and> \<not> rv_permit_repair v i then launchReady cf v s
          else jump_back cf v i target s)"

definition handle_failure :: "round_config \<Rightarrow> round_view \<Rightarrow> nat \<Rightarrow> sched \<Rightarrow> sched" where
  "handle_failure cf v i s0 =
     (let s = set_result i (Returned WorkerError) (set_state i TaskError s0) in
      if cf_workflow cf \<noteq> None \<and> rv_action_retry v i then reset_and_launch cf v i (add_retry i s)
      else case (if td_on_failure (cf_tasks cf ! i) = None
                 then routeCriterionRetry cf v i (rv_failed_criteria v i) s else (False, s)) of
             (True, s') \<Rightarrow> s'
           | (False, s') \<Rightarrow> handle_failure_edge cf v i s')"

definition handleEvent :: "round_config \<Rightarrow> round_view \<Rightarrow> completion_event \<Rightarrow> sched \<Rightarrow> sched" where
  "handleEvent cf v ev s0 =
     (let idx = ev_idx ev; i = nat idx in
      if \<not> in_batch (batch_size cf) idx then s0\<lparr>sc_in_progress := sc_in_progress s0 - 1\<rparr>
      else let s = releaseInProgress idx s0 in
        if sc_needs_reset s ! i then handle_stale cf v i s
        else case ev_kind ev of
          CheckpointControl replan \<Rightarrow> handle_checkpoint cf v i replan s
        | BudgetRefused \<Rightarrow>
            launchReady cf v (set_state i TaskError
              (set_result i (Returned BudgetRefused) (log_effect (Terminalized idx) s)))
        | CapabilityBlocked \<Rightarrow>
            launchReady cf v (set_state i TaskBlocked
              (set_result i (Returned CapabilityBlocked) (log_effect (Terminalized idx) s)))
        | Completed \<Rightarrow> handle_success cf v i s
        | WorkerError \<Rightarrow> handle_failure cf v i (log_effect (Terminalized idx) s))"

section \<open>Cancellation and the end of the round\<close>

definition consumeCancelledResult :: "completion_event \<Rightarrow> sched \<Rightarrow> sched" where
  "consumeCancelledResult ev s =
     releaseInProgress (ev_idx ev)
       (case ev_kind ev of
          Completed \<Rightarrow> s
        | CheckpointControl _ \<Rightarrow> s
        | _ \<Rightarrow> log_effect (Terminalized (ev_idx ev)) s)"

definition stop_dispatch :: "sched \<Rightarrow> sched" where
  "stop_dispatch s = s\<lparr>sc_stopped := True\<rparr>"

definition strand_task :: "nat \<Rightarrow> sched \<Rightarrow> sched" where
  "strand_task i s =
     (if sc_states s ! i \<noteq> TaskPending then s
      else set_result i StrandedBlocked
             (log_effect (PersistedFailure i TaskBlocked) (set_state i TaskBlocked s)))"

definition markStranded :: "round_config \<Rightarrow> sched \<Rightarrow> sched" where
  "markStranded cf s = fold strand_task [0..<batch_size cf] s"

definition begin_round :: "round_config \<Rightarrow> round_view \<Rightarrow> sched \<Rightarrow> sched" where
  "begin_round cf v s = launchReady cf v (s\<lparr>sc_running := True, sc_stopped := False\<rparr>)"

text \<open>
  The loop of \<open>run\<close>: the completions it receives with the coordinator's answers, until none is
  outstanding; then what never became ready is stranded. \<open>None\<close> is a completion still outstanding.
\<close>

fun handle_all :: "round_config \<Rightarrow> (round_view \<times> completion_event) list \<Rightarrow> sched \<Rightarrow> sched" where
  "handle_all cf [] s = s"
| "handle_all cf ((v, ev) # evs) s = handle_all cf evs (handleEvent cf v ev s)"

definition run :: "round_config \<Rightarrow> round_view \<Rightarrow> (round_view \<times> completion_event) list \<Rightarrow> sched \<Rightarrow> sched option" where
  "run cf v evs s =
     (let s' = handle_all cf evs (begin_round cf v s) in
      if 0 < sc_in_progress s' then None
      else Some ((markStranded cf s')\<lparr>sc_running := False\<rparr>))"

definition drainInProgress :: "completion_event list \<Rightarrow> sched \<Rightarrow> sched" where
  "drainInProgress evs s = fold consumeCancelledResult evs s"

end
