(* ===== verification/Dag_Safety.thy ===== *)
theory Dag_Safety
  imports Dag_Scheduler
begin

text \<open>
  What every state of a round satisfies: the slots, the set of running tasks and the counter agree,
  the concurrency limit holds, running tasks do not conflict over resources, and the criterion
  retries stay within their budgets. A potential that each handled completion decreases bounds the
  length of a round.
\<close>

section \<open>The invariant\<close>

definition active_set :: "sched \<Rightarrow> nat set" where
  "active_set s = {i. sc_active s i \<noteq> None}"

definition sized :: "round_config \<Rightarrow> sched \<Rightarrow> bool" where
  "sized cf s \<longleftrightarrow> length (sc_states s) = batch_size cf \<and> length (sc_retries s) = batch_size cf \<and>
     length (sc_criterion_counts s) = batch_size cf \<and> length (sc_needs_reset s) = batch_size cf"

definition running_ok :: "round_config \<Rightarrow> sched \<Rightarrow> bool" where
  "running_ok cf s \<longleftrightarrow>
     (\<forall>i. sc_active s i \<noteq> None \<longrightarrow> i < batch_size cf \<and> sc_states s ! i = TaskInProgress \<and>
            sc_active s i = Some (cf_claims cf ! i)) \<and>
     (\<forall>i. sc_slots s i = (if sc_active s i = None then None else Some (0 < cf_limit cf))) \<and>
     sc_in_progress s = int (card (active_set s)) \<and>
     (0 < cf_limit cf \<longrightarrow> sc_sem s = card (active_set s) \<and> card (active_set s) \<le> cf_limit cf)"

definition exclusive_ok :: "round_config \<Rightarrow> sched \<Rightarrow> bool" where
  "exclusive_ok cf s \<longleftrightarrow>
     (\<forall>i\<in>active_set s. \<forall>j\<in>active_set s. i \<noteq> j \<longrightarrow> \<not> claimsConflict (cf_claims cf ! i) (cf_claims cf ! j))"

definition budget_ok :: "round_config \<Rightarrow> sched \<Rightarrow> bool" where
  "budget_ok cf s \<longleftrightarrow>
     0 \<le> sc_criterion_used s \<and> sc_criterion_used s \<le> maxCriterionRetryBudget (batch_size cf) \<and>
     (\<forall>i<batch_size cf. sc_criterion_counts s ! i \<le> max 0 (td_max_retries (cf_tasks cf ! i)))"

definition sched_inv :: "round_config \<Rightarrow> sched \<Rightarrow> bool" where
  "sched_inv cf s \<longleftrightarrow> sized cf s \<and> running_ok cf s \<and> exclusive_ok cf s \<and> budget_ok cf s"

lemma active_in_batch: "sched_inv cf s \<Longrightarrow> active_set s \<subseteq> {..<batch_size cf}"
  by (auto simp: sched_inv_def running_ok_def active_set_def)

lemma finite_active: "sched_inv cf s \<Longrightarrow> finite (active_set s)"
  by (rule finite_subset [OF active_in_batch]) auto

lemma active_in_progress:
  "sched_inv cf s \<Longrightarrow> sc_active s i \<noteq> None \<Longrightarrow> i < batch_size cf \<and> sc_states s ! i = TaskInProgress"
  by (auto simp: sched_inv_def running_ok_def)

section \<open>Quiet changes\<close>

text \<open>A change that touches neither the running tasks nor any counter.\<close>

definition quiet :: "sched \<Rightarrow> sched \<Rightarrow> bool" where
  "quiet s s' \<longleftrightarrow>
     sc_active s' = sc_active s \<and> sc_slots s' = sc_slots s \<and> sc_sem s' = sc_sem s \<and>
     sc_in_progress s' = sc_in_progress s \<and> sc_retries s' = sc_retries s \<and>
     sc_criterion_used s' = sc_criterion_used s \<and> sc_criterion_counts s' = sc_criterion_counts s \<and>
     length (sc_states s') = length (sc_states s) \<and>
     length (sc_needs_reset s') = length (sc_needs_reset s) \<and>
     (\<forall>i. sc_active s i \<noteq> None \<longrightarrow> sc_states s' ! i = sc_states s ! i)"

lemma quiet_refl [simp, intro]: "quiet s s"
  by (simp add: quiet_def)

lemma quiet_trans [trans]: "quiet s t \<Longrightarrow> quiet t u \<Longrightarrow> quiet s u"
  by (simp add: quiet_def)

lemma quiet_inv:
  assumes "sched_inv cf s" "quiet s s'"
  shows "sched_inv cf s'"
proof -
  have inv: "sized cf s" "running_ok cf s" "exclusive_ok cf s" "budget_ok cf s"
    using assms(1) by (simp_all add: sched_inv_def)
  have q: "sc_active s' = sc_active s" "sc_slots s' = sc_slots s" "sc_sem s' = sc_sem s"
    "sc_in_progress s' = sc_in_progress s" "sc_retries s' = sc_retries s"
    "sc_criterion_used s' = sc_criterion_used s" "sc_criterion_counts s' = sc_criterion_counts s"
    "length (sc_states s') = length (sc_states s)" "length (sc_needs_reset s') = length (sc_needs_reset s)"
    "\<And>i. sc_active s i \<noteq> None \<Longrightarrow> sc_states s' ! i = sc_states s ! i"
    using assms(2) by (simp_all add: quiet_def)
  have a: "active_set s' = active_set s" by (simp only: active_set_def q)
  have "sized cf s'" using inv(1) by (simp add: sized_def q)
  moreover have "running_ok cf s'"
    using inv(2) unfolding running_ok_def a q(1-4) using q(10) by metis
  moreover have "exclusive_ok cf s'" using inv(3) by (simp only: exclusive_ok_def a)
  moreover have "budget_ok cf s'" using inv(4) unfolding budget_ok_def q .
  ultimately show ?thesis by (simp add: sched_inv_def)
qed

lemma quiet_set_state [intro]: "sc_active s i = None \<Longrightarrow> quiet s (set_state i st s)"
  by (auto simp: quiet_def set_state_def nth_list_update split: if_splits)
     (metis nth_list_update_neq option.distinct(1))

lemma quiet_log [intro, simp]: "quiet s (log_effect e s)"
  by (simp add: quiet_def log_effect_def)

lemma quiet_result [intro, simp]: "quiet s (set_result i r s)"
  by (simp add: quiet_def set_result_def)

lemmas step_simps = set_state_def set_result_def log_effect_def add_retry_def

text \<open>A reset rewrites one status, at most.\<close>

lemma reset_shape:
  obtains st tm lg where
    "snd (resetTaskWithRemediation cf v i rem s) =
       s\<lparr>sc_states := (sc_states s)[i := st], sc_todo_models := tm, sc_log := lg\<rparr>"
    "st = sc_states s ! i \<or> st = TaskPending \<or> st = TaskBlocked"
proof -
  have "\<exists>st tm lg. snd (resetTaskWithRemediation cf v i rem s) =
      s\<lparr>sc_states := (sc_states s)[i := st], sc_todo_models := tm, sc_log := lg\<rparr> \<and>
      (st = sc_states s ! i \<or> st = TaskPending \<or> st = TaskBlocked)"
  proof (cases "sc_states s ! i = TaskPending")
    case True
    then have l: "(sc_states s)[i := TaskPending] = sc_states s" by (metis list_update_id)
    from True show ?thesis
      by (intro exI [of _ TaskPending] exI [of _ "sc_todo_models s"]
            exI [of _ "sc_log (snd (resetTaskWithRemediation cf v i rem s))"])
         (cases rem; simp add: resetTaskWithRemediation_def step_simps Let_def l)
  next
    case False
    let ?s = "log_effect (CacheInvalidated i) s"
    consider (unsafe) "\<not> task_replayable (cf_tasks cf ! i)"
      | (refused) "task_replayable (cf_tasks cf ! i)" "\<not> rv_reset_ok v i"
      | (reset) "task_replayable (cf_tasks cf ! i)" "rv_reset_ok v i" by blast
    then show ?thesis
    proof cases
      case unsafe
      with False show ?thesis
        by (intro exI [of _ TaskBlocked] exI [of _ "sc_todo_models s"] exI)
           (simp add: resetTaskWithRemediation_def step_simps)
    next
      case refused
      with False show ?thesis
        by (intro exI [of _ "sc_states s ! i"] exI [of _ "sc_todo_models s"] exI)
           (simp add: resetTaskWithRemediation_def step_simps)
    next
      case reset
      with False show ?thesis
        by (intro exI [of _ TaskPending]
              exI [of _ "if sc_models s ! i \<noteq> [] \<and> sc_models s ! i \<noteq> sc_todo_models s ! i
                         then (sc_todo_models s)[i := sc_models s ! i] else sc_todo_models s"]
              exI [of _ "sc_log s @ [CacheInvalidated i, ResetCommitted i rem]"])
           (simp add: resetTaskWithRemediation_def step_simps Let_def)
    qed
  qed
  with that show thesis by blast
qed

lemma quiet_reset [intro]:
  assumes "sc_active s i = None"
  shows "quiet s (snd (resetTaskWithRemediation cf v i rem s))"
proof -
  obtain st tm lg where e: "snd (resetTaskWithRemediation cf v i rem s) =
       s\<lparr>sc_states := (sc_states s)[i := st], sc_todo_models := tm, sc_log := lg\<rparr>" by (rule reset_shape)
  have "(sc_states s)[i := st] ! j = sc_states s ! j" if "sc_active s j \<noteq> None" for j
    using assms that by (metis nth_list_update_neq)
  then show ?thesis unfolding e by (simp add: quiet_def)
qed

lemma quiet_wave:
  "sched_inv cf s \<Longrightarrow> quiet s (snd (wave_loop cf v t rem cs s))"
proof (induction cs arbitrary: s)
  case (Cons c cs)
  let ?corr = "if c = t then rem else None"
  show ?case
  proof (cases "sc_states s ! c = TaskInProgress")
    case True
    let ?s = "s\<lparr>sc_needs_reset := (sc_needs_reset s)[c := True],
             sc_pending := (case ?corr of None \<Rightarrow> sc_pending s | Some src \<Rightarrow> (sc_pending s)(c := Some src))\<rparr>"
    have q: "quiet s ?s" by (simp add: quiet_def)
    also have "quiet ?s (snd (wave_loop cf v t rem cs ?s))"
      by (rule Cons.IH) (rule quiet_inv [OF Cons.prems q])
    finally show ?thesis using True by (simp add: Let_def)
  next
    case False
    then have "sc_active s c = None" using active_in_progress [OF Cons.prems] by blast
    then have q: "quiet s (snd (resetTaskWithRemediation cf v c ?corr s))" by (rule quiet_reset)
    obtain ok s1 where r: "resetTaskWithRemediation cf v c ?corr s = (ok, s1)" by fastforce
    with q have q1: "quiet s s1" by simp
    show ?thesis
    proof (cases ok)
      case True
      have "quiet s1 (snd (wave_loop cf v t rem cs s1))"
        by (rule Cons.IH) (rule quiet_inv [OF Cons.prems q1])
      with q1 have "quiet s (snd (wave_loop cf v t rem cs s1))" by (rule quiet_trans)
      with False r True show ?thesis by (simp add: Let_def)
    next
      case okF: False
      with False r q1 show ?thesis by (simp add: Let_def)
    qed
  qed
qed simp

section \<open>Launching and releasing keep the invariant\<close>

lemma conflict_free:
  assumes "sched_inv cf s" "\<not> resourceConflict cf s i" "j \<in> active_set s" "j \<noteq> i"
  shows "\<not> claimsConflict (cf_claims cf ! i) (cf_claims cf ! j)"
proof -
  have a: "sc_active s j = Some (cf_claims cf ! j)" "j < batch_size cf"
    using assms(1,3) by (auto simp: sched_inv_def running_ok_def active_set_def)
  with assms(2,4) show ?thesis by (auto simp: resourceConflict_def list_ex_iff)
qed

lemma active_launch: "active_set (launch_task cf i owned s) = insert i (active_set s)"
  by (auto simp: active_set_def launch_task_def)

lemma launch_inv:
  assumes inv: "sched_inv cf s" and i: "i < batch_size cf" "sc_active s i = None"
    and c: "\<not> resourceConflict cf s i" and acq: "tryAcquireSem cf s = Some owned"
  shows "sched_inv cf (launch_task cf i owned s)"
proof -
  let ?s = "launch_task cf i owned s"
  have parts: "sized cf s" "running_ok cf s" "exclusive_ok cf s" "budget_ok cf s"
    using inv by (simp_all add: sched_inv_def)
  have card: "card (active_set ?s) = Suc (card (active_set s))"
    using i(2) finite_active [OF inv] by (simp add: active_launch) (simp add: active_set_def)
  have owned: "owned \<longleftrightarrow> 0 < cf_limit cf" and room: "owned \<Longrightarrow> sc_sem s < cf_limit cf"
    using acq by (auto simp: tryAcquireSem_def split: if_splits)
  have f: "sc_active ?s = (sc_active s)(i := Some (cf_claims cf ! i))"
    "sc_slots ?s = (sc_slots s)(i := Some owned)" "sc_in_progress ?s = sc_in_progress s + 1"
    "sc_sem ?s = (if owned then sc_sem s + 1 else sc_sem s)"
    "sc_states ?s = (sc_states s)[i := TaskInProgress]"
    by (simp_all add: launch_task_def set_state_def)
  have "sized cf ?s" using parts(1) by (simp add: sized_def launch_task_def set_state_def)
  moreover have "running_ok cf ?s"
  proof -
    have len: "length (sc_states s) = batch_size cf" using parts(1) by (simp add: sized_def)
    have r: "\<And>j. sc_active s j \<noteq> None \<Longrightarrow>
        j < batch_size cf \<and> sc_states s ! j = TaskInProgress \<and> sc_active s j = Some (cf_claims cf ! j)"
      "\<And>j. sc_slots s j = (if sc_active s j = None then None else Some (0 < cf_limit cf))"
      "sc_in_progress s = int (card (active_set s))"
      "0 < cf_limit cf \<Longrightarrow> sc_sem s = card (active_set s)"
      using parts(2) unfolding running_ok_def by blast+
    have "j < batch_size cf \<and> sc_states ?s ! j = TaskInProgress \<and> sc_active ?s j = Some (cf_claims cf ! j)"
      if "sc_active ?s j \<noteq> None" for j
      using that r(1) [of j] i(1) len by (cases "j = i") (auto simp: f)
    moreover have "sc_slots ?s j = (if sc_active ?s j = None then None else Some (0 < cf_limit cf))" for j
      unfolding f using r(2) [of j] owned by simp
    moreover have "sc_in_progress ?s = int (card (active_set ?s))" using r(3) card by (simp add: f)
    moreover have "0 < cf_limit cf \<longrightarrow> sc_sem ?s = card (active_set ?s) \<and> card (active_set ?s) \<le> cf_limit cf"
      unfolding f using r(4) card owned room by (cases owned) auto
    ultimately show ?thesis unfolding running_ok_def by blast
  qed
  moreover have "exclusive_ok cf ?s"
    using parts(3) conflict_free [OF inv c] claimsConflict_sym
    unfolding exclusive_ok_def active_launch by blast
  moreover have "budget_ok cf ?s" using parts(4) by (simp add: budget_ok_def launch_task_def set_state_def)
  ultimately show ?thesis by (simp add: sched_inv_def)
qed

lemma quiet_block [intro]: "sc_active s i = None \<Longrightarrow> quiet s (blockDispatch i d s)"
  unfolding blockDispatch_def Let_def
  by (rule quiet_trans [OF quiet_set_state], assumption, rule quiet_trans [OF quiet_result quiet_log])

text \<open>One case split over the loop of \<open>launchReady\<close>, for every property of a launch pass.\<close>

lemma launch_loop_induct [consumes 2, case_names refl step]:
  assumes "sched_inv cf s" "set is \<subseteq> {..<batch_size cf}"
    and "\<And>s. sched_inv cf s \<Longrightarrow> P s s"
    and "\<And>s t u. sched_inv cf s \<Longrightarrow> sched_inv cf t \<Longrightarrow> P t u \<Longrightarrow>
        (\<exists>i d. i < batch_size cf \<and> sc_states s ! i = TaskPending \<and>
             readyToLaunch (cf_tasks cf) (sc_states s) i \<and> rv_block v i = Some d \<and> t = blockDispatch i d s) \<or>
        (\<exists>i owned. i < batch_size cf \<and> sc_states s ! i = TaskPending \<and>
             readyToLaunch (cf_tasks cf) (sc_states s) i \<and> \<not> resourceConflict cf s i \<and>
             rv_block v i = None \<and> tryAcquireSem cf s = Some owned \<and> t = launch_task cf i owned s) \<Longrightarrow> P s u"
  shows "P s (launch_loop cf v is s)"
  using assms(1,2)
proof (induction "is" arbitrary: s)
  case Nil
  then show ?case by (simp add: assms(3))
next
  case (Cons i js)
  have i: "i < batch_size cf" and js: "set js \<subseteq> {..<batch_size cf}" using Cons.prems(2) by simp_all
  note rest = Cons.IH [OF _ js]
  consider (stay) "launch_loop cf v (i # js) s = s"
    | (skip) "launch_loop cf v (i # js) s = launch_loop cf v js s"
    | (block) d where "sc_states s ! i = TaskPending" "readyToLaunch (cf_tasks cf) (sc_states s) i"
        "rv_block v i = Some d" "launch_loop cf v (i # js) s = launch_loop cf v js (blockDispatch i d s)"
    | (launch) owned where "sc_states s ! i = TaskPending" "readyToLaunch (cf_tasks cf) (sc_states s) i"
        "\<not> resourceConflict cf s i" "rv_block v i = None" "tryAcquireSem cf s = Some owned"
        "launch_loop cf v (i # js) s = launch_loop cf v js (launch_task cf i owned s)"
    by (cases "dispatch_over v i s"; cases "sc_states s ! i = TaskPending \<and> readyToLaunch (cf_tasks cf) (sc_states s) i";
        cases "resourceConflict cf s i"; cases "rv_block v i"; cases "tryAcquireSem cf s";
        cases "sc_stopped s \<or> sc_running s \<and> rv_cancelled_late v i"; auto)
  then show ?case
  proof cases
    case stay
    then show ?thesis using assms(3) [OF Cons.prems(1)] by simp
  next
    case skip
    then show ?thesis using rest [OF Cons.prems(1)] by simp
  next
    case (block d)
    have "sc_active s i = None" using active_in_progress [OF Cons.prems(1)] block(1) by fastforce
    then have inv: "sched_inv cf (blockDispatch i d s)"
      using quiet_inv [OF Cons.prems(1) quiet_block] by blast
    from assms(4) [OF Cons.prems(1) inv rest [OF inv]] i block show ?thesis by auto
  next
    case (launch owned)
    have "sc_active s i = None" using active_in_progress [OF Cons.prems(1)] launch(1) by fastforce
    then have inv: "sched_inv cf (launch_task cf i owned s)"
      using launch_inv [OF Cons.prems(1) i _ launch(3,5)] by blast
    from assms(4) [OF Cons.prems(1) inv rest [OF inv]] i launch show ?thesis by auto
  qed
qed

lemma launchReady_induct [consumes 1, case_names refl step]:
  assumes "sched_inv cf s"
    and "\<And>s. sched_inv cf s \<Longrightarrow> P s s"
    and "\<And>s t u. sched_inv cf s \<Longrightarrow> sched_inv cf t \<Longrightarrow> P t u \<Longrightarrow>
        (\<exists>i d. i < batch_size cf \<and> sc_states s ! i = TaskPending \<and>
             readyToLaunch (cf_tasks cf) (sc_states s) i \<and> rv_block v i = Some d \<and> t = blockDispatch i d s) \<or>
        (\<exists>i owned. i < batch_size cf \<and> sc_states s ! i = TaskPending \<and>
             readyToLaunch (cf_tasks cf) (sc_states s) i \<and> \<not> resourceConflict cf s i \<and>
             rv_block v i = None \<and> tryAcquireSem cf s = Some owned \<and> t = launch_task cf i owned s) \<Longrightarrow> P s u"
  shows "P s (launchReady cf v s)"
proof -
  have "set [0..<batch_size cf] \<subseteq> {..<batch_size cf}" by auto
  from launch_loop_induct [OF assms(1) this, where P = P and v = v] assms(2,3)
  show ?thesis unfolding launchReady_def by blast
qed

lemma launch_loop_inv:
  assumes "sched_inv cf s"
  shows "sched_inv cf (launchReady cf v s)"
  using assms by (induction rule: launchReady_induct [where P = "\<lambda>s u. sched_inv cf u" and v = v]) auto

lemma active_release: "active_set (releaseInProgress idx s) = active_set s - {nat idx}"
  by (auto simp: active_set_def releaseInProgress_def Let_def split: option.splits)

lemma release_fields:
  "sc_active (releaseInProgress idx s) = (sc_active s)(nat idx := None)"
  "sc_slots (releaseInProgress idx s) = (sc_slots s)(nat idx := None)"
  "sc_in_progress (releaseInProgress idx s) = sc_in_progress s - 1"
  "sc_sem (releaseInProgress idx s) = (if sc_slots s (nat idx) = Some True then sc_sem s - 1 else sc_sem s)"
  "sc_states (releaseInProgress idx s) = sc_states s"
  "sc_retries (releaseInProgress idx s) = sc_retries s"
  "sc_criterion_used (releaseInProgress idx s) = sc_criterion_used s"
  "sc_criterion_counts (releaseInProgress idx s) = sc_criterion_counts s"
  "sc_needs_reset (releaseInProgress idx s) = sc_needs_reset s"
  "sc_pending (releaseInProgress idx s) = sc_pending s"
  by (auto simp: releaseInProgress_def Let_def split: option.splits)

lemma release_inv:
  assumes inv: "sched_inv cf s" and a: "sc_active s (nat idx) \<noteq> None"
  shows "sched_inv cf (releaseInProgress idx s)"
proof -
  let ?s = "releaseInProgress idx s"
  have parts: "sized cf s" "running_ok cf s" "exclusive_ok cf s" "budget_ok cf s"
    using inv by (simp_all add: sched_inv_def)
  have mem: "nat idx \<in> active_set s" using a by (simp add: active_set_def)
  then have card: "card (active_set s) = Suc (card (active_set ?s))"
    using card_Suc_Diff1 [OF finite_active [OF inv] mem] by (simp only: active_release)
  have r: "\<And>j. sc_active s j \<noteq> None \<Longrightarrow>
      j < batch_size cf \<and> sc_states s ! j = TaskInProgress \<and> sc_active s j = Some (cf_claims cf ! j)"
    "\<And>j. sc_slots s j = (if sc_active s j = None then None else Some (0 < cf_limit cf))"
    "sc_in_progress s = int (card (active_set s))"
    "0 < cf_limit cf \<Longrightarrow> sc_sem s = card (active_set s) \<and> card (active_set s) \<le> cf_limit cf"
    using parts(2) unfolding running_ok_def by blast+
  have "sized cf ?s" using parts(1) by (simp add: sized_def release_fields)
  moreover have "running_ok cf ?s"
  proof -
    have "j < batch_size cf \<and> sc_states ?s ! j = TaskInProgress \<and> sc_active ?s j = Some (cf_claims cf ! j)"
      if "sc_active ?s j \<noteq> None" for j
      using that r(1) [of j] unfolding release_fields by (cases "j = nat idx") auto
    moreover have "sc_slots ?s j = (if sc_active ?s j = None then None else Some (0 < cf_limit cf))" for j
      unfolding release_fields using r(2) [of j] by simp
    moreover have "sc_in_progress ?s = int (card (active_set ?s))"
      unfolding release_fields using r(3) card by simp
    moreover have "0 < cf_limit cf \<longrightarrow> sc_sem ?s = card (active_set ?s) \<and> card (active_set ?s) \<le> cf_limit cf"
      unfolding release_fields using r(2) [of "nat idx"] r(4) card a by auto
    ultimately show ?thesis unfolding running_ok_def by blast
  qed
  moreover have "exclusive_ok cf ?s"
    using parts(3) unfolding exclusive_ok_def active_release by blast
  moreover have "budget_ok cf ?s" using parts(4) by (simp add: budget_ok_def release_fields)
  ultimately show ?thesis by (simp add: sched_inv_def)
qed

section \<open>The potential of a round\<close>

definition task_weight :: "sched \<Rightarrow> nat \<Rightarrow> nat" where
  "task_weight s i =
     (if sc_active s i \<noteq> None then 1 else if sc_states s ! i = TaskPending then 2 else 0)
     + (if sc_needs_reset s ! i then 2 else 0)"

definition round_weight :: "round_config \<Rightarrow> sched \<Rightarrow> nat" where
  "round_weight cf s = (\<Sum>i<batch_size cf. task_weight s i)"

definition retry_room :: "round_config \<Rightarrow> sched \<Rightarrow> nat" where
  "retry_room cf s = nat (maxCriterionRetryBudget (batch_size cf) - sc_criterion_used s)
     + (\<Sum>i<batch_size cf. nat (retry_limit cf i - sc_retries s ! i))"

definition potential :: "round_config \<Rightarrow> sched \<Rightarrow> nat" where
  "potential cf s = (4 * batch_size cf + 1) * retry_room cf s + round_weight cf s"

lemma round_weight_bound: "round_weight cf s \<le> 4 * batch_size cf"
proof -
  have "round_weight cf s \<le> (\<Sum>i<batch_size cf. 4)"
    unfolding round_weight_def by (rule sum_mono) (simp add: task_weight_def)
  then show ?thesis by simp
qed

lemma round_weight_mono:
  "(\<And>i. i < batch_size cf \<Longrightarrow> task_weight s' i \<le> task_weight s i) \<Longrightarrow> round_weight cf s' \<le> round_weight cf s"
  unfolding round_weight_def by (rule sum_mono) simp

lemma round_weight_change:
  assumes "i < batch_size cf" "\<And>j. j < batch_size cf \<Longrightarrow> j \<noteq> i \<Longrightarrow> task_weight s' j = task_weight s j"
  shows "round_weight cf s' + task_weight s i = round_weight cf s + task_weight s' i"
proof -
  have "(\<Sum>j\<in>{..<batch_size cf} - {i}. task_weight s' j) = (\<Sum>j\<in>{..<batch_size cf} - {i}. task_weight s j)"
    using assms(2) by (intro sum.cong) auto
  moreover have "round_weight cf t = task_weight t i + (\<Sum>j\<in>{..<batch_size cf} - {i}. task_weight t j)" for t
    unfolding round_weight_def using assms(1) by (intro sum.remove) auto
  ultimately show ?thesis by simp
qed

text \<open>The room for retries shrinks, or it stays and nothing is added to the work left.\<close>

definition calmer :: "round_config \<Rightarrow> sched \<Rightarrow> sched \<Rightarrow> bool" where
  "calmer cf s s' \<longleftrightarrow> retry_room cf s' < retry_room cf s \<or>
     retry_room cf s' = retry_room cf s \<and> round_weight cf s' \<le> round_weight cf s"

lemma calmer_refl [simp, intro]: "calmer cf s s"
  by (simp add: calmer_def)

lemma calmer_trans [trans]: "calmer cf s t \<Longrightarrow> calmer cf t u \<Longrightarrow> calmer cf s u"
  by (auto simp: calmer_def)

lemma less_room_potential:
  assumes "retry_room cf s' < retry_room cf s"
  shows "potential cf s' < potential cf s"
proof -
  let ?k = "4 * batch_size cf + 1"
  have "?k * Suc (retry_room cf s') \<le> ?k * retry_room cf s" using assms by (intro mult_le_mono2) simp
  moreover have "round_weight cf s' < ?k" using round_weight_bound [of cf s'] by simp
  ultimately have "?k * retry_room cf s' + round_weight cf s' < ?k * retry_room cf s" by simp
  then show ?thesis by (simp add: potential_def)
qed

lemma calmer_potential: "calmer cf s s' \<Longrightarrow> potential cf s' \<le> potential cf s"
  using less_room_potential [of cf s' s] by (auto simp: calmer_def potential_def)

lemma quiet_room: "quiet s s' \<Longrightarrow> retry_room cf s' = retry_room cf s"
  by (simp add: quiet_def retry_room_def)

lemma weight_local:
  assumes "sc_active s' = sc_active s" "sc_needs_reset s' = sc_needs_reset s" "sc_active s i = None"
    and "sc_states s' = (sc_states s)[i := st]" "st = TaskPending \<longrightarrow> sc_states s ! i = TaskPending"
  shows "task_weight s' j \<le> task_weight s j"
proof (cases "j = i")
  case True
  then show ?thesis using assms
    by (cases "i < length (sc_states s)") (auto simp: task_weight_def list_update_beyond)
next
  case False
  then show ?thesis using assms by (simp add: task_weight_def)
qed

lemma launch_calm:
  assumes "sched_inv cf s"
  shows "retry_room cf (launchReady cf v s) = retry_room cf s \<and>
    round_weight cf (launchReady cf v s) \<le> round_weight cf s"
  using assms
proof (induction rule: launchReady_induct [where v = v and
      P = "\<lambda>s u. retry_room cf u = retry_room cf s \<and> round_weight cf u \<le> round_weight cf s"])
  case (step s t u)
  have idle: "sc_active s i = None" if "sc_states s ! i = TaskPending" for i
    using active_in_progress [OF step(1), of i] that by fastforce
  have "retry_room cf t = retry_room cf s \<and> round_weight cf t \<le> round_weight cf s"
    using step(4)
  proof (elim disjE exE conjE)
    fix i d assume i: "sc_states s ! i = TaskPending" and t: "t = blockDispatch i d s"
    have "quiet s t" unfolding t by (rule quiet_block [OF idle [OF i]])
    moreover have "round_weight cf t \<le> round_weight cf s"
      by (rule round_weight_mono, rule weight_local [where i = i, OF _ _ idle [OF i]])
         (auto simp: t blockDispatch_def step_simps Let_def i)
    ultimately show ?thesis by (simp add: quiet_room)
  next
    fix i owned assume i: "sc_states s ! i = TaskPending" and t: "t = launch_task cf i owned s"
    have "task_weight t j \<le> task_weight s j" for j
      using idle [OF i] i by (cases "j = i") (auto simp: t launch_task_def set_state_def task_weight_def)
    then have "round_weight cf t \<le> round_weight cf s" by (intro round_weight_mono) simp
    moreover have "retry_room cf t = retry_room cf s"
      by (simp add: t launch_task_def set_state_def retry_room_def)
    ultimately show ?thesis by simp
  qed
  with step(3) show ?case by simp
qed simp

lemma launch_calmer: "sched_inv cf s \<Longrightarrow> calmer cf s (launchReady cf v s)"
  using launch_calm [of cf s v] by (simp add: calmer_def)

lemma release_weight:
  assumes "sched_inv cf s" "sc_active s (nat idx) \<noteq> None"
  shows "retry_room cf (releaseInProgress idx s) = retry_room cf s \<and>
    Suc (round_weight cf (releaseInProgress idx s)) = round_weight cf s"
proof -
  let ?i = "nat idx" and ?s = "releaseInProgress idx s"
  have i: "?i < batch_size cf" "sc_states s ! ?i = TaskInProgress"
    using active_in_progress [OF assms] by simp_all
  have "task_weight s ?i = Suc (task_weight ?s ?i)" using assms(2) i(2) by (simp add: task_weight_def release_fields)
  with round_weight_change [OF i(1), of ?s s] show ?thesis
    by (simp add: task_weight_def release_fields retry_room_def)
qed

section \<open>The retry routes\<close>

lemma retry_room_mono:
  assumes "sc_criterion_used s \<le> sc_criterion_used s'"
    and "\<And>i. i < batch_size cf \<Longrightarrow> sc_retries s ! i \<le> sc_retries s' ! i"
  shows "retry_room cf s' \<le> retry_room cf s"
proof -
  have "(\<Sum>i<batch_size cf. nat (retry_limit cf i - sc_retries s' ! i))
      \<le> (\<Sum>i<batch_size cf. nat (retry_limit cf i - sc_retries s ! i))"
    using assms(2) by (intro sum_mono nat_mono) simp
  then show ?thesis using assms(1) by (simp add: retry_room_def)
qed

lemma add_retry_inv: "sched_inv cf s \<Longrightarrow> sched_inv cf (add_retry i s)"
  by (simp add: sched_inv_def sized_def running_ok_def exclusive_ok_def budget_ok_def active_set_def add_retry_def)

lemma add_retry_nth: "i < length (sc_retries s) \<Longrightarrow>
    sc_retries (add_retry i s) ! j = (if j = i then sc_retries s ! i + 1 else sc_retries s ! j)"
  by (simp add: add_retry_def nth_list_update)

lemma add_retry_room:
  assumes "sched_inv cf s" "i < batch_size cf"
  shows "retry_room cf (add_retry i s) \<le> retry_room cf s"
    and "sc_retries s ! i < retry_limit cf i \<Longrightarrow> retry_room cf (add_retry i s) < retry_room cf s"
proof -
  have len: "i < length (sc_retries s)" using assms by (simp add: sched_inv_def sized_def)
  have used: "sc_criterion_used (add_retry i s) = sc_criterion_used s" by (simp add: add_retry_def)
  show "retry_room cf (add_retry i s) \<le> retry_room cf s"
    by (rule retry_room_mono) (simp_all add: used add_retry_nth [OF len])
  assume lt: "sc_retries s ! i < retry_limit cf i"
  have "(\<Sum>j<batch_size cf. nat (retry_limit cf j - sc_retries (add_retry i s) ! j))
      < (\<Sum>j<batch_size cf. nat (retry_limit cf j - sc_retries s ! j))"
    using assms(2) lt by (intro sum_strict_mono_ex1) (auto simp: add_retry_nth [OF len] intro!: bexI [of _ i])
  then show "retry_room cf (add_retry i s) < retry_room cf s" by (simp add: retry_room_def used)
qed

lemma reset_weight:
  assumes "sc_active s i = None" "i < batch_size cf"
  shows "round_weight cf (snd (resetTaskWithRemediation cf v i rem s)) \<le> round_weight cf s + 2"
proof -
  obtain st tm lg where e: "snd (resetTaskWithRemediation cf v i rem s) =
       s\<lparr>sc_states := (sc_states s)[i := st], sc_todo_models := tm, sc_log := lg\<rparr>" by (rule reset_shape)
  let ?s = "s\<lparr>sc_states := (sc_states s)[i := st], sc_todo_models := tm, sc_log := lg\<rparr>"
  have "round_weight cf ?s + task_weight s i = round_weight cf s + task_weight ?s i"
    using assms(2) by (rule round_weight_change) (simp add: task_weight_def)
  moreover have "task_weight ?s i \<le> task_weight s i + 2" using assms(1) by (simp add: task_weight_def)
  ultimately show ?thesis unfolding e by simp
qed

text \<open>A reset followed by a launch pass.\<close>

lemma reset_then_launch:
  assumes inv: "sched_inv cf s" and a: "sc_active s i = None" and i: "i < batch_size cf"
    and r: "resetTaskWithRemediation cf v i rem s = (ok, s')"
  shows "sched_inv cf s' \<and> retry_room cf s' = retry_room cf s \<and> round_weight cf s' \<le> round_weight cf s + 2"
proof -
  have "quiet s s'" using quiet_reset [OF a, of cf v rem] r by simp
  with reset_weight [OF a i, of v rem] r quiet_inv [OF inv] show ?thesis by (simp add: quiet_room)
qed

lemma reset_and_launch_ok:
  assumes "sched_inv cf s" "sc_active s i = None" "i < batch_size cf"
  shows "sched_inv cf (reset_and_launch cf v i s) \<and>
    retry_room cf (reset_and_launch cf v i s) = retry_room cf s \<and>
    round_weight cf (reset_and_launch cf v i s) \<le> round_weight cf s + 2"
proof -
  obtain ok s' where r: "resetTaskWithRemediation cf v i None s = (ok, s')" by fastforce
  from reset_then_launch [OF assms r] have s': "sched_inv cf s'" "retry_room cf s' = retry_room cf s"
    "round_weight cf s' \<le> round_weight cf s + 2" by simp_all
  then show ?thesis using launch_loop_inv [OF s'(1), of v] launch_calm [OF s'(1), of v]
    by (cases ok) (simp_all add: reset_and_launch_def r)
qed

lemma dispatch_criterion_ok:
  assumes inv: "sched_inv cf s" and a: "sc_active s t = None" and t: "t < batch_size cf"
    and used: "sc_criterion_used s < maxCriterionRetryBudget (batch_size cf)"
  shows "sched_inv cf (snd (dispatch_criterion_retry cf v idx t s)) \<and>
    retry_room cf (snd (dispatch_criterion_retry cf v idx t s)) < retry_room cf s"
proof -
  define s1 where "s1 = log_effect (CriterionRouted idx t) (s\<lparr>sc_criterion_used := sc_criterion_used s + 1\<rparr>)"
  define rem where "rem = (if sc_states s1 ! idx = TaskError then Some idx else None)"
  have inv1: "sched_inv cf s1"
    using inv used by (simp add: s1_def log_effect_def sched_inv_def sized_def running_ok_def exclusive_ok_def
        budget_ok_def active_set_def)
  have room: "retry_room cf s1 < retry_room cf s"
    using used by (simp add: s1_def log_effect_def retry_room_def)
  have a1: "sc_active s1 t = None" using a by (simp add: s1_def log_effect_def)
  obtain ok s2 where r: "resetTaskWithRemediation cf v t rem s1 = (ok, s2)" by fastforce
  from reset_then_launch [OF inv1 a1 t r] have s2: "sched_inv cf s2" "retry_room cf s2 < retry_room cf s"
    using room by simp_all
  have d: "dispatch_criterion_retry cf v idx t s = (if ok then (True, launchReady cf v s2) else (False, s2))"
    by (simp add: dispatch_criterion_retry_def Let_def s1_def [symmetric] rem_def [symmetric] r)
  show ?thesis using s2 launch_loop_inv [OF s2(1), of v] launch_calm [OF s2(1), of v]
    by (cases ok) (simp_all add: d)
qed

lemma count_retry_inv:
  assumes inv: "sched_inv cf s" and t: "t < batch_size cf"
    and c: "sc_criterion_counts s ! t < td_max_retries (cf_tasks cf ! t)"
  shows "sched_inv cf (s\<lparr>sc_criterion_counts := (sc_criterion_counts s)[t := sc_criterion_counts s ! t + 1]\<rparr>)"
proof -
  have len: "length (sc_criterion_counts s) = batch_size cf" using inv by (simp add: sched_inv_def sized_def)
  have b: "\<forall>i<batch_size cf. sc_criterion_counts s ! i \<le> max 0 (td_max_retries (cf_tasks cf ! i))"
    using inv by (simp add: sched_inv_def budget_ok_def)
  have "\<forall>i<batch_size cf. (sc_criterion_counts s)[t := sc_criterion_counts s ! t + 1] ! i
      \<le> max 0 (td_max_retries (cf_tasks cf ! i))"
    using b c len t by (auto simp: nth_list_update)
  with inv show ?thesis
    by (simp add: sched_inv_def sized_def running_ok_def exclusive_ok_def budget_ok_def active_set_def)
qed

lemma route_loop_ok:
  assumes "sched_inv cf s" "set ts \<subseteq> {..<batch_size cf}"
    "sc_criterion_used s < maxCriterionRetryBudget (batch_size cf)"
  shows "sched_inv cf (snd (route_loop cf v idx ts s)) \<and> calmer cf s (snd (route_loop cf v idx ts s))"
  using assms
proof (induction ts arbitrary: s)
  case (Cons t ts)
  have t: "t < batch_size cf" and ts: "set ts \<subseteq> {..<batch_size cf}" using Cons.prems(2) by simp_all
  let ?r = "route_loop cf v idx (t # ts) s"
  let ?blocked = "log_effect (PersistedFailure t TaskBlocked) (set_state t TaskBlocked s)"
  let ?counted = "s\<lparr>sc_criterion_counts := (sc_criterion_counts s)[t := sc_criterion_counts s ! t + 1]\<rparr>"
  have idle: "sc_active s t = None" if "sc_states s ! t \<noteq> TaskInProgress"
    using active_in_progress [OF Cons.prems(1), of t] that by blast
  consider (skip) "?r = route_loop cf v idx ts s"
    | (block) "sc_states s ! t \<noteq> TaskInProgress" "?r = route_loop cf v idx ts ?blocked"
    | (retry) "sc_states s ! t \<noteq> TaskInProgress" "sc_criterion_counts s ! t < td_max_retries (cf_tasks cf ! t)"
        "?r = dispatch_criterion_retry cf v idx t (add_retry t ?counted)"
    | (first) "sc_states s ! t \<noteq> TaskInProgress" "?r = dispatch_criterion_retry cf v idx t s"
    by (cases "t = idx \<or> sc_states s ! t = TaskInProgress"; cases "sc_states s ! t = TaskPending";
        cases "td_on_failure (cf_tasks cf ! t)"; cases "task_replayable (cf_tasks cf ! t)";
        cases "td_max_retries (cf_tasks cf ! t) \<le> 0 \<or> td_max_retries (cf_tasks cf ! t) \<le>
           max (sc_criterion_counts s ! t) (max (sc_retries s ! t) (tv_retries (rv_todo v t)))") auto
  then show ?case
  proof cases
    case skip
    then show ?thesis using Cons.IH [OF Cons.prems(1) ts Cons.prems(3)] by simp
  next
    case block
    have q: "quiet s ?blocked" using quiet_trans [OF quiet_set_state [OF idle [OF block(1)]] quiet_log] .
    have "round_weight cf ?blocked \<le> round_weight cf s"
      by (rule round_weight_mono, rule weight_local [where i = t and st = TaskBlocked, OF _ _ idle [OF block(1)]])
         (simp_all add: step_simps)
    with quiet_room [OF q] have c: "calmer cf s ?blocked" by (simp add: calmer_def)
    have "sc_criterion_used ?blocked < maxCriterionRetryBudget (batch_size cf)"
      using Cons.prems(3) by (simp add: step_simps)
    from Cons.IH [OF quiet_inv [OF Cons.prems(1) q] ts this] c show ?thesis
      unfolding block(2) using calmer_trans by blast
  next
    case retry
    have inv: "sched_inv cf ?counted" using count_retry_inv [OF Cons.prems(1) t retry(2)] .
    have inv': "sched_inv cf (add_retry t ?counted)" using add_retry_inv [OF inv] .
    have "retry_room cf (add_retry t ?counted) \<le> retry_room cf ?counted" using add_retry_room(1) [OF inv t] .
    moreover have "retry_room cf ?counted = retry_room cf s" by (simp add: retry_room_def)
    moreover have "sc_active (add_retry t ?counted) t = None"
      "sc_criterion_used (add_retry t ?counted) < maxCriterionRetryBudget (batch_size cf)"
      using idle [OF retry(1)] Cons.prems(3) by (simp_all add: add_retry_def)
    note dispatch_criterion_ok [OF inv' this(1) t this(2), of v idx]
    ultimately show ?thesis using retry(3) \<open>retry_room cf (add_retry t ?counted) \<le> _\<close>
      by (simp add: calmer_def)
  next
    case first
    then show ?thesis
      using dispatch_criterion_ok [OF Cons.prems(1) idle [OF first(1)] t Cons.prems(3), of v idx]
      by (simp add: calmer_def)
  qed
qed simp

lemma route_ok:
  assumes "sched_inv cf s"
  shows "sched_inv cf (snd (routeCriterionRetry cf v idx failed s)) \<and>
    calmer cf s (snd (routeCriterionRetry cf v idx failed s))"
proof (cases "failed = [] \<or> maxCriterionRetryBudget (batch_size cf) \<le> sc_criterion_used s")
  case False
  have "set (criterionRetryTargets (cf_tasks cf) failed) \<subseteq> {..<batch_size cf}"
    by (auto simp: criterionRetryTargets_def Let_def)
  with route_loop_ok [OF assms this] False show ?thesis by (simp add: routeCriterionRetry_def)
qed (simp add: routeCriterionRetry_def assms)

lemma route_progress_ok:
  assumes "sched_inv cf s"
  shows "sched_inv cf (snd (routeNoProgressCriterionRetry cf v idx s)) \<and>
    calmer cf s (snd (routeNoProgressCriterionRetry cf v idx s))"
  using route_ok [OF assms] assms by (simp add: routeNoProgressCriterionRetry_def Let_def)

lemma jump_back_ok:
  assumes inv: "sched_inv cf s" and i: "i < batch_size cf" "sc_retries s ! i < retry_limit cf i"
  shows "sched_inv cf (jump_back cf v i target s) \<and> retry_room cf (jump_back cf v i target s) < retry_room cf s"
proof -
  define s2 where "s2 = (let s1 = add_retry i s in
     if rv_next_model v i \<noteq> [] then s1\<lparr>sc_models := (sc_models s1)[i := rv_next_model v i]\<rparr> else s1)"
  have q2: "quiet (add_retry i s) s2" by (simp add: s2_def Let_def quiet_def)
  have inv2: "sched_inv cf s2" by (rule quiet_inv [OF add_retry_inv [OF inv] q2])
  have room: "retry_room cf s2 < retry_room cf s" using quiet_room [OF q2] add_retry_room(2) [OF inv i] by simp
  define rem where "rem = (if target \<noteq> int i then Some i else None)"
  obtain ok s3 where w: "resetWaveWithRemediation cf v (nat target) rem s2 = (ok, s3)" by fastforce
  have q3: "quiet s2 s3" using quiet_wave [OF inv2] w by (metis resetWaveWithRemediation_def snd_conv)
  have inv3: "sched_inv cf s3" by (rule quiet_inv [OF inv2 q3])
  have "jump_back cf v i target s = (if ok then launchReady cf v s3 else s3)"
    by (simp add: jump_back_def Let_def s2_def [unfolded Let_def, symmetric] rem_def [symmetric] w)
  then show ?thesis using inv3 launch_loop_inv [OF inv3, of v] launch_calm [OF inv3, of v] quiet_room [OF q3] room
    by simp
qed

section \<open>Handling a completion\<close>

lemma launch_ok: "sched_inv cf s \<Longrightarrow> sched_inv cf (launchReady cf v s) \<and> calmer cf s (launchReady cf v s)"
  using launch_loop_inv launch_calmer by blast

lemma failure_edge_ok:
  assumes inv: "sched_inv cf s" and a: "sc_active s i = None" and i: "i < batch_size cf"
  shows "sched_inv cf (handle_failure_edge cf v i s) \<and> calmer cf s (handle_failure_edge cf v i s)"
proof -
  let ?r = "handle_failure_edge cf v i s"
  consider (launch) "?r = launchReady cf v s"
    | (heal) "sc_retries s ! i < retry_limit cf i" "?r = reset_and_launch cf v i (add_retry i s)"
    | (jump) target where "sc_retries s ! i < retry_limit cf i" "?r = jump_back cf v i target s"
    by (cases "td_on_failure (cf_tasks cf ! i)"; cases "retry_limit cf i \<le> sc_retries s ! i";
        cases "td_failure_classes (cf_tasks cf ! i) \<noteq> []
                \<and> \<not> failureClassAllowed (effectiveFailureClassForTodo (rv_todo v i)) (td_failure_classes (cf_tasks cf ! i))";
        cases "selfHealEligible (rv_todo v i)"; cases "cf_workflow cf \<noteq> None \<and> \<not> rv_permit_repair v i")
       (simp_all only: handle_failure_edge_def Let_def option.case if_True if_False simp_thms not_le)
  then show ?thesis
  proof cases
    case launch
    then show ?thesis using launch_ok [OF inv] by simp
  next
    case heal
    have a1: "sc_active (add_retry i s) i = None" using a by (simp add: add_retry_def)
    from reset_and_launch_ok [OF add_retry_inv [OF inv] a1 i, of v] add_retry_room(2) [OF inv i heal(1)]
    show ?thesis unfolding heal(2) calmer_def by simp
  next
    case (jump target)
    with jump_back_ok [OF inv i jump(1), of v target] show ?thesis by (simp add: calmer_def)
  qed
qed

lemma set_state_ok:
  assumes inv: "sched_inv cf s" and a: "sc_active s i = None" and st: "st \<noteq> TaskPending"
  shows "sched_inv cf (set_state i st s) \<and> calmer cf s (set_state i st s)"
proof -
  have q: "quiet s (set_state i st s)" using a by (rule quiet_set_state)
  have "round_weight cf (set_state i st s) \<le> round_weight cf s"
    by (rule round_weight_mono, rule weight_local [where i = i and st = st, OF _ _ a])
       (simp_all add: set_state_def st)
  then show ?thesis using quiet_inv [OF inv q] quiet_room [OF q] by (simp add: calmer_def)
qed

lemma note_ok:
  assumes "sched_inv cf s"
  shows "sched_inv cf (set_result i r s) \<and> calmer cf s (set_result i r s)"
    and "sched_inv cf (log_effect e s) \<and> calmer cf s (log_effect e s)"
  using quiet_inv [OF assms quiet_result] quiet_inv [OF assms quiet_log]
  by (simp_all add: calmer_def retry_room_def round_weight_def task_weight_def set_result_def log_effect_def cong: if_cong)

lemma ok_trans:
  "sched_inv cf t \<and> calmer cf s t \<Longrightarrow> (sched_inv cf t \<Longrightarrow> sched_inv cf u \<and> calmer cf t u) \<Longrightarrow>
   sched_inv cf u \<and> calmer cf s u"
  using calmer_trans by blast

lemma field_active [simp]:
  "sc_active (set_state i st s) = sc_active s" "sc_active (set_result i r s) = sc_active s"
  "sc_active (log_effect e s) = sc_active s" "sc_active (add_retry i s) = sc_active s"
  by (simp_all add: step_simps)

lemma handle_success_ok:
  assumes inv: "sched_inv cf s" and a: "sc_active s i = None"
  shows "sched_inv cf (handle_success cf v i s) \<and> calmer cf s (handle_success cf v i s)"
proof -
  let ?t = "log_effect (FailuresForgotten i) (set_state i TaskDone (set_result i (Returned Completed) s))"
  have t: "sched_inv cf ?t \<and> calmer cf s ?t"
    by (rule ok_trans [OF note_ok(1) [OF inv]], rule ok_trans [OF set_state_ok note_ok(2)])
       (simp_all add: a)
  obtain ok u where r: "routeNoProgressCriterionRetry cf v i ?t = (ok, u)" by fastforce
  have u: "sched_inv cf u \<and> calmer cf s u"
    by (rule ok_trans [OF t]) (use route_progress_ok [of cf ?t v i] r in simp)
  have "handle_success cf v i s = (if ok then u else launchReady cf v u)"
    by (simp add: handle_success_def r)
  then show ?thesis using u ok_trans [OF u launch_ok] by simp
qed

lemma handle_failure_ok:
  assumes inv: "sched_inv cf s" and a: "sc_active s i = None" and i: "i < batch_size cf"
  shows "sched_inv cf (handle_failure cf v i s) \<and>
    potential cf (handle_failure cf v i s) \<le> potential cf s + (if rv_action_retry v i then 2 else 0)"
proof -
  let ?t = "set_result i (Returned WorkerError) (set_state i TaskError s)"
  have t: "sched_inv cf ?t \<and> calmer cf s ?t"
    by (rule ok_trans [OF set_state_ok note_ok(1)]) (simp_all add: inv a)
  have at: "sc_active ?t i = None" using a by simp
  show ?thesis
  proof (cases "cf_workflow cf \<noteq> None \<and> rv_action_retry v i")
    case True
    let ?u = "reset_and_launch cf v i (add_retry i ?t)"
    have "sched_inv cf ?u \<and> retry_room cf ?u = retry_room cf (add_retry i ?t) \<and>
        round_weight cf ?u \<le> round_weight cf (add_retry i ?t) + 2"
      using reset_and_launch_ok [OF add_retry_inv, of cf ?t i i v] t at i by simp
    moreover have "retry_room cf (add_retry i ?t) \<le> retry_room cf ?t" using add_retry_room(1) t i by blast
    moreover have "round_weight cf (add_retry i ?t) = round_weight cf ?t"
      by (simp add: round_weight_def task_weight_def add_retry_def cong: if_cong)
    ultimately have "sched_inv cf ?u" "potential cf ?u \<le> potential cf ?t + 2"
      using mult_le_mono2 [of "retry_room cf ?u" "retry_room cf ?t" "4 * batch_size cf + 1"]
      by (simp_all add: potential_def)
    moreover have "potential cf ?t \<le> potential cf s" using t calmer_potential by blast
    moreover have "handle_failure cf v i s = ?u" using True by (simp add: handle_failure_def Let_def)
    ultimately show ?thesis using True by simp
  next
    case False
    let ?route = "if td_on_failure (cf_tasks cf ! i) = None
                 then routeCriterionRetry cf v i (rv_failed_criteria v i) ?t else (False, ?t)"
    obtain ok u where r: "?route = (ok, u)" by fastforce
    have e: "handle_failure cf v i s = (if ok then u else handle_failure_edge cf v i u)"
      unfolding handle_failure_def Let_def if_not_P [OF False] r by (cases ok) simp_all
    have u: "sched_inv cf u \<and> calmer cf s u"
      by (rule ok_trans [OF t]) (use route_ok [of cf ?t v i "rv_failed_criteria v i"] r in \<open>auto split: if_splits\<close>)
    show ?thesis
    proof (cases ok)
      case True
      then show ?thesis using u calmer_potential [of cf s u] e by simp
    next
      case okF: False
      show ?thesis
      proof (cases "td_on_failure (cf_tasks cf ! i)")
        case None
        then have "handle_failure cf v i s = launchReady cf v u"
          using e okF by (simp add: handle_failure_edge_def Let_def)
        with ok_trans [OF u launch_ok, of v] calmer_potential [of cf s "launchReady cf v u"] show ?thesis by simp
      next
        case (Some target)
        then have "u = ?t" using r by simp
        then have "sc_active u i = None" using a by simp
        with ok_trans [OF u failure_edge_ok [OF _ _ i], of v]
          calmer_potential [of cf s "handle_failure_edge cf v i u"] e okF show ?thesis by simp
      qed
    qed
  qed
qed

lemma two_more:
  "retry_room cf t = retry_room cf s \<Longrightarrow> round_weight cf t \<le> round_weight cf s + 2 \<Longrightarrow>
   potential cf t \<le> potential cf s + 2"
  by (simp add: potential_def)

lemma set_any_ok:
  assumes inv: "sched_inv cf s" and a: "sc_active s i = None" and i: "i < batch_size cf"
  shows "sched_inv cf (set_state i st s) \<and> potential cf (set_state i st s) \<le> potential cf s + 2"
proof -
  have q: "quiet s (set_state i st s)" using a by (rule quiet_set_state)
  have "round_weight cf (set_state i st s) + task_weight s i = round_weight cf s + task_weight (set_state i st s) i"
    using i by (rule round_weight_change) (simp add: task_weight_def set_state_def)
  moreover have "task_weight (set_state i st s) i \<le> task_weight s i + 2"
    using a by (simp add: task_weight_def set_state_def)
  ultimately show ?thesis using quiet_inv [OF inv q] quiet_room [OF q] by (intro conjI two_more) simp_all
qed

lemma launch_potential:
  "sched_inv cf s \<Longrightarrow> sched_inv cf (launchReady cf v s) \<and> potential cf (launchReady cf v s) \<le> potential cf s"
  using launch_ok calmer_potential by blast

lemma handle_checkpoint_ok:
  assumes inv: "sched_inv cf s" and a: "sc_active s i = None" and i: "i < batch_size cf"
  shows "sched_inv cf (handle_checkpoint cf v i replan s) \<and>
    potential cf (handle_checkpoint cf v i replan s) \<le> potential cf s + 2"
proof -
  let ?t = "set_result i (Returned (CheckpointControl replan)) s"
  have t: "sched_inv cf ?t" "potential cf ?t \<le> potential cf s" "sc_active ?t i = None"
    using note_ok(1) [OF inv] calmer_potential a by (blast, blast, simp)
  have s: "sched_inv cf (set_state i st ?t) \<and> potential cf (set_state i st ?t) \<le> potential cf s + 2" for st
    using set_any_ok [OF t(1) t(3) i, of st] t(2) by linarith
  have twice: "set_state i TaskPending (set_state i st x) = set_state i TaskPending x" for st x
    by (simp add: set_state_def)
  have l: "sched_inv cf (launchReady cf v (set_state i TaskPending ?t)) \<and>
      potential cf (launchReady cf v (set_state i TaskPending ?t)) \<le> potential cf s + 2"
    using launch_potential [of cf "set_state i TaskPending ?t" v] s [of TaskPending] by linarith
  show ?thesis
  proof (cases "rv_status v i")
    case None
    then show ?thesis using s [of TaskError] by (simp add: handle_checkpoint_def)
  next
    case (Some st)
    then show ?thesis using s [of st] l by (cases replan) (simp_all add: handle_checkpoint_def Let_def twice)
  qed
qed

lemma handle_stale_ok:
  assumes inv: "sched_inv cf s" and a: "sc_active s i = None" and i: "i < batch_size cf"
    and st: "sc_states s ! i = TaskInProgress" "sc_needs_reset s ! i"
  shows "sched_inv cf (handle_stale cf v i s) \<and> potential cf (handle_stale cf v i s) \<le> potential cf s"
proof -
  let ?t = "set_state i TaskError (s\<lparr>sc_needs_reset := (sc_needs_reset s)[i := False]\<rparr>)"
  have len: "length (sc_states s) = batch_size cf" "length (sc_needs_reset s) = batch_size cf"
    using inv by (simp_all add: sched_inv_def sized_def)
  have q: "quiet s ?t"
    by (rule quiet_trans [OF _ quiet_set_state]) (simp_all add: quiet_def a)
  have "round_weight cf ?t + task_weight s i = round_weight cf s + task_weight ?t i"
    using i by (rule round_weight_change) (simp add: task_weight_def set_state_def)
  moreover have "task_weight s i = 2" using a st by (simp add: task_weight_def)
  moreover have "task_weight ?t i = 0" using a i len by (simp add: task_weight_def set_state_def)
  ultimately have w: "round_weight cf ?t + 2 = round_weight cf s" by simp
  obtain ok u where r: "resetTaskWithRemediation cf v i (sc_pending s i) ?t = (ok, u)" by fastforce
  have at: "sc_active ?t i = None" using a by simp
  from reset_then_launch [OF quiet_inv [OF inv q] at i r] quiet_room [OF q] w
  have u: "sched_inv cf u" "retry_room cf u = retry_room cf s" "round_weight cf u \<le> round_weight cf s" by simp_all
  let ?u = "u\<lparr>sc_pending := (sc_pending u)(i := None)\<rparr>"
  have qu: "quiet u ?u" by (simp add: quiet_def)
  have u': "sched_inv cf ?u" "potential cf ?u \<le> potential cf s"
    using quiet_inv [OF u(1) qu] u(2,3)
    by (simp_all add: potential_def retry_room_def round_weight_def task_weight_def cong: if_cong)
  have "handle_stale cf v i s = (if ok then launchReady cf v ?u else u)" by (simp add: handle_stale_def r)
  moreover have "potential cf u \<le> potential cf s" using u(2,3) by (simp add: potential_def)
  ultimately show ?thesis using u(1) u' launch_potential [OF u'(1), of v] by auto
qed

text \<open>A completion the outside sends back to the queue: a checkpoint or a transient action failure.\<close>

definition requeues :: "round_view \<times> completion_event \<Rightarrow> bool" where
  "requeues = (\<lambda>(v, ev). (\<exists>r. ev_kind ev = CheckpointControl r) \<or> rv_action_retry v (nat (ev_idx ev)))"

lemma handleEvent_ok:
  assumes inv: "sched_inv cf s" and act: "sc_active s (nat (ev_idx ev)) \<noteq> None" "0 \<le> ev_idx ev"
  shows "sched_inv cf (handleEvent cf v ev s) \<and>
    Suc (potential cf (handleEvent cf v ev s)) \<le> potential cf s + (if requeues (v, ev) then 2 else 0)"
proof -
  let ?i = "nat (ev_idx ev)" and ?s = "releaseInProgress (ev_idx ev) s"
  have i: "?i < batch_size cf" "sc_states s ! ?i = TaskInProgress"
    using active_in_progress [OF inv act(1)] by simp_all
  then have b: "in_batch (batch_size cf) (ev_idx ev)" using act(2) by auto
  have inv': "sched_inv cf ?s" using release_inv [OF inv act(1)] .
  have a: "sc_active ?s ?i = None" by (simp add: release_fields)
  have p: "Suc (potential cf ?s) = potential cf s"
    using release_weight [OF inv act(1)] by (simp add: potential_def)
  have lg: "sched_inv cf (log_effect e ?s)" "potential cf (log_effect e ?s) \<le> potential cf ?s" for e
    using note_ok(2) [OF inv'] calmer_potential by blast+
  have h: "sched_inv cf (handleEvent cf v ev s) \<and>
    potential cf (handleEvent cf v ev s) \<le> potential cf ?s + (if requeues (v, ev) then 2 else 0)"
  proof (cases "sc_needs_reset ?s ! ?i")
    case True
    then have "handleEvent cf v ev s = handle_stale cf v ?i ?s" using b by (simp add: handleEvent_def Let_def)
    with handle_stale_ok [OF inv' a i(1) _ True, of v] i(2) show ?thesis by (auto simp: release_fields)
  next
    case stay: False
    have end_in: "sched_inv cf (launchReady cf v (set_state ?i st (set_result ?i r (log_effect e ?s)))) \<and>
        potential cf (launchReady cf v (set_state ?i st (set_result ?i r (log_effect e ?s)))) \<le> potential cf ?s"
      if "st \<noteq> TaskPending" for st r e
    proof -
      have "sched_inv cf (set_state ?i st (set_result ?i r (log_effect e ?s))) \<and>
          calmer cf ?s (set_state ?i st (set_result ?i r (log_effect e ?s)))"
        by (rule ok_trans [OF note_ok(2) [OF inv']], rule ok_trans [OF note_ok(1) set_state_ok])
           (simp_all add: a that)
      from ok_trans [OF this launch_ok] show ?thesis using calmer_potential by blast
    qed
    show ?thesis
    proof (cases "ev_kind ev")
      case Completed
      then have "handleEvent cf v ev s = handle_success cf v ?i ?s"
        using b stay by (simp add: handleEvent_def Let_def)
      with handle_success_ok [OF inv' a, of v] calmer_potential show ?thesis by fastforce
    next
      case (CheckpointControl replan)
      then have "handleEvent cf v ev s = handle_checkpoint cf v ?i replan ?s"
        using b stay by (simp add: handleEvent_def Let_def)
      with handle_checkpoint_ok [OF inv' a i(1), of v replan] CheckpointControl show ?thesis
        by (simp add: requeues_def)
    next
      case BudgetRefused
      then have "handleEvent cf v ev s = launchReady cf v (set_state ?i TaskError
          (set_result ?i (Returned BudgetRefused) (log_effect (Terminalized (ev_idx ev)) ?s)))"
        using b stay by (simp add: handleEvent_def Let_def)
      then show ?thesis using end_in [of TaskError "Returned BudgetRefused" "Terminalized (ev_idx ev)"] by simp
    next
      case CapabilityBlocked
      then have "handleEvent cf v ev s = launchReady cf v (set_state ?i TaskBlocked
          (set_result ?i (Returned CapabilityBlocked) (log_effect (Terminalized (ev_idx ev)) ?s)))"
        using b stay by (simp add: handleEvent_def Let_def)
      then show ?thesis using end_in [of TaskBlocked "Returned CapabilityBlocked" "Terminalized (ev_idx ev)"] by simp
    next
      case WorkerError
      let ?t = "log_effect (Terminalized (ev_idx ev)) ?s"
      have "handleEvent cf v ev s = handle_failure cf v ?i ?t"
        using WorkerError b stay by (simp add: handleEvent_def Let_def)
      moreover have "sc_active ?t ?i = None" using a by simp
      note handle_failure_ok [OF lg(1) this i(1), of v]
      ultimately show ?thesis using lg(2) [of "Terminalized (ev_idx ev)"]
        by (auto simp: requeues_def intro: order_trans)
    qed
  qed
  with p show ?thesis by simp
qed

end
