(* ===== verification/Dag_Rounds.thy ===== *)
theory Dag_Rounds
  imports Dag_Safety
begin

text \<open>
  Whole rounds of the scheduler: the states a round can reach, the properties that hold in all of
  them, what a launch pass starts and what is left when nothing runs.
\<close>

section \<open>Reachable states\<close>

text \<open>
  A round starts from a fresh scheduler and a first launch pass; each step is the completion of a
  running task, handled, or only consumed once dispatch has been stopped by a cancellation.
\<close>

inductive reachable :: "round_config \<Rightarrow> sched \<Rightarrow> bool" for cf where
  started: "reachable cf (begin_round cf v (newDAGScheduler cf models))"
| handled: "reachable cf s \<Longrightarrow> 0 \<le> ev_idx ev \<Longrightarrow> sc_active s (nat (ev_idx ev)) \<noteq> None \<Longrightarrow>
    reachable cf (handleEvent cf v ev s)"
| consumed: "reachable cf s \<Longrightarrow> 0 \<le> ev_idx ev \<Longrightarrow> sc_active s (nat (ev_idx ev)) \<noteq> None \<Longrightarrow>
    reachable cf (consumeCancelledResult ev (stop_dispatch s))"

inductive_cases reachableE: "reachable cf s"

lemma quiet_flags:
  "quiet s (s\<lparr>sc_running := r, sc_stopped := b\<rparr>)"
  "quiet s (stop_dispatch s)"
  by (simp_all add: quiet_def stop_dispatch_def)

lemma fresh_inv: "sched_inv cf (newDAGScheduler cf models)"
  by (simp add: sched_inv_def sized_def running_ok_def exclusive_ok_def budget_ok_def active_set_def
      newDAGScheduler_def maxCriterionRetryBudget_def Let_def)

lemma begin_inv: "sched_inv cf s \<Longrightarrow> sched_inv cf (begin_round cf v s)"
  unfolding begin_round_def by (rule launch_loop_inv, rule quiet_inv [OF _ quiet_flags(1)])

lemma consume_inv:
  assumes "sched_inv cf s" "sc_active s (nat (ev_idx ev)) \<noteq> None"
  shows "sched_inv cf (consumeCancelledResult ev s)"
  unfolding consumeCancelledResult_def using assms
  by (cases "ev_kind ev") (auto intro!: release_inv quiet_inv [OF _ quiet_log])

lemma reachable_inv: "reachable cf s \<Longrightarrow> sched_inv cf s"
proof (induction rule: reachable.induct)
  case (started v models)
  show ?case by (rule begin_inv [OF fresh_inv])
next
  case (handled s ev v)
  then show ?case using handleEvent_ok [of cf s ev v] by blast
next
  case (consumed s ev)
  have "sched_inv cf (stop_dispatch s)" by (rule quiet_inv [OF consumed.IH quiet_flags(2)])
  then show ?case using consumed.hyps(3) by (intro consume_inv) (simp_all add: stop_dispatch_def)
qed

lemmas reachable_running = reachable_inv [unfolded sched_inv_def running_ok_def exclusive_ok_def budget_ok_def]

section \<open>Properties of a round\<close>

text \<open>
  C2. At every moment of a round the counter of running tasks is the number of running tasks, at
  most the configured concurrency limit, and no two running tasks hold conflicting resource claims.
\<close>

theorem round_exclusive:
  assumes "reachable cf s"
  shows "sc_in_progress s = int (card (active_set s)) \<and>
    (0 < cf_limit cf \<longrightarrow> card (active_set s) \<le> cf_limit cf) \<and>
    (\<forall>i\<in>active_set s. \<forall>j\<in>active_set s.
       i \<noteq> j \<longrightarrow> \<not> claimsConflict (cf_claims cf ! i) (cf_claims cf ! j))"
  using reachable_inv [OF assms] by (simp add: sched_inv_def running_ok_def exclusive_ok_def)

definition quiet_view :: round_view where
  "quiet_view = \<lparr>rv_cancelled = (\<lambda>_. False), rv_cancelled_late = (\<lambda>_. False), rv_block = (\<lambda>_. None),
     rv_todo = (\<lambda>_. \<lparr>tv_failure = None, tv_result = None, tv_gate = False, tv_assessments = None,
        tv_task = sample_task [], tv_progress = ProgressUnknown, tv_retries = 0\<rparr>),
     rv_status = (\<lambda>_. None), rv_action_retry = (\<lambda>_. False), rv_permit_repair = (\<lambda>_. True),
     rv_commit_ok = (\<lambda>_. True), rv_reset_ok = (\<lambda>_. True), rv_failed_criteria = (\<lambda>_. []),
     rv_next_model = (\<lambda>_. [])\<rparr>"

text \<open>Three independent tasks, two of which write the same path, under a limit of two.\<close>

definition demo_round :: round_config where
  "demo_round = \<lparr>cf_tasks = [sample_task [], sample_task [], sample_task []],
     cf_claims = [[path_claim ''src'' ResourceWrite], [path_claim ''src/a'' ResourceWrite], []],
     cf_limit = 2, cf_workflow = None\<rparr>"

lemma demo_round_launch:
  "sc_active (begin_round demo_round quiet_view (newDAGScheduler demo_round [])) =
     [0 \<mapsto> [path_claim ''src'' ResourceWrite], 2 \<mapsto> []]"
proof -
  have c: "resourceClaimConflicts (path_claim ''src/a'' ResourceWrite) (path_claim ''src'' ResourceWrite)"
    by code_simp
  show ?thesis
    by (rule ext)
       (simp add: begin_round_def launchReady_def newDAGScheduler_def demo_round_def quiet_view_def sample_task_def
        dispatch_over_def readyToLaunch_def orderPredecessorsSettled_def resourceConflict_def tryAcquireSem_def
        launch_task_def set_state_def upt_rec c)
qed

theorem round_exclusive_witness:
  "let s = begin_round demo_round quiet_view (newDAGScheduler demo_round []) in
   active_set s = {0, 2} \<and> sc_in_progress s = 2"
proof -
  let ?s = "begin_round demo_round quiet_view (newDAGScheduler demo_round [])"
  have "active_set ?s = {0, 2}" by (auto simp: active_set_def demo_round_launch)
  moreover have "sc_in_progress ?s = int (card (active_set ?s))"
    using round_exclusive [OF reachable.started, of demo_round quiet_view "[]"] by blast
  ultimately show ?thesis by (simp add: Let_def)
qed

text \<open>
  Criterion routing cannot become an unbounded retry loop: in every reachable state the
  criterion retries taken are within the round's budget of two per task, and no task was charged
  more of them than its own retry limit.
\<close>

theorem criterion_retries_bounded:
  assumes "reachable cf s" "i < batch_size cf" "0 < batch_size cf"
  shows "0 \<le> sc_criterion_used s \<and> sc_criterion_used s \<le> 2 * int (batch_size cf) \<and>
    sc_criterion_counts s ! i \<le> max 0 (td_max_retries (cf_tasks cf ! i))"
  using reachable_inv [OF assms(1)] assms(2,3)
  by (simp add: sched_inv_def budget_ok_def maxCriterionRetryBudget_def Let_def)

theorem criterion_retries_bounded_witness:
  "sc_criterion_counts (begin_round demo_round quiet_view (newDAGScheduler demo_round [])) ! 0 \<le> 0"
  using criterion_retries_bounded [OF reachable.started, of 0 demo_round quiet_view "[]"]
  by (simp add: demo_round_def sample_task_def)

text \<open>Every completion is one a task running at that moment sends.\<close>

fun legal :: "round_config \<Rightarrow> (round_view \<times> completion_event) list \<Rightarrow> sched \<Rightarrow> bool" where
  "legal cf [] s \<longleftrightarrow> True"
| "legal cf ((v, ev) # evs) s \<longleftrightarrow>
     0 \<le> ev_idx ev \<and> sc_active s (nat (ev_idx ev)) \<noteq> None \<and> legal cf evs (handleEvent cf v ev s)"

lemma handle_all_bound:
  "sched_inv cf s \<Longrightarrow> legal cf evs s \<Longrightarrow>
   sched_inv cf (handle_all cf evs s) \<and>
   length evs + potential cf (handle_all cf evs s) \<le> potential cf s + 2 * length (filter requeues evs)"
proof (induction evs arbitrary: s)
  case (Cons x evs)
  obtain v ev where x: "x = (v, ev)" by fastforce
  let ?s = "handleEvent cf v ev s"
  have step: "sched_inv cf ?s"
    "Suc (potential cf ?s) \<le> potential cf s + (if requeues (v, ev) then 2 else 0)"
    using handleEvent_ok [OF Cons.prems(1)] Cons.prems(2) by (simp_all add: x)
  have "legal cf evs ?s" using Cons.prems(2) by (simp add: x)
  from Cons.IH [OF step(1) this] step(2) show ?case by (simp add: x split: if_splits)
qed simp

lemma fresh_potential:
  "potential cf (newDAGScheduler cf models) \<le>
   (4 * batch_size cf + 1) * (nat (maxCriterionRetryBudget (batch_size cf)) + (\<Sum>i<batch_size cf. nat (retry_limit cf i)))
   + 2 * batch_size cf"
proof -
  have "round_weight cf (newDAGScheduler cf models) \<le> (\<Sum>i<batch_size cf. 2)"
    unfolding round_weight_def by (rule sum_mono) (simp add: task_weight_def newDAGScheduler_def Let_def)
  then show ?thesis by (simp add: potential_def retry_room_def newDAGScheduler_def Let_def)
qed

lemma begin_potential:
  assumes "sched_inv cf s"
  shows "potential cf (begin_round cf v s) \<le> potential cf s"
proof -
  let ?s = "s\<lparr>sc_running := True, sc_stopped := False\<rparr>"
  have "sched_inv cf ?s" by (rule quiet_inv [OF assms quiet_flags(1)])
  then have "potential cf (begin_round cf v s) \<le> potential cf ?s"
    using launch_potential unfolding begin_round_def by blast
  also have "potential cf ?s = potential cf s"
    by (simp add: potential_def retry_room_def round_weight_def task_weight_def cong: if_cong)
  finally show ?thesis .
qed

text \<open>
  C16. A round ends: whatever its tasks do and the coordinator answers, it handles at most a number
  of completions fixed by the batch (its size and the retry limits of its tasks), and two more for
  each completion that a checkpoint or the transient-action policy sends back to the queue.
\<close>

theorem round_ends:
  assumes "legal cf evs (begin_round cf v (newDAGScheduler cf models))"
  shows "length evs \<le> (4 * batch_size cf + 1) *
      (nat (maxCriterionRetryBudget (batch_size cf)) + (\<Sum>i<batch_size cf. nat (retry_limit cf i)))
    + 2 * batch_size cf + 2 * length (filter requeues evs)"
  using handle_all_bound [OF begin_inv [OF fresh_inv] assms] begin_potential [OF fresh_inv, of cf v models]
    fresh_potential [of cf models] by linarith

definition demo_done :: "(round_view \<times> completion_event) list" where
  "demo_done = [(quiet_view, \<lparr>ev_idx = 2, ev_kind = Completed\<rparr>)]"

theorem round_ends_witness:
  "length demo_done \<le> 13 * 6 + 6"
proof -
  let ?s = "begin_round demo_round quiet_view (newDAGScheduler demo_round [])"
  have "legal demo_round demo_done ?s" by (simp add: demo_done_def demo_round_launch)
  from round_ends [OF this] show ?thesis
    by (simp add: demo_done_def requeues_def quiet_view_def demo_round_def maxCriterionRetryBudget_def
        retry_limit_def repairRetryLimit_def sample_task_def lessThan_Suc numeral_3_eq_3 Let_def)
qed

section \<open>What a launch pass starts\<close>

text \<open>The dependencies that can still hold a task back, and the ones that have failed.\<close>

definition failed :: "task_status list \<Rightarrow> nat \<Rightarrow> bool" where
  "failed sts b \<longleftrightarrow> isTerminalTaskStatus (sts ! b) \<and> sts ! b \<noteq> TaskDone"

definition wait_edges :: "task_def list \<Rightarrow> task_status list \<Rightarrow> (nat \<times> nat) set" where
  "wait_edges tasks sts = {(a, b). sts ! a = TaskPending \<and> b < length tasks \<and>
     int b \<in> set (td_depends (tasks ! a)) \<and> (sts ! b = TaskPending \<or> failed sts b)}"

definition waiting :: "task_def list \<Rightarrow> task_status list \<Rightarrow> int list \<Rightarrow> nat set" where
  "waiting tasks sts q = {b. b < length tasks \<and> int b \<in> set q \<and> (sts ! b = TaskPending \<or> failed sts b)}"

lemma waiting_simps [simp]:
  "waiting tasks sts [] = {}"
  "waiting tasks sts (c # q) =
     (if in_batch (length tasks) c \<and> (sts ! nat c = TaskPending \<or> failed sts (nat c))
      then insert (nat c) (waiting tasks sts q) else waiting tasks sts q)"
  "waiting tasks sts (p @ q) = waiting tasks sts p \<union> waiting tasks sts q"
  by (auto simp: waiting_def)

lemma wait_edges_image:
  "sts ! a = TaskPending \<Longrightarrow> wait_edges tasks sts `` {a} = waiting tasks sts (td_depends (tasks ! a))"
  by (auto simp: wait_edges_def waiting_def)

lemma pending_not_failed: "sts ! b = TaskPending \<Longrightarrow> \<not> failed sts b"
  by (simp add: failed_def)

lemma blocked_search_iff:
  assumes "wait_edges tasks sts `` set seen \<subseteq> set seen \<union> waiting tasks sts q"
    and "\<forall>a\<in>set seen. sts ! a = TaskPending"
  shows "blocked_search tasks sts seen q \<longleftrightarrow>
    (\<exists>b \<in> (wait_edges tasks sts)\<^sup>* `` waiting tasks sts q. failed sts b)"
  using assms
proof (induction tasks sts seen q rule: blocked_search.induct)
  case (1 tasks sts seen)
  then show ?case by (simp add: blocked_search.simps)
next
  case (2 tasks sts seen c q)
  let ?R = "wait_edges tasks sts"
  show ?case
  proof (cases "\<not> in_batch (length tasks) c \<or> sts ! nat c = TaskDone")
    case True
    then have "waiting tasks sts (c # q) = waiting tasks sts q" by (auto simp: failed_def)
    with 2(1) [OF True] "2.prems" True show ?thesis by (simp add: blocked_search.simps)
  next
    case in_b: False
    show ?thesis
    proof (cases "isTerminalTaskStatus (sts ! nat c)")
      case True
      then have "failed sts (nat c)" "nat c \<in> waiting tasks sts (c # q)" using in_b by (auto simp: failed_def)
      then show ?thesis using in_b True by (simp add: blocked_search.simps) blast
    next
      case live: False
      show ?thesis
      proof (cases "sts ! nat c \<noteq> TaskPending \<or> nat c \<in> set seen")
        case True
        then have q: "set seen \<union> waiting tasks sts (c # q) = set seen \<union> waiting tasks sts q"
          using live by (auto simp: failed_def)
        then have inv: "?R `` set seen \<subseteq> set seen \<union> waiting tasks sts q" using "2.prems"(1) by simp
        have "(\<exists>b \<in> ?R\<^sup>* `` waiting tasks sts (c # q). failed sts b) \<longleftrightarrow>
            (\<exists>b \<in> ?R\<^sup>* `` waiting tasks sts q. failed sts b)"
        proof (cases "nat c \<in> waiting tasks sts (c # q) \<and> nat c \<in> set seen")
          case True
          then have "waiting tasks sts (c # q) = insert (nat c) (waiting tasks sts q)" 
            by (auto simp: waiting_def split: if_splits)
          then have "?R\<^sup>* `` waiting tasks sts (c # q) = ?R\<^sup>* `` {nat c} \<union> ?R\<^sup>* `` waiting tasks sts q"
            by (simp add: Image_Un [symmetric] insert_is_Un [symmetric])
          moreover have "?R\<^sup>* `` {nat c} \<subseteq> set seen \<union> ?R\<^sup>* `` waiting tasks sts q"
            using closed_absorbs [OF inv] True by blast
          ultimately show ?thesis using "2.prems"(2) pending_not_failed by blast
        next
          case False
          then have "waiting tasks sts (c # q) = waiting tasks sts q" using True live by (auto simp: failed_def)
          then show ?thesis by simp
        qed
        with 2(2) [OF in_b live True inv "2.prems"(2)] in_b live True show ?thesis
          by (simp add: blocked_search.simps)
      next
        case new: False
        then have p: "sts ! nat c = TaskPending" by simp
        have w: "waiting tasks sts (c # q) = insert (nat c) (waiting tasks sts q)" using in_b p by auto
        have step: "?R `` {nat c} = waiting tasks sts (td_depends (tasks ! nat c))"
          using p by (rule wait_edges_image)
        have inv: "?R `` set (nat c # seen) \<subseteq> set (nat c # seen) \<union>
            waiting tasks sts (td_depends (tasks ! nat c) @ q)"
          using "2.prems"(1) step unfolding w by auto
        have all: "\<forall>a\<in>set (nat c # seen). sts ! a = TaskPending" using "2.prems"(2) p by simp
        have "?R\<^sup>* `` insert (nat c) (waiting tasks sts q) =
            insert (nat c) (?R\<^sup>* `` waiting tasks sts (td_depends (tasks ! nat c) @ q))"
          by (simp add: rtrancl_from step)
        with 2(3) [OF in_b live new inv all] in_b live new pending_not_failed [OF p]
        show ?thesis unfolding w by (simp add: blocked_search.simps)
      qed
    qed
  qed
qed

lemma cannotStart_iff:
  "cannotStart tasks sts i \<longleftrightarrow> (\<exists>b. (i, b) \<in> (wait_edges tasks sts)\<^sup>+ \<and> failed sts b)"
proof (cases "sts ! i = TaskPending")
  case True
  have img: "wait_edges tasks sts `` {i} = waiting tasks sts (td_depends (tasks ! i))"
    using True by (rule wait_edges_image)
  have "blocked_search tasks sts [i] (td_depends (tasks ! i)) \<longleftrightarrow>
      (\<exists>b \<in> (wait_edges tasks sts)\<^sup>* `` waiting tasks sts (td_depends (tasks ! i)). failed sts b)"
    by (rule blocked_search_iff) (use True img in auto)
  also have "\<dots> \<longleftrightarrow> (\<exists>b. (i, b) \<in> (wait_edges tasks sts)\<^sup>+ \<and> failed sts b)"
    unfolding img [symmetric] by (blast dest: tranclD intro: rtrancl_into_trancl2)
  finally show ?thesis using True by (simp add: cannotStart_def)
next
  case False
  then have "(i, b) \<notin> (wait_edges tasks sts)\<^sup>+" for b
    by (auto dest!: tranclD simp: wait_edges_def)
  with False show ?thesis by (simp add: cannotStart_def)
qed

lemma ready_no_wait: "readyToLaunch tasks sts j \<Longrightarrow> (j, b) \<notin> wait_edges tasks sts"
  by (auto simp: readyToLaunch_def wait_edges_def failed_def list_all_iff)

text \<open>Starting or refusing a ready task does not unblock what cannot start.\<close>

lemma cannotStart_keep:
  assumes ready: "sts ! j = TaskPending" "readyToLaunch tasks sts j" and c: "cannotStart tasks sts p"
  shows "cannotStart tasks (sts[j := st]) p"
proof -
  obtain b where b: "(p, b) \<in> (wait_edges tasks sts)\<^sup>+" "failed sts b"
    using c by (auto simp: cannotStart_iff)
  have same: "sts[j := st] ! k = sts ! k" if "k \<noteq> j" for k using that by simp
  have bj: "b \<noteq> j" using b(2) ready(1) by (auto simp: failed_def)
  have edge: "(a, k) \<in> wait_edges tasks (sts[j := st])" if "(a, k) \<in> wait_edges tasks sts" "k \<noteq> j" for a k
  proof -
    have "a \<noteq> j" using that(1) ready_no_wait [OF ready(2)] by blast
    then show ?thesis using that by (simp add: wait_edges_def failed_def)
  qed
  have "(p, b) \<in> (wait_edges tasks (sts[j := st]))\<^sup>+"
    using b(1)
  proof (induction rule: converse_trancl_induct)
    case (base a)
    then show ?case using edge bj by blast
  next
    case (step a k)
    have "k \<noteq> j" using step.hyps(2) ready_no_wait [OF ready(2)] by (blast dest: tranclD)
    with edge step show ?case by (blast intro: trancl_into_trancl2)
  qed
  moreover have "failed (sts[j := st]) b" using b(2) bj by (simp add: failed_def)
  ultimately show ?thesis by (auto simp: cannotStart_iff)
qed

lemma settled_keep:
  assumes "sts ! j = TaskPending" "readyToLaunch tasks sts j" "orderPredecessorsSettled tasks sts i"
  shows "orderPredecessorsSettled tasks (sts[j := st]) i"
proof -
  have "isTerminalTaskStatus (sts[j := st] ! k)" if "isTerminalTaskStatus (sts ! k)" for k
    using that assms(1) by (cases "k = j") auto
  then show ?thesis using assms(3) cannotStart_keep [OF assms(1,2)]
    unfolding orderPredecessorsSettled_def list_all_iff by blast
qed

text \<open>What a launch pass may do to the states, and to a task it starts.\<close>

definition pass_ok :: "round_config \<Rightarrow> sched \<Rightarrow> sched \<Rightarrow> bool" where
  "pass_ok cf s u \<longleftrightarrow> active_set s \<subseteq> active_set u \<and>
     (\<forall>j. sc_states s ! j \<noteq> TaskPending \<longrightarrow> sc_states u ! j = sc_states s ! j) \<and>
     (\<forall>j. sc_states u ! j = TaskDone \<longrightarrow> sc_states s ! j = TaskDone) \<and>
     (\<forall>i. orderPredecessorsSettled (cf_tasks cf) (sc_states s) i \<longrightarrow>
            orderPredecessorsSettled (cf_tasks cf) (sc_states u) i) \<and>
     (\<forall>i\<in>active_set u - active_set s. sc_states s ! i = TaskPending \<and>
        (\<forall>d\<in>set (td_depends (cf_tasks cf ! i)). in_batch (batch_size cf) d \<longrightarrow> sc_states s ! nat d = TaskDone) \<and>
        orderPredecessorsSettled (cf_tasks cf) (sc_states u) i)"

lemma pass_step:
  assumes inv: "sched_inv cf s" and i: "i < batch_size cf" "sc_states s ! i = TaskPending"
    and ready: "readyToLaunch (cf_tasks cf) (sc_states s) i"
    and t: "sc_states t = (sc_states s)[i := st]" "st \<noteq> TaskDone"
    and a: "active_set t = active_set s \<or> active_set t = insert i (active_set s)"
    and u: "pass_ok cf t u"
  shows "pass_ok cf s u"
proof -
  have len: "i < length (sc_states s)" using inv i(1) by (simp add: sched_inv_def sized_def)
  have u': "active_set t \<subseteq> active_set u"
    "\<And>j. sc_states t ! j \<noteq> TaskPending \<Longrightarrow> sc_states u ! j = sc_states t ! j"
    "\<And>j. sc_states u ! j = TaskDone \<Longrightarrow> sc_states t ! j = TaskDone"
    "\<And>k. orderPredecessorsSettled (cf_tasks cf) (sc_states t) k \<Longrightarrow>
       orderPredecessorsSettled (cf_tasks cf) (sc_states u) k"
    "\<And>k. k \<in> active_set u - active_set t \<Longrightarrow> sc_states t ! k = TaskPending \<and>
        (\<forall>d\<in>set (td_depends (cf_tasks cf ! k)). in_batch (batch_size cf) d \<longrightarrow> sc_states t ! nat d = TaskDone) \<and>
        orderPredecessorsSettled (cf_tasks cf) (sc_states u) k"
    using u unfolding pass_ok_def by blast+
  have nth: "sc_states t ! j = (if j = i then st else sc_states s ! j)" for j
    using len by (simp add: t(1) nth_list_update)
  have done_back: "sc_states s ! j = TaskDone" if "sc_states t ! j = TaskDone" for j
    using that t(2) by (auto simp: nth split: if_splits)
  have settle: "orderPredecessorsSettled (cf_tasks cf) (sc_states u) k"
    if "orderPredecessorsSettled (cf_tasks cf) (sc_states s) k" for k
    using u'(4) settled_keep [OF i(2) ready that, of st] by (simp only: t(1))
  have new: "sc_states s ! k = TaskPending \<and>
        (\<forall>d\<in>set (td_depends (cf_tasks cf ! k)). in_batch (batch_size cf) d \<longrightarrow> sc_states s ! nat d = TaskDone) \<and>
        orderPredecessorsSettled (cf_tasks cf) (sc_states u) k" if k: "k \<in> active_set u - active_set s" for k
  proof (cases "k \<in> active_set t")
    case True
    then have "k = i" using k a by blast
    moreover have "\<forall>d\<in>set (td_depends (cf_tasks cf ! i)). in_batch (batch_size cf) d \<longrightarrow> sc_states s ! nat d = TaskDone"
      "orderPredecessorsSettled (cf_tasks cf) (sc_states s) i"
      using ready by (auto simp: readyToLaunch_def list_all_iff)
    ultimately show ?thesis using settle i(2) by blast
  next
    case False
    then have h: "sc_states t ! k = TaskPending"
      "\<forall>d\<in>set (td_depends (cf_tasks cf ! k)). in_batch (batch_size cf) d \<longrightarrow> sc_states t ! nat d = TaskDone"
      "orderPredecessorsSettled (cf_tasks cf) (sc_states u) k" using u'(5) [of k] k by blast+
    have "sc_states s ! k = TaskPending" using h(1) i(2) by (cases "k = i") (simp_all add: nth)
    with h(2,3) done_back show ?thesis by blast
  qed
  have "active_set s \<subseteq> active_set u" using a u'(1) by blast
  moreover have "sc_states u ! j = sc_states s ! j" if "sc_states s ! j \<noteq> TaskPending" for j
    using that i(2) u'(2) [of j] nth [of j] by (cases "j = i") auto
  ultimately show ?thesis unfolding pass_ok_def using settle new u'(3) done_back by blast
qed

lemma pass_refl: "pass_ok cf s s"
  by (simp add: pass_ok_def)

lemma launch_pass:
  assumes "sched_inv cf s" "set is \<subseteq> {..<batch_size cf}"
  shows "pass_ok cf s (launch_loop cf v is s)"
  using assms
proof (induction rule: launch_loop_induct [where P = "pass_ok cf" and v = v])
  case (refl s)
  show ?case by (rule pass_refl)
next
  case (step s t u)
  from step(4) show ?case
  proof (elim disjE exE conjE)
    fix i d assume i: "i < batch_size cf" "sc_states s ! i = TaskPending"
      "readyToLaunch (cf_tasks cf) (sc_states s) i" and t: "t = blockDispatch i d s"
    show ?thesis
      by (rule pass_step [OF step(1) i, where st = "if d = ReplanRequired then TaskError else TaskBlocked",
             OF _ _ _ step(3)])
         (simp_all add: t blockDispatch_def step_simps Let_def active_set_def)
  next
    fix i owned assume i: "i < batch_size cf" "sc_states s ! i = TaskPending"
      "readyToLaunch (cf_tasks cf) (sc_states s) i" and t: "t = launch_task cf i owned s"
    show ?thesis
      by (rule pass_step [OF step(1) i, where st = TaskInProgress, OF _ _ _ step(3)])
         (simp_all add: t active_launch, simp add: launch_task_def set_state_def)
  qed
qed

lemma launchReady_pass: "sched_inv cf s \<Longrightarrow> pass_ok cf s (launchReady cf v s)"
  unfolding launchReady_def by (rule launch_pass) auto

text \<open>
  C28. A launch pass starts a task only when it was pending, every dependency of it in the batch is
  done, and every task it is ordered after has ended or waits for a dependency that failed.
\<close>

theorem launch_only_ready:
  assumes "reachable cf s" "sc_active s i = None" "sc_active (launchReady cf v s) i \<noteq> None"
  shows "sc_states s ! i = TaskPending \<and>
    (\<forall>d\<in>set (td_depends (cf_tasks cf ! i)). in_batch (batch_size cf) d \<longrightarrow> sc_states s ! nat d = TaskDone) \<and>
    (\<forall>p\<in>set (td_order_after (cf_tasks cf ! i)). in_batch (batch_size cf) p \<longrightarrow> p \<noteq> int i \<longrightarrow>
       (let sts = sc_states (launchReady cf v s) in isTerminalTaskStatus (sts ! nat p) \<or>
         (\<exists>b. (nat p, b) \<in> (wait_edges (cf_tasks cf) sts)\<^sup>+ \<and> failed sts b)))"
proof -
  have "i \<in> active_set (launchReady cf v s) - active_set s" using assms(2,3) by (simp add: active_set_def)
  then have h: "sc_states s ! i = TaskPending"
    "\<forall>d\<in>set (td_depends (cf_tasks cf ! i)). in_batch (batch_size cf) d \<longrightarrow> sc_states s ! nat d = TaskDone"
    "orderPredecessorsSettled (cf_tasks cf) (sc_states (launchReady cf v s)) i"
    using launchReady_pass [OF reachable_inv [OF assms(1)], of v] unfolding pass_ok_def by blast+
  then show ?thesis by (auto simp: orderPredecessorsSettled_def list_all_iff cannotStart_iff Let_def)
qed

lemmas round_steps = begin_round_def launchReady_def newDAGScheduler_def sample_task_def quiet_view_def
  dispatch_over_def readyToLaunch_def orderPredecessorsSettled_def resourceConflict_def tryAcquireSem_def
  launch_task_def step_simps Let_def

lemma demo_held:
  "begin_round demo_round (quiet_view\<lparr>rv_cancelled := \<lambda>_. True\<rparr>) (newDAGScheduler demo_round []) =
   (newDAGScheduler demo_round [])\<lparr>sc_running := True\<rparr>"
  by (simp add: round_steps demo_round_def upt_rec)

theorem launch_only_ready_witness:
  "let s = (newDAGScheduler demo_round [])\<lparr>sc_running := True\<rparr> in
   sc_active (launchReady demo_round quiet_view s) 2 \<noteq> None \<and> sc_states s ! 2 = TaskPending"
proof -
  let ?s = "(newDAGScheduler demo_round [])\<lparr>sc_running := True\<rparr>"
  have r: "reachable demo_round ?s" using reachable.started [of demo_round] demo_held by metis
  have "launchReady demo_round quiet_view ?s = begin_round demo_round quiet_view (newDAGScheduler demo_round [])"
    by (simp add: begin_round_def newDAGScheduler_def Let_def)
  then have a: "sc_active (launchReady demo_round quiet_view ?s) 2 \<noteq> None" by (simp add: demo_round_launch)
  moreover have "sc_active ?s 2 = None" by (simp add: newDAGScheduler_def Let_def)
  ultimately show ?thesis using launch_only_ready [OF r] by (simp add: Let_def)
qed

section \<open>What is left when nothing runs\<close>

lemma launch_idle:
  assumes "sched_inv cf s" "set is \<subseteq> {..<batch_size cf}" "active_set (launch_loop cf v is s) = {}"
    and "\<not> sc_stopped s" "\<And>i. \<not> rv_cancelled v i" "\<And>i. \<not> rv_cancelled_late v i" "\<And>i. rv_block v i = None"
  shows "launch_loop cf v is s = s \<and>
    (\<forall>i\<in>set is. sc_states s ! i = TaskPending \<longrightarrow> \<not> readyToLaunch (cf_tasks cf) (sc_states s) i)"
  using assms(2,3)
proof (induction "is")
  case (Cons i js)
  have "active_set s \<subseteq> active_set (launch_loop cf v (i # js) s)"
    using launch_pass [OF assms(1) Cons.prems(1)] by (simp add: pass_ok_def)
  then have idle: "active_set s = {}" using Cons.prems(2) by blast
  then have none: "sc_active s j = None" for j by (auto simp: active_set_def)
  then have nc: "\<not> resourceConflict cf s i" by (simp add: resourceConflict_def list_ex_iff)
  have go: "\<not> dispatch_over v i s" using assms(4,5) by (simp add: dispatch_over_def)
  have i: "i < batch_size cf" and js: "set js \<subseteq> {..<batch_size cf}" using Cons.prems(1) by simp_all
  have nr: "\<not> (sc_states s ! i = TaskPending \<and> readyToLaunch (cf_tasks cf) (sc_states s) i)"
  proof
    assume r: "sc_states s ! i = TaskPending \<and> readyToLaunch (cf_tasks cf) (sc_states s) i"
    have "0 < cf_limit cf \<longrightarrow> sc_sem s = 0"
      using assms(1) idle by (simp add: sched_inv_def running_ok_def)
    then have o: "tryAcquireSem cf s = Some (0 < cf_limit cf)" by (simp add: tryAcquireSem_def)
    let ?t = "launch_task cf i (0 < cf_limit cf) s"
    have e: "launch_loop cf v (i # js) s = launch_loop cf v js ?t"
      using o go r nc assms(4,6,7) by simp
    have "sched_inv cf ?t" using launch_inv [OF assms(1) i none nc o] .
    from launch_pass [OF this js, of v]
    have "active_set ?t \<subseteq> active_set (launch_loop cf v (i # js) s)"
      unfolding e by (simp add: pass_ok_def)
    then show False using Cons.prems(2) by (simp add: active_launch)
  qed
  then have e: "launch_loop cf v (i # js) s = launch_loop cf v js s" using go by auto
  with Cons.IH [OF js] Cons.prems(2) nr show ?case by simp
qed simp

text \<open>Without cycles, whatever is not ready waits for a failed dependency.\<close>

lemma not_ready_waits:
  assumes acyc: "\<not> detectTaskCycle tasks"
    and states: "\<And>j. j < length tasks \<Longrightarrow> sts ! j = TaskPending \<or> isTerminalTaskStatus (sts ! j)"
    and stuck: "\<And>j. j < length tasks \<Longrightarrow> sts ! j = TaskPending \<Longrightarrow> \<not> readyToLaunch tasks sts j"
    and i: "i < length tasks" "sts ! i = TaskPending"
  shows "\<exists>b. (i, b) \<in> (wait_edges tasks sts)\<^sup>+ \<and> failed sts b"
proof -
  have "finite (edges tasks)"
    by (rule finite_subset [of _ "{..<length tasks} \<times> {..<length tasks}"]) (auto simp: edges_def)
  moreover have "acyclic (edges tasks)" using acyc by (auto simp: acyclic_def detect_cycle_iff)
  ultimately have "wf ((edges tasks)\<inverse>)" by (rule finite_acyclic_wf_converse)
  then show ?thesis using i
  proof (induction i rule: wf_induct_rule)
    case (less i)
    from stuck [OF less.prems]
    consider (dep) d where "int d \<in> set (td_depends (tasks ! i))" "d < length tasks" "sts ! d \<noteq> TaskDone"
      | (pred) p where "int p \<in> set (td_order_after (tasks ! i))" "p < length tasks"
          "\<not> isTerminalTaskStatus (sts ! p)" "\<not> cannotStart tasks sts p"
      unfolding readyToLaunch_def orderPredecessorsSettled_def list_all_iff
      by (metis (no_types, lifting) int_nat_eq nat_int of_nat_less_iff zero_le_imp_eq_int)
    then show ?case
    proof cases
      case dep
      have edge: "(d, i) \<in> (edges tasks)\<inverse>" using dep less.prems by (simp add: edges_def)
      have w: "(i, d) \<in> wait_edges tasks sts"
        using dep less.prems states [OF dep(2)] by (auto simp: wait_edges_def failed_def)
      show ?thesis
      proof (cases "sts ! d = TaskPending")
        case True
        from less.IH [OF edge dep(2) True] w show ?thesis by (blast intro: trancl_into_trancl2)
      next
        case False
        then have "failed sts d" using states [OF dep(2)] dep(3) by (simp add: failed_def)
        with w show ?thesis by blast
      qed
    next
      case pred
      have edge: "(p, i) \<in> (edges tasks)\<inverse>" using pred less.prems by (simp add: edges_def)
      have "sts ! p = TaskPending" using states [OF pred(2)] pred(3) by blast
      from less.IH [OF edge pred(2) this] pred(4) show ?thesis by (simp add: cannotStart_iff)
    qed
  qed
qed

text \<open>
  A pass may also refuse tasks. Then a ready task is never left pending: it has failed at the end of the pass.
\<close>

lemma block_state:
  "i < length (sc_states s) \<Longrightarrow> failed (sc_states (blockDispatch i d s)) i"
  by (simp add: failed_def blockDispatch_def step_simps Let_def)

lemma ready_keep:
  assumes "sts ! j = TaskPending" "readyToLaunch tasks sts j" "readyToLaunch tasks sts i"
  shows "readyToLaunch tasks (sts[j := st]) i"
proof -
  have "sts[j := st] ! k = TaskDone" if "sts ! k = TaskDone" for k using that assms(1) by (cases "k = j") auto
  then show ?thesis using assms(3) settled_keep [OF assms(1,2)] unfolding readyToLaunch_def list_all_iff by blast
qed

lemma launch_refuses:
  assumes "sched_inv cf s" "set is \<subseteq> {..<batch_size cf}" "active_set (launch_loop cf v is s) = {}"
    and "\<not> sc_stopped s" "\<And>i. \<not> rv_cancelled v i" "\<And>i. \<not> rv_cancelled_late v i"
    and "j \<in> set is" "sc_states s ! j = TaskPending" "readyToLaunch (cf_tasks cf) (sc_states s) j"
  shows "failed (sc_states (launch_loop cf v is s)) j"
  using assms(1-4,7-)
proof (induction "is" arbitrary: s)
  case (Cons i js)
  have "active_set s \<subseteq> active_set (launch_loop cf v (i # js) s)"
    using launch_pass [OF Cons.prems(1,2)] by (simp add: pass_ok_def)
  then have idle: "active_set s = {}" using Cons.prems(3) by blast
  then have none: "sc_active s k = None" for k by (auto simp: active_set_def)
  then have nc: "\<not> resourceConflict cf s i" by (simp add: resourceConflict_def list_ex_iff)
  have go: "\<not> dispatch_over v i s" using Cons.prems(4) assms(5) by (simp add: dispatch_over_def)
  have i: "i < batch_size cf" and js: "set js \<subseteq> {..<batch_size cf}" using Cons.prems(2) by simp_all
  show ?case
  proof (cases "sc_states s ! i = TaskPending \<and> readyToLaunch (cf_tasks cf) (sc_states s) i")
    case False
    then have e: "launch_loop cf v (i # js) s = launch_loop cf v js s" using go by auto
    have "j \<in> set js" using Cons.prems(5-7) False by auto
    with Cons.IH [OF Cons.prems(1) js] Cons.prems(3,4,6,7) show ?thesis unfolding e by blast
  next
    case True
    show ?thesis
    proof (cases "rv_block v i")
      case None
      have "0 < cf_limit cf \<longrightarrow> sc_sem s = 0"
        using Cons.prems(1) idle by (simp add: sched_inv_def running_ok_def)
      then have o: "tryAcquireSem cf s = Some (0 < cf_limit cf)" by (simp add: tryAcquireSem_def)
      let ?t = "launch_task cf i (0 < cf_limit cf) s"
      have e: "launch_loop cf v (i # js) s = launch_loop cf v js ?t"
        using o go True nc Cons.prems(4) assms(6) None by simp
      have "sched_inv cf ?t" using launch_inv [OF Cons.prems(1) i none nc o] .
      from launch_pass [OF this js, of v] have "active_set ?t \<subseteq> {}" using Cons.prems(3) unfolding e by (simp add: pass_ok_def)
      then show ?thesis by (simp add: active_launch)
    next
      case (Some d)
      let ?t = "blockDispatch i d s"
      have e: "launch_loop cf v (i # js) s = launch_loop cf v js ?t" using go True nc Some by simp
      have inv: "sched_inv cf ?t" by (rule quiet_inv [OF Cons.prems(1) quiet_block [OF none]])
      have len: "i < length (sc_states s)" using Cons.prems(1) i by (simp add: sched_inv_def sized_def)
      let ?st = "if d = ReplanRequired then TaskError else TaskBlocked"
      have t: "sc_states ?t = (sc_states s)[i := ?st]" "sc_stopped ?t = sc_stopped s"
        by (simp_all add: blockDispatch_def step_simps Let_def)
      show ?thesis
      proof (cases "j = i")
        case True
        have "sc_states ?t ! i \<noteq> TaskPending" using block_state [OF len, of d] by (auto simp: failed_def)
        then have "sc_states (launch_loop cf v js ?t) ! i = sc_states ?t ! i"
          using launch_pass [OF inv js, of v] unfolding pass_ok_def by blast
        with block_state [OF len, of d] show ?thesis unfolding e True by (simp add: failed_def)
      next
        case False
        have "sc_states ?t ! j = TaskPending" using False Cons.prems(6) by (simp add: t)
        moreover have "readyToLaunch (cf_tasks cf) (sc_states ?t) j"
          unfolding t using ready_keep Cons.prems(7) True by blast
        ultimately show ?thesis
          using Cons.IH [OF inv js] Cons.prems(3-5) False unfolding e by (simp add: t)
      qed
    qed
  qed
qed simp

text \<open>What a task that waits its turn is ordered after.\<close>

definition order_waits :: "task_def list \<Rightarrow> task_status list \<Rightarrow> (nat \<times> nat) set" where
  "order_waits tasks sts = {(a, p). sts ! a = TaskPending \<and> p < length tasks \<and>
     int p \<in> set (td_order_after (tasks ! a)) \<and> sts ! p = TaskPending}"

lemma held_behind:
  assumes acyc: "\<not> detectTaskCycle tasks"
    and states: "\<And>j. j < length tasks \<Longrightarrow> sts ! j = TaskPending \<or> isTerminalTaskStatus (sts ! j)"
    and ready: "\<And>j. j < length tasks \<Longrightarrow> sts ! j = TaskPending \<Longrightarrow> readyToLaunch tasks sts j \<Longrightarrow> bad j"
    and fails: "\<And>j. failed sts j \<Longrightarrow> bad j"
    and i: "i < length tasks" "sts ! i = TaskPending" "\<not> bad i"
  shows "\<exists>b. (i, b) \<in> (wait_edges tasks sts \<union> order_waits tasks sts)\<^sup>+ \<and> bad b"
proof -
  let ?W = "wait_edges tasks sts \<union> order_waits tasks sts"
  have "finite (edges tasks)"
    by (rule finite_subset [of _ "{..<length tasks} \<times> {..<length tasks}"]) (auto simp: edges_def)
  moreover have "acyclic (edges tasks)" using acyc by (auto simp: acyclic_def detect_cycle_iff)
  ultimately have "wf ((edges tasks)\<inverse>)" by (rule finite_acyclic_wf_converse)
  then show ?thesis using i
  proof (induction i rule: wf_induct_rule)
    case (less i)
    have step: "\<exists>b. (i, b) \<in> ?W\<^sup>+ \<and> bad b" if d: "d < length tasks" "(d, i) \<in> (edges tasks)\<inverse>" "(i, d) \<in> ?W" for d
    proof (cases "bad d")
      case True
      with d(3) show ?thesis by blast
    next
      case False
      then have "sts ! d = TaskPending" using d(3) fails by (auto simp: wait_edges_def order_waits_def)
      from less.IH [OF d(2,1) this False] d(3) show ?thesis by (blast intro: trancl_into_trancl2)
    qed
    have "\<not> readyToLaunch tasks sts i" using ready less.prems by blast
    then consider (dep) d where "int d \<in> set (td_depends (tasks ! i))" "d < length tasks" "sts ! d \<noteq> TaskDone"
      | (pred) p where "int p \<in> set (td_order_after (tasks ! i))" "p < length tasks"
          "\<not> isTerminalTaskStatus (sts ! p)"
      unfolding readyToLaunch_def orderPredecessorsSettled_def list_all_iff
      by (metis (no_types, lifting) int_nat_eq nat_int of_nat_less_iff zero_le_imp_eq_int)
    then show ?case
    proof cases
      case dep
      then have "(d, i) \<in> (edges tasks)\<inverse>" "(i, d) \<in> ?W"
        using less.prems states [OF dep(2)] by (auto simp: edges_def wait_edges_def failed_def)
      with dep(2) show ?thesis by (rule step)
    next
      case pred
      then have "(p, i) \<in> (edges tasks)\<inverse>" "(i, p) \<in> ?W"
        using less.prems states [OF pred(2)] by (auto simp: edges_def order_waits_def)
      with pred(2) show ?thesis by (rule step)
    qed
  qed
qed

text \<open>
  C23. Only a failure strands a task. Take an acyclic batch in which every task is pending or ended, and a launch pass that is neither
  stopped nor cancelled and leaves no task running. If the pass refused no dispatch, each task still
  pending transitively depends on one that failed, was blocked or was skipped. If it refused some, each task still pending
  transitively depends on, or is ordered after, one that had failed before or was refused in this pass; being ordered after a
  refused task is enough (\<open>late_block_strands_ready\<close> of \<open>Dag_Settle\<close>).
\<close>

theorem stranded_behind_failure:
  assumes "reachable cf s" "\<not> detectTaskCycle (cf_tasks cf)"
    and "\<not> sc_stopped s" "\<And>j. \<not> rv_cancelled v j" "\<And>j. \<not> rv_cancelled_late v j"
    and "active_set (launchReady cf v s) = {}"
    and "\<And>j. j < batch_size cf \<Longrightarrow> sc_states s ! j = TaskPending \<or> isTerminalTaskStatus (sc_states s ! j)"
    and "i < batch_size cf" "sc_states (launchReady cf v s) ! i = TaskPending"
  shows "((\<forall>j. rv_block v j = None) \<longrightarrow>
      (\<exists>b. (i, b) \<in> (wait_edges (cf_tasks cf) (sc_states (launchReady cf v s)))\<^sup>+ \<and>
        failed (sc_states (launchReady cf v s)) b)) \<and>
    (\<exists>b. (i, b) \<in> (wait_edges (cf_tasks cf) (sc_states s) \<union> order_waits (cf_tasks cf) (sc_states s))\<^sup>+ \<and>
      failed (sc_states (launchReady cf v s)) b)"
proof (intro conjI impI)
  note inv = reachable_inv [OF assms(1)]
  have r: "set [0..<batch_size cf] \<subseteq> {..<batch_size cf}" by auto
  {
    assume "\<forall>j. rv_block v j = None"
    then have "rv_block v j = None" for j by blast
    from launch_idle [OF inv r _ assms(3-5) this] assms(6)
    have e: "launchReady cf v s = s"
      and stuck: "\<And>j. j < batch_size cf \<Longrightarrow> sc_states s ! j = TaskPending \<Longrightarrow>
        \<not> readyToLaunch (cf_tasks cf) (sc_states s) j" by (auto simp: launchReady_def)
    from not_ready_waits [OF assms(2,7) stuck assms(8)] assms(9)
    show "\<exists>b. (i, b) \<in> (wait_edges (cf_tasks cf) (sc_states (launchReady cf v s)))\<^sup>+ \<and>
        failed (sc_states (launchReady cf v s)) b" unfolding e by blast
  }
  have keep: "sc_states s ! j \<noteq> TaskPending \<Longrightarrow> sc_states (launchReady cf v s) ! j = sc_states s ! j" for j
    using launchReady_pass [OF inv, of v] unfolding pass_ok_def by blast
  show "\<exists>b. (i, b) \<in> (wait_edges (cf_tasks cf) (sc_states s) \<union> order_waits (cf_tasks cf) (sc_states s))\<^sup>+ \<and>
      failed (sc_states (launchReady cf v s)) b"
  proof (rule held_behind [OF assms(2,7) _ _ assms(8)])
    show "failed (sc_states (launchReady cf v s)) j"
      if "j < batch_size cf" "sc_states s ! j = TaskPending" "readyToLaunch (cf_tasks cf) (sc_states s) j" for j
      using launch_refuses [OF inv r _ assms(3-5)] assms(6) that by (simp add: launchReady_def)
    show "failed (sc_states (launchReady cf v s)) j" if "failed (sc_states s) j" for j
    proof -
      have "sc_states s ! j \<noteq> TaskPending" using that pending_not_failed by blast
      with that keep [of j] show ?thesis by (simp add: failed_def)
    qed
    show "sc_states s ! i = TaskPending" using keep [of i] assms(9) by auto
    show "\<not> failed (sc_states (launchReady cf v s)) i" using assms(9) by (simp add: failed_def)
  qed
qed

text \<open>A task and its dependent; the task fails.\<close>

definition chain_round :: round_config where
  "chain_round = \<lparr>cf_tasks = [sample_task [], sample_task [0]], cf_claims = [[], []], cf_limit = 1,
     cf_workflow = None\<rparr>"

definition chain_failed :: sched where
  "chain_failed = handleEvent chain_round quiet_view \<lparr>ev_idx = 0, ev_kind = WorkerError\<rparr>
     (begin_round chain_round quiet_view (newDAGScheduler chain_round []))"

lemma chain_facts:
  "sc_active (begin_round chain_round quiet_view (newDAGScheduler chain_round [])) = [0 \<mapsto> []]"
  "sc_states chain_failed = [TaskError, TaskPending]" "sc_active chain_failed = Map.empty"
  "\<not> sc_stopped chain_failed"
  "launchReady chain_round quiet_view chain_failed = chain_failed"
  by (simp_all add: chain_failed_def round_steps chain_round_def upt_rec handleEvent_def releaseInProgress_def
      handle_failure_def handle_failure_edge_def routeCriterionRetry_def)

theorem stranded_behind_failure_witness:
  "\<exists>b. (1, b) \<in> (wait_edges (cf_tasks chain_round) (sc_states chain_failed))\<^sup>+ \<and>
       failed (sc_states chain_failed) b"
proof -
  have r: "reachable chain_round chain_failed"
    unfolding chain_failed_def by (rule reachable.handled [OF reachable.started]) (simp_all add: chain_facts)
  have acyc: "\<not> detectTaskCycle (cf_tasks chain_round)"
    using detect_cycle_examples(2) by (simp add: chain_round_def)
  have idle: "active_set (launchReady chain_round quiet_view chain_failed) = {}"
    by (simp add: chain_facts active_set_def)
  have st: "sc_states chain_failed ! j = TaskPending \<or> isTerminalTaskStatus (sc_states chain_failed ! j)"
    if "j < batch_size chain_round" for j
    using that by (auto simp: chain_facts chain_round_def less_Suc_eq)
  have q: "\<not> rv_cancelled quiet_view j" "\<not> rv_cancelled_late quiet_view j" "rv_block quiet_view j = None" for j
    by (simp_all add: quiet_view_def)
  have one: "1 < batch_size chain_round" "sc_states (launchReady chain_round quiet_view chain_failed) ! 1 = TaskPending"
    by (simp_all add: chain_facts) (simp add: chain_round_def)
  from stranded_behind_failure [OF r acyc chain_facts(4) q(1,2) idle st one] q(3) show ?thesis
    unfolding chain_facts(5) by blast
qed

end
