(* ===== verification/Dag_Settle.thy ===== *)
theory Dag_Settle
  imports Dag_Rounds
begin

text \<open>
  How a round comes to rest: a launch pass that refuses a task, the class allowlist of a failure edge,
  cancellation, and the states the tasks are left in when \<open>run\<close> returns.
\<close>

section \<open>A task refused within a launch pass\<close>

text \<open>
  That a task left pending waits for a failure no longer holds once a launch pass refuses a task. Task 0 depends on task 2, task 1 is
  ordered after task 0 and depends on nothing. The pass looks at task 1 while task 2 still can run,
  then refuses to dispatch task 2 and ends: task 1 has become ready, is never launched, and is
  blocked when the round is closed.
\<close>

definition late_block_round :: round_config where
  "late_block_round = \<lparr>cf_tasks = [sample_task [2], (sample_task [])\<lparr>td_order_after := [0]\<rparr>, sample_task []],
     cf_claims = [[], [], []], cf_limit = 2, cf_workflow = None\<rparr>"

definition late_block_view :: round_view where
  "late_block_view = quiet_view\<lparr>rv_block := (\<lambda>i. if i = 2 then Some NeedsHuman else None)\<rparr>"

lemma late_block_start:
  "begin_round late_block_round late_block_view (newDAGScheduler late_block_round []) =
     launch_loop late_block_round late_block_view [0, 1, 2]
       ((newDAGScheduler late_block_round [])\<lparr>sc_running := True\<rparr>)"
proof -
  have all: "[0..<batch_size late_block_round] = [0, 1, 2]" by (simp add: late_block_round_def upt_rec)
  have s: "(newDAGScheduler late_block_round [])\<lparr>sc_running := True, sc_stopped := False\<rparr> =
      (newDAGScheduler late_block_round [])\<lparr>sc_running := True\<rparr>"
    by (simp add: newDAGScheduler_def Let_def)
  show ?thesis unfolding begin_round_def launchReady_def all s ..
qed

lemma late_block_ready:
  assumes "sc_states s = [TaskPending, TaskPending, st]"
  shows "readyToLaunch (cf_tasks late_block_round) (sc_states s) 0 \<longleftrightarrow> st = TaskDone"
    "readyToLaunch (cf_tasks late_block_round) (sc_states s) 2"
    "st = TaskPending \<Longrightarrow> \<not> readyToLaunch (cf_tasks late_block_round) (sc_states s) 1"
    "st = TaskBlocked \<Longrightarrow> readyToLaunch (cf_tasks late_block_round) (sc_states s) 1"
  by (simp_all add: assms readyToLaunch_def late_block_round_def sample_task_def orderPredecessorsSettled_def
      cannotStart_def blocked_search.simps)

definition late_block_left :: sched where
  "late_block_left = (newDAGScheduler late_block_round [])\<lparr>sc_running := True,
     sc_states := [TaskPending, TaskPending, TaskBlocked],
     sc_results := [None, None, Some (RefusedDispatch NeedsHuman)], sc_log := [PersistedFailure 2 TaskBlocked]\<rparr>"

lemma late_block_pass:
  "begin_round late_block_round late_block_view (newDAGScheduler late_block_round []) = late_block_left"
proof -
  let ?s = "(newDAGScheduler late_block_round [])\<lparr>sc_running := True\<rparr>"
  have st: "sc_states ?s = [TaskPending, TaskPending, TaskPending]"
    and fields: "sc_results ?s = [None, None, None]" "sc_log ?s = []"
    by (simp_all add: newDAGScheduler_def late_block_round_def Let_def numeral_3_eq_3)
  have calm: "\<not> dispatch_over late_block_view i ?s" for i
    by (simp add: dispatch_over_def newDAGScheduler_def late_block_view_def quiet_view_def Let_def)
  have free: "\<not> resourceConflict late_block_round ?s i" for i
    by (simp add: resourceConflict_def newDAGScheduler_def Let_def list_ex_iff)
  have answers: "rv_block late_block_view 2 = Some NeedsHuman" by (simp add: late_block_view_def)
  have "launch_loop late_block_round late_block_view [0, 1, 2] ?s = blockDispatch 2 NeedsHuman ?s"
    using late_block_ready [OF st] st by (simp add: calm free answers)
  also have "\<dots> = late_block_left"
    using st fields by (simp add: blockDispatch_def late_block_left_def step_simps Let_def numeral_2_eq_2)
  finally show ?thesis by (simp only: late_block_start)
qed

text \<open>
  A launch pass strands a ready task. In the batch above the pass blocks task 2 after it has gone past task 1,
  and ends with task 1 pending although nothing stands in its way; \<open>markStranded\<close> then blocks it.
\<close>

theorem late_block_strands_ready:
  "\<not> detectTaskCycle (cf_tasks late_block_round) \<and>
   (let s = begin_round late_block_round late_block_view (newDAGScheduler late_block_round []) in
    sc_in_progress s = 0 \<and> readyToLaunch (cf_tasks late_block_round) (sc_states s) 1 \<and>
    map_option sc_states (run late_block_round late_block_view [] (newDAGScheduler late_block_round [])) =
      Some [TaskBlocked, TaskBlocked, TaskBlocked])"
proof -
  have "\<not> detectTaskCycle (cf_tasks late_block_round)"
    by (simp add: detectTaskCycle_def late_block_round_def sample_task_def upt_rec numeral_3_eq_3 numeral_2_eq_2)
  moreover have st: "sc_states late_block_left = [TaskPending, TaskPending, TaskBlocked]"
    and idle: "sc_in_progress late_block_left = 0"
    by (simp_all add: late_block_left_def newDAGScheduler_def Let_def)
  moreover have "sc_states (markStranded late_block_round late_block_left) = [TaskBlocked, TaskBlocked, TaskBlocked]"
    by (simp add: markStranded_def late_block_round_def upt_rec strand_task_def step_simps st numeral_2_eq_2)
  ultimately show ?thesis
    using late_block_ready(4) [OF st]
    by (simp only: run_def handle_all.simps late_block_pass Let_def) simp
qed

section \<open>The class allowlist of a failure edge\<close>

text \<open>A task not pending before a launch pass is left alone by it.\<close>

lemma launch_leaves: "sched_inv cf s \<Longrightarrow> sc_states s ! j \<noteq> TaskPending \<Longrightarrow>
    sc_states (launchReady cf v s) ! j = sc_states s ! j"
  using launchReady_pass [of cf s v] unfolding pass_ok_def by metis

lemma reset_leaves:
  "j \<noteq> i \<Longrightarrow> sc_states (snd (resetTaskWithRemediation cf v i rem s)) ! j = sc_states s ! j"
  by (rule reset_shape [of cf v i rem s]) simp

lemma reset_and_launch_leaves:
  assumes "sched_inv cf s" "sc_active s i = None" "i < batch_size cf" "j \<noteq> i" "sc_states s ! j \<noteq> TaskPending"
  shows "sc_states (reset_and_launch cf v i s) ! j = sc_states s ! j"
proof -
  obtain ok s' where r: "resetTaskWithRemediation cf v i None s = (ok, s')" by fastforce
  have j: "sc_states s' ! j = sc_states s ! j" using reset_leaves [OF assms(4), of cf v None s] r by simp
  have "sched_inv cf s'" using reset_then_launch [OF assms(1-3) r] by blast
  from launch_leaves [OF this, of j v] j assms(5) show ?thesis
    by (cases ok) (simp_all add: reset_and_launch_def r)
qed

text \<open>
  A failure whose class the task's \<open>on_failure\<close> allowlist does not name never resets another
  task: whatever the coordinator answers, every other task that had started keeps its state.
\<close>

theorem unauthorized_failure_resets_nothing:
  assumes "reachable cf s" "0 \<le> ev_idx ev" "sc_active s (nat (ev_idx ev)) \<noteq> None" "ev_kind ev = WorkerError"
    and "\<not> sc_needs_reset s ! nat (ev_idx ev)"
    and "td_on_failure (cf_tasks cf ! nat (ev_idx ev)) \<noteq> None"
    and "td_failure_classes (cf_tasks cf ! nat (ev_idx ev)) \<noteq> []"
    and "\<not> failureClassAllowed (effectiveFailureClassForTodo (rv_todo v (nat (ev_idx ev))))
            (td_failure_classes (cf_tasks cf ! nat (ev_idx ev)))"
    and "j \<noteq> nat (ev_idx ev)" "sc_states s ! j \<noteq> TaskPending"
  shows "sc_states (handleEvent cf v ev s) ! j = sc_states s ! j"
proof -
  let ?i = "nat (ev_idx ev)"
  define t where "t = set_result ?i (Returned WorkerError) (set_state ?i TaskError
     (log_effect (Terminalized (ev_idx ev)) (releaseInProgress (ev_idx ev) s)))"
  have i: "?i < batch_size cf" using active_in_progress [OF reachable_inv [OF assms(1)] assms(3)] by blast
  have rel: "sched_inv cf (releaseInProgress (ev_idx ev) s)" using release_inv [OF reachable_inv [OF assms(1)] assms(3)] .
  have "quiet (releaseInProgress (ev_idx ev) s) t" unfolding t_def
    by (rule quiet_trans [OF quiet_log], rule quiet_trans [OF quiet_set_state quiet_result]) (simp add: release_fields)
  then have inv: "sched_inv cf t" by (rule quiet_inv [OF rel])
  have a: "sc_active t ?i = None" by (simp add: t_def release_fields)
  have j: "sc_states t ! j = sc_states s ! j" using assms(9) by (simp add: t_def step_simps release_fields)
  obtain tgt where tgt: "td_on_failure (cf_tasks cf ! ?i) = Some tgt" using assms(6) by blast
  have e: "handleEvent cf v ev s = (if cf_workflow cf \<noteq> None \<and> rv_action_retry v ?i
      then reset_and_launch cf v ?i (add_retry ?i t) else handle_failure_edge cf v ?i t)"
    using assms(2,4,5) tgt i by (simp add: handleEvent_def handle_failure_def release_fields Let_def t_def)
  have retry: "sc_states (reset_and_launch cf v ?i (add_retry ?i t)) ! j = sc_states s ! j"
    using reset_and_launch_leaves [OF add_retry_inv [OF inv], of ?i ?i j v] a i assms(9,10) j
    by (simp add: add_retry_def)
  have launch: "sc_states (launchReady cf v t) ! j = sc_states s ! j"
    using launch_leaves [OF inv, of j v] j assms(10) by simp
  have "handle_failure_edge cf v ?i t \<in> {launchReady cf v t, reset_and_launch cf v ?i (add_retry ?i t)}"
    using assms(6,7,8) by (auto simp: handle_failure_edge_def Let_def)
  then show ?thesis using e retry launch by auto
qed

definition gated_round :: round_config where
  "gated_round = \<lparr>cf_tasks = [sample_task [], (sample_task [0])\<lparr>td_on_failure := Some 0, td_max_retries := 3,
       td_failure_classes := [FailureSemanticRejection]\<rparr>],
     cf_claims = [[], []], cf_limit = 1, cf_workflow = None\<rparr>"

definition gated_state :: sched where
  "gated_state = handleEvent gated_round quiet_view \<lparr>ev_idx = 0, ev_kind = Completed\<rparr>
     (begin_round gated_round quiet_view (newDAGScheduler gated_round []))"

lemma gated_start:
  "begin_round gated_round quiet_view (newDAGScheduler gated_round []) =
     launch_task gated_round 0 True ((newDAGScheduler gated_round [])\<lparr>sc_running := True\<rparr>)"
  by (simp add: round_steps gated_round_def upt_rec)

lemma gated_facts:
  "sc_active (begin_round gated_round quiet_view (newDAGScheduler gated_round [])) = [0 \<mapsto> []]"
  "sc_states gated_state = [TaskDone, TaskInProgress]" "sc_active gated_state = [1 \<mapsto> []]"
  "sc_needs_reset gated_state = [False, False]"
  by (simp_all add: gated_state_def round_steps gated_round_def upt_rec handleEvent_def releaseInProgress_def
      handle_success_def routeNoProgressCriterionRetry_def criterionRetryEligible_def fun_eq_iff)

theorem unauthorized_failure_resets_nothing_witness:
  "sc_states (handleEvent gated_round quiet_view \<lparr>ev_idx = 1, ev_kind = WorkerError\<rparr> gated_state) ! 0 = TaskDone"
proof -
  have r: "reachable gated_round gated_state"
    unfolding gated_state_def by (rule reachable.handled [OF reachable.started]) (simp_all add: gated_facts)
  have "\<not> failureClassAllowed (effectiveFailureClassForTodo (rv_todo quiet_view 1)) [FailureSemanticRejection]"
    by (simp add: failureClassAllowed_def effectiveFailureClassForTodo_def quiet_view_def failureClassForTodo_def
        isRuntimeAttestedInvariantRejection_def isGenuineWorkerReportedFailure_def)
  then show ?thesis
    using unauthorized_failure_resets_nothing [OF r, of "\<lparr>ev_idx = 1, ev_kind = WorkerError\<rparr>" quiet_view 0]
    by (simp add: gated_facts) (simp add: gated_round_def)
qed

section \<open>Cancellation and the end of the round\<close>

lemma consume_fields:
  "sc_states (consumeCancelledResult ev s) = sc_states s"
  "active_set (consumeCancelledResult ev s) = active_set s - {nat (ev_idx ev)}"
proof -
  have log: "active_set (log_effect e s) = active_set s" "sc_states (log_effect e s) = sc_states s" for e
    by (simp_all add: active_set_def log_effect_def)
  show "sc_states (consumeCancelledResult ev s) = sc_states s"
    by (simp add: consumeCancelledResult_def release_fields log split: completion.split)
  show "active_set (consumeCancelledResult ev s) = active_set s - {nat (ev_idx ev)}"
    by (simp add: consumeCancelledResult_def active_release log split: completion.split)
qed

lemma drain_ok:
  "sched_inv cf s \<Longrightarrow> distinct (map (\<lambda>ev. nat (ev_idx ev)) evs) \<Longrightarrow>
   set (map (\<lambda>ev. nat (ev_idx ev)) evs) = active_set s \<Longrightarrow>
   sched_inv cf (drainInProgress evs s) \<and> active_set (drainInProgress evs s) = {} \<and>
   sc_states (drainInProgress evs s) = sc_states s"
proof (induction evs arbitrary: s)
  case (Cons ev evs)
  let ?s = "consumeCancelledResult ev s"
  have act: "sc_active s (nat (ev_idx ev)) \<noteq> None" using Cons.prems(3) by (auto simp: active_set_def)
  have rest: "set (map (\<lambda>ev. nat (ev_idx ev)) evs) = active_set ?s"
    using Cons.prems(2,3) by (simp add: consume_fields) blast
  from Cons.IH [OF consume_inv [OF Cons.prems(1) act] _ rest] Cons.prems(2)
  show ?case by (simp add: drainInProgress_def consume_fields)
qed (simp add: drainInProgress_def)

text \<open>
  A cancelled round gives everything back: once the scheduler has consumed one completion of
  each running task, no task is running, the counter is zero, every permit of the semaphore is
  free, and no task was started or changed its state meanwhile.
\<close>

theorem cancel_releases_all:
  assumes "reachable cf s" "distinct (map (\<lambda>ev. nat (ev_idx ev)) evs)"
    "set (map (\<lambda>ev. nat (ev_idx ev)) evs) = active_set s"
  shows "let s' = drainInProgress evs (stop_dispatch s) in
    active_set s' = {} \<and> sc_in_progress s' = 0 \<and> (0 < cf_limit cf \<longrightarrow> sc_sem s' = 0) \<and>
    (\<forall>i. sc_slots s' i = None) \<and> sc_states s' = sc_states s"
proof -
  let ?s' = "drainInProgress evs (stop_dispatch s)"
  have inv: "sched_inv cf (stop_dispatch s)" by (rule quiet_inv [OF reachable_inv [OF assms(1)] quiet_flags(2)])
  have "active_set (stop_dispatch s) = active_set s" by (simp add: stop_dispatch_def active_set_def)
  with drain_ok [OF inv assms(2)] assms(3)
  have d: "sched_inv cf ?s'" "active_set ?s' = {}" "sc_states ?s' = sc_states s"
    by (simp_all add: stop_dispatch_def)
  then have "running_ok cf ?s'" by (simp add: sched_inv_def)
  moreover have "sc_active ?s' i = None" for i using d(2) by (auto simp: active_set_def)
  ultimately show ?thesis using d by (simp add: running_ok_def Let_def)
qed

theorem cancel_releases_all_witness:
  "let s = drainInProgress [\<lparr>ev_idx = 2, ev_kind = WorkerError\<rparr>, \<lparr>ev_idx = 0, ev_kind = Completed\<rparr>]
             (stop_dispatch (begin_round demo_round quiet_view (newDAGScheduler demo_round []))) in
   sc_in_progress s = 0 \<and> sc_sem s = 0"
proof -
  let ?evs = "[\<lparr>ev_idx = 2, ev_kind = WorkerError\<rparr>, \<lparr>ev_idx = 0, ev_kind = Completed\<rparr>]"
  let ?s = "begin_round demo_round quiet_view (newDAGScheduler demo_round [])"
  have "active_set ?s = {0, 2}" by (auto simp: active_set_def demo_round_launch)
  then have "set (map (\<lambda>ev. nat (ev_idx ev)) ?evs) = active_set ?s" by auto
  with cancel_releases_all [OF reachable.started, of ?evs demo_round quiet_view "[]"]
  show ?thesis by (simp add: Let_def demo_round_def)
qed

lemma strand_fold:
  "sc_states (fold strand_task is s) ! j =
     (if j \<in> set is \<and> sc_states s ! j = TaskPending \<and> j < length (sc_states s) then TaskBlocked else sc_states s ! j)
   \<and> active_set (fold strand_task is s) = active_set s \<and> sc_in_progress (fold strand_task is s) = sc_in_progress s
   \<and> length (sc_states (fold strand_task is s)) = length (sc_states s)"
proof (induction "is" arbitrary: s)
  case (Cons i js)
  have "sc_states (strand_task i s) ! j =
      (if j = i \<and> sc_states s ! j = TaskPending \<and> j < length (sc_states s) then TaskBlocked else sc_states s ! j)"
    by (cases "j = i") (auto simp: strand_task_def step_simps nth_list_update list_update_beyond)
  moreover have "active_set (strand_task i s) = active_set s" "sc_in_progress (strand_task i s) = sc_in_progress s"
    "length (sc_states (strand_task i s)) = length (sc_states s)"
    by (simp_all add: strand_task_def active_set_def step_simps)
  ultimately show ?case using Cons [of "strand_task i s"] by auto
qed simp

text \<open>
  When \<open>run\<close> returns, nothing is running and no task is pending: a task the round could not
  start is blocked, and every other task keeps the state its last completion left it in.
\<close>

theorem run_settles:
  assumes "legal cf evs (begin_round cf v (newDAGScheduler cf models))"
    and "run cf v evs (newDAGScheduler cf models) = Some s'" "i < batch_size cf"
  shows "active_set s' = {} \<and> sc_states s' ! i \<noteq> TaskPending \<and>
    (let s = handle_all cf evs (begin_round cf v (newDAGScheduler cf models)) in
     sc_states s' ! i = (if sc_states s ! i = TaskPending then TaskBlocked else sc_states s ! i))"
proof -
  let ?s = "handle_all cf evs (begin_round cf v (newDAGScheduler cf models))"
  have inv: "sched_inv cf ?s" using handle_all_bound [OF begin_inv [OF fresh_inv] assms(1)] by blast
  have s': "\<not> 0 < sc_in_progress ?s" "s' = (markStranded cf ?s)\<lparr>sc_running := False\<rparr>"
    using assms(2) by (auto simp: run_def Let_def split: if_splits)
  have "card (active_set ?s) = 0" using inv s'(1) by (simp add: sched_inv_def running_ok_def)
  then have idle: "active_set ?s = {}" using finite_active [OF inv] by simp
  have len: "i < length (sc_states ?s)" using inv assms(3) by (simp add: sched_inv_def sized_def)
  note f = strand_fold [of "[0..<batch_size cf]" ?s i]
  have "active_set s' = {}" using f idle by (simp add: s'(2) markStranded_def active_set_def)
  moreover have "sc_states s' ! i = (if sc_states ?s ! i = TaskPending then TaskBlocked else sc_states ?s ! i)"
    using f len assms(3) by (simp add: s'(2) markStranded_def)
  ultimately show ?thesis by (simp add: Let_def)
qed

theorem run_settles_witness:
  "\<exists>s'. run chain_round quiet_view [(quiet_view, \<lparr>ev_idx = 0, ev_kind = WorkerError\<rparr>)]
           (newDAGScheduler chain_round []) = Some s' \<and> sc_states s' ! 1 = TaskBlocked"
proof -
  let ?evs = "[(quiet_view, \<lparr>ev_idx = 0, ev_kind = WorkerError\<rparr>)]"
  have l: "legal chain_round ?evs (begin_round chain_round quiet_view (newDAGScheduler chain_round []))"
    by (simp add: chain_facts)
  have h: "handle_all chain_round ?evs (begin_round chain_round quiet_view (newDAGScheduler chain_round [])) = chain_failed"
    by (simp add: chain_failed_def)
  have inv: "sched_inv chain_round chain_failed"
    unfolding chain_failed_def
    by (rule reachable_inv, rule reachable.handled [OF reachable.started]) (simp_all add: chain_facts)
  then have "sc_in_progress chain_failed = 0"
    by (simp add: sched_inv_def running_ok_def active_set_def chain_facts)
  then have r: "run chain_round quiet_view ?evs (newDAGScheduler chain_round []) =
      Some ((markStranded chain_round chain_failed)\<lparr>sc_running := False\<rparr>)"
    unfolding run_def h by (simp add: Let_def)
  have "1 < batch_size chain_round" by (simp add: chain_round_def)
  from run_settles [OF l r this] r show ?thesis unfolding h by (simp add: chain_facts Let_def)
qed

end
