(* ===== verification/Cost_Money.thy ===== *)
theory Cost_Money
  imports Go_Strings
begin

text \<open>
  \<open>internal/cost/money.go\<close>: micro-dollar amounts as \<open>int64\<close>, parsed from and printed as decimal
  strings, the price of a token count rounded up, and checked addition. All arithmetic is written
  at the width the code uses.
\<close>

text \<open>The error values of the package, one constructor per kind of message.\<close>

datatype cost_error =
    InvalidDecimal | DecimalOverflow | NegativeMicros
  | NegativeRateInput | RateOverflow | DivPanic | TotalOverflow
  | UnsupportedBilling | NegativeUsage | TokenRatesRequired | NegativeAdmission | OpaqueRequired
  | BadTarget | MixedTokenRates | CacheWithoutTokens | UnboundedMetered | RatesForbidden
  | UnknownNotAuthored
  | IncompleteSnapshot | NotCanonicalTarget | InvalidTokenRate | SnapshotIDMismatch
  | BadMaxRun | BadWarningRun | BadUnknownPolicy | MaxNeedsDeny | WarningAboveMax
  | SnapshotBadMax | SnapshotBadWarning | PricesUnordered | PolicyHashMismatch
  | BadPriceEvent | BadSchema | BadIdentity | BadFields | BadEstimate | BadWarningEvent
  | UnsupportedKind
  | PriceChanged | UnresolvedPrice | ReservationDisagrees | ReservationChanged
  | NoReservation | SettlementDisagrees | SettlementChanged | WarningChanged | DenialChanged
  | NoAmount | UnsupportedSource
  | ViewRunRequired | ViewInvalid

definition microsPerUSD :: int where "microsPerUSD = 1000000"

section \<open>Parsing and printing\<close>

definition decimalDigits :: "string \<Rightarrow> bool" where
  "decimalDigits s = list_all is_digit s"

text \<open>The loop that scales a fraction of fewer than six digits.\<close>

fun scale10 :: "nat \<Rightarrow> int \<Rightarrow> int" where
  "scale10 0 f = f"
| "scale10 (Suc n) f = scale10 n (u64 (f * 10))"

definition ParseUSDMicros :: "string \<Rightarrow> cost_error + int" where
  "ParseUSDMicros value =
     (if value = [] \<or> TrimSpace value \<noteq> value then Inl InvalidDecimal
      else case Cut CHR ''.'' value of (wholeText, fractionText, hasFraction) \<Rightarrow>
        if wholeText = [] \<or> (1 < length wholeText \<and> wholeText ! 0 = CHR ''0'') \<or>
           \<not> decimalDigits wholeText then Inl InvalidDecimal
        else if hasFraction \<and>
                (fractionText = [] \<or> 6 < length fractionText \<or> \<not> decimalDigits fractionText)
          then Inl InvalidDecimal
        else case ParseUint64 wholeText of None \<Rightarrow> Inl DecimalOverflow
        | Some whole \<Rightarrow>
            if whole > MaxInt64 div microsPerUSD then Inl DecimalOverflow
            else (case (if hasFraction
                        then (case ParseUint64 fractionText of None \<Rightarrow> Inl InvalidDecimal
                              | Some f \<Rightarrow> Inr (scale10 (6 - length fractionText) f))
                        else Inr 0) of
                    Inl e \<Rightarrow> Inl e
                  | Inr fraction \<Rightarrow>
                      let micros = u64 (u64 (whole * microsPerUSD) + fraction)
                      in if micros > MaxInt64 then Inl DecimalOverflow else Inr (i64 micros)))"

definition FormatUSDMicros :: "int \<Rightarrow> cost_error + string" where
  "FormatUSDMicros micros =
     (if micros < 0 then Inl NegativeMicros
      else Inr (dec (nat (micros div microsPerUSD)) @ ''.'' @ pad6 (nat (micros mod microsPerUSD))))"

section \<open>Rates and sums\<close>

text \<open>\<open>bits.Mul64\<close> and \<open>bits.Div64\<close>; the latter panics on a quotient that does not fit.\<close>

definition Mul64 :: "int \<Rightarrow> int \<Rightarrow> int \<times> int" where
  "Mul64 x y = ((x * y) div 18446744073709551616, u64 (x * y))"

definition Div64 :: "int \<Rightarrow> int \<Rightarrow> int \<Rightarrow> (int \<times> int) option" where
  "Div64 hi lo y =
     (if y = 0 \<or> y \<le> hi then None
      else Some ((hi * 18446744073709551616 + lo) div y, (hi * 18446744073709551616 + lo) mod y))"

definition TokenRateMicros :: "int \<Rightarrow> int \<Rightarrow> cost_error + int" where
  "TokenRateMicros tokens rate =
     (if tokens < 0 \<or> rate < 0 then Inl NegativeRateInput
      else if tokens = 0 \<or> rate = 0 then Inr 0
      else
        let wholeTokens = u64 (tokens div microsPerUSD);
            remainderTokens = u64 (tokens mod microsPerUSD)
        in if wholeTokens > MaxInt64 div rate then Inl RateOverflow
           else
             let wholeCost = u64 (wholeTokens * rate);
                 (high, low) = Mul64 remainderTokens rate
             in case Div64 high low microsPerUSD of
                  None \<Rightarrow> Inl DivPanic
                | Some (q, r) \<Rightarrow>
                    let fractionCost = (if r \<noteq> 0 then u64 (q + 1) else q)
                    in if wholeCost > u64 (MaxInt64 - fractionCost) then Inl RateOverflow
                       else Inr (i64 (u64 (wholeCost + fractionCost))))"

fun addMicros_from :: "int \<Rightarrow> int list \<Rightarrow> cost_error + int" where
  "addMicros_from acc [] = Inr acc"
| "addMicros_from acc (v # vs) =
     (if v < 0 \<or> acc > i64 (MaxInt64 - v) then Inl TotalOverflow
      else addMicros_from (i64 (acc + v)) vs)"

definition addMicros :: "int list \<Rightarrow> cost_error + int" where
  "addMicros values = addMicros_from 0 values"

section \<open>What addition returns\<close>

text \<open>Amounts the ledger can hold: non-negative and within \<open>int64\<close>.\<close>

definition amount :: "int \<Rightarrow> bool" where
  "amount x \<longleftrightarrow> 0 \<le> x \<and> x \<le> MaxInt64"

lemma amount_int64: "amount x \<Longrightarrow> is_int64 x"
  by (simp add: amount_def is_int64_def MinInt64_def)

lemma amount_zero [simp]: "amount 0"
  by (simp add: amount_def)

lemma i64_room: "amount v \<Longrightarrow> i64 (MaxInt64 - v) = MaxInt64 - v"
  by (rule i64_id) (simp add: amount_def is_int64_def MinInt64_def MaxInt64_def)

lemma addMicros_from_eq:
  assumes "amount t" "list_all is_int64 vs"
  shows "addMicros_from t vs =
           (if (\<forall>v \<in> set vs. 0 \<le> v) \<and> t + sum_list vs \<le> MaxInt64
            then Inr (t + sum_list vs) else Inl TotalOverflow)"
  using assms
proof (induction vs arbitrary: t)
  case (Cons v vs)
  show ?case
  proof (cases "0 \<le> v \<and> t + v \<le> MaxInt64")
    case True
    with Cons.prems have am: "amount v" "amount (t + v)"
      by (auto simp: amount_def)
    then have "addMicros_from t (v # vs) = addMicros_from (t + v) vs"
      using True Cons.prems(1) by (simp add: i64_room i64_id amount_int64)
    also have "\<dots> = (if (\<forall>w \<in> set vs. 0 \<le> w) \<and> t + v + sum_list vs \<le> MaxInt64
                     then Inr (t + v + sum_list vs) else Inl TotalOverflow)"
      using Cons.IH [OF am(2)] Cons.prems(2) by simp
    finally show ?thesis using True by (simp add: add.assoc)
  next
    case False
    then have err: "addMicros_from t (v # vs) = Inl TotalOverflow"
      using Cons.prems by (auto simp: i64_room amount_def is_int64_def)
    have "0 \<le> v \<Longrightarrow> (\<forall>w \<in> set vs. 0 \<le> w) \<Longrightarrow> \<not> t + (v + sum_list vs) \<le> MaxInt64"
      using False sum_list_nonneg_int [of vs] by auto
    with err show ?thesis by auto
  qed
qed (simp add: amount_def)

lemma addMicros_eq:
  "list_all is_int64 vs \<Longrightarrow>
   addMicros vs = (if (\<forall>v \<in> set vs. 0 \<le> v) \<and> sum_list vs \<le> MaxInt64
                   then Inr (sum_list vs) else Inl TotalOverflow)"
  by (simp add: addMicros_def addMicros_from_eq)

lemma addMicros_amounts:
  assumes "list_all amount vs"
  shows "addMicros vs = (if sum_list vs \<le> MaxInt64 then Inr (sum_list vs) else Inl TotalOverflow)"
proof -
  from assms have "list_all is_int64 vs" "\<forall>v \<in> set vs. 0 \<le> v"
    by (auto simp: list_all_iff amount_int64 amount_def)
  then show ?thesis by (simp add: addMicros_eq)
qed

section \<open>What a rate costs\<close>

text \<open>\<open>tokens * rate / 1,000,000\<close>, rounded up, without bounds.\<close>

definition rate_cost :: "int \<Rightarrow> int \<Rightarrow> int" where
  "rate_cost t r = (t * r + 999999) div 1000000"

lemma rate_cost_nonneg: "0 \<le> t \<Longrightarrow> 0 \<le> r \<Longrightarrow> 0 \<le> rate_cost t r"
  unfolding rate_cost_def by (intro div_int_pos_iff [THEN iffD2]) auto

lemma rate_cost_mono:
  "0 \<le> t \<Longrightarrow> t \<le> t' \<Longrightarrow> 0 \<le> r \<Longrightarrow> r \<le> r' \<Longrightarrow> rate_cost t r \<le> rate_cost t' r'"
  unfolding rate_cost_def by (intro zdiv_mono1 add_right_mono mult_mono) auto

lemma ceil_million:
  "(1000000 * k + x + 999999) div 1000000 =
     (k :: int) + (x div 1000000 + (if x mod 1000000 = 0 then 0 else 1))"
proof -
  define m where "m = x mod 1000000"
  define d where "d = x div 1000000"
  have m: "0 \<le> m" "m < 1000000" by (simp_all add: m_def)
  have x: "x = 1000000 * d + m" by (simp add: m_def d_def)
  have "(1000000 * k + x + 999999) div 1000000 = k + (d + (if m = 0 then 0 else 1))"
  proof (cases "m = 0")
    case True
    with x have "1000000 * k + x + 999999 = 1000000 * (k + d) + 999999" by simp
    then have "(1000000 * k + x + 999999) div 1000000 = k + d"
      by (rule int_div_pos_eq) simp_all
    with True show ?thesis by simp
  next
    case False
    from x have "1000000 * k + x + 999999 = 1000000 * (k + d + 1) + (m - 1)" by simp
    then have "(1000000 * k + x + 999999) div 1000000 = k + d + 1"
      by (rule int_div_pos_eq) (use m False in simp_all)
    with False show ?thesis by simp
  qed
  then show ?thesis by (simp only: m_def d_def)
qed

lemma rate_cost_split:
  "rate_cost t r =
     t div 1000000 * r + (t mod 1000000 * r div 1000000
       + (if t mod 1000000 * r mod 1000000 = 0 then 0 else 1))"
proof -
  have "t * r = 1000000 * (t div 1000000 * r) + t mod 1000000 * r"
    by (metis mult_div_mod_eq distrib_right mult.assoc)
  then show ?thesis
    unfolding rate_cost_def by (simp only: ceil_million)
qed

lemma mult_bound_iff: "0 < r \<Longrightarrow> (w :: int) \<le> M div r \<longleftrightarrow> w * r \<le> M"
proof
  assume "0 < r" "w \<le> M div r"
  then have "w * r \<le> M div r * r" by (simp add: mult_right_mono)
  also have "\<dots> \<le> M"
    using \<open>0 < r\<close> by (metis div_mult_mod_eq le_add_same_cancel1 pos_mod_sign)
  finally show "w * r \<le> M" .
next
  assume "0 < r" "w * r \<le> M"
  then show "w \<le> M div r"
    by (metis nonzero_mult_div_cancel_right order_less_irrefl zdiv_mono1)
qed

lemma Div64_Mul64:
  assumes "0 \<le> x" "x < 1000000" "0 \<le> r" "r \<le> MaxInt64"
  shows "(case Mul64 x r of (h, l) \<Rightarrow> Div64 h l microsPerUSD) =
           Some (x * r div 1000000, x * r mod 1000000)"
proof -
  have "x * r \<le> 1000000 * MaxInt64" using assms by (intro mult_mono) auto
  then have "x * r div 18446744073709551616 < 1000000"
    by (simp add: MaxInt64_def)
  moreover have "x * r div 18446744073709551616 * 18446744073709551616 + x * r mod 18446744073709551616
                   = x * r"
    by simp
  ultimately show ?thesis
    by (simp add: Mul64_def Div64_def microsPerUSD_def u64_def)
qed

lemma TokenRateMicros_eq:
  assumes "amount t" "amount r"
  shows "TokenRateMicros t r =
           (if rate_cost t r \<le> MaxInt64 then Inr (rate_cost t r) else Inl RateOverflow)"
proof (cases "t = 0 \<or> r = 0")
  case True
  then show ?thesis using assms by (auto simp: TokenRateMicros_def rate_cost_def amount_def)
next
  case False
  with assms have pos: "0 < t" "0 < r" and max: "t \<le> MaxInt64" "r \<le> MaxInt64"
    by (auto simp: amount_def)
  define w where "w = t div 1000000"
  define m where "m = t mod 1000000"
  define f where "f = m * r div 1000000 + (if m * r mod 1000000 = 0 then 0 else 1)"
  have m: "0 \<le> m" "m < 1000000" by (simp_all add: m_def)
  have w: "0 \<le> w" "w \<le> MaxInt64"
    using pos max by (simp_all add: w_def MaxInt64_def)
  have mr: "m * r div 1000000 \<le> r"
  proof -
    have "m * r \<le> 1000000 * r" using m pos by (intro mult_right_mono) auto
    then have "m * r div 1000000 \<le> 1000000 * r div 1000000" by (rule zdiv_mono1) simp
    then show ?thesis by simp
  qed
  have q: "0 \<le> m * r div 1000000" "m * r div 1000000 \<le> MaxInt64" "0 \<le> f"
    using m pos mr max by (auto simp: f_def div_int_pos_iff intro!: add_nonneg_nonneg)
  have f: "f \<le> MaxInt64"
  proof -
    have "m * r \<le> 999999 * MaxInt64" using m pos max by (intro mult_mono) auto
    then have "m * r div 1000000 < MaxInt64" by (simp add: MaxInt64_def)
    then show ?thesis by (simp add: f_def)
  qed
  have cost: "rate_cost t r = w * r + f"
    using rate_cost_split [of t r] by (simp add: w_def m_def f_def)
  have u: "u64 w = w" "u64 m = m"
    using w m by (simp_all add: MaxInt64_def)
  show ?thesis
  proof (cases "w * r \<le> MaxInt64")
    case False
    then have "MaxInt64 div r < w" using mult_bound_iff pos by (metis linorder_not_le)
    with pos u False q(3) show ?thesis
      by (simp add: TokenRateMicros_def microsPerUSD_def w_def [symmetric] m_def [symmetric] cost)
  next
    case True
    then have nb: "\<not> MaxInt64 div r < w" using mult_bound_iff pos by (metis linorder_not_le)
    have wr: "0 \<le> w * r" "u64 (w * r) = w * r"
      using True w pos by (simp_all add: MaxInt64_def)
    have uf: "(if m * r mod 1000000 \<noteq> 0 then u64 (m * r div 1000000 + 1) else m * r div 1000000) = f"
      using q f by (auto simp: f_def MaxInt64_def)
    have room: "u64 (MaxInt64 - f) = MaxInt64 - f"
      using q f by (simp add: MaxInt64_def)
    have sum: "w * r + f \<le> MaxInt64 \<Longrightarrow> i64 (u64 (w * r + f)) = w * r + f"
      using wr q by (simp add: i64_id is_int64_def MinInt64_def MaxInt64_def)
    have div: "(case Mul64 m r of (h, l) \<Rightarrow> Div64 h l microsPerUSD) =
                 Some (m * r div 1000000, m * r mod 1000000)"
      using Div64_Mul64 m pos max by simp
    have "TokenRateMicros t r =
        (if w * r > MaxInt64 - f then Inl RateOverflow else Inr (i64 (u64 (w * r + f))))"
    proof -
      obtain h l where hl: "Mul64 m r = (h, l)" by fastforce
      with div have "Div64 h l 1000000 = Some (m * r div 1000000, m * r mod 1000000)"
        by (simp add: microsPerUSD_def)
      with hl pos u nb wr room show ?thesis
        unfolding TokenRateMicros_def microsPerUSD_def w_def [symmetric] m_def [symmetric]
        by (simp only: Let_def uf prod.case option.case refl if_False if_True split: if_split) auto
    qed
    then show ?thesis using cost sum by auto
  qed
qed

section \<open>Properties\<close>

text \<open>
  The price of \<open>t\<close> tokens at \<open>r\<close> micro-dollars per million is exactly \<open>t * r / 1,000,000\<close>
  rounded up, whenever that fits an \<open>int64\<close>; otherwise the function reports an overflow, and it
  rejects negative inputs. In particular no intermediate product wraps around and
  \<open>bits.Div64\<close> never panics.
\<close>

theorem token_rate_exact:
  assumes "is_int64 t" "is_int64 r"
  shows "TokenRateMicros t r =
           (if t < 0 \<or> r < 0 then Inl NegativeRateInput
            else if (t * r + 999999) div 1000000 \<le> MaxInt64
            then Inr ((t * r + 999999) div 1000000) else Inl RateOverflow)"
proof (cases "t < 0 \<or> r < 0")
  case True
  then show ?thesis by (simp add: TokenRateMicros_def)
next
  case False
  with assms have "amount t" "amount r" by (auto simp: amount_def is_int64_def)
  with False show ?thesis by (simp add: TokenRateMicros_eq rate_cost_def)
qed

theorem token_rate_exact_witness:
  "TokenRateMicros 1500000 3 = Inr 5 \<and>
   TokenRateMicros 9223372036854775807 2000000 = Inl RateOverflow"
  using token_rate_exact [of 1500000 3] token_rate_exact [of 9223372036854775807 2000000]
  by (simp add: is_int64_def MinInt64_def MaxInt64_def)

text \<open>Strings that begin and end with a digit are left alone by \<open>TrimSpace\<close>.\<close>

lemma digit_no_space: "is_digit c \<Longrightarrow> leading_space encs (c # s) = None"
  by (auto simp: leading_space_def ascii_spaces_def is_digit_def)

lemma trim_with_none: "leading_space encs s = None \<Longrightarrow> trim_with n encs s = s"
  by (cases n) simp_all

lemma TrimSpace_digits:
  assumes "s \<noteq> []" "is_digit (hd s)" "is_digit (last s)"
  shows "TrimSpace s = s"
proof -
  have left: "TrimLeft s = s"
    using assms(1,2) by (cases s) (simp_all add: TrimLeft_def trim_with_none digit_no_space)
  have "leading_space encs (rev s) = None" for encs
    using assms(1,3) by (cases "rev s") (auto simp: hd_rev [symmetric] intro: digit_no_space)
  then show ?thesis
    by (simp add: TrimSpace_def left TrimRight_def trim_with_none)
qed

lemma list_all_digit_set: "list_all is_digit s \<Longrightarrow> CHR ''.'' \<notin> set s"
  by (auto simp: list_all_iff dest: digit_not_dot)

lemma ParseUint64_dec: "int n < 18446744073709551616 \<Longrightarrow> ParseUint64 (dec n) = Some (int n)"
  by (simp add: ParseUint64_def dec_digits)

lemma ParseUint64_pad6: "n < 1000000 \<Longrightarrow> ParseUint64 (pad6 n) = Some (int n)"
  using pad6_digits [of n] by (auto simp: ParseUint64_def dec_val_pad6)

text \<open>
  Every amount the ledger can hold survives printing and parsing: \<open>ParseUSDMicros\<close> reads back
  exactly what \<open>FormatUSDMicros\<close> wrote.
\<close>

theorem usd_roundtrip:
  assumes "0 \<le> m" "m \<le> MaxInt64"
  shows "bindR (FormatUSDMicros m) ParseUSDMicros = Inr m"
proof -
  define w where "w = nat (m div 1000000)"
  define f where "f = nat (m mod 1000000)"
  have f: "f < 1000000" "int f = m mod 1000000" by (simp_all add: f_def nat_less_iff)
  have w: "int w = m div 1000000" "int w \<le> MaxInt64 div 1000000"
    using assms by (simp_all add: w_def div_int_pos_iff zdiv_mono1)
  let ?s = "dec w @ CHR ''.'' # pad6 f"
  have fmt: "FormatUSDMicros m = Inr ?s"
    using assms by (simp add: FormatUSDMicros_def microsPerUSD_def w_def f_def)
  have cut: "Cut CHR ''.'' ?s = (dec w, pad6 f, True)"
    using dec_digits list_all_digit_set by (intro Cut_append) blast
  have hd: "is_digit (hd ?s)"
    using dec_digits [of w] by (cases "dec w") auto
  have last: "is_digit (last ?s)"
    by (simp add: pad6_def)
  have trim: "TrimSpace ?s = ?s"
    by (rule TrimSpace_digits) (use hd last in auto)
  have zero: "1 < length (dec w) \<Longrightarrow> dec w ! 0 \<noteq> CHR ''0''"
    using dec_no_leading_zero [of w] by (simp add: hd_conv_nth)
  have len: "pad6 f \<noteq> []" using pad6_digits(2) [of f] by auto
  have uw: "ParseUint64 (dec w) = Some (int w)"
    using w(2) by (intro ParseUint64_dec) (simp add: MaxInt64_def)
  have prod: "u64 (int w * 1000000) = int w * 1000000"
    using w(2) by (intro u64_id) (simp_all add: MaxInt64_def)
  have sum: "int w * 1000000 + int f = m"
    using w(1) f(2) by (simp add: mult.commute)
  have "u64 m = m" "i64 m = m"
    using assms by (simp_all add: i64_id is_int64_def MinInt64_def MaxInt64_def)
  then have "ParseUSDMicros ?s = Inr m"
    unfolding ParseUSDMicros_def trim cut
    using zero len uw w(2) prod sum assms f(1)
    by (simp add: decimalDigits_def dec_digits pad6_digits ParseUint64_pad6 microsPerUSD_def)
  with fmt show ?thesis by simp
qed

theorem usd_roundtrip_witness:
  "(0 :: int) \<le> 1234567 \<and> bindR (FormatUSDMicros 1234567) ParseUSDMicros = Inr 1234567"
  using usd_roundtrip [of 1234567] by (simp add: MaxInt64_def)

end
