(* ===== verification/Cost_Calculate.thy ===== *)
theory Cost_Calculate
  imports Cost_Money
begin

text \<open>
  \<open>internal/cost/types.go\<close> and \<open>internal/cost/calculate.go\<close>: billing modes, price snapshots, and
  the two estimates of an invocation, the bound reserved before it runs and the cost of the usage
  it reported. Go's string enums carry any text; the constructors \<open>BillingOther\<close> and
  \<open>SourceOther\<close> stand for the values the code's \<open>default\<close> branches handle.
\<close>

section \<open>Data\<close>

datatype billing_mode =
    BillingMetered | BillingLocal | BillingSubscription | BillingUnknown | BillingOther string

datatype estimate_source =
    EstimateUsage | EstimateAdmissionBound | EstimateNotMetered | EstimateSubscription
  | EstimateUnknown | SourceOther string

record token_usage =
  InputTokens :: int
  CacheReadTokens :: int
  CacheCreationTokens :: int
  OutputTokens :: int
  TotalTokens :: int

record price_snapshot =
  ps_id :: string
  ps_target :: string
  ps_mode :: billing_mode
  ps_input :: "int option"
  ps_cache_read :: "int option"
  ps_cache_write :: "int option"
  ps_output :: "int option"
  ps_opaque :: "int option"
  ps_catalog :: string

record estimate =
  est_micros :: "int option"
  est_source :: estimate_source
  est_mode :: billing_mode

text \<open>The zero value \<open>TokenUsage{}\<close>.\<close>

definition no_usage :: token_usage where
  "no_usage = \<lparr>InputTokens = 0, CacheReadTokens = 0, CacheCreationTokens = 0,
               OutputTokens = 0, TotalTokens = 0\<rparr>"

text \<open>The range the type \<open>*int64\<close> gives the fields of a snapshot.\<close>

definition price_int64 :: "price_snapshot \<Rightarrow> bool" where
  "price_int64 p \<longleftrightarrow>
     list_all (\<lambda>f. case f of None \<Rightarrow> True | Some v \<Rightarrow> is_int64 v)
       [ps_input p, ps_cache_read p, ps_cache_write p, ps_output p, ps_opaque p]"

section \<open>Estimates\<close>

definition hasTokenPrice :: "price_snapshot \<Rightarrow> bool" where
  "hasTokenPrice p \<longleftrightarrow> ps_input p \<noteq> None \<and> ps_cache_read p \<noteq> None \<and>
                       ps_cache_write p \<noteq> None \<and> ps_output p \<noteq> None"

definition validateUsage :: "token_usage \<Rightarrow> cost_error + unit" where
  "validateUsage u =
     (if InputTokens u < 0 \<or> CacheReadTokens u < 0 \<or> CacheCreationTokens u < 0 \<or>
         OutputTokens u < 0 \<or> TotalTokens u < 0 then Inl NegativeUsage else Inr ())"

definition EstimateOpaqueBound :: "price_snapshot \<Rightarrow> cost_error + estimate" where
  "EstimateOpaqueBound p =
     (case ps_opaque p of
        None \<Rightarrow> Inl OpaqueRequired
      | Some v \<Rightarrow>
          if ps_mode p \<noteq> BillingMetered then Inl OpaqueRequired
          else Inr \<lparr>est_micros = Some v, est_source = EstimateAdmissionBound, est_mode = BillingMetered\<rparr>)"

definition metered_usage :: "price_snapshot \<Rightarrow> token_usage \<Rightarrow> cost_error + estimate" where
  "metered_usage p u =
     bindR (TokenRateMicros (InputTokens u) (the (ps_input p))) (\<lambda>input.
     bindR (TokenRateMicros (CacheReadTokens u) (the (ps_cache_read p))) (\<lambda>cacheRead.
     bindR (TokenRateMicros (CacheCreationTokens u) (the (ps_cache_write p))) (\<lambda>cacheWrite.
     bindR (TokenRateMicros (OutputTokens u) (the (ps_output p))) (\<lambda>output.
     bindR (addMicros [input, cacheRead, cacheWrite, output]) (\<lambda>t.
       Inr \<lparr>est_micros = Some t, est_source = EstimateUsage, est_mode = BillingMetered\<rparr>)))))"

definition EstimateUsageCost :: "price_snapshot \<Rightarrow> token_usage \<Rightarrow> cost_error + estimate" where
  "EstimateUsageCost p u =
     bindR (validateUsage u) (\<lambda>_.
       case ps_mode p of
         BillingLocal \<Rightarrow>
           Inr \<lparr>est_micros = None, est_source = EstimateNotMetered, est_mode = BillingLocal\<rparr>
       | BillingSubscription \<Rightarrow>
           Inr \<lparr>est_micros = None, est_source = EstimateSubscription, est_mode = BillingSubscription\<rparr>
       | BillingUnknown \<Rightarrow>
           Inr \<lparr>est_micros = None, est_source = EstimateUnknown, est_mode = BillingUnknown\<rparr>
       | BillingOther _ \<Rightarrow> Inl UnsupportedBilling
       | BillingMetered \<Rightarrow>
           if \<not> hasTokenPrice p then EstimateOpaqueBound p else metered_usage p u)"

definition EstimateTokenAdmissionBound ::
  "price_snapshot \<Rightarrow> int \<Rightarrow> int \<Rightarrow> cost_error + estimate" where
  "EstimateTokenAdmissionBound p inputTokens maxOutputTokens =
     (if ps_mode p \<noteq> BillingMetered \<or> \<not> hasTokenPrice p then Inl TokenRatesRequired
      else if inputTokens < 0 \<or> maxOutputTokens < 0 then Inl NegativeAdmission
      else
        let inputRate = max (max (the (ps_input p)) (the (ps_cache_read p))) (the (ps_cache_write p))
        in bindR (TokenRateMicros inputTokens inputRate) (\<lambda>input.
           bindR (TokenRateMicros maxOutputTokens (the (ps_output p))) (\<lambda>output.
           bindR (addMicros [input, output]) (\<lambda>t.
             Inr \<lparr>est_micros = Some t, est_source = EstimateAdmissionBound,
                   est_mode = BillingMetered\<rparr>))))"

definition EstimateAdmission :: "price_snapshot \<Rightarrow> int \<Rightarrow> int \<Rightarrow> cost_error + estimate" where
  "EstimateAdmission p inputTokens maxOutputTokens =
     (case ps_mode p of
        BillingMetered \<Rightarrow>
          if hasTokenPrice p then EstimateTokenAdmissionBound p inputTokens maxOutputTokens
          else EstimateOpaqueBound p
      | BillingOther _ \<Rightarrow> Inl UnsupportedBilling
      | _ \<Rightarrow> EstimateUsageCost p no_usage)"

section \<open>Closed forms\<close>

definition usage_int64 :: "token_usage \<Rightarrow> bool" where
  "usage_int64 u \<longleftrightarrow> is_int64 (InputTokens u) \<and> is_int64 (CacheReadTokens u) \<and>
     is_int64 (CacheCreationTokens u) \<and> is_int64 (OutputTokens u) \<and> is_int64 (TotalTokens u)"

definition rates_ok :: "price_snapshot \<Rightarrow> bool" where
  "rates_ok p \<longleftrightarrow> ps_mode p = BillingMetered \<and> hasTokenPrice p \<and>
     amount (the (ps_input p)) \<and> amount (the (ps_cache_read p)) \<and>
     amount (the (ps_cache_write p)) \<and> amount (the (ps_output p))"

definition usage_total :: "price_snapshot \<Rightarrow> token_usage \<Rightarrow> int" where
  "usage_total p u =
     rate_cost (InputTokens u) (the (ps_input p)) + rate_cost (CacheReadTokens u) (the (ps_cache_read p)) +
     rate_cost (CacheCreationTokens u) (the (ps_cache_write p)) + rate_cost (OutputTokens u) (the (ps_output p))"

definition bound_total :: "price_snapshot \<Rightarrow> int \<Rightarrow> int \<Rightarrow> int" where
  "bound_total p i out =
     rate_cost i (max (max (the (ps_input p)) (the (ps_cache_read p))) (the (ps_cache_write p))) +
     rate_cost out (the (ps_output p))"

lemma rate_InrD:
  assumes "amount t" "amount r" "TokenRateMicros t r = Inr c"
  shows "c = rate_cost t r \<and> amount c"
  using assms rate_cost_nonneg [of t r]
  by (auto simp: TokenRateMicros_eq amount_def split: if_splits)

lemma usage_amounts:
  "validateUsage u = Inr () \<Longrightarrow> usage_int64 u \<Longrightarrow>
   amount (InputTokens u) \<and> amount (CacheReadTokens u) \<and> amount (CacheCreationTokens u) \<and>
   amount (OutputTokens u)"
  by (auto simp: validateUsage_def usage_int64_def amount_def is_int64_def split: if_splits)

lemma usage_cost_closed:
  assumes "rates_ok p" "usage_int64 u" "EstimateUsageCost p u = Inr e"
  shows "est_micros e = Some (usage_total p u)" "est_source e = EstimateUsage" "amount (usage_total p u)"
proof -
  from assms have v: "validateUsage u = Inr ()" and m: "metered_usage p u = Inr e"
    by (auto simp: EstimateUsageCost_def rates_ok_def bindR_eq_Inr)
  note am = usage_amounts [OF v assms(2)]
  from m obtain a b c d t where
    parts: "TokenRateMicros (InputTokens u) (the (ps_input p)) = Inr a"
    "TokenRateMicros (CacheReadTokens u) (the (ps_cache_read p)) = Inr b"
    "TokenRateMicros (CacheCreationTokens u) (the (ps_cache_write p)) = Inr c"
    "TokenRateMicros (OutputTokens u) (the (ps_output p)) = Inr d"
    and add: "addMicros [a, b, c, d] = Inr t"
    and e: "e = \<lparr>est_micros = Some t, est_source = EstimateUsage, est_mode = BillingMetered\<rparr>"
    unfolding metered_usage_def by (elim bindR_InrE) simp
  have rates: "amount (the (ps_input p))" "amount (the (ps_cache_read p))"
    "amount (the (ps_cache_write p))" "amount (the (ps_output p))"
    using assms(1) by (simp_all add: rates_ok_def)
  note costs = rate_InrD [OF conjunct1 [OF am] rates(1) parts(1)]
    rate_InrD [OF conjunct1 [OF conjunct2 [OF am]] rates(2) parts(2)]
    rate_InrD [OF conjunct1 [OF conjunct2 [OF conjunct2 [OF am]]] rates(3) parts(3)]
    rate_InrD [OF conjunct2 [OF conjunct2 [OF conjunct2 [OF am]]] rates(4) parts(4)]
  from costs have eq: "a + b + c + d = usage_total p u"
    by (simp add: usage_total_def)
  from costs have "list_all amount [a, b, c, d]"
    by simp blast
  then have "t = a + b + c + d" "amount t"
    using add by (auto simp: addMicros_amounts amount_def split: if_splits)
  with eq e show "est_micros e = Some (usage_total p u)" "est_source e = EstimateUsage"
      "amount (usage_total p u)"
    by simp_all
qed

lemma bound_closed:
  assumes "rates_ok p" "is_int64 i" "is_int64 out" "EstimateTokenAdmissionBound p i out = Inr e"
  shows "est_micros e = Some (bound_total p i out)" "est_source e = EstimateAdmissionBound"
    "amount (bound_total p i out)" "0 \<le> i" "0 \<le> out"
proof -
  let ?r = "max (max (the (ps_input p)) (the (ps_cache_read p))) (the (ps_cache_write p))"
  from assms obtain a b t where nn: "0 \<le> i" "0 \<le> out"
    and ab: "TokenRateMicros i ?r = Inr a" "TokenRateMicros out (the (ps_output p)) = Inr b"
    and add: "addMicros [a, b] = Inr t"
    and e: "e = \<lparr>est_micros = Some t, est_source = EstimateAdmissionBound, est_mode = BillingMetered\<rparr>"
    by (auto simp: EstimateTokenAdmissionBound_def rates_ok_def Let_def bindR_eq_Inr split: if_splits)
  have am: "amount i" "amount out" "amount ?r" "amount (the (ps_output p))"
    using nn assms(1-3) by (auto simp: amount_def is_int64_def rates_ok_def max_def)
  have "a + b = bound_total p i out" "list_all amount [a, b]"
    using rate_InrD [OF am(1,3) ab(1)] rate_InrD [OF am(2,4) ab(2)] by (auto simp: bound_total_def)
  then have "t = bound_total p i out" "amount t"
    using add by (auto simp: addMicros_amounts amount_def split: if_splits)
  with e nn show "est_micros e = Some (bound_total p i out)" "est_source e = EstimateAdmissionBound"
    "amount (bound_total p i out)" "0 \<le> i" "0 \<le> out"
    by simp_all
qed

text \<open>Rounding three parts up separately loses at most two against rounding their sum.\<close>

lemma three_parts:
  assumes "0 \<le> a" "0 \<le> b" "0 \<le> c" "a + b + c \<le> i" "0 \<le> ra" "0 \<le> rb" "0 \<le> rc"
    "ra \<le> r" "rb \<le> r" "rc \<le> r"
  shows "rate_cost a ra + rate_cost b rb + rate_cost c rc \<le> rate_cost i r + 2"
proof -
  have r: "0 \<le> r" using assms by simp
  have ceil: "1000000 * rate_cost t s \<le> t * s + 999999 \<and> t * s \<le> 1000000 * rate_cost t s" for t s
  proof -
    define x where "x = t * s + 999999"
    have "1000000 * (x div 1000000) + x mod 1000000 = x" "0 \<le> x mod 1000000" "x mod 1000000 < 1000000"
      by simp_all
    then show ?thesis unfolding rate_cost_def x_def [symmetric] by (auto simp: x_def)
  qed
  have "a * ra \<le> a * r" "b * rb \<le> b * r" "c * rc \<le> c * r"
    using assms by (auto intro: mult_left_mono)
  moreover have "a * r + b * r + c * r \<le> i * r"
    using assms(4) r by (metis distrib_right mult_right_mono)
  ultimately have "a * ra + b * rb + c * rc \<le> i * r" by linarith
  then show ?thesis
    using ceil [of a ra] ceil [of b rb] ceil [of c rc] ceil [of i r] by linarith
qed

section \<open>Properties\<close>

text \<open>
  The cost of reported usage never exceeds the admission bound by more than two
  micro-dollars, when the reported prompt tokens (plain, cache-read and cache-written together)
  and output tokens stay within the reserved counts. The slack is the rounding of the three
  prompt parts, and the witness shows that it is attained: the bound is not quite conservative.
\<close>

theorem usage_within_admission:
  assumes "rates_ok p" "usage_int64 u" "is_int64 i" "is_int64 out"
    and "InputTokens u + CacheReadTokens u + CacheCreationTokens u \<le> i" "OutputTokens u \<le> out"
    and "EstimateAdmission p i out = Inr bound" "EstimateUsageCost p u = Inr actual"
  shows "the (est_micros actual) \<le> the (est_micros bound) + 2"
proof -
  from assms(1,7) have b: "EstimateTokenAdmissionBound p i out = Inr bound"
    by (simp add: EstimateAdmission_def rates_ok_def)
  have v: "validateUsage u = Inr ()"
    using assms(8) by (auto simp: EstimateUsageCost_def bindR_eq_Inr)
  note am = usage_amounts [OF v assms(2)]
  have "usage_total p u \<le> bound_total p i out + 2"
  proof -
    let ?r = "max (max (the (ps_input p)) (the (ps_cache_read p))) (the (ps_cache_write p))"
    have nn: "0 \<le> InputTokens u" "0 \<le> CacheReadTokens u" "0 \<le> CacheCreationTokens u"
      "0 \<le> OutputTokens u" "0 \<le> the (ps_input p)" "0 \<le> the (ps_cache_read p)"
      "0 \<le> the (ps_cache_write p)" "0 \<le> the (ps_output p)"
      using am assms(1) by (simp_all add: amount_def rates_ok_def)
    have le: "the (ps_input p) \<le> ?r" "the (ps_cache_read p) \<le> ?r" "the (ps_cache_write p) \<le> ?r"
      by (simp_all add: le_max_iff_disj)
    show ?thesis
      unfolding usage_total_def bound_total_def
      using three_parts [OF nn(1-3) assms(5) nn(5-7) le]
        rate_cost_mono [OF nn(4) assms(6) nn(8) order_refl]
      by linarith
  qed
  then show ?thesis
    using usage_cost_closed [OF assms(1,2,8)] bound_closed [OF assms(1,3,4) b] by simp
qed

definition micro_price :: price_snapshot where
  "micro_price = \<lparr>ps_id = ''p'', ps_target = ''a/b'', ps_mode = BillingMetered, ps_input = Some 1,
     ps_cache_read = Some 1, ps_cache_write = Some 1, ps_output = Some 1, ps_opaque = None,
     ps_catalog = ''c''\<rparr>"

theorem usage_within_admission_witness:
  "\<exists>bound actual. EstimateAdmission micro_price 3 0 = Inr bound \<and>
     EstimateUsageCost micro_price \<lparr>InputTokens = 1, CacheReadTokens = 1, CacheCreationTokens = 1,
       OutputTokens = 0, TotalTokens = 3\<rparr> = Inr actual \<and>
     the (est_micros actual) \<le> the (est_micros bound) + 2 \<and>
     the (est_micros actual) = the (est_micros bound) + 2"
proof -
  let ?u = "\<lparr>InputTokens = 1, CacheReadTokens = 1, CacheCreationTokens = 1,
       OutputTokens = 0, TotalTokens = 3\<rparr>"
  let ?e = "\<lambda>n s. \<lparr>est_micros = Some n, est_source = s, est_mode = BillingMetered\<rparr>"
  have b: "EstimateAdmission micro_price 3 0 = Inr (?e 1 EstimateAdmissionBound)" by code_simp
  have a: "EstimateUsageCost micro_price ?u = Inr (?e 3 EstimateUsage)" by code_simp
  have "rates_ok micro_price" "usage_int64 ?u"
    by (simp_all add: rates_ok_def micro_price_def hasTokenPrice_def amount_def MaxInt64_def
        usage_int64_def is_int64_def MinInt64_def)
  then have "the (est_micros (?e 3 EstimateUsage)) \<le> the (est_micros (?e 1 EstimateAdmissionBound)) + 2"
    by (rule usage_within_admission [OF _ _ _ _ _ _ b a])
      (simp_all add: is_int64_def MinInt64_def MaxInt64_def)
  with a b show ?thesis by auto
qed

end
