(* ===== verification/Exec_Target.thy ===== *)
theory Exec_Target
  imports Go_Strings
begin

text \<open>
  \<open>internal/execution/target.go\<close>: execution selectors and targets. A selector is untrusted text,
  either a bare model or \<open>backend/model\<close>; a target is the canonical identity it resolves to.
  \<open>strings.ToLower\<close> is modelled on ASCII letters; other runes are left alone, and every backend
  name that is accepted is ASCII.
\<close>

datatype target_error =
    SelectorRequired | SelectorWhitespace | NoBackend | NoModel | InvalidBackend
  | BackendRequired | ModelRequired | InvalidModel | BackendNotCanonical

definition OllamaBackendName :: string where "OllamaBackendName = ''ollama''"
definition LegacyLocalBackendName :: string where "LegacyLocalBackendName = ''local''"

record execution_selector =
  sel_raw :: string
  sel_backend :: string
  sel_model :: string

record execution_target =
  et_backend :: string
  et_model :: string

definition ascii_lower :: "char \<Rightarrow> char" where
  "ascii_lower c = (if 65 \<le> byte_of c \<and> byte_of c \<le> 90 then char_of (byte_of c + 32) else c)"

definition ToLower :: "string \<Rightarrow> string" where
  "ToLower s = map ascii_lower s"

definition CanonicalBackendName :: "string \<Rightarrow> string" where
  "CanonicalBackendName name = ToLower (TrimSpace name)"

definition CanonicalTargetBackendName :: "string \<Rightarrow> string" where
  "CanonicalTargetBackendName name =
     (let name = CanonicalBackendName name
      in if name = LegacyLocalBackendName then OllamaBackendName else name)"

definition name_first :: "char \<Rightarrow> bool" where
  "name_first c \<longleftrightarrow> (97 \<le> byte_of c \<and> byte_of c \<le> 122) \<or> (48 \<le> byte_of c \<and> byte_of c \<le> 57)"

definition name_rest :: "char \<Rightarrow> bool" where
  "name_rest c \<longleftrightarrow> name_first c \<or> c = CHR ''.'' \<or> c = CHR ''_'' \<or> c = CHR ''-''"

text \<open>\<open>^[a-z0-9][a-z0-9._-]*$\<close>\<close>

definition backendNamePattern :: "string \<Rightarrow> bool" where
  "backendNamePattern s = (case s of [] \<Rightarrow> False | c # cs \<Rightarrow> name_first c \<and> list_all name_rest cs)"

definition ParseExecutionSelector :: "string \<Rightarrow> target_error + execution_selector" where
  "ParseExecutionSelector raw =
     (if raw = [] then Inl SelectorRequired
      else if TrimSpace raw \<noteq> raw \<or> has_space raw then Inl SelectorWhitespace
      else case Cut CHR ''/'' raw of (backend, model, qualified) \<Rightarrow>
        if \<not> qualified then Inr \<lparr>sel_raw = raw, sel_backend = [], sel_model = raw\<rparr>
        else if backend = [] then Inl NoBackend
        else if model = [] then Inl NoModel
        else let backend = CanonicalTargetBackendName backend
             in if \<not> backendNamePattern backend then Inl InvalidBackend
                else Inr \<lparr>sel_raw = raw, sel_backend = backend, sel_model = model\<rparr>)"

definition IsOllamaBackend :: "string \<Rightarrow> bool" where
  "IsOllamaBackend name =
     (let name = CanonicalBackendName name
      in name = OllamaBackendName \<or> name = LegacyLocalBackendName)"

definition BackendNamesEqual :: "string \<Rightarrow> string \<Rightarrow> bool" where
  "BackendNamesEqual l r \<longleftrightarrow> CanonicalTargetBackendName l = CanonicalTargetBackendName r"

definition TargetsEqual :: "execution_target \<Rightarrow> execution_target \<Rightarrow> bool" where
  "TargetsEqual l r \<longleftrightarrow> BackendNamesEqual (et_backend l) (et_backend r) \<and> et_model l = et_model r"

definition TargetSlicesEqual :: "execution_target list \<Rightarrow> execution_target list \<Rightarrow> bool" where
  "TargetSlicesEqual l r \<longleftrightarrow>
     (if length l \<noteq> length r then False else list_all (\<lambda>(a, b). TargetsEqual a b) (zip l r))"

definition TargetString :: "execution_target \<Rightarrow> string" where
  "TargetString t =
     (if et_backend t = [] then et_model t else et_backend t @ ''/'' @ et_model t)"

definition TargetIsZero :: "execution_target \<Rightarrow> bool" where
  "TargetIsZero t \<longleftrightarrow> et_backend t = [] \<and> et_model t = []"

definition ValidateTarget :: "execution_target \<Rightarrow> target_error + unit" where
  "ValidateTarget t =
     (if et_backend t = [] then Inl BackendRequired
      else if et_model t = [] then Inl ModelRequired
      else if TrimSpace (et_backend t) \<noteq> et_backend t \<or> \<not> backendNamePattern (et_backend t)
        then Inl InvalidBackend
      else if TrimSpace (et_model t) \<noteq> et_model t \<or> has_space (et_model t) then Inl InvalidModel
      else if CanonicalBackendName (et_backend t) \<noteq> et_backend t then Inl BackendNotCanonical
      else Inr ())"

text \<open>
  The check the cost catalog repeats: the text parses, names a backend, and is spelled the way
  the target prints.
\<close>

definition canonical_target :: "string \<Rightarrow> bool" where
  "canonical_target s =
     (case ParseExecutionSelector s of
        Inl _ \<Rightarrow> False
      | Inr sel \<Rightarrow> sel_backend sel \<noteq> [] \<and> sel_backend sel @ ''/'' @ sel_model sel = s)"

section \<open>Names and canonical forms\<close>

lemma name_first_slash: "name_first c \<Longrightarrow> c \<noteq> CHR ''/''"
  by (auto simp: name_first_def)

lemma name_first_lower: "name_first c \<Longrightarrow> ascii_lower c = c"
  by (auto simp: name_first_def ascii_lower_def)

lemma name_first_space: "name_first c \<Longrightarrow> leading_space encs (c # s) = None"
  by (auto simp: name_first_def leading_space_def ascii_spaces_def)

lemma name_rest_slash: "name_rest c \<Longrightarrow> c \<noteq> CHR ''/''"
  by (auto simp: name_rest_def dest: name_first_slash)

lemma name_rest_lower: "name_rest c \<Longrightarrow> ascii_lower c = c"
  by (auto simp: name_rest_def name_first_def ascii_lower_def)

lemma name_rest_space: "name_rest c \<Longrightarrow> leading_space encs (c # s) = None"
  by (auto simp: name_rest_def name_first_def leading_space_def ascii_spaces_def)

lemmas name_rest_chars = name_rest_slash name_rest_lower name_rest_space

lemma pattern_rest: "backendNamePattern s \<Longrightarrow> s \<noteq> [] \<and> list_all name_rest s"
  by (cases s) (auto simp: backendNamePattern_def name_rest_def list_all_iff)

lemma rest_TrimSpace: "list_all name_rest s \<Longrightarrow> TrimSpace s = s"
proof -
  assume a: "list_all name_rest s"
  then have "leading_space encs s = None" for encs
    by (cases s) (simp_all add: leading_space_def [of _ "[]"] name_rest_chars)
  moreover have "leading_space encs (rev s) = None" for encs
    using a by (cases "rev s")
      (simp_all add: leading_space_def [of _ "[]"] name_rest_chars flip: list_all_rev [of _ s])
  moreover have "leading_space encs t = None \<Longrightarrow> trim_with n encs t = t" for n encs t
    by (cases n) simp_all
  ultimately show ?thesis
    by (simp add: TrimSpace_def TrimLeft_def TrimRight_def)
qed

lemma rest_ToLower: "list_all name_rest s \<Longrightarrow> ToLower s = s"
  by (induction s) (simp_all add: ToLower_def name_rest_chars)

lemma pattern_canonical:
  assumes "backendNamePattern s" "s \<noteq> LegacyLocalBackendName"
  shows "CanonicalTargetBackendName s = s"
  using assms pattern_rest [OF assms(1)]
  by (simp add: CanonicalTargetBackendName_def CanonicalBackendName_def rest_TrimSpace rest_ToLower)

lemma CanonicalTarget_not_local: "CanonicalTargetBackendName s \<noteq> LegacyLocalBackendName"
  by (simp add: CanonicalTargetBackendName_def Let_def OllamaBackendName_def LegacyLocalBackendName_def)

lemma pattern_no_slash: "backendNamePattern s \<Longrightarrow> CHR ''/'' \<notin> set s"
  using pattern_rest [of s] by (auto simp: list_all_iff dest: name_rest_chars(1))

lemma has_space_name: "list_all name_rest b \<Longrightarrow> has_space (b @ s) = has_space s"
  by (induction b) (simp_all add: name_rest_space)

lemma slash_no_space: "has_space (CHR ''/'' # s) = has_space s"
  by (simp add: leading_space_def ascii_spaces_def)

section \<open>Properties\<close>

text \<open>
  A validated execution target survives its own printed form: parsing \<open>backend/model\<close> yields
  the same model and the canonical spelling of the same backend, which is the backend itself
  unless it is the historical \<open>local\<close>.
\<close>

theorem target_print_parse:
  assumes "ValidateTarget t = Inr ()"
  shows "\<exists>sel. ParseExecutionSelector (TargetString t) = Inr sel \<and>
               sel_model sel = et_model t \<and>
               sel_backend sel = (if et_backend t = LegacyLocalBackendName
                                  then OllamaBackendName else et_backend t)"
proof -
  let ?b = "et_backend t" and ?m = "et_model t"
  have pat: "backendNamePattern ?b" and m: "?m \<noteq> []" "\<not> has_space ?m"
    using assms by (auto simp: ValidateTarget_def split: if_splits)
  note rest = pattern_rest [OF pat]
  have str: "TargetString t = ?b @ CHR ''/'' # ?m"
    using rest by (simp add: TargetString_def)
  have nosp: "\<not> has_space (TargetString t)"
    using rest m by (simp add: str has_space_name slash_no_space del: has_space.simps)
  have cut: "Cut CHR ''/'' (TargetString t) = (?b, ?m, True)"
    unfolding str by (rule Cut_append) (rule pattern_no_slash [OF pat])
  have canon: "CanonicalTargetBackendName ?b =
                 (if ?b = LegacyLocalBackendName then OllamaBackendName else ?b)"
    using rest by (simp add: CanonicalTargetBackendName_def CanonicalBackendName_def
        rest_TrimSpace rest_ToLower)
  have "backendNamePattern (CanonicalTargetBackendName ?b)"
    using pat unfolding canon
    by (simp add: OllamaBackendName_def backendNamePattern_def name_first_def name_rest_def)
  then show ?thesis
    using nosp cut m rest canon str
    by (simp add: ParseExecutionSelector_def TrimSpace_no_space)
qed

theorem target_print_parse_witness:
  "ValidateTarget \<lparr>et_backend = ''ollama'', et_model = ''qwen3:8b''\<rparr> = Inr () \<and>
   (\<exists>sel. ParseExecutionSelector ''ollama/qwen3:8b'' = Inr sel \<and> sel_model sel = ''qwen3:8b'')"
proof -
  let ?t = "\<lparr>et_backend = ''ollama'', et_model = ''qwen3:8b''\<rparr>"
  have v: "ValidateTarget ?t = Inr ()" by code_simp
  have s: "TargetString ?t = ''ollama/qwen3:8b''" by code_simp
  show ?thesis using v target_print_parse [OF v] by (auto simp: s)
qed

end
