(* ===== verification/Cost_Catalog.thy ===== *)
theory Cost_Catalog
  imports Cost_Calculate Exec_Target
begin

text \<open>
  \<open>internal/cost/catalog.go\<close>: authored prices compiled to content-addressed snapshots. The
  identity of a snapshot is the SHA-256 of its JSON under a domain prefix; the digest function
  is the argument \<open>sha\<close> (raw digest bytes of a byte string), and no property depends on which
  function it is.
\<close>

type_synonym digest = "string \<Rightarrow> string"

section \<open>Hashing\<close>

definition hex_of :: "string \<Rightarrow> string" where
  "hex_of bs = concat (map (\<lambda>c. [hex_digit (byte_of c div 16), hex_digit (byte_of c mod 16)]) bs)"

definition hashJSON :: "digest \<Rightarrow> string \<Rightarrow> string \<Rightarrow> string" where
  "hashJSON sha domain encoded = ''sha256:'' @ hex_of (sha (domain @ encoded))"

text \<open>Each hash domain ends with a zero byte.\<close>

definition priceHashDomain :: string where
  "priceHashDomain = ''hufu-cost-price-v1'' @ [CHR 0x00]"

definition catalogHashDomain :: string where
  "catalogHashDomain = ''hufu-cost-catalog-v1'' @ [CHR 0x00]"

definition unresolvedCatalogHashDomain :: string where
  "unresolvedCatalogHashDomain = ''hufu-cost-unresolved-catalog-v1'' @ [CHR 0x00]"

fun mode_text :: "billing_mode \<Rightarrow> string" where
  "mode_text BillingMetered = ''metered''"
| "mode_text BillingLocal = ''local''"
| "mode_text BillingSubscription = ''subscription''"
| "mode_text BillingUnknown = ''unknown''"
| "mode_text (BillingOther s) = s"

definition json_opt :: "string \<Rightarrow> int option \<Rightarrow> string \<times> string option" where
  "json_opt k v = (k, map_option dec_int v)"

definition price_fields :: "price_snapshot \<Rightarrow> (string \<times> string option) list" where
  "price_fields p =
     [(''execution_target'', Some (json_string (ps_target p))),
      (''billing_mode'', Some (json_string (mode_text (ps_mode p)))),
      json_opt ''input_micros_per_million'' (ps_input p),
      json_opt ''cache_read_micros_per_million'' (ps_cache_read p),
      json_opt ''cache_write_micros_per_million'' (ps_cache_write p),
      json_opt ''output_micros_per_million'' (ps_output p),
      json_opt ''opaque_max_micros_per_invocation'' (ps_opaque p)]"

definition priceSnapshotID :: "digest \<Rightarrow> price_snapshot \<Rightarrow> string" where
  "priceSnapshotID sha p = hashJSON sha priceHashDomain (json_object (price_fields p))"

text \<open>The whole snapshot, as it is marshalled inside a catalog or a policy.\<close>

definition price_json :: "price_snapshot \<Rightarrow> string" where
  "price_json p =
     json_object ((''id'', Some (json_string (ps_id p))) # price_fields p @
                  [(''catalog_hash'', Some (json_string (ps_catalog p)))])"

section \<open>Compiling authored prices\<close>

text \<open>The authored entry: decimal strings, empty when omitted.\<close>

record price_config =
  pc_mode :: billing_mode
  pc_input :: string
  pc_cache_read :: string
  pc_cache_write :: string
  pc_output :: string
  pc_opaque :: string

definition parse_rate :: "string \<Rightarrow> cost_error + int option" where
  "parse_rate v = (if v = [] then Inr None else bindR (ParseUSDMicros v) (\<lambda>m. Inr (Some m)))"

definition check_mode :: "price_snapshot \<Rightarrow> cost_error + price_snapshot" where
  "check_mode s =
     (let hasInput = (ps_input s \<noteq> None); hasOutput = (ps_output s \<noteq> None);
          hasTokenRates = (hasInput \<or> hasOutput \<or> ps_cache_read s \<noteq> None \<or> ps_cache_write s \<noteq> None)
      in case ps_mode s of
           BillingMetered \<Rightarrow>
             if hasInput \<noteq> hasOutput then Inl MixedTokenRates
             else if (ps_cache_read s \<noteq> None \<or> ps_cache_write s \<noteq> None) \<and> \<not> hasInput
               then Inl CacheWithoutTokens
             else if \<not> hasInput \<and> ps_opaque s = None then Inl UnboundedMetered
             else if hasInput then
               Inr (s\<lparr>ps_cache_read := (case ps_cache_read s of None \<Rightarrow> ps_input s | Some v \<Rightarrow> Some v),
                      ps_cache_write := (case ps_cache_write s of None \<Rightarrow> ps_input s | Some v \<Rightarrow> Some v)\<rparr>)
             else Inr s
         | BillingLocal \<Rightarrow> if hasTokenRates \<or> ps_opaque s \<noteq> None then Inl RatesForbidden else Inr s
         | BillingSubscription \<Rightarrow> if hasTokenRates \<or> ps_opaque s \<noteq> None then Inl RatesForbidden else Inr s
         | BillingUnknown \<Rightarrow> Inl UnknownNotAuthored
         | BillingOther _ \<Rightarrow> Inl UnsupportedBilling)"

definition compilePrice :: "digest \<Rightarrow> string \<Rightarrow> price_config \<Rightarrow> cost_error + price_snapshot" where
  "compilePrice sha target config =
     (if \<not> canonical_target target then Inl BadTarget
      else
        bindR (parse_rate (pc_input config)) (\<lambda>i.
        bindR (parse_rate (pc_cache_read config)) (\<lambda>cr.
        bindR (parse_rate (pc_cache_write config)) (\<lambda>cw.
        bindR (parse_rate (pc_output config)) (\<lambda>out.
        bindR (parse_rate (pc_opaque config)) (\<lambda>opq.
        bindR (check_mode \<lparr>ps_id = [], ps_target = target, ps_mode = pc_mode config, ps_input = i,
                 ps_cache_read = cr, ps_cache_write = cw, ps_output = out, ps_opaque = opq,
                 ps_catalog = []\<rparr>) (\<lambda>s.
          Inr (s\<lparr>ps_id := priceSnapshotID sha s\<rparr>))))))))"

record catalog =
  cat_prices :: "(string \<times> price_snapshot) list"
  cat_hash :: string

text \<open>
  Prices are compiled and collected in target order, so the map of the code is the association
  list sorted by target; the first entry that fails is the error.
\<close>

fun compile_all :: "digest \<Rightarrow> (string \<times> price_config) list \<Rightarrow> cost_error + (string \<times> price_snapshot) list" where
  "compile_all sha [] = Inr []"
| "compile_all sha ((t, c) # cs) =
     bindR (compilePrice sha t c) (\<lambda>s. bindR (compile_all sha cs) (\<lambda>r. Inr ((t, s) # r)))"

definition NewCatalog :: "digest \<Rightarrow> (string \<times> price_config) list \<Rightarrow> cost_error + catalog" where
  "NewCatalog sha configs =
     bindR (compile_all sha (map (\<lambda>t. (t, the (map_of configs t))) (sort (remdups (map fst configs)))))
       (\<lambda>prices.
          let hash = hashJSON sha catalogHashDomain
                (json_object [(''schema_version'', Some (dec 1)),
                              (''prices'', Some (json_array (map (price_json \<circ> snd) prices)))])
          in Inr \<lparr>cat_prices = map (\<lambda>(t, s). (t, s\<lparr>ps_catalog := hash\<rparr>)) prices, cat_hash = hash\<rparr>)"

definition Resolve :: "catalog \<Rightarrow> string \<Rightarrow> price_snapshot option" where
  "Resolve c target = map_of (cat_prices c) target"

definition Snapshots :: "catalog \<Rightarrow> price_snapshot list" where
  "Snapshots c = map (\<lambda>t. the (map_of (cat_prices c) t)) (sort (map fst (cat_prices c)))"

definition NewUnknownPriceSnapshot :: "digest \<Rightarrow> string \<Rightarrow> cost_error + price_snapshot" where
  "NewUnknownPriceSnapshot sha target =
     (if \<not> canonical_target target then Inl BadTarget
      else
        let s = \<lparr>ps_id = [], ps_target = target, ps_mode = BillingUnknown, ps_input = None,
                 ps_cache_read = None, ps_cache_write = None, ps_output = None, ps_opaque = None,
                 ps_catalog = []\<rparr>
        in Inr (s\<lparr>ps_id := priceSnapshotID sha s,
                  ps_catalog := hashJSON sha unresolvedCatalogHashDomain
                    (json_object [(''execution_target'', Some (json_string target))])\<rparr>))"

section \<open>Validating a snapshot\<close>

definition hasAnyPriceField :: "price_snapshot \<Rightarrow> bool" where
  "hasAnyPriceField p \<longleftrightarrow> ps_input p \<noteq> None \<or> ps_cache_read p \<noteq> None \<or> ps_cache_write p \<noteq> None \<or>
                          ps_output p \<noteq> None \<or> ps_opaque p \<noteq> None"

definition ValidatePriceSnapshot :: "digest \<Rightarrow> price_snapshot \<Rightarrow> cost_error + unit" where
  "ValidatePriceSnapshot sha s =
     (if TrimSpace (ps_id s) = [] \<or> TrimSpace (ps_target s) = [] \<or> TrimSpace (ps_catalog s) = []
        then Inl IncompleteSnapshot
      else if \<not> canonical_target (ps_target s) then Inl NotCanonicalTarget
      else bindR
        (case ps_mode s of
           BillingMetered \<Rightarrow>
             if hasTokenPrice s then
               (if list_ex (\<lambda>v. case v of None \<Rightarrow> True | Some x \<Rightarrow> x < 0)
                     [ps_input s, ps_cache_read s, ps_cache_write s, ps_output s]
                then Inl InvalidTokenRate else Inr ())
             else (case ps_opaque s of None \<Rightarrow> Inl UnboundedMetered
                   | Some v \<Rightarrow> if v < 0 then Inl UnboundedMetered else Inr ())
         | BillingOther _ \<Rightarrow> Inl UnsupportedBilling
         | _ \<Rightarrow> if hasAnyPriceField s then Inl RatesForbidden else Inr ())
        (\<lambda>_. if ps_id s \<noteq> priceSnapshotID sha s then Inl SnapshotIDMismatch else Inr ()))"

section \<open>Facts\<close>

definition visible :: "char \<Rightarrow> bool" where
  "visible c \<longleftrightarrow> 32 < byte_of c \<and> byte_of c < 128"

lemma visible_no_space: "list_all visible s \<Longrightarrow> \<not> has_space s"
  by (induction s) (auto simp: visible_def leading_space_def ascii_spaces_def)

lemma visible_hex_digit: "d < 16 \<Longrightarrow> visible (hex_digit d)"
  by (simp add: visible_def hex_digit_def)

lemma visible_hex_of: "list_all visible (hex_of bs)"
proof (induction bs)
  case (Cons c cs)
  have "byte_of c < 256" by simp
  then have "byte_of c div 16 < 16" by (simp add: less_mult_imp_div_less)
  with Cons show ?case by (simp add: hex_of_def visible_hex_digit)
qed (simp add: hex_of_def)

lemma TrimSpace_hash: "TrimSpace (hashJSON sha d e) \<noteq> []"
proof -
  have "list_all visible (hashJSON sha d e)"
    by (simp add: hashJSON_def visible_hex_of) (simp add: visible_def)
  then have "TrimSpace (hashJSON sha d e) = hashJSON sha d e"
    by (intro TrimSpace_no_space visible_no_space)
  then show ?thesis by (simp add: hashJSON_def)
qed

lemma canonical_TrimSpace: "canonical_target t \<Longrightarrow> TrimSpace t \<noteq> []"
  by (auto simp: canonical_target_def ParseExecutionSelector_def split: sum.splits if_splits)

lemma priceSnapshotID_frame [simp]:
  "priceSnapshotID sha (s\<lparr>ps_id := i\<rparr>) = priceSnapshotID sha s"
  "priceSnapshotID sha (s\<lparr>ps_catalog := h\<rparr>) = priceSnapshotID sha s"
  by (simp_all add: priceSnapshotID_def price_fields_def)

lemma ParseUSDMicros_amount: "ParseUSDMicros v = Inr m \<Longrightarrow> amount m"
proof -
  assume "ParseUSDMicros v = Inr m"
  then obtain x where "m = i64 (u64 x)" "u64 x \<le> MaxInt64"
    by (auto simp: ParseUSDMicros_def Let_def split: prod.splits if_splits option.splits sum.splits)
  then show ?thesis
    using u64_range [of x] by (simp add: amount_def i64_id is_int64_def MinInt64_def)
qed

text \<open>The prices a compiled snapshot may carry, by billing mode.\<close>

definition priced :: "price_snapshot \<Rightarrow> bool" where
  "priced s \<longleftrightarrow>
     (case ps_mode s of
        BillingMetered \<Rightarrow>
          rates_ok s \<or> (\<not> hasTokenPrice s \<and> (\<exists>v. ps_opaque s = Some v \<and> amount v))
      | BillingOther _ \<Rightarrow> False
      | _ \<Rightarrow> \<not> hasAnyPriceField s)"

lemma parse_rate_amount: "parse_rate v = Inr (Some m) \<Longrightarrow> amount m"
  by (auto simp: parse_rate_def bindR_eq_Inr dest: ParseUSDMicros_amount split: if_splits)

definition opt_amount :: "int option \<Rightarrow> bool" where
  "opt_amount v = (case v of None \<Rightarrow> True | Some m \<Rightarrow> amount m)"

lemma parse_rate_opt: "parse_rate v = Inr r \<Longrightarrow> opt_amount r"
  by (cases r) (auto simp: opt_amount_def dest: parse_rate_amount)

lemma check_mode_priced:
  assumes "check_mode s = Inr s'"
    "opt_amount (ps_input s)" "opt_amount (ps_cache_read s)" "opt_amount (ps_cache_write s)"
    "opt_amount (ps_output s)" "opt_amount (ps_opaque s)"
  shows "priced s' \<and> ps_target s' = ps_target s \<and> ps_mode s' = ps_mode s"
  using assms
  by (cases "ps_mode s")
    (auto simp: check_mode_def priced_def rates_ok_def hasTokenPrice_def hasAnyPriceField_def
      opt_amount_def Let_def split: if_splits option.splits)

lemma compilePrice_priced:
  assumes "compilePrice sha t c = Inr s"
  shows "priced s" "ps_target s = t" "canonical_target t" "ps_id s = priceSnapshotID sha s"
proof -
  from assms have can: "canonical_target t"
    by (auto simp: compilePrice_def split: if_splits)
  with assms obtain i cr cw out opq s0 where
    "parse_rate (pc_input c) = Inr i" "parse_rate (pc_cache_read c) = Inr cr"
    "parse_rate (pc_cache_write c) = Inr cw" "parse_rate (pc_output c) = Inr out"
    "parse_rate (pc_opaque c) = Inr opq"
    and chk: "check_mode \<lparr>ps_id = [], ps_target = t, ps_mode = pc_mode c, ps_input = i,
       ps_cache_read = cr, ps_cache_write = cw, ps_output = out, ps_opaque = opq, ps_catalog = []\<rparr>
       = Inr s0" and s: "s = s0\<lparr>ps_id := priceSnapshotID sha s0\<rparr>"
    unfolding compilePrice_def by (simp, elim bindR_InrE) simp
  then have "opt_amount i" "opt_amount cr" "opt_amount cw" "opt_amount out" "opt_amount opq"
    by (auto dest: parse_rate_opt)
  with check_mode_priced [OF chk] have "priced s0" "ps_target s0 = t" by simp_all
  with s can show "priced s" "ps_target s = t" "canonical_target t" "ps_id s = priceSnapshotID sha s"
    by (simp_all add: priced_def rates_ok_def hasTokenPrice_def hasAnyPriceField_def
        split: billing_mode.splits)
qed

lemma priced_validates:
  assumes "priced s" "canonical_target (ps_target s)" "ps_id s = priceSnapshotID sha s"
    "TrimSpace (ps_catalog s) \<noteq> []"
  shows "ValidatePriceSnapshot sha s = Inr ()"
proof -
  have "TrimSpace (ps_id s) \<noteq> []"
    using assms(3) by (simp add: priceSnapshotID_def TrimSpace_hash)
  with assms canonical_TrimSpace [OF assms(2)] show ?thesis
    by (cases "ps_mode s")
      (auto simp: ValidatePriceSnapshot_def priced_def rates_ok_def hasTokenPrice_def amount_def
        split: option.splits)
qed

lemma compile_all_entries:
  "compile_all sha cs = Inr r \<Longrightarrow> (t, s) \<in> set r \<Longrightarrow> \<exists>c. (t, c) \<in> set cs \<and> compilePrice sha t c = Inr s"
proof (induction sha cs arbitrary: r rule: compile_all.induct)
  case (2 sha u c cs)
  from "2.prems"(1) obtain x xs where x: "compilePrice sha u c = Inr x" "compile_all sha cs = Inr xs"
    and r: "r = (u, x) # xs"
    by (auto simp: bindR_eq_Inr)
  show ?case
  proof (cases "(t, s) = (u, x)")
    case True
    with x show ?thesis by auto
  next
    case False
    with r "2.prems"(2) have "(t, s) \<in> set xs" by auto
    from "2.IH" [OF x(2) this] show ?thesis by (meson list.set_intros(2))
  qed
qed simp

lemma compile_all_targets: "compile_all sha cs = Inr r \<Longrightarrow> map fst r = map fst cs"
  by (induction sha cs arbitrary: r rule: compile_all.induct) (auto simp: bindR_eq_Inr)

lemma resolved_price:
  assumes "NewCatalog sha configs = Inr c" "Resolve c target = Some p"
  shows "ValidatePriceSnapshot sha p = Inr () \<and> ps_target p = target \<and> priced p"
proof -
  from assms(1) obtain prices where
    all: "compile_all sha (map (\<lambda>t. (t, the (map_of configs t))) (sort (remdups (map fst configs)))) = Inr prices"
    and cat: "c = (let hash = hashJSON sha catalogHashDomain
                (json_object [(''schema_version'', Some (dec 1)),
                              (''prices'', Some (json_array (map (price_json \<circ> snd) prices)))])
          in \<lparr>cat_prices = map (\<lambda>(t, s). (t, s\<lparr>ps_catalog := hash\<rparr>)) prices, cat_hash = hash\<rparr>)"
    unfolding NewCatalog_def by (elim bindR_InrE) (simp add: Let_def)
  define hash where "hash = cat_hash c"
  have c: "cat_prices c = map (\<lambda>(t, s). (t, s\<lparr>ps_catalog := hash\<rparr>)) prices"
    and hash: "TrimSpace hash \<noteq> []"
    by (simp_all add: cat Let_def hash_def TrimSpace_hash)
  from assms(2) have "(target, p) \<in> set (cat_prices c)"
    by (simp add: Resolve_def map_of_SomeD)
  with c obtain s where "(target, s) \<in> set prices" and p: "p = s\<lparr>ps_catalog := hash\<rparr>" by auto
  with compile_all_entries [OF all] obtain cfg where "compilePrice sha target cfg = Inr s" by blast
  from compilePrice_priced [OF this]
  have q: "priced p" "ps_target p = target" "canonical_target target" "ps_id p = priceSnapshotID sha p"
    by (simp_all add: p priced_def rates_ok_def hasTokenPrice_def hasAnyPriceField_def
        split: billing_mode.splits)
  with hash show ?thesis using priced_validates [OF q(1)] by (simp add: p)
qed

lemma unknown_snapshot_valid:
  "NewUnknownPriceSnapshot sha t = Inr p \<Longrightarrow> ValidatePriceSnapshot sha p = Inr ()"
proof -
  assume a: "NewUnknownPriceSnapshot sha t = Inr p"
  let ?s = "\<lparr>ps_id = [], ps_target = t, ps_mode = BillingUnknown, ps_input = None,
     ps_cache_read = None, ps_cache_write = None, ps_output = None, ps_opaque = None, ps_catalog = []\<rparr>"
  define h where "h = hashJSON sha unresolvedCatalogHashDomain
    (json_object [(''execution_target'', Some (json_string t))])"
  from a have can: "canonical_target t"
    and p: "p = ?s\<lparr>ps_id := priceSnapshotID sha ?s, ps_catalog := h\<rparr>"
    by (simp_all add: NewUnknownPriceSnapshot_def Let_def h_def split: if_splits)
  have h: "TrimSpace h \<noteq> []" by (simp add: h_def TrimSpace_hash)
  have "ps_id p = priceSnapshotID sha p"
    unfolding p by (simp only: priceSnapshotID_frame price_snapshot.select_convs price_snapshot.update_convs
        priceSnapshotID_def price_fields_def)
  with can h show ?thesis
    by (intro priced_validates) (simp_all add: p priced_def hasAnyPriceField_def)
qed

section \<open>Properties\<close>

text \<open>
  Everything an authored catalog resolves to passes the validation that later consumers
  apply, names the target it was looked up under, and carries either all four token rates or an
  opaque maximum when it is metered and no rate otherwise.
\<close>

theorem catalog_prices_valid:
  assumes "NewCatalog sha configs = Inr c" "Resolve c target = Some p"
  shows "ValidatePriceSnapshot sha p = Inr () \<and> ps_target p = target \<and> priced p"
  using assms by (rule resolved_price)

definition sample_configs :: "(string \<times> price_config) list" where
  "sample_configs =
     [(''ollama/q'', \<lparr>pc_mode = BillingMetered, pc_input = ''1.5'', pc_cache_read = [],
        pc_cache_write = [], pc_output = ''2'', pc_opaque = []\<rparr>)]"

definition sample_snapshot :: price_snapshot where
  "sample_snapshot = \<lparr>ps_id = ''sha256:78'', ps_target = ''ollama/q'', ps_mode = BillingMetered,
     ps_input = Some 1500000, ps_cache_read = Some 1500000, ps_cache_write = Some 1500000,
     ps_output = Some 2000000, ps_opaque = None, ps_catalog = ''sha256:78''\<rparr>"

lemma sample_catalog:
  "NewCatalog (\<lambda>_. ''x'') sample_configs =
     Inr \<lparr>cat_prices = [(''ollama/q'', sample_snapshot)], cat_hash = ''sha256:78''\<rparr>"
  unfolding sample_snapshot_def by code_simp

theorem catalog_prices_valid_witness:
  "\<exists>c p. NewCatalog (\<lambda>_. ''x'') sample_configs = Inr c \<and> Resolve c ''ollama/q'' = Some p \<and>
     ps_cache_read p = Some 1500000 \<and> ValidatePriceSnapshot (\<lambda>_. ''x'') p = Inr ()"
proof -
  let ?c = "\<lparr>cat_prices = [(''ollama/q'', sample_snapshot)], cat_hash = ''sha256:78''\<rparr>"
  have r: "Resolve ?c ''ollama/q'' = Some sample_snapshot" by (simp add: Resolve_def)
  have "ps_cache_read sample_snapshot = Some 1500000" by (simp add: sample_snapshot_def)
  with catalog_prices_valid [OF sample_catalog r] sample_catalog r show ?thesis
    by (intro exI [of _ ?c] exI [of _ sample_snapshot]) simp
qed

end
