(* ===== verification/Cost_Events.thy ===== *)
theory Cost_Events
  imports Cost_Catalog
begin

text \<open>
  \<open>internal/cost/events.go\<close>: the five ledger events and their validation. Go's embedded
  \<open>InvocationIdentity\<close> is the field \<open>rv_ident\<close> (\<open>se_ident\<close>, \<open>dn_ident\<close>). Decoding and encoding
  round-trip JSON around the validation modelled here; the wire form itself is not modelled, an
  event stands for its own encoding.
\<close>

section \<open>Data\<close>

datatype outcome = OutcomeSuccess | OutcomeProviderError | OutcomeCancelled | OutcomeStreamAbandoned
  | OutcomeOther string

datatype denial_reason = DenialUnknownPrice | DenialUnboundedCost | DenialBudgetExceeded
  | DenialIntegrity | DenialOther string

record invocation_identity =
  ii_invocation :: string
  ii_run :: string
  ii_task :: string
  ii_attempt :: int
  ii_agent :: string
  ii_role :: string
  ii_purpose :: string

record price_event =
  pe_schema :: int
  pe_run :: string
  pe_price :: price_snapshot

record reservation_event =
  rv_schema :: int
  rv_ident :: invocation_identity
  rv_target :: string
  rv_price_id :: string
  rv_input_tokens :: int
  rv_output_tokens :: int
  rv_micros :: "int option"
  rv_source :: estimate_source
  rv_mode :: billing_mode
  rv_at :: string

record settlement_event =
  se_schema :: int
  se_ident :: invocation_identity
  se_target :: string
  se_price_id :: string
  se_usage :: "token_usage option"
  se_micros :: "int option"
  se_source :: estimate_source
  se_mode :: billing_mode
  se_outcome :: outcome
  se_at :: string

record warning_event =
  wn_schema :: int
  wn_run :: string
  wn_threshold :: int
  wn_projected :: int
  wn_at :: string

record denied_event =
  dn_schema :: int
  dn_ident :: invocation_identity
  dn_target :: string
  dn_reason :: denial_reason
  dn_at :: string

text \<open>
  The code's \<open>Event\<close> is a kind and five pointers of which the kind selects one; a kind whose
  pointer is nil is invalid, which is the \<open>None\<close> of a constructor.
\<close>

datatype cost_event =
    PriceResolved "price_event option"
  | Reserved "reservation_event option"
  | Settled "settlement_event option"
  | BudgetWarning "warning_event option"
  | BudgetDenied "denied_event option"
  | UnknownEvent string

definition EventSchemaVersion :: int where "EventSchemaVersion = 1"

section \<open>Validation\<close>

definition validMetadata :: "string \<Rightarrow> bool" where
  "validMetadata v =
     (let v = TrimSpace v
      in if v = [] \<or> 256 < length v then False
         else list_all (\<lambda>c. \<not> (byte_of c < 32 \<or> byte_of c = 127)) v)"

fun validOutcome :: "outcome \<Rightarrow> bool" where
  "validOutcome (OutcomeOther _) = False"
| "validOutcome _ = True"

fun validDenialReason :: "denial_reason \<Rightarrow> bool" where
  "validDenialReason (DenialOther _) = False"
| "validDenialReason _ = True"

text \<open>The identity checks run over a Go map in no fixed order, so only the verdict is modelled.\<close>

definition validateInvocationIdentity :: "invocation_identity \<Rightarrow> cost_error + unit" where
  "validateInvocationIdentity i =
     (if \<not> list_all validMetadata
           [ii_invocation i, ii_run i, ii_agent i, ii_role i, ii_purpose i] then Inl BadIdentity
      else if ii_task i \<noteq> [] \<and> \<not> validMetadata (ii_task i) then Inl BadIdentity
      else if ii_attempt i < 0 \<or> (ii_task i \<noteq> [] \<and> ii_attempt i < 1) then Inl BadIdentity
      else Inr ())"

definition validateEstimate ::
  "billing_mode \<Rightarrow> estimate_source \<Rightarrow> int option \<Rightarrow> bool \<Rightarrow> cost_error + unit" where
  "validateEstimate mode source micros reservation =
     (if (case micros of None \<Rightarrow> False | Some m \<Rightarrow> m < 0) then Inl BadEstimate
      else case mode of
        BillingMetered \<Rightarrow>
          if micros = None \<or> (reservation \<and> source \<noteq> EstimateAdmissionBound) \<or>
             (\<not> reservation \<and> source \<noteq> EstimateUsage \<and> source \<noteq> EstimateAdmissionBound)
          then Inl BadEstimate else Inr ()
      | BillingLocal \<Rightarrow>
          if micros \<noteq> None \<or> source \<noteq> EstimateNotMetered then Inl BadEstimate else Inr ()
      | BillingSubscription \<Rightarrow>
          if micros \<noteq> None \<or> source \<noteq> EstimateSubscription then Inl BadEstimate else Inr ()
      | BillingUnknown \<Rightarrow>
          if micros \<noteq> None \<or> source \<noteq> EstimateUnknown then Inl BadEstimate else Inr ()
      | BillingOther _ \<Rightarrow> Inl BadEstimate)"

definition validatePriceEvent :: "digest \<Rightarrow> price_event option \<Rightarrow> cost_error + unit" where
  "validatePriceEvent sha ev =
     (case ev of None \<Rightarrow> Inl BadPriceEvent
      | Some e \<Rightarrow>
          if pe_schema e \<noteq> EventSchemaVersion \<or> \<not> validMetadata (pe_run e) then Inl BadPriceEvent
          else ValidatePriceSnapshot sha (pe_price e))"

definition validateReservationEvent :: "reservation_event option \<Rightarrow> cost_error + unit" where
  "validateReservationEvent ev =
     (case ev of None \<Rightarrow> Inl BadSchema
      | Some e \<Rightarrow>
          if rv_schema e \<noteq> EventSchemaVersion then Inl BadSchema
          else bindR (validateInvocationIdentity (rv_ident e)) (\<lambda>_.
            if \<not> validMetadata (rv_target e) \<or> \<not> validMetadata (rv_price_id e) \<or>
               rv_input_tokens e < 0 \<or> rv_output_tokens e < 0 \<or> \<not> validTimestamp (rv_at e)
            then Inl BadFields
            else validateEstimate (rv_mode e) (rv_source e) (rv_micros e) True))"

definition validateSettlementEvent :: "settlement_event option \<Rightarrow> cost_error + unit" where
  "validateSettlementEvent ev =
     (case ev of None \<Rightarrow> Inl BadSchema
      | Some e \<Rightarrow>
          if se_schema e \<noteq> EventSchemaVersion then Inl BadSchema
          else bindR (validateInvocationIdentity (se_ident e)) (\<lambda>_.
            if \<not> validMetadata (se_target e) \<or> \<not> validMetadata (se_price_id e) \<or>
               \<not> validTimestamp (se_at e) \<or> \<not> validOutcome (se_outcome e)
            then Inl BadFields
            else bindR (case se_usage e of None \<Rightarrow> Inr () | Some u \<Rightarrow> validateUsage u) (\<lambda>_.
              validateEstimate (se_mode e) (se_source e) (se_micros e) False)))"

definition validateWarningEvent :: "warning_event option \<Rightarrow> cost_error + unit" where
  "validateWarningEvent ev =
     (case ev of None \<Rightarrow> Inl BadWarningEvent
      | Some e \<Rightarrow>
          if wn_schema e \<noteq> EventSchemaVersion \<or> \<not> validMetadata (wn_run e) \<or> wn_threshold e \<le> 0 \<or>
             wn_projected e < wn_threshold e \<or> \<not> validTimestamp (wn_at e)
          then Inl BadWarningEvent else Inr ())"

definition validateDeniedEvent :: "denied_event option \<Rightarrow> cost_error + unit" where
  "validateDeniedEvent ev =
     (case ev of None \<Rightarrow> Inl BadSchema
      | Some e \<Rightarrow>
          if dn_schema e \<noteq> EventSchemaVersion then Inl BadSchema
          else bindR (validateInvocationIdentity (dn_ident e)) (\<lambda>_.
            if \<not> validMetadata (dn_target e) \<or> \<not> validDenialReason (dn_reason e) \<or>
               \<not> validTimestamp (dn_at e)
            then Inl BadFields else Inr ()))"

fun ValidateEvent :: "digest \<Rightarrow> cost_event \<Rightarrow> cost_error + unit" where
  "ValidateEvent sha (PriceResolved e) = validatePriceEvent sha e"
| "ValidateEvent sha (Reserved e) = validateReservationEvent e"
| "ValidateEvent sha (Settled e) = validateSettlementEvent e"
| "ValidateEvent sha (BudgetWarning e) = validateWarningEvent e"
| "ValidateEvent sha (BudgetDenied e) = validateDeniedEvent e"
| "ValidateEvent sha (UnknownEvent k) = Inl UnsupportedKind"

section \<open>Facts\<close>

lemma validateEstimate_micros:
  assumes "validateEstimate mode source (Some m) r = Inr ()"
  shows "0 \<le> m" "mode = BillingMetered"
  using assms by (auto simp: validateEstimate_def split: if_splits billing_mode.splits)

lemma validateEstimate_none:
  "validateEstimate mode source None r = Inr () \<Longrightarrow>
   source \<in> {EstimateNotMetered, EstimateSubscription, EstimateUnknown}"
  by (auto simp: validateEstimate_def split: if_splits billing_mode.splits)

lemma validateEstimate_some:
  "validateEstimate mode source (Some m) r = Inr () \<Longrightarrow>
   source = EstimateUsage \<or> source = EstimateAdmissionBound"
  by (auto simp: validateEstimate_def split: if_splits billing_mode.splits)

lemma reservation_estimate:
  "validateReservationEvent (Some e) = Inr () \<Longrightarrow>
   validateEstimate (rv_mode e) (rv_source e) (rv_micros e) True = Inr ()"
  by (auto simp: validateReservationEvent_def bindR_eq_Inr split: if_splits)

lemma settlement_estimate:
  "validateSettlementEvent (Some e) = Inr () \<Longrightarrow>
   validateEstimate (se_mode e) (se_source e) (se_micros e) False = Inr ()"
  by (auto simp: validateSettlementEvent_def bindR_eq_Inr split: if_splits)

end
