(* ===== verification/Cost_Projection.thy ===== *)
theory Cost_Projection
  imports Cost_Events
begin

text \<open>
  \<open>internal/cost/projection.go\<close>: the ledger as the replay of its events, and the aggregates read
  off it. The maps of the code are association lists in insertion order; the code never depends
  on their order except through sorted keys, which is how \<open>Summary\<close> walks them here. Two values
  with the same JSON are the same value of the model, so \<open>jsonEqual\<close> is equality.
\<close>

section \<open>State\<close>

record invocation_projection =
  ip_reservation :: reservation_event
  ip_settlement :: "settlement_event option"

record projection =
  prj_available :: bool
  prj_prices :: "(string \<times> price_snapshot) list"
  prj_invocations :: "(string \<times> invocation_projection) list"
  prj_warnings :: "(string \<times> warning_event) list"
  prj_denials :: "(string \<times> denied_event) list"

definition NewProjection :: projection where
  "NewProjection = \<lparr>prj_available = False, prj_prices = [], prj_invocations = [],
                    prj_warnings = [], prj_denials = []\<rparr>"

definition invocationKey :: "string \<Rightarrow> string \<Rightarrow> string" where
  "invocationKey run ivk = run @ CHR 0x00 # ivk"

definition priceKey :: "string \<Rightarrow> string \<Rightarrow> string" where
  "priceKey run price = run @ CHR 0x00 # price"

definition warningKey :: "string \<Rightarrow> int \<Rightarrow> string" where
  "warningKey run threshold = run @ CHR 0x00 # dec_int threshold"

definition sameInvocation :: "reservation_event \<Rightarrow> settlement_event \<Rightarrow> bool" where
  "sameInvocation r s \<longleftrightarrow> rv_ident r = se_ident s \<and> rv_target r = se_target s \<and>
                          rv_price_id r = se_price_id s \<and> rv_mode r = se_mode s"

section \<open>Applying an event\<close>

definition apply_price :: "projection \<Rightarrow> price_event \<Rightarrow> projection \<times> cost_error option" where
  "apply_price p e =
     (let key = priceKey (pe_run e) (ps_id (pe_price e))
      in case map_of (prj_prices p) key of
           Some existing \<Rightarrow>
             if existing \<noteq> pe_price e then (p, Some PriceChanged)
             else (p\<lparr>prj_prices := AList.update key (pe_price e) (prj_prices p)\<rparr>, None)
         | None \<Rightarrow> (p\<lparr>prj_prices := AList.update key (pe_price e) (prj_prices p)\<rparr>, None))"

definition apply_reservation :: "projection \<Rightarrow> reservation_event \<Rightarrow> projection \<times> cost_error option" where
  "apply_reservation p e =
     (case map_of (prj_prices p) (priceKey (ii_run (rv_ident e)) (rv_price_id e)) of
        None \<Rightarrow> (p, Some UnresolvedPrice)
      | Some price \<Rightarrow>
          if ps_target price \<noteq> rv_target e \<or> ps_mode price \<noteq> rv_mode e
          then (p, Some ReservationDisagrees)
          else
            let key = invocationKey (ii_run (rv_ident e)) (ii_invocation (rv_ident e))
            in case map_of (prj_invocations p) key of
                 Some existing \<Rightarrow>
                   if ip_reservation existing \<noteq> e then (p, Some ReservationChanged) else (p, None)
               | None \<Rightarrow>
                   (p\<lparr>prj_invocations := AList.update key
                        \<lparr>ip_reservation = e, ip_settlement = None\<rparr> (prj_invocations p)\<rparr>, None))"

definition apply_settlement :: "projection \<Rightarrow> settlement_event \<Rightarrow> projection \<times> cost_error option" where
  "apply_settlement p e =
     (let key = invocationKey (ii_run (se_ident e)) (ii_invocation (se_ident e))
      in case map_of (prj_invocations p) key of
           None \<Rightarrow> (p, Some NoReservation)
         | Some invocation \<Rightarrow>
             if \<not> sameInvocation (ip_reservation invocation) e then (p, Some SettlementDisagrees)
             else case ip_settlement invocation of
                Some s \<Rightarrow> if s \<noteq> e then (p, Some SettlementChanged) else (p, None)
              | None \<Rightarrow>
                  (p\<lparr>prj_invocations := AList.update key
                       (invocation\<lparr>ip_settlement := Some e\<rparr>) (prj_invocations p)\<rparr>, None))"

definition apply_warning :: "projection \<Rightarrow> warning_event \<Rightarrow> projection \<times> cost_error option" where
  "apply_warning p e =
     (let key = warningKey (wn_run e) (wn_threshold e)
      in case map_of (prj_warnings p) key of
           Some existing \<Rightarrow>
             if existing \<noteq> e then (p, Some WarningChanged)
             else (p\<lparr>prj_warnings := AList.update key e (prj_warnings p)\<rparr>, None)
         | None \<Rightarrow> (p\<lparr>prj_warnings := AList.update key e (prj_warnings p)\<rparr>, None))"

definition apply_denied :: "projection \<Rightarrow> denied_event \<Rightarrow> projection \<times> cost_error option" where
  "apply_denied p e =
     (let key = invocationKey (ii_run (dn_ident e)) (ii_invocation (dn_ident e))
      in case map_of (prj_denials p) key of
           Some existing \<Rightarrow>
             if existing \<noteq> e then (p, Some DenialChanged)
             else (p\<lparr>prj_denials := AList.update key e (prj_denials p)\<rparr>, None)
         | None \<Rightarrow> (p\<lparr>prj_denials := AList.update key e (prj_denials p)\<rparr>, None))"

text \<open>
  The receiver is updated in place: an event that validates marks the projection available even
  when it is then rejected, so the new state is returned beside the error.
\<close>

definition Apply :: "digest \<Rightarrow> projection \<Rightarrow> cost_event \<Rightarrow> projection \<times> cost_error option" where
  "Apply sha p event =
     (case ValidateEvent sha event of
        Inl err \<Rightarrow> (p, Some err)
      | Inr _ \<Rightarrow>
          let p = p\<lparr>prj_available := True\<rparr>
          in case event of
               PriceResolved (Some e) \<Rightarrow> apply_price p e
             | Reserved (Some e) \<Rightarrow> apply_reservation p e
             | Settled (Some e) \<Rightarrow> apply_settlement p e
             | BudgetWarning (Some e) \<Rightarrow> apply_warning p e
             | BudgetDenied (Some e) \<Rightarrow> apply_denied p e
             | _ \<Rightarrow> (p, None))"

definition applyR :: "digest \<Rightarrow> projection \<Rightarrow> cost_event \<Rightarrow> cost_error + projection" where
  "applyR sha p e = (case Apply sha p e of (p', None) \<Rightarrow> Inr p' | (_, Some err) \<Rightarrow> Inl err)"

definition Reduce :: "digest \<Rightarrow> cost_event list \<Rightarrow> cost_error + projection" where
  "Reduce sha events = replay_with (applyR sha) NewProjection events"

section \<open>Aggregates\<close>

record aggregate =
  ag_count :: int
  ag_open :: int
  ag_known :: "int option"
  ag_usage :: "int option"
  ag_bound :: "int option"
  ag_not_metered :: int
  ag_subscription :: int
  ag_unknown :: int

definition zero_aggregate :: aggregate where
  "zero_aggregate = \<lparr>ag_count = 0, ag_open = 0, ag_known = None, ag_usage = None, ag_bound = None,
                     ag_not_metered = 0, ag_subscription = 0, ag_unknown = 0\<rparr>"

definition addAggregateMicros :: "int option \<Rightarrow> int \<Rightarrow> cost_error + int option" where
  "addAggregateMicros destination v =
     bindR (addMicros [(case destination of None \<Rightarrow> 0 | Some c \<Rightarrow> c), v]) (\<lambda>t. Inr (Some t))"

definition addAggregate :: "aggregate \<Rightarrow> estimate \<Rightarrow> bool \<Rightarrow> cost_error + aggregate" where
  "addAggregate a e isOpen =
     (let a = a\<lparr>ag_count := ag_count a + 1\<rparr>;
          a = (if isOpen then a\<lparr>ag_open := ag_open a + 1\<rparr> else a)
      in case est_source e of
           EstimateNotMetered \<Rightarrow> Inr (a\<lparr>ag_not_metered := ag_not_metered a + 1\<rparr>)
         | EstimateSubscription \<Rightarrow> Inr (a\<lparr>ag_subscription := ag_subscription a + 1\<rparr>)
         | EstimateUnknown \<Rightarrow> Inr (a\<lparr>ag_unknown := ag_unknown a + 1\<rparr>)
         | SourceOther _ \<Rightarrow> Inl UnsupportedSource
         | _ \<Rightarrow>
             (case est_micros e of None \<Rightarrow> Inl NoAmount
              | Some m \<Rightarrow>
                  bindR (addAggregateMicros (ag_known a) m) (\<lambda>k.
                  let a = a\<lparr>ag_known := k\<rparr>
                  in if est_source e = EstimateUsage
                     then bindR (addAggregateMicros (ag_usage a) m) (\<lambda>u. Inr (a\<lparr>ag_usage := u\<rparr>))
                     else bindR (addAggregateMicros (ag_bound a) m) (\<lambda>b. Inr (a\<lparr>ag_bound := b\<rparr>)))))"

definition reservationEstimate :: "reservation_event \<Rightarrow> estimate" where
  "reservationEstimate r =
     \<lparr>est_micros = rv_micros r, est_source = rv_source r, est_mode = rv_mode r\<rparr>"

definition settlementEstimate :: "settlement_event \<Rightarrow> estimate" where
  "settlementEstimate s =
     \<lparr>est_micros = se_micros s, est_source = se_source s, est_mode = se_mode s\<rparr>"

text \<open>The estimate \<open>Summary\<close> and \<open>BuildView\<close> charge, and whether the reservation is still open.\<close>

definition invocationEstimate :: "invocation_projection \<Rightarrow> estimate \<times> bool" where
  "invocationEstimate i =
     (case ip_settlement i of
        None \<Rightarrow> (reservationEstimate (ip_reservation i), True)
      | Some s \<Rightarrow> (settlementEstimate s, False))"

record summary =
  sum_total :: aggregate
  sum_by_run :: "string \<rightharpoonup> aggregate"
  sum_by_task :: "string \<rightharpoonup> aggregate"
  sum_by_role :: "string \<rightharpoonup> aggregate"
  sum_by_purpose :: "string \<rightharpoonup> aggregate"
  sum_by_target :: "string \<rightharpoonup> aggregate"
  sum_by_source :: "string \<rightharpoonup> aggregate"

definition empty_summary :: summary where
  "empty_summary = \<lparr>sum_total = zero_aggregate, sum_by_run = Map.empty, sum_by_task = Map.empty,
     sum_by_role = Map.empty, sum_by_purpose = Map.empty, sum_by_target = Map.empty,
     sum_by_source = Map.empty\<rparr>"

fun source_text :: "estimate_source \<Rightarrow> string" where
  "source_text EstimateUsage = ''usage''"
| "source_text EstimateAdmissionBound = ''admission_bound''"
| "source_text EstimateNotMetered = ''not_metered''"
| "source_text EstimateSubscription = ''subscription''"
| "source_text EstimateUnknown = ''unknown''"
| "source_text (SourceOther s) = s"

definition add_dimension ::
  "(string \<rightharpoonup> aggregate) \<Rightarrow> string \<Rightarrow> estimate \<Rightarrow> bool \<Rightarrow> cost_error + (string \<rightharpoonup> aggregate)" where
  "add_dimension values key e isOpen =
     (if key = [] then Inr values
      else bindR (addAggregate (case values key of None \<Rightarrow> zero_aggregate | Some a \<Rightarrow> a) e isOpen)
             (\<lambda>a. Inr (values(key \<mapsto> a))))"

definition add_invocation :: "summary \<Rightarrow> invocation_projection \<Rightarrow> cost_error + summary" where
  "add_invocation s i =
     (let (e, isOpen) = invocationEstimate i; r = ip_reservation i
      in bindR (addAggregate (sum_total s) e isOpen) (\<lambda>t.
         bindR (add_dimension (sum_by_run s) (ii_run (rv_ident r)) e isOpen) (\<lambda>m1.
         bindR (add_dimension (sum_by_task s) (ii_task (rv_ident r)) e isOpen) (\<lambda>m2.
         bindR (add_dimension (sum_by_role s) (ii_role (rv_ident r)) e isOpen) (\<lambda>m3.
         bindR (add_dimension (sum_by_purpose s) (ii_purpose (rv_ident r)) e isOpen) (\<lambda>m4.
         bindR (add_dimension (sum_by_target s) (rv_target r) e isOpen) (\<lambda>m5.
         bindR (add_dimension (sum_by_source s) (source_text (est_source e)) e isOpen) (\<lambda>m6.
           Inr \<lparr>sum_total = t, sum_by_run = m1, sum_by_task = m2, sum_by_role = m3,
                 sum_by_purpose = m4, sum_by_target = m5, sum_by_source = m6\<rparr>))))))))"

fun add_invocations :: "summary \<Rightarrow> invocation_projection list \<Rightarrow> cost_error + summary" where
  "add_invocations s [] = Inr s"
| "add_invocations s (i # ivs) = bindR (add_invocation s i) (\<lambda>s'. add_invocations s' ivs)"

definition sorted_invocations :: "projection \<Rightarrow> invocation_projection list" where
  "sorted_invocations p =
     map (\<lambda>k. the (map_of (prj_invocations p) k)) (sort (map fst (prj_invocations p)))"

definition Summary :: "projection \<Rightarrow> cost_error + summary" where
  "Summary p = add_invocations empty_summary (sorted_invocations p)"

definition KnownMicrosForRun :: "projection \<Rightarrow> string \<Rightarrow> cost_error + int" where
  "KnownMicrosForRun p run =
     bindR (Summary p) (\<lambda>s.
       Inr (case sum_by_run s run of None \<Rightarrow> 0
            | Some a \<Rightarrow> (case ag_known a of None \<Rightarrow> 0 | Some v \<Rightarrow> v)))"

definition Invocation :: "projection \<Rightarrow> string \<Rightarrow> string \<Rightarrow> invocation_projection option" where
  "Invocation p run ivk = map_of (prj_invocations p) (invocationKey run ivk)"

definition Price :: "projection \<Rightarrow> string \<Rightarrow> string \<Rightarrow> price_snapshot option" where
  "Price p run i = map_of (prj_prices p) (priceKey run i)"

definition HasWarning :: "projection \<Rightarrow> string \<Rightarrow> int \<Rightarrow> bool" where
  "HasWarning p run threshold = (map_of (prj_warnings p) (warningKey run threshold) \<noteq> None)"

definition Denial :: "projection \<Rightarrow> string \<Rightarrow> string \<Rightarrow> denied_event option" where
  "Denial p run ivk = map_of (prj_denials p) (invocationKey run ivk)"

end
