(* ===== verification/Cost_Ledger.thy ===== *)
theory Cost_Ledger
  imports Cost_Projection
begin

text \<open>
  What the replay of \<open>internal/cost/projection.go\<close> promises: the invariant every reachable
  projection satisfies, the interpretation of the ledger interfaces on \<open>Projection.Apply\<close>, and
  the totals \<open>Summary\<close> and \<open>KnownMicrosForRun\<close> compute from such a projection.
\<close>

section \<open>The invariant\<close>

text \<open>The ranges the \<open>int64\<close> fields give an event: the amounts a reservation or settlement names.\<close>

definition opt_int64 :: "int option \<Rightarrow> bool" where
  "opt_int64 v = (case v of None \<Rightarrow> True | Some m \<Rightarrow> is_int64 m)"

fun event_int64 :: "cost_event \<Rightarrow> bool" where
  "event_int64 (PriceResolved (Some e)) = price_int64 (pe_price e)"
| "event_int64 (Reserved (Some e)) = opt_int64 (rv_micros e)"
| "event_int64 (Settled (Some e)) = opt_int64 (se_micros e)"
| "event_int64 _ = True"

definition price_entry :: "digest \<Rightarrow> string \<times> price_snapshot \<Rightarrow> bool" where
  "price_entry sha e \<longleftrightarrow> ValidatePriceSnapshot sha (snd e) = Inr () \<and>
     (\<exists>run. validMetadata run \<and> fst e = priceKey run (ps_id (snd e)))"

definition reservation_ok :: "(string \<times> price_snapshot) list \<Rightarrow> reservation_event \<Rightarrow> bool" where
  "reservation_ok prices r \<longleftrightarrow> validateReservationEvent (Some r) = Inr () \<and> opt_int64 (rv_micros r) \<and>
     (case map_of prices (priceKey (ii_run (rv_ident r)) (rv_price_id r)) of
        None \<Rightarrow> False
      | Some price \<Rightarrow> ps_target price = rv_target r \<and> ps_mode price = rv_mode r)"

definition settlement_ok :: "reservation_event \<Rightarrow> settlement_event \<Rightarrow> bool" where
  "settlement_ok r s \<longleftrightarrow> validateSettlementEvent (Some s) = Inr () \<and> opt_int64 (se_micros s) \<and>
     sameInvocation r s"

definition invocation_ok ::
  "(string \<times> price_snapshot) list \<Rightarrow> string \<times> invocation_projection \<Rightarrow> bool" where
  "invocation_ok prices e \<longleftrightarrow>
     fst e = invocationKey (ii_run (rv_ident (ip_reservation (snd e))))
                           (ii_invocation (rv_ident (ip_reservation (snd e)))) \<and>
     reservation_ok prices (ip_reservation (snd e)) \<and>
     (case ip_settlement (snd e) of None \<Rightarrow> True | Some s \<Rightarrow> settlement_ok (ip_reservation (snd e)) s)"

definition wf_projection :: "digest \<Rightarrow> projection \<Rightarrow> bool" where
  "wf_projection sha p \<longleftrightarrow>
     distinct (map fst (prj_invocations p)) \<and>
     (\<forall>e \<in> set (prj_prices p). price_entry sha e) \<and>
     (\<forall>e \<in> set (prj_invocations p). invocation_ok (prj_prices p) e)"

lemma wf_start: "wf_projection sha NewProjection"
  by (simp add: wf_projection_def NewProjection_def)

section \<open>Each event keeps it\<close>

lemma set_update_cases:
  "e \<in> set (AList.update k v al) \<Longrightarrow> e = (k, v) \<or> e \<in> set al"
  by (induction al) (auto split: if_splits)

lemma reservation_ok_mono:
  assumes "reservation_ok prices r" "map_of prices k = None \<or> map_of prices k = Some v"
  shows "reservation_ok (AList.update k v prices) r"
  using assms by (auto simp: reservation_ok_def update_conv' split: option.splits)

lemma invocation_ok_mono:
  "invocation_ok prices e \<Longrightarrow> map_of prices k = None \<or> map_of prices k = Some v \<Longrightarrow>
   invocation_ok (AList.update k v prices) e"
  by (auto simp: invocation_ok_def intro: reservation_ok_mono)

text \<open>The five accepted cases of \<open>Apply\<close>, as the new projection.\<close>

lemma applyR_cases:
  assumes "applyR sha p e = Inr p'"
  obtains (price) ev where "e = PriceResolved (Some ev)" "validatePriceEvent sha (Some ev) = Inr ()"
      "apply_price (p\<lparr>prj_available := True\<rparr>) ev = (p', None)"
  | (reserve) ev where "e = Reserved (Some ev)" "validateReservationEvent (Some ev) = Inr ()"
      "apply_reservation (p\<lparr>prj_available := True\<rparr>) ev = (p', None)"
  | (settle) ev where "e = Settled (Some ev)" "validateSettlementEvent (Some ev) = Inr ()"
      "apply_settlement (p\<lparr>prj_available := True\<rparr>) ev = (p', None)"
  | (warning) ev where "e = BudgetWarning (Some ev)" "validateWarningEvent (Some ev) = Inr ()"
      "apply_warning (p\<lparr>prj_available := True\<rparr>) ev = (p', None)"
  | (denied) ev where "e = BudgetDenied (Some ev)" "validateDeniedEvent (Some ev) = Inr ()"
      "apply_denied (p\<lparr>prj_available := True\<rparr>) ev = (p', None)"
proof -
  have A: "Apply sha p e = (p', None)"
    using assms by (auto simp: applyR_def split: prod.splits option.splits)
  then have V: "ValidateEvent sha e = Inr ()"
    by (auto simp: Apply_def Let_def split: sum.splits)
  show thesis
  proof (cases e)
    case (PriceResolved x)
    then obtain ev where "x = Some ev" using V by (auto simp: validatePriceEvent_def split: option.splits)
    with A V PriceResolved price show thesis by (simp add: Apply_def)
  next
    case (Reserved x)
    then obtain ev where "x = Some ev"
      using V by (auto simp: validateReservationEvent_def split: option.splits)
    with A V Reserved reserve show thesis by (simp add: Apply_def)
  next
    case (Settled x)
    then obtain ev where "x = Some ev"
      using V by (auto simp: validateSettlementEvent_def split: option.splits)
    with A V Settled settle show thesis by (simp add: Apply_def)
  next
    case (BudgetWarning x)
    then obtain ev where "x = Some ev"
      using V by (auto simp: validateWarningEvent_def split: option.splits)
    with A V BudgetWarning warning show thesis by (simp add: Apply_def)
  next
    case (BudgetDenied x)
    then obtain ev where "x = Some ev"
      using V by (auto simp: validateDeniedEvent_def split: option.splits)
    with A V BudgetDenied denied show thesis by (simp add: Apply_def)
  next
    case (UnknownEvent x)
    with V show thesis by simp
  qed
qed

lemma wf_price:
  assumes wf: "wf_projection sha p" and v: "validatePriceEvent sha (Some ev) = Inr ()"
    and a: "apply_price (p\<lparr>prj_available := True\<rparr>) ev = (p', None)"
  shows "wf_projection sha p'"
proof -
  let ?k = "priceKey (pe_run ev) (ps_id (pe_price ev))"
  have free: "map_of (prj_prices p) ?k = None \<or> map_of (prj_prices p) ?k = Some (pe_price ev)"
    and p': "p' = p\<lparr>prj_available := True, prj_prices := AList.update ?k (pe_price ev) (prj_prices p)\<rparr>"
    using a by (auto simp: apply_price_def Let_def split: option.splits if_splits)
  have entry: "price_entry sha (?k, pe_price ev)"
    using v by (auto simp: price_entry_def validatePriceEvent_def split: if_splits)
  from wf show ?thesis
    unfolding p' wf_projection_def
    by (auto dest!: set_update_cases simp: entry intro!: invocation_ok_mono free)
qed

lemma wf_reserve:
  assumes wf: "wf_projection sha p" and v: "validateReservationEvent (Some ev) = Inr ()"
    and a: "apply_reservation (p\<lparr>prj_available := True\<rparr>) ev = (p', None)"
    and t: "opt_int64 (rv_micros ev)"
  shows "wf_projection sha p'"
proof -
  let ?k = "invocationKey (ii_run (rv_ident ev)) (ii_invocation (rv_ident ev))"
  have ok: "invocation_ok (prj_prices p) (?k, \<lparr>ip_reservation = ev, ip_settlement = None\<rparr>)"
    using a v t by (auto simp: apply_reservation_def Let_def invocation_ok_def reservation_ok_def
                     split: option.splits if_splits)
  show ?thesis
  proof (cases "map_of (prj_invocations p) ?k")
    case None
    then have p': "p' = p\<lparr>prj_available := True, prj_invocations :=
        AList.update ?k \<lparr>ip_reservation = ev, ip_settlement = None\<rparr> (prj_invocations p)\<rparr>"
      using a by (auto simp: apply_reservation_def Let_def split: option.splits if_splits)
    from wf show ?thesis
      unfolding p' wf_projection_def
      by (auto dest!: set_update_cases simp: ok distinct_update)
  next
    case (Some i)
    then have "p' = p\<lparr>prj_available := True\<rparr>"
      using a by (auto simp: apply_reservation_def Let_def split: option.splits if_splits)
    with wf show ?thesis by (simp add: wf_projection_def)
  qed
qed

lemma wf_settle:
  assumes wf: "wf_projection sha p" and v: "validateSettlementEvent (Some ev) = Inr ()"
    and a: "apply_settlement (p\<lparr>prj_available := True\<rparr>) ev = (p', None)"
    and t: "opt_int64 (se_micros ev)"
  shows "wf_projection sha p'"
proof -
  let ?k = "invocationKey (ii_run (se_ident ev)) (ii_invocation (se_ident ev))"
  obtain i where i: "map_of (prj_invocations p) ?k = Some i" and same: "sameInvocation (ip_reservation i) ev"
    using a by (auto simp: apply_settlement_def Let_def split: option.splits if_splits)
  have iok: "invocation_ok (prj_prices p) (?k, i)"
    using wf map_of_SomeD [OF i] by (auto simp: wf_projection_def)
  show ?thesis
  proof (cases "ip_settlement i")
    case None
    then have p': "p' = p\<lparr>prj_available := True, prj_invocations :=
        AList.update ?k (i\<lparr>ip_settlement := Some ev\<rparr>) (prj_invocations p)\<rparr>"
      using a i same by (auto simp: apply_settlement_def Let_def)
    have ok: "invocation_ok (prj_prices p) (?k, i\<lparr>ip_settlement := Some ev\<rparr>)"
      using iok v same t by (auto simp: invocation_ok_def settlement_ok_def)
    from wf show ?thesis
      unfolding p' wf_projection_def
      by (auto dest!: set_update_cases simp: ok distinct_update)
  next
    case (Some s)
    then have "p' = p\<lparr>prj_available := True\<rparr>"
      using a i same by (auto simp: apply_settlement_def Let_def split: if_splits)
    with wf show ?thesis by (simp add: wf_projection_def)
  qed
qed

lemma wf_warning:
  "wf_projection sha p \<Longrightarrow> apply_warning (p\<lparr>prj_available := True\<rparr>) ev = (p', None) \<Longrightarrow>
   wf_projection sha p'"
  by (auto simp: apply_warning_def Let_def wf_projection_def split: option.splits if_splits)

lemma wf_denied:
  "wf_projection sha p \<Longrightarrow> apply_denied (p\<lparr>prj_available := True\<rparr>) ev = (p', None) \<Longrightarrow>
   wf_projection sha p'"
  by (auto simp: apply_denied_def Let_def wf_projection_def split: option.splits if_splits)

lemma wf_applyR:
  assumes "wf_projection sha p" "event_int64 e" "applyR sha p e = Inr p'"
  shows "wf_projection sha p'"
  using assms(3)
proof (cases rule: applyR_cases)
  case (price ev) then show ?thesis using assms(1) by (blast intro: wf_price)
next
  case (reserve ev) then show ?thesis using assms(1,2) by (auto intro: wf_reserve)
next
  case (settle ev) then show ?thesis using assms(1,2) by (auto intro: wf_settle)
next
  case (warning ev) then show ?thesis using assms(1) by (blast intro: wf_warning)
next
  case (denied ev) then show ?thesis using assms(1) by (blast intro: wf_denied)
qed

section \<open>Redelivery and frozen facts\<close>

lemma apply_price_again:
  "apply_price q ev = (p', None) \<Longrightarrow> prj_available q \<Longrightarrow>
   apply_price (p'\<lparr>prj_available := True\<rparr>) ev = (p', None)"
  by (auto simp: apply_price_def Let_def update_same split: option.splits if_splits)

lemma apply_reservation_again:
  "apply_reservation q ev = (p', None) \<Longrightarrow> prj_available q \<Longrightarrow>
   apply_reservation (p'\<lparr>prj_available := True\<rparr>) ev = (p', None)"
  by (auto simp: apply_reservation_def Let_def split: option.splits if_splits)

lemma apply_settlement_again:
  "apply_settlement q ev = (p', None) \<Longrightarrow> prj_available q \<Longrightarrow>
   apply_settlement (p'\<lparr>prj_available := True\<rparr>) ev = (p', None)"
  by (auto simp: apply_settlement_def Let_def split: option.splits if_splits)

lemma apply_warning_again:
  "apply_warning q ev = (p', None) \<Longrightarrow> prj_available q \<Longrightarrow>
   apply_warning (p'\<lparr>prj_available := True\<rparr>) ev = (p', None)"
  by (auto simp: apply_warning_def Let_def update_same split: option.splits if_splits)

lemma apply_denied_again:
  "apply_denied q ev = (p', None) \<Longrightarrow> prj_available q \<Longrightarrow>
   apply_denied (p'\<lparr>prj_available := True\<rparr>) ev = (p', None)"
  by (auto simp: apply_denied_def Let_def update_same split: option.splits if_splits)

lemmas apply_again = apply_price_again apply_reservation_again apply_settlement_again
  apply_warning_again apply_denied_again

lemma price_stable:
  assumes "Price p run i = Some price" "applyR sha p e = Inr p'"
  shows "Price p' run i = Some price"
  using assms(2)
proof (cases rule: applyR_cases)
  case (price ev)
  then show ?thesis using assms(1)
    by (auto simp: Price_def apply_price_def Let_def update_conv' split: option.splits if_splits)
qed (use assms(1) in \<open>auto simp: Price_def apply_reservation_def apply_settlement_def apply_warning_def
      apply_denied_def Let_def split: option.splits if_splits\<close>)

lemma invocation_stable:
  assumes "Invocation p run k = Some i" "applyR sha p e = Inr p'"
  shows "\<exists>i'. Invocation p' run k = Some i' \<and> ip_reservation i' = ip_reservation i \<and>
              (ip_settlement i \<noteq> None \<longrightarrow> i' = i)"
  using assms(2)
proof (cases rule: applyR_cases)
  case (reserve ev)
  then show ?thesis using assms(1)
    by (auto simp: Invocation_def apply_reservation_def Let_def update_conv' split: option.splits if_splits)
next
  case (settle ev)
  then show ?thesis using assms(1)
    by (auto simp: Invocation_def apply_settlement_def Let_def update_conv' split: option.splits if_splits)
qed (use assms(1) in \<open>auto simp: Invocation_def apply_price_def apply_warning_def
      apply_denied_def Let_def split: option.splits if_splits\<close>)

lemma warning_stable:
  assumes "map_of (prj_warnings p) k = Some w" "applyR sha p e = Inr p'"
  shows "map_of (prj_warnings p') k = Some w"
  using assms(2)
proof (cases rule: applyR_cases)
  case (warning ev)
  then show ?thesis using assms(1)
    by (auto simp: apply_warning_def Let_def update_conv' split: option.splits if_splits)
qed (use assms(1) in \<open>auto simp: apply_reservation_def apply_settlement_def apply_price_def
      apply_denied_def Let_def split: option.splits if_splits\<close>)

lemma denial_stable:
  assumes "map_of (prj_denials p) k = Some w" "applyR sha p e = Inr p'"
  shows "map_of (prj_denials p') k = Some w"
  using assms(2)
proof (cases rule: applyR_cases)
  case (denied ev)
  then show ?thesis using assms(1)
    by (auto simp: apply_denied_def Let_def update_conv' split: option.splits if_splits)
qed (use assms(1) in \<open>auto simp: apply_reservation_def apply_settlement_def apply_price_def
      apply_warning_def Let_def split: option.splits if_splits\<close>)

lemma applyR_available: "applyR sha p e = Inr p' \<Longrightarrow> prj_available p'"
  by (erule applyR_cases)
     (auto simp: apply_reservation_def apply_settlement_def apply_price_def apply_warning_def
        apply_denied_def Let_def split: option.splits if_splits)

lemma applyR_again:
  assumes "applyR sha p e = Inr p'"
  shows "applyR sha p' e = Inr p'"
  using assms
  by (cases rule: applyR_cases) (auto simp: applyR_def Apply_def apply_again)

text \<open>What an event left in the ledger: the facts that make applying it again an idle step.\<close>

fun recorded :: "projection \<Rightarrow> cost_event \<Rightarrow> bool" where
  "recorded p (PriceResolved (Some e)) \<longleftrightarrow> Price p (pe_run e) (ps_id (pe_price e)) = Some (pe_price e)"
| "recorded p (Reserved (Some e)) \<longleftrightarrow>
     (\<exists>price. Price p (ii_run (rv_ident e)) (rv_price_id e) = Some price \<and>
        ps_target price = rv_target e \<and> ps_mode price = rv_mode e) \<and>
     (\<exists>i. Invocation p (ii_run (rv_ident e)) (ii_invocation (rv_ident e)) = Some i \<and> ip_reservation i = e)"
| "recorded p (Settled (Some e)) \<longleftrightarrow>
     (\<exists>i. Invocation p (ii_run (se_ident e)) (ii_invocation (se_ident e)) = Some i \<and>
        sameInvocation (ip_reservation i) e \<and> ip_settlement i = Some e)"
| "recorded p (BudgetWarning (Some e)) \<longleftrightarrow>
     map_of (prj_warnings p) (warningKey (wn_run e) (wn_threshold e)) = Some e"
| "recorded p (BudgetDenied (Some e)) \<longleftrightarrow>
     map_of (prj_denials p) (invocationKey (ii_run (dn_ident e)) (ii_invocation (dn_ident e))) = Some e"
| "recorded p _ \<longleftrightarrow> False"

lemma avail_id: "prj_available p \<Longrightarrow> p\<lparr>prj_available := True\<rparr> = p"
  by (cases p) simp

lemma update_fix: "AList.update k v al = al \<Longrightarrow> map_of al k = Some v"
  by (metis map_of_update_same)

lemma update_moves: "map_of al k = None \<Longrightarrow> AList.update k v al \<noteq> al"
  using update_fix [of k v al] by auto

lemma applyR_idle_recorded:
  assumes "applyR sha p e = Inr p"
  shows "ValidateEvent sha e = Inr () \<and> prj_available p \<and> recorded p e"
proof -
  have av: "prj_available p" by (rule applyR_available [OF assms])
  from assms show ?thesis
  proof (cases rule: applyR_cases)
    case (settle ev)
    let ?k = "invocationKey (ii_run (se_ident ev)) (ii_invocation (se_ident ev))"
    from settle(3) obtain i where i: "map_of (prj_invocations p) ?k = Some i"
      "sameInvocation (ip_reservation i) ev"
      by (auto simp: apply_settlement_def Let_def split: option.splits if_splits)
    moreover have "ip_settlement i = Some ev"
    proof (cases "ip_settlement i")
      case None
      then have "prj_invocations p = AList.update ?k (i\<lparr>ip_settlement := Some ev\<rparr>) (prj_invocations p)"
        using settle(3) i by (auto simp: apply_settlement_def Let_def dest: arg_cong [of _ _ prj_invocations])
      then have "Some i = Some (i\<lparr>ip_settlement := Some ev\<rparr>)" using i(1) by (metis update_fix)
      then have "ip_settlement i = Some ev" by (metis invocation_projection.select_convs(2)
            invocation_projection.surjective invocation_projection.update_convs(2) option.inject)
      then show ?thesis .
    qed (use settle(3) i in \<open>auto simp: apply_settlement_def Let_def split: if_splits\<close>)
    ultimately show ?thesis using settle av by (simp add: Invocation_def)
  next
    case (price ev)
    then show ?thesis using av
      by (auto simp: apply_price_def Let_def Price_def avail_id update_moves dest!: arg_cong [of _ p prj_prices]
          split: option.splits if_splits)
  next
    case (reserve ev)
    let ?k = "invocationKey (ii_run (rv_ident ev)) (ii_invocation (rv_ident ev))"
    have "\<exists>i. map_of (prj_invocations p) ?k = Some i \<and> ip_reservation i = ev"
      using reserve(3)
      by (auto simp: apply_reservation_def Let_def dest!: arg_cong [of _ p prj_invocations] update_fix
          split: option.splits if_splits)
    with reserve av show ?thesis
      by (auto simp: Invocation_def Price_def apply_reservation_def split: option.splits if_splits)
  next
    case (warning ev)
    then show ?thesis using av
      by (auto simp: apply_warning_def Let_def avail_id update_moves dest!: arg_cong [of _ p prj_warnings]
          split: option.splits if_splits)
  next
    case (denied ev)
    then show ?thesis using av
      by (auto simp: apply_denied_def Let_def avail_id update_moves dest!: arg_cong [of _ p prj_denials]
          split: option.splits if_splits)
  qed
qed

lemma recorded_applyR_idle:
  assumes "ValidateEvent sha e = Inr ()" "prj_available p" "recorded p e"
  shows "applyR sha p e = Inr p"
  using assms
  by (cases "(p, e)" rule: recorded.cases)
     (auto simp: applyR_def Apply_def avail_id apply_price_def apply_reservation_def
        apply_settlement_def apply_warning_def apply_denied_def Price_def Invocation_def Let_def update_same)

lemma recorded_stable:
  assumes "recorded p e" "applyR sha p d = Inr p'"
  shows "recorded p' e"
  using assms(1)
proof (cases "(p, e)" rule: recorded.cases)
  case (2 q ev)
  then show ?thesis using assms price_stable [OF _ assms(2)] invocation_stable [OF _ assms(2)] by fastforce
next
  case (3 q ev)
  then show ?thesis using assms invocation_stable [OF _ assms(2)] by fastforce
qed (use assms price_stable [OF _ assms(2)] warning_stable [OF _ assms(2)] denial_stable [OF _ assms(2)] in auto)

lemma applyR_recorded:
  assumes "applyR sha p e = Inr p" "applyR sha p d = Inr p'"
  shows "applyR sha p' e = Inr p'"
  using applyR_idle_recorded [OF assms(1)] recorded_stable [OF _ assms(2)] applyR_available [OF assms(2)]
  by (intro recorded_applyR_idle) auto

interpretation cost_ledger: idempotent_ledger "applyR sha" event_int64 "wf_projection sha" NewProjection
  for sha
  by unfold_locales (auto intro: wf_start wf_applyR applyR_again applyR_recorded)

section \<open>Totals\<close>

text \<open>The micros an invocation is charged: its reservation until it settles, then its settlement.\<close>

definition opt_micros :: "int option \<Rightarrow> int" where
  "opt_micros v = (case v of None \<Rightarrow> 0 | Some m \<Rightarrow> m)"

lemma opt_micros_simps [simp]: "opt_micros None = 0" "opt_micros (Some m) = m"
  by (simp_all add: opt_micros_def)

definition charged :: "invocation_projection \<Rightarrow> int" where
  "charged i = opt_micros (est_micros (fst (invocationEstimate i)))"

definition invocation_list :: "projection \<Rightarrow> invocation_projection list" where
  "invocation_list p = map snd (prj_invocations p)"

definition run_of :: "invocation_projection \<Rightarrow> string" where
  "run_of i = ii_run (rv_ident (ip_reservation i))"

definition charged_total :: "projection \<Rightarrow> int" where
  "charged_total p = sum_list (map charged (invocation_list p))"

definition charged_run :: "projection \<Rightarrow> string \<Rightarrow> int" where
  "charged_run p run = sum_list (map charged (filter (\<lambda>i. run_of i = run) (invocation_list p)))"

text \<open>An estimate the validation lets into the ledger.\<close>

definition estimate_ok :: "estimate \<Rightarrow> bool" where
  "estimate_ok e \<longleftrightarrow>
     (case est_micros e of
        None \<Rightarrow> est_source e \<in> {EstimateNotMetered, EstimateSubscription, EstimateUnknown}
      | Some m \<Rightarrow> amount m \<and> est_source e \<in> {EstimateUsage, EstimateAdmissionBound})"

lemma opt_int64_amount: "opt_int64 (Some m) \<Longrightarrow> 0 \<le> m \<Longrightarrow> amount m"
  by (simp add: opt_int64_def amount_def is_int64_def)

lemma validateEstimate_ok:
  assumes "validateEstimate mode source micros r = Inr ()" "opt_int64 micros"
  shows "estimate_ok \<lparr>est_micros = micros, est_source = source, est_mode = mode\<rparr>"
proof (cases micros)
  case None
  then show ?thesis using validateEstimate_none [of mode source r] assms(1)
    by (simp add: estimate_ok_def)
next
  case (Some m)
  have "0 \<le> m" using validateEstimate_micros(1) assms(1) Some by blast
  with assms Some validateEstimate_some [of mode source m r] show ?thesis
    by (simp add: estimate_ok_def opt_int64_amount)
qed

lemma invocation_estimate_ok:
  assumes "invocation_ok prices (k, i)"
  shows "estimate_ok (fst (invocationEstimate i))"
  using assms
  by (auto simp: invocation_ok_def invocationEstimate_def reservationEstimate_def settlementEstimate_def
        reservation_ok_def settlement_ok_def intro!: validateEstimate_ok reservation_estimate
        settlement_estimate split: option.splits)

definition ag_value :: "aggregate \<Rightarrow> int" where
  "ag_value a = opt_micros (ag_known a)"

definition wf_aggregate :: "aggregate \<Rightarrow> bool" where
  "wf_aggregate a \<longleftrightarrow>
     0 \<le> opt_micros (ag_usage a) \<and> 0 \<le> opt_micros (ag_bound a) \<and>
     ag_value a = opt_micros (ag_usage a) + opt_micros (ag_bound a) \<and> ag_value a \<le> MaxInt64"

lemma wf_zero_aggregate [simp]: "wf_aggregate zero_aggregate" "ag_value zero_aggregate = 0"
  by (simp_all add: wf_aggregate_def ag_value_def zero_aggregate_def opt_micros_def)

lemma addAggregateMicros_eq:
  assumes "amount (opt_micros d)" "amount m"
  shows "addAggregateMicros d m =
           (if opt_micros d + m \<le> MaxInt64 then Inr (Some (opt_micros d + m)) else Inl TotalOverflow)"
  using assms addMicros_amounts [of "[opt_micros d, m]"]
  by (simp add: addAggregateMicros_def opt_micros_def)

lemma addAggregate_over:
  assumes "wf_aggregate a" "estimate_ok e" "ag_value a + opt_micros (est_micros e) > MaxInt64"
  shows "addAggregate a e open = Inl TotalOverflow"
proof (cases "est_micros e")
  case None
  with assms show ?thesis by (simp add: wf_aggregate_def)
next
  case (Some m)
  with assms have "amount m" "amount (opt_micros (ag_known a))"
    by (auto simp: estimate_ok_def wf_aggregate_def ag_value_def amount_def)
  with Some assms show ?thesis
    by (auto simp: addAggregate_def estimate_ok_def addAggregateMicros_eq ag_value_def Let_def)
qed

lemma addAggregate_fits_ex:
  assumes "wf_aggregate a" "estimate_ok e" "ag_value a + opt_micros (est_micros e) \<le> MaxInt64"
  shows "\<exists>a'. addAggregate a e open = Inr a' \<and> wf_aggregate a' \<and>
              ag_value a' = ag_value a + opt_micros (est_micros e)"
proof (cases "est_micros e")
  case None
  with assms show ?thesis
    by (auto simp: addAggregate_def estimate_ok_def wf_aggregate_def ag_value_def Let_def)
next
  case (Some m)
  with assms have "amount m" "amount (opt_micros (ag_known a))" "amount (opt_micros (ag_usage a))"
    "amount (opt_micros (ag_bound a))" "opt_micros (ag_known a) + m \<le> MaxInt64"
    "opt_micros (ag_usage a) + m \<le> MaxInt64" "opt_micros (ag_bound a) + m \<le> MaxInt64"
    "est_source e = EstimateUsage \<or> est_source e = EstimateAdmissionBound"
    by (auto simp: estimate_ok_def wf_aggregate_def ag_value_def amount_def)
  with Some assms(1) show ?thesis
    by (cases "open")
       (auto simp: addAggregate_def addAggregateMicros_eq ag_value_def Let_def
          wf_aggregate_def amount_def)
qed

lemma addAggregate_fits:
  assumes "wf_aggregate a" "estimate_ok e" "ag_value a + opt_micros (est_micros e) \<le> MaxInt64"
  obtains a' where "addAggregate a e open = Inr a'" "wf_aggregate a'"
    "ag_value a' = ag_value a + opt_micros (est_micros e)"
  using addAggregate_fits_ex [OF assms, of "open"] by blast

text \<open>One dimension of the summary, under a bound on what any of its entries holds.\<close>

definition dim_value :: "(string \<rightharpoonup> aggregate) \<Rightarrow> string \<Rightarrow> int" where
  "dim_value d k = (case d k of None \<Rightarrow> 0 | Some a \<Rightarrow> ag_value a)"

definition wf_dim :: "int \<Rightarrow> (string \<rightharpoonup> aggregate) \<Rightarrow> bool" where
  "wf_dim t d \<longleftrightarrow> (\<forall>k a. d k = Some a \<longrightarrow> wf_aggregate a \<and> ag_value a \<le> t)"

lemma add_dimension_fits:
  assumes "wf_dim t d" "estimate_ok e" "0 \<le> t" "t + opt_micros (est_micros e) \<le> MaxInt64"
  obtains d' where "add_dimension d key e open = Inr d'"
    "wf_dim (t + opt_micros (est_micros e)) d'"
    "\<And>k. dim_value d' k = dim_value d k + (if k = key \<and> key \<noteq> [] then opt_micros (est_micros e) else 0)"
proof (cases "key = []")
  case True
  have "0 \<le> opt_micros (est_micros e)"
    using assms(2) by (auto simp: estimate_ok_def amount_def opt_micros_def split: option.splits)
  then have "wf_dim (t + opt_micros (est_micros e)) d"
    using assms(1) by (fastforce simp: wf_dim_def)
  with True that [of d] show ?thesis by (simp add: add_dimension_def)
next
  case False
  define a where "a = (case d key of None \<Rightarrow> zero_aggregate | Some a \<Rightarrow> a)"
  have a: "wf_aggregate a" "ag_value a \<le> t" "ag_value a = dim_value d key"
    using assms(1,3) by (auto simp: a_def wf_dim_def dim_value_def split: option.splits)
  then obtain a' where a': "addAggregate a e open = Inr a'" "wf_aggregate a'"
    "ag_value a' = ag_value a + opt_micros (est_micros e)"
    using addAggregate_fits [of a e "open"] assms(2,4) by auto
  have m: "0 \<le> opt_micros (est_micros e)"
    using assms(2) by (auto simp: estimate_ok_def amount_def opt_micros_def split: option.splits)
  have "add_dimension d key e open = Inr (d(key \<mapsto> a'))"
    using False a' by (simp add: add_dimension_def a_def)
  moreover have "wf_dim (t + opt_micros (est_micros e)) (d(key \<mapsto> a'))"
    using assms(1) a a' m by (fastforce simp: wf_dim_def)
  moreover have "dim_value (d(key \<mapsto> a')) k =
      dim_value d k + (if k = key \<and> key \<noteq> [] then opt_micros (est_micros e) else 0)" for k
    using False a a' by (auto simp: dim_value_def)
  ultimately show ?thesis by (rule that)
qed

lemma wf_dim_mono: "wf_dim t d \<Longrightarrow> t \<le> u \<Longrightarrow> wf_dim u d"
  by (fastforce simp: wf_dim_def)

definition wf_summary :: "summary \<Rightarrow> bool" where
  "wf_summary s \<longleftrightarrow> wf_aggregate (sum_total s) \<and>
     (\<forall>d \<in> {sum_by_run s, sum_by_task s, sum_by_role s, sum_by_purpose s, sum_by_target s, sum_by_source s}.
        wf_dim (ag_value (sum_total s)) d)"

lemma wf_empty_summary: "wf_summary empty_summary"
  by (simp add: wf_summary_def empty_summary_def wf_dim_def)

lemma add_invocation_over:
  assumes "wf_summary s" "estimate_ok (fst (invocationEstimate i))"
    "ag_value (sum_total s) + charged i > MaxInt64"
  shows "add_invocation s i = Inl TotalOverflow"
  using assms
  by (auto simp: add_invocation_def wf_summary_def charged_def addAggregate_over Let_def split: prod.splits)

lemma add_invocation_fits:
  assumes wf: "wf_summary s" and e: "estimate_ok (fst (invocationEstimate i))"
    and fits: "ag_value (sum_total s) + charged i \<le> MaxInt64"
  obtains s' where "add_invocation s i = Inr s'" "wf_summary s'"
    "ag_value (sum_total s') = ag_value (sum_total s) + charged i"
    "\<And>run. run \<noteq> [] \<Longrightarrow> dim_value (sum_by_run s') run =
              dim_value (sum_by_run s) run + (if run_of i = run then charged i else 0)"
proof -
  let ?t = "ag_value (sum_total s)" and ?r = "ip_reservation i"
  obtain est opn where eo: "invocationEstimate i = (est, opn)" by fastforce
  have est: "estimate_ok est" "?t + opt_micros (est_micros est) \<le> MaxInt64"
    and ch: "charged i = opt_micros (est_micros est)"
    using e fits eo by (simp_all add: charged_def)
  have dims: "wf_dim ?t (sum_by_run s)" "wf_dim ?t (sum_by_task s)" "wf_dim ?t (sum_by_role s)"
    "wf_dim ?t (sum_by_purpose s)" "wf_dim ?t (sum_by_target s)" "wf_dim ?t (sum_by_source s)"
    and tot: "wf_aggregate (sum_total s)" and t0: "0 \<le> ?t"
    using wf by (auto simp: wf_summary_def wf_aggregate_def)
  note fit = add_dimension_fits [OF _ est(1) t0 est(2)]
  obtain t' where t': "addAggregate (sum_total s) est opn = Inr t'" "wf_aggregate t'"
    "ag_value t' = ?t + opt_micros (est_micros est)"
    using addAggregate_fits [OF tot est] by blast
  obtain m1 where m1: "add_dimension (sum_by_run s) (ii_run (rv_ident ?r)) est opn = Inr m1"
    "wf_dim (ag_value t') m1"
    "\<And>k. dim_value m1 k = dim_value (sum_by_run s) k +
       (if k = ii_run (rv_ident ?r) \<and> ii_run (rv_ident ?r) \<noteq> [] then opt_micros (est_micros est) else 0)"
    using fit [OF dims(1)] t'(3) by metis
  obtain m2 where m2: "add_dimension (sum_by_task s) (ii_task (rv_ident ?r)) est opn = Inr m2"
    "wf_dim (ag_value t') m2" using fit [OF dims(2)] t'(3) by metis
  obtain m3 where m3: "add_dimension (sum_by_role s) (ii_role (rv_ident ?r)) est opn = Inr m3"
    "wf_dim (ag_value t') m3" using fit [OF dims(3)] t'(3) by metis
  obtain m4 where m4: "add_dimension (sum_by_purpose s) (ii_purpose (rv_ident ?r)) est opn = Inr m4"
    "wf_dim (ag_value t') m4" using fit [OF dims(4)] t'(3) by metis
  obtain m5 where m5: "add_dimension (sum_by_target s) (rv_target ?r) est opn = Inr m5"
    "wf_dim (ag_value t') m5" using fit [OF dims(5)] t'(3) by metis
  obtain m6 where m6: "add_dimension (sum_by_source s) (source_text (est_source est)) est opn = Inr m6"
    "wf_dim (ag_value t') m6" using fit [OF dims(6)] t'(3) by metis
  let ?s = "\<lparr>sum_total = t', sum_by_run = m1, sum_by_task = m2, sum_by_role = m3,
              sum_by_purpose = m4, sum_by_target = m5, sum_by_source = m6\<rparr>"
  show thesis
  proof (rule that [of ?s])
    show "add_invocation s i = Inr ?s"
      by (simp add: add_invocation_def eo Let_def t'(1) m1(1) m2(1) m3(1) m4(1) m5(1) m6(1))
    show "wf_summary ?s"
      using t'(2) m1(2) m2(2) m3(2) m4(2) m5(2) m6(2) by (simp add: wf_summary_def)
    show "ag_value (sum_total ?s) = ag_value (sum_total s) + charged i" using t'(3) ch by simp
    show "run \<noteq> [] \<Longrightarrow> dim_value (sum_by_run ?s) run =
            dim_value (sum_by_run s) run + (if run_of i = run then charged i else 0)" for run
      using ch by (auto simp: m1(3) run_of_def)
  qed
qed

lemma charged_nonneg: "estimate_ok (fst (invocationEstimate i)) \<Longrightarrow> 0 \<le> charged i"
  by (auto simp: charged_def estimate_ok_def amount_def opt_micros_def split: option.splits)

lemma add_invocations_eq:
  assumes "wf_summary s" "\<forall>i \<in> set xs. estimate_ok (fst (invocationEstimate i))"
  shows "if ag_value (sum_total s) + sum_list (map charged xs) \<le> MaxInt64
         then \<exists>s'. add_invocations s xs = Inr s' \<and> wf_summary s' \<and>
                ag_value (sum_total s') = ag_value (sum_total s) + sum_list (map charged xs) \<and>
                (\<forall>run. run \<noteq> [] \<longrightarrow> dim_value (sum_by_run s') run = dim_value (sum_by_run s) run +
                          sum_list (map charged (filter (\<lambda>i. run_of i = run) xs)))
         else add_invocations s xs = Inl TotalOverflow"
  using assms
proof (induction xs arbitrary: s)
  case Nil
  then have "ag_value (sum_total s) \<le> MaxInt64" by (simp add: wf_summary_def wf_aggregate_def)
  with Nil show ?case by simp
next
  case (Cons i xs)
  have nn: "0 \<le> sum_list (map charged xs)"
    using Cons.prems(2) by (intro sum_list_nonneg_int) (auto intro: charged_nonneg)
  show ?case
  proof (cases "ag_value (sum_total s) + charged i \<le> MaxInt64")
    case True
    obtain s1 where s1: "add_invocation s i = Inr s1" "wf_summary s1"
      "ag_value (sum_total s1) = ag_value (sum_total s) + charged i"
      "\<And>run. run \<noteq> [] \<Longrightarrow> dim_value (sum_by_run s1) run =
              dim_value (sum_by_run s) run + (if run_of i = run then charged i else 0)"
      using add_invocation_fits [of s i] Cons.prems True by auto
    have "add_invocations s (i # xs) = add_invocations s1 xs" using s1(1) by simp
    with Cons.IH [OF s1(2)] Cons.prems(2) s1(3,4) show ?thesis
      by (auto simp: add.assoc split: if_splits)
  next
    case False
    then have "add_invocation s i = Inl TotalOverflow"
      using Cons.prems by (intro add_invocation_over) auto
    with False nn show ?thesis by simp
  qed
qed

lemma mset_sorted_invocations:
  assumes "distinct (map fst (prj_invocations p))"
  shows "mset (sorted_invocations p) = mset (invocation_list p)"
proof -
  have "map (\<lambda>e. the (map_of (prj_invocations p) (fst e))) (prj_invocations p) =
        map snd (prj_invocations p)"
    by (rule map_cong) (use assms in \<open>auto simp: map_of_is_SomeI\<close>)
  then have "map (\<lambda>k. the (map_of (prj_invocations p) k)) (map fst (prj_invocations p)) =
      map snd (prj_invocations p)"
    by (simp add: comp_def)
  then show ?thesis unfolding sorted_invocations_def invocation_list_def by (metis mset_map mset_sort)
qed

lemma charged_sums_sorted:
  assumes "distinct (map fst (prj_invocations p))"
  shows "sum_list (map charged (sorted_invocations p)) = charged_total p"
    "sum_list (map charged (filter q (sorted_invocations p))) =
     sum_list (map charged (filter q (invocation_list p)))"
  using mset_sorted_invocations [OF assms]
  by (simp_all add: charged_total_def sum_mset_sum_list [symmetric])

lemma wf_estimates:
  assumes "wf_projection sha p" "i \<in> set (invocation_list p)"
  shows "estimate_ok (fst (invocationEstimate i))"
  using assms by (auto simp: wf_projection_def invocation_list_def intro: invocation_estimate_ok)

lemma known_micros_eq:
  assumes wf: "wf_projection sha p" and run: "run \<noteq> []"
  shows "KnownMicrosForRun p run =
    (if charged_total p \<le> MaxInt64 then Inr (charged_run p run) else Inl TotalOverflow)"
proof -
  have d: "distinct (map fst (prj_invocations p))" using wf by (simp add: wf_projection_def)
  have "\<forall>i \<in> set (sorted_invocations p). estimate_ok (fst (invocationEstimate i))"
    using wf_estimates [OF wf] mset_eq_setD [OF mset_sorted_invocations [OF d]] by auto
  note R = add_invocations_eq [OF wf_empty_summary this]
  have E: "ag_value (sum_total empty_summary) = 0" "dim_value (sum_by_run empty_summary) run = 0"
    by (simp_all add: empty_summary_def dim_value_def)
  have K: "(case sum_by_run s run of None \<Rightarrow> 0 | Some a \<Rightarrow> (case ag_known a of None \<Rightarrow> 0 | Some v \<Rightarrow> v)) =
      dim_value (sum_by_run s) run" for s
    by (cases "sum_by_run s run") (simp_all add: dim_value_def ag_value_def opt_micros_def)
  show ?thesis
    using R E run
    by (auto simp: KnownMicrosForRun_def Summary_def K charged_sums_sorted [OF d] charged_run_def
        split: if_splits)
qed

lemma sum_list_filter_le: "\<forall>x\<in>set xs. 0 \<le> f x \<Longrightarrow>
    sum_list (map f (filter P xs)) \<le> (sum_list (map f xs) :: int)"
  by (induction xs) auto

lemma charged_run_le_total:
  assumes "wf_projection sha p"
  shows "0 \<le> charged_run p run" "charged_run p run \<le> charged_total p"
proof -
  have A: "\<forall>i \<in> set (invocation_list p). 0 \<le> charged i"
    using wf_estimates [OF assms] by (auto intro: charged_nonneg)
  then show "0 \<le> charged_run p run"
    unfolding charged_run_def by (intro sum_list_nonneg_int) auto
  show "charged_run p run \<le> charged_total p"
    unfolding charged_run_def charged_total_def
    by (rule sum_list_filter_le [OF A])
qed

section \<open>Properties\<close>

text \<open>
  What a run is charged: once the ledger replays, \<open>KnownMicrosForRun\<close> is the sum over the
  run's invocations of the settled amount, or of the reserved amount while the invocation is open;
  it fails exactly when the amounts of all runs together exceed \<open>int64\<close>.
\<close>

theorem run_charge:
  assumes "Reduce sha es = Inr p" "list_all event_int64 es" "run \<noteq> []"
  shows "KnownMicrosForRun p run =
    (if charged_total p \<le> MaxInt64 then Inr (charged_run p run) else Inl TotalOverflow)"
  using assms unfolding Reduce_def
  by (intro known_micros_eq cost_ledger.wf_replay_start)

text \<open>
  Replay tolerates redelivery: appending any events that are already in the journal, in any
  order and number, replays to the same projection, so nothing is charged twice.
\<close>

theorem reduce_redelivered:
  assumes "Reduce sha es = Inr p" "set ds \<subseteq> set es"
  shows "Reduce sha (es @ ds) = Inr p"
  using assms unfolding Reduce_def by (rule cost_ledger.replay_redelivered)

text \<open>
  The journal freezes what it accepted: whatever is appended later, a price resolved for a run
  keeps its contents, and an invocation keeps its reservation and, once settled, its settlement.
\<close>

theorem ledger_frozen:
  assumes "Reduce sha es = Inr p" "Reduce sha (es @ ds) = Inr q"
  shows "(Price p run i = Some price \<longrightarrow> Price q run i = Some price) \<and>
         (Invocation p run k = Some v \<longrightarrow>
            (\<exists>w. Invocation q run k = Some w \<and> ip_reservation w = ip_reservation v \<and>
                 (ip_settlement v \<noteq> None \<longrightarrow> w = v)))"
proof -
  from assms have R: "replay_with (applyR sha) p ds = Inr q"
    by (simp add: Reduce_def replay_with_append)
  have "Price p run i = Some price \<Longrightarrow> Price q run i = Some price"
    using R
  proof (induction ds arbitrary: p)
    case (Cons d ds)
    then show ?case by (auto simp: bindR_eq_Inr intro: price_stable)
  qed simp
  moreover have "Invocation p run k = Some v \<Longrightarrow>
      \<exists>w. Invocation q run k = Some w \<and> ip_reservation w = ip_reservation v \<and>
          (ip_settlement v \<noteq> None \<longrightarrow> w = v)"
    using R
  proof (induction ds arbitrary: p v)
    case (Cons d ds)
    then obtain p1 where p1: "applyR sha p d = Inr p1" "replay_with (applyR sha) p1 ds = Inr q"
      by (auto simp: bindR_eq_Inr)
    obtain v1 where v1: "Invocation p1 run k = Some v1" "ip_reservation v1 = ip_reservation v"
      "ip_settlement v \<noteq> None \<longrightarrow> v1 = v"
      using invocation_stable [OF Cons.prems(1) p1(1)] by blast
    from Cons.IH [OF v1(1) p1(2)] v1(2,3) show ?case by auto
  qed simp
  ultimately show ?thesis by blast
qed

text \<open>
  No charge without a price: every invocation of a replayed ledger was reserved under a price
  snapshot resolved for the same run, with the invocation's target and billing mode, and that
  snapshot passes validation; a settlement answers its own reservation.
\<close>

theorem invocation_priced:
  assumes "Reduce sha es = Inr p" "list_all event_int64 es" "Invocation p run k = Some i"
  shows "\<exists>price. Price p (run_of i) (rv_price_id (ip_reservation i)) = Some price \<and>
           ps_target price = rv_target (ip_reservation i) \<and> ps_mode price = rv_mode (ip_reservation i) \<and>
           ValidatePriceSnapshot sha price = Inr () \<and>
           (\<forall>s. ip_settlement i = Some s \<longrightarrow> sameInvocation (ip_reservation i) s)"
proof -
  have wf: "wf_projection sha p"
    using assms(1,2) unfolding Reduce_def by (rule cost_ledger.wf_replay_start [rotated])
  from assms(3) have "(invocationKey run k, i) \<in> set (prj_invocations p)"
    by (simp add: Invocation_def map_of_SomeD)
  with wf have ok: "invocation_ok (prj_prices p) (invocationKey run k, i)" by (auto simp: wf_projection_def)
  then obtain price where price: "Price p (run_of i) (rv_price_id (ip_reservation i)) = Some price"
    "ps_target price = rv_target (ip_reservation i)" "ps_mode price = rv_mode (ip_reservation i)"
    by (auto simp: invocation_ok_def reservation_ok_def Price_def run_of_def split: option.splits)
  moreover from price(1) wf have "ValidatePriceSnapshot sha price = Inr ()"
    by (auto simp: Price_def wf_projection_def price_entry_def dest!: map_of_SomeD)
  ultimately show ?thesis
    using ok by (auto simp: invocation_ok_def settlement_ok_def)
qed

section \<open>A small journal\<close>

abbreviation demo_sha :: digest where "demo_sha \<equiv> (\<lambda>_. ''x'')"

definition demo_ident :: invocation_identity where
  "demo_ident = \<lparr>ii_invocation = ''i1'', ii_run = ''r1'', ii_task = ''t1'', ii_attempt = 1,
     ii_agent = ''a'', ii_role = ''dev'', ii_purpose = ''task''\<rparr>"

definition demo_reservation :: reservation_event where
  "demo_reservation = \<lparr>rv_schema = 1, rv_ident = demo_ident, rv_target = ''ollama/q'',
     rv_price_id = ''sha256:78'', rv_input_tokens = 10, rv_output_tokens = 20, rv_micros = Some 55,
     rv_source = EstimateAdmissionBound, rv_mode = BillingMetered, rv_at = ''2025-01-02T03:04:05Z''\<rparr>"

definition demo_settlement :: settlement_event where
  "demo_settlement = \<lparr>se_schema = 1, se_ident = demo_ident, se_target = ''ollama/q'',
     se_price_id = ''sha256:78'', se_usage = None, se_micros = Some 40,
     se_source = EstimateUsage, se_mode = BillingMetered, se_outcome = OutcomeSuccess,
     se_at = ''2025-01-02T03:04:06Z''\<rparr>"

definition demo_journal :: "cost_event list" where
  "demo_journal =
     [PriceResolved (Some \<lparr>pe_schema = 1, pe_run = ''r1'', pe_price = sample_snapshot\<rparr>),
      Reserved (Some demo_reservation), Settled (Some demo_settlement)]"

definition demo_ledger :: projection where
  "demo_ledger = \<lparr>prj_available = True, prj_prices = [(priceKey ''r1'' ''sha256:78'', sample_snapshot)],
     prj_invocations = [(invocationKey ''r1'' ''i1'',
        \<lparr>ip_reservation = demo_reservation, ip_settlement = Some demo_settlement\<rparr>)],
     prj_warnings = [], prj_denials = []\<rparr>"

lemma demo_price_valid: "ValidatePriceSnapshot demo_sha sample_snapshot = Inr ()"
  by (rule resolved_price [OF sample_catalog, THEN conjunct1, of "''ollama/q''"]) (simp add: Resolve_def)

lemma demo_reservation_valid: "validateReservationEvent (Some demo_reservation) = Inr ()"
  by code_simp

lemma demo_settlement_valid: "validateSettlementEvent (Some demo_settlement) = Inr ()"
  by code_simp

definition demo_open :: projection where
  "demo_open = demo_ledger\<lparr>prj_invocations := [(invocationKey ''r1'' ''i1'',
     \<lparr>ip_reservation = demo_reservation, ip_settlement = None\<rparr>)]\<rparr>"

lemma demo_reduce_open: "Reduce demo_sha (take 2 demo_journal) = Inr demo_open"
proof -
  have "validMetadata ''r1''" by code_simp
  then have p: "validatePriceEvent demo_sha (Some \<lparr>pe_schema = 1, pe_run = ''r1'', pe_price = sample_snapshot\<rparr>) = Inr ()"
    by (simp add: validatePriceEvent_def EventSchemaVersion_def demo_price_valid)
  show ?thesis
    by (simp add: Reduce_def demo_journal_def applyR_def Apply_def p demo_reservation_valid
        NewProjection_def apply_price_def apply_reservation_def Let_def)
       (simp add: demo_open_def demo_ledger_def sample_snapshot_def demo_reservation_def
        demo_ident_def priceKey_def invocationKey_def)
qed

lemma demo_reduce: "Reduce demo_sha demo_journal = Inr demo_ledger"
proof -
  have "demo_journal = take 2 demo_journal @ [Settled (Some demo_settlement)]"
    by (simp add: demo_journal_def)
  moreover have "applyR demo_sha demo_open (Settled (Some demo_settlement)) = Inr demo_ledger"
    by (simp add: applyR_def Apply_def demo_settlement_valid apply_settlement_def sameInvocation_def Let_def)
       (simp add: demo_open_def demo_ledger_def demo_reservation_def demo_settlement_def
        demo_ident_def invocationKey_def sameInvocation_def)
  ultimately show ?thesis
    using demo_reduce_open unfolding Reduce_def by (metis cost_ledger.replay_snoc)
qed

lemma demo_int64: "list_all event_int64 demo_journal"
  by code_simp

theorem run_charge_witness: "KnownMicrosForRun demo_ledger ''r1'' = Inr 40"
proof -
  have "charged_total demo_ledger = 40" "charged_run demo_ledger ''r1'' = 40" by code_simp+
  with run_charge [OF demo_reduce demo_int64, of "''r1''"] show ?thesis by (simp add: MaxInt64_def)
qed

theorem reduce_redelivered_witness:
  "Reduce demo_sha (demo_journal @ [demo_journal ! 1, demo_journal ! 0]) = Inr demo_ledger"
  by (rule reduce_redelivered [OF demo_reduce]) (simp add: demo_journal_def)

theorem ledger_frozen_witness:
  "Reduce demo_sha (take 2 demo_journal @ drop 2 demo_journal) = Inr demo_ledger \<and>
   Price demo_ledger ''r1'' ''sha256:78'' = Some sample_snapshot \<and>
   (\<exists>w. Invocation demo_ledger ''r1'' ''i1'' = Some w \<and> ip_reservation w = demo_reservation)"
proof -
  have d: "Reduce demo_sha (take 2 demo_journal @ drop 2 demo_journal) = Inr demo_ledger"
    using demo_reduce by simp
  have "Price demo_open ''r1'' ''sha256:78'' = Some sample_snapshot"
    "Invocation demo_open ''r1'' ''i1'' = Some \<lparr>ip_reservation = demo_reservation, ip_settlement = None\<rparr>"
    by (simp_all add: Price_def Invocation_def demo_open_def demo_ledger_def)
  with ledger_frozen [OF demo_reduce_open d, of "''r1''" "''sha256:78''" sample_snapshot "''i1''"
      "\<lparr>ip_reservation = demo_reservation, ip_settlement = None\<rparr>"] d show ?thesis by auto
qed

theorem invocation_priced_witness:
  "ValidatePriceSnapshot demo_sha sample_snapshot = Inr ()"
proof -
  let ?i = "\<lparr>ip_reservation = demo_reservation, ip_settlement = Some demo_settlement\<rparr>"
  have "Invocation demo_ledger ''r1'' ''i1'' = Some ?i"
    by (simp add: Invocation_def demo_ledger_def)
  moreover have "Price demo_ledger ''r1'' ''sha256:78'' = Some sample_snapshot"
    by (simp add: Price_def demo_ledger_def)
  ultimately show ?thesis
    using invocation_priced [OF demo_reduce demo_int64, of "''r1''" "''i1''" ?i]
    by (auto simp: run_of_def demo_reservation_def demo_ident_def)
qed

end
