(* ===== verification/Cost_Policy.thy ===== *)
theory Cost_Policy
  imports Cost_Catalog
begin

text \<open>
  \<open>internal/cost/policy.go\<close>: the authored run budget resolved to micros, and the frozen snapshot
  of budget and prices a run carries. The YAML decoding is not modelled; the fields it fills are
  the record \<open>policy_config\<close>, with the empty string for an omitted one.
\<close>

section \<open>Data\<close>

datatype unknown_price_policy = UnknownPriceAllow | UnknownPriceDeny | UnknownPriceOther string

text \<open>The zero value of the Go type is the empty string.\<close>

abbreviation no_unknown_price_policy :: unknown_price_policy where
  "no_unknown_price_policy \<equiv> UnknownPriceOther []"

fun unknown_price_text :: "unknown_price_policy \<Rightarrow> string" where
  "unknown_price_text UnknownPriceAllow = ''allow''"
| "unknown_price_text UnknownPriceDeny = ''deny''"
| "unknown_price_text (UnknownPriceOther s) = s"

record policy_config =
  cfg_max_run :: string
  cfg_warning_run :: string
  cfg_unknown :: unknown_price_policy

record run_policy =
  rp_configured :: bool
  rp_max :: "int option"
  rp_warning :: "int option"
  rp_unknown :: unknown_price_policy

record policy_snapshot =
  pol_max :: "int option"
  pol_warning :: "int option"
  pol_unknown :: unknown_price_policy
  pol_prices :: "price_snapshot list"
  pol_hash :: string

section \<open>Resolving the authored policy\<close>

text \<open>An omitted limit is \<open>None\<close>; a present one must parse to a positive amount.\<close>

definition parse_limit :: "cost_error \<Rightarrow> string \<Rightarrow> cost_error + int option" where
  "parse_limit err v =
     (if v = [] then Inr None
      else case ParseUSDMicros v of
             Inl _ \<Rightarrow> Inl err
           | Inr m \<Rightarrow> if m \<le> 0 then Inl err else Inr (Some m))"

definition ResolveRunPolicy :: "policy_config option \<Rightarrow> cost_error + run_policy" where
  "ResolveRunPolicy config =
     (case config of
        None \<Rightarrow> Inr \<lparr>rp_configured = False, rp_max = None, rp_warning = None, rp_unknown = UnknownPriceAllow\<rparr>
      | Some c \<Rightarrow>
          bindR (parse_limit BadMaxRun (cfg_max_run c)) (\<lambda>mx.
          bindR (parse_limit BadWarningRun (cfg_warning_run c)) (\<lambda>wn.
            let unknown = (if cfg_unknown c \<noteq> no_unknown_price_policy then cfg_unknown c
                           else if mx \<noteq> None then UnknownPriceDeny else UnknownPriceAllow)
            in if unknown \<noteq> UnknownPriceAllow \<and> unknown \<noteq> UnknownPriceDeny then Inl BadUnknownPolicy
               else if mx \<noteq> None \<and> cfg_unknown c = UnknownPriceAllow then Inl MaxNeedsDeny
               else if (case (wn, mx) of (Some w, Some m) \<Rightarrow> w > m | _ \<Rightarrow> False) then Inl WarningAboveMax
               else Inr \<lparr>rp_configured = True, rp_max = mx, rp_warning = wn, rp_unknown = unknown\<rparr>)))"

section \<open>The frozen snapshot\<close>

definition policyHashDomain :: string where
  "policyHashDomain = ''hufu-cost-policy-v1'' @ [CHR 0x00]"

text \<open>The hash is taken over the snapshot with its own hash emptied, so the field is not an argument.\<close>

definition policySnapshotHash :: "digest \<Rightarrow> policy_snapshot \<Rightarrow> string" where
  "policySnapshotHash sha s =
     hashJSON sha policyHashDomain
       (json_object
         [json_opt ''max_run_micros'' (pol_max s),
          json_opt ''warning_run_micros'' (pol_warning s),
          (''unknown_price_policy'', Some (json_string (unknown_price_text (pol_unknown s)))),
          (''prices'', if pol_prices s = [] then None else Some (json_array (map price_json (pol_prices s)))),
          (''policy_hash'', Some (json_string []))])"

text \<open>The loop over the prices: each must validate and follow the one before it in target order.\<close>

fun check_prices :: "digest \<Rightarrow> price_snapshot option \<Rightarrow> price_snapshot list \<Rightarrow> cost_error + unit" where
  "check_prices sha prev [] = Inr ()"
| "check_prices sha prev (p # ps) =
     bindR (ValidatePriceSnapshot sha p) (\<lambda>_.
       if (case prev of None \<Rightarrow> False | Some q \<Rightarrow> \<not> ps_target q < ps_target p) then Inl PricesUnordered
       else check_prices sha (Some p) ps)"

definition ValidatePolicySnapshot :: "digest \<Rightarrow> policy_snapshot option \<Rightarrow> cost_error + unit" where
  "ValidatePolicySnapshot sha snapshot =
     (case snapshot of
        None \<Rightarrow> Inr ()
      | Some s \<Rightarrow>
          if pol_unknown s \<noteq> UnknownPriceAllow \<and> pol_unknown s \<noteq> UnknownPriceDeny then Inl BadUnknownPolicy
          else if (case pol_max s of None \<Rightarrow> False | Some m \<Rightarrow> m \<le> 0) then Inl SnapshotBadMax
          else if pol_max s \<noteq> None \<and> pol_unknown s \<noteq> UnknownPriceDeny then Inl MaxNeedsDeny
          else if (case pol_warning s of None \<Rightarrow> False | Some w \<Rightarrow> w \<le> 0) then Inl SnapshotBadWarning
          else if (case (pol_max s, pol_warning s) of (Some m, Some w) \<Rightarrow> w > m | _ \<Rightarrow> False)
            then Inl WarningAboveMax
          else bindR (check_prices sha None (pol_prices s)) (\<lambda>_.
            if pol_hash s \<noteq> policySnapshotHash sha s then Inl PolicyHashMismatch else Inr ()))"

text \<open>
  The sort need not be stable: two prices with one target are rejected by the validation that
  follows, and otherwise the order is the only one.
\<close>

definition NewPolicySnapshot ::
  "digest \<Rightarrow> run_policy \<Rightarrow> price_snapshot list \<Rightarrow> cost_error + policy_snapshot option" where
  "NewPolicySnapshot sha policy prices =
     (if \<not> rp_configured policy \<and> prices = [] then Inr None
      else
        let s = \<lparr>pol_max = rp_max policy, pol_warning = rp_warning policy,
                 pol_unknown = (if rp_unknown policy = no_unknown_price_policy then UnknownPriceAllow
                                else rp_unknown policy),
                 pol_prices = sort_key ps_target prices, pol_hash = []\<rparr>;
            s = s\<lparr>pol_hash := policySnapshotHash sha s\<rparr>
        in bindR (ValidatePolicySnapshot sha (Some s)) (\<lambda>_. Inr (Some s)))"

section \<open>Facts\<close>

lemma policySnapshotHash_frame [simp]: "policySnapshotHash sha (s\<lparr>pol_hash := h\<rparr>) = policySnapshotHash sha s"
  by (simp add: policySnapshotHash_def)

lemma parse_limit_positive: "parse_limit e v = Inr (Some m) \<Longrightarrow> 0 < m \<and> m \<le> MaxInt64"
  by (auto simp: parse_limit_def amount_def dest: ParseUSDMicros_amount split: if_splits sum.splits)

definition limits_ok :: "int option \<Rightarrow> int option \<Rightarrow> unknown_price_policy \<Rightarrow> bool" where
  "limits_ok mx wn unknown \<longleftrightarrow>
     (case mx of None \<Rightarrow> True | Some m \<Rightarrow> 0 < m \<and> unknown = UnknownPriceDeny) \<and>
     (case wn of None \<Rightarrow> True | Some w \<Rightarrow> 0 < w) \<and>
     (case (mx, wn) of (Some m, Some w) \<Rightarrow> w \<le> m | _ \<Rightarrow> True) \<and>
     (unknown = UnknownPriceAllow \<or> unknown = UnknownPriceDeny)"

lemma resolve_limits:
  assumes "ResolveRunPolicy config = Inr p"
  shows "limits_ok (rp_max p) (rp_warning p) (rp_unknown p)"
  using assms
  by (auto simp: ResolveRunPolicy_def limits_ok_def bindR_eq_Inr Let_def
      dest!: parse_limit_positive split: option.splits if_splits)

lemma check_prices_ok:
  assumes "\<forall>p \<in> set ps. ValidatePriceSnapshot sha p = Inr ()" "sorted_wrt (<) (map ps_target ps)"
    "\<forall>q. prev = Some q \<longrightarrow> (\<forall>p \<in> set ps. ps_target q < ps_target p)"
  shows "check_prices sha prev ps = Inr ()"
  using assms
  by (induction sha prev ps rule: check_prices.induct) (auto split: option.splits)

lemma validate_policy_limits:
  "ValidatePolicySnapshot sha (Some s) = Inr () \<Longrightarrow> limits_ok (pol_max s) (pol_warning s) (pol_unknown s)"
  by (auto simp: ValidatePolicySnapshot_def limits_ok_def split: if_splits option.splits)

lemma validate_policy_ok:
  assumes "limits_ok (pol_max s) (pol_warning s) (pol_unknown s)"
    "check_prices sha None (pol_prices s) = Inr ()" "pol_hash s = policySnapshotHash sha s"
  shows "ValidatePolicySnapshot sha (Some s) = Inr ()"
  using assms by (auto simp: ValidatePolicySnapshot_def limits_ok_def split: option.splits)

lemma snapshots_catalog:
  assumes "NewCatalog sha configs = Inr c"
  shows "distinct (map ps_target (Snapshots c))" "\<forall>p \<in> set (Snapshots c). ValidatePriceSnapshot sha p = Inr ()"
proof -
  have keys: "distinct (map fst (cat_prices c))"
    using assms compile_all_targets
    by (fastforce simp: NewCatalog_def bindR_eq_Inr Let_def comp_def split_beta)
  have at: "Resolve c t = Some (the (map_of (cat_prices c) t))" if "t \<in> set (map fst (cat_prices c))" for t
    using that by (auto simp: Resolve_def map_of_eq_None_iff dest!: map_of_is_SomeI [OF keys])
  have tgt: "map ps_target (Snapshots c) = sort (map fst (cat_prices c))"
    using resolved_price(1) [OF assms at] by (auto simp: Snapshots_def intro!: map_idI)
  then show "distinct (map ps_target (Snapshots c))" using keys by simp
  show "\<forall>p \<in> set (Snapshots c). ValidatePriceSnapshot sha p = Inr ()"
    using resolved_price [OF assms at] by (auto simp: Snapshots_def)
qed

lemma new_policy_ok:
  assumes "limits_ok (rp_max p) (rp_warning p) (rp_unknown p)" "distinct (map ps_target ps)"
    "\<forall>x \<in> set ps. ValidatePriceSnapshot sha x = Inr ()" "rp_configured p \<or> ps \<noteq> []"
  obtains s where "NewPolicySnapshot sha p ps = Inr (Some s)"
    "ValidatePolicySnapshot sha (Some s) = Inr ()" "pol_max s = rp_max p" "pol_warning s = rp_warning p"
    "pol_unknown s = rp_unknown p" "mset (pol_prices s) = mset ps"
proof -
  define s0 where "s0 = \<lparr>pol_max = rp_max p, pol_warning = rp_warning p, pol_unknown = rp_unknown p,
     pol_prices = sort_key ps_target ps, pol_hash = []\<rparr>"
  define s where "s = s0\<lparr>pol_hash := policySnapshotHash sha s0\<rparr>"
  have named: "rp_unknown p \<noteq> no_unknown_price_policy" using assms(1) by (auto simp: limits_ok_def)
  have srt: "sorted_wrt (<) (map ps_target (sort_key ps_target ps))"
    using assms(2) by (intro strict_sorted_iff [THEN iffD2] conjI)
      (simp_all add: distinct_map distinct_sort)
  have ok: "ValidatePolicySnapshot sha (Some s) = Inr ()"
    using assms(1,3) srt
    by (intro validate_policy_ok) (simp_all add: s_def s0_def policySnapshotHash_def check_prices_ok)
  have "NewPolicySnapshot sha p ps = Inr (Some s)"
    using assms(4) named ok by (auto simp: NewPolicySnapshot_def s_def s0_def Let_def)
  then show ?thesis using ok by (rule that) (simp_all add: s_def s0_def)
qed

section \<open>Properties\<close>

text \<open>
  An authored budget and an authored catalog always freeze: the snapshot is built, passes
  the validation every consumer applies (including its own hash), keeps the limits as authored,
  and a hard maximum always comes with the policy that denies unknown prices.
\<close>

theorem policy_freezes:
  assumes "ResolveRunPolicy (Some config) = Inr p" "NewCatalog sha configs = Inr c"
  shows "\<exists>s. NewPolicySnapshot sha p (Snapshots c) = Inr (Some s) \<and>
           ValidatePolicySnapshot sha (Some s) = Inr () \<and>
           pol_max s = rp_max p \<and> pol_warning s = rp_warning p \<and>
           (pol_max s \<noteq> None \<longrightarrow> pol_unknown s = UnknownPriceDeny)"
proof -
  note lim = resolve_limits [OF assms(1)]
  have "rp_configured p"
    using assms(1) by (auto simp: ResolveRunPolicy_def bindR_eq_Inr Let_def split: if_splits)
  with new_policy_ok [OF lim snapshots_catalog [OF assms(2)]]
  obtain s where "NewPolicySnapshot sha p (Snapshots c) = Inr (Some s)"
    "ValidatePolicySnapshot sha (Some s) = Inr ()" "pol_max s = rp_max p" "pol_warning s = rp_warning p"
    "pol_unknown s = rp_unknown p"
    by metis
  with lim show ?thesis by (auto simp: limits_ok_def split: option.splits)
qed

theorem policy_freezes_witness:
  "\<exists>p c s. ResolveRunPolicy (Some \<lparr>cfg_max_run = ''2'', cfg_warning_run = ''1.5'',
              cfg_unknown = no_unknown_price_policy\<rparr>) = Inr p \<and>
     NewCatalog (\<lambda>_. ''x'') sample_configs = Inr c \<and>
     NewPolicySnapshot (\<lambda>_. ''x'') p (Snapshots c) = Inr (Some s) \<and> pol_max s = Some 2000000 \<and>
     pol_unknown s = UnknownPriceDeny"
proof -
  let ?cfg = "\<lparr>cfg_max_run = ''2'', cfg_warning_run = ''1.5'', cfg_unknown = no_unknown_price_policy\<rparr>"
  let ?p = "\<lparr>rp_configured = True, rp_max = Some 2000000, rp_warning = Some 1500000,
    rp_unknown = UnknownPriceDeny\<rparr>"
  have r: "ResolveRunPolicy (Some ?cfg) = Inr ?p" by code_simp
  obtain c where c: "NewCatalog (\<lambda>_. ''x'') sample_configs = Inr c" using sample_catalog by blast
  from policy_freezes [OF r c] r c show ?thesis by auto
qed

end
