(* ===== verification/Cost_View.thy ===== *)
theory Cost_View
  imports Cost_Ledger Cost_Policy
begin

text \<open>
  \<open>internal/cost/view.go\<close>: the presentation projection of one run, optionally narrowed to a task,
  and the accounting identities between its figures.
\<close>

section \<open>Data\<close>

record view =
  vw_schema :: int
  vw_coverage :: string
  vw_available :: bool
  vw_run :: string
  vw_task :: string
  vw_known :: "int option"
  vw_usage :: "int option"
  vw_bound :: "int option"
  vw_open :: "int option"
  vw_open_count :: int
  vw_unknown :: int
  vw_local :: int
  vw_subscription :: int
  vw_budget :: "int option"
  vw_remaining :: "int option"
  vw_integrity :: string

definition ViewSchemaVersion :: int where "ViewSchemaVersion = 1"

definition new_view :: "bool \<Rightarrow> string \<Rightarrow> string \<Rightarrow> view" where
  "new_view available run task =
     \<lparr>vw_schema = ViewSchemaVersion, vw_coverage = ''generation_only'', vw_available = available,
      vw_run = run, vw_task = task, vw_known = None, vw_usage = None, vw_bound = None, vw_open = None,
      vw_open_count = 0, vw_unknown = 0, vw_local = 0, vw_subscription = 0, vw_budget = None,
      vw_remaining = None, vw_integrity = ''ok''\<rparr>"

section \<open>Operations\<close>

definition ValidateView :: "view \<Rightarrow> cost_error + unit" where
  "ValidateView v =
     (if vw_schema v \<noteq> ViewSchemaVersion then Inl ViewInvalid
      else if vw_coverage v \<noteq> ''generation_only'' then Inl ViewInvalid
      else if TrimSpace (vw_run v) = [] then Inl ViewRunRequired
      else if vw_integrity v \<notin> {''ok'', ''degraded'', ''invalid''} then Inl ViewInvalid
      else if list_ex (\<lambda>m. case m of None \<Rightarrow> False | Some x \<Rightarrow> x < 0)
                [vw_known v, vw_usage v, vw_bound v, vw_open v, vw_budget v, vw_remaining v]
        then Inl ViewInvalid
      else if vw_open_count v < 0 \<or> vw_unknown v < 0 \<or> vw_local v < 0 \<or> vw_subscription v < 0
        then Inl ViewInvalid
      else if vw_remaining v \<noteq> None \<and> (vw_budget v = None \<or> vw_integrity v \<noteq> ''ok'') then Inl ViewInvalid
      else Inr ())"

text \<open>The part of \<open>addInvocationToView\<close> that books the amount: known, then open, usage or bound.\<close>

definition view_amounts :: "view \<Rightarrow> estimate \<Rightarrow> bool \<Rightarrow> cost_error + view" where
  "view_amounts v e isOpen =
     bindR (case est_micros e of None \<Rightarrow> Inr v
            | Some m \<Rightarrow> bindR (addAggregateMicros (vw_known v) m) (\<lambda>k. Inr (v\<lparr>vw_known := k\<rparr>))) (\<lambda>v.
     if isOpen then
       let v = v\<lparr>vw_open_count := vw_open_count v + 1\<rparr>
       in case est_micros e of None \<Rightarrow> Inr v
          | Some m \<Rightarrow> bindR (addAggregateMicros (vw_open v) m) (\<lambda>k. Inr (v\<lparr>vw_open := k\<rparr>))
     else case est_source e of
       EstimateUsage \<Rightarrow>
         (case est_micros e of None \<Rightarrow> Inl NoAmount
          | Some m \<Rightarrow> bindR (addAggregateMicros (vw_usage v) m) (\<lambda>k. Inr (v\<lparr>vw_usage := k\<rparr>)))
     | EstimateAdmissionBound \<Rightarrow>
         (case est_micros e of None \<Rightarrow> Inl NoAmount
          | Some m \<Rightarrow> bindR (addAggregateMicros (vw_bound v) m) (\<lambda>k. Inr (v\<lparr>vw_bound := k\<rparr>)))
     | _ \<Rightarrow> Inr v)"

definition addInvocationToView :: "view \<Rightarrow> estimate \<Rightarrow> bool \<Rightarrow> cost_error + view" where
  "addInvocationToView v e isOpen =
     bindR (view_amounts v e isOpen) (\<lambda>v.
       case est_source e of
         EstimateNotMetered \<Rightarrow> Inr (v\<lparr>vw_local := vw_local v + 1\<rparr>)
       | EstimateSubscription \<Rightarrow> Inr (v\<lparr>vw_subscription := vw_subscription v + 1\<rparr>)
       | EstimateUnknown \<Rightarrow> Inr (v\<lparr>vw_unknown := vw_unknown v + 1\<rparr>)
       | SourceOther _ \<Rightarrow> Inl UnsupportedSource
       | _ \<Rightarrow> Inr v)"

text \<open>The loop over the invocations: the run total runs ahead of the task filter.\<close>

fun view_loop ::
  "string \<Rightarrow> string \<Rightarrow> int \<Rightarrow> view \<Rightarrow> invocation_projection list \<Rightarrow> cost_error + int \<times> view" where
  "view_loop run task known v [] = Inr (known, v)"
| "view_loop run task known v (i # rest) =
     (if run_of i \<noteq> run then view_loop run task known v rest
      else
        let (e, isOpen) = invocationEstimate i
        in bindR (case est_micros e of None \<Rightarrow> Inr known | Some m \<Rightarrow> addMicros [known, m]) (\<lambda>known.
             if task \<noteq> [] \<and> ii_task (rv_ident (ip_reservation i)) \<noteq> task
             then view_loop run task known v rest
             else bindR (addInvocationToView v e isOpen) (\<lambda>v. view_loop run task known v rest)))"

definition BuildView ::
  "digest \<Rightarrow> projection \<Rightarrow> policy_snapshot option \<Rightarrow> string \<Rightarrow> string \<Rightarrow> cost_error + view" where
  "BuildView sha p policy runID taskID =
     (let run = TrimSpace runID; task = TrimSpace taskID
      in if run = [] then Inl ViewRunRequired
         else bindR (ValidatePolicySnapshot sha policy) (\<lambda>_.
           let v = (new_view (prj_available p) run task)
                     \<lparr>vw_budget := Option.bind policy pol_max\<rparr>
           in if \<not> prj_available p then bindR (ValidateView v) (\<lambda>_. Inr v)
              else bindR (view_loop run task 0 v (sorted_invocations p)) (\<lambda>(known, v).
                let v = (case vw_budget v of None \<Rightarrow> v
                         | Some b \<Rightarrow> v\<lparr>vw_remaining := Some (max 0 (i64 (b - known)))\<rparr>)
                in bindR (ValidateView v) (\<lambda>_. Inr v))))"

section \<open>What the loop computes\<close>

definition view_value :: "view \<Rightarrow> int" where
  "view_value v = opt_micros (vw_known v)"

definition balanced :: "view \<Rightarrow> bool" where
  "balanced v \<longleftrightarrow> 0 \<le> opt_micros (vw_usage v) \<and> 0 \<le> opt_micros (vw_bound v) \<and> 0 \<le> opt_micros (vw_open v) \<and>
     view_value v = opt_micros (vw_usage v) + opt_micros (vw_bound v) + opt_micros (vw_open v)"

text \<open>What every step leaves alone, and the counters it only raises.\<close>

definition view_frame :: "view \<Rightarrow> view \<Rightarrow> bool" where
  "view_frame v w \<longleftrightarrow>
     vw_schema w = vw_schema v \<and> vw_coverage w = vw_coverage v \<and> vw_run w = vw_run v \<and>
     vw_task w = vw_task v \<and> vw_budget w = vw_budget v \<and> vw_remaining w = vw_remaining v \<and>
     vw_integrity w = vw_integrity v \<and> vw_available w = vw_available v \<and>
     vw_open_count v \<le> vw_open_count w \<and> vw_unknown v \<le> vw_unknown w \<and> vw_local v \<le> vw_local w \<and>
     vw_subscription v \<le> vw_subscription w"

lemma view_frame_refl [simp]: "view_frame v v"
  by (simp add: view_frame_def)

lemma view_frame_trans: "view_frame u v \<Longrightarrow> view_frame v w \<Longrightarrow> view_frame u w"
  by (simp add: view_frame_def)

lemma addInvocationToView_fits:
  assumes "balanced v" "estimate_ok e" "view_value v + opt_micros (est_micros e) \<le> MaxInt64"
  shows "\<exists>w. addInvocationToView v e opn = Inr w \<and> balanced w \<and> view_frame v w \<and>
             view_value w = view_value v + opt_micros (est_micros e)"
proof (cases "est_micros e")
  case None
  with assms have "est_source e = EstimateNotMetered \<or> est_source e = EstimateSubscription \<or>
      est_source e = EstimateUnknown"
    by (auto simp: estimate_ok_def)
  with None assms show ?thesis
    by (cases opn)
       (auto simp: addInvocationToView_def view_amounts_def balanced_def view_value_def view_frame_def Let_def)
next
  case (Some m)
  with assms have "amount m" "amount (opt_micros (vw_known v))" "amount (opt_micros (vw_usage v))"
    "amount (opt_micros (vw_bound v))" "amount (opt_micros (vw_open v))"
    "opt_micros (vw_known v) + m \<le> MaxInt64" "opt_micros (vw_usage v) + m \<le> MaxInt64"
    "opt_micros (vw_bound v) + m \<le> MaxInt64" "opt_micros (vw_open v) + m \<le> MaxInt64"
    and src: "est_source e = EstimateUsage \<or> est_source e = EstimateAdmissionBound"
    by (auto simp: estimate_ok_def balanced_def view_value_def amount_def)
  with Some assms(1) src show ?thesis
    by (cases opn)
       (auto simp: addInvocationToView_def view_amounts_def balanced_def view_value_def view_frame_def
          Let_def addAggregateMicros_eq amount_def)
qed

definition in_view :: "string \<Rightarrow> string \<Rightarrow> invocation_projection \<Rightarrow> bool" where
  "in_view run task i \<longleftrightarrow> run_of i = run \<and> (task = [] \<or> ii_task (rv_ident (ip_reservation i)) = task)"

lemma view_loop_eq:
  assumes "\<forall>i \<in> set xs. estimate_ok (fst (invocationEstimate i))" "balanced v" "view_value v \<le> known"
    "known \<le> MaxInt64"
  shows "if known + sum_list (map charged (filter (\<lambda>i. run_of i = run) xs)) \<le> MaxInt64
         then \<exists>w. view_loop run task known v xs =
                 Inr (known + sum_list (map charged (filter (\<lambda>i. run_of i = run) xs)), w) \<and>
               balanced w \<and> view_frame v w \<and>
               view_value w = view_value v + sum_list (map charged (filter (in_view run task) xs))
         else view_loop run task known v xs = Inl TotalOverflow"
  using assms
proof (induction xs arbitrary: v known)
  case (Cons i xs)
  have rest: "0 \<le> sum_list (map charged (filter (\<lambda>i. run_of i = run) xs))"
    using Cons.prems(1) by (intro sum_list_nonneg_int) (auto intro: charged_nonneg)
  obtain e opn where eo: "invocationEstimate i = (e, opn)" by fastforce
  have e: "estimate_ok e" "charged i = opt_micros (est_micros e)" "0 \<le> charged i"
    using Cons.prems(1) eo charged_nonneg [of i] by (auto simp: charged_def)
  have k0: "0 \<le> known" using Cons.prems(2,3) by (simp add: balanced_def)
  show ?case
  proof (cases "run_of i = run")
    case False
    then have "\<not> in_view run task i" by (simp add: in_view_def)
    with False Cons.IH [of v known] Cons.prems show ?thesis by simp
  next
    case True
    have add: "(case est_micros e of None \<Rightarrow> Inr known | Some m \<Rightarrow> addMicros [known, m]) =
        (if known + charged i \<le> MaxInt64 then Inr (known + charged i) else Inl TotalOverflow)"
      using e Cons.prems(4) k0 addMicros_amounts [of "[known, charged i]"]
      by (auto simp: estimate_ok_def amount_def split: option.splits)
    show ?thesis
    proof (cases "known + charged i \<le> MaxInt64")
      case False
      with True rest add show ?thesis by (simp add: eo)
    next
      case fits: True
      show ?thesis
      proof (cases "in_view run task i")
        case True
        obtain w where w: "addInvocationToView v e opn = Inr w" "balanced w" "view_frame v w"
          "view_value w = view_value v + charged i"
          using addInvocationToView_fits [OF Cons.prems(2) e(1), of opn] Cons.prems(3) fits e(2) by auto
        have le: "view_value w \<le> known + charged i" using w(4) Cons.prems(3) by simp
        have step: "view_loop run task known v (i # xs) = view_loop run task (known + charged i) w xs"
          using True add fits w(1) by (auto simp: eo in_view_def)
        have "\<forall>i \<in> set xs. estimate_ok (fst (invocationEstimate i))" using Cons.prems(1) by simp
        from Cons.IH [OF this w(2) le fits] step True w(3,4) show ?thesis
          by (auto simp: in_view_def add.assoc intro: view_frame_trans split: if_splits)
      next
        case False
        have step: "view_loop run task known v (i # xs) = view_loop run task (known + charged i) v xs"
          using False True add fits by (auto simp: eo in_view_def)
        have le: "view_value v \<le> known + charged i" using Cons.prems(3) e(3) by simp
        have "\<forall>i \<in> set xs. estimate_ok (fst (invocationEstimate i))" using Cons.prems(1) by simp
        from Cons.IH [OF this Cons.prems(2) le fits] step True False show ?thesis
          by (auto simp: in_view_def add.assoc split: if_splits)
      qed
    qed
  qed
qed simp

lemma sorted_estimates:
  assumes "wf_projection sha p"
  shows "\<forall>i \<in> set (sorted_invocations p). estimate_ok (fst (invocationEstimate i))"
proof -
  have "set (sorted_invocations p) = set (invocation_list p)"
    using assms by (intro mset_eq_setD mset_sorted_invocations) (simp add: wf_projection_def)
  with wf_estimates [OF assms] show ?thesis by blast
qed

lemma ValidateView_ok:
  assumes "balanced v" "view_frame (new_view available run task\<lparr>vw_budget := b\<rparr>) v"
    "TrimSpace run = run" "run \<noteq> []" "\<forall>x. b = Some x \<longrightarrow> 0 \<le> x"
    "r = None \<or> (b \<noteq> None \<and> 0 \<le> the r)"
  shows "ValidateView (v\<lparr>vw_remaining := r\<rparr>) = Inr ()"
proof -
  have "0 \<le> view_value v" using assms(1) by (simp add: balanced_def)
  with assms show ?thesis
    by (auto simp: ValidateView_def view_frame_def new_view_def balanced_def view_value_def opt_micros_def
        ViewSchemaVersion_def split: option.splits)
qed

definition charged_view :: "projection \<Rightarrow> string \<Rightarrow> string \<Rightarrow> int" where
  "charged_view p run task = sum_list (map charged (filter (in_view run task) (invocation_list p)))"

section \<open>Properties\<close>

text \<open>
  The view of a run, or of one of its tasks, balances: its known figure is exactly what the
  ledger charges the selected invocations and is the sum of the usage-derived, admission-bound and
  open figures, and what remains of a hard budget is the budget less the charge of the whole run,
  never below zero. The only failure is a run whose charges exceed \<open>int64\<close>.
\<close>

theorem view_balances:
  assumes "Reduce sha (e # es) = Inr p" "list_all event_int64 (e # es)"
    "ValidatePolicySnapshot sha (Some pol) = Inr ()" "\<forall>m. pol_max pol = Some m \<longrightarrow> is_int64 m"
    "TrimSpace run = run" "run \<noteq> []" "TrimSpace task = task"
  shows "if charged_run p run \<le> MaxInt64
    then \<exists>v. BuildView sha p (Some pol) run task = Inr v \<and>
           opt_micros (vw_known v) = charged_view p run task \<and>
           opt_micros (vw_known v) = opt_micros (vw_usage v) + opt_micros (vw_bound v) + opt_micros (vw_open v) \<and>
           vw_budget v = pol_max pol \<and>
           vw_remaining v = map_option (\<lambda>b. max 0 (b - charged_run p run)) (pol_max pol)
    else BuildView sha p (Some pol) run task = Inl TotalOverflow"
proof -
  have wf: "wf_projection sha p"
    using assms(1,2) unfolding Reduce_def by (intro cost_ledger.wf_replay_start)
  have av: "prj_available p"
    using assms(1) cost_ledger.member_recorded [of sha NewProjection "e # es" p e] applyR_available
    unfolding Reduce_def by fastforce
  let ?v = "new_view True run task\<lparr>vw_budget := pol_max pol\<rparr>"
  have v0: "balanced ?v" "view_value ?v = 0"
    by (simp_all add: balanced_def view_value_def new_view_def)
  have d: "distinct (map fst (prj_invocations p))" using wf by (simp add: wf_projection_def)
  note L = view_loop_eq [OF sorted_estimates [OF wf] v0(1), of 0 run task, unfolded v0(2) charged_sums_sorted [OF d]
      charged_run_def [symmetric] charged_view_def [symmetric], simplified]
  have bud: "\<forall>x. pol_max pol = Some x \<longrightarrow> 0 \<le> x"
    using validate_policy_limits [OF assms(3)] by (auto simp: limits_ok_def)
  have room: "pol_max pol = Some b \<Longrightarrow> i64 (b - charged_run p run) = b - charged_run p run"
    if "charged_run p run \<le> MaxInt64" for b
    using that charged_run_le_total(1) [OF wf, of run] bud assms(4)
    by (intro i64_id) (auto simp: is_int64_def MinInt64_def MaxInt64_def)
  show ?thesis
  proof (cases "charged_run p run \<le> MaxInt64")
    case True
    with L obtain w where w: "view_loop run task 0 ?v (sorted_invocations p) = Inr (charged_run p run, w)"
      "balanced w" "view_frame ?v w" "view_value w = charged_view p run task"
      by auto
    let ?r = "map_option (\<lambda>b. max 0 (b - charged_run p run)) (pol_max pol)"
    have vb: "vw_budget w = pol_max pol" "vw_remaining w = None"
      using w(3) by (simp_all add: view_frame_def new_view_def)
    have "(case vw_budget w of None \<Rightarrow> w | Some b \<Rightarrow> w\<lparr>vw_remaining := Some (max 0 (i64 (b - charged_run p run)))\<rparr>) =
        w\<lparr>vw_remaining := ?r\<rparr>"
      using vb room [OF True] by (cases "pol_max pol") (simp_all add: view.equality)
    moreover have "ValidateView (w\<lparr>vw_remaining := ?r\<rparr>) = Inr ()"
      using bud assms(5,6) by (intro ValidateView_ok [OF w(2,3)]) (auto split: option.splits)
    ultimately have "BuildView sha p (Some pol) run task = Inr (w\<lparr>vw_remaining := ?r\<rparr>)"
      using assms(3,5,6,7) av w(1) by (simp add: BuildView_def Let_def)
    with True w(2,4) vb show ?thesis by (auto simp: balanced_def view_value_def)
  next
    case False
    with L assms(3,5,6,7) av show ?thesis by (simp add: BuildView_def Let_def)
  qed
qed

definition demo_policy :: policy_snapshot where
  "demo_policy = \<lparr>pol_max = Some 100, pol_warning = None, pol_unknown = UnknownPriceDeny,
     pol_prices = [sample_snapshot], pol_hash = ''sha256:78''\<rparr>"

lemma demo_policy_valid: "ValidatePolicySnapshot demo_sha (Some demo_policy) = Inr ()"
proof (rule validate_policy_ok)
  have "hex_of ''x'' = ''78''" by code_simp
  then show "pol_hash demo_policy = policySnapshotHash demo_sha demo_policy"
    by (simp add: policySnapshotHash_def hashJSON_def demo_policy_def)
qed (simp_all add: demo_policy_def limits_ok_def demo_price_valid)

theorem view_balances_witness:
  "\<exists>v. BuildView demo_sha demo_ledger (Some demo_policy) ''r1'' ''t1'' = Inr v \<and>
       vw_known v = Some 40 \<and> vw_remaining v = Some 60"
proof -
  have c: "charged_run demo_ledger ''r1'' = 40" "charged_view demo_ledger ''r1'' ''t1'' = 40"
    by (simp_all add: charged_run_def charged_view_def demo_ledger_def invocation_list_def in_view_def run_of_def
        charged_def invocationEstimate_def settlementEstimate_def demo_settlement_def
        demo_reservation_def demo_ident_def)
  have t: "TrimSpace ''r1'' = ''r1''" "TrimSpace ''t1'' = ''t1''" by code_simp+
  have m: "\<forall>m. pol_max demo_policy = Some m \<longrightarrow> is_int64 m" "pol_max demo_policy = Some 100"
    by (simp_all add: demo_policy_def is_int64_def MinInt64_def MaxInt64_def)
  obtain e es where j: "demo_journal = e # es" by (simp add: demo_journal_def)
  from view_balances [OF demo_reduce [unfolded j] demo_int64 [unfolded j] demo_policy_valid m(1) t(1) _ t(2)] m(2)
  show ?thesis by (auto simp: c MaxInt64_def opt_micros_def split: option.splits)
qed

end
