(* ===== verification/Event_Chain.thy ===== *)
theory Event_Chain
  imports Cost_Catalog
begin

text \<open>
  \<open>internal/eventchain/chain.go\<close>: the hash chain of the durable event journal. The SHA-256 function
  is the argument \<open>sha\<close> (raw digest bytes); the payload is its bytes.
\<close>

section \<open>Data\<close>

record entry =
  en_id :: string
  en_previous_id :: string
  en_type :: string
  en_timestamp :: string
  en_payload :: string
  en_previous_hash :: string
  en_hash :: string

record verifier =
  vr_sequence :: nat
  vr_previous_id :: string
  vr_previous_hash :: string

datatype chain_error = FirstNotRoot | BrokenLink | HashInvalid

section \<open>Operations\<close>

definition ComputeHash :: "digest \<Rightarrow> string \<Rightarrow> string \<Rightarrow> string \<Rightarrow> string \<Rightarrow> string \<Rightarrow> string" where
  "ComputeHash sha previousHash i eventType timestamp payload =
     hex_of (sha (previousHash @ i @ eventType @ timestamp @ payload))"

definition Verify :: "digest \<Rightarrow> verifier \<Rightarrow> entry \<Rightarrow> chain_error + verifier" where
  "Verify sha v e =
     (if vr_sequence v = 0 \<and> (en_previous_id e \<noteq> [] \<or> en_previous_hash e \<noteq> []) then Inl FirstNotRoot
      else if vr_sequence v \<noteq> 0 \<and>
              (en_previous_id e \<noteq> vr_previous_id v \<or> en_previous_hash e \<noteq> vr_previous_hash v)
        then Inl BrokenLink
      else if en_hash e \<noteq> ComputeHash sha (en_previous_hash e) (en_id e) (en_type e) (en_timestamp e) (en_payload e)
        then Inl HashInvalid
      else Inr \<lparr>vr_sequence = vr_sequence v + 1, vr_previous_id = en_id e, vr_previous_hash = en_hash e\<rparr>)"

definition ResumeVerifier :: "nat \<Rightarrow> string \<Rightarrow> string \<Rightarrow> verifier" where
  "ResumeVerifier sequence previousID previousHash =
     \<lparr>vr_sequence = sequence, vr_previous_id = previousID, vr_previous_hash = previousHash\<rparr>"

text \<open>The zero value \<open>Verifier{}\<close>.\<close>

definition new_verifier :: verifier where
  "new_verifier = ResumeVerifier 0 [] []"

definition verify_chain :: "digest \<Rightarrow> verifier \<Rightarrow> entry list \<Rightarrow> chain_error + verifier" where
  "verify_chain sha = replay_with (Verify sha)"

section \<open>Facts\<close>

text \<open>The bytes an entry's hash is taken over.\<close>

definition hashed :: "entry \<Rightarrow> string" where
  "hashed e = en_previous_hash e @ en_id e @ en_type e @ en_timestamp e @ en_payload e"

text \<open>A verifier is rooted when, before the first entry, it has no predecessor.\<close>

definition rooted :: "verifier \<Rightarrow> bool" where
  "rooted v \<longleftrightarrow> (vr_sequence v = 0 \<longrightarrow> vr_previous_id v = [] \<and> vr_previous_hash v = [])"

lemma Verify_Inr:
  "Verify sha v e = Inr w \<Longrightarrow> rooted v \<Longrightarrow>
   w = \<lparr>vr_sequence = vr_sequence v + 1, vr_previous_id = en_id e, vr_previous_hash = en_hash e\<rparr> \<and>
   en_previous_id e = vr_previous_id v \<and> en_previous_hash e = vr_previous_hash v \<and>
   en_hash e = hex_of (sha (hashed e))"
  by (auto simp: Verify_def rooted_def hashed_def ComputeHash_def split: if_splits)

lemma Verify_ok:
  "rooted v \<Longrightarrow> en_previous_id e = vr_previous_id v \<Longrightarrow> en_previous_hash e = vr_previous_hash v \<Longrightarrow>
   en_hash e = ComputeHash sha (en_previous_hash e) (en_id e) (en_type e) (en_timestamp e) (en_payload e) \<Longrightarrow>
   Verify sha v e = Inr \<lparr>vr_sequence = vr_sequence v + 1, vr_previous_id = en_id e, vr_previous_hash = en_hash e\<rparr>"
  by (auto simp: Verify_def rooted_def)

interpretation chain: ledger "Verify sha" "\<lambda>_. True" rooted new_verifier for sha
  by unfold_locales (auto simp: rooted_def new_verifier_def ResumeVerifier_def dest: Verify_Inr)

lemma verify_sequence:
  "verify_chain sha v es = Inr w \<Longrightarrow> vr_sequence w = vr_sequence v + length es"
  unfolding verify_chain_def
  by (induction es arbitrary: v) (auto simp: bindR_eq_Inr Verify_def split: if_splits)

lemma verify_snoc:
  assumes "verify_chain sha new_verifier (es @ [e]) = Inr w"
  obtains v where "verify_chain sha new_verifier es = Inr v" "Verify sha v e = Inr w" "rooted v"
proof -
  from assms obtain v where v: "verify_chain sha new_verifier es = Inr v" "Verify sha v e = Inr w"
    by (auto simp: verify_chain_def replay_with_append bindR_eq_Inr)
  then have "rooted v" unfolding verify_chain_def by (auto intro: chain.wf_replay_start simp: list_all_iff)
  with v show thesis by (rule that)
qed

lemma hex_digit_code: "d < 16 \<Longrightarrow> byte_of (hex_digit d) = (if d < 10 then 48 + d else 87 + d)"
  unfolding hex_digit_def by (simp add: of_char_of)

lemma hex_digit_inj:
  assumes "a < 16" "b < 16" "hex_digit a = hex_digit b"
  shows "a = b"
proof -
  have "(if a < 10 then 48 + a else 87 + a) = (if b < 10 then 48 + b else 87 + b)"
    unfolding hex_digit_code [OF assms(1), symmetric] hex_digit_code [OF assms(2), symmetric] assms(3) ..
  then show ?thesis using assms(1,2) by (auto split: if_splits)
qed

lemma hex_of_inj: "hex_of x = hex_of y \<Longrightarrow> x = y"
proof (induction x arbitrary: y)
  case Nil
  then show ?case by (cases y) (auto simp: hex_of_def)
next
  case (Cons a x)
  then obtain b y' where y: "y = b # y'" by (cases y) (auto simp: hex_of_def)
  have lt: "byte_of c div 16 < 16" for c
  proof -
    have "byte_of c < 256" by simp
    then show ?thesis by (simp add: less_mult_imp_div_less)
  qed
  from Cons y have "hex_of x = hex_of y'"
    "hex_digit (byte_of a div 16) = hex_digit (byte_of b div 16)"
    "hex_digit (byte_of a mod 16) = hex_digit (byte_of b mod 16)"
    by (auto simp: hex_of_def)
  then have "x = y'" and "byte_of a div 16 = byte_of b div 16" "byte_of a mod 16 = byte_of b mod 16"
    by (auto intro: Cons.IH hex_digit_inj [OF lt lt] hex_digit_inj [OF mod_less_divisor mod_less_divisor])
  then have "byte_of a = byte_of b" by (metis div_mult_mod_eq)
  with y \<open>x = y'\<close> show ?case by simp
qed

lemma hex_of_length: "length (hex_of s) = 2 * length s"
  by (induction s) (auto simp: hex_of_def)

lemma verify_head:
  assumes "verify_chain sha new_verifier es = Inr v" "es \<noteq> []"
  shows "vr_previous_hash v = hex_of (sha (hashed (last es)))"
proof -
  from assms(2) obtain zs e where es: "es = zs @ [e]" by (cases es rule: rev_cases) auto
  from verify_snoc [OF assms(1) [unfolded es]] show ?thesis
    by (metis Verify_Inr es last_snoc verifier.select_convs(3))
qed

text \<open>The digest has one length, and no two of the given byte strings share a digest.\<close>

definition collision_free :: "digest \<Rightarrow> string set \<Rightarrow> bool" where
  "collision_free sha S \<longleftrightarrow> (\<forall>s. length (sha s) = 32) \<and> inj_on sha S"

lemma same_head_same_history:
  assumes "collision_free sha (set (map hashed xs) \<union> set (map hashed ys))"
    and "verify_chain sha new_verifier xs = Inr v" "verify_chain sha new_verifier ys = Inr w"
    and "length xs = length ys" "vr_previous_hash v = vr_previous_hash w"
  shows "map hashed xs = map hashed ys \<and> map en_hash xs = map en_hash ys"
  using assms
proof (induction xs arbitrary: ys v w rule: rev_induct)
  case (snoc x xs)
  then obtain y zs where ys: "ys = zs @ [y]" by (cases ys rule: rev_cases) auto
  obtain v1 where v1: "verify_chain sha new_verifier xs = Inr v1" "Verify sha v1 x = Inr v" "rooted v1"
    using verify_snoc [OF snoc.prems(2)] .
  obtain w1 where w1: "verify_chain sha new_verifier zs = Inr w1" "Verify sha w1 y = Inr w" "rooted w1"
    using verify_snoc [OF snoc.prems(3) [unfolded ys]] .
  note X = Verify_Inr [OF v1(2,3)] and Y = Verify_Inr [OF w1(2,3)]
  have "hex_of (sha (hashed x)) = hex_of (sha (hashed y))"
    using verify_head [OF snoc.prems(2)] verify_head [OF snoc.prems(3)] snoc.prems(5) ys by simp
  then have "sha (hashed x) = sha (hashed y)" by (rule hex_of_inj)
  then have h: "hashed x = hashed y"
    by (rule inj_onD [OF conjunct2 [OF snoc.prems(1) [unfolded collision_free_def]]]) (simp_all add: ys)
  have len: "length xs = length zs" using snoc.prems(4) ys by simp
  have hash: "en_hash x = en_hash y" using X Y h by simp
  have cf: "collision_free sha (set (map hashed xs) \<union> set (map hashed zs))"
    using snoc.prems(1) ys by (auto simp: collision_free_def intro: inj_on_subset)
  show ?case
  proof (cases "xs = []")
    case True
    with len ys h hash show ?thesis by simp
  next
    case False
    with len have "zs \<noteq> []" by auto
    with verify_head [OF v1(1) False] verify_head [OF w1(1)] snoc.prems(1)
    have "length (vr_previous_hash v1) = length (vr_previous_hash w1)"
      by (simp add: hex_of_length collision_free_def)
    with h X Y have "vr_previous_hash v1 = vr_previous_hash w1"
      by (simp add: hashed_def)
    from snoc.IH [OF cf v1(1) w1(1) len this] h hash ys show ?thesis by simp
  qed
qed simp

section \<open>Properties\<close>

text \<open>
  Tamper evidence: two journals of one length that both verify and end in the same head hash
  agree, entry by entry, on every byte that is hashed and on every stored hash, as long as the
  digest has no collision among them.
\<close>

theorem chain_tamper_evident:
  assumes "collision_free sha (set (map hashed xs) \<union> set (map hashed ys))"
    and "verify_chain sha new_verifier xs = Inr v" "verify_chain sha new_verifier ys = Inr w"
    and "length xs = length ys" "vr_previous_hash v = vr_previous_hash w" "i < length xs"
  shows "hashed (xs ! i) = hashed (ys ! i) \<and> en_hash (xs ! i) = en_hash (ys ! i)"
  using same_head_same_history [OF assms(1-5)] assms(4,6)
  by (metis nth_map)

definition demo_digest :: digest where
  "demo_digest s = take 32 (rev s @ replicate 32 CHR ''0'')"

definition demo_entry :: entry where
  "demo_entry = \<lparr>en_id = ''e1'', en_previous_id = [], en_type = ''run_started'', en_timestamp = ''T'',
     en_payload = ''1'', en_previous_hash = [], en_hash = ComputeHash demo_digest [] ''e1'' ''run_started'' ''T'' ''1''\<rparr>"

theorem chain_tamper_evident_witness:
  "\<exists>v. verify_chain demo_digest new_verifier [demo_entry] = Inr v \<and>
       hashed ([demo_entry] ! 0) = ''e1run_startedT1''"
proof -
  have v: "verify_chain demo_digest new_verifier [demo_entry] =
      Inr \<lparr>vr_sequence = 1, vr_previous_id = ''e1'', vr_previous_hash = en_hash demo_entry\<rparr>"
    by (simp add: verify_chain_def Verify_def new_verifier_def ResumeVerifier_def demo_entry_def)
  have cf: "collision_free demo_digest (set (map hashed [demo_entry]) \<union> set (map hashed [demo_entry]))"
    by (auto simp: collision_free_def demo_digest_def min_def)
  from chain_tamper_evident [OF cf v v, of 0] v show ?thesis
    by (simp add: hashed_def demo_entry_def)
qed

text \<open>
  What the chain does not protect: the hashed fields are joined without separators, so moving
  the first byte of an entry's type to the end of its id leaves its hash, and the verdict on the
  entry, unchanged.
\<close>

theorem chain_boundary_unprotected:
  assumes "Verify sha v e = Inr w" "en_type e = c # t"
  shows "Verify sha v (e\<lparr>en_id := en_id e @ [c], en_type := t\<rparr>) =
         Inr (w\<lparr>vr_previous_id := en_id e @ [c]\<rparr>)"
proof -
  let ?e = "e\<lparr>en_id := en_id e @ [c], en_type := t\<rparr>"
  have "en_hash e = ComputeHash sha (en_previous_hash e) (en_id e) (en_type e) (en_timestamp e) (en_payload e)"
    and w: "w = \<lparr>vr_sequence = vr_sequence v + 1, vr_previous_id = en_id e, vr_previous_hash = en_hash e\<rparr>"
    using assms(1) by (auto simp: Verify_def split: if_split_asm)
  then have "en_hash ?e = ComputeHash sha (en_previous_hash ?e) (en_id ?e) (en_type ?e) (en_timestamp ?e) (en_payload ?e)"
    using assms(2) by (simp add: ComputeHash_def)
  moreover have "en_previous_id ?e = en_previous_id e" "en_previous_hash ?e = en_previous_hash e"
    "en_hash ?e = en_hash e" "en_id ?e = en_id e @ [c]" by simp_all
  ultimately show ?thesis
    using assms(1) w unfolding Verify_def by (auto split: if_split_asm simp del: entry.update_convs)
qed

theorem chain_boundary_unprotected_witness:
  "\<exists>w. Verify demo_digest new_verifier (demo_entry\<lparr>en_id := ''e1r'', en_type := ''un_started''\<rparr>) = Inr w"
proof -
  have e: "en_type demo_entry = CHR ''r'' # ''un_started''" "en_id demo_entry @ [CHR ''r''] = ''e1r''"
    by (simp_all add: demo_entry_def)
  have "Verify demo_digest new_verifier demo_entry =
      Inr \<lparr>vr_sequence = 1, vr_previous_id = ''e1'', vr_previous_hash = en_hash demo_entry\<rparr>"
    by (simp add: Verify_def new_verifier_def ResumeVerifier_def demo_entry_def)
  from chain_boundary_unprotected [OF this e(1)] show ?thesis by (simp add: e(2))
qed

end
