(* ===== verification/Event_Store.thy ===== *)
theory Event_Store
  imports Event_Chain
begin

text \<open>
  \<open>internal/team/event_store.go\<close>, \<open>event_store_append.go\<close> and \<open>event_store_sqlite.go\<close>: the
  idempotent, hash-chained append of the durable event journal. The rows of the table are a list
  in sequence order, shared by every writer; an \<open>event_store\<close> is one writer's validated view of a
  prefix of them. Rows are only ever inserted (the triggers that count rewrites are not modelled).
  A payload is of any type; what the store asks of it (its bytes, whether it is vacuous, its
  redaction, the typed checks of the privileged event types) is the record \<open>store_env\<close>.
\<close>

section \<open>Data\<close>

record 'p run_event =
  rev_schema :: int
  rev_id :: string
  rev_previous_id :: string
  rev_invocation :: string
  rev_run :: string
  rev_session :: string
  rev_branch :: string
  rev_task :: string
  rev_attempt :: int
  rev_actor :: string
  rev_type :: string
  rev_timestamp :: string
  rev_key :: string
  rev_payload :: 'p
  rev_previous_hash :: string
  rev_hash :: string

type_synonym identity = "string \<times> string"

record 'p event_store =
  st_run :: string
  st_invocation :: string
  st_session :: string
  st_branch :: string
  st_last_id :: string
  st_last_hash :: string
  st_sequence :: nat
  st_valid :: bool
  st_closed :: bool
  st_read_only :: bool
  st_events :: "'p run_event list"
  st_keys :: "(identity \<times> 'p run_event) list"

text \<open>
  \<open>env_admits\<close> is the strict decoding of the two privileged types before anything is stamped,
  \<open>env_decodes\<close> the \<open>ValidateEventPayload\<close> after it; \<open>env_replay\<close> compares a durable event with the request that replays it,
  and \<open>env_load\<close> is the check of a loaded event against the event that held its key.
\<close>

record 'p store_env =
  env_bytes :: "'p \<Rightarrow> string"
  env_vacuous :: "'p \<Rightarrow> bool"
  env_redact :: "'p \<Rightarrow> 'p option"
  env_admits :: "'p run_event \<Rightarrow> bool"
  env_decodes :: "'p run_event \<Rightarrow> bool"
  env_replay :: "'p run_event \<Rightarrow> 'p run_event \<Rightarrow> bool"
  env_load :: "'p run_event option \<Rightarrow> 'p run_event \<Rightarrow> bool"

text \<open>What the clock and the random source supply when an event is stamped.\<close>

record stamp =
  sm_id :: string
  sm_now :: string
  sm_recovery_run :: string
  sm_workspace_session :: string

datatype store_error =
    EmptyBatch | StoreClosed | StoreReadOnly | RecoverFailed | SyncFailed | HeadChanged
  | ReplayRejected | BatchConflict | EmptyTerminalPayload | RedactFailed | InvalidEvent
  | WriteFailed | CommitFailed | CommitHookFailed | LoadFailed chain_error | LoadRejected

text \<open>
  Faults of the database: an insert that fails rolls back; a failed commit leaves its durability
  unknown (the flag says whether the rows are there); a failed commit hook follows a commit.
\<close>

datatype fault = NoFault | InsertFault | CommitFault bool | HookFault

definition eventStoreSchemaVersion :: int where "eventStoreSchemaVersion = 2"

definition newEventIdempotencyIdentity :: "string \<Rightarrow> string \<Rightarrow> identity" where
  "newEventIdempotencyIdentity branchID key = (if branchID = [] then ''main'' else branchID, key)"

definition IsTerminalEvent :: "string \<Rightarrow> bool" where
  "IsTerminalEvent t \<longleftrightarrow>
     t \<in> {''run_finished'', ''task_completed'', ''task_failed'', ''task_blocked'', ''task_skipped'',
          ''task_protocol_incomplete'', ''task_cancelled''}"

definition EventDerivedForkCreated :: string where
  "EventDerivedForkCreated = ''derived_fork_created''"

section \<open>Loading rows\<close>

definition eventChainEntry :: "'p store_env \<Rightarrow> 'p run_event \<Rightarrow> entry" where
  "eventChainEntry env e =
     \<lparr>en_id = rev_id e, en_previous_id = rev_previous_id e, en_type = rev_type e,
      en_timestamp = rev_timestamp e, en_payload = env_bytes env (rev_payload e),
      en_previous_hash = rev_previous_hash e, en_hash = rev_hash e\<rparr>"

definition index_key :: "'p run_event \<Rightarrow> (identity \<times> 'p run_event) list \<Rightarrow> (identity \<times> 'p run_event) list" where
  "index_key e keys =
     (if rev_key e = [] then keys
      else AList.update (newEventIdempotencyIdentity (rev_branch e) (rev_key e)) e keys)"

text \<open>
  The loader's state and its verifier advance together, so the verifier is the one resumed at the
  head of the state.
\<close>

definition acceptLoadedEvent ::
  "'p store_env \<Rightarrow> digest \<Rightarrow> 'p event_store \<Rightarrow> 'p run_event \<Rightarrow> store_error + 'p event_store" where
  "acceptLoadedEvent env sha st e =
     (case Verify sha (ResumeVerifier (st_sequence st) (st_last_id st) (st_last_hash st)) (eventChainEntry env e) of
        Inl err \<Rightarrow> Inl (LoadFailed err)
      | Inr _ \<Rightarrow>
          if \<not> env_load env (if rev_key e = [] then None
                 else map_of (st_keys st) (newEventIdempotencyIdentity (rev_branch e) (rev_key e))) e
          then Inl LoadRejected
          else Inr (st\<lparr>st_events := st_events st @ [e], st_last_id := rev_id e, st_last_hash := rev_hash e,
                       st_keys := index_key e (st_keys st), st_sequence := st_sequence st + 1,
                       st_run := (if st_run st = [] then rev_run e else st_run st),
                       st_session := (if st_session st = [] then rev_session e else st_session st)\<rparr>))"

definition loadEvents ::
  "'p store_env \<Rightarrow> digest \<Rightarrow> 'p event_store \<Rightarrow> 'p run_event list \<Rightarrow> store_error + 'p event_store" where
  "loadEvents env sha st rows = replay_with (acceptLoadedEvent env sha) st (drop (st_sequence st) rows)"

definition invalidateState :: "'p event_store \<Rightarrow> 'p event_store" where
  "invalidateState st = st\<lparr>st_last_id := [], st_last_hash := [], st_sequence := 0, st_events := [],
                           st_keys := [], st_valid := False\<rparr>"

text \<open>The state a full load starts from: the identity defaults survive, nothing derived does.\<close>

definition blank_state :: "'p event_store \<Rightarrow> 'p event_store" where
  "blank_state st = st\<lparr>st_last_id := [], st_last_hash := [], st_sequence := 0, st_events := [],
                       st_keys := []\<rparr>"

definition loadFullState ::
  "'p store_env \<Rightarrow> digest \<Rightarrow> 'p event_store \<Rightarrow> 'p run_event list \<Rightarrow> store_error + 'p event_store" where
  "loadFullState env sha st rows = loadEvents env sha (blank_state st) rows"

definition reload ::
  "'p store_env \<Rightarrow> digest \<Rightarrow> 'p event_store \<Rightarrow> 'p run_event list \<Rightarrow> 'p event_store \<times> store_error option" where
  "reload env sha st rows =
     (if st_closed st then (st, Some StoreClosed)
      else case loadFullState env sha st rows of
             Inl err \<Rightarrow> (invalidateState st, Some err)
           | Inr st' \<Rightarrow> (st'\<lparr>st_valid := True\<rparr>, None))"

section \<open>Preparing an event\<close>

definition stamp_run :: "stamp \<Rightarrow> 'p event_store \<Rightarrow> 'p run_event \<Rightarrow> 'p event_store" where
  "stamp_run sm st e =
     (if rev_run e = [] \<and> rev_type e \<noteq> EventDerivedForkCreated \<and> st_run st = []
      then st\<lparr>st_run := sm_recovery_run sm\<rparr> else st)"

definition stamp_session :: "stamp \<Rightarrow> 'p event_store \<Rightarrow> 'p run_event \<Rightarrow> 'p event_store" where
  "stamp_session sm st e =
     (if rev_session e = [] \<and> st_session st = [] then st\<lparr>st_session := sm_workspace_session sm\<rparr> else st)"

definition stamped :: "stamp \<Rightarrow> 'p event_store \<Rightarrow> 'p run_event \<Rightarrow> 'p run_event" where
  "stamped sm st e =
     e\<lparr>rev_schema := (if rev_schema e = 0 then eventStoreSchemaVersion else rev_schema e),
       rev_id := (if rev_id e = [] then sm_id sm else rev_id e),
       rev_run := (if rev_run e = [] \<and> rev_type e \<noteq> EventDerivedForkCreated then st_run st else rev_run e),
       rev_invocation := (if rev_invocation e = [] then st_invocation st else rev_invocation e),
       rev_session := (if rev_session e = [] then st_session st else rev_session e),
       rev_branch := (if rev_branch e = [] then st_branch st else rev_branch e),
       rev_timestamp := (if rev_timestamp e = [] then sm_now sm else rev_timestamp e)\<rparr>"

definition chained :: "'p store_env \<Rightarrow> digest \<Rightarrow> 'p event_store \<Rightarrow> 'p run_event \<Rightarrow> 'p run_event" where
  "chained env sha st e =
     e\<lparr>rev_previous_id := st_last_id st, rev_previous_hash := st_last_hash st,
       rev_hash := ComputeHash sha (st_last_hash st) (rev_id e) (rev_type e) (rev_timestamp e)
                     (env_bytes env (rev_payload e))\<rparr>"

definition prepareEvent ::
  "'p store_env \<Rightarrow> digest \<Rightarrow> stamp \<Rightarrow> 'p event_store \<Rightarrow> 'p run_event \<Rightarrow>
   'p event_store \<times> (store_error + 'p run_event)" where
  "prepareEvent env sha sm st e =
     (if \<not> env_admits env e then (st, Inl InvalidEvent)
      else if IsTerminalEvent (rev_type e) \<and> env_vacuous env (rev_payload e) then (st, Inl EmptyTerminalPayload)
      else case env_redact env (rev_payload e) of
        None \<Rightarrow> (st, Inl RedactFailed)
      | Some payload \<Rightarrow>
          let e = e\<lparr>rev_payload := payload\<rparr>;
              st = stamp_session sm (stamp_run sm st e) e;
              e = stamped sm st e
          in if \<not> env_decodes env e then (st, Inl InvalidEvent)
             else (st, Inr (chained env sha st e)))"

section \<open>Batches\<close>

definition event_identity :: "'p run_event \<Rightarrow> identity" where
  "event_identity e = newEventIdempotencyIdentity (rev_branch e) (rev_key e)"

fun prepare_batch ::
  "'p store_env \<Rightarrow> digest \<Rightarrow> bool \<Rightarrow> identity list \<Rightarrow> 'p event_store \<Rightarrow> (stamp \<times> 'p run_event) list \<Rightarrow>
   'p event_store \<times> (store_error + 'p run_event list)" where
  "prepare_batch env sha multi seen st [] = (st, Inr [])"
| "prepare_batch env sha multi seen st ((sm, e) # reqs) =
     (case prepareEvent env sha sm st e of
        (st', Inl err) \<Rightarrow> (st', Inl err)
      | (st', Inr p) \<Rightarrow>
          if multi \<and> (rev_key p = [] \<or> event_identity p \<in> set seen) then (st', Inl BatchConflict)
          else case prepare_batch env sha multi (event_identity p # seen)
                      (st'\<lparr>st_last_id := rev_id p, st_last_hash := rev_hash p\<rparr>) reqs of
                 (st'', Inl err) \<Rightarrow> (st'', Inl err)
               | (st'', Inr ps) \<Rightarrow> (st'', Inr (p # ps)))"

text \<open>Staging moves only the chain cursor, which is put back.\<close>

definition prepareEventBatch ::
  "'p store_env \<Rightarrow> digest \<Rightarrow> 'p event_store \<Rightarrow> (stamp \<times> 'p run_event) list \<Rightarrow>
   'p event_store \<times> (store_error + 'p run_event list)" where
  "prepareEventBatch env sha st reqs =
     (case prepare_batch env sha (1 < length reqs) [] st reqs of
        (st', r) \<Rightarrow> (st'\<lparr>st_last_id := st_last_id st, st_last_hash := st_last_hash st\<rparr>, r))"

definition sameBatchEventContent :: "'p run_event \<Rightarrow> 'p run_event \<Rightarrow> bool" where
  "sameBatchEventContent a b \<longleftrightarrow>
     rev_schema a = rev_schema b \<and> rev_type a = rev_type b \<and> rev_actor a = rev_actor b \<and>
     rev_run a = rev_run b \<and> rev_session a = rev_session b \<and> rev_branch a = rev_branch b \<and>
     rev_task a = rev_task b \<and> rev_attempt a = rev_attempt b \<and> rev_key a = rev_key b \<and>
     rev_payload a = rev_payload b"

text \<open>The durable event a request replays, if its key is taken.\<close>

definition prior_event :: "'p event_store \<Rightarrow> 'p run_event \<Rightarrow> 'p run_event option" where
  "prior_event st e =
     (if rev_key e = [] then None
      else map_of (st_keys st)
             (newEventIdempotencyIdentity (if rev_branch e = [] then st_branch st else rev_branch e) (rev_key e)))"

fun replay_batch ::
  "'p store_env \<Rightarrow> digest \<Rightarrow> bool \<Rightarrow> 'p run_event list \<Rightarrow> 'p event_store \<Rightarrow> (stamp \<times> 'p run_event) list \<Rightarrow>
   'p event_store \<times> (store_error + 'p run_event list)" where
  "replay_batch env sha multi prior st [] = (st, Inr prior)"
| "replay_batch env sha multi prior st ((sm, e) # reqs) =
     (case prior_event st e of
        None \<Rightarrow> replay_batch env sha multi prior st reqs
      | Some d \<Rightarrow>
          if \<not> env_replay env d e then (st, Inl ReplayRejected)
          else if multi then
            (case prepareEvent env sha sm st e of
               (st', Inl err) \<Rightarrow> (st', Inl err)
             | (st', Inr c) \<Rightarrow>
                 if \<not> sameBatchEventContent c d \<or> (prior \<noteq> [] \<and> rev_previous_id d \<noteq> rev_id (last prior))
                 then (st', Inl BatchConflict)
                 else replay_batch env sha multi (prior @ [d]) st' reqs)
          else replay_batch env sha multi (prior @ [d]) st reqs)"

definition replayedEventBatch ::
  "'p store_env \<Rightarrow> digest \<Rightarrow> 'p event_store \<Rightarrow> (stamp \<times> 'p run_event) list \<Rightarrow>
   'p event_store \<times> (store_error + 'p run_event list)" where
  "replayedEventBatch env sha st reqs =
     (case replay_batch env sha (1 < length reqs) [] st reqs of
        (st', Inl err) \<Rightarrow> (st', Inl err)
      | (st', Inr prior) \<Rightarrow>
          if prior \<noteq> [] \<and> length prior \<noteq> length reqs then (st', Inl BatchConflict) else (st', Inr prior))"

definition publish_event :: "'p run_event \<Rightarrow> 'p event_store \<Rightarrow> 'p event_store" where
  "publish_event e st =
     st\<lparr>st_sequence := st_sequence st + 1, st_last_id := rev_id e, st_last_hash := rev_hash e,
        st_keys := index_key e (st_keys st), st_events := st_events st @ [e]\<rparr>"

section \<open>The append\<close>

text \<open>The transaction, once the store's view includes every committed row.\<close>

definition append_synced ::
  "'p store_env \<Rightarrow> digest \<Rightarrow> fault \<Rightarrow> string option \<Rightarrow> 'p event_store \<Rightarrow> 'p run_event list \<Rightarrow>
   (stamp \<times> 'p run_event) list \<Rightarrow>
   'p event_store \<times> 'p run_event list \<times> (store_error + 'p run_event list)" where
  "append_synced env sha fault expectedHead st rows reqs =
     (if expectedHead \<noteq> None \<and> st_last_id st \<noteq> the expectedHead then (st, rows, Inl HeadChanged)
      else case replayedEventBatch env sha st reqs of
        (st, Inl err) \<Rightarrow> (st, rows, Inl err)
      | (st, Inr prior) \<Rightarrow>
          if prior \<noteq> [] then (st, rows, Inr prior)
          else case prepareEventBatch env sha st reqs of
            (st, Inl err) \<Rightarrow> (st, rows, Inl err)
          | (st, Inr prepared) \<Rightarrow>
              (case fault of
                 InsertFault \<Rightarrow> (invalidateState st, rows, Inl WriteFailed)
               | CommitFault durable \<Rightarrow>
                   (invalidateState st, if durable then rows @ prepared else rows, Inl CommitFailed)
               | HookFault \<Rightarrow> (invalidateState st, rows @ prepared, Inl CommitHookFailed)
               | NoFault \<Rightarrow> (fold publish_event prepared st, rows @ prepared, Inr prepared)))"

definition appendPersistedEvents ::
  "'p store_env \<Rightarrow> digest \<Rightarrow> fault \<Rightarrow> string option \<Rightarrow> 'p event_store \<Rightarrow> 'p run_event list \<Rightarrow>
   (stamp \<times> 'p run_event) list \<Rightarrow>
   'p event_store \<times> 'p run_event list \<times> (store_error + 'p run_event list)" where
  "appendPersistedEvents env sha fault expectedHead st rows reqs =
     (if reqs = [] then (st, rows, Inl EmptyBatch)
      else if st_closed st then (st, rows, Inl StoreClosed)
      else if st_read_only st then (st, rows, Inl StoreReadOnly)
      else case (if st_valid st then (st, None) else reload env sha st rows) of
        (st, Some _) \<Rightarrow> (st, rows, Inl RecoverFailed)
      | (st, None) \<Rightarrow>
          (case loadEvents env sha st rows of
             Inl _ \<Rightarrow> (invalidateState st, rows, Inl SyncFailed)
           | Inr st \<Rightarrow> append_synced env sha fault expectedHead st rows reqs))"

definition AppendPersisted ::
  "'p store_env \<Rightarrow> digest \<Rightarrow> fault \<Rightarrow> 'p event_store \<Rightarrow> 'p run_event list \<Rightarrow> stamp \<Rightarrow> 'p run_event \<Rightarrow>
   'p event_store \<times> 'p run_event list \<times> (store_error + 'p run_event)" where
  "AppendPersisted env sha fault st rows sm e =
     (case appendPersistedEvents env sha fault None st rows [(sm, e)] of
        (st, rows, Inl err) \<Rightarrow> (st, rows, Inl err)
      | (st, rows, Inr es) \<Rightarrow> (st, rows, Inr (hd es)))"

definition ReadEvents :: "'p event_store \<Rightarrow> 'p run_event list option" where
  "ReadEvents st = (if st_valid st then Some (st_events st) else None)"

end
