(* ===== verification/Event_Journal.thy ===== *)
theory Event_Journal
  imports Event_Store
begin

text \<open>
  What the event store promises its clients: the rows always form one verified hash chain with
  at most one event per idempotency identity, whatever faults strike and however many writers
  share the table; and, for a single writer, the journal contract the runtime components rely on,
  stated as the locale \<open>event_journal\<close> and interpreted on the store.
\<close>

section \<open>The invariant of one writer\<close>

definition head_of :: "'p event_store \<Rightarrow> verifier" where
  "head_of st = ResumeVerifier (st_sequence st) (st_last_id st) (st_last_hash st)"

definition keys_ok :: "'p event_store \<Rightarrow> bool" where
  "keys_ok st \<longleftrightarrow>
     (\<forall>k d. map_of (st_keys st) k = Some d \<longrightarrow>
        d \<in> set (st_events st) \<and> rev_key d \<noteq> [] \<and> k = event_identity d) \<and>
     (\<forall>e \<in> set (st_events st). rev_key e \<noteq> [] \<longrightarrow> map_of (st_keys st) (event_identity e) \<noteq> None)"

definition good :: "'p store_env \<Rightarrow> digest \<Rightarrow> 'p event_store \<Rightarrow> bool" where
  "good env sha st \<longleftrightarrow>
     st_sequence st = length (st_events st) \<and>
     verify_chain sha new_verifier (map (eventChainEntry env) (st_events st)) = Inr (head_of st) \<and>
     keys_ok st"

definition view_ok :: "'p store_env \<Rightarrow> digest \<Rightarrow> 'p run_event list \<Rightarrow> 'p event_store \<Rightarrow> bool" where
  "view_ok env sha rows st \<longleftrightarrow>
     (st_valid st \<longrightarrow> good env sha st \<and> (\<exists>rest. rows = st_events st @ rest))"

definition rows_ok :: "'p store_env \<Rightarrow> digest \<Rightarrow> 'p run_event list \<Rightarrow> bool" where
  "rows_ok env sha rows \<longleftrightarrow>
     (\<exists>v. verify_chain sha new_verifier (map (eventChainEntry env) rows) = Inr v) \<and>
     distinct (map event_identity (filter (\<lambda>e. rev_key e \<noteq> []) rows))"

lemma keys_okD:
  "keys_ok st \<Longrightarrow> map_of (st_keys st) k = Some d \<Longrightarrow>
   d \<in> set (st_events st) \<and> rev_key d \<noteq> [] \<and> k = event_identity d"
  unfolding keys_ok_def by blast

lemma rooted_head: "good env sha st \<Longrightarrow> rooted (head_of st)"
  unfolding good_def verify_chain_def by (auto intro: chain.wf_replay_start simp: list_all_iff)

lemma keys_ok_snoc:
  assumes "keys_ok st" "st_keys st' = index_key e (st_keys st)" "st_events st' = st_events st @ [e]"
  shows "keys_ok st'"
  using assms
  by (auto simp: keys_ok_def index_key_def update_conv' event_identity_def split: if_splits)

lemma verify_extend:
  assumes "good env sha st" "Verify sha (head_of st) (eventChainEntry env e) = Inr w"
  shows "verify_chain sha new_verifier (map (eventChainEntry env) (st_events st @ [e])) = Inr w"
  using assms by (simp add: good_def verify_chain_def replay_with_append)

lemma Verify_next:
  "Verify sha v (eventChainEntry env e) = Inr w \<Longrightarrow>
   w = ResumeVerifier (vr_sequence v + 1) (rev_id e) (rev_hash e)"
  by (simp add: Verify_def ResumeVerifier_def eventChainEntry_def split: if_split_asm)

lemma accept_good:
  assumes "good env sha st" "acceptLoadedEvent env sha st e = Inr st'"
  shows "good env sha st' \<and> st_events st' = st_events st @ [e]"
proof -
  from assms(2) obtain w where w: "Verify sha (head_of st) (eventChainEntry env e) = Inr w"
    by (auto simp: acceptLoadedEvent_def head_of_def split: sum.splits)
  have st': "st_events st' = st_events st @ [e]" "st_keys st' = index_key e (st_keys st)"
    "st_sequence st' = st_sequence st + 1" "st_last_id st' = rev_id e" "st_last_hash st' = rev_hash e"
    using assms(2) by (auto simp: acceptLoadedEvent_def split: sum.splits if_splits)
  have "w = head_of st'" using Verify_next [OF w] by (simp add: head_of_def st' ResumeVerifier_def)
  with verify_extend [OF assms(1) w] st' assms(1) keys_ok_snoc [of st st' e] show ?thesis
    by (simp add: good_def)
qed

lemma accept_all_good:
  assumes "good env sha st" "replay_with (acceptLoadedEvent env sha) st es = Inr st'"
  shows "good env sha st' \<and> st_events st' = st_events st @ es"
  using assms
proof (induction es arbitrary: st)
  case (Cons e es)
  then obtain s1 where "acceptLoadedEvent env sha st e = Inr s1"
    "replay_with (acceptLoadedEvent env sha) s1 es = Inr st'"
    by (auto simp: bindR_eq_Inr)
  with Cons accept_good show ?case by fastforce
qed simp

lemma load_good:
  assumes "good env sha st" "rows = st_events st @ rest" "loadEvents env sha st rows = Inr st'"
  shows "good env sha st' \<and> st_events st' = rows"
proof -
  have "drop (st_sequence st) rows = rest" using assms(1,2) by (simp add: good_def)
  with assms(3) have "replay_with (acceptLoadedEvent env sha) st rest = Inr st'" by (simp add: loadEvents_def)
  with accept_all_good [OF assms(1)] assms(2) show ?thesis by metis
qed

lemma blank_good: "good env sha (blank_state st)"
  by (simp add: good_def blank_state_def keys_ok_def verify_chain_def head_of_def new_verifier_def)

lemma good_frame:
  "good env sha st \<Longrightarrow> st_events st' = st_events st \<Longrightarrow> st_keys st' = st_keys st \<Longrightarrow>
   st_sequence st' = st_sequence st \<Longrightarrow> st_last_id st' = st_last_id st \<Longrightarrow>
   st_last_hash st' = st_last_hash st \<Longrightarrow> good env sha st'"
  by (simp add: good_def keys_ok_def head_of_def)

lemma reload_good:
  assumes "reload env sha st rows = (st', None)"
  shows "good env sha st' \<and> st_events st' = rows \<and> st_valid st'"
proof -
  from assms obtain s where s: "loadFullState env sha st rows = Inr s" "st' = s\<lparr>st_valid := True\<rparr>"
    by (auto simp: reload_def split: if_splits sum.splits)
  then have "good env sha s \<and> st_events s = rows"
    by (intro load_good [OF blank_good, where rest = rows])
       (simp_all add: blank_state_def loadFullState_def)
  with s(2) show ?thesis by (auto intro: good_frame)
qed

section \<open>Preparing keeps the view and extends the chain\<close>

text \<open>Stamping only fills the run and session defaults of the store.\<close>

definition same_view :: "'p event_store \<Rightarrow> 'p event_store \<Rightarrow> bool" where
  "same_view a b \<longleftrightarrow>
     st_events b = st_events a \<and> st_keys b = st_keys a \<and> st_sequence b = st_sequence a \<and>
     st_last_id b = st_last_id a \<and> st_last_hash b = st_last_hash a \<and> st_branch b = st_branch a \<and>
     st_valid b = st_valid a"

lemma same_view_refl [simp]: "same_view a a"
  by (simp add: same_view_def)

lemma same_view_trans: "same_view a b \<Longrightarrow> same_view b c \<Longrightarrow> same_view a c"
  by (simp add: same_view_def)

lemma stamp_same_view: "same_view st (stamp_session sm (stamp_run sm st e) e')"
  by (simp add: stamp_session_def stamp_run_def same_view_def)

lemma prepare_same_view: "prepareEvent env sha sm st e = (st', r) \<Longrightarrow> same_view st st'"
  by (auto simp: prepareEvent_def Let_def stamp_same_view split: if_splits option.splits)

lemma prepareEvent_Inr:
  assumes "prepareEvent env sha sm st e = (st', Inr p)"
  shows "rev_previous_id p = st_last_id st \<and> rev_previous_hash p = st_last_hash st \<and>
    rev_hash p = ComputeHash sha (st_last_hash st) (rev_id p) (rev_type p) (rev_timestamp p)
                   (env_bytes env (rev_payload p)) \<and>
    rev_key p = rev_key e \<and> rev_branch p = (if rev_branch e = [] then st_branch st else rev_branch e)"
proof -
  obtain payload where
    st': "st' = stamp_session sm (stamp_run sm st (e\<lparr>rev_payload := payload\<rparr>)) (e\<lparr>rev_payload := payload\<rparr>)"
    and p: "p = chained env sha st' (stamped sm st' (e\<lparr>rev_payload := payload\<rparr>))"
    using assms by (auto simp: prepareEvent_def Let_def split: if_split_asm option.split_asm)
  have "same_view st st'" unfolding st' by (rule stamp_same_view)
  then have "st_last_id st' = st_last_id st" "st_last_hash st' = st_last_hash st" "st_branch st' = st_branch st"
    by (simp_all add: same_view_def)
  then show ?thesis unfolding p by (simp add: chained_def stamped_def)
qed

lemma prepareEvent_Verify:
  assumes "prepareEvent env sha sm st e = (st', Inr p)" "rooted (ResumeVerifier n (st_last_id st) (st_last_hash st))"
  shows "Verify sha (ResumeVerifier n (st_last_id st) (st_last_hash st)) (eventChainEntry env p) =
         Inr (ResumeVerifier (n + 1) (rev_id p) (rev_hash p))"
  using prepareEvent_Inr [OF assms(1)] assms(2)
  by (subst Verify_ok) (simp_all add: eventChainEntry_def ResumeVerifier_def)

text \<open>The identity a request will be stored under.\<close>

definition request_identity :: "'p event_store \<Rightarrow> 'p run_event \<Rightarrow> identity" where
  "request_identity st e =
     newEventIdempotencyIdentity (if rev_branch e = [] then st_branch st else rev_branch e) (rev_key e)"

lemma prepareEvent_identity:
  "prepareEvent env sha sm st e = (st', Inr p) \<Longrightarrow>
   rev_key p = rev_key e \<and> event_identity p = request_identity st e"
  using prepareEvent_Inr [of env sha sm st e st' p]
  by (simp add: event_identity_def request_identity_def)

text \<open>Each event is stored under its request's key and identity.\<close>

definition stored_as :: "'p event_store \<Rightarrow> (stamp \<times> 'p run_event) list \<Rightarrow> 'p run_event list \<Rightarrow> bool" where
  "stored_as st reqs ps \<longleftrightarrow>
     list_all2 (\<lambda>(sm, e) p. rev_key p = rev_key e \<and> event_identity p = request_identity st e) reqs ps"

lemma stored_as_view: "same_view a b \<Longrightarrow> stored_as b = stored_as a"
proof -
  assume "same_view a b"
  then have "request_identity b = request_identity a"
    by (simp add: request_identity_def same_view_def fun_eq_iff)
  then show "stored_as b = stored_as a" by (simp add: stored_as_def fun_eq_iff)
qed

lemma prepare_batch_ok:
  assumes "prepare_batch env sha multi seen st reqs = (st', Inr ps)"
    "rooted (ResumeVerifier n (st_last_id st) (st_last_hash st))"
  shows "(\<exists>w. verify_chain sha (ResumeVerifier n (st_last_id st) (st_last_hash st))
                (map (eventChainEntry env) ps) = Inr w) \<and>
    length ps = length reqs \<and>
    stored_as st reqs ps \<and>
    (multi \<longrightarrow> distinct (map event_identity ps) \<and> set (map event_identity ps) \<inter> set seen = {}) \<and>
    same_view st (st'\<lparr>st_last_id := st_last_id st, st_last_hash := st_last_hash st\<rparr>)"
  using assms
proof (induction env sha multi seen st reqs arbitrary: st' ps n rule: prepare_batch.induct)
  case (1 env sha multi seen st)
  then show ?case by (simp add: verify_chain_def same_view_def stored_as_def)
next
  case (2 env sha multi seen st sm e reqs)
  from "2.prems"(1) obtain s1 p where p: "prepareEvent env sha sm st e = (s1, Inr p)"
    by (auto split: prod.splits sum.splits)
  let ?s = "s1\<lparr>st_last_id := rev_id p, st_last_hash := rev_hash p\<rparr>"
  from "2.prems"(1) p have ok: "\<not> (multi \<and> (rev_key p = [] \<or> event_identity p \<in> set seen))"
    by (auto split: if_splits)
  with "2.prems"(1) p obtain s2 ps' where r: "prepare_batch env sha multi (event_identity p # seen) ?s reqs = (s2, Inr ps')"
    and out: "st' = s2" "ps = p # ps'"
    by (auto split: prod.splits sum.splits)
  have V: "Verify sha (ResumeVerifier n (st_last_id st) (st_last_hash st)) (eventChainEntry env p) =
      Inr (ResumeVerifier (n + 1) (rev_id p) (rev_hash p))"
    by (rule prepareEvent_Verify [OF p "2.prems"(2)])
  have root: "rooted (ResumeVerifier (n + 1) (st_last_id ?s) (st_last_hash ?s))"
    by (simp add: rooted_def ResumeVerifier_def)
  have sv: "same_view st s1" by (rule prepare_same_view [OF p])
  have br: "request_identity ?s = request_identity st"
    using sv by (auto simp: request_identity_def same_view_def)
  note IH = "2.IH" [OF p [symmetric] refl ok r root]
  show ?case
    using IH V out prepareEvent_identity [OF p] ok sv
    by (auto simp: verify_chain_def br same_view_def stored_as_def)
qed

lemma prepare_batch_view:
  "prepare_batch env sha multi seen st reqs = (st', r) \<Longrightarrow>
   same_view st (st'\<lparr>st_last_id := st_last_id st, st_last_hash := st_last_hash st\<rparr>)"
proof (induction env sha multi seen st reqs arbitrary: st' r rule: prepare_batch.induct)
  case (1 env sha multi seen st)
  then show ?case by (simp add: same_view_def)
next
  case (2 env sha multi seen st sm e reqs)
  obtain s1 r1 where p: "prepareEvent env sha sm st e = (s1, r1)" by fastforce
  have sv: "same_view st s1" by (rule prepare_same_view [OF p])
  show ?case
  proof (cases r1)
    case (Inl err)
    with "2.prems" p sv show ?thesis by (simp add: same_view_def)
  next
    case (Inr q)
    show ?thesis
    proof (cases "multi \<and> (rev_key q = [] \<or> event_identity q \<in> set seen)")
      case True
      with "2.prems" p Inr sv show ?thesis by (auto simp: same_view_def)
    next
      case False
      let ?s = "s1\<lparr>st_last_id := rev_id q, st_last_hash := rev_hash q\<rparr>"
      obtain s2 r2 where r2: "prepare_batch env sha multi (event_identity q # seen) ?s reqs = (s2, r2)"
        by fastforce
      with "2.prems" p Inr False have "st' = s2" by (auto split: sum.splits)
      with "2.IH" [OF p [symmetric, unfolded Inr] refl False r2] sv show ?thesis
        by (simp add: same_view_def)
    qed
  qed
qed

lemma prior_event_view: "same_view a b \<Longrightarrow> prior_event b = prior_event a"
  by (auto simp: prior_event_def same_view_def fun_eq_iff)

definition prior_set :: "'p event_store \<Rightarrow> (stamp \<times> 'p run_event) list \<Rightarrow> 'p run_event set" where
  "prior_set st reqs = (\<Union>(sm, e) \<in> set reqs. set_option (prior_event st e))"

lemma prior_set_simps [simp]:
  "prior_set st [] = {}"
  "prior_set st ((sm, e) # reqs) = set_option (prior_event st e) \<union> prior_set st reqs"
  by (simp_all add: prior_set_def)

lemma prior_set_view: "same_view a b \<Longrightarrow> prior_set b = prior_set a"
  by (simp add: prior_set_def fun_eq_iff prior_event_view)

lemma replay_batch_ok:
  "replay_batch env sha multi prior st reqs = (st', r) \<Longrightarrow>
   same_view st st' \<and>
   (\<forall>out. r = Inr out \<longrightarrow>
      (\<exists>ds. out = prior @ ds \<and> set ds \<subseteq> prior_set st reqs \<and>
            (ds = [] \<longrightarrow> prior_set st reqs = {})))"
proof (induction env sha multi prior st reqs arbitrary: st' r rule: replay_batch.induct)
  case (1 env sha multi prior st)
  then show ?case by auto
next
  case (2 env sha multi prior st sm e reqs)
  show ?case
  proof (cases "prior_event st e")
    case None
    with "2.prems" have r: "replay_batch env sha multi prior st reqs = (st', r)" by simp
    from "2.IH" (1) [OF None r] None show ?thesis by auto
  next
    case (Some d)
    show ?thesis
    proof (cases "env_replay env d e")
      case False
      with "2.prems" Some show ?thesis by auto
    next
      case rep: True
      show ?thesis
      proof (cases multi)
        case False
        with "2.prems" Some rep have r: "replay_batch env sha multi (prior @ [d]) st reqs = (st', r)" by simp
        from "2.IH" (3) [OF Some _ False r] rep Some show ?thesis by fastforce
      next
        case True
        obtain s1 r1 where p: "prepareEvent env sha sm st e = (s1, r1)" by fastforce
        note sv = prepare_same_view [OF p]
        show ?thesis
        proof (cases "\<exists>c. r1 = Inr c \<and> sameBatchEventContent c d \<and>
              (prior = [] \<or> rev_previous_id d = rev_id (last prior))")
          case False
          with "2.prems" Some rep True p sv show ?thesis by (auto split: sum.splits if_splits)
        next
          case ok: True
          then obtain c where c: "r1 = Inr c" "sameBatchEventContent c d"
            "prior = [] \<or> rev_previous_id d = rev_id (last prior)" by blast
          with "2.prems" Some rep True p have r: "replay_batch env sha multi (prior @ [d]) s1 reqs = (st', r)"
            by auto
          from "2.IH" (2) [OF Some _ True p [symmetric, unfolded c(1)] refl _ r] rep c
          have IH: "same_view s1 st' \<and> (\<forall>out. r = Inr out \<longrightarrow>
            (\<exists>ds. out = (prior @ [d]) @ ds \<and>
               set ds \<subseteq> prior_set s1 reqs \<and>
               (ds = [] \<longrightarrow> prior_set s1 reqs = {})))"
            by auto
          show ?thesis
            using IH Some same_view_trans [OF sv] unfolding prior_set_view [OF sv]
            by fastforce
        qed
      qed
    qed
  qed
qed

lemma replayed_ok:
  assumes "replayedEventBatch env sha st reqs = (st', r)"
  shows "same_view st st' \<and>
    (\<forall>ds. r = Inr ds \<longrightarrow> set ds \<subseteq> prior_set st reqs \<and>
       (ds = [] \<longrightarrow> prior_set st reqs = {}) \<and> (ds \<noteq> [] \<longrightarrow> length ds = length reqs))"
proof -
  obtain s1 r1 where R: "replay_batch env sha (1 < length reqs) [] st reqs = (s1, r1)" by fastforce
  from replay_batch_ok [OF R] assms R show ?thesis
    by (auto simp: replayedEventBatch_def split: sum.splits if_splits)
qed

section \<open>One append\<close>

lemma publish_all_good:
  assumes "good env sha st" "verify_chain sha (head_of st) (map (eventChainEntry env) ps) = Inr w"
  shows "good env sha (fold publish_event ps st) \<and> st_events (fold publish_event ps st) = st_events st @ ps \<and>
         st_valid (fold publish_event ps st) = st_valid st"
  using assms
proof (induction ps arbitrary: st)
  case (Cons p ps)
  then obtain v where v: "Verify sha (head_of st) (eventChainEntry env p) = Inr v"
    "verify_chain sha v (map (eventChainEntry env) ps) = Inr w"
    by (auto simp: verify_chain_def bindR_eq_Inr)
  have hd: "head_of (publish_event p st) = v"
    using Verify_next [OF v(1)] by (simp add: head_of_def publish_event_def ResumeVerifier_def)
  have "good env sha (publish_event p st)"
    using verify_extend [OF Cons.prems(1) v(1)] Cons.prems(1) hd
      keys_ok_snoc [of st "publish_event p st" p]
    by (simp add: good_def) (simp add: publish_event_def)
  with Cons.IH [of "publish_event p st"] hd v(2) show ?case by (simp add: publish_event_def)
qed simp

lemma rows_view: "good env sha st \<Longrightarrow> rows = st_events st @ rest \<Longrightarrow> view_ok env sha rows st"
  by (auto simp: view_ok_def)

lemma view_more: "view_ok env sha rows st \<Longrightarrow> view_ok env sha (rows @ ps) st"
  by (auto simp: view_ok_def)

lemma invalid_view [simp]: "view_ok env sha rows (invalidateState st)"
  by (simp add: view_ok_def invalidateState_def)

lemma good_same_view: "good env sha st \<Longrightarrow> same_view st st' \<Longrightarrow> good env sha st'"
  by (erule good_frame) (simp_all add: same_view_def)

lemma list_all2_member: "list_all2 R xs ys \<Longrightarrow> y \<in> set ys \<Longrightarrow> \<exists>x \<in> set xs. R x y"
  by (induction rule: list_all2_induct) auto

text \<open>No prepared event takes an identity that a row already holds.\<close>

lemma fresh_identities:
  assumes "keys_ok st" "prior_set st reqs = {}"
    "stored_as st reqs ps" "p \<in> set ps" "rev_key p \<noteq> []" "x \<in> set (st_events st)" "rev_key x \<noteq> []"
  shows "event_identity p \<noteq> event_identity x"
proof
  assume eq: "event_identity p = event_identity x"
  from assms(3,4) obtain sm e where e: "(sm, e) \<in> set reqs" "rev_key p = rev_key e"
    "event_identity p = request_identity st e"
    using list_all2_member [OF assms(3) [unfolded stored_as_def] assms(4)] by auto
  then have "prior_event st e = None" using assms(2) by (force simp: prior_set_def)
  with e have "map_of (st_keys st) (event_identity x) = None"
    using assms(5) eq by (auto simp: prior_event_def request_identity_def)
  with assms(1,6,7) show False by (auto simp: keys_ok_def)
qed

lemma rows_extend:
  assumes "good env sha st" "rows_ok env sha (st_events st)"
    "prior_set st reqs = {}"
    "prepare_batch env sha (1 < length reqs) [] st reqs = (st', Inr ps)"
  shows "rows_ok env sha (st_events st @ ps) \<and>
    (\<exists>w. verify_chain sha (head_of st) (map (eventChainEntry env) ps) = Inr w) \<and> length ps = length reqs \<and>
    stored_as st reqs ps"
proof -
  note P = prepare_batch_ok [OF assms(4) rooted_head [OF assms(1), unfolded head_of_def]]
  obtain w where w: "verify_chain sha (head_of st) (map (eventChainEntry env) ps) = Inr w"
    using P by (auto simp: head_of_def)
  have len: "length ps = length reqs" using P by blast
  have la: "stored_as st reqs ps"
    using P by blast
  have "verify_chain sha new_verifier (map (eventChainEntry env) (st_events st @ ps)) = Inr w"
    using assms(1) w by (simp add: good_def verify_chain_def replay_with_append)
  moreover have "distinct (map event_identity (filter (\<lambda>e. rev_key e \<noteq> []) ps))"
  proof (cases "1 < length reqs")
    case True
    with P show ?thesis by (simp add: distinct_map distinct_filter inj_on_subset [of _ "set ps"])
  next
    case False
    with len show ?thesis by (cases ps; cases "tl ps") auto
  qed
  moreover have "keys_ok st" using assms(1) by (simp add: good_def)
  note fresh_identities [OF this assms(3) la]
  then have "event_identity ` {p \<in> set ps. rev_key p \<noteq> []} \<inter>
      event_identity ` {x \<in> set (st_events st). rev_key x \<noteq> []} = {}"
    by fastforce
  ultimately show ?thesis
    using assms(2) w len la by (fastforce simp: rows_ok_def)
qed

lemma append_synced_ok:
  assumes "good env sha st" "st_valid st" "rows_ok env sha (st_events st)" "rows = st_events st"
    "append_synced env sha fault expectedHead st rows reqs = (st', rows', r)"
  shows "rows_ok env sha rows' \<and> view_ok env sha rows' st' \<and>
    (rows' = rows \<or> (\<exists>ps. rows' = rows @ ps \<and> length ps = length reqs)) \<and>
    (\<forall>ds. r = Inr ds \<longrightarrow> st_valid st' \<and> st_events st' = rows' \<and>
        (prior_set st reqs = {} \<and> rows' = rows @ ds \<and> length ds = length reqs \<and> stored_as st reqs ds \<or>
         ds \<noteq> [] \<and> length ds = length reqs \<and> rows' = rows \<and>
         set ds \<subseteq> prior_set st reqs))"
proof (cases "expectedHead \<noteq> None \<and> st_last_id st \<noteq> the expectedHead")
  case True
  with assms rows_view [OF assms(1), of rows "[]"] show ?thesis by (auto simp: append_synced_def)
next
  case head: False
  obtain s1 r1 where R: "replayedEventBatch env sha st reqs = (s1, r1)" by fastforce
  note RO = replayed_ok [OF R]
  note run = assms(5) [unfolded append_synced_def if_not_P [OF head] R prod.case]
  have g1: "good env sha s1" "st_valid s1" "st_events s1 = rows"
    using good_same_view [OF assms(1)] RO assms(2,4) by (auto simp: same_view_def)
  note v1 = rows_view [OF g1(1), of rows "[]", unfolded g1(3), simplified]
  show ?thesis
  proof (cases "r1 = Inr []")
    case False
    then have "(\<exists>err. r1 = Inl err \<and> (st', rows', r) = (s1, rows, Inl err)) \<or>
        (\<exists>ds. r1 = Inr ds \<and> ds \<noteq> [] \<and> (st', rows', r) = (s1, rows, Inr ds))"
      using run by (auto split: sum.splits)
    with g1 v1 RO assms(3,4) show ?thesis by auto
  next
    case True
    with RO have none: "prior_set s1 reqs = {}"
      and none0: "prior_set st reqs = {}"
      using prior_set_view [of st s1] by auto
    obtain s2 r2 where B: "prepare_batch env sha (1 < length reqs) [] s1 reqs = (s2, r2)" by fastforce
    let ?s = "s2\<lparr>st_last_id := st_last_id s1, st_last_hash := st_last_hash s1\<rparr>"
    have PB: "prepareEventBatch env sha s1 reqs = (?s, r2)" using B by (simp add: prepareEventBatch_def)
    have sv: "same_view s1 ?s" by (rule prepare_batch_view [OF B])
    have g2: "good env sha ?s" "st_valid ?s" "st_events ?s = rows" "head_of ?s = head_of s1"
      using good_same_view [OF g1(1) sv] sv g1 by (auto simp: same_view_def head_of_def)
    show ?thesis
    proof (cases r2)
      case (Inl err)
      with run True PB have "(st', rows', r) = (?s, rows, Inl err)" by simp
      with g2 rows_view [OF g2(1), of rows "[]"] assms(3,4) show ?thesis by auto
    next
      case (Inr ps)
      have ext: "rows_ok env sha (rows @ ps)" "length ps = length reqs"
        and sa: "stored_as st reqs ps"
        and "\<exists>w. verify_chain sha (head_of ?s) (map (eventChainEntry env) ps) = Inr w"
        using rows_extend [OF g1(1) _ none B [unfolded Inr]] assms(3,4) g1(3) g2(4) stored_as_view [of st s1] RO
        by auto
      then obtain w where w: "verify_chain sha (head_of ?s) (map (eventChainEntry env) ps) = Inr w" by blast
      note pub = publish_all_good [OF g2(1) w]
      have out: "(st', rows', r) = (case fault of
           InsertFault \<Rightarrow> (invalidateState ?s, rows, Inl WriteFailed)
         | CommitFault durable \<Rightarrow> (invalidateState ?s, if durable then rows @ ps else rows, Inl CommitFailed)
         | HookFault \<Rightarrow> (invalidateState ?s, rows @ ps, Inl CommitHookFailed)
         | NoFault \<Rightarrow> (fold publish_event ps ?s, rows @ ps, Inr ps))"
        using run True PB Inr by simp
      show ?thesis
      proof (cases fault)
        case NoFault
        with out have "st' = fold publish_event ps ?s" "rows' = rows @ ps" "r = Inr ps" by auto
        with pub g2 ext none0 sa rows_view [of env sha st' rows' "[]"] show ?thesis by auto
      qed (use out ext assms(3,4) in auto)
    qed
  qed
qed

lemma replay_accept_frame:
  "replay_with (acceptLoadedEvent env sha) st es = Inr st' \<Longrightarrow>
   st_valid st' = st_valid st \<and> st_branch st' = st_branch st"
proof (induction es arbitrary: st)
  case (Cons e es)
  then obtain s1 where s1: "acceptLoadedEvent env sha st e = Inr s1"
    "replay_with (acceptLoadedEvent env sha) s1 es = Inr st'"
    by (auto simp: bindR_eq_Inr)
  have "st_valid s1 = st_valid st \<and> st_branch s1 = st_branch st"
    using s1(1) by (auto simp: acceptLoadedEvent_def split: sum.splits if_splits)
  with Cons.IH [OF s1(2)] show ?case by simp
qed simp

lemma load_frame:
  "loadEvents env sha st rows = Inr st' \<Longrightarrow> st_valid st' = st_valid st \<and> st_branch st' = st_branch st"
  by (simp add: loadEvents_def replay_accept_frame)

lemma reload_frame: "reload env sha st rows = (st', None) \<Longrightarrow> st_branch st' = st_branch st"
  by (auto simp: reload_def loadFullState_def blank_state_def dest: load_frame split: if_splits sum.splits)

lemma append_ok:
  assumes "rows_ok env sha rows" "view_ok env sha rows st"
    "appendPersistedEvents env sha fault expectedHead st rows reqs = (st', rows', r)"
  shows "rows_ok env sha rows' \<and> view_ok env sha rows' st' \<and>
    (rows' = rows \<or> (\<exists>ps. rows' = rows @ ps \<and> length ps = length reqs)) \<and>
    (\<forall>ds. r = Inr ds \<longrightarrow> st_valid st' \<and> st_events st' = rows' \<and>
      (\<exists>s0. good env sha s0 \<and> st_events s0 = rows \<and> st_branch s0 = st_branch st \<and>
        (prior_set s0 reqs = {} \<and> rows' = rows @ ds \<and> length ds = length reqs \<and> stored_as s0 reqs ds \<or>
         ds \<noteq> [] \<and> length ds = length reqs \<and> rows' = rows \<and>
         set ds \<subseteq> prior_set s0 reqs)))"
proof (cases "reqs = [] \<or> st_closed st \<or> st_read_only st")
  case True
  then have "\<exists>e. (st', rows', r) = (st, rows, Inl e)"
    using assms(3) by (auto simp: appendPersistedEvents_def split: if_splits)
  with assms(1,2) show ?thesis by auto
next
  case open_st: False
  obtain s0 err where S0: "(if st_valid st then (st, None) else reload env sha st rows) = (s0, err)"
    by fastforce
  show ?thesis
  proof (cases err)
    case (Some e)
    with S0 have "st_valid st = False" and "reload env sha st rows = (s0, Some e)" by (auto split: if_splits)
    then have "st_valid s0 = False"
      by (auto simp: reload_def invalidateState_def split: if_splits sum.splits)
    moreover have "(st', rows', r) = (s0, rows, Inl RecoverFailed)"
      using assms(3) open_st S0 Some by (simp add: appendPersistedEvents_def)
    ultimately show ?thesis using assms(1) by (simp add: view_ok_def)
  next
    case None
    have s0: "good env sha s0" "st_valid s0" "st_branch s0 = st_branch st" "\<exists>rest. rows = st_events s0 @ rest"
      using S0 None assms(2) reload_good [of env sha st rows s0] reload_frame [of env sha st rows s0]
      by (auto simp: view_ok_def split: if_splits)
    then obtain rest where rest: "rows = st_events s0 @ rest" by blast
    show ?thesis
    proof (cases "loadEvents env sha s0 rows")
      case (Inl e)
      then have "(st', rows', r) = (invalidateState s0, rows, Inl SyncFailed)"
        using assms(3) open_st S0 None by (simp add: appendPersistedEvents_def)
      with assms(1) show ?thesis by simp
    next
      case (Inr s1)
      have s1: "good env sha s1" "st_events s1 = rows" "st_valid s1" "st_branch s1 = st_branch st"
        using load_good [OF s0(1) rest Inr] load_frame [OF Inr] s0 by auto
      have "append_synced env sha fault expectedHead s1 rows reqs = (st', rows', r)"
        using assms(3) open_st S0 None Inr by (simp add: appendPersistedEvents_def)
      from append_synced_ok [OF s1(1,3) assms(1) [folded s1(2)] s1(2) [symmetric] this] s1(1,2,4)
      show ?thesis by blast
    qed
  qed
qed

lemma append_persisted_ok:
  assumes "rows_ok env sha rows" "view_ok env sha rows st"
    "AppendPersisted env sha fault st rows sm e = (st', rows', r)"
  shows "rows_ok env sha rows' \<and> view_ok env sha rows' st' \<and> (\<exists>ps. rows' = rows @ ps) \<and>
    (\<forall>d. r = Inr d \<longrightarrow> st_valid st' \<and> st_events st' = rows' \<and>
       (rev_key e \<noteq> [] \<longrightarrow> rev_key d \<noteq> [] \<and> event_identity d = request_identity st e) \<and>
       (if rev_key e \<noteq> [] \<and> (\<exists>x \<in> set rows. rev_key x \<noteq> [] \<and> event_identity x = request_identity st e)
        then rows' = rows \<and> d \<in> set rows else rows' = rows @ [d]))"
proof -
  obtain r1 where A: "appendPersistedEvents env sha fault None st rows [(sm, e)] = (st', rows', r1)"
    and r: "r = (case r1 of Inl err \<Rightarrow> Inl err | Inr es \<Rightarrow> Inr (hd es))"
    using assms(3) by (auto simp: AppendPersisted_def split: prod.splits sum.splits)
  note K = append_ok [OF assms(1,2) A]
  have "st_valid st' \<and> st_events st' = rows' \<and>
       (rev_key e \<noteq> [] \<longrightarrow> rev_key d \<noteq> [] \<and> event_identity d = request_identity st e) \<and>
       (if rev_key e \<noteq> [] \<and> (\<exists>x \<in> set rows. rev_key x \<noteq> [] \<and> event_identity x = request_identity st e)
        then rows' = rows \<and> d \<in> set rows else rows' = rows @ [d])" if d: "r = Inr d" for d
  proof -
    from d r obtain es where es: "r1 = Inr es" "d = hd es" by (auto split: sum.splits)
    with K obtain s0 where s0: "good env sha s0" "st_events s0 = rows" "st_branch s0 = st_branch st"
      and "st_valid st' \<and> st_events st' = rows'"
      and alt: "prior_set s0 [(sm, e)] = {} \<and> rows' = rows @ es \<and> length es = 1 \<and> stored_as s0 [(sm, e)] es \<or>
        es \<noteq> [] \<and> length es = 1 \<and> rows' = rows \<and> set es \<subseteq> prior_set s0 [(sm, e)]"
      by auto
    then have keys: "keys_ok s0" and ri: "request_identity s0 e = request_identity st e"
      by (simp_all add: good_def request_identity_def)
    have one: "es = [d]" using alt es(2) by (cases es) auto
    have pe: "prior_event s0 e = (if rev_key e = [] then None else map_of (st_keys s0) (request_identity st e))"
      by (simp add: prior_event_def request_identity_def s0(3))
    show ?thesis
    proof (cases "prior_event s0 e")
      case None
      with alt one have "rows' = rows @ [d]" "rev_key d = rev_key e" "event_identity d = request_identity st e"
        by (auto simp: stored_as_def ri)
      moreover from None pe keys s0(2) have
        "\<not> (rev_key e \<noteq> [] \<and> (\<exists>x \<in> set rows. rev_key x \<noteq> [] \<and> event_identity x = request_identity st e))"
        by (fastforce simp: keys_ok_def split: if_splits)
      ultimately show ?thesis using \<open>st_valid st' \<and> st_events st' = rows'\<close> by auto
    next
      case (Some x)
      with alt one have "rows' = rows" "d = x" by auto
      moreover from Some pe have "rev_key e \<noteq> []" "map_of (st_keys s0) (request_identity st e) = Some x"
        by (simp_all split: if_splits)
      with keys_okD [OF keys this(2)] s0(2) have "rev_key e \<noteq> []" "x \<in> set rows" "rev_key x \<noteq> []"
        "event_identity x = request_identity st e"
        by simp_all
      ultimately show ?thesis using \<open>st_valid st' \<and> st_events st' = rows'\<close> by auto
    qed
  qed
  with K show ?thesis by blast
qed

section \<open>The journal contract\<close>

text \<open>
  What the runtime components ask of a journal: a successful append returns a durable record that
  is either the new last record or one already there, a failed append leaves no record, and the
  journal stays usable. \<open>ok\<close> is the provider's own condition.
\<close>

locale event_journal =
  fixes append :: "'j \<Rightarrow> 'e \<Rightarrow> 'j \<times> 'e option"
    and events :: "'j \<Rightarrow> 'e list"
    and ok :: "'j \<Rightarrow> bool"
  assumes append_stays_ok: "ok j \<Longrightarrow> append j e = (j', r) \<Longrightarrow> ok j'"
    and append_durable: "ok j \<Longrightarrow> append j e = (j', Some d) \<Longrightarrow>
          events j' = events j @ [d] \<or> events j' = events j \<and> d \<in> set (events j)"
    and append_failed: "ok j \<Longrightarrow> append j e = (j', None) \<Longrightarrow> events j' = events j"
begin

lemma append_recorded: "ok j \<Longrightarrow> append j e = (j', Some d) \<Longrightarrow> d \<in> set (events j')"
  using append_durable by fastforce

lemma append_prefix: "ok j \<Longrightarrow> append j e = (j', r) \<Longrightarrow> \<exists>ds. events j' = events j @ ds"
  using append_durable append_failed by (cases r) (fastforce)+

end

text \<open>The store as a journal: one writer, its table, and the stamps it will draw.\<close>

record 'p journal =
  jn_store :: "'p event_store"
  jn_rows :: "'p run_event list"
  jn_clock :: "nat \<Rightarrow> stamp"
  jn_tick :: nat

definition journal_append ::
  "'p store_env \<Rightarrow> digest \<Rightarrow> 'p journal \<Rightarrow> 'p run_event \<Rightarrow> 'p journal \<times> 'p run_event option" where
  "journal_append env sha j e =
     (case AppendPersisted env sha NoFault (jn_store j) (jn_rows j) (jn_clock j (jn_tick j)) e of
        (st, rows, r) \<Rightarrow>
          (j\<lparr>jn_store := st, jn_rows := rows, jn_tick := jn_tick j + 1\<rparr>,
           case r of Inl _ \<Rightarrow> None | Inr d \<Rightarrow> Some d))"

definition journal_events :: "'p journal \<Rightarrow> 'p run_event list" where
  "journal_events j = (case ReadEvents (jn_store j) of None \<Rightarrow> [] | Some es \<Rightarrow> es)"

definition journal_ok :: "'p store_env \<Rightarrow> digest \<Rightarrow> 'p journal \<Rightarrow> bool" where
  "journal_ok env sha j \<longleftrightarrow>
     rows_ok env sha (jn_rows j) \<and> good env sha (jn_store j) \<and> st_valid (jn_store j) \<and>
     st_events (jn_store j) = jn_rows j"

text \<open>Without faults a synchronised writer that is refused keeps its view and writes nothing.\<close>

lemma refused_append:
  assumes "good env sha st" "st_valid st" "st_events st = rows"
    "appendPersistedEvents env sha NoFault None st rows reqs = (st', rows', Inl err)"
  shows "good env sha st' \<and> st_valid st' \<and> st_events st' = rows \<and> rows' = rows"
proof -
  have "drop (st_sequence st) rows = []" using assms(1,3) by (simp add: good_def)
  then have load: "loadEvents env sha st rows = Inr st" by (simp add: loadEvents_def)
  show ?thesis
  proof (cases "reqs = [] \<or> st_closed st \<or> st_read_only st")
    case True
    then have "st' = st" "rows' = rows" using assms(4) by (auto simp: appendPersistedEvents_def split: if_splits)
    with assms show ?thesis by simp
  next
    case False
    with assms(2,4) load have A: "append_synced env sha NoFault None st rows reqs = (st', rows', Inl err)"
      by (simp add: appendPersistedEvents_def)
    obtain s1 r1 where R: "replayedEventBatch env sha st reqs = (s1, r1)" by fastforce
    obtain s2 r2 where B: "prepare_batch env sha (1 < length reqs) [] s1 reqs = (s2, r2)" by fastforce
    let ?s = "s2\<lparr>st_last_id := st_last_id s1, st_last_hash := st_last_hash s1\<rparr>"
    have PB: "prepareEventBatch env sha s1 reqs = (?s, r2)" using B by (simp add: prepareEventBatch_def)
    have sv1: "same_view st s1" using replayed_ok [OF R] by blast
    have sv2: "same_view st ?s" by (rule same_view_trans [OF sv1 prepare_batch_view [OF B]])
    have "(st', rows') = (s1, rows) \<or> (st', rows') = (?s, rows)"
      using A R PB by (auto simp: append_synced_def split: sum.splits if_splits)
    with sv1 sv2 assms(1-3) show ?thesis
      by (auto intro: good_same_view simp: same_view_def)
  qed
qed

lemma journal_append_ok:
  assumes "journal_ok env sha j" "journal_append env sha j e = (j', r)"
  shows "journal_ok env sha j' \<and>
    (case r of None \<Rightarrow> jn_rows j' = jn_rows j
     | Some d \<Rightarrow> jn_rows j' = jn_rows j @ [d] \<or> jn_rows j' = jn_rows j \<and> d \<in> set (jn_rows j))"
proof -
  obtain st rows q where A: "AppendPersisted env sha NoFault (jn_store j) (jn_rows j) (jn_clock j (jn_tick j)) e =
      (st, rows, q)" by (metis prod_cases3)
  then have j': "jn_store j' = st" "jn_rows j' = rows" "r = (case q of Inl _ \<Rightarrow> None | Inr d \<Rightarrow> Some d)"
    using assms(2) by (auto simp: journal_append_def)
  have J: "rows_ok env sha (jn_rows j)" "good env sha (jn_store j)" "st_valid (jn_store j)"
    "st_events (jn_store j) = jn_rows j"
    using assms(1) by (auto simp: journal_ok_def)
  note K = append_persisted_ok [OF J(1) rows_view [OF J(2), of _ "[]", unfolded J(4), simplified] A]
  show ?thesis
  proof (cases q)
    case (Inl err)
    with A have "appendPersistedEvents env sha NoFault None (jn_store j) (jn_rows j) [(jn_clock j (jn_tick j), e)] =
        (st, rows, Inl err)"
      by (auto simp: AppendPersisted_def split: prod.splits sum.splits)
    from refused_append [OF J(2-4) this] J(1) j' Inl show ?thesis by (simp add: journal_ok_def)
  next
    case (Inr d)
    with K j' show ?thesis by (auto simp: journal_ok_def view_ok_def split: if_splits)
  qed
qed

lemma journal_events_rows: "journal_ok env sha j \<Longrightarrow> journal_events j = jn_rows j"
  by (simp add: journal_ok_def journal_events_def ReadEvents_def)

interpretation store_journal: event_journal "journal_append env sha" journal_events "journal_ok env sha" for env sha
proof unfold_locales
  fix j :: "'a journal" and e r j' d
  assume ok: "journal_ok env sha j"
  show "journal_append env sha j e = (j', r) \<Longrightarrow> journal_ok env sha j'"
    using journal_append_ok [OF ok] by blast
  show "journal_append env sha j e = (j', Some d) \<Longrightarrow>
      journal_events j' = journal_events j @ [d] \<or> journal_events j' = journal_events j \<and> d \<in> set (journal_events j)"
    using journal_append_ok [OF ok, of e j' "Some d"] ok by (auto simp: journal_events_rows)
  show "journal_append env sha j e = (j', None) \<Longrightarrow> journal_events j' = journal_events j"
    using journal_append_ok [OF ok, of e j' None] ok by (auto simp: journal_events_rows)
qed

lemma prior_event_stored:
  assumes "keys_ok st" "prior_event st e = Some d"
  shows "d \<in> set (st_events st)"
proof (cases "rev_key e = []")
  case False
  then have "map_of (st_keys st)
      (newEventIdempotencyIdentity (if rev_branch e = [] then st_branch st else rev_branch e) (rev_key e)) = Some d"
    using assms(2) by (subst (asm) prior_event_def) (simp only: if_False)
  from keys_okD [OF assms(1) this] show ?thesis ..
qed (use assms(2) in \<open>subst (asm) prior_event_def, simp\<close>)

section \<open>Properties\<close>

text \<open>
  C4. The journal is append-only and never damaged: an append of any batch, under any database
  fault, leaves the rows a verified hash chain with at most one event per idempotency identity,
  only extends them, returns only events that are among them, and keeps every writer's validated
  view (its own and any other's) a verified prefix of the rows.
\<close>

theorem journal_never_damaged:
  assumes "rows_ok env sha rows" "view_ok env sha rows st" "view_ok env sha rows other"
    "appendPersistedEvents env sha fault expectedHead st rows reqs = (st', rows', r)"
  shows "rows_ok env sha rows' \<and> view_ok env sha rows' st' \<and> view_ok env sha rows' other \<and>
    (\<exists>ps. rows' = rows @ ps) \<and> (\<forall>ds. r = Inr ds \<longrightarrow> set ds \<subseteq> set rows')"
proof -
  note K = append_ok [OF assms(1,2,4)]
  have ext: "\<exists>ps. rows' = rows @ ps" using K by auto
  moreover have "set ds \<subseteq> set rows'" if ds: "r = Inr ds" for ds
  proof -
    from K ds obtain s0 where s0: "good env sha s0" "st_events s0 = rows" and
      "rows' = rows @ ds \<or> rows' = rows \<and> set ds \<subseteq> prior_set s0 reqs" by blast
    moreover have "prior_set s0 reqs \<subseteq> set (st_events s0)"
      using s0(1) prior_event_stored by (fastforce simp: prior_set_def good_def)
    ultimately show ?thesis by auto
  qed
  moreover have "view_ok env sha rows' other" using ext view_more [OF assms(3)] by auto
  moreover have "rows_ok env sha rows'" "view_ok env sha rows' st'"
    using K [THEN conjunct1] K [THEN conjunct2, THEN conjunct1] .
  ultimately show ?thesis by simp
qed

text \<open>
  Exactly once: a keyed event is written at most once. If a row of its branch already holds
  its idempotency key, an append that succeeds returns that row and writes nothing; otherwise it
  writes one new row, and returns it.
\<close>

theorem keyed_append_once:
  assumes "rows_ok env sha rows" "view_ok env sha rows st" "rev_key e \<noteq> []"
    "AppendPersisted env sha fault st rows sm e = (st', rows', Inr d)"
  shows "event_identity d = request_identity st e \<and>
    (if \<exists>x \<in> set rows. rev_key x \<noteq> [] \<and> event_identity x = request_identity st e
     then rows' = rows \<and> d \<in> set rows else rows' = rows @ [d])"
  using append_persisted_ok [OF assms(1,2,4)] assms(3) by simp

section \<open>A first append\<close>

definition demo_env :: "string store_env" where
  "demo_env = \<lparr>env_bytes = (\<lambda>p. p), env_vacuous = (\<lambda>p. p = []), env_redact = Some,
     env_admits = (\<lambda>_. True), env_decodes = (\<lambda>_. True), env_replay = (\<lambda>_ _. True),
     env_load = (\<lambda>_ _. True)\<rparr>"

definition demo_store :: "string event_store" where
  "demo_store = \<lparr>st_run = ''r1'', st_invocation = [], st_session = ''s1'', st_branch = [], st_last_id = [],
     st_last_hash = [], st_sequence = 0, st_valid = True, st_closed = False, st_read_only = False,
     st_events = [], st_keys = []\<rparr>"

definition demo_stamp :: stamp where
  "demo_stamp = \<lparr>sm_id = ''evt-1'', sm_now = ''T'', sm_recovery_run = ''rr'', sm_workspace_session = ''ws''\<rparr>"

definition demo_event :: "string run_event" where
  "demo_event = \<lparr>rev_schema = 0, rev_id = [], rev_previous_id = [], rev_invocation = [], rev_run = [],
     rev_session = [], rev_branch = [], rev_task = ''t1'', rev_attempt = 1, rev_actor = ''runtime'',
     rev_type = ''task_completed'', rev_timestamp = [], rev_key = ''k'', rev_payload = ''p'',
     rev_previous_hash = [], rev_hash = []\<rparr>"

definition demo_durable :: "string run_event" where
  "demo_durable = demo_event\<lparr>rev_schema := 2, rev_id := ''evt-1'', rev_run := ''r1'', rev_session := ''s1'',
     rev_timestamp := ''T'', rev_hash := ComputeHash demo_digest [] ''evt-1'' ''task_completed'' ''T'' ''p''\<rparr>"

definition demo_store1 :: "string event_store" where
  "demo_store1 = publish_event demo_durable demo_store"

lemmas demo_append_defs =
  AppendPersisted_def appendPersistedEvents_def append_synced_def loadEvents_def replayedEventBatch_def
  prior_event_def prepareEventBatch_def prepareEvent_def stamp_session_def stamp_run_def stamped_def
  chained_def demo_store_def demo_env_def demo_event_def demo_stamp_def demo_durable_def demo_store1_def
  IsTerminalEvent_def EventDerivedForkCreated_def eventStoreSchemaVersion_def

lemma demo_append:
  "AppendPersisted demo_env demo_digest NoFault demo_store [] demo_stamp demo_event =
   (demo_store1, [demo_durable], Inr demo_durable)"
  by (simp add: demo_append_defs)

lemma demo_rows: "rows_ok demo_env demo_digest []" "view_ok demo_env demo_digest [] demo_store"
  by (simp_all add: rows_ok_def verify_chain_def view_ok_def good_def keys_ok_def demo_store_def head_of_def
      new_verifier_def)

theorem journal_never_damaged_witness:
  "rows_ok demo_env demo_digest [demo_durable] \<and> view_ok demo_env demo_digest [demo_durable] demo_store"
proof -
  have "appendPersistedEvents demo_env demo_digest NoFault None demo_store [] [(demo_stamp, demo_event)] =
      (demo_store1, [demo_durable], Inr [demo_durable])"
    by (simp add: demo_append_defs)
  from journal_never_damaged [OF demo_rows demo_rows(2) this] show ?thesis by simp
qed

theorem keyed_append_once_witness:
  "event_identity demo_durable = (''main'', ''k'')"
proof -
  have "rev_key demo_event \<noteq> []" by (simp add: demo_event_def)
  from keyed_append_once [OF demo_rows this demo_append] show ?thesis
    by (simp add: request_identity_def demo_event_def demo_store_def newEventIdempotencyIdentity_def)
qed

end
