(* ===== verification/Cost_Manager.thy ===== *)
theory Cost_Manager
  imports Cost_View Event_Journal
begin

text \<open>
  \<open>internal/team/cost_manager.go\<close> and \<open>cost_events.go\<close>: admission and settlement of provider
  invocations against the run budget. The mutex makes each operation one step of the state
  (manager, journal). The journal is an argument: its append, and \<open>None\<close> for a nil journal. A cost
  event stands for its encoded payload; the times \<open>now\<close> are arguments.
\<close>

section \<open>Data\<close>

datatype payload = CostPayload cost_event | OtherPayload string

type_synonym journal_event = "payload run_event"

record reservation_request =
  rq_ident :: invocation_identity
  rq_target :: string
  rq_input_tokens :: int
  rq_output_tokens :: int
  rq_opaque :: bool

record settlement_request =
  sq_run :: string
  sq_invocation :: string
  sq_usage :: "token_usage option"
  sq_reported :: bool
  sq_outcome :: outcome

datatype append_error =
  JournalUnavailable | EncodeFailed cost_error | AppendFailed | DecodeFailed cost_error | DurableDisagrees

datatype cause = CostCause cost_error | AppendCause append_error

datatype manager_error =
    AdmissionDenied denial_reason "cause option"
  | DenialConflict | ReservationConflict | EstimateFailed cost_error
  | NoReservationFound | SettlementConflict | SettlePersistFailed append_error | SettleProjectFailed cost_error

record cost_manager =
  cm_policy :: policy_snapshot
  cm_prices :: "(string \<times> price_snapshot) list"
  cm_projection :: projection
  cm_integrity :: "cause option"

text \<open>A later price for the same target overrides an earlier one, as in the map built by the loop.\<close>

definition newCostManager :: "policy_snapshot option \<Rightarrow> cost_manager option" where
  "newCostManager policy =
     (case policy of
        None \<Rightarrow> None
      | Some pol \<Rightarrow>
          Some \<lparr>cm_policy = pol,
                cm_prices = fold (\<lambda>p al. AList.update (ps_target p) p al) (pol_prices pol) [],
                cm_projection = NewProjection, cm_integrity = None\<rparr>)"

section \<open>Events on the journal\<close>

fun event_kind :: "cost_event \<Rightarrow> string" where
  "event_kind (PriceResolved _) = ''cost_price_snapshot_resolved''"
| "event_kind (Reserved _) = ''cost_reservation_committed''"
| "event_kind (Settled _) = ''cost_settled''"
| "event_kind (BudgetWarning _) = ''cost_budget_warning''"
| "event_kind (BudgetDenied _) = ''cost_budget_denied''"
| "event_kind (UnknownEvent k) = k"

definition cost_kinds :: "string set" where
  "cost_kinds = {''cost_price_snapshot_resolved'', ''cost_reservation_committed'', ''cost_settled'',
                 ''cost_budget_warning'', ''cost_budget_denied''}"

fun costEventRunID :: "cost_event \<Rightarrow> string" where
  "costEventRunID (PriceResolved (Some e)) = pe_run e"
| "costEventRunID (Reserved (Some e)) = ii_run (rv_ident e)"
| "costEventRunID (Settled (Some e)) = ii_run (se_ident e)"
| "costEventRunID (BudgetWarning (Some e)) = wn_run e"
| "costEventRunID (BudgetDenied (Some e)) = ii_run (dn_ident e)"
| "costEventRunID _ = []"

fun costEventTaskID :: "cost_event \<Rightarrow> string" where
  "costEventTaskID (Reserved (Some e)) = ii_task (rv_ident e)"
| "costEventTaskID (Settled (Some e)) = ii_task (se_ident e)"
| "costEventTaskID (BudgetDenied (Some e)) = ii_task (dn_ident e)"
| "costEventTaskID _ = []"

fun costEventAttempt :: "cost_event \<Rightarrow> int" where
  "costEventAttempt (Reserved (Some e)) = ii_attempt (rv_ident e)"
| "costEventAttempt (Settled (Some e)) = ii_attempt (se_ident e)"
| "costEventAttempt (BudgetDenied (Some e)) = ii_attempt (dn_ident e)"
| "costEventAttempt _ = 0"

text \<open>\<open>DecodeEvent\<close>: the payload of the named kind, validated.\<close>

definition DecodeEvent :: "digest \<Rightarrow> string \<Rightarrow> payload \<Rightarrow> cost_error + cost_event" where
  "DecodeEvent sha kind p =
     (case p of
        OtherPayload _ \<Rightarrow> Inl UnsupportedKind
      | CostPayload e \<Rightarrow>
          if event_kind e \<noteq> kind then Inl UnsupportedKind
          else bindR (ValidateEvent sha e) (\<lambda>_. Inr e))"

fun costEventsFromRunEvents :: "digest \<Rightarrow> journal_event list \<Rightarrow> cause + cost_event list" where
  "costEventsFromRunEvents sha [] = Inr []"
| "costEventsFromRunEvents sha (ev # evs) =
     (if rev_type ev \<notin> cost_kinds then costEventsFromRunEvents sha evs
      else case DecodeEvent sha (rev_type ev) (rev_payload ev) of
        Inl err \<Rightarrow> Inl (CostCause err)
      | Inr e \<Rightarrow>
          if costEventRunID e \<noteq> rev_run ev \<or> costEventTaskID e \<noteq> rev_task ev \<or>
             costEventAttempt e \<noteq> rev_attempt ev
          then Inl (AppendCause DurableDisagrees)
          else bindR (costEventsFromRunEvents sha evs) (\<lambda>es. Inr (e # es)))"

text \<open>Both sides must encode, that is validate; equal encodings are equal events.\<close>

definition costEventsEqual :: "digest \<Rightarrow> cost_event \<Rightarrow> cost_event \<Rightarrow> bool" where
  "costEventsEqual sha l r \<longleftrightarrow>
     ValidateEvent sha l = Inr () \<and> ValidateEvent sha r = Inr () \<and> event_kind l = event_kind r \<and> l = r"

definition costPriceKey :: "price_event \<Rightarrow> string" where
  "costPriceKey e = ''cost-price:v1:'' @ pe_run e @ '':'' @ ps_id (pe_price e)"

definition costReservationKey :: "reservation_event \<Rightarrow> string" where
  "costReservationKey e = ''cost-reserve:v1:'' @ ii_run (rv_ident e) @ '':'' @ ii_invocation (rv_ident e)"

definition costSettlementKey :: "settlement_event \<Rightarrow> string" where
  "costSettlementKey e = ''cost-settle:v1:'' @ ii_run (se_ident e) @ '':'' @ ii_invocation (se_ident e)"

definition costWarningKey :: "warning_event \<Rightarrow> string" where
  "costWarningKey e = ''cost-warning:v1:'' @ wn_run e @ '':'' @ dec_int (wn_threshold e)"

definition costDeniedKey :: "denied_event \<Rightarrow> string" where
  "costDeniedKey e = ''cost-denied:v1:'' @ ii_run (dn_ident e) @ '':'' @ ii_invocation (dn_ident e)"

definition cost_run_event :: "cost_event \<Rightarrow> string \<Rightarrow> journal_event" where
  "cost_run_event e key =
     \<lparr>rev_schema = 0, rev_id = [], rev_previous_id = [], rev_invocation = [], rev_run = costEventRunID e,
      rev_session = [], rev_branch = [], rev_task = costEventTaskID e, rev_attempt = costEventAttempt e,
      rev_actor = ''runtime'', rev_type = event_kind e, rev_timestamp = [], rev_key = key,
      rev_payload = CostPayload e, rev_previous_hash = [], rev_hash = []\<rparr>"

type_synonym 'j appender = "'j \<Rightarrow> journal_event \<Rightarrow> 'j \<times> journal_event option"

text \<open>\<open>CostManager.append\<close>: the durable record must decode to the very event that was asked for.\<close>

definition append_cost ::
  "digest \<Rightarrow> 'j appender \<Rightarrow> 'j option \<Rightarrow> cost_event \<Rightarrow> string \<Rightarrow> 'j option \<times> append_error option" where
  "append_cost sha app journal e key =
     (case journal of
        None \<Rightarrow> (None, Some JournalUnavailable)
      | Some j \<Rightarrow>
          (case ValidateEvent sha e of
             Inl err \<Rightarrow> (Some j, Some (EncodeFailed err))
           | Inr _ \<Rightarrow>
               (case app j (cost_run_event e key) of
                  (j', None) \<Rightarrow> (Some j', Some AppendFailed)
                | (j', Some d) \<Rightarrow>
                    (case DecodeEvent sha (rev_type d) (rev_payload d) of
                       Inl err \<Rightarrow> (Some j', Some (DecodeFailed err))
                     | Inr decoded \<Rightarrow>
                         if rev_run d \<noteq> costEventRunID e \<or> rev_task d \<noteq> costEventTaskID e \<or>
                            rev_attempt d \<noteq> costEventAttempt e \<or> \<not> costEventsEqual sha e decoded
                         then (Some j', Some DurableDisagrees)
                         else (Some j', None)))))"

text \<open>
  The manager's projection advances only after the append: the new projection, or the error of the
  append (left), or the error of \<open>Apply\<close>, which degrades the manager's integrity (right).
\<close>

datatype commit_result = Committed | NotAppended append_error | NotApplied cost_error

definition commit_cost ::
  "digest \<Rightarrow> 'j appender \<Rightarrow> cost_manager \<Rightarrow> 'j option \<Rightarrow> cost_event \<Rightarrow> string \<Rightarrow>
   cost_manager \<times> 'j option \<times> commit_result" where
  "commit_cost sha app m j e key =
     (case append_cost sha app j e key of
        (j', Some err) \<Rightarrow> (m, j', NotAppended err)
      | (j', None) \<Rightarrow>
          (case Apply sha (cm_projection m) e of
             (p, None) \<Rightarrow> (m\<lparr>cm_projection := p\<rparr>, j', Committed)
           | (p, Some err) \<Rightarrow>
               (m\<lparr>cm_projection := p, cm_integrity := Some (CostCause err)\<rparr>, j', NotApplied err)))"

section \<open>Building the events\<close>

definition opaque_unbounded_price :: "reservation_request \<Rightarrow> price_snapshot \<Rightarrow> bool" where
  "opaque_unbounded_price rq price \<longleftrightarrow>
     rq_opaque rq \<and> ps_mode price = BillingMetered \<and> ps_opaque price = None"

definition reservation_price :: "digest \<Rightarrow> cost_manager \<Rightarrow> reservation_request \<Rightarrow> cost_error + price_snapshot" where
  "reservation_price sha m rq =
     bindR (case map_of (cm_prices m) (rq_target rq) of
              Some p \<Rightarrow> Inr p | None \<Rightarrow> NewUnknownPriceSnapshot sha (rq_target rq)) (\<lambda>price.
       if opaque_unbounded_price rq price then NewUnknownPriceSnapshot sha (rq_target rq) else Inr price)"

text \<open>
  The code's inner branch for a metered price without an opaque maximum is unreachable here: such
  a price has just been replaced by the unknown one.
\<close>

definition reservation_estimate_of :: "reservation_request \<Rightarrow> price_snapshot \<Rightarrow> cost_error + estimate" where
  "reservation_estimate_of rq price =
     (if rq_opaque rq \<and> ps_mode price = BillingMetered then
        (case ps_opaque price of
           None \<Rightarrow> Inr \<lparr>est_micros = None, est_source = EstimateUnknown, est_mode = BillingUnknown\<rparr>
         | Some _ \<Rightarrow> EstimateOpaqueBound price)
      else EstimateAdmission price (rq_input_tokens rq) (rq_output_tokens rq))"

definition buildReservation ::
  "digest \<Rightarrow> string \<Rightarrow> cost_manager \<Rightarrow> reservation_request \<Rightarrow>
   cost_error + reservation_event \<times> price_snapshot" where
  "buildReservation sha now m rq =
     bindR (reservation_price sha m rq) (\<lambda>price.
     bindR (reservation_estimate_of rq price) (\<lambda>e.
       let r = \<lparr>rv_schema = EventSchemaVersion, rv_ident = rq_ident rq, rv_target = rq_target rq,
                rv_price_id = ps_id price, rv_input_tokens = rq_input_tokens rq,
                rv_output_tokens = rq_output_tokens rq, rv_micros = est_micros e,
                rv_source = est_source e, rv_mode = est_mode e, rv_at = now\<rparr>
       in bindR (ValidateEvent sha (Reserved (Some r))) (\<lambda>_. Inr (r, price))))"

definition opaquePriceUnbounded :: "cost_manager \<Rightarrow> reservation_request \<Rightarrow> bool" where
  "opaquePriceUnbounded m rq =
     (case map_of (cm_prices m) (rq_target rq) of None \<Rightarrow> False | Some p \<Rightarrow> opaque_unbounded_price rq p)"

definition completeCostUsage :: "token_usage \<Rightarrow> bool" where
  "completeCostUsage u =
     (if InputTokens u < 0 \<or> CacheReadTokens u < 0 \<or> CacheCreationTokens u < 0 \<or> OutputTokens u < 0 \<or>
         TotalTokens u < 0 then False
      else if InputTokens u = 0 \<and> CacheReadTokens u = 0 \<and> CacheCreationTokens u = 0 \<and> OutputTokens u = 0
        then False
      else TotalTokens u = 0 \<or> TotalTokens u \<ge> i64 (InputTokens u + OutputTokens u))"

text \<open>The usage a settlement is charged for, and its estimate; otherwise the reserved estimate stands.\<close>

definition observed_usage ::
  "projection \<Rightarrow> reservation_event \<Rightarrow> settlement_request \<Rightarrow> (token_usage \<times> estimate) option" where
  "observed_usage p r rq =
     (case sq_usage rq of
        None \<Rightarrow> None
      | Some u \<Rightarrow>
          if completeCostUsage u \<or> sq_reported rq \<and> u = no_usage then
            (case Price p (ii_run (rv_ident r)) (rv_price_id r) of
               None \<Rightarrow> None
             | Some price \<Rightarrow>
                 (case EstimateUsageCost price u of Inl _ \<Rightarrow> None | Inr e \<Rightarrow> Some (u, e)))
          else None)"

definition buildSettlement ::
  "string \<Rightarrow> projection \<Rightarrow> reservation_event \<Rightarrow> settlement_request \<Rightarrow> settlement_event" where
  "buildSettlement now p r rq =
     (let (usage, e) = (case observed_usage p r rq of
                          Some (u, e) \<Rightarrow> (Some u, e) | None \<Rightarrow> (None, reservationEstimate r))
      in \<lparr>se_schema = EventSchemaVersion, se_ident = rv_ident r, se_target = rv_target r,
          se_price_id = rv_price_id r, se_usage = usage, se_micros = est_micros e,
          se_source = est_source e, se_mode = est_mode e, se_outcome = sq_outcome rq, se_at = now\<rparr>)"

section \<open>Operations\<close>

definition Rehydrate :: "digest \<Rightarrow> cost_manager \<Rightarrow> journal_event list \<Rightarrow> cost_manager \<times> cause option" where
  "Rehydrate sha m events =
     (case costEventsFromRunEvents sha events of
        Inl err \<Rightarrow> (m\<lparr>cm_integrity := Some err\<rparr>, Some err)
      | Inr decoded \<Rightarrow>
          (case Reduce sha decoded of
             Inl err \<Rightarrow> (m\<lparr>cm_integrity := Some (CostCause err)\<rparr>, Some (CostCause err))
           | Inr p \<Rightarrow> (m\<lparr>cm_projection := p, cm_integrity := None\<rparr>, None)))"

definition commit_cause :: "commit_result \<Rightarrow> cause option" where
  "commit_cause c = (case c of Committed \<Rightarrow> None | NotAppended e \<Rightarrow> Some (AppendCause e)
                     | NotApplied e \<Rightarrow> Some (CostCause e))"

definition deny ::
  "digest \<Rightarrow> 'j appender \<Rightarrow> string \<Rightarrow> cost_manager \<Rightarrow> 'j option \<Rightarrow> reservation_request \<Rightarrow> denial_reason \<Rightarrow>
   cost_manager \<times> 'j option \<times> (manager_error + reservation_event)" where
  "deny sha app now m j rq reason =
     (let denied = \<lparr>dn_schema = EventSchemaVersion, dn_ident = rq_ident rq, dn_target = rq_target rq,
                    dn_reason = reason, dn_at = now\<rparr>
      in case commit_cost sha app m j (BudgetDenied (Some denied)) (costDeniedKey denied) of
           (m, j, c) \<Rightarrow> (m, j, Inl (AdmissionDenied reason (commit_cause c))))"

definition ensurePriceSnapshot ::
  "digest \<Rightarrow> 'j appender \<Rightarrow> cost_manager \<Rightarrow> 'j option \<Rightarrow> string \<Rightarrow> price_snapshot \<Rightarrow>
   cost_manager \<times> 'j option \<times> commit_result" where
  "ensurePriceSnapshot sha app m j run price =
     (if Price (cm_projection m) run (ps_id price) \<noteq> None then (m, j, Committed)
      else let e = \<lparr>pe_schema = EventSchemaVersion, pe_run = run, pe_price = price\<rparr>
           in commit_cost sha app m j (PriceResolved (Some e)) (costPriceKey e))"

text \<open>The final comparison with the budget, in the order of the code.\<close>

datatype budget_verdict = BudgetDegraded cost_error | BudgetRefused denial_reason | BudgetAllows "warning_event option"

definition check_budget ::
  "string \<Rightarrow> policy_snapshot \<Rightarrow> projection \<Rightarrow> string \<Rightarrow> int option \<Rightarrow> budget_verdict" where
  "check_budget now pol p run micros =
     (case KnownMicrosForRun p run of
        Inl err \<Rightarrow> BudgetDegraded err
      | Inr current \<Rightarrow>
          (if (case micros of None \<Rightarrow> False | Some v \<Rightarrow> current > i64 (MaxInt64 - v))
           then BudgetRefused DenialUnboundedCost
           else
             let projected = (case micros of None \<Rightarrow> current | Some v \<Rightarrow> i64 (current + v))
             in if (case pol_max pol of None \<Rightarrow> False | Some b \<Rightarrow> projected > b)
                then BudgetRefused DenialBudgetExceeded
                else BudgetAllows
                  (case pol_warning pol of
                     None \<Rightarrow> None
                   | Some t \<Rightarrow>
                       if current < t \<and> projected \<ge> t \<and> \<not> HasWarning p run t
                       then Some \<lparr>wn_schema = EventSchemaVersion, wn_run = run, wn_threshold = t,
                                  wn_projected = projected, wn_at = now\<rparr>
                       else None)))"

text \<open>Admission of a reservation whose price is on the ledger: the budget, the warning, the append.\<close>

definition admit ::
  "digest \<Rightarrow> 'j appender \<Rightarrow> string \<Rightarrow> cost_manager \<Rightarrow> 'j option \<Rightarrow> reservation_request \<Rightarrow> reservation_event \<Rightarrow>
   cost_manager \<times> 'j option \<times> (manager_error + reservation_event)" where
  "admit sha app now m j rq r =
     (case check_budget now (cm_policy m) (cm_projection m) (ii_run (rq_ident rq)) (rv_micros r) of
        BudgetDegraded err \<Rightarrow>
          (m\<lparr>cm_integrity := Some (CostCause err)\<rparr>, j,
           Inl (AdmissionDenied DenialIntegrity (Some (CostCause err))))
      | BudgetRefused reason \<Rightarrow> deny sha app now m j rq reason
      | BudgetAllows warning \<Rightarrow>
          (case (case warning of None \<Rightarrow> (m, j, Committed)
                 | Some w \<Rightarrow> commit_cost sha app m j (BudgetWarning (Some w)) (costWarningKey w)) of
             (m, j, Committed) \<Rightarrow>
               (case commit_cost sha app m j (Reserved (Some r)) (costReservationKey r) of
                  (m, j, Committed) \<Rightarrow> (m, j, Inr r)
                | (m, j, c) \<Rightarrow> (m, j, Inl (AdmissionDenied DenialIntegrity (commit_cause c))))
           | (m, j, c) \<Rightarrow> (m, j, Inl (AdmissionDenied DenialIntegrity (commit_cause c)))))"

definition reserve_new ::
  "digest \<Rightarrow> 'j appender \<Rightarrow> string \<Rightarrow> cost_manager \<Rightarrow> 'j option \<Rightarrow> reservation_request \<Rightarrow>
   reservation_event \<Rightarrow> price_snapshot \<Rightarrow> cost_manager \<times> 'j option \<times> (manager_error + reservation_event)" where
  "reserve_new sha app now m j rq r price =
     (case ensurePriceSnapshot sha app m j (ii_run (rq_ident rq)) price of
        (m, j, Committed) \<Rightarrow>
          (if opaquePriceUnbounded m rq \<and>
              (pol_max (cm_policy m) \<noteq> None \<or> pol_unknown (cm_policy m) = UnknownPriceDeny)
           then deny sha app now m j rq DenialUnboundedCost
           else if rv_source r = EstimateUnknown \<and> pol_unknown (cm_policy m) = UnknownPriceDeny
           then deny sha app now m j rq DenialUnknownPrice
           else admit sha app now m j rq r)
      | (m, j, c) \<Rightarrow> (m, j, Inl (AdmissionDenied DenialIntegrity (commit_cause c))))"

definition Reserve ::
  "digest \<Rightarrow> 'j appender \<Rightarrow> string \<Rightarrow> string \<Rightarrow> cost_manager \<Rightarrow> 'j option \<Rightarrow> reservation_request \<Rightarrow>
   cost_manager \<times> 'j option \<times> (manager_error + reservation_event)" where
  "Reserve sha app now later m j rq =
     (let run = ii_run (rq_ident rq); ivk = ii_invocation (rq_ident rq)
      in if cm_integrity m \<noteq> None then (m, j, Inl (AdmissionDenied DenialIntegrity (cm_integrity m)))
         else case Denial (cm_projection m) run ivk of
           Some d \<Rightarrow>
             (if dn_ident d \<noteq> rq_ident rq \<or> dn_target d \<noteq> rq_target rq then (m, j, Inl DenialConflict)
              else (m, j, Inl (AdmissionDenied (dn_reason d) None)))
         | None \<Rightarrow>
             (case Invocation (cm_projection m) run ivk of
                Some existing \<Rightarrow>
                  (case buildReservation sha now m rq of
                     Inl err \<Rightarrow> (m, j, Inl (EstimateFailed err))
                   | Inr (candidate, _) \<Rightarrow>
                       (let candidate = candidate\<lparr>rv_at := rv_at (ip_reservation existing)\<rparr>
                        in if \<not> costEventsEqual sha (Reserved (Some candidate))
                                  (Reserved (Some (ip_reservation existing)))
                           then (m, j, Inl ReservationConflict)
                           else (m, j, Inr (ip_reservation existing))))
              | None \<Rightarrow>
                  (case buildReservation sha now m rq of
                     Inl err \<Rightarrow> (m, j, Inl (EstimateFailed err))
                   | Inr (r, price) \<Rightarrow> reserve_new sha app later m j rq r price)))"

definition Settle ::
  "digest \<Rightarrow> 'j appender \<Rightarrow> string \<Rightarrow> cost_manager \<Rightarrow> 'j option \<Rightarrow> settlement_request \<Rightarrow>
   cost_manager \<times> 'j option \<times> (manager_error + settlement_event)" where
  "Settle sha app now m j rq =
     (case Invocation (cm_projection m) (sq_run rq) (sq_invocation rq) of
        None \<Rightarrow> (m, j, Inl NoReservationFound)
      | Some i \<Rightarrow>
          (let s = buildSettlement now (cm_projection m) (ip_reservation i) rq
           in case ip_settlement i of
                Some old \<Rightarrow>
                  (if \<not> costEventsEqual sha (Settled (Some (s\<lparr>se_at := se_at old\<rparr>))) (Settled (Some old))
                   then (m, j, Inl SettlementConflict) else (m, j, Inr old))
              | None \<Rightarrow>
                  (case commit_cost sha app m j (Settled (Some s)) (costSettlementKey s) of
                     (m, j, Committed) \<Rightarrow> (m, j, Inr s)
                   | (m, j, NotAppended err) \<Rightarrow>
                       (m\<lparr>cm_integrity := Some (AppendCause err)\<rparr>, j, Inl (SettlePersistFailed err))
                   | (m, j, NotApplied err) \<Rightarrow> (m, j, Inl (SettleProjectFailed err)))))"

end
