(* ===== verification/Cost_Admission.thy ===== *)
theory Cost_Admission
  imports Cost_Manager
begin

text \<open>
  What the cost manager promises: a newly admitted reservation fits the run's budget, a repeated
  request is answered from the ledger, and every successful operation leaves the in-memory ledger
  equal to the replay of the durable journal.
\<close>

section \<open>Commits\<close>

lemma Apply_applyR: "Apply sha p e = (p', None) \<longleftrightarrow> applyR sha p e = Inr p'"
  by (auto simp: applyR_def split: prod.splits option.splits)

lemma commit_cases:
  assumes "commit_cost sha app m j e key = (m', j', c)"
  obtains (committed) p where "c = Committed" "append_cost sha app j e key = (j', None)"
      "applyR sha (cm_projection m) e = Inr p" "m' = m\<lparr>cm_projection := p\<rparr>"
  | (failed) "c \<noteq> Committed"
  using assms by (auto simp: commit_cost_def Apply_applyR split: prod.splits option.splits)

lemma commit_Committed:
  assumes "commit_cost sha app m j e key = (m', j', Committed)"
  obtains p where "append_cost sha app j e key = (j', None)"
    "applyR sha (cm_projection m) e = Inr p" "m' = m\<lparr>cm_projection := p\<rparr>"
  using assms by (cases rule: commit_cases) auto

text \<open>What no commit changes.\<close>

lemma commit_frame:
  "commit_cost sha app m j e key = (m', j', c) \<Longrightarrow>
   cm_policy m' = cm_policy m \<and> cm_prices m' = cm_prices m \<and> (c = Committed \<longrightarrow> cm_integrity m' = cm_integrity m)"
  by (auto simp: commit_cost_def split: prod.splits option.splits)

text \<open>The successful runs of the admission path, step by step.\<close>

lemma ensure_Committed:
  assumes "ensurePriceSnapshot sha app m j run price = (m', j', Committed)"
  obtains (known) "m' = m" "j' = j" "Price (cm_projection m) run (ps_id price) \<noteq> None"
  | (resolved) e where "e = PriceResolved (Some \<lparr>pe_schema = EventSchemaVersion, pe_run = run, pe_price = price\<rparr>)"
      "commit_cost sha app m j e (costPriceKey \<lparr>pe_schema = EventSchemaVersion, pe_run = run, pe_price = price\<rparr>) =
       (m', j', Committed)"
proof (cases "Price (cm_projection m) run (ps_id price) = None")
  case True
  with assms show thesis by (intro resolved [OF refl]) (simp add: ensurePriceSnapshot_def Let_def)
next
  case False
  with assms show thesis by (intro known) (simp_all add: ensurePriceSnapshot_def)
qed

lemma deny_not_Inr: "deny sha app now m j rq reason \<noteq> (m', j', Inr r)"
  by (auto simp: deny_def Let_def split: prod.splits)

lemma admit_Inr:
  assumes "admit sha app now m j rq r = (m', j', Inr r')"
  obtains w m1 j1 where "r' = r"
    "check_budget now (cm_policy m) (cm_projection m) (ii_run (rq_ident rq)) (rv_micros r) = BudgetAllows w"
    "(case w of None \<Rightarrow> (m1, j1) = (m, j)
      | Some x \<Rightarrow> commit_cost sha app m j (BudgetWarning (Some x)) (costWarningKey x) = (m1, j1, Committed))"
    "commit_cost sha app m1 j1 (Reserved (Some r)) (costReservationKey r) = (m', j', Committed)"
proof -
  obtain w where w: "check_budget now (cm_policy m) (cm_projection m) (ii_run (rq_ident rq)) (rv_micros r) =
      BudgetAllows w"
    using assms
    by (cases "check_budget now (cm_policy m) (cm_projection m) (ii_run (rq_ident rq)) (rv_micros r)")
       (simp_all add: admit_def deny_not_Inr)
  obtain m1 j1 c where s: "(case w of None \<Rightarrow> (m, j, Committed)
      | Some x \<Rightarrow> commit_cost sha app m j (BudgetWarning (Some x)) (costWarningKey x)) = (m1, j1, c)"
    by (metis prod_cases3)
  obtain m2 j2 c2 where t: "commit_cost sha app m1 j1 (Reserved (Some r)) (costReservationKey r) = (m2, j2, c2)"
    by (metis prod_cases3)
  have "c = Committed" "c2 = Committed" "m2 = m'" "j2 = j'" "r' = r"
    using assms w s t by (auto simp: admit_def split: commit_result.splits)
  with w s t that show thesis by (auto split: option.splits)
qed

lemma reserve_new_Inr:
  assumes "reserve_new sha app now m j rq r price = (m', j', Inr r')"
  obtains m1 j1 where "ensurePriceSnapshot sha app m j (ii_run (rq_ident rq)) price = (m1, j1, Committed)"
    "rv_source r = EstimateUnknown \<longrightarrow> pol_unknown (cm_policy m1) \<noteq> UnknownPriceDeny"
    "admit sha app now m1 j1 rq r = (m', j', Inr r')"
proof -
  obtain m1 j1 c where e: "ensurePriceSnapshot sha app m j (ii_run (rq_ident rq)) price = (m1, j1, c)"
    by (metis prod_cases3)
  with assms have "c = Committed" by (cases c) (auto simp: reserve_new_def)
  with assms e that show thesis
    by (auto simp: reserve_new_def deny_not_Inr split: if_splits)
qed

text \<open>The events other than reservations and settlements leave the invocations alone.\<close>

lemma applyR_invocations:
  "applyR sha p (PriceResolved x) = Inr p' \<Longrightarrow> prj_invocations p' = prj_invocations p \<and> prj_denials p' = prj_denials p"
  "applyR sha p (BudgetWarning y) = Inr p' \<Longrightarrow> prj_invocations p' = prj_invocations p \<and> prj_denials p' = prj_denials p"
  by (auto simp: applyR_def Apply_def apply_price_def apply_warning_def Let_def
      split: option.splits sum.splits if_splits prod.splits)

lemma applyR_reserved_fresh:
  assumes "applyR sha p (Reserved (Some r)) = Inr p'"
    "Invocation p (ii_run (rv_ident r)) (ii_invocation (rv_ident r)) = None"
  shows "invocation_list p' = invocation_list p @ [\<lparr>ip_reservation = r, ip_settlement = None\<rparr>] \<and>
    prj_denials p' = prj_denials p \<and>
    Invocation p' (ii_run (rv_ident r)) (ii_invocation (rv_ident r)) =
      Some \<lparr>ip_reservation = r, ip_settlement = None\<rparr>"
proof -
  let ?k = "invocationKey (ii_run (rv_ident r)) (ii_invocation (rv_ident r))"
  let ?i = "\<lparr>ip_reservation = r, ip_settlement = None\<rparr>"
  have none: "map_of (prj_invocations p) ?k = None" using assms(2) by (simp add: Invocation_def)
  then have "p' = p\<lparr>prj_available := True, prj_invocations := AList.update ?k ?i (prj_invocations p)\<rparr>"
    using assms(1)
    by (auto simp: applyR_def Apply_def apply_reservation_def Let_def split: option.splits sum.splits if_splits)
  moreover have "AList.update ?k ?i (prj_invocations p) = prj_invocations p @ [(?k, ?i)]"
    using none by (intro update_fresh) (simp add: map_of_eq_None_iff)
  ultimately show ?thesis
    using none by (simp add: invocation_list_def Invocation_def map_add_def)
qed

lemma charged_run_snoc:
  "invocation_list p' = invocation_list p @ [\<lparr>ip_reservation = r, ip_settlement = None\<rparr>] \<Longrightarrow>
   charged_run p' (ii_run (rv_ident r)) = charged_run p (ii_run (rv_ident r)) + opt_micros (rv_micros r)"
  by (simp add: charged_run_def run_of_def charged_def invocationEstimate_def reservationEstimate_def)

lemma charged_run_frame: "prj_invocations p' = prj_invocations p \<Longrightarrow> charged_run p' run = charged_run p run"
  by (simp add: charged_run_def invocation_list_def)

section \<open>The estimate stays within int64\<close>

lemma addMicros_from_int64: "is_int64 acc \<Longrightarrow> addMicros_from acc vs = Inr t \<Longrightarrow> is_int64 t"
  by (induction acc vs rule: addMicros_from.induct) (auto simp: i64_range split: if_splits)

lemma addMicros_int64: "addMicros vs = Inr t \<Longrightarrow> is_int64 t"
  unfolding addMicros_def by (rule addMicros_from_int64) (simp_all add: is_int64_def MinInt64_def)

lemma opaque_int64: "price_int64 p \<Longrightarrow> EstimateOpaqueBound p = Inr e \<Longrightarrow> opt_int64 (est_micros e)"
  by (auto simp: EstimateOpaqueBound_def price_int64_def opt_int64_def split: option.splits if_splits)

lemma usage_int64: "price_int64 p \<Longrightarrow> EstimateUsageCost p u = Inr e \<Longrightarrow> opt_int64 (est_micros e)"
  by (auto simp: EstimateUsageCost_def metered_usage_def bindR_eq_Inr opt_int64_def
      dest: addMicros_int64 opaque_int64 split: billing_mode.splits if_splits)

lemma admission_int64: "price_int64 p \<Longrightarrow> EstimateAdmission p a b = Inr e \<Longrightarrow> opt_int64 (est_micros e)"
  by (auto simp: EstimateAdmission_def EstimateTokenAdmissionBound_def bindR_eq_Inr opt_int64_def Let_def
      dest: addMicros_int64 opaque_int64 usage_int64 split: billing_mode.splits if_splits)

lemma unknown_int64: "NewUnknownPriceSnapshot sha t = Inr p \<Longrightarrow> price_int64 p"
  by (auto simp: NewUnknownPriceSnapshot_def price_int64_def Let_def split: if_splits)

lemma buildReservation_int64:
  assumes "buildReservation sha now m rq = Inr (r, price)" "\<forall>(t, p) \<in> set (cm_prices m). price_int64 p"
  shows "opt_int64 (rv_micros r) \<and> price_int64 price \<and> rv_ident r = rq_ident rq \<and>
         ValidateEvent sha (Reserved (Some r)) = Inr ()"
proof -
  obtain e where p: "reservation_price sha m rq = Inr price" and e: "reservation_estimate_of rq price = Inr e"
    and r: "rv_micros r = est_micros e" "rv_ident r = rq_ident rq" "ValidateEvent sha (Reserved (Some r)) = Inr ()"
    using assms(1) by (auto simp: buildReservation_def bindR_eq_Inr Let_def)
  have "price_int64 price"
    using p assms(2)
    by (auto simp: reservation_price_def bindR_eq_Inr dest: unknown_int64 dest!: map_of_SomeD
        split: option.splits if_splits)
  with e r show ?thesis
    by (auto simp: reservation_estimate_of_def opt_int64_def [of None] dest: admission_int64 opaque_int64
        split: if_splits option.splits)
qed

section \<open>The budget\<close>

lemma validMetadata_nonempty: "validMetadata s \<Longrightarrow> s \<noteq> []"
  by (auto simp: validMetadata_def Let_def)

lemma reservation_valid_facts:
  assumes "ValidateEvent sha (Reserved (Some r)) = Inr ()"
  shows "ii_run (rv_ident r) \<noteq> []" "\<forall>v. rv_micros r = Some v \<longrightarrow> 0 \<le> v"
  using assms validateEstimate_micros(1) [of "rv_mode r" "rv_source r" _ True] reservation_estimate [of r]
  by (auto simp: validateReservationEvent_def validateInvocationIdentity_def bindR_eq_Inr
      dest: validMetadata_nonempty split: if_splits)

lemma check_budget_allows:
  assumes wf: "wf_projection sha p" and run: "run \<noteq> []"
    and v: "opt_int64 micros" "\<forall>v. micros = Some v \<longrightarrow> 0 \<le> v"
    and ok: "check_budget now pol p run micros = BudgetAllows w"
  shows "\<forall>b. pol_max pol = Some b \<longrightarrow> charged_run p run + opt_micros micros \<le> b"
proof -
  have fits: "charged_total p \<le> MaxInt64"
    using ok by (auto simp: check_budget_def known_micros_eq [OF wf run] split: if_splits)
  then have known: "KnownMicrosForRun p run = Inr (charged_run p run)" by (simp add: known_micros_eq [OF wf run])
  have am: "amount (charged_run p run)" using charged_run_le_total [OF wf, of run] fits by (simp add: amount_def)
  show ?thesis
  proof (cases micros)
    case None
    with ok known show ?thesis by (auto simp: check_budget_def Let_def split: if_splits)
  next
    case (Some x)
    with v have x: "amount x" by (auto intro: opt_int64_amount)
    with ok known Some have "charged_run p run \<le> MaxInt64 - x"
      by (auto simp: check_budget_def i64_room split: if_splits)
    with am x have "i64 (charged_run p run + x) = charged_run p run + x"
      by (intro i64_id amount_int64) (auto simp: amount_def)
    with ok known Some show ?thesis by (auto simp: check_budget_def Let_def split: if_splits)
  qed
qed

text \<open>A successful reservation of an invocation the ledger does not know, step by step.\<close>

lemma reserve_fresh:
  assumes "Reserve sha app now later m j rq = (m', j', Inr r)"
    "Invocation (cm_projection m) (ii_run (rq_ident rq)) (ii_invocation (rq_ident rq)) = None"
  obtains price m1 j1 w m2 j2 where
    "cm_integrity m = None" "Denial (cm_projection m) (ii_run (rq_ident rq)) (ii_invocation (rq_ident rq)) = None"
    "buildReservation sha now m rq = Inr (r, price)"
    "ensurePriceSnapshot sha app m j (ii_run (rq_ident rq)) price = (m1, j1, Committed)"
    "rv_source r = EstimateUnknown \<longrightarrow> pol_unknown (cm_policy m1) \<noteq> UnknownPriceDeny"
    "check_budget later (cm_policy m1) (cm_projection m1) (ii_run (rq_ident rq)) (rv_micros r) = BudgetAllows w"
    "(case w of None \<Rightarrow> (m2, j2) = (m1, j1)
      | Some x \<Rightarrow> commit_cost sha app m1 j1 (BudgetWarning (Some x)) (costWarningKey x) = (m2, j2, Committed))"
    "commit_cost sha app m2 j2 (Reserved (Some r)) (costReservationKey r) = (m', j', Committed)"
proof -
  from assms obtain r0 price where a: "cm_integrity m = None"
    "Denial (cm_projection m) (ii_run (rq_ident rq)) (ii_invocation (rq_ident rq)) = None"
    "buildReservation sha now m rq = Inr (r0, price)" "reserve_new sha app later m j rq r0 price = (m', j', Inr r)"
    by (auto simp: Reserve_def Let_def split: if_splits option.splits sum.splits)
  obtain m1 j1 where b: "ensurePriceSnapshot sha app m j (ii_run (rq_ident rq)) price = (m1, j1, Committed)"
    "rv_source r0 = EstimateUnknown \<longrightarrow> pol_unknown (cm_policy m1) \<noteq> UnknownPriceDeny"
    "admit sha app later m1 j1 rq r0 = (m', j', Inr r)"
    using reserve_new_Inr [OF a(4)] .
  show thesis
  proof (rule admit_Inr [OF b(3)])
    fix w m2 j2
    assume "r = r0"
      and "check_budget later (cm_policy m1) (cm_projection m1) (ii_run (rq_ident rq)) (rv_micros r0) = BudgetAllows w"
      and "(case w of None \<Rightarrow> (m2, j2) = (m1, j1)
        | Some x \<Rightarrow> commit_cost sha app m1 j1 (BudgetWarning (Some x)) (costWarningKey x) = (m2, j2, Committed))"
      and "commit_cost sha app m2 j2 (Reserved (Some r0)) (costReservationKey r0) = (m', j', Committed)"
    with a b show thesis by (intro that) simp_all
  qed
qed

text \<open>The price and the warning step: the projection they leave.\<close>

lemma ensure_projection:
  assumes "ensurePriceSnapshot sha app m j run price = (m1, j1, Committed)"
  shows "prj_invocations (cm_projection m1) = prj_invocations (cm_projection m) \<and>
    prj_denials (cm_projection m1) = prj_denials (cm_projection m) \<and>
    cm_policy m1 = cm_policy m \<and> cm_prices m1 = cm_prices m \<and> cm_integrity m1 = cm_integrity m \<and>
    (wf_projection sha (cm_projection m) \<longrightarrow> price_int64 price \<longrightarrow> wf_projection sha (cm_projection m1))"
  using assms
proof (cases rule: ensure_Committed)
  case (resolved e)
  from commit_Committed [OF resolved(2)] obtain p where p: "applyR sha (cm_projection m) e = Inr p"
    "m1 = m\<lparr>cm_projection := p\<rparr>" by blast
  with wf_applyR [OF _ _ p(1)] applyR_invocations(1) [OF p(1) [unfolded resolved(1)]] resolved(1)
  show ?thesis by simp
qed simp

lemma warn_projection:
  assumes "(case w of None \<Rightarrow> (m2, j2) = (m1, j1)
      | Some x \<Rightarrow> commit_cost sha app m1 j1 (BudgetWarning (Some x)) (costWarningKey x) = (m2, j2, Committed))"
  shows "prj_invocations (cm_projection m2) = prj_invocations (cm_projection m1) \<and>
    prj_denials (cm_projection m2) = prj_denials (cm_projection m1) \<and>
    cm_policy m2 = cm_policy m1 \<and> cm_prices m2 = cm_prices m1 \<and> cm_integrity m2 = cm_integrity m1 \<and>
    (wf_projection sha (cm_projection m1) \<longrightarrow> wf_projection sha (cm_projection m2))"
proof (cases w)
  case (Some x)
  with assms obtain p where p: "applyR sha (cm_projection m1) (BudgetWarning (Some x)) = Inr p"
    "m2 = m1\<lparr>cm_projection := p\<rparr>" by (auto elim: commit_Committed)
  with wf_applyR [OF _ _ p(1)] applyR_invocations(2) [OF p(1)] show ?thesis by simp
qed (use assms in simp)

section \<open>Repeated requests\<close>

lemma reservation_retimed:
  "validTimestamp t \<Longrightarrow> validateReservationEvent (Some r) = Inr () \<Longrightarrow>
   validateReservationEvent (Some (r\<lparr>rv_at := t\<rparr>)) = Inr ()"
  by (auto simp: validateReservationEvent_def bindR_eq_Inr split: if_splits)

lemma build_retimed:
  assumes "buildReservation sha now m rq = Inr (r, price)" "validTimestamp t" "cm_prices m' = cm_prices m"
  shows "buildReservation sha t m' rq = Inr (r\<lparr>rv_at := t\<rparr>, price)"
proof -
  obtain e where p: "reservation_price sha m rq = Inr price" and e: "reservation_estimate_of rq price = Inr e"
    and v: "ValidateEvent sha (Reserved (Some r)) = Inr ()"
    and r: "r = \<lparr>rv_schema = EventSchemaVersion, rv_ident = rq_ident rq, rv_target = rq_target rq,
                rv_price_id = ps_id price, rv_input_tokens = rq_input_tokens rq,
                rv_output_tokens = rq_output_tokens rq, rv_micros = est_micros e,
                rv_source = est_source e, rv_mode = est_mode e, rv_at = now\<rparr>"
    using assms(1) by (auto simp: buildReservation_def bindR_eq_Inr Let_def)
  have p': "reservation_price sha m' rq = Inr price" using p assms(3) by (simp add: reservation_price_def)
  have "ValidateEvent sha (Reserved (Some (r\<lparr>rv_at := t\<rparr>))) = Inr ()"
    using reservation_retimed [OF assms(2)] v by simp
  then show ?thesis by (simp add: buildReservation_def p' e r Let_def)
qed

lemma reserve_again_known:
  assumes "cm_integrity m = None" "Denial (cm_projection m) (ii_run (rq_ident rq)) (ii_invocation (rq_ident rq)) = None"
    "Invocation (cm_projection m) (ii_run (rq_ident rq)) (ii_invocation (rq_ident rq)) = Some i"
    "buildReservation sha now m rq = Inr (c, price)" "c\<lparr>rv_at := rv_at (ip_reservation i)\<rparr> = ip_reservation i"
    "ValidateEvent sha (Reserved (Some (ip_reservation i))) = Inr ()"
  shows "Reserve sha app now later m j rq = (m, j, Inr (ip_reservation i))"
  using assms by (simp add: Reserve_def Let_def costEventsEqual_def)

text \<open>
  C1. The budget holds at admission: when an invocation is newly reserved, what the run is charged
  grows by exactly the reserved amount and stays within the hard maximum, and under the policy that
  denies unknown prices the reservation has a price.
\<close>

theorem admission_within_budget:
  assumes "Reduce sha es = Inr (cm_projection m)" "list_all event_int64 es"
    "\<forall>(t, p) \<in> set (cm_prices m). price_int64 p"
    "Invocation (cm_projection m) (ii_run (rq_ident rq)) (ii_invocation (rq_ident rq)) = None"
    "Reserve sha app now later m j rq = (m', j', Inr r)"
  shows "charged_run (cm_projection m') (ii_run (rq_ident rq)) =
           charged_run (cm_projection m) (ii_run (rq_ident rq)) + opt_micros (rv_micros r) \<and>
         (\<forall>b. pol_max (cm_policy m) = Some b \<longrightarrow> charged_run (cm_projection m') (ii_run (rq_ident rq)) \<le> b) \<and>
         (pol_unknown (cm_policy m) = UnknownPriceDeny \<longrightarrow> rv_source r \<noteq> EstimateUnknown)"
proof -
  let ?run = "ii_run (rq_ident rq)"
  have wf: "wf_projection sha (cm_projection m)"
    using assms(1,2) unfolding Reduce_def by (intro cost_ledger.wf_replay_start)
  obtain price m1 j1 w m2 j2 where
    "cm_integrity m = None" "Denial (cm_projection m) ?run (ii_invocation (rq_ident rq)) = None"
    and build: "buildReservation sha now m rq = Inr (r, price)"
    and ens: "ensurePriceSnapshot sha app m j ?run price = (m1, j1, Committed)"
    and unk: "rv_source r = EstimateUnknown \<longrightarrow> pol_unknown (cm_policy m1) \<noteq> UnknownPriceDeny"
    and chk: "check_budget later (cm_policy m1) (cm_projection m1) ?run (rv_micros r) = BudgetAllows w"
    and warn: "(case w of None \<Rightarrow> (m2, j2) = (m1, j1)
      | Some x \<Rightarrow> commit_cost sha app m1 j1 (BudgetWarning (Some x)) (costWarningKey x) = (m2, j2, Committed))"
    and com: "commit_cost sha app m2 j2 (Reserved (Some r)) (costReservationKey r) = (m', j', Committed)"
    by (rule reserve_fresh [OF assms(5,4)])
  note B = buildReservation_int64 [OF build assms(3)]
  note R = reservation_valid_facts [of sha r]
  note E = ensure_projection [OF ens] and W = warn_projection [OF warn]
  have wf1: "wf_projection sha (cm_projection m1)" using E wf B by blast
  obtain p where p: "applyR sha (cm_projection m2) (Reserved (Some r)) = Inr p" "m' = m2\<lparr>cm_projection := p\<rparr>"
    using commit_Committed [OF com] by blast
  have "Invocation (cm_projection m2) (ii_run (rv_ident r)) (ii_invocation (rv_ident r)) = None"
    using assms(4) B E W by (simp add: Invocation_def)
  from applyR_reserved_fresh [OF p(1) this]
  have grow: "charged_run (cm_projection m') ?run = charged_run (cm_projection m2) ?run + opt_micros (rv_micros r)"
    using charged_run_snoc [of p "cm_projection m2" r] p(2) B by simp
  have "charged_run (cm_projection m2) ?run = charged_run (cm_projection m1) ?run"
    "charged_run (cm_projection m1) ?run = charged_run (cm_projection m) ?run"
    using E W by (auto intro: charged_run_frame)
  with grow check_budget_allows [OF wf1 _ _ _ chk] R B E unk show ?thesis by auto
qed

text \<open>
  A repeated request is answered from the ledger: once a reservation was granted, asking for
  it again at any later time, with any journal, grants the same reservation and changes neither
  the ledger nor the journal, so an invocation is never charged twice.
\<close>

theorem reserve_idempotent:
  assumes "Reserve sha app now later m j rq = (m', j', Inr r)" "validTimestamp now2"
  shows "Reserve sha app2 now2 later2 m' j2 rq = (m', j2, Inr r)"
proof (cases "Invocation (cm_projection m) (ii_run (rq_ident rq)) (ii_invocation (rq_ident rq))")
  case (Some i)
  from assms(1) Some obtain c price where known: "cm_integrity m = None"
    "Denial (cm_projection m) (ii_run (rq_ident rq)) (ii_invocation (rq_ident rq)) = None"
    "buildReservation sha now m rq = Inr (c, price)" "m' = m" "r = ip_reservation i"
    and eq: "costEventsEqual sha (Reserved (Some (c\<lparr>rv_at := rv_at (ip_reservation i)\<rparr>)))
        (Reserved (Some (ip_reservation i)))"
    by (auto simp: Reserve_def Let_def split: if_splits option.splits sum.splits)
  have v: "ValidateEvent sha (Reserved (Some (ip_reservation i))) = Inr ()"
    and c: "c\<lparr>rv_at := rv_at (ip_reservation i)\<rparr> = ip_reservation i"
    using eq by (simp_all add: costEventsEqual_def)
  have "(c\<lparr>rv_at := now2\<rparr>)\<lparr>rv_at := rv_at (ip_reservation i)\<rparr> = ip_reservation i" using c by simp
  from reserve_again_known [OF known(1,2) Some build_retimed [OF known(3) assms(2) refl] this v] known(4,5)
  show ?thesis by simp
next
  case None
  show ?thesis
  proof (rule reserve_fresh [OF assms(1) None])
    fix price m1 j1 w m2 j2'
    assume int: "cm_integrity m = None"
      and den: "Denial (cm_projection m) (ii_run (rq_ident rq)) (ii_invocation (rq_ident rq)) = None"
      and build: "buildReservation sha now m rq = Inr (r, price)"
      and ens: "ensurePriceSnapshot sha app m j (ii_run (rq_ident rq)) price = (m1, j1, Committed)"
      and warn: "(case w of None \<Rightarrow> (m2, j2') = (m1, j1)
        | Some x \<Rightarrow> commit_cost sha app m1 j1 (BudgetWarning (Some x)) (costWarningKey x) = (m2, j2', Committed))"
      and com: "commit_cost sha app m2 j2' (Reserved (Some r)) (costReservationKey r) = (m', j', Committed)"
    note E = ensure_projection [OF ens] and W = warn_projection [OF warn] and C = commit_frame [OF com]
    have rid: "rv_ident r = rq_ident rq" and v: "ValidateEvent sha (Reserved (Some r)) = Inr ()"
      using build by (auto simp: buildReservation_def bindR_eq_Inr Let_def)
    obtain p where p: "applyR sha (cm_projection m2) (Reserved (Some r)) = Inr p" "m' = m2\<lparr>cm_projection := p\<rparr>"
      using commit_Committed [OF com] by blast
    have "Invocation (cm_projection m2) (ii_run (rv_ident r)) (ii_invocation (rv_ident r)) = None"
      using None rid E W by (simp add: Invocation_def)
    note F = applyR_reserved_fresh [OF p(1) this]
    have "Invocation (cm_projection m') (ii_run (rq_ident rq)) (ii_invocation (rq_ident rq)) =
        Some \<lparr>ip_reservation = r, ip_settlement = None\<rparr>" using F p(2) rid by simp
    moreover have "Denial (cm_projection m') (ii_run (rq_ident rq)) (ii_invocation (rq_ident rq)) = None"
      using den F p(2) E W by (simp add: Denial_def)
    moreover have "buildReservation sha now2 m' rq = Inr (r\<lparr>rv_at := now2\<rparr>, price)"
      using build_retimed [OF build assms(2)] C W E by simp
    ultimately show ?thesis
      using reserve_again_known [of m' rq "\<lparr>ip_reservation = r, ip_settlement = None\<rparr>" sha now2
          "r\<lparr>rv_at := now2\<rparr>" price] int v C W E by simp
  qed
qed

section \<open>The ledger and the journal\<close>

text \<open>A durable record that carries a cost event.\<close>

definition carries :: "digest \<Rightarrow> journal_event \<Rightarrow> cost_event \<Rightarrow> bool" where
  "carries sha d e \<longleftrightarrow>
     rev_type d \<in> cost_kinds \<and> DecodeEvent sha (rev_type d) (rev_payload d) = Inr e \<and>
     rev_run d = costEventRunID e \<and> rev_task d = costEventTaskID e \<and> rev_attempt d = costEventAttempt e"

lemma DecodeEvent_kind: "DecodeEvent sha k p = Inr e \<Longrightarrow> event_kind e = k \<and> ValidateEvent sha e = Inr ()"
  by (auto simp: DecodeEvent_def bindR_eq_Inr split: payload.splits if_splits)

lemma valid_kind: "ValidateEvent sha e = Inr () \<Longrightarrow> event_kind e \<in> cost_kinds"
  by (cases e) (simp_all add: cost_kinds_def)

lemma decode_append:
  "costEventsFromRunEvents sha (xs @ ys) =
   bindR (costEventsFromRunEvents sha xs) (\<lambda>es. bindR (costEventsFromRunEvents sha ys) (\<lambda>fs. Inr (es @ fs)))"
proof (induction xs)
  case Nil
  show ?case by (cases "costEventsFromRunEvents sha ys") simp_all
next
  case (Cons x xs)
  then show ?case
    by (cases "costEventsFromRunEvents sha xs"; cases "costEventsFromRunEvents sha ys")
       (auto split: sum.splits)
qed

lemma decode_carried: "carries sha d e \<Longrightarrow> costEventsFromRunEvents sha [d] = Inr [e]"
  by (simp add: carries_def)

lemma decode_member:
  assumes "costEventsFromRunEvents sha xs = Inr es" "d \<in> set xs" "carries sha d e"
  shows "e \<in> set es"
proof -
  obtain as bs where xs: "xs = as @ [d] @ bs" using split_list [OF assms(2)] by auto
  show ?thesis
    using assms(1) unfolding xs decode_append decode_carried [OF assms(3)] by (auto simp: bindR_eq_Inr)
qed

lemma append_cost_Some:
  assumes "append_cost sha app (Some j) e key = (j1, None)"
  obtains j' d where "j1 = Some j'" "app j (cost_run_event e key) = (j', Some d)" "carries sha d e"
proof -
  obtain j' d decoded where a: "ValidateEvent sha e = Inr ()" "app j (cost_run_event e key) = (j', Some d)"
    "DecodeEvent sha (rev_type d) (rev_payload d) = Inr decoded" "j1 = Some j'"
    "rev_run d = costEventRunID e" "rev_task d = costEventTaskID e" "rev_attempt d = costEventAttempt e"
    "costEventsEqual sha e decoded"
    using assms by (auto simp: append_cost_def split: sum.splits prod.splits option.splits if_splits)
  moreover have "decoded = e" using a(8) by (simp add: costEventsEqual_def)
  moreover have "rev_type d \<in> cost_kinds"
    using DecodeEvent_kind [OF a(3)] valid_kind by metis
  ultimately show thesis using that [of j' d] by (simp add: carries_def)
qed

text \<open>The journal as the manager uses it.\<close>

locale cost_journal = event_journal append events ok
  for append :: "'j \<Rightarrow> journal_event \<Rightarrow> 'j \<times> journal_event option"
    and events :: "'j \<Rightarrow> journal_event list"
    and ok :: "'j \<Rightarrow> bool"
begin

text \<open>The manager's ledger is the replay of the journal.\<close>

definition synced :: "digest \<Rightarrow> 'j \<Rightarrow> cost_manager \<Rightarrow> bool" where
  "synced sha j m \<longleftrightarrow> ok j \<and>
     (\<exists>es. costEventsFromRunEvents sha (events j) = Inr es \<and> Reduce sha es = Inr (cm_projection m))"

lemma commit_synced:
  assumes "synced sha j m" "commit_cost sha append m (Some j) e key = (m', j1, Committed)"
  shows "\<exists>j'. j1 = Some j' \<and> synced sha j' m'"
proof -
  obtain p where p: "append_cost sha append (Some j) e key = (j1, None)"
    "applyR sha (cm_projection m) e = Inr p" "m' = m\<lparr>cm_projection := p\<rparr>"
    using commit_Committed [OF assms(2)] .
  obtain j' d where j': "j1 = Some j'" "append j (cost_run_event e key) = (j', Some d)" "carries sha d e"
    using append_cost_Some [OF p(1)] .
  obtain es where es: "ok j" "costEventsFromRunEvents sha (events j) = Inr es"
    "Reduce sha es = Inr (cm_projection m)"
    using assms(1) by (auto simp: synced_def)
  have "ok j'" using append_stays_ok [OF es(1) j'(2)] .
  moreover from append_durable [OF es(1) j'(2)]
  have "\<exists>fs. costEventsFromRunEvents sha (events j') = Inr fs \<and> Reduce sha fs = Inr p"
  proof
    assume "events j' = events j @ [d]"
    with es(2) decode_carried [OF j'(3)]
    have "costEventsFromRunEvents sha (events j') = Inr (es @ [e])" by (simp add: decode_append)
    moreover have "Reduce sha (es @ [e]) = Inr p"
      using es(3) p(2) unfolding Reduce_def by (simp add: cost_ledger.replay_snoc)
    ultimately show ?thesis by blast
  next
    assume d: "events j' = events j \<and> d \<in> set (events j)"
    then have "e \<in> set es" using decode_member [OF es(2) _ j'(3)] by blast
    then have "applyR sha (cm_projection m) e = Inr (cm_projection m)"
      using es(3) unfolding Reduce_def by (rule cost_ledger.member_recorded [rotated])
    with p(2) es d show ?thesis by auto
  qed
  ultimately show ?thesis using j'(1) p(3) by (auto simp: synced_def)
qed

lemma ensure_synced:
  assumes "synced sha j m" "ensurePriceSnapshot sha append m (Some j) run price = (m1, j1, Committed)"
  shows "\<exists>j'. j1 = Some j' \<and> synced sha j' m1"
  using assms(2)
proof (cases rule: ensure_Committed)
  case (resolved e)
  from commit_synced [OF assms(1) resolved(2)] show ?thesis .
qed (use assms(1) in auto)

lemma warn_synced:
  assumes "synced sha j m" "(case w of None \<Rightarrow> (m2, j2) = (m, Some j)
      | Some x \<Rightarrow> commit_cost sha append m (Some j) (BudgetWarning (Some x)) (costWarningKey x) = (m2, j2, Committed))"
  shows "\<exists>j'. j2 = Some j' \<and> synced sha j' m2"
  using assms commit_synced by (cases w) auto

lemma reserve_synced:
  assumes "synced sha j m" "Reserve sha append now later m (Some j) rq = (m', j1, Inr r)"
  shows "\<exists>j'. j1 = Some j' \<and> synced sha j' m'"
proof (cases "Invocation (cm_projection m) (ii_run (rq_ident rq)) (ii_invocation (rq_ident rq))")
  case (Some i)
  with assms(2) have "m' = m \<and> j1 = Some j"
    by (auto simp: Reserve_def Let_def split: if_splits option.splits sum.splits)
  with assms(1) show ?thesis by simp
next
  case None
  show ?thesis
  proof (rule reserve_fresh [OF assms(2) None])
    fix price m1 j1' w m2 j2
    assume "ensurePriceSnapshot sha append m (Some j) (ii_run (rq_ident rq)) price = (m1, j1', Committed)"
      and w: "(case w of None \<Rightarrow> (m2, j2) = (m1, j1')
        | Some x \<Rightarrow> commit_cost sha append m1 j1' (BudgetWarning (Some x)) (costWarningKey x) = (m2, j2, Committed))"
      and c: "commit_cost sha append m2 j2 (Reserved (Some r)) (costReservationKey r) = (m', j1, Committed)"
    then obtain ja where "j1' = Some ja" "synced sha ja m1" using ensure_synced [OF assms(1)] by blast
    with w obtain jb where "j2 = Some jb" "synced sha jb m2" using warn_synced by blast
    with c show ?thesis using commit_synced by blast
  qed
qed

lemma settle_synced:
  assumes "synced sha j m" "Settle sha append now m (Some j) rq = (m', j1, Inr s)"
  shows "\<exists>j'. j1 = Some j' \<and> synced sha j' m'"
proof -
  obtain i where i: "Invocation (cm_projection m) (sq_run rq) (sq_invocation rq) = Some i"
    using assms(2) by (auto simp: Settle_def split: option.splits)
  show ?thesis
  proof (cases "ip_settlement i")
    case (Some old)
    with assms(2) i have "m' = m \<and> j1 = Some j" by (auto simp: Settle_def Let_def split: if_splits)
    with assms(1) show ?thesis by simp
  next
    case None
    let ?s = "buildSettlement now (cm_projection m) (ip_reservation i) rq"
    obtain m2 j2 c where c: "commit_cost sha append m (Some j) (Settled (Some ?s)) (costSettlementKey ?s) = (m2, j2, c)"
      by (metis prod_cases3)
    with assms(2) i None have "c = Committed" "m2 = m'" "j2 = j1"
      by (cases c; auto simp: Settle_def Let_def)+
    with c commit_synced [OF assms(1)] show ?thesis by blast
  qed
qed

end

interpretation store_costs: cost_journal "journal_append env sha" journal_events "journal_ok env sha" for env sha
  by unfold_locales

text \<open>A manager whose ledger rehydration would restore as it is.\<close>

lemma rehydrated_manager:
  "m\<lparr>cm_projection := p, cm_integrity := None\<rparr> = m \<Longrightarrow> p = cm_projection m \<and> cm_integrity m = None"
  by (cases m) simp

lemma rehydrate_facts:
  assumes "Rehydrate sha m evs = (m, None)"
  shows "cm_integrity m = None \<and>
    (\<exists>es. costEventsFromRunEvents sha evs = Inr es \<and> Reduce sha es = Inr (cm_projection m))"
proof -
  obtain es where es: "costEventsFromRunEvents sha evs = Inr es"
    using assms by (cases "costEventsFromRunEvents sha evs") (auto simp: Rehydrate_def)
  obtain p where p: "Reduce sha es = Inr p"
    using assms es by (cases "Reduce sha es") (auto simp: Rehydrate_def)
  have "m\<lparr>cm_projection := p, cm_integrity := None\<rparr> = m" using assms es p by (simp add: Rehydrate_def)
  from rehydrated_manager [OF this] es p show ?thesis by auto
qed

lemma rehydrate_fixed:
  assumes "journal_ok env sha j" "Rehydrate sha m (journal_events j) = (m, None)"
  shows "store_costs.synced env sha sha j m"
  using assms(1) rehydrate_facts [OF assms(2)] by (simp add: store_costs.synced_def)

lemma reserve_integrity:
  assumes "Reserve sha app now later m j rq = (m', j', Inr r)"
  shows "cm_integrity m' = None"
proof (cases "Invocation (cm_projection m) (ii_run (rq_ident rq)) (ii_invocation (rq_ident rq))")
  case (Some i)
  with assms show ?thesis
    by (auto simp: Reserve_def Let_def split: if_splits option.splits sum.splits)
next
  case None
  show ?thesis
  proof (rule reserve_fresh [OF assms None])
    fix price m1 j1 w m2 j2
    assume "cm_integrity m = None"
      and e: "ensurePriceSnapshot sha app m j (ii_run (rq_ident rq)) price = (m1, j1, Committed)"
      and w: "(case w of None \<Rightarrow> (m2, j2) = (m1, j1)
        | Some x \<Rightarrow> commit_cost sha app m1 j1 (BudgetWarning (Some x)) (costWarningKey x) = (m2, j2, Committed))"
      and c: "commit_cost sha app m2 j2 (Reserved (Some r)) (costReservationKey r) = (m', j', Committed)"
    then show ?thesis using ensure_projection [OF e] warn_projection [OF w] commit_frame [OF c] by simp
  qed
qed

lemma settle_integrity:
  assumes "Settle sha app now m j rq = (m', j', Inr s)"
  shows "cm_integrity m' = cm_integrity m"
proof -
  obtain i where i: "Invocation (cm_projection m) (sq_run rq) (sq_invocation rq) = Some i"
    using assms by (auto simp: Settle_def split: option.splits)
  let ?s = "buildSettlement now (cm_projection m) (ip_reservation i) rq"
  obtain m2 j2 c where c: "commit_cost sha app m j (Settled (Some ?s)) (costSettlementKey ?s) = (m2, j2, c)"
    by (metis prod_cases3)
  show ?thesis
  proof (cases "ip_settlement i")
    case (Some old)
    with assms i show ?thesis by (auto simp: Settle_def Let_def split: if_splits)
  next
    case None
    with assms i c have "c = Committed" "m2 = m'" by (cases c; auto simp: Settle_def Let_def)+
    with commit_frame [OF c] show ?thesis by simp
  qed
qed

lemma synced_rehydrate:
  assumes "store_costs.synced env sha sha j m" "cm_integrity m = None"
  shows "Rehydrate sha m (journal_events j) = (m, None)"
  using assms by (cases m) (auto simp: store_costs.synced_def Rehydrate_def)

text \<open>
  C26. Crash recovery of the ledger: when the manager's ledger is what the durable journal
  rehydrates to, it still is after a successful reservation, so a coordinator that restarts there
  resumes with the same charges, prices, warnings and denials.
\<close>

theorem reserve_recoverable:
  assumes "journal_ok env sha j" "Rehydrate sha m (journal_events j) = (m, None)"
    "Reserve sha (journal_append env sha) now later m (Some j) rq = (m', j1, Inr r)"
  shows "\<exists>j'. j1 = Some j' \<and> journal_ok env sha j' \<and> Rehydrate sha m' (journal_events j') = (m', None)"
proof -
  obtain j' where j': "j1 = Some j'" "store_costs.synced env sha sha j' m'"
    using store_costs.reserve_synced [OF rehydrate_fixed [OF assms(1,2)] assms(3)] by blast
  moreover have "journal_ok env sha j'" using j'(2) by (simp add: store_costs.synced_def)
  moreover have "cm_integrity m' = None" by (rule reserve_integrity [OF assms(3)])
  ultimately show ?thesis using synced_rehydrate by blast
qed

text \<open>
  The same for settlement: after a successful settlement the durable journal still rehydrates
  to the manager's ledger.
\<close>

theorem settle_recoverable:
  assumes "journal_ok env sha j" "Rehydrate sha m (journal_events j) = (m, None)"
    "Settle sha (journal_append env sha) now m (Some j) rq = (m', j1, Inr s)"
  shows "\<exists>j'. j1 = Some j' \<and> journal_ok env sha j' \<and> Rehydrate sha m' (journal_events j') = (m', None)"
proof -
  obtain j' where j': "j1 = Some j'" "store_costs.synced env sha sha j' m'"
    using store_costs.settle_synced [OF rehydrate_fixed [OF assms(1,2)] assms(3)] by blast
  moreover have "journal_ok env sha j'" using j'(2) by (simp add: store_costs.synced_def)
  moreover have "cm_integrity m' = None"
    using settle_integrity [OF assms(3)] rehydrate_facts [OF assms(2)] by simp
  ultimately show ?thesis using synced_rehydrate by blast
qed

section \<open>A first run\<close>

definition pay_env :: "payload store_env" where
  "pay_env = \<lparr>env_bytes = (\<lambda>_. ''p''), env_vacuous = (\<lambda>_. False), env_redact = Some,
     env_admits = (\<lambda>_. True), env_decodes = (\<lambda>_. True), env_replay = (\<lambda>_ _. True),
     env_load = (\<lambda>_ _. True)\<rparr>"

definition pay_store :: "payload event_store" where
  "pay_store = \<lparr>st_run = ''r1'', st_invocation = [], st_session = ''s1'', st_branch = [], st_last_id = [],
     st_last_hash = [], st_sequence = 0, st_valid = True, st_closed = False, st_read_only = False,
     st_events = [], st_keys = []\<rparr>"

definition pay_journal :: "payload journal" where
  "pay_journal = \<lparr>jn_store = pay_store, jn_rows = [], jn_clock = (\<lambda>_. demo_stamp), jn_tick = 0\<rparr>"

definition demo_manager :: cost_manager where
  "demo_manager = \<lparr>cm_policy = demo_policy, cm_prices = [(''ollama/q'', sample_snapshot)],
     cm_projection = NewProjection, cm_integrity = None\<rparr>"

definition demo_request :: reservation_request where
  "demo_request = \<lparr>rq_ident = demo_ident, rq_target = ''ollama/q'', rq_input_tokens = 10,
     rq_output_tokens = 20, rq_opaque = False\<rparr>"

abbreviation demo_app :: "payload journal appender" where
  "demo_app \<equiv> journal_append pay_env demo_sha"

definition demo_price_event :: price_event where
  "demo_price_event = \<lparr>pe_schema = 1, pe_run = ''r1'', pe_price = sample_snapshot\<rparr>"

lemma demo_build:
  "buildReservation demo_sha ''2025-01-02T03:04:05Z'' demo_manager demo_request = Inr (demo_reservation, sample_snapshot)"
proof -
  have e: "EstimateAdmission sample_snapshot 10 20 =
     Inr \<lparr>est_micros = Some 55, est_source = EstimateAdmissionBound, est_mode = BillingMetered\<rparr>"
    by code_simp
  have v: "validateReservationEvent (Some demo_reservation) = Inr ()" by (rule demo_reservation_valid)
  have p: "reservation_price demo_sha demo_manager demo_request = Inr sample_snapshot"
    by (simp add: reservation_price_def demo_manager_def demo_request_def opaque_unbounded_price_def)
  have i: "ps_id sample_snapshot = ''sha256:78''" by (simp add: sample_snapshot_def)
  show ?thesis
    using v by (simp add: buildReservation_def p reservation_estimate_of_def e i Let_def)
       (simp add: demo_request_def e demo_reservation_def EventSchemaVersion_def)
qed

lemma demo_price_event_valid: "validatePriceEvent demo_sha (Some demo_price_event) = Inr ()"
proof -
  have "validMetadata ''r1''" by code_simp
  then show ?thesis
    by (simp add: demo_price_event_def validatePriceEvent_def EventSchemaVersion_def demo_price_valid)
qed

definition price_row :: journal_event where
  "price_row = (cost_run_event (PriceResolved (Some demo_price_event)) (costPriceKey demo_price_event))
     \<lparr>rev_schema := 2, rev_id := ''evt-1'', rev_session := ''s1'', rev_timestamp := ''T'', rev_hash := ''78''\<rparr>"

definition reserve_row :: journal_event where
  "reserve_row = (cost_run_event (Reserved (Some demo_reservation)) (costReservationKey demo_reservation))
     \<lparr>rev_schema := 2, rev_id := ''evt-1'', rev_session := ''s1'', rev_timestamp := ''T'', rev_hash := ''78'',
      rev_previous_id := ''evt-1'', rev_previous_hash := ''78''\<rparr>"

definition pay_journal1 :: "payload journal" where
  "pay_journal1 = pay_journal\<lparr>jn_store := publish_event price_row pay_store, jn_rows := [price_row], jn_tick := 1\<rparr>"

definition pay_journal2 :: "payload journal" where
  "pay_journal2 = pay_journal1\<lparr>jn_store := publish_event reserve_row (publish_event price_row pay_store),
     jn_rows := [price_row, reserve_row], jn_tick := 2\<rparr>"

lemma hex_x: "hex_of ''x'' = ''78''" by code_simp

lemmas demo_append_steps = journal_append_def AppendPersisted_def appendPersistedEvents_def
  append_synced_def loadEvents_def replayedEventBatch_def prior_event_def prepareEventBatch_def
  prepareEvent_def stamp_session_def stamp_run_def stamped_def chained_def pay_journal_def pay_store_def
  pay_env_def demo_stamp_def cost_run_event_def publish_event_def index_key_def IsTerminalEvent_def
  eventStoreSchemaVersion_def ComputeHash_def newEventIdempotencyIdentity_def

lemma demo_append1:
  "demo_app pay_journal (cost_run_event (PriceResolved (Some demo_price_event)) (costPriceKey demo_price_event)) =
   (pay_journal1, Some price_row)"
  by (simp add: demo_append_steps pay_journal1_def price_row_def costPriceKey_def demo_price_event_def hex_x)

lemma demo_append2:
  "demo_app pay_journal1 (cost_run_event (Reserved (Some demo_reservation)) (costReservationKey demo_reservation)) =
   (pay_journal2, Some reserve_row)"
proof -
  have k: "costReservationKey demo_reservation = ''cost-reserve:v1:r1:i1''" "costPriceKey demo_price_event = ''cost-price:v1:r1:sha256:78''"
    by (simp_all add: costReservationKey_def costPriceKey_def demo_reservation_def demo_ident_def demo_price_event_def sample_snapshot_def)
  have r: "ii_run (rv_ident demo_reservation) = ''r1''" by (simp add: demo_reservation_def demo_ident_def)
  show ?thesis unfolding pay_journal2_def pay_journal1_def price_row_def reserve_row_def k
    by (simp add: demo_append_steps r demo_price_event_def hex_x)
qed

definition demo_ledger1 :: projection where
  "demo_ledger1 = demo_open\<lparr>prj_invocations := []\<rparr>"

lemma demo_apply1: "Apply demo_sha NewProjection (PriceResolved (Some demo_price_event)) = (demo_ledger1, None)"
  using demo_price_event_valid
  by (simp add: Apply_def apply_price_def NewProjection_def Let_def)
     (simp add: demo_ledger1_def demo_open_def demo_ledger_def demo_price_event_def sample_snapshot_def priceKey_def)

lemma demo_apply2: "Apply demo_sha demo_ledger1 (Reserved (Some demo_reservation)) = (demo_open, None)"
  using demo_reservation_valid
  by (simp add: Apply_def apply_reservation_def demo_ledger1_def demo_open_def demo_ledger_def Let_def)
     (simp add: demo_reservation_def demo_ident_def sample_snapshot_def priceKey_def invocationKey_def)

lemma demo_commit1:
  "commit_cost demo_sha demo_app demo_manager (Some pay_journal) (PriceResolved (Some demo_price_event))
     (costPriceKey demo_price_event) = (demo_manager\<lparr>cm_projection := demo_ledger1\<rparr>, Some pay_journal1, Committed)"
proof -
  have "append_cost demo_sha demo_app (Some pay_journal) (PriceResolved (Some demo_price_event))
     (costPriceKey demo_price_event) = (Some pay_journal1, None)"
    using demo_price_event_valid
    by (simp add: append_cost_def demo_append1) (simp add: price_row_def cost_run_event_def DecodeEvent_def costEventsEqual_def)
  then show ?thesis using demo_apply1 by (simp add: commit_cost_def demo_manager_def)
qed

lemma demo_commit2:
  "commit_cost demo_sha demo_app (demo_manager\<lparr>cm_projection := demo_ledger1\<rparr>) (Some pay_journal1)
     (Reserved (Some demo_reservation)) (costReservationKey demo_reservation) =
   (demo_manager\<lparr>cm_projection := demo_open\<rparr>, Some pay_journal2, Committed)"
proof -
  have "append_cost demo_sha demo_app (Some pay_journal1) (Reserved (Some demo_reservation))
     (costReservationKey demo_reservation) = (Some pay_journal2, None)"
    using demo_reservation_valid
    by (simp add: append_cost_def demo_append2) (simp add: reserve_row_def cost_run_event_def DecodeEvent_def costEventsEqual_def)
  then show ?thesis using demo_apply2 by (simp add: commit_cost_def)
qed

lemma demo_ids: "ii_run (rq_ident demo_request) = ''r1''" "ii_invocation (rq_ident demo_request) = ''i1''"
  by (simp_all add: demo_request_def demo_ident_def)

lemma demo_price_fields: "ps_id sample_snapshot = ''sha256:78''" "ps_mode sample_snapshot = BillingMetered"
  by (simp_all add: sample_snapshot_def)

lemma demo_known: "KnownMicrosForRun demo_ledger1 ''r1'' = Inr 0"
  by code_simp

lemma demo_reserve:
  "Reserve demo_sha demo_app ''2025-01-02T03:04:05Z'' ''2025-01-02T03:04:05Z'' demo_manager (Some pay_journal)
     demo_request = (demo_manager\<lparr>cm_projection := demo_open\<rparr>, Some pay_journal2, Inr demo_reservation)"
proof -
  have ens: "ensurePriceSnapshot demo_sha demo_app demo_manager (Some pay_journal) ''r1'' sample_snapshot =
      (demo_manager\<lparr>cm_projection := demo_ledger1\<rparr>, Some pay_journal1, Committed)"
    using demo_commit1
    by (simp add: ensurePriceSnapshot_def Price_def demo_price_event_def EventSchemaVersion_def)
       (simp add: demo_manager_def NewProjection_def)
  have bud: "check_budget t demo_policy demo_ledger1 ''r1'' (rv_micros demo_reservation) = BudgetAllows None" for t
    by (simp add: check_budget_def demo_known demo_reservation_def demo_policy_def i64_room amount_def MaxInt64_def
        i64_id is_int64_def MinInt64_def)
  have "opaquePriceUnbounded (demo_manager\<lparr>cm_projection := demo_ledger1\<rparr>) demo_request = False"
    by (simp add: opaquePriceUnbounded_def demo_manager_def demo_request_def opaque_unbounded_price_def)
  moreover have "rv_source demo_reservation = EstimateAdmissionBound" by (simp add: demo_reservation_def)
  moreover have "admit demo_sha demo_app t (demo_manager\<lparr>cm_projection := demo_ledger1\<rparr>) (Some pay_journal1)
      demo_request demo_reservation =
      (demo_manager\<lparr>cm_projection := demo_open\<rparr>, Some pay_journal2, Inr demo_reservation)" for t
    using demo_commit2 bud by (simp add: admit_def demo_ids) (simp add: demo_manager_def)
  ultimately have "reserve_new demo_sha demo_app t demo_manager (Some pay_journal) demo_request demo_reservation
      sample_snapshot = (demo_manager\<lparr>cm_projection := demo_open\<rparr>, Some pay_journal2, Inr demo_reservation)" for t
    by (simp add: reserve_new_def demo_ids ens)
  moreover have "Invocation (cm_projection demo_manager) ''r1'' ''i1'' = None"
    "Denial (cm_projection demo_manager) ''r1'' ''i1'' = None" "cm_integrity demo_manager = None"
    by (simp_all add: demo_manager_def NewProjection_def Invocation_def Denial_def)
  ultimately show ?thesis by (simp add: Reserve_def demo_ids demo_build)
qed

lemma demo_journal_ok: "journal_ok pay_env demo_sha pay_journal"
  by (simp add: journal_ok_def rows_ok_def verify_chain_def good_def keys_ok_def pay_journal_def pay_store_def
      head_of_def new_verifier_def)

lemma demo_rehydrate: "Rehydrate demo_sha demo_manager (journal_events pay_journal) = (demo_manager, None)"
  by (simp add: journal_events_def ReadEvents_def pay_journal_def pay_store_def Rehydrate_def Reduce_def
      demo_manager_def)

theorem admission_within_budget_witness:
  "charged_run demo_open ''r1'' = 55 \<and> charged_run demo_open ''r1'' \<le> 100"
proof -
  have r: "Reduce demo_sha [] = Inr (cm_projection demo_manager)" by (simp add: Reduce_def demo_manager_def)
  have p: "\<forall>(t, p) \<in> set (cm_prices demo_manager). price_int64 p"
    by (simp add: demo_manager_def sample_snapshot_def price_int64_def is_int64_def MinInt64_def MaxInt64_def)
  have n: "Invocation (cm_projection demo_manager) (ii_run (rq_ident demo_request))
      (ii_invocation (rq_ident demo_request)) = None"
    by (simp add: demo_manager_def NewProjection_def Invocation_def)
  have "charged_run (cm_projection demo_manager) ''r1'' = 0" "pol_max (cm_policy demo_manager) = Some 100"
    "rv_micros demo_reservation = Some 55"
    by (simp_all add: demo_manager_def NewProjection_def charged_run_def invocation_list_def demo_policy_def
        demo_reservation_def)
  with admission_within_budget [OF r _ p n demo_reserve] show ?thesis by (simp add: demo_ids)
qed

theorem reserve_recoverable_witness:
  "Rehydrate demo_sha (demo_manager\<lparr>cm_projection := demo_open\<rparr>) (journal_events pay_journal2) =
     (demo_manager\<lparr>cm_projection := demo_open\<rparr>, None)"
  using reserve_recoverable [OF demo_journal_ok demo_rehydrate demo_reserve] by simp

theorem reserve_idempotent_witness:
  "Reserve demo_sha demo_app ''2026-01-02T03:04:05Z'' [] (demo_manager\<lparr>cm_projection := demo_open\<rparr>) None demo_request =
     (demo_manager\<lparr>cm_projection := demo_open\<rparr>, None, Inr demo_reservation)"
proof -
  have "validTimestamp ''2026-01-02T03:04:05Z''" by code_simp
  from reserve_idempotent [OF demo_reserve this] show ?thesis .
qed

definition demo_settle :: settlement_request where
  "demo_settle = \<lparr>sq_run = ''r1'', sq_invocation = ''i1'', sq_usage = None, sq_reported = False,
     sq_outcome = OutcomeCancelled\<rparr>"

definition demo_final :: settlement_event where
  "demo_final = \<lparr>se_schema = 1, se_ident = demo_ident, se_target = ''ollama/q'', se_price_id = ''sha256:78'',
     se_usage = None, se_micros = Some 55, se_source = EstimateAdmissionBound, se_mode = BillingMetered,
     se_outcome = OutcomeCancelled, se_at = ''2025-01-02T03:04:06Z''\<rparr>"

definition settle_row :: journal_event where
  "settle_row = (cost_run_event (Settled (Some demo_final)) (costSettlementKey demo_final))
     \<lparr>rev_schema := 2, rev_id := ''evt-1'', rev_session := ''s1'', rev_timestamp := ''T'', rev_hash := ''78'',
      rev_previous_id := ''evt-1'', rev_previous_hash := ''78''\<rparr>"

definition pay_journal3 :: "payload journal" where
  "pay_journal3 = pay_journal2\<lparr>jn_store := publish_event settle_row (jn_store pay_journal2),
     jn_rows := [price_row, reserve_row, settle_row], jn_tick := 3\<rparr>"

lemma demo_append3:
  "demo_app pay_journal2 (cost_run_event (Settled (Some demo_final)) (costSettlementKey demo_final)) =
   (pay_journal3, Some settle_row)"
proof -
  have k: "costReservationKey demo_reservation = ''cost-reserve:v1:r1:i1''"
    "costPriceKey demo_price_event = ''cost-price:v1:r1:sha256:78''"
    "costSettlementKey demo_final = ''cost-settle:v1:r1:i1''"
    by (simp_all add: costReservationKey_def costPriceKey_def costSettlementKey_def demo_reservation_def
        demo_ident_def demo_price_event_def sample_snapshot_def demo_final_def)
  have r: "ii_run (rv_ident demo_reservation) = ''r1''" "ii_run (se_ident demo_final) = ''r1''"
    by (simp_all add: demo_reservation_def demo_ident_def demo_final_def)
  show ?thesis
    unfolding pay_journal3_def pay_journal2_def pay_journal1_def price_row_def reserve_row_def settle_row_def k
    by (simp add: demo_append_steps r demo_price_event_def hex_x)
qed

lemma demo_settle_run:
  "Settle demo_sha demo_app ''2025-01-02T03:04:06Z'' (demo_manager\<lparr>cm_projection := demo_open\<rparr>) (Some pay_journal2)
     demo_settle =
   (demo_manager\<lparr>cm_projection := demo_open\<lparr>prj_invocations := [(invocationKey ''r1'' ''i1'',
      \<lparr>ip_reservation = demo_reservation, ip_settlement = Some demo_final\<rparr>)]\<rparr>\<rparr>, Some pay_journal3, Inr demo_final)"
proof -
  have v: "validateSettlementEvent (Some demo_final) = Inr ()" by code_simp
  have b: "buildSettlement ''2025-01-02T03:04:06Z'' demo_open demo_reservation demo_settle = demo_final"
    by (simp add: buildSettlement_def observed_usage_def demo_settle_def reservationEstimate_def demo_final_def
        demo_reservation_def EventSchemaVersion_def)
  have "Apply demo_sha demo_open (Settled (Some demo_final)) =
      (demo_open\<lparr>prj_invocations := [(invocationKey ''r1'' ''i1'',
        \<lparr>ip_reservation = demo_reservation, ip_settlement = Some demo_final\<rparr>)]\<rparr>, None)"
    using v by (simp add: Apply_def apply_settlement_def demo_open_def demo_ledger_def Let_def)
      (simp add: demo_final_def demo_ident_def demo_reservation_def invocationKey_def sameInvocation_def)
  moreover have "append_cost demo_sha demo_app (Some pay_journal2) (Settled (Some demo_final))
     (costSettlementKey demo_final) = (Some pay_journal3, None)"
    using v
    by (simp add: append_cost_def demo_append3)
       (simp add: settle_row_def cost_run_event_def DecodeEvent_def costEventsEqual_def)
  ultimately have "commit_cost demo_sha demo_app (demo_manager\<lparr>cm_projection := demo_open\<rparr>) (Some pay_journal2)
      (Settled (Some demo_final)) (costSettlementKey demo_final) =
    (demo_manager\<lparr>cm_projection := demo_open\<lparr>prj_invocations := [(invocationKey ''r1'' ''i1'',
      \<lparr>ip_reservation = demo_reservation, ip_settlement = Some demo_final\<rparr>)]\<rparr>\<rparr>, Some pay_journal3, Committed)"
    by (simp add: commit_cost_def)
  moreover have "Invocation demo_open (sq_run demo_settle) (sq_invocation demo_settle) =
      Some \<lparr>ip_reservation = demo_reservation, ip_settlement = None\<rparr>"
    by (simp add: Invocation_def demo_open_def demo_settle_def)
  ultimately show ?thesis using b by (simp add: Settle_def)
qed

lemma demo_rehydrate_open:
  "journal_ok pay_env demo_sha pay_journal2"
  "Rehydrate demo_sha (demo_manager\<lparr>cm_projection := demo_open\<rparr>) (journal_events pay_journal2) =
     (demo_manager\<lparr>cm_projection := demo_open\<rparr>, None)"
proof -
  have s: "store_costs.synced pay_env demo_sha demo_sha pay_journal2 (demo_manager\<lparr>cm_projection := demo_open\<rparr>)"
    using store_costs.reserve_synced [OF rehydrate_fixed [OF demo_journal_ok demo_rehydrate] demo_reserve] by simp
  then show "journal_ok pay_env demo_sha pay_journal2" by (simp add: store_costs.synced_def)
  show "Rehydrate demo_sha (demo_manager\<lparr>cm_projection := demo_open\<rparr>) (journal_events pay_journal2) =
     (demo_manager\<lparr>cm_projection := demo_open\<rparr>, None)"
    by (rule synced_rehydrate [OF s]) (simp add: demo_manager_def)
qed

theorem settle_recoverable_witness:
  "journal_ok pay_env demo_sha pay_journal3"
  using settle_recoverable [OF demo_rehydrate_open demo_settle_run] by simp

end
