(* ===== verification/Todo_List.thy ===== *)
theory Todo_List
  imports Recovery Task_Status
begin

text \<open>
  \<open>TodoList\<close> of \<open>internal/team/status.go\<close>: the durable list of task occurrences and the operations
  that move them, and the evidence signatures of \<open>task_result.go\<close>. The mutex makes each operation
  one step of the list; \<open>tl_changes\<close> counts the change callbacks an operation fires. An item's frozen
  contract (the fields \<open>todoItemFromSpec\<close> copies from the specification and nothing here rewrites) is
  the type \<open>'c\<close>, payloads the list stores without looking at them are of type \<open>'r\<close>, and times are
  nanoseconds with 0 for Go's zero time. Items are values, so the deep copies of the code
  (\<open>cloneTodoItem\<close> and the clones of single fields) are the identity.
\<close>

section \<open>Data\<close>

record evidence =
  ev_task :: string
  ev_run :: string
  ev_type :: string
  ev_desc :: string
  ev_value :: string
  ev_hmac :: string

record 'r typed_result =
  tr_status :: string
  tr_evidence :: "evidence list"
  tr_body :: 'r

record 'r verification_result =
  vr_exit :: int
  vr_timed_out :: bool
  vr_overturned :: bool
  vr_body :: 'r

record 'r failure_payload =
  fp_summary :: string
  fp_body :: 'r

record fingerprint =
  ff_criterion :: string
  ff_component :: string
  ff_operation :: string
  ff_class :: failure_class
  ff_error :: string
  ff_digest :: string
  ff_occurrences :: int

record task_resolution =
  rs_status :: string
  rs_by :: string
  rs_reason :: string
  rs_evidence :: "evidence list"

record ('c, 'r) todo_item =
  ti_id :: string
  ti_contract :: 'c
  ti_status :: task_status
  ti_detail :: string
  ti_output :: string
  ti_revision :: int
  ti_dispatch :: string
  ti_plan_first :: bool
  ti_plan_id :: string
  ti_started :: nat
  ti_ended :: nat
  ti_model_time :: int
  ti_tool_time :: int
  ti_source :: string
  ti_parent :: string
  ti_skills :: "string list"
  ti_injected :: "string list"
  ti_loaded :: "string list"
  ti_verify :: "'r verification_result option"
  ti_runtime_error :: "'r option"
  ti_failure :: "'r failure_payload option"
  ti_retries :: int
  ti_recovery :: string
  ti_typed :: "'r typed_result option"
  ti_resolution :: "task_resolution option"
  ti_progress :: progress
  ti_criteria :: "string list"
  ti_action_progress :: "'r option"
  ti_fingerprints :: "fingerprint list"
  ti_hints :: "string list"
  ti_last_op :: string
  ti_provider :: "'r option"
  ti_backend :: "'r option"

record ('c, 'r) todo_list =
  tl_items :: "('c, 'r) todo_item list"
  tl_next :: nat
  tl_run :: string
  tl_changes :: nat

datatype todo_error =
    TaskNotFound string | BadTransition task_status task_status string | StaleLease string
  | NoActiveOccurrence string | ProjectedInvalid

definition emptyTodoList :: "('c, 'r) todo_list" where
  "emptyTodoList = \<lparr>tl_items = [], tl_next = 0, tl_run = [], tl_changes = 0\<rparr>"

section \<open>The loop the operations share\<close>

text \<open>
  The operations walk the items to the first one with the id, change it or refuse, and stop. The
  callback fires after a change; an unknown id is an error.
\<close>

fun update_first :: "('a \<Rightarrow> bool) \<Rightarrow> ('a \<Rightarrow> 'e + 'a) \<Rightarrow> 'a list \<Rightarrow> ('e + 'a list) option" where
  "update_first P f [] = None"
| "update_first P f (x # xs) =
     (if P x then Some (case f x of Inl e \<Rightarrow> Inl e | Inr y \<Rightarrow> Inr (y # xs))
      else case update_first P f xs of
             None \<Rightarrow> None | Some (Inl e) \<Rightarrow> Some (Inl e) | Some (Inr ys) \<Rightarrow> Some (Inr (x # ys)))"

definition notify :: "('c, 'r) todo_list \<Rightarrow> ('c, 'r) todo_list" where
  "notify t = t\<lparr>tl_changes := tl_changes t + 1\<rparr>"

definition edit_where ::
  "(('c, 'r) todo_item \<Rightarrow> bool) \<Rightarrow> todo_error \<Rightarrow> (('c, 'r) todo_item \<Rightarrow> todo_error + ('c, 'r) todo_item) \<Rightarrow>
   ('c, 'r) todo_list \<Rightarrow> ('c, 'r) todo_list \<times> (todo_error + unit)" where
  "edit_where P missing f t =
     (case update_first P f (tl_items t) of
        None \<Rightarrow> (t, Inl missing)
      | Some (Inl e) \<Rightarrow> (t, Inl e)
      | Some (Inr xs) \<Rightarrow> (notify (t\<lparr>tl_items := xs\<rparr>), Inr ()))"

definition edit_item ::
  "string \<Rightarrow> (('c, 'r) todo_item \<Rightarrow> todo_error + ('c, 'r) todo_item) \<Rightarrow> ('c, 'r) todo_list \<Rightarrow>
   ('c, 'r) todo_list \<times> (todo_error + unit)" where
  "edit_item i = edit_where (\<lambda>x. ti_id x = i) (TaskNotFound i)"

text \<open>The operations without a callback and without an error for an unknown id.\<close>

definition edit_silently ::
  "string \<Rightarrow> (('c, 'r) todo_item \<Rightarrow> ('c, 'r) todo_item) \<Rightarrow> ('c, 'r) todo_list \<Rightarrow> ('c, 'r) todo_list" where
  "edit_silently i f t =
     (case update_first (\<lambda>x. ti_id x = i) (\<lambda>x. Inr (f x) :: todo_error + _) (tl_items t) of
        Some (Inr xs) \<Rightarrow> t\<lparr>tl_items := xs\<rparr>
      | _ \<Rightarrow> t)"

section \<open>Creation and removal\<close>

text \<open>The specification of an item: its contract and the lifecycle fields creation takes from it.\<close>

record 'c todo_spec =
  sp_contract :: 'c
  sp_plan_first :: bool
  sp_plan_id :: string
  sp_source :: string
  sp_parent :: string

text \<open>
  The provider and backend bindings are derived from the specification by
  \<open>targetFromLegacyIdentity\<close> and its siblings, the migration of the retired model and provider
  fields; that derivation is the argument \<open>bind\<close>.
\<close>

definition todoItemFromSpec ::
  "('c todo_spec \<Rightarrow> 'r option \<times> 'r option) \<Rightarrow> 'c todo_spec \<Rightarrow> string \<Rightarrow> ('c, 'r) todo_item" where
  "todoItemFromSpec bind sp i =
     \<lparr>ti_id = i, ti_contract = sp_contract sp, ti_status = TaskPending, ti_detail = [], ti_output = [],
      ti_revision = 0, ti_dispatch = [], ti_plan_first = sp_plan_first sp, ti_plan_id = sp_plan_id sp,
      ti_started = 0, ti_ended = 0, ti_model_time = 0, ti_tool_time = 0, ti_source = sp_source sp,
      ti_parent = sp_parent sp, ti_skills = [], ti_injected = [], ti_loaded = [], ti_verify = None,
      ti_runtime_error = None, ti_failure = None, ti_retries = 0, ti_recovery = [], ti_typed = None,
      ti_resolution = None, ti_progress = ProgressUnknown, ti_criteria = [], ti_action_progress = None,
      ti_fingerprints = [], ti_hints = [], ti_last_op = [], ti_provider = fst (bind sp),
      ti_backend = snd (bind sp)\<rparr>"

fun add_specs ::
  "('c todo_spec \<Rightarrow> 'r option \<times> 'r option) \<Rightarrow> 'c todo_spec list \<Rightarrow> ('c, 'r) todo_list \<Rightarrow> ('c, 'r) todo_list" where
  "add_specs bind [] t = t"
| "add_specs bind (sp # sps) t =
     add_specs bind sps
       (t\<lparr>tl_next := tl_next t + 1,
           tl_items := tl_items t @ [todoItemFromSpec bind sp (dec (tl_next t + 1))]\<rparr>)"

definition AddBatch ::
  "('c todo_spec \<Rightarrow> 'r option \<times> 'r option) \<Rightarrow> 'c todo_spec list \<Rightarrow> ('c, 'r) todo_list \<Rightarrow> ('c, 'r) todo_list" where
  "AddBatch bind sps t = notify (add_specs bind sps t)"

definition ReserveIDs :: "nat \<Rightarrow> ('c, 'r) todo_list \<Rightarrow> ('c, 'r) todo_list \<times> string list" where
  "ReserveIDs n t =
     (t\<lparr>tl_next := tl_next t + n\<rparr>, map (\<lambda>k. dec (tl_next t + 1 + k)) [0..<n])"

definition AddReserved :: "('c, 'r) todo_item list \<Rightarrow> ('c, 'r) todo_list \<Rightarrow> ('c, 'r) todo_list" where
  "AddReserved xs t = (if xs = [] then t else notify (t\<lparr>tl_items := tl_items t @ xs\<rparr>))"

definition DeleteIDs :: "string list \<Rightarrow> ('c, 'r) todo_list \<Rightarrow> ('c, 'r) todo_list" where
  "DeleteIDs ids t =
     (let remove = filter (\<lambda>i. i \<noteq> []) ids;
          fresh = filter (\<lambda>x. ti_id x \<notin> set remove) (tl_items t) in
      if remove = [] then t
      else if list_ex (\<lambda>x. ti_id x \<in> set remove) (tl_items t) then notify (t\<lparr>tl_items := fresh\<rparr>)
      else t\<lparr>tl_items := fresh\<rparr>)"

definition Clear :: "('c, 'r) todo_list \<Rightarrow> ('c, 'r) todo_list" where
  "Clear t = notify (t\<lparr>tl_items := [], tl_next := 0\<rparr>)"

section \<open>Reading numeric ids back\<close>

text \<open>
  \<open>fmt.Sscanf\<close> with the verb \<open>%d\<close>: leading space is skipped, a newline is an error unless a carriage
  return precedes it, an optional sign and at least one digit are read, what follows is ignored,
  and a value outside \<open>int64\<close> is an error.
\<close>

function skip_space :: "string \<Rightarrow> string option" where
  "skip_space s =
     (if take 2 s = [CHR 0x0D, CHR 0x0A] then skip_space (drop 2 s)
      else if take 1 s = [CHR 0x0A] then None
      else case leading_space space_encodings s of
             None \<Rightarrow> Some s
           | Some r \<Rightarrow> skip_space r)"
  by pat_completeness auto

termination
proof (relation "measure length")
  fix s :: string
  assume "take 2 s = [CHR 0x0D, CHR 0x0A]"
  then show "(drop 2 s, s) \<in> measure length" by (cases s) auto
qed (auto dest: leading_space_length [OF proper_space_encodings])

declare skip_space.simps [simp del]

definition scan_decimal :: "string \<Rightarrow> int option" where
  "scan_decimal s =
     (case skip_space s of
        None \<Rightarrow> None
      | Some r \<Rightarrow>
          let neg = (take 1 r = ''-'');
              body = (if neg \<or> take 1 r = ''+'' then drop 1 r else r);
              digits = takeWhile is_digit body;
              v = int (dec_val digits) in
          if digits = [] then None
          else if neg then (if v \<le> 9223372036854775808 then Some (- v) else None)
          else if v \<le> 9223372036854775807 then Some v else None)"

definition max_id :: "int \<Rightarrow> ('c, 'r) todo_item list \<Rightarrow> int" where
  "max_id start xs =
     fold (\<lambda>x m. case scan_decimal (ti_id x) of None \<Rightarrow> m | Some v \<Rightarrow> if v > m then v else m) xs start"

definition Restore :: "('c, 'r) todo_item list \<Rightarrow> ('c, 'r) todo_list \<Rightarrow> ('c, 'r) todo_list" where
  "Restore xs t = notify (t\<lparr>tl_items := xs, tl_next := nat (max_id 0 xs)\<rparr>)"

definition restoreWorkflowCycle ::
  "('c, 'r) todo_item list \<Rightarrow> nat \<Rightarrow> ('c, 'r) todo_list \<Rightarrow> ('c, 'r) todo_list" where
  "restoreWorkflowCycle xs floor t = t\<lparr>tl_items := xs, tl_next := nat (max_id (int floor) xs)\<rparr>"

section \<open>Lifecycle\<close>

text \<open>The timestamps a status sets when it is entered for the first time.\<close>

definition stamp_times :: "nat \<Rightarrow> task_status \<Rightarrow> ('c, 'r) todo_item \<Rightarrow> ('c, 'r) todo_item" where
  "stamp_times now status x =
     (if status = TaskInProgress then (if ti_started x = 0 then x\<lparr>ti_started := now\<rparr> else x)
      else if status \<in> {TaskDone, TaskError, TaskBlocked, TaskSkipped}
      then (if ti_ended x = 0 then x\<lparr>ti_ended := now\<rparr> else x)
      else x)"

definition note_detail :: "string \<Rightarrow> ('c, 'r) todo_item \<Rightarrow> ('c, 'r) todo_item" where
  "note_detail d x = (if d \<noteq> [] then x\<lparr>ti_detail := d\<rparr> else x)"

definition note_output :: "string \<Rightarrow> ('c, 'r) todo_item \<Rightarrow> ('c, 'r) todo_item" where
  "note_output d x = (if d \<noteq> [] then x\<lparr>ti_output := d\<rparr> else x)"

definition TryUpdateStatusAndOutput ::
  "nat \<Rightarrow> string \<Rightarrow> task_status \<Rightarrow> string \<Rightarrow> string \<Rightarrow> ('c, 'r) todo_list \<Rightarrow>
   ('c, 'r) todo_list \<times> (todo_error + unit)" where
  "TryUpdateStatusAndOutput now i status detail out t =
     edit_item i
       (\<lambda>x. if \<not> CanTransition (ti_status x) status then Inl (BadTransition (ti_status x) status i)
            else Inr (stamp_times now status (note_output out (note_detail detail (x\<lparr>ti_status := status\<rparr>)))))
       t"

text \<open>\<open>UpdateStatus\<close> and \<open>UpdateStatusAndOutput\<close> drop the error.\<close>

definition UpdateStatusAndOutput ::
  "nat \<Rightarrow> string \<Rightarrow> task_status \<Rightarrow> string \<Rightarrow> string \<Rightarrow> ('c, 'r) todo_list \<Rightarrow> ('c, 'r) todo_list" where
  "UpdateStatusAndOutput now i status detail out t =
     fst (TryUpdateStatusAndOutput now i status detail out t)"

definition UpdateStatus ::
  "nat \<Rightarrow> string \<Rightarrow> task_status \<Rightarrow> string \<Rightarrow> ('c, 'r) todo_list \<Rightarrow> ('c, 'r) todo_list" where
  "UpdateStatus now i status detail t = fst (TryUpdateStatusAndOutput now i status detail [] t)"

definition attach_failure :: "'r failure_payload option \<Rightarrow> ('c, 'r) todo_item \<Rightarrow> ('c, 'r) todo_item" where
  "attach_failure event x =
     (case event of None \<Rightarrow> x
      | Some e \<Rightarrow> note_detail (TrimSpace (fp_summary e)) (x\<lparr>ti_failure := event\<rparr>))"

definition TryUpdateStatusAndFailure ::
  "nat \<Rightarrow> string \<Rightarrow> task_status \<Rightarrow> string \<Rightarrow> string \<Rightarrow> 'r failure_payload option \<Rightarrow> ('c, 'r) todo_list \<Rightarrow>
   ('c, 'r) todo_list \<times> (todo_error + unit)" where
  "TryUpdateStatusAndFailure now i status detail out event t =
     edit_item i
       (\<lambda>x. if \<not> CanTransition (ti_status x) status then Inl (BadTransition (ti_status x) status i)
            else Inr (stamp_times now status (attach_failure event
                   (note_output out (note_detail detail (x\<lparr>ti_status := status\<rparr>))))))
       t"

text \<open>The callback fires only for an item that has already failed.\<close>

definition SetFailureEventAndOutput ::
  "string \<Rightarrow> 'r failure_payload option \<Rightarrow> string \<Rightarrow> ('c, 'r) todo_list \<Rightarrow>
   ('c, 'r) todo_list \<times> (todo_error + unit)" where
  "SetFailureEventAndOutput i event out t =
     (let (t', r) = edit_item i
            (\<lambda>x. Inr (note_output out (attach_failure event (x\<lparr>ti_failure := event\<rparr>)))) t in
      case find (\<lambda>x. ti_id x = i) (tl_items t) of
        Some x \<Rightarrow>
          if ti_status x \<in> {TaskError, TaskBlocked, TaskSkipped, TaskProtocolIncomplete} then (t', r)
          else (t'\<lparr>tl_changes := tl_changes t\<rparr>, r)
      | None \<Rightarrow> (t', r))"

definition SetFailureEvent ::
  "string \<Rightarrow> 'r failure_payload option \<Rightarrow> ('c, 'r) todo_list \<Rightarrow> ('c, 'r) todo_list \<times> (todo_error + unit)" where
  "SetFailureEvent i event t = SetFailureEventAndOutput i event [] t"

definition RecoveryStateNotStarted :: string where
  "RecoveryStateNotStarted = ''not_started''"

text \<open>An unknown id is ignored; the callback fires only after a change.\<close>

definition ResetForRetry :: "string \<Rightarrow> string \<Rightarrow> ('c, 'r) todo_list \<Rightarrow> ('c, 'r) todo_list" where
  "ResetForRetry i detail t =
     fst (edit_item i
       (\<lambda>x. Inr (x\<lparr>ti_status := TaskPending, ti_detail := detail, ti_output := [], ti_verify := None,
            ti_runtime_error := None, ti_recovery := RecoveryStateNotStarted, ti_last_op := [],
            ti_progress := ProgressUnknown, ti_criteria := [], ti_started := 0, ti_ended := 0,
            ti_model_time := 0, ti_tool_time := 0, ti_retries := i64 (ti_retries x + 1)\<rparr>)) t)"

text \<open>A projected item is installed over the live one with its id.\<close>

definition TryApplyProjectedItem ::
  "('c, 'r) todo_item option \<Rightarrow> ('c, 'r) todo_list \<Rightarrow> ('c, 'r) todo_list \<times> (todo_error + unit)" where
  "TryApplyProjectedItem projected t =
     (case projected of None \<Rightarrow> (t, Inl ProjectedInvalid)
      | Some y \<Rightarrow> if ti_id y = [] then (t, Inl ProjectedInvalid) else edit_item (ti_id y) (\<lambda>_. Inr y) t)"

section \<open>Dispatch leases\<close>

definition TrySetDispatchLease ::
  "string \<Rightarrow> int \<Rightarrow> string \<Rightarrow> ('c, 'r) todo_list \<Rightarrow> ('c, 'r) todo_list \<times> (todo_error + unit)" where
  "TrySetDispatchLease i revision dispatch t =
     edit_item i (\<lambda>x. Inr (x\<lparr>ti_revision := revision, ti_dispatch := dispatch, ti_typed := None\<rparr>)) t"

definition TrySetTypedResultForDispatch ::
  "string \<Rightarrow> int \<Rightarrow> string \<Rightarrow> 'r typed_result option \<Rightarrow> ('c, 'r) todo_list \<Rightarrow>
   ('c, 'r) todo_list \<times> (todo_error + unit)" where
  "TrySetTypedResultForDispatch i revision dispatch result t =
     edit_item i
       (\<lambda>x. if ti_revision x \<noteq> revision \<or> ti_dispatch x \<noteq> dispatch then Inl (StaleLease i)
            else Inr (x\<lparr>ti_typed := result\<rparr>)) t"

section \<open>Evidence signatures\<close>

text \<open>
  The MAC (HMAC-SHA-256 in hexadecimal, keyed by the process secret) is the argument \<open>mac\<close>. The
  secret is \<open>None\<close> when the random source failed; the callers never pass an empty one.
\<close>

type_synonym mac = "string \<Rightarrow> string \<Rightarrow> string"

definition evidence_text :: "evidence \<Rightarrow> string" where
  "evidence_text e = ev_task e @ '':'' @ ev_run e @ '':'' @ ev_type e @ '':'' @ ev_desc e @ '':'' @ ev_value e"

definition ComputeEvidenceHMAC :: "mac \<Rightarrow> string option \<Rightarrow> evidence \<Rightarrow> string \<Rightarrow> string option" where
  "ComputeEvidenceHMAC mac system e secret =
     (if secret = [] then (case system of None \<Rightarrow> None | Some sec \<Rightarrow> Some (mac sec (evidence_text e)))
      else Some (mac secret (evidence_text e)))"

definition SignEvidence :: "mac \<Rightarrow> string option \<Rightarrow> evidence \<Rightarrow> string \<Rightarrow> evidence" where
  "SignEvidence mac system e secret =
     (case ComputeEvidenceHMAC mac system e secret of
        None \<Rightarrow> e\<lparr>ev_hmac := []\<rparr> | Some sig \<Rightarrow> e\<lparr>ev_hmac := sig\<rparr>)"

definition VerifyEvidenceSignature ::
  "mac \<Rightarrow> string option \<Rightarrow> evidence \<Rightarrow> string \<Rightarrow> string \<Rightarrow> string \<Rightarrow> bool" where
  "VerifyEvidenceSignature mac system e secret task run =
     (if ev_hmac e = [] \<or> ev_task e = [] \<or> ev_run e = [] then False
      else if task \<noteq> [] \<and> ev_task e \<noteq> task then False
      else if run \<noteq> [] \<and> ev_run e \<noteq> run then False
      else case ComputeEvidenceHMAC mac system e secret of
             None \<Rightarrow> False
           | Some expected \<Rightarrow> expected \<noteq> [] \<and> ev_hmac e = expected)"

definition clean_evidence :: "mac \<Rightarrow> string option \<Rightarrow> string \<Rightarrow> string \<Rightarrow> evidence \<Rightarrow> evidence" where
  "clean_evidence mac system i run e =
     (let e = (if ev_task e = [] then e\<lparr>ev_task := i\<rparr> else e);
          sec = (case system of None \<Rightarrow> [] | Some s \<Rightarrow> s) in
      if sec \<noteq> [] \<and> VerifyEvidenceSignature mac system e sec i run then e else e\<lparr>ev_hmac := []\<rparr>)"

definition SetTypedResult ::
  "mac \<Rightarrow> string option \<Rightarrow> string \<Rightarrow> 'r typed_result option \<Rightarrow> ('c, 'r) todo_list \<Rightarrow>
   ('c, 'r) todo_list \<times> (todo_error + unit)" where
  "SetTypedResult mac system i result t =
     edit_item i
       (\<lambda>x. Inr (x\<lparr>ti_typed := map_option
            (\<lambda>r. r\<lparr>tr_evidence := map (clean_evidence mac system i (tl_run t)) (tr_evidence r)\<rparr>) result\<rparr>)) t"

section \<open>Failure fingerprints\<close>

definition at_least_one :: "int \<Rightarrow> int" where
  "at_least_one n = (if n < 1 then 1 else n)"

fun count_fingerprint :: "fingerprint \<Rightarrow> fingerprint list \<Rightarrow> fingerprint list" where
  "count_fingerprint f [] = [f\<lparr>ff_occurrences := at_least_one (ff_occurrences f)\<rparr>]"
| "count_fingerprint f (x # xs) =
     (if ff_digest f \<noteq> [] \<and> ff_digest x = ff_digest f
      then x\<lparr>ff_occurrences := i64 (at_least_one (ff_occurrences x) + at_least_one (ff_occurrences f))\<rparr> # xs
      else x # count_fingerprint f xs)"

definition AppendFailureFingerprint ::
  "string \<Rightarrow> fingerprint \<Rightarrow> ('c, 'r) todo_list \<Rightarrow> ('c, 'r) todo_list \<times> (todo_error + unit)" where
  "AppendFailureFingerprint i f t =
     edit_item i (\<lambda>x. Inr (x\<lparr>ti_fingerprints := count_fingerprint f (ti_fingerprints x)\<rparr>)) t"

section \<open>Annotations\<close>

definition AppendDiagnosticHint ::
  "string \<Rightarrow> string \<Rightarrow> ('c, 'r) todo_list \<Rightarrow> ('c, 'r) todo_list \<times> (todo_error + unit)" where
  "AppendDiagnosticHint i hint t = edit_item i (\<lambda>x. Inr (x\<lparr>ti_hints := ti_hints x @ [hint]\<rparr>)) t"

definition SetLastOperation :: "string \<Rightarrow> string \<Rightarrow> ('c, 'r) todo_list \<Rightarrow> ('c, 'r) todo_list" where
  "SetLastOperation i operation t =
     (if TrimSpace operation = [] then t else edit_silently i (\<lambda>x. x\<lparr>ti_last_op := operation\<rparr>) t)"

definition SetPlanLifecycle ::
  "string \<Rightarrow> bool \<Rightarrow> string \<Rightarrow> ('c, 'r) todo_list \<Rightarrow> ('c, 'r) todo_list \<times> (todo_error + unit)" where
  "SetPlanLifecycle i first plan t =
     edit_item i (\<lambda>x. Inr (x\<lparr>ti_plan_first := first, ti_plan_id := plan\<rparr>)) t"

definition SetRecoveryState :: "string \<Rightarrow> string \<Rightarrow> ('c, 'r) todo_list \<Rightarrow> ('c, 'r) todo_list" where
  "SetRecoveryState i st t = edit_silently i (\<lambda>x. x\<lparr>ti_recovery := st\<rparr>) t"

definition SetVerificationResult ::
  "string \<Rightarrow> 'r verification_result option \<Rightarrow> ('c, 'r) todo_list \<Rightarrow> ('c, 'r) todo_list \<times> (todo_error + unit)" where
  "SetVerificationResult i result t =
     edit_item i
       (\<lambda>x. Inr (if result = None then x\<lparr>ti_verify := None, ti_runtime_error := None\<rparr>
                 else x\<lparr>ti_verify := result\<rparr>)) t"

definition SetProviderBinding ::
  "string \<Rightarrow> 'r option \<Rightarrow> ('c, 'r) todo_list \<Rightarrow> ('c, 'r) todo_list \<times> (todo_error + unit)" where
  "SetProviderBinding i binding t = edit_item i (\<lambda>x. Inr (x\<lparr>ti_provider := binding\<rparr>)) t"

definition SetBackendBinding ::
  "string \<Rightarrow> 'r option \<Rightarrow> ('c, 'r) todo_list \<Rightarrow> ('c, 'r) todo_list \<times> (todo_error + unit)" where
  "SetBackendBinding i binding t = edit_item i (\<lambda>x. Inr (x\<lparr>ti_backend := binding\<rparr>)) t"

definition SetRuntimeError ::
  "string \<Rightarrow> 'r option \<Rightarrow> ('c, 'r) todo_list \<Rightarrow> ('c, 'r) todo_list \<times> (todo_error + unit)" where
  "SetRuntimeError i err t = edit_item i (\<lambda>x. Inr (x\<lparr>ti_runtime_error := err\<rparr>)) t"

definition SetActionProgress ::
  "string \<Rightarrow> 'r option \<Rightarrow> ('c, 'r) todo_list \<Rightarrow> ('c, 'r) todo_list \<times> (todo_error + unit)" where
  "SetActionProgress i v t =
     edit_where (\<lambda>x. ti_id x = i \<and> ti_status x = TaskInProgress) (NoActiveOccurrence i)
       (\<lambda>x. Inr (x\<lparr>ti_action_progress := v\<rparr>)) t"

definition SetProgress ::
  "string \<Rightarrow> progress \<Rightarrow> string list \<Rightarrow> ('c, 'r) todo_list \<Rightarrow> ('c, 'r) todo_list \<times> (todo_error + unit)" where
  "SetProgress i p criteria t = edit_item i (\<lambda>x. Inr (x\<lparr>ti_progress := p, ti_criteria := criteria\<rparr>)) t"

definition SetSkills :: "string \<Rightarrow> string list \<Rightarrow> ('c, 'r) todo_list \<Rightarrow> ('c, 'r) todo_list" where
  "SetSkills i skills t = edit_silently i (\<lambda>x. x\<lparr>ti_skills := skills\<rparr>) t"

definition SetInjectedSkills :: "string \<Rightarrow> string list \<Rightarrow> ('c, 'r) todo_list \<Rightarrow> ('c, 'r) todo_list" where
  "SetInjectedSkills i skills t = edit_silently i (\<lambda>x. x\<lparr>ti_injected := skills\<rparr>) t"

definition AddLoadedSkill :: "string \<Rightarrow> string \<Rightarrow> ('c, 'r) todo_list \<Rightarrow> ('c, 'r) todo_list" where
  "AddLoadedSkill i skill t =
     edit_silently i
       (\<lambda>x. if list_ex (\<lambda>s. s = skill) (ti_loaded x) then x else x\<lparr>ti_loaded := ti_loaded x @ [skill]\<rparr>) t"

definition UpdateTodoTiming :: "string \<Rightarrow> int \<Rightarrow> int \<Rightarrow> ('c, 'r) todo_list \<Rightarrow> ('c, 'r) todo_list" where
  "UpdateTodoTiming i model tool t =
     edit_silently i (\<lambda>x. x\<lparr>ti_model_time := model, ti_tool_time := tool\<rparr>) t"

section \<open>Reading\<close>

definition Has :: "('c, 'r) todo_list \<Rightarrow> string \<Rightarrow> bool" where
  "Has t i \<longleftrightarrow> list_ex (\<lambda>x. ti_id x = i) (tl_items t)"

definition Children :: "('c, 'r) todo_list \<Rightarrow> string \<Rightarrow> ('c, 'r) todo_item list" where
  "Children t parent = filter (\<lambda>x. ti_parent x = parent) (tl_items t)"

text \<open>The skills of the three lists in order, without the empty one and without repetitions.\<close>

definition ExecutionMetadata :: "('c, 'r) todo_list \<Rightarrow> string \<Rightarrow> string \<times> string list" where
  "ExecutionMetadata t i =
     (case find (\<lambda>x. ti_id x = i) (tl_items t) of
        None \<Rightarrow> ([], [])
      | Some x \<Rightarrow>
          (ti_source x,
           fold (\<lambda>s acc. if s = [] \<or> s \<in> set acc then acc else acc @ [s])
             (ti_skills x @ ti_injected x @ ti_loaded x) []))"

definition CompletedCount :: "('c, 'r) todo_list \<Rightarrow> nat" where
  "CompletedCount t = length (filter (\<lambda>x. ti_status x = TaskDone) (tl_items t))"

definition ErrorCount :: "('c, 'r) todo_list \<Rightarrow> nat" where
  "ErrorCount t = length (filter (\<lambda>x. ti_status x = TaskError \<or> ti_status x = TaskBlocked) (tl_items t))"

end
