(* ===== verification/Todo_Lifecycle.thy ===== *)
theory Todo_Lifecycle
  imports Todo_List
begin

text \<open>
  What the todo list promises over whole runs: an operation that is refused changes nothing, ids stay
  unambiguous, a finished task stays finished, a worker that lost its lease cannot publish a
  result, and the failure fingerprints of a task count every failure once.
\<close>

section \<open>One edit\<close>

lemma update_first_None: "update_first P f xs = None \<longleftrightarrow> (\<forall>x\<in>set xs. \<not> P x)"
  by (induction xs) (auto split: option.split sum.split)

lemma update_first_at:
  "\<forall>z\<in>set pre. \<not> P z \<Longrightarrow> P x \<Longrightarrow>
   update_first P f (pre @ x # post) =
     Some (case f x of Inl e \<Rightarrow> Inl e | Inr y \<Rightarrow> Inr (pre @ y # post))"
  by (induction pre) (auto split: sum.split)

text \<open>Either no item is the one looked for, or the list splits around the first that is.\<close>

lemma first_match:
  obtains "\<forall>x\<in>set xs. \<not> P x" | pre x post where "xs = pre @ x # post" "\<forall>z\<in>set pre. \<not> P z" "P x"
  using split_list_first_prop [of xs P] by blast

text \<open>An edit is refused and leaves the list alone, or may_rewrite the first item it looks for.\<close>

definition edited ::
  "(('c, 'r) todo_item \<Rightarrow> bool) \<Rightarrow> (('c, 'r) todo_item \<Rightarrow> ('c, 'r) todo_item \<Rightarrow> bool) \<Rightarrow>
   ('c, 'r) todo_list \<Rightarrow> ('c, 'r) todo_list \<Rightarrow> bool" where
  "edited P R t t' \<longleftrightarrow>
     (\<exists>pre x post y. tl_items t = pre @ x # post \<and> (\<forall>z\<in>set pre. \<not> P z) \<and> P x \<and> R x y \<and>
        tl_items t' = pre @ y # post) \<and> tl_next t' = tl_next t \<and> tl_run t' = tl_run t"

lemma edited_at:
  assumes "tl_items t = pre @ x # post" "\<forall>z\<in>set pre. \<not> P z" "P x" "R x y"
  shows "edited P R t (t\<lparr>tl_items := pre @ y # post\<rparr>)" "edited P R t (notify (t\<lparr>tl_items := pre @ y # post\<rparr>))"
proof -
  have "\<exists>pre' x' post' y'. pre @ x # post = pre' @ x' # post' \<and> (\<forall>z\<in>set pre'. \<not> P z) \<and> P x' \<and> R x' y' \<and>
      pre @ y # post = pre' @ y' # post'"
    using assms(2-4) by blast
  then show "edited P R t (t\<lparr>tl_items := pre @ y # post\<rparr>)" "edited P R t (notify (t\<lparr>tl_items := pre @ y # post\<rparr>))"
    by (simp_all add: edited_def notify_def assms(1))
qed

lemma edit_where_cases:
  obtains e where "edit_where P missing f t = (t, Inl e)"
  | t' where "edit_where P missing f t = (t', Inr ())" "edited P (\<lambda>x y. f x = Inr y) t t'"
      "tl_changes t' = tl_changes t + 1"
proof (cases rule: first_match [of "tl_items t" P])
  case 1
  then have "update_first P f (tl_items t) = None" by (simp add: update_first_None)
  then show thesis using that(1) [of missing] by (simp add: edit_where_def)
next
  case (2 pre x post)
  note found = update_first_at [OF 2(2,3), of f post, folded 2(1)]
  show thesis
  proof (cases "f x")
    case (Inl e)
    with found show thesis using that(1) [of e] by (simp add: edit_where_def)
  next
    case (Inr y)
    let ?t = "notify (t\<lparr>tl_items := pre @ y # post\<rparr>)"
    have "edited P (\<lambda>x y. f x = Inr y) t ?t" using edited_at(2) [OF 2, of "\<lambda>x y. f x = Inr y" y] Inr by simp
    with found Inr show thesis using that(2) [of ?t] by (simp add: edit_where_def notify_def)
  qed
qed

lemma edit_silently_cases:
  obtains "edit_silently i f t = t" | "edited (\<lambda>x. ti_id x = i) (\<lambda>x y. y = f x) t (edit_silently i f t)"
proof (cases rule: first_match [of "tl_items t" "\<lambda>x. ti_id x = i"])
  case 1
  then have "update_first (\<lambda>x. ti_id x = i) (\<lambda>x. Inr (f x) :: todo_error + _) (tl_items t) = None"
    by (simp add: update_first_None)
  then show thesis using that(1) by (simp add: edit_silently_def)
next
  case (2 pre x post)
  note found = update_first_at [OF 2(2,3), of "\<lambda>x. Inr (f x) :: todo_error + _" post, folded 2(1)]
  have "edited (\<lambda>x. ti_id x = i) (\<lambda>x y. y = f x) t (edit_silently i f t)"
    using edited_at(1) [OF 2, of "\<lambda>x y. y = f x" "f x"] by (simp add: edit_silently_def found)
  then show thesis by (rule that(2))
qed

section \<open>Operations\<close>

datatype ('c, 'r) todo_op =
    AddOp "'c todo_spec list" | DeleteOp "string list"
  | StatusOp nat string task_status string string
  | FailOp nat string task_status string string "'r failure_payload option"
  | FailureOp string "'r failure_payload option" string
  | RetryOp string string | LeaseOp string int string | ResultOp string int string "'r typed_result option"
  | TypedOp string "'r typed_result option" | ProjectOp "('c, 'r) todo_item option"
  | FingerprintOp string fingerprint | HintOp string string | LastOp string string
  | PlanOp string bool string | RecoveryOp string string | VerifyOp string "'r verification_result option"
  | ProviderOp string "'r option" | BackendOp string "'r option" | RuntimeErrorOp string "'r option"
  | ActionOp string "'r option" | ProgressOp string progress "string list"
  | SkillsOp string "string list" | InjectedOp string "string list" | LoadedOp string string
  | TimingOp string int int

fun todo_apply ::
  "('c todo_spec \<Rightarrow> 'r option \<times> 'r option) \<Rightarrow> mac \<Rightarrow> string option \<Rightarrow> ('c, 'r) todo_op \<Rightarrow>
   ('c, 'r) todo_list \<Rightarrow> ('c, 'r) todo_list \<times> (todo_error + unit)" where
  "todo_apply bind mac sys (AddOp sps) t = (AddBatch bind sps t, Inr ())"
| "todo_apply bind mac sys (DeleteOp ids) t = (DeleteIDs ids t, Inr ())"
| "todo_apply bind mac sys (StatusOp now i st d out) t = TryUpdateStatusAndOutput now i st d out t"
| "todo_apply bind mac sys (FailOp now i st d out ev) t = TryUpdateStatusAndFailure now i st d out ev t"
| "todo_apply bind mac sys (FailureOp i ev out) t = SetFailureEventAndOutput i ev out t"
| "todo_apply bind mac sys (RetryOp i d) t = (ResetForRetry i d t, Inr ())"
| "todo_apply bind mac sys (LeaseOp i n d) t = TrySetDispatchLease i n d t"
| "todo_apply bind mac sys (ResultOp i n d r) t = TrySetTypedResultForDispatch i n d r t"
| "todo_apply bind mac sys (TypedOp i r) t = SetTypedResult mac sys i r t"
| "todo_apply bind mac sys (ProjectOp p) t = TryApplyProjectedItem p t"
| "todo_apply bind mac sys (FingerprintOp i f) t = AppendFailureFingerprint i f t"
| "todo_apply bind mac sys (HintOp i h) t = AppendDiagnosticHint i h t"
| "todo_apply bind mac sys (LastOp i s) t = (SetLastOperation i s t, Inr ())"
| "todo_apply bind mac sys (PlanOp i b p) t = SetPlanLifecycle i b p t"
| "todo_apply bind mac sys (RecoveryOp i s) t = (SetRecoveryState i s t, Inr ())"
| "todo_apply bind mac sys (VerifyOp i v) t = SetVerificationResult i v t"
| "todo_apply bind mac sys (ProviderOp i b) t = SetProviderBinding i b t"
| "todo_apply bind mac sys (BackendOp i b) t = SetBackendBinding i b t"
| "todo_apply bind mac sys (RuntimeErrorOp i e) t = SetRuntimeError i e t"
| "todo_apply bind mac sys (ActionOp i v) t = SetActionProgress i v t"
| "todo_apply bind mac sys (ProgressOp i p cs) t = SetProgress i p cs t"
| "todo_apply bind mac sys (SkillsOp i s) t = (SetSkills i s t, Inr ())"
| "todo_apply bind mac sys (InjectedOp i s) t = (SetInjectedSkills i s t, Inr ())"
| "todo_apply bind mac sys (LoadedOp i s) t = (AddLoadedSkill i s t, Inr ())"
| "todo_apply bind mac sys (TimingOp i m l) t = (UpdateTodoTiming i m l t, Inr ())"

definition todo_run ::
  "('c todo_spec \<Rightarrow> 'r option \<times> 'r option) \<Rightarrow> mac \<Rightarrow> string option \<Rightarrow> ('c, 'r) todo_op list \<Rightarrow>
   ('c, 'r) todo_list \<Rightarrow> ('c, 'r) todo_list" where
  "todo_run bind mac sys ops t = fold (\<lambda>op t. fst (todo_apply bind mac sys op t)) ops t"

text \<open>
  How an operation that is neither creation nor removal may rewrite an item: the item keeps its id,
  and, unless it is reset or projected, moves along \<open>CanTransition\<close>, keeps the timestamps it has, its
  frozen contract and its resolution.
\<close>

definition careful :: "('c, 'r) todo_item \<Rightarrow> ('c, 'r) todo_item \<Rightarrow> bool" where
  "careful x y \<longleftrightarrow> ti_id y = ti_id x \<and> CanTransition (ti_status x) (ti_status y)
     \<and> (ti_started x \<noteq> 0 \<longrightarrow> ti_started y = ti_started x) \<and> (ti_ended x \<noteq> 0 \<longrightarrow> ti_ended y = ti_ended x)
     \<and> ti_contract y = ti_contract x \<and> ti_resolution y = ti_resolution x \<and> ti_retries y = ti_retries x"

fun op_target :: "('c, 'r) todo_op \<Rightarrow> string option" where
  "op_target (RetryOp i d) = Some i"
| "op_target (ProjectOp p) = map_option ti_id p"
| "op_target _ = None"

fun op_creates :: "('c, 'r) todo_op \<Rightarrow> bool" where
  "op_creates (AddOp sps) = True"
| "op_creates (DeleteOp ids) = True"
| "op_creates _ = False"

lemma careful_refl [simp]: "careful x x"
  by (simp add: careful_def CanTransition_def)

definition may_rewrite :: "('c, 'r) todo_op \<Rightarrow> ('c, 'r) todo_item \<Rightarrow> ('c, 'r) todo_item \<Rightarrow> bool" where
  "may_rewrite op x y \<longleftrightarrow> ti_id y = ti_id x \<and> (op_target op \<noteq> Some (ti_id x) \<longrightarrow> careful x y)"

definition gently ::
  "(('c, 'r) todo_item \<Rightarrow> ('c, 'r) todo_item \<Rightarrow> bool) \<Rightarrow> ('c, 'r) todo_list \<Rightarrow> ('c, 'r) todo_list \<Rightarrow> bool" where
  "gently R t t' \<longleftrightarrow> (tl_items t' = tl_items t \<or> (\<exists>P. edited P R t t')) \<and>
     tl_next t' = tl_next t \<and> tl_run t' = tl_run t"

lemma may_rewrite_id: "may_rewrite op x y \<Longrightarrow> ti_id y = ti_id x"
  by (simp add: may_rewrite_def)

lemma edited_mono: "edited P R t t' \<Longrightarrow> (\<And>x y. P x \<Longrightarrow> R x y \<Longrightarrow> Q x y) \<Longrightarrow> edited P Q t t'"
  unfolding edited_def by blast

lemma gently_refl [simp]: "gently R t t"
  by (simp add: gently_def)

lemma gently_edited:
  assumes "edited P Q t t'" "\<And>x y. P x \<Longrightarrow> Q x y \<Longrightarrow> R x y"
  shows "gently R t t'"
proof -
  have "edited P R t t'" by (rule edited_mono [OF assms])
  moreover have "tl_next t' = tl_next t" "tl_run t' = tl_run t" using assms(1) unfolding edited_def by blast+
  ultimately show ?thesis unfolding gently_def by blast
qed

lemma gently_where:
  assumes "\<And>x y. P x \<Longrightarrow> f x = Inr y \<Longrightarrow> R x y"
  shows "gently R t (fst (edit_where P missing f t))"
  by (rule edit_where_cases [of P missing f t]) (auto intro: gently_edited assms)

lemma gently_item:
  assumes "\<And>x y. ti_id x = i \<Longrightarrow> f x = Inr y \<Longrightarrow> R x y"
  shows "gently R t (fst (edit_item i f t))"
  unfolding edit_item_def by (rule gently_where) (use assms in blast)

lemma gently_silent:
  assumes "\<And>x. ti_id x = i \<Longrightarrow> R x (f x)"
  shows "gently R t (edit_silently i f t)"
  by (rule edit_silently_cases [of i f t]) (auto intro: gently_edited assms)

lemma edited_counter: "edited P R t (t'\<lparr>tl_changes := k\<rparr>) \<longleftrightarrow> edited P R t t'"
  by (simp add: edited_def)

lemma gently_counter: "gently R t t' \<Longrightarrow> gently R t (t'\<lparr>tl_changes := k\<rparr>)"
  by (simp add: gently_def edited_counter)

lemma note_fields [simp]:
  "ti_id (note_detail d x) = ti_id x" "ti_status (note_detail d x) = ti_status x"
  "ti_started (note_detail d x) = ti_started x" "ti_ended (note_detail d x) = ti_ended x"
  "ti_contract (note_detail d x) = ti_contract x" "ti_resolution (note_detail d x) = ti_resolution x"
  "ti_retries (note_detail d x) = ti_retries x"
  "ti_id (note_output d x) = ti_id x" "ti_status (note_output d x) = ti_status x"
  "ti_started (note_output d x) = ti_started x" "ti_ended (note_output d x) = ti_ended x"
  "ti_contract (note_output d x) = ti_contract x" "ti_resolution (note_output d x) = ti_resolution x"
  "ti_retries (note_output d x) = ti_retries x"
  by (simp_all add: note_detail_def note_output_def)

lemma attach_fields [simp]:
  "ti_id (attach_failure e x) = ti_id x" "ti_status (attach_failure e x) = ti_status x"
  "ti_started (attach_failure e x) = ti_started x" "ti_ended (attach_failure e x) = ti_ended x"
  "ti_contract (attach_failure e x) = ti_contract x" "ti_resolution (attach_failure e x) = ti_resolution x"
  "ti_retries (attach_failure e x) = ti_retries x"
  by (simp_all add: attach_failure_def split: option.split)

lemma careful_stamp:
  "CanTransition (ti_status x) st \<Longrightarrow> ti_id y = ti_id x \<Longrightarrow> ti_status y = st \<Longrightarrow>
   ti_started y = ti_started x \<Longrightarrow> ti_ended y = ti_ended x \<Longrightarrow> ti_contract y = ti_contract x \<Longrightarrow>
   ti_resolution y = ti_resolution x \<Longrightarrow> ti_retries y = ti_retries x \<Longrightarrow> careful x (stamp_times now st y)"
  by (auto simp: careful_def stamp_times_def)

lemma careful_may: "careful x y \<Longrightarrow> may_rewrite op x y"
  by (simp add: may_rewrite_def careful_def)

lemmas todo_setters = AppendDiagnosticHint_def SetPlanLifecycle_def SetVerificationResult_def SetProviderBinding_def
  SetBackendBinding_def SetRuntimeError_def SetProgress_def TrySetDispatchLease_def
  TrySetTypedResultForDispatch_def SetTypedResult_def AppendFailureFingerprint_def

lemmas todo_silent = SetRecoveryState_def SetSkills_def SetInjectedSkills_def AddLoadedSkill_def
  UpdateTodoTiming_def SetLastOperation_def

lemma careful_same:
  "ti_id y = ti_id x \<Longrightarrow> ti_status y = ti_status x \<Longrightarrow> ti_started y = ti_started x \<Longrightarrow> ti_ended y = ti_ended x \<Longrightarrow>
   ti_contract y = ti_contract x \<Longrightarrow> ti_resolution y = ti_resolution x \<Longrightarrow> ti_retries y = ti_retries x \<Longrightarrow> careful x y"
  by (simp add: careful_def CanTransition_def)

lemma op_gently: "\<not> op_creates op \<Longrightarrow> gently (may_rewrite op) t (fst (todo_apply bind mac sys op t))"
proof (cases op)
  case (StatusOp now i st d out)
  then show ?thesis
    by (auto simp: TryUpdateStatusAndOutput_def intro!: gently_item careful_may careful_stamp split: if_splits)
next
  case (FailOp now i st d out ev)
  then show ?thesis
    by (auto simp: TryUpdateStatusAndFailure_def intro!: gently_item careful_may careful_stamp split: if_splits)
next
  case (FailureOp i ev out)
  let ?r = "edit_item i (\<lambda>x. Inr (note_output out (attach_failure ev (x\<lparr>ti_failure := ev\<rparr>)))) t"
  have "gently (may_rewrite op) t (fst ?r)" by (rule gently_item) (auto intro!: careful_may careful_same)
  moreover obtain t' r where "?r = (t', r)" by fastforce
  ultimately show ?thesis
    using FailureOp by (auto simp: SetFailureEventAndOutput_def Let_def intro: gently_counter split: option.split)
next
  case (RetryOp i d)
  then show ?thesis by (auto simp: ResetForRetry_def may_rewrite_def intro!: gently_item)
next
  case (ProjectOp p)
  then show ?thesis
    by (auto simp: TryApplyProjectedItem_def may_rewrite_def intro!: gently_item split: option.split)
next
  case (ActionOp i v)
  then show ?thesis by (auto simp: SetActionProgress_def intro!: gently_where careful_may careful_same)
qed (auto simp: todo_setters todo_silent intro!: gently_item gently_silent careful_may careful_same split: if_splits)

section \<open>Following one task\<close>

definition lookup :: "('c, 'r) todo_list \<Rightarrow> string \<Rightarrow> ('c, 'r) todo_item option" where
  "lookup t i = find (\<lambda>x. ti_id x = i) (tl_items t)"

lemma find_append: "find P (xs @ ys) = (case find P xs of None \<Rightarrow> find P ys | Some x \<Rightarrow> Some x)"
  by (induction xs) simp_all

lemma find_id: "find (\<lambda>x. ti_id x = i) xs = Some x \<Longrightarrow> ti_id x = i"
  by (induction xs) (auto split: if_splits)

lemma lookup_edit_item:
  assumes "lookup t i = Some x" "f x = Inr y" "ti_id y = i"
  shows "lookup (fst (edit_item i f t)) i = Some y"
proof (cases rule: first_match [of "tl_items t" "\<lambda>x. ti_id x = i"])
  case 1
  with assms(1) show ?thesis by (auto simp: lookup_def find_Some_iff)
next
  case (2 pre z post)
  have none: "find (\<lambda>x. ti_id x = i) pre = None" using 2(2) by (simp add: find_None_iff)
  with assms(1) 2 have z: "z = x" by (simp add: lookup_def find_append)
  have "update_first (\<lambda>x. ti_id x = i) f (tl_items t) = Some (Inr (pre @ y # post))"
    using update_first_at [OF 2(2,3), of f post] 2(1) z assms(2) by simp
  then show ?thesis using none assms(3) by (simp add: edit_item_def edit_where_def notify_def lookup_def find_append)
qed

lemma lookup_edited:
  assumes "edited P R t t'" "\<And>x y. R x y \<Longrightarrow> ti_id y = ti_id x" "lookup t i = Some x"
  obtains x' where "lookup t' i = Some x'" "x' = x \<or> R x x'"
proof -
  obtain pre z post y where s: "tl_items t = pre @ z # post" "R z y" "tl_items t' = pre @ y # post"
    using assms(1) unfolding edited_def by blast
  have y: "ti_id y = ti_id z" by (rule assms(2) [OF s(2)])
  have "\<exists>x'. lookup t' i = Some x' \<and> (x' = x \<or> R x x')"
    using assms(3) s y unfolding lookup_def by (auto simp: find_append split: option.splits if_splits)
  with that show thesis by blast
qed

lemma lookup_gently:
  assumes "gently R t t'" "\<And>x y. R x y \<Longrightarrow> ti_id y = ti_id x" "lookup t i = Some x"
  obtains x' where "lookup t' i = Some x'" "x' = x \<or> R x x'"
proof -
  have "tl_items t' = tl_items t \<or> (\<exists>P. edited P R t t')" using assms(1) by (simp add: gently_def)
  then show thesis
  proof
    assume "tl_items t' = tl_items t"
    with assms(3) show thesis by (intro that [of x]) (simp_all add: lookup_def)
  next
    assume "\<exists>P. edited P R t t'"
    then obtain P where e: "edited P R t t'" by blast
    show thesis by (rule lookup_edited [OF e assms(2,3)]) (use that in blast)+
  qed
qed

fun op_removes :: "('c, 'r) todo_op \<Rightarrow> string \<Rightarrow> bool" where
  "op_removes (DeleteOp ids) i \<longleftrightarrow> i \<in> set ids"
| "op_removes _ i \<longleftrightarrow> False"

lemma add_specs_items: "\<exists>ys. tl_items (add_specs bind sps t) = tl_items t @ ys"
proof (induction sps arbitrary: t)
  case (Cons sp sps)
  from Cons [of "t\<lparr>tl_next := tl_next t + 1, tl_items := tl_items t @ [todoItemFromSpec bind sp (dec (tl_next t + 1))]\<rparr>"]
  show ?case by auto
qed simp

lemma find_filter: "find P (filter Q xs) = find (\<lambda>x. Q x \<and> P x) xs"
  by (induction xs) auto

lemma find_cong_id: "(\<And>x. ti_id x = i \<Longrightarrow> Q x) \<Longrightarrow> find (\<lambda>x. Q x \<and> ti_id x = i) xs = find (\<lambda>x. ti_id x = i) xs"
  by (induction xs) auto

lemma lookup_delete: "i \<notin> set ids \<Longrightarrow> lookup (DeleteIDs ids t) i = lookup t i"
  by (auto simp: DeleteIDs_def Let_def lookup_def notify_def find_filter intro!: find_cong_id)

lemma lookup_creates:
  assumes "op_creates op" "\<not> op_removes op i" "lookup t i = Some x"
  shows "lookup (fst (todo_apply bind mac sys op t)) i = Some x"
proof (cases op)
  case (AddOp sps)
  obtain ys where "tl_items (add_specs bind sps t) = tl_items t @ ys" using add_specs_items by blast
  with AddOp assms(3) show ?thesis by (simp add: AddBatch_def notify_def lookup_def find_append)
next
  case (DeleteOp ids)
  with assms(2,3) show ?thesis by (simp add: lookup_delete)
qed (use assms(1) in simp_all)

section \<open>Finished tasks\<close>

text \<open>The way of a task's status and timestamps through operations that neither reset nor remove it.\<close>

definition progressed :: "('c, 'r) todo_item \<Rightarrow> ('c, 'r) todo_item \<Rightarrow> bool" where
  "progressed x y \<longleftrightarrow> (\<lambda>a b. CanTransition a b)\<^sup>*\<^sup>* (ti_status x) (ti_status y)
     \<and> (ti_started x \<noteq> 0 \<longrightarrow> ti_started y = ti_started x) \<and> (ti_ended x \<noteq> 0 \<longrightarrow> ti_ended y = ti_ended x)
     \<and> ti_contract y = ti_contract x \<and> ti_retries y = ti_retries x"

lemma careful_progressed: "progressed x y \<Longrightarrow> careful y z \<Longrightarrow> progressed x z"
  unfolding progressed_def careful_def by (auto intro: rtranclp.rtrancl_into_rtrancl)

lemma step_progressed:
  assumes "lookup t i = Some y" "progressed x y" "op_target op \<noteq> Some i" "\<not> op_removes op i"
  obtains z where "lookup (fst (todo_apply bind mac sys op t)) i = Some z" "progressed x z"
proof (cases "op_creates op")
  case True
  show thesis by (rule that [OF lookup_creates [OF True assms(4,1)] assms(2)])
next
  case False
  have y: "ti_id y = i" by (rule find_id [OF assms(1) [unfolded lookup_def]])
  obtain z where z: "lookup (fst (todo_apply bind mac sys op t)) i = Some z" "z = y \<or> may_rewrite op y z"
    by (rule lookup_gently [OF op_gently [OF False] may_rewrite_id assms(1)])
  with y assms(2,3) have "progressed x z" by (auto simp: may_rewrite_def intro: careful_progressed)
  with z(1) show thesis by (rule that)
qed

lemma run_progressed:
  "lookup t i = Some y \<Longrightarrow> progressed x y \<Longrightarrow> \<forall>op\<in>set ops. op_target op \<noteq> Some i \<and> \<not> op_removes op i \<Longrightarrow>
   \<exists>z. lookup (todo_run bind mac sys ops t) i = Some z \<and> progressed x z"
proof (induction ops arbitrary: t y)
  case (Cons op ops)
  obtain z where "lookup (fst (todo_apply bind mac sys op t)) i = Some z" "progressed x z"
    using step_progressed [OF Cons.prems(1,2), of op bind mac sys] Cons.prems(3) by auto
  with Cons.IH [of "fst (todo_apply bind mac sys op t)" z] Cons.prems(3) show ?case
    by (simp add: todo_run_def)
qed (simp add: todo_run_def)

lemma final_stays: "(\<lambda>a b. CanTransition a b)\<^sup>*\<^sup>* a b \<Longrightarrow> status_successors a = [] \<Longrightarrow> b = a"
  by (induction rule: rtranclp_induct) (auto simp: CanTransition_def)

text \<open>What a reset or a projection of the task itself does to it.\<close>

fun restarted :: "('c, 'r) todo_op \<Rightarrow> ('c, 'r) todo_item \<Rightarrow> ('c, 'r) todo_item \<Rightarrow> bool" where
  "restarted (RetryOp i d) x y \<longleftrightarrow>
     ti_status y = TaskPending \<and> ti_started y = 0 \<and> ti_ended y = 0 \<and> ti_output y = [] \<and> ti_verify y = None \<and>
     ti_retries y = i64 (ti_retries x + 1) \<and> ti_contract y = ti_contract x \<and> ti_resolution y = ti_resolution x"
| "restarted (ProjectOp (Some p)) x y \<longleftrightarrow> y = (if ti_id p = [] then x else p)"
| "restarted op x y \<longleftrightarrow> False"

lemma step_restarted:
  assumes "lookup t i = Some x" "op_target op = Some i"
  shows "\<exists>y. lookup (fst (todo_apply bind mac sys op t)) i = Some y \<and> restarted op x y"
proof -
  have x: "ti_id x = i" by (rule find_id [OF assms(1) [unfolded lookup_def]])
  show ?thesis
  proof (cases op)
    case (RetryOp j d)
    with assms(2) have "j = i" by simp
    have "\<exists>y. lookup (ResetForRetry i d t) i = Some y \<and> restarted (RetryOp i d) x y"
      unfolding ResetForRetry_def by (rule exI, rule conjI, rule lookup_edit_item [OF assms(1) refl]) (use x in simp_all)
    with \<open>j = i\<close> show ?thesis by (simp add: RetryOp)
  next
    case (ProjectOp q)
    with assms(2) obtain p where p: "q = Some p" "ti_id p = i" by auto
    show ?thesis
    proof (cases "i = []")
      case True
      with p assms(1) show ?thesis by (simp add: ProjectOp TryApplyProjectedItem_def)
    next
      case False
      with p lookup_edit_item [OF assms(1), of "\<lambda>_. Inr p" p] show ?thesis
        by (simp add: ProjectOp TryApplyProjectedItem_def)
    qed
  qed (use assms(2) in simp_all)
qed

lemma run_app: "todo_run bind mac sys (ops @ ops') t = todo_run bind mac sys ops' (todo_run bind mac sys ops t)"
  by (simp add: todo_run_def)

lemma stays_there:
  "lookup t i = Some x \<Longrightarrow> \<forall>op\<in>set ops. \<not> op_removes op i \<Longrightarrow> \<exists>y. lookup (todo_run bind mac sys ops t) i = Some y"
proof (induction ops arbitrary: t x)
  case (Cons op ops)
  let ?t = "fst (todo_apply bind mac sys op t)"
  have "\<exists>y. lookup ?t i = Some y"
  proof (cases "op_target op = Some i")
    case True
    from step_restarted [OF Cons.prems(1) this] show ?thesis by blast
  next
    case False
    have "progressed x x" by (simp add: progressed_def)
    then show ?thesis using step_progressed [OF Cons.prems(1) _ False, of x bind mac sys] Cons.prems(2) by auto
  qed
  then obtain y where "lookup ?t i = Some y" by blast
  from Cons.IH [OF this] Cons.prems(2) show ?case by (simp add: todo_run_def)
qed (simp add: todo_run_def)

text \<open>
  C22. A task's history is made of stretches of the status relation, and only a retry reset or a projection of the task itself starts a
  new one. Let any operations run that do not delete the task. It is still there at the end. Over any stretch of them without
  a reset and without a projection of this task, its status moves along \<open>CanTransition\<close>, its
  start and end times are written once, its contract and retry count stay, and if it was done or skipped it stays so. A reset
  makes it pending whatever it was, clears times, output and verification, counts one retry and keeps contract and resolution;
  a projection replaces it by the projected item.
\<close>

theorem task_history:
  assumes "lookup t i = Some x" "\<forall>op\<in>set ops. \<not> op_removes op i"
  shows "(\<exists>y. lookup (todo_run bind mac sys ops t) i = Some y) \<and>
     (\<forall>pre mid post. ops = pre @ mid @ post \<longrightarrow> (\<forall>op\<in>set mid. op_target op \<noteq> Some i) \<longrightarrow>
        (\<exists>u v. lookup (todo_run bind mac sys pre t) i = Some u \<and> lookup (todo_run bind mac sys (pre @ mid) t) i = Some v \<and>
           (\<lambda>a b. CanTransition a b)\<^sup>*\<^sup>* (ti_status u) (ti_status v) \<and>
           (ti_started u \<noteq> 0 \<longrightarrow> ti_started v = ti_started u) \<and> (ti_ended u \<noteq> 0 \<longrightarrow> ti_ended v = ti_ended u) \<and>
           ti_contract v = ti_contract u \<and> ti_retries v = ti_retries u \<and>
           (ti_status u \<in> {TaskDone, TaskSkipped} \<longrightarrow> ti_status v = ti_status u))) \<and>
     (\<forall>pre op post. ops = pre @ op # post \<longrightarrow> op_target op = Some i \<longrightarrow>
        (\<exists>u v. lookup (todo_run bind mac sys pre t) i = Some u \<and> lookup (todo_run bind mac sys (pre @ [op]) t) i = Some v \<and>
           restarted op u v))"
proof (intro conjI allI impI)
  show "\<exists>y. lookup (todo_run bind mac sys ops t) i = Some y" by (rule stays_there [OF assms])
next
  fix pre mid post assume ops: "ops = pre @ mid @ post" "\<forall>op\<in>set mid. op_target op \<noteq> Some i"
  then obtain u where u: "lookup (todo_run bind mac sys pre t) i = Some u"
    using stays_there [OF assms(1), of pre bind mac sys] assms(2) by auto
  have "progressed u u" by (simp add: progressed_def)
  from run_progressed [OF u this, of mid bind mac sys] ops assms(2) obtain v
    where v: "lookup (todo_run bind mac sys (pre @ mid) t) i = Some v" "progressed u v" by (auto simp: run_app)
  moreover have "ti_status u \<in> {TaskDone, TaskSkipped} \<longrightarrow> ti_status v = ti_status u"
    using v(2) final_stays [of "ti_status u" "ti_status v"] by (auto simp: progressed_def)
  ultimately show "\<exists>u v. lookup (todo_run bind mac sys pre t) i = Some u \<and>
      lookup (todo_run bind mac sys (pre @ mid) t) i = Some v \<and>
      (\<lambda>a b. CanTransition a b)\<^sup>*\<^sup>* (ti_status u) (ti_status v) \<and>
      (ti_started u \<noteq> 0 \<longrightarrow> ti_started v = ti_started u) \<and> (ti_ended u \<noteq> 0 \<longrightarrow> ti_ended v = ti_ended u) \<and>
      ti_contract v = ti_contract u \<and> ti_retries v = ti_retries u \<and>
      (ti_status u \<in> {TaskDone, TaskSkipped} \<longrightarrow> ti_status v = ti_status u)"
    using u unfolding progressed_def by blast
next
  fix pre op post assume ops: "ops = pre @ op # post" "op_target op = Some i"
  then obtain u where u: "lookup (todo_run bind mac sys pre t) i = Some u"
    using stays_there [OF assms(1), of pre bind mac sys] assms(2) by auto
  from step_restarted [OF u ops(2), of bind mac sys] u
  show "\<exists>u v. lookup (todo_run bind mac sys pre t) i = Some u \<and>
      lookup (todo_run bind mac sys (pre @ [op]) t) i = Some v \<and> restarted op u v"
    by (simp add: run_app) (simp add: todo_run_def)
qed

section \<open>Ids\<close>

text \<open>
  The states a list can reach, with the ids reserved and not yet added: the operations, the two
  halves of an event-first creation, and restoring the items of an earlier list of this kind.
\<close>

inductive todo_reach ::
  "('c todo_spec \<Rightarrow> 'r option \<times> 'r option) \<Rightarrow> mac \<Rightarrow> string option \<Rightarrow> ('c, 'r) todo_list \<Rightarrow> nat set \<Rightarrow> bool"
  for bind mac sys where
  empty: "todo_reach bind mac sys emptyTodoList {}"
| step: "todo_reach bind mac sys t out \<Longrightarrow> todo_reach bind mac sys (fst (todo_apply bind mac sys op t)) out"
| reserve: "todo_reach bind mac sys t out \<Longrightarrow>
    todo_reach bind mac sys (fst (ReserveIDs n t)) (out \<union> {tl_next t + 1..tl_next t + n})"
| add: "todo_reach bind mac sys t out \<Longrightarrow> distinct ks \<Longrightarrow> set ks \<subseteq> out \<Longrightarrow> map ti_id xs = map dec ks \<Longrightarrow>
    todo_reach bind mac sys (AddReserved xs t) (out - set ks)"
| clear: "todo_reach bind mac sys t out \<Longrightarrow> todo_reach bind mac sys (Clear t) {}"
| restore: "todo_reach bind mac sys t out \<Longrightarrow> todo_reach bind mac sys u out' \<Longrightarrow>
    tl_next u \<le> 9223372036854775807 \<Longrightarrow> todo_reach bind mac sys (Restore (tl_items u) t) {}"
| cycle: "todo_reach bind mac sys t out \<Longrightarrow> todo_reach bind mac sys u out' \<Longrightarrow>
    tl_next u \<le> 9223372036854775807 \<Longrightarrow> todo_reach bind mac sys (restoreWorkflowCycle (tl_items u) floor t) {}"

definition ids_ok :: "('c, 'r) todo_list \<Rightarrow> nat set \<Rightarrow> bool" where
  "ids_ok t out \<longleftrightarrow>
     (\<exists>ks. map ti_id (tl_items t) = map dec ks \<and> distinct ks \<and> set ks \<inter> out = {} \<and>
        set ks \<union> out \<subseteq> {1..tl_next t})"

lemma dec_inj: "dec a = dec b \<longleftrightarrow> a = b"
  by (metis dec_val_dec)

lemma gently_ids: "gently R t t' \<Longrightarrow> (\<And>x y. R x y \<Longrightarrow> ti_id y = ti_id x) \<Longrightarrow>
    map ti_id (tl_items t') = map ti_id (tl_items t)"
  unfolding gently_def edited_def by auto

lemma add_specs_ids:
  "ids_ok t out \<Longrightarrow> ids_ok (add_specs bind sps t) out"
proof (induction sps arbitrary: t)
  case (Cons sp sps)
  let ?t = "t\<lparr>tl_next := tl_next t + 1, tl_items := tl_items t @ [todoItemFromSpec bind sp (dec (tl_next t + 1))]\<rparr>"
  obtain ks where ks: "map ti_id (tl_items t) = map dec ks" "distinct ks" "set ks \<inter> out = {}"
    "set ks \<union> out \<subseteq> {1..tl_next t}" using Cons.prems by (auto simp: ids_ok_def)
  then have "tl_next t + 1 \<notin> set ks \<union> out" by auto
  with ks have "map ti_id (tl_items ?t) = map dec (ks @ [tl_next t + 1])" "distinct (ks @ [tl_next t + 1])"
    "set (ks @ [tl_next t + 1]) \<inter> out = {}" "set (ks @ [tl_next t + 1]) \<union> out \<subseteq> {1..tl_next ?t}"
    by (auto simp: todoItemFromSpec_def)
  then have "ids_ok ?t out" unfolding ids_ok_def by blast
  then show ?case using Cons.IH by simp
qed simp

lemma ids_filter: "ids_ok t out \<Longrightarrow> tl_items t' = filter P (tl_items t) \<Longrightarrow> tl_next t' = tl_next t \<Longrightarrow> ids_ok t' out"
proof -
  assume ok: "ids_ok t out" and t': "tl_items t' = filter P (tl_items t)" "tl_next t' = tl_next t"
  obtain ks where ks: "map ti_id (tl_items t) = map dec ks" "distinct ks" "set ks \<inter> out = {}"
    "set ks \<union> out \<subseteq> {1..tl_next t}" using ok by (auto simp: ids_ok_def)
  have "\<exists>ls. map ti_id (filter P xs) = map dec ls \<and> distinct ls \<and> set ls \<subseteq> set ks"
    if "map ti_id xs = map dec ks" "distinct ks" for xs ks
    using that
  proof (induction xs arbitrary: ks)
    case (Cons x xs)
    then obtain k js where k: "ks = k # js" "ti_id x = dec k" "map ti_id xs = map dec js" "distinct js" "k \<notin> set js"
      by (cases ks) auto
    obtain ls where ls: "map ti_id (filter P xs) = map dec ls" "distinct ls" "set ls \<subseteq> set js"
      using Cons.IH [OF k(3,4)] by blast
    show ?case
    proof (cases "P x")
      case True
      with ls k have "map ti_id (filter P (x # xs)) = map dec (k # ls)" "distinct (k # ls)" "set (k # ls) \<subseteq> set ks" by auto
      then show ?thesis by blast
    next
      case False
      with ls k have "map ti_id (filter P (x # xs)) = map dec ls" "set ls \<subseteq> set ks" by auto
      with ls(2) show ?thesis by blast
    qed
  qed simp
  from this [OF ks(1,2)] obtain ls where "map ti_id (filter P (tl_items t)) = map dec ls" "distinct ls" "set ls \<subseteq> set ks"
    by blast
  with ks(3,4) t' show ?thesis unfolding ids_ok_def by (intro exI [of _ ls]) auto
qed

lemma ids_same: "ids_ok t out \<Longrightarrow> map ti_id (tl_items t') = map ti_id (tl_items t) \<Longrightarrow> tl_next t' = tl_next t \<Longrightarrow>
    ids_ok t' out"
  by (simp add: ids_ok_def)

lemma ids_step:
  assumes "ids_ok t out"
  shows "ids_ok (fst (todo_apply bind mac sys op t)) out"
proof (cases "op_creates op")
  case True
  then show ?thesis
  proof (cases op)
    case (AddOp sps)
    show ?thesis
      by (rule ids_same [OF add_specs_ids [OF assms, of bind sps]]) (simp_all add: AddOp AddBatch_def notify_def)
  next
    case (DeleteOp ids)
    show ?thesis
      by (rule ids_filter [OF assms, of _ "\<lambda>x. filter (\<lambda>i. i \<noteq> []) ids = [] \<or> ti_id x \<notin> set (filter (\<lambda>i. i \<noteq> []) ids)"])
         (simp_all add: DeleteOp DeleteIDs_def Let_def notify_def)
  qed simp_all
next
  case False
  note g = op_gently [OF False, of t bind mac sys]
  have "tl_next (fst (todo_apply bind mac sys op t)) = tl_next t" using g unfolding gently_def by blast
  moreover have "map ti_id (tl_items (fst (todo_apply bind mac sys op t))) = map ti_id (tl_items t)"
    by (rule gently_ids [OF g]) (rule may_rewrite_id)
  ultimately show ?thesis by (intro ids_same [OF assms])
qed

text \<open>Restoring reads the numbers back from the ids, so no id is handed out twice.\<close>

lemma digit_not_space: "is_digit c \<Longrightarrow> leading_space space_encodings (c # cs) = None"
  by (auto simp: leading_space_def ascii_spaces_def is_digit_def)

lemma digit_char_of: "is_digit c \<Longrightarrow> \<exists>d < 10. c = digit_char d"
  using digit_val_char digit_val_less by metis

lemma scan_digits:
  assumes "s \<noteq> []" "list_all is_digit s" "dec_val s \<le> 9223372036854775807"
  shows "scan_decimal s = Some (int (dec_val s))"
proof -
  obtain c cs where s: "s = c # cs" using assms(1) by (cases s) auto
  have c: "is_digit c" using assms(2) s by simp
  then have ne: "c \<noteq> CHR 0x0D" "c \<noteq> CHR 0x0A" "c \<noteq> CHR ''-''" "c \<noteq> CHR ''+''"
    by (auto simp: is_digit_def)
  have skip: "skip_space s = Some s"
    using ne digit_not_space [OF c] by (subst skip_space.simps) (simp add: s)
  have tw: "takeWhile is_digit cs = cs" using assms(2) by (simp add: s list_all_iff takeWhile_eq_all_conv)
  show ?thesis using assms(3) c ne skip by (simp add: scan_decimal_def s Let_def tw)
qed

lemma scan_dec: "k \<le> 9223372036854775807 \<Longrightarrow> scan_decimal (dec k) = Some (int k)"
  using scan_digits [of "dec k"] dec_digits by simp

lemma max_id_bounds:
  "map ti_id xs = map dec ks \<Longrightarrow> \<forall>k\<in>set ks. k \<le> 9223372036854775807 \<Longrightarrow>
   start \<le> max_id start xs \<and> (\<forall>k\<in>set ks. int k \<le> max_id start xs)"
proof (induction xs arbitrary: ks start)
  case (Cons x xs)
  then obtain k js where k: "ks = k # js" "ti_id x = dec k" "map ti_id xs = map dec js" by (cases ks) auto
  let ?s = "if start < int k then int k else start"
  have "max_id start (x # xs) = max_id ?s xs" using Cons.prems(2) k by (simp add: max_id_def scan_dec)
  with Cons.IH [OF k(3), of ?s] Cons.prems(2) k(1) show ?case by (auto split: if_splits)
qed (simp add: max_id_def)

lemma restored_ids:
  assumes "ids_ok u out" "tl_next u \<le> 9223372036854775807" "0 \<le> start"
  shows "ids_ok (t\<lparr>tl_items := tl_items u, tl_next := nat (max_id start (tl_items u))\<rparr>) {}"
proof -
  obtain ks where ks: "map ti_id (tl_items u) = map dec ks" "distinct ks" "set ks \<subseteq> {1..tl_next u}"
    using assms(1) by (auto simp: ids_ok_def)
  have "\<forall>k\<in>set ks. k \<le> 9223372036854775807" using ks(3) assms(2) by fastforce
  note b = max_id_bounds [OF ks(1) this, of start]
  have "k \<in> {1..nat (max_id start (tl_items u))}" if "k \<in> set ks" for k
    using that ks(3) b assms(3) by (auto simp: le_nat_iff)
  with ks show ?thesis unfolding ids_ok_def by (intro exI [of _ ks]) auto
qed

lemma reach_ids: "todo_reach bind mac sys t out \<Longrightarrow> ids_ok t out"
proof (induction rule: todo_reach.induct)
  case empty
  show ?case by (simp add: ids_ok_def emptyTodoList_def)
next
  case (step t out op)
  then show ?case by (blast intro: ids_step)
next
  case (reserve t out n)
  obtain ks where "map ti_id (tl_items t) = map dec ks" "distinct ks" "set ks \<inter> out = {}"
    "set ks \<union> out \<subseteq> {1..tl_next t}" using reserve.IH by (auto simp: ids_ok_def)
  then show ?case unfolding ids_ok_def by (intro exI [of _ ks]) (auto simp: ReserveIDs_def)
next
  case (add t out ks xs)
  obtain js where "map ti_id (tl_items t) = map dec js" "distinct js" "set js \<inter> out = {}"
    "set js \<union> out \<subseteq> {1..tl_next t}" using add.IH by (auto simp: ids_ok_def)
  with add.hyps(2-4) show ?case
    unfolding ids_ok_def by (intro exI [of _ "js @ ks"]) (auto simp: AddReserved_def notify_def)
next
  case (clear t out)
  show ?case by (simp add: ids_ok_def Clear_def notify_def)
next
  case (restore t out u out')
  from restored_ids [OF restore.IH(2) restore.hyps(3), of 0 t] show ?case
    by (simp add: Restore_def notify_def ids_ok_def)
next
  case (cycle t out u out' floor)
  from restored_ids [OF cycle.IH(2) cycle.hyps(3), of "int floor" t] show ?case
    by (simp add: restoreWorkflowCycle_def)
qed

text \<open>
  Ids are unambiguous. In every state a list reaches, through any operations, reservations and
  restores, no two items share an id, every id is the decimal form of a number the counter has
  passed, and no id reserved for later is in use; so an operation on an id concerns one task, and
  the next id handed out is new.
\<close>

theorem todo_ids_unique:
  assumes "todo_reach bind mac sys t out"
  shows "distinct (map ti_id (tl_items t)) \<and>
    (\<forall>x\<in>set (tl_items t). \<exists>k\<in>{1..tl_next t} - out. ti_id x = dec k) \<and> out \<subseteq> {1..tl_next t}"
proof -
  obtain ks where ks: "map ti_id (tl_items t) = map dec ks" "distinct ks" "set ks \<inter> out = {}"
    "set ks \<union> out \<subseteq> {1..tl_next t}" using reach_ids [OF assms] by (auto simp: ids_ok_def)
  have "distinct (map ti_id (tl_items t))" using ks(2) by (simp add: ks(1) distinct_map inj_on_def dec_inj)
  moreover have "\<exists>k\<in>{1..tl_next t} - out. ti_id x = dec k" if "x \<in> set (tl_items t)" for x
  proof -
    have "ti_id x \<in> set (map dec ks)" using that ks(1) by (metis image_eqI image_set)
    with ks(3,4) show ?thesis by auto
  qed
  ultimately show ?thesis using ks(4) by blast
qed

section \<open>Leases\<close>

text \<open>
  Who may put a result on a task. A worker reports under its dispatch; \<open>SetTypedResult\<close> is the coordinator's own way to seed or clear a
  result; a projection installs what a committed event says. A new lease, a seeded result and a
  projection each settle what the task shows from then on.
\<close>

fun settles :: "('c, 'r) todo_op \<Rightarrow> string \<Rightarrow> bool" where
  "settles (LeaseOp j n d) i \<longleftrightarrow> j = i"
| "settles (TypedOp j r) i \<longleftrightarrow> j = i"
| "settles (ProjectOp p) i \<longleftrightarrow> i \<noteq> [] \<and> map_option ti_id p = Some i"
| "settles op i \<longleftrightarrow> False"

fun puts ::
  "mac \<Rightarrow> string option \<Rightarrow> ('c, 'r) todo_list \<Rightarrow> ('c, 'r) todo_op \<Rightarrow> string \<Rightarrow> 'r typed_result \<Rightarrow> bool" where
  "puts mac sys t (ResultOp j n d q) i r \<longleftrightarrow> j = i \<and> q = Some r \<and>
     (\<exists>z. lookup t i = Some z \<and> ti_revision z = n \<and> ti_dispatch z = d)"
| "puts mac sys t (TypedOp j q) i r \<longleftrightarrow> j = i \<and>
     (\<exists>p. q = Some p \<and> r = p\<lparr>tr_evidence := map (clean_evidence mac sys i (tl_run t)) (tr_evidence p)\<rparr>)"
| "puts mac sys t (ProjectOp p) i r \<longleftrightarrow> (\<exists>y. p = Some y \<and> ti_id y = i \<and> ti_typed y = Some r)"
| "puts mac sys t op i r \<longleftrightarrow> False"

definition same_lease :: "('c, 'r) todo_item \<Rightarrow> ('c, 'r) todo_item \<Rightarrow> bool" where
  "same_lease x y \<longleftrightarrow> ti_revision y = ti_revision x \<and> ti_dispatch y = ti_dispatch x"

text \<open>What any other operation may do: nothing to lease and result, or report under the lease.\<close>

definition keeps_lease :: "('c, 'r) todo_op \<Rightarrow> ('c, 'r) todo_item \<Rightarrow> ('c, 'r) todo_item \<Rightarrow> bool" where
  "keeps_lease op x y \<longleftrightarrow> ti_id y = ti_id x \<and>
     (\<not> settles op (ti_id x) \<longrightarrow> same_lease x y \<and>
        (ti_typed y = ti_typed x \<or> op = ResultOp (ti_id x) (ti_revision x) (ti_dispatch x) (ti_typed y)))"

lemma keeps_lease_id: "keeps_lease op x y \<Longrightarrow> ti_id y = ti_id x"
  by (simp add: keeps_lease_def)

lemma keeps_same:
  "ti_id y = ti_id x \<Longrightarrow> ti_typed y = ti_typed x \<Longrightarrow> ti_revision y = ti_revision x \<Longrightarrow> ti_dispatch y = ti_dispatch x \<Longrightarrow>
   keeps_lease op x y"
  by (simp add: keeps_lease_def same_lease_def)

lemma note_lease [simp]:
  "ti_typed (note_detail d x) = ti_typed x" "ti_revision (note_detail d x) = ti_revision x"
  "ti_dispatch (note_detail d x) = ti_dispatch x"
  "ti_typed (note_output d x) = ti_typed x" "ti_revision (note_output d x) = ti_revision x"
  "ti_dispatch (note_output d x) = ti_dispatch x"
  "ti_typed (attach_failure e x) = ti_typed x" "ti_revision (attach_failure e x) = ti_revision x"
  "ti_dispatch (attach_failure e x) = ti_dispatch x"
  "ti_id (stamp_times now st x) = ti_id x" "ti_typed (stamp_times now st x) = ti_typed x"
  "ti_revision (stamp_times now st x) = ti_revision x" "ti_dispatch (stamp_times now st x) = ti_dispatch x"
  by (simp_all add: note_detail_def note_output_def attach_failure_def stamp_times_def split: option.split)

lemma op_lease: "\<not> op_creates op \<Longrightarrow> gently (keeps_lease op) t (fst (todo_apply bind mac sys op t))"
proof (cases op)
  case (StatusOp now i st d out)
  then show ?thesis
    by (auto simp: TryUpdateStatusAndOutput_def intro!: gently_item keeps_same split: if_splits)
next
  case (FailOp now i st d out ev)
  then show ?thesis
    by (auto simp: TryUpdateStatusAndFailure_def intro!: gently_item keeps_same split: if_splits)
next
  case (FailureOp i ev out)
  let ?r = "edit_item i (\<lambda>x. Inr (note_output out (attach_failure ev (x\<lparr>ti_failure := ev\<rparr>)))) t"
  have "gently (keeps_lease op) t (fst ?r)" by (rule gently_item) (auto intro!: keeps_same)
  moreover obtain t' r where "?r = (t', r)" by fastforce
  ultimately show ?thesis
    using FailureOp by (auto simp: SetFailureEventAndOutput_def Let_def intro: gently_counter split: option.split)
next
  case (RetryOp i d)
  then show ?thesis by (auto simp: ResetForRetry_def intro!: gently_item keeps_same)
next
  case (ProjectOp p)
  then show ?thesis
    by (auto simp: TryApplyProjectedItem_def keeps_lease_def intro!: gently_item split: option.split)
next
  case (TypedOp i r)
  then show ?thesis by (auto simp: SetTypedResult_def keeps_lease_def intro!: gently_item)
next
  case (LeaseOp i n d)
  then show ?thesis by (auto simp: TrySetDispatchLease_def keeps_lease_def intro!: gently_item)
next
  case (ResultOp i n d r)
  then show ?thesis
    by (auto simp: TrySetTypedResultForDispatch_def keeps_lease_def same_lease_def intro!: gently_item split: if_splits)
next
  case (ActionOp i v)
  then show ?thesis by (auto simp: SetActionProgress_def intro!: gently_where keeps_same)
qed (auto simp: todo_setters todo_silent intro!: gently_item gently_silent keeps_same split: if_splits)

lemma step_settled:
  assumes "lookup t i = Some x" "settles op i"
  shows "\<exists>y. lookup (fst (todo_apply bind mac sys op t)) i = Some y \<and> (\<forall>r. ti_typed y = Some r \<longrightarrow> puts mac sys t op i r)"
proof -
  have x: "ti_id x = i" by (rule find_id [OF assms(1) [unfolded lookup_def]])
  note edit = lookup_edit_item [OF assms(1) refl]
  show ?thesis
  proof (cases op)
    case (LeaseOp j n d)
    with assms(2) edit [of "\<lambda>x. x\<lparr>ti_revision := n, ti_dispatch := d, ti_typed := None\<rparr>"] x show ?thesis
      by (simp add: TrySetDispatchLease_def)
  next
    case (TypedOp j r)
    with assms(2) edit [of "\<lambda>x. x\<lparr>ti_typed := map_option
       (\<lambda>r. r\<lparr>tr_evidence := map (clean_evidence mac sys i (tl_run t)) (tr_evidence r)\<rparr>) r\<rparr>"] x show ?thesis
      by (auto simp: SetTypedResult_def)
  next
    case (ProjectOp p)
    with assms(2) edit [of "\<lambda>_. the p"] show ?thesis by (auto simp: TryApplyProjectedItem_def)
  qed (use assms(2) in simp_all)
qed

lemma step_lease:
  assumes "lookup t i = Some x" "\<not> settles op i" "\<not> op_removes op i"
  shows "\<exists>y. lookup (fst (todo_apply bind mac sys op t)) i = Some y \<and> same_lease x y \<and>
    (ti_typed y = ti_typed x \<or> (\<forall>r. ti_typed y = Some r \<longrightarrow> puts mac sys t op i r))"
proof (cases "op_creates op")
  case True
  from lookup_creates [OF this assms(3,1)] show ?thesis by (auto simp: same_lease_def)
next
  case False
  have x: "ti_id x = i" by (rule find_id [OF assms(1) [unfolded lookup_def]])
  obtain y where y: "lookup (fst (todo_apply bind mac sys op t)) i = Some y" "y = x \<or> keeps_lease op x y"
    by (rule lookup_gently [OF op_lease [OF False] keeps_lease_id assms(1)])
  then show ?thesis using assms(1,2) x by (auto simp: keeps_lease_def same_lease_def)
qed

lemma result_history:
  assumes "lookup t i = Some x" "ti_typed x = None" "\<forall>op\<in>set ops. \<not> op_removes op i"
  shows "\<exists>y. lookup (todo_run bind mac sys ops t) i = Some y \<and> (\<forall>r. ti_typed y = Some r \<longrightarrow>
     (\<exists>pre op post. ops = pre @ op # post \<and> puts mac sys (todo_run bind mac sys pre t) op i r \<and>
        (\<forall>op\<in>set post. \<not> settles op i) \<and>
        (\<forall>n d. op = ResultOp i n d (Some r) \<longrightarrow> ti_revision y = n \<and> ti_dispatch y = d)))"
  using assms(3)
proof (induction ops rule: rev_induct)
  case (snoc op ops)
  let ?u = "todo_run bind mac sys ops t"
  obtain y where y: "lookup ?u i = Some y" "\<And>r. ti_typed y = Some r \<Longrightarrow>
     \<exists>pre op post. ops = pre @ op # post \<and> puts mac sys (todo_run bind mac sys pre t) op i r \<and>
        (\<forall>op\<in>set post. \<not> settles op i) \<and>
        (\<forall>n d. op = ResultOp i n d (Some r) \<longrightarrow> ti_revision y = n \<and> ti_dispatch y = d)"
    using snoc by auto
  have run: "todo_run bind mac sys (ops @ [op]) t = fst (todo_apply bind mac sys op ?u)" by (simp add: todo_run_def)
  show ?case
  proof (cases "settles op i")
    case True
    obtain z where z: "lookup (fst (todo_apply bind mac sys op ?u)) i = Some z"
      "\<forall>r. ti_typed z = Some r \<longrightarrow> puts mac sys ?u op i r" using step_settled [OF y(1) True] by blast
    have "\<forall>n d r. op \<noteq> ResultOp i n d r" using True by auto
    with z show ?thesis unfolding run by (intro exI [of _ z] conjI allI impI exI [of _ ops] exI [of _ op] exI [of _ "[]"]) auto
  next
    case False
    obtain z where z: "lookup (fst (todo_apply bind mac sys op ?u)) i = Some z" "same_lease y z"
      "ti_typed z = ti_typed y \<or> (\<forall>r. ti_typed z = Some r \<longrightarrow> puts mac sys ?u op i r)"
      using step_lease [OF y(1) False, of bind mac sys] snoc.prems by auto
    have "\<exists>pre op' post. ops @ [op] = pre @ op' # post \<and> puts mac sys (todo_run bind mac sys pre t) op' i r \<and>
        (\<forall>op\<in>set post. \<not> settles op i) \<and>
        (\<forall>n d. op' = ResultOp i n d (Some r) \<longrightarrow> ti_revision z = n \<and> ti_dispatch z = d)"
      if r: "ti_typed z = Some r" for r
    proof (cases "ti_typed z = ti_typed y")
      case True
      with r y(2) [of r] obtain pre op' post where h: "ops = pre @ op' # post"
        "puts mac sys (todo_run bind mac sys pre t) op' i r" "\<forall>op\<in>set post. \<not> settles op i"
        "\<forall>n d. op' = ResultOp i n d (Some r) \<longrightarrow> ti_revision y = n \<and> ti_dispatch y = d" by auto
      with False z(2) show ?thesis
        by (intro exI [of _ pre] exI [of _ op'] exI [of _ "post @ [op]"]) (auto simp: same_lease_def)
    next
      case False
      with z(3) r have "puts mac sys ?u op i r" by blast
      with y(1) z(2) show ?thesis
        by (intro exI [of _ ops] exI [of _ op] exI [of _ "[]"]) (auto simp: same_lease_def)
    qed
    with z(1) show ?thesis unfolding run by blast
  qed
qed (use assms(1,2) in \<open>simp add: todo_run_def\<close>)

text \<open>
  C21. A result has a legitimate source. Start with a task without a result and let any operations run that do not delete it. If the task shows a
  result at the end, one of them put it there, and after it no lease was granted for the task, no
  result seeded and no item projected over it. That operation was a report under a dispatch that held the lease when it
  reported and holds it still at the end; or the coordinator's own \<open>SetTypedResult\<close>, of that result with its evidence
  cleaned; or a projection of an item that shows the result. So a worker that was replaced can neither publish its result nor
  leave one behind.
\<close>

theorem result_from_lease_holder:
  assumes "lookup t i = Some x" "ti_typed x = None" "\<forall>op\<in>set ops. \<not> op_removes op i"
  shows "\<exists>y. lookup (todo_run bind mac sys ops t) i = Some y \<and> (\<forall>r. ti_typed y = Some r \<longrightarrow>
     (\<exists>pre op post. ops = pre @ op # post \<and> (\<forall>op\<in>set post. \<not> settles op i) \<and>
        (op = ResultOp i (ti_revision y) (ti_dispatch y) (Some r) \<and>
           (\<exists>z. lookup (todo_run bind mac sys pre t) i = Some z \<and>
              ti_revision z = ti_revision y \<and> ti_dispatch z = ti_dispatch y) \<or>
         (\<exists>p. op = TypedOp i (Some p) \<and>
            r = p\<lparr>tr_evidence := map (clean_evidence mac sys i (tl_run (todo_run bind mac sys pre t))) (tr_evidence p)\<rparr>) \<or>
         (\<exists>p. op = ProjectOp (Some p) \<and> ti_id p = i \<and> ti_typed p = Some r))))"
proof -
  obtain y where y: "lookup (todo_run bind mac sys ops t) i = Some y" "\<And>r. ti_typed y = Some r \<Longrightarrow>
     \<exists>pre op post. ops = pre @ op # post \<and> puts mac sys (todo_run bind mac sys pre t) op i r \<and>
        (\<forall>op\<in>set post. \<not> settles op i) \<and>
        (\<forall>n d. op = ResultOp i n d (Some r) \<longrightarrow> ti_revision y = n \<and> ti_dispatch y = d)"
    using result_history [OF assms, of bind mac sys] by blast
  show ?thesis
  proof (intro exI [of _ y] conjI allI impI y(1))
    fix r assume "ti_typed y = Some r"
    from y(2) [OF this] obtain pre op post where h: "ops = pre @ op # post"
      "puts mac sys (todo_run bind mac sys pre t) op i r" "\<forall>op\<in>set post. \<not> settles op i"
      "\<forall>n d. op = ResultOp i n d (Some r) \<longrightarrow> ti_revision y = n \<and> ti_dispatch y = d" by blast
    then show "\<exists>pre op post. ops = pre @ op # post \<and> (\<forall>op\<in>set post. \<not> settles op i) \<and>
        (op = ResultOp i (ti_revision y) (ti_dispatch y) (Some r) \<and>
           (\<exists>z. lookup (todo_run bind mac sys pre t) i = Some z \<and>
              ti_revision z = ti_revision y \<and> ti_dispatch z = ti_dispatch y) \<or>
         (\<exists>p. op = TypedOp i (Some p) \<and>
            r = p\<lparr>tr_evidence := map (clean_evidence mac sys i (tl_run (todo_run bind mac sys pre t))) (tr_evidence p)\<rparr>) \<or>
         (\<exists>p. op = ProjectOp (Some p) \<and> ti_id p = i \<and> ti_typed p = Some r))"
      by (intro exI [of _ pre] exI [of _ op] exI [of _ post]) (cases op; simp)
  qed
qed

section \<open>Failure fingerprints\<close>

definition seen :: "string \<Rightarrow> fingerprint list \<Rightarrow> int" where
  "seen d xs = sum_list (map (\<lambda>f. at_least_one (ff_occurrences f)) (filter (\<lambda>f. ff_digest f = d) xs))"

lemma seen_nonneg: "0 \<le> seen d xs"
  unfolding seen_def by (induction xs) (auto simp: at_least_one_def)

lemma seen_simps [simp]:
  "seen d [] = 0"
  "seen d (x # xs) = (if ff_digest x = d then at_least_one (ff_occurrences x) + seen d xs else seen d xs)"
  "seen d (xs @ ys) = seen d xs + seen d ys"
  by (simp_all add: seen_def)

definition once_each :: "fingerprint list \<Rightarrow> bool" where
  "once_each xs \<longleftrightarrow> (\<forall>d. d \<noteq> [] \<longrightarrow> length (filter (\<lambda>f. ff_digest f = d) xs) \<le> 1) \<and> (\<forall>f\<in>set xs. 1 \<le> ff_occurrences f)"

lemma i64_exact: "0 \<le> n \<Longrightarrow> n \<le> MaxInt64 \<Longrightarrow> i64 n = n"
  by (rule i64_id) (simp add: is_int64_def MinInt64_def)

lemma count_digests:
  "filter (\<lambda>g. ff_digest g = d) (count_fingerprint f xs) = [] \<longleftrightarrow>
     filter (\<lambda>g. ff_digest g = d) xs = [] \<and> ff_digest f \<noteq> d"
  by (induction f xs rule: count_fingerprint.induct) auto

lemma count_length:
  "d \<noteq> [] \<Longrightarrow> length (filter (\<lambda>g. ff_digest g = d) xs) \<le> 1 \<Longrightarrow>
   length (filter (\<lambda>g. ff_digest g = d) (count_fingerprint f xs)) \<le> 1"
  by (induction f xs rule: count_fingerprint.induct) (auto simp: count_digests split: if_splits)

lemma at_least_one_simps [simp]: "1 \<le> n \<Longrightarrow> at_least_one n = n" "1 \<le> at_least_one n"
  by (simp_all add: at_least_one_def)

lemma count_seen:
  assumes "\<forall>g\<in>set xs. 1 \<le> ff_occurrences g" "seen (ff_digest f) xs + at_least_one (ff_occurrences f) \<le> MaxInt64"
  shows "seen d (count_fingerprint f xs) = seen d xs + (if ff_digest f = d then at_least_one (ff_occurrences f) else 0)
    \<and> (\<forall>g\<in>set (count_fingerprint f xs). 1 \<le> ff_occurrences g)"
  using assms
proof (induction f xs rule: count_fingerprint.induct)
  case (2 f x xs)
  show ?case
  proof (cases "ff_digest f \<noteq> [] \<and> ff_digest x = ff_digest f")
    case True
    let ?n = "at_least_one (ff_occurrences x) + at_least_one (ff_occurrences f)"
    have "?n \<le> MaxInt64" using 2(3) True seen_nonneg [of "ff_digest f" xs] by simp
    then have "i64 ?n = ?n" by (intro i64_exact) (simp_all add: at_least_one_def)
    moreover have "1 \<le> ?n" by (simp add: at_least_one_def)
    ultimately show ?thesis using True 2(2) by auto
  next
    case False
    have "seen (ff_digest f) xs + at_least_one (ff_occurrences f) \<le> MaxInt64"
      using 2(3) by (simp add: at_least_one_def split: if_splits)
    with 2 False show ?thesis by auto
  qed
qed auto

lemma fingerprints_run:
  assumes "lookup t i = Some x" "\<forall>g\<in>set (ti_fingerprints x). 1 \<le> ff_occurrences g"
    and "\<forall>d. d \<noteq> [] \<longrightarrow> length (filter (\<lambda>g. ff_digest g = d) (ti_fingerprints x)) \<le> 1"
    and "\<forall>d. seen d (ti_fingerprints x) + seen d fs \<le> MaxInt64"
  shows "\<exists>y. lookup (fold (\<lambda>f t. fst (AppendFailureFingerprint i f t)) fs t) i = Some y \<and>
    (\<forall>g\<in>set (ti_fingerprints y). 1 \<le> ff_occurrences g) \<and>
    (\<forall>d. d \<noteq> [] \<longrightarrow> length (filter (\<lambda>g. ff_digest g = d) (ti_fingerprints y)) \<le> 1) \<and>
    (\<forall>d. seen d (ti_fingerprints y) = seen d (ti_fingerprints x) + seen d fs)"
  using assms
proof (induction fs arbitrary: t x)
  case (Cons f fs)
  let ?y = "x\<lparr>ti_fingerprints := count_fingerprint f (ti_fingerprints x)\<rparr>"
  have "ti_id x = i" by (rule find_id [OF Cons.prems(1) [unfolded lookup_def]])
  then have y: "lookup (fst (AppendFailureFingerprint i f t)) i = Some ?y"
    unfolding AppendFailureFingerprint_def by (intro lookup_edit_item [OF Cons.prems(1)]) simp_all
  have "seen (ff_digest f) (ti_fingerprints x) + at_least_one (ff_occurrences f) \<le> MaxInt64"
    using Cons.prems(4) [rule_format, of "ff_digest f"] seen_nonneg [of "ff_digest f" fs] by simp
  note c = count_seen [OF Cons.prems(2) this]
  have "seen d (ti_fingerprints ?y) + seen d fs \<le> MaxInt64" for d
    using c [of d] Cons.prems(4) [rule_format, of d] by (simp split: if_splits)
  then obtain z where z: "lookup (fold (\<lambda>f t. fst (AppendFailureFingerprint i f t)) fs (fst (AppendFailureFingerprint i f t))) i = Some z"
    "\<forall>g\<in>set (ti_fingerprints z). 1 \<le> ff_occurrences g"
    "\<forall>d. d \<noteq> [] \<longrightarrow> length (filter (\<lambda>g. ff_digest g = d) (ti_fingerprints z)) \<le> 1"
    "\<forall>d. seen d (ti_fingerprints z) = seen d (ti_fingerprints ?y) + seen d fs"
    using Cons.IH [OF y] c Cons.prems(3) count_length by (auto simp del: count_fingerprint.simps)
  moreover have "seen d (ti_fingerprints z) = seen d (ti_fingerprints x) + seen d (f # fs)" for d
    using z(4) c [of d] by simp
  ultimately show ?case by auto
qed auto

text \<open>
  Failures are counted, not listed. However a task's failures are ordered and mixed, after they have been recorded each
  non-empty digest has at most one entry, and its count is the number of occurrences recorded for it
  (a record without a count stands for one), as long as that fits an \<open>int64\<close>.
\<close>

theorem fingerprints_tally:
  assumes "lookup t i = Some x" "ti_fingerprints x = []" "\<forall>d. seen d fs \<le> MaxInt64"
  shows "\<exists>y. lookup (fold (\<lambda>f t. fst (AppendFailureFingerprint i f t)) fs t) i = Some y \<and>
    (\<forall>d. d \<noteq> [] \<longrightarrow> map ff_occurrences (filter (\<lambda>g. ff_digest g = d) (ti_fingerprints y)) =
       (if seen d fs = 0 then [] else [seen d fs]))"
proof -
  obtain y where y: "lookup (fold (\<lambda>f t. fst (AppendFailureFingerprint i f t)) fs t) i = Some y"
    "\<forall>g\<in>set (ti_fingerprints y). 1 \<le> ff_occurrences g"
    "\<forall>d. d \<noteq> [] \<longrightarrow> length (filter (\<lambda>g. ff_digest g = d) (ti_fingerprints y)) \<le> 1"
    "\<forall>d. seen d (ti_fingerprints y) = seen d fs"
    using fingerprints_run [OF assms(1), of fs] assms(2,3) by auto
  have "map ff_occurrences (filter (\<lambda>g. ff_digest g = d) (ti_fingerprints y)) =
      (if seen d fs = 0 then [] else [seen d fs])" if "d \<noteq> []" for d
  proof (cases "filter (\<lambda>g. ff_digest g = d) (ti_fingerprints y)")
    case Nil
    with y(4) [rule_format, of d] show ?thesis by (simp add: seen_def)
  next
    case (Cons g gs)
    with y(3) that have gs: "gs = []" by fastforce
    have "g \<in> set (filter (\<lambda>g. ff_digest g = d) (ti_fingerprints y))" using Cons by simp
    with y(2) have "1 \<le> ff_occurrences g" by auto
    with Cons gs y(4) [rule_format, of d] show ?thesis by (simp add: seen_def)
  qed
  with y(1) show ?thesis by blast
qed

section \<open>Instances\<close>

definition no_binding :: "unit todo_spec \<Rightarrow> string option \<times> string option" where
  "no_binding _ = (None, None)"

definition demo_spec :: "unit todo_spec" where
  "demo_spec = \<lparr>sp_contract = (), sp_plan_first = False, sp_plan_id = [], sp_source = [], sp_parent = []\<rparr>"

definition demo_item :: "(unit, string) todo_item" where
  "demo_item = todoItemFromSpec no_binding demo_spec (dec 1)"

definition demo_todo :: "(unit, string) todo_list" where
  "demo_todo = emptyTodoList\<lparr>tl_items := [demo_item\<lparr>ti_status := TaskDone, ti_ended := 7\<rparr>], tl_next := 1\<rparr>"

lemma demo_lookup: "lookup demo_todo (dec 1) = Some (demo_item\<lparr>ti_status := TaskDone, ti_ended := 7\<rparr>)"
  by (simp add: lookup_def demo_todo_def demo_item_def todoItemFromSpec_def)

theorem task_history_witness:
  "\<exists>u v w. lookup demo_todo (dec 1) = Some u \<and> ti_status u = TaskDone \<and> ti_ended u = 7 \<and>
     lookup (todo_run no_binding (\<lambda>_ s. s) None
       [AddOp [demo_spec], StatusOp 9 (dec 1) TaskError ''late'' [], DeleteOp [dec 2]] demo_todo) (dec 1) = Some v \<and>
     ti_status v = TaskDone \<and> ti_ended v = 7 \<and>
     lookup (todo_run no_binding (\<lambda>_ s. s) None
       [AddOp [demo_spec], StatusOp 9 (dec 1) TaskError ''late'' [], DeleteOp [dec 2], RetryOp (dec 1) ''again''] demo_todo) (dec 1) = Some w \<and>
     ti_status w = TaskPending \<and> ti_ended w = 0"
proof -
  let ?mid = "[AddOp [demo_spec], StatusOp 9 (dec 1) TaskError ''late'' [], DeleteOp [dec 2]] :: (unit, string) todo_op list"
  let ?ops = "?mid @ [RetryOp (dec 1) ''again'']"
  have "\<forall>op\<in>set ?ops. \<not> op_removes op (dec 1)" by (simp add: dec_inj)
  note h = task_history [OF demo_lookup this, of no_binding "\<lambda>_ s. s" None]
  have mid: "\<forall>op\<in>set ?mid. op_target op \<noteq> Some (dec 1)" by simp
  from h [THEN conjunct2, THEN conjunct1, rule_format, of "[]" ?mid "[RetryOp (dec 1) ''again'']",
      OF _ mid [rule_format]]
  obtain v where v: "lookup (todo_run no_binding (\<lambda>_ s. s) None ?mid demo_todo) (dec 1) = Some v" "ti_status v = TaskDone" "ti_ended v = 7"
    by (auto simp: todo_run_def [of _ _ _ "[]"] demo_lookup [simplified])
  from h [THEN conjunct2, THEN conjunct2, rule_format, of ?mid "RetryOp (dec 1) ''again''" "[]"]
  obtain w where w: "lookup (todo_run no_binding (\<lambda>_ s. s) None ?ops demo_todo) (dec 1) = Some w" "ti_status w = TaskPending" "ti_ended w = 0"
    by auto
  from v w show ?thesis by (intro exI [of _ "demo_item\<lparr>ti_status := TaskDone, ti_ended := 7\<rparr>"] exI [of _ v] exI [of _ w])
    (simp add: demo_lookup [simplified])
qed

theorem todo_ids_unique_witness:
  "distinct (map ti_id (tl_items (AddBatch no_binding [demo_spec] (fst (ReserveIDs 1 emptyTodoList)))))"
proof -
  let ?e = "emptyTodoList :: (unit, string) todo_list"
  have "todo_reach no_binding (\<lambda>_ s. s) None (fst (ReserveIDs 1 ?e)) ({} \<union> {tl_next ?e + 1..tl_next ?e + 1})"
    by (rule todo_reach.reserve [OF todo_reach.empty])
  from todo_reach.step [OF this, of "AddOp [demo_spec]"]
  have "todo_reach no_binding (\<lambda>_ s. s) None (AddBatch no_binding [demo_spec] (fst (ReserveIDs 1 ?e)))
      ({} \<union> {tl_next ?e + 1..tl_next ?e + 1})" by simp
  from todo_ids_unique [OF this] show ?thesis by blast
qed

definition demo_result :: "string \<Rightarrow> string typed_result" where
  "demo_result body = \<lparr>tr_status = ''completed'', tr_evidence = [], tr_body = body\<rparr>"

text \<open>A first worker is replaced by a second; the late result of the first is refused, the second's is shown.\<close>

definition replaced_worker :: "(unit, string) todo_op list" where
  "replaced_worker =
     [LeaseOp (dec 1) 1 ''a'', LeaseOp (dec 1) 2 ''b'', ResultOp (dec 1) 1 ''a'' (Some (demo_result ''first'')),
      ResultOp (dec 1) 2 ''b'' (Some (demo_result ''second''))]"

theorem result_from_lease_holder_witness:
  "\<exists>y. lookup (todo_run no_binding (\<lambda>_ s. s) None replaced_worker demo_todo) (dec 1) = Some y \<and>
     ti_typed y \<noteq> None \<and> (\<forall>r. ti_typed y = Some r \<longrightarrow> ResultOp (dec 1) (ti_revision y) (ti_dispatch y) (Some r) \<in> set replaced_worker)"
proof -
  have a: "ti_typed (demo_item\<lparr>ti_status := TaskDone, ti_ended := 7\<rparr>) = None"
    by (simp add: demo_item_def todoItemFromSpec_def)
  have b: "\<forall>op\<in>set replaced_worker. \<not> op_removes op (dec 1)" by (simp add: replaced_worker_def)
  let ?run = "\<lambda>ops. todo_run no_binding (\<lambda>_ s. s) None ops demo_todo"
  obtain y where y: "lookup (?run replaced_worker) (dec 1) = Some y"
    and full: "\<forall>r. ti_typed y = Some r \<longrightarrow> (\<exists>pre op post. replaced_worker = pre @ op # post \<and> (\<forall>op\<in>set post. \<not> settles op (dec 1)) \<and>
        (op = ResultOp (dec 1) (ti_revision y) (ti_dispatch y) (Some r) \<and>
           (\<exists>z. lookup (?run pre) (dec 1) = Some z \<and> ti_revision z = ti_revision y \<and> ti_dispatch z = ti_dispatch y) \<or>
         (\<exists>p. op = TypedOp (dec 1) (Some p) \<and>
            r = p\<lparr>tr_evidence := map (clean_evidence (\<lambda>_ s. s) None (dec 1) (tl_run (?run pre))) (tr_evidence p)\<rparr>) \<or>
         (\<exists>p. op = ProjectOp (Some p) \<and> ti_id p = dec 1 \<and> ti_typed p = Some r)))"
    using result_from_lease_holder [OF demo_lookup a b, of no_binding "\<lambda>_ s. s" None] by (elim exE conjE) (rule that)
  have "map_option ti_typed (lookup (todo_run no_binding (\<lambda>_ s. s) None replaced_worker demo_todo) (dec 1)) =
      Some (Some (demo_result ''second''))"
    by (simp add: todo_run_def replaced_worker_def demo_todo_def demo_item_def todoItemFromSpec_def TrySetDispatchLease_def
        TrySetTypedResultForDispatch_def edit_item_def edit_where_def notify_def lookup_def)
  then have "ti_typed y \<noteq> None" using y by auto
  moreover have "ResultOp (dec 1) (ti_revision y) (ti_dispatch y) (Some r) \<in> set replaced_worker" if shown: "ti_typed y = Some r" for r
  proof -
    obtain pre op post where op: "replaced_worker = pre @ op # post" "op = ResultOp (dec 1) (ti_revision y) (ti_dispatch y) (Some r) \<or>
        (\<exists>p. op = TypedOp (dec 1) (Some p)) \<or> (\<exists>p. op = ProjectOp (Some p))" using full [rule_format, OF shown]
      by (elim exE conjE) (rule that, assumption, blast)
    then have "op \<in> set replaced_worker" by (simp only: op(1) set_append list.set) blast
    moreover have "\<forall>op\<in>set replaced_worker. (\<forall>p. op \<noteq> TypedOp (dec 1) (Some p)) \<and> (\<forall>p. op \<noteq> ProjectOp (Some p))"
      by (simp add: replaced_worker_def)
    ultimately show ?thesis using op(2) by blast
  qed
  ultimately show ?thesis using y by blast
qed

definition demo_fingerprint :: "string \<Rightarrow> int \<Rightarrow> fingerprint" where
  "demo_fingerprint d n = \<lparr>ff_criterion = [], ff_component = [], ff_operation = [], ff_class = FailureVerify,
     ff_error = [], ff_digest = d, ff_occurrences = n\<rparr>"

theorem fingerprints_tally_witness:
  "\<exists>y. lookup (fold (\<lambda>f t. fst (AppendFailureFingerprint (dec 1) f t))
           [demo_fingerprint ''d1'' 0, demo_fingerprint ''d2'' 1, demo_fingerprint ''d1'' 2] demo_todo) (dec 1) = Some y \<and>
       map ff_occurrences (filter (\<lambda>g. ff_digest g = ''d1'') (ti_fingerprints y)) = [3]"
proof -
  let ?fs = "[demo_fingerprint ''d1'' 0, demo_fingerprint ''d2'' 1, demo_fingerprint ''d1'' 2]"
  have a: "ti_fingerprints (demo_item\<lparr>ti_status := TaskDone, ti_ended := 7\<rparr>) = []"
    by (simp add: demo_item_def todoItemFromSpec_def)
  have b: "\<forall>d. seen d ?fs \<le> MaxInt64"
    by (simp add: demo_fingerprint_def at_least_one_def MaxInt64_def)
  have "seen ''d1'' ?fs = 3" by (simp add: demo_fingerprint_def at_least_one_def)
  with fingerprints_tally [OF demo_lookup a b] show ?thesis by auto
qed

end
