(* ===== verification/Task_Resolution.thy ===== *)
theory Task_Resolution
  imports Todo_Lifecycle
begin

text \<open>
  Resolutions of failed tasks: \<open>ValidateResolution\<close> of \<open>internal/team/run_result.go\<close> and
  \<open>SetTaskResolution\<close> of \<open>status.go\<close>. A failed task may be declared superseded or reconciled by a
  task that is done and carries objective evidence; the resolutions must not run in a circle. The
  comparison of the two tasks' frozen requirements (\<open>validateResolutionRequirements\<close>) is the argument
  \<open>req\<close>. Signed evidence is what \<open>VerifyEvidenceSignature\<close> accepts.
\<close>

section \<open>Validation\<close>

datatype resolution_error =
    BadResolutionStatus | TargetNotFailed task_status | UnknownResolver | ResolvesItself
  | ResolverNotDone task_status | NoObjectiveEvidence | RequirementsDiffer | ResolutionCycle
  | ResolutionTaskMissing

definition resolves :: "task_resolution \<Rightarrow> bool" where
  "resolves r \<longleftrightarrow> rs_status r = ''superseded'' \<or> rs_status r = ''reconciled''"

function cycle_found :: "('c, 'r) todo_item list \<Rightarrow> string list \<Rightarrow> string \<Rightarrow> bool" where
  "cycle_found items visited cur =
     (if cur = [] then False
      else if cur \<in> set visited then True
      else case find (\<lambda>x. ti_id x = cur) items of
             None \<Rightarrow> False
           | Some x \<Rightarrow>
               (case ti_resolution x of
                  None \<Rightarrow> False
                | Some r \<Rightarrow> if resolves r then cycle_found items (cur # visited) (rs_by r) else False))"
  by pat_completeness auto

termination
proof (relation "measure (\<lambda>(items, visited, cur). card (ti_id ` set items - set visited))")
  fix items :: "('c, 'r) todo_item list" and visited cur x r
  assume "cur \<notin> set visited" and x: "find (\<lambda>x. ti_id x = cur) items = Some x"
  then have "cur \<in> ti_id ` set items - set visited" by (auto simp: find_Some_iff)
  then have "ti_id ` set items - set (cur # visited) \<subset> ti_id ` set items - set visited" by auto
  then show "((items, cur # visited, rs_by r), items, visited, cur)
      \<in> measure (\<lambda>(items, visited, cur). card (ti_id ` set items - set visited))"
    by (auto intro: psubset_card_mono)
qed simp

declare cycle_found.simps [simp del]

definition objectively_verified :: "mac \<Rightarrow> string option \<Rightarrow> ('c, 'r) todo_item \<Rightarrow> string \<Rightarrow> bool" where
  "objectively_verified mac sys x run \<longleftrightarrow>
     (case ti_verify x of None \<Rightarrow> False
      | Some v \<Rightarrow> vr_exit v = 0 \<and> \<not> vr_timed_out v \<and> \<not> vr_overturned v)
     \<or> (case ti_typed x of None \<Rightarrow> False
        | Some r \<Rightarrow>
            (case sys of None \<Rightarrow> False
             | Some sec \<Rightarrow> sec \<noteq> [] \<and>
                 list_ex (\<lambda>e. VerifyEvidenceSignature mac sys e sec (ti_id x) run) (tr_evidence r)))"

definition ValidateResolution ::
  "mac \<Rightarrow> string option \<Rightarrow> (('c, 'r) todo_item option \<Rightarrow> ('c, 'r) todo_item \<Rightarrow> bool) \<Rightarrow>
   task_resolution \<Rightarrow> string \<Rightarrow> ('c, 'r) todo_item list \<Rightarrow> string \<Rightarrow> resolution_error + unit" where
  "ValidateResolution mac sys req r i items run =
     (if rs_status r \<notin> {''unresolved'', ''superseded'', ''reconciled'', ''waived''} then Inl BadResolutionStatus
      else let target = find (\<lambda>x. ti_id x = i) items in
        case (case target of
                None \<Rightarrow> None
              | Some x \<Rightarrow> if ti_status x \<noteq> TaskError \<and> ti_status x \<noteq> TaskBlocked
                         then Some (TargetNotFailed (ti_status x)) else None) of
          Some err \<Rightarrow> Inl err
        | None \<Rightarrow>
            if \<not> resolves r then Inr ()
            else if rs_by r = [] then Inl UnknownResolver
            else if rs_by r = i then Inl ResolvesItself
            else (case find (\<lambda>x. ti_id x = rs_by r) items of
                    None \<Rightarrow> Inl UnknownResolver
                  | Some resolver \<Rightarrow>
                      if ti_status resolver \<noteq> TaskDone then Inl (ResolverNotDone (ti_status resolver))
                      else if \<not> objectively_verified mac sys resolver run then Inl NoObjectiveEvidence
                      else if \<not> req target resolver then Inl RequirementsDiffer
                      else if cycle_found items [i] (rs_by r) then Inl ResolutionCycle
                      else Inr ()))"

definition SetTaskResolution ::
  "mac \<Rightarrow> string option \<Rightarrow> (('c, 'r) todo_item option \<Rightarrow> ('c, 'r) todo_item \<Rightarrow> bool) \<Rightarrow>
   string \<Rightarrow> task_resolution option \<Rightarrow> ('c, 'r) todo_list \<Rightarrow> ('c, 'r) todo_list \<times> (resolution_error + unit)" where
  "SetTaskResolution mac sys req i resolution t =
     (case update_first (\<lambda>x. ti_id x = i)
             (\<lambda>x. case resolution of
                    None \<Rightarrow> Inr (x\<lparr>ti_resolution := None\<rparr>)
                  | Some r \<Rightarrow>
                      (case ValidateResolution mac sys req r i (tl_items t) (tl_run t) of
                         Inl err \<Rightarrow> Inl err
                       | Inr _ \<Rightarrow> Inr (x\<lparr>ti_resolution := Some r\<rparr>)))
             (tl_items t) of
        None \<Rightarrow> (t, Inl ResolutionTaskMissing)
      | Some (Inl err) \<Rightarrow> (t, Inl err)
      | Some (Inr xs) \<Rightarrow> (notify (t\<lparr>tl_items := xs\<rparr>), Inr ()))"

text \<open>
  The resolution that a persisted item shows, validated again (\<open>task_resolution.go\<close>); the caller
  may not trust the label.
\<close>

definition VerifiedTaskResolution ::
  "mac \<Rightarrow> string option \<Rightarrow> (('c, 'r) todo_item option \<Rightarrow> ('c, 'r) todo_item \<Rightarrow> bool) \<Rightarrow>
   ('c, 'r) todo_item option \<Rightarrow> ('c, 'r) todo_item list \<Rightarrow> string \<Rightarrow> ('c, 'r) todo_item option" where
  "VerifiedTaskResolution mac sys req item items run =
     (case item of None \<Rightarrow> None
      | Some x \<Rightarrow>
          (case ti_resolution x of None \<Rightarrow> None
           | Some r \<Rightarrow>
               if \<not> resolves r then None
               else if ValidateResolution mac sys req r (ti_id x) items run \<noteq> Inr () then None
               else find (\<lambda>y. ti_id y = rs_by r) items))"

section \<open>The graph of resolutions\<close>

definition resolution_graph :: "('c, 'r) todo_item list \<Rightarrow> (string \<times> string) set" where
  "resolution_graph items = {(ti_id x, rs_by r) | x r. x \<in> set items \<and> ti_resolution x = Some r \<and> resolves r}"

lemma find_distinct:
  "distinct (map ti_id items) \<Longrightarrow> x \<in> set items \<Longrightarrow> find (\<lambda>y. ti_id y = ti_id x) items = Some x"
  by (induction items) auto

lemma cycle_found_reaches:
  "distinct (map ti_id items) \<Longrightarrow> [] \<notin> ti_id ` set items \<Longrightarrow> i \<in> set visited \<Longrightarrow> i \<noteq> [] \<Longrightarrow>
   \<not> cycle_found items visited cur \<Longrightarrow> (cur, i) \<notin> (resolution_graph items)\<^sup>*"
proof (induction items visited cur rule: cycle_found.induct)
  case (1 items visited cur)
  show ?case
  proof
    assume path: "(cur, i) \<in> (resolution_graph items)\<^sup>*"
    have "cur = [] \<or> cur \<notin> set visited"
      using "1.prems"(5) by (subst (asm) cycle_found.simps) (auto split: if_splits)
    then have "cur \<noteq> i" using "1.prems"(3,4) by auto
    with path obtain nxt where step: "(cur, nxt) \<in> resolution_graph items" "(nxt, i) \<in> (resolution_graph items)\<^sup>*"
      by (auto elim: converse_rtranclE)
    then obtain x r where x: "x \<in> set items" "ti_id x = cur" "ti_resolution x = Some r" "resolves r" "nxt = rs_by r"
      by (auto simp: resolution_graph_def)
    have f: "find (\<lambda>y. ti_id y = cur) items = Some x" using find_distinct [OF "1.prems"(1) x(1)] x(2) by simp
    have ne: "cur \<noteq> []" using "1.prems"(2) x(1,2) by (metis image_eqI)
    have fresh: "cur \<notin> set visited" using \<open>cur = [] \<or> cur \<notin> set visited\<close> ne by blast
    have "\<not> cycle_found items (cur # visited) (rs_by r)"
      using "1.prems"(5) ne fresh f x(3,4) by (subst (asm) cycle_found.simps) simp
    from "1.IH" [OF ne fresh f x(3,4) "1.prems"(1,2) _ "1.prems"(4) this] "1.prems"(3) step(2) x(5)
    show False by simp
  qed
qed

lemma validated_resolver:
  assumes "ValidateResolution mac sys req r i items run = Inr ()" "resolves r"
  obtains x where "find (\<lambda>x. ti_id x = rs_by r) items = Some x" "ti_status x = TaskDone"
    "objectively_verified mac sys x run" "rs_by r \<noteq> []" "rs_by r \<noteq> i" "\<not> cycle_found items [i] (rs_by r)"
    "req (find (\<lambda>x. ti_id x = i) items) x"
  using assms by (auto simp: ValidateResolution_def Let_def split: if_splits option.splits)

lemma resolved_target:
  "ValidateResolution mac sys req r i items run = Inr () \<Longrightarrow> find (\<lambda>x. ti_id x = i) items = Some x \<Longrightarrow>
   ti_status x = TaskError \<or> ti_status x = TaskBlocked"
  by (auto simp: ValidateResolution_def Let_def split: if_splits)

text \<open>What a successful \<open>SetTaskResolution\<close> did.\<close>

lemma set_resolution_cases:
  assumes "SetTaskResolution mac sys req i resolution t = (t', Inr ())"
  obtains pre x post where "tl_items t = pre @ x # post" "\<forall>z\<in>set pre. ti_id z \<noteq> i" "ti_id x = i"
    "tl_items t' = pre @ x\<lparr>ti_resolution := resolution\<rparr> # post" "tl_next t' = tl_next t"
    "\<forall>r. resolution = Some r \<longrightarrow> ValidateResolution mac sys req r i (tl_items t) (tl_run t) = Inr ()"
proof (cases rule: first_match [of "tl_items t" "\<lambda>x. ti_id x = i"])
  case 1
  with assms show thesis by (simp add: SetTaskResolution_def update_first_None [THEN iffD2])
next
  case (2 pre x post)
  let ?f = "\<lambda>x. case resolution of None \<Rightarrow> Inr (x\<lparr>ti_resolution := None\<rparr>)
     | Some r \<Rightarrow> (case ValidateResolution mac sys req r i (tl_items t) (tl_run t) of
         Inl err \<Rightarrow> Inl err | Inr _ \<Rightarrow> Inr (x\<lparr>ti_resolution := Some r\<rparr>))"
  note found = update_first_at [OF 2(2,3), of ?f post, folded 2(1)]
  show thesis
  proof (cases resolution)
    case None
    with assms found have "tl_items t' = pre @ x\<lparr>ti_resolution := resolution\<rparr> # post" "tl_next t' = tl_next t"
      by (auto simp: SetTaskResolution_def notify_def)
    with None show thesis by (intro that [OF 2]) auto
  next
    case (Some r)
    show thesis
    proof (cases "ValidateResolution mac sys req r i (tl_items t) (tl_run t)")
      case (Inl err)
      with assms found Some show thesis by (simp add: SetTaskResolution_def)
    next
      case (Inr u)
      with assms found Some have "tl_items t' = pre @ x\<lparr>ti_resolution := resolution\<rparr> # post" "tl_next t' = tl_next t"
        by (auto simp: SetTaskResolution_def notify_def)
      with Some Inr show thesis by (intro that [OF 2]) auto
    qed
  qed
qed

lemma resolve_acyclic:
  assumes "distinct (map ti_id (tl_items t))" "[] \<notin> ti_id ` set (tl_items t)" "acyclic (resolution_graph (tl_items t))"
    and "SetTaskResolution mac sys req i resolution t = (t', Inr ())"
  shows "acyclic (resolution_graph (tl_items t'))"
proof (rule set_resolution_cases [OF assms(4)])
  fix pre x post
  assume t: "tl_items t = pre @ x # post" "ti_id x = i"
    and t': "tl_items t' = pre @ x\<lparr>ti_resolution := resolution\<rparr> # post"
    and v: "\<forall>r. resolution = Some r \<longrightarrow> ValidateResolution mac sys req r i (tl_items t) (tl_run t) = Inr ()"
  show ?thesis
  proof (cases "\<exists>r. resolution = Some r \<and> resolves r")
    case False
    then have "resolution_graph (tl_items t') \<subseteq> resolution_graph (tl_items t)"
      unfolding t t' resolution_graph_def by auto
    then show ?thesis by (rule acyclic_subset [OF assms(3)])
  next
    case True
    then obtain r where r: "resolution = Some r" "resolves r" by blast
    have "\<not> cycle_found (tl_items t) [i] (rs_by r)"
      using v r by (blast elim: validated_resolver)
    moreover have "i \<noteq> []" using assms(2) t by auto
    ultimately have "(rs_by r, i) \<notin> (resolution_graph (tl_items t))\<^sup>*"
      by (intro cycle_found_reaches [OF assms(1,2)]) simp_all
    then have "acyclic (insert (i, rs_by r) (resolution_graph (tl_items t)))"
      using assms(3) by (simp add: acyclic_insert)
    moreover have "resolution_graph (tl_items t') \<subseteq> insert (i, rs_by r) (resolution_graph (tl_items t))"
      using r by (auto simp: t t' resolution_graph_def)
    ultimately show ?thesis by (rule acyclic_subset)
  qed
qed

section \<open>Runs\<close>

datatype ('c, 'r) list_op = Ordinary "('c, 'r) todo_op" | Resolve string "task_resolution option"

fun list_apply ::
  "('c todo_spec \<Rightarrow> 'r option \<times> 'r option) \<Rightarrow> mac \<Rightarrow> string option \<Rightarrow>
   (('c, 'r) todo_item option \<Rightarrow> ('c, 'r) todo_item \<Rightarrow> bool) \<Rightarrow> ('c, 'r) list_op \<Rightarrow> ('c, 'r) todo_list \<Rightarrow> ('c, 'r) todo_list" where
  "list_apply bind mac sys req (Ordinary op) t = fst (todo_apply bind mac sys op t)"
| "list_apply bind mac sys req (Resolve i r) t = fst (SetTaskResolution mac sys req i r t)"

text \<open>
  A projection installs an item as it is, its resolution included, and nothing is validated there. It is \<open>fair\<close> when
  it brings no resolution of its own: it shows none, or the one the live item with its id has. The event commits of
  \<open>coordinator_eventstore.go\<close> project a changed copy of the live item and are fair in this sense.
\<close>

fun fair :: "('c, 'r) list_op \<Rightarrow> ('c, 'r) todo_list \<Rightarrow> bool" where
  "fair (Ordinary (ProjectOp (Some p))) t \<longleftrightarrow>
     (case ti_resolution p of
        None \<Rightarrow> True
      | Some r \<Rightarrow> resolves r \<longrightarrow> map_option ti_resolution (lookup t (ti_id p)) = Some (Some r))"
| "fair op t \<longleftrightarrow> True"

primrec fair_run ::
  "('c todo_spec \<Rightarrow> 'r option \<times> 'r option) \<Rightarrow> mac \<Rightarrow> string option \<Rightarrow>
   (('c, 'r) todo_item option \<Rightarrow> ('c, 'r) todo_item \<Rightarrow> bool) \<Rightarrow> ('c, 'r) list_op list \<Rightarrow> ('c, 'r) todo_list \<Rightarrow> bool" where
  "fair_run bind mac sys req [] t \<longleftrightarrow> True"
| "fair_run bind mac sys req (op # ops) t \<longleftrightarrow>
     fair op t \<and> fair_run bind mac sys req ops (list_apply bind mac sys req op t)"

lemma refused_resolution: "SetTaskResolution mac sys req i r t = (t', Inl e) \<Longrightarrow> t' = t"
  by (auto simp: SetTaskResolution_def split: option.splits sum.splits)

lemma list_ids: "ids_ok t out \<Longrightarrow> ids_ok (list_apply bind mac sys req op t) out"
proof (cases op)
  case (Resolve i r)
  assume ok: "ids_ok t out"
  obtain t' e where s: "SetTaskResolution mac sys req i r t = (t', e)" by fastforce
  show ?thesis
  proof (cases e)
    case (Inl err)
    with s ok show ?thesis using refused_resolution [of mac sys req i r t t' err] by (simp add: Resolve)
  next
    case (Inr u)
    with s have "SetTaskResolution mac sys req i r t = (t', Inr ())" by simp
    then show ?thesis
      by (rule set_resolution_cases) (use s ok in \<open>auto intro!: ids_same [OF ok] simp: Resolve\<close>)
  qed
qed (simp add: ids_step)

lemma ids_facts: "ids_ok t out \<Longrightarrow> distinct (map ti_id (tl_items t)) \<and> [] \<notin> ti_id ` set (tl_items t)"
proof -
  assume "ids_ok t out"
  then obtain ks where ks: "map ti_id (tl_items t) = map dec ks" "distinct ks" by (auto simp: ids_ok_def)
  have "distinct (map ti_id (tl_items t))" using ks(2) by (simp add: ks(1) distinct_map inj_on_def dec_inj)
  moreover have "ti_id ` set (tl_items t) = dec ` set ks" using ks(1) by (metis image_set)
  ultimately show ?thesis by (auto simp: image_iff) (metis dec_nonempty)
qed

lemma graph_simps:
  "resolution_graph (x # xs) =
     {(ti_id x, rs_by r) | r. ti_resolution x = Some r \<and> resolves r} \<union> resolution_graph xs"
  "resolution_graph (xs @ ys) = resolution_graph xs \<union> resolution_graph ys"
  by (auto simp: resolution_graph_def)

lemma graph_add: "resolution_graph (tl_items (add_specs bind sps t)) = resolution_graph (tl_items t)"
proof (induction sps arbitrary: t)
  case (Cons sp sps)
  show ?case unfolding add_specs.simps(2) Cons by (auto simp: resolution_graph_def todoItemFromSpec_def)
qed simp

lemma graph_edited:
  assumes "edited P R t t'" "\<And>x y. R x y \<Longrightarrow> ti_id y = ti_id x \<and> ti_resolution y = ti_resolution x"
  shows "resolution_graph (tl_items t') = resolution_graph (tl_items t)"
proof -
  obtain pre x post y where s: "tl_items t = pre @ x # post" "R x y" "tl_items t' = pre @ y # post"
    using assms(1) unfolding edited_def by blast
  with assms(2) [OF s(2)] show ?thesis by (simp add: graph_simps)
qed

lemma graph_gently:
  assumes "gently R t t'" "\<And>x y. R x y \<Longrightarrow> ti_id y = ti_id x \<and> ti_resolution y = ti_resolution x"
  shows "resolution_graph (tl_items t') = resolution_graph (tl_items t)"
proof -
  have "tl_items t' = tl_items t \<or> (\<exists>P. edited P R t t')" using assms(1) unfolding gently_def by blast
  then show ?thesis
  proof
    assume "\<exists>P. edited P R t t'"
    then obtain P where "edited P R t t'" by blast
    from graph_edited [OF this assms(2)] show ?thesis .
  qed simp
qed

lemma graph_project:
  assumes "fair (Ordinary (ProjectOp p)) t"
  shows "resolution_graph (tl_items (fst (TryApplyProjectedItem p t))) \<subseteq> resolution_graph (tl_items t)"
proof (cases p)
  case (Some y)
  show ?thesis
  proof (cases rule: first_match [of "tl_items t" "\<lambda>x. ti_id x = ti_id y"])
    case 1
    then have "update_first (\<lambda>x. ti_id x = ti_id y) (\<lambda>_. Inr y :: todo_error + _) (tl_items t) = None"
      by (simp add: update_first_None)
    then show ?thesis by (simp add: Some TryApplyProjectedItem_def edit_item_def edit_where_def)
  next
    case (2 pre x post)
    have "find (\<lambda>x. ti_id x = ti_id y) pre = None" using 2(2) by (simp add: find_None_iff)
    then have x: "lookup t (ti_id y) = Some x" by (simp add: lookup_def find_append 2(1,3))
    have "{(ti_id y, rs_by r) | r. ti_resolution y = Some r \<and> resolves r} \<subseteq>
        {(ti_id x, rs_by r) | r. ti_resolution x = Some r \<and> resolves r}"
      using assms 2(3) x by (auto simp: Some)
    moreover have "tl_items (fst (TryApplyProjectedItem p t)) \<in> {pre @ y # post, tl_items t}"
      using update_first_at [OF 2(2,3), of "\<lambda>_. Inr y :: todo_error + _" post]
      by (simp add: Some TryApplyProjectedItem_def edit_item_def edit_where_def notify_def 2(1))
    ultimately show ?thesis by (auto simp: 2(1) graph_simps)
  qed
qed (simp add: TryApplyProjectedItem_def)

lemma graph_step:
  assumes "fair (Ordinary op) t"
  shows "resolution_graph (tl_items (fst (todo_apply bind mac sys op t))) \<subseteq> resolution_graph (tl_items t)"
proof (cases op)
  case (AddOp sps)
  then show ?thesis using graph_add [of bind sps t] by (simp add: AddBatch_def notify_def)
next
  case (DeleteOp ids)
  then show ?thesis by (auto simp: DeleteIDs_def Let_def notify_def resolution_graph_def)
next
  case (RetryOp i d)
  have "gently (\<lambda>x y. ti_id y = ti_id x \<and> ti_resolution y = ti_resolution x) t (ResetForRetry i d t)"
    unfolding ResetForRetry_def by (rule gently_item) auto
  from graph_gently [OF this] show ?thesis by (simp add: RetryOp)
next
  case (ProjectOp p)
  with assms graph_project [of p t] show ?thesis by simp
qed (use op_gently [of op t bind mac sys] graph_gently
      [of "may_rewrite op" t "fst (todo_apply bind mac sys op t)"] in \<open>simp add: may_rewrite_def careful_def\<close>)+

lemma run_acyclic:
  assumes "ids_ok t out" "acyclic (resolution_graph (tl_items t))" "fair_run bind mac sys req ops t"
  shows "acyclic (resolution_graph (tl_items (fold (list_apply bind mac sys req) ops t)))"
  using assms
proof (induction ops arbitrary: t)
  case (Cons op ops)
  have "acyclic (resolution_graph (tl_items (list_apply bind mac sys req op t)))"
  proof (cases op)
    case (Ordinary op')
    with Cons.prems(3) have "fair (Ordinary op') t" by simp
    from acyclic_subset [OF Cons.prems(2) graph_step [OF this, of bind mac sys]] show ?thesis by (simp add: Ordinary)
  next
    case (Resolve i r)
    obtain t' e where s: "SetTaskResolution mac sys req i r t = (t', e)" by fastforce
    show ?thesis
    proof (cases e)
      case (Inl err)
      with s Cons.prems(2) show ?thesis using refused_resolution [of mac sys req i r t t' err] by (simp add: Resolve)
    next
      case (Inr u)
      with s have "SetTaskResolution mac sys req i r t = (t', Inr ())" by simp
      with resolve_acyclic [OF _ _ Cons.prems(2) this] ids_facts [OF Cons.prems(1)] s show ?thesis
        by (simp add: Resolve)
    qed
  qed
  from Cons.IH [OF list_ids [OF Cons.prems(1)] this] Cons.prems(3) show ?case by simp
qed simp

text \<open>
  C17. Resolutions never run in a circle. Take a reachable list without resolution cycles and any mixture of resolutions
  and the other operations, retries and event projections included, as long as no projected item brings a resolution that
  the live item with its id does not have. Then no task is ever, through any chain of tasks that superseded
  or reconciled it, resolved by itself.
\<close>

theorem resolutions_acyclic:
  assumes "todo_reach bind mac sys t out" "acyclic (resolution_graph (tl_items t))" "fair_run bind mac sys req ops t"
  shows "acyclic (resolution_graph (tl_items (fold (list_apply bind mac sys req) ops t)))"
  by (rule run_acyclic [OF reach_ids [OF assms(1)] assms(2,3)])

lemma verified_proof:
  assumes "objectively_verified mac sys y run" "ti_id y \<noteq> []"
  shows "(\<exists>v. ti_verify y = Some v \<and> vr_exit v = 0 \<and> \<not> vr_timed_out v \<and> \<not> vr_overturned v) \<or>
    (\<exists>p sec e. ti_typed y = Some p \<and> sys = Some sec \<and> e \<in> set (tr_evidence p) \<and> ev_task e = ti_id y \<and>
       (run = [] \<or> ev_run e = run) \<and> ev_hmac e = mac sec (evidence_text e))"
  using assms by (auto simp: objectively_verified_def VerifyEvidenceSignature_def ComputeEvidenceHMAC_def list_ex_iff
      split: option.splits if_splits)

text \<open>
  A failed task is written off only against proof: when a resolution as superseded or
  reconciled is accepted, the task had failed or was blocked, and it names a different, finished task that
  passed its verification or carries evidence signed for that task and this run.
\<close>

theorem resolution_needs_proof:
  assumes "SetTaskResolution mac sys req i (Some r) t = (t', Inr ())" "rs_status r \<in> {''superseded'', ''reconciled''}"
  shows "\<exists>x y. lookup t i = Some x \<and> ti_status x \<in> {TaskError, TaskBlocked} \<and>
    lookup t (rs_by r) = Some y \<and> rs_by r \<noteq> i \<and> ti_status y = TaskDone \<and> req (Some x) y \<and>
    ((\<exists>v. ti_verify y = Some v \<and> vr_exit v = 0 \<and> \<not> vr_timed_out v \<and> \<not> vr_overturned v) \<or>
     (\<exists>p sec e. ti_typed y = Some p \<and> sys = Some sec \<and> e \<in> set (tr_evidence p) \<and> ev_task e = rs_by r \<and>
        (tl_run t = [] \<or> ev_run e = tl_run t) \<and> ev_hmac e = mac sec (evidence_text e)))"
proof (rule set_resolution_cases [OF assms(1)])
  fix pre x post
  assume t: "tl_items t = pre @ x # post" "\<forall>z\<in>set pre. ti_id z \<noteq> i" "ti_id x = i"
    and v: "\<forall>r'. Some r = Some r' \<longrightarrow> ValidateResolution mac sys req r' i (tl_items t) (tl_run t) = Inr ()"
  have valid: "ValidateResolution mac sys req r i (tl_items t) (tl_run t) = Inr ()" using v by simp
  have "find (\<lambda>x. ti_id x = i) pre = None" using t(2) by (simp add: find_None_iff)
  then have x: "find (\<lambda>x. ti_id x = i) (tl_items t) = Some x" by (simp add: t(1,3) find_append)
  have "resolves r" using assms(2) by (simp add: resolves_def)
  from validated_resolver [OF valid this] obtain y where
    y: "find (\<lambda>x. ti_id x = rs_by r) (tl_items t) = Some y" "ti_status y = TaskDone"
      "objectively_verified mac sys y (tl_run t)" "rs_by r \<noteq> []" "rs_by r \<noteq> i"
      "req (find (\<lambda>x. ti_id x = i) (tl_items t)) y" by blast
  from verified_proof [OF y(3)] find_id [OF y(1)] have "(\<exists>v. ti_verify y = Some v \<and> vr_exit v = 0 \<and> \<not> vr_timed_out v \<and> \<not> vr_overturned v) \<or>
     (\<exists>p sec e. ti_typed y = Some p \<and> sys = Some sec \<and> e \<in> set (tr_evidence p) \<and> ev_task e = rs_by r \<and>
        (tl_run t = [] \<or> ev_run e = tl_run t) \<and> ev_hmac e = mac sec (evidence_text e))"
    using y(4) by simp
  then show ?thesis
    using x y resolved_target [OF valid x] by (auto simp: lookup_def)
qed

text \<open>
  A label is no proof. Whatever list of items was restored, a task counts as resolved by another only if it
  failed or was blocked, the other is a different, finished task of the list, and that one passed its verification or
  carries evidence signed for it and this run.
\<close>

theorem label_is_no_proof:
  assumes "VerifiedTaskResolution mac sys req item items run = Some y"
  shows "\<exists>x r. item = Some x \<and> ti_resolution x = Some r \<and> y \<in> set items \<and> ti_id y = rs_by r \<and> ti_id y \<noteq> ti_id x \<and>
    ti_status y = TaskDone \<and>
    (find (\<lambda>z. ti_id z = ti_id x) items = Some x \<longrightarrow> ti_status x \<in> {TaskError, TaskBlocked}) \<and>
    ((\<exists>v. ti_verify y = Some v \<and> vr_exit v = 0 \<and> \<not> vr_timed_out v \<and> \<not> vr_overturned v) \<or>
     (\<exists>p sec e. ti_typed y = Some p \<and> sys = Some sec \<and> e \<in> set (tr_evidence p) \<and> ev_task e = ti_id y \<and>
        (run = [] \<or> ev_run e = run) \<and> ev_hmac e = mac sec (evidence_text e)))"
proof -
  from assms obtain x r where x: "item = Some x" "ti_resolution x = Some r" "resolves r"
    "ValidateResolution mac sys req r (ti_id x) items run = Inr ()" "find (\<lambda>y. ti_id y = rs_by r) items = Some y"
    by (auto simp: VerifiedTaskResolution_def split: option.splits if_splits)
  from validated_resolver [OF x(4,3)] x(5)
  have y: "ti_status y = TaskDone" "objectively_verified mac sys y run" "rs_by r \<noteq> []" "rs_by r \<noteq> ti_id x" by auto
  have i: "ti_id y = rs_by r" by (rule find_id [OF x(5)])
  have "y \<in> set items" using x(5) by (auto simp: find_Some_iff)
  moreover have "find (\<lambda>z. ti_id z = ti_id x) items = Some x \<longrightarrow> ti_status x \<in> {TaskError, TaskBlocked}"
    using resolved_target [OF x(4)] by blast
  ultimately show ?thesis using x(1,2) y i verified_proof [OF y(2)] by metis
qed

section \<open>Signed evidence\<close>

lemma colon_split:
  "CHR '':'' \<notin> set a \<Longrightarrow> CHR '':'' \<notin> set b \<Longrightarrow> a @ '':'' @ x = b @ '':'' @ y \<Longrightarrow> a = b \<and> x = y"
  using separator_split [of "CHR '':''" a b x y] by simp

text \<open>
  Evidence cannot be carried to another task or run. If a piece of evidence presented for a task in a
  run is accepted with a signature that was issued for some evidence, then that evidence was issued
  for the same task and run, and its type, description and value read the same in sequence; ids
  contain no colon and the MAC does not collide on the two texts.
\<close>

theorem evidence_not_replayed:
  assumes "ev_hmac e = ev_hmac (SignEvidence mac sys e0 sec)" "sec \<noteq> []"
    and "VerifyEvidenceSignature mac sys e sec task run" "task \<noteq> []" "run \<noteq> []"
    and "mac sec (evidence_text e) = mac sec (evidence_text e0) \<Longrightarrow> evidence_text e = evidence_text e0"
    and "CHR '':'' \<notin> set (ev_task e0 @ ev_run e0 @ task @ run)"
  shows "ev_task e0 = task \<and> ev_run e0 = run \<and>
    ev_type e @ '':'' @ ev_desc e @ '':'' @ ev_value e = ev_type e0 @ '':'' @ ev_desc e0 @ '':'' @ ev_value e0"
proof -
  have e: "ev_task e = task" "ev_run e = run" "ev_hmac e = mac sec (evidence_text e)"
    using assms(2-5) by (auto simp: VerifyEvidenceSignature_def ComputeEvidenceHMAC_def split: if_splits)
  moreover have "ev_hmac e = mac sec (evidence_text e0)"
    using assms(1,2) by (simp add: SignEvidence_def ComputeEvidenceHMAC_def)
  ultimately have "evidence_text e = evidence_text e0" using assms(6) by simp
  then have t: "task @ '':'' @ (run @ '':'' @ ev_type e @ '':'' @ ev_desc e @ '':'' @ ev_value e) =
      ev_task e0 @ '':'' @ (ev_run e0 @ '':'' @ ev_type e0 @ '':'' @ ev_desc e0 @ '':'' @ ev_value e0)"
    by (simp add: evidence_text_def e(1,2))
  have s: "task = ev_task e0 \<and> run @ '':'' @ ev_type e @ '':'' @ ev_desc e @ '':'' @ ev_value e =
      ev_run e0 @ '':'' @ ev_type e0 @ '':'' @ ev_desc e0 @ '':'' @ ev_value e0"
    by (rule colon_split [OF _ _ t]) (use assms(7) in auto)
  have "run = ev_run e0 \<and> ev_type e @ '':'' @ ev_desc e @ '':'' @ ev_value e =
      ev_type e0 @ '':'' @ ev_desc e0 @ '':'' @ ev_value e0"
    by (rule colon_split) (use assms(7) s in auto)
  with s show ?thesis by auto
qed

definition test_result :: evidence where
  "test_result = \<lparr>ev_task = ''7'', ev_run = ''r1'', ev_type = ''test'', ev_desc = ''unit: 12 passed'', ev_value = [],
     ev_hmac = []\<rparr>"

definition plain_mac :: mac where
  "plain_mac key text = CHR ''m'' # key @ text"

theorem evidence_not_replayed_witness:
  "VerifyEvidenceSignature plain_mac None (SignEvidence plain_mac None test_result ''k'') ''k'' ''7'' ''r1'' \<and>
   ev_task test_result = ''7''"
proof -
  let ?e = "SignEvidence plain_mac None test_result ''k''"
  have v: "VerifyEvidenceSignature plain_mac None ?e ''k'' ''7'' ''r1''"
    by (simp add: VerifyEvidenceSignature_def SignEvidence_def ComputeEvidenceHMAC_def evidence_text_def
        test_result_def plain_mac_def)
  have "ev_task test_result = ''7'' \<and> ev_run test_result = ''r1'' \<and>
      ev_type ?e @ '':'' @ ev_desc ?e @ '':'' @ ev_value ?e =
      ev_type test_result @ '':'' @ ev_desc test_result @ '':'' @ ev_value test_result"
    by (rule evidence_not_replayed [OF refl _ v]) (simp_all add: plain_mac_def test_result_def)
  with v show ?thesis by blast
qed

text \<open>
  The signature does not bind where one field ends and the next begins: evidence with the
  colon moved from the description into the type is accepted with the same signature, whatever the
  MAC.
\<close>

theorem evidence_boundary_unprotected:
  "let moved = (SignEvidence mac sys test_result sec)\<lparr>ev_type := ''test:unit'', ev_desc := '' 12 passed''\<rparr> in
   ev_desc moved \<noteq> ev_desc test_result \<and>
   (VerifyEvidenceSignature mac sys moved sec ''7'' ''r1'' \<longleftrightarrow>
    VerifyEvidenceSignature mac sys (SignEvidence mac sys test_result sec) sec ''7'' ''r1'')"
  by (simp add: VerifyEvidenceSignature_def SignEvidence_def ComputeEvidenceHMAC_def evidence_text_def
      test_result_def Let_def split: option.split)

section \<open>Instances\<close>

definition failed_and_redone :: "(unit, string) todo_list" where
  "failed_and_redone = emptyTodoList\<lparr>tl_next := 2, tl_items :=
     [demo_item\<lparr>ti_status := TaskError\<rparr>,
      demo_item\<lparr>ti_id := dec 2, ti_status := TaskDone,
        ti_verify := Some \<lparr>vr_exit = 0, vr_timed_out = False, vr_overturned = False, vr_body = []\<rparr>\<rparr>]\<rparr>"

definition superseded_by_2 :: task_resolution where
  "superseded_by_2 = \<lparr>rs_status = ''superseded'', rs_by = dec 2, rs_reason = [], rs_evidence = []\<rparr>"

theorem resolution_needs_proof_witness:
  "snd (SetTaskResolution (\<lambda>_ s. s) None (\<lambda>_ _. True) (dec 1) (Some superseded_by_2) failed_and_redone) = Inr () \<and>
   (\<exists>y. lookup failed_and_redone (dec 2) = Some y \<and> ti_status y = TaskDone)"
proof -
  let ?r = "SetTaskResolution (\<lambda>_ s. s) None (\<lambda>_ _. True) (dec 1) (Some superseded_by_2) failed_and_redone"
  have ok: "snd ?r = Inr ()"
    by (simp add: SetTaskResolution_def ValidateResolution_def resolves_def superseded_by_2_def failed_and_redone_def
        demo_item_def todoItemFromSpec_def objectively_verified_def cycle_found.simps dec_inj Let_def)
  then have "?r = (fst ?r, Inr ())" by (metis prod.collapse)
  from resolution_needs_proof [OF this] ok show ?thesis by (auto simp: superseded_by_2_def)
qed

definition redone :: "(unit, string) todo_item" where
  "redone = demo_item\<lparr>ti_status := TaskError, ti_started := 3, ti_ended := 5, ti_resolution := Some superseded_by_2\<rparr>"

definition supersession :: "(unit, string) list_op list" where
  "supersession =
     [Ordinary (AddOp [demo_spec, demo_spec]), Ordinary (StatusOp 3 (dec 1) TaskInProgress [] []),
      Ordinary (StatusOp 5 (dec 1) TaskError [] []), Ordinary (StatusOp 6 (dec 2) TaskInProgress [] []),
      Ordinary (StatusOp 8 (dec 2) TaskDone [] []),
      Ordinary (VerifyOp (dec 2) (Some \<lparr>vr_exit = 0, vr_timed_out = False, vr_overturned = False, vr_body = []\<rparr>)),
      Resolve (dec 1) (Some superseded_by_2), Ordinary (ProjectOp (Some redone))]"

abbreviation supersede :: "(unit, string) list_op list \<Rightarrow> (unit, string) todo_list" where
  "supersede ops \<equiv> fold (list_apply no_binding (\<lambda>_ s. s) None (\<lambda>_ _. True)) ops emptyTodoList"

theorem resolutions_acyclic_witness:
  "acyclic (resolution_graph (tl_items (supersede supersession))) \<and>
   map_option ti_resolution (lookup (supersede supersession) (dec 1)) = Some (Some superseded_by_2)"
proof -
  note run = supersession_def redone_def AddBatch_def todoItemFromSpec_def TryUpdateStatusAndOutput_def edit_item_def
    edit_where_def notify_def demo_spec_def demo_item_def emptyTodoList_def dec_inj CanTransition_def stamp_times_def
    SetVerificationResult_def SetTaskResolution_def ValidateResolution_def resolves_def superseded_by_2_def
    objectively_verified_def cycle_found.simps TryApplyProjectedItem_def lookup_def note_detail_def note_output_def
    no_binding_def Let_def
  have a: "acyclic (resolution_graph (tl_items (emptyTodoList :: (unit, string) todo_list)))"
    by (simp add: resolution_graph_def emptyTodoList_def acyclic_def)
  have b: "fair_run no_binding (\<lambda>_ s. s) None (\<lambda>_ _. True) supersession emptyTodoList"
    by (simp add: run)
  have "map_option ti_resolution (lookup (supersede supersession) (dec 1)) = Some (Some superseded_by_2)"
    by (simp add: run)
  with resolutions_acyclic [OF todo_reach.empty a b] show ?thesis by blast
qed

text \<open>
  The proviso is needed: an item projected with a resolution that nobody validated can close a circle. The label is then
  not believed (\<open>label_is_no_proof\<close>).
\<close>

lemma unfair_projection_circle:
  "\<not> acyclic (resolution_graph (tl_items (list_apply no_binding (\<lambda>_ s. s) None (\<lambda>_ _. True)
     (Ordinary (ProjectOp (Some (redone\<lparr>ti_id := dec 2, ti_resolution := Some (superseded_by_2\<lparr>rs_by := dec 1\<rparr>)\<rparr>))))
     (failed_and_redone\<lparr>tl_items := [redone, redone\<lparr>ti_id := dec 2\<rparr>]\<rparr>))))"
proof -
  let ?t = "list_apply no_binding (\<lambda>_ s. s) None (\<lambda>_ _. True)
     (Ordinary (ProjectOp (Some (redone\<lparr>ti_id := dec 2, ti_resolution := Some (superseded_by_2\<lparr>rs_by := dec 1\<rparr>)\<rparr>))))
     (failed_and_redone\<lparr>tl_items := [redone, redone\<lparr>ti_id := dec 2\<rparr>]\<rparr>)"
  have "(dec 1, dec 2) \<in> resolution_graph (tl_items ?t)" "(dec 2, dec 1) \<in> resolution_graph (tl_items ?t)"
    by (simp_all add: graph_simps redone_def demo_item_def todoItemFromSpec_def TryApplyProjectedItem_def
        edit_item_def edit_where_def notify_def superseded_by_2_def resolves_def dec_inj)
  then have "(dec 1, dec 1) \<in> (resolution_graph (tl_items ?t))\<^sup>+" by (meson trancl.simps)
  then show ?thesis unfolding acyclic_def by blast
qed

theorem label_is_no_proof_witness:
  "let items = tl_items failed_and_redone in
   VerifiedTaskResolution (\<lambda>_ s. s) None (\<lambda>_ _. True) (Some ((items ! 0)\<lparr>ti_resolution := Some superseded_by_2\<rparr>)) items [] =
     Some (items ! 1) \<and> ti_status (items ! 1) = TaskDone \<and> ti_verify (items ! 1) \<noteq> None"
proof -
  let ?items = "tl_items failed_and_redone"
  have v: "VerifiedTaskResolution (\<lambda>_ s. s) None (\<lambda>_ _. True) (Some ((?items ! 0)\<lparr>ti_resolution := Some superseded_by_2\<rparr>)) ?items [] =
     Some (?items ! 1)"
    by (simp add: VerifiedTaskResolution_def ValidateResolution_def resolves_def superseded_by_2_def failed_and_redone_def
        demo_item_def todoItemFromSpec_def objectively_verified_def cycle_found.simps dec_inj Let_def)
  from label_is_no_proof [OF v] v show ?thesis by (auto simp: Let_def)
qed

end
