(* ===== verification/Anti_Thrashing.thy ===== *)
theory Anti_Thrashing
  imports Task_Graph Todo_List Cost_Catalog
begin

text \<open>
  \<open>internal/team/anti_thrashing.go\<close> and \<open>systemic_scope.go\<close>: the circuit breaker that stops a run from
  repeating equivalent failures. The state is run-scoped: counters that failures advance, the
  fingerprints, criteria, task kinds and systemic scopes blocked so far; it is rebuilt from the
  evidence on the todo items after a restart. Go's maps to counters read 0 (or the empty string) for
  an absent key, so they are functions; maps to \<open>true\<close> are sets. Counters that advance by one are
  unbounded; sums of occurrence counts wrap at 64 bits. SHA-256 is \<open>sha\<close>; the removal of volatile
  text by regular expressions (\<open>NormalizeFailureError\<close>) is the argument \<open>norm\<close>.
\<close>

section \<open>Data\<close>

record recovery_hypothesis =
  rh_criterion :: string
  rh_observed :: string
  rh_cause :: string
  rh_change :: string
  rh_difference :: string
  rh_expected :: string
  rh_strategy :: string
  rh_plan :: string

text \<open>The parts of a task occurrence's contract that are read here.\<close>

record work_contract =
  wc_def :: task_def
  wc_desc :: string
  wc_verify_spec :: "(string \<times> string) option"
  wc_verify :: string
  wc_reconcile :: string
  wc_hypothesis :: "recovery_hypothesis option"

type_synonym 'r work_item = "(work_contract, 'r) todo_item"

abbreviation item_kind :: "'r work_item \<Rightarrow> task_kind" where
  "item_kind x \<equiv> td_kind (wc_def (ti_contract x))"

abbreviation item_advances :: "'r work_item \<Rightarrow> string list" where
  "item_advances x \<equiv> td_advances (wc_def (ti_contract x))"

record reliability =
  rl_diagnostics :: int
  rl_same :: int
  rl_repairs :: int
  rl_systemic :: int
  rl_hard :: bool

record thrash =
  at_counts :: "string \<Rightarrow> int"
  at_strategy :: "string \<Rightarrow> string"
  at_rejected :: "(string \<times> string) set"
  at_diagnostics :: int
  at_repairs :: "string \<Rightarrow> int"
  at_warnings :: int
  at_changes :: int
  at_hard :: bool
  at_seen :: "string set"
  at_criteria :: "string set"
  at_scopes :: "string set"
  at_fingerprints :: "string set"
  at_no_diagnostics :: bool
  at_no_repairs :: bool
  at_systemic :: "(string \<times> string set) list"
  at_systemic_scopes :: "string set"
  at_prefixes :: "string set"
  at_escalated :: "string set"
  at_escalations :: int

definition reset_thrash :: thrash where
  "reset_thrash =
     \<lparr>at_counts = (\<lambda>_. 0), at_strategy = (\<lambda>_. []), at_rejected = {}, at_diagnostics = 0, at_repairs = (\<lambda>_. 0),
      at_warnings = 0, at_changes = 0, at_hard = False, at_seen = {}, at_criteria = {}, at_scopes = {},
      at_fingerprints = {}, at_no_diagnostics = False, at_no_repairs = False, at_systemic = [],
      at_systemic_scopes = {}, at_prefixes = {}, at_escalated = {}, at_escalations = 0\<rparr>"

section \<open>Text of kinds, classes and scopes\<close>

fun kind_text :: "task_kind \<Rightarrow> string" where
  "kind_text TaskKindOutcome = ''outcome''"
| "kind_text TaskKindRepair = ''repair''"
| "kind_text TaskKindDiagnostic = ''diagnostic''"
| "kind_text (TaskKindOther s) = s"

fun class_text :: "failure_class \<Rightarrow> string" where
  "class_text FailureContract = ''contract''"
| "class_text FailureEnvironment = ''environment''"
| "class_text FailureExecution = ''execution''"
| "class_text FailureProtocol = ''protocol''"
| "class_text FailureVerify = ''verification''"
| "class_text FailurePolicy = ''policy''"
| "class_text FailureTimeout = ''timeout''"
| "class_text FailureCancelled = ''cancelled''"
| "class_text FailureWorkspaceConflict = ''workspace_conflict''"
| "class_text FailureSessionResumeMismatch = ''session_resume_mismatch''"
| "class_text FailureIdentityConflict = ''identity_conflict''"
| "class_text FailureSemanticRejection = ''semantic_rejection''"
| "class_text (FailureOther s) = s"

abbreviation NUL :: char where "NUL \<equiv> CHR 0x00"

definition antiThrashingScopeKey :: "string \<Rightarrow> task_kind \<Rightarrow> string" where
  "antiThrashingScopeKey criterion kind = TrimSpace criterion @ NUL # kind_text kind"

definition systemicScopeKey :: "fingerprint \<Rightarrow> string" where
  "systemicScopeKey f = ff_component f @ NUL # ff_operation f @ NUL # class_text (ff_class f) @ NUL # ff_digest f"

definition systemicScopePrefixKey :: "string \<Rightarrow> string \<Rightarrow> string" where
  "systemicScopePrefixKey component operation = component @ NUL # operation"

text \<open>\<open>strings.SplitN\<close> at one character, into at most \<open>n\<close> parts.\<close>

fun SplitN :: "nat \<Rightarrow> char \<Rightarrow> string \<Rightarrow> string list" where
  "SplitN 0 sep s = []"
| "SplitN (Suc 0) sep s = [s]"
| "SplitN (Suc (Suc n)) sep s =
     (case Cut sep s of (b, a, found) \<Rightarrow> if found then b # SplitN (Suc n) sep a else [s])"

definition splitSystemicScopePrefix :: "string \<Rightarrow> (string \<times> string) option" where
  "splitSystemicScopePrefix key =
     (case SplitN 3 NUL key of component # operation # _ \<Rightarrow> Some (component, operation) | _ \<Rightarrow> None)"

definition SystemicDispositionForClass :: "string \<Rightarrow> disposition" where
  "SystemicDispositionForClass class =
     (if class \<in> {''protocol'', ''environment'', ''contract'', ''session_resume_mismatch'', ''identity_conflict''}
      then NeedsHuman else ReplanRequired)"

definition NewFailureFingerprint ::
  "(string \<Rightarrow> string) \<Rightarrow> (string \<Rightarrow> string) \<Rightarrow> string \<Rightarrow> string \<Rightarrow> string \<Rightarrow> failure_class \<Rightarrow> string \<Rightarrow> fingerprint" where
  "NewFailureFingerprint norm sha criterion component operation class err =
     (let c = TrimSpace criterion; p = TrimSpace component; q = TrimSpace operation; e = norm err in
      \<lparr>ff_criterion = c, ff_component = p, ff_operation = q, ff_class = class, ff_error = e,
       ff_digest = ''ffp_'' @ hex_of (sha (c @ NUL # p @ NUL # q @ NUL # class_text class @ NUL # e)),
       ff_occurrences = 1\<rparr>)"

definition SameFailureFingerprint :: "fingerprint \<Rightarrow> fingerprint \<Rightarrow> bool" where
  "SameFailureFingerprint a b \<longleftrightarrow> ff_digest a \<noteq> [] \<and> ff_digest a = ff_digest b"

text \<open>The operation of a task that is known before it runs.\<close>

definition stableOperation :: "'r work_item option \<Rightarrow> string" where
  "stableOperation item =
     (case item of None \<Rightarrow> []
      | Some x \<Rightarrow>
          let c = ti_contract x in
          (case wc_verify_spec c of
             Some (kind, command) \<Rightarrow>
               if kind \<noteq> [] then ''verify:'' @ kind
               else if TrimSpace command \<noteq> [] then ''verify:'' @ command
               else if TrimSpace (wc_verify c) \<noteq> [] then ''verify:'' @ wc_verify c
               else if TrimSpace (wc_reconcile c) \<noteq> [] then ''reconcile:'' @ wc_reconcile c
               else ''task:'' @ kind_text (item_kind x)
           | None \<Rightarrow>
               if TrimSpace (wc_verify c) \<noteq> [] then ''verify:'' @ wc_verify c
               else if TrimSpace (wc_reconcile c) \<noteq> [] then ''reconcile:'' @ wc_reconcile c
               else ''task:'' @ kind_text (item_kind x)))"

section \<open>Recovery hypotheses\<close>

text \<open>The validations, as whether no error is returned.\<close>

definition ValidateHypothesis :: "recovery_hypothesis \<Rightarrow> bool \<Rightarrow> string \<Rightarrow> bool" where
  "ValidateHypothesis h repeated prior \<longleftrightarrow>
     list_all (\<lambda>v. TrimSpace v \<noteq> []) [rh_observed h, rh_cause h, rh_change h, rh_expected h]
     \<and> rh_strategy h \<noteq> []
     \<and> \<not> (repeated \<and> (prior = rh_strategy h \<or> TrimSpace (rh_difference h) = []))"

definition ValidateForCriterion :: "recovery_hypothesis \<Rightarrow> string \<Rightarrow> bool \<Rightarrow> string \<Rightarrow> bool" where
  "ValidateForCriterion h criterion repeated prior \<longleftrightarrow>
     ValidateHypothesis h repeated prior
     \<and> \<not> (repeated \<and> TrimSpace criterion = [])
     \<and> \<not> (TrimSpace criterion \<noteq> [] \<and> TrimSpace (rh_criterion h) \<noteq> TrimSpace criterion)"

definition ValidateForTask :: "recovery_hypothesis \<Rightarrow> string \<Rightarrow> bool \<Rightarrow> string \<Rightarrow> task_def \<Rightarrow> bool" where
  "ValidateForTask h criterion repeated prior task =
     (if \<not> ValidateForCriterion h criterion repeated prior then False
      else if \<not> repeated \<or> task_replayable task then True
      else if td_recovery task = Some RecoveryNever \<and> rh_strategy h \<noteq> ''human'' then False
      else if rh_strategy h \<noteq> ''reconcile'' \<and> TrimSpace (rh_plan h) = [] then False
      else True)"

section \<open>Blocking\<close>

definition markBlockedFingerprint :: "string \<Rightarrow> thrash \<Rightarrow> thrash" where
  "markBlockedFingerprint digest s =
     s\<lparr>at_hard := True,
       at_fingerprints := (if digest \<noteq> [] then insert digest (at_fingerprints s) else at_fingerprints s)\<rparr>"

definition markBlockedCriterion :: "string \<Rightarrow> task_kind \<Rightarrow> string \<Rightarrow> thrash \<Rightarrow> thrash" where
  "markBlockedCriterion criterion kind digest s =
     (let c = TrimSpace criterion in
      if c = [] then s
      else markBlockedFingerprint digest
             (s\<lparr>at_hard := True, at_criteria := insert c (at_criteria s),
                at_scopes := insert (antiThrashingScopeKey c kind) (at_scopes s)\<rparr>))"

definition block_kind :: "task_kind \<Rightarrow> thrash \<Rightarrow> thrash" where
  "block_kind kind s =
     s\<lparr>at_scopes := insert (antiThrashingScopeKey [] kind) (at_scopes s),
       at_no_diagnostics := (at_no_diagnostics s \<or> kind = TaskKindDiagnostic),
       at_no_repairs := (at_no_repairs s \<or> kind = TaskKindRepair)\<rparr>"

definition markBlockedScope :: "'r work_item option \<Rightarrow> string \<Rightarrow> thrash \<Rightarrow> thrash" where
  "markBlockedScope item digest s =
     (let s = markBlockedFingerprint digest (s\<lparr>at_hard := True\<rparr>) in
      case item of None \<Rightarrow> s
      | Some x \<Rightarrow>
          let s = fold (\<lambda>c. markBlockedCriterion c (item_kind x) digest) (item_advances x) s in
          if item_advances x \<noteq> [] then s else block_kind (item_kind x) s)"

definition rememberRejectedStrategy :: "string \<Rightarrow> string \<Rightarrow> thrash \<Rightarrow> thrash" where
  "rememberRejectedStrategy digest strategy s =
     (if digest = [] \<or> strategy = [] then s
      else s\<lparr>at_rejected := insert (digest, strategy) (at_rejected s)\<rparr>)"

definition strategyWasRejected :: "thrash \<Rightarrow> string \<Rightarrow> string \<Rightarrow> bool" where
  "strategyWasRejected s digest strategy \<longleftrightarrow> strategy \<noteq> [] \<and> (digest, strategy) \<in> at_rejected s"

section \<open>Systemic scopes\<close>

definition systemic_tasks :: "thrash \<Rightarrow> string \<Rightarrow> string set" where
  "systemic_tasks s key = (case map_of (at_systemic s) key of None \<Rightarrow> {} | Some ids \<Rightarrow> ids)"

definition systemicTaskCount :: "thrash \<Rightarrow> string \<Rightarrow> nat" where
  "systemicTaskCount s key = card (systemic_tasks s key)"

definition add_systemic :: "string \<Rightarrow> string \<Rightarrow> thrash \<Rightarrow> thrash" where
  "add_systemic key task s =
     s\<lparr>at_systemic := AList.update key (insert task (systemic_tasks s key)) (at_systemic s)\<rparr>"

definition escalate :: "string \<Rightarrow> thrash \<Rightarrow> thrash" where
  "escalate key s =
     s\<lparr>at_escalated := insert key (at_escalated s), at_escalations := at_escalations s + 1\<rparr>"

definition recordSystemic ::
  "'r work_item option \<Rightarrow> fingerprint \<Rightarrow> reliability \<Rightarrow> thrash \<Rightarrow> bool \<times> thrash" where
  "recordSystemic item f limits s =
     (let key = systemicScopeKey f;
          task = (case item of None \<Rightarrow> [] | Some x \<Rightarrow> TrimSpace (ti_id x)) in
      if rl_systemic limits \<le> 0 then (False, s)
      else if task = [] then (False, s)
      else let s = add_systemic key task s in
        if key \<in> at_escalated s then (False, s)
        else if rl_systemic limits \<le> int (systemicTaskCount s key) then
          let s = escalate key s in
          (True, if rl_hard limits
                 then s\<lparr>at_systemic_scopes := insert key (at_systemic_scopes s),
                        at_prefixes := insert (systemicScopePrefixKey (ff_component f) (ff_operation f)) (at_prefixes s),
                        at_hard := True\<rparr>
                 else s)
        else (False, s))"

definition threshold_scope :: "reliability \<Rightarrow> string \<Rightarrow> thrash \<Rightarrow> thrash" where
  "threshold_scope limits key s =
     (if int (systemicTaskCount s key) < rl_systemic limits then s
      else let s = (if key \<in> at_escalated s then s else escalate key s) in
        if rl_hard limits then
          s\<lparr>at_systemic_scopes := insert key (at_systemic_scopes s),
            at_prefixes := (case splitSystemicScopePrefix key of
               None \<Rightarrow> at_prefixes s
             | Some (c, p) \<Rightarrow> insert (systemicScopePrefixKey c p) (at_prefixes s)),
            at_hard := True\<rparr>
        else s)"

definition applySystemicThreshold :: "reliability \<Rightarrow> thrash \<Rightarrow> thrash" where
  "applySystemicThreshold limits s =
     (if rl_systemic limits \<le> 0 then s else fold (threshold_scope limits) (map fst (at_systemic s)) s)"

definition blockReasonSystemic :: "thrash \<Rightarrow> task_def \<Rightarrow> 'r work_item option \<Rightarrow> bool" where
  "blockReasonSystemic s task item \<longleftrightarrow>
     at_systemic_scopes s \<noteq> {} \<and>
     ((case item of None \<Rightarrow> False
       | Some x \<Rightarrow> list_ex (\<lambda>f. systemicScopeKey f \<in> at_systemic_scopes s) (ti_fingerprints x))
      \<or> (let component = TrimSpace (td_agent task); operation = stableOperation item in
         component \<noteq> [] \<and> operation \<noteq> [] \<and> systemicScopePrefixKey component operation \<in> at_prefixes s))"

definition systemicBlockDisposition :: "thrash \<Rightarrow> task_def \<Rightarrow> 'r work_item option \<Rightarrow> disposition" where
  "systemicBlockDisposition s task item =
     (let component = TrimSpace (td_agent task); operation = stableOperation item;
          fingerprinted = (case item of None \<Rightarrow> {} | Some x \<Rightarrow> set (map systemicScopeKey (ti_fingerprints x))) in
      if \<exists>key\<in>at_systemic_scopes s.
           (case SplitN 4 NUL key of
              c # p # class # _ \<Rightarrow>
                (key \<in> fingerprinted \<or> c = component \<and> p = operation)
                \<and> SystemicDispositionForClass class = NeedsHuman
            | _ \<Rightarrow> True)
      then NeedsHuman else ReplanRequired)"

section \<open>The decision before a dispatch\<close>

definition taskAdvancesCriterion :: "task_def \<Rightarrow> string \<Rightarrow> bool" where
  "taskAdvancesCriterion task criterion \<longleftrightarrow>
     TrimSpace criterion = [] \<or> list_ex (\<lambda>c. TrimSpace c = TrimSpace criterion) (td_advances task)"

definition blocksTaskByLimits :: "thrash \<Rightarrow> task_def \<Rightarrow> 'r work_item option \<Rightarrow> bool" where
  "blocksTaskByLimits s task item =
     (if (case item of None \<Rightarrow> False
          | Some x \<Rightarrow> list_ex (\<lambda>f. (ff_criterion f = [] \<or> taskAdvancesCriterion task (ff_criterion f))
                                  \<and> ff_digest f \<in> at_fingerprints s) (ti_fingerprints x))
      then True
      else if at_scopes s \<noteq> {} then
        (if td_advances task = [] then antiThrashingScopeKey [] (td_kind task) \<in> at_scopes s
         else list_ex (\<lambda>c. antiThrashingScopeKey c (td_kind task) \<in> at_scopes s) (td_advances task))
      else if list_ex (\<lambda>c. c \<in> at_criteria s) (td_advances task) then True
      else td_advances task = [] \<and>
        (td_kind task = TaskKindDiagnostic \<and> at_no_diagnostics s \<or> td_kind task = TaskKindRepair \<and> at_no_repairs s))"

definition blocksTask :: "thrash \<Rightarrow> task_def \<Rightarrow> 'r work_item option \<Rightarrow> bool" where
  "blocksTask s task item \<longleftrightarrow> at_hard s \<and> (blockReasonSystemic s task item \<or> blocksTaskByLimits s task item)"

definition dispatchBlock :: "thrash \<Rightarrow> task_def \<Rightarrow> 'r work_item option \<Rightarrow> disposition option" where
  "dispatchBlock s task item =
     (if \<not> at_hard s then None
      else if blocksTaskByLimits s task item then Some NeedsHuman
      else if blockReasonSystemic s task item then Some (systemicBlockDisposition s task item)
      else None)"

section \<open>Recording a failure\<close>

definition recordDiagnostic :: "'r work_item option \<Rightarrow> thrash \<Rightarrow> bool \<times> thrash" where
  "recordDiagnostic item s =
     (case item of None \<Rightarrow> (False, s)
      | Some x \<Rightarrow>
          let key = (if ti_id x = [] then wc_desc (ti_contract x) else ti_id x) in
          if key \<in> at_seen s then (False, s)
          else (True, s\<lparr>at_seen := insert key (at_seen s), at_diagnostics := at_diagnostics s + 1\<rparr>))"

definition at_limit :: "int \<Rightarrow> int \<Rightarrow> bool" where
  "at_limit maximum n \<longleftrightarrow> 0 < maximum \<and> maximum \<le> n"

definition count_strategy :: "string \<Rightarrow> string \<Rightarrow> thrash \<Rightarrow> thrash" where
  "count_strategy digest strategy s =
     (if strategy = [] then s
      else s\<lparr>at_changes := (if at_strategy s digest \<noteq> [] \<and> at_strategy s digest \<noteq> strategy
                             then at_changes s + 1 else at_changes s),
             at_strategy := (at_strategy s)(digest := strategy)\<rparr>)"

definition count_repair :: "string \<Rightarrow> thrash \<Rightarrow> thrash" where
  "count_repair c s = s\<lparr>at_repairs := (at_repairs s)(c := at_repairs s c + 1)\<rparr>"

definition count_kind :: "'r work_item option \<Rightarrow> thrash \<Rightarrow> thrash" where
  "count_kind item s =
     (case item of None \<Rightarrow> s
      | Some x \<Rightarrow>
          if item_kind x = TaskKindDiagnostic then snd (recordDiagnostic item s)
          else if item_kind x = TaskKindRepair then fold count_repair (item_advances x) s
          else s)"

text \<open>The limits a failure has reached, as the triple of fingerprint, diagnostic and repair limit.\<close>

definition limits_reached ::
  "'r work_item option \<Rightarrow> fingerprint \<Rightarrow> reliability \<Rightarrow> thrash \<Rightarrow> bool \<times> bool \<times> bool" where
  "limits_reached item f limits s =
     (at_limit (rl_same limits) (at_counts s (ff_digest f)),
      at_limit (rl_diagnostics limits) (at_diagnostics s),
      (case item of None \<Rightarrow> False
       | Some x \<Rightarrow> item_kind x = TaskKindRepair
                   \<and> list_ex (\<lambda>c. at_limit (rl_repairs limits) (at_repairs s c)) (item_advances x)))"

definition block_repairs :: "'r work_item \<Rightarrow> string \<Rightarrow> reliability \<Rightarrow> thrash \<Rightarrow> thrash" where
  "block_repairs x digest limits s =
     fold (\<lambda>c s. if at_limit (rl_repairs limits) (at_repairs s c)
                 then markBlockedCriterion c (item_kind x) digest s else s)
       (item_advances x) s"

definition count_failure :: "'r work_item option \<Rightarrow> fingerprint \<Rightarrow> string \<Rightarrow> thrash \<Rightarrow> thrash" where
  "count_failure item f strategy s =
     count_kind item (count_strategy (ff_digest f) strategy
       (s\<lparr>at_counts := (at_counts s)(ff_digest f := at_counts s (ff_digest f) + 1)\<rparr>))"

definition warn :: "bool \<Rightarrow> thrash \<Rightarrow> thrash" where
  "warn b s = (if b then s\<lparr>at_warnings := at_warnings s + 1\<rparr> else s)"

definition enforce_limits ::
  "'r work_item option \<Rightarrow> string \<Rightarrow> reliability \<Rightarrow> bool \<times> bool \<times> bool \<Rightarrow> thrash \<Rightarrow> thrash" where
  "enforce_limits item d limits reached s =
     (case reached of (same, diag, repair) \<Rightarrow>
        if (same \<or> diag \<or> repair) \<and> rl_hard limits then
          let s = (if same then markBlockedFingerprint d s else s);
              s = (if diag then markBlockedScope item d s else s) in
          (case item of Some x \<Rightarrow> if repair then block_repairs x d limits s else s | None \<Rightarrow> s)
        else s)"

text \<open>\<open>record\<close> of the code; the triple is (repeated, limited, systemic).\<close>

definition record_failure ::
  "'r work_item option \<Rightarrow> fingerprint \<Rightarrow> string \<Rightarrow> reliability \<Rightarrow> thrash \<Rightarrow> (bool \<times> bool \<times> bool) \<times> thrash" where
  "record_failure item f strategy limits s =
     (let repeated = (2 \<le> at_counts s (ff_digest f) + 1);
          s = count_failure item f strategy s;
          reached = limits_reached item f limits s;
          limited = (reached \<noteq> (False, False, False));
          (systemic, s) = recordSystemic item f limits s in
      ((repeated, limited, systemic),
       enforce_limits item (ff_digest f) limits reached (warn (repeated \<or> limited \<or> systemic) s)))"

definition recordDiagnosticCompletion :: "'r work_item option \<Rightarrow> reliability \<Rightarrow> thrash \<Rightarrow> thrash" where
  "recordDiagnosticCompletion item limits s =
     (case item of None \<Rightarrow> s
      | Some x \<Rightarrow>
          if item_kind x \<noteq> TaskKindDiagnostic \<or> ti_status x \<noteq> TaskDone then s
          else let (fresh, s) = recordDiagnostic item s in
            if fresh \<and> at_limit (rl_diagnostics limits) (at_diagnostics s) then
              let s = s\<lparr>at_warnings := at_warnings s + 1\<rparr> in
              if rl_hard limits then markBlockedScope item [] s else s
            else s)"

section \<open>Progress\<close>

definition lift_criterion :: "string \<Rightarrow> thrash \<Rightarrow> thrash" where
  "lift_criterion c s =
     s\<lparr>at_repairs := (at_repairs s)(c := 0), at_criteria := at_criteria s - {c},
       at_scopes := at_scopes s - antiThrashingScopeKey c ` {TaskKindOutcome, TaskKindRepair, TaskKindDiagnostic}\<rparr>"

definition lift_fingerprint :: "string \<Rightarrow> thrash \<Rightarrow> thrash" where
  "lift_fingerprint d s =
     s\<lparr>at_fingerprints := at_fingerprints s - {d}, at_counts := (at_counts s)(d := 0),
       at_strategy := (at_strategy s)(d := []), at_rejected := {r \<in> at_rejected s. fst r \<noteq> d}\<rparr>"

text \<open>A fingerprint without a criterion is lifted only when its task has one criterion, which advanced.\<close>

definition fingerprint_advanced :: "string list \<Rightarrow> 'r work_item \<Rightarrow> fingerprint \<Rightarrow> bool" where
  "fingerprint_advanced advanced x f \<longleftrightarrow>
     (if TrimSpace (ff_criterion f) \<noteq> [] then TrimSpace (ff_criterion f) \<in> set advanced
      else case item_advances x of [c] \<Rightarrow> TrimSpace c \<in> set advanced | _ \<Rightarrow> False)"

definition still_blocked :: "thrash \<Rightarrow> bool" where
  "still_blocked s \<longleftrightarrow> at_criteria s \<noteq> {} \<or> at_scopes s \<noteq> {} \<or> at_fingerprints s \<noteq> {} \<or>
     at_systemic_scopes s \<noteq> {} \<or> at_prefixes s \<noteq> {} \<or> at_no_diagnostics s \<or> at_no_repairs s"

definition resetAfterCriterionProgress :: "string list \<Rightarrow> 'r work_item list \<Rightarrow> thrash \<Rightarrow> thrash" where
  "resetAfterCriterionProgress criteria items s =
     (let advanced = filter (\<lambda>c. c \<noteq> []) (map TrimSpace criteria);
          s = fold lift_criterion advanced s;
          s = fold (\<lambda>x s. fold (\<lambda>f. lift_fingerprint (ff_digest f))
                 (filter (fingerprint_advanced advanced x) (ti_fingerprints x)) s) items s in
      s\<lparr>at_hard := still_blocked s\<rparr>)"

section \<open>Rebuilding after a restart\<close>

definition failureOccurrenceCount :: "'r work_item \<Rightarrow> int" where
  "failureOccurrenceCount x =
     fold (\<lambda>f total. if ff_digest f = [] then total else i64 (total + at_least_one (ff_occurrences f)))
       (ti_fingerprints x) 0"

definition repairAttemptCount :: "'r work_item \<Rightarrow> int" where
  "repairAttemptCount x =
     (if item_kind x \<noteq> TaskKindRepair then 0
      else let attempts = failureOccurrenceCount x;
               attempts = (if ti_status x = TaskDone then i64 (attempts + 1) else attempts);
               distinct_failures = int (card (set (map ff_digest (ti_fingerprints x)) - {[]}));
               attempts = (if attempts < distinct_failures then distinct_failures else attempts);
               attempts = (if 0 < ti_retries x \<and> attempts < i64 (ti_retries x + 1)
                           then i64 (ti_retries x + 1) else attempts) in
           if attempts = 0 \<and> ti_status x = TaskDone then 1 else attempts)"

definition countedFailureFingerprints :: "'r work_item \<Rightarrow> fingerprint list" where
  "countedFailureFingerprints x =
     (if ti_status x \<noteq> TaskDone \<or> item_advances x \<noteq> [] then ti_fingerprints x
      else filter (\<lambda>f. TrimSpace (ff_criterion f) \<noteq> []) (ti_fingerprints x))"

definition strategy_of :: "'r work_item \<Rightarrow> string" where
  "strategy_of x = (case wc_hypothesis (ti_contract x) of None \<Rightarrow> [] | Some h \<Rightarrow> rh_strategy h)"

text \<open>The check of a repair's hypothesis while a repeated failure is replayed.\<close>

definition replay_hypothesis :: "'r work_item \<Rightarrow> fingerprint \<Rightarrow> int \<Rightarrow> reliability \<Rightarrow> thrash \<Rightarrow> thrash" where
  "replay_hypothesis x f occurrences limits s =
     (let d = ff_digest f; strategy = strategy_of x; prior = at_strategy s d;
          repeated = (0 < at_counts s d \<or> 1 < occurrences) in
      if \<not> (repeated \<and> item_kind x = TaskKindRepair) then s
      else let prior = (if prior = [] \<and> 1 < occurrences then strategy else prior);
               invalid = (strategyWasRejected s d strategy \<or>
                 (case wc_hypothesis (ti_contract x) of None \<Rightarrow> True
                  | Some h \<Rightarrow> \<not> ValidateForTask h (ff_criterion f) True prior (wc_def (ti_contract x)))) in
        if \<not> invalid then s
        else let s = rememberRejectedStrategy d strategy s in
          if \<not> rl_hard limits then s
          else if TrimSpace (ff_criterion f) \<noteq> [] then markBlockedCriterion (ff_criterion f) (item_kind x) d s
          else markBlockedFingerprint d s)"

definition replay_fingerprint :: "'r work_item \<Rightarrow> reliability \<Rightarrow> fingerprint \<Rightarrow> thrash \<Rightarrow> thrash" where
  "replay_fingerprint x limits f s =
     (let d = ff_digest f; occurrences = at_least_one (ff_occurrences f) in
      if d = [] then s
      else let s = replay_hypothesis x f occurrences limits s;
               s = s\<lparr>at_counts := (at_counts s)(d := i64 (at_counts s d + occurrences))\<rparr>;
               s = count_strategy d (strategy_of x) s in
        if 0 < rl_systemic limits \<and> TrimSpace (ti_id x) \<noteq> []
        then add_systemic (systemicScopeKey f) (ti_id x) s else s)"

definition replay_item :: "'r work_item list \<Rightarrow> reliability \<Rightarrow> 'r work_item \<Rightarrow> thrash \<Rightarrow> thrash" where
  "replay_item items limits x s =
     (let s = (if item_kind x = TaskKindDiagnostic \<and>
                  (ti_fingerprints x \<noteq> [] \<or> ti_status x \<in> {TaskDone, TaskError, TaskBlocked})
               then snd (recordDiagnostic (Some x) s) else s);
          s = (if item_kind x = TaskKindRepair then
                 fold (\<lambda>c s. s\<lparr>at_repairs := (at_repairs s)(c := i64 (at_repairs s c + repairAttemptCount x))\<rparr>)
                   (item_advances x) s
               else s);
          s = fold (replay_fingerprint x limits) (countedFailureFingerprints x) s in
      if ti_progress x = ProgressAdvanced then
        resetAfterCriterionProgress (if ti_criteria x = [] then item_advances x else ti_criteria x) items
          (s\<lparr>at_diagnostics := 0, at_seen := {}\<rparr>)
      else s)"

definition enforce_fingerprint :: "reliability \<Rightarrow> fingerprint \<Rightarrow> thrash \<Rightarrow> thrash" where
  "enforce_fingerprint limits f s =
     (let d = ff_digest f in
      if d = [] then s
      else let limited = at_limit (rl_same limits) (at_counts s d);
               s = (if limited \<and> rl_hard limits then markBlockedFingerprint d s else s) in
        if limited \<or> 2 \<le> at_counts s d then s\<lparr>at_warnings := at_warnings s + 1\<rparr> else s)"

definition enforce_item :: "reliability \<Rightarrow> 'r work_item \<Rightarrow> thrash \<Rightarrow> thrash" where
  "enforce_item limits x s =
     (let s = fold (enforce_fingerprint limits) (countedFailureFingerprints x) s;
          s = (if item_kind x = TaskKindRepair \<and> 0 < rl_repairs limits \<and> rl_hard limits
               then block_repairs x [] limits s else s) in
      if item_kind x = TaskKindDiagnostic \<and> at_limit (rl_diagnostics limits) (at_diagnostics s) \<and> rl_hard limits
      then markBlockedScope (Some x) [] s else s)"

definition rebuild :: "'r work_item list \<Rightarrow> reliability \<Rightarrow> thrash" where
  "rebuild items limits =
     applySystemicThreshold limits
       (fold (enforce_item limits) items (fold (replay_item items limits) items reset_thrash))"

end
