(* ===== verification/Anti_Thrashing_Safety.thy ===== *)
theory Anti_Thrashing_Safety
  imports Anti_Thrashing Todo_Lifecycle
begin

text \<open>
  What the circuit breaker promises: no recorded block is ignored, a failure that has reached its
  limit stops every further dispatch, and what a restart rebuilds from the todo list enforces exactly what the
  live state enforced, where it does and where it does not.
\<close>

section \<open>No block is ignored\<close>

text \<open>
  The states of a run, beside the items of its todo list, which change as they like: failures, completed
  diagnostics, rejected hypotheses, progress, restarts.
\<close>

inductive thrash_reach :: "reliability \<Rightarrow> 'r work_item list \<Rightarrow> thrash \<Rightarrow> bool" for limits where
  fresh: "thrash_reach limits items reset_thrash"
| todo: "thrash_reach limits items s \<Longrightarrow> thrash_reach limits items' s"
| failure: "thrash_reach limits items s \<Longrightarrow>
    thrash_reach limits items (snd (record_failure (find (\<lambda>x. ti_id x = i) items) f strategy limits s))"
| diagnostic: "thrash_reach limits items s \<Longrightarrow>
    thrash_reach limits items (recordDiagnosticCompletion (find (\<lambda>x. ti_id x = i) items) limits s)"
| rejected: "thrash_reach limits items s \<Longrightarrow> thrash_reach limits items (rememberRejectedStrategy d strategy s)"
| scope: "thrash_reach limits items s \<Longrightarrow>
    thrash_reach limits items (markBlockedScope (find (\<lambda>x. ti_id x = i) items) d s)"
| progress: "thrash_reach limits items s \<Longrightarrow>
    thrash_reach limits items (resetAfterCriterionProgress criteria items (s\<lparr>at_diagnostics := 0, at_seen := {}\<rparr>))"
| restart: "thrash_reach limits items s \<Longrightarrow> thrash_reach limits items (rebuild items limits)"

definition hard_ok :: "thrash \<Rightarrow> bool" where
  "hard_ok s \<longleftrightarrow> (still_blocked s \<longrightarrow> at_hard s) \<and> (at_prefixes s \<noteq> {} \<longrightarrow> at_systemic_scopes s \<noteq> {})"

text \<open>The fields enforcement reads; an update of the others keeps the invariant.\<close>

definition same_blocks :: "thrash \<Rightarrow> thrash \<Rightarrow> bool" where
  "same_blocks s u \<longleftrightarrow> at_hard u = at_hard s \<and> at_criteria u = at_criteria s \<and> at_scopes u = at_scopes s \<and>
     at_fingerprints u = at_fingerprints s \<and> at_no_diagnostics u = at_no_diagnostics s \<and>
     at_no_repairs u = at_no_repairs s \<and> at_systemic_scopes u = at_systemic_scopes s \<and> at_prefixes u = at_prefixes s"

lemma same_blocks_hard: "same_blocks s u \<Longrightarrow> hard_ok s \<Longrightarrow> hard_ok u"
  by (simp add: same_blocks_def hard_ok_def still_blocked_def)

lemma fold_hard: "hard_ok s \<Longrightarrow> (\<And>x s. hard_ok s \<Longrightarrow> hard_ok (f x s)) \<Longrightarrow> hard_ok (fold f xs s)"
  by (induction xs arbitrary: s) simp_all

lemma hard_reset: "hard_ok reset_thrash"
  by (simp add: hard_ok_def still_blocked_def reset_thrash_def)

lemma hard_fingerprint: "hard_ok s \<Longrightarrow> hard_ok (markBlockedFingerprint d s)"
  by (simp add: hard_ok_def markBlockedFingerprint_def)

lemma hard_criterion: "hard_ok s \<Longrightarrow> hard_ok (markBlockedCriterion c k d s)"
  by (simp add: hard_ok_def markBlockedCriterion_def markBlockedFingerprint_def Let_def)

lemma criterion_hard: "at_hard s \<Longrightarrow> at_hard (markBlockedCriterion c k d s)"
  by (simp add: markBlockedCriterion_def markBlockedFingerprint_def Let_def)

lemma fold_criterion_hard: "at_hard s \<Longrightarrow> at_hard (fold (\<lambda>c. markBlockedCriterion c k d) cs s)"
  by (induction cs arbitrary: s) (simp_all add: criterion_hard)

lemma hard_kind: "at_hard u \<Longrightarrow> hard_ok u \<Longrightarrow> hard_ok (block_kind k u)"
  by (simp add: hard_ok_def block_kind_def)

lemma if_both: "P a \<Longrightarrow> P b \<Longrightarrow> P (if c then a else b)"
  by simp

lemma hard_scope: "hard_ok s \<Longrightarrow> hard_ok (markBlockedScope item d s)"
proof -
  assume ok: "hard_ok s"
  let ?s = "markBlockedFingerprint d (s\<lparr>at_hard := True\<rparr>)"
  have a: "hard_ok ?s" "at_hard ?s" using ok by (simp_all add: hard_ok_def markBlockedFingerprint_def)
  show ?thesis
  proof (cases item)
    case None
    with a show ?thesis by (simp add: markBlockedScope_def Let_def)
  next
    case (Some x)
    let ?u = "fold (\<lambda>c. markBlockedCriterion c (item_kind x) d) (item_advances x) ?s"
    have "hard_ok ?u" "at_hard ?u" using a by (auto intro: fold_hard hard_criterion fold_criterion_hard)
    then have "hard_ok (if item_advances x \<noteq> [] then ?u else block_kind (item_kind x) ?u)"
      by (intro if_both [where P = hard_ok] hard_kind)
    then show ?thesis by (simp only: markBlockedScope_def Let_def Some option.case)
  qed
qed

lemma hard_recordSystemic: "hard_ok s \<Longrightarrow> hard_ok (snd (recordSystemic item f limits s))"
  by (auto simp: recordSystemic_def Let_def hard_ok_def still_blocked_def escalate_def add_systemic_def
      systemicTaskCount_def)

lemma hard_threshold: "hard_ok s \<Longrightarrow> hard_ok (threshold_scope limits k s)"
  by (auto simp: threshold_scope_def Let_def hard_ok_def still_blocked_def escalate_def split: option.split)

lemma hard_block_repairs: "hard_ok s \<Longrightarrow> hard_ok (block_repairs x d limits s)"
  unfolding block_repairs_def by (rule fold_hard) (simp_all add: hard_criterion)

interpretation same_blocks: step_preorder same_blocks
  by unfold_locales (simp_all add: same_blocks_def)

lemmas same_blocks_refl [simp] = same_blocks.idle
lemmas same_blocks_trans = same_blocks.chain
lemmas same_fold = same_blocks.run_fold

lemma same_counters:
  "same_blocks s (s\<lparr>at_counts := c\<rparr>)" "same_blocks s (s\<lparr>at_repairs := r\<rparr>)"
  "same_blocks s (s\<lparr>at_warnings := w\<rparr>)" "same_blocks s (s\<lparr>at_diagnostics := n, at_seen := z\<rparr>)"
  "same_blocks s (s\<lparr>at_seen := z, at_diagnostics := n\<rparr>)"
  "same_blocks s (count_strategy d st s)" "same_blocks s (count_repair k s)"
  "same_blocks s (snd (recordDiagnostic item s))" "same_blocks s (rememberRejectedStrategy d st s)"
  "same_blocks s (add_systemic k task s)"
  by (simp_all add: same_blocks_def count_strategy_def count_repair_def recordDiagnostic_def Let_def
      rememberRejectedStrategy_def add_systemic_def split: option.split)

lemma same_count_kind: "same_blocks s (count_kind item s)"
  by (auto simp: count_kind_def intro: same_counters same_fold split: option.split)

lemma hard_enforce: "hard_ok s \<Longrightarrow> hard_ok (enforce_limits item d limits reached s)"
  by (auto simp: enforce_limits_def Let_def intro: hard_fingerprint hard_scope hard_block_repairs
      split: option.split prod.split)

lemma hard_record: "hard_ok s \<Longrightarrow> hard_ok (snd (record_failure item f strategy limits s))"
proof -
  assume ok: "hard_ok s"
  let ?s = "count_failure item f strategy s"
  obtain sys u where r: "recordSystemic item f limits ?s = (sys, u)" by fastforce
  have "hard_ok ?s" unfolding count_failure_def
    by (intro same_blocks_hard [OF same_count_kind] same_blocks_hard [OF same_counters(6)]
        same_blocks_hard [OF same_counters(1)] ok)
  then have "hard_ok u" using hard_recordSystemic [of ?s item f limits] r by simp
  then have "hard_ok (warn b u)" for b
    unfolding warn_def using same_blocks_hard [OF same_counters(3)] by simp
  then show ?thesis by (simp add: record_failure_def Let_def r hard_enforce)
qed

lemma same_replay: "hard_ok s \<Longrightarrow> hard_ok (replay_fingerprint x limits f s)"
proof -
  assume ok: "hard_ok s"
  have h: "hard_ok (replay_hypothesis x f n limits s)" for n
    using ok same_blocks_hard [OF same_counters(9) ok]
    by (auto simp: replay_hypothesis_def Let_def intro: hard_criterion hard_fingerprint)
  let ?u = "replay_hypothesis x f (at_least_one (ff_occurrences f)) limits s"
  have "hard_ok (count_strategy d st (?u\<lparr>at_counts := c\<rparr>))" for d st c
    by (intro same_blocks_hard [OF same_counters(6)] same_blocks_hard [OF same_counters(1)] h)
  then show ?thesis using ok same_blocks_hard [OF same_counters(10)] by (simp add: replay_fingerprint_def Let_def)
qed

definition same_systemic :: "thrash \<Rightarrow> thrash \<Rightarrow> bool" where
  "same_systemic s u \<longleftrightarrow> at_prefixes u = at_prefixes s \<and> at_systemic_scopes u = at_systemic_scopes s"

interpretation same_systemic: step_preorder same_systemic
  by unfold_locales (simp_all add: same_systemic_def)

lemmas systemic_fold = same_systemic.run_fold

lemma lift_systemic: "same_systemic s (lift_criterion c s)" "same_systemic s (lift_fingerprint d s)"
  by (simp_all add: same_systemic_def lift_criterion_def lift_fingerprint_def)

lemma hard_progress:
  assumes "hard_ok s"
  shows "hard_ok (resetAfterCriterionProgress cs items s)"
proof -
  let ?a = "filter (\<lambda>c. c \<noteq> []) (map TrimSpace cs)"
  let ?u = "fold (\<lambda>x s. fold (\<lambda>f. lift_fingerprint (ff_digest f))
      (filter (fingerprint_advanced ?a x) (ti_fingerprints x)) s) items (fold lift_criterion ?a s)"
  have "same_systemic s (fold lift_criterion ?a s)" by (intro systemic_fold lift_systemic)
  moreover have "same_systemic (fold lift_criterion ?a s) ?u" by (intro systemic_fold lift_systemic)
  ultimately have "same_systemic s ?u" by (simp add: same_systemic_def)
  with assms have "hard_ok (?u\<lparr>at_hard := still_blocked ?u\<rparr>)"
    by (simp add: hard_ok_def same_systemic_def still_blocked_def)
  then show ?thesis by (simp add: resetAfterCriterionProgress_def Let_def)
qed

lemma hard_replay_item: "hard_ok s \<Longrightarrow> hard_ok (replay_item items limits x s)"
proof -
  assume ok: "hard_ok s"
  define s1 where "s1 = (if item_kind x = TaskKindDiagnostic \<and>
      (ti_fingerprints x \<noteq> [] \<or> ti_status x \<in> {TaskDone, TaskError, TaskBlocked})
      then snd (recordDiagnostic (Some x) s) else s)"
  define s2 where "s2 = (if item_kind x = TaskKindRepair then
      fold (\<lambda>c s. s\<lparr>at_repairs := (at_repairs s)(c := i64 (at_repairs s c + repairAttemptCount x))\<rparr>) (item_advances x) s1
      else s1)"
  have "same_blocks s s1" by (simp add: s1_def same_counters)
  moreover have "same_blocks s1 s2" by (simp add: s2_def same_fold same_counters)
  ultimately have "hard_ok s2" using same_blocks_hard [OF same_blocks_trans ok] by blast
  then have s3: "hard_ok (fold (replay_fingerprint x limits) (countedFailureFingerprints x) s2)"
    by (rule fold_hard) (rule same_replay)
  have "hard_ok (resetAfterCriterionProgress cs items
      ((fold (replay_fingerprint x limits) (countedFailureFingerprints x) s2)\<lparr>at_diagnostics := 0, at_seen := {}\<rparr>))" for cs
    by (rule hard_progress, rule same_blocks_hard [OF same_counters(4) s3])
  with s3 show ?thesis unfolding replay_item_def Let_def s1_def [symmetric] s2_def [symmetric] by simp
qed

lemma hard_enforce_item: "hard_ok s \<Longrightarrow> hard_ok (enforce_item limits x s)"
proof -
  assume ok: "hard_ok s"
  have f: "hard_ok (enforce_fingerprint limits f s)" if "hard_ok s" for f s
    using that same_blocks_hard [OF same_counters(3)] by (simp add: enforce_fingerprint_def Let_def hard_fingerprint)
  have "hard_ok (fold (enforce_fingerprint limits) (countedFailureFingerprints x) s)"
    by (rule fold_hard [OF ok f])
  then show ?thesis by (simp add: enforce_item_def Let_def hard_block_repairs hard_scope)
qed

lemma hard_rebuild: "hard_ok (rebuild items limits)"
proof -
  have "hard_ok (fold (enforce_item limits) items (fold (replay_item items limits) items reset_thrash))"
    by (intro fold_hard hard_reset hard_replay_item hard_enforce_item)
  then show ?thesis by (simp add: rebuild_def applySystemicThreshold_def fold_hard hard_threshold)
qed

lemma hard_diagnostic: "hard_ok s \<Longrightarrow> hard_ok (recordDiagnosticCompletion item limits s)"
proof (cases item)
  case (Some x)
  assume ok: "hard_ok s"
  obtain b u where r: "recordDiagnostic item s = (b, u)" by fastforce
  have "hard_ok u" using same_blocks_hard [OF same_counters(8) ok, of item] r by simp
  then have "hard_ok (u\<lparr>at_warnings := w\<rparr>)" for w using same_blocks_hard [OF same_counters(3)] by simp
  with \<open>hard_ok u\<close> ok r show ?thesis
    by (simp add: recordDiagnosticCompletion_def Let_def Some hard_scope)
qed (simp add: recordDiagnosticCompletion_def)

lemma reach_hard: "thrash_reach limits items s \<Longrightarrow> hard_ok s"
proof (induction rule: thrash_reach.induct)
  case (rejected items s d strategy)
  show ?case by (rule same_blocks_hard [OF same_counters(9) rejected.IH])
next
  case (progress items s criteria)
  show ?case by (rule hard_progress, rule same_blocks_hard [OF same_counters(4) progress.IH])
qed (simp_all add: hard_reset hard_record hard_scope hard_rebuild hard_diagnostic)

text \<open>
  No block is ignored. In every state a run reaches, the flag that gates enforcement is up
  whenever something is blocked: a dispatch is refused exactly when a limit or an escalated
  systemic scope forbids the task, and a limit is reported to a human.
\<close>

theorem no_block_ignored:
  assumes "thrash_reach limits items s"
  shows "(dispatchBlock s task item = None \<longleftrightarrow>
      \<not> blocksTaskByLimits s task item \<and> \<not> blockReasonSystemic s task item) \<and>
    (blocksTaskByLimits s task item \<longrightarrow> dispatchBlock s task item = Some NeedsHuman) \<and>
    (blocksTask s task item \<longleftrightarrow> dispatchBlock s task item \<noteq> None)"
proof -
  have "at_hard s" if "blocksTaskByLimits s task item \<or> blockReasonSystemic s task item"
  proof (rule ccontr)
    assume "\<not> at_hard s"
    with reach_hard [OF assms] have "\<not> still_blocked s" by (simp add: hard_ok_def)
    then have "\<not> blocksTaskByLimits s task item" "\<not> blockReasonSystemic s task item"
      by (auto simp: still_blocked_def blocksTaskByLimits_def blockReasonSystemic_def list_ex_iff split: option.splits)
    with that show False by blast
  qed
  then show ?thesis by (auto simp: dispatchBlock_def blocksTask_def)
qed

section \<open>A limit, once reached\<close>

text \<open>What blocking changes: it never lifts a fingerprint, and it does not count.\<close>

definition only_blocks :: "thrash \<Rightarrow> thrash \<Rightarrow> bool" where
  "only_blocks s u \<longleftrightarrow> at_counts u = at_counts s \<and> at_fingerprints s \<subseteq> at_fingerprints u \<and> (at_hard s \<longrightarrow> at_hard u)"

interpretation only_blocks: step_preorder only_blocks
  by unfold_locales (auto simp: only_blocks_def)

lemmas only_refl [simp] = only_blocks.idle
lemmas only_trans = only_blocks.chain
lemmas only_fold = only_blocks.run_fold

lemma only_marks:
  "only_blocks s (markBlockedFingerprint d s)" "only_blocks s (markBlockedCriterion c k d s)"
  "only_blocks s (snd (recordSystemic item f limits s))" "only_blocks s (warn b s)"
  "only_blocks s (count_strategy d st s)" "only_blocks s (count_repair c s)"
  "only_blocks s (snd (recordDiagnostic item s))" "only_blocks s (block_kind k s)"
  by (auto simp: only_blocks_def block_kind_def markBlockedFingerprint_def markBlockedCriterion_def Let_def recordSystemic_def
      warn_def count_strategy_def count_repair_def recordDiagnostic_def escalate_def add_systemic_def
      split: option.split)

lemma only_scope: "only_blocks s (markBlockedScope item d s)"
proof -
  let ?s = "markBlockedFingerprint d (s\<lparr>at_hard := True\<rparr>)"
  have a: "only_blocks s ?s" by (auto simp: only_blocks_def markBlockedFingerprint_def)
  show ?thesis
  proof (cases item)
    case (Some x)
    have "only_blocks ?s (fold (\<lambda>c. markBlockedCriterion c (item_kind x) d) (item_advances x) ?s)"
      by (rule only_fold) (rule only_marks)
    note u = only_trans [OF a this]
    have "only_blocks s (if item_advances x \<noteq> [] then
        fold (\<lambda>c. markBlockedCriterion c (item_kind x) d) (item_advances x) ?s
      else block_kind (item_kind x) (fold (\<lambda>c. markBlockedCriterion c (item_kind x) d) (item_advances x) ?s))"
      by (rule if_both [where P = "only_blocks s"]) (rule u, rule only_trans [OF u only_marks(8)])
    then show ?thesis by (simp only: markBlockedScope_def Let_def Some option.case)
  qed (use a in \<open>simp add: markBlockedScope_def Let_def\<close>)
qed

lemma only_repairs: "only_blocks s (block_repairs x d limits s)"
  unfolding block_repairs_def by (rule only_fold) (simp add: only_marks)

text \<open>The part of the enforcement that follows the fingerprint limit.\<close>

lemma only_rest:
  "only_blocks s
     (case item of Some x \<Rightarrow>
        if repair then block_repairs x d limits (if diag then markBlockedScope item d s else s)
        else (if diag then markBlockedScope item d s else s)
      | None \<Rightarrow> (if diag then markBlockedScope item d s else s))"
  by (auto split: option.split intro: only_scope only_repairs only_trans [OF only_scope only_repairs])

lemma only_enforce: "only_blocks s (enforce_limits item d limits reached s)"
proof -
  obtain same diag repair where r: "reached = (same, diag, repair)" by (cases reached) auto
  have "only_blocks s (if same then markBlockedFingerprint d s else s)" by (simp add: only_marks)
  note rest = only_trans [OF this only_rest [where item = item and repair = repair and d = d and limits = limits and diag = diag]]
  show ?thesis unfolding enforce_limits_def r prod.case Let_def
    by (rule if_both [where P = "only_blocks s"]) (rule rest, rule only_refl)
qed

lemma only_kind: "only_blocks s (count_kind item s)"
  by (auto simp: count_kind_def intro: only_marks only_fold split: option.split)

lemma count_failure_effect:
  "at_counts (count_failure item f st s) = (at_counts s)(ff_digest f := at_counts s (ff_digest f) + 1)"
  "at_fingerprints s \<subseteq> at_fingerprints (count_failure item f st s)"
  "at_hard s \<Longrightarrow> at_hard (count_failure item f st s)"
proof -
  let ?s = "s\<lparr>at_counts := (at_counts s)(ff_digest f := at_counts s (ff_digest f) + 1)\<rparr>"
  have "only_blocks ?s (count_failure item f st s)"
    unfolding count_failure_def by (rule only_trans [OF only_marks(5) only_kind])
  then show "at_counts (count_failure item f st s) = (at_counts s)(ff_digest f := at_counts s (ff_digest f) + 1)"
    "at_fingerprints s \<subseteq> at_fingerprints (count_failure item f st s)"
    "at_hard s \<Longrightarrow> at_hard (count_failure item f st s)"
    by (simp_all add: only_blocks_def)
qed

lemma record_effect:
  fixes item :: "'r work_item option"
  assumes u_def: "u = snd (record_failure item f st limits s)"
  shows "at_counts u = (at_counts s)(ff_digest f := at_counts s (ff_digest f) + 1)"
    "at_fingerprints s \<subseteq> at_fingerprints u" "at_hard s \<Longrightarrow> at_hard u"
    "rl_hard limits \<Longrightarrow> at_limit (rl_same limits) (at_counts u (ff_digest f)) \<Longrightarrow> ff_digest f \<noteq> [] \<Longrightarrow>
       ff_digest f \<in> at_fingerprints u \<and> at_hard u"
proof -
  let ?c = "count_failure item f st s"
  obtain sys v where r: "recordSystemic item f limits ?c = (sys, v)" by fastforce
  obtain same diag repair where l: "limits_reached item f limits ?c = (same, diag, repair)"
    by (cases "limits_reached item f limits ?c") auto
  define w where "w = warn (2 \<le> at_counts s (ff_digest f) + 1 \<or> limits_reached item f limits ?c \<noteq> (False, False, False) \<or> sys) v"
  have cw: "only_blocks ?c w" unfolding w_def
    using only_trans [OF only_marks(3) only_marks(4)] r by (metis snd_conv)
  have "u = enforce_limits item (ff_digest f) limits (limits_reached item f limits ?c) w"
    by (simp add: u_def record_failure_def Let_def r w_def)
  then have u: "u = enforce_limits item (ff_digest f) limits (same, diag, repair) w" by (simp only: l)
  have cu: "only_blocks ?c u" unfolding u by (rule only_trans [OF cw only_enforce])
  note c = count_failure_effect [where item = item and f = f and st = st and s = s]
  show counts: "at_counts u = (at_counts s)(ff_digest f := at_counts s (ff_digest f) + 1)"
    using cu c(1) by (simp add: only_blocks_def)
  show "at_fingerprints s \<subseteq> at_fingerprints u" using cu c(2) by (auto simp: only_blocks_def)
  show "at_hard s \<Longrightarrow> at_hard u" using cu c(3) by (simp add: only_blocks_def)
  assume hard: "rl_hard limits" and lim: "at_limit (rl_same limits) (at_counts u (ff_digest f))" and d: "ff_digest f \<noteq> []"
  have "same" using l lim counts c(1) by (simp add: limits_reached_def)
  let ?m = "markBlockedFingerprint (ff_digest f) w"
  have m: "ff_digest f \<in> at_fingerprints ?m" "at_hard ?m" using d by (simp_all add: markBlockedFingerprint_def)
  have "only_blocks ?m u"
    using \<open>same\<close> hard only_rest [where s = ?m and item = item and repair = repair and d = "ff_digest f" and limits = limits and diag = diag]
    by (simp add: u enforce_limits_def Let_def split del: if_split)
  with m show "ff_digest f \<in> at_fingerprints u \<and> at_hard u" by (auto simp: only_blocks_def)
qed

definition record_all ::
  "reliability \<Rightarrow> ('r work_item option \<times> fingerprint \<times> string) list \<Rightarrow> thrash \<Rightarrow> thrash" where
  "record_all limits F s = fold (\<lambda>(item, f, st) s. snd (record_failure item f st limits s)) F s"

definition occurrences_in :: "string \<Rightarrow> ('r work_item option \<times> fingerprint \<times> string) list \<Rightarrow> nat" where
  "occurrences_in d F = length (filter (\<lambda>(item, f, st). ff_digest f = d) F)"

lemma record_all_limit:
  assumes "rl_hard limits" "d \<noteq> []"
  shows "at_counts (record_all limits F s) d = at_counts s d + int (occurrences_in d F) \<and>
    (at_limit (rl_same limits) (at_counts s d + int (occurrences_in d F)) \<longrightarrow> occurrences_in d F \<noteq> 0 \<longrightarrow>
     d \<in> at_fingerprints (record_all limits F s) \<and> at_hard (record_all limits F s))"
proof (induction F rule: rev_induct)
  case (snoc a F)
  obtain item f st where a: "a = (item, f, st)" by (cases a)
  let ?s = "record_all limits F s"
  let ?u = "snd (record_failure item f st limits ?s)"
  have u: "record_all limits (F @ [a]) s = ?u" by (simp add: record_all_def a)
  have n: "occurrences_in d (F @ [a]) = occurrences_in d F + (if ff_digest f = d then 1 else 0)"
    by (simp add: occurrences_in_def a)
  note e = record_effect [OF refl, where item = item and f = f and st = st and limits = limits and s = ?s]
  have c: "at_counts ?u d = at_counts s d + int (occurrences_in d (F @ [a]))"
    using snoc.IH e(1) by (cases "ff_digest f = d") (simp_all add: n)
  moreover have "d \<in> at_fingerprints ?u \<and> at_hard ?u"
    if lim: "at_limit (rl_same limits) (at_counts s d + int (occurrences_in d (F @ [a])))"
      and pos: "occurrences_in d (F @ [a]) \<noteq> 0"
  proof (cases "ff_digest f = d")
    case True
    with e(4) assms lim c show ?thesis by simp
  next
    case False
    with lim pos snoc.IH n have "d \<in> at_fingerprints ?s \<and> at_hard ?s" by simp
    with e(2,3) show ?thesis by blast
  qed
  ultimately show ?case unfolding u by blast
qed (simp add: record_all_def occurrences_in_def)

text \<open>
  A failure that keeps recurring is stopped. Under hard enforcement, once a fingerprint has been
  recorded as often as the limit allows, by whichever tasks and among whichever other failures,
  every task that carries it for a criterion it works on is refused and handed to a human.
\<close>

theorem recurring_failure_stops:
  assumes "rl_hard limits" "0 < rl_same limits" "ff_digest f \<noteq> []"
    and "rl_same limits \<le> int (occurrences_in (ff_digest f) F)"
    and "f \<in> set (ti_fingerprints x)" "ff_criterion f = [] \<or> taskAdvancesCriterion task (ff_criterion f)"
  shows "dispatchBlock (record_all limits F reset_thrash) task (Some x) = Some NeedsHuman"
proof -
  have "at_limit (rl_same limits) (at_counts reset_thrash (ff_digest f) + int (occurrences_in (ff_digest f) F))"
    "occurrences_in (ff_digest f) F \<noteq> 0"
    using assms(2,4) by (auto simp: at_limit_def reset_thrash_def)
  with record_all_limit [OF assms(1,3), of F reset_thrash]
  have "ff_digest f \<in> at_fingerprints (record_all limits F reset_thrash)" "at_hard (record_all limits F reset_thrash)"
    by blast+
  with assms(5,6) show ?thesis by (auto simp: dispatchBlock_def blocksTaskByLimits_def list_ex_iff)
qed

section \<open>Instances\<close>

definition demo_work :: "string \<Rightarrow> task_kind \<Rightarrow> string list \<Rightarrow> unit work_item" where
  "demo_work i kind advances = todoItemFromSpec (\<lambda>_. (None, None))
     \<lparr>sp_contract = \<lparr>wc_def = (sample_task [])\<lparr>td_kind := kind, td_advances := advances\<rparr>, wc_desc = ''work'', wc_verify_spec = None,
        wc_verify = ''go test'', wc_reconcile = [], wc_hypothesis = None\<rparr>,
      sp_plan_first = False, sp_plan_id = [], sp_source = [], sp_parent = []\<rparr> i"

definition demo_failure :: fingerprint where
  "demo_failure = \<lparr>ff_criterion = [], ff_component = ''worker'', ff_operation = ''verify:go test'', ff_class = FailureVerify,
     ff_error = ''exit 1'', ff_digest = ''ffp_1'', ff_occurrences = 1\<rparr>"

definition demo_limits :: reliability where
  "demo_limits = \<lparr>rl_diagnostics = 1, rl_same = 5, rl_repairs = 2, rl_systemic = 2, rl_hard = True\<rparr>"

theorem no_block_ignored_witness:
  "dispatchBlock (snd (record_failure (Some (demo_work ''1'' TaskKindDiagnostic [])) demo_failure [] demo_limits reset_thrash))
     ((sample_task [])\<lparr>td_kind := TaskKindDiagnostic\<rparr>) (None :: unit work_item option) = Some NeedsHuman"
proof -
  let ?items = "[demo_work ''1'' TaskKindDiagnostic []]"
  have i: "find (\<lambda>x. ti_id x = ''1'') ?items = Some (demo_work ''1'' TaskKindDiagnostic [])"
    by (simp add: demo_work_def todoItemFromSpec_def)
  have "thrash_reach demo_limits ?items
      (snd (record_failure (find (\<lambda>x. ti_id x = ''1'') ?items) demo_failure [] demo_limits reset_thrash))"
    by (intro thrash_reach.failure thrash_reach.fresh)
  from no_block_ignored [OF this [unfolded i], of "(sample_task [])\<lparr>td_kind := TaskKindDiagnostic\<rparr>" None]
  have "blocksTaskByLimits (snd (record_failure (Some (demo_work ''1'' TaskKindDiagnostic [])) demo_failure [] demo_limits reset_thrash))
     ((sample_task [])\<lparr>td_kind := TaskKindDiagnostic\<rparr>) (None :: unit work_item option) \<Longrightarrow> ?thesis" by blast
  moreover have "blocksTaskByLimits (snd (record_failure (Some (demo_work ''1'' TaskKindDiagnostic [])) demo_failure [] demo_limits reset_thrash))
     ((sample_task [])\<lparr>td_kind := TaskKindDiagnostic\<rparr>) (None :: unit work_item option)"
    by code_simp
  ultimately show ?thesis by blast
qed

theorem recurring_failure_stops_witness:
  "dispatchBlock (record_all (demo_limits\<lparr>rl_same := 2\<rparr>)
       [(Some (demo_work ''1'' TaskKindOutcome []), demo_failure, []), (None, demo_failure\<lparr>ff_digest := ''ffp_2''\<rparr>, []),
        (Some (demo_work ''2'' TaskKindOutcome []), demo_failure, [])] reset_thrash)
     (sample_task []) (Some ((demo_work ''3'' TaskKindOutcome [])\<lparr>ti_fingerprints := [demo_failure]\<rparr>)) = Some NeedsHuman"
  by (rule recurring_failure_stops [where f = demo_failure])
    (simp_all add: demo_limits_def demo_failure_def occurrences_in_def)

section \<open>What a restart forgets\<close>

text \<open>
  A diagnostic task ends, then an outcome task working on criterion \<open>c1\<close> fails: the diagnostic limit
  is reached, and the live state blocks the criterion of the task that failed.
\<close>

definition forget_limits :: reliability where
  "forget_limits = \<lparr>rl_diagnostics = 1, rl_same = 5, rl_repairs = 0, rl_systemic = 0, rl_hard = True\<rparr>"

definition forget_items :: "unit work_item list" where
  "forget_items = [(demo_work ''1'' TaskKindDiagnostic [])\<lparr>ti_status := TaskDone\<rparr>,
     (demo_work ''2'' TaskKindOutcome [''c1''])\<lparr>ti_status := TaskError, ti_fingerprints := [demo_failure]\<rparr>]"

definition forget_state :: thrash where
  "forget_state = snd (record_failure (Some (demo_work ''2'' TaskKindOutcome [''c1''])) demo_failure [] forget_limits
     (recordDiagnosticCompletion (Some (forget_items ! 0)) forget_limits reset_thrash))"

definition next_task :: task_def where
  "next_task = (sample_task [])\<lparr>td_advances := [''c1'']\<rparr>"

text \<open>
  A restart forgets a criterion the diagnostic limit blocked. In the run above the live state
  hands the next task for the criterion to a human; the state rebuilt from the items of the very same run
  lets it start, since the rebuild applies the diagnostic limit to diagnostic tasks only.
\<close>

theorem restart_lifts_criterion:
  "dispatchBlock forget_state next_task (None :: unit work_item option) = Some NeedsHuman \<and>
   dispatchBlock (rebuild forget_items forget_limits) next_task (None :: unit work_item option) = None"
  by code_simp

end
