(* ===== verification/Anti_Thrashing_Replay.thy ===== *)
theory Anti_Thrashing_Replay
  imports Anti_Thrashing_Safety
begin

text \<open>
  Restarting a run: the anti-thrashing state rebuilt from the todo list against the state the live run
  had. Both are compared with one description of what a history of failures enforces.
\<close>

section \<open>A failing run\<close>

text \<open>The step of \<open>PersistFailure\<close> that both states take: record, then append to the todo item.\<close>

definition fail_step ::
  "reliability \<Rightarrow> string \<times> fingerprint \<Rightarrow> (work_contract, 'r) todo_list \<times> thrash \<Rightarrow> (work_contract, 'r) todo_list \<times> thrash" where
  "fail_step limits e ts =
     (case e of (i, f) \<Rightarrow>
        let item = find (\<lambda>x. ti_id x = i) (tl_items (fst ts));
            strategy = (case item of None \<Rightarrow> [] | Some x \<Rightarrow> strategy_of x) in
        (fst (AppendFailureFingerprint i f (fst ts)), snd (record_failure item f strategy limits (snd ts))))"

section \<open>What a history of failures enforces\<close>

type_synonym history = "(string \<times> fingerprint) list"

definition hits :: "history \<Rightarrow> string \<Rightarrow> int" where
  "hits F d = seen d (map snd F)"

definition seen_by :: "history \<Rightarrow> string \<Rightarrow> string set" where
  "seen_by F k = fst ` {e \<in> set F. systemicScopeKey (snd e) = k}"

definition systemic_defect :: "reliability \<Rightarrow> history \<Rightarrow> string \<Rightarrow> bool" where
  "systemic_defect limits F k \<longleftrightarrow> at_limit (rl_systemic limits) (int (card (seen_by F k)))"

definition enforces :: "reliability \<Rightarrow> history \<Rightarrow> thrash \<Rightarrow> bool" where
  "enforces limits F s \<longleftrightarrow>
     at_counts s = hits F \<and>
     at_fingerprints s = {d. rl_hard limits \<and> at_limit (rl_same limits) (hits F d)} \<and>
     at_criteria s = {} \<and> at_scopes s = {} \<and> \<not> at_no_diagnostics s \<and> \<not> at_no_repairs s \<and>
     at_escalated s = {k. systemic_defect limits F k} \<and>
     at_systemic_scopes s = {k. rl_hard limits \<and> systemic_defect limits F k} \<and>
     at_prefixes s = {systemicScopePrefixKey c q | c q k. rl_hard limits \<and> systemic_defect limits F k \<and>
        splitSystemicScopePrefix k = Some (c, q)} \<and>
     (at_hard s \<longleftrightarrow> rl_hard limits \<and>
        ((\<exists>d. at_limit (rl_same limits) (hits F d)) \<or> (\<exists>k. systemic_defect limits F k)))"

text \<open>Two states that enforce one history decide every dispatch alike.\<close>

lemma same_dispatch:
  assumes "at_hard s = at_hard u" "at_fingerprints s = at_fingerprints u" "at_criteria s = at_criteria u"
    "at_scopes s = at_scopes u" "at_no_diagnostics s = at_no_diagnostics u" "at_no_repairs s = at_no_repairs u"
    "at_systemic_scopes s = at_systemic_scopes u" "at_prefixes s = at_prefixes u"
  shows "dispatchBlock s task item = dispatchBlock u task item"
proof -
  have "blocksTaskByLimits s task item = blocksTaskByLimits u task item"
    unfolding blocksTaskByLimits_def assms by (rule refl)
  moreover have "blockReasonSystemic s task item = blockReasonSystemic u task item"
    unfolding blockReasonSystemic_def assms by (rule refl)
  moreover have "systemicBlockDisposition s task item = systemicBlockDisposition u task item"
    unfolding systemicBlockDisposition_def assms by (rule refl)
  ultimately show ?thesis by (simp add: dispatchBlock_def assms(1))
qed

lemma enforces_dispatch:
  assumes "enforces limits F s" "enforces limits F u"
  shows "dispatchBlock s task item = dispatchBlock u task item"
  using assms unfolding enforces_def by (intro same_dispatch) auto

text \<open>
  Failures whose fingerprints are well formed: a digest, one occurrence, component and operation without a NUL
  byte, and one fingerprint per digest.
\<close>

definition clean_history :: "history \<Rightarrow> bool" where
  "clean_history F \<longleftrightarrow>
     (\<forall>e\<in>set F. ff_digest (snd e) \<noteq> [] \<and> ff_occurrences (snd e) = 1 \<and>
        NUL \<notin> set (ff_component (snd e)) \<and> NUL \<notin> set (ff_operation (snd e))) \<and>
     (\<forall>e\<in>set F. \<forall>g\<in>set F. ff_digest (snd e) = ff_digest (snd g) \<longrightarrow> snd e = snd g)"

lemma split_key:
  "NUL \<notin> set (ff_component f) \<Longrightarrow> NUL \<notin> set (ff_operation f) \<Longrightarrow>
   splitSystemicScopePrefix (systemicScopeKey f) = Some (ff_component f, ff_operation f)"
  by (simp add: splitSystemicScopePrefix_def systemicScopeKey_def numeral_3_eq_3)

lemma hits_simps [simp]:
  "hits [] d = 0"
  "hits (F @ G) d = hits F d + hits G d"
  "hits [e] d = (if ff_digest (snd e) = d then at_least_one (ff_occurrences (snd e)) else 0)"
  by (simp_all add: hits_def)

lemma seen_by_simps [simp]:
  "seen_by [] k = {}"
  "seen_by (F @ [e]) k = (if systemicScopeKey (snd e) = k then insert (fst e) (seen_by F k) else seen_by F k)"
  by (auto simp: seen_by_def)

lemma finite_seen_by [simp]: "finite (seen_by F k)"
  by (simp add: seen_by_def)

lemma defect_append:
  "systemic_defect limits (F @ [e]) k \<longleftrightarrow>
     (if systemicScopeKey (snd e) = k then at_limit (rl_systemic limits) (int (card (insert (fst e) (seen_by F k))))
      else systemic_defect limits F k)"
  by (simp add: systemic_defect_def)

lemma defect_mono: "systemic_defect limits F k \<Longrightarrow> systemic_defect limits (F @ [e]) k"
proof -
  assume d: "systemic_defect limits F k"
  have "card (seen_by F k) \<le> card (seen_by (F @ [e]) k)" by (intro card_mono) auto
  with d show ?thesis by (simp add: systemic_defect_def at_limit_def)
qed

lemma hits_nonneg: "0 \<le> hits F d"
  by (simp add: hits_def seen_nonneg)

section \<open>The live run\<close>

text \<open>
  Items whose failures both states count the same way: outcome tasks, in a state whose failures a
  restart counts, whose criteria have not advanced.
\<close>

definition plain :: "'r work_item \<Rightarrow> bool" where
  "plain x \<longleftrightarrow> item_kind x \<noteq> TaskKindRepair \<and> item_kind x \<noteq> TaskKindDiagnostic \<and> ti_progress x \<noteq> ProgressAdvanced \<and>
     (ti_status x \<noteq> TaskDone \<or> item_advances x \<noteq> []) \<and> TrimSpace (ti_id x) = ti_id x \<and> ti_id x \<noteq> []"

definition escalates :: "reliability \<Rightarrow> string \<Rightarrow> string \<Rightarrow> thrash \<Rightarrow> bool" where
  "escalates limits i k s \<longleftrightarrow>
     k \<notin> at_escalated s \<and> at_limit (rl_systemic limits) (int (card (insert i (systemic_tasks s k))))"

lemma systemic_tasks_add [simp]:
  "systemic_tasks (add_systemic k i s) l = (if l = k then insert i (systemic_tasks s k) else systemic_tasks s l)"
  by (simp add: systemic_tasks_def add_systemic_def update_conv)

lemma record_systemic_plain:
  fixes s :: thrash and limits :: reliability and f :: fingerprint
  assumes x: "plain x"
  defines "e \<equiv> escalates limits (ti_id x) (systemicScopeKey f) s"
  defines "u \<equiv> snd (recordSystemic (Some x) f limits s)"
  shows "at_counts u = at_counts s" "at_fingerprints u = at_fingerprints s" "at_criteria u = at_criteria s"
    "at_scopes u = at_scopes s" "at_no_diagnostics u = at_no_diagnostics s" "at_no_repairs u = at_no_repairs s"
    "at_diagnostics u = at_diagnostics s"
    "systemic_tasks u k = (if 0 < rl_systemic limits \<and> k = systemicScopeKey f then insert (ti_id x) (systemic_tasks s k)
       else systemic_tasks s k)"
    "at_escalated u = (if e then insert (systemicScopeKey f) (at_escalated s) else at_escalated s)"
    "at_systemic_scopes u = (if e \<and> rl_hard limits then insert (systemicScopeKey f) (at_systemic_scopes s) else at_systemic_scopes s)"
    "at_prefixes u = (if e \<and> rl_hard limits then insert (systemicScopePrefixKey (ff_component f) (ff_operation f)) (at_prefixes s)
       else at_prefixes s)"
    "at_hard u = (at_hard s \<or> e \<and> rl_hard limits)"
  using x by (auto simp: u_def e_def recordSystemic_def plain_def Let_def escalates_def at_limit_def systemicTaskCount_def
      escalate_def systemic_tasks_def add_systemic_def update_conv split: if_splits)

lemma count_plain:
  assumes "plain x"
  shows "at_counts (count_failure (Some x) f st s) = (at_counts s)(ff_digest f := at_counts s (ff_digest f) + 1)"
    "at_fingerprints (count_failure (Some x) f st s) = at_fingerprints s"
    "at_criteria (count_failure (Some x) f st s) = at_criteria s"
    "at_scopes (count_failure (Some x) f st s) = at_scopes s"
    "at_no_diagnostics (count_failure (Some x) f st s) = at_no_diagnostics s"
    "at_no_repairs (count_failure (Some x) f st s) = at_no_repairs s"
    "at_diagnostics (count_failure (Some x) f st s) = at_diagnostics s"
    "systemic_tasks (count_failure (Some x) f st s) k = systemic_tasks s k"
    "at_escalated (count_failure (Some x) f st s) = at_escalated s"
    "at_systemic_scopes (count_failure (Some x) f st s) = at_systemic_scopes s"
    "at_prefixes (count_failure (Some x) f st s) = at_prefixes s"
    "at_hard (count_failure (Some x) f st s) = at_hard s"
  using assms by (simp_all add: count_failure_def count_kind_def plain_def count_strategy_def systemic_tasks_def)

text \<open>What one failure of a plain item changes.\<close>

lemma record_plain:
  fixes st :: string and limits :: reliability and f :: fingerprint
  assumes x: "plain x" and n: "at_diagnostics s = 0" and d: "ff_digest f \<noteq> []"
  defines "u \<equiv> snd (record_failure (Some x) f st limits s)"
  defines "e \<equiv> escalates limits (ti_id x) (systemicScopeKey f) s"
  defines "same \<equiv> at_limit (rl_same limits) (at_counts s (ff_digest f) + 1) \<and> rl_hard limits"
  shows "at_counts u = (at_counts s)(ff_digest f := at_counts s (ff_digest f) + 1)"
    "at_fingerprints u = (if same then insert (ff_digest f) (at_fingerprints s) else at_fingerprints s)"
    "at_criteria u = at_criteria s" "at_scopes u = at_scopes s" "at_no_diagnostics u = at_no_diagnostics s"
    "at_no_repairs u = at_no_repairs s" "at_diagnostics u = at_diagnostics s"
    "systemic_tasks u k = (if 0 < rl_systemic limits \<and> k = systemicScopeKey f then insert (ti_id x) (systemic_tasks s k)
       else systemic_tasks s k)"
    "at_escalated u = (if e then insert (systemicScopeKey f) (at_escalated s) else at_escalated s)"
    "at_systemic_scopes u = (if e \<and> rl_hard limits then insert (systemicScopeKey f) (at_systemic_scopes s) else at_systemic_scopes s)"
    "at_prefixes u = (if e \<and> rl_hard limits then insert (systemicScopePrefixKey (ff_component f) (ff_operation f)) (at_prefixes s)
       else at_prefixes s)"
    "at_hard u = (at_hard s \<or> e \<and> rl_hard limits \<or> same)"
proof -
  let ?c = "count_failure (Some x) f st s"
  obtain sys w where r: "recordSystemic (Some x) f limits ?c = (sys, w)" by fastforce
  have l: "limits_reached (Some x) f limits ?c = (at_limit (rl_same limits) (at_counts s (ff_digest f) + 1), False, False)"
    using x n by (simp add: limits_reached_def count_plain plain_def at_limit_def)
  have e: "e = escalates limits (ti_id x) (systemicScopeKey f) ?c"
    using x by (simp add: e_def escalates_def count_plain)
  obtain b where "u = enforce_limits (Some x) (ff_digest f) limits (limits_reached (Some x) f limits ?c) (warn b w)"
    by (simp add: u_def record_failure_def Let_def r)
  then have u: "u = (if same then markBlockedFingerprint (ff_digest f) (warn b w) else warn b w)"
    by (simp add: l enforce_limits_def same_def)
  have w: "systemic_tasks (markBlockedFingerprint (ff_digest f) (warn b w)) k = systemic_tasks w k"
    "systemic_tasks (warn b w) k = systemic_tasks w k"
    by (simp_all add: systemic_tasks_def markBlockedFingerprint_def warn_def)
  note v = record_systemic_plain [OF x, where limits = limits and f = f and s = ?c, unfolded r snd_conv, folded e]
  have u': "at_counts u = at_counts w" "at_criteria u = at_criteria w" "at_scopes u = at_scopes w"
    "at_no_diagnostics u = at_no_diagnostics w" "at_no_repairs u = at_no_repairs w" "at_diagnostics u = at_diagnostics w"
    "systemic_tasks u k = systemic_tasks w k" "at_escalated u = at_escalated w"
    "at_systemic_scopes u = at_systemic_scopes w" "at_prefixes u = at_prefixes w"
    "at_hard u = (at_hard w \<or> same)"
    "at_fingerprints u = (if same then insert (ff_digest f) (at_fingerprints w) else at_fingerprints w)"
    using d by (simp_all add: u w) (simp_all add: markBlockedFingerprint_def warn_def)
  show "at_counts u = (at_counts s)(ff_digest f := at_counts s (ff_digest f) + 1)"
    "at_fingerprints u = (if same then insert (ff_digest f) (at_fingerprints s) else at_fingerprints s)"
    "at_criteria u = at_criteria s" "at_scopes u = at_scopes s" "at_no_diagnostics u = at_no_diagnostics s"
    "at_no_repairs u = at_no_repairs s" "at_diagnostics u = at_diagnostics s"
    "systemic_tasks u k = (if 0 < rl_systemic limits \<and> k = systemicScopeKey f then insert (ti_id x) (systemic_tasks s k)
       else systemic_tasks s k)"
    "at_escalated u = (if e then insert (systemicScopeKey f) (at_escalated s) else at_escalated s)"
    "at_systemic_scopes u = (if e \<and> rl_hard limits then insert (systemicScopeKey f) (at_systemic_scopes s) else at_systemic_scopes s)"
    "at_prefixes u = (if e \<and> rl_hard limits then insert (systemicScopePrefixKey (ff_component f) (ff_operation f)) (at_prefixes s)
       else at_prefixes s)"
    "at_hard u = (at_hard s \<or> e \<and> rl_hard limits \<or> same)"
    by (simp_all only: u' v count_plain [OF x] simp_thms disj_assoc)
qed

definition live :: "reliability \<Rightarrow> history \<Rightarrow> thrash \<Rightarrow> bool" where
  "live limits F s \<longleftrightarrow> enforces limits F s \<and> at_diagnostics s = 0 \<and>
     (\<forall>k. systemic_tasks s k = (if 0 < rl_systemic limits then seen_by F k else {}))"

lemma same_mono: "at_limit m (hits F d) \<Longrightarrow> at_limit m (hits (F @ [e]) d)"
  by (simp add: at_limit_def at_least_one_def)

lemma live_step:
  assumes s: "live limits F s" and x: "plain x" and clean: "clean_history (F @ [(ti_id x, f)])"
  shows "live limits (F @ [(ti_id x, f)]) (snd (record_failure (Some x) f st limits s))"
proof -
  let ?F = "F @ [(ti_id x, f)]" and ?d = "ff_digest f" and ?k = "systemicScopeKey f"
  let ?u = "snd (record_failure (Some x) f st limits s)"
  have f: "?d \<noteq> []" "ff_occurrences f = 1" "NUL \<notin> set (ff_component f)" "NUL \<notin> set (ff_operation f)"
    using clean by (simp_all add: clean_history_def)
  have n: "at_diagnostics s = 0" using s by (simp add: live_def)
  have sys: "systemic_tasks s k = (if 0 < rl_systemic limits then seen_by F k else {})" for k
    using s by (simp add: live_def)
  have en: "enforces limits F s" using s by (simp add: live_def)
  note u = record_plain [OF x n f(1), where st = st and limits = limits]
  have esc: "escalates limits (ti_id x) ?k s \<longleftrightarrow> \<not> systemic_defect limits F ?k \<and> systemic_defect limits ?F ?k"
    using en by (auto simp: escalates_def sys enforces_def defect_append at_limit_def)
  have count: "at_counts s ?d + 1 = hits ?F ?d" using en f(2) by (simp add: enforces_def at_least_one_def)
  have lims: "at_limit (rl_same limits) (hits ?F d) \<longleftrightarrow>
      at_limit (rl_same limits) (hits F d) \<or> d = ?d \<and> at_limit (rl_same limits) (hits ?F ?d)" for d
    using same_mono [of "rl_same limits" F d "(ti_id x, f)"] by (cases "d = ?d") auto
  have defects: "systemic_defect limits ?F k \<longleftrightarrow> systemic_defect limits F k \<or> k = ?k \<and> escalates limits (ti_id x) ?k s" for k
    unfolding esc using defect_mono [of limits F k "(ti_id x, f)"] by (cases "k = ?k") (auto simp: defect_append)
  have counts: "at_counts ?u = hits ?F"
    using en f(2) by (auto simp: u enforces_def fun_eq_iff at_least_one_def)
  moreover have "systemic_tasks ?u k = (if 0 < rl_systemic limits then seen_by ?F k else {})" for k
    by (simp add: u sys)
  moreover have "at_fingerprints ?u = {d. rl_hard limits \<and> at_limit (rl_same limits) (hits ?F d)}"
  proof -
    have "at_fingerprints s = {d. rl_hard limits \<and> at_limit (rl_same limits) (hits F d)}"
      using en by (simp add: enforces_def)
    then show ?thesis unfolding u(2) count using lims by auto
  qed
  moreover have "at_escalated ?u = {k. systemic_defect limits ?F k}"
    using en defects by (auto simp: u enforces_def)
  moreover have "at_systemic_scopes ?u = {k. rl_hard limits \<and> systemic_defect limits ?F k}"
    using en defects by (auto simp: u enforces_def)
  moreover have "at_prefixes ?u = {systemicScopePrefixKey c q | c q k. rl_hard limits \<and> systemic_defect limits ?F k \<and>
        splitSystemicScopePrefix k = Some (c, q)}"
    using en defects split_key [OF f(3,4)] by (auto simp: u enforces_def)
  moreover have "at_hard ?u \<longleftrightarrow> rl_hard limits \<and>
        ((\<exists>d. at_limit (rl_same limits) (hits ?F d)) \<or> (\<exists>k. systemic_defect limits ?F k))"
  proof -
    have "(\<exists>d. at_limit (rl_same limits) (hits ?F d)) \<longleftrightarrow>
        (\<exists>d. at_limit (rl_same limits) (hits F d)) \<or> at_limit (rl_same limits) (hits ?F ?d)"
      using lims by blast
    moreover have "(\<exists>k. systemic_defect limits ?F k) \<longleftrightarrow>
        (\<exists>k. systemic_defect limits F k) \<or> escalates limits (ti_id x) ?k s"
      using defects by blast
    moreover have "at_hard s \<longleftrightarrow> rl_hard limits \<and>
        ((\<exists>d. at_limit (rl_same limits) (hits F d)) \<or> (\<exists>k. systemic_defect limits F k))"
      using en by (simp add: enforces_def)
    ultimately show ?thesis unfolding u(12) count by argo
  qed
  ultimately show ?thesis using en by (simp add: live_def enforces_def u n)
qed

section \<open>The todo list of the live run\<close>

definition failures_of :: "history \<Rightarrow> string \<Rightarrow> fingerprint list" where
  "failures_of F i = map snd (filter (\<lambda>e. fst e = i) F)"

definition with_failures :: "history \<Rightarrow> 'r work_item \<Rightarrow> 'r work_item" where
  "with_failures F x = x\<lparr>ti_fingerprints := fold count_fingerprint (failures_of F (ti_id x)) []\<rparr>"

lemma failures_of_simps [simp]:
  "failures_of [] i = []"
  "failures_of (F @ [(j, f)]) i = (if j = i then failures_of F i @ [f] else failures_of F i)"
  by (simp_all add: failures_of_def)

lemma with_failures_fields [simp]:
  "ti_id (with_failures F x) = ti_id x" "ti_contract (with_failures F x) = ti_contract x"
  "ti_status (with_failures F x) = ti_status x" "ti_progress (with_failures F x) = ti_progress x"
  by (simp_all add: with_failures_def)

lemma plain_with_failures [simp]: "plain (with_failures F x) = plain x"
  by (simp add: plain_def)

lemma append_failure_items:
  fixes xs :: "'a work_item list"
  assumes "distinct (map ti_id xs)" "i \<in> ti_id ` set xs" "tl_items t = map (with_failures F) xs"
  shows "tl_items (fst (AppendFailureFingerprint i f t)) = map (with_failures (F @ [(i, f)])) xs"
proof -
  from assms(2) obtain x where x: "x \<in> set xs" "ti_id x = i" by blast
  then obtain pre post where xs: "xs = pre @ x # post" by (meson split_list)
  let ?g = "\<lambda>x. Inr (x\<lparr>ti_fingerprints := count_fingerprint f (ti_fingerprints x)\<rparr>) :: todo_error + 'a work_item"
  let ?m = "map (with_failures F)"
  have others: "ti_id y \<noteq> i" if "y \<in> set pre \<union> set post" for y
    using that assms(1) unfolding xs x(2) [symmetric] by (auto simp: image_iff)
  then have keep: "map (with_failures (F @ [(i, f)])) pre = ?m pre" "map (with_failures (F @ [(i, f)])) post = ?m post"
    by (auto simp: with_failures_def)
  have items: "tl_items t = ?m pre @ with_failures F x # ?m post" using assms(3) xs by simp
  have "update_first (\<lambda>x. ti_id x = i) ?g (?m pre @ with_failures F x # ?m post) =
      Some (case ?g (with_failures F x) of Inl e \<Rightarrow> Inl e | Inr y \<Rightarrow> Inr (?m pre @ y # ?m post))"
    by (rule update_first_at) (use others x in auto)
  then have "update_first (\<lambda>x. ti_id x = i) ?g (tl_items t) =
      Some (Inr (?m pre @ with_failures (F @ [(i, f)]) x # ?m post))"
    unfolding items using x(2) by (simp add: with_failures_def)
  then show ?thesis using xs keep
    by (simp add: AppendFailureFingerprint_def edit_item_def edit_where_def notify_def)
qed

lemma find_with_failures:
  assumes "distinct (map ti_id xs)" "x \<in> set xs"
  shows "find (\<lambda>y. ti_id y = ti_id x) (map (with_failures F) xs) = Some (with_failures F x)"
  using assms by (induction xs) auto

lemma live_run:
  assumes "distinct (map ti_id (tl_items t))" "\<forall>x\<in>set (tl_items t). plain x \<and> ti_fingerprints x = []"
    and "\<forall>e\<in>set F. fst e \<in> ti_id ` set (tl_items t)" "clean_history F"
  shows "tl_items (fst (fold (fail_step limits) F (t, reset_thrash))) = map (with_failures F) (tl_items t) \<and>
    live limits F (snd (fold (fail_step limits) F (t, reset_thrash)))"
  using assms(3,4)
proof (induction F rule: rev_induct)
  case Nil
  have "map (with_failures []) (tl_items t) = tl_items t"
    by (rule map_idI) (use assms(2) in \<open>simp add: with_failures_def\<close>)
  moreover have "live limits [] reset_thrash"
    by (auto simp: live_def enforces_def reset_thrash_def systemic_tasks_def systemic_defect_def at_limit_def fun_eq_iff)
  ultimately show ?case by simp
next
  case (snoc e F)
  obtain i f where e: "e = (i, f)" by (cases e)
  let ?ts = "fold (fail_step limits) F (t, reset_thrash)"
  from snoc.prems(1) e obtain x where x: "x \<in> set (tl_items t)" "ti_id x = i" by auto
  have IH: "tl_items (fst ?ts) = map (with_failures F) (tl_items t)" "live limits F (snd ?ts)"
    using snoc.IH snoc.prems by (simp_all add: clean_history_def)
  have found: "find (\<lambda>y. ti_id y = i) (tl_items (fst ?ts)) = Some (with_failures F x)"
    using find_with_failures [OF assms(1) x(1)] x(2) IH(1) by simp
  have "fold (fail_step limits) (F @ [e]) (t, reset_thrash) =
      (fst (AppendFailureFingerprint i f (fst ?ts)),
       snd (record_failure (Some (with_failures F x)) f (strategy_of (with_failures F x)) limits (snd ?ts)))"
    by (simp add: fail_step_def e found Let_def)
  moreover have "tl_items (fst (AppendFailureFingerprint i f (fst ?ts))) = map (with_failures (F @ [(i, f)])) (tl_items t)"
    by (rule append_failure_items [OF assms(1) _ IH(1)]) (use x in auto)
  moreover have "live limits (F @ [(ti_id (with_failures F x), f)])
      (snd (record_failure (Some (with_failures F x)) f (strategy_of (with_failures F x)) limits (snd ?ts)))"
    by (rule live_step [OF IH(2)]) (use assms(2) x snoc.prems(2) e in auto)
  ultimately show ?case using x(2) by (simp add: e)
qed

section \<open>The rebuilt state\<close>

text \<open>
  The counters after the items have been read; the fingerprint limit has been applied to the digests in
  \<open>D\<close>, and no other limit yet.
\<close>

definition replayed :: "reliability \<Rightarrow> history \<Rightarrow> string set \<Rightarrow> thrash \<Rightarrow> bool" where
  "replayed limits G D s \<longleftrightarrow>
     at_counts s = hits G \<and> at_diagnostics s = 0 \<and>
     (\<forall>k. systemic_tasks s k = (if 0 < rl_systemic limits then seen_by G k else {})) \<and>
     set (map fst (at_systemic s)) = (if 0 < rl_systemic limits then (\<lambda>e. systemicScopeKey (snd e)) ` set G else {}) \<and>
     at_criteria s = {} \<and> at_scopes s = {} \<and> \<not> at_no_diagnostics s \<and> \<not> at_no_repairs s \<and>
     at_escalated s = {} \<and> at_systemic_scopes s = {} \<and> at_prefixes s = {} \<and>
     at_fingerprints s = {d \<in> D. rl_hard limits \<and> at_limit (rl_same limits) (hits G d)} \<and>
     (at_hard s \<longleftrightarrow> (\<exists>d\<in>D. rl_hard limits \<and> at_limit (rl_same limits) (hits G d)))"

lemma keys_update: "fst ` set (AList.update k v al) = insert k (fst ` set al)"
  by (induction al) auto

lemma replay_fingerprint_plain:
  assumes "plain x" "replayed limits G {} s" "ff_digest f \<noteq> []" "hits (G @ [(ti_id x, f)]) (ff_digest f) \<le> MaxInt64"
  shows "replayed limits (G @ [(ti_id x, f)]) {} (replay_fingerprint x limits f s)"
proof -
  have n: "i64 (hits G (ff_digest f) + at_least_one (ff_occurrences f)) = hits G (ff_digest f) + at_least_one (ff_occurrences f)"
    using assms(4) hits_nonneg [of G "ff_digest f"] by (intro i64_exact) (simp_all add: at_least_one_def)
  have h: "replay_hypothesis x f m limits s = s" for m
    using assms(1) by (simp add: replay_hypothesis_def plain_def Let_def)
  have id: "TrimSpace (ti_id x) \<noteq> []" using assms(1) by (simp add: plain_def)
  show ?thesis
    using assms(2,3) n id unfolding replayed_def
    by (auto simp: replay_fingerprint_def h Let_def count_strategy_def add_systemic_def systemic_tasks_def
        update_conv keys_update fun_eq_iff)
qed

lemma replay_fingerprints_plain:
  assumes "plain x" "replayed limits G {} s" "\<forall>f\<in>set fs. ff_digest f \<noteq> []"
    and "\<forall>d. hits (G @ map (Pair (ti_id x)) fs) d \<le> MaxInt64"
  shows "replayed limits (G @ map (Pair (ti_id x)) fs) {} (fold (replay_fingerprint x limits) fs s)"
  using assms(2-4)
proof (induction fs rule: rev_induct)
  case (snoc f fs)
  have "hits (G @ map (Pair (ti_id x)) fs) d \<le> MaxInt64" for d
    using snoc.prems(3) [rule_format, of d] by (simp add: at_least_one_def split: if_splits)
  with snoc have "replayed limits (G @ map (Pair (ti_id x)) fs) {} (fold (replay_fingerprint x limits) fs s)" by simp
  moreover have "hits ((G @ map (Pair (ti_id x)) fs) @ [(ti_id x, f)]) (ff_digest f) \<le> MaxInt64"
    using snoc.prems(3) [rule_format, of "ff_digest f"] by simp
  ultimately show ?case using replay_fingerprint_plain [OF assms(1), of limits "G @ map (Pair (ti_id x)) fs"] snoc.prems(2)
    by simp
qed simp

definition flat :: "'r work_item list \<Rightarrow> history" where
  "flat xs = concat (map (\<lambda>x. map (Pair (ti_id x)) (ti_fingerprints x)) xs)"

lemma flat_simps [simp]:
  "flat [] = []" "flat (xs @ [x]) = flat xs @ map (Pair (ti_id x)) (ti_fingerprints x)"
  by (simp_all add: flat_def)

lemma counted_plain: "plain x \<Longrightarrow> countedFailureFingerprints x = ti_fingerprints x"
  by (auto simp: countedFailureFingerprints_def plain_def)

lemma replay_item_plain: "plain x \<Longrightarrow> replay_item items limits x s = fold (replay_fingerprint x limits) (ti_fingerprints x) s"
  by (simp add: replay_item_def Let_def counted_plain) (simp add: plain_def)

lemma replay_items_plain:
  assumes "\<forall>x\<in>set xs. plain x" "\<forall>e\<in>set (flat xs). ff_digest (snd e) \<noteq> []" "\<forall>d. hits (flat xs) d \<le> MaxInt64"
  shows "replayed limits (flat xs) {} (fold (replay_item items limits) xs reset_thrash)"
  using assms
proof (induction xs rule: rev_induct)
  case Nil
  show ?case by (simp add: replayed_def reset_thrash_def systemic_tasks_def fun_eq_iff)
next
  case (snoc x xs)
  let ?s = "fold (replay_item items limits) xs reset_thrash"
  have x: "plain x" using snoc.prems(1) by simp
  have "hits (flat xs) d \<le> MaxInt64" for d
    using snoc.prems(3) [rule_format, of d] hits_nonneg [of "map (Pair (ti_id x)) (ti_fingerprints x)" d] by simp
  with snoc have "replayed limits (flat xs) {} ?s" by simp
  moreover have "\<forall>f\<in>set (ti_fingerprints x). ff_digest f \<noteq> []" using snoc.prems(2) by (simp add: ball_Un)
  ultimately have "replayed limits (flat (xs @ [x])) {} (fold (replay_fingerprint x limits) (ti_fingerprints x) ?s)"
    using replay_fingerprints_plain [OF x] snoc.prems(3) by simp
  then show ?case using x by (simp add: replay_item_plain)
qed

lemma enforce_fingerprint_plain:
  assumes "replayed limits G D s" "ff_digest f \<noteq> []"
  shows "replayed limits G (insert (ff_digest f) D) (enforce_fingerprint limits f s)"
  using assms by (auto simp: replayed_def enforce_fingerprint_def Let_def markBlockedFingerprint_def systemic_tasks_def)

lemma enforce_fingerprints_plain:
  "replayed limits G D s \<Longrightarrow> \<forall>f\<in>set fs. ff_digest f \<noteq> [] \<Longrightarrow>
   replayed limits G (D \<union> ff_digest ` set fs) (fold (enforce_fingerprint limits) fs s)"
proof (induction fs arbitrary: D s)
  case (Cons f fs)
  from Cons.IH [OF enforce_fingerprint_plain [OF Cons.prems(1)], of f] Cons.prems(2) show ?case by simp
qed simp

lemma enforce_items_plain:
  assumes "\<forall>x\<in>set xs. plain x" "\<forall>e\<in>set (flat xs). ff_digest (snd e) \<noteq> []" "replayed limits G D s"
  shows "replayed limits G (D \<union> (\<lambda>e. ff_digest (snd e)) ` set (flat xs)) (fold (enforce_item limits) xs s)"
  using assms
proof (induction xs rule: rev_induct)
  case (snoc x xs)
  let ?s = "fold (enforce_item limits) xs s"
  have x: "plain x" using snoc.prems(1) by simp
  have "replayed limits G (D \<union> (\<lambda>e. ff_digest (snd e)) ` set (flat xs)) ?s" using snoc by simp
  moreover have "\<forall>f\<in>set (ti_fingerprints x). ff_digest f \<noteq> []" using snoc.prems(2) by (simp add: ball_Un)
  ultimately have "replayed limits G (D \<union> (\<lambda>e. ff_digest (snd e)) ` set (flat xs) \<union> ff_digest ` set (ti_fingerprints x))
      (fold (enforce_fingerprint limits) (ti_fingerprints x) ?s)"
    by (rule enforce_fingerprints_plain)
  moreover have "fold (enforce_item limits) (xs @ [x]) s = fold (enforce_fingerprint limits) (ti_fingerprints x) ?s"
    using x by (simp add: enforce_item_def Let_def counted_plain plain_def)
  moreover have "(\<lambda>e. ff_digest (snd e)) ` set (flat (xs @ [x])) =
      (\<lambda>e. ff_digest (snd e)) ` set (flat xs) \<union> ff_digest ` set (ti_fingerprints x)"
    by (simp add: image_Un image_image)
  ultimately show ?case by (simp add: Un_assoc)
qed simp

text \<open>The escalated scopes once part of the scopes has been looked at.\<close>

definition escalated :: "reliability \<Rightarrow> history \<Rightarrow> string set \<Rightarrow> thrash \<Rightarrow> bool" where
  "escalated limits G K s \<longleftrightarrow>
     at_counts s = hits G \<and>
     (\<forall>k. systemic_tasks s k = seen_by G k) \<and>
     at_criteria s = {} \<and> at_scopes s = {} \<and> \<not> at_no_diagnostics s \<and> \<not> at_no_repairs s \<and>
     at_fingerprints s = {d. rl_hard limits \<and> at_limit (rl_same limits) (hits G d)} \<and>
     at_escalated s = {k \<in> K. systemic_defect limits G k} \<and>
     at_systemic_scopes s = {k \<in> K. rl_hard limits \<and> systemic_defect limits G k} \<and>
     at_prefixes s = {systemicScopePrefixKey c q | c q k. k \<in> K \<and> rl_hard limits \<and> systemic_defect limits G k \<and>
        splitSystemicScopePrefix k = Some (c, q)} \<and>
     (at_hard s \<longleftrightarrow> rl_hard limits \<and>
        ((\<exists>d. at_limit (rl_same limits) (hits G d)) \<or> (\<exists>k\<in>K. systemic_defect limits G k)))"

lemma threshold_plain:
  assumes "escalated limits G K s" "0 < rl_systemic limits"
  shows "escalated limits G (insert k K) (threshold_scope limits k s)"
proof (cases "systemic_defect limits G k")
  case False
  with assms have "threshold_scope limits k s = s"
    by (simp add: escalated_def threshold_scope_def systemicTaskCount_def systemic_defect_def at_limit_def)
  then show ?thesis using assms(1) False unfolding escalated_def by auto
next
  case True
  let ?s = "if k \<in> at_escalated s then s else escalate k s"
  have t: "threshold_scope limits k s = (if rl_hard limits then
      ?s\<lparr>at_systemic_scopes := insert k (at_systemic_scopes s),
         at_prefixes := (case splitSystemicScopePrefix k of
            None \<Rightarrow> at_prefixes s
          | Some (c, p) \<Rightarrow> insert (systemicScopePrefixKey c p) (at_prefixes s)),
         at_hard := True\<rparr> else ?s)"
    using assms True by (simp add: escalated_def threshold_scope_def systemicTaskCount_def systemic_defect_def at_limit_def
        Let_def escalate_def cong: option.case_cong)
  show ?thesis using assms(1) True unfolding escalated_def t
    by (cases "rl_hard limits"; cases "splitSystemicScopePrefix k")
      (auto simp: escalate_def systemic_tasks_def split: if_splits)
qed

lemma thresholds_plain:
  "escalated limits G K s \<Longrightarrow> 0 < rl_systemic limits \<Longrightarrow>
   escalated limits G (K \<union> set ks) (fold (threshold_scope limits) ks s)"
proof (induction ks arbitrary: K s)
  case (Cons k ks)
  from Cons.IH [OF threshold_plain [OF Cons.prems]] Cons.prems(2) show ?case by simp
qed simp

lemma limit_hit: "at_limit m (hits G d) \<Longrightarrow> d \<in> (\<lambda>e. ff_digest (snd e)) ` set G"
proof (rule ccontr)
  assume l: "at_limit m (hits G d)" and d: "d \<notin> (\<lambda>e. ff_digest (snd e)) ` set G"
  have "hits G d = 0" using d by (induction G) (auto simp: hits_def)
  with l show False unfolding at_limit_def by linarith
qed

lemma defect_seen: "systemic_defect limits G k \<Longrightarrow> k \<in> (\<lambda>e. systemicScopeKey (snd e)) ` set G"
proof (rule ccontr)
  assume l: "systemic_defect limits G k" and k: "k \<notin> (\<lambda>e. systemicScopeKey (snd e)) ` set G"
  from k have "{e \<in> set G. systemicScopeKey (snd e) = k} = {}" by blast
  then have "seen_by G k = {}" by (simp add: seen_by_def)
  with l show False unfolding systemic_defect_def at_limit_def by auto
qed

lemma escalated_all:
  assumes e: "escalated limits G K s" and K: "\<And>k. systemic_defect limits G k \<Longrightarrow> k \<in> K"
  shows "enforces limits G s"
proof -
  have "{k \<in> K. systemic_defect limits G k} = {k. systemic_defect limits G k}"
    "{k \<in> K. rl_hard limits \<and> systemic_defect limits G k} = {k. rl_hard limits \<and> systemic_defect limits G k}"
    "(\<exists>k\<in>K. systemic_defect limits G k) \<longleftrightarrow> (\<exists>k. systemic_defect limits G k)"
    "{systemicScopePrefixKey c q | c q k. k \<in> K \<and> rl_hard limits \<and> systemic_defect limits G k \<and>
        splitSystemicScopePrefix k = Some (c, q)} =
     {systemicScopePrefixKey c q | c q k. rl_hard limits \<and> systemic_defect limits G k \<and>
        splitSystemicScopePrefix k = Some (c, q)}"
    using K by blast+
  with e show ?thesis unfolding escalated_def enforces_def by (simp only: simp_thms)
qed

lemma rebuild_plain:
  assumes "\<forall>x\<in>set xs. plain x" "\<forall>e\<in>set (flat xs). ff_digest (snd e) \<noteq> []" "\<forall>d. hits (flat xs) d \<le> MaxInt64"
  shows "enforces limits (flat xs) (rebuild xs limits)"
proof -
  let ?G = "flat xs"
  let ?s = "fold (enforce_item limits) xs (fold (replay_item xs limits) xs reset_thrash)"
  have "replayed limits ?G ({} \<union> (\<lambda>e. ff_digest (snd e)) ` set ?G) ?s"
    by (rule enforce_items_plain [OF assms(1,2) replay_items_plain [OF assms]])
  then have s: "replayed limits ?G ((\<lambda>e. ff_digest (snd e)) ` set ?G) ?s" by simp
  have fps: "{d \<in> (\<lambda>e. ff_digest (snd e)) ` set ?G. rl_hard limits \<and> at_limit (rl_same limits) (hits ?G d)} =
      {d. rl_hard limits \<and> at_limit (rl_same limits) (hits ?G d)}"
    "(\<exists>d\<in>(\<lambda>e. ff_digest (snd e)) ` set ?G. rl_hard limits \<and> at_limit (rl_same limits) (hits ?G d)) \<longleftrightarrow>
      rl_hard limits \<and> (\<exists>d. at_limit (rl_same limits) (hits ?G d))"
    using limit_hit by blast+
  show ?thesis
  proof (cases "0 < rl_systemic limits")
    case False
    then have "\<not> systemic_defect limits ?G k" for k by (simp add: systemic_defect_def at_limit_def)
    with s False show ?thesis
      unfolding replayed_def fps by (simp add: enforces_def rebuild_def applySystemicThreshold_def)
  next
    case True
    from s have "escalated limits ?G {} ?s" unfolding replayed_def fps using True by (simp add: escalated_def)
    note e = thresholds_plain [OF this True, of "map fst (at_systemic ?s)"]
    have keys: "set (map fst (at_systemic ?s)) = (\<lambda>e. systemicScopeKey (snd e)) ` set ?G"
      using s True unfolding replayed_def by metis
    have r: "rebuild xs limits = fold (threshold_scope limits) (map fst (at_systemic ?s)) ?s"
      using True by (simp add: rebuild_def applySystemicThreshold_def)
    have "escalated limits ?G ((\<lambda>e. systemicScopeKey (snd e)) ` set ?G) (rebuild xs limits)"
      using e unfolding r keys by simp
    then show ?thesis by (rule escalated_all) (rule defect_seen)
  qed
qed

section \<open>The two histories\<close>

lemma count_keys:
  assumes "\<forall>g\<in>set xs. ff_digest g = ff_digest f \<longrightarrow> systemicScopeKey g = systemicScopeKey f"
  shows "systemicScopeKey ` set (count_fingerprint f xs) = insert (systemicScopeKey f) (systemicScopeKey ` set xs)"
  using assms by (induction f xs rule: count_fingerprint.induct) (auto simp: systemicScopeKey_def)

lemma count_members:
  "g \<in> set (count_fingerprint f xs) \<Longrightarrow>
   (\<exists>h\<in>set (f # xs). ff_digest g = ff_digest h \<and> systemicScopeKey g = systemicScopeKey h)"
  by (induction f xs rule: count_fingerprint.induct) (auto simp: systemicScopeKey_def split: if_splits)

lemma tally_facts:
  assumes "\<forall>f\<in>set fs. ff_digest f \<noteq> []" "\<forall>d. seen d fs \<le> MaxInt64"
    and "\<forall>f\<in>set fs. \<forall>g\<in>set fs. ff_digest f = ff_digest g \<longrightarrow> systemicScopeKey f = systemicScopeKey g"
  shows "(\<forall>g\<in>set (fold count_fingerprint fs []). 1 \<le> ff_occurrences g \<and>
      (\<exists>f\<in>set fs. ff_digest g = ff_digest f \<and> systemicScopeKey g = systemicScopeKey f)) \<and>
    (\<forall>d. seen d (fold count_fingerprint fs []) = seen d fs) \<and>
    systemicScopeKey ` set (fold count_fingerprint fs []) = systemicScopeKey ` set fs"
  using assms
proof (induction fs rule: rev_induct)
  case (snoc f fs)
  let ?xs = "fold count_fingerprint fs []"
  have "seen d fs \<le> MaxInt64" for d
    using snoc.prems(2) [rule_format, of d] by (simp add: at_least_one_def split: if_splits)
  moreover have "\<forall>f\<in>set fs. ff_digest f \<noteq> []"
    "\<forall>f\<in>set fs. \<forall>g\<in>set fs. ff_digest f = ff_digest g \<longrightarrow> systemicScopeKey f = systemicScopeKey g"
    using snoc.prems(1,3) unfolding set_append by blast+
  ultimately have IH: "\<forall>g\<in>set ?xs. 1 \<le> ff_occurrences g"
    "\<forall>g\<in>set ?xs. \<exists>f\<in>set fs. ff_digest g = ff_digest f \<and> systemicScopeKey g = systemicScopeKey f"
    "\<forall>d. seen d ?xs = seen d fs" "systemicScopeKey ` set ?xs = systemicScopeKey ` set fs"
    using snoc.IH by blast+
  have "seen (ff_digest f) ?xs + at_least_one (ff_occurrences f) \<le> MaxInt64"
    using IH(3) snoc.prems(2) [rule_format, of "ff_digest f"] by simp
  note c = count_seen [OF IH(1) this]
  have same: "\<forall>g\<in>set ?xs. ff_digest g = ff_digest f \<longrightarrow> systemicScopeKey g = systemicScopeKey f"
  proof (intro ballI impI)
    fix g assume g: "g \<in> set ?xs" "ff_digest g = ff_digest f"
    then obtain h where h: "h \<in> set fs" "ff_digest g = ff_digest h" "systemicScopeKey g = systemicScopeKey h"
      using IH(2) by blast
    have "h \<in> set (fs @ [f])" "f \<in> set (fs @ [f])" using h(1) by simp_all
    with snoc.prems(3) h g(2) have "systemicScopeKey h = systemicScopeKey f" by metis
    with h(3) show "systemicScopeKey g = systemicScopeKey f" by simp
  qed
  have k: "systemicScopeKey ` set (count_fingerprint f ?xs) = insert (systemicScopeKey f) (systemicScopeKey ` set ?xs)"
    by (rule count_keys [OF same])
  have "\<exists>h\<in>set (fs @ [f]). ff_digest g = ff_digest h \<and> systemicScopeKey g = systemicScopeKey h"
    if g: "g \<in> set (count_fingerprint f ?xs)" for g
  proof -
    obtain h where h: "h \<in> set (f # ?xs)" "ff_digest g = ff_digest h" "systemicScopeKey g = systemicScopeKey h"
      using count_members [OF g] by blast
    show ?thesis
    proof (cases "h = f")
      case False
      with h(1) have "h \<in> set ?xs" by simp
      then obtain z where "z \<in> set fs" "ff_digest h = ff_digest z" "systemicScopeKey h = systemicScopeKey z"
        using IH(2) by blast
      then show ?thesis using h(2,3) by (intro bexI [of _ z]) simp_all
    qed (use h in simp)
  qed
  moreover have "seen d (count_fingerprint f ?xs) = seen d (fs @ [f])" for d using c [of d] IH(3) by simp
  moreover have "\<forall>g\<in>set (count_fingerprint f ?xs). 1 \<le> ff_occurrences g" using c by blast
  moreover have "systemicScopeKey ` set (count_fingerprint f ?xs) = systemicScopeKey ` set (fs @ [f])" using k IH(4) by simp
  moreover have f: "fold count_fingerprint (fs @ [f]) [] = count_fingerprint f ?xs" by simp
  ultimately show ?case unfolding f by blast
qed simp

lemma hits_flat: "hits (flat ys) d = sum_list (map (\<lambda>y. seen d (ti_fingerprints y)) ys)"
proof (induction ys rule: rev_induct)
  case (snoc y ys)
  have "hits (map (Pair (ti_id y)) (ti_fingerprints y)) d = seen d (ti_fingerprints y)"
    by (simp add: hits_def comp_def)
  with snoc show ?case by simp
qed simp

lemma hits_split:
  assumes "distinct is" "\<forall>e\<in>set F. fst e \<in> set is"
  shows "sum_list (map (\<lambda>i. seen d (failures_of F i)) is) = hits F d"
  using assms(2)
proof (induction F rule: rev_induct)
  case (snoc e F)
  obtain j f where e: "e = (j, f)" by (cases e)
  let ?c = "if ff_digest f = d then at_least_one (ff_occurrences f) else 0"
  have "sum_list (map (\<lambda>i. seen d (failures_of (F @ [e]) i)) is) =
      (\<Sum>i\<in>set is. seen d (failures_of F i) + (if j = i then ?c else 0))"
    unfolding sum_list_distinct_conv_sum_set [OF assms(1)] by (intro sum.cong) (auto simp: e)
  also have "\<dots> = (\<Sum>i\<in>set is. seen d (failures_of F i)) + ?c"
    using snoc.prems by (simp add: sum.distrib sum.delta e)
  also have "\<dots> = hits F d + ?c"
    using snoc by (simp add: sum_list_distinct_conv_sum_set [OF assms(1)])
  finally show ?case by (simp add: e)
qed simp

lemma hits_length: "clean_history F \<Longrightarrow> hits F d \<le> int (length F)"
proof (induction F rule: rev_induct)
  case (snoc e F)
  then have "hits F d \<le> int (length F)" "ff_occurrences (snd e) = 1" by (simp_all add: clean_history_def)
  then show ?case by (simp add: at_least_one_def)
qed simp

lemma enforces_same: "hits F = hits G \<Longrightarrow> seen_by F = seen_by G \<Longrightarrow> enforces limits F s = enforces limits G s"
  by (simp add: enforces_def systemic_defect_def)

lemma flat_with_failures:
  assumes "distinct (map ti_id xs)" "\<forall>e\<in>set F. fst e \<in> ti_id ` set xs" "clean_history F" "int (length F) \<le> MaxInt64"
  defines "G \<equiv> flat (map (with_failures F) xs)"
  shows "hits G = hits F" "seen_by G = seen_by F" "\<forall>e\<in>set G. ff_digest (snd e) \<noteq> []"
proof -
  have sub: "(i, f) \<in> set F" if "f \<in> set (failures_of F i)" for i f using that by (auto simp: failures_of_def)
  have t: "(\<forall>g\<in>set (fold count_fingerprint (failures_of F i) []). 1 \<le> ff_occurrences g \<and>
      (\<exists>f\<in>set (failures_of F i). ff_digest g = ff_digest f \<and> systemicScopeKey g = systemicScopeKey f)) \<and>
    (\<forall>d. seen d (fold count_fingerprint (failures_of F i) []) = seen d (failures_of F i)) \<and>
    systemicScopeKey ` set (fold count_fingerprint (failures_of F i) []) = systemicScopeKey ` set (failures_of F i)" for i
  proof (rule tally_facts)
    show "\<forall>f\<in>set (failures_of F i). ff_digest f \<noteq> []"
      using assms(3) sub unfolding clean_history_def by fastforce
    show "\<forall>d. seen d (failures_of F i) \<le> MaxInt64"
    proof
      fix d
      have "seen d (failures_of F i) \<le> hits F d"
        unfolding failures_of_def hits_def by (induction F) (auto simp: at_least_one_def)
      with hits_length [OF assms(3), of d] assms(4) show "seen d (failures_of F i) \<le> MaxInt64" by simp
    qed
    show "\<forall>f\<in>set (failures_of F i). \<forall>g\<in>set (failures_of F i). ff_digest f = ff_digest g \<longrightarrow> systemicScopeKey f = systemicScopeKey g"
      using assms(3) sub unfolding clean_history_def by (metis snd_conv)
  qed
  have fps: "ti_fingerprints (with_failures F x) = fold count_fingerprint (failures_of F (ti_id x)) []" for x :: "'a work_item"
    by (simp add: with_failures_def)
  have "hits G d = hits F d" for d
  proof -
    have "hits G d = sum_list (map (\<lambda>i. seen d (failures_of F i)) (map ti_id xs))"
      using t by (simp add: G_def hits_flat fps comp_def)
    also have "\<dots> = hits F d" by (rule hits_split) (use assms(1,2) in auto)
    finally show ?thesis .
  qed
  then show "hits G = hits F" by blast
  have mem: "e \<in> set G \<longleftrightarrow> (\<exists>x\<in>set xs. fst e = ti_id x \<and> snd e \<in> set (fold count_fingerprint (failures_of F (ti_id x)) []))" for e
    by (cases e) (auto simp: G_def flat_def fps)
  have keys: "systemicScopeKey ` set (fold count_fingerprint (failures_of F i) []) = systemicScopeKey ` set (failures_of F i)" for i
    using t by blast
  show "seen_by G = seen_by F"
  proof (rule ext, rule set_eqI, rule iffI)
    fix k i assume "i \<in> seen_by G k"
    then obtain e where e: "e \<in> set G" "i = fst e" "k = systemicScopeKey (snd e)" by (auto simp: seen_by_def)
    from e(1) [unfolded mem] obtain x where "x \<in> set xs" "fst e = ti_id x"
      "snd e \<in> set (fold count_fingerprint (failures_of F (ti_id x)) [])" by auto
    then have "k \<in> systemicScopeKey ` set (failures_of F i)" using e(2,3) keys [of i] by auto
    then obtain f where f: "f \<in> set (failures_of F i)" "k = systemicScopeKey f" by blast
    from sub [OF f(1)] f(2) show "i \<in> seen_by F k" unfolding seen_by_def by (intro image_eqI [of _ _ "(i, f)"]) simp_all
  next
    fix k i assume "i \<in> seen_by F k"
    then obtain f where f: "(i, f) \<in> set F" "k = systemicScopeKey f" by (auto simp: seen_by_def)
    from f(1) assms(2) obtain x where x: "x \<in> set xs" "i = ti_id x" by auto
    have "f \<in> set (failures_of F i)" using f(1) by (force simp: failures_of_def)
    then have "k \<in> systemicScopeKey ` set (fold count_fingerprint (failures_of F i) [])" unfolding keys f(2) by simp
    then obtain g where g: "g \<in> set (fold count_fingerprint (failures_of F i) [])" "k = systemicScopeKey g" by blast
    then have "(i, g) \<in> set G" using mem [of "(i, g)"] x by auto
    then show "i \<in> seen_by G k" using g(2) unfolding seen_by_def by (intro image_eqI [of _ _ "(i, g)"]) simp_all
  qed
  show "\<forall>e\<in>set G. ff_digest (snd e) \<noteq> []"
  proof
    fix e assume "e \<in> set G"
    then obtain x where "x \<in> set xs" "snd e \<in> set (fold count_fingerprint (failures_of F (ti_id x)) [])"
      using mem by blast
    then obtain f where f: "f \<in> set (failures_of F (ti_id x))" "ff_digest (snd e) = ff_digest f" using t by blast
    from sub [OF f(1)] assms(3) have "ff_digest f \<noteq> []" unfolding clean_history_def by fastforce
    with f(2) show "ff_digest (snd e) \<noteq> []" by simp
  qed
qed

text \<open>
  C11. A restart does not reset enforcement. Take a run whose outcome tasks fail in any order, each
  failure recorded live and appended to its todo item. The state rebuilt from the todo list alone
  has the live counts and decides every dispatch as the live state does, also after systemic
  escalations across tasks.
\<close>

theorem restart_enforces_alike:
  assumes "distinct (map ti_id (tl_items t))" "\<forall>x\<in>set (tl_items t). plain x \<and> ti_fingerprints x = []"
    and "\<forall>e\<in>set F. fst e \<in> ti_id ` set (tl_items t)" "clean_history F" "int (length F) \<le> MaxInt64"
    and "fold (fail_step limits) F (t, reset_thrash) = (t', s)"
  shows "at_counts (rebuild (tl_items t') limits) = at_counts s \<and>
    dispatchBlock (rebuild (tl_items t') limits) task item = dispatchBlock s task item"
proof -
  have run: "tl_items t' = map (with_failures F) (tl_items t)" "live limits F s"
    using live_run [OF assms(1-4), of limits] assms(6) by simp_all
  note G = flat_with_failures [OF assms(1,3,4,5), folded run(1)]
  have "\<forall>x\<in>set (tl_items t'). plain x" using assms(2) by (simp add: run(1))
  moreover have "\<forall>d. hits (flat (tl_items t')) d \<le> MaxInt64"
    using hits_length [OF assms(4)] assms(5) G(1) by (metis order.trans)
  ultimately have "enforces limits (flat (tl_items t')) (rebuild (tl_items t') limits)"
    using G(3) by (intro rebuild_plain)
  then have r: "enforces limits F (rebuild (tl_items t') limits)" using enforces_same [OF G(1,2)] by blast
  have s: "enforces limits F s" using run(2) by (simp add: live_def)
  from enforces_dispatch [OF r s] r s show ?thesis by (simp add: enforces_def)
qed

section \<open>Instance\<close>

definition demo_run :: "(work_contract, unit) todo_list" where
  "demo_run = emptyTodoList\<lparr>tl_items := [demo_work ''1'' TaskKindOutcome [''c1''], demo_work ''2'' TaskKindOutcome []]\<rparr>"

text \<open>Two tasks fail alike, which is systemic; a third that would run the same operation waits for a new plan.\<close>

theorem restart_enforces_alike_witness:
  "case fold (fail_step demo_limits) [(''1'', demo_failure), (''2'', demo_failure)] (demo_run, reset_thrash) of
     (t', s) \<Rightarrow>
       dispatchBlock s (sample_task []) (Some (demo_work ''3'' TaskKindOutcome [])) = Some ReplanRequired \<and>
       dispatchBlock (rebuild (tl_items t') demo_limits) (sample_task []) (Some (demo_work ''3'' TaskKindOutcome [])) =
         Some ReplanRequired"
proof -
  let ?F = "[(''1'', demo_failure), (''2'', demo_failure)]"
  obtain t' s where r: "fold (fail_step demo_limits) ?F (demo_run, reset_thrash) = (t', s)" by fastforce
  have s: "dispatchBlock (snd (fold (fail_step demo_limits) ?F (demo_run, reset_thrash))) (sample_task [])
      (Some (demo_work ''3'' TaskKindOutcome [])) = Some ReplanRequired"
    by code_simp
  have a: "distinct (map ti_id (tl_items demo_run))"
    "\<forall>e\<in>set ?F. fst e \<in> ti_id ` set (tl_items demo_run)"
    "\<forall>x\<in>set (tl_items demo_run). plain x \<and> ti_fingerprints x = []"
    by (simp_all add: demo_run_def demo_work_def todoItemFromSpec_def plain_def sample_task_def) code_simp
  have c: "clean_history ?F" by (simp add: clean_history_def demo_failure_def)
  have n: "int (length ?F) \<le> MaxInt64" by (simp add: MaxInt64_def)
  from restart_enforces_alike [OF a(1,3,2) c n r, of "sample_task []" "Some (demo_work ''3'' TaskKindOutcome [])"] s r
  show ?thesis by simp
qed

end
