(* ===== verification/Go_Text.thy ===== *)
theory Go_Text
  imports Exec_Target "HOL-Library.Sublist"
begin

text \<open>
  More of Go's \<open>strings\<close>, \<open>strconv\<close> and \<open>path\<close>: splitting, fields, substrings, decimal integers and clean
  paths. As elsewhere a string is its UTF-8 bytes.
\<close>

section \<open>Splitting\<close>

text \<open>\<open>strings.Split\<close> at a one-byte separator.\<close>

fun split_on :: "char \<Rightarrow> string \<Rightarrow> string list" where
  "split_on sep [] = [[]]"
| "split_on sep (c # s) =
     (if c = sep then [] # split_on sep s
      else case split_on sep s of w # ws \<Rightarrow> (c # w) # ws | [] \<Rightarrow> [[c]])"

lemma split_on_nonempty [simp]: "split_on sep s \<noteq> []"
  by (cases s) (auto split: list.splits)

lemma split_on_free: "t \<in> set (split_on sep s) \<Longrightarrow> sep \<notin> set t"
  by (induction s arbitrary: t) (fastforce split: list.splits if_splits)+

lemma split_on_token: "sep \<notin> set t \<Longrightarrow> split_on sep (t @ sep # s) = t # split_on sep s"
  by (induction t) auto

lemma split_on_last: "sep \<notin> set t \<Longrightarrow> split_on sep t = [t]"
  by (induction t) auto

text \<open>Joining with the separator in front of each part, as in a path.\<close>

definition join_parts :: "char \<Rightarrow> string list \<Rightarrow> string" where
  "join_parts sep ts = concat (map (\<lambda>t. sep # t) ts)"

lemma join_parts_simps [simp]: "join_parts sep [] = []" "join_parts sep (t # ts) = sep # t @ join_parts sep ts"
  by (simp_all add: join_parts_def)

lemma split_join: "\<forall>t\<in>set ts. sep \<notin> set t \<Longrightarrow> ts \<noteq> [] \<Longrightarrow> split_on sep (tl (join_parts sep ts)) = ts"
proof (induction ts)
  case (Cons t ts)
  then show ?case by (cases ts) (simp_all add: split_on_last split_on_token)
qed simp

lemma join_split: "join_parts sep (split_on sep s) = sep # s"
proof (induction s)
  case (Cons c s)
  then show ?case by (cases "split_on sep s") auto
qed simp

text \<open>\<open>strings.Fields\<close>: the maximal runs of runes that are no space.\<close>

function words_from :: "string \<Rightarrow> string \<Rightarrow> string list" where
  "words_from w [] = (if w = [] then [] else [rev w])"
| "words_from w (c # s) =
     (case leading_space space_encodings (c # s) of
        None \<Rightarrow> words_from (c # w) s
      | Some t \<Rightarrow> (if w = [] then words_from [] t else rev w # words_from [] t))"
  by pat_completeness auto
termination
  by (relation "measure (\<lambda>(w, s). length s)") (auto dest!: leading_space_length [OF proper_space_encodings])

definition Fields :: "string \<Rightarrow> string list" where
  "Fields s = words_from [] s"

section \<open>Substrings and replacement\<close>

fun Contains :: "string \<Rightarrow> string \<Rightarrow> bool" where
  "Contains [] p \<longleftrightarrow> p = []"
| "Contains (c # s) p \<longleftrightarrow> prefix p (c # s) \<or> Contains s p"

lemma Contains_sublist: "Contains s p \<longleftrightarrow> sublist p s"
proof (induction s)
  case (Cons c s)
  then show ?case by (auto simp: sublist_Cons_right)
qed simp

text \<open>\<open>strings.ReplaceAll\<close> of a two-byte pattern by one byte.\<close>

fun replace_pair :: "char \<Rightarrow> char \<Rightarrow> char \<Rightarrow> string \<Rightarrow> string" where
  "replace_pair a b r (x # y # s) =
     (if x = a \<and> y = b then r # replace_pair a b r s else x # replace_pair a b r (y # s))"
| "replace_pair a b r s = s"

lemma replace_pair_other [simp]: "c \<noteq> a \<Longrightarrow> replace_pair a b r (c # s) = c # replace_pair a b r s"
  by (cases s) auto

section \<open>Numbers\<close>

text \<open>\<open>strconv.Atoi\<close>: an optional sign, decimal digits, the range of \<open>int64\<close>.\<close>

definition Atoi :: "string \<Rightarrow> int option" where
  "Atoi s =
     (let negative = (s \<noteq> [] \<and> hd s = CHR ''-'');
          digits = (if s \<noteq> [] \<and> hd s \<in> {CHR ''-'', CHR ''+''} then tl s else s);
          n = (if negative then - int (dec_val digits) else int (dec_val digits)) in
      if digits \<noteq> [] \<and> list_all is_digit digits \<and> is_int64 n then Some n else None)"

lemma Atoi_dec:
  assumes "int n \<le> MaxInt64"
  shows "Atoi (dec n) = Some (int n)"
proof -
  obtain c s where d: "dec n = c # s" by (cases "dec n") auto
  with dec_digits [of n] have "is_digit c" by simp
  then have "c \<noteq> CHR ''-''" "c \<noteq> CHR ''+''" by (auto simp: is_digit_def)
  with d have "\<not> hd (dec n) \<in> {CHR ''-'', CHR ''+''}" by simp
  with dec_digits [of n] assms show ?thesis
    by (auto simp: Atoi_def Let_def is_int64_def MinInt64_def)
qed

section \<open>Paths\<close>

text \<open>\<open>path.Clean\<close>, which is \<open>filepath.Clean\<close> on Unix.\<close>

fun clean_parts :: "bool \<Rightarrow> string list \<Rightarrow> string list \<Rightarrow> string list" where
  "clean_parts rooted done [] = rev done"
| "clean_parts rooted done (p # ps) =
     (if p = [] \<or> p = ''.'' then clean_parts rooted done ps
      else if p = ''..'' then
        (if done \<noteq> [] \<and> hd done \<noteq> ''..'' then clean_parts rooted (tl done) ps
         else if rooted then clean_parts rooted done ps else clean_parts rooted (p # done) ps)
      else clean_parts rooted (p # done) ps)"

definition Clean :: "string \<Rightarrow> string" where
  "Clean p =
     (if p = [] then ''.''
      else let rooted = (hd p = CHR ''/''); body = join_parts (CHR ''/'') (clean_parts rooted [] (split_on (CHR ''/'') p)) in
        if rooted then (if body = [] then ''/'' else body) else if body = [] then ''.'' else tl body)"

end
