(* ===== verification/Json_Values.thy ===== *)
theory Json_Values
  imports Go_Strings
begin

text \<open>
  Decoded JSON, as \<open>json.Unmarshal\<close> leaves it in an \<open>any\<close>: a number is its text, an object its fields,
  a later duplicate having replaced an earlier one.
\<close>

section \<open>JSON values\<close>

datatype json =
    JNull | JBool bool | JNumber string | JString string | JArray "json list" | JObject "(string \<times> json) list"

text \<open>\<open>json.Marshal\<close>, with the keys of an object in order.\<close>

fun json_text :: "json \<Rightarrow> string" where
  "json_text JNull = ''null''"
| "json_text (JBool b) = (if b then ''true'' else ''false'')"
| "json_text (JNumber n) = n"
| "json_text (JString s) = json_string s"
| "json_text (JArray vs) = json_array (map json_text vs)"
| "json_text (JObject fs) =
     ''{'' @ json_fields (sort_key fst (map (\<lambda>f. (fst f, json_text (snd f))) fs)) @ ''}''"

type_synonym json_map = "(string \<times> json) list"

type_synonym parser = "string \<Rightarrow> json option"

text \<open>\<open>json.Unmarshal\<close> into a map: \<open>null\<close> leaves the map empty.\<close>

definition decode_map :: "parser \<Rightarrow> string \<Rightarrow> json_map option" where
  "decode_map parse s =
     (case parse s of Some (JObject fs) \<Rightarrow> Some fs | Some JNull \<Rightarrow> Some [] | _ \<Rightarrow> None)"

end
