(* ===== verification/Tool_Sequence.thy ===== *)
theory Tool_Sequence
  imports Go_Text Json_Values
begin

text \<open>
  Closed tool sequences: \<open>internal/team/tool_sequence_policy.go\<close> and the steps \<open>policyGatedTool.Run\<close> of
  \<open>tool_policy_gate.go\<close> takes around one, with the transforms of \<open>tool_input_transform.go\<close>. A task may fix the tools its
  worker calls, one by one, with pinned inputs and a built-in rewriting of the input; a call is reserved before the tool runs, and a
  failure closes the sequence. JSON decoding is the argument \<open>parse\<close>. Message texts are not
  modelled; a denial is a constructor. The mutex makes each operation one step.
\<close>

section \<open>Pinned inputs\<close>

text \<open>A pinned object constrains the fields it names, any other pinned value the whole value.\<close>

fun matchesJSONValue :: "json \<Rightarrow> json \<Rightarrow> bool" where
  "matchesJSONValue (JObject es) actual =
     (case actual of
        JObject fs \<Rightarrow>
          list_all (\<lambda>e. case map_of fs (fst e) of None \<Rightarrow> False | Some v \<Rightarrow> matchesJSONValue (snd e) v) es
      | _ \<Rightarrow> False)"
| "matchesJSONValue e actual = (json_text e = json_text actual)"

definition matchesJSONFields :: "parser \<Rightarrow> json_map \<Rightarrow> string \<Rightarrow> bool" where
  "matchesJSONFields parse pinned actual =
     (case decode_map parse actual of None \<Rightarrow> False
      | Some fs \<Rightarrow>
          list_all (\<lambda>e. case map_of fs (fst e) of None \<Rightarrow> False | Some v \<Rightarrow> matchesJSONValue (snd e) v) pinned)"

definition matchesJSONField :: "parser \<Rightarrow> string \<Rightarrow> string \<Rightarrow> string \<Rightarrow> bool" where
  "matchesJSONField parse field pinned actual =
     (case decode_map parse actual of None \<Rightarrow> False
      | Some fs \<Rightarrow>
          (case map_of fs field of None \<Rightarrow> False | Some v \<Rightarrow> matchesJSONValue (JString pinned) v))"

definition matchesExactJSON :: "parser \<Rightarrow> string \<Rightarrow> string \<Rightarrow> bool" where
  "matchesExactJSON parse expected actual =
     (case parse actual of None \<Rightarrow> False | Some v \<Rightarrow> json_text v = expected)"

section \<open>The sequence\<close>

record sequence_failure =
  sf_position :: int
  sf_length :: nat
  sf_tool :: string
  sf_exit :: "int option"

record tool_sequence =
  ts_sequence :: "string list"
  ts_inputs :: "json_map list"
  ts_canonical :: "bool list"
  ts_transforms :: "string list"
  ts_field :: string
  ts_values :: "string list"
  ts_codes :: "int list list"
  ts_next :: nat
  ts_failed :: bool
  ts_failure :: "sequence_failure option"

text \<open>An empty sequence is Go's \<open>nil\<close>, which gates nothing.\<close>

definition newTaskToolSequenceWithBindings ::
  "string list \<Rightarrow> json_map list \<Rightarrow> string \<Rightarrow> string list \<Rightarrow> int list list \<Rightarrow> bool list \<Rightarrow> string list \<Rightarrow> tool_sequence option" where
  "newTaskToolSequenceWithBindings tools inputs field values codes canonical transforms =
     (if tools = [] then None
      else Some \<lparr>ts_sequence = map TrimSpace tools, ts_inputs = inputs, ts_canonical = canonical,
        ts_transforms = transforms, ts_field = field, ts_values = values, ts_codes = codes, ts_next = 0,
        ts_failed = False, ts_failure = None\<rparr>)"

definition newTaskToolSequenceWithCanonicalInputs ::
  "string list \<Rightarrow> json_map list \<Rightarrow> string \<Rightarrow> string list \<Rightarrow> int list list \<Rightarrow> bool list \<Rightarrow> tool_sequence option" where
  "newTaskToolSequenceWithCanonicalInputs tools inputs field values codes canonical =
     newTaskToolSequenceWithBindings tools inputs field values codes canonical []"

definition newTaskToolSequence ::
  "string list \<Rightarrow> json_map list \<Rightarrow> string \<Rightarrow> string list \<Rightarrow> int list list \<Rightarrow> tool_sequence option" where
  "newTaskToolSequence tools inputs field values codes =
     newTaskToolSequenceWithCanonicalInputs tools inputs field values codes []"

definition canonicalInput :: "tool_sequence \<Rightarrow> nat \<Rightarrow> bool" where
  "canonicalInput s i \<longleftrightarrow> i < length (ts_canonical s) \<and> ts_canonical s ! i"

definition inputTransform :: "tool_sequence \<Rightarrow> int \<Rightarrow> string" where
  "inputTransform s slot =
     (if slot < 0 \<or> int (length (ts_transforms s)) \<le> slot then [] else ts_transforms s ! nat slot)"

definition expectedInput :: "tool_sequence \<Rightarrow> nat \<Rightarrow> json_map option" where
  "expectedInput s i =
     (if length (ts_inputs s) \<le> i then None
      else if ts_inputs s ! i = [] then None else Some (ts_inputs s ! i))"

datatype denial =
    SequenceFailed | SequenceComplete | WrongTool string nat nat string | InputViolation nat nat

text \<open>The slot, with -1 for a call outside the sequence, the input to use, and whether it was replaced.\<close>

type_synonym reservation = "denial + int \<times> string \<times> bool"

definition bail_out :: "string \<Rightarrow> bool \<Rightarrow> bool" where
  "bail_out tool early \<longleftrightarrow> tool = ''submit_result'' \<and> early"

definition advance :: "tool_sequence \<Rightarrow> tool_sequence" where
  "advance s = s\<lparr>ts_next := ts_next s + 1\<rparr>"

definition close_sequence :: "tool_sequence \<Rightarrow> tool_sequence" where
  "close_sequence s = s\<lparr>ts_next := length (ts_sequence s)\<rparr>"

definition pinned_value :: "parser \<Rightarrow> tool_sequence \<Rightarrow> string \<Rightarrow> bool" where
  "pinned_value parse s input \<longleftrightarrow>
     \<not> (ts_field s \<noteq> [] \<and> ts_next s < length (ts_values s) \<and> ts_values s ! ts_next s \<noteq> [] \<and>
        \<not> matchesJSONField parse (ts_field s) (ts_values s ! ts_next s) input)"

definition reserve_slot :: "parser \<Rightarrow> string \<Rightarrow> tool_sequence \<Rightarrow> reservation \<times> tool_sequence" where
  "reserve_slot parse input s =
     (let i = ts_next s; n = length (ts_sequence s);
          field = (if pinned_value parse s input then (Inr (int i, input, False), advance s)
                   else (Inl (InputViolation (i + 1) n), s)) in
      case expectedInput s i of
        None \<Rightarrow> field
      | Some pinned \<Rightarrow>
          if canonicalInput s i then
            let canonical = json_text (JObject pinned) in
            (Inr (int i, canonical, \<not> matchesExactJSON parse canonical input), advance s)
          else if \<not> matchesJSONFields parse pinned input then (Inl (InputViolation (i + 1) n), s)
          else field)"

definition reserve_in :: "parser \<Rightarrow> string \<Rightarrow> string \<Rightarrow> bool \<Rightarrow> tool_sequence \<Rightarrow> reservation \<times> tool_sequence" where
  "reserve_in parse tool input early s =
     (let n = length (ts_sequence s) in
      if ts_failed s then
        (if bail_out tool early then (Inr (-1, input, False), close_sequence s) else (Inl SequenceFailed, s))
      else if n \<le> ts_next s then (Inl SequenceComplete, s)
      else if tool \<noteq> ts_sequence s ! ts_next s then
        (if bail_out tool early then (Inr (-1, input, False), close_sequence s)
         else (Inl (WrongTool (ts_sequence s ! ts_next s) (ts_next s + 1) n tool), s))
      else reserve_slot parse input s)"

definition reserve ::
  "parser \<Rightarrow> string \<Rightarrow> string \<Rightarrow> bool \<Rightarrow> tool_sequence option \<Rightarrow> reservation \<times> tool_sequence option" where
  "reserve parse tool input early s =
     (case s of None \<Rightarrow> (Inr (-1, input, False), None)
      | Some q \<Rightarrow> (case reserve_in parse tool input early q of (r, q') \<Rightarrow> (r, Some q')))"

section \<open>Exit codes\<close>

definition exit_code_line :: "string \<Rightarrow> int option" where
  "exit_code_line line =
     (let l = TrimSpace line; p = ''Exit code: '' in
      if take (length p) l = p then Atoi (TrimSpace (drop (length p) l)) else None)"

fun first_code :: "string list \<Rightarrow> int option" where
  "first_code [] = None"
| "first_code (l # ls) = (case exit_code_line l of Some n \<Rightarrow> Some n | None \<Rightarrow> first_code ls)"

definition transcriptExitCode :: "string \<Rightarrow> string \<Rightarrow> int option" where
  "transcriptExitCode tool text =
     (if tool \<noteq> ''bash'' then None else first_code (split_on (CHR 0x0A) text))"

definition allowsExpectedExitCode :: "int \<Rightarrow> string \<Rightarrow> string \<Rightarrow> tool_sequence option \<Rightarrow> bool" where
  "allowsExpectedExitCode slot tool text s =
     (case s of None \<Rightarrow> False
      | Some q \<Rightarrow>
          (if slot < 0 then False
           else case transcriptExitCode tool text of None \<Rightarrow> False
                | Some code \<Rightarrow> nat slot < length (ts_codes q) \<and> code \<in> set (ts_codes q ! nat slot)))"

section \<open>Failure and repair\<close>

definition failure_position :: "int \<Rightarrow> tool_sequence \<Rightarrow> int" where
  "failure_position slot s =
     (let p = (if slot < 0 then int (ts_next s) + 1 else slot + 1);
          p = (if p < 1 then 1 else p) in
      if int (length (ts_sequence s)) < p then int (length (ts_sequence s)) else p)"

definition markFailedAt :: "int \<Rightarrow> string \<Rightarrow> string \<Rightarrow> tool_sequence \<Rightarrow> tool_sequence" where
  "markFailedAt slot tool text s =
     (if ts_failure s \<noteq> None then s\<lparr>ts_failed := True\<rparr>
      else s\<lparr>ts_failed := True,
             ts_failure := Some \<lparr>sf_position = failure_position slot s, sf_length = length (ts_sequence s),
               sf_tool = TrimSpace tool, sf_exit = transcriptExitCode tool text\<rparr>\<rparr>)"

definition repair_sequence :: tool_sequence where
  "repair_sequence = \<lparr>ts_sequence = [''submit_result''], ts_inputs = [], ts_canonical = [], ts_transforms = [],
     ts_field = [], ts_values = [], ts_codes = [], ts_next = 0, ts_failed = False, ts_failure = None\<rparr>"

definition terminal_result_failure :: "sequence_failure \<Rightarrow> bool" where
  "terminal_result_failure f \<longleftrightarrow> sf_position f = int (sf_length f) \<and> sf_tool f = ''submit_result''"

definition protocolRepairSequence :: "tool_sequence option \<Rightarrow> tool_sequence" where
  "protocolRepairSequence s =
     (case s of None \<Rightarrow> repair_sequence
      | Some q \<Rightarrow>
          let ready = (length (ts_sequence q) - 1 \<le> ts_next q);
              terminal = (case ts_failure q of None \<Rightarrow> False | Some f \<Rightarrow> terminal_result_failure f) in
          if \<not> ready \<or> (ts_failure q \<noteq> None \<and> \<not> terminal) then
            let tool = (case ts_failure q of None \<Rightarrow> ''closed_sequence''
                        | Some f \<Rightarrow> if sf_tool f \<noteq> [] then sf_tool f else ''closed_sequence'') in
            markFailedAt 0 tool [] repair_sequence
          else repair_sequence)"

definition filterToolsForSequence :: "string list \<Rightarrow> string list \<Rightarrow> string list" where
  "filterToolsForSequence agent_tools tools =
     (if tools = [] then agent_tools
      else filter (\<lambda>t. TrimSpace t \<in> set (map TrimSpace tools)) agent_tools)"

section \<open>Transforms\<close>

text \<open>
  The two rewritings a template may ask for (\<open>tool_input_transform.go\<close>). An error is a constructor; none of their texts
  has an exit code line.
\<close>

datatype transform_error =
    WrongTransformTool string | UnsupportedTransform string | InputNotObject | FindingsMissing | FindingShape nat
  | ContentMissing | MetadataRepeated string | MetadataEmpty string | MetadataMissing string | FactsNotDistinct | GuardMissing nat

definition nestedMenuPreambleTransform :: string where
  "nestedMenuPreambleTransform = ''nested-menu-preamble-v1''"

definition terminalLastFindingTranscriptAckTransform :: string where
  "terminalLastFindingTranscriptAckTransform = ''terminal-last-finding-transcript-ack-v1''"

definition set_field :: "string \<Rightarrow> json \<Rightarrow> json_map \<Rightarrow> json_map" where
  "set_field k v fs = map (\<lambda>f. if fst f = k then (k, v) else f) fs"

definition summary_of :: "json \<Rightarrow> string option" where
  "summary_of j = (case j of JObject [(k, JString s)] \<Rightarrow> if k = ''summary'' then Some s else None | _ \<Rightarrow> None)"

definition acknowledgement :: "nat \<Rightarrow> string" where
  "acknowledgement n = ''slot_'' @ dec n @ '' ordered evidence retained in sealed transcript''"

definition first_index :: "('a \<Rightarrow> bool) \<Rightarrow> 'a list \<Rightarrow> nat option" where
  "first_index P xs = find (\<lambda>i. P (xs ! i)) [0..<length xs]"

definition canonicalizeTerminalLastFindingAcknowledgement :: "parser \<Rightarrow> string \<Rightarrow> transform_error + string \<times> bool" where
  "canonicalizeTerminalLastFindingAcknowledgement parse input =
     (case decode_map parse input of None \<Rightarrow> Inl InputNotObject
      | Some payload \<Rightarrow>
          (case map_of payload ''findings'' of
             Some (JArray findings) \<Rightarrow>
               (if findings = [] then Inl FindingsMissing
                else case first_index (\<lambda>f. summary_of f = None) findings of
                  Some i \<Rightarrow> Inl (FindingShape (i + 1))
                | None \<Rightarrow>
                    let ack = acknowledgement (length findings) in
                    if summary_of (last findings) = Some ack then Inr (input, False)
                    else Inr (json_text (JObject (set_field ''findings''
                           (JArray (butlast findings @ [JObject [(''summary'', JString ack)]])) payload)), True))
           | _ \<Rightarrow> Inl FindingsMissing))"

text \<open>The metadata comments of a menu script, in the order the lines give them.\<close>

definition menu_keys :: "string list" where
  "menu_keys = [''parent_menu_anchor'', ''parent_menu_selector'', ''child_menu_anchor'', ''child_menu_selector'', ''post_action_guard'']"

definition menu_prefix :: "string \<Rightarrow> string" where
  "menu_prefix key = ''# HUFU_NESTED_MENU_V1 '' @ key @ ''=''"

fun menu_line :: "string \<Rightarrow> string list \<Rightarrow> (string \<times> string) list \<Rightarrow> transform_error + (string \<times> string) list" where
  "menu_line line [] vs = Inr vs"
| "menu_line line (key # keys) vs =
     (if \<not> prefix (menu_prefix key) line then menu_line line keys vs
      else if map_of vs key \<noteq> None then Inl (MetadataRepeated key)
      else let value = TrimSpace (drop (length (menu_prefix key)) line) in
        if value = [] then Inl (MetadataEmpty key) else menu_line line keys ((key, value) # vs))"

fun menu_lines :: "string list \<Rightarrow> (string \<times> string) list \<Rightarrow> transform_error + (string \<times> string) list" where
  "menu_lines [] vs = Inr vs"
| "menu_lines (line # lines) vs = bindR (menu_line line menu_keys vs) (menu_lines lines)"

definition nestedMenuDirectiveValues :: "string \<Rightarrow> transform_error + (string \<Rightarrow> string)" where
  "nestedMenuDirectiveValues content =
     bindR (menu_lines (split_on (CHR 0x0A) content) []) (\<lambda>vs.
       case find (\<lambda>key. map_of vs key = None) menu_keys of
         Some key \<Rightarrow> Inl (MetadataMissing key)
       | None \<Rightarrow>
           let value = (\<lambda>key. the (map_of vs key)) in
           if value ''parent_menu_anchor'' = value ''child_menu_anchor'' \<or>
              value ''parent_menu_selector'' = value ''child_menu_selector'' then Inl FactsNotDistinct
           else Inr value)"

definition menu_prelude :: "(string \<Rightarrow> string) \<Rightarrow> string list" where
  "menu_prelude value =
     [''EXPECT '' @ value ''parent_menu_anchor'', ''ACTIVATE '' @ value ''parent_menu_selector'' @ '' WITH ENTER'',
      ''EXPECT '' @ value ''child_menu_anchor'', ''ACTIVATE '' @ value ''child_menu_selector'' @ '' WITH ENTER'',
      ''EXPECT '' @ value ''post_action_guard'']"

definition executable_line :: "string \<Rightarrow> bool" where
  "executable_line line \<longleftrightarrow> (let t = TrimSpace line in t \<noteq> [] \<and> hd t \<noteq> CHR ''#'')"

text \<open>
  The script with its preamble: an old preamble from the parent anchor to the guard is replaced, otherwise the preamble goes
  before the first line that is no comment.
\<close>

definition menu_script :: "string list \<Rightarrow> string list \<Rightarrow> transform_error + string list" where
  "menu_script prelude lines =
     (let first = (case first_index executable_line lines of None \<Rightarrow> length lines | Some i \<Rightarrow> i) in
      case first_index (\<lambda>line. line = prelude ! 0) (drop first lines) of
        None \<Rightarrow> Inr (take first lines @ prelude @ drop first lines)
      | Some k \<Rightarrow>
          let start = first + k in
          (case first_index (\<lambda>line. line = prelude ! 4) (drop (start + 1) lines) of
             None \<Rightarrow> Inl (GuardMissing (start + 1))
           | Some l \<Rightarrow> Inr (take start lines @ prelude @ drop (start + l + 2) lines)))"

definition canonicalizeNestedMenuWrite :: "parser \<Rightarrow> string \<Rightarrow> transform_error + string \<times> bool" where
  "canonicalizeNestedMenuWrite parse input =
     (case decode_map parse input of None \<Rightarrow> Inl InputNotObject
      | Some payload \<Rightarrow>
          (case map_of payload ''content'' of
             Some (JString content) \<Rightarrow>
               bindR (nestedMenuDirectiveValues content) (\<lambda>value.
               bindR (menu_script (menu_prelude value) (split_on (CHR 0x0A) content)) (\<lambda>updated.
                 let joined = tl (join_parts (CHR 0x0A) updated);
                     canonical = (if suffix [CHR 0x0A] content \<and> \<not> suffix [CHR 0x0A] joined then joined @ [CHR 0x0A] else joined) in
                 Inr (json_text (JObject (set_field ''content'' (JString canonical) payload)), canonical \<noteq> content)))
           | _ \<Rightarrow> Inl ContentMissing))"

definition transformTaskToolInput :: "parser \<Rightarrow> string \<Rightarrow> string \<Rightarrow> string \<Rightarrow> transform_error + string \<times> bool" where
  "transformTaskToolInput parse transform tool input =
     (if transform = nestedMenuPreambleTransform then
        (if tool \<noteq> ''write'' then Inl (WrongTransformTool tool) else canonicalizeNestedMenuWrite parse input)
      else if transform = terminalLastFindingTranscriptAckTransform then
        (if tool \<noteq> ''submit_result'' then Inl (WrongTransformTool tool)
         else canonicalizeTerminalLastFindingAcknowledgement parse input)
      else Inl (UnsupportedTransform transform))"

text \<open>The input a tool runs with.\<close>

definition effective_input :: "parser \<Rightarrow> string \<Rightarrow> string \<Rightarrow> string \<Rightarrow> transform_error + string" where
  "effective_input parse transform tool input =
     (if transform = [] then Inr input
      else case transformTaskToolInput parse transform tool input of Inl e \<Rightarrow> Inl e | Inr (used, _) \<Rightarrow> Inr used)"

section \<open>The gate\<close>

text \<open>
  A \<open>submit_result\<close> call that honestly gives up; \<open>status_of\<close> decodes the status of its payload.
\<close>

definition earlyTerminalSubmitResult :: "(string \<Rightarrow> string option) \<Rightarrow> string \<Rightarrow> string \<Rightarrow> bool" where
  "earlyTerminalSubmitResult status_of tool input \<longleftrightarrow>
     tool = ''submit_result'' \<and>
     (case status_of input of None \<Rightarrow> False
      | Some st \<Rightarrow> ToLower (TrimSpace st) \<in> {''blocked'', ''failed'', ''partial''})"

text \<open>
  What happens around one call: a denial of the
  execution discipline or the commit gate, whether the read evidence was captured, whether a
  checkpoint stops the dispatch, and the tool's answer.
\<close>

record call_answer =
  ca_denied :: bool
  ca_lost :: bool
  ca_stop :: bool
  ca_error :: bool
  ca_text :: string

record call_env =
  ce_parse :: parser
  ce_status :: "string \<Rightarrow> string option"

record tool_call =
  tc_tool :: string
  tc_input :: string

definition fail_sequence :: "int \<Rightarrow> string \<Rightarrow> string \<Rightarrow> tool_sequence option \<Rightarrow> tool_sequence option" where
  "fail_sequence slot tool text s = map_option (markFailedAt slot tool text) s"

definition transform_of :: "int \<Rightarrow> tool_sequence option \<Rightarrow> string" where
  "transform_of slot s = (case s of None \<Rightarrow> [] | Some q \<Rightarrow> inputTransform q slot)"

definition after_call :: "int \<Rightarrow> string \<Rightarrow> call_answer \<Rightarrow> tool_sequence option \<Rightarrow> tool_sequence option" where
  "after_call slot tool a s =
     (let s = (if ca_lost a then fail_sequence slot tool (ca_text a) s else s) in
      if ca_stop a \<or> ca_lost a then s
      else if ca_error a \<and> \<not> allowsExpectedExitCode slot tool (ca_text a) s then fail_sequence slot tool (ca_text a) s
      else s)"

text \<open>The call that ran, with its slot and input, and the sequence afterwards.\<close>

definition gate_call ::
  "call_env \<Rightarrow> tool_call \<times> call_answer \<Rightarrow> tool_sequence option \<Rightarrow> (int \<times> string \<times> string) option \<times> tool_sequence option" where
  "gate_call env ca s =
     (case ca of (c, a) \<Rightarrow>
        let tool = tc_tool c; early = earlyTerminalSubmitResult (ce_status env) tool (tc_input c) in
        case reserve (ce_parse env) tool (tc_input c) early s of
          (Inl _, s) \<Rightarrow> (None, fail_sequence (-1) tool [] s)
        | (Inr (slot, input, _), s) \<Rightarrow>
            (case effective_input (ce_parse env) (transform_of slot s) tool input of
               Inl _ \<Rightarrow> (None, fail_sequence slot tool [] s)
             | Inr input \<Rightarrow>
                 (if ca_denied a then (None, fail_sequence slot tool (ca_text a) s)
                  else (Some (slot, tool, input), after_call slot tool a s))))"

fun gate_run ::
  "call_env \<Rightarrow> (tool_call \<times> call_answer) list \<Rightarrow> tool_sequence option \<Rightarrow> (int \<times> string \<times> string) list \<times> tool_sequence option" where
  "gate_run env [] s = ([], s)"
| "gate_run env (ca # cas) s =
     (case gate_call env ca s of (exec, s) \<Rightarrow>
        case gate_run env cas s of (log, s) \<Rightarrow> ((case exec of None \<Rightarrow> log | Some r \<Rightarrow> r # log), s))"

end
