(* ===== verification/Tool_Sequence_Safety.thy ===== *)
theory Tool_Sequence_Safety
  imports Tool_Sequence
begin

text \<open>
  What a closed tool sequence guarantees: the tools of the sequence run in order and at most once each,
  with the pinned inputs; after a failure only an honest report is let through; and when a repair turn may still claim success.
\<close>

section \<open>The plan of a sequence\<close>

definition same_plan :: "tool_sequence \<Rightarrow> tool_sequence \<Rightarrow> bool" where
  "same_plan q u \<longleftrightarrow> ts_sequence u = ts_sequence q \<and> ts_inputs u = ts_inputs q \<and> ts_canonical u = ts_canonical q \<and>
     ts_transforms u = ts_transforms q \<and> ts_field u = ts_field q \<and> ts_values u = ts_values q \<and> ts_codes u = ts_codes q"

interpretation same_plan: step_preorder same_plan
  by unfold_locales (simp_all add: same_plan_def)

lemma plan_steps:
  "same_plan q (advance q)" "same_plan q (close_sequence q)" "same_plan q (markFailedAt slot tool text q)"
  by (simp_all add: same_plan_def advance_def close_sequence_def markFailedAt_def)

lemma mark_fields [simp]:
  "ts_failed (markFailedAt slot tool text q)"
  "ts_next (markFailedAt slot tool text q) = ts_next q"
  "ts_sequence (markFailedAt slot tool text q) = ts_sequence q"
  "ts_failure (markFailedAt slot tool text q) \<noteq> None"
  "ts_failure q = Some f \<Longrightarrow> ts_failure (markFailedAt slot tool text q) = Some f"
  by (simp_all add: markFailedAt_def)

lemma step_fields [simp]:
  "ts_next (advance q) = ts_next q + 1" "ts_failed (advance q) = ts_failed q" "ts_failure (advance q) = ts_failure q"
  "ts_sequence (advance q) = ts_sequence q"
  "ts_next (close_sequence q) = length (ts_sequence q)" "ts_failed (close_sequence q) = ts_failed q"
  "ts_failure (close_sequence q) = ts_failure q" "ts_sequence (close_sequence q) = ts_sequence q"
  by (simp_all add: advance_def close_sequence_def)

section \<open>One call\<close>

text \<open>The input a slot may run with.\<close>

definition pin_ok :: "parser \<Rightarrow> tool_sequence \<Rightarrow> nat \<Rightarrow> string \<Rightarrow> bool" where
  "pin_ok parse q i input \<longleftrightarrow>
     (case expectedInput q i of None \<Rightarrow> True
      | Some pinned \<Rightarrow>
          if canonicalInput q i then input = json_text (JObject pinned) else matchesJSONFields parse pinned input)
     \<and> (ts_field q \<noteq> [] \<and> i < length (ts_values q) \<and> ts_values q ! i \<noteq> [] \<and>
        \<not> (expectedInput q i \<noteq> None \<and> canonicalInput q i) \<longrightarrow>
        matchesJSONField parse (ts_field q) (ts_values q ! i) input)"

lemma slot_reserved:
  assumes "reserve_slot parse input q = (Inr (slot, used, changed), u)"
  shows "slot = int (ts_next q) \<and> u = advance q \<and> pin_ok parse q (ts_next q) used \<and>
    (used = input \<or> canonicalInput q (ts_next q) \<and>
       (\<exists>pinned. expectedInput q (ts_next q) = Some pinned \<and> used = json_text (JObject pinned)))"
proof (cases "expectedInput q (ts_next q)")
  case None
  with assms show ?thesis by (auto simp: reserve_slot_def Let_def pin_ok_def pinned_value_def split: if_splits)
next
  case (Some pinned)
  show ?thesis
  proof (cases "canonicalInput q (ts_next q)")
    case True
    with Some assms show ?thesis by (auto simp: reserve_slot_def Let_def pin_ok_def)
  next
    case False
    with Some assms show ?thesis by (auto simp: reserve_slot_def Let_def pin_ok_def pinned_value_def split: if_splits)
  qed
qed

lemma reserved:
  assumes "reserve_in parse tool input early q = (Inr (slot, used, changed), u)"
  obtains (bail) "slot = - 1" "u = close_sequence q" "bail_out tool early" "used = input"
    | (work) "\<not> ts_failed q" "ts_next q < length (ts_sequence q)" "slot = int (ts_next q)"
        "tool = ts_sequence q ! ts_next q" "u = advance q" "pin_ok parse q (ts_next q) used"
        "used = input \<or> canonicalInput q (ts_next q) \<and>
           (\<exists>pinned. expectedInput q (ts_next q) = Some pinned \<and> used = json_text (JObject pinned))"
proof (cases "\<not> ts_failed q \<and> ts_next q < length (ts_sequence q) \<and> tool = ts_sequence q ! ts_next q")
  case True
  with assms have "reserve_slot parse input q = (Inr (slot, used, changed), u)" by (simp add: reserve_in_def Let_def not_le)
  from slot_reserved [OF this] True show thesis by (intro work) simp_all
next
  case False
  with assms show thesis by (intro bail) (auto simp: reserve_in_def Let_def split: if_splits)
qed

lemma refusal_keeps: "reserve_in parse tool input early q = (Inl d, u) \<Longrightarrow> u = q"
  by (auto simp: reserve_in_def reserve_slot_def Let_def split: if_splits option.splits)

text \<open>
  A slot runs with what its transform makes of an input that is pinned for it: the canonical text of the pin, or what
  the worker sent.
\<close>

definition slot_input :: "parser \<Rightarrow> tool_sequence \<Rightarrow> nat \<Rightarrow> string \<Rightarrow> string \<Rightarrow> string \<Rightarrow> bool" where
  "slot_input parse q i tool sent used \<longleftrightarrow>
     (\<exists>base. pin_ok parse q i base \<and> effective_input parse (inputTransform q (int i)) tool base = Inr used \<and>
        (base = sent \<or> canonicalInput q i \<and> (\<exists>pinned. expectedInput q i = Some pinned \<and> base = json_text (JObject pinned))))"

text \<open>
  A call through the gate is refused and fails the sequence; reports an early end; or takes the next slot, and then runs
  or fails the sequence.
\<close>

definition settled :: "int \<Rightarrow> string \<Rightarrow> tool_sequence \<Rightarrow> tool_sequence \<Rightarrow> bool" where
  "settled slot tool q u \<longleftrightarrow> u = q \<or> (\<exists>text. u = markFailedAt slot tool text q)"

lemma settled_fields:
  "settled slot tool q u \<Longrightarrow> ts_next u = ts_next q \<and> ts_sequence u = ts_sequence q \<and> (ts_failed q \<longrightarrow> ts_failed u)"
  by (auto simp: settled_def)

lemma settled_plan: "settled slot tool q u \<Longrightarrow> same_plan q u"
  by (auto simp: settled_def plan_steps intro: same_plan.idle)

lemma after_call_settled: "\<exists>u. after_call slot tool a (Some q) = Some u \<and> settled slot tool q u"
  by (auto simp: after_call_def fail_sequence_def settled_def Let_def)

lemma after_call_failed:
  assumes "after_call slot tool a (Some q) = Some u" "ca_error a" "\<not> ca_stop a"
    "\<not> allowsExpectedExitCode slot tool (ca_text a) (Some q)"
  shows "ts_failed u"
  using assms by (auto simp: after_call_def fail_sequence_def Let_def split: if_splits)

lemma allows_plan:
  "same_plan q u \<Longrightarrow> allowsExpectedExitCode slot tool text (Some u) = allowsExpectedExitCode slot tool text (Some q)"
  by (simp add: allowsExpectedExitCode_def same_plan_def split: option.split)

lemma gate_call_cases:
  assumes "gate_call env (c, a) (Some q) = (exec, s)"
  obtains (refused) "exec = None" "s = Some (markFailedAt (- 1) (tc_tool c) [] q)"
    | (bail) u where "bail_out (tc_tool c) (earlyTerminalSubmitResult (ce_status env) (tc_tool c) (tc_input c))"
        "exec = None \<or> exec = Some (- 1, tc_tool c, tc_input c)"
        "s = Some u" "settled (- 1) (tc_tool c) (close_sequence q) u"
    | (dropped) msg where "\<not> ts_failed q" "ts_next q < length (ts_sequence q)" "tc_tool c = ts_sequence q ! ts_next q"
        "exec = None" "s = Some (markFailedAt (int (ts_next q)) (tc_tool c) msg (advance q))"
    | (work) u input where "\<not> ts_failed q" "ts_next q < length (ts_sequence q)" "tc_tool c = ts_sequence q ! ts_next q"
        "exec = Some (int (ts_next q), tc_tool c, input)" "s = Some u"
        "settled (int (ts_next q)) (tc_tool c) (advance q) u"
        "slot_input (ce_parse env) q (ts_next q) (tc_tool c) (tc_input c) input"
        "ca_error a \<and> \<not> ca_stop a \<and> \<not> allowsExpectedExitCode (int (ts_next q)) (tc_tool c) (ca_text a) (Some q) \<longrightarrow> ts_failed u"
proof -
  let ?early = "earlyTerminalSubmitResult (ce_status env) (tc_tool c) (tc_input c)"
  obtain r u where ru: "reserve_in (ce_parse env) (tc_tool c) (tc_input c) ?early q = (r, u)" by fastforce
  show thesis
  proof (cases r)
    case (Inl d)
    have "u = q" by (rule refusal_keeps [OF ru [unfolded Inl]])
    with assms ru Inl show thesis by (intro that(1)) (simp_all add: gate_call_def reserve_def fail_sequence_def Let_def)
  next
    case (Inr x)
    obtain slot used changed where x: "x = (slot, used, changed)" by (cases x)
    let ?run = "effective_input (ce_parse env) (inputTransform u slot) (tc_tool c) used"
    have g: "(exec, s) =
        (case ?run of Inl _ \<Rightarrow> (None, Some (markFailedAt slot (tc_tool c) [] u))
         | Inr input \<Rightarrow> if ca_denied a then (None, Some (markFailedAt slot (tc_tool c) (ca_text a) u))
             else (Some (slot, tc_tool c, input), after_call slot (tc_tool c) a (Some u)))"
      using assms ru Inr x
      by (auto simp: gate_call_def reserve_def fail_sequence_def Let_def transform_of_def split: if_splits sum.splits)
    obtain w where w: "after_call slot (tc_tool c) a (Some u) = Some w" "settled slot (tc_tool c) u w"
      using after_call_settled by blast
    from ru [unfolded Inr x] show thesis
    proof (cases rule: reserved)
      case bail
      have "settled (- 1) (tc_tool c) (close_sequence q) (markFailedAt slot (tc_tool c) msg u)" for msg
        using bail by (auto simp: settled_def)
      with g w bail(1,2) have "\<exists>z. s = Some z \<and> settled (- 1) (tc_tool c) (close_sequence q) z" by (auto split: if_splits sum.splits)
      moreover have "?run = Inr (tc_input c)" using bail(1,4) by (simp add: inputTransform_def effective_input_def)
      with g bail(1) have "exec = None \<or> exec = Some (- 1, tc_tool c, tc_input c)" by (auto split: if_splits)
      ultimately show thesis using that(2) [OF bail(3)] by blast
    next
      case work
      have t: "inputTransform u slot = inputTransform q (int (ts_next q))"
        using work plan_steps(1) [of q] by (simp add: inputTransform_def same_plan_def)
      show thesis
      proof (cases exec)
        case None
        with g work have "\<exists>msg. s = Some (markFailedAt (int (ts_next q)) (tc_tool c) msg (advance q))"
          by (auto split: if_splits sum.splits)
        with None work show thesis using that(3) by blast
      next
        case (Some e)
        with g w obtain input where e: "?run = Inr input" "exec = Some (slot, tc_tool c, input)" "s = Some w"
          by (auto split: if_splits sum.splits)
        have "slot_input (ce_parse env) q (ts_next q) (tc_tool c) (tc_input c) input"
          unfolding slot_input_def using work(3,6,7) e(1) t by (intro exI [of _ used]) simp
        with e work w t after_call_failed [OF w(1)] allows_plan [OF plan_steps(1)] show thesis
          by (intro that(4)) auto
      qed
    qed
  qed
qed

section \<open>Whole attempts\<close>

type_synonym tool_log = "(int \<times> string \<times> string) list"

text \<open>The calls that took a slot, and those that reported an early end.\<close>

definition worked :: "tool_log \<Rightarrow> tool_log" where
  "worked log = filter (\<lambda>r. 0 \<le> fst r) log"

definition gives_up :: "(string \<Rightarrow> string option) \<Rightarrow> string \<times> string \<Rightarrow> bool" where
  "gives_up status_of call \<longleftrightarrow> fst call = ''submit_result'' \<and>
     (\<exists>st. status_of (snd call) = Some st \<and> ToLower (TrimSpace st) \<in> {''blocked'', ''failed'', ''partial''})"

definition honest :: "call_env \<Rightarrow> tool_log \<Rightarrow> bool" where
  "honest env log \<longleftrightarrow> (\<forall>r\<in>set log. fst r < 0 \<longrightarrow> fst r = - 1 \<and> gives_up (ce_status env) (snd r))"

lemma early_gives_up: "bail_out tool (earlyTerminalSubmitResult status_of tool input) \<Longrightarrow> gives_up status_of (tool, input)"
  by (auto simp: bail_out_def earlyTerminalSubmitResult_def gives_up_def split: option.splits)

lemma worked_simps [simp]:
  "worked [] = []" "worked (r # log) = (if 0 \<le> fst r then r # worked log else worked log)"
  "honest env []" "honest env (r # log) \<longleftrightarrow> (fst r < 0 \<longrightarrow> fst r = - 1 \<and> gives_up (ce_status env) (snd r)) \<and> honest env log"
  by (auto simp: worked_def honest_def)

lemma gate_run_Cons:
  assumes "gate_run env ((c, a) # cas) s = (log, t)"
  obtains exec u rest where "gate_call env (c, a) s = (exec, u)" "gate_run env cas u = (rest, t)"
    "log = (case exec of None \<Rightarrow> rest | Some r \<Rightarrow> r # rest)"
  using assms by (auto split: prod.splits)

text \<open>Once failed or complete, a sequence lets only reports through.\<close>

lemma closed_run:
  assumes "gate_run env cas (Some q) = (log, s)" "ts_failed q \<or> length (ts_sequence q) \<le> ts_next q"
  shows "worked log = [] \<and> honest env log"
  using assms
proof (induction cas arbitrary: q log)
  case (Cons ca cas)
  obtain c a where ca: "ca = (c, a)" by (cases ca)
  from Cons.prems(1) [unfolded ca] obtain exec u rest where
    step: "gate_call env (c, a) (Some q) = (exec, u)" and rest: "gate_run env cas u = (rest, s)"
    and log: "log = (case exec of None \<Rightarrow> rest | Some r \<Rightarrow> r # rest)" by (rule gate_run_Cons)
  from step show ?case
  proof (cases rule: gate_call_cases)
    case refused
    with Cons.IH [of _ rest] rest log show ?thesis by simp
  next
    case (bail v)
    have "length (ts_sequence v) \<le> ts_next v" using settled_fields [OF bail(4)] by simp
    with Cons.IH [of v rest] rest bail(3) have "worked rest = [] \<and> honest env rest" by simp
    with early_gives_up [OF bail(1)] bail(2) log show ?thesis by auto
  qed (use Cons.prems(2) in auto)
qed auto

lemma slots_run:
  assumes "gate_run env cas (Some q) = (log, s)" "ts_next q \<le> length (ts_sequence q)"
  shows "\<exists>k. map fst (worked log) = map int [ts_next q..<ts_next q + k] \<and> ts_next q + k \<le> length (ts_sequence q) \<and>
    map (fst \<circ> snd) (worked log) = take k (drop (ts_next q) (ts_sequence q)) \<and> honest env log \<and>
    (\<forall>(slot, tool, used)\<in>set (worked log). \<exists>ca\<in>set cas. tc_tool (fst ca) = tool \<and>
       slot_input (ce_parse env) q (nat slot) tool (tc_input (fst ca)) used)"
  using assms
proof (induction cas arbitrary: q log)
  case (Cons ca cas)
  obtain c a where ca: "ca = (c, a)" by (cases ca)
  from Cons.prems(1) [unfolded ca] obtain exec u rest where
    step: "gate_call env (c, a) (Some q) = (exec, u)" and rest: "gate_run env cas u = (rest, s)"
    and log: "log = (case exec of None \<Rightarrow> rest | Some r \<Rightarrow> r # rest)" by (rule gate_run_Cons)
  have closed: ?case if "worked log = []" "honest env log"
    using that Cons.prems(2) by (intro exI [of _ 0]) simp
  from step show ?case
  proof (cases rule: gate_call_cases)
    case refused
    with closed_run [of env cas _ rest s] rest log show ?thesis by (intro closed) auto
  next
    case (bail v)
    have "length (ts_sequence v) \<le> ts_next v" using settled_fields [OF bail(4)] by simp
    with closed_run [of env cas v rest s] rest bail(3) have "worked rest = [] \<and> honest env rest" by simp
    with early_gives_up [OF bail(1)] bail(2) log show ?thesis by (intro closed) auto
  next
    case (dropped msg)
    with closed_run [of env cas _ rest s] rest log show ?thesis by (intro closed) auto
  next
    case (work v input)
    have v: "ts_next v = ts_next q + 1" "ts_sequence v = ts_sequence q" using settled_fields [OF work(6)] by simp_all
    have plan: "same_plan q v" by (rule same_plan.chain [OF plan_steps(1) settled_plan [OF work(6)]])
    have same: "slot_input (ce_parse env) v = slot_input (ce_parse env) q"
      using plan
      by (simp add: fun_eq_iff slot_input_def inputTransform_def pin_ok_def expectedInput_def canonicalInput_def same_plan_def)
    have "gate_run env cas (Some v) = (rest, s)" "ts_next v \<le> length (ts_sequence v)" using rest work(2,5) v by simp_all
    from Cons.IH [OF this, unfolded v same] obtain k where
      k: "map fst (worked rest) = map int [ts_next q + 1..<ts_next q + 1 + k]"
        "ts_next q + 1 + k \<le> length (ts_sequence q)"
        "map (fst \<circ> snd) (worked rest) = take k (drop (ts_next q + 1) (ts_sequence q))" "honest env rest"
        "\<forall>(slot, tool, used)\<in>set (worked rest). \<exists>ca\<in>set cas. tc_tool (fst ca) = tool \<and>
           slot_input (ce_parse env) q (nat slot) tool (tc_input (fst ca)) used"
      by blast
    have l: "log = (int (ts_next q), tc_tool c, input) # rest" using log work(4) by simp
    have d: "drop (ts_next q) (ts_sequence q) = tc_tool c # drop (ts_next q + 1) (ts_sequence q)"
      using work(2,3) by (simp add: Cons_nth_drop_Suc)
    show ?thesis
    proof (intro exI [of _ "k + 1"] conjI)
      show "map fst (worked log) = map int [ts_next q..<ts_next q + (k + 1)]" using k(1) by (simp add: l upt_conv_Cons)
      show "map (fst \<circ> snd) (worked log) = take (k + 1) (drop (ts_next q) (ts_sequence q))" using k(3) by (simp add: l d)
      show "\<forall>(slot, tool, used)\<in>set (worked log). \<exists>x\<in>set (ca # cas). tc_tool (fst x) = tool \<and>
          slot_input (ce_parse env) q (nat slot) tool (tc_input (fst x)) used"
        using k(5) work(7) by (auto simp: l ca)
    qed (use k l in auto)
  qed
qed (auto intro: exI [of _ 0])

text \<open>
  C6. A closed sequence runs as written. Whatever calls a worker makes and whatever the tools answer, the calls that run
  take the slots 0, 1, 2 and so on, each the tool of its slot and none twice. Each runs with an input pinned for its slot - the canonical text
  of the pin, or what a call of that tool sent, which has to match - or, if the slot has a transform, with what the transform
  makes of such an input. Any other call that runs is a \<open>submit_result\<close> that reports blocked, failed or partial.
\<close>

theorem sequence_in_order:
  assumes "newTaskToolSequenceWithBindings tools inputs field values codes canonical transforms = Some q"
    and "gate_run env cas (Some q) = (log, s)"
  shows "\<exists>k\<le>length tools. map fst (worked log) = map int [0..<k] \<and>
    map (fst \<circ> snd) (worked log) = take k (map TrimSpace tools) \<and> honest env log \<and>
    (\<forall>(slot, tool, used)\<in>set (worked log). \<exists>ca\<in>set cas. tc_tool (fst ca) = tool \<and>
       slot_input (ce_parse env) q (nat slot) tool (tc_input (fst ca)) used)"
proof -
  have q: "ts_next q = 0" "ts_sequence q = map TrimSpace tools"
    using assms(1) by (auto simp: newTaskToolSequenceWithBindings_def split: if_splits)
  from slots_run [OF assms(2)] q show ?thesis by auto
qed


section \<open>Rewriting a menu script\<close>

lemma first_index_Some:
  "first_index P xs = Some i \<longleftrightarrow> i < length xs \<and> P (xs ! i) \<and> (\<forall>j<i. \<not> P (xs ! j))"
  by (auto simp: first_index_def find_Some_iff)

lemma first_index_None: "first_index P xs = None \<longleftrightarrow> (\<forall>j<length xs. \<not> P (xs ! j))"
  by (auto simp: first_index_def find_None_iff)

text \<open>
  A script that has its preamble is left alone: the preamble goes, once, where the first executable line was, as long as the guard
  differs from the lines between it and the parent anchor.
\<close>

lemma menu_script_again:
  assumes "lines = take start lines @ rest" "start \<le> length lines" "prelude = [a, b, c, d, e]" "e \<notin> {b, c, d}" "executable_line a"
    and "first \<le> start" "\<forall>j<first. \<not> executable_line (lines ! j)" "first < start \<Longrightarrow> executable_line (lines ! first)"
    and "\<forall>j<start. first \<le> j \<longrightarrow> lines ! j \<noteq> a"
  shows "menu_script prelude (take start lines @ prelude @ tail) = Inr (take start lines @ prelude @ tail)"
proof -
  let ?out = "take start lines @ prelude @ tail"
  have len: "length (take start lines) = start" using assms(2) by simp
  have head: "?out ! j = lines ! j" if "j < start" for j using that len by (simp add: nth_append)
  have pre: "?out ! start = a" using len assms(3) by (simp add: nth_append)
  have "first_index executable_line ?out = Some first"
    unfolding first_index_Some using assms(3,5-8) head pre len by (cases "first = start") auto
  moreover have "first_index (\<lambda>line. line = prelude ! 0) (drop first ?out) = Some (start - first)"
    unfolding first_index_Some
  proof (intro conjI allI impI)
    have l: "start < length ?out" using len assms(3) by simp
    with assms(6) show "start - first < length (drop first ?out)" by (simp only: length_drop)
    show "drop first ?out ! (start - first) = prelude ! 0" using assms(3,6) pre l by (simp only: nth_drop) simp
    fix j assume j: "j < start - first"
    then have "drop first ?out ! j = lines ! (first + j)" using head [of "first + j"] l by (simp only: nth_drop)
    moreover have "lines ! (first + j) \<noteq> a" using assms(9) j by simp
    ultimately show "drop first ?out ! j \<noteq> prelude ! 0" using assms(3) by simp
  qed
  moreover have "drop (start + 1) ?out = [b, c, d, e] @ tail" using len assms(3) by simp
  moreover have "first_index (\<lambda>line. line = prelude ! 4) ([b, c, d, e] @ tail) = Some 3"
    unfolding first_index_Some
  proof (intro conjI allI impI)
    fix j :: nat assume "j < 3"
    then have "j = 0 \<or> j = 1 \<or> j = 2" by arith
    then show "([b, c, d, e] @ tail) ! j \<noteq> prelude ! 4" using assms(3,4) by auto
  qed (simp_all add: assms(3))
  moreover have "drop (start + 3 + 2) ?out = tail" "take start ?out = take start lines" using len assms(3) by simp_all
  ultimately show ?thesis using assms(6) by (simp add: menu_script_def)
qed

theorem menu_script_idempotent:
  assumes "menu_script [a, b, c, d, e] lines = Inr out" "executable_line a" "e \<notin> {b, c, d}"
  shows "menu_script [a, b, c, d, e] out = Inr out"
proof -
  let ?p = "[a, b, c, d, e]"
  define first where "first = (case first_index executable_line lines of None \<Rightarrow> length lines | Some i \<Rightarrow> i)"
  have f: "first \<le> length lines" "\<forall>j<first. \<not> executable_line (lines ! j)"
    "first < length lines \<Longrightarrow> executable_line (lines ! first)"
    by (auto simp: first_def first_index_None first_index_Some split: option.splits)
  note def = menu_script_def [of ?p lines, unfolded Let_def, folded first_def]
  show ?thesis
  proof (cases "first_index (\<lambda>line. line = ?p ! 0) (drop first lines)")
    case None
    with assms(1) have out: "out = take first lines @ ?p @ drop first lines" by (simp add: def)
    show ?thesis unfolding out
      by (rule menu_script_again [of lines first "drop first lines", OF _ f(1) refl assms(3,2) _ f(2)]) simp_all
  next
    case (Some k)
    then have k: "first + k < length lines" "lines ! (first + k) = a" "\<forall>j<k. lines ! (first + j) \<noteq> a"
      by (auto simp: first_index_Some less_diff_conv add.commute)
    with assms(1) Some obtain rest where out: "out = take (first + k) lines @ ?p @ rest"
      by (auto simp: def split: option.splits)
    have "\<forall>j<first + k. first \<le> j \<longrightarrow> lines ! j \<noteq> a"
      using k(3) by (metis add_less_cancel_left le_add_diff_inverse)
    then show ?thesis unfolding out
      by (intro menu_script_again [of lines "first + k" "drop (first + k) lines" _ a b c d e first, OF _ _ refl assms(3,2) _ f(2)])
        (use k f in simp_all)
  qed
qed

text \<open>
  The transform accepts metadata in which the guard is the child menu's anchor. Then the guard is taken to be the middle line
  of the preamble, and rewriting a script that has its preamble already activates the child menu once more.
\<close>

lemma menu_preamble_grows:
  "menu_script [''EXPECT p'', ''ACTIVATE q WITH ENTER'', ''EXPECT c'', ''ACTIVATE d WITH ENTER'', ''EXPECT c'']
     [''EXPECT p'', ''ACTIVATE q WITH ENTER'', ''EXPECT c'', ''ACTIVATE d WITH ENTER'', ''EXPECT c''] =
   Inr [''EXPECT p'', ''ACTIVATE q WITH ENTER'', ''EXPECT c'', ''ACTIVATE d WITH ENTER'', ''EXPECT c'',
     ''ACTIVATE d WITH ENTER'', ''EXPECT c'']"
  by code_simp

section \<open>Repair turns\<close>

text \<open>What is known of a sequence some of whose slots ran, as long as nobody has bailed out of it.\<close>

definition accounted :: "tool_sequence \<Rightarrow> nat \<Rightarrow> bool" where
  "accounted q n \<longleftrightarrow>
     (case ts_failure q of
        None \<Rightarrow> n = ts_next q \<and> \<not> ts_failed q
      | Some f \<Rightarrow> ts_failed q \<and> (terminal_result_failure f \<longrightarrow> length (ts_sequence q) \<le> n + 1))"

lemma mark_failure:
  "ts_failure q = None \<Longrightarrow> ts_failure (markFailedAt slot tool text q) =
     Some \<lparr>sf_position = failure_position slot q, sf_length = length (ts_sequence q),
       sf_tool = TrimSpace tool, sf_exit = transcriptExitCode tool text\<rparr>"
  by (simp add: markFailedAt_def)

lemma accounted_mark:
  assumes "accounted q n" "ts_next q \<le> length (ts_sequence q)" "slot < 0"
  shows "accounted (markFailedAt slot tool text q) n"
proof (cases "ts_failure q")
  case None
  with assms show ?thesis
    by (auto simp: accounted_def mark_failure terminal_result_failure_def failure_position_def Let_def split: if_splits)
next
  case (Some f)
  with assms(1) show ?thesis by (simp add: accounted_def)
qed

lemma accounted_settled:
  assumes "ts_failure q = None" "\<not> ts_failed q" "ts_next q < length (ts_sequence q)"
    "settled (int (ts_next q)) tool (advance q) u"
  shows "accounted u (ts_next q + 1)"
  using assms by (auto simp: settled_def accounted_def mark_failure terminal_result_failure_def failure_position_def Let_def)

lemma accounted_dropped:
  assumes "ts_failure q = None" "ts_next q < length (ts_sequence q)"
  shows "accounted (markFailedAt (int (ts_next q)) tool text (advance q)) (ts_next q)"
  using assms by (auto simp: accounted_def mark_failure terminal_result_failure_def failure_position_def Let_def)

lemma accounted_run:
  assumes "gate_run env cas (Some q) = (log, Some u)" "accounted q n" "ts_next q \<le> length (ts_sequence q)"
    and "\<forall>(c, a)\<in>set cas. \<not> earlyTerminalSubmitResult (ce_status env) (tc_tool c) (tc_input c)"
  shows "accounted u (n + length (worked log)) \<and> ts_sequence u = ts_sequence q"
  using assms
proof (induction cas arbitrary: q n log)
  case (Cons ca cas)
  obtain c a where ca: "ca = (c, a)" by (cases ca)
  from Cons.prems(1) [unfolded ca] obtain exec v rest where
    step: "gate_call env (c, a) (Some q) = (exec, v)" and rest: "gate_run env cas v = (rest, Some u)"
    and log: "log = (case exec of None \<Rightarrow> rest | Some r \<Rightarrow> r # rest)" by (rule gate_run_Cons)
  have calm: "\<forall>(c, a)\<in>set cas. \<not> earlyTerminalSubmitResult (ce_status env) (tc_tool c) (tc_input c)"
    using Cons.prems(4) by simp
  from step show ?case
  proof (cases rule: gate_call_cases)
    case refused
    have "accounted (markFailedAt (- 1) (tc_tool c) [] q) n" by (rule accounted_mark [OF Cons.prems(2,3)]) simp
    with Cons.IH [OF rest [unfolded refused(2)] this] Cons.prems(3) calm refused(1) log show ?thesis by simp
  next
    case (bail w)
    from bail(1) have "earlyTerminalSubmitResult (ce_status env) (tc_tool c) (tc_input c)" unfolding bail_out_def by (rule conjunct2)
    moreover have "\<not> earlyTerminalSubmitResult (ce_status env) (tc_tool c) (tc_input c)"
      using Cons.prems(4) unfolding ca by auto
    ultimately show ?thesis by blast
  next
    case (dropped msg)
    have none: "ts_failure q = None" using Cons.prems(2) dropped(1) by (auto simp: accounted_def split: option.splits)
    then have n: "n = ts_next q" using Cons.prems(2) by (simp add: accounted_def)
    with Cons.IH [OF rest [unfolded dropped(5)] accounted_dropped [OF none dropped(2)]] dropped(2,4) calm log
    show ?thesis by simp
  next
    case (work w input)
    have none: "ts_failure q = None" using Cons.prems(2) work(1) by (auto simp: accounted_def split: option.splits)
    then have n: "n = ts_next q" using Cons.prems(2) by (simp add: accounted_def)
    have "ts_next w \<le> length (ts_sequence w)" using settled_fields [OF work(6)] work(2) by simp
    with Cons.IH [OF rest [unfolded work(5)] accounted_settled [OF none work(1,2,6)]] settled_fields [OF work(6)] calm
      log work(4) n show ?thesis by simp
  qed
qed simp

text \<open>
  A repair turn may claim success only after the work. When no call of the attempt gave up early, a repair turn that is
  not closed from the start means that every slot of the sequence but the last has run.
\<close>

theorem repair_needs_work:
  assumes "newTaskToolSequenceWithBindings tools inputs field values codes canonical transforms = Some q"
    and "gate_run env cas (Some q) = (log, Some u)"
    and "\<forall>(c, a)\<in>set cas. \<not> earlyTerminalSubmitResult (ce_status env) (tc_tool c) (tc_input c)"
    and "\<not> ts_failed (protocolRepairSequence (Some u))"
  shows "length tools \<le> length (worked log) + 1"
proof -
  have q: "ts_next q = 0" "ts_sequence q = map TrimSpace tools" "ts_failure q = None" "\<not> ts_failed q"
    using assms(1) by (auto simp: newTaskToolSequenceWithBindings_def split: if_splits)
  then have "accounted q 0" by (simp add: accounted_def)
  from accounted_run [OF assms(2) this _ assms(3)] q
  have u: "accounted u (length (worked log))" "length (ts_sequence u) = length tools" by simp_all
  from assms(4) have "length (ts_sequence u) - 1 \<le> ts_next u"
    "ts_failure u = None \<or> (\<exists>f. ts_failure u = Some f \<and> terminal_result_failure f)"
    by (auto simp: protocolRepairSequence_def Let_def split: if_splits option.splits)
  with u show ?thesis by (auto simp: accounted_def)
qed

section \<open>Instances\<close>

definition demo_env :: call_env where
  "demo_env = \<lparr>ce_parse = (\<lambda>_. None), ce_status = (\<lambda>s. if s = [] then None else Some s)\<rparr>"

definition quiet_answer :: call_answer where
  "quiet_answer = \<lparr>ca_denied = False, ca_lost = False, ca_stop = False, ca_error = False, ca_text = []\<rparr>"

definition demo_sequence :: tool_sequence where
  "demo_sequence = the (newTaskToolSequence [''bash'', ''view'', ''submit_result''] [] [] [] [])"

definition a_call :: "string \<Rightarrow> string \<Rightarrow> bool \<Rightarrow> tool_call \<times> call_answer" where
  "a_call tool input err = (\<lparr>tc_tool = tool, tc_input = input\<rparr>, quiet_answer\<lparr>ca_error := err\<rparr>)"

text \<open>
  Giving up early reopens success. In a sequence of two tools before the result, the worker calls no
  tool, reports \<open>blocked\<close> at once, and the report is rejected (a schema error, say). No slot has run, yet the repair turn is open and takes a
  result that claims success: the early report moved the sequence to its end, and its rejection counts as a failure of the last slot.
\<close>

theorem bail_out_reopens_success:
  "case gate_run demo_env [a_call ''submit_result'' ''blocked'' True] (Some demo_sequence) of (log, s) \<Rightarrow>
     worked log = [] \<and> \<not> ts_failed (protocolRepairSequence s) \<and>
     fst (gate_call demo_env (a_call ''submit_result'' ''success'' False) (Some (protocolRepairSequence s))) =
       Some (0, ''submit_result'', ''success'')"
  by code_simp


text \<open>The two work slots and an accepted report.\<close>

definition good_day :: "(tool_call \<times> call_answer) list" where
  "good_day = [a_call ''bash'' ''make'' False, a_call ''view'' ''log'' False, a_call ''submit_result'' ''success'' False]"

lemma good_day_run:
  "newTaskToolSequenceWithBindings [''bash'', ''view'', ''submit_result''] [] [] [] [] [] [] = Some demo_sequence"
  "worked (fst (gate_run demo_env good_day (Some demo_sequence))) =
     [(0, ''bash'', ''make''), (1, ''view'', ''log''), (2, ''submit_result'', ''success'')]"
  "\<not> ts_failed (protocolRepairSequence (snd (gate_run demo_env good_day (Some demo_sequence))))"
  "list_all (\<lambda>(c, a). \<not> earlyTerminalSubmitResult (ce_status demo_env) (tc_tool c) (tc_input c)) good_day"
  "snd (gate_run demo_env good_day (Some demo_sequence)) \<noteq> None"
  by code_simp+

theorem sequence_in_order_witness:
  "\<exists>k\<le>length [''bash'', ''view'', ''submit_result''].
     map fst (worked (fst (gate_run demo_env good_day (Some demo_sequence)))) = map int [0..<k]"
proof -
  from sequence_in_order [OF good_day_run(1) surjective_pairing, of demo_env good_day] show ?thesis by blast
qed




theorem repair_needs_work_witness:
  "length [''bash'', ''view'', ''submit_result''] \<le> length (worked (fst (gate_run demo_env good_day (Some demo_sequence)))) + 1"
proof -
  obtain u where u: "snd (gate_run demo_env good_day (Some demo_sequence)) = Some u" using good_day_run(5) by blast
  then have "gate_run demo_env good_day (Some demo_sequence) = (fst (gate_run demo_env good_day (Some demo_sequence)), Some u)"
    by (simp only: prod.collapse u [symmetric])
  from repair_needs_work [OF good_day_run(1) this good_day_run(4) [unfolded list_all_iff]] good_day_run(3) u
  show ?thesis by simp
qed

end
