(* ===== verification/Decision_Canonical.thy ===== *)
theory Decision_Canonical
  imports Cost_Catalog Json_Values
begin

text \<open>
  The canonical JSON of decision contracts and the identities derived from it:
  \<open>internal/team/decision_identity.go\<close>. A value is JSON as decoded with \<open>UseNumber\<close>; the digest
  \<open>sha\<close> (lowercase hex SHA-256) is an argument. A decoded string is valid UTF-8, so the rejection of
  other strings has no case.
\<close>

section \<open>Canonical text\<close>

definition maxCanonicalJSONInteger :: int where
  "maxCanonicalJSONInteger = 9007199254740991"

definition canonical_char :: "char \<Rightarrow> string" where
  "canonical_char c = (let b = byte_of c in
     if b = 34 \<or> b = 92 then [CHR 0x5C, c]
     else if b = 8 then [CHR 0x5C, CHR ''b'']
     else if b = 9 then [CHR 0x5C, CHR ''t'']
     else if b = 10 then [CHR 0x5C, CHR ''n'']
     else if b = 12 then [CHR 0x5C, CHR ''f'']
     else if b = 13 then [CHR 0x5C, CHR ''r'']
     else if b < 32 then [CHR 0x5C, CHR ''u'', CHR ''0'', CHR ''0'', hex_digit (b div 16), hex_digit (b mod 16)]
     else [c])"

definition appendCanonicalJSONString :: "string \<Rightarrow> string" where
  "appendCanonicalJSONString s = CHR 0x22 # concat (map canonical_char s) @ [CHR 0x22]"

text \<open>Only unsigned base-10 integers up to \<open>2^53 - 1\<close> are numbers here.\<close>

definition canonical_number :: "string \<Rightarrow> bool" where
  "canonical_number t \<longleftrightarrow>
     list_all (\<lambda>c. c \<notin> set ''.eE+-'') t \<and> \<not> (take 1 t = ''0'' \<and> t \<noteq> ''0'') \<and>
     (case ParseUint64 t of None \<Rightarrow> False | Some n \<Rightarrow> n \<le> maxCanonicalJSONInteger)"

definition canonical_member :: "string \<times> string \<Rightarrow> string" where
  "canonical_member m = appendCanonicalJSONString (fst m) @ CHR '':'' # snd m"

fun appendCanonicalDecisionJSON :: "json \<Rightarrow> string option" where
  "appendCanonicalDecisionJSON JNull = Some ''null''"
| "appendCanonicalDecisionJSON (JBool b) = Some (if b then ''true'' else ''false'')"
| "appendCanonicalDecisionJSON (JString s) = Some (appendCanonicalJSONString s)"
| "appendCanonicalDecisionJSON (JNumber t) = (if canonical_number t then Some t else None)"
| "appendCanonicalDecisionJSON (JArray vs) =
     map_option (\<lambda>ts. ''['' @ json_items ts @ '']'') (those (map appendCanonicalDecisionJSON vs))"
| "appendCanonicalDecisionJSON (JObject fs) =
     map_option (\<lambda>ms. ''{'' @ json_items (map canonical_member (sort_key fst ms)) @ ''}'')
       (those (map (\<lambda>f. map_option (Pair (fst f)) (appendCanonicalDecisionJSON (snd f))) fs))"

text \<open>\<open>json.Marshal\<close> followed by decoding gives a decoded value back.\<close>

definition CanonicalDecisionJSON :: "json \<Rightarrow> string option" where
  "CanonicalDecisionJSON v = appendCanonicalDecisionJSON v"

section \<open>Digests and identities\<close>

definition DecisionContractDigest :: "digest \<Rightarrow> string \<Rightarrow> json \<Rightarrow> string option" where
  "DecisionContractDigest sha domain v =
     (if TrimSpace domain = [] \<or> CHR 0x00 \<in> set domain then None
      else map_option (\<lambda>t. sha (domain @ [CHR 0x00] @ t)) (CanonicalDecisionJSON v))"

definition DecisionTeamID :: "digest \<Rightarrow> string \<Rightarrow> string option" where
  "DecisionTeamID sha name =
     (if TrimSpace name = [] then None
      else map_option ((@) ''team_'')
        (DecisionContractDigest sha ''hufu/team-identity/v1'' (JObject [(''name'', JString (TrimSpace name))])))"

definition PrimaryDecisionTaskID :: "digest \<Rightarrow> string \<Rightarrow> string \<Rightarrow> string option" where
  "PrimaryDecisionTaskID sha branchID logicalRunID =
     map_option ((@) ''__hufu_pd_'')
       (DecisionContractDigest sha ''hufu/primary-task/v1''
         (JObject [(''branch_id'', JString branchID), (''logical_run_id'', JString logicalRunID)]))"

definition PrimaryDecisionID :: "digest \<Rightarrow> string \<Rightarrow> string \<Rightarrow> nat \<Rightarrow> string option" where
  "PrimaryDecisionID sha branchID logicalRunID generation =
     (if generation = 0 then None
      else map_option ((@) ''pd_'')
        (DecisionContractDigest sha ''hufu/primary-decision/v1''
          (JObject [(''branch_id'', JString branchID), (''generation'', JNumber (dec generation)),
             (''logical_run_id'', JString logicalRunID)])))"

section \<open>The text determines the value\<close>

lemma json_items_Cons: "json_items (v # vs) = v @ (if vs = [] then [] else CHR '','' # json_items vs)"
  by (cases vs) simp_all

definition stops :: "string \<Rightarrow> bool" where
  "stops r \<longleftrightarrow> (case r of [] \<Rightarrow> True | c # _ \<Rightarrow> \<not> is_digit c)"

lemma stops_simps [simp]: "stops []" "stops (c # r) \<longleftrightarrow> \<not> is_digit c"
  by (simp_all add: stops_def)

text \<open>Encoding \<open>x\<close> by \<open>f\<close> can be cut off the front of a text in one way.\<close>

definition delimited :: "('a \<Rightarrow> string) \<Rightarrow> ('a \<Rightarrow> bool) \<Rightarrow> 'a \<Rightarrow> bool" where
  "delimited f P x \<longleftrightarrow>
     (\<forall>y r s. P y \<longrightarrow> f x @ r = f y @ s \<longrightarrow> stops r \<longrightarrow> stops s \<longrightarrow> x = y \<and> r = s)"

lemma delimitedD: "delimited f P x \<Longrightarrow> P y \<Longrightarrow> f x @ r = f y @ s \<Longrightarrow> stops r \<Longrightarrow> stops s \<Longrightarrow> x = y \<and> r = s"
  by (simp add: delimited_def)

lemma items_delimited:
  assumes "\<forall>x\<in>set xs. delimited f P x" "\<forall>y\<in>set ys. P y"
    and "\<forall>x\<in>set xs \<union> set ys. f x \<noteq> [] \<and> hd (f x) \<noteq> c" "c \<noteq> CHR '',''" "\<not> is_digit c"
    and "json_items (map f xs) @ c # r = json_items (map f ys) @ c # s"
  shows "xs = ys \<and> r = s"
  using assms
proof (induction xs arbitrary: ys)
  case Nil
  show ?case
  proof (cases ys)
    case (Cons y zs)
    with Nil have "c # r = f y @ (if zs = [] then [] else CHR '','' # json_items (map f zs)) @ c # s" "f y \<noteq> []" "hd (f y) \<noteq> c"
      by (simp_all add: json_items_Cons)
    then show ?thesis by (cases "f y") simp_all
  qed (use Nil in simp)
next
  case (Cons x xs)
  let ?tail = "\<lambda>zs q. (if zs = [] then c # q else CHR '','' # json_items (map f zs) @ c # q)"
  have comma: "\<not> is_digit (CHR '','')" by code_simp
  show ?case
  proof (cases ys)
    case Nil
    with Cons.prems(3,6) show ?thesis by (cases "f x") (auto simp: json_items_Cons)
  next
    case (Cons y zs)
    have "f x @ ?tail xs r = f y @ ?tail zs s" using Cons.prems(6) Cons
      by (cases "xs = []"; cases "zs = []") (simp_all add: json_items_Cons)
    moreover have "stops (?tail xs r)" "stops (?tail zs s)" using Cons.prems(5) comma by simp_all
    moreover have "delimited f P x" "P y" using Cons.prems(1,2) Cons by simp_all
    ultimately have eq: "x = y" "?tail xs r = ?tail zs s" by (blast dest: delimitedD)+
    show ?thesis
    proof (cases "xs = [] \<or> zs = []")
      case True
      with eq Cons Cons.prems(4) show ?thesis by (auto split: if_splits)
    next
      case False
      with eq have "json_items (map f xs) @ c # r = json_items (map f zs) @ c # s" by simp
      with Cons.IH [of zs] Cons.prems Cons eq(1) show ?thesis by simp
    qed
  qed
qed

text \<open>A decoder of one character shows that string bodies are unambiguous.\<close>

definition uncanonical :: "string \<Rightarrow> (char \<times> string) option" where
  "uncanonical s =
     (case s of
        [] \<Rightarrow> None
      | c # t \<Rightarrow>
          if byte_of c \<noteq> 92 then Some (c, t)
          else case t of
            [] \<Rightarrow> None
          | d # u \<Rightarrow>
              if d = CHR ''u'' then
                (case u of z # y # h # l # v \<Rightarrow>
                   Some (char_of (16 * (if byte_of h < 58 then byte_of h - 48 else byte_of h - 87) +
                     (if byte_of l < 58 then byte_of l - 48 else byte_of l - 87) :: nat), v)
                 | _ \<Rightarrow> None)
              else if d = CHR ''b'' then Some (char_of (8 :: nat), u)
              else if d = CHR ''t'' then Some (char_of (9 :: nat), u)
              else if d = CHR ''n'' then Some (char_of (10 :: nat), u)
              else if d = CHR ''f'' then Some (char_of (12 :: nat), u)
              else if d = CHR ''r'' then Some (char_of (13 :: nat), u)
              else Some (d, u))"

lemma small_bytes: "of_char c < (32 :: nat) \<Longrightarrow> c \<in> set (map char_of [0..<32 :: nat])"
proof -
  assume "of_char c < (32 :: nat)"
  then have "of_char c \<in> set [0..<32 :: nat]" by simp
  then have "char_of (of_char c :: nat) \<in> set (map char_of [0..<32 :: nat])" unfolding set_map by (rule imageI)
  then show ?thesis by simp
qed

lemma uncanonical_char [simp]: "uncanonical (canonical_char c @ s) = Some (c, s)"
proof (cases "of_char c < (32 :: nat)")
  case True
  have "\<forall>c\<in>set (map char_of [0..<32 :: nat]). uncanonical (canonical_char c @ s) = Some (c, s)"
    by (simp add: upt_rec canonical_char_def uncanonical_def hex_digit_def Let_def)
  with small_bytes [OF True] show ?thesis by blast
next
  case False
  with False show ?thesis by (auto simp: canonical_char_def uncanonical_def Let_def)
qed

lemma canonical_char_head: "canonical_char c \<noteq> [] \<and> hd (canonical_char c) \<noteq> CHR 0x22"
  by (auto simp: canonical_char_def Let_def)

lemma body_unambiguous:
  assumes "concat (map canonical_char s) @ CHR 0x22 # q = concat (map canonical_char t) @ CHR 0x22 # r"
  shows "s = t \<and> q = r"
  using assms
proof (induction s arbitrary: t)
  case Nil
  then show ?case using canonical_char_head [of "hd t"] by (cases t; cases "canonical_char (hd t)") auto
next
  case (Cons c s)
  show ?case
  proof (cases t)
    case Nil
    with Cons.prems canonical_char_head [of c] show ?thesis by (cases "canonical_char c") auto
  next
    case (Cons d u)
    have "uncanonical (canonical_char c @ concat (map canonical_char s) @ CHR 0x22 # q) =
        uncanonical (canonical_char d @ concat (map canonical_char u) @ CHR 0x22 # r)"
      using Cons.prems Cons by simp
    then have "c = d" "concat (map canonical_char s) @ CHR 0x22 # q = concat (map canonical_char u) @ CHR 0x22 # r" by simp_all
    with Cons.IH Cons show ?thesis by simp
  qed
qed

lemma string_unambiguous: "appendCanonicalJSONString s @ q = appendCanonicalJSONString t @ r \<Longrightarrow> s = t \<and> q = r"
  unfolding appendCanonicalJSONString_def by (rule body_unambiguous) simp

lemma string_head: "hd (appendCanonicalJSONString s) = CHR 0x22" "appendCanonicalJSONString s \<noteq> []"
  by (simp_all add: appendCanonicalJSONString_def)

text \<open>The canonical form of a value: every object in key order. \<open>render\<close> prints it.\<close>

fun tidy :: "json \<Rightarrow> json" where
  "tidy (JArray vs) = JArray (map tidy vs)"
| "tidy (JObject fs) = JObject (sort_key fst (map (\<lambda>f. (fst f, tidy (snd f))) fs))"
| "tidy v = v"

fun plain :: "json \<Rightarrow> bool" where
  "plain (JNumber t) = canonical_number t"
| "plain (JArray vs) = list_all plain vs"
| "plain (JObject fs) = list_all (\<lambda>f. plain (snd f)) fs"
| "plain v = True"

fun render :: "json \<Rightarrow> string" where
  "render JNull = ''null''"
| "render (JBool b) = (if b then ''true'' else ''false'')"
| "render (JString s) = appendCanonicalJSONString s"
| "render (JNumber t) = t"
| "render (JArray vs) = CHR ''['' # json_items (map render vs) @ '']''"
| "render (JObject fs) = CHR ''{'' # json_items (map (\<lambda>f. canonical_member (fst f, render (snd f))) fs) @ ''}''"

lemma those_map: "those (map g xs) = (if list_all (\<lambda>x. g x \<noteq> None) xs then Some (map (\<lambda>x. the (g x)) xs) else None)"
  by (induction xs) (auto split: option.splits)

lemma sort_key_map: "sort_key fst (map (\<lambda>f. (fst f, h (snd f))) fs) = map (\<lambda>f. (fst f, h (snd f))) (sort_key fst fs)"
proof -
  have ins: "insort_key fst (fst f, h (snd f)) (map (\<lambda>f. (fst f, h (snd f))) gs) =
      map (\<lambda>f. (fst f, h (snd f))) (insort_key fst f gs)" for f gs
    by (induction gs) auto
  show ?thesis by (induction fs) (simp_all add: ins)
qed

lemma canonical_render: "appendCanonicalDecisionJSON v = (if plain v then Some (render (tidy v)) else None)"
proof (induction v rule: appendCanonicalDecisionJSON.induct)
  case (5 vs)
  have eq: "those (map appendCanonicalDecisionJSON vs) = (if list_all plain vs then Some (map (render \<circ> tidy) vs) else None)"
    using 5 by (simp add: those_map list_all_iff)
  show ?case by (simp add: eq)
next
  case (6 fs)
  let ?g = "\<lambda>f. map_option (Pair (fst f)) (appendCanonicalDecisionJSON (snd f))"
  have each: "?g f = (if plain (snd f) then Some (fst f, render (tidy (snd f))) else None)" if "f \<in> set fs" for f
    using 6 [of f] that by simp
  then have "map ?g fs = map (\<lambda>f. if plain (snd f) then Some (fst f, render (tidy (snd f))) else None) fs" by simp
  then have eq: "those (map ?g fs) =
      (if list_all (\<lambda>f. plain (snd f)) fs then Some (map (\<lambda>f. (fst f, render (tidy (snd f)))) fs) else None)"
    by (simp only: those_map) (auto simp: list_all_iff intro!: arg_cong [of _ _ Some])
  show ?case
    by (simp add: eq sort_key_map [of "\<lambda>v. render (tidy v)"] sort_key_map [of tidy] comp_def)
qed simp_all

lemma number_digits: "canonical_number t \<Longrightarrow> t \<noteq> [] \<and> list_all is_digit t"
  by (auto simp: canonical_number_def ParseUint64_def split: if_splits)

lemma digits_unambiguous:
  assumes "list_all is_digit t" "list_all is_digit u" "stops r" "stops s" "t @ r = u @ s"
  shows "t = u \<and> r = s"
proof -
  have cut: "takeWhile is_digit (t @ r) = t" if "list_all is_digit t" "stops r" for t r
    using that by (cases r) (auto simp: list_all_iff takeWhile_append2)
  have "t = u" using cut [OF assms(1,3)] cut [OF assms(2,4)] assms(5) by simp
  with assms(5) show ?thesis by simp
qed

lemma render_head:
  assumes "plain v"
  shows "render v \<noteq> []"
    and "hd (render v) = CHR ''n'' \<longleftrightarrow> v = JNull"
    and "hd (render v) \<in> {CHR ''t'', CHR ''f''} \<longleftrightarrow> (\<exists>b. v = JBool b)"
    and "hd (render v) = CHR 0x22 \<longleftrightarrow> (\<exists>s. v = JString s)"
    and "hd (render v) = CHR ''['' \<longleftrightarrow> (\<exists>vs. v = JArray vs)"
    and "hd (render v) = CHR ''{'' \<longleftrightarrow> (\<exists>fs. v = JObject fs)"
    and "is_digit (hd (render v)) \<longleftrightarrow> (\<exists>t. v = JNumber t)"
    and "hd (render v) \<notin> {CHR '']'', CHR ''}''}"
proof -
  have d: "\<not> is_digit (CHR ''n'')" "\<not> is_digit (CHR ''t'')" "\<not> is_digit (CHR ''f'')" "\<not> is_digit (CHR 0x22)"
      "\<not> is_digit (CHR ''['')" "\<not> is_digit (CHR ''{'')" "\<not> is_digit (CHR '']'')" "\<not> is_digit (CHR ''}'')"
    by code_simp+
  have n: "is_digit (hd t)" "t \<noteq> []" if "v = JNumber t" for t
    using assms that number_digits [of t] by (cases t, auto)+
  show "render v \<noteq> []" using n by (cases v) (simp_all add: string_head)
  show "hd (render v) = CHR ''n'' \<longleftrightarrow> v = JNull" using n d by (cases v) (auto simp: string_head)
  show "hd (render v) \<in> {CHR ''t'', CHR ''f''} \<longleftrightarrow> (\<exists>b. v = JBool b)" using n d by (cases v) (auto simp: string_head)
  show "hd (render v) = CHR 0x22 \<longleftrightarrow> (\<exists>s. v = JString s)" using n d by (cases v) (auto simp: string_head)
  show "hd (render v) = CHR ''['' \<longleftrightarrow> (\<exists>vs. v = JArray vs)" using n d by (cases v) (auto simp: string_head)
  show "hd (render v) = CHR ''{'' \<longleftrightarrow> (\<exists>fs. v = JObject fs)" using n d by (cases v) (auto simp: string_head)
  show "is_digit (hd (render v)) \<longleftrightarrow> (\<exists>t. v = JNumber t)" using n d by (cases v) (auto simp: string_head)
  show "hd (render v) \<notin> {CHR '']'', CHR ''}''}" using n d by (cases v) (auto simp: string_head)
qed

lemma same_head: "u @ r = w @ s \<Longrightarrow> u \<noteq> [] \<Longrightarrow> w \<noteq> [] \<Longrightarrow> hd u = hd w"
  by (cases u; cases w) auto

lemma member_delimited:
  "delimited render plain v \<Longrightarrow> delimited (\<lambda>f. canonical_member (fst f, render (snd f))) (\<lambda>f. plain (snd f)) (k, v)"
  unfolding delimited_def canonical_member_def
  by (auto dest!: string_unambiguous)

lemma render_delimited: "plain v \<Longrightarrow> delimited render plain v"
proof (induction v)
  case (JArray vs)
  show ?case unfolding delimited_def
  proof (intro allI impI)
    fix y r s
    assume y: "plain y" and eq: "render (JArray vs) @ r = render y @ s"
    then have "hd (render y) = CHR ''[''" using same_head [OF eq] render_head(1) [OF y] by simp
    then obtain ws where ws: "y = JArray ws" using render_head(5) [OF y] by blast
    have "vs = ws \<and> r = s"
    proof (rule items_delimited [where f = render and P = plain and c = "CHR '']''"])
      show "\<forall>x\<in>set vs. delimited render plain x" using JArray by (simp add: list_all_iff)
      show "\<forall>w\<in>set ws. plain w" using y ws by (simp add: list_all_iff)
      show "\<forall>x\<in>set vs \<union> set ws. render x \<noteq> [] \<and> hd (render x) \<noteq> CHR '']''"
        using y ws JArray.prems render_head(1,8) by (fastforce simp: list_all_iff)
      show "\<not> is_digit (CHR '']'')" by code_simp
    qed (use eq ws in simp_all)
    with ws show "JArray vs = y \<and> r = s" by simp
  qed
next
  case (JObject fs)
  let ?f = "\<lambda>f. canonical_member (fst f, render (snd f))"
  show ?case unfolding delimited_def
  proof (intro allI impI)
    fix y r s
    assume y: "plain y" and eq: "render (JObject fs) @ r = render y @ s"
    then have "hd (render y) = CHR ''{''" using same_head [OF eq] render_head(1) [OF y] by simp
    then obtain gs where gs: "y = JObject gs" using render_head(6) [OF y] by blast
    have "fs = gs \<and> r = s"
    proof (rule items_delimited [where f = ?f and P = "\<lambda>f. plain (snd f)" and c = "CHR ''}''"])
      show "\<forall>f\<in>set fs. delimited ?f (\<lambda>f. plain (snd f)) f"
      proof
        fix f
        assume f: "f \<in> set fs"
        with JObject.prems have "plain (snd f)" by (simp add: list_all_iff)
        with JObject.IH [OF f, of "snd f"] have "delimited render plain (snd f)" by (cases f) (simp add: snds.simps)
        from member_delimited [OF this, of "fst f"] show "delimited ?f (\<lambda>f. plain (snd f)) f" by simp
      qed
      show "\<forall>w\<in>set gs. plain (snd w)" using y gs by (simp add: list_all_iff)
      show "\<forall>x\<in>set fs \<union> set gs. ?f x \<noteq> [] \<and> hd (?f x) \<noteq> CHR ''}''"
        by (simp add: canonical_member_def string_head)
      show "\<not> is_digit (CHR ''}'')" by code_simp
    qed (use eq gs in simp_all)
    with gs show "JObject fs = y \<and> r = s" by simp
  qed
next
  case (JNumber t)
  show ?case unfolding delimited_def
  proof (intro allI impI)
    fix y r s
    assume y: "plain y" and eq: "render (JNumber t) @ r = render y @ s" and st: "stops r" "stops s"
    have t: "t \<noteq> []" "list_all is_digit t" using number_digits [of t] JNumber by simp_all
    then have "is_digit (hd (render y))" using same_head [OF eq] render_head(1) [OF y] by (cases t) auto
    then obtain u where u: "y = JNumber u" using render_head(7) [OF y] by blast
    have "t = u \<and> r = s"
    proof (rule digits_unambiguous [OF t(2) _ st])
      show "list_all is_digit u" using y u number_digits [of u] by simp
    qed (use eq u in simp)
    with u show "JNumber t = y \<and> r = s" by simp
  qed
next
  case (JString t)
  show ?case unfolding delimited_def
  proof (intro allI impI)
    fix y r s
    assume y: "plain y" and eq: "render (JString t) @ r = render y @ s"
    then have "hd (render y) = CHR 0x22" using same_head [OF eq] render_head(1) [OF y] by (simp add: string_head)
    then obtain u where u: "y = JString u" using render_head(4) [OF y] by blast
    then show "JString t = y \<and> r = s" using eq string_unambiguous [of t r u s] by simp
  qed
next
  case JNull
  show ?case unfolding delimited_def
  proof (intro allI impI)
    fix y r s
    assume y: "plain y" and eq: "render JNull @ r = render y @ s"
    then have "hd (render y) = CHR ''n''" using same_head [OF eq] render_head(1) [OF y] by simp
    then have "y = JNull" using render_head(2) [OF y] by blast
    then show "JNull = y \<and> r = s" using eq by simp
  qed
next
  case (JBool b)
  show ?case unfolding delimited_def
  proof (intro allI impI)
    fix y r s
    assume y: "plain y" and eq: "render (JBool b) @ r = render y @ s"
    then have "hd (render y) \<in> {CHR ''t'', CHR ''f''}"
      using same_head [OF eq] render_head(1) [OF y] by (cases b) auto
    then obtain d where "y = JBool d" using render_head(3) [OF y] by blast
    then show "JBool b = y \<and> r = s" using eq by (cases b; cases d) auto
  qed
qed

lemma plain_tidy: "plain (tidy v) = plain v"
proof (induction v rule: tidy.induct)
  case (2 fs)
  have "set (sort_key fst (map (\<lambda>f. (fst f, tidy (snd f))) fs)) = (\<lambda>f. (fst f, tidy (snd f))) ` set fs" by simp
  with 2 show ?case by (auto simp: list_all_iff)
qed (auto simp: list_all_iff)

lemma canonical_unique:
  assumes "CanonicalDecisionJSON a = Some s" "CanonicalDecisionJSON b = Some t"
  shows "s = t \<longleftrightarrow> tidy a = tidy b"
proof -
  have a: "plain a" "s = render (tidy a)" and b: "plain b" "t = render (tidy b)"
    using assms by (auto simp: CanonicalDecisionJSON_def canonical_render split: if_splits)
  have "tidy a = tidy b" if "s = t"
  proof -
    have "delimited render plain (tidy a)" using a(1) by (intro render_delimited) (simp add: plain_tidy)
    from delimitedD [OF this, of "tidy b" "[]" "[]"] that a b show ?thesis by (simp add: plain_tidy)
  qed
  with a b show ?thesis by auto
qed

lemma digest_text:
  assumes "DecisionContractDigest sha d v = Some x"
  obtains t where "CanonicalDecisionJSON v = Some t" "x = sha (d @ [CHR 0x00] @ t)"
  using assms by (auto simp: DecisionContractDigest_def split: if_splits)

lemma digest_determines:
  assumes "DecisionContractDigest sha d v = Some x" "DecisionContractDigest sha d w = Some x"
  shows "tidy v = tidy w \<or> (\<exists>p q. p \<noteq> q \<and> sha p = sha q)"
proof -
  obtain s where s: "CanonicalDecisionJSON v = Some s" "x = sha (d @ [CHR 0x00] @ s)" using assms(1) by (rule digest_text)
  obtain t where t: "CanonicalDecisionJSON w = Some t" "x = sha (d @ [CHR 0x00] @ t)" using assms(2) by (rule digest_text)
  note st = s(1) t(1) s(2) [symmetric, unfolded t(2)]
  show ?thesis
  proof (cases "s = t")
    case True
    with canonical_unique [OF st(1,2)] show ?thesis by simp
  next
    case False
    then have "d @ [CHR 0x00] @ s \<noteq> d @ [CHR 0x00] @ t" by simp
    with st(3) show ?thesis by (intro disjI2 exI conjI)
  qed
qed

text \<open>
  A decision identity names one decision: two primary decisions with the same id have the same branch, logical run
  and generation, unless SHA-256 collides; and two with the same task id have the same branch and logical run.
\<close>

theorem decision_identity_unique:
  assumes "PrimaryDecisionID sha b r g = Some i" "PrimaryDecisionID sha b' r' g' = Some i"
    and "PrimaryDecisionTaskID sha c q = Some k" "PrimaryDecisionTaskID sha c' q' = Some k"
  shows "(b, r, g) = (b', r', g') \<and> (c, q) = (c', q') \<or> (\<exists>x y. x \<noteq> y \<and> sha x = sha y)"
proof -
  let ?d = "\<lambda>b r g. JObject [(''branch_id'', JString b), (''generation'', JNumber (dec g)), (''logical_run_id'', JString r)]"
  let ?k = "\<lambda>c q. JObject [(''branch_id'', JString c), (''logical_run_id'', JString q)]"
  obtain h where "DecisionContractDigest sha ''hufu/primary-decision/v1'' (?d b r g) = Some h"
      "DecisionContractDigest sha ''hufu/primary-decision/v1'' (?d b' r' g') = Some h"
    using assms(1,2) by (auto simp: PrimaryDecisionID_def split: if_splits)
  from digest_determines [OF this]
  have d: "tidy (?d b r g) = tidy (?d b' r' g') \<or> (\<exists>x y. x \<noteq> y \<and> sha x = sha y)" .
  obtain h where "DecisionContractDigest sha ''hufu/primary-task/v1'' (?k c q) = Some h"
      "DecisionContractDigest sha ''hufu/primary-task/v1'' (?k c' q') = Some h"
    using assms(3,4) by (auto simp: PrimaryDecisionTaskID_def)
  from digest_determines [OF this]
  have k: "tidy (?k c q) = tidy (?k c' q') \<or> (\<exists>x y. x \<noteq> y \<and> sha x = sha y)" .
  have "dec g = dec g' \<Longrightarrow> g = g'" by (metis dec_val_dec)
  then have "tidy (?d b r g) = tidy (?d b' r' g') \<Longrightarrow> (b, r, g) = (b', r', g')" by simp
  moreover have "tidy (?k c q) = tidy (?k c' q') \<Longrightarrow> (c, q) = (c', q')" by simp
  ultimately show ?thesis using d k by blast
qed

text \<open>
  C35. The canonical text is a normal form. Two values have the same canonical text exactly when they are equal up to
  the order of the fields of their objects, so a digest of the text is a digest of the value.
\<close>

theorem canonical_normal_form:
  assumes "CanonicalDecisionJSON a = Some s" "CanonicalDecisionJSON b = Some t"
  shows "s = t \<longleftrightarrow> tidy a = tidy b"
  using assms by (rule canonical_unique)

theorem canonical_normal_form_witness:
  "tidy (JObject [(''b'', JNumber ''1''), (''a'', JNull)]) = tidy (JObject [(''a'', JNull), (''b'', JNumber ''1'')])"
proof -
  have "CanonicalDecisionJSON (JObject [(''b'', JNumber ''1''), (''a'', JNull)]) = Some ''{\"a\":null,\"b\":1}''"
    "CanonicalDecisionJSON (JObject [(''a'', JNull), (''b'', JNumber ''1'')]) = Some ''{\"a\":null,\"b\":1}''"
    by code_simp+
  from canonical_normal_form [OF this] show ?thesis by simp
qed

theorem decision_identity_unique_witness:
  "(''main'', ''ldr'', 2 :: nat) = (''main'', ''ldr'', 2) \<and> (''main'', ''ldr'') = (''main'', ''ldr'') \<or>
   (\<exists>x y. x \<noteq> y \<and> rev x = rev (y :: string))"
proof -
  have "PrimaryDecisionID rev ''main'' ''ldr'' 2 = Some (''pd_'' @
      rev (''hufu/primary-decision/v1'' @ [CHR 0x00] @ ''{\"branch_id\":\"main\",\"generation\":2,\"logical_run_id\":\"ldr\"}''))"
    "PrimaryDecisionTaskID rev ''main'' ''ldr'' = Some (''__hufu_pd_'' @
      rev (''hufu/primary-task/v1'' @ [CHR 0x00] @ ''{\"branch_id\":\"main\",\"logical_run_id\":\"ldr\"}''))"
    by code_simp+
  from decision_identity_unique [OF this(1) this(1) this(2) this(2)] show ?thesis .
qed

end
