(* ===== verification/Decision_Contract.thy ===== *)
theory Decision_Contract
  imports Event_Store Decision_Canonical
begin

text \<open>
  The durable contract of a logical decision run: the payloads of \<open>internal/team/decision_runtime_types.go\<close>
  and their validation in \<open>decision_event_contract.go\<close>. An event is a \<open>run_event\<close> whose payload is given
  as decoded: the struct of the event's type, whether strict decoding succeeds, and the JSON object. A Go
  \<open>uint32\<close> or \<open>uint64\<close> is a \<open>nat\<close>; sums that may leave the range are written out.
\<close>

section \<open>Data\<close>

definition MaxUint64 :: nat where
  "MaxUint64 = 18446744073709551615"

definition succ32 :: "nat \<Rightarrow> nat" where
  "succ32 n = (n + 1) mod 4294967296"

definition succ64 :: "nat \<Rightarrow> nat" where
  "succ64 n = (n + 1) mod 18446744073709551616"

record decision_ref =
  dr_id :: string
  dr_sha :: string
  dr_media :: string
  dr_size :: nat

record decision_limits =
  dl_tokens :: nat
  dl_duration :: nat
  dl_generations :: nat
  dl_attempts :: nat
  dl_cleanup :: nat

datatype decision_phase =
    PhSupporting | PhPrepared | PhAdmitted | PhBound | PhSuspended | PhClosed | PhRecoveryRequired

record decision_usage =
  du_tokens :: nat
  du_reserved :: nat
  du_duration :: nat
  du_generations :: nat
  du_settlements :: "decision_ref option"

record primary_binding =
  pb_schema :: int
  pb_run :: string
  pb_branch :: string
  pb_task :: string
  pb_generation :: nat
  pb_decision :: string
  pb_requirement :: string
  pb_support :: string
  pb_admission :: decision_ref
  pb_evidence :: decision_ref
  pb_plan :: decision_ref
  pb_record :: decision_ref
  pb_sealed :: string

record logical_run =
  lr_run :: string
  lr_branch :: string
  lr_team :: string
  lr_team_digest :: string
  lr_requirement_ref :: decision_ref
  lr_requirement :: string
  lr_profile :: decision_ref
  lr_executions :: "string list"
  lr_epoch :: nat
  lr_phase :: decision_phase
  lr_generation :: nat
  lr_primary :: "primary_binding option"
  lr_last_id :: string
  lr_last_hash :: string
  lr_usage :: decision_usage

text \<open>The embedded structs are record extensions.\<close>

record decision_common =
  dc_schema :: int
  dc_run :: string
  dc_branch :: string
  dc_execution :: string
  dc_epoch :: nat

record generation_common = decision_common +
  dg_generation :: nat

record opened_payload = decision_common +
  op_team :: string
  op_team_digest :: string
  op_requirement_ref :: decision_ref
  op_requirement :: string
  op_profile :: decision_ref
  op_authority :: decision_ref
  op_limits :: decision_limits

record attached_payload = decision_common +
  at_previous :: string
  at_resume :: string

record support_cursor =
  sc_event :: string
  sc_hash :: string
  sc_lineage :: string

record prepared_payload = generation_common +
  pp_task :: string
  pp_decision :: string
  pp_cursor :: support_cursor
  pp_support :: string
  pp_evidence :: decision_ref
  pp_plan :: decision_ref
  pp_digest :: string

record admitted_payload = generation_common +
  ad_task :: string
  ad_decision :: string
  ad_occurrence :: decision_ref
  ad_admission :: decision_ref
  ad_digest :: string

record started_payload = generation_common +
  cs_decision :: string
  cs_role :: string
  cs_ordinal :: nat
  cs_round :: nat
  cs_attempt :: nat
  cs_binding :: string
  cs_invocation :: string
  cs_input :: string
  cs_reservation :: decision_ref

record unconfirmed_payload = generation_common +
  cu_invocation :: string
  cu_reason :: string
  cu_reservation :: decision_ref

record settled_payload = generation_common +
  ce_invocation :: string
  ce_result :: string
  ce_receipt :: decision_ref
  ce_output :: "decision_ref option"
  ce_usage :: string
  ce_tokens :: nat
  ce_reason :: "string option"

record missing_requirement =
  mr_code :: string
  mr_criterion :: "string option"
  mr_required :: nat
  mr_observed :: nat

record blocked_payload = generation_common +
  bl_task :: "string option"
  bl_reason :: string
  bl_support :: string
  bl_repairable :: bool
  bl_missing :: "missing_requirement list"

record bound_payload = generation_common +
  bd_binding :: primary_binding
  bd_receipt :: decision_ref

record invalidated_payload = generation_common +
  iv_task :: string
  iv_decision :: string
  iv_prior :: "string option"
  iv_triggers :: "string list"
  iv_reason :: string
  iv_next :: nat

datatype decision_payload =
    RunOpened opened_payload
  | RunAttached attached_payload
  | PrimaryPrepared prepared_payload
  | PrimaryAdmitted admitted_payload
  | RoleCallStarted started_payload
  | RoleCallUnconfirmed unconfirmed_payload
  | RoleCallSettled settled_payload
  | PrimaryBlocked blocked_payload
  | PrimaryBound bound_payload
  | PrimaryInvalidated invalidated_payload
  | OtherPayload

record decision_body =
  db_valid :: bool
  db_strict :: bool
  db_object :: "json_map option"
  db_payload :: decision_payload

type_synonym decision_event = "decision_body run_event"

definition payload_type :: "decision_payload \<Rightarrow> string option" where
  "payload_type p =
     (case p of
        RunOpened _ \<Rightarrow> Some ''decision_run_opened''
      | RunAttached _ \<Rightarrow> Some ''decision_run_attached''
      | PrimaryPrepared _ \<Rightarrow> Some ''primary_decision_prepared''
      | PrimaryAdmitted _ \<Rightarrow> Some ''primary_decision_admitted''
      | RoleCallStarted _ \<Rightarrow> Some ''decision_role_call_started''
      | RoleCallUnconfirmed _ \<Rightarrow> Some ''decision_role_call_unconfirmed''
      | RoleCallSettled _ \<Rightarrow> Some ''decision_role_call_settled''
      | PrimaryBlocked _ \<Rightarrow> Some ''primary_decision_blocked''
      | PrimaryBound _ \<Rightarrow> Some ''primary_decision_bound''
      | PrimaryInvalidated _ \<Rightarrow> Some ''primary_decision_invalidated''
      | OtherPayload \<Rightarrow> None)"

text \<open>The struct an event of this type decodes to.\<close>

definition decoded :: "decision_event \<Rightarrow> decision_payload" where
  "decoded e =
     (if payload_type (db_payload (rev_payload e)) = Some (rev_type e) then db_payload (rev_payload e) else OtherPayload)"

text \<open>Five further types are correctness events with payloads of their own, which the reducer has no case for.\<close>

definition observation_types :: "string list" where
  "observation_types =
     [''decision_artifact_observed'', ''artifact_evidence_observed'', ''decision_primitive_started'',
      ''decision_primitive_settled'', ''decision_primitive_reused'']"

definition reducer_types :: "string list" where
  "reducer_types =
     [''decision_run_opened'', ''decision_run_attached'', ''primary_decision_prepared'', ''primary_decision_admitted'',
      ''decision_role_call_started'', ''decision_role_call_unconfirmed'', ''decision_role_call_settled'',
      ''primary_decision_blocked'', ''primary_decision_bound'', ''primary_decision_invalidated'']"

definition isDecisionCorrectnessEvent :: "string \<Rightarrow> bool" where
  "isDecisionCorrectnessEvent t \<longleftrightarrow> t \<in> set reducer_types \<or> t \<in> set observation_types"

section \<open>Validation\<close>

definition is_hex :: "char \<Rightarrow> bool" where
  "is_hex c \<longleftrightarrow> is_digit c \<or> 97 \<le> byte_of c \<and> byte_of c \<le> 102"

definition identifier_char :: "char \<Rightarrow> bool" where
  "identifier_char c \<longleftrightarrow> is_digit c \<or> 65 \<le> byte_of c \<and> byte_of c \<le> 90 \<or> 97 \<le> byte_of c \<and> byte_of c \<le> 122 \<or>
     c \<in> set ''_.:@/-''"

definition validDecisionIdentifier :: "string \<Rightarrow> bool" where
  "validDecisionIdentifier s \<longleftrightarrow> length s \<le> 160 \<and> s \<noteq> [] \<and> list_all identifier_char s"

definition validDecisionDigest :: "string \<Rightarrow> bool" where
  "validDecisionDigest s \<longleftrightarrow> length s = 64 \<and> list_all is_hex s"

definition logical_id :: "string \<Rightarrow> bool" where
  "logical_id s \<longleftrightarrow> take 4 s = ''ldr_'' \<and> length s = 36 \<and> list_all is_hex (drop 4 s)"

definition validateDecisionArtifactRef :: "decision_ref \<Rightarrow> bool" where
  "validateDecisionArtifactRef r \<longleftrightarrow>
     validDecisionIdentifier (dr_id r) \<and> validDecisionDigest (dr_sha r) \<and> TrimSpace (dr_media r) \<noteq> [] \<and>
     length (dr_media r) \<le> 128 \<and> int (dr_size r) \<le> maxCanonicalJSONInteger"

definition validateDecisionCommon :: "decision_event \<Rightarrow> 'a decision_common_scheme \<Rightarrow> bool" where
  "validateDecisionCommon e c \<longleftrightarrow>
     dc_schema c = 1 \<and> logical_id (dc_run c) \<and> validDecisionIdentifier (dc_branch c) \<and>
     validDecisionIdentifier (dc_execution c) \<and> dc_epoch c \<noteq> 0 \<and> int (dc_epoch c) \<le> maxCanonicalJSONInteger \<and>
     rev_branch e \<noteq> [] \<and> dc_branch c = rev_branch e \<and> dc_execution c = rev_run e"

definition validateDecisionGenerationCommon :: "decision_event \<Rightarrow> 'a generation_common_scheme \<Rightarrow> bool" where
  "validateDecisionGenerationCommon e c \<longleftrightarrow> validateDecisionCommon e c \<and> dg_generation c \<noteq> 0"

definition validateDecisionOpenedPayload :: "opened_payload \<Rightarrow> bool" where
  "validateDecisionOpenedPayload p \<longleftrightarrow>
     dc_epoch p = 1 \<and> validDecisionIdentifier (op_team p) \<and> validDecisionDigest (op_team_digest p) \<and>
     validDecisionDigest (op_requirement p) \<and> validateDecisionArtifactRef (op_requirement_ref p) \<and>
     validateDecisionArtifactRef (op_profile p) \<and> validateDecisionArtifactRef (op_authority p) \<and>
     dl_tokens (op_limits p) \<noteq> 0 \<and> dl_duration (op_limits p) \<noteq> 0 \<and> dl_generations (op_limits p) \<noteq> 0 \<and>
     dl_attempts (op_limits p) \<noteq> 0 \<and> dl_cleanup (op_limits p) \<noteq> 0"

definition validateDecisionRunAttachedEvent :: "decision_event \<Rightarrow> attached_payload \<Rightarrow> bool" where
  "validateDecisionRunAttachedEvent e p \<longleftrightarrow>
     validateDecisionCommon e p \<and> validDecisionIdentifier (at_previous p) \<and> validDecisionIdentifier (at_resume p)"

definition validatePreparedPayload :: "prepared_payload \<Rightarrow> bool" where
  "validatePreparedPayload p \<longleftrightarrow>
     validDecisionIdentifier (pp_task p) \<and> validDecisionIdentifier (pp_decision p) \<and>
     validDecisionIdentifier (sc_event (pp_cursor p)) \<and> validDecisionDigest (sc_hash (pp_cursor p)) \<and>
     validDecisionDigest (sc_lineage (pp_cursor p)) \<and> validDecisionDigest (pp_support p) \<and>
     validDecisionDigest (pp_digest p) \<and> validateDecisionArtifactRef (pp_evidence p) \<and>
     validateDecisionArtifactRef (pp_plan p)"

definition validatePrimaryDecisionAdmittedEvent :: "decision_event \<Rightarrow> admitted_payload \<Rightarrow> bool" where
  "validatePrimaryDecisionAdmittedEvent e p \<longleftrightarrow>
     validateDecisionGenerationCommon e p \<and> validDecisionIdentifier (ad_task p) \<and> validDecisionIdentifier (ad_decision p) \<and>
     validDecisionDigest (ad_digest p) \<and> validateDecisionArtifactRef (ad_occurrence p) \<and>
     validateDecisionArtifactRef (ad_admission p)"

definition validateDecisionRoleCallStartedEvent :: "decision_event \<Rightarrow> started_payload \<Rightarrow> bool" where
  "validateDecisionRoleCallStartedEvent e p \<longleftrightarrow>
     validateDecisionGenerationCommon e p \<and> validDecisionIdentifier (cs_decision p) \<and> validDecisionIdentifier (cs_role p) \<and>
     cs_ordinal p \<noteq> 0 \<and> cs_round p \<noteq> 0 \<and> cs_attempt p \<noteq> 0 \<and> validDecisionIdentifier (cs_binding p) \<and>
     validDecisionIdentifier (cs_invocation p) \<and> validDecisionDigest (cs_input p) \<and>
     validateDecisionArtifactRef (cs_reservation p)"

definition validateDecisionRoleCallUnconfirmedEvent :: "decision_event \<Rightarrow> unconfirmed_payload \<Rightarrow> bool" where
  "validateDecisionRoleCallUnconfirmedEvent e p \<longleftrightarrow>
     validateDecisionGenerationCommon e p \<and> validDecisionIdentifier (cu_invocation p) \<and>
     validDecisionIdentifier (cu_reason p) \<and> validateDecisionArtifactRef (cu_reservation p)"

definition validateRoleCallSettlement :: "settled_payload \<Rightarrow> bool" where
  "validateRoleCallSettlement p \<longleftrightarrow>
     validDecisionIdentifier (ce_invocation p) \<and> validateDecisionArtifactRef (ce_receipt p) \<and>
     pred_option validateDecisionArtifactRef (ce_output p) \<and>
     ce_result p \<in> {''accepted'', ''rejected'', ''failed''} \<and> ce_usage p \<in> {''observed'', ''conservative''} \<and>
     pred_option validDecisionIdentifier (ce_reason p)"

definition validateBlockedPayload :: "blocked_payload \<Rightarrow> bool" where
  "validateBlockedPayload p \<longleftrightarrow>
     pred_option validDecisionIdentifier (bl_task p) \<and> validDecisionIdentifier (bl_reason p) \<and>
     validDecisionDigest (bl_support p) \<and> length (bl_missing p) \<le> 128 \<and>
     list_all (\<lambda>m. validDecisionIdentifier (mr_code m) \<and> pred_option validDecisionIdentifier (mr_criterion m)) (bl_missing p)"

definition validatePrimaryBinding :: "primary_binding \<Rightarrow> bool" where
  "validatePrimaryBinding b \<longleftrightarrow>
     pb_schema b = 1 \<and> logical_id (pb_run b) \<and> validDecisionIdentifier (pb_branch b) \<and> validDecisionIdentifier (pb_task b) \<and>
     pb_generation b \<noteq> 0 \<and> validDecisionIdentifier (pb_decision b) \<and> validDecisionDigest (pb_requirement b) \<and>
     validDecisionDigest (pb_support b) \<and> validDecisionDigest (pb_sealed b) \<and> validateDecisionArtifactRef (pb_admission b) \<and>
     validateDecisionArtifactRef (pb_evidence b) \<and> validateDecisionArtifactRef (pb_plan b) \<and>
     validateDecisionArtifactRef (pb_record b)"

definition validateInvalidatedPayload :: "invalidated_payload \<Rightarrow> bool" where
  "validateInvalidatedPayload p \<longleftrightarrow>
     validDecisionIdentifier (iv_task p) \<and> validDecisionIdentifier (iv_decision p) \<and> iv_next p = succ32 (dg_generation p) \<and>
     validDecisionIdentifier (iv_reason p) \<and> iv_triggers p \<noteq> [] \<and> pred_option validDecisionIdentifier (iv_prior p) \<and>
     list_all validDecisionIdentifier (iv_triggers p)"

definition validateDecisionCorrectnessEvent :: "decision_event \<Rightarrow> bool" where
  "validateDecisionCorrectnessEvent e \<longleftrightarrow> db_strict (rev_payload e) \<and>
     (case decoded e of
        RunOpened p \<Rightarrow> validateDecisionCommon e p \<and> validateDecisionOpenedPayload p
      | RunAttached p \<Rightarrow> validateDecisionRunAttachedEvent e p
      | PrimaryPrepared p \<Rightarrow> validateDecisionGenerationCommon e p \<and> validatePreparedPayload p
      | PrimaryAdmitted p \<Rightarrow> validatePrimaryDecisionAdmittedEvent e p
      | RoleCallStarted p \<Rightarrow> validateDecisionRoleCallStartedEvent e p
      | RoleCallUnconfirmed p \<Rightarrow> validateDecisionRoleCallUnconfirmedEvent e p
      | RoleCallSettled p \<Rightarrow> validateDecisionGenerationCommon e p \<and> validateRoleCallSettlement p
      | PrimaryBlocked p \<Rightarrow> validateDecisionGenerationCommon e p \<and> validateBlockedPayload p
      | PrimaryBound p \<Rightarrow> validateDecisionGenerationCommon e p \<and> validatePrimaryBinding (bd_binding p) \<and>
          validateDecisionArtifactRef (bd_receipt p)
      | PrimaryInvalidated p \<Rightarrow> validateDecisionGenerationCommon e p \<and> validateInvalidatedPayload p
      | OtherPayload \<Rightarrow> False)"

text \<open>
  \<open>ValidateEventPayload\<close> for a correctness event: a legacy event (schema 1) is not validated further, and
  \<open>observed\<close> validates the payloads of the observation types.
\<close>

definition ValidateEventPayload :: "(decision_event \<Rightarrow> bool) \<Rightarrow> decision_event \<Rightarrow> bool" where
  "ValidateEventPayload observed e \<longleftrightarrow>
     0 < rev_schema e \<and> TrimSpace (rev_type e) \<noteq> [] \<and>
     (eventStoreSchemaVersion \<le> rev_schema e \<longrightarrow>
        list_all (\<lambda>s. TrimSpace s \<noteq> []) [rev_id e, rev_run e, rev_session e, rev_actor e, rev_timestamp e]) \<and>
     db_valid (rev_payload e) \<and>
     (rev_schema e = 1 \<or>
        (if rev_type e \<in> set observation_types then observed e else validateDecisionCorrectnessEvent e))"

text \<open>What two deliveries of an event must agree on: the payload without its owner.\<close>

definition decisionBusinessPayload :: "decision_event \<Rightarrow> string option" where
  "decisionBusinessPayload e =
     (case db_object (rev_payload e) of None \<Rightarrow> None
      | Some fs \<Rightarrow> CanonicalDecisionJSON (JObject (filter (\<lambda>f. fst f \<notin> {''execution_run_id'', ''owner_epoch''}) fs)))"

definition decisionIdempotencyEquivalent :: "decision_event \<Rightarrow> decision_event \<Rightarrow> bool option" where
  "decisionIdempotencyEquivalent existing incoming =
     (if rev_type existing \<noteq> rev_type incoming then Some False
      else case decisionBusinessPayload existing of None \<Rightarrow> None
           | Some l \<Rightarrow> map_option (\<lambda>r. l = r) (decisionBusinessPayload incoming))"

end
