(* ===== verification/Decision_Reducer.thy ===== *)
theory Decision_Reducer
  imports Decision_Contract
begin

text \<open>
  \<open>internal/team/decision_reducer.go\<close>: the reducer of a logical decision run. It is the fold of the
  correctness events of one run on one branch; the journal is the only source. \<open>clone\<close> and \<open>Snapshot\<close>
  copy, so a state here is a value, and a refused event leaves it as it was.
\<close>

section \<open>State\<close>

record decision_call =
  dcl_started :: started_payload
  dcl_unconfirmed :: bool
  dcl_settlement :: "settled_payload option"

record reducer =
  rd_run :: "logical_run option"
  rd_seen :: "(string \<times> string) list"
  rd_keys :: "(string \<times> string) list"
  rd_prepared :: "prepared_payload option"
  rd_admitted :: "admitted_payload option"
  rd_calls :: "(string \<times> decision_call) list"
  rd_stable :: "decision_phase option"
  rd_bound :: string

definition NewLogicalDecisionReducer :: reducer where
  "NewLogicalDecisionReducer = \<lparr>rd_run = None, rd_seen = [], rd_keys = [], rd_prepared = None, rd_admitted = None,
     rd_calls = [], rd_stable = None, rd_bound = []\<rparr>"

datatype decision_error =
    UnknownDecisionEvent | InvalidDecisionPayload | UnverifiedEvent | HashMismatch | NoBusinessPayload
  | MissingKey | IdempotencyConflict | AlreadyOpened | WrongKey | NotOpened | ForeignRun | OwnerFenced
  | WrongGeneration | CannotAttach | BrokenLineage | CursorMismatch | IllegalPhase | WrongIdentity
  | DuplicateCall | NoMatchingCall | TokenOverflow | BindingMismatch | NoPreparation | UnsupportedEvent
  | UndecodableEvent | RunNotFound

section \<open>Idempotency keys\<close>

definition decisionOpenedKey :: "string \<Rightarrow> string" where
  "decisionOpenedKey run = ''udr:v1:'' @ run @ '':opened''"

definition decisionAttachedKey :: "string \<Rightarrow> string \<Rightarrow> string" where
  "decisionAttachedKey run execution = ''udr:v1:'' @ run @ '':attach:'' @ execution"

definition generation_key :: "string \<Rightarrow> nat \<Rightarrow> string \<Rightarrow> string" where
  "generation_key run g suffix = ''udr:v1:'' @ run @ '':g:'' @ dec g @ '':'' @ suffix"

definition decisionPreparedKey :: "string \<Rightarrow> nat \<Rightarrow> string \<Rightarrow> string" where
  "decisionPreparedKey run g d = generation_key run g (''prepared:'' @ d)"

definition decisionAdmittedKey :: "string \<Rightarrow> nat \<Rightarrow> string" where
  "decisionAdmittedKey run g = generation_key run g ''admitted''"

definition decisionCallKey :: "string \<Rightarrow> nat \<Rightarrow> string \<Rightarrow> nat \<Rightarrow> nat \<Rightarrow> nat \<Rightarrow> string \<Rightarrow> string" where
  "decisionCallKey run g role ordinal round attempt suffix =
     generation_key run g (role @ '':'' @ dec ordinal @ '':r:'' @ dec round @ '':a:'' @ dec attempt @ '':'' @ suffix)"

definition decisionBlockedKey :: "string \<Rightarrow> nat \<Rightarrow> string \<Rightarrow> string \<Rightarrow> string" where
  "decisionBlockedKey run g support reason = generation_key run g (''blocked:'' @ support @ '':'' @ reason)"

definition decisionBoundKey :: "string \<Rightarrow> nat \<Rightarrow> string" where
  "decisionBoundKey run g = generation_key run g ''bound''"

definition decisionInvalidatedKey :: "string \<Rightarrow> nat \<Rightarrow> string" where
  "decisionInvalidatedKey run g = generation_key run g ''invalidated''"

section \<open>Guards\<close>

definition validateDerivedPrimaryIDs :: "digest \<Rightarrow> string \<Rightarrow> string \<Rightarrow> nat \<Rightarrow> string \<Rightarrow> string \<Rightarrow> bool" where
  "validateDerivedPrimaryIDs sha branch run g task decision \<longleftrightarrow>
     PrimaryDecisionTaskID sha branch run = Some task \<and> PrimaryDecisionID sha branch run g = Some decision"

definition owns :: "'a decision_common_scheme \<Rightarrow> logical_run \<Rightarrow> bool" where
  "owns c u \<longleftrightarrow> dc_epoch c = lr_epoch u \<and> dc_execution c = last (lr_executions u)"

definition requireRunAndBranch :: "'a decision_common_scheme \<Rightarrow> reducer \<Rightarrow> decision_error + logical_run" where
  "requireRunAndBranch c r =
     (case rd_run r of None \<Rightarrow> Inl NotOpened
      | Some u \<Rightarrow>
          if dc_run c \<noteq> lr_run u \<or> dc_branch c \<noteq> lr_branch u then Inl ForeignRun
          else if \<not> owns c u then Inl OwnerFenced else Inr u)"

definition requireGenerationOwner :: "'a generation_common_scheme \<Rightarrow> reducer \<Rightarrow> decision_error + logical_run" where
  "requireGenerationOwner c r =
     bindR (requireRunAndBranch c r) (\<lambda>u.
       if dg_generation c \<noteq> lr_generation u \<and> (lr_generation u \<noteq> 0 \<or> dg_generation c \<noteq> 1) then Inl WrongGeneration
       else Inr u)"

section \<open>One event\<close>

definition applyOpened :: "decision_event \<Rightarrow> opened_payload \<Rightarrow> reducer \<Rightarrow> decision_error + reducer" where
  "applyOpened e p r =
     (if rd_run r \<noteq> None then Inl AlreadyOpened
      else if rev_key e \<noteq> decisionOpenedKey (dc_run p) then Inl WrongKey
      else Inr (r\<lparr>rd_run := Some \<lparr>lr_run = dc_run p, lr_branch = dc_branch p, lr_team = op_team p,
             lr_team_digest = op_team_digest p, lr_requirement_ref = op_requirement_ref p, lr_requirement = op_requirement p,
             lr_profile = op_profile p, lr_executions = [dc_execution p], lr_epoch = 1, lr_phase = PhSupporting,
             lr_generation = 0, lr_primary = None, lr_last_id = [], lr_last_hash = [],
             lr_usage = \<lparr>du_tokens = 0, du_reserved = 0, du_duration = 0, du_generations = 0, du_settlements = None\<rparr>\<rparr>,
           rd_stable := Some PhSupporting\<rparr>))"

definition applyAttached :: "decision_event \<Rightarrow> attached_payload \<Rightarrow> reducer \<Rightarrow> decision_error + reducer" where
  "applyAttached e p r =
     (case rd_run r of None \<Rightarrow> Inl NotOpened
      | Some u \<Rightarrow>
          if dc_run p \<noteq> lr_run u \<or> dc_branch p \<noteq> lr_branch u then Inl ForeignRun
          else if lr_phase u = PhClosed \<or> lr_phase u = PhRecoveryRequired then Inl CannotAttach
          else if at_previous p \<noteq> last (lr_executions u) \<or> dc_epoch p \<noteq> succ64 (lr_epoch u) \<or>
                  rev_key e \<noteq> decisionAttachedKey (dc_run p) (dc_execution p) then Inl BrokenLineage
          else if at_resume p \<noteq> lr_last_id u then Inl CursorMismatch
          else Inr (r\<lparr>rd_run := Some (u\<lparr>lr_executions := lr_executions u @ [dc_execution p], lr_epoch := dc_epoch p,
                 lr_phase := (if lr_phase u = PhSuspended then the (rd_stable r) else lr_phase u)\<rparr>)\<rparr>))"

definition applyPrepared :: "digest \<Rightarrow> decision_event \<Rightarrow> prepared_payload \<Rightarrow> reducer \<Rightarrow> decision_error + reducer" where
  "applyPrepared sha e p r =
     bindR (requireGenerationOwner p r) (\<lambda>u.
       if lr_phase u \<noteq> PhSupporting then Inl IllegalPhase
       else let want = (if lr_generation u = 0 then 1 else lr_generation u) in
       if dg_generation p \<noteq> want \<or> rev_key e \<noteq> decisionPreparedKey (dc_run p) (dg_generation p) (pp_digest p) then Inl WrongKey
       else if \<not> validateDerivedPrimaryIDs sha (dc_branch p) (dc_run p) (dg_generation p) (pp_task p) (pp_decision p)
       then Inl WrongIdentity
       else Inr (r\<lparr>rd_run := Some (u\<lparr>lr_generation := dg_generation p, lr_phase := PhPrepared,
              lr_usage := (lr_usage u)\<lparr>du_generations := succ32 (du_generations (lr_usage u))\<rparr>\<rparr>),
            rd_stable := Some PhPrepared, rd_prepared := Some p, rd_admitted := None, rd_calls := []\<rparr>))"

definition applyAdmitted :: "decision_event \<Rightarrow> admitted_payload \<Rightarrow> reducer \<Rightarrow> decision_error + reducer" where
  "applyAdmitted e p r =
     bindR (requireGenerationOwner p r) (\<lambda>u.
       case rd_prepared r of None \<Rightarrow> Inl IllegalPhase
       | Some q \<Rightarrow>
           if lr_phase u \<noteq> PhPrepared then Inl IllegalPhase
           else if ad_task p \<noteq> pp_task q \<or> ad_decision p \<noteq> pp_decision q \<or> ad_digest p \<noteq> pp_digest q \<or>
                   rev_key e \<noteq> decisionAdmittedKey (dc_run p) (dg_generation p) then Inl WrongIdentity
           else Inr (r\<lparr>rd_run := Some (u\<lparr>lr_phase := PhAdmitted\<rparr>), rd_stable := Some PhAdmitted, rd_admitted := Some p\<rparr>))"

definition applyCallStarted :: "decision_event \<Rightarrow> started_payload \<Rightarrow> reducer \<Rightarrow> decision_error + reducer" where
  "applyCallStarted e p r =
     bindR (requireGenerationOwner p r) (\<lambda>u.
       case rd_admitted r of None \<Rightarrow> Inl IllegalPhase
       | Some a \<Rightarrow>
           if lr_phase u \<noteq> PhAdmitted \<or> cs_decision p \<noteq> ad_decision a then Inl IllegalPhase
           else if rev_key e \<noteq> decisionCallKey (dc_run p) (dg_generation p) (cs_role p) (cs_ordinal p) (cs_round p)
                     (cs_attempt p) ''started'' then Inl WrongKey
           else if map_of (rd_calls r) (cs_invocation p) \<noteq> None then Inl DuplicateCall
           else Inr (r\<lparr>rd_calls := AList.update (cs_invocation p)
                  \<lparr>dcl_started = p, dcl_unconfirmed = False, dcl_settlement = None\<rparr> (rd_calls r)\<rparr>))"

definition applyCallUnconfirmed :: "decision_event \<Rightarrow> unconfirmed_payload \<Rightarrow> reducer \<Rightarrow> decision_error + reducer" where
  "applyCallUnconfirmed e p r =
     bindR (requireGenerationOwner p r) (\<lambda>u.
       case map_of (rd_calls r) (cu_invocation p) of None \<Rightarrow> Inl NoMatchingCall
       | Some c \<Rightarrow>
           if lr_phase u \<noteq> PhAdmitted \<or> dcl_settlement c \<noteq> None \<or> cs_reservation (dcl_started c) \<noteq> cu_reservation p
           then Inl NoMatchingCall
           else if rev_key e \<noteq> decisionCallKey (dc_run p) (dg_generation p) (cs_role (dcl_started c))
                     (cs_ordinal (dcl_started c)) (cs_round (dcl_started c)) (cs_attempt (dcl_started c)) ''unconfirmed''
           then Inl WrongKey
           else Inr (r\<lparr>rd_calls := AList.update (cu_invocation p) (c\<lparr>dcl_unconfirmed := True\<rparr>) (rd_calls r)\<rparr>))"

definition applyCallSettled :: "decision_event \<Rightarrow> settled_payload \<Rightarrow> reducer \<Rightarrow> decision_error + reducer" where
  "applyCallSettled e p r =
     bindR (requireGenerationOwner p r) (\<lambda>u.
       case map_of (rd_calls r) (ce_invocation p) of None \<Rightarrow> Inl NoMatchingCall
       | Some c \<Rightarrow>
           if lr_phase u \<noteq> PhAdmitted \<or> dcl_settlement c \<noteq> None then Inl NoMatchingCall
           else if rev_key e \<noteq> decisionCallKey (dc_run p) (dg_generation p) (cs_role (dcl_started c))
                     (cs_ordinal (dcl_started c)) (cs_round (dcl_started c)) (cs_attempt (dcl_started c)) ''settled''
           then Inl WrongKey
           else if MaxUint64 - du_tokens (lr_usage u) < ce_tokens p then Inl TokenOverflow
           else Inr (r\<lparr>rd_calls := AList.update (ce_invocation p) (c\<lparr>dcl_settlement := Some p\<rparr>) (rd_calls r),
                  rd_run := Some (u\<lparr>lr_usage := (lr_usage u)\<lparr>du_tokens := du_tokens (lr_usage u) + ce_tokens p\<rparr>\<rparr>)\<rparr>))"

definition applyBlocked :: "decision_event \<Rightarrow> blocked_payload \<Rightarrow> reducer \<Rightarrow> decision_error + reducer" where
  "applyBlocked e p r =
     bindR (requireGenerationOwner p r) (\<lambda>u.
       if lr_phase u \<notin> {PhSupporting, PhPrepared, PhAdmitted} then Inl IllegalPhase
       else if rev_key e \<noteq> decisionBlockedKey (dc_run p) (dg_generation p) (bl_support p) (bl_reason p) then Inl WrongKey
       else let ph = (case rd_admitted r of
                        Some a \<Rightarrow> if dg_generation a = dg_generation p then PhAdmitted else PhSupporting
                      | None \<Rightarrow> PhSupporting) in
       Inr (r\<lparr>rd_run := Some (u\<lparr>lr_phase := ph\<rparr>), rd_stable := Some ph\<rparr>))"

definition binding_matches :: "primary_binding \<Rightarrow> logical_run \<Rightarrow> prepared_payload \<Rightarrow> admitted_payload \<Rightarrow> bool" where
  "binding_matches b u q a \<longleftrightarrow>
     pb_run b = lr_run u \<and> pb_branch b = lr_branch u \<and> pb_generation b = lr_generation u \<and> pb_task b = ad_task a \<and>
     pb_decision b = ad_decision a \<and> pb_requirement b = lr_requirement u \<and> pb_support b = pp_support q \<and>
     pb_admission b = ad_admission a \<and> pb_evidence b = pp_evidence q \<and> pb_plan b = pp_plan q"

text \<open>An admitted generation without a preparation would be a nil dereference.\<close>

definition applyBound :: "decision_event \<Rightarrow> bound_payload \<Rightarrow> reducer \<Rightarrow> decision_error + reducer" where
  "applyBound e p r =
     bindR (requireGenerationOwner p r) (\<lambda>u.
       case rd_admitted r of None \<Rightarrow> Inl IllegalPhase
       | Some a \<Rightarrow>
           if lr_phase u \<noteq> PhAdmitted \<or> rev_key e \<noteq> decisionBoundKey (dc_run p) (dg_generation p) then Inl IllegalPhase
           else case rd_prepared r of None \<Rightarrow> Inl NoPreparation
           | Some q \<Rightarrow>
               if \<not> binding_matches (bd_binding p) u q a then Inl BindingMismatch
               else Inr (r\<lparr>rd_run := Some (u\<lparr>lr_primary := Some (bd_binding p), lr_phase := PhBound\<rparr>),
                      rd_stable := Some PhBound, rd_bound := rev_id e\<rparr>))"

definition applyInvalidated :: "decision_event \<Rightarrow> invalidated_payload \<Rightarrow> reducer \<Rightarrow> decision_error + reducer" where
  "applyInvalidated e p r =
     bindR (requireGenerationOwner p r) (\<lambda>u.
       if lr_phase u \<notin> {PhPrepared, PhAdmitted, PhBound} then Inl IllegalPhase
       else if rev_key e \<noteq> decisionInvalidatedKey (dc_run p) (dg_generation p) \<or> iv_next p \<noteq> succ32 (lr_generation u)
       then Inl WrongKey
       else case rd_prepared r of None \<Rightarrow> Inl WrongIdentity
       | Some q \<Rightarrow>
           if iv_task p \<noteq> pp_task q \<or> iv_decision p \<noteq> pp_decision q then Inl WrongIdentity
           else if (if lr_primary u \<noteq> None then iv_prior p \<noteq> Some (rd_bound r) else iv_prior p \<noteq> None)
           then Inl BindingMismatch
           else Inr (r\<lparr>rd_run := Some (u\<lparr>lr_primary := None, lr_generation := iv_next p, lr_phase := PhSupporting\<rparr>),
                  rd_stable := Some PhSupporting, rd_prepared := None, rd_admitted := None, rd_calls := [], rd_bound := []\<rparr>))"

definition applyNew :: "digest \<Rightarrow> decision_event \<Rightarrow> reducer \<Rightarrow> decision_error + reducer" where
  "applyNew sha e r =
     (case decoded e of
        RunOpened p \<Rightarrow> applyOpened e p r
      | RunAttached p \<Rightarrow> applyAttached e p r
      | PrimaryPrepared p \<Rightarrow> applyPrepared sha e p r
      | PrimaryAdmitted p \<Rightarrow> applyAdmitted e p r
      | RoleCallStarted p \<Rightarrow> applyCallStarted e p r
      | RoleCallUnconfirmed p \<Rightarrow> applyCallUnconfirmed e p r
      | RoleCallSettled p \<Rightarrow> applyCallSettled e p r
      | PrimaryBlocked p \<Rightarrow> applyBlocked e p r
      | PrimaryBound p \<Rightarrow> applyBound e p r
      | PrimaryInvalidated p \<Rightarrow> applyInvalidated e p r
      | OtherPayload \<Rightarrow> Inl UnsupportedEvent)"

section \<open>Delivery\<close>

definition record_event :: "decision_event \<Rightarrow> string \<Rightarrow> reducer \<Rightarrow> reducer" where
  "record_event e business r =
     r\<lparr>rd_seen := AList.update (rev_id e) (rev_hash e) (rd_seen r),
       rd_keys := AList.update (rev_key e) business (rd_keys r),
       rd_run := map_option (\<lambda>u. u\<lparr>lr_last_id := rev_id e, lr_last_hash := rev_hash e\<rparr>) (rd_run r)\<rparr>"

definition has_prefix :: "string \<Rightarrow> string \<Rightarrow> bool" where
  "has_prefix p s \<longleftrightarrow> take (length p) s = p"

text \<open>\<open>Apply\<close>: the error it returns, if any, and the reducer it leaves.\<close>

definition Apply :: "(decision_event \<Rightarrow> bool) \<Rightarrow> digest \<Rightarrow> decision_event \<Rightarrow> reducer \<Rightarrow> decision_error option \<times> reducer" where
  "Apply observed sha e r =
     (if \<not> isDecisionCorrectnessEvent (rev_type e) then
        (if has_prefix ''decision_'' (rev_type e) \<or> has_prefix ''primary_decision_'' (rev_type e)
         then (Some UnknownDecisionEvent, r\<lparr>rd_run := map_option (\<lambda>u. u\<lparr>lr_phase := PhRecoveryRequired\<rparr>) (rd_run r)\<rparr>)
         else (None, r))
      else if \<not> ValidateEventPayload observed e then (Some InvalidDecisionPayload, r)
      else if rev_id e = [] \<or> rev_hash e = [] then (Some UnverifiedEvent, r)
      else case map_of (rd_seen r) (rev_id e) of
        Some hash \<Rightarrow> (if hash \<noteq> rev_hash e then Some HashMismatch else None, r)
      | None \<Rightarrow>
          case decisionBusinessPayload e of None \<Rightarrow> (Some NoBusinessPayload, r)
          | Some business \<Rightarrow>
              if rev_key e = [] then (Some MissingKey, r)
              else case map_of (rd_keys r) (rev_key e) of
                Some existing \<Rightarrow> (if existing \<noteq> business then Some IdempotencyConflict else None, r)
              | None \<Rightarrow>
                  case applyNew sha e r of Inl err \<Rightarrow> (Some err, r)
                  | Inr r' \<Rightarrow> (None, record_event e business r'))"

text \<open>The \<open>logical_run_id\<close> an event names: absent or null is the empty string, any other value an error.\<close>

definition named_run :: "decision_event \<Rightarrow> string option" where
  "named_run e =
     (case db_object (rev_payload e) of None \<Rightarrow> None
      | Some fs \<Rightarrow>
          (case map_of fs ''logical_run_id'' of None \<Rightarrow> Some [] | Some JNull \<Rightarrow> Some [] | Some (JString s) \<Rightarrow> Some s
           | Some _ \<Rightarrow> None))"

fun reduce_events ::
  "(decision_event \<Rightarrow> bool) \<Rightarrow> digest \<Rightarrow> string \<Rightarrow> string \<Rightarrow> decision_event list \<Rightarrow> reducer \<Rightarrow> decision_error option \<times> reducer" where
  "reduce_events observed sha run branch [] r = (None, r)"
| "reduce_events observed sha run branch (e # es) r =
     (if rev_branch e \<noteq> branch \<or> \<not> isDecisionCorrectnessEvent (rev_type e) then reduce_events observed sha run branch es r
      else case named_run e of None \<Rightarrow> (Some UndecodableEvent, r)
      | Some s \<Rightarrow>
          if s \<noteq> run then reduce_events observed sha run branch es r
          else case Apply observed sha e r of
            (Some err, r') \<Rightarrow> (Some err, r')
          | (None, r') \<Rightarrow> reduce_events observed sha run branch es r')"

definition ReplayLogicalDecisionRun ::
  "(decision_event \<Rightarrow> bool) \<Rightarrow> digest \<Rightarrow> decision_event list \<Rightarrow> string \<Rightarrow> string \<Rightarrow> logical_run option \<times> decision_error option" where
  "ReplayLogicalDecisionRun observed sha es run branch =
     (case reduce_events observed sha run branch es NewLogicalDecisionReducer of
        (Some err, r) \<Rightarrow> (if err = UndecodableEvent then None else rd_run r, Some err)
      | (None, r) \<Rightarrow> (rd_run r, if rd_run r = None then Some RunNotFound else None))"

end
