(* ===== verification/Decision_Safety.thy ===== *)
theory Decision_Safety
  imports Decision_Reducer "HOL-Library.Sublist"
begin

text \<open>
  What the reducer of a logical decision run guarantees, whatever events the journal holds: the shape of the
  projection, the record of what was applied, one owner at a time, and that a second delivery changes nothing.
\<close>

section \<open>Steps\<close>

lemma requireGenerationOwner_Inr:
  "requireGenerationOwner c r = Inr u \<longleftrightarrow>
     rd_run r = Some u \<and> dc_run c = lr_run u \<and> dc_branch c = lr_branch u \<and> owns c u \<and>
     (dg_generation c = lr_generation u \<or> lr_generation u = 0 \<and> dg_generation c = 1)"
  by (auto simp: requireGenerationOwner_def requireRunAndBranch_def bindR_eq_Inr split: option.splits if_splits)

text \<open>What each handler found when it took an event, and the state it made.\<close>

lemma opened_elim:
  assumes "applyOpened e p r = Inr r'"
  obtains u where "rd_run r = None" "r' = r\<lparr>rd_run := Some u, rd_stable := Some PhSupporting\<rparr>"
    "lr_run u = dc_run p" "lr_branch u = dc_branch p" "lr_executions u = [dc_execution p]" "lr_epoch u = 1" "lr_phase u = PhSupporting"
    "lr_generation u = 0" "lr_primary u = None" "du_tokens (lr_usage u) = 0" "du_generations (lr_usage u) = 0"
proof -
  from assms have none: "rd_run r = None" by (auto simp: applyOpened_def split: if_splits)
  with assms obtain u where "r' = r\<lparr>rd_run := Some u, rd_stable := Some PhSupporting\<rparr>"
    "u = \<lparr>lr_run = dc_run p, lr_branch = dc_branch p, lr_team = op_team p,
             lr_team_digest = op_team_digest p, lr_requirement_ref = op_requirement_ref p, lr_requirement = op_requirement p,
             lr_profile = op_profile p, lr_executions = [dc_execution p], lr_epoch = 1, lr_phase = PhSupporting,
             lr_generation = 0, lr_primary = None, lr_last_id = [], lr_last_hash = [],
             lr_usage = \<lparr>du_tokens = 0, du_reserved = 0, du_duration = 0, du_generations = 0, du_settlements = None\<rparr>\<rparr>"
    by (auto simp: applyOpened_def split: if_splits)
  with none show thesis by (intro that [of u]) simp_all
qed

lemma attached_elim:
  assumes "applyAttached e p r = Inr r'"
  obtains u where "rd_run r = Some u" "dc_epoch p = succ64 (lr_epoch u)" "dc_run p = lr_run u"
    "r' = r\<lparr>rd_run := Some (u\<lparr>lr_executions := lr_executions u @ [dc_execution p], lr_epoch := dc_epoch p,
       lr_phase := (if lr_phase u = PhSuspended then the (rd_stable r) else lr_phase u)\<rparr>)\<rparr>"
  using assms by (auto simp: applyAttached_def split: option.splits if_splits)

lemma prepared_elim:
  assumes "applyPrepared sha e p r = Inr r'"
  obtains u where "rd_run r = Some u" "dc_run p = lr_run u" "dc_branch p = lr_branch u" "owns p u"
    "dg_generation p = (if lr_generation u = 0 then 1 else lr_generation u)"
    "validateDerivedPrimaryIDs sha (dc_branch p) (dc_run p) (dg_generation p) (pp_task p) (pp_decision p)" "lr_phase u = PhSupporting"
    "r' = r\<lparr>rd_run := Some (u\<lparr>lr_generation := dg_generation p, lr_phase := PhPrepared,
              lr_usage := (lr_usage u)\<lparr>du_generations := succ32 (du_generations (lr_usage u))\<rparr>\<rparr>),
            rd_stable := Some PhPrepared, rd_prepared := Some p, rd_admitted := None, rd_calls := []\<rparr>"
  using assms by (auto simp: applyPrepared_def bindR_eq_Inr requireGenerationOwner_Inr Let_def split: if_splits)

lemma admitted_elim:
  assumes "applyAdmitted e p r = Inr r'"
  obtains u q where "rd_run r = Some u" "rd_prepared r = Some q" "lr_phase u = PhPrepared" "owns p u"
    "dg_generation p = lr_generation u \<or> lr_generation u = 0"
    "ad_task p = pp_task q" "ad_decision p = pp_decision q" "ad_digest p = pp_digest q"
    "r' = r\<lparr>rd_run := Some (u\<lparr>lr_phase := PhAdmitted\<rparr>), rd_stable := Some PhAdmitted, rd_admitted := Some p\<rparr>"
  using assms by (auto simp: applyAdmitted_def bindR_eq_Inr requireGenerationOwner_Inr split: if_splits option.splits)

lemma started_elim:
  assumes "applyCallStarted e p r = Inr r'"
  obtains u a where "rd_run r = Some u" "rd_admitted r = Some a" "lr_phase u = PhAdmitted" "owns p u" "cs_decision p = ad_decision a"
    "dg_generation p = lr_generation u \<or> lr_generation u = 0" "map_of (rd_calls r) (cs_invocation p) = None"
    "r' = r\<lparr>rd_calls := AList.update (cs_invocation p)
                  \<lparr>dcl_started = p, dcl_unconfirmed = False, dcl_settlement = None\<rparr> (rd_calls r)\<rparr>"
  using assms by (auto simp: applyCallStarted_def bindR_eq_Inr requireGenerationOwner_Inr split: if_splits option.splits)

lemma unconfirmed_elim:
  assumes "applyCallUnconfirmed e p r = Inr r'"
  obtains u c where "rd_run r = Some u" "lr_phase u = PhAdmitted" "owns p u" "map_of (rd_calls r) (cu_invocation p) = Some c"
    "dcl_settlement c = None"
    "r' = r\<lparr>rd_calls := AList.update (cu_invocation p) (c\<lparr>dcl_unconfirmed := True\<rparr>) (rd_calls r)\<rparr>"
  using assms by (auto simp: applyCallUnconfirmed_def bindR_eq_Inr requireGenerationOwner_Inr split: if_splits option.splits)

lemma settled_elim:
  assumes "applyCallSettled e p r = Inr r'"
  obtains u c where "rd_run r = Some u" "lr_phase u = PhAdmitted" "owns p u" "map_of (rd_calls r) (ce_invocation p) = Some c"
    "ce_tokens p \<le> MaxUint64 - du_tokens (lr_usage u)"
    "r' = r\<lparr>rd_calls := AList.update (ce_invocation p) (c\<lparr>dcl_settlement := Some p\<rparr>) (rd_calls r),
                  rd_run := Some (u\<lparr>lr_usage := (lr_usage u)\<lparr>du_tokens := du_tokens (lr_usage u) + ce_tokens p\<rparr>\<rparr>)\<rparr>"
  using assms by (auto simp: applyCallSettled_def bindR_eq_Inr requireGenerationOwner_Inr split: if_splits option.splits)

lemma blocked_elim:
  assumes "applyBlocked e p r = Inr r'"
  obtains u where "rd_run r = Some u" "lr_phase u \<in> {PhSupporting, PhPrepared, PhAdmitted}" "owns p u"
    "dg_generation p = lr_generation u \<or> lr_generation u = 0"
    "r' = (let ph = (case rd_admitted r of
                        Some a \<Rightarrow> if dg_generation a = dg_generation p then PhAdmitted else PhSupporting
                      | None \<Rightarrow> PhSupporting) in
       r\<lparr>rd_run := Some (u\<lparr>lr_phase := ph\<rparr>), rd_stable := Some ph\<rparr>)"
  using assms by (auto simp: applyBlocked_def bindR_eq_Inr requireGenerationOwner_Inr Let_def split: if_splits)

lemma bound_elim:
  assumes "applyBound e p r = Inr r'"
  obtains u a q where "rd_run r = Some u" "rd_admitted r = Some a" "lr_phase u = PhAdmitted" "rd_prepared r = Some q" "owns p u"
    "binding_matches (bd_binding p) u q a" "rev_key e = decisionBoundKey (lr_run u) (dg_generation p)"
    "dg_generation p = lr_generation u \<or> lr_generation u = 0"
    "r' = r\<lparr>rd_run := Some (u\<lparr>lr_primary := Some (bd_binding p), lr_phase := PhBound\<rparr>),
                      rd_stable := Some PhBound, rd_bound := rev_id e\<rparr>"
  using assms
  by (cases "rd_admitted r"; cases "rd_prepared r")
    (auto simp: applyBound_def bindR_eq_Inr requireGenerationOwner_Inr split: if_splits)

lemma invalidated_elim:
  assumes "applyInvalidated e p r = Inr r'"
  obtains u where "rd_run r = Some u" "owns p u" "iv_next p = succ32 (lr_generation u)" "rd_prepared r \<noteq> None"
    "r' = r\<lparr>rd_run := Some (u\<lparr>lr_primary := None, lr_generation := iv_next p, lr_phase := PhSupporting\<rparr>),
                  rd_stable := Some PhSupporting, rd_prepared := None, rd_admitted := None, rd_calls := [], rd_bound := []\<rparr>"
  using assms by (auto simp: applyInvalidated_def bindR_eq_Inr requireGenerationOwner_Inr split: if_splits option.splits)

text \<open>The events the reducer has taken, oldest first, and the state they leave.\<close>

inductive history :: "(decision_event \<Rightarrow> bool) \<Rightarrow> digest \<Rightarrow> decision_event list \<Rightarrow> reducer \<Rightarrow> bool"
  for observed sha where
  start: "history observed sha [] NewLogicalDecisionReducer"
| taking: "history observed sha log r \<Longrightarrow> ValidateEventPayload observed e \<Longrightarrow>
    map_of (rd_seen r) (rev_id e) = None \<Longrightarrow> map_of (rd_keys r) (rev_key e) = None \<Longrightarrow>
    decisionBusinessPayload e = Some b \<Longrightarrow> applyNew sha e r = Inr r' \<Longrightarrow>
    history observed sha (log @ [e]) (record_event e b r')"

fun applied ::
  "(decision_event \<Rightarrow> bool) \<Rightarrow> digest \<Rightarrow> string \<Rightarrow> string \<Rightarrow> decision_event list \<Rightarrow> reducer \<Rightarrow> decision_event list" where
  "applied observed sha run branch [] r = []"
| "applied observed sha run branch (e # es) r =
     (if rev_branch e \<noteq> branch \<or> \<not> isDecisionCorrectnessEvent (rev_type e) \<or> named_run e \<noteq> Some run
      then (if rev_branch e = branch \<and> isDecisionCorrectnessEvent (rev_type e) \<and> named_run e = None then []
            else applied observed sha run branch es r)
      else case Apply observed sha e r of
        (Some _, _) \<Rightarrow> []
      | (None, r') \<Rightarrow>
          (if map_of (rd_seen r) (rev_id e) = None \<and> map_of (rd_keys r) (rev_key e) = None then [e] else []) @
          applied observed sha run branch es r')"

lemma Apply_correctness:
  assumes "isDecisionCorrectnessEvent (rev_type e)" "Apply observed sha e r = (err, r')"
  obtains (kept) "r' = r" "err = None \<longrightarrow> map_of (rd_seen r) (rev_id e) \<noteq> None \<or> map_of (rd_keys r) (rev_key e) \<noteq> None"
    | (taken) b s where "err = None" "ValidateEventPayload observed e" "map_of (rd_seen r) (rev_id e) = None"
        "map_of (rd_keys r) (rev_key e) = None" "decisionBusinessPayload e = Some b" "applyNew sha e r = Inr s"
        "r' = record_event e b s"
  using assms by (auto simp: Apply_def split: if_splits option.splits sum.splits)

lemma reduce_history:
  assumes "history observed sha log r" "reduce_events observed sha run branch es r = (err, r')"
  shows "history observed sha (log @ applied observed sha run branch es r) r'"
  using assms
proof (induction es arbitrary: log r)
  case (Cons e es)
  show ?case
  proof (cases "rev_branch e \<noteq> branch \<or> \<not> isDecisionCorrectnessEvent (rev_type e) \<or> named_run e \<noteq> Some run")
    case True
    show ?thesis
    proof (cases "rev_branch e = branch \<and> isDecisionCorrectnessEvent (rev_type e) \<and> named_run e = None")
      case stuck: True
      with Cons.prems show ?thesis by simp
    next
      case False
      with True Cons.prems have "reduce_events observed sha run branch es r = (err, r')"
        by (auto split: if_splits option.splits)
      with Cons.IH [OF Cons.prems(1)] True False show ?thesis by auto
    qed
  next
    case False
    then have c: "isDecisionCorrectnessEvent (rev_type e)" by simp
    obtain err1 r1 where a: "Apply observed sha e r = (err1, r1)" by fastforce
    from c a show ?thesis
    proof (cases rule: Apply_correctness)
      case kept
      with Cons.IH [OF Cons.prems(1)] Cons.prems a False show ?thesis by (cases err1) auto
    next
      case (taken b s)
      have "history observed sha (log @ [e]) r1" using taken history.taking [OF Cons.prems(1)] by blast
      from Cons.IH [OF this] Cons.prems(2) a False taken show ?thesis by simp
    qed
  qed
qed simp

section \<open>The shape of the projection\<close>

definition primary_of :: "digest \<Rightarrow> logical_run \<Rightarrow> prepared_payload \<Rightarrow> bool" where
  "primary_of sha u q \<longleftrightarrow>
     dg_generation q = lr_generation u \<and> lr_generation u \<noteq> 0 \<and>
     validateDerivedPrimaryIDs sha (lr_branch u) (lr_run u) (lr_generation u) (pp_task q) (pp_decision q)"

definition admission_of :: "logical_run \<Rightarrow> prepared_payload \<Rightarrow> admitted_payload \<Rightarrow> bool" where
  "admission_of u q a \<longleftrightarrow>
     ad_task a = pp_task q \<and> ad_decision a = pp_decision q \<and> ad_digest a = pp_digest q \<and> dg_generation a = lr_generation u"

definition phase_ok :: "digest \<Rightarrow> logical_run \<Rightarrow> reducer \<Rightarrow> bool" where
  "phase_ok sha u r \<longleftrightarrow>
     (case lr_phase u of
        PhSupporting \<Rightarrow> rd_admitted r = None \<and> lr_primary u = None \<and> rd_calls r = []
      | PhPrepared \<Rightarrow> rd_admitted r = None \<and> lr_primary u = None \<and> rd_calls r = [] \<and>
          (\<exists>q. rd_prepared r = Some q \<and> primary_of sha u q)
      | PhAdmitted \<Rightarrow> lr_primary u = None \<and>
          (\<exists>q a. rd_prepared r = Some q \<and> rd_admitted r = Some a \<and> primary_of sha u q \<and> admission_of u q a)
      | PhBound \<Rightarrow>
          (\<exists>q a b. rd_prepared r = Some q \<and> rd_admitted r = Some a \<and> lr_primary u = Some b \<and> primary_of sha u q \<and>
             admission_of u q a \<and> binding_matches b u q a)
      | _ \<Rightarrow> False)"

definition owners_ok :: "logical_run \<Rightarrow> bool" where
  "owners_ok u \<longleftrightarrow> lr_executions u \<noteq> [] \<and> lr_epoch u = length (lr_executions u) mod 18446744073709551616"

definition calls_ok :: "logical_run \<Rightarrow> reducer \<Rightarrow> bool" where
  "calls_ok u r \<longleftrightarrow>
     distinct (map fst (rd_calls r)) \<and>
     (\<forall>(i, c)\<in>set (rd_calls r). cs_invocation (dcl_started c) = i \<and> dg_generation (dcl_started c) = lr_generation u \<and>
        (\<forall>a. rd_admitted r = Some a \<longrightarrow> cs_decision (dcl_started c) = ad_decision a) \<and>
        (\<forall>p. dcl_settlement c = Some p \<longrightarrow> ce_invocation p = i))"

definition coherent :: "digest \<Rightarrow> reducer \<Rightarrow> bool" where
  "coherent sha r \<longleftrightarrow>
     (case rd_run r of
        None \<Rightarrow> rd_prepared r = None \<and> rd_admitted r = None \<and> rd_calls r = []
      | Some u \<Rightarrow> rd_stable r = Some (lr_phase u) \<and> owners_ok u \<and> phase_ok sha u r \<and> calls_ok u r \<and>
          du_tokens (lr_usage u) \<le> MaxUint64)"

lemma coherent_start: "coherent sha NewLogicalDecisionReducer"
  by (simp add: coherent_def NewLogicalDecisionReducer_def)

lemma coherent_record: "coherent sha r \<Longrightarrow> coherent sha (record_event e b r)"
  by (cases "rd_run r")
    (simp_all add: coherent_def record_event_def owners_ok_def phase_ok_def calls_ok_def primary_of_def admission_of_def
      binding_matches_def cong: decision_phase.case_cong)

lemma coherent_opened: "coherent sha r \<Longrightarrow> applyOpened e p r = Inr r' \<Longrightarrow> coherent sha r'"
  by (auto simp: applyOpened_def coherent_def owners_ok_def phase_ok_def calls_ok_def split: if_splits)

text \<open>Which fields the parts of the shape read.\<close>

lemma phase_ok_frame:
  "lr_phase v = lr_phase u \<Longrightarrow> lr_primary v = lr_primary u \<Longrightarrow> lr_generation v = lr_generation u \<Longrightarrow>
   lr_branch v = lr_branch u \<Longrightarrow> lr_run v = lr_run u \<Longrightarrow> lr_requirement v = lr_requirement u \<Longrightarrow>
   rd_admitted s = rd_admitted r \<Longrightarrow> rd_prepared s = rd_prepared r \<Longrightarrow>
   lr_phase u \<in> {PhAdmitted, PhBound} \<or> rd_calls s = rd_calls r \<Longrightarrow> phase_ok sha v s = phase_ok sha u r"
  by (cases "lr_phase u") (auto simp: phase_ok_def primary_of_def admission_of_def binding_matches_def)

lemma calls_ok_frame:
  "lr_generation v = lr_generation u \<Longrightarrow> rd_admitted s = rd_admitted r \<Longrightarrow> rd_calls s = rd_calls r \<Longrightarrow>
   calls_ok v s = calls_ok u r"
  by (simp add: calls_ok_def)

lemma owners_ok_frame:
  "lr_executions v = lr_executions u \<Longrightarrow> lr_epoch v = lr_epoch u \<Longrightarrow> owners_ok v = owners_ok u"
  by (simp add: owners_ok_def)

lemma coherent_run:
  "coherent sha r \<Longrightarrow> rd_run r = Some u \<Longrightarrow>
   rd_stable r = Some (lr_phase u) \<and> owners_ok u \<and> phase_ok sha u r \<and> calls_ok u r \<and> du_tokens (lr_usage u) \<le> MaxUint64"
  by (simp add: coherent_def)

lemma coherentI:
  "rd_run r = Some u \<Longrightarrow> rd_stable r = Some (lr_phase u) \<Longrightarrow> owners_ok u \<Longrightarrow> phase_ok sha u r \<Longrightarrow> calls_ok u r \<Longrightarrow>
   du_tokens (lr_usage u) \<le> MaxUint64 \<Longrightarrow> coherent sha r"
  by (simp add: coherent_def)

lemma coherent_attached:
  assumes "coherent sha r" "applyAttached e p r = Inr r'"
  shows "coherent sha r'"
proof -
  obtain u where u: "rd_run r = Some u" "dc_epoch p = succ64 (lr_epoch u)"
    and r': "r' = r\<lparr>rd_run := Some (u\<lparr>lr_executions := lr_executions u @ [dc_execution p], lr_epoch := dc_epoch p,
                 lr_phase := (if lr_phase u = PhSuspended then the (rd_stable r) else lr_phase u)\<rparr>)\<rparr>"
    using assms(2) by (rule attached_elim)
  note c = coherent_run [OF assms(1) u(1)]
  from c have "lr_phase u \<noteq> PhSuspended" by (auto simp: phase_ok_def)
  with r' have run: "rd_run r' = Some (u\<lparr>lr_executions := lr_executions u @ [dc_execution p], lr_epoch := dc_epoch p\<rparr>)" (is "_ = Some ?v")
    by simp
  have "owners_ok ?v" using c u(2) by (simp add: owners_ok_def succ64_def mod_Suc_eq)
  moreover have "phase_ok sha ?v r' = phase_ok sha u r" by (rule phase_ok_frame) (simp_all add: r')
  moreover have "calls_ok ?v r' = calls_ok u r" by (rule calls_ok_frame) (simp_all add: r')
  ultimately show ?thesis using c run by (intro coherentI [of _ ?v]) (simp_all add: r')
qed

lemma coherent_prepared:
  assumes "coherent sha r" "applyPrepared sha e p r = Inr r'"
  shows "coherent sha r'"
proof -
  obtain u where u: "rd_run r = Some u" "dc_run p = lr_run u" "dc_branch p = lr_branch u"
      "dg_generation p = (if lr_generation u = 0 then 1 else lr_generation u)"
      "validateDerivedPrimaryIDs sha (dc_branch p) (dc_run p) (dg_generation p) (pp_task p) (pp_decision p)" "lr_phase u = PhSupporting"
    and r': "r' = r\<lparr>rd_run := Some (u\<lparr>lr_generation := dg_generation p, lr_phase := PhPrepared,
              lr_usage := (lr_usage u)\<lparr>du_generations := succ32 (du_generations (lr_usage u))\<rparr>\<rparr>),
            rd_stable := Some PhPrepared, rd_prepared := Some p, rd_admitted := None, rd_calls := []\<rparr>"
    using assms(2) by (rule prepared_elim)
  note c = coherent_run [OF assms(1) u(1)]
  from r' obtain v where v: "rd_run r' = Some v" "lr_phase v = PhPrepared" "lr_generation v = dg_generation p" "lr_primary v = lr_primary u"
      "lr_branch v = lr_branch u" "lr_run v = lr_run u" "owners_ok v = owners_ok u" "du_tokens (lr_usage v) = du_tokens (lr_usage u)"
    by (simp add: owners_ok_def)
  have "lr_primary u = None" "dg_generation p \<noteq> 0" using c u(4,6) by (simp_all add: phase_ok_def)
  then have "phase_ok sha v r'" using u(2,3,5) v by (simp add: r' phase_ok_def primary_of_def)
  moreover have "calls_ok v r'" by (simp add: r' calls_ok_def)
  ultimately show ?thesis using c v by (intro coherentI [of _ v]) (simp_all add: r')
qed

lemma coherent_admitted:
  assumes "coherent sha r" "applyAdmitted e p r = Inr r'"
  shows "coherent sha r'"
proof -
  obtain u q where u: "rd_run r = Some u" "rd_prepared r = Some q" "lr_phase u = PhPrepared"
      "dg_generation p = lr_generation u \<or> lr_generation u = 0"
      "ad_task p = pp_task q" "ad_decision p = pp_decision q" "ad_digest p = pp_digest q"
    and r': "r' = r\<lparr>rd_run := Some (u\<lparr>lr_phase := PhAdmitted\<rparr>), rd_stable := Some PhAdmitted, rd_admitted := Some p\<rparr>"
    using assms(2) by (rule admitted_elim)
  note c = coherent_run [OF assms(1) u(1)]
  from r' obtain v where v: "rd_run r' = Some v" "lr_phase v = PhAdmitted" "lr_generation v = lr_generation u" "lr_primary v = lr_primary u"
      "lr_branch v = lr_branch u" "lr_run v = lr_run u" "owners_ok v = owners_ok u" "lr_usage v = lr_usage u"
    by (simp add: owners_ok_def)
  have prep: "primary_of sha u q" "lr_primary u = None" "rd_calls r = []" using c u(2,3) by (auto simp: phase_ok_def)
  then have "dg_generation p = lr_generation u" using u(4) by (auto simp: primary_of_def)
  with prep u(2,5-7) v have "phase_ok sha v r'" by (auto simp: r' phase_ok_def primary_of_def admission_of_def)
  moreover have "calls_ok v r'" using prep by (simp add: r' calls_ok_def)
  ultimately show ?thesis using c v by (intro coherentI [of _ v]) (simp_all add: r')
qed

lemma coherent_started:
  assumes "coherent sha r" "applyCallStarted e p r = Inr r'"
  shows "coherent sha r'"
proof -
  obtain u a where u: "rd_run r = Some u" "rd_admitted r = Some a" "lr_phase u = PhAdmitted" "cs_decision p = ad_decision a"
      "dg_generation p = lr_generation u \<or> lr_generation u = 0" "map_of (rd_calls r) (cs_invocation p) = None"
    and r': "r' = r\<lparr>rd_calls := AList.update (cs_invocation p)
                  \<lparr>dcl_started = p, dcl_unconfirmed = False, dcl_settlement = None\<rparr> (rd_calls r)\<rparr>"
    using assms(2) by (rule started_elim)
  note c = coherent_run [OF assms(1) u(1)]
  have new: "cs_invocation p \<notin> fst ` set (rd_calls r)" using u(6) by (simp add: map_of_eq_None_iff)
  have gen: "lr_generation u \<noteq> 0" using c u(3) by (auto simp: phase_ok_def primary_of_def)
  have calls: "calls_ok u r'" using c u gen new by (auto simp: calls_ok_def r' update_fresh)
  have "phase_ok sha u r' = phase_ok sha u r" using u(3) by (intro phase_ok_frame) (simp_all add: r')
  with calls c u(1) show ?thesis by (intro coherentI [of _ u]) (simp_all add: r')
qed

lemma calls_ok_update:
  assumes "calls_ok u r" "map_of (rd_calls r) i = Some c" "dcl_started d = dcl_started c"
    and "\<forall>p. dcl_settlement d = Some p \<longrightarrow> ce_invocation p = i"
    and "rd_calls s = AList.update i d (rd_calls r)" "rd_admitted s = rd_admitted r" "lr_generation v = lr_generation u"
  shows "calls_ok v s"
proof -
  have c: "(i, c) \<in> set (rd_calls r)" using assms(2) by (rule map_of_SomeD)
  have "\<forall>(j, k)\<in>set (AList.update i d (rd_calls r)). (j, k) = (i, d) \<or> (j, k) \<in> set (rd_calls r)"
    using set_update_subset [of i d "rd_calls r"] by auto
  moreover have "distinct (map fst (AList.update i d (rd_calls r)))" using assms(1) by (simp add: calls_ok_def distinct_update)
  ultimately show ?thesis
    using assms(1,3,4) c unfolding calls_ok_def assms(5-7) by fastforce
qed

lemma coherent_unconfirmed:
  assumes "coherent sha r" "applyCallUnconfirmed e p r = Inr r'"
  shows "coherent sha r'"
proof -
  obtain u c where u: "rd_run r = Some u" "lr_phase u = PhAdmitted" "map_of (rd_calls r) (cu_invocation p) = Some c"
      "dcl_settlement c = None"
    and r': "r' = r\<lparr>rd_calls := AList.update (cu_invocation p) (c\<lparr>dcl_unconfirmed := True\<rparr>) (rd_calls r)\<rparr>"
    using assms(2) by (rule unconfirmed_elim)
  note co = coherent_run [OF assms(1) u(1)]
  have "calls_ok u r'" by (rule calls_ok_update [where r = r and c = c]) (use co u in \<open>simp_all add: r'\<close>)
  moreover have "phase_ok sha u r' = phase_ok sha u r" using u(2) by (intro phase_ok_frame) (simp_all add: r')
  ultimately show ?thesis using co u(1) by (intro coherentI [of _ u]) (simp_all add: r')
qed

lemma coherent_settled:
  assumes "coherent sha r" "applyCallSettled e p r = Inr r'"
  shows "coherent sha r'"
proof -
  obtain u c where u: "rd_run r = Some u" "lr_phase u = PhAdmitted" "map_of (rd_calls r) (ce_invocation p) = Some c"
      "ce_tokens p \<le> MaxUint64 - du_tokens (lr_usage u)"
    and r': "r' = r\<lparr>rd_calls := AList.update (ce_invocation p) (c\<lparr>dcl_settlement := Some p\<rparr>) (rd_calls r),
                  rd_run := Some (u\<lparr>lr_usage := (lr_usage u)\<lparr>du_tokens := du_tokens (lr_usage u) + ce_tokens p\<rparr>\<rparr>)\<rparr>"
    using assms(2) by (rule settled_elim)
  note co = coherent_run [OF assms(1) u(1)]
  from r' obtain v where v: "rd_run r' = Some v" "lr_phase v = lr_phase u" "lr_generation v = lr_generation u"
      "lr_primary v = lr_primary u" "lr_branch v = lr_branch u" "lr_run v = lr_run u" "lr_requirement v = lr_requirement u"
      "owners_ok v = owners_ok u" "du_tokens (lr_usage v) = du_tokens (lr_usage u) + ce_tokens p"
    by (simp add: owners_ok_def)
  have "du_tokens (lr_usage v) \<le> MaxUint64" using co u(4) v(9) by arith
  moreover have "calls_ok v r'" by (rule calls_ok_update [where r = r and c = c and u = u]) (use co u v in \<open>simp_all add: r'\<close>)
  moreover have "phase_ok sha v r' = phase_ok sha u r" using u(2) v by (intro phase_ok_frame) (simp_all add: r')
  ultimately show ?thesis using co u v by (intro coherentI [of _ v]) (simp_all add: r')
qed

lemma coherent_blocked:
  assumes "coherent sha r" "applyBlocked e p r = Inr r'"
  shows "coherent sha r'"
proof -
  obtain u where u: "rd_run r = Some u" "lr_phase u \<in> {PhSupporting, PhPrepared, PhAdmitted}"
      "dg_generation p = lr_generation u \<or> lr_generation u = 0"
    and r': "r' = (let ph = (case rd_admitted r of
                        Some a \<Rightarrow> if dg_generation a = dg_generation p then PhAdmitted else PhSupporting
                      | None \<Rightarrow> PhSupporting) in
       r\<lparr>rd_run := Some (u\<lparr>lr_phase := ph\<rparr>), rd_stable := Some ph\<rparr>)"
    using assms(2) by (rule blocked_elim)
  note co = coherent_run [OF assms(1) u(1)]
  let ?ph = "if lr_phase u = PhAdmitted then PhAdmitted else PhSupporting"
  have ph: "r' = r\<lparr>rd_run := Some (u\<lparr>lr_phase := ?ph\<rparr>), rd_stable := Some ?ph\<rparr>"
    using co u(2,3) by (auto simp: r' phase_ok_def primary_of_def admission_of_def Let_def)
  from ph obtain v where v: "rd_run r' = Some v" "lr_phase v = ?ph" "lr_generation v = lr_generation u"
      "lr_primary v = lr_primary u" "lr_branch v = lr_branch u" "lr_run v = lr_run u" "lr_requirement v = lr_requirement u"
      "owners_ok v = owners_ok u" "lr_usage v = lr_usage u"
    by (simp add: owners_ok_def)
  have "phase_ok sha v r'"
  proof (cases "lr_phase u = PhAdmitted")
    case True
    have "phase_ok sha v r' = phase_ok sha u r" by (rule phase_ok_frame) (use True v in \<open>simp_all add: ph\<close>)
    with co show ?thesis by simp
  next
    case False
    with co u(2) v show ?thesis by (auto simp: ph phase_ok_def)
  qed
  moreover have "calls_ok v r' = calls_ok u r" by (rule calls_ok_frame) (simp_all add: v ph)
  ultimately show ?thesis using co v by (intro coherentI [of _ v]) (simp_all add: ph)
qed

lemma coherent_bound:
  assumes "coherent sha r" "applyBound e p r = Inr r'"
  shows "coherent sha r'"
proof -
  obtain u a q where u: "rd_run r = Some u" "rd_admitted r = Some a" "lr_phase u = PhAdmitted" "rd_prepared r = Some q"
      "binding_matches (bd_binding p) u q a"
    and r': "r' = r\<lparr>rd_run := Some (u\<lparr>lr_primary := Some (bd_binding p), lr_phase := PhBound\<rparr>),
                      rd_stable := Some PhBound, rd_bound := rev_id e\<rparr>"
    using assms(2) by (rule bound_elim)
  note co = coherent_run [OF assms(1) u(1)]
  from r' obtain v where v: "rd_run r' = Some v" "lr_phase v = PhBound" "lr_generation v = lr_generation u"
      "lr_primary v = Some (bd_binding p)" "lr_branch v = lr_branch u" "lr_run v = lr_run u" "lr_requirement v = lr_requirement u"
      "owners_ok v = owners_ok u" "lr_usage v = lr_usage u"
    by (simp add: owners_ok_def)
  have "primary_of sha u q" "admission_of u q a" using co u(2-4) by (auto simp: phase_ok_def)
  then have "phase_ok sha v r'"
    using u(2,4,5) v by (simp add: r' phase_ok_def primary_of_def admission_of_def binding_matches_def)
  moreover have "calls_ok v r' = calls_ok u r" by (rule calls_ok_frame) (simp_all add: v r')
  ultimately show ?thesis using co v by (intro coherentI [of _ v]) (simp_all add: r')
qed

lemma coherent_invalidated:
  assumes "coherent sha r" "applyInvalidated e p r = Inr r'"
  shows "coherent sha r'"
proof -
  obtain u where u: "rd_run r = Some u"
    and r': "r' = r\<lparr>rd_run := Some (u\<lparr>lr_primary := None, lr_generation := iv_next p, lr_phase := PhSupporting\<rparr>),
                  rd_stable := Some PhSupporting, rd_prepared := None, rd_admitted := None, rd_calls := [], rd_bound := []\<rparr>"
    using assms(2) by (rule invalidated_elim)
  note co = coherent_run [OF assms(1) u]
  from r' obtain v where v: "rd_run r' = Some v" "lr_phase v = PhSupporting" "lr_primary v = None"
      "owners_ok v = owners_ok u" "lr_usage v = lr_usage u"
    by (simp add: owners_ok_def)
  then show ?thesis using co by (intro coherentI [of _ v]) (simp_all add: r' phase_ok_def calls_ok_def)
qed

lemma coherent_step: "coherent sha r \<Longrightarrow> applyNew sha e r = Inr r' \<Longrightarrow> coherent sha r'"
  by (auto simp: applyNew_def split: decision_payload.splits
      dest: coherent_opened coherent_attached coherent_prepared coherent_admitted coherent_started coherent_unconfirmed
        coherent_settled coherent_blocked coherent_bound coherent_invalidated)

lemma history_coherent: "history observed sha log r \<Longrightarrow> coherent sha r"
  by (induction rule: history.induct) (blast intro: coherent_start coherent_record coherent_step)+

section \<open>What the projection counts\<close>

definition run_view :: "(logical_run \<Rightarrow> 'a) \<Rightarrow> 'a \<Rightarrow> reducer \<Rightarrow> 'a" where
  "run_view f d r = (case rd_run r of None \<Rightarrow> d | Some u \<Rightarrow> f u)"

definition executions_of :: "reducer \<Rightarrow> string list" where
  "executions_of = run_view lr_executions []"

definition tokens_of :: "reducer \<Rightarrow> nat" where
  "tokens_of = run_view (\<lambda>u. du_tokens (lr_usage u)) 0"

definition preparations_of :: "reducer \<Rightarrow> nat" where
  "preparations_of = run_view (\<lambda>u. du_generations (lr_usage u)) 0"

definition generation_of :: "reducer \<Rightarrow> nat" where
  "generation_of = run_view lr_generation 0"

definition name_of :: "reducer \<Rightarrow> string" where
  "name_of = run_view lr_run []"

text \<open>The same from the events: the executions that took the run over, the tokens settled, the preparations and invalidations.\<close>

fun claimed :: "decision_payload \<Rightarrow> string list" where
  "claimed (RunOpened p) = [dc_execution p]"
| "claimed (RunAttached p) = [dc_execution p]"
| "claimed p = []"

fun settled_tokens :: "decision_payload \<Rightarrow> nat" where
  "settled_tokens (RoleCallSettled p) = ce_tokens p"
| "settled_tokens p = 0"

fun is_preparation :: "decision_payload \<Rightarrow> bool" where
  "is_preparation (PrimaryPrepared p) = True"
| "is_preparation p = False"

fun is_invalidation :: "decision_payload \<Rightarrow> bool" where
  "is_invalidation (PrimaryInvalidated p) = True"
| "is_invalidation p = False"

fun acting :: "decision_payload \<Rightarrow> (string \<times> nat) option" where
  "acting (PrimaryPrepared p) = Some (dc_execution p, dc_epoch p)"
| "acting (PrimaryAdmitted p) = Some (dc_execution p, dc_epoch p)"
| "acting (RoleCallStarted p) = Some (dc_execution p, dc_epoch p)"
| "acting (RoleCallUnconfirmed p) = Some (dc_execution p, dc_epoch p)"
| "acting (RoleCallSettled p) = Some (dc_execution p, dc_epoch p)"
| "acting (PrimaryBlocked p) = Some (dc_execution p, dc_epoch p)"
| "acting (PrimaryBound p) = Some (dc_execution p, dc_epoch p)"
| "acting (PrimaryInvalidated p) = Some (dc_execution p, dc_epoch p)"
| "acting _ = None"

lemmas view_defs = run_view_def name_of_def executions_of_def tokens_of_def preparations_of_def generation_of_def

lemma record_views [simp]:
  "executions_of (record_event e b r) = executions_of r" "tokens_of (record_event e b r) = tokens_of r"
  "preparations_of (record_event e b r) = preparations_of r" "generation_of (record_event e b r) = generation_of r"
  "name_of (record_event e b r) = name_of r"
  "rd_prepared (record_event e b r) = rd_prepared r" "rd_admitted (record_event e b r) = rd_admitted r"
  "rd_run (record_event e b r) = None \<longleftrightarrow> rd_run r = None"
  by (simp_all add: view_defs record_event_def split: option.split)

text \<open>The effect of taking one event.\<close>

definition effect :: "decision_payload \<Rightarrow> reducer \<Rightarrow> reducer \<Rightarrow> bool" where
  "effect d r r' \<longleftrightarrow>
     rd_seen r' = rd_seen r \<and> rd_keys r' = rd_keys r \<and> rd_run r' \<noteq> None \<and>
     executions_of r' = executions_of r @ claimed d \<and> tokens_of r' = tokens_of r + settled_tokens d \<and>
     preparations_of r' = (if is_preparation d then succ32 (preparations_of r) else preparations_of r) \<and>
     generation_of r' =
       (if is_preparation d \<and> generation_of r = 0 then 1
        else if is_invalidation d then succ32 (generation_of r) else generation_of r) \<and>
     (\<forall>x n. acting d = Some (x, n) \<longrightarrow> (\<exists>u. rd_run r = Some u \<and> x = last (lr_executions u) \<and> n = lr_epoch u)) \<and>
     (rd_run r \<noteq> None \<longrightarrow> name_of r' = name_of r) \<and> (is_invalidation d \<longrightarrow> rd_prepared r \<noteq> None) \<and>
     (\<forall>q. rd_prepared r' = Some q \<longrightarrow> rd_prepared r = Some q \<or> d = PrimaryPrepared q) \<and>
     (\<forall>a. rd_admitted r' = Some a \<longrightarrow> rd_admitted r = Some a \<or> d = PrimaryAdmitted a)"

lemmas effect_simps = effect_def view_defs owns_def

lemma applyNew_effect:
  assumes "applyNew sha e r = Inr r'"
  shows "effect (decoded e) r r'"
proof (cases "decoded e")
  case (RunOpened p)
  with assms have "applyOpened e p r = Inr r'" by (simp add: applyNew_def)
  then show ?thesis by (rule opened_elim) (simp add: effect_simps RunOpened)
next
  case (RunAttached p)
  with assms have "applyAttached e p r = Inr r'" by (simp add: applyNew_def)
  then show ?thesis by (rule attached_elim) (simp add: effect_simps RunAttached)
next
  case (PrimaryPrepared p)
  with assms have "applyPrepared sha e p r = Inr r'" by (simp add: applyNew_def)
  then show ?thesis by (rule prepared_elim) (simp add: effect_simps PrimaryPrepared)
next
  case (PrimaryAdmitted p)
  with assms have "applyAdmitted e p r = Inr r'" by (simp add: applyNew_def)
  then show ?thesis by (rule admitted_elim) (simp add: effect_simps PrimaryAdmitted)
next
  case (RoleCallStarted p)
  with assms have "applyCallStarted e p r = Inr r'" by (simp add: applyNew_def)
  then show ?thesis by (rule started_elim) (simp add: effect_simps RoleCallStarted)
next
  case (RoleCallUnconfirmed p)
  with assms have "applyCallUnconfirmed e p r = Inr r'" by (simp add: applyNew_def)
  then show ?thesis by (rule unconfirmed_elim) (simp add: effect_simps RoleCallUnconfirmed)
next
  case (RoleCallSettled p)
  with assms have "applyCallSettled e p r = Inr r'" by (simp add: applyNew_def)
  then show ?thesis by (rule settled_elim) (simp add: effect_simps RoleCallSettled)
next
  case (PrimaryBlocked p)
  with assms have "applyBlocked e p r = Inr r'" by (simp add: applyNew_def)
  then show ?thesis by (rule blocked_elim) (simp add: effect_simps PrimaryBlocked Let_def)
next
  case (PrimaryBound p)
  with assms have "applyBound e p r = Inr r'" by (simp add: applyNew_def)
  then show ?thesis by (rule bound_elim) (simp add: effect_simps PrimaryBound)
next
  case (PrimaryInvalidated p)
  with assms have "applyInvalidated e p r = Inr r'" by (simp add: applyNew_def)
  then show ?thesis by (rule invalidated_elim) (simp add: effect_simps PrimaryInvalidated)
next
  case OtherPayload
  with assms show ?thesis by (simp add: applyNew_def)
qed

lemma history_induct [consumes 1, case_names start taking]:
  assumes "history observed sha log r" "P [] NewLogicalDecisionReducer"
    and "\<And>log r e b r'. history observed sha log r \<Longrightarrow> P log r \<Longrightarrow> map_of (rd_seen r) (rev_id e) = None \<Longrightarrow>
      map_of (rd_keys r) (rev_key e) = None \<Longrightarrow> applyNew sha e r = Inr r' \<Longrightarrow> effect (decoded e) r r' \<Longrightarrow>
      decisionBusinessPayload e = Some b \<Longrightarrow> P (log @ [e]) (record_event e b r')"
  shows "P log r"
  using assms(1)
proof (induction rule: history.induct)
  case start
  show ?case by (rule assms(2))
next
  case (taking log r e b r')
  show ?case by (rule assms(3) [OF taking(1,7,3,4,6) applyNew_effect [OF taking(6)] taking(5)])
qed

definition preparations :: "decision_event list \<Rightarrow> nat" where
  "preparations log = length (filter (is_preparation \<circ> decoded) log)"

definition invalidations :: "decision_event list \<Rightarrow> nat" where
  "invalidations log = length (filter (is_invalidation \<circ> decoded) log)"

definition owners :: "decision_event list \<Rightarrow> string list" where
  "owners log = concat (map (claimed \<circ> decoded) log)"

lemma log_simps [simp]:
  "preparations [] = 0" "invalidations [] = 0" "owners [] = []"
  "preparations (log @ [e]) = preparations log + (if is_preparation (decoded e) then 1 else 0)"
  "invalidations (log @ [e]) = invalidations log + (if is_invalidation (decoded e) then 1 else 0)"
  "owners (log @ [e]) = owners log @ claimed (decoded e)"
  by (simp_all add: preparations_def invalidations_def owners_def)

lemma exclusive_kinds: "\<not> (is_preparation d \<and> is_invalidation d)"
  by (cases d) simp_all

lemma start_views [simp]:
  "executions_of NewLogicalDecisionReducer = []" "tokens_of NewLogicalDecisionReducer = 0"
  "preparations_of NewLogicalDecisionReducer = 0" "generation_of NewLogicalDecisionReducer = 0"
  "rd_run NewLogicalDecisionReducer = None" "rd_prepared NewLogicalDecisionReducer = None"
  "rd_admitted NewLogicalDecisionReducer = None" "rd_seen NewLogicalDecisionReducer = []" "rd_keys NewLogicalDecisionReducer = []"
  by (simp_all add: view_defs NewLogicalDecisionReducer_def)

lemma history_owners: "history observed sha log r \<Longrightarrow> executions_of r = owners log"
  by (induction rule: history_induct) (simp_all add: effect_def)

lemma history_tokens: "history observed sha log r \<Longrightarrow> tokens_of r = sum_list (map (settled_tokens \<circ> decoded) log)"
  by (induction rule: history_induct) (simp_all add: effect_def)

lemma history_preparations: "history observed sha log r \<Longrightarrow> preparations_of r = preparations log mod 4294967296"
  by (induction rule: history_induct) (simp_all add: effect_def succ32_def mod_Suc_eq)

lemma history_prepared: "history observed sha log r \<Longrightarrow> rd_prepared r = Some q \<Longrightarrow> \<exists>e\<in>set log. decoded e = PrimaryPrepared q"
  by (induction arbitrary: q rule: history_induct) (simp, auto simp: effect_def)

lemma history_admitted: "history observed sha log r \<Longrightarrow> rd_admitted r = Some a \<Longrightarrow> \<exists>e\<in>set log. decoded e = PrimaryAdmitted a"
  by (induction arbitrary: a rule: history_induct) (simp, auto simp: effect_def)

text \<open>The names a run carries are those of the event that opened it.\<close>

definition names_of :: "reducer \<Rightarrow> (string \<times> string \<times> string) option" where
  "names_of r = map_option (\<lambda>u. (lr_run u, lr_branch u, lr_requirement u)) (rd_run r)"

lemma opened_names: "applyOpened e p r = Inr r' \<Longrightarrow> names_of r' = Some (dc_run p, dc_branch p, op_requirement p)"
  by (auto simp: applyOpened_def names_of_def split: if_splits)

lemma applyNew_names:
  assumes "applyNew sha e r = Inr r'"
  shows "if rd_run r = None then \<exists>p. decoded e = RunOpened p \<and> names_of r' = Some (dc_run p, dc_branch p, op_requirement p)
    else names_of r' = names_of r"
proof (cases "decoded e")
  case (RunOpened p)
  with assms have o: "applyOpened e p r = Inr r'" by (simp add: applyNew_def)
  then have "rd_run r = None" by (rule opened_elim)
  with RunOpened opened_names [OF o] show ?thesis by simp
next
  case (RunAttached p)
  with assms have "applyAttached e p r = Inr r'" by (simp add: applyNew_def)
  then show ?thesis by (rule attached_elim) (simp add: names_of_def)
next
  case (PrimaryPrepared p)
  with assms have "applyPrepared sha e p r = Inr r'" by (simp add: applyNew_def)
  then show ?thesis by (rule prepared_elim) (simp add: names_of_def)
next
  case (PrimaryAdmitted p)
  with assms have "applyAdmitted e p r = Inr r'" by (simp add: applyNew_def)
  then show ?thesis by (rule admitted_elim) (simp add: names_of_def)
next
  case (RoleCallStarted p)
  with assms have "applyCallStarted e p r = Inr r'" by (simp add: applyNew_def)
  then show ?thesis by (rule started_elim) (simp add: names_of_def)
next
  case (RoleCallUnconfirmed p)
  with assms have "applyCallUnconfirmed e p r = Inr r'" by (simp add: applyNew_def)
  then show ?thesis by (rule unconfirmed_elim) (simp add: names_of_def)
next
  case (RoleCallSettled p)
  with assms have "applyCallSettled e p r = Inr r'" by (simp add: applyNew_def)
  then show ?thesis by (rule settled_elim) (simp add: names_of_def)
next
  case (PrimaryBlocked p)
  with assms have "applyBlocked e p r = Inr r'" by (simp add: applyNew_def)
  then show ?thesis by (rule blocked_elim) (simp add: names_of_def Let_def)
next
  case (PrimaryBound p)
  with assms have "applyBound e p r = Inr r'" by (simp add: applyNew_def)
  then show ?thesis by (rule bound_elim) (simp add: names_of_def)
next
  case (PrimaryInvalidated p)
  with assms have "applyInvalidated e p r = Inr r'" by (simp add: applyNew_def)
  then show ?thesis by (rule invalidated_elim) (simp add: names_of_def)
next
  case OtherPayload
  with assms show ?thesis by (simp add: applyNew_def)
qed

lemma history_names:
  "history observed sha log r \<Longrightarrow> rd_run r = Some u \<Longrightarrow>
   \<exists>e\<in>set log. \<exists>p. decoded e = RunOpened p \<and> lr_run u = dc_run p \<and> lr_branch u = dc_branch p \<and> lr_requirement u = op_requirement p"
proof (induction arbitrary: u rule: history_induct)
  case (taking log r e b r')
  have same: "names_of (record_event e b r') = names_of r'" by (simp add: names_of_def record_event_def option.map_comp comp_def)
  show ?case
  proof (cases "rd_run r")
    case None
    with applyNew_names [OF taking.hyps(4)] same taking.prems show ?thesis by (auto simp: names_of_def)
  next
    case (Some v)
    with applyNew_names [OF taking.hyps(4)] same taking.prems
    have "lr_run u = lr_run v" "lr_branch u = lr_branch v" "lr_requirement u = lr_requirement v" by (auto simp: names_of_def)
    with taking.IH [OF Some] show ?thesis by auto
  qed
qed (simp add: NewLogicalDecisionReducer_def)

lemma prepared_counts: "e \<in> set log \<Longrightarrow> decoded e = PrimaryPrepared q \<Longrightarrow> 0 < preparations log"
  by (auto simp: preparations_def filter_empty_conv intro: bexI [of _ e])

lemma history_generation:
  "history observed sha log r \<Longrightarrow> invalidations log < 4294967295 \<Longrightarrow>
   generation_of r = (if preparations log = 0 then 0 else invalidations log + 1) \<and>
   (preparations log = 0 \<longrightarrow> invalidations log = 0)"
proof (induction rule: history_induct)
  case (taking log r e b r')
  have "is_invalidation (decoded e) \<Longrightarrow> 0 < preparations log"
    using taking.hyps(5) history_prepared [OF taking.hyps(1)] prepared_counts by (fastforce simp: effect_def)
  moreover have "\<not> (is_preparation (decoded e) \<and> is_invalidation (decoded e))" by (rule exclusive_kinds)
  moreover have "invalidations log < 4294967295" using taking.prems by (simp split: if_splits)
  ultimately show ?case using taking.IH taking.hyps(5) taking.prems by (auto simp: effect_def succ32_def split: if_splits)
qed simp

lemma history_prefix:
  "history observed sha log r \<Longrightarrow> log = pre @ e # post \<Longrightarrow> \<exists>s s'. history observed sha pre s \<and> applyNew sha e s = Inr s'"
proof (induction arbitrary: post rule: history_induct)
  case (taking log r f b r')
  show ?case
  proof (cases post rule: rev_cases)
    case Nil
    with taking show ?thesis by auto
  next
    case (snoc post' g)
    with taking.prems have "log = pre @ e # post'" by simp
    with taking.IH show ?thesis by blast
  qed
qed simp

lemma history_keys: "history observed sha log r \<Longrightarrow> fst ` set (rd_keys r) = rev_key ` set log \<and> distinct (map rev_key log)"
proof (induction rule: history_induct)
  case (taking log r e b r')
  have "rev_key e \<notin> fst ` set (rd_keys r)" using taking.hyps(3) by (simp add: map_of_eq_None_iff)
  with taking.IH taking.hyps(5) show ?case by (auto simp: effect_def record_event_def dom_update)
qed simp

lemma history_empty: "history observed sha log r \<Longrightarrow> rd_run r = None \<Longrightarrow> log = []"
  by (induction rule: history_induct) (auto simp: effect_def)

lemma history_bound_keys:
  "history observed sha log r \<Longrightarrow> f \<in> set log \<Longrightarrow> decoded f = PrimaryBound p \<Longrightarrow>
   rev_key f = decisionBoundKey (name_of r) (dg_generation p)"
proof (induction rule: history_induct)
  case (taking log r e b r')
  show ?case
  proof (cases "f \<in> set log")
    case True
    then have "rd_run r \<noteq> None" using history_empty [OF taking.hyps(1)] by fastforce
    with taking.hyps(5) taking.IH [OF True taking.prems(2)] show ?thesis by (simp add: effect_def)
  next
    case False
    with taking.prems have e: "f = e" "decoded e = PrimaryBound p" by auto
    with taking.hyps(4) have "applyBound e p r = Inr r'" by (simp add: applyNew_def)
    then show ?thesis by (rule bound_elim) (simp add: e view_defs record_event_def)
  qed
qed simp

lemma generation_key_inj: "decisionBoundKey s g = decisionBoundKey s g' \<Longrightarrow> g = g'"
  unfolding decisionBoundKey_def generation_key_def by (simp, metis dec_val_dec)

section \<open>Guarantees\<close>

text \<open>
  C3. The projection is coherent after any journal: a bound run has one primary decision, which matches the
  preparation and the admission of the current generation and carries the identity derived from the run; a prepared or
  admitted run has its preparation and admission; role calls exist only for an admitted generation, each under its own
  invocation; and the owner epoch counts the executions.
\<close>

theorem decision_run_coherent: "coherent sha (snd (reduce_events observed sha run branch es NewLogicalDecisionReducer))"
  using history_coherent [OF reduce_history [OF history.start surjective_pairing]] .

lemma reduce_from_start:
  "reduce_events observed sha run branch es NewLogicalDecisionReducer = (err, r) \<Longrightarrow>
   history observed sha (applied observed sha run branch es NewLogicalDecisionReducer) r"
  using reduce_history [OF history.start] by simp

text \<open>
  The usage is an account of the events. The tokens of a run are the sum over the settlements taken, with no
  overflow; the executions are those that opened or attached the run, in order; the generation is one more than the
  invalidations taken; and what the run reports as generations started is the number of preparations.
\<close>

theorem usage_is_account:
  assumes "reduce_events observed sha run branch es NewLogicalDecisionReducer = (err, r)" "rd_run r = Some u"
    and "log = applied observed sha run branch es NewLogicalDecisionReducer"
  shows "du_tokens (lr_usage u) = sum_list (map (settled_tokens \<circ> decoded) log) \<and> du_tokens (lr_usage u) \<le> MaxUint64 \<and>
    lr_executions u = owners log \<and> du_generations (lr_usage u) = preparations log mod 4294967296 \<and>
    (invalidations log < 4294967295 \<longrightarrow> lr_generation u = (if preparations log = 0 then 0 else invalidations log + 1)) \<and>
    distinct (map rev_key log)"
proof -
  have h: "history observed sha log r" using reduce_from_start [OF assms(1)] assms(3) by simp
  show ?thesis
    using history_tokens [OF h] history_owners [OF h] history_preparations [OF h] history_generation [OF h] history_keys [OF h]
      coherent_run [OF history_coherent [OF h] assms(2)]
    by (simp add: view_defs assms(2))
qed

text \<open>
  C20. One owner at a time. Every event taken after the opening, other than an attachment, comes from the execution that
  attached last, under the epoch that counts the attachments; the events of an owner that was replaced are refused.
\<close>

theorem single_owner:
  assumes "applied observed sha run branch es NewLogicalDecisionReducer = pre @ e # post"
    and "acting (decoded e) = Some (x, n)"
  shows "owners pre \<noteq> [] \<and> x = last (owners pre) \<and> n = length (owners pre) mod 18446744073709551616"
proof -
  obtain err r where "reduce_events observed sha run branch es NewLogicalDecisionReducer = (err, r)" by fastforce
  from history_prefix [OF reduce_from_start [OF this] assms(1)] obtain s s' where
    s: "history observed sha pre s" "applyNew sha e s = Inr s'" by blast
  from applyNew_effect [OF s(2)] assms(2) obtain u where
    u: "rd_run s = Some u" "x = last (lr_executions u)" "n = lr_epoch u" by (auto simp: effect_def)
  from history_owners [OF s(1)] u(1) have "lr_executions u = owners pre" by (simp add: view_defs)
  with coherent_run [OF history_coherent [OF s(1)] u(1)] u show ?thesis by (simp add: owners_ok_def)
qed

text \<open>
  C12. A binding has its history. When a primary decision is bound, the run was opened and the generation prepared and admitted
  before; the binding names the run, branch and requirement digest of the opening, the task, decision, support digest,
  evidence and role plan of that preparation, and that admission; preparation and admission agree on the preparation digest; and no
  generation is bound twice.
\<close>

theorem binding_provenance:
  assumes "applied observed sha run branch es NewLogicalDecisionReducer = pre @ e # post"
    and "decoded e = PrimaryBound p"
  shows "(\<exists>o' q a. RunOpened o' \<in> decoded ` set pre \<and> PrimaryPrepared q \<in> decoded ` set pre \<and> PrimaryAdmitted a \<in> decoded ` set pre \<and>
      dg_generation q = dg_generation p \<and> dg_generation a = dg_generation p \<and> ad_digest a = pp_digest q \<and>
      pb_run (bd_binding p) = dc_run o' \<and> pb_branch (bd_binding p) = dc_branch o' \<and> pb_requirement (bd_binding p) = op_requirement o' \<and>
      pb_generation (bd_binding p) = dg_generation p \<and> pb_task (bd_binding p) = pp_task q \<and> pb_decision (bd_binding p) = pp_decision q \<and>
      pb_support (bd_binding p) = pp_support q \<and> pb_evidence (bd_binding p) = pp_evidence q \<and>
      pb_plan (bd_binding p) = pp_plan q \<and> pb_admission (bd_binding p) = ad_admission a) \<and>
    (\<forall>f\<in>set pre \<union> set post. \<forall>p'. decoded f = PrimaryBound p' \<longrightarrow> dg_generation p' \<noteq> dg_generation p)"
    (is "?bound \<and> ?once")
proof -
  obtain err r where "reduce_events observed sha run branch es NewLogicalDecisionReducer = (err, r)" by fastforce
  note h = reduce_from_start [OF this]
  from history_prefix [OF h assms(1)] obtain s s' where
    s: "history observed sha pre s" "applyNew sha e s = Inr s'" by blast
  from s(2) assms(2) have "applyBound e p s = Inr s'" by (simp add: applyNew_def)
  then obtain u a q where u: "rd_run s = Some u" "rd_admitted s = Some a" "lr_phase u = PhAdmitted" "rd_prepared s = Some q"
      "binding_matches (bd_binding p) u q a" "dg_generation p = lr_generation u \<or> lr_generation u = 0" by (rule bound_elim)
  from coherent_run [OF history_coherent [OF s(1)] u(1)] u(2-4) have "primary_of sha u q" "admission_of u q a"
    by (auto simp: phase_ok_def)
  moreover obtain f o' where "f \<in> set pre" "decoded f = RunOpened o'" "lr_run u = dc_run o'" "lr_branch u = dc_branch o'"
    "lr_requirement u = op_requirement o'" using history_names [OF s(1) u(1)] by blast
  ultimately have ?bound
    using u(5,6) history_prepared [OF s(1) u(4)] history_admitted [OF s(1) u(2)]
    by (intro exI [of _ o'] exI [of _ q] exI [of _ a]) (auto simp: primary_of_def admission_of_def binding_matches_def image_iff intro: sym)
  moreover have "distinct (map rev_key (pre @ e # post))" using history_keys [OF h] assms(1) by simp
  then have other: "rev_key f \<noteq> rev_key e" if "f \<in> set pre \<union> set post" for f using that by (auto simp: image_iff)
  have key: "rev_key f = decisionBoundKey (name_of r) (dg_generation p')"
    if "f \<in> set pre \<union> set (e # post)" "decoded f = PrimaryBound p'" for f p'
    using history_bound_keys [OF h, of f p'] that assms(1) by auto
  have "dg_generation p' \<noteq> dg_generation p" if "f \<in> set pre \<union> set post" "decoded f = PrimaryBound p'" for f p'
    using other [OF that(1)] key [of f p'] key [of e p] that assms(2) by auto
  ultimately show ?thesis by blast
qed

section \<open>Redelivery\<close>

text \<open>An event the reducer has taken, or has recognised by its key.\<close>

definition recognised :: "(decision_event \<Rightarrow> bool) \<Rightarrow> decision_event \<Rightarrow> reducer \<Rightarrow> bool" where
  "recognised observed e r \<longleftrightarrow>
     ValidateEventPayload observed e \<and> rev_id e \<noteq> [] \<and> rev_hash e \<noteq> [] \<and>
     (map_of (rd_seen r) (rev_id e) = Some (rev_hash e) \<or>
      map_of (rd_seen r) (rev_id e) = None \<and> rev_key e \<noteq> [] \<and>
        (\<exists>b. decisionBusinessPayload e = Some b \<and> map_of (rd_keys r) (rev_key e) = Some b))"

lemma recognised_ignored:
  "isDecisionCorrectnessEvent (rev_type e) \<Longrightarrow> recognised observed e r \<Longrightarrow> Apply observed sha e r = (None, r)"
  by (auto simp: recognised_def Apply_def)

lemma record_maps:
  "applyNew sha f r = Inr s \<Longrightarrow> map_of (rd_seen (record_event f b s)) = (map_of (rd_seen r))(rev_id f \<mapsto> rev_hash f)"
  "applyNew sha f r = Inr s \<Longrightarrow> map_of (rd_keys (record_event f b s)) = (map_of (rd_keys r))(rev_key f \<mapsto> b)"
  using applyNew_effect [of sha f r s] by (simp_all add: effect_def record_event_def update_conv')

lemma recognised_after:
  assumes "isDecisionCorrectnessEvent (rev_type e)" "Apply observed sha e r = (None, r')"
  shows "recognised observed e r'"
  using assms
  by (auto simp: Apply_def recognised_def record_maps split: if_splits option.splits sum.splits)

lemma recognised_kept:
  assumes "isDecisionCorrectnessEvent (rev_type f)" "Apply observed sha f r = (None, r')" "recognised observed e r"
    and "rev_id f = rev_id e \<longrightarrow> rev_hash f = rev_hash e"
  shows "recognised observed e r'"
  using assms(1,2)
proof (cases rule: Apply_correctness)
  case kept
  with assms(3) show ?thesis by simp
next
  case (taken b s)
  have seen: "map_of (rd_seen r') = (map_of (rd_seen r))(rev_id f \<mapsto> rev_hash f)"
    and keys: "map_of (rd_keys r') = (map_of (rd_keys r))(rev_key f \<mapsto> b)"
    using record_maps [OF taken(6)] taken(7) by simp_all
  show ?thesis
  proof (cases "rev_id f = rev_id e")
    case True
    with assms(3,4) seen show ?thesis by (simp add: recognised_def)
  next
    case False
    with assms(3) taken(4) show ?thesis by (auto simp: recognised_def seen keys)
  qed
qed

lemma reduce_append:
  "reduce_events observed sha run branch (es @ fs) r =
     (case reduce_events observed sha run branch es r of
        (Some err, r') \<Rightarrow> (Some err, r') | (None, r') \<Rightarrow> reduce_events observed sha run branch fs r')"
  by (induction es arbitrary: r) (auto split: option.splits prod.splits)

definition concerns :: "string \<Rightarrow> string \<Rightarrow> decision_event \<Rightarrow> bool" where
  "concerns run branch e \<longleftrightarrow>
     rev_branch e = branch \<and> isDecisionCorrectnessEvent (rev_type e) \<and> named_run e = Some run"

lemma reduce_Cons:
  assumes "reduce_events observed sha run branch (f # es) r = (None, r')"
  obtains (skipped) "\<not> concerns run branch f" "reduce_events observed sha run branch es r = (None, r')"
      "\<And>gs s. reduce_events observed sha run branch (f # gs) s = reduce_events observed sha run branch gs s"
    | (delivered) s where "concerns run branch f" "Apply observed sha f r = (None, s)"
        "reduce_events observed sha run branch es s = (None, r')"
  using assms by (auto simp: concerns_def split: if_splits option.splits prod.splits)

lemma reduce_recognises:
  assumes "reduce_events observed sha run branch es r = (None, r')" "concerns run branch e"
    and "\<forall>f\<in>set es. rev_id f = rev_id e \<longrightarrow> rev_hash f = rev_hash e"
    and "e \<in> set es \<or> recognised observed e r"
  shows "recognised observed e r'"
  using assms
proof (induction es arbitrary: r)
  case (Cons f es)
  have hash: "\<forall>f\<in>set es. rev_id f = rev_id e \<longrightarrow> rev_hash f = rev_hash e" using Cons.prems(3) by simp
  from Cons.prems(1) show ?case
  proof (cases rule: reduce_Cons)
    case skipped
    with Cons.prems(2,4) have "e \<in> set es \<or> recognised observed e r" by auto
    with Cons.IH [OF skipped(2) Cons.prems(2) hash] show ?thesis .
  next
    case (delivered s)
    have c: "isDecisionCorrectnessEvent (rev_type f)" using delivered(1) by (simp add: concerns_def)
    have "e \<in> set es \<or> recognised observed e s"
      using Cons.prems(3,4) recognised_after [OF c delivered(2)] recognised_kept [OF c delivered(2)] by auto
    with Cons.IH [OF delivered(3) Cons.prems(2) hash] show ?thesis .
  qed
qed simp

text \<open>
  C25. A second delivery changes nothing. In a journal that replays without error, delivering one of its events again, at
  any later point, leaves every projection as it was; the journal's event ids only have to name one event each.
\<close>

theorem redelivery_ignored:
  assumes "fst (reduce_events observed sha run branch es NewLogicalDecisionReducer) = None" "e \<in> set es"
    and "\<forall>f\<in>set es. rev_id f = rev_id e \<longrightarrow> rev_hash f = rev_hash e"
  shows "ReplayLogicalDecisionRun observed sha (es @ e # fs) run branch =
         ReplayLogicalDecisionRun observed sha (es @ fs) run branch"
proof -
  obtain r where r: "reduce_events observed sha run branch es NewLogicalDecisionReducer = (None, r)"
    using assms(1) by (metis prod.collapse)
  have "reduce_events observed sha run branch (e # fs) r = reduce_events observed sha run branch fs r"
  proof (cases "concerns run branch e")
    case True
    with reduce_recognises [OF r True assms(3)] assms(2) recognised_ignored [of e observed r sha]
    show ?thesis by (simp add: concerns_def)
  next
    case False
    obtain xs ys where es: "es = xs @ e # ys" using assms(2) by (meson split_list)
    obtain s where "reduce_events observed sha run branch (e # ys) s = (None, r)"
      using r unfolding es reduce_append by (auto split: option.splits prod.splits)
    then show ?thesis by (cases rule: reduce_Cons) (use False in simp_all)
  qed
  then show ?thesis by (simp add: ReplayLogicalDecisionRun_def reduce_append r)
qed

section \<open>Instances\<close>

definition demo_digest :: "char \<Rightarrow> string" where
  "demo_digest c = replicate 64 c"

definition demo_sha :: digest where
  "demo_sha t = demo_digest (CHR ''a'')"

definition demo_task :: string where
  "demo_task = ''__hufu_pd_'' @ demo_digest (CHR ''a'')"

definition demo_decision :: string where
  "demo_decision = ''pd_'' @ demo_digest (CHR ''a'')"

definition demo_run :: string where
  "demo_run = ''ldr_'' @ replicate 32 (CHR ''0'')"

definition demo_ref :: decision_ref where
  "demo_ref = \<lparr>dr_id = ''artifact'', dr_sha = demo_digest (CHR ''b''), dr_media = ''application/json'', dr_size = 1\<rparr>"

definition demo_event :: "string \<Rightarrow> string \<Rightarrow> string \<Rightarrow> string \<Rightarrow> decision_payload \<Rightarrow> decision_event" where
  "demo_event name execution key tag p =
     \<lparr>rev_schema = 2, rev_id = name, rev_previous_id = [], rev_invocation = [], rev_run = execution, rev_session = ''session'',
      rev_branch = ''main'', rev_task = [], rev_attempt = 0, rev_actor = ''coordinator'',
      rev_type = the (payload_type p), rev_timestamp = ''2026-01-01T00:00:00Z'', rev_key = key,
      rev_payload = \<lparr>db_valid = True, db_strict = True,
        db_object = Some [(''logical_run_id'', JString demo_run), (''execution_run_id'', JString execution), (''tag'', JString tag)],
        db_payload = p\<rparr>,
      rev_previous_hash = [], rev_hash = name\<rparr>"

definition demo_opened :: opened_payload where
  "demo_opened =
     \<lparr>dc_schema = 1, dc_run = demo_run, dc_branch = ''main'', dc_execution = ''run-1'', dc_epoch = 1,
      op_team = ''team'', op_team_digest = demo_digest (CHR ''c''), op_requirement_ref = demo_ref,
      op_requirement = demo_digest (CHR ''d''), op_profile = demo_ref, op_authority = demo_ref,
      op_limits = \<lparr>dl_tokens = 1000, dl_duration = 1000, dl_generations = 1, dl_attempts = 1, dl_cleanup = 1\<rparr>\<rparr>"

definition demo_open :: decision_event where
  "demo_open = demo_event ''e1'' ''run-1'' (decisionOpenedKey demo_run) ''open'' (RunOpened demo_opened)"

definition demo_prepared :: "char \<Rightarrow> prepared_payload" where
  "demo_prepared c =
     \<lparr>dc_schema = 1, dc_run = demo_run, dc_branch = ''main'', dc_execution = ''run-1'', dc_epoch = 1, dg_generation = 1,
      pp_task = demo_task, pp_decision = demo_decision,
      pp_cursor = \<lparr>sc_event = ''e1'', sc_hash = demo_digest (CHR ''e''), sc_lineage = demo_digest (CHR ''e'')\<rparr>,
      pp_support = demo_digest (CHR ''f''), pp_evidence = demo_ref, pp_plan = demo_ref, pp_digest = demo_digest c\<rparr>"

definition demo_prepare :: "string \<Rightarrow> char \<Rightarrow> decision_event" where
  "demo_prepare name c = demo_event name ''run-1'' (decisionPreparedKey demo_run 1 (demo_digest c)) [c] (PrimaryPrepared (demo_prepared c))"

definition demo_blocked :: blocked_payload where
  "demo_blocked =
     \<lparr>dc_schema = 1, dc_run = demo_run, dc_branch = ''main'', dc_execution = ''run-1'', dc_epoch = 1, dg_generation = 1,
        bl_task = None, bl_reason = ''repair'', bl_support = demo_digest (CHR ''f''), bl_repairable = True, bl_missing = []\<rparr>"

definition demo_block :: decision_event where
  "demo_block = demo_event ''e3'' ''run-1'' (decisionBlockedKey demo_run 1 (demo_digest (CHR ''f'')) ''repair'') ''block'' (PrimaryBlocked demo_blocked)"

definition demo_admitted :: "char \<Rightarrow> admitted_payload" where
  "demo_admitted c =
     \<lparr>dc_schema = 1, dc_run = demo_run, dc_branch = ''main'', dc_execution = ''run-1'', dc_epoch = 1, dg_generation = 1,
      ad_task = demo_task, ad_decision = demo_decision,
      ad_occurrence = demo_ref, ad_admission = demo_ref, ad_digest = demo_digest c\<rparr>"

definition demo_admit :: "char \<Rightarrow> decision_event" where
  "demo_admit c = demo_event ''e5'' ''run-1'' (decisionAdmittedKey demo_run 1) ''admit'' (PrimaryAdmitted (demo_admitted c))"

definition demo_bound :: bound_payload where
  "demo_bound =
     \<lparr>dc_schema = 1, dc_run = demo_run, dc_branch = ''main'', dc_execution = ''run-1'', dc_epoch = 1, dg_generation = 1,
      bd_binding = \<lparr>pb_schema = 1, pb_run = demo_run, pb_branch = ''main'', pb_task = demo_task,
        pb_generation = 1, pb_decision = demo_decision, pb_requirement = demo_digest (CHR ''d''),
        pb_support = demo_digest (CHR ''f''), pb_admission = demo_ref, pb_evidence = demo_ref, pb_plan = demo_ref,
        pb_record = demo_ref, pb_sealed = demo_digest (CHR ''9'')\<rparr>,
      bd_receipt = demo_ref\<rparr>"

definition demo_bind :: decision_event where
  "demo_bind = demo_event ''e6'' ''run-1'' (decisionBoundKey demo_run 1) ''bind'' (PrimaryBound demo_bound)"

definition no_observation :: "decision_event \<Rightarrow> bool" where
  "no_observation e = False"

text \<open>The instances are evaluated over these facts.\<close>

named_theorems demo_simps \<open>facts about the instances\<close>

lemma demo_words [demo_simps]:
  "TrimSpace ''session'' \<noteq> []" "TrimSpace ''coordinator'' \<noteq> []" "TrimSpace ''2026-01-01T00:00:00Z'' \<noteq> []"
  "TrimSpace ''run-1'' \<noteq> []" "TrimSpace ''application/json'' \<noteq> []" "TrimSpace ''e1'' \<noteq> []" "TrimSpace ''e2'' \<noteq> []"
  "TrimSpace ''e3'' \<noteq> []" "TrimSpace ''e4'' \<noteq> []" "TrimSpace ''e5'' \<noteq> []" "TrimSpace ''e6'' \<noteq> []"
  "TrimSpace ''decision_run_opened'' \<noteq> []" "TrimSpace ''primary_decision_prepared'' \<noteq> []"
  "TrimSpace ''primary_decision_blocked'' \<noteq> []" "TrimSpace ''primary_decision_admitted'' \<noteq> []"
  "TrimSpace ''primary_decision_bound'' \<noteq> []"
  by code_simp+

lemma demo_identifiers [demo_simps]:
  "validDecisionIdentifier ''artifact''" "validDecisionIdentifier ''main''" "validDecisionIdentifier ''run-1''"
  "validDecisionIdentifier ''team''" "validDecisionIdentifier ''e1''" "validDecisionIdentifier ''repair''"
  by (simp_all add: validDecisionIdentifier_def identifier_char_def is_digit_def)

lemma demo_hex [demo_simps]:
  "is_hex (CHR ''a'')" "is_hex (CHR ''b'')" "is_hex (CHR ''c'')" "is_hex (CHR ''d'')" "is_hex (CHR ''e'')" "is_hex (CHR ''f'')"
  "is_hex (CHR ''1'')" "is_hex (CHR ''2'')" "is_hex (CHR ''9'')"
  by (simp_all add: is_hex_def is_digit_def)

lemma demo_digests [demo_simps]: "is_hex c \<Longrightarrow> validDecisionDigest (demo_digest c)"
  by (simp add: validDecisionDigest_def demo_digest_def list_all_iff)

lemma decision_ids [demo_simps]:
  "validDecisionIdentifier demo_task" "validDecisionIdentifier demo_decision"
  "logical_id demo_run"
  by (simp_all add: validDecisionIdentifier_def identifier_char_def is_digit_def demo_digest_def demo_task_def demo_decision_def logical_id_def demo_run_def
      is_hex_def list_all_iff)

lemma demo_ref_ok [demo_simps]: "validateDecisionArtifactRef demo_ref"
  by (simp add: validateDecisionArtifactRef_def demo_ref_def demo_words demo_identifiers demo_digests demo_hex maxCanonicalJSONInteger_def)

lemma demo_derived [demo_simps]:
  "validateDerivedPrimaryIDs demo_sha ''main'' demo_run 1 demo_task demo_decision"
proof -
  have "TrimSpace ''hufu/primary-task/v1'' \<noteq> []" "TrimSpace ''hufu/primary-decision/v1'' \<noteq> []" "canonical_number (dec 1)"
    by code_simp+
  then show ?thesis
    by (simp add: validateDerivedPrimaryIDs_def PrimaryDecisionTaskID_def PrimaryDecisionID_def DecisionContractDigest_def
        CanonicalDecisionJSON_def canonical_render demo_sha_def demo_task_def demo_decision_def)
qed

definition demo_text :: "string \<Rightarrow> string" where
  "demo_text tag = render (tidy (JObject [(''logical_run_id'', JString demo_run), (''tag'', JString tag)]))"

lemma demo_business [demo_simps]: "decisionBusinessPayload (demo_event name x key tag p) = Some (demo_text tag)"
  by (simp add: decisionBusinessPayload_def demo_event_def CanonicalDecisionJSON_def canonical_render demo_text_def)

lemmas demo_events = demo_open_def demo_prepare_def demo_block_def demo_admit_def demo_bind_def

lemmas demo_payloads = demo_opened_def demo_prepared_def demo_blocked_def demo_admitted_def demo_bound_def

lemma demo_fields [demo_simps]:
  "rev_branch (demo_event name x key tag p) = ''main''" "rev_id (demo_event name x key tag p) = name"
  "rev_hash (demo_event name x key tag p) = name" "rev_key (demo_event name x key tag p) = key"
  "rev_type (demo_event name x key tag p) = the (payload_type p)"
  "named_run (demo_event name x key tag p) = Some demo_run"
  "p \<noteq> OtherPayload \<Longrightarrow> decoded (demo_event name x key tag p) = p"
  by (cases p; simp add: demo_event_def named_run_def decoded_def payload_type_def)+

lemma demo_types [demo_simps]: "p \<noteq> OtherPayload \<Longrightarrow> isDecisionCorrectnessEvent (the (payload_type p))"
  by (cases p) (simp_all add: isDecisionCorrectnessEvent_def reducer_types_def payload_type_def)

lemma demo_key_kinds [demo_simps]:
  "decisionOpenedKey s \<noteq> decisionPreparedKey s 1 d" "decisionOpenedKey s \<noteq> decisionBlockedKey s 1 d e"
  "decisionOpenedKey s \<noteq> decisionAdmittedKey s 1" "decisionOpenedKey s \<noteq> decisionBoundKey s 1"
  "decisionPreparedKey s 1 d \<noteq> decisionBlockedKey s 1 e f" "decisionPreparedKey s 1 d \<noteq> decisionAdmittedKey s 1"
  "decisionPreparedKey s 1 d \<noteq> decisionBoundKey s 1" "decisionBlockedKey s 1 d e \<noteq> decisionAdmittedKey s 1"
  "decisionAdmittedKey s 1 \<noteq> decisionBoundKey s 1"
  by (simp_all add: decisionOpenedKey_def decisionPreparedKey_def decisionBlockedKey_def decisionAdmittedKey_def
      decisionBoundKey_def generation_key_def)

lemma demo_keys [demo_simps]:
  "decisionPreparedKey s 1 d = decisionPreparedKey s 1 e \<longleftrightarrow> d = e"
  "decisionOpenedKey s \<noteq> []" "decisionPreparedKey s 1 d \<noteq> []" "decisionBlockedKey s 1 d e \<noteq> []" "decisionAdmittedKey s 1 \<noteq> []"
  "decisionBoundKey s 1 \<noteq> []"
  by (simp_all add: decisionOpenedKey_def decisionPreparedKey_def decisionBlockedKey_def decisionAdmittedKey_def
      decisionBoundKey_def generation_key_def)

lemma demo_digest_inj [demo_simps]: "demo_digest c = demo_digest d \<longleftrightarrow> c = d"
  by (simp add: demo_digest_def)

lemmas demo_validation =
  ValidateEventPayload_def validateDecisionCorrectnessEvent_def validateDecisionCommon_def validateDecisionGenerationCommon_def
  validateDecisionOpenedPayload_def validatePreparedPayload_def validateBlockedPayload_def
  validatePrimaryDecisionAdmittedEvent_def validatePrimaryBinding_def observation_types_def eventStoreSchemaVersion_def
  maxCanonicalJSONInteger_def payload_type_def decoded_def demo_event_def demo_events demo_payloads

lemma decision_valid [demo_simps]:
  "ValidateEventPayload no_observation demo_open" "ValidateEventPayload no_observation demo_block"
  "ValidateEventPayload no_observation demo_bind"
  by (simp_all add: demo_validation demo_words demo_identifiers demo_digests decision_ids demo_ref_ok demo_hex)

lemma demo_valid_digests [demo_simps]:
  "TrimSpace name \<noteq> [] \<Longrightarrow> is_hex c \<Longrightarrow> ValidateEventPayload no_observation (demo_prepare name c)"
  "is_hex c \<Longrightarrow> ValidateEventPayload no_observation (demo_admit c)"
  by (simp_all add: demo_validation demo_words demo_identifiers demo_digests decision_ids demo_ref_ok demo_hex)

lemma demo_delivered [demo_simps]:
  "rev_branch demo_open = ''main''" "rev_branch demo_block = ''main''" "rev_branch demo_bind = ''main''"
  "rev_branch (demo_prepare name c) = ''main''" "rev_branch (demo_admit c) = ''main''"
  "named_run demo_open = Some demo_run" "named_run demo_block = Some demo_run" "named_run demo_bind = Some demo_run"
  "named_run (demo_prepare name c) = Some demo_run" "named_run (demo_admit c) = Some demo_run"
  "isDecisionCorrectnessEvent (rev_type demo_open)" "isDecisionCorrectnessEvent (rev_type demo_block)"
  "isDecisionCorrectnessEvent (rev_type demo_bind)" "isDecisionCorrectnessEvent (rev_type (demo_prepare name c))"
  "isDecisionCorrectnessEvent (rev_type (demo_admit c))"
  "rev_id demo_open = ''e1''" "rev_id demo_block = ''e3''" "rev_id demo_bind = ''e6''" "rev_id (demo_prepare name c) = name"
  "rev_id (demo_admit c) = ''e5''" "rev_hash demo_open = ''e1''" "rev_hash demo_block = ''e3''" "rev_hash demo_bind = ''e6''"
  "rev_hash (demo_prepare name c) = name" "rev_hash (demo_admit c) = ''e5''"
  "rev_key demo_open = decisionOpenedKey demo_run"
  "rev_key demo_block = decisionBlockedKey demo_run 1 (demo_digest (CHR ''f'')) ''repair''"
  "rev_key demo_bind = decisionBoundKey demo_run 1"
  "rev_key (demo_prepare name c) = decisionPreparedKey demo_run 1 (demo_digest c)"
  "rev_key (demo_admit c) = decisionAdmittedKey demo_run 1"
  by (simp_all add: demo_events demo_fields demo_types)

lemma demo_contents [demo_simps]:
  "decisionBusinessPayload demo_open = Some (demo_text ''open'')" "decisionBusinessPayload demo_block = Some (demo_text ''block'')"
  "decisionBusinessPayload demo_bind = Some (demo_text ''bind'')" "decisionBusinessPayload (demo_admit c) = Some (demo_text ''admit'')"
  "decisionBusinessPayload (demo_prepare name c) = Some (demo_text [c])"
  "decoded demo_open = RunOpened demo_opened" "decoded demo_block = PrimaryBlocked demo_blocked"
  "decoded demo_bind = PrimaryBound demo_bound" "decoded (demo_admit c) = PrimaryAdmitted (demo_admitted c)"
  "decoded (demo_prepare name c) = PrimaryPrepared (demo_prepared c)"
  by (simp_all add: demo_events demo_business demo_fields)

lemmas demo_eval = decision_valid demo_valid_digests demo_delivered demo_contents demo_digest_inj demo_hex demo_derived
  Apply_def applyNew_def applyOpened_def applyPrepared_def applyBlocked_def applyAdmitted_def applyBound_def
  requireGenerationOwner_def requireRunAndBranch_def owns_def record_event_def NewLogicalDecisionReducer_def demo_payloads

lemmas demo_run_simps = demo_delivered demo_keys demo_key_kinds demo_key_kinds [THEN not_sym] demo_hex demo_words
  demo_digest_inj succ32_def

text \<open>The states the instances pass through, and the steps between them.\<close>

definition demo_state ::
  "decision_phase \<Rightarrow> nat \<Rightarrow> nat \<Rightarrow> primary_binding option \<Rightarrow> prepared_payload option \<Rightarrow> admitted_payload option \<Rightarrow>
   string \<Rightarrow> string \<Rightarrow> (string \<times> string) list \<Rightarrow> (string \<times> string) list \<Rightarrow> reducer" where
  "demo_state ph g n b q a bd last_id seen keys =
     \<lparr>rd_run = Some \<lparr>lr_run = demo_run, lr_branch = ''main'', lr_team = ''team'', lr_team_digest = demo_digest (CHR ''c''),
        lr_requirement_ref = demo_ref, lr_requirement = demo_digest (CHR ''d''), lr_profile = demo_ref,
        lr_executions = [''run-1''], lr_epoch = 1, lr_phase = ph, lr_generation = g, lr_primary = b,
        lr_last_id = last_id, lr_last_hash = last_id,
        lr_usage = \<lparr>du_tokens = 0, du_reserved = 0, du_duration = 0, du_generations = n, du_settlements = None\<rparr>\<rparr>,
      rd_seen = seen, rd_keys = keys, rd_prepared = q, rd_admitted = a, rd_calls = [], rd_stable = Some ph, rd_bound = bd\<rparr>"

lemma demo_run_state [simp]: "map_option lr_phase (rd_run (demo_state ph g n b q a bd l seen keys)) = Some ph"
  "map_option (\<lambda>u. (lr_phase u, lr_generation u, du_generations (lr_usage u))) (rd_run (demo_state ph g n b q a bd l seen keys)) = Some (ph, g, n)"
  "rd_run (demo_state ph g n b q a bd l seen keys) \<noteq> None"
  "rd_seen (demo_state ph g n b q a bd l seen keys) = seen" "rd_keys (demo_state ph g n b q a bd l seen keys) = keys"
  by (simp_all add: demo_state_def)

lemma demo_step_open:
  "Apply no_observation demo_sha demo_open NewLogicalDecisionReducer =
     (None, demo_state PhSupporting 0 0 None None None [] ''e1'' [(''e1'', ''e1'')] [(decisionOpenedKey demo_run, demo_text ''open'')])"
  by (simp add: demo_eval demo_state_def demo_keys)

lemma demo_step_prepare:
  assumes "map_of seen name = None" "map_of keys (decisionPreparedKey demo_run 1 (demo_digest c)) = None"
    and "TrimSpace name \<noteq> []" "name \<noteq> []" "is_hex c" "g = 0 \<or> g = 1"
  shows "Apply no_observation demo_sha (demo_prepare name c) (demo_state PhSupporting g n b q a bd l seen keys) =
    (None, demo_state PhPrepared 1 (succ32 n) b (Some (demo_prepared c)) None bd name (AList.update name name seen)
       (AList.update (decisionPreparedKey demo_run 1 (demo_digest c)) (demo_text [c]) keys))"
  using assms demo_keys(3) [of demo_run "demo_digest c"] demo_derived
  by (auto simp: demo_eval demo_state_def Let_def)

lemma demo_step_block:
  assumes "map_of seen ''e3'' = None" "map_of keys (decisionBlockedKey demo_run 1 (demo_digest (CHR ''f'')) ''repair'') = None"
  shows "Apply no_observation demo_sha demo_block (demo_state PhPrepared 1 n b q None bd l seen keys) =
    (None, demo_state PhSupporting 1 n b q None bd ''e3'' (AList.update ''e3'' ''e3'' seen)
       (AList.update (decisionBlockedKey demo_run 1 (demo_digest (CHR ''f'')) ''repair'') (demo_text ''block'') keys))"
  using assms demo_keys(4) [of demo_run "demo_digest (CHR ''f'')" "''repair''"] by (simp add: demo_eval demo_state_def Let_def)

lemma demo_step_admit:
  assumes "map_of seen ''e5'' = None" "map_of keys (decisionAdmittedKey demo_run 1) = None" "is_hex c"
  shows "Apply no_observation demo_sha (demo_admit c) (demo_state PhPrepared 1 n b (Some (demo_prepared c)) None bd l seen keys) =
    (None, demo_state PhAdmitted 1 n b (Some (demo_prepared c)) (Some (demo_admitted c)) bd ''e5'' (AList.update ''e5'' ''e5'' seen)
       (AList.update (decisionAdmittedKey demo_run 1) (demo_text ''admit'') keys))"
    and "Apply no_observation demo_sha (demo_admit c) (demo_state PhSupporting 1 n b (Some (demo_prepared c)) None bd l seen keys) =
    (Some IllegalPhase, demo_state PhSupporting 1 n b (Some (demo_prepared c)) None bd l seen keys)"
  using assms demo_keys(5) [of demo_run] by (simp_all add: demo_eval demo_state_def)

lemma demo_step_again:
  assumes "map_of seen name = None" "map_of keys (decisionPreparedKey demo_run 1 (demo_digest c)) = Some (demo_text [c])"
    and "TrimSpace name \<noteq> []" "name \<noteq> []" "is_hex c"
  shows "Apply no_observation demo_sha (demo_prepare name c) (demo_state ph g n b q a bd l seen keys) =
    (None, demo_state ph g n b q a bd l seen keys)"
  using assms demo_keys(3) [of demo_run "demo_digest c"] by (simp add: demo_eval demo_state_def)

lemma demo_step_bind:
  assumes "map_of seen ''e6'' = None" "map_of keys (decisionBoundKey demo_run 1) = None"
  shows "\<exists>b' keys'. Apply no_observation demo_sha demo_bind
      (demo_state PhAdmitted 1 n b (Some (demo_prepared c)) (Some (demo_admitted c)) bd l seen keys) =
    (None, demo_state PhBound 1 n b' (Some (demo_prepared c)) (Some (demo_admitted c)) ''e6'' ''e6'' (AList.update ''e6'' ''e6'' seen) keys')"
  using assms demo_keys(6) [of demo_run] by (simp add: demo_eval demo_state_def binding_matches_def)

lemmas demo_steps = demo_step_open demo_step_prepare demo_step_block demo_step_admit demo_step_again

abbreviation demo_replay :: "decision_event list \<Rightarrow> logical_run option \<times> decision_error option" where
  "demo_replay es \<equiv> ReplayLogicalDecisionRun no_observation demo_sha es demo_run ''main''"

text \<open>
  A blocked preparation cannot be prepared again as it was. After a preparation is blocked the run waits
  for a new one, but preparing again with the same preparation is taken for a second delivery: it is accepted without effect, and
  the admission that follows is refused. A different preparation is taken, and counts as a second generation
  started although the generation is still the first.
\<close>

theorem blocked_preparation_swallowed:
  "(let again = [demo_open, demo_prepare ''e2'' (CHR ''1''), demo_block, demo_prepare ''e4'' (CHR ''1'')];
        other = [demo_open, demo_prepare ''e2'' (CHR ''1''), demo_block, demo_prepare ''e4'' (CHR ''2'')] in
    snd (demo_replay again) = None \<and> map_option lr_phase (fst (demo_replay again)) = Some PhSupporting \<and>
    snd (demo_replay (again @ [demo_admit (CHR ''1'')])) = Some IllegalPhase \<and>
    snd (demo_replay (other @ [demo_admit (CHR ''2'')])) = None \<and>
    map_option (\<lambda>u. (lr_phase u, lr_generation u, du_generations (lr_usage u))) (fst (demo_replay (other @ [demo_admit (CHR ''2'')]))) =
      Some (PhAdmitted, 1, 2))"
  by (simp add: Let_def ReplayLogicalDecisionRun_def demo_steps demo_run_simps
      del: One_nat_def) (simp add: demo_state_def)

text \<open>A run from opening to binding.\<close>

definition demo_journal :: "decision_event list" where
  "demo_journal = [demo_open, demo_prepare ''e2'' (CHR ''1''), demo_admit (CHR ''1''), demo_bind]"

lemma demo_reduced:
  "fst (reduce_events no_observation demo_sha demo_run ''main'' demo_journal NewLogicalDecisionReducer) = None"
  "rd_run (snd (reduce_events no_observation demo_sha demo_run ''main'' demo_journal NewLogicalDecisionReducer)) \<noteq> None"
  "applied no_observation demo_sha demo_run ''main'' demo_journal NewLogicalDecisionReducer = demo_journal"
proof -
  let ?S = "Apply no_observation demo_sha demo_bind"
  obtain b k where last: "?S (demo_state PhAdmitted 1 1 None (Some (demo_prepared (CHR ''1''))) (Some (demo_admitted (CHR ''1''))) [] ''e5''
      [(''e1'', ''e1''), (''e2'', ''e2''), (''e5'', ''e5'')]
      [(decisionOpenedKey demo_run, demo_text ''open''),
       (decisionPreparedKey demo_run 1 (demo_digest (CHR ''1'')), demo_text ''1''),
       (decisionAdmittedKey demo_run 1, demo_text ''admit'')]) =
    (None, demo_state PhBound 1 1 b (Some (demo_prepared (CHR ''1''))) (Some (demo_admitted (CHR ''1''))) ''e6'' ''e6''
      (AList.update ''e6'' ''e6'' [(''e1'', ''e1''), (''e2'', ''e2''), (''e5'', ''e5'')]) k)"
    using demo_step_bind [where seen = "[(''e1'', ''e1''), (''e2'', ''e2''), (''e5'', ''e5'')]" and l = "''e5''" and bd = "[]"
        and b = None and n = 1 and c = "CHR ''1''"
        and keys = "[(decisionOpenedKey demo_run, demo_text ''open''),
          (decisionPreparedKey demo_run 1 (demo_digest (CHR ''1'')), demo_text ''1''),
          (decisionAdmittedKey demo_run 1, demo_text ''admit'')]"]
    by (auto simp: demo_run_simps simp del: One_nat_def)
  have "reduce_events no_observation demo_sha demo_run ''main'' demo_journal NewLogicalDecisionReducer =
      (None, demo_state PhBound 1 1 b (Some (demo_prepared (CHR ''1''))) (Some (demo_admitted (CHR ''1''))) ''e6'' ''e6''
      (AList.update ''e6'' ''e6'' [(''e1'', ''e1''), (''e2'', ''e2''), (''e5'', ''e5'')]) k)"
    by (simp add: demo_journal_def demo_steps demo_run_simps last del: One_nat_def)
  then show "fst (reduce_events no_observation demo_sha demo_run ''main'' demo_journal NewLogicalDecisionReducer) = None"
    "rd_run (snd (reduce_events no_observation demo_sha demo_run ''main'' demo_journal NewLogicalDecisionReducer)) \<noteq> None"
    by simp_all
  show "applied no_observation demo_sha demo_run ''main'' demo_journal NewLogicalDecisionReducer = demo_journal"
    by (simp add: demo_journal_def demo_steps demo_run_simps last del: One_nat_def)
qed

theorem usage_is_account_witness:
  "du_tokens (lr_usage (the (rd_run (snd (reduce_events no_observation demo_sha demo_run ''main'' demo_journal NewLogicalDecisionReducer))))) = 0"
proof -
  obtain u where u: "rd_run (snd (reduce_events no_observation demo_sha demo_run ''main'' demo_journal NewLogicalDecisionReducer)) = Some u"
    using demo_reduced(2) by blast
  from usage_is_account [OF prod.collapse [symmetric] u demo_reduced(3) [symmetric]] show ?thesis
    by (simp add: u) (simp add: demo_journal_def demo_contents)
qed

theorem single_owner_witness: "owners [demo_open] \<noteq> [] \<and> ''run-1'' = last (owners [demo_open])"
proof -
  have "applied no_observation demo_sha demo_run ''main'' demo_journal NewLogicalDecisionReducer =
      [demo_open] @ demo_prepare ''e2'' (CHR ''1'') # [demo_admit (CHR ''1''), demo_bind]"
    by (simp add: demo_reduced(3)) (simp add: demo_journal_def)
  from single_owner [OF this, of "''run-1''" 1] show ?thesis
    by (simp add: demo_contents demo_prepared_def)
qed

theorem binding_provenance_witness:
  "\<exists>q. PrimaryPrepared q \<in> decoded ` set [demo_open, demo_prepare ''e2'' (CHR ''1''), demo_admit (CHR ''1'')] \<and>
     pb_evidence (bd_binding demo_bound) = pp_evidence q"
proof -
  have "applied no_observation demo_sha demo_run ''main'' demo_journal NewLogicalDecisionReducer =
      [demo_open, demo_prepare ''e2'' (CHR ''1''), demo_admit (CHR ''1'')] @ demo_bind # []"
    by (simp add: demo_reduced(3)) (simp add: demo_journal_def)
  from binding_provenance [OF this, of demo_bound] show ?thesis by (simp only: demo_contents) blast
qed

theorem redelivery_ignored_witness:
  "ReplayLogicalDecisionRun no_observation demo_sha (demo_journal @ demo_open # [demo_bind]) demo_run ''main'' =
   ReplayLogicalDecisionRun no_observation demo_sha (demo_journal @ [demo_bind]) demo_run ''main''"
  by (rule redelivery_ignored [OF demo_reduced(1)]) (auto simp: demo_journal_def demo_delivered)

end
