(* ===== verification/No_Progress.thy ===== *)
theory No_Progress
  imports Go_Strings
begin

text \<open>
  The no-progress budget: \<open>internal/team/no_progress.go\<close>, with the counters \<open>metrics.go\<close> feeds and the resets of
  \<open>criteria.go\<close> and \<open>criterion_checkpoint.go\<close>. Three counters of a run (tokens, coordinator turns, tasks) grow
  until a criterion or an objective verifier turns from failing to passing; at a boundary (the end of a round or of a
  turn) they are compared with their limits. Counters are \<open>int64\<close> and wrap. Each operation holds the
  metrics lock, so it is one step. Reports, and the outcome and checkpoint written when a run
  stops, are left out.
\<close>

section \<open>The ladder\<close>

datatype disposition = NoProgressContinue | NoProgressReplan | NoProgressStop

record np_counters =
  nc_tokens :: int
  nc_turns :: int
  nc_tasks :: int

record np_limits =
  nl_tokens :: int
  nl_turns :: int
  nl_tasks :: int

definition reached :: "int \<Rightarrow> int \<Rightarrow> bool" where
  "reached limit n \<longleftrightarrow> 0 < limit \<and> limit \<le> n"

definition reached_twice :: "int \<Rightarrow> int \<Rightarrow> bool" where
  "reached_twice limit n \<longleftrightarrow> 0 < limit \<and> i64 (2 * limit) \<le> n"

definition decideNoProgress :: "np_counters \<Rightarrow> np_limits \<Rightarrow> bool \<Rightarrow> disposition" where
  "decideNoProgress c l hard =
     (if \<not> hard then NoProgressContinue
      else if reached_twice (nl_tokens l) (nc_tokens c) then NoProgressStop
      else if reached_twice (nl_turns l) (nc_turns c) then NoProgressStop
      else if reached_twice (nl_tasks l) (nc_tasks c) then NoProgressStop
      else if reached (nl_tokens l) (nc_tokens c) then NoProgressReplan
      else if reached (nl_turns l) (nc_turns c) then NoProgressReplan
      else if reached (nl_tasks l) (nc_tasks c) then NoProgressReplan
      else NoProgressContinue)"

definition wouldTrip :: "np_counters \<Rightarrow> np_limits \<Rightarrow> bool" where
  "wouldTrip c l \<longleftrightarrow> reached (nl_tokens l) (nc_tokens c) \<or> reached (nl_turns l) (nc_turns c) \<or> reached (nl_tasks l) (nc_tasks c)"

section \<open>The counters\<close>

record np_state =
  np_counters :: np_counters
  np_replan :: bool
  np_stop :: bool
  np_wrap_up :: bool
  np_usage :: "(string \<times> int) list"

definition recordNoProgressTokens :: "int \<Rightarrow> np_state \<Rightarrow> np_state" where
  "recordNoProgressTokens tokens s =
     (if tokens \<le> 0 then s
      else s\<lparr>np_counters := (np_counters s)\<lparr>nc_tokens := i64 (nc_tokens (np_counters s) + tokens)\<rparr>\<rparr>)"

text \<open>A worker attempt reports its usage so far, again and again; only the growth counts.\<close>

definition usage_key :: "string \<Rightarrow> int \<Rightarrow> string" where
  "usage_key task attempt = task @ '':'' @ dec_int attempt"

definition prior_usage :: "string \<Rightarrow> np_state \<Rightarrow> int" where
  "prior_usage key s = (case map_of (np_usage s) key of None \<Rightarrow> 0 | Some n \<Rightarrow> n)"

definition recordReliabilityUsage :: "string \<Rightarrow> int \<Rightarrow> int \<Rightarrow> np_state \<Rightarrow> np_state" where
  "recordReliabilityUsage task attempt tokens s =
     (if task = [] \<or> attempt < 1 \<or> tokens \<le> 0 then s
      else let key = usage_key task attempt; prior = prior_usage key s in
        if prior < tokens then
          s\<lparr>np_counters := (np_counters s)\<lparr>nc_tokens := i64 (nc_tokens (np_counters s) + (tokens - prior))\<rparr>,
            np_usage := AList.update key tokens (np_usage s)\<rparr>
        else s)"

definition count_turn :: "np_state \<Rightarrow> np_state" where
  "count_turn s = s\<lparr>np_counters := (np_counters s)\<lparr>nc_turns := i64 (nc_turns (np_counters s) + 1)\<rparr>\<rparr>"

definition recordNoProgressTasks :: "int \<Rightarrow> np_state \<Rightarrow> np_state" where
  "recordNoProgressTasks n s =
     (if n \<le> 0 then s
      else s\<lparr>np_counters := (np_counters s)\<lparr>nc_tasks := i64 (nc_tasks (np_counters s) + n)\<rparr>\<rparr>)"

text \<open>A batch, as the workset each task is bound to: one unit per workset and one per unbound task.\<close>

definition recordNoProgressTaskBatch :: "string option list \<Rightarrow> np_state \<Rightarrow> np_state" where
  "recordNoProgressTaskBatch tasks s =
     (let bound = List.map_filter (\<lambda>w. case w of Some x \<Rightarrow> if x \<noteq> [] then Some x else None | None \<Rightarrow> None) tasks in
      recordNoProgressTasks (int (length tasks - length bound + length (remdups bound))) s)"

definition reset_progress :: "np_state \<Rightarrow> np_state" where
  "reset_progress s =
     s\<lparr>np_counters := \<lparr>nc_tokens = 0, nc_turns = 0, nc_tasks = 0\<rparr>, np_replan := False, np_stop := False, np_usage := []\<rparr>"

section \<open>Objective verifiers\<close>

record verdict =
  vd_exit :: int
  vd_timed_out :: bool

definition isVerifySuccess :: "verdict option \<Rightarrow> bool" where
  "isVerifySuccess v = (case v of None \<Rightarrow> False | Some r \<Rightarrow> vd_exit r = 0 \<and> \<not> vd_timed_out r)"

text \<open>A todo item's verification history: the current result, the receipts of its attempts, and a last receipt.\<close>

record verify_history =
  vh_id :: string
  vh_current :: "verdict option"
  vh_receipts :: "verdict option list"
  vh_receipt :: "verdict option option"

definition previous_verdict :: "verify_history \<Rightarrow> verdict option" where
  "previous_verdict h =
     (case vh_current h of Some r \<Rightarrow> Some r
      | None \<Rightarrow> (case find (\<lambda>r. r \<noteq> None) (rev (vh_receipts h)) of Some r \<Rightarrow> r
                 | None \<Rightarrow> (case vh_receipt h of None \<Rightarrow> None | Some r \<Rightarrow> r)))"

definition noteObjectiveVerifierResult :: "verify_history list \<Rightarrow> string \<Rightarrow> bool \<Rightarrow> np_state \<Rightarrow> np_state" where
  "noteObjectiveVerifierResult items todo passed s =
     (if todo = [] \<or> \<not> passed then s
      else case find (\<lambda>h. vh_id h = todo) items of None \<Rightarrow> s
      | Some h \<Rightarrow>
          (case previous_verdict h of None \<Rightarrow> s
           | Some r \<Rightarrow> if isVerifySuccess (Some r) then s else reset_progress s))"

section \<open>Boundaries\<close>

definition stopForNoProgress :: "np_state \<Rightarrow> np_state" where
  "stopForNoProgress s = s\<lparr>np_stop := True, np_wrap_up := True\<rparr>"

datatype boundary = Continued | Warned | Replanned | Stopped

definition enforceNoProgressBudget :: "np_limits \<Rightarrow> bool \<Rightarrow> np_state \<Rightarrow> boundary \<times> np_state" where
  "enforceNoProgressBudget l hard s =
     (let c = np_counters s in
      case decideNoProgress c l hard of
        NoProgressContinue \<Rightarrow>
          (if \<not> hard \<and> (0 < nc_tokens c \<or> 0 < nc_turns c \<or> 0 < nc_tasks c) \<and> wouldTrip c l then Warned else Continued, s)
      | NoProgressReplan \<Rightarrow>
          (if np_replan s then (Stopped, stopForNoProgress s) else (Replanned, s\<lparr>np_replan := True\<rparr>))
      | NoProgressStop \<Rightarrow> (Stopped, stopForNoProgress s))"

text \<open>What happens to the budget in a run.\<close>

datatype np_event =
    Tokens int
  | Usage string int int
  | Turn
  | NewTasks int
  | NewBatch "string option list"
  | CriterionProgress
  | VerifierResult "verify_history list" string bool
  | Boundary

fun np_step :: "np_limits \<Rightarrow> bool \<Rightarrow> np_event \<Rightarrow> np_state \<Rightarrow> boundary option \<times> np_state" where
  "np_step l hard (Tokens n) s = (None, recordNoProgressTokens n s)"
| "np_step l hard (Usage task attempt n) s = (None, recordReliabilityUsage task attempt n s)"
| "np_step l hard Turn s = (None, count_turn s)"
| "np_step l hard (NewTasks n) s = (None, recordNoProgressTasks n s)"
| "np_step l hard (NewBatch ts) s = (None, recordNoProgressTaskBatch ts s)"
| "np_step l hard CriterionProgress s = (None, reset_progress s)"
| "np_step l hard (VerifierResult items todo passed) s = (None, noteObjectiveVerifierResult items todo passed s)"
| "np_step l hard Boundary s = (case enforceNoProgressBudget l hard s of (b, s) \<Rightarrow> (Some b, s))"

fun np_run :: "np_limits \<Rightarrow> bool \<Rightarrow> np_event list \<Rightarrow> np_state \<Rightarrow> boundary list \<times> np_state" where
  "np_run l hard [] s = ([], s)"
| "np_run l hard (e # es) s =
     (case np_step l hard e s of (b, s) \<Rightarrow>
        case np_run l hard es s of (bs, s) \<Rightarrow> ((case b of None \<Rightarrow> bs | Some x \<Rightarrow> x # bs), s))"

definition fresh_budget :: np_state where
  "fresh_budget = \<lparr>np_counters = \<lparr>nc_tokens = 0, nc_turns = 0, nc_tasks = 0\<rparr>, np_replan = False, np_stop = False,
     np_wrap_up = False, np_usage = []\<rparr>"

section \<open>The ladder is exact\<close>

text \<open>Below half of the integer range doubling a limit does not wrap.\<close>

definition limits_sane :: "np_limits \<Rightarrow> bool" where
  "limits_sane l \<longleftrightarrow> (\<forall>x\<in>{nl_tokens l, nl_turns l, nl_tasks l}. x \<le> MaxInt64 div 2)"

definition at_least :: "int \<Rightarrow> np_limits \<Rightarrow> np_counters \<Rightarrow> bool" where
  "at_least k l c \<longleftrightarrow>
     (0 < nl_tokens l \<and> k * nl_tokens l \<le> nc_tokens c) \<or> (0 < nl_turns l \<and> k * nl_turns l \<le> nc_turns c) \<or>
     (0 < nl_tasks l \<and> k * nl_tasks l \<le> nc_tasks c)"

lemma twice_exact: "x \<le> MaxInt64 div 2 \<Longrightarrow> reached_twice x n \<longleftrightarrow> 0 < x \<and> 2 * x \<le> n"
  by (cases "0 < x") (simp_all add: reached_twice_def i64_id is_int64_def MaxInt64_def MinInt64_def)

lemma trips_at_least: "wouldTrip c l \<longleftrightarrow> at_least 1 l c"
  by (simp add: wouldTrip_def at_least_def reached_def)

lemma ladder:
  assumes "limits_sane l"
  shows "decideNoProgress c l hard =
    (if hard \<and> at_least 2 l c then NoProgressStop else if hard \<and> at_least 1 l c then NoProgressReplan else NoProgressContinue)"
  using assms by (auto simp: limits_sane_def decideNoProgress_def twice_exact at_least_def reached_def)

lemma at_least_once: "at_least 2 l c \<Longrightarrow> at_least 1 l c"
  by (auto simp: at_least_def)

text \<open>
  The ladder is exact. With limits up to half of the integer range, a boundary asks for a replan exactly when some enabled
  counter has reached its limit and none twice its limit, and stops exactly when one has; a limit of 0 disables its
  counter, and nothing happens when enforcement is off.
\<close>

theorem ladder_exact:
  assumes "limits_sane l"
  shows "(decideNoProgress c l hard = NoProgressStop \<longleftrightarrow> hard \<and> at_least 2 l c) \<and>
    (decideNoProgress c l hard = NoProgressReplan \<longleftrightarrow> hard \<and> at_least 1 l c \<and> \<not> at_least 2 l c)"
  using at_least_once [of l c] by (auto simp: ladder [OF assms])

theorem ladder_exact_witness:
  "decideNoProgress \<lparr>nc_tokens = 0, nc_turns = 5, nc_tasks = 100\<rparr> \<lparr>nl_tokens = 10, nl_turns = 3, nl_tasks = 0\<rparr> True = NoProgressReplan"
  using ladder_exact [of "\<lparr>nl_tokens = 10, nl_turns = 3, nl_tasks = 0\<rparr>" "\<lparr>nc_tokens = 0, nc_turns = 5, nc_tasks = 100\<rparr>" True]
  by (simp add: limits_sane_def at_least_def MaxInt64_def)

text \<open>
  A large limit stops at once. Doubling a token limit of \<open>2^62\<close> wraps to a negative number, so a run
  that has done nothing is past twice its limit.
\<close>

theorem huge_limit_stops:
  "fst (enforceNoProgressBudget \<lparr>nl_tokens = 4611686018427387904, nl_turns = 0, nl_tasks = 0\<rparr> True fresh_budget) = Stopped"
  by code_simp

section \<open>Runs without progress\<close>

fun quiet :: "np_event \<Rightarrow> bool" where
  "quiet CriterionProgress = False"
| "quiet (VerifierResult _ _ _) = False"
| "quiet e = True"

text \<open>How much an event can add to a counter; \<open>room\<close> keeps the counters from wrapping.\<close>

fun amount :: "np_event \<Rightarrow> int" where
  "amount (Tokens n) = max 0 n"
| "amount (Usage task attempt n) = max 0 n"
| "amount Turn = 1"
| "amount (NewTasks n) = max 0 n"
| "amount (NewBatch ts) = int (length ts)"
| "amount e = 0"

definition within :: "int \<Rightarrow> np_state \<Rightarrow> bool" where
  "within n s \<longleftrightarrow> 0 \<le> nc_tokens (np_counters s) \<and> 0 \<le> nc_turns (np_counters s) \<and> 0 \<le> nc_tasks (np_counters s) \<and>
     nc_tokens (np_counters s) + n \<le> MaxInt64 \<and> nc_turns (np_counters s) + n \<le> MaxInt64 \<and>
     nc_tasks (np_counters s) + n \<le> MaxInt64 \<and> (\<forall>u\<in>set (np_usage s). 0 < snd u)"

definition room :: "np_event list \<Rightarrow> np_state \<Rightarrow> bool" where
  "room es s \<longleftrightarrow> within (sum_list (map amount es)) s"

definition grows :: "np_counters \<Rightarrow> np_counters \<Rightarrow> bool" where
  "grows c d \<longleftrightarrow> nc_tokens c \<le> nc_tokens d \<and> nc_turns c \<le> nc_turns d \<and> nc_tasks c \<le> nc_tasks d"

interpretation grows: step_preorder grows
  by unfold_locales (auto simp: grows_def)

lemma at_least_grows: "grows c d \<Longrightarrow> at_least k l c \<Longrightarrow> at_least k l d"
  by (auto simp: grows_def at_least_def)

lemma amount_nonneg: "0 \<le> amount e"
  by (cases e) auto

lemma amounts_nonneg: "0 \<le> sum_list (map amount es)"
  by (rule sum_list_nonneg) (auto simp: amount_nonneg)

lemma i64_sum: "0 \<le> x \<Longrightarrow> 0 \<le> y \<Longrightarrow> x + y \<le> MaxInt64 \<Longrightarrow> i64 (x + y) = x + y"
  by (intro i64_id) (simp add: is_int64_def MinInt64_def)

lemma batch_units:
  "\<exists>n. 0 \<le> n \<and> n \<le> int (length ts) \<and> recordNoProgressTaskBatch ts s = recordNoProgressTasks n s"
proof -
  let ?b = "List.map_filter (\<lambda>w. case w of Some x \<Rightarrow> if x \<noteq> [] then Some x else None | None \<Rightarrow> None) ts"
  have "length ?b \<le> length ts" by (simp add: List.map_filter_def)
  moreover have "length (remdups ?b) \<le> length ?b" by (rule length_remdups_leq)
  ultimately show ?thesis unfolding recordNoProgressTaskBatch_def Let_def by (intro exI conjI refl) auto
qed

lemma tasks_step:
  assumes "0 \<le> n" "within (n + m) s" "0 \<le> m"
  shows "grows (np_counters s) (np_counters (recordNoProgressTasks n s)) \<and> within m (recordNoProgressTasks n s) \<and>
    np_replan (recordNoProgressTasks n s) = np_replan s"
  using assms by (cases "n = 0") (auto simp: recordNoProgressTasks_def within_def grows_def i64_sum)

lemma within_less: "within n s \<Longrightarrow> m \<le> n \<Longrightarrow> within m s"
  by (auto simp: within_def)

text \<open>Without progress the counters only grow, and the replan flag is raised at a boundary alone.\<close>

lemma quiet_step:
  assumes "quiet e" "np_step l hard e s = (b, t)" "within (amount e + m) s" "0 \<le> m"
  shows "grows (np_counters s) (np_counters t) \<and> within m t \<and> (e = Boundary \<or> b = None \<and> np_replan t = np_replan s)"
proof (cases e)
  case (Tokens n)
  with assms show ?thesis
    by (cases "n \<le> 0") (auto simp: recordNoProgressTokens_def within_def grows_def i64_sum)
next
  case (Usage task attempt n)
  have p: "0 \<le> prior_usage (usage_key task attempt) s"
    using assms(3) by (force simp: prior_usage_def within_def split: option.split dest: map_of_SomeD)
  show ?thesis
  proof (cases "task = [] \<or> attempt < 1 \<or> n \<le> 0 \<or> n \<le> prior_usage (usage_key task attempt) s")
    case True
    then have "recordReliabilityUsage task attempt n s = s" by (auto simp: recordReliabilityUsage_def Let_def)
    with Usage assms within_less [OF assms(3), of m] show ?thesis by (auto simp: amount_nonneg intro: grows.idle)
  next
    case False
    let ?p = "prior_usage (usage_key task attempt) s"
    have n: "0 < n" "?p < n" "nc_tokens (np_counters s) + n + m \<le> MaxInt64" "0 \<le> nc_tokens (np_counters s)"
      using False Usage assms(3) by (simp_all add: within_def)
    have i: "i64 (nc_tokens (np_counters s) + (n - ?p)) = nc_tokens (np_counters s) + (n - ?p)"
      by (rule i64_sum) (use n p assms(4) in auto)
    have t: "b = None" "t = s\<lparr>np_counters := (np_counters s)\<lparr>nc_tokens := nc_tokens (np_counters s) + (n - ?p)\<rparr>,
        np_usage := AList.update (usage_key task attempt) n (np_usage s)\<rparr>"
      using assms(2) Usage False by (auto simp: recordReliabilityUsage_def Let_def i)
    have "\<forall>u\<in>set (AList.update (usage_key task attempt) n (np_usage s)). 0 < snd u"
      using assms(3) n(1) set_update_subset [of "usage_key task attempt" n "np_usage s"] by (auto simp: within_def)
    then show ?thesis using n p assms(3,4) Usage by (auto simp: t grows_def within_def)
  qed
next
  case Turn
  with assms show ?thesis by (auto simp: count_turn_def within_def grows_def i64_sum)
next
  case (NewTasks n)
  show ?thesis
  proof (cases "n \<le> 0")
    case True
    with NewTasks assms within_less [OF assms(3), of m] show ?thesis
      by (auto simp: recordNoProgressTasks_def amount_nonneg intro: grows.idle)
  next
    case False
    with NewTasks assms tasks_step [of n m s] show ?thesis by simp
  qed
next
  case (NewBatch ts)
  obtain n where n: "0 \<le> n" "n \<le> int (length ts)" "recordNoProgressTaskBatch ts s = recordNoProgressTasks n s"
    using batch_units by blast
  with NewBatch assms(3) have "within (n + m) s" by (auto intro: within_less)
  with tasks_step [OF n(1) this assms(4)] NewBatch assms(2) n(3) show ?thesis by auto
next
  case Boundary
  with assms have "t = s \<or> t = s\<lparr>np_replan := True\<rparr> \<or> t = stopForNoProgress s"
    by (auto simp: enforceNoProgressBudget_def Let_def split: disposition.splits if_splits)
  with Boundary assms(3) show ?thesis by (auto simp: stopForNoProgress_def within_def grows_def)
qed (use assms in simp_all)

lemma np_run_Cons:
  assumes "np_run l hard (e # es) s = (bs, t)"
  obtains b u cs where "np_step l hard e s = (b, u)" "np_run l hard es u = (cs, t)"
    "bs = (case b of None \<Rightarrow> cs | Some x \<Rightarrow> x # cs)"
  using assms by (auto split: prod.splits)

lemma room_Cons: "room (e # es) s \<longleftrightarrow> within (amount e + sum_list (map amount es)) s"
  by (simp add: room_def)

lemma quiet_run_step:
  assumes "np_run l hard (e # es) s = (bs, t)" "\<forall>e\<in>set (e # es). quiet e" "room (e # es) s"
  obtains b u cs where "np_step l hard e s = (b, u)" "np_run l hard es u = (cs, t)" "\<forall>e\<in>set es. quiet e" "room es u"
    "bs = (case b of None \<Rightarrow> cs | Some x \<Rightarrow> x # cs)" "grows (np_counters s) (np_counters u)"
    "e = Boundary \<or> b = None \<and> np_replan u = np_replan s"
proof -
  obtain b u cs where r: "np_step l hard e s = (b, u)" "np_run l hard es u = (cs, t)"
    "bs = (case b of None \<Rightarrow> cs | Some x \<Rightarrow> x # cs)" using assms(1) by (rule np_run_Cons)
  have "quiet e" using assms(2) by simp
  from quiet_step [OF this r(1) assms(3) [unfolded room_Cons] amounts_nonneg] r assms(2) show thesis
    by (intro that) (auto simp: room_def)
qed

text \<open>Past the point of no return every boundary stops.\<close>

definition doomed :: "np_limits \<Rightarrow> np_state \<Rightarrow> bool" where
  "doomed l s \<longleftrightarrow> at_least 2 l (np_counters s) \<or> np_replan s \<and> at_least 1 l (np_counters s)"

lemma boundary_cases:
  assumes "limits_sane l" "np_step l True Boundary s = (b, t)"
  obtains (below) "\<not> at_least 1 l (np_counters s)" "b = Some Continued" "t = s"
    | (replan) "\<not> doomed l s" "at_least 1 l (np_counters s)" "b = Some Replanned" "t = s\<lparr>np_replan := True\<rparr>"
    | (stop) "doomed l s" "b = Some Stopped" "t = stopForNoProgress s"
  using assms at_least_once [of l "np_counters s"]
  by (auto simp: enforceNoProgressBudget_def ladder doomed_def Let_def split: if_splits)

lemma doomed_kept: "doomed l s \<Longrightarrow> grows (np_counters s) (np_counters t) \<Longrightarrow> np_replan t = np_replan s \<Longrightarrow> doomed l t"
  by (auto simp: doomed_def dest: at_least_grows)

lemma doomed_once: "doomed l s \<Longrightarrow> at_least 1 l (np_counters s)"
  by (auto simp: doomed_def dest: at_least_once)

lemma doomed_run:
  assumes "np_run l True es s = (bs, t)" "limits_sane l" "\<forall>e\<in>set es. quiet e" "room es s" "doomed l s"
  shows "\<forall>b\<in>set bs. b = Stopped"
  using assms
proof (induction es arbitrary: s bs)
  case (Cons e es)
  from Cons.prems(1,3,4) obtain b u cs where r: "np_step l True e s = (b, u)" "np_run l True es u = (cs, t)"
    "\<forall>e\<in>set es. quiet e" "room es u" "bs = (case b of None \<Rightarrow> cs | Some x \<Rightarrow> x # cs)"
    "grows (np_counters s) (np_counters u)" "e = Boundary \<or> b = None \<and> np_replan u = np_replan s" by (rule quiet_run_step)
  have "doomed l u \<and> (b = None \<or> b = Some Stopped)"
  proof (cases "e = Boundary")
    case True
    with r(1) have "np_step l True Boundary s = (b, u)" by simp
    with Cons.prems(2) show ?thesis
    proof (cases rule: boundary_cases)
      case stop
      with Cons.prems(5) show ?thesis by (auto simp: stopForNoProgress_def doomed_def)
    qed (use Cons.prems(5) doomed_once [of l s] in auto)
  next
    case False
    with r(6,7) doomed_kept [OF Cons.prems(5)] show ?thesis by auto
  qed
  with Cons.IH [OF r(2) Cons.prems(2) r(3,4)] r(5) show ?case by auto
qed simp

lemma shape_run:
  assumes "np_run l True es s = (bs, t)" "limits_sane l" "\<forall>e\<in>set es. quiet e" "room es s" "\<not> np_replan s"
  shows "\<exists>a b c. bs = replicate a Continued @ replicate b Replanned @ replicate c Stopped \<and> b \<le> 1"
  using assms
proof (induction es arbitrary: s bs)
  case Nil
  then show ?case by (intro exI [of _ 0]) simp
next
  case (Cons e es)
  from Cons.prems(1,3,4) obtain b u cs where r: "np_step l True e s = (b, u)" "np_run l True es u = (cs, t)"
    "\<forall>e\<in>set es. quiet e" "room es u" "bs = (case b of None \<Rightarrow> cs | Some x \<Rightarrow> x # cs)"
    "grows (np_counters s) (np_counters u)" "e = Boundary \<or> b = None \<and> np_replan u = np_replan s" by (rule quiet_run_step)
  have stops: "cs = replicate (length cs) Stopped" if "doomed l u"
    using doomed_run [OF r(2) Cons.prems(2) r(3,4) that] by (simp add: replicate_eqI)
  show ?case
  proof (cases "e = Boundary")
    case True
    with r(1) have "np_step l True Boundary s = (b, u)" by simp
    with Cons.prems(2) show ?thesis
    proof (cases rule: boundary_cases)
      case below
      with Cons.IH [OF r(2) Cons.prems(2) r(3,4)] Cons.prems(5) obtain i j k where
        "cs = replicate i Continued @ replicate j Replanned @ replicate k Stopped" "j \<le> 1" by auto
      with below r(5) show ?thesis by (intro exI [of _ "Suc i"] exI [of _ j] exI [of _ k]) simp
    next
      case replan
      then have "doomed l u" by (simp add: doomed_def)
      with stops replan(3) r(5) show ?thesis
        by (intro exI [of _ 0] exI [of _ 1] exI [of _ "length cs"]) simp
    next
      case stop
      then have "doomed l u" by (auto simp: doomed_def stopForNoProgress_def)
      then have "bs = replicate (Suc (length cs)) Stopped" using stops stop(2) r(5) by simp
      then show ?thesis by (intro exI [of _ 0] exI [of _ "Suc (length cs)"]) simp
    qed
  next
    case False
    with r(5,7) Cons.IH [OF r(2) Cons.prems(2) r(3,4)] Cons.prems(5) show ?thesis by auto
  qed
qed

text \<open>
  C36. One replan, then a stop. In a run that starts with a fresh budget, makes no progress and keeps its counters in range, the enforced
  boundaries are: some that continue, at most one that orders a replan, and after it, or once
  a counter has reached twice its limit, only stops.
\<close>

theorem one_replan:
  assumes "np_run l True es fresh_budget = (bs, t)" "limits_sane l" "\<forall>e\<in>set es. quiet e" "room es fresh_budget"
  shows "\<exists>a b c. bs = replicate a Continued @ replicate b Replanned @ replicate c Stopped \<and> b \<le> 1"
  by (rule shape_run [OF assms]) (simp add: fresh_budget_def)

theorem one_replan_witness:
  "\<exists>a b c. [Continued, Replanned, Stopped, Stopped] = replicate a Continued @ replicate b Replanned @ replicate c Stopped \<and> b \<le> 1"
proof (rule one_replan)
  let ?l = "\<lparr>nl_tokens = 0, nl_turns = 2, nl_tasks = 0\<rparr>"
  let ?es = "[Turn, Boundary, Turn, Boundary, Boundary, Usage ''t'' 1 7, Boundary]"
  show "np_run ?l True ?es fresh_budget =
    ([Continued, Replanned, Stopped, Stopped], snd (np_run ?l True ?es fresh_budget))" by code_simp
  show "limits_sane ?l" by (simp add: limits_sane_def MaxInt64_def)
  show "\<forall>e\<in>set ?es. quiet e" by simp
  show "room ?es fresh_budget" by (simp add: room_def within_def fresh_budget_def MaxInt64_def)
qed

text \<open>
  Progress recharges what was already counted. It clears the usage marks of attempts still running, and their next
  report, which is cumulative, is charged in full: here \<open>1000\<close> of the \<open>1200\<close> tokens were spent before the progress.
\<close>

theorem progress_recounts_usage:
  "nc_tokens (np_counters (snd (np_run l hard [Usage ''t'' 1 1000, CriterionProgress, Usage ''t'' 1 1200] fresh_budget))) = 1200 \<and>
   nc_tokens (np_counters (snd (np_run l hard [Usage ''t'' 1 1000, Usage ''t'' 1 1200] fresh_budget))) = 1200"
  by (simp add: recordReliabilityUsage_def reset_progress_def fresh_budget_def prior_usage_def usage_key_def dec_int_def
      i64_def Let_def)

end
