(* ===== verification/Fan_Out.thy ===== *)
theory Fan_Out
  imports Go_Text
begin

text \<open>
  Fan-out of a task over the rows of a table: \<open>internal/team/fan_out.go\<close>. A goal template is instantiated once per
  row; a row of the wrong width or a placeholder that names no column fails the dispatch. Reading the source
  file, and the check that its path stays in the workspace, is the argument \<open>load\<close>; lines are shorter than the
  megabyte the scanner accepts.
\<close>

section \<open>Templates\<close>

text \<open>The matches of \<open>fanOutPlaceholderPattern\<close>, \<open>\{([a-zA-Z0-9_]+)\}\<close>, and the bytes between them.\<close>

datatype segment = Lit char | Hole string

definition word_char :: "char \<Rightarrow> bool" where
  "word_char c \<longleftrightarrow> (97 \<le> byte_of c \<and> byte_of c \<le> 122) \<or> (65 \<le> byte_of c \<and> byte_of c \<le> 90) \<or> is_digit c \<or> c = CHR ''_''"

definition hole_at :: "string \<Rightarrow> (string \<times> string) option" where
  "hole_at s =
     (let name = takeWhile word_char s; rest = dropWhile word_char s in
      if name \<noteq> [] \<and> rest \<noteq> [] \<and> hd rest = CHR ''}'' then Some (name, tl rest) else None)"

lemma hole_at_length: "hole_at s = Some (name, rest) \<Longrightarrow> length rest < length s"
proof -
  assume "hole_at s = Some (name, rest)"
  then have r: "rest = tl (dropWhile word_char s)" "dropWhile word_char s \<noteq> []"
    by (auto simp: hole_at_def Let_def split: if_splits)
  have "length (dropWhile word_char s) \<le> length s" by (rule length_dropWhile_le)
  with r show ?thesis by (cases "dropWhile word_char s") auto
qed

function segments :: "string \<Rightarrow> segment list" where
  "segments [] = []"
| "segments (c # s) =
     (case (if c = CHR ''{'' then hole_at s else None) of
        None \<Rightarrow> Lit c # segments s
      | Some (name, rest) \<Rightarrow> Hole name # segments rest)"
  by pat_completeness auto
termination
  by (relation "measure length") (auto split: if_splits dest: hole_at_length less_SucI)

definition placeholders :: "string \<Rightarrow> string list" where
  "placeholders template = List.map_filter (\<lambda>g. case g of Lit c \<Rightarrow> None | Hole n \<Rightarrow> Some n) (segments template)"

definition instantiate :: "(string \<Rightarrow> string) \<Rightarrow> string \<Rightarrow> string" where
  "instantiate value template = concat (map (\<lambda>g. case g of Lit c \<Rightarrow> [c] | Hole n \<Rightarrow> value n) (segments template))"

section \<open>Tables\<close>

datatype fan_error =
    SourceMissing | TemplateMissing | SourceUnreadable | NoHeader | UnknownPlaceholder string | TooManyRows nat
  | RowWidth nat nat nat

definition maxFanOutRows :: nat where "maxFanOutRows = 2000"

definition drop_cr :: "string \<Rightarrow> string" where
  "drop_cr line = (if line \<noteq> [] \<and> last line = CHR 0x0D then butlast line else line)"

definition drop_hash :: "string list \<Rightarrow> string list" where
  "drop_hash fs = (case fs of [] \<Rightarrow> [] | f # r \<Rightarrow> (if f \<noteq> [] \<and> hd f = CHR ''#'' then tl f else f) # r)"

text \<open>The fields of the lines that are not blank.\<close>

definition table_lines :: "string \<Rightarrow> string list list" where
  "table_lines content =
     map (split_on (CHR 0x09))
       (filter (\<lambda>l. TrimSpace l \<noteq> []) (map drop_cr (split_on (CHR 0x0A) content)))"

definition readFanOutTSV :: "string \<Rightarrow> fan_error + string list \<times> string list list" where
  "readFanOutTSV content =
     (case table_lines content of [] \<Rightarrow> Inl NoHeader | h # rows \<Rightarrow> Inr (drop_hash h, rows))"

section \<open>Expansion\<close>

record fan_spec =
  fo_source :: string
  fo_artifact_task :: string
  fo_artifact :: string
  fo_template :: string

text \<open>A task as far as expansion reads and writes it; \<open>'r\<close> is the rest, which the copies keep.\<close>

record ('b, 'r) fan_task =
  ft_id :: string
  ft_goal :: string
  ft_fan_out :: "fan_spec option"
  ft_binding :: "'b option"
  ft_rest :: 'r

text \<open>\<open>columnIndex\<close>: of two columns of one name the later.\<close>

definition column_index :: "string list \<Rightarrow> string \<Rightarrow> nat option" where
  "column_index header name = map_of (rev (zip header [0..<length header])) name"

definition cell :: "string list \<Rightarrow> string list \<Rightarrow> string \<Rightarrow> string" where
  "cell header row name = (case column_index header name of None \<Rightarrow> row ! 0 | Some i \<Rightarrow> row ! i)"

fun expand_rows :: "string list \<Rightarrow> string \<Rightarrow> ('b, 'r) fan_task \<Rightarrow> nat \<Rightarrow> string list list \<Rightarrow> fan_error + ('b, 'r) fan_task list" where
  "expand_rows header template task i [] = Inr []"
| "expand_rows header template task i (row # rows) =
     (if length row \<noteq> length header then Inl (RowWidth (i + 1) (length row) (length header))
      else bindR (expand_rows header template task (i + 1) rows) (\<lambda>ts.
        Inr (task\<lparr>ft_fan_out := None, ft_goal := instantiate (cell header row) template\<rparr> # ts)))"

definition expandFanOutTask :: "(string \<Rightarrow> string option) \<Rightarrow> fan_spec \<Rightarrow> ('b, 'r) fan_task \<Rightarrow> fan_error + ('b, 'r) fan_task list" where
  "expandFanOutTask load spec task =
     (let source = TrimSpace (fo_source spec); template = fo_template spec in
      if source = [] then Inl SourceMissing
      else if TrimSpace template = [] then Inl TemplateMissing
      else case load source of None \<Rightarrow> Inl SourceUnreadable
      | Some content \<Rightarrow>
          bindR (readFanOutTSV content) (\<lambda>(header, rows).
            case find (\<lambda>n. column_index header n = None) (placeholders template) of
              Some n \<Rightarrow> Inl (UnknownPlaceholder n)
            | None \<Rightarrow>
                if maxFanOutRows < length rows then Inl (TooManyRows (length rows))
                else expand_rows header template task 0 rows))"

section \<open>Lemmas\<close>

lemma expand_rows_ok:
  "expand_rows header template task i rows = Inr ts \<longleftrightarrow>
   (\<forall>row\<in>set rows. length row = length header) \<and>
   ts = map (\<lambda>row. task\<lparr>ft_fan_out := None, ft_goal := instantiate (cell header row) template\<rparr>) rows"
  by (induction rows arbitrary: i ts) (auto simp: bindR_eq_Inr)

lemma column_index_Some:
  assumes "column_index header n = Some i"
  shows "i < length header \<and> header ! i = n"
proof -
  have "(n, i) \<in> set (zip header [0..<length header])"
    using assms by (auto simp: column_index_def dest: map_of_SomeD)
  then show ?thesis by (auto simp: set_zip)
qed

lemma column_index_None: "column_index header n = None \<longleftrightarrow> n \<notin> set header"
proof -
  have "fst ` set (rev (zip header [0..<length header])) = set (map fst (zip header [0..<length header]))"
    by (simp only: set_rev set_map)
  also have "\<dots> = set header" by (subst map_fst_zip) simp_all
  finally show ?thesis by (simp only: column_index_def map_of_eq_None_iff)
qed

lemma expand_ok:
  assumes "expandFanOutTask load spec task = Inr ts"
  obtains content header rows where "load (TrimSpace (fo_source spec)) = Some content"
    "readFanOutTSV content = Inr (header, rows)" "length rows \<le> maxFanOutRows"
    "\<forall>n\<in>set (placeholders (fo_template spec)). n \<in> set header" "\<forall>row\<in>set rows. length row = length header"
    "ts = map (\<lambda>row. task\<lparr>ft_fan_out := None, ft_goal := instantiate (cell header row) (fo_template spec)\<rparr>) rows"
  using assms
  by (auto simp: expandFanOutTask_def Let_def bindR_eq_Inr find_None_iff column_index_None expand_rows_ok
      split: if_splits option.splits)

text \<open>What a template becomes: its text with each placeholder replaced.\<close>

fun show_segment :: "segment \<Rightarrow> string" where
  "show_segment (Lit c) = [c]"
| "show_segment (Hole n) = ''{'' @ n @ ''}''"

lemma hole_at_show: "hole_at s = Some (name, rest) \<Longrightarrow> s = name @ CHR ''}'' # rest"
proof -
  assume "hole_at s = Some (name, rest)"
  then have r: "name = takeWhile word_char s" "dropWhile word_char s \<noteq> []" "hd (dropWhile word_char s) = CHR ''}''"
    "rest = tl (dropWhile word_char s)" by (auto simp: hole_at_def Let_def split: if_splits)
  then have "dropWhile word_char s = CHR ''}'' # rest" by (cases "dropWhile word_char s") auto
  then show ?thesis using takeWhile_dropWhile_id [of word_char s] r(1) by simp
qed

lemma segments_show: "concat (map show_segment (segments s)) = s"
proof (induction s rule: segments.induct)
  case (2 c s)
  show ?case
  proof (cases "if c = CHR ''{'' then hole_at s else None")
    case None
    with 2(1) show ?thesis by simp
  next
    case (Some p)
    then obtain name rest where p: "hole_at s = Some (name, rest)" "c = CHR ''{''" by (cases p) (auto split: if_splits)
    then show ?thesis using 2(2) [of "(name, rest)" name rest] hole_at_show [OF p(1)] by simp
  qed
qed simp

lemma placeholders_holes: "n \<in> set (placeholders s) \<longleftrightarrow> Hole n \<in> set (segments s)"
proof -
  have "n \<in> set (List.map_filter (\<lambda>g. case g of Lit c \<Rightarrow> None | Hole n \<Rightarrow> Some n) gs) \<longleftrightarrow> Hole n \<in> set gs" for gs
    by (induction gs) (auto simp: List.map_filter_simps split: segment.splits)
  then show ?thesis by (simp add: placeholders_def)
qed

lemma instantiate_cong: "\<forall>n\<in>set (placeholders s). f n = g n \<Longrightarrow> instantiate f s = instantiate g s"
  unfolding instantiate_def by (intro arg_cong [of _ _ concat] map_cong refl) (auto simp: placeholders_holes split: segment.splits)

lemma instantiate_plain: "placeholders s = [] \<Longrightarrow> instantiate f s = s"
proof -
  assume "placeholders s = []"
  then have "instantiate f s = instantiate (\<lambda>n. ''{'' @ n @ ''}'') s" by (intro instantiate_cong) simp
  also have "\<dots> = concat (map show_segment (segments s))"
    unfolding instantiate_def by (intro arg_cong [of _ _ concat] map_cong refl) (auto split: segment.splits)
  finally show ?thesis by (simp add: segments_show)
qed

end
