(* ===== verification/Verifier_Json.thy ===== *)
theory Verifier_Json
  imports Complex_Main Go_Text Json_Values
begin

text \<open>
  How verifiers read JSON (\<open>internal/team/verification.go\<close>): exact equality of decoded values, dotted paths and RFC
  6901 pointers. A value is a \<open>json\<close> as \<open>json.Decoder\<close> with \<open>UseNumber\<close> leaves it; \<open>nil\<close> is \<open>JNull\<close>
  and the keys of an object are distinct.
\<close>

section \<open>Numbers\<close>

text \<open>
  \<open>big.Rat.SetString\<close> on a decimal number as JSON writes it: a mantissa with an optional point, an optional exponent
  that fits \<open>int64\<close>; a power of ten beyond a million is refused.
\<close>

definition exponent_of :: "string \<Rightarrow> int option" where
  "exponent_of s = (case s of [] \<Rightarrow> Some 0 | c # r \<Rightarrow> if c \<in> {CHR ''e'', CHR ''E''} then Atoi r else None)"

definition pow10 :: "int \<Rightarrow> rat" where
  "pow10 k = (if 0 \<le> k then 10 ^ nat k else 1 / 10 ^ nat (- k))"

definition unsigned_rat :: "string \<Rightarrow> rat option" where
  "unsigned_rat s =
     (let whole = takeWhile is_digit s; rest = dropWhile is_digit s;
          point = (rest \<noteq> [] \<and> hd rest = CHR ''.'');
          part = (if point then takeWhile is_digit (tl rest) else []);
          rest = (if point then dropWhile is_digit (tl rest) else rest) in
      if whole @ part = [] then None
      else case exponent_of rest of None \<Rightarrow> None
      | Some e \<Rightarrow>
          (let m = dec_val (whole @ part); k = e - int (length part) in
           if m = 0 then Some 0 else if 1000000 < \<bar>k\<bar> then None else Some (of_nat m * pow10 k)))"

definition SetString :: "string \<Rightarrow> rat option" where
  "SetString s =
     (if s \<noteq> [] \<and> hd s = CHR ''-'' then map_option uminus (unsigned_rat (tl s))
      else if s \<noteq> [] \<and> hd s = CHR ''+'' then unsigned_rat (tl s)
      else unsigned_rat s)"

lemma takeWhile_all: "list_all P s \<Longrightarrow> takeWhile P s = s \<and> dropWhile P s = []"
  by (induction s) auto

text \<open>An integer is read as itself, however large.\<close>

lemma unsigned_dec: "unsigned_rat (dec n) = Some (of_nat n)"
proof -
  have t: "takeWhile is_digit (dec n) = dec n" "dropWhile is_digit (dec n) = []"
    using takeWhile_all [OF dec_digits [of n]] by auto
  show ?thesis unfolding unsigned_rat_def Let_def t by (simp add: exponent_of_def pow10_def)
qed

lemma SetString_dec_int: "SetString (dec_int x) = Some (of_int x)"
proof (cases "x < 0")
  case False
  obtain c s where d: "dec (nat x) = c # s" by (cases "dec (nat x)") auto
  with dec_digits [of "nat x"] have "is_digit c" by simp
  then have "c \<noteq> CHR ''-''" "c \<noteq> CHR ''+''" by (auto simp: is_digit_def)
  with False d unsigned_dec [of "nat x"] show ?thesis by (simp add: SetString_def dec_int_def)
qed (simp add: dec_int_def SetString_def unsigned_dec)

section \<open>Equality\<close>

definition isJSONScalar :: "json \<Rightarrow> bool" where
  "isJSONScalar v = (case v of JArray vs \<Rightarrow> False | JObject fs \<Rightarrow> False | _ \<Rightarrow> True)"

text \<open>\<open>toExactJSONNumber\<close>: only numbers have a number; a string that looks like one has not.\<close>

definition toExactJSONNumber :: "json \<Rightarrow> rat option" where
  "toExactJSONNumber v = (case v of JNumber t \<Rightarrow> SetString t | _ \<Rightarrow> None)"

text \<open>\<open>reflect.DeepEqual\<close> of decoded values: numbers by their text, objects as maps.\<close>

function deep_equal :: "json \<Rightarrow> json \<Rightarrow> bool" where
  "deep_equal (JArray vs) w =
     (case w of JArray ws \<Rightarrow> length vs = length ws \<and> list_all (\<lambda>p. deep_equal (fst p) (snd p)) (zip vs ws) | _ \<Rightarrow> False)"
| "deep_equal (JObject fs) w =
     (case w of
        JObject gs \<Rightarrow> length fs = length gs \<and>
          list_all (\<lambda>f. case map_of gs (fst f) of None \<Rightarrow> False | Some x \<Rightarrow> deep_equal (snd f) x) fs
      | _ \<Rightarrow> False)"
| "deep_equal JNull w = (JNull = w)"
| "deep_equal (JBool b) w = (JBool b = w)"
| "deep_equal (JNumber n) w = (JNumber n = w)"
| "deep_equal (JString t) w = (JString t = w)"
  by pat_completeness auto
termination
proof (relation "measure (\<lambda>p. size (fst p))")
  fix vs ws and p :: "json \<times> json"
  assume "p \<in> set (zip vs ws)"
  then have "fst p \<in> set vs" by (metis prod.collapse set_zip_leftD)
  then have "size (fst p) \<le> size_list size vs" by (rule size_list_estimation') simp
  then show "((fst p, snd p), JArray vs, w) \<in> measure (\<lambda>p. size (fst p))" for w by simp
next
  fix fs gs x w and f :: "string \<times> json"
  assume "f \<in> set fs"
  then have "size_prod (\<lambda>x. 0) size f \<le> size_list (size_prod (\<lambda>x. 0) size) fs"
    by (rule size_list_estimation') simp
  moreover have "size_prod (\<lambda>x. 0) size f = Suc (size (snd f))" by (cases f) simp
  ultimately have "size (snd f) < Suc (size_list (size_prod (\<lambda>x. 0) size) fs)" by simp
  then show "((snd f, x), JObject fs, w) \<in> measure (\<lambda>p. size (fst p))" by simp
qed auto

definition equalJSONValues :: "json \<Rightarrow> json \<Rightarrow> bool" where
  "equalJSONValues a b =
     (if a = JNull \<and> b = JNull then True
      else if a = JNull \<or> b = JNull then False
      else if deep_equal a b then True
      else case (toExactJSONNumber a, toExactJSONNumber b) of (Some x, Some y) \<Rightarrow> x = y | _ \<Rightarrow> False)"

section \<open>Dotted paths\<close>

datatype path_error = NilProperty string string | KeyNotFound string | BadIndex string | CannotDereference string

text \<open>\<open>seen\<close> is the path walked so far, for the message.\<close>

fun walk_path :: "string list \<Rightarrow> string list \<Rightarrow> json \<Rightarrow> path_error + json" where
  "walk_path seen [] v = Inr v"
| "walk_path seen (part # parts) v =
     (case v of
        JNull \<Rightarrow> Inl (NilProperty (drop 1 (join_parts (CHR ''.'') seen)) part)
      | JObject fs \<Rightarrow>
          (case map_of fs part of None \<Rightarrow> Inl (KeyNotFound part) | Some x \<Rightarrow> walk_path (seen @ [part]) parts x)
      | JArray vs \<Rightarrow>
          (case Atoi part of None \<Rightarrow> Inl (BadIndex part)
           | Some i \<Rightarrow> if i < 0 \<or> int (length vs) \<le> i then Inl (BadIndex part)
               else walk_path (seen @ [part]) parts (vs ! nat i))
      | _ \<Rightarrow> Inl (CannotDereference part))"

definition resolveJSONPath :: "json \<Rightarrow> string \<Rightarrow> path_error + json" where
  "resolveJSONPath data path =
     (if path = [] \<or> path = ''.'' then Inr data else walk_path [] (split_on (CHR ''.'') path) data)"

definition trim_dot :: "string \<Rightarrow> string" where
  "trim_dot p = (case p of [] \<Rightarrow> [] | c # s \<Rightarrow> if c = CHR ''.'' then s else p)"

datatype assert_error = PathError path_error | NotEqual

definition EvaluateJSONAssertion :: "json \<Rightarrow> string \<Rightarrow> json \<Rightarrow> assert_error + unit" where
  "EvaluateJSONAssertion data path equals =
     (case resolveJSONPath data (trim_dot (TrimSpace path)) of
        Inl e \<Rightarrow> Inl (PathError e)
      | Inr v \<Rightarrow> if equalJSONValues v equals then Inr () else Inl NotEqual)"

section \<open>Pointers\<close>

datatype pointer_error =
    NoSlash | BadTilde | NoKey string | InvalidIndex string | IndexOutOfBounds string | NotAContainer string

fun tildes_ok :: "string \<Rightarrow> bool" where
  "tildes_ok [] = True"
| "tildes_ok (c # s) =
     (if c \<noteq> CHR ''~'' then tildes_ok s
      else case s of [] \<Rightarrow> False | d # t \<Rightarrow> (d = CHR ''0'' \<or> d = CHR ''1'') \<and> tildes_ok t)"

definition validateJSONPointer :: "string \<Rightarrow> pointer_error + unit" where
  "validateJSONPointer p =
     (if p = [] then Inr () else if hd p \<noteq> CHR ''/'' then Inl NoSlash
      else if tildes_ok p then Inr () else Inl BadTilde)"

definition unescape :: "string \<Rightarrow> string" where
  "unescape t = replace_pair (CHR ''~'') (CHR ''0'') (CHR ''~'') (replace_pair (CHR ''~'') (CHR ''1'') (CHR ''/'') t)"

fun walk_pointer :: "string list \<Rightarrow> json \<Rightarrow> pointer_error + json" where
  "walk_pointer [] v = Inr v"
| "walk_pointer (token # tokens) v =
     (case v of
        JObject fs \<Rightarrow> (case map_of fs token of None \<Rightarrow> Inl (NoKey token) | Some x \<Rightarrow> walk_pointer tokens x)
      | JArray vs \<Rightarrow>
          (if token = [] \<or> (1 < length token \<and> hd token = CHR ''0'') then Inl (InvalidIndex token)
           else case Atoi token of None \<Rightarrow> Inl (IndexOutOfBounds token)
           | Some i \<Rightarrow> if i < 0 \<or> int (length vs) \<le> i then Inl (IndexOutOfBounds token)
               else walk_pointer tokens (vs ! nat i))
      | _ \<Rightarrow> Inl (NotAContainer token))"

definition resolveJSONPointer :: "json \<Rightarrow> string \<Rightarrow> pointer_error + json" where
  "resolveJSONPointer document pointer =
     bindR (validateJSONPointer pointer) (\<lambda>_.
       if pointer = [] then Inr document
       else walk_pointer (map unescape (split_on (CHR ''/'') (tl pointer))) document)"

section \<open>Pointers and token lists\<close>

text \<open>The escaping of RFC 6901, which the code never writes, only reads.\<close>

fun escape_token :: "string \<Rightarrow> string" where
  "escape_token [] = []"
| "escape_token (c # s) =
     (if c = CHR ''~'' then ''~0'' @ escape_token s
      else if c = CHR ''/'' then ''~1'' @ escape_token s else c # escape_token s)"

definition render_pointer :: "string list \<Rightarrow> string" where
  "render_pointer ts = join_parts (CHR ''/'') (map escape_token ts)"

lemma unescape_simps [simp]:
  "unescape [] = []"
  "c \<noteq> CHR ''~'' \<Longrightarrow> unescape (c # s) = c # unescape s"
  "unescape (CHR ''~'' # CHR ''0'' # s) = CHR ''~'' # unescape s"
  "unescape (CHR ''~'' # CHR ''1'' # s) = CHR ''/'' # unescape s"
  by (simp_all add: unescape_def)

lemma unescape_escape [simp]: "unescape (escape_token t) = t"
  by (induction t) auto

lemma escape_no_slash [simp]: "CHR ''/'' \<notin> set (escape_token t)"
  by (induction t) auto

lemma tildes_escape [simp]: "tildes_ok (escape_token t @ s) = tildes_ok s"
  by (induction t) auto

lemma tildes_render: "tildes_ok (render_pointer ts)"
  by (induction ts) (auto simp: render_pointer_def)

lemma render_Cons: "ts \<noteq> [] \<Longrightarrow> \<exists>s. render_pointer ts = CHR ''/'' # s"
  by (cases ts) (auto simp: render_pointer_def)

lemma render_tokens: "ts \<noteq> [] \<Longrightarrow> map unescape (split_on (CHR ''/'') (tl (render_pointer ts))) = ts"
  by (simp add: render_pointer_def split_join o_def)

lemma valid_render: "validateJSONPointer (render_pointer ts) = Inr ()"
  using render_Cons [of ts] tildes_render [of ts]
  by (cases "ts = []") (auto simp: validateJSONPointer_def render_pointer_def)

text \<open>Every well-formed part is the escaping of what the code reads from it.\<close>

lemma tildes_append: "tildes_ok (s @ CHR ''/'' # t) \<longleftrightarrow> tildes_ok s \<and> tildes_ok t"
  by (induction s rule: tildes_ok.induct) (auto split: list.splits)

lemma escape_unescape: "tildes_ok t \<Longrightarrow> CHR ''/'' \<notin> set t \<Longrightarrow> escape_token (unescape t) = t"
proof (induction t rule: tildes_ok.induct)
  case (2 c s)
  show ?case
  proof (cases "c = CHR ''~''")
    case True
    with 2 obtain d t where "s = d # t" "d = CHR ''0'' \<or> d = CHR ''1''" "tildes_ok t" "CHR ''/'' \<notin> set t"
      by (auto split: list.splits)
    with 2 True show ?thesis by auto
  qed (use 2 in auto)
qed simp

lemma tildes_parts: "(\<forall>t\<in>set ts. CHR ''/'' \<notin> set t) \<Longrightarrow> tildes_ok (join_parts (CHR ''/'') ts) \<Longrightarrow> \<forall>t\<in>set ts. tildes_ok t"
proof (induction ts)
  case (Cons t ts)
  show ?case
  proof (cases ts)
    case Nil
    with Cons.prems show ?thesis by simp
  next
    case (Cons u us)
    with Cons.prems have "tildes_ok t" "tildes_ok (join_parts (CHR ''/'') ts)"
      using tildes_append [of t "u @ join_parts (CHR ''/'') us"] by simp_all
    with Cons.IH Cons.prems(1) show ?thesis by simp
  qed
qed simp

lemma valid_is_render:
  assumes "validateJSONPointer p = Inr ()"
  shows "\<exists>ts. p = render_pointer ts"
proof (cases p)
  case Nil
  then have "p = render_pointer []" by (simp add: render_pointer_def)
  then show ?thesis ..
next
  case (Cons c s)
  with assms have c: "c = CHR ''/''" and ok: "tildes_ok p"
    by (auto simp: validateJSONPointer_def split: if_splits)
  let ?ts = "split_on (CHR ''/'') s"
  have free: "\<forall>t\<in>set ?ts. CHR ''/'' \<notin> set t" by (simp add: split_on_free)
  have p: "p = join_parts (CHR ''/'') ?ts" by (simp add: join_split Cons c)
  with ok have "\<forall>t\<in>set ?ts. tildes_ok t" by (intro tildes_parts [OF free]) simp
  with free have "map (escape_token \<circ> unescape) ?ts = ?ts"
    by (intro map_idI) (simp add: escape_unescape)
  then have "p = render_pointer (map unescape ?ts)" by (simp add: render_pointer_def p [symmetric])
  then show ?thesis ..
qed

end
