(* ===== verification/Verifier_Spec.thy ===== *)
theory Verifier_Spec
  imports Verifier_Json
begin

text \<open>
  Typed verifiers: the specification (\<open>internal/agent/agent.go\<close>), its normalisation and its static validation
  (\<open>internal/team/verification.go\<close>, \<open>task_result_projection.go\<close>, \<open>task_result_items_projection.go\<close>). An \<open>any\<close>
  that is \<open>nil\<close> is \<open>JNull\<close>. Messages are constructors.
\<close>

section \<open>Specifications\<close>

text \<open>\<open>TaskOutputAssertion\<close>, which \<open>JSONAssertion\<close> is another name of.\<close>

record output_assertion =
  oa_path :: string
  oa_equals :: json
  oa_pointer :: string
  oa_op :: string
  oa_value :: json
  oa_input :: string

record tool_assertion =
  ta_tool :: string
  ta_input :: string
  ta_result :: string
  ta_min :: int

record result_assertion =
  ra_pointer :: string
  ra_op :: string
  ra_value :: json

record verification_spec =
  vs_type :: string
  vs_mode :: string
  vs_command :: string
  vs_path :: string
  vs_assertions :: "output_assertion list"
  vs_tools :: "tool_assertion list"
  vs_results :: "result_assertion list"
  vs_source :: string
  vs_output :: string
  vs_terminal :: bool
  vs_verified :: bool
  vs_statuses :: "string list"
  vs_assumptions :: "string list"

definition empty_spec :: verification_spec where
  "empty_spec = \<lparr>vs_type = [], vs_mode = [], vs_command = [], vs_path = [], vs_assertions = [], vs_tools = [],
     vs_results = [], vs_source = [], vs_output = [], vs_terminal = False, vs_verified = False, vs_statuses = [],
     vs_assumptions = []\<rparr>"

section \<open>Normalisation\<close>

text \<open>The bytes \<open>'"`$;&|<>\<close>, newline and carriage return.\<close>

definition shell_char :: "char \<Rightarrow> bool" where
  "shell_char c \<longleftrightarrow> byte_of c \<in> {39, 34, 96, 36, 59, 38, 124, 60, 62, 10, 13}"

text \<open>The path a legacy command tests for existence.\<close>

definition TranslateLegacyVerification :: "string \<Rightarrow> string option" where
  "TranslateLegacyVerification command =
     (let fields = Fields (TrimSpace command);
          path = (if length fields = 3 \<and> fields ! 0 = ''test'' \<and> fields ! 1 = ''-e'' then Some (fields ! 2)
                  else if length fields = 4 \<and> fields ! 0 = ''['' \<and> fields ! 1 = ''-e'' \<and> fields ! 3 = '']'' then Some (fields ! 2)
                  else None) in
      case path of None \<Rightarrow> None
      | Some p \<Rightarrow> if p = [] \<or> list_ex shell_char p then None else Some p)"

definition spec_type :: "verification_spec \<Rightarrow> string" where
  "spec_type v =
     (if vs_results v \<noteq> [] then ''task_result_assert''
      else if vs_path v \<noteq> [] then (if vs_assertions v \<noteq> [] then ''json_assert'' else ''file_exists'')
      else if vs_assertions v \<noteq> [] then ''json_assert'' else ''command_exit'')"

definition infer_type :: "string \<Rightarrow> verification_spec \<Rightarrow> verification_spec" where
  "infer_type legacyCommand v =
     (if vs_type v \<noteq> [] then v
      else case (if vs_path v = [] \<and> vs_assertions v = [] \<and> vs_results v = []
                 then TranslateLegacyVerification legacyCommand else None) of
          Some p \<Rightarrow> v\<lparr>vs_type := ''file_exists'', vs_path := p\<rparr>
        | None \<Rightarrow> v\<lparr>vs_type := spec_type v\<rparr>)"

definition NormalizeVerificationSpec :: "verification_spec \<Rightarrow> string \<Rightarrow> string \<Rightarrow> verification_spec" where
  "NormalizeVerificationSpec v legacyCommand legacyMode =
     (let v = infer_type legacyCommand v;
          v = (if vs_command v = [] \<and> legacyCommand \<noteq> [] \<and> vs_type v = ''command_exit''
               then v\<lparr>vs_command := legacyCommand\<rparr> else v);
          v = (if vs_mode v = [] \<and> legacyMode \<noteq> [] then v\<lparr>vs_mode := legacyMode\<rparr> else v);
          v = (if vs_mode v = [] then v\<lparr>vs_mode := ''success''\<rparr> else v) in
      if vs_type v = ''workset_complete'' \<and> vs_statuses v = []
      then v\<lparr>vs_statuses := [''success'', ''completed_with_gaps'']\<rparr> else v)"

section \<open>Projections\<close>

definition maxTaskResultAssertions :: nat where "maxTaskResultAssertions = 32"
definition maxTaskResultPointerBytes :: nat where "maxTaskResultPointerBytes = 512"
definition maxTaskResultValueBytes :: nat where "maxTaskResultValueBytes = 4096"
definition maxTaskResultAssertionItems :: int where "maxTaskResultAssertionItems = 100000"

datatype spec_error =
    InvalidMode string | CommandRequired | PathRequired string | PathOrCommandRequired | AssertionRequired string
  | NotScalar nat | ToolRequired nat | NegativeCount nat | Combined string | TooManyAssertions nat
  | WrongFields nat | PointerTooLong nat | InvalidPointer nat pointer_error | ValueNotScalar nat | ValueTooLong nat
  | ExtraOperand nat string | BadItemCount nat | NotNumeric nat string | InputRequired nat string
  | UnsupportedOp nat string | OpRequired nat | BadProjection nat
  | SourceRequired string | OutputRequired | EmptyStatus | DuplicateStatus string | UnsupportedType string

record projection =
  pj_pointer :: string
  pj_fields :: "string list"
  pj_optional :: "string list"
  pj_allow_missing :: bool
  pj_defaults :: json_map

definition empty_projection :: projection where
  "empty_projection = \<lparr>pj_pointer = [], pj_fields = [], pj_optional = [], pj_allow_missing = False, pj_defaults = []\<rparr>"

text \<open>A list of strings as the decoder fills it: \<open>null\<close> gives the empty string, another value is an error.\<close>

definition decode_string :: "json \<Rightarrow> string option" where
  "decode_string v = (case v of JString s \<Rightarrow> Some s | JNull \<Rightarrow> Some [] | _ \<Rightarrow> None)"

definition decode_strings :: "json \<Rightarrow> string list option" where
  "decode_strings v =
     (case v of JNull \<Rightarrow> Some [] | JArray vs \<Rightarrow> those (map decode_string vs) | _ \<Rightarrow> None)"

text \<open>
  One member of the policy object. The decoder of \<open>encoding/json\<close> matches keys without regard to case, of which
  ASCII is modelled, and rejects unknown ones.
\<close>

definition decode_member :: "projection option \<Rightarrow> string \<times> json \<Rightarrow> projection option" where
  "decode_member p f =
     (case p of None \<Rightarrow> None
      | Some q \<Rightarrow>
          (let k = ToLower (fst f); v = snd f in
           if k = ''pointer'' then
             (if v = JNull then Some q else map_option (\<lambda>s. q\<lparr>pj_pointer := s\<rparr>) (decode_string v))
           else if k = ''fields'' then map_option (\<lambda>xs. q\<lparr>pj_fields := xs\<rparr>) (decode_strings v)
           else if k = ''optional_fields'' then map_option (\<lambda>xs. q\<lparr>pj_optional := xs\<rparr>) (decode_strings v)
           else if k = ''allow_missing'' then
             (case v of JBool b \<Rightarrow> Some (q\<lparr>pj_allow_missing := b\<rparr>) | JNull \<Rightarrow> Some q | _ \<Rightarrow> None)
           else if k = ''field_defaults'' then
             (case v of JObject gs \<Rightarrow> Some (q\<lparr>pj_defaults := gs @ pj_defaults q\<rparr>) | JNull \<Rightarrow> Some (q\<lparr>pj_defaults := []\<rparr>)
              | _ \<Rightarrow> None)
           else None))"

fun distinct_fields :: "string list \<Rightarrow> string list \<Rightarrow> bool" where
  "distinct_fields seen [] \<longleftrightarrow> True"
| "distinct_fields seen (x # xs) \<longleftrightarrow> x \<noteq> [] \<and> length x \<le> 128 \<and> x \<notin> set seen \<and> distinct_fields (x # seen) xs"

definition decodeTaskResultProjection :: "json \<Rightarrow> projection option" where
  "decodeTaskResultProjection v =
     (if maxTaskResultValueBytes < length (json_text v) then None
      else case (case v of JObject fs \<Rightarrow> foldl decode_member (Some empty_projection) (sort_key fst fs)
                 | JNull \<Rightarrow> Some empty_projection | _ \<Rightarrow> None) of
        None \<Rightarrow> None
      | Some p \<Rightarrow>
          (if maxTaskResultPointerBytes < length (pj_pointer p) \<or> pj_pointer p = [] then None
           else if validateJSONPointer (pj_pointer p) \<noteq> Inr () then None
           else if pj_fields p = [] \<or> 16 < length (pj_fields p) + length (pj_optional p) then None
           else if \<not> distinct_fields [] (pj_fields p @ pj_optional p) then None
           else if \<not> list_all (\<lambda>d. fst d \<in> set (pj_fields p)) (pj_defaults p) then None
           else Some p))"

record items_projection =
  ip_pointer :: string
  ip_empty :: "string option"
  ip_non_empty :: "string option"

definition decode_label :: "json \<Rightarrow> string option option" where
  "decode_label v = (case v of JString s \<Rightarrow> Some (Some s) | JNull \<Rightarrow> Some None | _ \<Rightarrow> None)"

text \<open>The decoder of \<open>encoding/json/v2\<close> matches keys exactly.\<close>

definition decode_items_member :: "items_projection option \<Rightarrow> string \<times> json \<Rightarrow> items_projection option" where
  "decode_items_member p f =
     (case p of None \<Rightarrow> None
      | Some q \<Rightarrow>
          (if fst f = ''pointer'' then map_option (\<lambda>s. q\<lparr>ip_pointer := s\<rparr>) (decode_string (snd f))
           else if fst f = ''empty'' then map_option (\<lambda>s. q\<lparr>ip_empty := s\<rparr>) (decode_label (snd f))
           else if fst f = ''non_empty'' then map_option (\<lambda>s. q\<lparr>ip_non_empty := s\<rparr>) (decode_label (snd f))
           else None))"

text \<open>Version 2 of the encoder does not escape for HTML, so the length it checks is an argument.\<close>

definition decodeTaskResultItemsProjection :: "(json \<Rightarrow> nat) \<Rightarrow> json \<Rightarrow> items_projection option" where
  "decodeTaskResultItemsProjection encoded v =
     (if maxTaskResultValueBytes < encoded v then None
      else case (case v of
            JObject fs \<Rightarrow> foldl decode_items_member (Some \<lparr>ip_pointer = [], ip_empty = None, ip_non_empty = None\<rparr>) fs
          | JNull \<Rightarrow> Some \<lparr>ip_pointer = [], ip_empty = None, ip_non_empty = None\<rparr>
          | _ \<Rightarrow> None) of
        None \<Rightarrow> None
      | Some p \<Rightarrow>
          (if ip_pointer p = [] \<or> maxTaskResultPointerBytes < length (ip_pointer p) then None
           else if validateJSONPointer (ip_pointer p) \<noteq> Inr () then None
           else if ip_empty p = None \<or> ip_non_empty p = None then None
           else Some p))"

section \<open>Validation\<close>

definition rat_int :: "rat \<Rightarrow> int option" where
  "rat_int x = (if of_int \<lfloor>x\<rfloor> = x then Some \<lfloor>x\<rfloor> else None)"

definition taskResultAssertionInt :: "json \<Rightarrow> int option" where
  "taskResultAssertionInt v =
     (case toExactJSONNumber v of None \<Rightarrow> None
      | Some x \<Rightarrow>
          (case rat_int x of None \<Rightarrow> None
           | Some n \<Rightarrow> if \<not> is_int64 n \<or> n < 0 \<or> maxTaskResultAssertionItems < n then None else Some n))"

definition validateVerificationMode :: "string \<Rightarrow> spec_error + unit" where
  "validateVerificationMode mode =
     (if mode \<in> {[], ''success'', ''expected_failure'', ''observation''} then Inr () else Inl (InvalidMode mode))"

definition check_pointer :: "nat \<Rightarrow> string \<Rightarrow> spec_error + unit" where
  "check_pointer i p =
     (if maxTaskResultPointerBytes < length p then Inl (PointerTooLong i)
      else case validateJSONPointer p of Inl e \<Rightarrow> Inl (InvalidPointer i e) | Inr u \<Rightarrow> Inr ())"

definition check_value :: "nat \<Rightarrow> json \<Rightarrow> spec_error + unit" where
  "check_value i v =
     (if v = JNull then Inr ()
      else if \<not> isJSONScalar v then Inl (ValueNotScalar i)
      else if maxTaskResultValueBytes < length (json_text v) then Inl (ValueTooLong i) else Inr ())"

definition validateTaskOutputAssertion :: "nat \<Rightarrow> output_assertion \<Rightarrow> spec_error + unit" where
  "validateTaskOutputAssertion i a =
     (if oa_path a \<noteq> [] \<or> oa_equals a \<noteq> JNull then Inl (WrongFields i)
      else bindR (check_pointer i (oa_pointer a)) (\<lambda>_. bindR (check_value i (oa_value a)) (\<lambda>_.
        let op = TrimSpace (oa_op a); inp = TrimSpace (oa_input a) in
        if op \<in> {''exists'', ''non_empty''} then
          (if oa_value a \<noteq> JNull \<or> inp \<noteq> [] then Inl (ExtraOperand i op) else Inr ())
        else if op \<in> {''equals'', ''contains_scalar''} then (if inp \<noteq> [] then Inl (ExtraOperand i op) else Inr ())
        else if op \<in> {''minimum'', ''maximum'', ''min_items''} then
          (if inp \<noteq> [] then Inl (ExtraOperand i op)
           else if op = ''min_items'' then
             (if taskResultAssertionInt (oa_value a) = None then Inl (BadItemCount i) else Inr ())
           else if toExactJSONNumber (oa_value a) = None then Inl (NotNumeric i op) else Inr ())
        else if op \<in> {''equals_input'', ''equals_input_hash''} then
          (if inp = [] \<or> oa_value a \<noteq> JNull then Inl (InputRequired i op) else Inr ())
        else Inl (UnsupportedOp i (oa_op a)))))"

definition validateTaskResultAssertion :: "(json \<Rightarrow> nat) \<Rightarrow> nat \<Rightarrow> result_assertion \<Rightarrow> spec_error + unit" where
  "validateTaskResultAssertion encoded i a =
     bindR (check_pointer i (ra_pointer a)) (\<lambda>_.
       if TrimSpace (ra_op a) = [] then Inl (OpRequired i)
       else if ra_op a = ''equals_projection'' then
         (if decodeTaskResultProjection (ra_value a) = None then Inl (BadProjection i) else Inr ())
       else if ra_op a = ''equals_by_items'' then
         (if decodeTaskResultItemsProjection encoded (ra_value a) = None then Inl (BadProjection i) else Inr ())
       else bindR (check_value i (ra_value a)) (\<lambda>_.
         if ra_op a \<in> {''exists'', ''non_empty''} then
           (if ra_value a \<noteq> JNull then Inl (ExtraOperand i (ra_op a)) else Inr ())
         else if ra_op a \<in> {''equals'', ''contains_scalar''} then Inr ()
         else if ra_op a = ''min_items'' then
           (if taskResultAssertionInt (ra_value a) = None then Inl (BadItemCount i) else Inr ())
         else Inl (UnsupportedOp i (ra_op a))))"

text \<open>The first error of a list of checks, with the index of each element.\<close>

fun check_all :: "(nat \<Rightarrow> 'a \<Rightarrow> 'e + unit) \<Rightarrow> nat \<Rightarrow> 'a list \<Rightarrow> 'e + unit" where
  "check_all f i [] = Inr ()"
| "check_all f i (x # xs) = bindR (f i x) (\<lambda>_. check_all f (Suc i) xs)"

definition validateTaskOutputVerificationSpec :: "verification_spec \<Rightarrow> spec_error + unit" where
  "validateTaskOutputVerificationSpec v =
     (if TrimSpace (vs_source v) = [] then Inl (SourceRequired (vs_type v))
      else if TrimSpace (vs_output v) = [] then Inl OutputRequired
      else if vs_assertions v = [] then Inl (AssertionRequired (vs_type v))
      else if TrimSpace (vs_command v) \<noteq> [] \<or> TrimSpace (vs_path v) \<noteq> [] \<or> vs_tools v \<noteq> [] \<or> vs_results v \<noteq> []
      then Inl (Combined (vs_type v))
      else if maxTaskResultAssertions < length (vs_assertions v) then Inl (TooManyAssertions (length (vs_assertions v)))
      else check_all validateTaskOutputAssertion 0 (vs_assertions v))"

fun check_statuses :: "string list \<Rightarrow> string list \<Rightarrow> spec_error + unit" where
  "check_statuses seen [] = Inr ()"
| "check_statuses seen (s # ss) =
     (let st = TrimSpace s in
      if st = [] then Inl EmptyStatus else if st \<in> set seen then Inl (DuplicateStatus st)
      else check_statuses (st # seen) ss)"

definition check_tool :: "nat \<Rightarrow> tool_assertion \<Rightarrow> spec_error + unit" where
  "check_tool i a =
     (if TrimSpace (ta_tool a) = [] then Inl (ToolRequired i)
      else if ta_min a < 0 then Inl (NegativeCount i) else Inr ())"

definition validateVerificationSpec :: "(json \<Rightarrow> nat) \<Rightarrow> verification_spec \<Rightarrow> spec_error + unit" where
  "validateVerificationSpec encoded v =
     bindR (validateVerificationMode (vs_mode v)) (\<lambda>_.
       if vs_type v = ''command_exit'' then (if TrimSpace (vs_command v) = [] then Inl CommandRequired else Inr ())
       else if vs_type v \<in> {''file_exists'', ''file_absent''} then
         (if TrimSpace (vs_path v) = [] then Inl (PathRequired (vs_type v)) else Inr ())
       else if vs_type v = ''json_assert'' then
         (if TrimSpace (vs_path v) = [] \<and> TrimSpace (vs_command v) = [] then Inl PathOrCommandRequired
          else if vs_assertions v = [] then Inl (AssertionRequired (vs_type v))
          else check_all (\<lambda>i a. if isJSONScalar (oa_equals a) then Inr () else Inl (NotScalar i)) 0 (vs_assertions v))
       else if vs_type v = ''tool_call_assert'' then
         (if vs_tools v = [] then Inl (AssertionRequired (vs_type v)) else check_all check_tool 0 (vs_tools v))
       else if vs_type v = ''task_result_assert'' then
         (if vs_results v = [] then Inl (AssertionRequired (vs_type v))
          else if TrimSpace (vs_command v) \<noteq> [] \<or> TrimSpace (vs_path v) \<noteq> [] \<or> vs_assertions v \<noteq> [] \<or> vs_tools v \<noteq> []
          then Inl (Combined (vs_type v))
          else if maxTaskResultAssertions < length (vs_results v) then Inl (TooManyAssertions (length (vs_results v)))
          else check_all (validateTaskResultAssertion encoded) 0 (vs_results v))
       else if vs_type v = ''task_output_assert'' then validateTaskOutputVerificationSpec v
       else if vs_type v = ''workset_complete'' then
         (if TrimSpace (vs_source v) = [] then Inl (SourceRequired (vs_type v))
          else if TrimSpace (vs_command v) \<noteq> [] \<or> TrimSpace (vs_path v) \<noteq> [] \<or> vs_assertions v \<noteq> [] \<or> vs_tools v \<noteq> [] \<or>
            vs_results v \<noteq> [] then Inl (Combined (vs_type v))
          else check_statuses [] (vs_statuses v))
       else Inl (UnsupportedType (vs_type v)))"

lemma check_all_ok: "check_all f i xs = Inr () \<longleftrightarrow> (\<forall>j<length xs. f (i + j) (xs ! j) = Inr ())"
proof (induction xs arbitrary: i)
  case (Cons x xs)
  have "(\<forall>j<length (x # xs). f (i + j) ((x # xs) ! j) = Inr ()) \<longleftrightarrow>
      f i x = Inr () \<and> (\<forall>j<length xs. f (Suc i + j) (xs ! j) = Inr ())"
    by (auto simp: less_Suc_eq_0_disj)
  with Cons show ?case by (cases "f i x") auto
qed simp

end
