(* ===== verification/Verifier_Run.thy ===== *)
theory Verifier_Run
  imports Verifier_Spec
begin

text \<open>
  Running a verifier: the executors of \<open>internal/team/verification.go\<close>, \<open>hasEnvironmentFailureSignal\<close> of
  \<open>failure_classify.go\<close> and the projections of \<open>task_result_projection.go\<close> and
  \<open>task_result_items_projection.go\<close>. The world is a record of answers: what a path is, what a file holds, what a
  command did, what JSON a text decodes to, and the text of an error. The resolver of executables
  (\<open>command_resolve.go\<close>) is one of the answers. Results leave out the fields no decision reads; the fingerprint is
  not modelled.
\<close>

section \<open>Assertions on a task result\<close>

definition taskResultValueNonEmpty :: "json \<Rightarrow> bool" where
  "taskResultValueNonEmpty v = (case v of JString s \<Rightarrow> s \<noteq> [] | JArray vs \<Rightarrow> vs \<noteq> [] | JObject fs \<Rightarrow> fs \<noteq> [] | _ \<Rightarrow> False)"

definition taskResultValueItemCount :: "json \<Rightarrow> int option" where
  "taskResultValueItemCount v =
     (case v of JArray vs \<Rightarrow> Some (int (length vs)) | JObject fs \<Rightarrow> Some (int (length fs)) | _ \<Rightarrow> None)"

definition bounded_array :: "json \<Rightarrow> json list option" where
  "bounded_array v =
     (case v of JArray vs \<Rightarrow> if maxTaskResultAssertionItems < int (length vs) then None else Some vs | _ \<Rightarrow> None)"

text \<open>A required field of both objects, after the declared default has stood in for a missing or null value.\<close>

definition with_default :: "json option \<Rightarrow> json option \<Rightarrow> json option" where
  "with_default d v = (case d of None \<Rightarrow> v | Some f \<Rightarrow> if v = None \<or> v = Some JNull then Some f else v)"

definition field_matches :: "projection \<Rightarrow> json_map \<Rightarrow> json_map \<Rightarrow> string \<Rightarrow> bool" where
  "field_matches p l r field =
     (let d = map_of (pj_defaults p) field in
      case (with_default d (map_of l field), with_default d (map_of r field)) of
        (Some x, Some y) \<Rightarrow> equalJSONValues x y | _ \<Rightarrow> False)"

definition optional_matches :: "json_map \<Rightarrow> json_map \<Rightarrow> string \<Rightarrow> bool" where
  "optional_matches l r field =
     (let present = (\<lambda>v. if v = Some (JArray []) then None else v) in
      case (present (map_of l field), present (map_of r field)) of
        (None, None) \<Rightarrow> True | (Some x, Some y) \<Rightarrow> equalJSONValues x y | _ \<Rightarrow> False)"

definition item_matches :: "projection \<Rightarrow> json \<Rightarrow> json \<Rightarrow> bool" where
  "item_matches p l r =
     (case (l, r) of
        (JObject fs, JObject gs) \<Rightarrow> list_all (field_matches p fs gs) (pj_fields p) \<and> list_all (optional_matches fs gs) (pj_optional p)
      | _ \<Rightarrow> False)"

definition evaluateTaskResultProjection :: "json \<Rightarrow> pointer_error + json \<Rightarrow> json \<Rightarrow> bool" where
  "evaluateTaskResultProjection document value policy =
     (case decodeTaskResultProjection policy of None \<Rightarrow> False
      | Some p \<Rightarrow>
          (case resolveJSONPointer document (pj_pointer p) of Inl e \<Rightarrow> False
           | Inr expected \<Rightarrow>
               (case bounded_array expected of None \<Rightarrow> False
                | Some right \<Rightarrow>
                    (case value of
                       Inl e \<Rightarrow> pj_allow_missing p \<and> right = []
                     | Inr v \<Rightarrow>
                         (case v of
                            JArray left \<Rightarrow> length left = length right \<and> list_all (\<lambda>x. item_matches p (fst x) (snd x)) (zip left right)
                          | _ \<Rightarrow> False)))))"

definition evaluateTaskResultItemsProjection :: "(json \<Rightarrow> nat) \<Rightarrow> json \<Rightarrow> pointer_error + json \<Rightarrow> json \<Rightarrow> bool" where
  "evaluateTaskResultItemsProjection encoded document value policy =
     (case decodeTaskResultItemsProjection encoded policy of None \<Rightarrow> False
      | Some p \<Rightarrow>
          (case resolveJSONPointer document (ip_pointer p) of Inl e \<Rightarrow> False
           | Inr source \<Rightarrow>
               (case bounded_array source of None \<Rightarrow> False
                | Some items \<Rightarrow>
                    (case value of Inl e \<Rightarrow> False
                     | Inr v \<Rightarrow> equalJSONValues v (JString (the (if items = [] then ip_empty p else ip_non_empty p)))))))"

definition result_holds :: "(json \<Rightarrow> nat) \<Rightarrow> json \<Rightarrow> result_assertion \<Rightarrow> bool" where
  "result_holds encoded document a =
     (let value = resolveJSONPointer document (ra_pointer a) in
      if ra_op a = ''equals_by_items'' then evaluateTaskResultItemsProjection encoded document value (ra_value a)
      else if ra_op a = ''equals_projection'' then evaluateTaskResultProjection document value (ra_value a)
      else case value of Inl e \<Rightarrow> False
      | Inr v \<Rightarrow>
          (if ra_op a = ''non_empty'' then taskResultValueNonEmpty v
           else if ra_op a = ''equals'' then equalJSONValues v (ra_value a)
           else if ra_op a = ''min_items'' then
             (let want = (case taskResultAssertionInt (ra_value a) of None \<Rightarrow> 0 | Some n \<Rightarrow> n) in
              case taskResultValueItemCount v of None \<Rightarrow> False | Some n \<Rightarrow> want \<le> n)
           else if ra_op a = ''contains_scalar'' then
             (case v of JArray vs \<Rightarrow> list_ex (\<lambda>x. equalJSONValues x (ra_value a)) vs | _ \<Rightarrow> False)
           else True))"

text \<open>The indices of the assertions that fail; the code returns a message for each.\<close>

definition failing :: "('a \<Rightarrow> bool) \<Rightarrow> 'a list \<Rightarrow> nat list" where
  "failing holds xs = filter (\<lambda>i. \<not> holds (xs ! i)) [0..<length xs]"

definition evaluateTaskResultAssertions :: "(json \<Rightarrow> nat) \<Rightarrow> json \<Rightarrow> result_assertion list \<Rightarrow> nat list" where
  "evaluateTaskResultAssertions encoded document as = failing (result_holds encoded document) as"

lemma failing_none: "failing holds xs = [] \<longleftrightarrow> list_all holds xs"
  by (auto simp: failing_def filter_empty_conv list_all_length)

section \<open>Assertions on tool calls\<close>

text \<open>A step of an attempt: the calls it made and the results it got, each with the tool's name.\<close>

record tool_step =
  st_calls :: "(string \<times> string) list"
  st_results :: "(string \<times> string) list"

definition matching_calls :: "tool_assertion \<Rightarrow> tool_step \<Rightarrow> int" where
  "matching_calls a s =
     int (length (filter (\<lambda>c. fst c = ta_tool a \<and> (ta_input a = [] \<or> Contains (snd c) (ta_input a))) (st_calls s)))"

definition matching_results :: "tool_assertion \<Rightarrow> tool_step \<Rightarrow> int" where
  "matching_results a s =
     (if ta_result a = [] then 0
      else int (length (filter (\<lambda>r. fst r = ta_tool a \<and> Contains (snd r) (ta_result a)) (st_results s))))"

definition tool_holds :: "tool_step list \<Rightarrow> tool_assertion \<Rightarrow> bool" where
  "tool_holds steps a =
     (let want = (if ta_min a \<le> 0 then 1 else ta_min a) in
      if sum_list (map (matching_calls a) steps) < want then False
      else \<not> (ta_result a \<noteq> [] \<and> sum_list (map (matching_results a) steps) < want))"

section \<open>Results and modes\<close>

datatype verify_error =
    Malformed spec_error | DeadlineExceeded | ContextEnded | CommandTimeout | UnresolvedExecutable
  | CommandNotFound | NonASCIICommand | WrongPolarity | CommandFailed
  | PathMissing | PathPresent | StatFailed | Unreadable | JSONCommandFailed | InvalidJSON | TrailingJSON
  | AssertionFailed assert_error | NoToolHistory | ToolCallsMissing "nat list"
  | NoTaskResult | InvalidTaskResult | NoDocument | ResultAssertionsFailed "nat list"
  | NoTaskState | NoGroupState | NoReceipt | ReceiptSourceInvalid | ReceiptCardinality | GroupIncomplete nat | SucceededUnexpectedly | BadMode string | UnknownType string

record verifier_result =
  xr_exit :: int
  xr_stdout :: string
  xr_stderr :: string
  xr_timed_out :: bool
  xr_weak :: bool

definition blank_result :: verifier_result where
  "blank_result = \<lparr>xr_exit = 0, xr_stdout = [], xr_stderr = [], xr_timed_out = False, xr_weak = False\<rparr>"

definition hasEnvironmentFailureSignal :: "string \<Rightarrow> bool" where
  "hasEnvironmentFailureSignal output =
     (if output = [] then False
      else let lower = ToLower output in
        if Contains lower ''command not found'' then True
        else if Contains lower ''executable file not found'' then True
        else Contains lower ''executable unresolved'')"

type_synonym verify_answer = "verifier_result option \<times> verify_error option"

definition isExpectedVerificationExit :: "verify_error option \<Rightarrow> verifier_result option \<Rightarrow> bool" where
  "isExpectedVerificationExit err res =
     (case res of None \<Rightarrow> False
      | Some r \<Rightarrow>
          if xr_timed_out r \<or> xr_exit r = 0 \<or> xr_exit r = -1 then False
          else \<not> (err = Some UnresolvedExecutable \<or> hasEnvironmentFailureSignal (xr_stdout r) \<or>
                  hasEnvironmentFailureSignal (xr_stderr r)))"

definition applyVerificationMode :: "verifier_result option \<Rightarrow> verify_error option \<Rightarrow> string \<Rightarrow> verify_answer" where
  "applyVerificationMode res err mode =
     (if mode = [] \<or> mode = ''success'' then (res, err)
      else if mode = ''expected_failure'' then
        (if isExpectedVerificationExit err res then (res, None)
         else if err = None then (res, Some SucceededUnexpectedly) else (res, err))
      else if mode = ''observation'' then
        (if err = None \<or> isExpectedVerificationExit err res then (res, None) else (res, err))
      else (res, Some (BadMode mode)))"

section \<open>The world\<close>

datatype stat_answer = Present | Absent | StatError

text \<open>A finished command: \<open>rn_code\<close> is -1 when it did not exit by itself.\<close>

record command_run =
  rn_failed :: bool
  rn_code :: int
  rn_stdout :: string
  rn_stderr :: string
  rn_deadline :: bool
  rn_parent_ended :: bool
  rn_under_two_minutes :: bool

record world =
  wd_ended :: bool
  wd_unresolved :: "string \<Rightarrow> string \<Rightarrow> string option"
  wd_run :: "string \<Rightarrow> string \<Rightarrow> string \<Rightarrow> command_run"
  wd_stat :: "string \<Rightarrow> stat_answer"
  wd_read :: "string \<Rightarrow> string option"
  wd_decode :: "string \<Rightarrow> (json \<times> bool) option"
  wd_encoded :: "json \<Rightarrow> nat"
  wd_text :: "verify_error \<Rightarrow> string \<Rightarrow> string"

text \<open>\<open>filepath.Join\<close> with the working directory, unless the path is absolute or the directory unknown.\<close>

definition target_path :: "string \<Rightarrow> string \<Rightarrow> string" where
  "target_path workDir p =
     (if (p \<noteq> [] \<and> hd p = CHR ''/'') \<or> workDir = [] then p
      else if p = [] then Clean workDir else Clean (workDir @ ''/'' @ p))"

definition TruncateString :: "string \<Rightarrow> int \<Rightarrow> string" where
  "TruncateString s n =
     (let dots = [char_of (226::nat), char_of (128::nat), char_of (166::nat)] in
      if n \<le> 1 then dots else if int (length s) \<le> n then s else take (nat (n - 1)) s @ dots)"

section \<open>Commands\<close>

definition CheckWeakVerifierWarning :: "string \<Rightarrow> string \<Rightarrow> bool" where
  "CheckWeakVerifierWarning out err =
     list_ex (\<lambda>line.
       let t = TrimSpace line in
       t \<noteq> [] \<and>
       (list_ex (Contains t)
          [''status: failed'', [CHR 0x22] @ ''status'' @ [CHR 0x22] @ '': '' @ [CHR 0x22] @ ''failed'' @ [CHR 0x22],
           [CHR 0x22] @ ''status'' @ [CHR 0x22] @ '':'' @ [CHR 0x22] @ ''failed'' @ [CHR 0x22], ''result: failure'',
           ''state: failed'', ''assertion failed'', ''test failed'', ''errors: [''] \<or>
        prefix ''error:'' t \<or> prefix ''failed:'' t))
       (split_on (CHR 0x0A) (ToLower (out @ [CHR 0x0A] @ err)))"

text \<open>A byte outside tab, newline and the printable ASCII characters is part of a rune outside them.\<close>

definition containsNonASCII :: "string \<Rightarrow> bool" where
  "containsNonASCII s = list_ex (\<lambda>c. 126 < byte_of c \<or> (byte_of c < 32 \<and> byte_of c \<noteq> 9 \<and> byte_of c \<noteq> 10)) s"

definition command_error :: "string \<Rightarrow> command_run \<Rightarrow> verifier_result \<Rightarrow> verify_error" where
  "command_error command run r =
     (if xr_timed_out r then
        (if rn_parent_ended run \<and> rn_under_two_minutes run then DeadlineExceeded else CommandTimeout)
      else if rn_parent_ended run then ContextEnded
      else if xr_exit r = 127 then CommandNotFound
      else if containsNonASCII command then NonASCIICommand
      else if xr_exit r = 1 \<and> TrimSpace (xr_stdout r) = ''0'' \<and> (Contains command ''grep -c'' \<or> Contains command ''grep-c'')
      then WrongPolarity
      else CommandFailed)"

text \<open>The answer and the raw output, which only \<open>json_assert\<close> keeps.\<close>

definition executeCommandVerificationWithRawOutput ::
  "world \<Rightarrow> string \<Rightarrow> string \<Rightarrow> verification_spec \<Rightarrow> verify_answer \<times> string" where
  "executeCommandVerificationWithRawOutput w shell workDir v =
     (let command = TrimSpace (vs_command v); shell = (if shell = [] then ''sh'' else shell) in
      if wd_ended w then ((None, Some DeadlineExceeded), [])
      else case wd_unresolved w command workDir of
        Some message \<Rightarrow>
          (applyVerificationMode (Some (blank_result\<lparr>xr_exit := 127, xr_stderr := TruncateString message 2000\<rparr>))
             (Some UnresolvedExecutable) (vs_mode v), [])
      | None \<Rightarrow>
          (let run = wd_run w shell command workDir;
               r = \<lparr>xr_exit = (if rn_failed run then rn_code run else 0),
                    xr_stdout = TruncateString (TrimSpace (rn_stdout run)) 2000,
                    xr_stderr = TruncateString (TrimSpace (rn_stderr run)) 2000,
                    xr_timed_out = rn_deadline run, xr_weak = False\<rparr>;
               r = (if \<not> rn_failed run \<and> CheckWeakVerifierWarning (xr_stdout r) (xr_stderr r)
                    then r\<lparr>xr_weak := True\<rparr> else r) in
           (applyVerificationMode (Some r) (if rn_failed run then Some (command_error command run r) else None) (vs_mode v),
            rn_stdout run)))"

definition executeCommandVerification :: "world \<Rightarrow> string \<Rightarrow> string \<Rightarrow> verification_spec \<Rightarrow> verify_answer" where
  "executeCommandVerification w shell workDir v = fst (executeCommandVerificationWithRawOutput w shell workDir v)"

section \<open>Files\<close>

definition fail_with :: "world \<Rightarrow> int \<Rightarrow> verify_error \<Rightarrow> string \<Rightarrow> string \<Rightarrow> verify_answer" where
  "fail_with w code e subject mode =
     applyVerificationMode (Some (blank_result\<lparr>xr_exit := code, xr_stderr := wd_text w e subject\<rparr>)) (Some e) mode"

definition pass_with :: "string \<Rightarrow> string \<Rightarrow> verify_answer" where
  "pass_with out mode = applyVerificationMode (Some (blank_result\<lparr>xr_stdout := out\<rparr>)) None mode"

text \<open>The text of a success is only kept for display; it is written without the size and the counts.\<close>

definition executeFileExistsVerification :: "world \<Rightarrow> string \<Rightarrow> verification_spec \<Rightarrow> verify_answer" where
  "executeFileExistsVerification w workDir v =
     (let p = target_path workDir (TrimSpace (vs_path v)) in
      if wd_stat w p \<noteq> Present then fail_with w 1 PathMissing p (vs_mode v)
      else pass_with (''file_exists passed: '' @ p) (vs_mode v))"

definition executeFileAbsentVerification :: "world \<Rightarrow> string \<Rightarrow> verification_spec \<Rightarrow> verify_answer" where
  "executeFileAbsentVerification w workDir v =
     (let p = target_path workDir (TrimSpace (vs_path v)) in
      case wd_stat w p of
        Absent \<Rightarrow> pass_with (''file_absent passed: '' @ p) (vs_mode v)
      | Present \<Rightarrow> fail_with w 1 PathPresent p (vs_mode v)
      | StatError \<Rightarrow> fail_with w (-1) StatFailed p (vs_mode v))"

section \<open>JSON documents\<close>

fun first_failed :: "json \<Rightarrow> output_assertion list \<Rightarrow> assert_error option" where
  "first_failed data [] = None"
| "first_failed data (a # as) =
     (case EvaluateJSONAssertion data (oa_path a) (oa_equals a) of Inl e \<Rightarrow> Some e | Inr u \<Rightarrow> first_failed data as)"

definition assert_document :: "world \<Rightarrow> verification_spec \<Rightarrow> string \<Rightarrow> verify_answer" where
  "assert_document w v bytes =
     (case wd_decode w bytes of None \<Rightarrow> fail_with w 1 InvalidJSON bytes (vs_mode v)
      | Some (data, single) \<Rightarrow>
          if \<not> single then
            applyVerificationMode (Some (blank_result\<lparr>xr_exit := 1,
              xr_stderr := ''json_assert invalid JSON output: expected exactly one JSON document''\<rparr>)) (Some TrailingJSON) (vs_mode v)
          else case first_failed data (vs_assertions v) of
            Some e \<Rightarrow> fail_with w 1 (AssertionFailed e) [] (vs_mode v)
          | None \<Rightarrow> pass_with ''json_assert passed'' (vs_mode v))"

text \<open>What the JSON verifier reads: the file, or the raw output of the command, run in mode \<open>success\<close>.\<close>

definition executeJSONAssertVerification :: "world \<Rightarrow> string \<Rightarrow> string \<Rightarrow> verification_spec \<Rightarrow> verify_answer" where
  "executeJSONAssertVerification w shell workDir v =
     (if vs_path v \<noteq> [] then
        (let p = target_path workDir (vs_path v) in
         case wd_read w p of None \<Rightarrow> fail_with w 1 Unreadable p (vs_mode v)
         | Some bytes \<Rightarrow> assert_document w v bytes)
      else if vs_command v \<noteq> [] then
        (case executeCommandVerificationWithRawOutput w shell workDir
            (empty_spec\<lparr>vs_type := ''command_exit'', vs_mode := ''success'', vs_command := vs_command v\<rparr>) of
          ((res, err), raw) \<Rightarrow>
            if err \<noteq> None \<or> (case res of None \<Rightarrow> False | Some r \<Rightarrow> xr_exit r \<noteq> 0) then
              applyVerificationMode (Some (case res of None \<Rightarrow> blank_result\<lparr>xr_exit := 1\<rparr>
                | Some r \<Rightarrow> blank_result\<lparr>xr_exit := 1, xr_stdout := xr_stdout r, xr_stderr := xr_stderr r\<rparr>))
                (Some JSONCommandFailed) (vs_mode v)
            else assert_document w v raw)
      else assert_document w v [])"

section \<open>Tool calls and task results\<close>

definition executeToolCallAssertVerification :: "world \<Rightarrow> verification_spec \<Rightarrow> tool_step list option \<Rightarrow> verify_answer" where
  "executeToolCallAssertVerification w v steps =
     (case steps of
        None \<Rightarrow> applyVerificationMode (Some (blank_result\<lparr>xr_exit := 1,
          xr_stderr := ''tool_call_assert failed: no task-attempt tool-call history is available in this verification context (acceptance/criteria and non-agent task kinds are not supported)''\<rparr>))
          (Some NoToolHistory) (vs_mode v)
      | Some ss \<Rightarrow>
          (let failures = failing (tool_holds ss) (vs_tools v) in
           if failures \<noteq> [] then fail_with w 1 (ToolCallsMissing failures) [] (vs_mode v)
           else pass_with ''tool_call_assert passed'' (vs_mode v)))"

text \<open>A submitted result, as its status and the document it marshals to, if it does.\<close>

record task_result =
  sr_status :: string
  sr_document :: "json option"

definition validateSubmittedTaskResult :: "task_result option \<Rightarrow> bool" where
  "validateSubmittedTaskResult r =
     (case r of None \<Rightarrow> False
      | Some x \<Rightarrow> sr_status x \<in> {''success'', ''completed_with_gaps'', ''partial'', ''failed'', ''blocked''})"

definition executeTaskResultAssertVerification ::
  "world \<Rightarrow> verification_spec \<Rightarrow> task_result option \<Rightarrow> verify_answer" where
  "executeTaskResultAssertVerification w v result =
     (case result of
        None \<Rightarrow> applyVerificationMode (Some (blank_result\<lparr>xr_exit := 1,
          xr_stderr := ''task_result_assert failed: no canonical task result is available in this verification context''\<rparr>))
          (Some NoTaskResult) (vs_mode v)
      | Some r \<Rightarrow>
          if \<not> validateSubmittedTaskResult (Some r) then fail_with w 1 InvalidTaskResult (sr_status r) (vs_mode v)
          else case sr_document r of None \<Rightarrow> fail_with w 1 NoDocument [] (vs_mode v)
          | Some document \<Rightarrow>
              (let failures = evaluateTaskResultAssertions (wd_encoded w) document (vs_results v) in
               if failures \<noteq> [] then fail_with w 1 (ResultAssertionsFailed failures) [] (vs_mode v)
               else pass_with ''task_result_assert passed'' (vs_mode v)))"

section \<open>The entry points\<close>

definition refuse :: "int \<Rightarrow> string \<Rightarrow> verify_error \<Rightarrow> verify_answer" where
  "refuse code message e = (Some (blank_result\<lparr>xr_exit := code, xr_stderr := message\<rparr>), Some e)"

definition ExecuteVerificationSpecWithStepsAndTaskResult ::
  "world \<Rightarrow> string \<Rightarrow> string \<Rightarrow> verification_spec \<Rightarrow> tool_step list option \<Rightarrow> task_result option \<Rightarrow> verify_answer" where
  "ExecuteVerificationSpecWithStepsAndTaskResult w shell workDir spec steps result =
     (let v = NormalizeVerificationSpec spec [] [] in
      case validateVerificationSpec (wd_encoded w) v of
        Inl e \<Rightarrow> refuse (-1) [] (Malformed e)
      | Inr u \<Rightarrow>
          (if vs_type v = ''command_exit'' then executeCommandVerification w shell workDir v
           else if vs_type v = ''file_exists'' then executeFileExistsVerification w workDir v
           else if vs_type v = ''file_absent'' then executeFileAbsentVerification w workDir v
           else if vs_type v = ''json_assert'' then executeJSONAssertVerification w shell workDir v
           else if vs_type v = ''tool_call_assert'' then executeToolCallAssertVerification w v steps
           else if vs_type v = ''task_result_assert'' then executeTaskResultAssertVerification w v result
           else if vs_type v = ''task_output_assert'' then
             refuse 1 ''task_output_assert requires coordinator task occurrence and frozen input state'' NoTaskState
           else if vs_type v = ''workset_complete'' then
             refuse 1 ''workset_complete requires coordinator canonical group state'' NoGroupState
           else refuse (-1) [] (UnknownType (vs_type v))))"

definition ExecuteVerificationSpecWithSteps ::
  "world \<Rightarrow> string \<Rightarrow> string \<Rightarrow> verification_spec \<Rightarrow> tool_step list option \<Rightarrow> verify_answer" where
  "ExecuteVerificationSpecWithSteps w shell workDir spec steps =
     ExecuteVerificationSpecWithStepsAndTaskResult w shell workDir spec steps None"

definition ExecuteVerificationSpecWithTaskResult ::
  "world \<Rightarrow> string \<Rightarrow> string \<Rightarrow> verification_spec \<Rightarrow> task_result option \<Rightarrow> verify_answer" where
  "ExecuteVerificationSpecWithTaskResult w shell workDir spec result =
     ExecuteVerificationSpecWithStepsAndTaskResult w shell workDir spec None result"

definition ExecuteVerificationSpec :: "world \<Rightarrow> string \<Rightarrow> string \<Rightarrow> verification_spec \<Rightarrow> verify_answer" where
  "ExecuteVerificationSpec w shell workDir spec =
     ExecuteVerificationSpecWithStepsAndTaskResult w shell workDir spec None None"

end
