(* ===== verification/Workset.thy ===== *)
theory Workset
  imports Fan_Out Verifier_Run Task_Status No_Progress "HOL-Library.List_Lexorder" "HOL-Library.Char_ord"
begin

text \<open>
  Worksets: \<open>internal/team/workset.go\<close>, \<open>workset_fanout.go\<close>, \<open>workset_state.go\<close> and \<open>workset_verification.go\<close>. A
  structured fan-out reads a manifest of keyed items, creates one child task per item, and leaves a receipt that maps
  each key to its child; the group state and the \<open>workset_complete\<close> verifier read receipts and children back. A
  map is its entries, keys distinct. SHA-256, JSON decoding and the artifact store (which content a source has,
  whether an occurrence is the current one) are arguments. Nil receivers and messages are left out.
\<close>

section \<open>Manifests\<close>

record artifact_ref =
  af_id :: string
  af_sha :: string
  af_bytes :: int
  af_size :: int
  af_run :: string
  af_task :: string
  af_attempt :: int
  af_agent :: string

record workset_item =
  wi_key :: string
  wi_bindings :: "(string \<times> string) list"
  wi_inputs :: "artifact_ref list"
  wi_paths :: "string list"

record manifest =
  mf_version :: int
  mf_items :: "workset_item list"

datatype workset_error =
    FanError fan_error | ManifestVersion int | NoItems | TooManyItems nat | EmptyKey nat | LongKey nat | DuplicateKey string
  | BadBinding string | BadInput string nat | BadPath string nat | ManifestTooLarge | ManifestUndecodable | ManifestEmpty
  | InputsRejected | TemplateUnbound string | SourceRejected
  | IncompleteBinding nat | IncompleteSource nat | InvalidOccurrence nat | InconsistentBinding string | DuplicateChild string string
  | InconsistentChildren string | ConflictingReceipts string | NoReceiptFor string | AmbiguousReceipts string

definition maxWorksetItems :: nat where "maxWorksetItems = 2000"
definition maxWorksetKeyBytes :: nat where "maxWorksetKeyBytes = 256"
definition maxWorksetValueBytes :: nat where "maxWorksetValueBytes = 4096"
definition maxWorksetBytes :: nat where "maxWorksetBytes = 4194304"

text \<open>\<open>normalizeInvariantPath\<close> and \<open>NormalizeTouchedPath\<close> of \<open>invariant_manifest.go\<close>.\<close>

definition normalizeInvariantPath :: "string \<Rightarrow> string option" where
  "normalizeInvariantPath raw =
     (let v = TrimSpace raw in
      if v = ''*'' then Some v
      else if v = [] \<or> 256 < length v then None
      else if list_ex (\<lambda>c. byte_of c = 0 \<or> byte_of c = 92) v then None
      else if hd v = CHR ''/'' \<or> list_ex (\<lambda>c. c \<in> set ''*?[]{}'') v then None
      else let directory = (last v = CHR ''/''); core = (if directory then butlast v else v) in
        if core = [] \<or> Clean core \<noteq> core then None
        else if list_ex (\<lambda>s. s = [] \<or> s = ''.'' \<or> s = ''..'') (split_on (CHR ''/'') core) then None
        else Some (if directory then core @ ''/'' else core))"

definition NormalizeTouchedPath :: "string \<Rightarrow> string option" where
  "NormalizeTouchedPath raw =
     (case normalizeInvariantPath raw of None \<Rightarrow> None | Some p \<Rightarrow> if p = ''*'' then None else Some p)"

definition bindings_ok :: "(string \<times> string) list \<Rightarrow> bool" where
  "bindings_ok bs =
     list_all (\<lambda>b. TrimSpace (fst b) \<noteq> [] \<and> length (fst b) \<le> maxWorksetKeyBytes \<and> length (snd b) \<le> maxWorksetValueBytes) bs"

definition first_bad :: "('a \<Rightarrow> bool) \<Rightarrow> 'a list \<Rightarrow> nat option" where
  "first_bad ok xs = (let i = length (takeWhile ok xs) in if i = length xs then None else Some i)"

definition input_named :: "artifact_ref \<Rightarrow> bool" where
  "input_named r \<longleftrightarrow> TrimSpace (af_id r) \<noteq> [] \<and> TrimSpace (af_sha r) \<noteq> []"

definition normal_paths :: "string list \<Rightarrow> string list" where
  "normal_paths ps = sort (remdups (List.map_filter NormalizeTouchedPath ps))"

text \<open>The items with their paths normalised; \<open>seen\<close> are the trimmed keys so far.\<close>

fun validate_items :: "string list \<Rightarrow> nat \<Rightarrow> workset_item list \<Rightarrow> workset_error + workset_item list" where
  "validate_items seen i [] = Inr []"
| "validate_items seen i (x # xs) =
     (let key = TrimSpace (wi_key x) in
      if key = [] then Inl (EmptyKey i)
      else if maxWorksetKeyBytes < length key then Inl (LongKey i)
      else if key \<in> set seen then Inl (DuplicateKey key)
      else if \<not> bindings_ok (wi_bindings x) then Inl (BadBinding key)
      else case first_bad input_named (wi_inputs x) of Some j \<Rightarrow> Inl (BadInput key j)
      | None \<Rightarrow>
          (case first_bad (\<lambda>p. NormalizeTouchedPath p \<noteq> None) (wi_paths x) of Some j \<Rightarrow> Inl (BadPath key j)
           | None \<Rightarrow> bindR (validate_items (key # seen) (i + 1) xs)
               (\<lambda>ys. Inr (x\<lparr>wi_paths := normal_paths (wi_paths x)\<rparr> # ys))))"

definition validateWorksetManifest :: "manifest \<Rightarrow> workset_error + manifest" where
  "validateWorksetManifest m =
     (if mf_version m \<notin> {1, 2, 3} then Inl (ManifestVersion (mf_version m))
      else if mf_items m = [] then Inl NoItems
      else if maxWorksetItems < length (mf_items m) then Inl (TooManyItems (length (mf_items m)))
      else bindR (validate_items [] 0 (mf_items m)) (\<lambda>xs. Inr (m\<lparr>mf_items := xs\<rparr>)))"

text \<open>\<open>decode\<close> accepts exactly one JSON document.\<close>

definition decodeWorksetManifest :: "(string \<Rightarrow> manifest option) \<Rightarrow> string \<Rightarrow> workset_error + manifest" where
  "decodeWorksetManifest decode data =
     (if maxWorksetBytes < length data then Inl ManifestTooLarge
      else case decode data of None \<Rightarrow> Inl ManifestUndecodable | Some m \<Rightarrow> validateWorksetManifest m)"

definition row_item :: "string list \<Rightarrow> string list \<Rightarrow> workset_item" where
  "row_item header row =
     \<lparr>wi_key = row ! 0, wi_bindings = map (\<lambda>n. (n, cell header row n)) (remdups header), wi_inputs = [], wi_paths = []\<rparr>"

definition normalizeStructuredWorkset :: "(string \<Rightarrow> manifest option) \<Rightarrow> string \<Rightarrow> workset_error + manifest" where
  "normalizeStructuredWorkset decode data =
     (let trimmed = TrimSpace data in
      if trimmed = [] then Inl ManifestEmpty
      else if hd trimmed = CHR ''{'' then decodeWorksetManifest decode trimmed
      else case readFanOutTSV data of Inl e \<Rightarrow> Inl (FanError e)
      | Inr (header, rows) \<Rightarrow>
          (case first_bad (\<lambda>r. length r = length header) rows of
             Some i \<Rightarrow> Inl (FanError (RowWidth (i + 1) (length (rows ! i)) (length header)))
           | None \<Rightarrow> validateWorksetManifest \<lparr>mf_version = 1, mf_items = map (row_item header) rows\<rparr>))"

section \<open>Identity and expansion\<close>

definition worksetItemKeysDigest :: "(string \<Rightarrow> string) \<Rightarrow> workset_item list \<Rightarrow> string" where
  "worksetItemKeysDigest sha items = sha (concat (map (\<lambda>x. wi_key x @ [CHR 0x0A]) items))"

definition worksetID :: "(string \<Rightarrow> string) \<Rightarrow> string \<Rightarrow> string \<Rightarrow> workset_item list \<Rightarrow> string" where
  "worksetID sha source digest items =
     ''workset-'' @ take 24 (sha (source @ [CHR 0x0A] @ digest @ [CHR 0x0A] @ worksetItemKeysDigest sha items))"

record binding =
  wb_workset :: string
  wb_parent :: string
  wb_key :: string
  wb_bindings :: "(string \<times> string) list"
  wb_inputs :: "artifact_ref list"
  wb_paths :: "string list"
  wb_source :: string
  wb_sha :: string
  wb_artifact :: artifact_ref

type_synonym 'r task = "(binding, 'r) fan_task"

text \<open>The extension of the last element of a path.\<close>

definition Ext :: "string \<Rightarrow> string" where
  "Ext p =
     (let name = rev (takeWhile (\<lambda>c. c \<noteq> CHR ''/'') (rev p)) in
      if CHR ''.'' \<in> set name then CHR ''.'' # rev (takeWhile (\<lambda>c. c \<noteq> CHR ''.'') (rev name)) else [])"

definition usesStructuredWorkset :: "'r task \<Rightarrow> bool" where
  "usesStructuredWorkset task =
     (case ft_fan_out task of None \<Rightarrow> False
      | Some f \<Rightarrow> TrimSpace (fo_artifact_task f) \<noteq> [] \<or> TrimSpace (fo_artifact f) \<noteq> [] \<or>
          ToLower (Ext (TrimSpace (fo_source f))) = ''.json'')"

definition item_value :: "workset_item \<Rightarrow> string \<Rightarrow> string" where
  "item_value x name = (case map_of (wi_bindings x) name of None \<Rightarrow> [] | Some v \<Rightarrow> v)"

definition child_task :: "string \<Rightarrow> artifact_ref \<Rightarrow> string \<Rightarrow> 'r task \<Rightarrow> workset_item \<Rightarrow> 'r task" where
  "child_task workset source template task x =
     task\<lparr>ft_fan_out := None, ft_goal := instantiate (item_value x) template,
       ft_binding := Some \<lparr>wb_workset = workset, wb_parent = ft_id task, wb_key = wi_key x, wb_bindings = wi_bindings x,
         wb_inputs = wi_inputs x, wb_paths = wi_paths x, wb_source = af_id source, wb_sha = af_sha source,
         wb_artifact = source\<rparr>\<rparr>"

text \<open>
  The world: \<open>sc_read\<close> gives the source of a task (\<open>readStructuredWorksetSource\<close>), \<open>sc_producer\<close> finds the
  producer of the inputs, \<open>sc_resolve\<close> checks one input against it and returns what the store holds.
\<close>

record 'r sources =
  sc_decode :: "string \<Rightarrow> manifest option"
  sc_read :: "'r task \<Rightarrow> (string \<times> artifact_ref) option"
  sc_producer :: "string \<Rightarrow> bool"
  sc_resolve :: "string \<Rightarrow> artifact_ref \<Rightarrow> artifact_ref option"
  sc_load :: "string \<Rightarrow> string option"
  sc_sha :: "string \<Rightarrow> string"

definition validateWorksetInputs :: "'r sources \<Rightarrow> manifest \<Rightarrow> string \<Rightarrow> manifest option" where
  "validateWorksetInputs env m producer =
     (if TrimSpace producer \<noteq> [] \<and> \<not> sc_producer env producer then None
      else map_option (\<lambda>xs. m\<lparr>mf_items := xs\<rparr>)
        (those (map (\<lambda>x. map_option (\<lambda>rs. x\<lparr>wi_inputs := rs\<rparr>) (those (map (sc_resolve env producer) (wi_inputs x))))
           (mf_items m))))"

definition expandStructuredFanOutTask :: "'r sources \<Rightarrow> fan_spec \<Rightarrow> 'r task \<Rightarrow> workset_error + 'r task list" where
  "expandStructuredFanOutTask env f task =
     (if TrimSpace (fo_template f) = [] then Inl (FanError TemplateMissing)
      else case sc_read env task of None \<Rightarrow> Inl SourceRejected
      | Some (data, source) \<Rightarrow>
          bindR (normalizeStructuredWorkset (sc_decode env) data) (\<lambda>m.
            case validateWorksetInputs env m (fo_artifact_task f) of None \<Rightarrow> Inl InputsRejected
            | Some m \<Rightarrow>
                (let workset = worksetID (sc_sha env) (af_id source) (af_sha source) (mf_items m) in
                 case find (\<lambda>n. map_of (wi_bindings (hd (mf_items m))) n = None) (placeholders (fo_template f)) of
                   Some n \<Rightarrow> Inl (TemplateUnbound n)
                 | None \<Rightarrow> Inr (map (child_task workset source (fo_template f) task) (mf_items m)))))"

definition expand_one :: "'r sources \<Rightarrow> 'r task \<Rightarrow> workset_error + 'r task list" where
  "expand_one env task =
     (case ft_fan_out task of None \<Rightarrow> Inr [task]
      | Some f \<Rightarrow>
          if usesStructuredWorkset task then expandStructuredFanOutTask env f task
          else (case expandFanOutTask (sc_load env) f task of Inl e \<Rightarrow> Inl (FanError e) | Inr ts \<Rightarrow> Inr ts))"

fun expandFanOutTasks :: "'r sources \<Rightarrow> 'r task list \<Rightarrow> workset_error + 'r task list" where
  "expandFanOutTasks env [] = Inr []"
| "expandFanOutTasks env (t # ts) =
     bindR (expand_one env t) (\<lambda>xs. bindR (expandFanOutTasks env ts) (\<lambda>ys. Inr (xs @ ys)))"

end
