(* ===== verification/Workset_Group.thy ===== *)
theory Workset_Group
  imports Workset
begin

text \<open>
  The runtime side of worksets: the receipts of \<open>buildWorksetReceipts\<close> (\<open>internal/team/workset_fanout.go\<close>), their
  collection (\<open>workset.go\<close>), the group states (\<open>workset_state.go\<close>) and the \<open>workset_complete\<close> verifier
  (\<open>workset_verification.go\<close>). Whether the source of a receipt is still the one it names
  (\<open>verifyWorksetSource\<close>) is an argument. Maps are entry lists with distinct keys.
\<close>

section \<open>Receipts\<close>

definition sameArtifactOccurrence :: "artifact_ref \<Rightarrow> artifact_ref \<Rightarrow> bool" where
  "sameArtifactOccurrence a b \<longleftrightarrow>
     af_id a = af_id b \<and> af_sha a = af_sha b \<and> af_bytes a = af_bytes b \<and> af_size a = af_size b \<and>
     af_run a = af_run b \<and> af_task a = af_task b \<and> af_attempt a = af_attempt b \<and> af_agent a = af_agent b"

definition validateWorksetSourceOccurrence :: "artifact_ref \<Rightarrow> string \<Rightarrow> string \<Rightarrow> bool \<Rightarrow> bool" where
  "validateWorksetSourceOccurrence r artifact digest requireProducer =
     (if TrimSpace (af_id r) = [] \<or> af_id r \<noteq> artifact then False
      else if TrimSpace (af_sha r) = [] \<or> af_sha r \<noteq> digest then False
      else if requireProducer \<and> (TrimSpace (af_run r) = [] \<or> TrimSpace (af_task r) = [] \<or> af_attempt r \<le> 0 \<or>
        TrimSpace (af_agent r) = []) then False
      else \<not> (af_bytes r < 0 \<or> af_size r < 0 \<or> af_bytes r \<noteq> af_size r))"

record receipt =
  rc_workset :: string
  rc_run :: string
  rc_parent :: string
  rc_source :: string
  rc_sha :: string
  rc_artifact :: artifact_ref
  rc_count :: int
  rc_keys_sha :: string
  rc_children :: "(string \<times> string) list"

definition new_receipt :: "binding \<Rightarrow> string \<Rightarrow> receipt" where
  "new_receipt b run = \<lparr>rc_workset = wb_workset b, rc_run = run, rc_parent = wb_parent b, rc_source = wb_source b,
     rc_sha = wb_sha b, rc_artifact = wb_artifact b, rc_count = 0, rc_keys_sha = [], rc_children = []\<rparr>"

definition fits_receipt :: "binding \<Rightarrow> string \<Rightarrow> receipt \<Rightarrow> bool" where
  "fits_receipt b run r \<longleftrightarrow>
     \<not> (rc_run r \<noteq> run \<or> rc_parent r \<noteq> wb_parent b \<or> rc_source r \<noteq> wb_source b \<or> rc_sha r \<noteq> wb_sha b \<or>
        \<not> sameArtifactOccurrence (rc_artifact r) (wb_artifact b))"

definition add_child :: "binding \<Rightarrow> string \<Rightarrow> receipt \<Rightarrow> receipt" where
  "add_child b i r = r\<lparr>rc_children := rc_children r @ [(wb_key b, i)], rc_count := rc_count r + 1\<rparr>"

definition add_binding :: "nat \<Rightarrow> string \<Rightarrow> binding \<Rightarrow> string \<Rightarrow> (string \<times> receipt) list \<Rightarrow>
    workset_error + (string \<times> receipt) list" where
  "add_binding index run b i rs =
     (if TrimSpace (wb_workset b) = [] \<or> TrimSpace (wb_key b) = [] then Inl (IncompleteBinding index)
      else if TrimSpace (wb_source b) = [] \<or> TrimSpace (wb_sha b) = [] then Inl (IncompleteSource index)
      else if \<not> validateWorksetSourceOccurrence (wb_artifact b) (wb_source b) (wb_sha b) False then Inl (InvalidOccurrence index)
      else case map_of rs (wb_workset b) of
        None \<Rightarrow> Inr (AList.update (wb_workset b) (add_child b i (new_receipt b run)) rs)
      | Some r \<Rightarrow>
          (if \<not> fits_receipt b run r then Inl (InconsistentBinding (wb_workset b))
           else if map_of (rc_children r) (wb_key b) \<noteq> None then Inl (DuplicateChild (wb_workset b) (wb_key b))
           else Inr (AList.update (wb_workset b) (add_child b i r) rs)))"

text \<open>The bindings of the tasks with the ids reserved for them.\<close>

fun collect_bindings :: "nat \<Rightarrow> string \<Rightarrow> (binding option \<times> string) list \<Rightarrow> (string \<times> receipt) list \<Rightarrow>
    workset_error + (string \<times> receipt) list" where
  "collect_bindings index run [] rs = Inr rs"
| "collect_bindings index run ((None, i) # ts) rs = collect_bindings (index + 1) run ts rs"
| "collect_bindings index run ((Some b, i) # ts) rs =
     bindR (add_binding index run b i rs) (collect_bindings (index + 1) run ts)"

definition buildWorksetReceipts :: "'r task list \<Rightarrow> string list \<Rightarrow> string \<Rightarrow> workset_error + (string \<times> receipt) list" where
  "buildWorksetReceipts tasks ids run =
     bindR (collect_bindings 0 run (zip (map ft_binding tasks) ids) []) (\<lambda>rs.
       case find (\<lambda>p. rc_count (snd p) = 0 \<or> int (length (rc_children (snd p))) \<noteq> rc_count (snd p)) rs of
         Some p \<Rightarrow> Inl (InconsistentChildren (rc_workset (snd p))) | None \<Rightarrow> Inr rs)"

text \<open>\<open>normalizeTaskReferenceID\<close> of \<open>task_reference.go\<close>.\<close>

definition normalizeTaskReferenceID :: "string \<Rightarrow> string" where
  "normalizeTaskReferenceID s = ToLower (TrimSpace s)"

definition equivalentWorksetReceipts :: "receipt \<Rightarrow> receipt \<Rightarrow> bool" where
  "equivalentWorksetReceipts a b \<longleftrightarrow>
     rc_workset a = rc_workset b \<and> rc_run a = rc_run b \<and>
     normalizeTaskReferenceID (rc_parent a) = normalizeTaskReferenceID (rc_parent b) \<and>
     rc_source a = rc_source b \<and> rc_sha a = rc_sha b \<and> sameArtifactOccurrence (rc_artifact a) (rc_artifact b) \<and>
     rc_count a = rc_count b \<and> rc_keys_sha a = rc_keys_sha b \<and> length (rc_children a) = length (rc_children b) \<and>
     list_all (\<lambda>c. map_of (rc_children b) (fst c) = Some (snd c)) (rc_children a)"

text \<open>The receipts by workset, the first copy of each, and the worksets with differing copies.\<close>

fun collectWorksetReceipts :: "receipt list \<Rightarrow> (string \<times> receipt) list \<Rightarrow> string list \<Rightarrow> (string \<times> receipt) list \<times> string list" where
  "collectWorksetReceipts [] rs conflicts = (rs, conflicts)"
| "collectWorksetReceipts (r # later) rs conflicts =
     (case map_of rs (rc_workset r) of
        None \<Rightarrow> collectWorksetReceipts later (rs @ [(rc_workset r, r)]) conflicts
      | Some old \<Rightarrow>
          collectWorksetReceipts later rs
            (if equivalentWorksetReceipts old r then conflicts else List.insert (rc_workset r) conflicts))"

section \<open>Group states\<close>

text \<open>A todo item as far as groups read it.\<close>

record group_item =
  gi_id :: string
  gi_status :: task_status
  gi_result :: "string option"
  gi_verify :: "verdict option"
  gi_binding :: "binding option"
  gi_receipt :: "receipt option"

definition findTodoItem :: "group_item list \<Rightarrow> string \<Rightarrow> group_item option" where
  "findTodoItem items i = find (\<lambda>x. gi_id x = i) items"

definition visible_receipts :: "group_item list \<Rightarrow> (string \<times> receipt) list \<times> string list" where
  "visible_receipts items = collectWorksetReceipts (List.map_filter gi_receipt items) [] []"

definition bound_to :: "string \<Rightarrow> string \<Rightarrow> group_item \<Rightarrow> bool" where
  "bound_to workset key x \<longleftrightarrow> (case gi_binding x of None \<Rightarrow> False | Some b \<Rightarrow> wb_workset b = workset \<and> wb_key b = key)"

definition in_workset :: "string \<Rightarrow> group_item \<Rightarrow> bool" where
  "in_workset workset x \<longleftrightarrow> (case gi_binding x of None \<Rightarrow> False | Some b \<Rightarrow> wb_workset b = workset)"

text \<open>The child a receipt maps a key to, if it is bound to that key.\<close>

definition bound_child :: "group_item list \<Rightarrow> receipt \<Rightarrow> string \<times> string \<Rightarrow> group_item option" where
  "bound_child items r c =
     (case findTodoItem items (snd c) of None \<Rightarrow> None | Some x \<Rightarrow> if bound_to (rc_workset r) (fst c) x then Some x else None)"

definition taskResultStatusIsSuccessful :: "string \<Rightarrow> bool" where
  "taskResultStatusIsSuccessful s \<longleftrightarrow> ToLower (TrimSpace s) \<in> {''success'', ''completed_with_gaps''}"

record group_state =
  gs_workset :: string
  gs_expected :: int
  gs_pending :: nat
  gs_active :: nat
  gs_completed :: nat
  gs_verified :: nat
  gs_skipped :: nat
  gs_failed :: nat
  gs_state :: string

definition new_state :: "receipt \<Rightarrow> group_state" where
  "new_state r = \<lparr>gs_workset = rc_workset r, gs_expected = rc_count r, gs_pending = 0, gs_active = 0, gs_completed = 0,
     gs_verified = 0, gs_skipped = 0, gs_failed = 0, gs_state = []\<rparr>"

definition fail_state :: "group_state \<Rightarrow> group_state" where
  "fail_state s = s\<lparr>gs_failed := gs_failed s + 1\<rparr>"

definition done_ok :: "group_item \<Rightarrow> bool" where
  "done_ok x \<longleftrightarrow> (case gi_result x of None \<Rightarrow> False | Some st \<Rightarrow> taskResultStatusIsSuccessful st)"

definition count_item :: "group_item \<Rightarrow> group_state \<Rightarrow> group_state" where
  "count_item x s =
     (case gi_status x of
        TaskPending \<Rightarrow> s\<lparr>gs_pending := gs_pending s + 1\<rparr>
      | TaskPlanned \<Rightarrow> s\<lparr>gs_pending := gs_pending s + 1\<rparr>
      | TaskInProgress \<Rightarrow> s\<lparr>gs_active := gs_active s + 1\<rparr>
      | TaskVerifying \<Rightarrow> s\<lparr>gs_active := gs_active s + 1\<rparr>
      | TaskPaused \<Rightarrow> s\<lparr>gs_active := gs_active s + 1\<rparr>
      | TaskDone \<Rightarrow>
          (if \<not> done_ok x then fail_state s
           else s\<lparr>gs_completed := gs_completed s + 1,
                  gs_verified := gs_verified s + (if gi_verify x \<noteq> None \<and> isVerifySuccess (gi_verify x) then 1 else 0)\<rparr>)
      | TaskSkipped \<Rightarrow> s\<lparr>gs_skipped := gs_skipped s + 1\<rparr>
      | _ \<Rightarrow> fail_state s)"

definition count_child :: "group_item list \<Rightarrow> receipt \<Rightarrow> string \<times> string \<Rightarrow> group_state \<Rightarrow> group_state" where
  "count_child items r c s = (case bound_child items r c of None \<Rightarrow> fail_state s | Some x \<Rightarrow> count_item x s)"

definition count_stray :: "receipt \<Rightarrow> group_item \<Rightarrow> group_state \<Rightarrow> group_state" where
  "count_stray r x s = (if in_workset (rc_workset r) x \<and> gi_id x \<notin> snd ` set (rc_children r) then fail_state s else s)"

definition name_state :: "group_state \<Rightarrow> string" where
  "name_state s =
     (if gs_expected s \<le> 0 then ''empty''
      else if 0 < gs_failed s then ''failed''
      else if int (gs_completed s) = gs_expected s \<and> int (gs_verified s) = gs_expected s then ''complete''
      else if int (gs_completed s) = gs_expected s then ''completed''
      else if 0 < gs_active s then ''in_progress''
      else ''partial'')"

definition group_state_of :: "group_item list \<Rightarrow> string list \<Rightarrow> receipt \<Rightarrow> group_state" where
  "group_state_of items conflicts r =
     (if rc_workset r \<in> set conflicts then (new_state r)\<lparr>gs_failed := 1, gs_state := ''failed''\<rparr>
      else
        let s = new_state r;
            s = (if int (length (rc_children r)) \<noteq> rc_count r then fail_state s else s);
            s = fold (count_child items r) (rc_children r) s;
            s = fold (count_stray r) items s in
        s\<lparr>gs_state := name_state s\<rparr>)"

definition WorksetGroupStates :: "group_item list \<Rightarrow> group_state list" where
  "WorksetGroupStates items =
     (case visible_receipts items of
        (rs, conflicts) \<Rightarrow> map (group_state_of items conflicts \<circ> snd) (sort_key fst rs))"

section \<open>The verifier\<close>

definition worksetReceiptConflictError :: "string list \<Rightarrow> workset_error option" where
  "worksetReceiptConflictError conflicts =
     (if conflicts = [] then None else Some (ConflictingReceipts (hd (sort conflicts))))"

definition findWorksetReceipt :: "group_item list \<Rightarrow> string \<Rightarrow> workset_error + receipt" where
  "findWorksetReceipt items source =
     (let logical = normalizeTaskReferenceID source in
      if logical = [] then Inl (NoReceiptFor source)
      else case visible_receipts items of
        (rs, conflicts) \<Rightarrow>
          (case worksetReceiptConflictError conflicts of Some e \<Rightarrow> Inl e
           | None \<Rightarrow>
               (case filter (\<lambda>p. normalizeTaskReferenceID (rc_parent (snd p)) = logical) rs of
                  [] \<Rightarrow> Inl (NoReceiptFor source)
                | [p] \<Rightarrow> Inr (snd p)
                | _ \<Rightarrow> Inl (AmbiguousReceipts source))))"

definition isTerminalTaskStatus :: "task_status \<Rightarrow> bool" where
  "isTerminalTaskStatus s \<longleftrightarrow> s \<in> {TaskDone, TaskSkipped, TaskError, TaskBlocked}"

definition accepted_statuses :: "verification_spec \<Rightarrow> string list" where
  "accepted_statuses v = map (\<lambda>s. ToLower (TrimSpace s)) (vs_statuses v)"

text \<open>The checks of one bound child, in the order of the code.\<close>

definition child_fails :: "verification_spec \<Rightarrow> group_item \<Rightarrow> bool" where
  "child_fails v x =
     (if vs_terminal v \<and> \<not> isTerminalTaskStatus (gi_status x) then True
      else case gi_result x of None \<Rightarrow> True
      | Some st \<Rightarrow>
          (if ToLower (TrimSpace st) \<notin> set (accepted_statuses v) then True
           else if gi_status x \<noteq> TaskDone then True
           else if gi_verify x \<noteq> None \<and> \<not> isVerifySuccess (gi_verify x) then True
           else vs_verified v \<and> \<not> isVerifySuccess (gi_verify x)))"

definition child_failure :: "verification_spec \<Rightarrow> group_item list \<Rightarrow> receipt \<Rightarrow> string \<times> string \<Rightarrow> bool" where
  "child_failure v items r c = (case bound_child items r c of None \<Rightarrow> True | Some x \<Rightarrow> child_fails v x)"

text \<open>A child of the workset whose id is none of the bound ones.\<close>

definition unbound_child :: "group_item list \<Rightarrow> receipt \<Rightarrow> group_item \<Rightarrow> bool" where
  "unbound_child items r x \<longleftrightarrow>
     in_workset (rc_workset r) x \<and> gi_id x \<notin> gi_id ` set (List.map_filter (bound_child items r) (rc_children r))"

definition executeWorksetCompleteVerification ::
  "world \<Rightarrow> (receipt \<Rightarrow> bool) \<Rightarrow> group_item list \<Rightarrow> verification_spec \<Rightarrow> verify_answer" where
  "executeWorksetCompleteVerification w verifyWorksetSource items v =
     (case validateVerificationSpec (wd_encoded w) v of
        Inl e \<Rightarrow> (Some (blank_result\<lparr>xr_exit := 1, xr_stderr := wd_text w (Malformed e) []\<rparr>), Some (Malformed e))
      | Inr u \<Rightarrow>
          (case findWorksetReceipt items (vs_source v) of
             Inl e \<Rightarrow> fail_with w 1 NoReceipt (vs_source v) (vs_mode v)
           | Inr r \<Rightarrow>
               (if \<not> verifyWorksetSource r then fail_with w 1 ReceiptSourceInvalid (rc_source r) (vs_mode v)
                else if rc_count r \<le> 0 \<or> int (length (rc_children r)) \<noteq> rc_count r
                then fail_with w 1 ReceiptCardinality (rc_workset r) (vs_mode v)
                else
                  let failures = length (filter (child_failure v items r) (rc_children r)) +
                        length (filter (unbound_child items r) items) in
                  if 0 < failures then fail_with w 1 (GroupIncomplete failures) (rc_workset r) (vs_mode v)
                  else pass_with ''workset_complete passed'' (vs_mode v))))"

end
