(* ===== verification/Workset_Safety.thy ===== *)
theory Workset_Safety
  imports Workset_Group
begin

text \<open>
  What worksets promise: a structured fan-out makes one child per item under distinct keys, receipts map exactly the
  children of each workset, and the group state and the verifier agree on when a workset is complete.
\<close>

section \<open>Expansion\<close>

lemma validate_items_ok:
  assumes "validate_items seen i xs = Inr ys"
  shows "map wi_key ys = map wi_key xs \<and> map wi_bindings ys = map wi_bindings xs \<and>
    distinct (map (TrimSpace \<circ> wi_key) xs) \<and> (\<forall>x\<in>set xs. TrimSpace (wi_key x) \<notin> set ([] # seen))"
  using assms
proof (induction xs arbitrary: seen i ys)
  case (Cons x xs)
  then obtain zs where z: "validate_items (TrimSpace (wi_key x) # seen) (i + 1) xs = Inr zs" "TrimSpace (wi_key x) \<noteq> []"
    "TrimSpace (wi_key x) \<notin> set seen" "ys = x\<lparr>wi_paths := normal_paths (wi_paths x)\<rparr> # zs"
    by (auto simp: Let_def bindR_eq_Inr split: if_splits option.splits)
  from Cons.IH [OF z(1)] z(2-4) show ?case by auto
qed simp

lemma manifest_ok:
  assumes "validateWorksetManifest m = Inr m'"
  shows "map wi_key (mf_items m') = map wi_key (mf_items m)" "map wi_bindings (mf_items m') = map wi_bindings (mf_items m)"
    "distinct (map (TrimSpace \<circ> wi_key) (mf_items m'))" "\<forall>x\<in>set (mf_items m'). TrimSpace (wi_key x) \<noteq> []"
    "mf_items m' \<noteq> []" "length (mf_items m') \<le> maxWorksetItems"
proof -
  from assms obtain ys where y: "validate_items [] 0 (mf_items m) = Inr ys" "m' = m\<lparr>mf_items := ys\<rparr>" "mf_items m \<noteq> []"
    "length (mf_items m) \<le> maxWorksetItems"
    by (auto simp: validateWorksetManifest_def bindR_eq_Inr split: if_splits)
  from validate_items_ok [OF y(1)] have k: "map wi_key ys = map wi_key (mf_items m)" "map wi_bindings ys = map wi_bindings (mf_items m)"
    "distinct (map (TrimSpace \<circ> wi_key) (mf_items m))" "\<forall>x\<in>set (mf_items m). TrimSpace (wi_key x) \<noteq> []" by auto
  then have t: "map (TrimSpace \<circ> wi_key) ys = map (TrimSpace \<circ> wi_key) (mf_items m)" by (simp only: map_map [symmetric])
  have l: "length ys = length (mf_items m)" using arg_cong [OF k(1), of length] by simp
  have "TrimSpace ` wi_key ` set ys = TrimSpace ` wi_key ` set (mf_items m)"
    using arg_cong [OF k(1), of set] by simp
  then have "\<forall>x\<in>set ys. TrimSpace (wi_key x) \<noteq> []" using k(4) by (metis (no_types, lifting) image_iff)
  with k t l y show "map wi_key (mf_items m') = map wi_key (mf_items m)"
    "map wi_bindings (mf_items m') = map wi_bindings (mf_items m)" "distinct (map (TrimSpace \<circ> wi_key) (mf_items m'))"
    "\<forall>x\<in>set (mf_items m'). TrimSpace (wi_key x) \<noteq> []" "mf_items m' \<noteq> []" "length (mf_items m') \<le> maxWorksetItems"
    by auto
qed

lemma normalize_validates:
  assumes "normalizeStructuredWorkset decode data = Inr m"
  obtains m0 where "validateWorksetManifest m0 = Inr m"
  using assms
  by (auto simp: normalizeStructuredWorkset_def decodeWorksetManifest_def Let_def split: if_splits option.splits sum.splits prod.splits)

lemma those_map_keys:
  assumes "those (map f xs) = Some ys" "\<And>x y. f x = Some y \<Longrightarrow> g y = g x"
  shows "map g ys = map g xs"
  using assms
proof (induction xs arbitrary: ys)
  case (Cons x xs)
  then show ?case by (auto split: option.splits)
qed simp

lemma inputs_keep:
  assumes "validateWorksetInputs env m p = Some m'"
  shows "map wi_key (mf_items m') = map wi_key (mf_items m)" "map wi_bindings (mf_items m') = map wi_bindings (mf_items m)"
proof -
  let ?f = "\<lambda>x. map_option (\<lambda>rs. x\<lparr>wi_inputs := rs\<rparr>) (those (map (sc_resolve env p) (wi_inputs x)))"
  from assms obtain xs where "those (map ?f (mf_items m)) = Some xs" "m' = m\<lparr>mf_items := xs\<rparr>"
    by (auto simp: validateWorksetInputs_def split: if_splits)
  moreover from this(1) have "map wi_key xs = map wi_key (mf_items m)" "map wi_bindings xs = map wi_bindings (mf_items m)"
    by (rule those_map_keys; auto)+
  ultimately show "map wi_key (mf_items m') = map wi_key (mf_items m)"
    "map wi_bindings (mf_items m') = map wi_bindings (mf_items m)" by simp_all
qed

lemma expand_structured_ok:
  assumes "expandStructuredFanOutTask env f task = Inr ts"
  obtains data source m m' where "sc_read env task = Some (data, source)"
    "normalizeStructuredWorkset (sc_decode env) data = Inr m"
    "validateWorksetInputs env m (fo_artifact_task f) = Some m'"
    "ts = map (child_task (worksetID (sc_sha env) (af_id source) (af_sha source) (mf_items m')) source (fo_template f) task) (mf_items m')"
proof -
  note def = expandStructuredFanOutTask_def [of env f task]
  from assms obtain data source where r: "sc_read env task = Some (data, source)" "TrimSpace (fo_template f) \<noteq> []"
    by (auto simp: def split: if_splits option.splits)
  with assms obtain m where m: "normalizeStructuredWorkset (sc_decode env) data = Inr m"
    by (auto simp: def bindR_eq_Inr)
  with assms r obtain m' where m': "validateWorksetInputs env m (fo_artifact_task f) = Some m'"
    by (auto simp: def split: option.splits)
  have "ts = map (child_task (worksetID (sc_sha env) (af_id source) (af_sha source) (mf_items m')) source (fo_template f) task) (mf_items m')"
    using assms r m m' by (simp add: def Let_def split: option.splits)
  with r m m' show thesis by (intro that)
qed

definition child_key :: "'r task \<Rightarrow> string" where
  "child_key t = (case ft_binding t of None \<Rightarrow> [] | Some b \<Rightarrow> wb_key b)"

definition child_workset :: "'r task \<Rightarrow> string" where
  "child_workset t = (case ft_binding t of None \<Rightarrow> [] | Some b \<Rightarrow> wb_workset b)"

text \<open>The items of a table bind the same names: those of its header.\<close>

lemma table_names:
  assumes "normalizeStructuredWorkset decode data = Inr m" "hd (TrimSpace data) \<noteq> CHR ''{''"
  obtains header where "\<forall>x\<in>set (mf_items m). fst ` set (wi_bindings x) = set header"
proof -
  from assms obtain header rows where v: "validateWorksetManifest \<lparr>mf_version = 1, mf_items = map (row_item header) rows\<rparr> = Inr m"
    by (auto simp: normalizeStructuredWorkset_def Let_def split: if_splits sum.splits option.splits prod.splits)
  have "map wi_bindings (mf_items m) = map wi_bindings (map (row_item header) rows)"
    using manifest_ok(2) [OF v] by simp
  then have "wi_bindings ` set (mf_items m) = wi_bindings ` set (map (row_item header) rows)" by (metis image_set)
  then have "\<exists>row. wi_bindings x = wi_bindings (row_item header row)" if "x \<in> set (mf_items m)" for x
    using that by (auto simp: image_iff set_eq_iff)
  then have "\<forall>x\<in>set (mf_items m). fst ` set (wi_bindings x) = set header" by (force simp: row_item_def)
  then show thesis by (rule that)
qed

text \<open>A child binds a template when its own bindings have a value for each placeholder.\<close>

definition binds :: "string \<Rightarrow> 'r task \<Rightarrow> bool" where
  "binds template t \<longleftrightarrow>
     (\<exists>b. ft_binding t = Some b \<and> (\<forall>n\<in>set (placeholders template). map_of (wb_bindings b) n \<noteq> None))"

lemma expand_structured_binds:
  assumes "expandStructuredFanOutTask env f task = Inr ts"
  shows "binds (fo_template f) (hd ts)"
    and "sc_read env task = Some (data, source) \<Longrightarrow> hd (TrimSpace data) \<noteq> CHR ''{'' \<Longrightarrow> t \<in> set ts \<Longrightarrow> binds (fo_template f) t"
proof -
  obtain data' source' m m' where r: "sc_read env task = Some (data', source')"
    and m: "normalizeStructuredWorkset (sc_decode env) data' = Inr m" "validateWorksetInputs env m (fo_artifact_task f) = Some m'"
    and ts: "ts = map (child_task (worksetID (sc_sha env) (af_id source') (af_sha source') (mf_items m')) source' (fo_template f) task) (mf_items m')"
    by (rule expand_structured_ok [OF assms])
  obtain m0 where "validateWorksetManifest m0 = Inr m" using normalize_validates [OF m(1)] .
  from manifest_ok(5) [OF this] have ne: "mf_items m' \<noteq> []"
    using arg_cong [OF inputs_keep(1) [OF m(2)], of length] by auto
  have "TrimSpace (fo_template f) \<noteq> []" using assms by (auto simp: expandStructuredFanOutTask_def split: if_splits)
  with assms r m have "find (\<lambda>n. map_of (wi_bindings (hd (mf_items m'))) n = None) (placeholders (fo_template f)) = None"
    by (simp add: expandStructuredFanOutTask_def Let_def split: option.splits)
  then have first: "\<forall>n\<in>set (placeholders (fo_template f)). map_of (wi_bindings (hd (mf_items m'))) n \<noteq> None"
    by (simp add: find_None_iff)
  with ne show "binds (fo_template f) (hd ts)" by (simp add: binds_def ts hd_map child_task_def)
  assume d: "sc_read env task = Some (data, source)" "hd (TrimSpace data) \<noteq> CHR ''{''" and t: "t \<in> set ts"
  with r have "hd (TrimSpace data') \<noteq> CHR ''{''" by simp
  from table_names [OF m(1) this] obtain header where
    "\<forall>x\<in>set (mf_items m). fst ` set (wi_bindings x) = set header" .
  moreover have "wi_bindings ` set (mf_items m') = wi_bindings ` set (mf_items m)"
    using inputs_keep(2) [OF m(2)] by (metis image_set)
  ultimately have h: "fst ` set (wi_bindings x) = set header" if "x \<in> set (mf_items m')" for x
    using that by (metis (no_types, lifting) image_iff)
  have "map_of (wi_bindings x) n \<noteq> None" if "x \<in> set (mf_items m')" "n \<in> set (placeholders (fo_template f))" for x n
    using first that h [of x] h [of "hd (mf_items m')"] ne by (simp add: map_of_eq_None_iff)
  with t show "binds (fo_template f) t" by (auto simp: binds_def ts child_task_def)
qed

text \<open>
  C38. A structured fan-out that succeeds makes between one and 2,000 children, none of them a fan-out again, all of one workset, with
  keys that are distinct and not blank; a key never depends on what the store returns for the inputs. Each child's goal is the
  template with every placeholder replaced by the child's own binding for it. The first child has one for every placeholder,
  and if the source is a table, not a JSON manifest, every child has. An item of a JSON manifest after the
  first may lack one: only then is the placeholder replaced by nothing, where the repository's comment asks for a failure
  (\<open>unbound_item_expands\<close>).
\<close>

theorem workset_children:
  assumes "expandStructuredFanOutTask env f task = Inr ts"
  shows "ts \<noteq> [] \<and> length ts \<le> maxWorksetItems \<and> distinct (map child_key ts) \<and>
    (\<exists>w. \<forall>t\<in>set ts. ft_fan_out t = None \<and> child_workset t = w \<and> TrimSpace (child_key t) \<noteq> [] \<and>
       (\<exists>b. ft_binding t = Some b \<and>
          ft_goal t = instantiate (\<lambda>n. case map_of (wb_bindings b) n of None \<Rightarrow> [] | Some x \<Rightarrow> x) (fo_template f))) \<and>
    binds (fo_template f) (hd ts) \<and>
    (\<forall>data source. sc_read env task = Some (data, source) \<longrightarrow> hd (TrimSpace data) \<noteq> CHR ''{'' \<longrightarrow>
       (\<forall>t\<in>set ts. binds (fo_template f) t))"
proof -
  from assms obtain data source m m' where "sc_read env task = Some (data, source)"
    and m: "normalizeStructuredWorkset (sc_decode env) data = Inr m" "validateWorksetInputs env m (fo_artifact_task f) = Some m'"
    "ts = map (child_task (worksetID (sc_sha env) (af_id source) (af_sha source) (mf_items m')) source (fo_template f) task) (mf_items m')"
    by (rule expand_structured_ok)
  obtain m0 where "validateWorksetManifest m0 = Inr m" using normalize_validates [OF m(1)] .
  note ok = manifest_ok(3-6) [OF this]
  have keys: "map wi_key (mf_items m') = map wi_key (mf_items m)" by (rule inputs_keep [OF m(2)])
  have l: "length (mf_items m') = length (mf_items m)" using arg_cong [OF keys, of length] by simp
  have "distinct (map TrimSpace (map wi_key (mf_items m)))" using ok(1) by simp
  then have "distinct (map wi_key (mf_items m))" by (simp only: distinct_map)
  then have d: "distinct (map wi_key (mf_items m'))" by (simp add: keys)
  have k: "map child_key ts = map wi_key (mf_items m')" by (simp add: m(3) child_key_def child_task_def)
  have "wi_key ` set (mf_items m') = wi_key ` set (mf_items m)" using arg_cong [OF keys, of set] by simp
  then have nb: "\<forall>x\<in>set (mf_items m'). TrimSpace (wi_key x) \<noteq> []" using ok(2) by (metis (no_types, lifting) image_iff)
  have "\<forall>t\<in>set ts. ft_fan_out t = None \<and>
      child_workset t = worksetID (sc_sha env) (af_id source) (af_sha source) (mf_items m') \<and> TrimSpace (child_key t) \<noteq> [] \<and>
      (\<exists>b. ft_binding t = Some b \<and>
         ft_goal t = instantiate (\<lambda>n. case map_of (wb_bindings b) n of None \<Rightarrow> [] | Some x \<Rightarrow> x) (fo_template f))"
    using nb by (auto simp: m(3) child_task_def child_workset_def child_key_def item_value_def [abs_def])
  moreover have "length ts = length (mf_items m)" using l m(3) by simp
  then have "ts \<noteq> []" "length ts \<le> maxWorksetItems" using ok(3,4) by auto
  moreover have "distinct (map child_key ts)" by (simp only: k d)
  moreover note expand_structured_binds [OF assms]
  ultimately show ?thesis by blast
qed

section \<open>Receipts\<close>

text \<open>The children of one workset among bindings and ids.\<close>

definition children_of :: "string \<Rightarrow> (binding option \<times> string) list \<Rightarrow> (string \<times> string) list" where
  "children_of w ts =
     List.map_filter (\<lambda>t. case fst t of None \<Rightarrow> None | Some b \<Rightarrow> if wb_workset b = w then Some (wb_key b, snd t) else None) ts"

lemma children_of_simps [simp]:
  "children_of w [] = []"
  "children_of w ((None, i) # ts) = children_of w ts"
  "children_of w ((Some b, i) # ts) = (if wb_workset b = w then (wb_key b, i) # children_of w ts else children_of w ts)"
  by (simp_all add: children_of_def List.map_filter_simps)

lemma children_of_append: "children_of w (ts @ us) = children_of w ts @ children_of w us"
  by (simp add: children_of_def List.map_filter_def)

text \<open>What a receipt, or its absence, says of the children of a workset.\<close>

definition receipt_maps :: "string \<Rightarrow> string \<Rightarrow> (string \<times> string) list \<Rightarrow> receipt option \<Rightarrow> bool" where
  "receipt_maps run w cs r =
     (case r of None \<Rightarrow> cs = []
      | Some r \<Rightarrow> rc_workset r = w \<and> rc_run r = run \<and> rc_children r = cs \<and> cs \<noteq> [] \<and>
          rc_count r = int (length cs) \<and> distinct (map fst cs))"

definition mapped :: "string \<Rightarrow> (binding option \<times> string) list \<Rightarrow> (string \<times> receipt) list \<Rightarrow> bool" where
  "mapped run seen rs \<longleftrightarrow> (\<forall>w. receipt_maps run w (children_of w seen) (map_of rs w))"

lemma receipt_maps_add:
  assumes "receipt_maps run (wb_workset b) cs (Some r)" "map_of (rc_children r) (wb_key b) = None"
  shows "receipt_maps run (wb_workset b) (cs @ [(wb_key b, i)]) (Some (add_child b i r))"
  using assms by (auto simp: receipt_maps_def add_child_def map_of_eq_None_iff)

lemma mapped_add:
  assumes "mapped run seen rs" "add_binding index run b i rs = Inr rs'"
  shows "mapped run (seen @ [(Some b, i)]) rs'"
proof -
  let ?w = "wb_workset b"
  let ?r = "case map_of rs ?w of None \<Rightarrow> new_receipt b run | Some r \<Rightarrow> r"
  have rs': "rs' = AList.update ?w (add_child b i ?r) rs" and fresh: "map_of (rc_children ?r) (wb_key b) = None"
    using assms(2) by (auto simp: add_binding_def new_receipt_def split: if_splits option.splits)
  have old: "receipt_maps run ?w (children_of ?w seen) (map_of rs ?w)" using assms(1) by (simp add: mapped_def)
  have new: "receipt_maps run ?w (children_of ?w seen @ [(wb_key b, i)]) (Some (add_child b i ?r))"
  proof (cases "map_of rs ?w")
    case None
    with old show ?thesis by (simp add: receipt_maps_def add_child_def new_receipt_def)
  next
    case (Some r)
    with old fresh receipt_maps_add show ?thesis by simp
  qed
  show ?thesis
    unfolding mapped_def
  proof
    fix w
    show "receipt_maps run w (children_of w (seen @ [(Some b, i)])) (map_of rs' w)"
      using new assms(1) by (cases "w = ?w") (auto simp: rs' update_conv' children_of_append mapped_def)
  qed
qed

lemma mapped_collect:
  "collect_bindings index run ts rs = Inr rs' \<Longrightarrow> mapped run seen rs \<Longrightarrow> mapped run (seen @ ts) rs'"
proof (induction index run ts rs arbitrary: seen rule: collect_bindings.induct)
  case (2 index run i ts rs)
  from 2(3) have "mapped run (seen @ [(None, i)]) rs" by (simp add: mapped_def children_of_append)
  from 2(1) [OF _ this] 2(2) show ?case by simp
next
  case (3 index run b i ts rs)
  then obtain rs1 where "add_binding index run b i rs = Inr rs1" "collect_bindings (index + 1) run ts rs1 = Inr rs'"
    by (auto simp: bindR_eq_Inr)
  with 3(1) [of rs1 "seen @ [(Some b, i)]"] mapped_add [OF 3(3)] show ?case by simp
qed simp

text \<open>
  Receipts map the children. When receipts are built, each workset has one receipt of this run, it maps exactly the
  children bound to the workset, in their order and under distinct keys, to the ids reserved for them, and
  counts them; a workset with no child has none.
\<close>

theorem receipts_map_children:
  assumes "buildWorksetReceipts tasks ids run = Inr rs"
  shows "(case map_of rs w of
      None \<Rightarrow> children_of w (zip (map ft_binding tasks) ids) = []
    | Some r \<Rightarrow> rc_workset r = w \<and> rc_run r = run \<and> rc_children r = children_of w (zip (map ft_binding tasks) ids) \<and>
        rc_children r \<noteq> [] \<and> rc_count r = int (length (rc_children r)) \<and> distinct (map fst (rc_children r)))"
proof -
  from assms have "collect_bindings 0 run (zip (map ft_binding tasks) ids) [] = Inr rs"
    by (auto simp: buildWorksetReceipts_def bindR_eq_Inr split: option.splits)
  moreover have "mapped run [] []" by (simp add: mapped_def receipt_maps_def)
  ultimately have "mapped run ([] @ zip (map ft_binding tasks) ids) rs" by (rule mapped_collect)
  then have "receipt_maps run w (children_of w (zip (map ft_binding tasks) ids)) (map_of rs w)" by (simp add: mapped_def)
  then show ?thesis by (auto simp: receipt_maps_def split: option.splits)
qed

section \<open>Completion\<close>

definition item_failed :: "group_item \<Rightarrow> bool" where
  "item_failed x \<longleftrightarrow>
     (case gi_status x of TaskDone \<Rightarrow> \<not> done_ok x | TaskError \<Rightarrow> True | TaskBlocked \<Rightarrow> True | TaskProtocolIncomplete \<Rightarrow> True
      | TaskOther t \<Rightarrow> True | _ \<Rightarrow> False)"

definition item_done :: "group_item \<Rightarrow> bool" where
  "item_done x \<longleftrightarrow> gi_status x = TaskDone \<and> done_ok x"

definition item_verified :: "group_item \<Rightarrow> bool" where
  "item_verified x \<longleftrightarrow> item_done x \<and> isVerifySuccess (gi_verify x)"

definition child_is :: "(group_item \<Rightarrow> bool) \<Rightarrow> group_item list \<Rightarrow> receipt \<Rightarrow> string \<times> string \<Rightarrow> bool" where
  "child_is P items r c \<longleftrightarrow> (\<exists>x. bound_child items r c = Some x \<and> P x)"

definition child_bad :: "group_item list \<Rightarrow> receipt \<Rightarrow> string \<times> string \<Rightarrow> bool" where
  "child_bad items r c \<longleftrightarrow> (case bound_child items r c of None \<Rightarrow> True | Some x \<Rightarrow> item_failed x)"

lemma isVerifySuccess_None [simp]: "\<not> isVerifySuccess None"
  by (simp add: isVerifySuccess_def)

lemma count_item_fields:
  "gs_expected (count_item x s) = gs_expected s"
  "gs_failed (count_item x s) = gs_failed s + (if item_failed x then 1 else 0)"
  "gs_completed (count_item x s) = gs_completed s + (if item_done x then 1 else 0)"
  "gs_verified (count_item x s) = gs_verified s + (if item_verified x then 1 else 0)"
  by (cases "gi_verify x"; simp add: count_item_def item_failed_def item_done_def item_verified_def fail_state_def split: task_status.splits)+

lemma count_child_fields:
  "gs_expected (count_child items r c s) = gs_expected s"
  "gs_failed (count_child items r c s) = gs_failed s + (if child_bad items r c then 1 else 0)"
  "gs_completed (count_child items r c s) = gs_completed s + (if child_is item_done items r c then 1 else 0)"
  "gs_verified (count_child items r c s) = gs_verified s + (if child_is item_verified items r c then 1 else 0)"
  by (simp_all add: count_child_def child_bad_def child_is_def count_item_fields fail_state_def split: option.splits)

lemma fold_children:
  "gs_expected (fold (count_child items r) cs s) = gs_expected s"
  "gs_failed (fold (count_child items r) cs s) = gs_failed s + length (filter (child_bad items r) cs)"
  "gs_completed (fold (count_child items r) cs s) = gs_completed s + length (filter (child_is item_done items r) cs)"
  "gs_verified (fold (count_child items r) cs s) = gs_verified s + length (filter (child_is item_verified items r) cs)"
  by (induction cs arbitrary: s) (simp_all add: count_child_fields)

definition stray :: "receipt \<Rightarrow> group_item \<Rightarrow> bool" where
  "stray r x \<longleftrightarrow> in_workset (rc_workset r) x \<and> gi_id x \<notin> snd ` set (rc_children r)"

lemma fold_strays:
  "gs_expected (fold (count_stray r) xs s) = gs_expected s"
  "gs_failed (fold (count_stray r) xs s) = gs_failed s + length (filter (stray r) xs)"
  "gs_completed (fold (count_stray r) xs s) = gs_completed s"
  "gs_verified (fold (count_stray r) xs s) = gs_verified s"
  by (induction xs arbitrary: s) (simp_all add: count_stray_def stray_def fail_state_def)

lemma filter_all: "length (filter P xs) = length xs \<longleftrightarrow> (\<forall>x\<in>set xs. P x)"
  by (metis filter_True filter_id_conv length_filter_less order_less_irrefl)

lemma state_complete:
  "gs_state (group_state_of items [] r) = ''complete'' \<longleftrightarrow>
   0 < rc_count r \<and> int (length (rc_children r)) = rc_count r \<and> (\<forall>c\<in>set (rc_children r). child_is item_verified items r c) \<and>
   (\<forall>x\<in>set items. \<not> stray r x)"
proof -
  let ?cs = "rc_children r"
  let ?s0 = "if int (length ?cs) \<noteq> rc_count r then fail_state (new_state r) else new_state r"
  let ?s = "fold (count_stray r) items (fold (count_child items r) ?cs ?s0)"
  have e: "gs_expected ?s = rc_count r" by (simp add: fold_strays fold_children new_state_def fail_state_def)
  have f: "gs_failed ?s = (if int (length ?cs) \<noteq> rc_count r then 1 else 0) + length (filter (child_bad items r) ?cs) +
      length (filter (stray r) items)" by (simp add: fold_strays fold_children new_state_def fail_state_def)
  have c: "gs_completed ?s = length (filter (child_is item_done items r) ?cs)"
    by (simp add: fold_strays fold_children new_state_def fail_state_def)
  have vv: "gs_verified ?s = length (filter (child_is item_verified items r) ?cs)"
    by (simp add: fold_strays fold_children new_state_def fail_state_def)
  have good: "child_is item_verified items r c \<Longrightarrow> child_is item_done items r c \<and> \<not> child_bad items r c" for c
    by (auto simp: child_is_def child_bad_def item_verified_def item_done_def item_failed_def)
  have "gs_state (group_state_of items [] r) = name_state ?s" by (simp add: group_state_of_def Let_def)
  then have "gs_state (group_state_of items [] r) = ''complete'' \<longleftrightarrow>
      0 < gs_expected ?s \<and> gs_failed ?s = 0 \<and> int (gs_completed ?s) = gs_expected ?s \<and> int (gs_verified ?s) = gs_expected ?s"
    by (auto simp: name_state_def)
  also have "\<dots> \<longleftrightarrow> 0 < rc_count r \<and> int (length ?cs) = rc_count r \<and> (\<forall>c\<in>set ?cs. child_is item_verified items r c) \<and>
      (\<forall>x\<in>set items. \<not> stray r x)"
    unfolding e f c vv
    using filter_all [of "child_is item_verified items r" ?cs] filter_all [of "child_is item_done items r" ?cs] good
    by (auto simp: filter_empty_conv)
  finally show ?thesis .
qed

lemma bound_child_id: "bound_child items r c = Some x \<Longrightarrow> gi_id x = snd c"
  by (auto simp: bound_child_def findTodoItem_def find_Some_iff split: option.splits if_splits)

text \<open>The statuses a specification accepts when it names none.\<close>

definition successful_statuses :: "string set" where
  "successful_statuses = {''success'', ''completed_with_gaps''}"

lemma child_accepted:
  assumes "successful_statuses \<subseteq> set (accepted_statuses v)" "child_is item_verified items r c"
  shows "\<not> child_failure v items r c"
  using assms
  by (auto simp: child_failure_def child_fails_def child_is_def item_verified_def item_done_def done_ok_def successful_statuses_def
      taskResultStatusIsSuccessful_def isTerminalTaskStatus_def split: option.splits)

lemma child_passes:
  assumes "set (accepted_statuses v) \<subseteq> successful_statuses" "vs_verified v" "\<not> child_failure v items r c"
  shows "child_is item_verified items r c"
proof -
  obtain x st where x: "bound_child items r c = Some x" "\<not> child_fails v x" "gi_result x = Some st"
    using assms(3) by (auto simp: child_failure_def child_fails_def split: option.splits if_splits)
  then have "ToLower (TrimSpace st) \<in> successful_statuses" "gi_status x = TaskDone" "isVerifySuccess (gi_verify x)"
    using assms(1,2) by (auto simp: child_fails_def split: if_splits)
  with x show ?thesis
    by (auto simp: child_is_def item_verified_def item_done_def done_ok_def taskResultStatusIsSuccessful_def successful_statuses_def)
qed

lemma no_conflicts: "findWorksetReceipt items source = Inr r \<Longrightarrow> snd (visible_receipts items) = []"
  by (auto simp: findWorksetReceipt_def worksetReceiptConflictError_def Let_def split: prod.splits if_splits option.splits)

lemma strays_unbound:
  assumes "\<forall>c\<in>set (rc_children r). \<exists>x. bound_child items r c = Some x"
  shows "unbound_child items r x \<longleftrightarrow> stray r x"
proof -
  have "gi_id ` set (List.map_filter (bound_child items r) (rc_children r)) = snd ` set (rc_children r)"
  proof
    show "gi_id ` set (List.map_filter (bound_child items r) (rc_children r)) \<subseteq> snd ` set (rc_children r)"
      by (force simp: List.map_filter_def bound_child_id)
    show "snd ` set (rc_children r) \<subseteq> gi_id ` set (List.map_filter (bound_child items r) (rc_children r))"
    proof
      fix i assume "i \<in> snd ` set (rc_children r)"
      then obtain c where c: "c \<in> set (rc_children r)" "i = snd c" by auto
      with assms obtain x where x: "bound_child items r c = Some x" by blast
      then have "x \<in> set (List.map_filter (bound_child items r) (rc_children r))"
        using c(1) by (force simp: List.map_filter_def)
      moreover have "i = gi_id x" using bound_child_id [OF x] c(2) by simp
      ultimately show "i \<in> gi_id ` set (List.map_filter (bound_child items r) (rc_children r))" by (rule rev_image_eqI)
    qed
  qed
  then show ?thesis by (simp add: unbound_child_def stray_def)
qed

lemma strays_agree:
  assumes "\<forall>c\<in>set (rc_children r). child_is P items r c"
  shows "(\<forall>x\<in>set items. \<not> unbound_child items r x) \<longleftrightarrow> (\<forall>x\<in>set items. \<not> stray r x)"
proof -
  have "\<forall>c\<in>set (rc_children r). \<exists>x. bound_child items r c = Some x" using assms by (auto simp: child_is_def)
  from strays_unbound [OF this] show ?thesis by blast
qed

text \<open>What the verifier of a valid specification of mode success answers.\<close>

lemma verifier_passes:
  assumes "validateVerificationSpec (wd_encoded w) v = Inr ()" "vs_mode v = ''success''"
  shows "snd (executeWorksetCompleteVerification w source_ok items v) = None \<longleftrightarrow>
    (\<exists>r. findWorksetReceipt items (vs_source v) = Inr r \<and> source_ok r \<and> 0 < rc_count r \<and>
       int (length (rc_children r)) = rc_count r \<and> (\<forall>c\<in>set (rc_children r). \<not> child_failure v items r c) \<and>
       (\<forall>x\<in>set items. \<not> unbound_child items r x))"
  using assms
  by (cases "findWorksetReceipt items (vs_source v)")
    (auto simp: executeWorksetCompleteVerification_def Let_def fail_with_def pass_with_def applyVerificationMode_def filter_empty_conv)

text \<open>
  C19. The group state and the verifier agree. Take a valid \<open>workset_complete\<close> specification of mode success. The verifier never passes without the one
  receipt its source names, or when that source is not intact. If the projection used by resume and reports
  shows the workset of that receipt as complete - as many children as items, each the bound child of its key, done with a successful
  result and verified, and no other child of the workset - then a verifier that accepts at least the two successful statuses
  passes, whatever else it asks. If it passes, requires verification and accepts no other statuses, the workset shows as complete.
  So with verification required and the default statuses the two say the same.
\<close>

theorem complete_iff_verifier_passes:
  assumes "validateVerificationSpec (wd_encoded w) v = Inr ()" "vs_mode v = ''success''"
  shows "(snd (executeWorksetCompleteVerification w source_ok items v) = None \<longrightarrow>
      (\<exists>r. findWorksetReceipt items (vs_source v) = Inr r \<and> source_ok r \<and>
         (vs_verified v \<and> set (accepted_statuses v) \<subseteq> {''success'', ''completed_with_gaps''} \<longrightarrow>
            gs_state (group_state_of items (snd (visible_receipts items)) r) = ''complete''))) \<and>
    (\<forall>r. findWorksetReceipt items (vs_source v) = Inr r \<and> source_ok r \<and>
         {''success'', ''completed_with_gaps''} \<subseteq> set (accepted_statuses v) \<and>
         gs_state (group_state_of items (snd (visible_receipts items)) r) = ''complete'' \<longrightarrow>
       snd (executeWorksetCompleteVerification w source_ok items v) = None)"
proof (intro conjI impI allI; (elim conjE)?)
  assume "snd (executeWorksetCompleteVerification w source_ok items v) = None"
  then obtain r where r: "findWorksetReceipt items (vs_source v) = Inr r" "source_ok r" "0 < rc_count r"
    "int (length (rc_children r)) = rc_count r" and ok: "\<forall>c\<in>set (rc_children r). \<not> child_failure v items r c"
    and strays: "\<forall>x\<in>set items. \<not> unbound_child items r x"
    using verifier_passes [OF assms] by blast
  have "gs_state (group_state_of items (snd (visible_receipts items)) r) = ''complete''"
    if a: "vs_verified v" "set (accepted_statuses v) \<subseteq> {''success'', ''completed_with_gaps''}"
  proof -
    have c: "\<forall>c\<in>set (rc_children r). child_is item_verified items r c"
      using child_passes [of v items r] ok a by (simp add: successful_statuses_def)
    with r(3,4) strays strays_agree [OF c] show ?thesis by (simp add: no_conflicts [OF r(1)] state_complete)
  qed
  with r(1,2) show "\<exists>r. findWorksetReceipt items (vs_source v) = Inr r \<and> source_ok r \<and>
      (vs_verified v \<and> set (accepted_statuses v) \<subseteq> {''success'', ''completed_with_gaps''} \<longrightarrow>
         gs_state (group_state_of items (snd (visible_receipts items)) r) = ''complete'')" by blast
next
  fix r assume r: "findWorksetReceipt items (vs_source v) = Inr r" "source_ok r"
    and a: "{''success'', ''completed_with_gaps''} \<subseteq> set (accepted_statuses v)"
    and "gs_state (group_state_of items (snd (visible_receipts items)) r) = ''complete''"
  then have s: "0 < rc_count r" "int (length (rc_children r)) = rc_count r" "\<forall>x\<in>set items. \<not> stray r x"
    and c: "\<forall>c\<in>set (rc_children r). child_is item_verified items r c"
    by (simp_all add: no_conflicts [OF r(1)] state_complete)
  have "\<forall>c\<in>set (rc_children r). \<not> child_failure v items r c"
    using child_accepted [of v items r] a c by (simp add: successful_statuses_def)
  with r s strays_agree [OF c] show "snd (executeWorksetCompleteVerification w source_ok items v) = None"
    unfolding verifier_passes [OF assms] by blast
qed

section \<open>Witnesses\<close>

definition one_source :: artifact_ref where
  "one_source = \<lparr>af_id = ''a'', af_sha = ''b'', af_bytes = 0, af_size = 0, af_run = [], af_task = [], af_attempt = 0, af_agent = []\<rparr>"

definition two_items :: "(string \<times> string) list \<Rightarrow> manifest" where
  "two_items bs = \<lparr>mf_version = 1, mf_items =
     [\<lparr>wi_key = ''k'', wi_bindings = [(''file'', ''x'')], wi_inputs = [], wi_paths = []\<rparr>,
      \<lparr>wi_key = ''l'', wi_bindings = bs, wi_inputs = [], wi_paths = []\<rparr>]\<rparr>"

definition demo_sources :: "(string \<times> string) list \<Rightarrow> unit sources" where
  "demo_sources bs = \<lparr>sc_decode = (\<lambda>s. Some (two_items bs)), sc_read = (\<lambda>t. Some (''{'', one_source)), sc_producer = (\<lambda>p. True),
     sc_resolve = (\<lambda>p r. Some r), sc_load = (\<lambda>p. None), sc_sha = (\<lambda>s. s)\<rparr>"

definition demo_spec :: fan_spec where
  "demo_spec = \<lparr>fo_source = ''w.json'', fo_artifact_task = [], fo_artifact = [], fo_template = ''do {file}''\<rparr>"

definition demo_task :: "unit task" where
  "demo_task = \<lparr>ft_id = ''p'', ft_goal = ''g'', ft_fan_out = Some demo_spec, ft_binding = None, ft_rest = ()\<rparr>"

definition goals_of :: "workset_error + 'r task list \<Rightarrow> string list" where
  "goals_of r = (case r of Inl e \<Rightarrow> [] | Inr ts \<Rightarrow> map ft_goal ts)"

lemma demo_trims: "TrimSpace ''{'' = ''{''" "TrimSpace ''do {file}'' \<noteq> []" "TrimSpace ''k'' = ''k''" "TrimSpace ''l'' = ''l''"
    "TrimSpace ''file'' = ''file''"
  by code_simp+

lemma demo_manifest:
  "bindings_ok bs \<Longrightarrow> normalizeStructuredWorkset (sc_decode (demo_sources bs)) ''{'' = Inr (two_items bs)"
  by (simp add: normalizeStructuredWorkset_def decodeWorksetManifest_def validateWorksetManifest_def demo_trims demo_sources_def
      two_items_def first_bad_def normal_paths_def List.map_filter_simps maxWorksetBytes_def maxWorksetItems_def
      maxWorksetKeyBytes_def Let_def) (simp add: bindings_ok_def demo_trims maxWorksetKeyBytes_def maxWorksetValueBytes_def)

lemma demo_holes: "placeholders ''do {file}'' = [''file'']"
  "instantiate f ''do {file}'' = ''do '' @ f ''file''"
  by (simp_all add: placeholders_def instantiate_def List.map_filter_simps hole_at_def word_char_def is_digit_def)

lemma demo_expansion:
  assumes "bindings_ok bs"
  shows "expandStructuredFanOutTask (demo_sources bs) demo_spec demo_task =
   Inr (map (child_task (worksetID (\<lambda>s. s) ''a'' ''b'' (mf_items (two_items bs))) one_source ''do {file}'' demo_task) (mf_items (two_items bs)))"
proof -
  have t: "fo_template demo_spec = ''do {file}''" "fo_artifact_task demo_spec = []" by (simp_all add: demo_spec_def)
  have r: "sc_read (demo_sources bs) demo_task = Some (''{'', one_source)" "sc_sha (demo_sources bs) = (\<lambda>s. s)"
    "af_id one_source = ''a''" "af_sha one_source = ''b''" by (simp_all add: demo_sources_def one_source_def)
  have "those (map Some xs) = Some xs" for xs :: "artifact_ref list" by (induction xs) simp_all
  then have i: "validateWorksetInputs (demo_sources bs) (two_items bs) [] = Some (two_items bs)"
    by (simp add: validateWorksetInputs_def two_items_def demo_sources_def)
  have n: "map_of (wi_bindings (hd (mf_items (two_items bs)))) ''file'' \<noteq> None" by (simp add: two_items_def)
  show ?thesis
    using n by (simp add: expandStructuredFanOutTask_def t r i demo_manifest [OF assms] demo_trims demo_holes)
qed

lemma bindings_oks: "bindings_ok []" "bindings_ok [(''file'', ''y'')]"
  by (simp_all add: bindings_ok_def demo_trims maxWorksetKeyBytes_def maxWorksetValueBytes_def)

text \<open>
  Only the first item is checked against the template. The expansion of a task is documented to fail as a whole rather than to
  produce \<open>some correct and some silently wrong tasks\<close>, but here the second item of a manifest binds nothing and its
  child is created with an empty placeholder.
\<close>

theorem unbound_item_expands:
  "goals_of (expandStructuredFanOutTask (demo_sources []) demo_spec demo_task) = [''do x'', ''do '']"
  by (simp add: demo_expansion bindings_oks goals_of_def) (simp add: two_items_def child_task_def demo_holes item_value_def)

theorem workset_children_witness:
  "\<exists>ts. expandStructuredFanOutTask (demo_sources [(''file'', ''y'')]) demo_spec demo_task = Inr ts \<and>
     map ft_goal ts = [''do x'', ''do y''] \<and> list_all (binds ''do {file}'') ts \<and> binds ''do {file}'' (hd ts) \<and> distinct (map child_key ts)"
proof -
  note e = demo_expansion [OF bindings_oks(2)]
  let ?ts = "map (child_task (worksetID (\<lambda>s. s) ''a'' ''b'' (mf_items (two_items [(''file'', ''y'')]))) one_source ''do {file}'' demo_task)
    (mf_items (two_items [(''file'', ''y'')]))"
  have "map ft_goal ?ts = [''do x'', ''do y'']" by (simp add: two_items_def child_task_def demo_holes item_value_def)
  moreover have "list_all (binds ''do {file}'') ?ts"
    by (simp add: two_items_def child_task_def demo_holes binds_def)
  moreover have "binds ''do {file}'' (hd ?ts) \<and> distinct (map child_key ?ts)"
    using workset_children [OF e] by (simp add: demo_spec_def)
  ultimately show ?thesis by (intro exI [of _ ?ts] conjI e) simp_all
qed

definition demo_binding :: "string \<Rightarrow> binding" where
  "demo_binding k = \<lparr>wb_workset = ''w'', wb_parent = ''p'', wb_key = k, wb_bindings = [], wb_inputs = [], wb_paths = [],
     wb_source = ''a'', wb_sha = ''b'', wb_artifact = one_source\<rparr>"

definition demo_children :: "unit task list" where
  "demo_children = [demo_task\<lparr>ft_binding := Some (demo_binding ''k'')\<rparr>, demo_task, demo_task\<lparr>ft_binding := Some (demo_binding ''l'')\<rparr>]"

definition demo_receipt :: receipt where
  "demo_receipt = \<lparr>rc_workset = ''w'', rc_run = ''r'', rc_parent = ''p'', rc_source = ''a'', rc_sha = ''b'', rc_artifact = one_source,
     rc_count = 2, rc_keys_sha = [], rc_children = [(''k'', ''1''), (''l'', ''3'')]\<rparr>"

lemma letters_trim: "TrimSpace ''w'' = ''w''" "TrimSpace ''a'' = ''a''" "TrimSpace ''b'' = ''b''" "TrimSpace ''p'' = ''p''"
  by code_simp+

lemma workset_build: "buildWorksetReceipts demo_children [''1'', ''2'', ''3''] ''r'' = Inr [(''w'', demo_receipt)]"
  by (simp add: buildWorksetReceipts_def demo_children_def add_binding_def demo_binding_def demo_trims letters_trim
      validateWorksetSourceOccurrence_def one_source_def fits_receipt_def sameArtifactOccurrence_def add_child_def new_receipt_def
      demo_receipt_def demo_task_def)

theorem receipts_map_children_witness:
  "rc_children demo_receipt = children_of ''w'' (zip (map ft_binding demo_children) [''1'', ''2'', ''3''])"
  using receipts_map_children [OF workset_build, of "''w''"] by simp

definition quiet_world :: world where
  "quiet_world = \<lparr>wd_ended = False, wd_unresolved = (\<lambda>c d. None),
     wd_run = (\<lambda>sh c d. \<lparr>rn_failed = True, rn_code = 1, rn_stdout = [], rn_stderr = [], rn_deadline = False,
       rn_parent_ended = False, rn_under_two_minutes = True\<rparr>),
     wd_stat = (\<lambda>p. Absent), wd_read = (\<lambda>p. None), wd_decode = (\<lambda>s. None), wd_encoded = (\<lambda>v. 0), wd_text = (\<lambda>e x. [])\<rparr>"

definition demo_item :: "string \<Rightarrow> string \<Rightarrow> receipt option \<Rightarrow> group_item" where
  "demo_item i k r = \<lparr>gi_id = i, gi_status = TaskDone, gi_result = Some ''success'',
     gi_verify = Some \<lparr>vd_exit = 0, vd_timed_out = False\<rparr>, gi_binding = Some (demo_binding k), gi_receipt = r\<rparr>"

definition demo_items :: "group_item list" where
  "demo_items = [demo_item ''1'' ''k'' (Some demo_receipt), demo_item ''3'' ''l'' None]"

definition demo_check :: verification_spec where
  "demo_check = empty_spec\<lparr>vs_type := ''workset_complete'', vs_mode := ''success'', vs_source := ''p'', vs_verified := True,
     vs_statuses := [''success'', ''completed_with_gaps'']\<rparr>"

lemma status_trims: "TrimSpace ''success'' = ''success''" "TrimSpace ''completed_with_gaps'' = ''completed_with_gaps''"
  by (rule rest_TrimSpace; simp add: name_rest_def name_first_def)+

lemma status_lower: "ToLower ''success'' = ''success''" "ToLower ''completed_with_gaps'' = ''completed_with_gaps''" "ToLower ''p'' = ''p''"
  by (simp_all add: ToLower_def ascii_lower_def)

theorem complete_iff_verifier_passes_witness:
  "snd (executeWorksetCompleteVerification quiet_world (\<lambda>r. True) demo_items demo_check) = None"
proof -
  have valid: "validateVerificationSpec (wd_encoded quiet_world) demo_check = Inr ()"
    by (simp add: validateVerificationSpec_def validateVerificationMode_def demo_check_def empty_spec_def letters_trim status_trims)
  have mode: "vs_mode demo_check = ''success''" by (simp add: demo_check_def)
  have accepted: "{''success'', ''completed_with_gaps''} \<subseteq> set (accepted_statuses demo_check)"
    by (simp add: accepted_statuses_def demo_check_def status_trims status_lower)
  have f: "findWorksetReceipt demo_items (vs_source demo_check) = Inr demo_receipt"
    by (simp add: findWorksetReceipt_def visible_receipts_def demo_items_def demo_item_def demo_check_def normalizeTaskReferenceID_def
        letters_trim status_lower List.map_filter_simps worksetReceiptConflictError_def demo_receipt_def)
  have complete: "gs_state (group_state_of demo_items (snd (visible_receipts demo_items)) demo_receipt) = ''complete''"
    unfolding no_conflicts [OF f] state_complete
    by (auto simp: demo_receipt_def child_is_def bound_child_def findTodoItem_def demo_items_def demo_item_def bound_to_def
        demo_binding_def item_verified_def item_done_def done_ok_def taskResultStatusIsSuccessful_def status_trims status_lower
        isVerifySuccess_def stray_def)
  from complete_iff_verifier_passes [OF valid mode, of "\<lambda>r. True" demo_items] f accepted complete show ?thesis by blast
qed

end
