(* ===== verification/Criteria.thy ===== *)
theory Criteria
  imports Workset_Group
begin

text \<open>
  Acceptance criteria: \<open>internal/team/criteria.go\<close>, with \<open>ParseGoalMode\<close> of \<open>run_result.go\<close>. A contract lists named
  criteria with dependencies; an evaluation runs the verifier of each criterion whose dependencies passed, blocks the
  others and fails as a whole on a cycle. Evaluation times and fingerprints are left out; the replay of task
  outputs (\<open>executeTaskOutputAssertVerification\<close>) is an argument.
\<close>

section \<open>Contracts\<close>

record criterion =
  cr_id :: string
  cr_required :: bool
  cr_depends :: "string list"
  cr_verify :: verification_spec

record acceptance_spec =
  ac_commands :: "string list"
  ac_artifacts :: "string list"
  ac_workers :: "string list"
  ac_accept_gaps :: bool
  ac_no_unresolved :: bool
  ac_mode :: string
  ac_verifications :: "verification_spec list"
  ac_criteria :: "criterion list"

definition empty_acceptance :: acceptance_spec where
  "empty_acceptance = \<lparr>ac_commands = [], ac_artifacts = [], ac_workers = [], ac_accept_gaps = False, ac_no_unresolved = False,
     ac_mode = [], ac_verifications = [], ac_criteria = []\<rparr>"

datatype contract_state = AcceptanceContractUnset | AcceptanceContractEmpty | AcceptanceContractConfigured

definition AcceptanceSpecHasChecks :: "acceptance_spec \<Rightarrow> bool" where
  "AcceptanceSpecHasChecks s =
     (if ac_no_unresolved s then True
      else if ac_workers s \<noteq> [] then True
      else if list_ex (\<lambda>c. TrimSpace c \<noteq> []) (ac_commands s) then True
      else if list_ex (\<lambda>p. TrimSpace p \<noteq> []) (ac_artifacts s) then True
      else ac_verifications s \<noteq> [] \<or> ac_criteria s \<noteq> [])"

definition AcceptanceContractStateOf :: "acceptance_spec option \<Rightarrow> contract_state" where
  "AcceptanceContractStateOf spec =
     (case spec of None \<Rightarrow> AcceptanceContractUnset
      | Some s \<Rightarrow> if \<not> AcceptanceSpecHasChecks s then AcceptanceContractEmpty else AcceptanceContractConfigured)"

definition HasExecutableAcceptanceContract :: "bool \<Rightarrow> acceptance_spec option \<Rightarrow> string \<Rightarrow> bool" where
  "HasExecutableAcceptanceContract requestEnabled spec command =
     (if requestEnabled then True
      else case spec of Some s \<Rightarrow> AcceptanceSpecHasChecks s | None \<Rightarrow> TrimSpace command \<noteq> [])"

datatype goal_mode = GoalModeOutcome | GoalModeExploratory

definition ParseGoalMode :: "string \<Rightarrow> goal_mode option" where
  "ParseGoalMode s =
     (let lower = ToLower (TrimSpace s) in
      if lower = [] \<or> lower = ''outcome'' then Some GoalModeOutcome
      else if lower = ''exploratory'' then Some GoalModeExploratory else None)"

datatype criteria_error =
    CriterionWithoutID | DuplicateCriterion string | CriterionSpec string spec_error | UnknownDependency string string
  | AcceptanceVacuous | DependencyCycle

fun check_criteria :: "(json \<Rightarrow> nat) \<Rightarrow> string list \<Rightarrow> criterion list \<Rightarrow> criteria_error + unit" where
  "check_criteria enc seen [] = Inr ()"
| "check_criteria enc seen (c # cs) =
     (if TrimSpace (cr_id c) = [] then Inl CriterionWithoutID
      else if cr_id c \<in> set seen then Inl (DuplicateCriterion (cr_id c))
      else case validateVerificationSpec enc (NormalizeVerificationSpec (cr_verify c) [] []) of
        Inl e \<Rightarrow> Inl (CriterionSpec (cr_id c) e) | Inr u \<Rightarrow> check_criteria enc (cr_id c # seen) cs)"

fun check_dependencies :: "string list \<Rightarrow> criterion list \<Rightarrow> criteria_error + unit" where
  "check_dependencies ids [] = Inr ()"
| "check_dependencies ids (c # cs) =
     (case find (\<lambda>d. d \<notin> set ids) (cr_depends c) of
        Some d \<Rightarrow> Inl (UnknownDependency (cr_id c) d) | None \<Rightarrow> check_dependencies ids cs)"

definition validateAcceptanceCriteria :: "(json \<Rightarrow> nat) \<Rightarrow> criterion list \<Rightarrow> criteria_error + unit" where
  "validateAcceptanceCriteria enc cs =
     bindR (check_criteria enc [] cs) (\<lambda>_. check_dependencies (map cr_id cs) cs)"

definition ValidateAcceptanceSpec :: "(json \<Rightarrow> nat) \<Rightarrow> acceptance_spec option \<Rightarrow> string \<Rightarrow> criteria_error + unit" where
  "ValidateAcceptanceSpec enc spec goalMode =
     (let mode = (case ParseGoalMode goalMode of None \<Rightarrow> GoalModeOutcome | Some m \<Rightarrow> m) in
      if mode \<noteq> GoalModeOutcome then Inr ()
      else case spec of None \<Rightarrow> Inl AcceptanceVacuous
      | Some s \<Rightarrow>
          if \<not> AcceptanceSpecHasChecks s then Inl AcceptanceVacuous
          else if ac_criteria s \<noteq> [] then validateAcceptanceCriteria enc (ac_criteria s) else Inr ())"

definition validateAcceptanceWithRequest ::
  "(json \<Rightarrow> nat) \<Rightarrow> acceptance_spec option \<Rightarrow> string \<Rightarrow> bool \<Rightarrow> criteria_error + unit" where
  "validateAcceptanceWithRequest enc spec goalMode requestAcceptance =
     (if \<not> requestAcceptance then ValidateAcceptanceSpec enc spec goalMode
      else let effective = (case spec of None \<Rightarrow> empty_acceptance | Some s \<Rightarrow> s) in
        ValidateAcceptanceSpec enc (Some (effective\<lparr>ac_no_unresolved := True\<rparr>)) goalMode)"

section \<open>Evaluation\<close>

datatype criterion_state = CriterionPending | CriterionPassed | CriterionFailed | CriterionBlocked

datatype criterion_reason = DependencyNotPassed | VerifierError verify_error | ObservationOnly

record criterion_result =
  cs_id :: string
  cs_state :: criterion_state
  cs_evidence :: "verifier_result option"
  cs_reason :: "criterion_reason option"

text \<open>What an evaluation reads: the world, the shell and directory, and the state of the coordinator.\<close>

record criteria_env =
  ce_world :: world
  ce_shell :: string
  ce_dir :: string
  ce_items :: "group_item list"
  ce_source_ok :: "receipt \<Rightarrow> bool"
  ce_task_output :: "verification_spec \<Rightarrow> verify_answer"

definition run_verifier :: "criteria_env \<Rightarrow> verification_spec \<Rightarrow> verify_answer" where
  "run_verifier env v =
     (if vs_type v = ''workset_complete'' then executeWorksetCompleteVerification (ce_world env) (ce_source_ok env) (ce_items env) v
      else if vs_type v = ''task_output_assert'' then ce_task_output env v
      else ExecuteVerificationSpec (ce_world env) (ce_shell env) (ce_dir env) v)"

definition run_criterion :: "criteria_env \<Rightarrow> criterion \<Rightarrow> criterion_result" where
  "run_criterion env c =
     (let v = NormalizeVerificationSpec (cr_verify c) [] [] in
      case run_verifier env v of (res, err) \<Rightarrow>
        \<lparr>cs_id = cr_id c,
         cs_state = (if err \<noteq> None \<or> vs_mode v = ''observation'' then CriterionFailed else CriterionPassed),
         cs_evidence = res,
         cs_reason = (case err of Some e \<Rightarrow> Some (VerifierError e)
           | None \<Rightarrow> if vs_mode v = ''observation'' then Some ObservationOnly else None)\<rparr>)"

definition blocked_criterion :: "criterion \<Rightarrow> criterion_result" where
  "blocked_criterion c = \<lparr>cs_id = cr_id c, cs_state = CriterionBlocked, cs_evidence = None, cs_reason = Some DependencyNotPassed\<rparr>"

definition result_of :: "criterion_result list \<Rightarrow> string \<Rightarrow> criterion_result option" where
  "result_of rs i = find (\<lambda>r. cs_id r = i) rs"

text \<open>The scan of the dependencies stops at the first without a result; \<open>None\<close> is not ready.\<close>

fun scan_dependencies :: "criterion_result list \<Rightarrow> string list \<Rightarrow> bool \<Rightarrow> bool option" where
  "scan_dependencies rs [] blocked = Some blocked"
| "scan_dependencies rs (d # ds) blocked =
     (case result_of rs d of None \<Rightarrow> None
      | Some r \<Rightarrow> scan_dependencies rs ds (blocked \<or> cs_state r \<noteq> CriterionPassed))"

fun eval_pass :: "criteria_env \<Rightarrow> criterion list \<Rightarrow> criterion_result list \<Rightarrow> criterion_result list" where
  "eval_pass env [] rs = rs"
| "eval_pass env (c # cs) rs =
     eval_pass env cs
       (if result_of rs (cr_id c) \<noteq> None then rs
        else case scan_dependencies rs (cr_depends c) False of
          None \<Rightarrow> rs
        | Some blocked \<Rightarrow> rs @ [if blocked then blocked_criterion c else run_criterion env c])"

lemma eval_pass_extends: "\<exists>new. eval_pass env cs rs = rs @ new"
proof (induction cs arbitrary: rs)
  case (Cons c cs)
  let ?r = "if result_of rs (cr_id c) \<noteq> None then rs
    else case scan_dependencies rs (cr_depends c) False of
      None \<Rightarrow> rs | Some blocked \<Rightarrow> rs @ [if blocked then blocked_criterion c else run_criterion env c]"
  obtain new where "eval_pass env cs ?r = ?r @ new" using Cons.IH by blast
  moreover have "\<exists>n. ?r = rs @ n" by (auto split: option.splits)
  ultimately show ?case by (auto simp del: append_assoc simp add: append_assoc [symmetric]) (metis append_assoc)
qed simp

lemma eval_pass_grows: "length rs \<le> length (eval_pass env cs rs)"
  using eval_pass_extends [of env cs rs] by auto

text \<open>Passes until every criterion has a result; one without progress is a cycle.\<close>

function eval_loop :: "criteria_env \<Rightarrow> criterion list \<Rightarrow> criterion_result list \<Rightarrow> criterion_result list option" where
  "eval_loop env cs rs =
     (if length cs \<le> length rs then Some rs
      else if length (eval_pass env cs rs) = length rs then None
      else eval_loop env cs (eval_pass env cs rs))"
  by pat_completeness auto
termination
proof (relation "measure (\<lambda>(env, cs, rs). length cs - length rs)")
  fix env cs rs
  assume "\<not> length cs \<le> length rs" "length (eval_pass env cs rs) \<noteq> length rs"
  then show "((env, cs, eval_pass env cs rs), env, cs, rs) \<in> measure (\<lambda>(env, cs, rs). length cs - length rs)"
    using eval_pass_grows [of rs env cs] by simp
qed simp

declare eval_loop.simps [simp del]

definition evaluateCriteria :: "criteria_env \<Rightarrow> criterion list \<Rightarrow> criteria_error + criterion_result list" where
  "evaluateCriteria env criteria =
     bindR (validateAcceptanceCriteria (wd_encoded (ce_world env)) criteria) (\<lambda>_.
       case eval_loop env (sort_key cr_id criteria) [] of None \<Rightarrow> Inl DependencyCycle | Some rs \<Rightarrow> Inr rs)"

section \<open>Tasks and criteria\<close>

datatype kind = KindNone | KindOutcome | KindRepair | KindDiagnostic | KindOther string

text \<open>A task definition as far as its links to criteria go; a verifier is a legacy command or a specification.\<close>

record linked_task =
  lt_kind :: kind
  lt_sidecar :: bool
  lt_catalog :: bool
  lt_state_change :: string
  lt_advances :: "string list"
  lt_verify :: string
  lt_verify_mode :: string
  lt_verify_spec :: "verification_spec option"

definition artifact_flag :: "string \<Rightarrow> bool" where
  "artifact_flag f \<longleftrightarrow> f \<in> {''-e'', ''-f'', ''-d'', ''-s'', ''-r'', ''-w'', ''-x''}"

definition isArtifactOnlyOutcomeVerifier :: "verification_spec \<Rightarrow> bool" where
  "isArtifactOnlyOutcomeVerifier v =
     (if vs_mode v = ''observation'' \<or> vs_type v = ''file_exists'' \<or> vs_type v = ''file_absent'' then True
      else if vs_type v \<noteq> ''command_exit'' then False
      else let fields = Fields (TrimSpace (vs_command v)) in
        if length fields = 3 \<and> fields ! 0 = ''test'' \<and> artifact_flag (fields ! 1) then True
        else length fields = 4 \<and> fields ! 0 = ''['' \<and> artifact_flag (fields ! 1) \<and> fields ! 3 = '']'')"

datatype link_error =
    UncertaintyMissing | CriterionMissing kind | VerifierMissing kind | ArtifactOnly kind | UnknownCriterion string

definition inferred_kind :: "bool \<Rightarrow> linked_task \<Rightarrow> kind" where
  "inferred_kind configured t = (if lt_kind t = KindNone \<and> \<not> lt_sidecar t \<and> configured then KindOutcome else lt_kind t)"

definition check_link :: "string list \<Rightarrow> linked_task \<Rightarrow> link_error + unit" where
  "check_link criteria t =
     (let k = inferred_kind (criteria \<noteq> []) t in
      if k = KindDiagnostic \<and> TrimSpace (lt_state_change t) = [] then Inl UncertaintyMissing
      else if k \<noteq> KindOutcome \<and> k \<noteq> KindRepair then Inr ()
      else if lt_advances t = [] then Inl (CriterionMissing k)
      else if lt_verify t = [] \<and> lt_verify_spec t = None then Inl (VerifierMissing k)
      else let v = (case lt_verify_spec t of None \<Rightarrow> empty_spec | Some v \<Rightarrow> v);
               v = NormalizeVerificationSpec v (lt_verify t) (lt_verify_mode t) in
        if isArtifactOnlyOutcomeVerifier v then Inl (ArtifactOnly k)
        else case find (\<lambda>i. i \<notin> set criteria) (lt_advances t) of Some i \<Rightarrow> Inl (UnknownCriterion i) | None \<Rightarrow> Inr ())"

fun check_links :: "string list \<Rightarrow> linked_task list \<Rightarrow> link_error + unit" where
  "check_links criteria [] = Inr ()"
| "check_links criteria (t # ts) = bindR (check_link criteria t) (\<lambda>_. check_links criteria ts)"

definition validateTaskCriterionLinks :: "string \<Rightarrow> acceptance_spec option \<Rightarrow> linked_task list \<Rightarrow> link_error + unit" where
  "validateTaskCriterionLinks goalMode spec tasks =
     (if ParseGoalMode goalMode \<noteq> Some GoalModeOutcome then Inr ()
      else check_links (case spec of None \<Rightarrow> [] | Some s \<Rightarrow> map cr_id (ac_criteria s)) (filter (\<lambda>t. \<not> lt_catalog t) tasks))"

definition normalizeOutcomeTaskKinds :: "string \<Rightarrow> acceptance_spec option \<Rightarrow> linked_task list \<Rightarrow> linked_task list" where
  "normalizeOutcomeTaskKinds goalMode spec tasks =
     (if ParseGoalMode goalMode \<noteq> Some GoalModeOutcome then tasks
      else case spec of None \<Rightarrow> tasks
      | Some s \<Rightarrow>
          if ac_criteria s = [] then tasks
          else map (\<lambda>t. if lt_kind t = KindNone \<and> \<not> lt_sidecar t \<and> \<not> lt_catalog t then t\<lparr>lt_kind := KindOutcome\<rparr> else t) tasks)"

definition failedCriteriaForTask :: "criterion_result list option \<Rightarrow> string list \<Rightarrow> string list" where
  "failedCriteriaForTask results advances =
     (case results of None \<Rightarrow> advances
      | Some rs \<Rightarrow>
          filter (\<lambda>i. case result_of (rev rs) i of None \<Rightarrow> True | Some r \<Rightarrow> cs_state r \<noteq> CriterionPassed) advances)"

end
