(* ===== verification/Verifier_Safety.thy ===== *)
theory Verifier_Safety
  imports Verifier_Run
begin

text \<open>
  What typed verifiers promise: pointers are read as RFC 6901 defines them, numbers are compared exactly,
  normalisation settles a specification, a verifier in mode \<open>success\<close> passes exactly when what it asserts holds, and
  the other modes are a filter over the answer of that mode.
\<close>

section \<open>Pointers\<close>

text \<open>
  C37. The pointers the validator accepts are exactly the renderings of token lists, and a rendered pointer resolves to what
  walking its tokens one by one reaches.
\<close>

theorem pointer_grammar:
  "(validateJSONPointer p = Inr () \<longleftrightarrow> (\<exists>ts. p = render_pointer ts)) \<and>
   resolveJSONPointer document (render_pointer ts) = walk_pointer ts document"
proof
  show "validateJSONPointer p = Inr () \<longleftrightarrow> (\<exists>ts. p = render_pointer ts)"
    using valid_is_render valid_render by blast
  show "resolveJSONPointer document (render_pointer ts) = walk_pointer ts document"
  proof (cases "ts = []")
    case True
    then show ?thesis by (simp add: resolveJSONPointer_def render_pointer_def validateJSONPointer_def)
  next
    case False
    with render_Cons [OF False] render_tokens [OF False] show ?thesis
      by (auto simp: resolveJSONPointer_def valid_render)
  qed
qed

section \<open>Equality of scalars\<close>

lemma scalar_deep: "isJSONScalar a \<Longrightarrow> deep_equal a b \<longleftrightarrow> a = b"
  by (cases a) (auto simp: isJSONScalar_def)

lemma scalar_equal:
  assumes "isJSONScalar a"
  shows "equalJSONValues a b \<longleftrightarrow> a = b \<or> (toExactJSONNumber a \<noteq> None \<and> toExactJSONNumber a = toExactJSONNumber b)"
  using scalar_deep [OF assms, of b]
  by (auto simp: equalJSONValues_def toExactJSONNumber_def split: option.splits)

text \<open>
  Scalars are compared exactly: two of them are equal when they are the same value or numbers of the same rational
  value, whatever their size and notation; a string never equals a number.
\<close>

theorem scalar_equality:
  "(isJSONScalar a \<longrightarrow> (equalJSONValues a b \<longleftrightarrow>
      a = b \<or> (\<exists>x. toExactJSONNumber a = Some x \<and> toExactJSONNumber b = Some x))) \<and>
   equalJSONValues (JNumber (dec_int m)) (JNumber (dec_int n)) = (m = n) \<and>
   \<not> equalJSONValues (JString s) (JNumber t)"
proof -
  have "dec_int m = dec_int n \<longleftrightarrow> m = n" using SetString_dec_int [of m] SetString_dec_int [of n]
    by (metis of_int_eq_iff option.inject)
  then have "equalJSONValues (JNumber (dec_int m)) (JNumber (dec_int n)) = (m = n)"
    by (simp add: scalar_equal isJSONScalar_def toExactJSONNumber_def SetString_dec_int)
  moreover have "\<not> equalJSONValues (JString s) (JNumber t)"
    by (simp add: scalar_equal isJSONScalar_def toExactJSONNumber_def)
  ultimately show ?thesis by (auto simp: scalar_equal)
qed

lemma ten: "toExactJSONNumber (JNumber ''1e1'') = Some 10"
proof -
  have d: "is_digit CHR ''1''" "\<not> is_digit CHR ''e''" by (simp_all add: is_digit_def)
  have "Atoi ''1'' = Some 1" by (simp add: Atoi_def d is_int64_def MaxInt64_def MinInt64_def dec_val_def digit_val_def)
  then show ?thesis
    by (simp add: toExactJSONNumber_def SetString_def unsigned_rat_def Let_def d exponent_of_def pow10_def dec_val_def digit_val_def)
qed

theorem scalar_equality_witness:
  "equalJSONValues (JNumber (dec_int 10)) (JNumber ''1e1'')"
proof -
  have "toExactJSONNumber (JNumber (dec_int 10)) = Some 10"
    by (simp add: toExactJSONNumber_def SetString_dec_int)
  moreover have "isJSONScalar (JNumber (dec_int 10))" by (simp add: isJSONScalar_def)
  ultimately show ?thesis using scalar_equality [of "JNumber (dec_int 10)" "JNumber ''1e1''"] ten by blast
qed

section \<open>Normalisation\<close>

lemma infer_type_idle: "vs_type v \<noteq> [] \<Longrightarrow> infer_type c v = v"
  by (simp add: infer_type_def)

lemma infer_type_some: "vs_type (infer_type c v) \<noteq> []"
  by (auto simp: infer_type_def spec_type_def split: option.splits)

lemma settled_idle:
  "vs_type n \<noteq> [] \<Longrightarrow> vs_mode n \<noteq> [] \<Longrightarrow> \<not> (vs_type n = ''workset_complete'' \<and> vs_statuses n = []) \<Longrightarrow>
   NormalizeVerificationSpec n [] m = n"
  by (simp add: NormalizeVerificationSpec_def infer_type_idle)

lemma normalized_form:
  obtains x where "vs_type x = vs_type (infer_type c v)" "vs_mode x \<noteq> []"
    "NormalizeVerificationSpec v c m =
      (if vs_type x = ''workset_complete'' \<and> vs_statuses x = []
       then x\<lparr>vs_statuses := [''success'', ''completed_with_gaps'']\<rparr> else x)"
proof -
  let ?a = "infer_type c v"
  let ?b = "if vs_command ?a = [] \<and> c \<noteq> [] \<and> vs_type ?a = ''command_exit'' then ?a\<lparr>vs_command := c\<rparr> else ?a"
  let ?d = "if vs_mode ?b = [] \<and> m \<noteq> [] then ?b\<lparr>vs_mode := m\<rparr> else ?b"
  let ?e = "if vs_mode ?d = [] then ?d\<lparr>vs_mode := ''success''\<rparr> else ?d"
  have "vs_type ?b = vs_type ?a" by simp
  then have "vs_type ?d = vs_type ?a" by simp
  then have "vs_type ?e = vs_type ?a" by simp
  moreover have "vs_mode ?e \<noteq> []" by simp
  ultimately show thesis by (rule that) (simp only: NormalizeVerificationSpec_def Let_def)
qed

lemma normalized_twice:
  "NormalizeVerificationSpec (NormalizeVerificationSpec v c m) [] m' = NormalizeVerificationSpec v c m"
proof -
  obtain x where x: "vs_type x = vs_type (infer_type c v)" "vs_mode x \<noteq> []"
    "NormalizeVerificationSpec v c m =
      (if vs_type x = ''workset_complete'' \<and> vs_statuses x = []
       then x\<lparr>vs_statuses := [''success'', ''completed_with_gaps'']\<rparr> else x)" by (rule normalized_form)
  have t: "vs_type x \<noteq> []" using x(1) infer_type_some [of c v] by simp
  show ?thesis
  proof (cases "vs_type x = ''workset_complete'' \<and> vs_statuses x = []")
    case True
    then have "NormalizeVerificationSpec v c m = x\<lparr>vs_statuses := [''success'', ''completed_with_gaps'']\<rparr>"
      using x(3) by simp
    with t x(2) show ?thesis by (simp add: settled_idle)
  next
    case False
    then have "NormalizeVerificationSpec v c m = x" using x(3) by simp
    with t x(2) False show ?thesis by (simp add: settled_idle)
  qed
qed

text \<open>
  C40. Normalisation settles a specification. The result has a type and a mode, and normalising it again, with any legacy
  mode and no legacy command, changes nothing.
\<close>

theorem normalization_settles:
  "NormalizeVerificationSpec (NormalizeVerificationSpec v c m) [] m' = NormalizeVerificationSpec v c m \<and>
   vs_type (NormalizeVerificationSpec v c m) \<noteq> [] \<and> vs_mode (NormalizeVerificationSpec v c m) \<noteq> []"
proof -
  obtain x where x: "vs_type x = vs_type (infer_type c v)" "vs_mode x \<noteq> []"
    "NormalizeVerificationSpec v c m =
      (if vs_type x = ''workset_complete'' \<and> vs_statuses x = []
       then x\<lparr>vs_statuses := [''success'', ''completed_with_gaps'']\<rparr> else x)" by (rule normalized_form)
  moreover have "vs_type x \<noteq> []" using x(1) infer_type_some [of c v] by simp
  ultimately have "vs_type (NormalizeVerificationSpec v c m) \<noteq> [] \<and> vs_mode (NormalizeVerificationSpec v c m) \<noteq> []"
    by (auto split: if_splits)
  then show ?thesis by (simp add: normalized_twice)
qed

section \<open>Passing\<close>

text \<open>What a normalised specification asserts of the world, the steps of the attempt and its result.\<close>

definition command_succeeds :: "world \<Rightarrow> string \<Rightarrow> string \<Rightarrow> string \<Rightarrow> bool" where
  "command_succeeds w shell workDir command \<longleftrightarrow>
     \<not> wd_ended w \<and> wd_unresolved w (TrimSpace command) workDir = None \<and>
     \<not> rn_failed (wd_run w (if shell = [] then ''sh'' else shell) (TrimSpace command) workDir)"

definition json_source :: "world \<Rightarrow> string \<Rightarrow> string \<Rightarrow> verification_spec \<Rightarrow> string option" where
  "json_source w shell workDir v =
     (if vs_path v \<noteq> [] then wd_read w (target_path workDir (vs_path v))
      else if vs_command v = [] then Some []
      else if command_succeeds w shell workDir (vs_command v)
      then Some (rn_stdout (wd_run w (if shell = [] then ''sh'' else shell) (TrimSpace (vs_command v)) workDir)) else None)"

definition json_asserted :: "world \<Rightarrow> verification_spec \<Rightarrow> string \<Rightarrow> bool" where
  "json_asserted w v bytes \<longleftrightarrow>
     (\<exists>data. wd_decode w bytes = Some (data, True) \<and>
        (\<forall>a\<in>set (vs_assertions v). EvaluateJSONAssertion data (oa_path a) (oa_equals a) = Inr ()))"

definition established ::
  "world \<Rightarrow> string \<Rightarrow> string \<Rightarrow> verification_spec \<Rightarrow> tool_step list option \<Rightarrow> task_result option \<Rightarrow> bool" where
  "established w shell workDir v steps result \<longleftrightarrow>
     vs_type v = ''command_exit'' \<and> command_succeeds w shell workDir (vs_command v) \<or>
     vs_type v = ''file_exists'' \<and> wd_stat w (target_path workDir (TrimSpace (vs_path v))) = Present \<or>
     vs_type v = ''file_absent'' \<and> wd_stat w (target_path workDir (TrimSpace (vs_path v))) = Absent \<or>
     vs_type v = ''json_assert'' \<and> (\<exists>bytes. json_source w shell workDir v = Some bytes \<and> json_asserted w v bytes) \<or>
     vs_type v = ''tool_call_assert'' \<and> (\<exists>ss. steps = Some ss \<and> (\<forall>a\<in>set (vs_tools v). tool_holds ss a)) \<or>
     vs_type v = ''task_result_assert'' \<and>
       (\<exists>r document. result = Some r \<and> validateSubmittedTaskResult (Some r) \<and> sr_document r = Some document \<and>
          (\<forall>a\<in>set (vs_results v). result_holds (wd_encoded w) document a))"

lemma apply_success [simp]: "applyVerificationMode r e ''success'' = (r, e)"
  by (simp add: applyVerificationMode_def)

lemma fail_success [simp]: "fail_with w c e x ''success'' =
    (Some (blank_result\<lparr>xr_exit := c, xr_stderr := wd_text w e x\<rparr>), Some e)"
  by (simp add: fail_with_def)

lemma pass_success [simp]: "pass_with x ''success'' = (Some (blank_result\<lparr>xr_stdout := x\<rparr>), None)"
  by (simp add: pass_with_def)

lemma command_pass:
  "vs_mode v = ''success'' \<Longrightarrow>
   snd (fst (executeCommandVerificationWithRawOutput w shell workDir v)) = None \<longleftrightarrow>
     command_succeeds w shell workDir (vs_command v)"
  by (auto simp: executeCommandVerificationWithRawOutput_def command_succeeds_def Let_def split: option.splits)

lemma command_raw:
  assumes "vs_mode v = ''success''" "command_succeeds w shell workDir (vs_command v)"
  obtains r where "executeCommandVerificationWithRawOutput w shell workDir v =
    ((Some r, None), rn_stdout (wd_run w (if shell = [] then ''sh'' else shell) (TrimSpace (vs_command v)) workDir))"
    "xr_exit r = 0"
  using assms by (auto simp: executeCommandVerificationWithRawOutput_def command_succeeds_def Let_def)

lemma first_failed_none:
  "first_failed data as = None \<longleftrightarrow> (\<forall>a\<in>set as. EvaluateJSONAssertion data (oa_path a) (oa_equals a) = Inr ())"
  by (induction as) (auto split: sum.splits)

lemma document_pass: "vs_mode v = ''success'' \<Longrightarrow> snd (assert_document w v bytes) = None \<longleftrightarrow> json_asserted w v bytes"
  by (auto simp: assert_document_def json_asserted_def first_failed_none [symmetric] split: option.splits)

lemma json_pass:
  assumes "vs_mode v = ''success''"
  shows "snd (executeJSONAssertVerification w shell workDir v) = None \<longleftrightarrow>
    (\<exists>bytes. json_source w shell workDir v = Some bytes \<and> json_asserted w v bytes)"
proof -
  let ?c = "empty_spec\<lparr>vs_type := ''command_exit'', vs_mode := ''success'', vs_command := vs_command v\<rparr>"
  consider (path) "vs_path v \<noteq> []" | (none) "vs_path v = []" "vs_command v = []"
    | (run) "vs_path v = []" "vs_command v \<noteq> []" "command_succeeds w shell workDir (vs_command v)"
    | (broken) "vs_path v = []" "vs_command v \<noteq> []" "\<not> command_succeeds w shell workDir (vs_command v)" by blast
  then show ?thesis
  proof cases
    case path
    with assms document_pass [OF assms] show ?thesis
      by (auto simp: executeJSONAssertVerification_def json_source_def Let_def split: option.splits)
  next
    case none
    with assms document_pass [OF assms] show ?thesis by (simp add: executeJSONAssertVerification_def json_source_def)
  next
    case run
    then obtain r where r: "executeCommandVerificationWithRawOutput w shell workDir ?c =
      ((Some r, None), rn_stdout (wd_run w (if shell = [] then ''sh'' else shell) (TrimSpace (vs_command v)) workDir))"
      "xr_exit r = 0"
      using command_raw [of ?c w shell workDir] by auto
    with run document_pass [OF assms] show ?thesis by (simp add: executeJSONAssertVerification_def json_source_def)
  next
    case broken
    then have "snd (fst (executeCommandVerificationWithRawOutput w shell workDir ?c)) \<noteq> None"
      using command_pass [of ?c w shell workDir] by simp
    with broken assms show ?thesis
      by (auto simp: executeJSONAssertVerification_def json_source_def split: prod.splits)
  qed
qed

lemma tools_pass:
  "vs_mode v = ''success'' \<Longrightarrow> snd (executeToolCallAssertVerification w v steps) = None \<longleftrightarrow>
   (\<exists>ss. steps = Some ss \<and> (\<forall>a\<in>set (vs_tools v). tool_holds ss a))"
  by (auto simp: executeToolCallAssertVerification_def failing_none list_all_iff Let_def split: option.splits)

lemma result_pass:
  "vs_mode v = ''success'' \<Longrightarrow> snd (executeTaskResultAssertVerification w v result) = None \<longleftrightarrow>
   (\<exists>r document. result = Some r \<and> validateSubmittedTaskResult (Some r) \<and> sr_document r = Some document \<and>
      (\<forall>a\<in>set (vs_results v). result_holds (wd_encoded w) document a))"
  by (auto simp: executeTaskResultAssertVerification_def evaluateTaskResultAssertions_def failing_none list_all_iff Let_def
      split: option.splits)

lemmas pass_rules = command_pass json_pass tools_pass result_pass

lemma pass_established:
  assumes "vs_mode (NormalizeVerificationSpec spec [] []) = ''success''"
  shows "snd (ExecuteVerificationSpecWithStepsAndTaskResult w shell workDir spec steps result) = None \<longleftrightarrow>
    validateVerificationSpec (wd_encoded w) (NormalizeVerificationSpec spec [] []) = Inr () \<and>
    established w shell workDir (NormalizeVerificationSpec spec [] []) steps result"
proof -
  let ?v = "NormalizeVerificationSpec spec [] []"
  have f: "snd (executeFileExistsVerification w workDir ?v) = None \<longleftrightarrow>
      wd_stat w (target_path workDir (TrimSpace (vs_path ?v))) = Present"
    using assms by (simp add: executeFileExistsVerification_def Let_def)
  have g: "snd (executeFileAbsentVerification w workDir ?v) = None \<longleftrightarrow>
      wd_stat w (target_path workDir (TrimSpace (vs_path ?v))) = Absent"
    using assms by (simp add: executeFileAbsentVerification_def Let_def split: stat_answer.splits)
  show ?thesis
    by (cases "validateVerificationSpec (wd_encoded w) ?v")
      (auto simp: ExecuteVerificationSpecWithStepsAndTaskResult_def Let_def refuse_def established_def f g
        executeCommandVerification_def pass_rules [OF assms])
qed

text \<open>
  C7. A verifier in mode \<open>success\<close> passes exactly when its specification is well formed and what it asserts is
  established: the command resolves and exits with 0, the path is there or not, the document is a single one in which each
  path has the expected value, the calls were made, the submitted result satisfies each assertion. Nothing
  else passes, in particular no check that needs a history, a result or a group state it does not have.
\<close>

theorem passes_iff_established:
  assumes "vs_mode (NormalizeVerificationSpec spec [] []) = ''success''"
  shows "snd (ExecuteVerificationSpecWithStepsAndTaskResult w shell workDir spec steps result) = None \<longleftrightarrow>
    validateVerificationSpec (wd_encoded w) (NormalizeVerificationSpec spec [] []) = Inr () \<and>
    established w shell workDir (NormalizeVerificationSpec spec [] []) steps result"
  by (rule pass_established [OF assms])

text \<open>A world that holds one file, \<open>report\<close>, for the witnesses.\<close>

definition one_file :: world where
  "one_file = \<lparr>wd_ended = False, wd_unresolved = (\<lambda>c d. None),
     wd_run = (\<lambda>sh c d. \<lparr>rn_failed = True, rn_code = 1, rn_stdout = [], rn_stderr = [], rn_deadline = False,
       rn_parent_ended = False, rn_under_two_minutes = True\<rparr>),
     wd_stat = (\<lambda>p. if p = ''report'' then Present else Absent), wd_read = (\<lambda>p. None), wd_decode = (\<lambda>s. None),
     wd_encoded = (\<lambda>v. 0), wd_text = (\<lambda>e x. [])\<rparr>"

definition file_check :: "string \<Rightarrow> string \<Rightarrow> verification_spec" where
  "file_check m p = empty_spec\<lparr>vs_type := ''file_exists'', vs_mode := m, vs_path := p\<rparr>"

lemma file_check_normal: "m \<noteq> [] \<Longrightarrow> NormalizeVerificationSpec (file_check m p) [] [] = file_check m p"
  by (rule settled_idle) (simp_all add: file_check_def empty_spec_def)

lemma report_trim: "TrimSpace ''report'' = ''report''" "TrimSpace ''draft'' = ''draft''"
  by (rule rest_TrimSpace; simp add: name_rest_def name_first_def)+

lemma file_check_valid:
  "m \<in> {''success'', ''expected_failure'', ''observation''} \<Longrightarrow> p \<in> {''report'', ''draft''} \<Longrightarrow>
   validateVerificationSpec e (file_check m p) = Inr ()"
  by (auto simp: validateVerificationSpec_def validateVerificationMode_def file_check_def empty_spec_def report_trim)

theorem passes_iff_established_witness:
  "snd (ExecuteVerificationSpecWithStepsAndTaskResult one_file ''sh'' [] (file_check ''success'' ''report'') None None) = None"
proof -
  let ?s = "file_check ''success'' ''report''"
  have n: "NormalizeVerificationSpec ?s [] [] = ?s" by (rule file_check_normal) simp
  have "vs_mode (NormalizeVerificationSpec ?s [] []) = ''success''" unfolding n by (simp add: file_check_def)
  from passes_iff_established [OF this, of one_file "''sh''" "[]" None None, unfolded n]
  moreover have "established one_file ''sh'' [] ?s None None"
    by (simp add: established_def file_check_def empty_spec_def report_trim target_path_def one_file_def)
  ultimately show ?thesis by (simp add: file_check_valid)
qed

section \<open>Modes\<close>

text \<open>Every executor ends in the mode filter, so running it in another mode filters its answer in mode \<open>success\<close>.\<close>

abbreviation filtered :: "string \<Rightarrow> verify_answer \<Rightarrow> verify_answer" where
  "filtered m a \<equiv> applyVerificationMode (fst a) (snd a) m"

lemma fail_filtered: "fail_with w c e x m = filtered m (fail_with w c e x ''success'')"
  by (simp add: fail_with_def)

lemma pass_filtered: "pass_with x m = filtered m (pass_with x ''success'')"
  by (simp add: pass_with_def)

lemma command_filtered:
  "executeCommandVerification w shell dir (v\<lparr>vs_mode := m\<rparr>) =
   filtered m (executeCommandVerification w shell dir (v\<lparr>vs_mode := ''success''\<rparr>))" if "m \<in> {''expected_failure'', ''observation''}"
  using that
  by (auto simp: executeCommandVerification_def executeCommandVerificationWithRawOutput_def Let_def applyVerificationMode_def
      isExpectedVerificationExit_def split: option.splits)

lemma document_filtered:
  "assert_document w (v\<lparr>vs_mode := m\<rparr>) bytes = filtered m (assert_document w (v\<lparr>vs_mode := ''success''\<rparr>) bytes)"
  by (auto simp: assert_document_def fail_with_def pass_with_def split: option.splits)

lemma file_filtered:
  "executeFileExistsVerification w dir (v\<lparr>vs_mode := m\<rparr>) =
     filtered m (executeFileExistsVerification w dir (v\<lparr>vs_mode := ''success''\<rparr>))"
  "executeFileAbsentVerification w dir (v\<lparr>vs_mode := m\<rparr>) =
     filtered m (executeFileAbsentVerification w dir (v\<lparr>vs_mode := ''success''\<rparr>))"
  by (auto simp: executeFileExistsVerification_def executeFileAbsentVerification_def Let_def fail_with_def pass_with_def
      split: stat_answer.splits)

lemma json_filtered:
  "executeJSONAssertVerification w shell dir (v\<lparr>vs_mode := m\<rparr>) =
     filtered m (executeJSONAssertVerification w shell dir (v\<lparr>vs_mode := ''success''\<rparr>))"
  by (auto simp: executeJSONAssertVerification_def Let_def document_filtered [of w m v] fail_with_def
      split: option.splits prod.splits)

lemma evidence_filtered:
  "executeToolCallAssertVerification w (v\<lparr>vs_mode := m\<rparr>) steps =
     filtered m (executeToolCallAssertVerification w (v\<lparr>vs_mode := ''success''\<rparr>) steps)"
  "executeTaskResultAssertVerification w (v\<lparr>vs_mode := m\<rparr>) result =
     filtered m (executeTaskResultAssertVerification w (v\<lparr>vs_mode := ''success''\<rparr>) result)"
  by (auto simp: executeToolCallAssertVerification_def executeTaskResultAssertVerification_def Let_def fail_with_def pass_with_def
      split: option.splits)

lemmas filter_rules = file_filtered json_filtered evidence_filtered

lemma validate_mode:
  "m \<in> {''success'', ''expected_failure'', ''observation''} \<Longrightarrow>
   validateVerificationSpec enc (v\<lparr>vs_mode := m\<rparr>) = validateVerificationSpec enc (v\<lparr>vs_mode := ''success''\<rparr>)"
  by (auto simp: validateVerificationSpec_def validateVerificationMode_def validateTaskOutputVerificationSpec_def)

lemma normalize_mode:
  assumes "m \<noteq> []"
  shows "NormalizeVerificationSpec (v\<lparr>vs_mode := m\<rparr>) [] [] =
    (NormalizeVerificationSpec (v\<lparr>vs_mode := ''success''\<rparr>) [] [])\<lparr>vs_mode := m\<rparr>"
proof -
  have "infer_type [] (v\<lparr>vs_mode := k\<rparr>) = (infer_type [] v)\<lparr>vs_mode := k\<rparr>" for k
    by (simp add: infer_type_def spec_type_def split: option.splits)
  with assms show ?thesis by (simp add: NormalizeVerificationSpec_def Let_def)
qed

definition needs_coordinator :: "string \<Rightarrow> bool" where
  "needs_coordinator t \<longleftrightarrow> t = ''task_output_assert'' \<or> t = ''workset_complete''"

text \<open>
  The modes are a filter. A well-formed verifier that does not need coordinator state answers in mode
  \<open>expected_failure\<close> or \<open>observation\<close> what the mode makes of its answer in mode \<open>success\<close>: the same evidence, and an
  ordinary failing exit, neither a timeout nor an unresolved executable, counts as expected.
\<close>

theorem modes_filter:
  assumes "m \<in> {''expected_failure'', ''observation''}"
    and "\<not> needs_coordinator (vs_type (NormalizeVerificationSpec (spec\<lparr>vs_mode := m\<rparr>) [] []))"
    and "validateVerificationSpec (wd_encoded w) (NormalizeVerificationSpec (spec\<lparr>vs_mode := m\<rparr>) [] []) = Inr ()"
  shows "ExecuteVerificationSpecWithStepsAndTaskResult w shell dir (spec\<lparr>vs_mode := m\<rparr>) steps result =
    (case ExecuteVerificationSpecWithStepsAndTaskResult w shell dir (spec\<lparr>vs_mode := ''success''\<rparr>) steps result of
       (r, e) \<Rightarrow> applyVerificationMode r e m)"
proof -
  let ?v = "NormalizeVerificationSpec (spec\<lparr>vs_mode := ''success''\<rparr>) [] []"
  have m: "m \<noteq> []" using assms(1) by auto
  have n: "NormalizeVerificationSpec (spec\<lparr>vs_mode := m\<rparr>) [] [] = ?v\<lparr>vs_mode := m\<rparr>" by (rule normalize_mode [OF m])
  have k: "?v\<lparr>vs_mode := ''success''\<rparr> = ?v" using normalize_mode [of "''success''" spec] by simp
  have ok: "validateVerificationSpec (wd_encoded w) (?v\<lparr>vs_mode := m\<rparr>) = Inr ()" using assms(3) n by simp
  then have ok': "validateVerificationSpec (wd_encoded w) ?v = Inr ()"
    using validate_mode [of m "wd_encoded w" ?v] assms(1) k by auto
  have t: "\<not> needs_coordinator (vs_type ?v)" using assms(2) n by simp
  have c: "executeCommandVerification w shell dir (?v\<lparr>vs_mode := m\<rparr>) = filtered m (executeCommandVerification w shell dir ?v)"
    using command_filtered [OF assms(1), of w shell dir ?v] k by simp
  have "vs_type ?v \<in> {''command_exit'', ''file_exists'', ''file_absent'', ''json_assert'', ''tool_call_assert'', ''task_result_assert''}"
    using ok' t by (auto simp: validateVerificationSpec_def needs_coordinator_def bindR_eq_Inr split: if_splits)
  then show ?thesis
    unfolding ExecuteVerificationSpecWithStepsAndTaskResult_def Let_def n ok ok'
    using c filter_rules(1,2) [of w dir m ?v, unfolded k] filter_rules(3) [of w shell dir m ?v, unfolded k]
      filter_rules(4,5) [of w m ?v, unfolded k]
    by (auto simp: split_beta)
qed

theorem modes_filter_witness:
  "snd (ExecuteVerificationSpecWithStepsAndTaskResult one_file ''sh'' []
     ((file_check [] ''draft'')\<lparr>vs_mode := ''expected_failure''\<rparr>) None None) = None"
proof -
  let ?s = "file_check [] ''draft''"
  have e: "?s\<lparr>vs_mode := m\<rparr> = file_check m ''draft''" for m by (simp add: file_check_def)
  have n: "NormalizeVerificationSpec (?s\<lparr>vs_mode := m\<rparr>) [] [] = file_check m ''draft''" if "m \<noteq> []" for m
    using file_check_normal [OF that] by (simp add: e)
  have "ExecuteVerificationSpecWithStepsAndTaskResult one_file ''sh'' [] (?s\<lparr>vs_mode := ''success''\<rparr>) None None =
      (Some (blank_result\<lparr>xr_exit := 1\<rparr>), Some PathMissing)"
    using n [of "''success''"]
    by (simp add: ExecuteVerificationSpecWithStepsAndTaskResult_def file_check_valid, simp add: file_check_def empty_spec_def
        executeFileExistsVerification_def report_trim target_path_def one_file_def fail_with_def blank_result_def)
  moreover have "\<not> needs_coordinator (vs_type (NormalizeVerificationSpec (?s\<lparr>vs_mode := ''expected_failure''\<rparr>) [] []))"
    unfolding n [of "''expected_failure''", simplified] by (simp add: file_check_def empty_spec_def needs_coordinator_def)
  moreover have "validateVerificationSpec (wd_encoded one_file)
      (NormalizeVerificationSpec (?s\<lparr>vs_mode := ''expected_failure''\<rparr>) [] []) = Inr ()"
    unfolding n [of "''expected_failure''", simplified] by (rule file_check_valid) simp_all
  ultimately show ?thesis
    using modes_filter [of "''expected_failure''" ?s one_file "''sh''" "[]" None None]
    by (simp add: applyVerificationMode_def isExpectedVerificationExit_def hasEnvironmentFailureSignal_def blank_result_def)
qed

definition unseen_calls :: verification_spec where
  "unseen_calls = empty_spec\<lparr>vs_type := ''tool_call_assert'', vs_mode := ''expected_failure'',
     vs_tools := [\<lparr>ta_tool = ''bash'', ta_input = [], ta_result = [], ta_min = 1\<rparr>]\<rparr>"

lemma unseen_calls_normal: "NormalizeVerificationSpec unseen_calls [] [] = unseen_calls"
  by (rule settled_idle) (simp_all add: unseen_calls_def)

text \<open>The refusal for want of a history has exit code 1, like an ordinary failure.\<close>

lemma missing_history: "snd (ExecuteVerificationSpec w shell dir unseen_calls) = None"
proof -
  have "TrimSpace ''bash'' = ''bash''" by (rule rest_TrimSpace) (simp add: name_rest_def name_first_def)
  then have v: "validateVerificationSpec e unseen_calls = Inr ()" for e
    by (simp add: validateVerificationSpec_def validateVerificationMode_def check_tool_def unseen_calls_def)
  have "\<not> hasEnvironmentFailureSignal ''tool_call_assert failed: no task-attempt tool-call history is available in this verification context (acceptance/criteria and non-agent task kinds are not supported)''"
    by (simp add: hasEnvironmentFailureSignal_def ToLower_def ascii_lower_def)
  then show ?thesis
    by (simp add: ExecuteVerificationSpec_def ExecuteVerificationSpecWithStepsAndTaskResult_def unseen_calls_normal v,
      simp add: unseen_calls_def executeToolCallAssertVerification_def applyVerificationMode_def isExpectedVerificationExit_def
        blank_result_def hasEnvironmentFailureSignal_def)
qed

end
