(* ===== verification/Criteria_Safety.thy ===== *)
theory Criteria_Safety
  imports Criteria Verifier_Safety
begin

text \<open>
  What the evaluation of acceptance criteria promises: it succeeds exactly when the dependencies are acyclic, gives each
  criterion one result, determined by its verifier and its dependencies whatever order the contract lists, and a criterion
  that passes rests on verified criteria all the way down.
\<close>

section \<open>Dependencies\<close>

definition depends :: "criterion list \<Rightarrow> (string \<times> string) set" where
  "depends cs = {(d, i). \<exists>c\<in>set cs. cr_id c = i \<and> d \<in> set (cr_depends c)}"

definition passed :: "criterion_result list \<Rightarrow> string \<Rightarrow> bool" where
  "passed rs i \<longleftrightarrow> (\<exists>r. result_of rs i = Some r \<and> cs_state r = CriterionPassed)"

definition well_named :: "criterion list \<Rightarrow> bool" where
  "well_named cs \<longleftrightarrow> distinct (map cr_id cs) \<and> (\<forall>c\<in>set cs. set (cr_depends c) \<subseteq> cr_id ` set cs)"

lemma finite_depends: "finite (depends cs)"
proof -
  have "depends cs = (\<Union>c\<in>set cs. (\<lambda>d. (d, cr_id c)) ` set (cr_depends c))" by (auto simp: depends_def)
  then show ?thesis by simp
qed

lemma depends_cong: "set cs = set cs' \<Longrightarrow> depends cs = depends cs'"
  by (simp add: depends_def)

lemma check_criteria_ok: "check_criteria enc seen cs = Inr () \<Longrightarrow> distinct (map cr_id cs) \<and> set (map cr_id cs) \<inter> set seen = {}"
proof (induction cs arbitrary: seen)
  case (Cons c cs)
  then have "check_criteria enc (cr_id c # seen) cs = Inr ()" "cr_id c \<notin> set seen" by (auto split: if_splits sum.splits)
  with Cons.IH [of "cr_id c # seen"] show ?case by auto
qed simp

lemma check_dependencies_ok: "check_dependencies ids cs = Inr () \<Longrightarrow> \<forall>c\<in>set cs. set (cr_depends c) \<subseteq> set ids"
  by (induction cs) (auto simp: find_None_iff split: option.splits)

lemma valid_well_named: "validateAcceptanceCriteria enc cs = Inr () \<Longrightarrow> well_named cs"
  using check_dependencies_ok [of "map cr_id cs" cs]
  by (auto simp: validateAcceptanceCriteria_def well_named_def bindR_eq_Inr dest: check_criteria_ok)

lemma well_named_sort: "well_named (sort_key cr_id cs) \<longleftrightarrow> well_named cs"
proof -
  have "distinct (map cr_id (sort_key cr_id cs)) \<longleftrightarrow> distinct (map cr_id cs)"
    by (metis distinct_map distinct_sort set_sort mset_sort mset_eq_imp_distinct_iff mset_map)
  then show ?thesis by (simp add: well_named_def)
qed

section \<open>Results\<close>

definition outcome :: "criteria_env \<Rightarrow> criterion_result list \<Rightarrow> criterion \<Rightarrow> criterion_result" where
  "outcome env rs c = (if \<forall>d\<in>set (cr_depends c). passed rs d then run_criterion env c else blocked_criterion c)"

lemma outcome_id [simp]: "cs_id (outcome env rs c) = cr_id c"
  by (simp add: outcome_def run_criterion_def blocked_criterion_def Let_def split: prod.splits)

text \<open>Results in an order in which each follows those of its dependencies.\<close>

inductive justified :: "criteria_env \<Rightarrow> criterion list \<Rightarrow> criterion_result list \<Rightarrow> bool" for env cs where
  none: "justified env cs []"
| next_one: "justified env cs rs \<Longrightarrow> c \<in> set cs \<Longrightarrow> cr_id c \<notin> cs_id ` set rs \<Longrightarrow>
    set (cr_depends c) \<subseteq> cs_id ` set rs \<Longrightarrow> justified env cs (rs @ [outcome env rs c])"

lemma result_of_None: "result_of rs i = None \<longleftrightarrow> i \<notin> cs_id ` set rs"
  by (auto simp: result_of_def find_None_iff)

lemma result_of_append: "result_of (rs @ ss) i = (case result_of rs i of None \<Rightarrow> result_of ss i | Some r \<Rightarrow> Some r)"
  by (induction rs) (simp_all add: result_of_def)

lemma result_of_single [simp]: "result_of [r] i = (if cs_id r = i then Some r else None)"
  by (simp add: result_of_def)

lemma passed_append: "i \<in> cs_id ` set rs \<Longrightarrow> passed (rs @ ss) i = passed rs i"
  using result_of_None [of rs i] by (auto simp: passed_def result_of_append split: option.splits)

lemma outcome_append: "set (cr_depends c) \<subseteq> cs_id ` set rs \<Longrightarrow> outcome env (rs @ ss) c = outcome env rs c"
proof -
  assume "set (cr_depends c) \<subseteq> cs_id ` set rs"
  then have "(\<forall>d\<in>set (cr_depends c). passed (rs @ ss) d) = (\<forall>d\<in>set (cr_depends c). passed rs d)"
    by (intro ball_cong refl passed_append) auto
  then show ?thesis by (simp only: outcome_def)
qed

lemma justified_ids: "justified env cs rs \<Longrightarrow> distinct (map cs_id rs) \<and> cs_id ` set rs \<subseteq> cr_id ` set cs"
  by (induction rule: justified.induct) auto

lemma justified_results:
  "justified env cs rs \<Longrightarrow> distinct (map cr_id cs) \<Longrightarrow> c \<in> set cs \<Longrightarrow> cr_id c \<in> cs_id ` set rs \<Longrightarrow>
   result_of rs (cr_id c) = Some (outcome env rs c) \<and> set (cr_depends c) \<subseteq> cs_id ` set rs"
proof (induction rule: justified.induct)
  case (next_one rs b)
  show ?case
  proof (cases "cr_id c \<in> cs_id ` set rs")
    case True
    with next_one have "result_of rs (cr_id c) = Some (outcome env rs c)" "set (cr_depends c) \<subseteq> cs_id ` set rs" by auto
    then show ?thesis by (auto simp: result_of_append outcome_append)
  next
    case False
    with next_one.prems(3) have "cr_id c = cr_id b" by auto
    with next_one have "c = b" by (auto simp: distinct_map dest: inj_onD)
    with next_one False have "result_of rs (cr_id c) = None" by (simp add: result_of_None)
    with \<open>c = b\<close> next_one show ?thesis by (auto simp: result_of_append outcome_append)
  qed
qed simp

text \<open>The position of a result bounds the positions of its dependencies.\<close>

lemma justified_order:
  "justified env cs rs \<Longrightarrow> distinct (map cr_id cs) \<Longrightarrow>
   \<exists>rank :: string \<Rightarrow> nat. \<forall>(d, i)\<in>depends cs. i \<in> cs_id ` set rs \<longrightarrow> rank d < rank i"
proof (induction rule: justified.induct)
  case none
  then show ?case by auto
next
  case (next_one rs c)
  then obtain rank :: "string \<Rightarrow> nat" where rank: "\<forall>(d, i)\<in>depends cs. i \<in> cs_id ` set rs \<longrightarrow> rank d < rank i" by auto
  let ?top = "Suc (Max (insert 0 (rank ` set (cr_depends c))))"
  let ?rank = "rank(cr_id c := ?top)"
  have below: "rank d < ?top" if "d \<in> set (cr_depends c)" for d
    using that by (intro le_imp_less_Suc Max_ge) auto
  have known: "set (cr_depends b) \<subseteq> cs_id ` set rs" if "b \<in> set cs" "cr_id b \<in> cs_id ` set rs" for b
    using justified_results [OF next_one.hyps(1) next_one.prems that] by simp
  have "?rank d < ?rank i" if "(d, i) \<in> depends cs" "i \<in> cs_id ` set (rs @ [outcome env rs c])" for d i
  proof (cases "i = cr_id c")
    case True
    with that(1) next_one.hyps(2) next_one.prems have "d \<in> set (cr_depends c)"
      by (auto simp: depends_def distinct_map dest: inj_onD)
    moreover from this next_one.hyps(3,4) have "d \<noteq> cr_id c" by auto
    ultimately show ?thesis using True below by simp
  next
    case False
    with that have i: "i \<in> cs_id ` set rs" by auto
    have "(d, i) \<in> depends cs" by (rule that(1))
    then obtain b where "b \<in> set cs" "cr_id b = i" "d \<in> set (cr_depends b)" by (auto simp: depends_def)
    with known i next_one.hyps(3) have "d \<noteq> cr_id c" by auto
    with False rank that(1) i show ?thesis by auto
  qed
  then show ?case by blast
qed

lemma ranked_acyclic: "\<forall>(d, i)\<in>R. rank d < (rank i :: nat) \<Longrightarrow> acyclic R"
proof -
  assume "\<forall>(d, i)\<in>R. rank d < rank i"
  then have "R \<subseteq> measure rank" by auto
  then show ?thesis using wf_measure wf_acyclic acyclic_subset by blast
qed

section \<open>Passes\<close>

lemma scan_ok:
  "scan_dependencies rs ds b =
     (if \<forall>d\<in>set ds. result_of rs d \<noteq> None then Some (b \<or> (\<exists>d\<in>set ds. \<not> passed rs d)) else None)"
  by (induction ds arbitrary: b) (auto simp: passed_def split: option.splits)

lemma evaluation_step:
  "(if result_of rs (cr_id c) \<noteq> None then rs
    else case scan_dependencies rs (cr_depends c) False of
      None \<Rightarrow> rs | Some blocked \<Rightarrow> rs @ [if blocked then blocked_criterion c else run_criterion env c]) =
   (if cr_id c \<notin> cs_id ` set rs \<and> set (cr_depends c) \<subseteq> cs_id ` set rs then rs @ [outcome env rs c] else rs)"
proof -
  have "(\<forall>d\<in>set (cr_depends c). result_of rs d \<noteq> None) \<longleftrightarrow> set (cr_depends c) \<subseteq> cs_id ` set rs"
    by (auto simp: result_of_None)
  moreover have "result_of rs (cr_id c) \<noteq> None \<longleftrightarrow> cr_id c \<in> cs_id ` set rs" by (simp add: result_of_None)
  ultimately show ?thesis by (auto simp: scan_ok outcome_def)
qed

lemma eval_pass_Cons:
  "eval_pass env (c # cs) rs = eval_pass env cs
     (if cr_id c \<notin> cs_id ` set rs \<and> set (cr_depends c) \<subseteq> cs_id ` set rs then rs @ [outcome env rs c] else rs)"
  by (simp only: eval_pass.simps evaluation_step)

lemma justified_pass: "justified env cs rs \<Longrightarrow> set bs \<subseteq> set cs \<Longrightarrow> justified env cs (eval_pass env bs rs)"
proof (induction bs arbitrary: rs)
  case (Cons b bs)
  then show ?case unfolding eval_pass_Cons by (auto intro: justified.next_one)
qed simp

lemma justified_loop: "eval_loop env cs rs = Some ss \<Longrightarrow> justified env cs rs \<Longrightarrow> justified env cs ss \<and> length cs \<le> length ss"
proof (induction env cs rs rule: eval_loop.induct)
  case (1 env cs rs)
  from 1(2) show ?case
    by (subst (asm) eval_loop.simps) (use 1 justified_pass [of env cs rs cs] in \<open>auto split: if_splits\<close>)
qed

lemma pass_stuck:
  "length (eval_pass env cs rs) = length rs \<Longrightarrow> c \<in> set cs \<Longrightarrow>
   cr_id c \<in> cs_id ` set rs \<or> \<not> set (cr_depends c) \<subseteq> cs_id ` set rs"
proof (induction cs arbitrary: rs)
  case (Cons b bs)
  let ?s = "if cr_id b \<notin> cs_id ` set rs \<and> set (cr_depends b) \<subseteq> cs_id ` set rs then rs @ [outcome env rs b] else rs"
  have "length ?s \<le> length rs" using Cons.prems(1) eval_pass_grows [of ?s env bs] by (simp only: eval_pass_Cons)
  then have s: "?s = rs" "cr_id b \<in> cs_id ` set rs \<or> \<not> set (cr_depends b) \<subseteq> cs_id ` set rs" by (auto split: if_splits)
  with Cons.prems(1) have "length (eval_pass env bs rs) = length rs" by (simp only: eval_pass_Cons)
  with Cons s(2) show ?case by auto
qed simp

lemma all_done:
  assumes "well_named cs" "justified env cs rs"
  shows "length cs \<le> length rs \<longleftrightarrow> cs_id ` set rs = cr_id ` set cs"
proof -
  have r: "card (cs_id ` set rs) = length rs" "cs_id ` set rs \<subseteq> cr_id ` set cs"
    using justified_ids [OF assms(2)] distinct_card [of "map cs_id rs"] by auto
  have c: "card (cr_id ` set cs) = length cs" using assms(1) distinct_card [of "map cr_id cs"] by (auto simp: well_named_def)
  show ?thesis using r c card_seteq [OF _ r(2)] by (auto simp: card_mono)
qed

lemma loop_completes:
  assumes "well_named cs" "acyclic (depends cs)"
  shows "justified env cs rs \<Longrightarrow> \<exists>ss. eval_loop env cs rs = Some ss"
proof (induction "length cs - length rs" arbitrary: rs rule: less_induct)
  case less
  show ?case
  proof (cases "length cs \<le> length rs")
    case True
    then show ?thesis by (subst eval_loop.simps) simp
  next
    case False
    let ?left = "cr_id ` set cs - cs_id ` set rs"
    have "?left \<noteq> {}" using False all_done [OF assms(1) less.prems] justified_ids [OF less.prems] by auto
    moreover have "wf (depends cs)" using assms(2) finite_depends by (rule finite_acyclic_wf [rotated])
    ultimately obtain i where i: "i \<in> ?left" "\<forall>d. (d, i) \<in> depends cs \<longrightarrow> d \<notin> ?left" by (metis wfE_min ex_in_conv)
    then obtain c where c: "c \<in> set cs" "cr_id c = i" by auto
    have "set (cr_depends c) \<subseteq> cs_id ` set rs"
    proof
      fix d assume d: "d \<in> set (cr_depends c)"
      with c have "(d, i) \<in> depends cs" by (auto simp: depends_def)
      moreover have "d \<in> cr_id ` set cs" using assms(1) c(1) d by (auto simp: well_named_def)
      ultimately show "d \<in> cs_id ` set rs" using i(2) by blast
    qed
    with pass_stuck [of env cs rs c] c i(1) have n: "length (eval_pass env cs rs) \<noteq> length rs" by auto
    then have "length cs - length (eval_pass env cs rs) < length cs - length rs"
      using False eval_pass_grows [of rs env cs] by simp
    from less.hyps [OF this justified_pass [OF less.prems]] False n show ?thesis by (subst eval_loop.simps) simp
  qed
qed

lemma evaluation_acyclic:
  assumes "validateAcceptanceCriteria (wd_encoded (ce_world env)) cs = Inr ()"
  shows "(\<exists>rs. evaluateCriteria env cs = Inr rs) = acyclic (depends cs) \<and>
    (evaluateCriteria env cs = Inl DependencyCycle) = (\<not> acyclic (depends cs))"
proof -
  let ?s = "sort_key cr_id cs"
  have w: "well_named ?s" using valid_well_named [OF assms] by (simp add: well_named_sort)
  have d: "depends ?s = depends cs" by (rule depends_cong) simp
  have "acyclic (depends cs)" if r: "eval_loop env ?s [] = Some rs" for rs
  proof -
    have j: "justified env ?s rs" "length ?s \<le> length rs" using justified_loop [OF r justified.none] by auto
    then have all: "cs_id ` set rs = cr_id ` set ?s" using all_done [OF w j(1)] by simp
    have "distinct (map cr_id ?s)" using w by (simp add: well_named_def)
    from justified_order [OF j(1) this] obtain rank :: "string \<Rightarrow> nat"
      where "\<forall>(a, i)\<in>depends ?s. i \<in> cs_id ` set rs \<longrightarrow> rank a < rank i" by blast
    with all have "\<forall>(a, i)\<in>depends ?s. rank a < rank i" by (auto simp: depends_def)
    with d show ?thesis using ranked_acyclic by metis
  qed
  moreover have "\<exists>rs. eval_loop env ?s [] = Some rs" if "acyclic (depends cs)"
    using loop_completes [OF w _ justified.none] that d by simp
  ultimately show ?thesis using assms by (auto simp: evaluateCriteria_def split: option.splits)
qed

text \<open>
  C39. Evaluation succeeds exactly on acyclic contracts. A contract that validates gets results if and only if no criterion depends on
  itself, directly or through others; otherwise the evaluation reports the cycle and stops.
\<close>

theorem evaluation_iff_acyclic:
  assumes "validateAcceptanceCriteria (wd_encoded (ce_world env)) cs = Inr ()"
  shows "(\<exists>rs. evaluateCriteria env cs = Inr rs) = acyclic (depends cs) \<and>
    (evaluateCriteria env cs = Inl DependencyCycle) = (\<not> acyclic (depends cs))"
  by (rule evaluation_acyclic [OF assms])

section \<open>Results of an evaluation\<close>

lemma evaluated_justified:
  assumes "evaluateCriteria env cs = Inr rs"
  shows "well_named cs \<and> justified env (sort_key cr_id cs) rs \<and> cs_id ` set rs = cr_id ` set cs"
proof -
  from assms have v: "validateAcceptanceCriteria (wd_encoded (ce_world env)) cs = Inr ()"
    and l: "eval_loop env (sort_key cr_id cs) [] = Some rs"
    by (auto simp: evaluateCriteria_def bindR_eq_Inr split: option.splits)
  note w = valid_well_named [OF v]
  note j = justified_loop [OF l justified.none]
  from all_done [of "sort_key cr_id cs" env rs] w j show ?thesis by (simp add: well_named_sort)
qed

lemma evaluated_result:
  assumes "evaluateCriteria env cs = Inr rs" "c \<in> set cs"
  shows "result_of rs (cr_id c) = Some (outcome env rs c)"
proof -
  note e = evaluated_justified [OF assms(1)]
  then have "distinct (map cr_id (sort_key cr_id cs))" by (metis well_named_sort well_named_def)
  with justified_results [of env "sort_key cr_id cs" rs c] e assms(2) show ?thesis by auto
qed

text \<open>
  C27. One result per criterion, and the right one. After an evaluation the results have distinct ids, those of the contract; a
  criterion all of whose dependencies passed has the result of running its verifier, every other one is blocked
  and its verifier was not run.
\<close>

theorem evaluation_results:
  assumes "evaluateCriteria env cs = Inr rs"
  shows "distinct (map cs_id rs) \<and> cs_id ` set rs = cr_id ` set cs \<and>
    (\<forall>c\<in>set cs. result_of rs (cr_id c) =
       Some (if \<forall>d\<in>set (cr_depends c). passed rs d then run_criterion env c else blocked_criterion c))"
  using evaluated_justified [OF assms] evaluated_result [OF assms] justified_ids [of env "sort_key cr_id cs" rs]
  by (auto simp: outcome_def)

lemma sort_ids_unique:
  assumes "well_named cs" "mset cs = mset cs'"
  shows "sort_key cr_id cs = sort_key cr_id cs'"
proof -
  have s: "set cs = set cs'" using assms(2) by (rule mset_eq_setD)
  have "map cr_id (sort_key cr_id cs) = map cr_id (sort_key cr_id cs')"
  proof -
    have "sort (map cr_id xs) = map cr_id (sort_key cr_id xs)" for xs :: "criterion list"
      by (rule properties_for_sort) simp_all
    moreover have "sort (map cr_id cs) = sort (map cr_id cs')"
      by (rule properties_for_sort) (simp_all add: assms(2))
    ultimately show ?thesis by metis
  qed
  moreover have "inj_on cr_id (set (sort_key cr_id cs) \<union> set (sort_key cr_id cs'))"
    using assms(1) s by (simp add: well_named_def distinct_map)
  ultimately show ?thesis by (rule map_inj_on)
qed

text \<open>
  The order in which a contract lists its criteria does not matter: two listings of the same criteria that validate are evaluated
  alike, result for result.
\<close>

theorem listing_order_irrelevant:
  assumes "mset cs = mset cs'" "validateAcceptanceCriteria (wd_encoded (ce_world env)) cs = Inr ()"
    "validateAcceptanceCriteria (wd_encoded (ce_world env)) cs' = Inr ()"
  shows "evaluateCriteria env cs = evaluateCriteria env cs'"
  using assms sort_ids_unique [OF valid_well_named [OF assms(2)] assms(1)] by (simp add: evaluateCriteria_def)

section \<open>What a passed criterion rests on\<close>

definition objective :: "verification_spec \<Rightarrow> bool" where
  "objective v \<longleftrightarrow> vs_mode v = ''success'' \<and> \<not> needs_coordinator (vs_type v)"

lemma run_state:
  "cs_state (run_criterion env c) =
     (if snd (run_verifier env (NormalizeVerificationSpec (cr_verify c) [] [])) \<noteq> None \<or>
         vs_mode (NormalizeVerificationSpec (cr_verify c) [] []) = ''observation'' then CriterionFailed else CriterionPassed)"
  by (simp add: run_criterion_def Let_def split_beta)

lemma run_passes:
  assumes "cs_state (run_criterion env c) = CriterionPassed" "objective (NormalizeVerificationSpec (cr_verify c) [] [])"
  shows "established (ce_world env) (ce_shell env) (ce_dir env) (NormalizeVerificationSpec (cr_verify c) [] []) None None"
proof -
  let ?v = "NormalizeVerificationSpec (cr_verify c) [] []"
  have n: "NormalizeVerificationSpec ?v [] [] = ?v" by (rule normalized_twice)
  have "run_verifier env ?v = ExecuteVerificationSpec (ce_world env) (ce_shell env) (ce_dir env) ?v"
    using assms(2) by (simp add: run_verifier_def objective_def needs_coordinator_def)
  with assms(1) have "snd (ExecuteVerificationSpec (ce_world env) (ce_shell env) (ce_dir env) ?v) = None"
    by (auto simp: run_criterion_def Let_def split: prod.splits if_splits)
  with pass_established [of ?v "ce_world env" "ce_shell env" "ce_dir env" None None] assms(2) n show ?thesis
    by (simp add: ExecuteVerificationSpec_def objective_def)
qed

text \<open>
  C13. A passed criterion is established all the way down. If a criterion passed, then every criterion it depends on, however
  indirectly, passed too, and each of them with an objective verifier in mode \<open>success\<close> has its assertion established in
  the world the evaluation saw.
\<close>

theorem passed_rests_on_evidence:
  assumes "evaluateCriteria env cs = Inr rs" "passed rs (cr_id c)" "c \<in> set cs" "b \<in> set cs"
    "(cr_id b, cr_id c) \<in> (depends cs)\<^sup>*"
  shows "passed rs (cr_id b) \<and>
    (objective (NormalizeVerificationSpec (cr_verify b) [] []) \<longrightarrow>
     established (ce_world env) (ce_shell env) (ce_dir env) (NormalizeVerificationSpec (cr_verify b) [] []) None None)"
proof -
  have step: "cs_state (outcome env rs a) = CriterionPassed \<and> (\<forall>d\<in>set (cr_depends a). passed rs d)"
    if "passed rs (cr_id a)" "a \<in> set cs" for a
    using that evaluated_result [OF assms(1) that(2)]
    by (auto simp: passed_def outcome_def blocked_criterion_def split: if_splits)
  have named: "distinct (map cr_id cs)" using evaluated_justified [OF assms(1)] by (simp add: well_named_def)
  have "passed rs i" if "(i, j) \<in> (depends cs)\<^sup>*" "passed rs j" for i j
    using that
  proof (induction rule: converse_rtrancl_induct)
    case (step y z)
    then obtain a where "a \<in> set cs" "cr_id a = z" "y \<in> set (cr_depends a)" by (auto simp: depends_def)
    with step \<open>\<And>a. passed rs (cr_id a) \<Longrightarrow> a \<in> set cs \<Longrightarrow> cs_state (outcome env rs a) = CriterionPassed \<and> (\<forall>d\<in>set (cr_depends a). passed rs d)\<close>
    show ?case by blast
  qed
  from this [OF assms(5,2)] have b: "passed rs (cr_id b)" .
  from step [OF b assms(4)] have "cs_state (run_criterion env b) = CriterionPassed"
    by (simp add: outcome_def split: if_splits)
  with b run_passes [of env b] show ?thesis by blast
qed

text \<open>
  A criterion passes without evidence. Checks of tool calls are documented to fail closed where an attempt has no history, as here, but
  in mode \<open>expected_failure\<close> the refusal is taken for the failure that was expected: such a criterion passes in every world.
\<close>

theorem missing_history_passes:
  "cs_state (run_criterion env \<lparr>cr_id = i, cr_required = True, cr_depends = [], cr_verify = unseen_calls\<rparr>) = CriterionPassed"
proof -
  have "run_verifier env unseen_calls = ExecuteVerificationSpec (ce_world env) (ce_shell env) (ce_dir env) unseen_calls"
    by (simp add: run_verifier_def unseen_calls_def)
  moreover have "vs_mode unseen_calls \<noteq> ''observation''" by (simp add: unseen_calls_def)
  ultimately show ?thesis by (simp add: run_state unseen_calls_normal missing_history)
qed

section \<open>Witnesses\<close>

text \<open>Two criteria over the world that holds one file; the second depends on the first.\<close>

definition demo_env :: criteria_env where
  "demo_env = \<lparr>ce_world = one_file, ce_shell = ''sh'', ce_dir = [], ce_items = [], ce_source_ok = (\<lambda>r. True),
     ce_task_output = (\<lambda>v. (None, Some NoTaskState))\<rparr>"

definition demo_first :: criterion where
  "demo_first = \<lparr>cr_id = ''a'', cr_required = True, cr_depends = [], cr_verify = file_check ''success'' ''report''\<rparr>"

definition demo_second :: criterion where
  "demo_second = \<lparr>cr_id = ''b'', cr_required = True, cr_depends = [''a''], cr_verify = file_check ''success'' ''report''\<rparr>"

lemma criteria_ids: "TrimSpace ''a'' = ''a''" "TrimSpace ''b'' = ''b''"
  by code_simp+

lemma criteria_valid:
  "validateAcceptanceCriteria (wd_encoded (ce_world demo_env)) [demo_second, demo_first] = Inr ()"
  "validateAcceptanceCriteria (wd_encoded (ce_world demo_env)) [demo_first, demo_second] = Inr ()"
  by (simp_all add: validateAcceptanceCriteria_def demo_first_def demo_second_def criteria_ids file_check_normal file_check_valid)

lemma demo_depends: "depends [demo_second, demo_first] = {(''a'', ''b'')}"
  by (auto simp: depends_def demo_first_def demo_second_def)

lemma demo_acyclic: "acyclic {(''a'', ''b'')}"
  by (rule ranked_acyclic [where rank = "\<lambda>i. if i = ''a'' then 0 else 1"]) simp

lemma demo_evaluates: "\<exists>rs. evaluateCriteria demo_env [demo_second, demo_first] = Inr rs"
  using evaluation_acyclic [OF criteria_valid(1)] demo_acyclic by (simp only: demo_depends)

lemma demo_run: "c \<in> {demo_first, demo_second} \<Longrightarrow> cs_state (run_criterion demo_env c) = CriterionPassed"
proof -
  assume c: "c \<in> {demo_first, demo_second}"
  let ?v = "file_check ''success'' ''report''"
  have n: "NormalizeVerificationSpec ?v [] [] = ?v" by (rule file_check_normal) simp
  have "vs_mode (NormalizeVerificationSpec ?v [] []) = ''success''" unfolding n by (simp add: file_check_def)
  from pass_established [OF this, of one_file "''sh''" "[]" None None, unfolded n]
  have "snd (ExecuteVerificationSpecWithStepsAndTaskResult one_file ''sh'' [] ?v None None) = None \<longleftrightarrow>
      validateVerificationSpec (wd_encoded one_file) ?v = Inr () \<and> established one_file ''sh'' [] ?v None None" .
  moreover have "established one_file ''sh'' [] ?v None None"
    by (simp add: established_def file_check_def empty_spec_def report_trim target_path_def one_file_def)
  ultimately have "snd (ExecuteVerificationSpec one_file ''sh'' [] ?v) = None"
    by (simp add: ExecuteVerificationSpec_def file_check_valid)
  moreover have "run_verifier demo_env ?v = ExecuteVerificationSpec one_file ''sh'' [] ?v"
    by (simp add: run_verifier_def demo_env_def file_check_def empty_spec_def)
  moreover have "vs_mode ?v \<noteq> ''observation''" by (simp add: file_check_def)
  moreover have "cr_verify c = ?v" using c by (auto simp: demo_first_def demo_second_def)
  ultimately show ?thesis by (simp add: run_state n)
qed

theorem evaluation_iff_acyclic_witness: "\<exists>rs. evaluateCriteria demo_env [demo_second, demo_first] = Inr rs"
  using evaluation_iff_acyclic [OF criteria_valid(1)] demo_acyclic by (simp only: demo_depends)

theorem evaluation_results_witness:
  "\<exists>rs. evaluateCriteria demo_env [demo_second, demo_first] = Inr rs \<and> cs_id ` set rs = {''a'', ''b''}"
proof -
  obtain rs where rs: "evaluateCriteria demo_env [demo_second, demo_first] = Inr rs" using demo_evaluates by blast
  from evaluation_results [OF rs] have "cs_id ` set rs = {''a'', ''b''}" by (auto simp: demo_first_def demo_second_def)
  with rs show ?thesis by blast
qed

theorem listing_order_irrelevant_witness:
  "evaluateCriteria demo_env [demo_second, demo_first] = evaluateCriteria demo_env [demo_first, demo_second]"
  by (rule listing_order_irrelevant) (simp_all add: criteria_valid add_mset_commute)

theorem passed_rests_on_evidence_witness:
  "\<exists>rs. evaluateCriteria demo_env [demo_second, demo_first] = Inr rs \<and> passed rs (cr_id demo_first)"
proof -
  let ?cs = "[demo_second, demo_first]"
  obtain rs where rs: "evaluateCriteria demo_env ?cs = Inr rs" using demo_evaluates by blast
  have r: "result_of rs (cr_id c) = Some (outcome demo_env rs c)" if "c \<in> {demo_first, demo_second}" for c
    using evaluated_result [OF rs, of c] that by auto
  have "outcome demo_env rs demo_first = run_criterion demo_env demo_first" by (simp add: outcome_def demo_first_def)
  with r [of demo_first] demo_run [of demo_first] have "passed rs ''a''" by (simp add: passed_def demo_first_def)
  then have "outcome demo_env rs demo_second = run_criterion demo_env demo_second" by (simp add: outcome_def demo_second_def)
  with r [of demo_second] demo_run [of demo_second] have p: "passed rs (cr_id demo_second)" by (simp add: passed_def)
  have "(cr_id demo_first, cr_id demo_second) \<in> (depends ?cs)\<^sup>*"
    unfolding demo_depends by (simp add: demo_first_def demo_second_def r_into_rtrancl)
  from passed_rests_on_evidence [OF rs p _ _ this] rs show ?thesis by auto
qed

end
