(* ===== verification/Artifact_Store.thy ===== *)
theory Artifact_Store
  imports Go_Text
begin

text \<open>
  The content-addressed artifact store, \<open>FileArtifactStore\<close> of \<open>internal/team/evidence_store.go\<close>. The
  two directories of the store are its state: \<open>data\<close> maps a file name to its bytes, \<open>meta\<close> is the
  listing of the metadata files in directory order, each with the record it decodes to (\<open>None\<close> when it
  does not decode). Files are created atomically and never replaced, so \<open>Put\<close> either creates, finds the
  same content, or refuses. SHA-256 in hex is \<open>sha\<close>; the file system outside the store (the resolution of symbolic
  links, the bytes of a source file) is the argument \<open>source\<close>, which answers \<open>None\<close> for a path outside the
  source directory or not readable, and \<open>authorized\<close>; disk errors and read budgets are left out. Times
  are naturals with 0 for Go's zero time.
\<close>

section \<open>References\<close>

record stored_ref =
  sr_id :: string
  sr_kind :: string
  sr_role :: string
  sr_path :: string
  sr_desc :: string
  sr_type :: string
  sr_sha :: string
  sr_bytes :: int
  sr_size :: int
  sr_media :: string
  sr_run :: string
  sr_task :: string
  sr_attempt :: int
  sr_agent :: string
  sr_provider :: string
  sr_call :: string
  sr_created :: nat

record put_request =
  pr_id :: string
  pr_kind :: string
  pr_role :: string
  pr_path :: string
  pr_desc :: string
  pr_media :: string
  pr_content :: string
  pr_source :: string
  pr_run :: string
  pr_task :: string
  pr_agent :: string
  pr_provider :: string
  pr_call :: string
  pr_attempt :: int
  pr_url :: string
  pr_parents :: "string list"
  pr_created :: nat

record origin_metadata =
  om_url :: string
  om_parents :: "string list"

record stored_metadata =
  sm_ref :: stored_ref
  sm_origin :: origin_metadata

text \<open>Comparisons of references: all fields, or only the ones kept as immutable metadata.\<close>

definition sameArtifactRef :: "stored_ref \<Rightarrow> stored_ref \<Rightarrow> bool" where
  "sameArtifactRef l r \<longleftrightarrow>
     sr_id l = sr_id r \<and> sr_kind l = sr_kind r \<and> sr_role l = sr_role r \<and> sr_path l = sr_path r \<and>
     sr_desc l = sr_desc r \<and> sr_type l = sr_type r \<and> sr_sha l = sr_sha r \<and> sr_bytes l = sr_bytes r \<and>
     sr_size l = sr_size r \<and> sr_media l = sr_media r \<and> sr_run l = sr_run r \<and> sr_task l = sr_task r \<and>
     sr_attempt l = sr_attempt r \<and> sr_agent l = sr_agent r \<and> sr_provider l = sr_provider r \<and>
     sr_call l = sr_call r \<and> (sr_created l = 0) = (sr_created r = 0) \<and>
     (sr_created l = 0 \<or> sr_created l = sr_created r)"

definition sameArtifactContentMetadata :: "stored_ref \<Rightarrow> stored_ref \<Rightarrow> bool" where
  "sameArtifactContentMetadata l r \<longleftrightarrow>
     sr_id l = sr_id r \<and> sr_kind l = sr_kind r \<and> sr_role l = sr_role r \<and> sr_path l = sr_path r \<and>
     sr_desc l = sr_desc r \<and> sr_type l = sr_type r \<and> sr_sha l = sr_sha r \<and> sr_bytes l = sr_bytes r \<and>
     sr_size l = sr_size r \<and> sr_media l = sr_media r"

section \<open>Identifiers\<close>

text \<open>\<open>filepath.Base\<close> on a Unix system.\<close>

definition Base :: "string \<Rightarrow> string" where
  "Base p =
     (if p = [] then ''.''
      else let q = rev (dropWhile (\<lambda>c. c = CHR ''/'') (rev p)) in
        if q = [] then ''/'' else rev (takeWhile (\<lambda>c. c \<noteq> CHR ''/'') (rev q)))"

definition validArtifactID :: "string \<Rightarrow> bool" where
  "validArtifactID i \<longleftrightarrow>
     i \<noteq> [] \<and> i \<noteq> ''.'' \<and> i \<noteq> ''..'' \<and> Base i = i \<and> list_all (\<lambda>c. c \<noteq> CHR ''/'' \<and> c \<noteq> CHR 0x5C) i"

definition meta_name :: "string \<Rightarrow> string" where
  "meta_name i = i @ ''.json''"

definition normalizeArtifactParentSourceIDs :: "string list \<Rightarrow> string list" where
  "normalizeArtifactParentSourceIDs ids = sort (filter (\<lambda>i. i \<noteq> []) (map TrimSpace ids))"

section \<open>The store\<close>

record artifact_store =
  as_data :: "(string \<times> string) list"
  as_meta :: "(string \<times> stored_metadata option) list"
  as_readonly :: bool

definition new_store :: artifact_store where
  "new_store = \<lparr>as_data = [], as_meta = [], as_readonly = False\<rparr>"

datatype store_error =
    StoreReadOnly | SourceUnreadable string | PathRequired | BadArtifactID string
  | DifferentContent string | MetadataConflict string | NoArtifactID | NotStored string
  | HashOrSizeMismatch string | MetadataUnreadable string | MetadataMismatch string
  | NoIdOrDigest | OutsideWorkspace string | ClaimConflicts string | InvalidMetadata string

text \<open>A directory keeps its entries sorted by name.\<close>

fun dir_insert :: "string \<Rightarrow> 'a \<Rightarrow> (string \<times> 'a) list \<Rightarrow> (string \<times> 'a) list" where
  "dir_insert n x [] = [(n, x)]"
| "dir_insert n x ((m, y) # d) = (if n < m then (n, x) # (m, y) # d else (m, y) # dir_insert n x d)"

definition createOrVerifyArtifactFile ::
  "string \<Rightarrow> string \<Rightarrow> artifact_store \<Rightarrow> (store_error + bool) \<times> artifact_store" where
  "createOrVerifyArtifactFile n bytes s =
     (case map_of (as_data s) n of
        None \<Rightarrow> (Inr True, s\<lparr>as_data := dir_insert n bytes (as_data s)\<rparr>)
      | Some existing \<Rightarrow> if existing \<noteq> bytes then (Inl (DifferentContent n), s) else (Inr False, s))"

definition createOrVerifyArtifactMetadata ::
  "string \<Rightarrow> stored_metadata \<Rightarrow> artifact_store \<Rightarrow> (store_error + bool) \<times> artifact_store" where
  "createOrVerifyArtifactMetadata n m s =
     (case map_of (as_meta s) n of
        None \<Rightarrow> (Inr True, s\<lparr>as_meta := dir_insert n (Some m) (as_meta s)\<rparr>)
      | Some None \<Rightarrow> (Inl (MetadataConflict (sr_id (sm_ref m))), s)
      | Some (Some old) \<Rightarrow>
          if sr_sha (sm_ref old) \<noteq> sr_sha (sm_ref m) \<or> sr_size (sm_ref old) \<noteq> sr_size (sm_ref m) \<or>
             sm_origin old \<noteq> sm_origin m
          then (Inl (MetadataConflict (sr_id (sm_ref m))), s) else (Inr False, s))"

record put_result =
  pu_ref :: stored_ref
  pu_created_data :: bool
  pu_created_meta :: bool

definition put_ref :: "(string \<Rightarrow> string) \<Rightarrow> nat \<Rightarrow> put_request \<Rightarrow> string \<Rightarrow> string \<Rightarrow> stored_ref" where
  "put_ref sha now q path bytes =
     \<lparr>sr_id = (if pr_id q = [] then ''sha256-'' @ sha bytes else pr_id q), sr_kind = pr_kind q, sr_role = pr_role q,
      sr_path = path, sr_desc = pr_desc q, sr_type = pr_kind q, sr_sha = sha bytes,
      sr_bytes = int (length bytes), sr_size = int (length bytes), sr_media = pr_media q, sr_run = pr_run q,
      sr_task = pr_task q, sr_attempt = pr_attempt q, sr_agent = pr_agent q, sr_provider = pr_provider q,
      sr_call = pr_call q, sr_created = (if pr_created q = 0 then now else pr_created q)\<rparr>"

text \<open>
  \<open>Put\<close> writes the data file first and the metadata second, so a refused metadata write leaves the
  data behind.
\<close>

definition Put ::
  "(string \<Rightarrow> string) \<Rightarrow> (string \<Rightarrow> string option) \<Rightarrow> nat \<Rightarrow> put_request \<Rightarrow> artifact_store \<Rightarrow>
   (store_error + put_result) \<times> artifact_store" where
  "Put sha source now q s =
     (if as_readonly s then (Inl StoreReadOnly, s)
      else case (if pr_source q \<noteq> [] then source (pr_source q) else Some (pr_content q)) of
        None \<Rightarrow> (Inl (SourceUnreadable (pr_source q)), s)
      | Some bytes \<Rightarrow>
          let path = (if pr_path q = [] \<and> pr_source q \<noteq> [] then pr_source q else pr_path q);
              ref = put_ref sha now q path bytes in
          if path = [] then (Inl PathRequired, s)
          else if \<not> validArtifactID (sr_id ref) then (Inl (BadArtifactID (sr_id ref)), s)
          else (case createOrVerifyArtifactFile (sr_id ref) bytes s of
                  (Inl e, s') \<Rightarrow> (Inl e, s')
                | (Inr fresh, s') \<Rightarrow>
                    (case createOrVerifyArtifactMetadata (meta_name (sr_id ref))
                            \<lparr>sm_ref = ref,
                             sm_origin = \<lparr>om_url = TrimSpace (pr_url q),
                                          om_parents = normalizeArtifactParentSourceIDs (pr_parents q)\<rparr>\<rparr> s' of
                       (Inl e, s'') \<Rightarrow> (Inl e, s'')
                     | (Inr meta, s'') \<Rightarrow>
                         (Inr \<lparr>pu_ref = ref, pu_created_data = fresh, pu_created_meta = meta\<rparr>, s''))))"

section \<open>Reading\<close>

definition store_verify :: "(string \<Rightarrow> string) \<Rightarrow> stored_ref \<Rightarrow> artifact_store \<Rightarrow> store_error + unit" where
  "store_verify sha ref s =
     (if \<not> validArtifactID (sr_id ref) then Inl NoArtifactID
      else case map_of (as_data s) (sr_id ref) of
        None \<Rightarrow> Inl (NotStored (sr_id ref))
      | Some bytes \<Rightarrow>
          if sha bytes \<noteq> sr_sha ref \<or> int (length bytes) \<noteq> sr_size ref then Inl (HashOrSizeMismatch (sr_id ref))
          else Inr ())"

definition store_open :: "string \<Rightarrow> artifact_store \<Rightarrow> store_error + string" where
  "store_open i s =
     (if \<not> validArtifactID i then Inl NoArtifactID
      else case map_of (as_data s) i of None \<Rightarrow> Inl (NotStored i) | Some bytes \<Rightarrow> Inr bytes)"

definition read_metadata :: "string \<Rightarrow> artifact_store \<Rightarrow> store_error + stored_metadata" where
  "read_metadata i s =
     (if \<not> validArtifactID i then Inl NoArtifactID
      else case map_of (as_meta s) (meta_name i) of
        None \<Rightarrow> Inl (NotStored i)
      | Some None \<Rightarrow> Inl (MetadataUnreadable i)
      | Some (Some m) \<Rightarrow> if sr_id (sm_ref m) \<noteq> i then Inl (MetadataMismatch i) else Inr m)"

definition store_get :: "string \<Rightarrow> artifact_store \<Rightarrow> store_error + stored_ref" where
  "store_get i s = bindR (read_metadata i s) (\<lambda>m. Inr (sm_ref m))"

definition TrustedArtifactMetadata :: "stored_ref \<Rightarrow> artifact_store \<Rightarrow> store_error + origin_metadata" where
  "TrustedArtifactMetadata ref s = bindR (read_metadata (sr_id ref) s) (\<lambda>m. Inr (sm_origin m))"

text \<open>The search of \<open>Resolve\<close> for a digest without an id: the first metadata file that has it.\<close>

definition json_suffix :: "string \<Rightarrow> bool" where
  "json_suffix n \<longleftrightarrow> 5 \<le> length n \<and> drop (length n - 5) n = ''.json''"

definition find_digest :: "string \<Rightarrow> artifact_store \<Rightarrow> string option" where
  "find_digest digest s =
     map_option sr_id
       (find (\<lambda>r. sr_sha r = digest)
          (concat (map (\<lambda>e. if \<not> json_suffix (fst e) then []
                            else case store_get (take (length (fst e) - 5) (fst e)) s of Inl _ \<Rightarrow> [] | Inr r \<Rightarrow> [r])
                       (as_meta s))))"

definition Resolve :: "(string \<Rightarrow> string) \<Rightarrow> (string \<Rightarrow> bool) \<Rightarrow> stored_ref \<Rightarrow> artifact_store \<Rightarrow> store_error + stored_ref" where
  "Resolve sha authorized supplied s =
     (if TrimSpace (sr_id supplied) = [] \<and> TrimSpace (sr_sha supplied) = [] then Inl NoIdOrDigest
      else let i = (if TrimSpace (sr_id supplied) = []
                    then case find_digest (sr_sha supplied) s of None \<Rightarrow> sr_id supplied | Some i \<Rightarrow> i
                    else sr_id supplied) in
        if \<not> validArtifactID i then Inl NoArtifactID
        else bindR (store_get i s) (\<lambda>c.
          if \<not> authorized (sr_path c) then Inl (OutsideWorkspace (sr_path c))
          else if sr_sha supplied \<noteq> [] \<and> sr_sha supplied \<noteq> sr_sha c then Inl (ClaimConflicts i)
          else if sr_bytes supplied \<noteq> 0 \<and> sr_bytes supplied \<noteq> sr_bytes c then Inl (ClaimConflicts i)
          else if sr_size supplied \<noteq> 0 \<and> sr_size supplied \<noteq> sr_size c then Inl (ClaimConflicts i)
          else if sr_sha c = [] \<or> sr_bytes c < 0 \<or> sr_size c < 0 \<or> sr_bytes c \<noteq> sr_size c then Inl (InvalidMetadata i)
          else bindR (store_verify sha c s) (\<lambda>_. Inr c)))"

fun list_refs :: "string \<Rightarrow> (string \<times> stored_metadata option) list \<Rightarrow> store_error + stored_ref list" where
  "list_refs task [] = Inr []"
| "list_refs task ((n, m) # d) =
     (if \<not> json_suffix n then list_refs task d
      else case m of
        None \<Rightarrow> Inl (MetadataUnreadable n)
      | Some x \<Rightarrow>
          bindR (list_refs task d) (\<lambda>refs. Inr (if sr_task (sm_ref x) = task then sm_ref x # refs else refs)))"

definition ListByTask :: "string \<Rightarrow> artifact_store \<Rightarrow> store_error + stored_ref list" where
  "ListByTask task s = bindR (list_refs task (as_meta s)) (\<lambda>refs. Inr (sort_key sr_id refs))"

section \<open>What the store keeps\<close>

lemma dir_insert_map [simp]:
  "map_of d n = None \<Longrightarrow> map_of (dir_insert n x d) = (map_of d)(n \<mapsto> x)"
  by (induction d) (auto split: if_splits)

lemma dir_insert_set [simp]: "set (dir_insert n x d) = insert (n, x) (set d)"
proof (induction d)
  case (Cons e d)
  then show ?case by (cases e) auto
qed simp

lemma dir_insert_sorted:
  "sorted (map fst d) \<Longrightarrow> sorted (map fst (dir_insert n x d))"
proof (induction d)
  case (Cons e d)
  obtain m y where e: "e = (m, y)" by fastforce
  show ?case
  proof (cases "n < m")
    case True
    with Cons.prems e show ?thesis by (auto intro: order_trans [OF less_imp_le])
  next
    case False
    then have "\<forall>k\<in>set (map fst (dir_insert n x d)). m \<le> k"
      using Cons.prems e by (auto simp: not_less)
    with Cons False e show ?thesis by simp
  qed
qed simp

lemma meta_name_inj [simp]: "meta_name i = meta_name j \<longleftrightarrow> i = j"
  by (simp add: meta_name_def)

text \<open>A store that has everything another has, with the same content.\<close>

definition extends :: "artifact_store \<Rightarrow> artifact_store \<Rightarrow> bool" where
  "extends s s' \<longleftrightarrow>
     map_of (as_data s) \<subseteq>\<^sub>m map_of (as_data s') \<and> map_of (as_meta s) \<subseteq>\<^sub>m map_of (as_meta s')"

lemma extends_refl [simp]: "extends s s"
  by (simp add: extends_def)

lemma extends_trans: "extends s t \<Longrightarrow> extends t u \<Longrightarrow> extends s u"
  by (auto simp: extends_def intro: map_le_trans)

text \<open>
  Interface: a store that only grows, and what holds of it once holds for good. The readers of evidence rely on
  nothing else when operations publish between a check and its use.
\<close>

locale growing_store = step_preorder grows for grows :: "'s \<Rightarrow> 's \<Rightarrow> bool" +
  fixes holds :: "'r \<Rightarrow> 's \<Rightarrow> bool"
  assumes kept: "grows s t \<Longrightarrow> holds r s \<Longrightarrow> holds r t"
begin

lemma kept_run: "(\<And>x s. grows s (f x s)) \<Longrightarrow> holds r s \<Longrightarrow> holds r (fold f xs s)"
  by (rule kept [OF run_fold])

lemma kept_all: "grows s t \<Longrightarrow> \<forall>r\<in>set rs. holds r s \<Longrightarrow> \<forall>r\<in>set rs. holds r t"
  using kept by blast

end

lemma extends_data: "extends s s' \<Longrightarrow> map_of (as_data s) n = Some b \<Longrightarrow> map_of (as_data s') n = Some b"
  by (auto simp: extends_def map_le_def dom_def)

lemma extends_meta: "extends s s' \<Longrightarrow> map_of (as_meta s) n = Some m \<Longrightarrow> map_of (as_meta s') n = Some m"
  by (auto simp: extends_def map_le_def dom_def)

lemma store_verify_extends:
  "extends s t \<Longrightarrow> store_verify sha r s = Inr () \<Longrightarrow> store_verify sha r t = Inr ()"
  by (auto simp: store_verify_def extends_data split: if_splits option.splits)

interpretation store: growing_store extends "\<lambda>r s. store_verify sha r s = Inr ()" for sha
  by unfold_locales (auto intro: extends_trans store_verify_extends)

lemma file_result:
  assumes "createOrVerifyArtifactFile n bytes s = (r, s')"
  shows "as_meta s' = as_meta s" "as_readonly s' = as_readonly s" "extends s s'"
    "is_ok r \<Longrightarrow> map_of (as_data s') n = Some bytes"
    "k \<noteq> n \<Longrightarrow> map_of (as_data s') k = map_of (as_data s) k" "\<not> is_ok r \<Longrightarrow> s' = s"
  using assms by (auto simp: createOrVerifyArtifactFile_def extends_def map_le_def split: option.splits if_splits)

lemma metadata_result:
  assumes "createOrVerifyArtifactMetadata n m s = (r, s')"
  shows "as_data s' = as_data s" "as_readonly s' = as_readonly s" "extends s s'" "\<not> is_ok r \<Longrightarrow> s' = s"
    "is_ok r \<Longrightarrow> \<exists>m'. map_of (as_meta s') n = Some (Some m') \<and> sr_sha (sm_ref m') = sr_sha (sm_ref m) \<and>
       sr_size (sm_ref m') = sr_size (sm_ref m) \<and> (map_of (as_meta s) n = None \<longrightarrow> m' = m)"
    "k \<noteq> n \<Longrightarrow> map_of (as_meta s') k = map_of (as_meta s) k"
    "map_of (as_meta s) n \<noteq> None \<Longrightarrow> s' = s"
  using assms by (auto simp: createOrVerifyArtifactMetadata_def extends_def map_le_def split: option.splits if_splits)

text \<open>The bytes a request is about: those of its source file, or its content.\<close>

definition request_bytes :: "(string \<Rightarrow> string option) \<Rightarrow> put_request \<Rightarrow> string option" where
  "request_bytes source q = (if pr_source q \<noteq> [] then source (pr_source q) else Some (pr_content q))"

text \<open>What one \<open>Put\<close> did: refused before any write, or wrote at most the two files of one id.\<close>

lemma put_cases:
  assumes "Put sha source now q s = (r, s')"
  obtains (unchanged) e where "r = Inl e" "s' = s"
  | (data) e bytes ref path where "r = Inl e" "\<not> as_readonly s" "ref = put_ref sha now q path bytes" "validArtifactID (sr_id ref)"
      "createOrVerifyArtifactFile (sr_id ref) bytes s = (Inr True, s')"
  | (both) p fresh created bytes path ref s1 om where "r = Inr p" "\<not> as_readonly s" "ref = put_ref sha now q path bytes"
      "pu_ref p = ref" "validArtifactID (sr_id ref)"
      "createOrVerifyArtifactFile (sr_id ref) bytes s = (Inr fresh, s1)"
      "createOrVerifyArtifactMetadata (meta_name (sr_id ref)) \<lparr>sm_ref = ref, sm_origin = om\<rparr> s1 = (Inr created, s')"
      "request_bytes source q = Some bytes"
proof (cases "r")
  case (Inl e)
  show thesis
  proof (cases "s' = s")
    case True
    with Inl show thesis by (rule unchanged)
  next
    case False
    from assms Inl False obtain bytes path ref fresh s1 om where *: "\<not> as_readonly s" "ref = put_ref sha now q path bytes"
      "validArtifactID (sr_id ref)" "createOrVerifyArtifactFile (sr_id ref) bytes s = (Inr fresh, s1)"
      "createOrVerifyArtifactMetadata (meta_name (sr_id ref)) \<lparr>sm_ref = ref, sm_origin = om\<rparr> s1 = (Inl e, s')"
      by (auto simp: Put_def Let_def split: if_splits option.splits prod.splits sum.splits
          dest: file_result(6))
    have s1: "s' = s1" using metadata_result(4) [OF *(5)] by simp
    have "fresh" using *(4) False s1 by (auto simp: createOrVerifyArtifactFile_def split: option.splits if_splits)
    with * s1 Inl show thesis by (intro data) auto
  qed
next
  case (Inr p)
  from assms Inr obtain bytes path ref fresh created s1 om where *: "\<not> as_readonly s" "ref = put_ref sha now q path bytes"
    "pu_ref p = ref" "validArtifactID (sr_id ref)" "createOrVerifyArtifactFile (sr_id ref) bytes s = (Inr fresh, s1)"
    "createOrVerifyArtifactMetadata (meta_name (sr_id ref)) \<lparr>sm_ref = ref, sm_origin = om\<rparr> s1 = (Inr created, s')"
    "request_bytes source q = Some bytes"
    by (auto simp: Put_def request_bytes_def Let_def split: if_splits option.splits prod.splits sum.splits)
  with Inr show thesis by (intro both) auto
qed

lemma put_extends: "extends s (snd (Put sha source now q s))"
proof -
  obtain r s' where p: "Put sha source now q s = (r, s')" by fastforce
  from p have "extends s s'"
    by (cases rule: put_cases) (auto dest: file_result(3) metadata_result(3) intro: extends_trans)
  with p show ?thesis by simp
qed

lemma put_stored:
  assumes "Put sha source now q s = (Inr p, s')"
  obtains bytes where "map_of (as_data s') (sr_id (pu_ref p)) = Some bytes" "sha bytes = sr_sha (pu_ref p)"
    "int (length bytes) = sr_size (pu_ref p)" "validArtifactID (sr_id (pu_ref p))"
    "request_bytes source q = Some bytes" "sr_id (pu_ref p) = (if pr_id q = [] then ''sha256-'' @ sha bytes else pr_id q)"
  using assms
proof (cases rule: put_cases)
  case (both p' fresh created bytes path ref s1 om)
  have "map_of (as_data s1) (sr_id ref) = Some bytes" using file_result(4) [OF both(6)] by simp
  then have "map_of (as_data s') (sr_id ref) = Some bytes" using metadata_result(1) [OF both(7)] by simp
  moreover have "sha bytes = sr_sha ref" "int (length bytes) = sr_size ref"
    "sr_id ref = (if pr_id q = [] then ''sha256-'' @ sha bytes else pr_id q)" by (simp_all add: both(3) put_ref_def)
  ultimately show thesis using both by (intro that) auto
qed simp_all

section \<open>Histories of puts\<close>

type_synonym put_call = "(string \<Rightarrow> string option) \<times> nat \<times> put_request"

definition put_all :: "(string \<Rightarrow> string) \<Rightarrow> put_call list \<Rightarrow> artifact_store \<Rightarrow> artifact_store" where
  "put_all sha = fold (\<lambda>(source, now, q) s. snd (Put sha source now q s))"

lemma put_all_simps [simp]:
  "put_all sha [] s = s"
  "put_all sha ((source, now, q) # calls) s = put_all sha calls (snd (Put sha source now q s))"
  by (simp_all add: put_all_def)

lemma put_all_extends: "extends s (put_all sha calls s)"
  unfolding put_all_def by (rule store.run_fold) (auto simp: put_extends split: prod.splits)

lemma read_metadata_extends:
  "extends s s' \<Longrightarrow> map_of (as_meta s) (meta_name i) \<noteq> None \<Longrightarrow> read_metadata i s' = read_metadata i s"
  by (auto simp: read_metadata_def extends_meta)

text \<open>
  C24. What was published stays as it was. After a successful \<open>Put\<close> the id is the one requested or the digest of the bytes, the
  reference carries their digest and size, and whatever is put afterwards - under the same id, from any source,
  also when refused halfway - the id opens exactly the bytes of the request (its content, or its source file's), the
  reference verifies, and the metadata read for it is the same.
\<close>

theorem artifact_immutable:
  assumes "Put sha source now q s = (Inr p, s')"
  shows "\<exists>bytes. (if pr_source q \<noteq> [] then source (pr_source q) = Some bytes else bytes = pr_content q) \<and>
    sr_id (pu_ref p) = (if pr_id q = [] then ''sha256-'' @ sha bytes else pr_id q) \<and>
    sr_sha (pu_ref p) = sha bytes \<and> sr_size (pu_ref p) = int (length bytes) \<and>
    store_open (sr_id (pu_ref p)) (put_all sha later s') = Inr bytes \<and>
    store_verify sha (pu_ref p) (put_all sha later s') = Inr () \<and>
    read_metadata (sr_id (pu_ref p)) (put_all sha later s') = read_metadata (sr_id (pu_ref p)) s'"
proof -
  let ?s = "put_all sha later s'" and ?i = "sr_id (pu_ref p)"
  have e: "extends s' ?s" by (rule put_all_extends)
  from put_stored [OF assms] obtain bytes where b: "map_of (as_data s') ?i = Some bytes" "sha bytes = sr_sha (pu_ref p)"
    "int (length bytes) = sr_size (pu_ref p)" "validArtifactID ?i" "request_bytes source q = Some bytes"
    "?i = (if pr_id q = [] then ''sha256-'' @ sha bytes else pr_id q)" by blast
  have "map_of (as_meta s') (meta_name ?i) \<noteq> None"
    using assms by (cases rule: put_cases) (auto dest!: metadata_result(5))
  with read_metadata_extends [OF e] have m: "read_metadata ?i ?s = read_metadata ?i s'" .
  have "store_open ?i ?s = Inr bytes" "store_verify sha (pu_ref p) ?s = Inr ()"
    using b(1-4) extends_data [OF e b(1)] by (simp_all add: store_open_def store_verify_def)
  moreover have "if pr_source q \<noteq> [] then source (pr_source q) = Some bytes else bytes = pr_content q"
    using b(5) by (auto simp: request_bytes_def split: if_splits)
  ultimately show ?thesis using m b(2,3) by (intro exI [of _ bytes] conjI b(6)) simp_all
qed

text \<open>Metadata backed by its data: the file is named after the id and the bytes are there.\<close>

definition backed :: "(string \<Rightarrow> string) \<Rightarrow> artifact_store \<Rightarrow> bool" where
  "backed sha s \<longleftrightarrow>
     (\<forall>n x. map_of (as_meta s) n = Some x \<longrightarrow>
        (\<exists>m bytes. x = Some m \<and> n = meta_name (sr_id (sm_ref m)) \<and> validArtifactID (sr_id (sm_ref m)) \<and>
           map_of (as_data s) (sr_id (sm_ref m)) = Some bytes \<and>
           sha bytes = sr_sha (sm_ref m) \<and> int (length bytes) = sr_size (sm_ref m) \<and>
           sr_bytes (sm_ref m) = sr_size (sm_ref m)))"

lemma backed_data:
  assumes "backed sha s" "extends s s'" "as_meta s' = as_meta s"
  shows "backed sha s'"
  unfolding backed_def
proof (intro allI impI)
  fix n x
  assume "map_of (as_meta s') n = Some x"
  with assms(3) have "map_of (as_meta s) n = Some x" by simp
  from assms(1) [unfolded backed_def, rule_format, OF this] extends_data [OF assms(2)]
  show "\<exists>m bytes. x = Some m \<and> n = meta_name (sr_id (sm_ref m)) \<and> validArtifactID (sr_id (sm_ref m)) \<and>
       map_of (as_data s') (sr_id (sm_ref m)) = Some bytes \<and>
       sha bytes = sr_sha (sm_ref m) \<and> int (length bytes) = sr_size (sm_ref m) \<and> sr_bytes (sm_ref m) = sr_size (sm_ref m)"
    by blast
qed

lemma put_backed:
  assumes "backed sha s"
  shows "backed sha (snd (Put sha source now q s))"
proof -
  obtain r s' where p: "Put sha source now q s = (r, s')" by fastforce
  from p have "backed sha s'"
  proof (cases rule: put_cases)
    case (data e bytes ref path)
    show ?thesis by (rule backed_data [OF assms]) (use file_result [OF data(5)] in auto)
  next
    case (both p' fresh created bytes path ref s1 om)
    have s1: "backed sha s1" by (rule backed_data [OF assms]) (use file_result [OF both(6)] in auto)
    have d: "map_of (as_data s') (sr_id ref) = Some bytes"
      using file_result(4) [OF both(6)] metadata_result(1) [OF both(7)] by simp
    show ?thesis unfolding backed_def
    proof (intro allI impI)
      fix n x
      assume x: "map_of (as_meta s') n = Some x"
      show "\<exists>m bytes. x = Some m \<and> n = meta_name (sr_id (sm_ref m)) \<and> validArtifactID (sr_id (sm_ref m)) \<and>
           map_of (as_data s') (sr_id (sm_ref m)) = Some bytes \<and>
           sha bytes = sr_sha (sm_ref m) \<and> int (length bytes) = sr_size (sm_ref m) \<and>
           sr_bytes (sm_ref m) = sr_size (sm_ref m)"
      proof (cases "map_of (as_meta s1) n")
        case None
        then have n: "n = meta_name (sr_id ref)" using metadata_result(6) [OF both(7), of n] x by fastforce
        with None metadata_result(5) [OF both(7)] x have "x = Some \<lparr>sm_ref = ref, sm_origin = om\<rparr>" by auto
        with n d both(5) show ?thesis by (auto simp: both(3) put_ref_def)
      next
        case (Some y)
        then have "map_of (as_meta s') n = Some y" using extends_meta [OF metadata_result(3) [OF both(7)]] by blast
        with x Some s1 metadata_result(1) [OF both(7)] show ?thesis unfolding backed_def by auto
      qed
    qed
  qed (use assms in simp)
  with p show ?thesis by simp
qed

lemma puts_backed: "backed sha s \<Longrightarrow> backed sha (put_all sha calls s)"
proof (induction calls arbitrary: s)
  case (Cons c calls)
  obtain source now q where "c = (source, now, q)" by (cases c) auto
  with Cons.IH [OF put_backed [OF Cons.prems]] show ?case by simp
qed simp

lemma backed_new: "backed sha new_store"
  by (simp add: backed_def new_store_def)

lemma backed_get:
  assumes "backed sha s" "store_get i s = Inr ref"
  shows "store_verify sha ref s = Inr ()" "sr_id ref = i" "sr_bytes ref = sr_size ref"
proof -
  from assms(2) obtain m where m: "validArtifactID i" "map_of (as_meta s) (meta_name i) = Some (Some m)"
    "sr_id (sm_ref m) = i" "ref = sm_ref m"
    by (auto simp: store_get_def read_metadata_def split: if_splits option.splits)
  with assms(1) [unfolded backed_def, rule_format, OF m(2)]
  show "store_verify sha ref s = Inr ()" "sr_id ref = i" "sr_bytes ref = sr_size ref"
    by (auto simp: store_verify_def)
qed

text \<open>
  Metadata never promises what is not there. After any sequence of puts into a new store, accepted or refused
  at any point, every metadata record that can be read belongs to its id and its bytes are present with the
  recorded digest and size, so a reference with no claim of its own, to a digest that is not empty and
  a path of the workspace, always resolves to the stored record.
\<close>

theorem metadata_backed:
  assumes "store_get i (put_all sha calls new_store) = Inr ref"
  shows "store_verify sha ref (put_all sha calls new_store) = Inr () \<and> sr_id ref = i \<and>
    (sr_sha ref \<noteq> [] \<and> authorized (sr_path ref) \<and> TrimSpace i \<noteq> [] \<longrightarrow>
     (\<forall>supplied. sr_id supplied = i \<and> sr_sha supplied = [] \<and> sr_bytes supplied = 0 \<and> sr_size supplied = 0 \<longrightarrow>
        Resolve sha authorized supplied (put_all sha calls new_store) = Inr ref))"
proof -
  let ?s = "put_all sha calls new_store"
  note b = backed_get [OF puts_backed [OF backed_new] assms]
  have i: "validArtifactID i" using assms by (auto simp: store_get_def read_metadata_def split: if_splits)
  have "0 \<le> sr_size ref" using b(1) by (auto simp: store_verify_def split: if_splits option.splits)
  then show ?thesis using b i assms by (auto simp: Resolve_def)
qed

definition demo_put :: put_request where
  "demo_put = \<lparr>pr_id = ''report'', pr_kind = ''report'', pr_role = [], pr_path = ''out.md'', pr_desc = [], pr_media = [],
     pr_content = ''ok'', pr_source = [], pr_run = ''r1'', pr_task = ''7'', pr_agent = ''writer'', pr_provider = [],
     pr_call = [], pr_attempt = 1, pr_url = [], pr_parents = [], pr_created = 0\<rparr>"

definition demo_sha :: "string \<Rightarrow> string" where
  "demo_sha s = (if s = ''ok'' then ''a1'' else ''b2'')"

lemma report_id: "validArtifactID ''report''"
  by (simp add: validArtifactID_def Base_def)

lemma demo_put_result:
  "Put demo_sha (\<lambda>_. None) 5 demo_put new_store =
     (Inr \<lparr>pu_ref = put_ref demo_sha 5 demo_put ''out.md'' ''ok'', pu_created_data = True, pu_created_meta = True\<rparr>,
      snd (Put demo_sha (\<lambda>_. None) 5 demo_put new_store))"
  using report_id
  by (simp add: Put_def demo_put_def new_store_def put_ref_def createOrVerifyArtifactFile_def
      createOrVerifyArtifactMetadata_def Let_def)

theorem artifact_immutable_witness:
  "store_open ''report'' (put_all demo_sha
     [(\<lambda>_. None, 9, demo_put\<lparr>pr_content := ''other''\<rparr>)] (snd (Put demo_sha (\<lambda>_. None) 5 demo_put new_store))) = Inr ''ok''"
proof -
  let ?later = "[(\<lambda>_. None, 9, demo_put\<lparr>pr_content := ''other''\<rparr>)]"
  have i: "sr_id (put_ref demo_sha 5 demo_put ''out.md'' ''ok'') = ''report''" "pr_source demo_put = []" "pr_content demo_put = ''ok''"
    "pr_id demo_put = ''report''" by (simp_all add: put_ref_def demo_put_def)
  from artifact_immutable [OF demo_put_result, of ?later] show ?thesis by (auto simp: i)
qed

theorem metadata_backed_witness:
  "store_verify demo_sha (put_ref demo_sha 5 demo_put ''out.md'' ''ok'')
     (put_all demo_sha [(\<lambda>_. None, 5, demo_put)] new_store) = Inr ()"
proof -
  have "store_get ''report'' (put_all demo_sha [(\<lambda>_. None, 5, demo_put)] new_store) =
      Inr (put_ref demo_sha 5 demo_put ''out.md'' ''ok'')"
    using report_id
    by (simp add: Put_def demo_put_def new_store_def put_ref_def createOrVerifyArtifactFile_def store_get_def
        read_metadata_def createOrVerifyArtifactMetadata_def Let_def)
  from metadata_backed [OF this] show ?thesis by blast
qed

end
