(* ===== verification/Run_Items.thy ===== *)
theory Run_Items
  imports Task_Resolution Artifact_Store
begin

text \<open>
  The view of the to-do list the end of a run works on: the items of \<open>status.go\<close> together with the
  fields \<open>Todo_List\<close> leaves to their contracts (agent, invocation inputs, execution receipts, artifacts), the
  receipts of \<open>internal/team/execution_receipt.go\<close> as far as evidence reads them, the choice of the winning receipt
  (\<open>evidence_manifest.go\<close>), and the projections of the items into unresolved tasks and statistics
  (\<open>run_result.go\<close>, \<open>coordinator_tools.go\<close>). A bound-input map is an association list sorted by name.
\<close>

section \<open>Receipts\<close>

record execution_receipt =
  xr_run :: string
  xr_task :: string
  xr_attempt :: int
  xr_snapshot :: string
  xr_snapshot_hash :: string
  xr_action_hash :: string
  xr_bound :: "(string \<times> string) list"
  xr_invocation :: string
  xr_outputs_hash :: string
  xr_execution :: string
  xr_exit :: "int option"
  xr_producer :: string
  xr_transcript :: string

definition Succeeded :: "execution_receipt \<Rightarrow> bool" where
  "Succeeded r \<longleftrightarrow> xr_exit r = Some 0"

text \<open>
  An item of the list. \<open>ru_primary\<close> is \<open>IsPrimaryOccurrence\<close>; \<open>ru_outputs_hash\<close> and \<open>ru_artifacts\<close>
  are fields of the typed result and mean nothing without one.
\<close>

record failure_info =
  fi_class :: failure_class
  fi_disposition :: "disposition option"

record ('c, 'r, 'p) run_item =
  ru_task :: "('c, 'r) todo_item"
  ru_agent :: string
  ru_desc :: string
  ru_primary :: bool
  ru_failure :: "failure_info option"
  ru_receipts :: "execution_receipt list"
  ru_receipt :: "execution_receipt option"
  ru_snapshot :: string
  ru_snapshot_hash :: string
  ru_action_hash :: string
  ru_bound :: "(string \<times> string) list"
  ru_outputs_hash :: string
  ru_artifacts :: "stored_ref list"
  ru_proof :: "'p option"

abbreviation ru_id :: "('c, 'r, 'p) run_item \<Rightarrow> string" where
  "ru_id x \<equiv> ti_id (ru_task x)"

abbreviation ru_status :: "('c, 'r, 'p) run_item \<Rightarrow> task_status" where
  "ru_status x \<equiv> ti_status (ru_task x)"

text \<open>The newest successful receipt of the run with a transcript; a stale attempt does not count.\<close>

definition latestSuccessfulExecutionReceipt :: "('c, 'r, 'p) run_item \<Rightarrow> string \<Rightarrow> execution_receipt option" where
  "latestSuccessfulExecutionReceipt x run =
     (case find (\<lambda>r. xr_run r = run \<and> Succeeded r \<and> TrimSpace (xr_transcript r) \<noteq> []) (rev (ru_receipts x)) of
        Some r \<Rightarrow> Some r
      | None \<Rightarrow>
          (case ru_receipt x of None \<Rightarrow> None
           | Some r \<Rightarrow> if xr_run r \<noteq> run then None
                     else if Succeeded r \<and> TrimSpace (xr_transcript r) \<noteq> [] then Some r else None))"

definition latestExecutionReceiptWithTranscript :: "('c, 'r, 'p) run_item \<Rightarrow> string \<Rightarrow> execution_receipt option" where
  "latestExecutionReceiptWithTranscript x run =
     (case find (\<lambda>r. xr_run r = run \<and> TrimSpace (xr_transcript r) \<noteq> []) (rev (ru_receipts x)) of
        Some r \<Rightarrow> Some r
      | None \<Rightarrow>
          (case ru_receipt x of None \<Rightarrow> None
           | Some r \<Rightarrow> if xr_run r = run \<and> TrimSpace (xr_transcript r) \<noteq> [] then Some r else None))"

lemma find_found: "find P xs = Some x \<Longrightarrow> x \<in> set xs \<and> P x"
  by (auto simp: find_Some_iff)

lemma winning_receipt:
  assumes "latestSuccessfulExecutionReceipt x run = Some r"
  shows "xr_run r = run" "xr_exit r = Some 0" "TrimSpace (xr_transcript r) \<noteq> []"
    "r \<in> set (ru_receipts x) \<or> ru_receipt x = Some r"
  using assms by (auto simp: latestSuccessfulExecutionReceipt_def Succeeded_def split: option.splits if_splits
      dest!: find_found)

section \<open>Resolutions\<close>

text \<open>
  The system's signing key and the comparison of requirements, which \<open>Task_Resolution\<close> takes as
  arguments. The comparison reads receipts of the run, so it is told the run.
\<close>

record ('c, 'r) resolution_env =
  re_mac :: mac
  re_system :: "string option"
  re_require :: "string \<Rightarrow> ('c, 'r) todo_item option \<Rightarrow> ('c, 'r) todo_item \<Rightarrow> bool"

definition item_by_id :: "('c, 'r, 'p) run_item list \<Rightarrow> string \<Rightarrow> ('c, 'r, 'p) run_item option" where
  "item_by_id items i = find (\<lambda>x. ru_id x = i) items"

definition resolutionRunID :: "('c, 'r, 'p) run_item list \<Rightarrow> ('c, 'r, 'p) run_item \<Rightarrow> string" where
  "resolutionRunID items x =
     (case ti_resolution (ru_task x) of None \<Rightarrow> []
      | Some r \<Rightarrow>
          (case item_by_id items (rs_by r) of None \<Rightarrow> []
           | Some y \<Rightarrow> (case ru_receipt y of None \<Rightarrow> [] | Some p \<Rightarrow> xr_run p)))"

definition verified_resolver ::
  "('c, 'r) resolution_env \<Rightarrow> ('c, 'r, 'p) run_item \<Rightarrow> ('c, 'r, 'p) run_item list \<Rightarrow> string \<Rightarrow> ('c, 'r, 'p) run_item option" where
  "verified_resolver env x items run =
     (case VerifiedTaskResolution (re_mac env) (re_system env) (re_require env run) (Some (ru_task x)) (map ru_task items) run of
        None \<Rightarrow> None | Some y \<Rightarrow> item_by_id items (ti_id y))"

lemma find_tasks: "find P (map ru_task items) = map_option ru_task (find (P \<circ> ru_task) items)"
  by (induction items) auto

lemma verified_resolver_facts:
  assumes "verified_resolver env x items run = Some y"
  shows "y \<in> set items" "ru_id y \<noteq> ru_id x" "ru_status y = TaskDone"
    "\<exists>r. ti_resolution (ru_task x) = Some r \<and> resolves r \<and> rs_by r = ru_id y"
    "find (\<lambda>z. ru_id z = ru_id x) items = Some x \<Longrightarrow> ru_status x \<in> {TaskError, TaskBlocked}"
    "objectively_verified (re_mac env) (re_system env) (ru_task y) run"
    "item_by_id items (ru_id y) = Some y"
proof -
  from assms obtain t r where t: "ti_resolution (ru_task x) = Some r" "resolves r"
    "ValidateResolution (re_mac env) (re_system env) (re_require env run) r (ru_id x) (map ru_task items) run = Inr ()"
    "find (\<lambda>y. ti_id y = rs_by r) (map ru_task items) = Some t" "item_by_id items (ti_id t) = Some y"
    by (auto simp: verified_resolver_def VerifiedTaskResolution_def split: option.splits if_splits)
  have id: "ti_id t = rs_by r" using t(4) by (auto simp: find_Some_iff)
  with t(4,5) have ty: "ru_task y = t" by (auto simp: find_tasks item_by_id_def o_def)
  from validated_resolver [OF t(3,2)] t(4) show "ru_id y \<noteq> ru_id x" "ru_status y = TaskDone"
    "objectively_verified (re_mac env) (re_system env) (ru_task y) run" using ty id by auto
  show "y \<in> set items" using t(5) by (auto simp: item_by_id_def find_Some_iff)
  show "\<exists>r. ti_resolution (ru_task x) = Some r \<and> resolves r \<and> rs_by r = ru_id y" using t(1,2) id ty by auto
  show "item_by_id items (ru_id y) = Some y" using t(5) ty by simp
  show "find (\<lambda>z. ru_id z = ru_id x) items = Some x \<Longrightarrow> ru_status x \<in> {TaskError, TaskBlocked}"
    using resolved_target [OF t(3), of "ru_task x"] by (auto simp: find_tasks o_def)
qed

section \<open>Unresolved tasks\<close>

record task_reference =
  tk_id :: string
  tk_agent :: string
  tk_desc :: string
  tk_status :: task_status
  tk_error :: string
  tk_class :: failure_class
  tk_disposition :: "disposition option"
  tk_next :: string

fun RecoveryNextAction :: "disposition option \<Rightarrow> string" where
  "RecoveryNextAction (Some RetryWorker) = ''retry through the policy gate with prior failure evidence''"
| "RecoveryNextAction (Some ReconcileOnly) = ''run targeted reconciliation; do not replay worker tools''"
| "RecoveryNextAction (Some ReplanRequired) = ''resume with a materially changed plan; do not retry the original attempt''"
| "RecoveryNextAction (Some NeedsHuman) = ''request operator review before continuing''"
| "RecoveryNextAction (Some RetryNone) = ''review the terminal failure; no automatic retry is authorized''"
| "RecoveryNextAction None = []"

fun dispositionSafetyRank :: "disposition option \<Rightarrow> int" where
  "dispositionSafetyRank (Some NeedsHuman) = 5"
| "dispositionSafetyRank (Some ReconcileOnly) = 4"
| "dispositionSafetyRank (Some ReplanRequired) = 3"
| "dispositionSafetyRank (Some RetryNone) = 2"
| "dispositionSafetyRank (Some RetryWorker) = 1"
| "dispositionSafetyRank None = 0"

definition RunRecoveryDisposition :: "task_reference list \<Rightarrow> disposition option" where
  "RunRecoveryDisposition tasks =
     fold (\<lambda>t strongest. if dispositionSafetyRank strongest < dispositionSafetyRank (tk_disposition t)
                         then tk_disposition t else strongest) tasks None"

text \<open>The failure text shown for an item (\<open>FailureDisplayText\<close>) is the argument \<open>display\<close>.\<close>

definition toTaskReference :: "(('c, 'r, 'p) run_item \<Rightarrow> string) \<Rightarrow> ('c, 'r, 'p) run_item \<Rightarrow> task_reference" where
  "toTaskReference display x =
     (let d = (case ru_failure x of None \<Rightarrow> None | Some f \<Rightarrow> fi_disposition f) in
      \<lparr>tk_id = ru_id x, tk_agent = ru_agent x, tk_desc = ru_desc x, tk_status = ru_status x, tk_error = display x,
       tk_class = (case ru_failure x of None \<Rightarrow> FailureOther [] | Some f \<Rightarrow> fi_class f),
       tk_disposition = d, tk_next = (case ru_failure x of None \<Rightarrow> [] | Some f \<Rightarrow> RecoveryNextAction d)\<rparr>)"

definition toTaskReferences :: "(('c, 'r, 'p) run_item \<Rightarrow> string) \<Rightarrow> ('c, 'r, 'p) run_item list \<Rightarrow> task_reference list" where
  "toTaskReferences display items = map (toTaskReference display) items"

definition isUnresolvedTaskStatus :: "task_status \<Rightarrow> bool" where
  "isUnresolvedTaskStatus s \<longleftrightarrow>
     s \<in> {TaskPending, TaskPlanned, TaskInProgress, TaskPaused, TaskVerifying, TaskProtocolIncomplete, TaskError, TaskBlocked}"

definition written_off :: "('c, 'r) resolution_env \<Rightarrow> ('c, 'r, 'p) run_item list \<Rightarrow> ('c, 'r, 'p) run_item \<Rightarrow> bool" where
  "written_off env items x \<longleftrightarrow> verified_resolver env x items (resolutionRunID items x) \<noteq> None"

definition UnresolvedTaskReferences ::
  "('c, 'r) resolution_env \<Rightarrow> (('c, 'r, 'p) run_item \<Rightarrow> string) \<Rightarrow> ('c, 'r, 'p) run_item list \<Rightarrow> task_reference list" where
  "UnresolvedTaskReferences env display items =
     toTaskReferences display
       (filter (\<lambda>x. \<not> (ru_primary x \<or> \<not> isUnresolvedTaskStatus (ru_status x)) \<and> \<not> written_off env items x) items)"

definition failedTodoItems ::
  "('c, 'r) resolution_env \<Rightarrow> ('c, 'r, 'p) run_item list \<Rightarrow> ('c, 'r, 'p) run_item list" where
  "failedTodoItems env items =
     filter (\<lambda>x. \<not> ru_primary x \<and> ru_status x \<in> {TaskError, TaskBlocked, TaskProtocolIncomplete} \<and>
                 \<not> written_off env items x) items"

definition pendingTodoItems ::
  "('c, 'r) resolution_env \<Rightarrow> ('c, 'r, 'p) run_item list \<Rightarrow> ('c, 'r, 'p) run_item list" where
  "pendingTodoItems env items =
     filter (\<lambda>x. \<not> ru_primary x \<and>
                 ru_status x \<in> {TaskPending, TaskInProgress, TaskPlanned, TaskVerifying, TaskPaused, TaskProtocolIncomplete} \<and>
                 \<not> written_off env items x) items"

text \<open>What \<open>finish\<close> reports as unresolved: the failed items and then the pending ones.\<close>

definition unresolved_at_finish ::
  "('c, 'r) resolution_env \<Rightarrow> (('c, 'r, 'p) run_item \<Rightarrow> string) \<Rightarrow> ('c, 'r, 'p) run_item list \<Rightarrow> task_reference list" where
  "unresolved_at_finish env display items =
     toTaskReferences display (failedTodoItems env items @ pendingTodoItems env items)"

section \<open>Statistics\<close>

text \<open>Counts of items stay below \<open>2^63\<close>; sums of attempts wrap.\<close>

record run_stats =
  rst_total :: int
  rst_done :: int
  rst_unresolved :: int
  rst_attempts :: int
  rst_attempts_failed :: int
  rst_occurrences :: int
  rst_generations :: int

definition zero_stats :: run_stats where
  "zero_stats = \<lparr>rst_total = 0, rst_done = 0, rst_unresolved = 0, rst_attempts = 0, rst_attempts_failed = 0,
     rst_occurrences = 0, rst_generations = 0\<rparr>"

definition IsZero :: "run_stats \<Rightarrow> bool" where
  "IsZero s \<longleftrightarrow> rst_total s = 0 \<and> rst_done s = 0 \<and> rst_unresolved s = 0 \<and> rst_attempts s = 0 \<and>
     rst_attempts_failed s = 0 \<and> rst_occurrences s = 0 \<and> rst_generations s = 0"

definition count_status ::
  "('c, 'r) resolution_env \<Rightarrow> ('c, 'r, 'p) run_item list \<Rightarrow> ('c, 'r, 'p) run_item \<Rightarrow> run_stats \<Rightarrow> run_stats" where
  "count_status env items x s =
     (case ru_status x of
        TaskDone \<Rightarrow> s\<lparr>rst_done := rst_done s + 1\<rparr>
      | TaskError \<Rightarrow>
          (if written_off env items x then s
           else s\<lparr>rst_unresolved := rst_unresolved s + 1, rst_attempts_failed := i64 (rst_attempts_failed s + 1)\<rparr>)
      | TaskBlocked \<Rightarrow>
          (if written_off env items x then s
           else s\<lparr>rst_unresolved := rst_unresolved s + 1, rst_attempts_failed := i64 (rst_attempts_failed s + 1)\<rparr>)
      | TaskSkipped \<Rightarrow> s
      | TaskOther _ \<Rightarrow> s
      | _ \<Rightarrow> s\<lparr>rst_unresolved := rst_unresolved s + 1\<rparr>)"

definition count_item ::
  "('c, 'r) resolution_env \<Rightarrow> ('c, 'r, 'p) run_item list \<Rightarrow> ('c, 'r, 'p) run_item \<Rightarrow> run_stats \<Rightarrow> run_stats" where
  "count_item env items x s =
     (if ru_primary x then s\<lparr>rst_occurrences := rst_occurrences s + 1, rst_generations := rst_generations s + 1\<rparr>
      else count_status env items x
        (s\<lparr>rst_total := rst_total s + 1,
           rst_attempts := i64 (rst_attempts s + i64 (1 + ti_retries (ru_task x))),
           rst_attempts_failed := i64 (rst_attempts_failed s + ti_retries (ru_task x))\<rparr>))"

definition SummarizeRunStats ::
  "('c, 'r) resolution_env \<Rightarrow> ('c, 'r, 'p) run_item list \<Rightarrow> run_stats" where
  "SummarizeRunStats env items = fold (count_item env items) items zero_stats"

section \<open>Statistics and references agree\<close>

definition counted :: "('c, 'r) resolution_env \<Rightarrow> ('c, 'r, 'p) run_item list \<Rightarrow> ('c, 'r, 'p) run_item \<Rightarrow> bool" where
  "counted env items x \<longleftrightarrow> \<not> ru_primary x \<and> isUnresolvedTaskStatus (ru_status x) \<and>
     (ru_status x \<in> {TaskError, TaskBlocked} \<longrightarrow> \<not> written_off env items x)"

lemma tally_fields:
  "rst_unresolved (count_item env items x s) = rst_unresolved s + (if counted env items x then 1 else 0)"
  "rst_done (count_item env items x s) = rst_done s + (if \<not> ru_primary x \<and> ru_status x = TaskDone then 1 else 0)"
  "rst_total (count_item env items x s) = rst_total s + (if \<not> ru_primary x then 1 else 0)"
  by (cases "ru_status x"; simp add: count_item_def count_status_def counted_def isUnresolvedTaskStatus_def)+

lemma counts:
  "rst_unresolved (fold (count_item env items) xs s) = rst_unresolved s + int (length (filter (counted env items) xs))"
  "rst_done (fold (count_item env items) xs s) =
     rst_done s + int (length (filter (\<lambda>x. \<not> ru_primary x \<and> ru_status x = TaskDone) xs))"
  "rst_total (fold (count_item env items) xs s) = rst_total s + int (length (filter (\<lambda>x. \<not> ru_primary x) xs))"
  by (induction xs arbitrary: s) (simp_all add: tally_fields)

lemma only_failures_written_off:
  assumes "distinct (map ru_id items)" "x \<in> set items" "written_off env items x"
  shows "ru_status x \<in> {TaskError, TaskBlocked}"
proof -
  have "find (\<lambda>z. ru_id z = ru_id x) items = Some x"
    using assms(1,2) by (induction items) auto
  with assms(3) show ?thesis using verified_resolver_facts(5) by (fastforce simp: written_off_def)
qed

lemma unresolved_counted:
  assumes "distinct (map ru_id items)"
  shows "filter (\<lambda>x. \<not> (ru_primary x \<or> \<not> isUnresolvedTaskStatus (ru_status x)) \<and> \<not> written_off env items x) items =
    filter (counted env items) items"
  using only_failures_written_off [OF assms] by (intro filter_cong) (auto simp: counted_def)

definition incomplete :: "('c, 'r, 'p) run_item \<Rightarrow> bool" where
  "incomplete x \<longleftrightarrow> \<not> ru_primary x \<and> ru_status x = TaskProtocolIncomplete"

lemma failed_and_pending:
  "length (filter P xs) + length (filter Q xs) = length (filter (\<lambda>x. P x \<or> Q x) xs) + length (filter (\<lambda>x. P x \<and> Q x) xs)"
  by (induction xs) auto

lemma finish_parts:
  assumes "distinct (map ru_id items)"
  shows "set (failedTodoItems env items @ pendingTodoItems env items) = set (filter (counted env items) items)"
    and "length (failedTodoItems env items @ pendingTodoItems env items) =
      length (filter (counted env items) items) + length (filter incomplete items)"
proof -
  note w = only_failures_written_off [OF assms]
  show "set (failedTodoItems env items @ pendingTodoItems env items) = set (filter (counted env items) items)"
    using w by (auto simp: failedTodoItems_def pendingTodoItems_def counted_def isUnresolvedTaskStatus_def)
  let ?P = "\<lambda>x. \<not> ru_primary x \<and> ru_status x \<in> {TaskError, TaskBlocked, TaskProtocolIncomplete} \<and> \<not> written_off env items x"
  let ?Q = "\<lambda>x. \<not> ru_primary x \<and>
      ru_status x \<in> {TaskPending, TaskInProgress, TaskPlanned, TaskVerifying, TaskPaused, TaskProtocolIncomplete} \<and>
      \<not> written_off env items x"
  have "filter (\<lambda>x. ?P x \<or> ?Q x) items = filter (counted env items) items"
    using w by (intro filter_cong) (auto simp: counted_def isUnresolvedTaskStatus_def)
  moreover have "filter (\<lambda>x. ?P x \<and> ?Q x) items = filter incomplete items"
    by (intro filter_cong) (auto simp: incomplete_def dest: w)
  ultimately show "length (failedTodoItems env items @ pendingTodoItems env items) =
      length (filter (counted env items) items) + length (filter incomplete items)"
    using failed_and_pending [of ?P items ?Q] by (simp add: failedTodoItems_def pendingTodoItems_def)
qed

text \<open>
  The statistics of a run and its list of unresolved tasks agree: with distinct ids, \<open>TasksUnresolved\<close> is the number of
  references \<open>UnresolvedTaskReferences\<close> returns and no task is both done and unresolved. The list \<open>finish\<close> builds
  names the same tasks, but lists every task left in \<open>protocol_incomplete\<close> twice.
\<close>

theorem unresolved_accounted:
  assumes "distinct (map ru_id items)"
  shows "rst_unresolved (SummarizeRunStats env items) = int (length (UnresolvedTaskReferences env display items)) \<and>
    rst_done (SummarizeRunStats env items) + rst_unresolved (SummarizeRunStats env items) \<le>
      rst_total (SummarizeRunStats env items) \<and>
    set (unresolved_at_finish env display items) = set (UnresolvedTaskReferences env display items) \<and>
    length (unresolved_at_finish env display items) =
      length (UnresolvedTaskReferences env display items) +
      length (filter (\<lambda>x. \<not> ru_primary x \<and> ru_status x = TaskProtocolIncomplete) items)"
proof -
  have u: "UnresolvedTaskReferences env display items = toTaskReferences display (filter (counted env items) items)"
    unfolding UnresolvedTaskReferences_def unresolved_counted [OF assms] ..
  have "length (filter (\<lambda>x. \<not> ru_primary x \<and> ru_status x = TaskDone) xs) + length (filter (counted env items) xs)
      \<le> length (filter (\<lambda>x. \<not> ru_primary x) xs)" for xs
    by (induction xs) (auto simp: counted_def isUnresolvedTaskStatus_def)
  from this [of items] have "rst_done (SummarizeRunStats env items) + rst_unresolved (SummarizeRunStats env items) \<le>
      rst_total (SummarizeRunStats env items)"
    by (simp add: SummarizeRunStats_def counts zero_stats_def)
  moreover have "rst_unresolved (SummarizeRunStats env items) = int (length (UnresolvedTaskReferences env display items))"
    by (simp add: SummarizeRunStats_def counts zero_stats_def u toTaskReferences_def)
  moreover have "set (unresolved_at_finish env display items) = set (UnresolvedTaskReferences env display items)"
    using arg_cong [OF finish_parts(1) [OF assms, of env], of "image (toTaskReference display)"]
    by (simp only: u unresolved_at_finish_def toTaskReferences_def set_map)
  moreover have "length (unresolved_at_finish env display items) =
      length (UnresolvedTaskReferences env display items) + length (filter incomplete items)"
    using finish_parts(2) [OF assms, of env] by (simp only: u unresolved_at_finish_def toTaskReferences_def length_map)
  ultimately show ?thesis by (simp only: incomplete_def [abs_def])
qed

definition plain_env :: "(unit, string) resolution_env" where
  "plain_env = \<lparr>re_mac = (\<lambda>_ s. s), re_system = None, re_require = (\<lambda>_ _ _. True)\<rparr>"

definition plain_item :: "nat \<Rightarrow> task_status \<Rightarrow> (unit, string, unit) run_item" where
  "plain_item n st =
     \<lparr>ru_task = demo_item\<lparr>ti_id := dec n, ti_status := st\<rparr>, ru_agent = ''writer'', ru_desc = [], ru_primary = False,
      ru_failure = None, ru_receipts = [], ru_receipt = None, ru_snapshot = [], ru_snapshot_hash = [],
      ru_action_hash = [], ru_bound = [], ru_outputs_hash = [], ru_artifacts = [], ru_proof = None\<rparr>"

lemma plain_item_fields [simp]:
  "ru_task (plain_item n st) = demo_item\<lparr>ti_id := dec n, ti_status := st\<rparr>" "ru_primary (plain_item n st) = False"
  by (simp_all add: plain_item_def)

theorem unresolved_accounted_witness:
  "let items = [plain_item 1 TaskProtocolIncomplete, plain_item 2 TaskDone] in
   rst_unresolved (SummarizeRunStats plain_env items) = 1 \<and>
   length (unresolved_at_finish plain_env (\<lambda>_. []) items) = 2"
proof -
  let ?items = "[plain_item 1 TaskProtocolIncomplete, plain_item 2 TaskDone]"
  have d: "distinct (map ru_id ?items)" by (simp add: dec_inj)
  have "rst_unresolved (SummarizeRunStats plain_env ?items) = 1"
    by (simp add: SummarizeRunStats_def tally_fields zero_stats_def counted_def isUnresolvedTaskStatus_def)
  with unresolved_accounted [OF d, of plain_env "\<lambda>_. []"] show ?thesis by (simp add: Let_def)
qed

end
