(* ===== verification/Run_Outcome.thy ===== *)
theory Run_Outcome
  imports Run_Items
begin

text \<open>
  The outcome of a run, \<open>internal/team/run_result.go\<close>: the sole policy that derives an outcome, a stop reason, an exit
  code and goal satisfaction from observed run state (\<open>EvaluateRunOutcome\<close>), and the fold of several teams'
  results into one (\<open>AggregateRunResults\<close>). Goal modes are the strings of the configuration; of the run metrics only
  the counters the aggregation folds are kept; a workset group is its id with a state the code does not look into.
  Acceptance results carry whether an attached request acceptance passes its own \<open>Validate\<close>. The bounding and redaction
  of one warning (\<open>boundedRunWarning\<close>) is an argument.
\<close>

section \<open>Data\<close>

datatype run_outcome =
    RunOutcomeCompleted | RunOutcomeUnverified | RunOutcomePartial | RunOutcomeBlocked | RunOutcomeFailed
  | RunOutcomeCancelled | RunOutcomeStalled | RunOutcomeOther string

datatype stop_reason =
    StopReasonCompleted | StopReasonAcceptanceFailed | StopReasonAcceptanceNotSet | StopReasonUnresolvedTasks
  | StopReasonExternalBlockage | StopReasonPolicyViolation | StopReasonBudgetExceeded
  | StopReasonCoordinatorInterrupted | StopReasonCancelled | StopReasonRunFailed | StopReasonEvidenceIncomplete
  | StopReasonInvocationStalled | StopReasonOther string

datatype acceptance_state =
    AcceptanceNotConfigured | AcceptancePassed | AcceptanceFailed | AcceptanceUnset | AcceptanceOther string

record acceptance_result =
  ac_request :: "bool option"
  ac_state :: acceptance_state
  ac_passed :: bool
  ac_errors :: "string list"

text \<open>The state read from a possibly older or malformed result, and success derived from it alone.\<close>

definition EffectiveState :: "acceptance_result \<Rightarrow> acceptance_state" where
  "EffectiveState r =
     (if ac_request r = Some False then AcceptanceFailed
      else if ac_state r \<noteq> AcceptanceUnset then
        (if ac_state r \<in> {AcceptanceNotConfigured, AcceptancePassed, AcceptanceFailed} then ac_state r
         else AcceptanceFailed)
      else if ac_passed r then AcceptancePassed else AcceptanceFailed)"

definition IsPassed :: "acceptance_result \<Rightarrow> bool" where
  "IsPassed r \<longleftrightarrow> EffectiveState r = AcceptancePassed"

record context_telemetry =
  ct_events :: int
  ct_admitted :: int
  ct_cannot_fit :: int
  ct_commits :: int
  ct_downshifts :: int
  ct_exhaustions :: int
  ct_decision :: string
  ct_model :: string
  ct_requested :: int
  ct_available :: int
  ct_compactions :: int
  ct_digest :: string

record run_metrics =
  rm_context :: context_telemetry
  rm_inputs :: int
  rm_actions :: int
  rm_passed :: int
  rm_failed :: int

definition zero_context :: context_telemetry where
  "zero_context = \<lparr>ct_events = 0, ct_admitted = 0, ct_cannot_fit = 0, ct_commits = 0, ct_downshifts = 0,
     ct_exhaustions = 0, ct_decision = [], ct_model = [], ct_requested = 0, ct_available = 0, ct_compactions = 0,
     ct_digest = []\<rparr>"

definition zero_metrics :: run_metrics where
  "zero_metrics = \<lparr>rm_context = zero_context, rm_inputs = 0, rm_actions = 0, rm_passed = 0, rm_failed = 0\<rparr>"

record 'w run_result =
  rr_run :: string
  rr_outcome :: run_outcome
  rr_satisfied :: bool
  rr_mode :: string
  rr_response :: string
  rr_reason :: string
  rr_warnings :: "string list"
  rr_stop :: stop_reason
  rr_exit :: int
  rr_acceptance :: "acceptance_result option"
  rr_worksets :: "(string \<times> 'w) list"
  rr_unresolved :: "task_reference list"
  rr_stats :: run_stats
  rr_metrics :: run_metrics
  rr_review :: bool
  rr_findings :: bool
  rr_fixed :: bool
  rr_advisory :: bool

section \<open>Evaluation\<close>

record evaluation_input =
  vi_unresolved :: "task_reference list"
  vi_acceptance :: acceptance_state
  vi_cancelled :: bool
  vi_stalled :: bool
  vi_budget :: bool
  vi_interrupted :: bool
  vi_failed :: bool
  vi_exit :: int
  vi_response :: string
  vi_reason :: string
  vi_stats :: run_stats
  vi_metrics :: run_metrics
  vi_mode :: string

definition IsValidGoalMode :: "string \<Rightarrow> bool" where
  "IsValidGoalMode m \<longleftrightarrow> m = ''outcome'' \<or> m = ''exploratory''"

definition normal_acceptance :: "acceptance_state \<Rightarrow> acceptance_state" where
  "normal_acceptance a =
     (if a = AcceptanceUnset then AcceptanceNotConfigured
      else if a \<noteq> AcceptanceNotConfigured \<and> a \<noteq> AcceptancePassed \<and> a \<noteq> AcceptanceFailed then AcceptanceFailed
      else a)"

text \<open>The scan of the unresolved tasks for the first one that is blocked or in error.\<close>

fun blocking_task :: "task_reference list \<Rightarrow> (run_outcome \<times> stop_reason) option" where
  "blocking_task [] = None"
| "blocking_task (t # ts) =
     (if tk_status t = TaskBlocked then
        Some (RunOutcomeBlocked,
          if tk_class t = FailurePolicy \<or> tk_class t = FailureContract \<or> tk_class t = FailureProtocol
          then StopReasonPolicyViolation else StopReasonExternalBlockage)
      else if tk_status t = TaskError then Some (RunOutcomePartial, StopReasonUnresolvedTasks)
      else blocking_task ts)"

definition evaluated :: "evaluation_input \<Rightarrow> run_outcome \<times> stop_reason \<times> int \<times> bool" where
  "evaluated v =
     (if vi_stalled v then (RunOutcomeStalled, StopReasonInvocationStalled, 124, False)
      else if vi_cancelled v then
        (RunOutcomeCancelled, StopReasonCancelled, if vi_exit v = 0 then 130 else vi_exit v, False)
      else if vi_failed v then (RunOutcomeFailed, StopReasonRunFailed, if vi_exit v = 0 then 1 else vi_exit v, False)
      else if vi_budget v then (RunOutcomePartial, StopReasonBudgetExceeded, 7, False)
      else if vi_interrupted v then (RunOutcomePartial, StopReasonCoordinatorInterrupted, 7, False)
      else if list_ex (\<lambda>t. tk_class t = FailureCancelled) (vi_unresolved v)
        then (RunOutcomeCancelled, StopReasonCancelled, 130, False)
      else case blocking_task (vi_unresolved v) of
        Some (out, stop) \<Rightarrow> (out, stop, 7, False)
      | None \<Rightarrow>
          if vi_unresolved v \<noteq> [] then (RunOutcomePartial, StopReasonUnresolvedTasks, 7, False)
          else if normal_acceptance (vi_acceptance v) = AcceptanceFailed
            then (RunOutcomePartial, StopReasonAcceptanceFailed, 7, False)
          else if normal_acceptance (vi_acceptance v) = AcceptanceNotConfigured
            then (RunOutcomeUnverified, StopReasonAcceptanceNotSet, 7, False)
          else (RunOutcomeCompleted, StopReasonCompleted, 0, True))"

definition EvaluateRunOutcome :: "evaluation_input \<Rightarrow> 'w run_result" where
  "EvaluateRunOutcome v =
     (let a = normal_acceptance (vi_acceptance v); (out, stop, code, satisfied) = evaluated v in
      \<lparr>rr_run = [], rr_outcome = out, rr_satisfied = satisfied,
       rr_mode = (if IsValidGoalMode (vi_mode v) then vi_mode v else ''outcome''),
       rr_response = vi_response v, rr_reason = vi_reason v, rr_warnings = [], rr_stop = stop, rr_exit = code,
       rr_acceptance = Some \<lparr>ac_request = None, ac_state = a, ac_passed = (a = AcceptancePassed), ac_errors = []\<rparr>,
       rr_worksets = [], rr_unresolved = vi_unresolved v, rr_stats = vi_stats v, rr_metrics = vi_metrics v,
       rr_review = False, rr_findings = False, rr_fixed = False, rr_advisory = False\<rparr>)"

text \<open>The status line shown for a result, and the exit code of the process.\<close>

definition FormatCanonicalStatus :: "('w run_result \<Rightarrow> string) \<Rightarrow> 'w run_result option \<Rightarrow> string" where
  "FormatCanonicalStatus other res =
     (case res of None \<Rightarrow> ''All tasks completed''
      | Some r \<Rightarrow>
          if rr_satisfied r then
            (if rr_fixed r then ''Execution fixed and objectively verified'' else ''Execution completed successfully'')
          else (case rr_outcome r of
              RunOutcomeCompleted \<Rightarrow>
                (if rr_review r then
                   (if rr_findings r then ''Review completed; findings remain'' else ''Review completed; findings unverified'')
                 else ''Execution completed; goal unverified'')
            | RunOutcomeUnverified \<Rightarrow> ''Execution completed; goal unverified (no acceptance configured)''
            | RunOutcomeBlocked \<Rightarrow> ''Execution blocked''
            | RunOutcomeCancelled \<Rightarrow> ''Execution cancelled''
            | RunOutcomeStalled \<Rightarrow> ''Execution stalled''
            | RunOutcomeFailed \<Rightarrow> ''Execution failed''
            | RunOutcomePartial \<Rightarrow>
                (if rr_stop r = StopReasonBudgetExceeded then ''Budget exhausted''
                 else if rr_stop r = StopReasonAcceptanceFailed then ''Acceptance check failed''
                 else ''Execution incomplete'')
            | RunOutcomeOther _ \<Rightarrow> other r))"

definition ProcessExitCode :: "'w run_result option \<Rightarrow> int" where
  "ProcessExitCode result =
     (case result of None \<Rightarrow> 1 | Some r \<Rightarrow> if rr_exit r \<noteq> 0 then rr_exit r else 1)"

section \<open>Aggregation\<close>

definition maxRunWarnings :: nat where "maxRunWarnings = 8"

fun bound_warnings :: "(string \<Rightarrow> string) \<Rightarrow> string list \<Rightarrow> string list \<Rightarrow> string list" where
  "bound_warnings bounded kept [] = kept"
| "bound_warnings bounded kept (w # ws) =
     (let b = bounded w in
      if b \<noteq> [] \<and> b \<notin> set kept then
        (if length kept + 1 = maxRunWarnings then kept @ [b] else bound_warnings bounded (kept @ [b]) ws)
      else bound_warnings bounded kept ws)"

definition normalizeRunWarnings :: "(string \<Rightarrow> string) \<Rightarrow> string list \<Rightarrow> string list" where
  "normalizeRunWarnings bounded ws = bound_warnings bounded [] ws"

definition add_stats :: "run_stats \<Rightarrow> run_stats \<Rightarrow> run_stats" where
  "add_stats a b =
     \<lparr>rst_total = i64 (rst_total a + rst_total b), rst_done = i64 (rst_done a + rst_done b),
      rst_unresolved = i64 (rst_unresolved a + rst_unresolved b), rst_attempts = i64 (rst_attempts a + rst_attempts b),
      rst_attempts_failed = i64 (rst_attempts_failed a + rst_attempts_failed b),
      rst_occurrences = i64 (rst_occurrences a + rst_occurrences b),
      rst_generations = i64 (rst_generations a + rst_generations b)\<rparr>"

definition mergeContextWindowTelemetrySummary :: "context_telemetry \<Rightarrow> context_telemetry \<Rightarrow> context_telemetry" where
  "mergeContextWindowTelemetrySummary d s =
     (let d = d\<lparr>ct_events := i64 (ct_events d + ct_events s), ct_admitted := i64 (ct_admitted d + ct_admitted s),
                ct_cannot_fit := i64 (ct_cannot_fit d + ct_cannot_fit s), ct_commits := i64 (ct_commits d + ct_commits s),
                ct_downshifts := i64 (ct_downshifts d + ct_downshifts s),
                ct_exhaustions := i64 (ct_exhaustions d + ct_exhaustions s)\<rparr> in
      if ct_decision s \<noteq> [] then
        d\<lparr>ct_decision := ct_decision s, ct_model := ct_model s, ct_requested := ct_requested s,
          ct_available := ct_available s, ct_compactions := ct_compactions s, ct_digest := ct_digest s\<rparr>
      else d)"

definition mergeWorksetStates :: "(string \<times> 'w) list \<Rightarrow> (string \<times> 'w) list \<Rightarrow> (string \<times> 'w) list" where
  "mergeWorksetStates dst states = fold (\<lambda>(i, w) d. AList.update i w d) states dst"

text \<open>The variables of the loop over the results.\<close>

record 'w folding =
  fo_input :: evaluation_input
  fo_partial :: bool
  fo_blocked :: bool
  fo_stats :: run_stats
  fo_failed_exit :: int
  fo_cancelled_exit :: int
  fo_review :: bool
  fo_findings :: bool
  fo_advisory :: bool
  fo_context :: context_telemetry
  fo_worksets :: "(string \<times> 'w) list"
  fo_warnings :: "string list"

definition fold_acceptance :: "acceptance_result option \<Rightarrow> acceptance_state \<Rightarrow> acceptance_state" where
  "fold_acceptance r a =
     (case r of None \<Rightarrow> a
      | Some x \<Rightarrow>
          (case EffectiveState x of
             AcceptanceFailed \<Rightarrow> AcceptanceFailed
           | AcceptancePassed \<Rightarrow> if a \<noteq> AcceptanceFailed then AcceptancePassed else a
           | AcceptanceNotConfigured \<Rightarrow> if a = AcceptanceUnset then AcceptanceNotConfigured else a
           | _ \<Rightarrow> AcceptanceFailed))"

definition fold_input :: "'w run_result \<Rightarrow> evaluation_input \<Rightarrow> evaluation_input" where
  "fold_input r v =
     v\<lparr>vi_mode := (if rr_mode r = ''outcome'' then ''outcome''
                   else if vi_mode v = [] \<and> rr_mode r \<noteq> [] then rr_mode r else vi_mode v),
       vi_response := (if vi_response v = [] then rr_response r else vi_response v),
       vi_reason := (if vi_reason v = [] then rr_reason r else vi_reason v),
       vi_unresolved := vi_unresolved v @ rr_unresolved r,
       vi_budget := vi_budget v \<or> rr_stop r = StopReasonBudgetExceeded,
       vi_metrics := (vi_metrics v)\<lparr>rm_inputs := i64 (rm_inputs (vi_metrics v) + rm_inputs (rr_metrics r)),
                        rm_actions := i64 (rm_actions (vi_metrics v) + rm_actions (rr_metrics r)),
                        rm_passed := i64 (rm_passed (vi_metrics v) + rm_passed (rr_metrics r)),
                        rm_failed := i64 (rm_failed (vi_metrics v) + rm_failed (rr_metrics r))\<rparr>,
       vi_acceptance := fold_acceptance (rr_acceptance r) (vi_acceptance v),
       vi_cancelled := vi_cancelled v \<or> rr_outcome r = RunOutcomeCancelled,
       vi_stalled := vi_stalled v \<or> rr_outcome r = RunOutcomeStalled,
       vi_failed := vi_failed v \<or> rr_outcome r = RunOutcomeFailed\<rparr>"

definition fold_result :: "(string \<Rightarrow> string) \<Rightarrow> 'w run_result \<Rightarrow> 'w folding \<Rightarrow> 'w folding" where
  "fold_result bounded r f =
     f\<lparr>fo_input := fold_input r (fo_input f),
       fo_partial := fo_partial f \<or> rr_outcome r = RunOutcomePartial,
       fo_blocked := fo_blocked f \<or> rr_outcome r = RunOutcomeBlocked,
       fo_stats := add_stats (fo_stats f) (rr_stats r),
       fo_failed_exit := (if rr_outcome r = RunOutcomeFailed \<and> fo_failed_exit f < rr_exit r then rr_exit r
                          else fo_failed_exit f),
       fo_cancelled_exit := (if rr_outcome r = RunOutcomeCancelled \<and> fo_cancelled_exit f < rr_exit r then rr_exit r
                             else fo_cancelled_exit f),
       fo_review := fo_review f \<or> rr_review r,
       fo_findings := fo_findings f \<or> rr_findings r,
       fo_advisory := fo_advisory f \<or> rr_advisory r,
       fo_context := mergeContextWindowTelemetrySummary (fo_context f) (rm_context (rr_metrics r)),
       fo_worksets := mergeWorksetStates (fo_worksets f) (rr_worksets r),
       fo_warnings := normalizeRunWarnings bounded (fo_warnings f @ rr_warnings r)\<rparr>"

definition initial_input :: "task_reference list \<Rightarrow> run_stats \<Rightarrow> evaluation_input" where
  "initial_input unresolved stats =
     \<lparr>vi_unresolved = unresolved, vi_acceptance = AcceptanceUnset, vi_cancelled = False, vi_stalled = False,
      vi_budget = False, vi_interrupted = False, vi_failed = False, vi_exit = 0, vi_response = [], vi_reason = [],
      vi_stats = stats, vi_metrics = zero_metrics, vi_mode = []\<rparr>"

definition initial_folding :: "task_reference list \<Rightarrow> run_stats \<Rightarrow> 'w folding" where
  "initial_folding unresolved stats =
     \<lparr>fo_input = initial_input unresolved stats, fo_partial = False, fo_blocked = False, fo_stats = zero_stats,
      fo_failed_exit = 0, fo_cancelled_exit = 0, fo_review = False, fo_findings = False, fo_advisory = False,
      fo_context = zero_context, fo_worksets = [], fo_warnings = []\<rparr>"

definition placeholder :: "string \<Rightarrow> task_status \<Rightarrow> task_reference" where
  "placeholder i st = \<lparr>tk_id = i, tk_agent = [], tk_desc = [], tk_status = st, tk_error = [],
     tk_class = FailureOther [], tk_disposition = None, tk_next = []\<rparr>"

text \<open>What the aggregation settles after the loop: statistics, exit code and the fail-closed placeholders.\<close>

definition close_input :: "'w folding \<Rightarrow> evaluation_input" where
  "close_input f =
     (let v = fo_input f;
          stats = (if IsZero (vi_stats v) then fo_stats f else vi_stats v);
          code = (if vi_cancelled v then fo_cancelled_exit f else if vi_failed v then fo_failed_exit f else vi_exit v);
          open = (if fo_blocked f \<and> vi_unresolved v = [] then [placeholder ''<blocked-run>'' TaskBlocked]
                  else if fo_partial f \<and> vi_unresolved v = [] \<and> 0 < rst_unresolved stats
                    then [placeholder ''<unresolved-run>'' TaskPending]
                  else vi_unresolved v) in
      v\<lparr>vi_stats := stats, vi_exit := code, vi_unresolved := open,
        vi_budget := vi_budget v \<or> fo_partial f \<and> open = [] \<and> vi_acceptance v \<noteq> AcceptanceFailed,
        vi_metrics := (vi_metrics v)\<lparr>rm_context := fo_context f\<rparr>\<rparr>)"

definition aggregateFixedAndVerified :: "'w run_result option list \<Rightarrow> bool \<Rightarrow> bool \<Rightarrow> bool" where
  "aggregateFixedAndVerified results satisfied findings \<longleftrightarrow>
     \<not> (results = [] \<or> \<not> satisfied \<or> findings) \<and>
     list_all (\<lambda>r. case r of None \<Rightarrow> False | Some x \<Rightarrow> rr_fixed x) results"

definition AggregateRunResults ::
  "(string \<Rightarrow> string) \<Rightarrow> 'w run_result option list \<Rightarrow> task_reference list \<Rightarrow> run_stats \<Rightarrow> 'w run_result" where
  "AggregateRunResults bounded results unresolved stats =
     (let f = fold (fold_result bounded) (List.map_filter (\<lambda>r. r) results) (initial_folding unresolved stats);
          r = EvaluateRunOutcome (close_input f) in
      r\<lparr>rr_review := fo_review f, rr_findings := fo_findings f, rr_advisory := fo_advisory f,
        rr_worksets := sort_key fst (fo_worksets f),
        rr_fixed := aggregateFixedAndVerified results (rr_satisfied r) (fo_findings f),
        rr_warnings := fo_warnings f\<rparr>)"

section \<open>When a run counts as completed\<close>

lemma normal_acceptance_cases:
  "normal_acceptance a \<in> {AcceptanceNotConfigured, AcceptancePassed, AcceptanceFailed}"
  "normal_acceptance a = AcceptancePassed \<longleftrightarrow> a = AcceptancePassed"
  by (cases a; simp add: normal_acceptance_def)+

lemma blocking_outcome: "blocking_task ts = Some (out, stop) \<Longrightarrow> ts \<noteq> [] \<and> out \<in> {RunOutcomeBlocked, RunOutcomePartial}"
  by (induction ts) (auto split: if_splits)

definition clean_input :: "evaluation_input \<Rightarrow> bool" where
  "clean_input v \<longleftrightarrow> \<not> vi_stalled v \<and> \<not> vi_cancelled v \<and> \<not> vi_failed v \<and> \<not> vi_budget v \<and> \<not> vi_interrupted v \<and>
     vi_unresolved v = [] \<and> vi_acceptance v = AcceptancePassed"

lemma evaluated_clean: "clean_input v \<Longrightarrow> evaluated v = (RunOutcomeCompleted, StopReasonCompleted, 0, True)"
  by (simp add: clean_input_def evaluated_def normal_acceptance_def)

lemma evaluated_unclean:
  assumes "\<not> clean_input v" "evaluated v = (out, stop, code, satisfied)"
  shows "out \<noteq> RunOutcomeCompleted \<and> code \<noteq> 0 \<and> \<not> satisfied"
  using assms normal_acceptance_cases [of "vi_acceptance v"] blocking_outcome [of "vi_unresolved v"]
  by (fastforce simp: clean_input_def evaluated_def split: if_splits option.splits prod.splits)

lemma evaluation_fields:
  "rr_outcome (EvaluateRunOutcome v) = fst (evaluated v)"
  "rr_stop (EvaluateRunOutcome v) = fst (snd (evaluated v))"
  "rr_exit (EvaluateRunOutcome v) = fst (snd (snd (evaluated v)))"
  "rr_satisfied (EvaluateRunOutcome v) = snd (snd (snd (evaluated v)))"
  by (simp_all add: EvaluateRunOutcome_def Let_def split: prod.split)

lemma completed_iff_clean:
  "rr_outcome (EvaluateRunOutcome v) = RunOutcomeCompleted \<longleftrightarrow> clean_input v"
  "rr_exit (EvaluateRunOutcome v) = 0 \<longleftrightarrow> clean_input v"
  "rr_satisfied (EvaluateRunOutcome v) \<longleftrightarrow> clean_input v"
  using evaluated_clean [of v] evaluated_unclean [of v]
  by (cases "evaluated v"; auto simp: evaluation_fields)+

text \<open>
  C33. Success is one thing. For every observed run state, exit code 0, the outcome \<open>completed\<close> and goal satisfaction
  coincide, and they hold exactly when the run was not stalled, cancelled, failed, out of budget or interrupted, left no
  task unresolved, and its acceptance gate was configured and passed. A malformed acceptance state never counts.
\<close>

theorem completed_exactly:
  "let r = EvaluateRunOutcome v in
   (rr_exit r = 0 \<longleftrightarrow> rr_outcome r = RunOutcomeCompleted) \<and> (rr_satisfied r \<longleftrightarrow> rr_outcome r = RunOutcomeCompleted) \<and>
   (rr_outcome r = RunOutcomeCompleted \<longleftrightarrow>
      \<not> (vi_stalled v \<or> vi_cancelled v \<or> vi_failed v \<or> vi_budget v \<or> vi_interrupted v) \<and>
      vi_unresolved v = [] \<and> vi_acceptance v = AcceptancePassed)"
  unfolding Let_def completed_iff_clean by (auto simp: clean_input_def)

section \<open>When several teams together count as completed\<close>

lemma folded_flags:
  fixes f :: "'w folding"
  shows
  "vi_cancelled (fo_input (fold (fold_result b) xs f)) \<longleftrightarrow> vi_cancelled (fo_input f) \<or> (\<exists>r\<in>set xs. rr_outcome r = RunOutcomeCancelled)"
  "vi_stalled (fo_input (fold (fold_result b) xs f)) \<longleftrightarrow> vi_stalled (fo_input f) \<or> (\<exists>r\<in>set xs. rr_outcome r = RunOutcomeStalled)"
  "vi_failed (fo_input (fold (fold_result b) xs f)) \<longleftrightarrow> vi_failed (fo_input f) \<or> (\<exists>r\<in>set xs. rr_outcome r = RunOutcomeFailed)"
  "vi_budget (fo_input (fold (fold_result b) xs f)) \<longleftrightarrow> vi_budget (fo_input f) \<or> (\<exists>r\<in>set xs. rr_stop r = StopReasonBudgetExceeded)"
  "vi_interrupted (fo_input (fold (fold_result b) xs f)) \<longleftrightarrow> vi_interrupted (fo_input f)"
  "vi_unresolved (fo_input (fold (fold_result b) xs f)) = vi_unresolved (fo_input f) @ concat (map rr_unresolved xs)"
  "vi_acceptance (fo_input (fold (fold_result b) xs f)) =
     fold fold_acceptance (map rr_acceptance xs) (vi_acceptance (fo_input f))"
  "fo_partial (fold (fold_result b) xs f) \<longleftrightarrow> fo_partial f \<or> (\<exists>r\<in>set xs. rr_outcome r = RunOutcomePartial)"
  "fo_blocked (fold (fold_result b) xs f) \<longleftrightarrow> fo_blocked f \<or> (\<exists>r\<in>set xs. rr_outcome r = RunOutcomeBlocked)"
  by (induction xs arbitrary: f; auto simp: fold_result_def fold_input_def)+

definition passes :: "acceptance_result option \<Rightarrow> bool" where
  "passes a \<longleftrightarrow> (\<exists>x. a = Some x \<and> EffectiveState x = AcceptancePassed)"

definition fails :: "acceptance_result option \<Rightarrow> bool" where
  "fails a \<longleftrightarrow> (\<exists>x. a = Some x \<and> EffectiveState x = AcceptanceFailed)"

lemma effective_states: "EffectiveState x \<in> {AcceptanceNotConfigured, AcceptancePassed, AcceptanceFailed}"
  by (auto simp: EffectiveState_def)

lemma fold_acceptance_step:
  "fold_acceptance r a = AcceptanceFailed \<longleftrightarrow> fails r \<or> a = AcceptanceFailed"
  "fold_acceptance r a = AcceptancePassed \<longleftrightarrow> \<not> fails r \<and> a \<noteq> AcceptanceFailed \<and> (passes r \<or> a = AcceptancePassed)"
proof -
  have "fold_acceptance r a = (if fails r then AcceptanceFailed
     else if passes r then (if a \<noteq> AcceptanceFailed then AcceptancePassed else a)
     else if r = None then a else if a = AcceptanceUnset then AcceptanceNotConfigured else a)"
  proof (cases r)
    case (Some x)
    with effective_states [of x] show ?thesis by (auto simp: fold_acceptance_def fails_def passes_def)
  qed (simp add: fold_acceptance_def fails_def passes_def)
  moreover have "\<not> (fails r \<and> passes r)" by (auto simp: fails_def passes_def)
  ultimately show "fold_acceptance r a = AcceptanceFailed \<longleftrightarrow> fails r \<or> a = AcceptanceFailed"
    "fold_acceptance r a = AcceptancePassed \<longleftrightarrow> \<not> fails r \<and> a \<noteq> AcceptanceFailed \<and> (passes r \<or> a = AcceptancePassed)"
    by auto
qed

lemma folded_acceptance:
  "fold fold_acceptance rs a = AcceptanceFailed \<longleftrightarrow> a = AcceptanceFailed \<or> (\<exists>r\<in>set rs. fails r)"
  "fold fold_acceptance rs a = AcceptancePassed \<longleftrightarrow>
     a \<noteq> AcceptanceFailed \<and> (\<forall>r\<in>set rs. \<not> fails r) \<and> (a = AcceptancePassed \<or> (\<exists>r\<in>set rs. passes r))"
  by (induction rs arbitrary: a) (auto simp: fold_acceptance_step)

lemma close_input_clean:
  "clean_input (close_input f) \<longleftrightarrow> clean_input (fo_input f) \<and> \<not> fo_blocked f \<and> \<not> fo_partial f"
  by (auto simp: close_input_def clean_input_def Let_def split: if_splits)

lemma present_results: "set (List.map_filter (\<lambda>r. r) results) = {r. Some r \<in> set results}"
  by (force simp: List.map_filter_def)

text \<open>
  C34. A multi-team run counts as completed - exit code 0, goal satisfied - exactly when nothing was left
  unresolved by the caller or by any team, no team was stalled, cancelled, failed, blocked, partial or stopped by its budget, at
  least one team's acceptance gate passed and none failed; in particular the order of the results does not matter.
\<close>

theorem aggregate_completed_exactly:
  "let r = AggregateRunResults bounded results unresolved stats in
   (rr_exit r = 0 \<longleftrightarrow> rr_outcome r = RunOutcomeCompleted) \<and> (rr_satisfied r \<longleftrightarrow> rr_outcome r = RunOutcomeCompleted) \<and>
   (rr_outcome r = RunOutcomeCompleted \<longleftrightarrow>
      unresolved = [] \<and>
      (\<forall>x. Some x \<in> set results \<longrightarrow> rr_unresolved x = [] \<and> rr_stop x \<noteq> StopReasonBudgetExceeded \<and>
         rr_outcome x \<notin> {RunOutcomeStalled, RunOutcomeCancelled, RunOutcomeFailed, RunOutcomeBlocked, RunOutcomePartial} \<and>
         \<not> fails (rr_acceptance x)) \<and>
      (\<exists>x. Some x \<in> set results \<and> passes (rr_acceptance x)))"
proof -
  let ?xs = "List.map_filter (\<lambda>r. r) results"
  let ?f = "fold (fold_result bounded) ?xs (initial_folding unresolved stats)"
  have clean: "clean_input (close_input ?f) \<longleftrightarrow> unresolved = [] \<and>
      (\<forall>x. Some x \<in> set results \<longrightarrow> rr_unresolved x = [] \<and> rr_stop x \<noteq> StopReasonBudgetExceeded \<and>
         rr_outcome x \<notin> {RunOutcomeStalled, RunOutcomeCancelled, RunOutcomeFailed, RunOutcomeBlocked, RunOutcomePartial} \<and>
         \<not> fails (rr_acceptance x)) \<and>
      (\<exists>x. Some x \<in> set results \<and> passes (rr_acceptance x))"
    unfolding close_input_clean unfolding clean_input_def folded_flags folded_acceptance
    by (simp add: initial_folding_def initial_input_def present_results) blast
  show ?thesis unfolding AggregateRunResults_def Let_def
    using clean by (simp add: completed_iff_clean)
qed

text \<open>
  The absence of a gate passes when another team has one: a team that completed with its gate passed, together with an
  exploratory team whose result is unverified, aggregates to a completed run with the goal satisfied.
\<close>

definition team_result :: "run_outcome \<Rightarrow> acceptance_state \<Rightarrow> unit run_result" where
  "team_result out a =
     (EvaluateRunOutcome (initial_input [] zero_stats))\<lparr>rr_outcome := out,
        rr_acceptance := Some \<lparr>ac_request = None, ac_state = a, ac_passed = (a = AcceptancePassed), ac_errors = []\<rparr>\<rparr>"

lemma team_result_fields:
  "rr_acceptance (team_result out a) = Some \<lparr>ac_request = None, ac_state = a, ac_passed = (a = AcceptancePassed), ac_errors = []\<rparr>"
  "rr_unresolved (team_result out a) = []" "rr_outcome (team_result out a) = out"
  "rr_stop (team_result out a) = StopReasonAcceptanceNotSet"
  by (simp_all add: team_result_def evaluation_fields)
    (simp_all add: EvaluateRunOutcome_def initial_input_def evaluated_def normal_acceptance_def Let_def)

lemma team_gate:
  "passes (rr_acceptance (team_result out a)) \<longleftrightarrow> a = AcceptancePassed"
  "fails (rr_acceptance (team_result out AcceptancePassed)) = False"
  "fails (rr_acceptance (team_result out AcceptanceNotConfigured)) = False"
  by (auto simp: team_result_fields passes_def fails_def EffectiveState_def split: acceptance_state.splits)

lemma ungated_team_satisfied:
  "rr_satisfied (AggregateRunResults (\<lambda>w. w)
     [Some (team_result RunOutcomeCompleted AcceptancePassed), Some (team_result RunOutcomeUnverified AcceptanceNotConfigured)]
     [] zero_stats)"
proof -
  let ?r = "[Some (team_result RunOutcomeCompleted AcceptancePassed), Some (team_result RunOutcomeUnverified AcceptanceNotConfigured)]"
  have "clean_input (close_input (fold (fold_result (\<lambda>w. w)) (List.map_filter (\<lambda>r. r) ?r) (initial_folding [] zero_stats)))"
    unfolding close_input_clean unfolding clean_input_def folded_flags folded_acceptance
    by (simp add: initial_folding_def initial_input_def present_results team_result_fields(2-) team_gate List.map_filter_def)
  then show ?thesis by (simp add: AggregateRunResults_def Let_def completed_iff_clean)
qed

theorem aggregate_completed_exactly_witness:
  "rr_outcome (AggregateRunResults (\<lambda>w. w) [Some (team_result RunOutcomeCompleted AcceptancePassed), None] [] zero_stats) =
     RunOutcomeCompleted \<and>
   rr_exit (AggregateRunResults (\<lambda>w. w)
     [Some (team_result RunOutcomeCompleted AcceptancePassed), Some (team_result RunOutcomeBlocked AcceptancePassed)] [] zero_stats) \<noteq> 0"
  using aggregate_completed_exactly [of "\<lambda>w. w" "[Some (team_result RunOutcomeCompleted AcceptancePassed), None]" "[]" zero_stats]
    aggregate_completed_exactly [of "\<lambda>w. w"
      "[Some (team_result RunOutcomeCompleted AcceptancePassed), Some (team_result RunOutcomeBlocked AcceptancePassed)]" "[]" zero_stats]
  by (simp add: Let_def team_result_fields(2-) team_gate)

end
