(* ===== verification/Evidence_Manifest.thy ===== *)
theory Evidence_Manifest
  imports Run_Outcome
begin

text \<open>
  The evidence manifest of a run: its data, sealing and verification (\<open>internal/team/evidence_store.go\<close>), satisfaction of
  a failed task through its replacement (\<open>evidence_resolution.go\<close>), recovered evidence (\<open>evidence_recovery.go\<close>) and the
  two operations that build and finalize it (\<open>evidence_manifest.go\<close>). Operations that publish transcripts or
  artifacts thread the artifact store. Hashing, the JSON text of a manifest and the validation of a primary decision proof
  (\<open>validatePrimaryManifestProof\<close>) are arguments; the selection of recoverable runs from the event journal
  (\<open>bindRecoveredEvidence\<close>) is the argument \<open>br_runs\<close> of the request. Check times and the copy of the manifest
  written to the log directory are left out.
\<close>

section \<open>Operations that fail and change the store\<close>

definition andThen ::
  "('e + 'a) \<times> 's \<Rightarrow> ('a \<Rightarrow> 's \<Rightarrow> ('e + 'b) \<times> 's) \<Rightarrow> ('e + 'b) \<times> 's" where
  "andThen r f = (case r of (Inl e, s) \<Rightarrow> (Inl e, s) | (Inr x, s) \<Rightarrow> f x s)"

lemma andThen_simps [simp]:
  "andThen (Inl e, s) f = (Inl e, s)"
  "andThen (Inr x, s) f = f x s"
  by (simp_all add: andThen_def)

lemma andThen_Inr: "andThen r f = (Inr y, s'') \<longleftrightarrow> (\<exists>x s'. r = (Inr x, s') \<and> f x s' = (Inr y, s''))"
  by (auto simp: andThen_def split: prod.splits sum.splits)

definition as_error :: "('e \<Rightarrow> 'f) \<Rightarrow> 'e + 'a \<Rightarrow> 'f + 'a" where
  "as_error f r = (case r of Inl e \<Rightarrow> Inl (f e) | Inr x \<Rightarrow> Inr x)"

lemma as_error_Inr [simp]: "as_error f r = Inr x \<longleftrightarrow> r = Inr x"
  by (simp add: as_error_def split: sum.split)

section \<open>Data\<close>

record evidence_binding =
  eb_run :: string
  eb_task :: string
  eb_attempt :: int
  eb_execution :: string
  eb_producer :: string
  eb_transcript :: string
  eb_artifacts :: "string list"
  eb_snapshot :: string
  eb_snapshot_hash :: string
  eb_action_hash :: string
  eb_bound :: "(string \<times> string) list"
  eb_invocation :: string
  eb_outputs_hash :: string

record evidence_resolution =
  es_status :: string
  es_by :: string
  es_original :: task_status

record 'p evidence_result =
  er_requirement :: string
  er_status :: string
  er_validator :: string
  er_artifacts :: "stored_ref list"
  er_binding :: "evidence_binding option"
  er_assertions :: "string list"
  er_proof :: "'p option"
  er_resolution :: "evidence_resolution option"

record 'p evidence_manifest =
  em_schema :: int
  em_run :: string
  em_task :: string
  em_attempt :: int
  em_policies :: "string list"
  em_artifacts :: "stored_ref list"
  em_results :: "'p evidence_result list"
  em_previous :: string
  em_hash :: string
  em_status :: string
  em_recovery :: string
  em_recovery_hash :: string

record ('c, 'r, 'p) evidence_env =
  ee_sha :: "string \<Rightarrow> string"
  ee_json :: "'p evidence_manifest \<Rightarrow> string"
  ee_proof :: "'p \<Rightarrow> ('c, 'r, 'p) run_item option \<Rightarrow> bool"
  ee_source :: "string \<Rightarrow> string option"
  ee_now :: nat
  ee_resolution :: "('c, 'r) resolution_env"

datatype binding_error =
    NoBinding | InvalidResolution | NoMatchingReplacement | ConflictingBinding | TranscriptOutside
  | IncompleteInputs | IncompleteActionInputs | InvalidBoundInput | IncompleteOutputs | NoMembership
  | InvalidMembership | OutsideManifest | IncompleteMembership

datatype receipt_error =
    MissingReceipt | ReceiptNotBound | SnapshotConflict | ActionConflict | OutputsConflict | UnsealedReference

datatype evidence_error =
    NoWorkspace | MultiplePrimaries | RecoveryMismatch string | TranscriptFailed string store_error
  | VerificationMissing string | ArtifactFailed string store_error | ArtifactUnnamed string
  | BindingFailed string receipt_error | NothingCompleted | NoRunID | Unsealed | ManifestHashMismatch
  | ArtifactInvalid store_error | ProofInvalid | PrimaryUnproved | BindingInvalid string binding_error
  | RequirementFailed string | MultiplePrimaryRequirements | PrimaryProofMissing | NoManifest

section \<open>Text\<close>

text \<open>
  \<open>strings.EqualFold\<close> against a lower-case ASCII word without a \<open>k\<close>: letters fold, and so does the
  long s (U+017F), the only other rune that folds into such a word.
\<close>

fun EqualFold :: "string \<Rightarrow> string \<Rightarrow> bool" where
  "EqualFold [] [] = True"
| "EqualFold (c # s) (d # w) =
     (if ascii_lower c = d then EqualFold s w
      else d = CHR ''s'' \<and> c = CHR 0xC5 \<and> (case s of [] \<Rightarrow> False | e # t \<Rightarrow> e = CHR 0xBF \<and> EqualFold t w))"
| "EqualFold _ _ = False"

definition task_req :: "string \<Rightarrow> string" where
  "task_req task = ''task:'' @ task"

definition task_prefix :: "string \<Rightarrow> bool" where
  "task_prefix s \<longleftrightarrow> take 5 s = ''task:''"

definition trim_task :: "string \<Rightarrow> string" where
  "trim_task s = (if task_prefix s then drop 5 s else s)"

text \<open>The pattern of an input hash: \<open>sha256:\<close> and 64 lower-case hexadecimal digits.\<close>

definition run_input_hash :: "string \<Rightarrow> bool" where
  "run_input_hash s \<longleftrightarrow> take 7 s = ''sha256:'' \<and> length s = 71 \<and>
     list_all (\<lambda>c. is_digit c \<or> 97 \<le> byte_of c \<and> byte_of c \<le> 102) (drop 7 s)"

section \<open>Verification\<close>

definition taskManifestEvidence :: "'p evidence_manifest option \<Rightarrow> string \<Rightarrow> 'p evidence_result option" where
  "taskManifestEvidence m task =
     (case m of None \<Rightarrow> None
      | Some m \<Rightarrow>
          (case filter (\<lambda>r. er_requirement r = task_req task) (em_results m) of
             [r] \<Rightarrow> Some r | _ \<Rightarrow> None))"

definition recoveryBindingMatches :: "'p evidence_manifest \<Rightarrow> evidence_binding \<Rightarrow> bool" where
  "recoveryBindingMatches m b \<longleftrightarrow>
     eb_run b \<noteq> [] \<and> em_recovery m \<noteq> [] \<and> run_input_hash (em_recovery_hash m) \<and>
     eb_snapshot b = em_recovery m \<and> eb_snapshot_hash b = em_recovery_hash m"

definition verifyEvidenceInputBinding :: "evidence_binding \<Rightarrow> binding_error + unit" where
  "verifyEvidenceInputBinding b =
     (if eb_snapshot b \<noteq> [] \<or> eb_snapshot_hash b \<noteq> [] \<or> eb_action_hash b \<noteq> [] \<or> eb_bound b \<noteq> [] then
        (if eb_snapshot b = [] \<or> \<not> run_input_hash (eb_snapshot_hash b) then Inl IncompleteInputs
         else if (eb_action_hash b \<noteq> [] \<or> eb_bound b \<noteq> []) \<and>
                 (\<not> run_input_hash (eb_action_hash b) \<or> eb_bound b = []) then Inl IncompleteActionInputs
         else if list_ex (\<lambda>(name, hash). TrimSpace name = [] \<or> \<not> run_input_hash hash) (eb_bound b)
           then Inl InvalidBoundInput
         else Inr ())
      else Inr ())"

definition in_manifest :: "'p evidence_manifest \<Rightarrow> evidence_binding \<Rightarrow> stored_ref \<Rightarrow> bool" where
  "in_manifest m b ref \<longleftrightarrow>
     list_ex (\<lambda>r. sr_id r = sr_id ref \<and> sr_run r = eb_run b \<and> sr_task r = eb_task b \<and> sr_attempt r = eb_attempt b \<and>
                  (sr_agent r = [] \<or> sr_agent r = eb_producer b)) (em_artifacts m)"

fun check_members ::
  "'p evidence_manifest \<Rightarrow> evidence_binding \<Rightarrow> string list \<Rightarrow> stored_ref list \<Rightarrow> binding_error + unit" where
  "check_members m b known [] = Inr ()"
| "check_members m b known (ref # refs) =
     (if sr_id ref = [] \<or> sr_id ref \<in> set known then Inl InvalidMembership
      else if \<not> in_manifest m b ref then Inl OutsideManifest
      else check_members m b (sr_id ref # known) refs)"

text \<open>The part of \<open>verifyEvidenceBinding\<close> after the producing task is known.\<close>

definition check_binding ::
  "'p evidence_manifest \<Rightarrow> 'p evidence_result \<Rightarrow> evidence_binding \<Rightarrow> string \<Rightarrow> binding_error + unit" where
  "check_binding m r b want =
     (if (eb_run b \<noteq> em_run m \<and> \<not> recoveryBindingMatches m b) \<or> eb_task b = [] \<or> eb_task b \<noteq> want \<or>
         eb_attempt b \<le> 0 \<or> eb_execution b = [] \<or> eb_producer b = [] \<or> eb_transcript b = []
      then Inl ConflictingBinding
      else if take 7 (eb_transcript b) = ''sha256-'' \<and> eb_transcript b \<notin> set (eb_artifacts b)
        then Inl TranscriptOutside
      else bindR (verifyEvidenceInputBinding b) (\<lambda>_.
        if (eb_invocation b \<noteq> [] \<or> eb_outputs_hash b \<noteq> []) \<and>
           (TrimSpace (eb_invocation b) = [] \<or> \<not> run_input_hash (eb_outputs_hash b))
        then Inl IncompleteOutputs
        else if er_artifacts r = [] then Inl NoMembership
        else bindR (check_members m b [] (er_artifacts r)) (\<lambda>_.
          if sort (map sr_id (er_artifacts r)) \<noteq> sort (eb_artifacts b) then Inl IncompleteMembership else Inr ())))"

text \<open>
  A resolved requirement points to a replacement that is an ordinary execution itself, so the check of
  the replacement's binding never recurses.
\<close>

definition verifyEvidenceResolution :: "'p evidence_manifest \<Rightarrow> 'p evidence_result \<Rightarrow> binding_error + unit" where
  "verifyEvidenceResolution m r =
     (case er_resolution r of None \<Rightarrow> Inl InvalidResolution
      | Some s \<Rightarrow>
          if (es_status s \<noteq> ''superseded'' \<and> es_status s \<noteq> ''reconciled'') \<or>
             (es_original s \<noteq> TaskError \<and> es_original s \<noteq> TaskBlocked) \<or>
             es_by s = [] \<or> es_by s = trim_task (er_requirement r)
          then Inl InvalidResolution
          else (case taskManifestEvidence (Some m) (es_by s) of
                  None \<Rightarrow> Inl NoMatchingReplacement
                | Some q \<Rightarrow>
                    if er_status q \<noteq> ''passed'' \<or> er_resolution q \<noteq> None \<or> er_binding q = None \<or>
                       er_binding r \<noteq> er_binding q \<or> er_artifacts r \<noteq> er_artifacts q
                    then Inl NoMatchingReplacement
                    else check_binding m q (the (er_binding q)) (trim_task (er_requirement q))))"

definition verifyEvidenceBinding :: "'p evidence_manifest \<Rightarrow> 'p evidence_result \<Rightarrow> binding_error + unit" where
  "verifyEvidenceBinding m r =
     (case er_binding r of None \<Rightarrow> Inl NoBinding
      | Some b \<Rightarrow>
          (case er_resolution r of
             None \<Rightarrow> check_binding m r b (trim_task (er_requirement r))
           | Some s \<Rightarrow> bindR (verifyEvidenceResolution m r) (\<lambda>_. check_binding m r b (es_by s))))"

definition VerifiedTaskBinding :: "'p evidence_manifest \<Rightarrow> string \<Rightarrow> evidence_binding option" where
  "VerifiedTaskBinding m task =
     (if task = [] then None
      else case find (\<lambda>r. er_requirement r = task_req task \<and> EqualFold (er_status r) ''passed'' \<and> er_binding r \<noteq> None)
                     (em_results m) of
        None \<Rightarrow> None
      | Some r \<Rightarrow> if verifyEvidenceBinding m r \<noteq> Inr () then None else er_binding r)"

definition manifest_digest :: "('c, 'r, 'p) evidence_env \<Rightarrow> 'p evidence_manifest \<Rightarrow> string" where
  "manifest_digest env m = ee_sha env (em_previous m @ ee_json env (m\<lparr>em_hash := []\<rparr>))"

definition Seal :: "('c, 'r, 'p) evidence_env \<Rightarrow> 'p evidence_manifest \<Rightarrow> evidence_error + 'p evidence_manifest" where
  "Seal env m =
     (if em_run m = [] then Inl NoRunID
      else let m' = m\<lparr>em_schema := 1, em_status := (if em_status m = [] then ''accepted'' else em_status m)\<rparr> in
        Inr (m'\<lparr>em_hash := manifest_digest env m'\<rparr>))"

fun verify_refs :: "('c, 'r, 'p) evidence_env \<Rightarrow> artifact_store \<Rightarrow> stored_ref list \<Rightarrow> evidence_error + unit" where
  "verify_refs env s [] = Inr ()"
| "verify_refs env s (ref # refs) =
     bindR (as_error ArtifactInvalid (store_verify (ee_sha env) ref s)) (\<lambda>_. verify_refs env s refs)"

definition verify_result ::
  "('c, 'r, 'p) evidence_env \<Rightarrow> 'p evidence_manifest \<Rightarrow> 'p evidence_result \<Rightarrow> evidence_error + unit" where
  "verify_result env m r =
     (if er_requirement r = ''primary_decision_valid'' \<and>
         (case er_proof r of None \<Rightarrow> False | Some p \<Rightarrow> \<not> ee_proof env p None) then Inl ProofInvalid
      else if er_requirement r = ''primary_decision_valid'' \<and> EqualFold (er_status r) ''passed'' \<and> er_proof r = None
        then Inl PrimaryUnproved
      else bindR (if task_prefix (er_requirement r) \<and> EqualFold (er_status r) ''passed''
                  then as_error (BindingInvalid (er_requirement r)) (verifyEvidenceBinding m r) else Inr ()) (\<lambda>_.
        if EqualFold (er_status r) ''error'' \<or>
           (EqualFold (er_status r) ''failed'' \<and> EqualFold (em_status m) ''accepted'')
        then Inl (RequirementFailed (er_requirement r)) else Inr ()))"

fun verify_results ::
  "('c, 'r, 'p) evidence_env \<Rightarrow> 'p evidence_manifest \<Rightarrow> 'p evidence_result list \<Rightarrow> evidence_error + unit" where
  "verify_results env m [] = Inr ()"
| "verify_results env m (r # rs) = bindR (verify_result env m r) (\<lambda>_. verify_results env m rs)"

definition Verify ::
  "('c, 'r, 'p) evidence_env \<Rightarrow> 'p evidence_manifest \<Rightarrow> artifact_store \<Rightarrow> evidence_error + unit" where
  "Verify env m s =
     (if em_hash m = [] then Inl Unsealed
      else if manifest_digest env m \<noteq> em_hash m then Inl ManifestHashMismatch
      else bindR (verify_refs env s (em_artifacts m)) (\<lambda>_.
        bindR (verify_results env m (em_results m)) (\<lambda>_.
          let primary = filter (\<lambda>r. er_requirement r = ''primary_decision_valid'') (em_results m);
              proved = filter (\<lambda>r. er_proof r \<noteq> None) primary in
          if 1 < length primary \<or> 1 < length proved then Inl MultiplePrimaryRequirements
          else if length primary = 1 \<and> EqualFold (em_status m) ''accepted'' \<and> length proved \<noteq> 1
            then Inl PrimaryProofMissing
          else Inr ())))"

section \<open>Building\<close>

definition projectArtifactOccurrence ::
  "('c, 'r, 'p) evidence_env \<Rightarrow> stored_ref \<Rightarrow> string \<Rightarrow> string \<Rightarrow> int \<Rightarrow> string \<Rightarrow> artifact_store \<Rightarrow> store_error + stored_ref" where
  "projectArtifactOccurrence env src run task attempt agent s =
     (if \<not> validArtifactID (sr_id src) then Inl NoArtifactID
      else bindR (store_get (sr_id src) s) (\<lambda>m.
        if sr_sha src \<noteq> [] \<and> sr_sha src \<noteq> sr_sha m then Inl (ClaimConflicts (sr_id src))
        else if sr_size src \<noteq> 0 \<and> sr_size src \<noteq> sr_size m then Inl (ClaimConflicts (sr_id src))
        else if sr_bytes src \<noteq> 0 \<and> sr_bytes src \<noteq> sr_bytes m then Inl (ClaimConflicts (sr_id src))
        else if sr_sha m = [] \<or> sr_size m < 0 \<or> (sr_bytes m \<noteq> 0 \<and> sr_bytes m \<noteq> sr_size m)
          then Inl (InvalidMetadata (sr_id src))
        else bindR (store_verify (ee_sha env) m s) (\<lambda>_.
          Inr (m\<lparr>sr_run := run, sr_task := task, sr_attempt := attempt, sr_agent := agent\<rparr>))))"

definition empty_ref :: stored_ref where
  "empty_ref = \<lparr>sr_id = [], sr_kind = [], sr_role = [], sr_path = [], sr_desc = [], sr_type = [], sr_sha = [],
     sr_bytes = 0, sr_size = 0, sr_media = [], sr_run = [], sr_task = [], sr_attempt = 0, sr_agent = [],
     sr_provider = [], sr_call = [], sr_created = 0\<rparr>"

definition empty_put :: put_request where
  "empty_put = \<lparr>pr_id = [], pr_kind = [], pr_role = [], pr_path = [], pr_desc = [], pr_media = [], pr_content = [],
     pr_source = [], pr_run = [], pr_task = [], pr_agent = [], pr_provider = [], pr_call = [], pr_attempt = 0,
     pr_url = [], pr_parents = [], pr_created = 0\<rparr>"

text \<open>Publish a file and take its occurrence for the task.\<close>

definition put_and_project ::
  "('c, 'r, 'p) evidence_env \<Rightarrow> put_request \<Rightarrow> string \<Rightarrow> string \<Rightarrow> int \<Rightarrow> string \<Rightarrow> artifact_store \<Rightarrow>
   (store_error + stored_ref) \<times> artifact_store" where
  "put_and_project env q run task attempt agent s =
     andThen (Put (ee_sha env) (ee_source env) (ee_now env) q s)
       (\<lambda>p s'. (projectArtifactOccurrence env (pu_ref p) run task attempt agent s', s'))"

definition transcriptEvidenceRef ::
  "('c, 'r, 'p) evidence_env \<Rightarrow> ('c, 'r, 'p) run_item \<Rightarrow> execution_receipt \<Rightarrow> string \<Rightarrow> artifact_store \<Rightarrow>
   (store_error + stored_ref) \<times> artifact_store" where
  "transcriptEvidenceRef env x receipt run s =
     (let t = TrimSpace (xr_transcript receipt) in
      if take 7 t = ''sha256-'' \<and> validArtifactID t
      then (projectArtifactOccurrence env (empty_ref\<lparr>sr_id := t\<rparr>) run (ru_id x) (xr_attempt receipt) (ru_agent x) s, s)
      else put_and_project env
             (empty_put\<lparr>pr_kind := ''task_transcript'', pr_path := t, pr_desc := ''runner transcript for task '' @ ru_id x,
                pr_source := t, pr_run := run, pr_task := ru_id x, pr_attempt := xr_attempt receipt,
                pr_agent := ru_agent x\<rparr>)
             run (ru_id x) (xr_attempt receipt) (ru_agent x) s)"

definition containsArtifactID :: "stored_ref list \<Rightarrow> string \<Rightarrow> bool" where
  "containsArtifactID refs i \<longleftrightarrow> i \<noteq> [] \<and> list_ex (\<lambda>r. sr_id r = i) refs"

text \<open>The artifacts a typed result declares: each published or looked up, strictly or with a failure mark.\<close>

fun artifact_loop ::
  "('c, 'r, 'p) evidence_env \<Rightarrow> string \<Rightarrow> ('c, 'r, 'p) run_item \<Rightarrow> int \<Rightarrow> bool \<Rightarrow> stored_ref list \<Rightarrow>
   stored_ref list \<times> bool \<Rightarrow> artifact_store \<Rightarrow> (evidence_error + stored_ref list \<times> bool) \<times> artifact_store" where
  "artifact_loop env run x attempt strict [] acc s = (Inr acc, s)"
| "artifact_loop env run x attempt strict (a # as) (refs, failed) s =
     (if sr_id a = [] \<and> TrimSpace (sr_path a) = [] then
        (if strict then (Inl (ArtifactUnnamed (ru_id x)), s)
         else artifact_loop env run x attempt strict as (refs, True) s)
      else case (if sr_id a \<noteq> [] then (projectArtifactOccurrence env a run (ru_id x) attempt (ru_agent x) s, s)
                 else put_and_project env
                        (empty_put\<lparr>pr_kind := sr_kind a, pr_path := sr_path a, pr_desc := sr_desc a, pr_source := sr_path a,
                           pr_run := run, pr_task := ru_id x, pr_attempt := i64 (ti_retries (ru_task x) + 1),
                           pr_agent := ru_agent x\<rparr>)
                        run (ru_id x) attempt (ru_agent x) s) of
          (Inl e, s') \<Rightarrow>
            (if strict then (Inl (ArtifactFailed (ru_id x) e), s')
             else artifact_loop env run x attempt strict as (refs, True) s')
        | (Inr ref, s') \<Rightarrow> artifact_loop env run x attempt strict as (refs @ [ref], failed) s')"

definition taskArtifactRefs ::
  "('c, 'r, 'p) evidence_env \<Rightarrow> string \<Rightarrow> ('c, 'r, 'p) run_item \<Rightarrow> bool \<Rightarrow> artifact_store \<Rightarrow>
   (evidence_error + stored_ref list \<times> bool) \<times> artifact_store" where
  "taskArtifactRefs env run x strict s =
     (case ti_typed (ru_task x) of None \<Rightarrow> (Inr ([], False), s)
      | Some _ \<Rightarrow>
          let attempt = (case latestSuccessfulExecutionReceipt x run of
                           Some r \<Rightarrow> if 0 < xr_attempt r then xr_attempt r else i64 (ti_retries (ru_task x) + 1)
                         | None \<Rightarrow> i64 (ti_retries (ru_task x) + 1)) in
          artifact_loop env run x attempt strict (ru_artifacts x) ([], False) s)"

definition bindEvidenceResult ::
  "string \<Rightarrow> ('c, 'r, 'p) run_item \<Rightarrow> execution_receipt option \<Rightarrow> 'p evidence_result \<Rightarrow> receipt_error + 'p evidence_result" where
  "bindEvidenceResult run x receipt r =
     (case receipt of None \<Rightarrow> Inl MissingReceipt
      | Some p \<Rightarrow>
          if xr_run p \<noteq> run \<or> xr_task p \<noteq> ru_id x \<or> xr_attempt p \<le> 0 \<or> xr_execution p = [] \<or> xr_producer p = [] \<or>
             TrimSpace (xr_transcript p) = [] then Inl ReceiptNotBound
          else if ru_snapshot x \<noteq> [] \<and> (xr_snapshot p \<noteq> ru_snapshot x \<or> xr_snapshot_hash p \<noteq> ru_snapshot_hash x)
            then Inl SnapshotConflict
          else if ru_action_hash x \<noteq> [] \<and>
                  (xr_snapshot p \<noteq> ru_snapshot x \<or> xr_snapshot_hash p \<noteq> ru_snapshot_hash x \<or>
                   xr_action_hash p \<noteq> ru_action_hash x \<or> xr_bound p \<noteq> ru_bound x)
            then Inl ActionConflict
          else if ti_typed (ru_task x) \<noteq> None \<and> ru_outputs_hash x \<noteq> [] \<and> xr_outputs_hash p \<noteq> ru_outputs_hash x
            then Inl OutputsConflict
          else if list_ex (\<lambda>a. sr_id a = []) (er_artifacts r) then Inl UnsealedReference
          else Inr (r\<lparr>er_binding := Some
                 \<lparr>eb_run = run, eb_task = ru_id x, eb_attempt = xr_attempt p, eb_execution = xr_execution p,
                  eb_producer = xr_producer p, eb_transcript = xr_transcript p, eb_artifacts = map sr_id (er_artifacts r),
                  eb_snapshot = xr_snapshot p, eb_snapshot_hash = xr_snapshot_hash p, eb_action_hash = xr_action_hash p,
                  eb_bound = xr_bound p, eb_invocation = xr_invocation p, eb_outputs_hash = xr_outputs_hash p\<rparr>\<rparr>))"

definition task_requirement :: "string \<Rightarrow> string \<Rightarrow> 'p evidence_result" where
  "task_requirement i status =
     \<lparr>er_requirement = task_req i, er_status = status, er_validator = ''task-verification'', er_artifacts = [],
      er_binding = None, er_assertions = [], er_proof = None, er_resolution = None\<rparr>"

text \<open>A task that is not done: failed, with its latest transcript kept for inspection.\<close>

definition failed_evidence ::
  "('c, 'r, 'p) evidence_env \<Rightarrow> string \<Rightarrow> ('c, 'r, 'p) run_item \<Rightarrow> bool \<Rightarrow> artifact_store \<Rightarrow>
   (evidence_error + 'p evidence_result \<times> stored_ref list \<times> bool) \<times> artifact_store" where
  "failed_evidence env run x strict s =
     (let r = task_requirement (ru_id x) ''failed'' in
      case latestExecutionReceiptWithTranscript x run of
        None \<Rightarrow> (Inr (r, [], True), s)
      | Some p \<Rightarrow>
          (case transcriptEvidenceRef env x p run s of
             (Inl e, s') \<Rightarrow>
               if strict then (Inl (TranscriptFailed (ru_id x) e), s') else (Inr (r, [], True), s')
           | (Inr ref, s') \<Rightarrow> (Inr (r\<lparr>er_artifacts := [ref]\<rparr>, [ref], True), s')))"

text \<open>Whether a task that is done has evidence, and the references found so far.\<close>

definition completion_evidence ::
  "('c, 'r, 'p) evidence_env \<Rightarrow> string \<Rightarrow> ('c, 'r, 'p) run_item \<Rightarrow> bool \<Rightarrow> artifact_store \<Rightarrow>
   (evidence_error + bool \<times> stored_ref list) \<times> artifact_store" where
  "completion_evidence env run x strict s =
     (if (case ti_verify (ru_task x) of None \<Rightarrow> False | Some v \<Rightarrow> vr_exit v = 0) \<or>
         (case ti_typed (ru_task x) of None \<Rightarrow> False | Some t \<Rightarrow> tr_evidence t \<noteq> [])
      then (Inr (True, []), s)
      else case latestSuccessfulExecutionReceipt x run of
        None \<Rightarrow> (if strict then (Inl (VerificationMissing (ru_id x)), s) else (Inr (False, []), s))
      | Some p \<Rightarrow>
          if TrimSpace (xr_transcript p) = [] then
            (if strict then (Inl (VerificationMissing (ru_id x)), s) else (Inr (False, []), s))
          else (case transcriptEvidenceRef env x p run s of
                  (Inl e, s') \<Rightarrow>
                    if strict then (Inl (TranscriptFailed (ru_id x) e), s') else (Inr (False, []), s')
                | (Inr ref, s') \<Rightarrow> (Inr (True, [ref]), s')))"

definition with_transcript ::
  "('c, 'r, 'p) evidence_env \<Rightarrow> string \<Rightarrow> ('c, 'r, 'p) run_item \<Rightarrow> bool \<Rightarrow> bool \<times> stored_ref list \<Rightarrow> artifact_store \<Rightarrow>
   (evidence_error + bool \<times> stored_ref list) \<times> artifact_store" where
  "with_transcript env run x strict = (\<lambda>(ok, refs) s.
     if \<not> ok then (Inr (ok, refs), s)
     else case latestSuccessfulExecutionReceipt x run of
       None \<Rightarrow> (Inr (ok, refs), s)
     | Some p \<Rightarrow>
         (case transcriptEvidenceRef env x p run s of
            (Inl e, s') \<Rightarrow> if strict then (Inl (TranscriptFailed (ru_id x) e), s') else (Inr (False, refs), s')
          | (Inr ref, s') \<Rightarrow>
              (Inr (True, if containsArtifactID refs (sr_id ref) then refs else refs @ [ref]), s')))"

definition add_refs :: "stored_ref list \<Rightarrow> stored_ref list \<Rightarrow> stored_ref list" where
  "add_refs refs extra =
     fold (\<lambda>ref known. if containsArtifactID known (sr_id ref) then known else known @ [ref]) extra refs"

text \<open>The last step: a passed requirement that cannot be bound is failed.\<close>

definition bind_or_fail ::
  "string \<Rightarrow> ('c, 'r, 'p) run_item \<Rightarrow> bool \<Rightarrow> 'p evidence_result \<Rightarrow> artifact_store \<Rightarrow>
   (evidence_error + 'p evidence_result \<times> stored_ref list \<times> bool) \<times> artifact_store" where
  "bind_or_fail run x strict r s =
     (case bindEvidenceResult run x (latestSuccessfulExecutionReceipt x run) r of
        Inl e \<Rightarrow> if strict then (Inl (BindingFailed (ru_id x) e), s)
                 else (Inr (r\<lparr>er_status := ''failed''\<rparr>, er_artifacts r, True), s)
      | Inr r' \<Rightarrow> (Inr (r', er_artifacts r, False), s))"

definition buildTaskEvidence ::
  "('c, 'r, 'p) evidence_env \<Rightarrow> string \<Rightarrow> ('c, 'r, 'p) run_item \<Rightarrow> bool \<Rightarrow> artifact_store \<Rightarrow>
   (evidence_error + 'p evidence_result \<times> stored_ref list \<times> bool) \<times> artifact_store" where
  "buildTaskEvidence env run x strict s =
     (if ru_status x \<noteq> TaskDone then failed_evidence env run x strict s
      else andThen (andThen (completion_evidence env run x strict s) (with_transcript env run x strict)) (\<lambda>(ok, refs) s.
        andThen (taskArtifactRefs env run x strict s) (\<lambda>(extra, artifact_failed) s.
          let all = add_refs refs extra;
              r = (task_requirement (ru_id x) (if ok \<and> \<not> artifact_failed then ''passed'' else ''failed''))
                    \<lparr>er_artifacts := all\<rparr> in
          if er_status r \<noteq> ''passed'' then (Inr (r, all, True), s) else bind_or_fail run x strict r s)))"

record build_request =
  br_run :: string
  br_workspace :: string
  br_strict :: bool
  br_recovery :: string
  br_recovery_hash :: string
  br_runs :: "string \<Rightarrow> string"

text \<open>The run whose evidence counts for an item: the source run of a recovered task, if any.\<close>

definition evidence_run :: "build_request \<Rightarrow> ('c, 'r, 'p) run_item \<Rightarrow> evidence_error + string" where
  "evidence_run req x =
     (if br_runs req (ru_id x) = [] then Inr (br_run req)
      else if ru_status x \<noteq> TaskDone \<or> ru_snapshot x \<noteq> br_recovery req \<or> ru_snapshot_hash x \<noteq> br_recovery_hash req \<or>
              \<not> run_input_hash (br_recovery_hash req)
        then Inl (RecoveryMismatch (ru_id x))
      else Inr (br_runs req (ru_id x)))"

definition primary_evidence :: "('c, 'r, 'p) evidence_env \<Rightarrow> ('c, 'r, 'p) run_item \<Rightarrow> 'p evidence_result" where
  "primary_evidence env x =
     (let r = \<lparr>er_requirement = ''primary_decision_valid'', er_status = ''failed'',
               er_validator = ''primary-decision-process@v1'', er_artifacts = [], er_binding = None,
               er_assertions = [''primary decision process proof is not satisfied''], er_proof = None,
               er_resolution = None\<rparr> in
      case ru_proof x of None \<Rightarrow> r
      | Some p \<Rightarrow> if ru_status x = TaskDone \<and> ee_proof env p (Some x)
                then r\<lparr>er_status := ''passed'', er_assertions := [], er_proof := Some p\<rparr> else r)"

record 'p building =
  bu_manifest :: "'p evidence_manifest"
  bu_completed :: nat
  bu_supporting :: nat
  bu_primary :: nat

fun build_items ::
  "('c, 'r, 'p) evidence_env \<Rightarrow> build_request \<Rightarrow> ('c, 'r, 'p) run_item list \<Rightarrow> 'p building \<Rightarrow> artifact_store \<Rightarrow>
   (evidence_error + 'p building) \<times> artifact_store" where
  "build_items env req [] b s = (Inr b, s)"
| "build_items env req (x # xs) b s =
     (let m = bu_manifest b in
      if ru_primary x then
        (if 0 < bu_primary b then (Inl MultiplePrimaries, s)
         else build_items env req xs
           (b\<lparr>bu_primary := bu_primary b + 1, bu_manifest := m\<lparr>em_results := em_results m @ [primary_evidence env x]\<rparr>\<rparr>) s)
      else case evidence_run req x of
        Inl e \<Rightarrow> (Inl e, s)
      | Inr run \<Rightarrow>
          andThen (buildTaskEvidence env run x (br_strict req) s) (\<lambda>(r, refs, failed) s.
            build_items env req xs
              (b\<lparr>bu_supporting := bu_supporting b + 1,
                 bu_completed := (if ru_status x = TaskDone then bu_completed b + 1 else bu_completed b),
                 bu_manifest := m\<lparr>em_artifacts := em_artifacts m @ refs, em_results := em_results m @ [r]\<rparr>\<rparr>) s))"

text \<open>The original keeps its requirement and takes over the replacement's binding and artifacts.\<close>

definition resolved_result ::
  "('c, 'r, 'p) run_item \<Rightarrow> ('c, 'r, 'p) run_item \<Rightarrow> 'p evidence_result \<Rightarrow> 'p evidence_result \<Rightarrow> 'p evidence_result" where
  "resolved_result x y q r =
     (if er_requirement r = task_req (ru_id x)
      then r\<lparr>er_status := ''passed'', er_validator := ''task-resolution'', er_binding := er_binding q,
             er_artifacts := er_artifacts q,
             er_resolution := Some \<lparr>es_status = rs_status (the (ti_resolution (ru_task x))),
                                    es_by = ru_id y, es_original = ru_status x\<rparr>\<rparr>
      else r)"

definition apply_resolution ::
  "('c, 'r, 'p) evidence_env \<Rightarrow> ('c, 'r, 'p) run_item list \<Rightarrow> ('c, 'r, 'p) run_item \<Rightarrow> 'p evidence_manifest \<Rightarrow> 'p evidence_manifest" where
  "apply_resolution env items x m =
     (case verified_resolver (ee_resolution env) x items (em_run m) of None \<Rightarrow> m
      | Some y \<Rightarrow>
          (case taskManifestEvidence (Some m) (ru_id x) of None \<Rightarrow> m
           | Some original \<Rightarrow>
               (case taskManifestEvidence (Some m) (ru_id y) of None \<Rightarrow> m
                | Some q \<Rightarrow>
                    if er_status q \<noteq> ''passed'' \<or> er_binding q = None \<or> er_resolution q \<noteq> None then m
                    else m\<lparr>em_results := map (resolved_result x y q) (em_results m)\<rparr>)))"

definition applyEvidenceResolutions ::
  "('c, 'r, 'p) evidence_env \<Rightarrow> ('c, 'r, 'p) run_item list \<Rightarrow> 'p evidence_manifest \<Rightarrow> 'p evidence_manifest" where
  "applyEvidenceResolutions env items m = fold (apply_resolution env items) items m"

definition empty_manifest :: "build_request \<Rightarrow> 'p evidence_manifest" where
  "empty_manifest req = \<lparr>em_schema = 0, em_run = br_run req, em_task = [], em_attempt = 0, em_policies = [],
     em_artifacts = [], em_results = [], em_previous = [], em_hash = [], em_status = ''accepted'',
     em_recovery = br_recovery req, em_recovery_hash = br_recovery_hash req\<rparr>"

text \<open>
  The status the loop gives the manifest is overwritten after the resolutions, so it is not kept: acceptance is
  derived from the effective requirements.
\<close>

definition closed_manifest ::
  "('c, 'r, 'p) evidence_env \<Rightarrow> ('c, 'r, 'p) run_item list \<Rightarrow> 'p building \<Rightarrow> 'p evidence_manifest" where
  "closed_manifest env items b =
     (let m = applyEvidenceResolutions env items (bu_manifest b) in
      m\<lparr>em_status := (if list_all (\<lambda>r. er_status r = ''passed'') (em_results m) \<and>
                         \<not> (bu_completed b = 0 \<and> 0 < bu_supporting b)
                      then ''accepted'' else ''failed'')\<rparr>)"

definition BuildRunManifest ::
  "('c, 'r, 'p) evidence_env \<Rightarrow> build_request \<Rightarrow> ('c, 'r, 'p) run_item list \<Rightarrow> artifact_store \<Rightarrow>
   (evidence_error + 'p evidence_manifest) \<times> artifact_store" where
  "BuildRunManifest env req items s =
     (if TrimSpace (br_workspace req) = [] then (Inl NoWorkspace, s)
      else andThen (build_items env req items
                      \<lparr>bu_manifest = empty_manifest req, bu_completed = 0, bu_supporting = 0, bu_primary = 0\<rparr> s)
        (\<lambda>b s.
          if br_strict req \<and> bu_completed b = 0 \<and> (0 < bu_supporting b \<or> bu_primary b = 0) then (Inl NothingCompleted, s)
          else (bindR (Seal env (closed_manifest env items b)) (\<lambda>m. bindR (Verify env m s) (\<lambda>_. Inr m)), s)))"

section \<open>Finalizing\<close>

fun drop_acceptance :: "'p evidence_result list \<Rightarrow> 'p evidence_result list" where
  "drop_acceptance [] = []"
| "drop_acceptance (r # rs) = (if er_requirement r = ''run:acceptance'' then rs else r # drop_acceptance rs)"

definition acceptance_evidence :: "acceptance_result option \<Rightarrow> 'p evidence_result" where
  "acceptance_evidence a =
     (let r = \<lparr>er_requirement = ''run:acceptance'', er_status = ''passed'', er_validator = ''acceptance-gate'',
               er_artifacts = [], er_binding = None, er_assertions = [], er_proof = None, er_resolution = None\<rparr> in
      case a of None \<Rightarrow> r\<lparr>er_status := ''not_configured''\<rparr>
      | Some x \<Rightarrow>
          if EffectiveState x = AcceptanceNotConfigured then r\<lparr>er_status := ''not_configured''\<rparr>
          else if IsPassed x then r
          else r\<lparr>er_status := ''failed'', er_assertions := ac_errors x\<rparr>)"

definition finalized_status :: "acceptance_result option \<Rightarrow> string \<Rightarrow> string" where
  "finalized_status a status =
     (case er_status (acceptance_evidence a :: unit evidence_result) of st \<Rightarrow>
        if st = ''not_configured'' then (if status = ''accepted'' then ''unverified'' else status)
        else if st = ''passed'' then status else ''failed'')"

text \<open>
  The manifest is changed in place, so what is left of it is part of the answer: a verification that fails
  leaves the sealed manifest behind.
\<close>

definition FinalizeRunManifest ::
  "('c, 'r, 'p) evidence_env \<Rightarrow> string \<Rightarrow> 'p evidence_manifest option \<Rightarrow> acceptance_result option \<Rightarrow> artifact_store \<Rightarrow>
   (evidence_error + 'p evidence_manifest) \<times> 'p evidence_manifest option" where
  "FinalizeRunManifest env workspace manifest a s =
     (if TrimSpace workspace = [] then (Inl NoWorkspace, manifest)
      else case manifest of None \<Rightarrow> (Inl NoManifest, None)
      | Some m \<Rightarrow>
          let m = m\<lparr>em_results := drop_acceptance (em_results m) @ [acceptance_evidence a],
                    em_status := finalized_status a (em_status m)\<rparr> in
          (case Seal env m of
             Inl e \<Rightarrow> (Inl e, Some m)
           | Inr m \<Rightarrow> (case Verify env m s of Inl e \<Rightarrow> (Inl e, Some m) | Inr _ \<Rightarrow> (Inr m, Some m))))"

end
