(* ===== verification/Evidence_Safety.thy ===== *)
theory Evidence_Safety
  imports Evidence_Manifest
begin

text \<open>
  What the evidence manifest establishes: a verified manifest binds every requirement it counts as passed to one
  execution with its exact artifacts; a manifest that is built as accepted accounts for every task of the list.
\<close>

section \<open>Verified manifests\<close>

lemma passed_folds [simp]: "EqualFold ''passed'' ''passed''" "\<not> EqualFold ''failed'' ''passed''"
  "EqualFold ''accepted'' ''accepted''"
  by (simp_all add: ascii_lower_def)

declare EqualFold.simps [simp del]

lemma check_members_ok:
  "check_members m b known refs = Inr () \<Longrightarrow>
   distinct (map sr_id refs) \<and> set (map sr_id refs) \<inter> set known = {} \<and> (\<forall>ref\<in>set refs. in_manifest m b ref)"
proof (induction refs arbitrary: known)
  case (Cons a refs)
  then have "check_members m b (sr_id a # known) refs = Inr ()" "sr_id a \<notin> set known" "in_manifest m b a"
    by (auto split: if_splits)
  with Cons.IH [of "sr_id a # known"] show ?case by auto
qed simp

lemma check_binding_ok:
  assumes "check_binding m r b want = Inr ()"
  shows "eb_run b = em_run m \<or> recoveryBindingMatches m b" "eb_task b = want" "want \<noteq> []" "0 < eb_attempt b"
    "eb_execution b \<noteq> []" "eb_producer b \<noteq> []" "eb_transcript b \<noteq> []"
    "take 7 (eb_transcript b) = ''sha256-'' \<Longrightarrow> eb_transcript b \<in> set (eb_artifacts b)"
    "er_artifacts r \<noteq> []" "distinct (eb_artifacts b)" "set (eb_artifacts b) = sr_id ` set (er_artifacts r)"
    "\<forall>ref\<in>set (er_artifacts r). in_manifest m b ref"
proof -
  have m: "check_members m b [] (er_artifacts r) = Inr ()" "sort (map sr_id (er_artifacts r)) = sort (eb_artifacts b)"
    using assms by (auto simp: check_binding_def bindR_eq_Inr split: if_splits)
  have "mset (map sr_id (er_artifacts r)) = mset (eb_artifacts b)" using m(2) by (metis mset_sort)
  moreover note check_members_ok [OF m(1)]
  ultimately show "distinct (eb_artifacts b)" "set (eb_artifacts b) = sr_id ` set (er_artifacts r)"
    "\<forall>ref\<in>set (er_artifacts r). in_manifest m b ref"
    by (metis mset_eq_imp_distinct_iff, metis list.set_map set_mset_mset, blast)
qed (use assms in \<open>auto simp: check_binding_def bindR_eq_Inr split: if_splits\<close>)

lemma verify_refs_ok:
  "verify_refs env s refs = Inr () \<Longrightarrow> \<forall>ref\<in>set refs. store_verify (ee_sha env) ref s = Inr ()"
  by (induction refs) (auto simp: bindR_eq_Inr)

lemma verify_results_ok: "verify_results env m rs = Inr () \<Longrightarrow> \<forall>r\<in>set rs. verify_result env m r = Inr ()"
  by (induction rs) (auto simp: bindR_eq_Inr)

lemma verify_parts:
  assumes "Verify env m s = Inr ()"
  shows "\<forall>ref\<in>set (em_artifacts m). store_verify (ee_sha env) ref s = Inr ()"
    "\<forall>r\<in>set (em_results m). verify_result env m r = Inr ()"
    "em_hash m \<noteq> []" "manifest_digest env m = em_hash m"
  using assms verify_refs_ok [of env s "em_artifacts m"] verify_results_ok [of env m "em_results m"]
  by (auto simp: Verify_def bindR_eq_Inr split: if_splits)

lemma result_binding:
  "verify_result env m r = Inr () \<Longrightarrow> task_prefix (er_requirement r) \<Longrightarrow> er_status r = ''passed'' \<Longrightarrow>
   verifyEvidenceBinding m r = Inr ()"
  by (auto simp: verify_result_def bindR_eq_Inr split: if_splits)

lemma verify_refs_extends:
  "extends s t \<Longrightarrow> verify_refs env s refs = Inr () \<Longrightarrow> verify_refs env t refs = Inr ()"
  by (induction refs) (auto simp: bindR_eq_Inr dest: store.kept)

text \<open>A manifest that verified keeps verifying, whatever is published afterwards.\<close>

lemma manifest_stays_verified:
  assumes "Verify env m s = Inr ()"
  shows "Verify env m (put_all sha calls s) = Inr ()"
  using assms verify_refs_extends [OF put_all_extends, of env s "em_artifacts m" sha calls]
  by (auto simp: Verify_def bindR_eq_Inr split: if_splits)

lemma verified_binding:
  assumes "Verify env m s = Inr ()" "r \<in> set (em_results m)" "task_prefix (er_requirement r)" "er_status r = ''passed''"
  shows "verifyEvidenceBinding m r = Inr ()"
  using verify_parts(2) [OF assms(1)] assms(2-4) by (blast intro: result_binding)

lemma unique_evidence:
  "taskManifestEvidence (Some m) i = Some q \<Longrightarrow> q \<in> set (em_results m) \<and> er_requirement q = task_req i"
proof -
  assume "taskManifestEvidence (Some m) i = Some q"
  then have "filter (\<lambda>r. er_requirement r = task_req i) (em_results m) = [q]"
    by (auto simp: taskManifestEvidence_def split: list.splits)
  then have "q \<in> set (filter (\<lambda>r. er_requirement r = task_req i) (em_results m))" by simp
  then show ?thesis by simp
qed

text \<open>The binding checks as one statement.\<close>

definition bound_to ::
  "('c, 'r, 'p) evidence_env \<Rightarrow> 'p evidence_manifest \<Rightarrow> artifact_store \<Rightarrow> evidence_binding \<Rightarrow> string \<Rightarrow> stored_ref list \<Rightarrow> bool" where
  "bound_to env m s b task refs \<longleftrightarrow>
     (eb_run b = em_run m \<or> recoveryBindingMatches m b) \<and> eb_task b = task \<and> 0 < eb_attempt b \<and>
     eb_execution b \<noteq> [] \<and> eb_producer b \<noteq> [] \<and> eb_transcript b \<noteq> [] \<and>
     (take 7 (eb_transcript b) = ''sha256-'' \<longrightarrow> eb_transcript b \<in> set (eb_artifacts b)) \<and>
     refs \<noteq> [] \<and> distinct (eb_artifacts b) \<and> set (eb_artifacts b) = sr_id ` set refs \<and>
     (\<forall>i\<in>set (eb_artifacts b). \<exists>a\<in>set (em_artifacts m). sr_id a = i \<and> sr_run a = eb_run b \<and> sr_task a = task \<and>
        sr_attempt a = eb_attempt b \<and> store_verify (ee_sha env) a s = Inr ())"

lemma bound_by_check:
  assumes "check_binding m r b want = Inr ()" "\<forall>ref\<in>set (em_artifacts m). store_verify (ee_sha env) ref s = Inr ()"
  shows "bound_to env m s b want (er_artifacts r)"
proof -
  note c = check_binding_ok [OF assms(1)]
  have "\<exists>a\<in>set (em_artifacts m). sr_id a = i \<and> sr_run a = eb_run b \<and> sr_task a = want \<and>
      sr_attempt a = eb_attempt b \<and> store_verify (ee_sha env) a s = Inr ()" if i: "i \<in> set (eb_artifacts b)" for i
  proof -
    from i c(11) obtain ref where "ref \<in> set (er_artifacts r)" "sr_id ref = i" by auto
    with c(12) have "in_manifest m b ref" by blast
    with \<open>sr_id ref = i\<close> c(2) assms(2) show ?thesis by (auto simp: in_manifest_def list_ex_iff)
  qed
  with c show ?thesis by (simp add: bound_to_def)
qed

lemma trim_task_of [simp]: "trim_task (task_req i) = i" "task_prefix (task_req i)"
  by (simp_all add: trim_task_def task_prefix_def task_req_def)

lemma verified_requirement:
  assumes "Verify env m s = Inr ()" "r \<in> set (em_results m)" "er_requirement r = task_req i" "er_status r = ''passed''"
  obtains (execution) b where "er_binding r = Some b" "er_resolution r = None" "bound_to env m s b i (er_artifacts r)"
  | (replacement) b t q where "er_binding r = Some b" "er_resolution r = Some t" "es_original t \<in> {TaskError, TaskBlocked}"
      "es_by t \<noteq> i" "taskManifestEvidence (Some m) (es_by t) = Some q" "er_status q = ''passed''" "er_resolution q = None"
      "er_binding q = Some b" "bound_to env m s b (es_by t) (er_artifacts r)"
proof -
  have v: "verifyEvidenceBinding m r = Inr ()" by (rule verified_binding [OF assms(1,2) _ assms(4)]) (simp add: assms(3))
  note refs = verify_parts(1) [OF assms(1)]
  from v obtain b where b: "er_binding r = Some b" by (auto simp: verifyEvidenceBinding_def split: option.splits)
  show thesis
  proof (cases "er_resolution r")
    case None
    with v b assms(3) have "check_binding m r b i = Inr ()" by (simp add: verifyEvidenceBinding_def)
    from execution [OF b None bound_by_check [OF this refs]] show thesis .
  next
    case (Some t)
    with v b have "verifyEvidenceResolution m r = Inr ()" "check_binding m r b (es_by t) = Inr ()"
      by (auto simp: verifyEvidenceBinding_def bindR_eq_Inr)
    moreover then obtain q where "taskManifestEvidence (Some m) (es_by t) = Some q" "er_status q = ''passed''"
      "er_resolution q = None" "er_binding q = Some b" "es_original t \<in> {TaskError, TaskBlocked}" "es_by t \<noteq> i"
      using Some b assms(3) by (auto simp: verifyEvidenceResolution_def split: if_splits option.splits)
    ultimately show thesis using replacement [OF b Some] bound_by_check [OF _ refs] by blast
  qed
qed

text \<open>
  C10. Evidence is bound. In a manifest that verifies, every task requirement counted as passed has a binding to one
  execution of this run (or of the recovered run with the very same admitted inputs) - of that task, or of the task that
  replaced it, which then passed in its own right - with a positive attempt, an execution, a producer and a transcript; the
  artifacts of the requirement are exactly those of the binding, each recorded in the manifest for that run, task and
  attempt, and each with its bytes intact in the store.
\<close>

theorem evidence_bound:
  assumes "Verify env m s = Inr ()" "r \<in> set (em_results m)" "er_requirement r = task_req i" "er_status r = ''passed''"
  shows "\<exists>b. er_binding r = Some b \<and>
    (er_resolution r = None \<and> bound_to env m s b i (er_artifacts r) \<or>
     (\<exists>t q. er_resolution r = Some t \<and> es_original t \<in> {TaskError, TaskBlocked} \<and> es_by t \<noteq> i \<and>
        taskManifestEvidence (Some m) (es_by t) = Some q \<and> er_status q = ''passed'' \<and> er_resolution q = None \<and>
        er_binding q = Some b \<and> bound_to env m s b (es_by t) (er_artifacts r)))"
  using assms by (cases rule: verified_requirement) auto

section \<open>Built manifests\<close>

text \<open>
  What satisfies the requirement of an item by itself: for a decision, its proof; for a task, that it is done with a
  successful receipt of its own in the run whose evidence counts for it.
\<close>

definition executed :: "('c, 'r, 'p) evidence_env \<Rightarrow> build_request \<Rightarrow> ('c, 'r, 'p) run_item \<Rightarrow> bool" where
  "executed env req x \<longleftrightarrow> ru_status x = TaskDone \<and>
     (if ru_primary x then \<exists>p. ru_proof x = Some p \<and> ee_proof env p (Some x)
      else \<exists>run p. evidence_run req x = Inr run \<and> latestSuccessfulExecutionReceipt x run = Some p \<and>
             xr_task p = ru_id x \<and> xr_run p = run \<and> xr_exit p = Some 0)"

definition requirement_of :: "('c, 'r, 'p) run_item \<Rightarrow> string" where
  "requirement_of x = (if ru_primary x then ''primary_decision_valid'' else task_req (ru_id x))"

lemma bound_receipt:
  assumes "bindEvidenceResult run x receipt r = Inr r'"
  shows "\<exists>p. receipt = Some p \<and> xr_run p = run \<and> xr_task p = ru_id x" "er_requirement r' = er_requirement r"
    "er_status r' = er_status r"
  using assms by (auto simp: bindEvidenceResult_def split: option.splits if_splits)

lemma task_requirement_fields [simp]:
  "er_requirement (task_requirement i st) = task_req i" "er_status (task_requirement i st) = st"
  by (simp_all add: task_requirement_def)

lemma failed_evidence_result:
  "failed_evidence env run x strict s = (Inr (r, refs, f), s') \<Longrightarrow>
   er_requirement r = task_req (ru_id x) \<and> er_status r = ''failed''"
  by (auto simp: failed_evidence_def Let_def split: option.splits prod.splits sum.splits if_splits)

lemma bind_or_fail_result:
  assumes "bind_or_fail run x strict r s = (Inr (r', refs, f), s')"
  shows "er_requirement r' = er_requirement r"
    "er_status r' = ''passed'' \<Longrightarrow> \<exists>p. latestSuccessfulExecutionReceipt x run = Some p \<and> xr_run p = run \<and> xr_task p = ru_id x"
  using assms by (auto simp: bind_or_fail_def dest: bound_receipt split: sum.splits if_splits)

lemma task_evidence_result:
  assumes "buildTaskEvidence env run x strict s = (Inr (r, refs, f), s')"
  shows "er_requirement r = task_req (ru_id x)"
    "er_status r = ''passed'' \<Longrightarrow> ru_status x = TaskDone \<and>
       (\<exists>p. latestSuccessfulExecutionReceipt x run = Some p \<and> xr_run p = run \<and> xr_task p = ru_id x)"
proof -
  show "er_requirement r = task_req (ru_id x)"
  proof (cases "ru_status x = TaskDone")
    case True
    with assms show ?thesis
      by (auto simp: buildTaskEvidence_def andThen_Inr Let_def dest: bind_or_fail_result(1) split: if_splits)
  qed (use assms failed_evidence_result [of env run x strict s r refs f s'] in \<open>simp add: buildTaskEvidence_def\<close>)
  assume ok: "er_status r = ''passed''"
  show "ru_status x = TaskDone \<and>
       (\<exists>p. latestSuccessfulExecutionReceipt x run = Some p \<and> xr_run p = run \<and> xr_task p = ru_id x)"
  proof (cases "ru_status x = TaskDone")
    case True
    with assms ok show ?thesis
      by (auto simp: buildTaskEvidence_def andThen_Inr Let_def dest: bind_or_fail_result(2) split: if_splits)
  qed (use assms ok failed_evidence_result [of env run x strict s r refs f s'] in \<open>simp add: buildTaskEvidence_def\<close>)
qed

definition accounts :: "('c, 'r, 'p) evidence_env \<Rightarrow> build_request \<Rightarrow> ('c, 'r, 'p) run_item \<Rightarrow> 'p evidence_result \<Rightarrow> bool" where
  "accounts env req x r \<longleftrightarrow> er_requirement r = requirement_of x \<and> (er_status r = ''passed'' \<longrightarrow> executed env req x)"

lemma primary_accounts: "ru_primary x \<Longrightarrow> accounts env req x (primary_evidence env x)"
  by (auto simp: accounts_def requirement_of_def primary_evidence_def executed_def Let_def split: option.splits)

lemma task_accounts:
  assumes "\<not> ru_primary x" "evidence_run req x = Inr run"
    and "buildTaskEvidence env run x strict s = (Inr (r, refs, f), s')"
  shows "accounts env req x r"
proof -
  note t = task_evidence_result [OF assms(3)]
  show ?thesis
  proof (cases "er_status r = ''passed''")
    case True
    from t(2) [OF True] obtain p where "ru_status x = TaskDone" "latestSuccessfulExecutionReceipt x run = Some p"
      "xr_run p = run" "xr_task p = ru_id x" by blast
    with winning_receipt(2) assms(1,2) t(1) show ?thesis
      by (auto simp: accounts_def requirement_of_def executed_def)
  qed (use t(1) assms(1) in \<open>simp add: accounts_def requirement_of_def\<close>)
qed

lemma built_accounts:
  "build_items env req xs b s = (Inr b', s') \<Longrightarrow>
   \<exists>new. em_results (bu_manifest b') = em_results (bu_manifest b) @ new \<and> list_all2 (accounts env req) xs new \<and>
     em_run (bu_manifest b') = em_run (bu_manifest b)"
proof (induction xs arbitrary: b s)
  case (Cons x xs)
  show ?case
  proof (cases "ru_primary x")
    case True
    let ?b = "b\<lparr>bu_primary := bu_primary b + 1,
       bu_manifest := (bu_manifest b)\<lparr>em_results := em_results (bu_manifest b) @ [primary_evidence env x]\<rparr>\<rparr>"
    from Cons.prems True have "build_items env req xs ?b s = (Inr b', s')" by (simp add: Let_def split: if_splits)
    from Cons.IH [OF this] obtain new where "em_results (bu_manifest b') = em_results (bu_manifest ?b) @ new"
      "list_all2 (accounts env req) xs new" "em_run (bu_manifest b') = em_run (bu_manifest ?b)" by blast
    with primary_accounts [OF True, of env req] show ?thesis
      by (intro exI [of _ "primary_evidence env x # new"]) simp
  next
    case False
    with Cons.prems obtain run r refs f s1 where *: "evidence_run req x = Inr run"
      "buildTaskEvidence env run x (br_strict req) s = (Inr (r, refs, f), s1)"
      "build_items env req xs
         (b\<lparr>bu_supporting := bu_supporting b + 1,
            bu_completed := (if ru_status x = TaskDone then bu_completed b + 1 else bu_completed b),
            bu_manifest := (bu_manifest b)\<lparr>em_artifacts := em_artifacts (bu_manifest b) @ refs,
               em_results := em_results (bu_manifest b) @ [r]\<rparr>\<rparr>) s1 = (Inr b', s')"
      by (auto simp: Let_def andThen_Inr split: sum.splits)
    from Cons.IH [OF *(3)] obtain new where "em_results (bu_manifest b') = em_results (bu_manifest b) @ [r] @ new"
      "list_all2 (accounts env req) xs new" "em_run (bu_manifest b') = em_run (bu_manifest b)" by auto
    with task_accounts [OF False *(1,2)] show ?thesis by (intro exI [of _ "r # new"]) simp
  qed
qed simp

text \<open>After the resolutions: a passed requirement was executed, or its item has a verified replacement.\<close>

definition settled ::
  "('c, 'r, 'p) evidence_env \<Rightarrow> build_request \<Rightarrow> ('c, 'r, 'p) run_item list \<Rightarrow> ('c, 'r, 'p) run_item \<Rightarrow> 'p evidence_result \<Rightarrow> bool" where
  "settled env req items x r \<longleftrightarrow> er_requirement r = requirement_of x \<and>
     (er_status r = ''passed'' \<longrightarrow> executed env req x \<or>
        verified_resolver (ee_resolution env) x items (br_run req) \<noteq> None)"

lemma requirement_task: "requirement_of x = task_req i \<longleftrightarrow> \<not> ru_primary x \<and> ru_id x = i"
  by (auto simp: requirement_of_def task_req_def)

lemma apply_resolution_cases:
  obtains "apply_resolution env items z m = m"
  | y q where "verified_resolver (ee_resolution env) z items (em_run m) = Some y"
      "apply_resolution env items z m = m\<lparr>em_results := map (resolved_result z y q) (em_results m)\<rparr>"
proof (cases "apply_resolution env items z m = m")
  case False
  then obtain y where y: "verified_resolver (ee_resolution env) z items (em_run m) = Some y"
    by (cases "verified_resolver (ee_resolution env) z items (em_run m)") (simp_all add: apply_resolution_def)
  with False obtain q where "taskManifestEvidence (Some m) (ru_id y) = Some q"
    by (cases "taskManifestEvidence (Some m) (ru_id y)") (simp_all add: apply_resolution_def split: option.splits)
  with y False have "apply_resolution env items z m = m\<lparr>em_results := map (resolved_result z y q) (em_results m)\<rparr>"
    by (auto simp: apply_resolution_def split: option.splits if_splits)
  with y show thesis by (rule that(2))
qed (rule that(1))

lemma apply_resolution_run [simp]: "em_run (apply_resolution env items z m) = em_run m"
  by (cases rule: apply_resolution_cases [of env items z m]) auto

lemma resolution_settled:
  assumes "distinct (map ru_id items)" "z \<in> set items" "em_run m = br_run req"
    and "list_all2 (settled env req items) items (em_results m)"
  shows "list_all2 (settled env req items) items (em_results (apply_resolution env items z m))"
proof (cases rule: apply_resolution_cases [of env items z m])
  case (2 y q)
  have "settled env req items x (resolved_result z y q r)" if "settled env req items x r" "x \<in> set items" for x r
  proof (cases "er_requirement r = task_req (ru_id z)")
    case True
    with that(1) have "requirement_of x = task_req (ru_id z)" by (simp add: settled_def)
    then have "ru_id x = ru_id z" by (simp add: requirement_task)
    with assms(1,2) that(2) have "x = z" by (auto simp: distinct_map inj_on_def)
    with that(1) 2(1) assms(3) show ?thesis by (simp add: settled_def resolved_result_def)
  qed (use that(1) in \<open>simp add: resolved_result_def\<close>)
  with assms(4) show ?thesis
    unfolding 2(2) by (auto simp: list.rel_map intro: list.rel_mono_strong)
qed (use assms(4) in simp)

lemma resolutions_settled:
  assumes "distinct (map ru_id items)" "set zs \<subseteq> set items" "em_run m = br_run req"
    and "list_all2 (settled env req items) items (em_results m)"
  shows "list_all2 (settled env req items) items (em_results (fold (apply_resolution env items) zs m))"
  using assms(2-4)
proof (induction zs arbitrary: m)
  case (Cons z zs)
  then have "list_all2 (settled env req items) items (em_results (apply_resolution env items z m))"
    using resolution_settled [OF assms(1) _ Cons.prems(2,3), of z] by auto
  with Cons show ?case by simp
qed simp

lemma seal_fields:
  "Seal env m = Inr m' \<Longrightarrow> em_results m' = em_results m \<and> em_run m' = em_run m \<and> em_artifacts m' = em_artifacts m \<and>
     em_status m' = (if em_status m = [] then ''accepted'' else em_status m)"
  by (auto simp: Seal_def Let_def split: if_splits)

lemma built_manifest:
  assumes "distinct (map ru_id items)" "BuildRunManifest env req items s = (Inr m, s')" "em_status m = ''accepted''"
  shows "Verify env m s' = Inr ()" "em_run m = br_run req"
    "list_all2 (settled env req items) items (em_results m)" "\<forall>r\<in>set (em_results m). er_status r = ''passed''"
proof -
  from assms(2) obtain b where b: "build_items env req items
      \<lparr>bu_manifest = empty_manifest req, bu_completed = 0, bu_supporting = 0, bu_primary = 0\<rparr> s = (Inr b, s')"
    and m: "Seal env (closed_manifest env items b) = Inr m" "Verify env m s' = Inr ()"
    by (auto simp: BuildRunManifest_def andThen_Inr bindR_eq_Inr split: if_splits)
  note m0 = closed_manifest_def Let_def
  show "Verify env m s' = Inr ()" by (rule m(2))
  from built_accounts [OF b] have acc: "list_all2 (accounts env req) items (em_results (bu_manifest b))"
    "em_run (bu_manifest b) = br_run req" by (auto simp: empty_manifest_def)
  then have "list_all2 (settled env req items) items (em_results (bu_manifest b))"
    by (auto simp: settled_def accounts_def elim: list_all2_mono)
  from resolutions_settled [OF assms(1) order_refl acc(2) this] seal_fields [OF m(1)]
  show "list_all2 (settled env req items) items (em_results m)" by (simp add: m0 applyEvidenceResolutions_def)
  have "em_run (fold (apply_resolution env items) zs m') = em_run m'" for zs m'
    by (induction zs arbitrary: m') auto
  with acc(2) seal_fields [OF m(1)] show "em_run m = br_run req" by (simp add: m0 applyEvidenceResolutions_def)
  show "\<forall>r\<in>set (em_results m). er_status r = ''passed''"
    using assms(3) seal_fields [OF m(1)] by (auto simp: m0 list_all_iff split: if_splits)
qed

lemma in_list_all2: "list_all2 P xs ys \<Longrightarrow> x \<in> set xs \<Longrightarrow> \<exists>y\<in>set ys. P x y"
  by (metis in_set_conv_nth list_all2_conv_all_nth)

lemma accepted_items:
  assumes "distinct (map ru_id items)" "BuildRunManifest env req items s = (Inr m, s')" "em_status m = ''accepted''"
    and "x \<in> set items"
  shows "executed env req x \<or> ru_status x \<in> {TaskError, TaskBlocked} \<and>
    (\<exists>y\<in>set items. verified_resolver (ee_resolution env) x items (br_run req) = Some y \<and> executed env req y)"
proof -
  note b = built_manifest [OF assms(1-3)]
  have settled: "executed env req z \<or> verified_resolver (ee_resolution env) z items (br_run req) \<noteq> None"
    if "z \<in> set items" for z
    using in_list_all2 [OF b(3) that] b(4) by (auto simp: settled_def)
  have first: "find (\<lambda>u. ru_id u = ru_id z) items = Some z" if "z \<in> set items" for z
    using assms(1) that by (induction items) auto
  from settled [OF assms(4)] show ?thesis
  proof
    assume "verified_resolver (ee_resolution env) x items (br_run req) \<noteq> None"
    then obtain y where y: "verified_resolver (ee_resolution env) x items (br_run req) = Some y" by blast
    note f = verified_resolver_facts [OF y]
    have "executed env req y"
    proof (rule ccontr)
      assume "\<not> executed env req y"
      with settled [OF f(1)] obtain w where "verified_resolver (ee_resolution env) y items (br_run req) = Some w" by blast
      from verified_resolver_facts(5) [OF this first [OF f(1)]] f(3) show False by simp
    qed
    with y f(1) f(5) [OF first [OF assms(4)]] show ?thesis by blast
  qed simp
qed

text \<open>
  C18. An accepted manifest accounts for every task. When the manifest of a run is built as accepted, it verifies against the
  store, and every item of the list was executed - done, with its own successful receipt and transcript in the run, or with its
  decision proof - or had failed and is resolved by an item that was itself executed. Nothing skipped, pending or
  merely reported done is accepted.
\<close>

theorem manifest_accounts_for_all:
  assumes "distinct (map ru_id items)" "BuildRunManifest env req items s = (Inr m, s')" "em_status m = ''accepted''"
  shows "Verify env m s' = Inr () \<and>
    (\<forall>x\<in>set items. executed env req x \<or> ru_status x \<in> {TaskError, TaskBlocked} \<and>
       (\<exists>y\<in>set items. verified_resolver (ee_resolution env) x items (br_run req) = Some y \<and> executed env req y))"
  using accepted_items [OF assms] built_manifest(1) [OF assms] by blast

section \<open>A run in which one task completed\<close>

definition sample_receipt :: execution_receipt where
  "sample_receipt = \<lparr>xr_run = ''r1'', xr_task = ''7'', xr_attempt = 1, xr_snapshot = [], xr_snapshot_hash = [],
     xr_action_hash = [], xr_bound = [], xr_invocation = [], xr_outputs_hash = [], xr_execution = ''e1'',
     xr_exit = Some 0, xr_producer = ''writer'', xr_transcript = ''t.log''\<rparr>"

definition sample_item :: "(unit, string, unit) run_item" where
  "sample_item =
     \<lparr>ru_task = demo_item\<lparr>ti_id := ''7'', ti_status := TaskDone,
        ti_verify := Some \<lparr>vr_exit = 0, vr_timed_out = False, vr_overturned = False, vr_body = []\<rparr>, ti_typed := None\<rparr>,
      ru_agent = ''writer'', ru_desc = [], ru_primary = False, ru_failure = None, ru_receipts = [sample_receipt],
      ru_receipt = None, ru_snapshot = [], ru_snapshot_hash = [], ru_action_hash = [], ru_bound = [],
      ru_outputs_hash = [], ru_artifacts = [], ru_proof = None\<rparr>"

definition sample_env :: "(unit, string, unit) evidence_env" where
  "sample_env = \<lparr>ee_sha = demo_sha, ee_json = (\<lambda>_. []), ee_proof = (\<lambda>_ _. True), ee_source = (\<lambda>_. Some ''ok''),
     ee_now = 5, ee_resolution = plain_env\<rparr>"

definition sample_request :: build_request where
  "sample_request = \<lparr>br_run = ''r1'', br_workspace = ''w'', br_strict = False, br_recovery = [], br_recovery_hash = [],
     br_runs = (\<lambda>_. [])\<rparr>"

definition sample_ref :: stored_ref where
  "sample_ref = \<lparr>sr_id = ''sha256-a1'', sr_kind = ''task_transcript'', sr_role = [], sr_path = ''t.log'',
     sr_desc = ''runner transcript for task 7'', sr_type = ''task_transcript'', sr_sha = ''a1'', sr_bytes = 2,
     sr_size = 2, sr_media = [], sr_run = ''r1'', sr_task = ''7'', sr_attempt = 1, sr_agent = ''writer'',
     sr_provider = [], sr_call = [], sr_created = 5\<rparr>"

definition sample_store :: artifact_store where
  "sample_store = \<lparr>as_data = [(''sha256-a1'', ''ok'')],
     as_meta = [(meta_name ''sha256-a1'', Some \<lparr>sm_ref = sample_ref, sm_origin = \<lparr>om_url = [], om_parents = []\<rparr>\<rparr>)],
     as_readonly = False\<rparr>"

definition sample_result :: "unit evidence_result" where
  "sample_result =
     \<lparr>er_requirement = task_req ''7'', er_status = ''passed'', er_validator = ''task-verification'',
      er_artifacts = [sample_ref],
      er_binding = Some \<lparr>eb_run = ''r1'', eb_task = ''7'', eb_attempt = 1, eb_execution = ''e1'', eb_producer = ''writer'',
        eb_transcript = ''t.log'', eb_artifacts = [''sha256-a1''], eb_snapshot = [], eb_snapshot_hash = [],
        eb_action_hash = [], eb_bound = [], eb_invocation = [], eb_outputs_hash = []\<rparr>,
      er_assertions = [], er_proof = None, er_resolution = None\<rparr>"

definition sample_manifest :: "unit evidence_manifest" where
  "sample_manifest =
     \<lparr>em_schema = 1, em_run = ''r1'', em_task = [], em_attempt = 0, em_policies = [], em_artifacts = [sample_ref],
      em_results = [sample_result], em_previous = [], em_hash = ''b2'', em_status = ''accepted'', em_recovery = [],
      em_recovery_hash = []\<rparr>"

lemma sample_env_fields [simp]:
  "ee_sha sample_env = demo_sha" "ee_json sample_env = (\<lambda>_. [])" "ee_source sample_env = (\<lambda>_. Some ''ok'')"
  "ee_now sample_env = 5" "ee_resolution sample_env = plain_env" "ee_proof sample_env = (\<lambda>_ _. True)"
  by (simp_all add: sample_env_def)

lemma sample_item_fields [simp]:
  "ru_id sample_item = ''7''" "ru_status sample_item = TaskDone" "ru_agent sample_item = ''writer''"
  "\<not> ru_primary sample_item" "ti_typed (ru_task sample_item) = None" "ti_resolution (ru_task sample_item) = None"
  "ru_snapshot sample_item = []" "ru_action_hash sample_item = []" "ru_outputs_hash sample_item = []"
  "ti_verify (ru_task sample_item) = Some \<lparr>vr_exit = 0, vr_timed_out = False, vr_overturned = False, vr_body = []\<rparr>"
  by (simp_all add: sample_item_def demo_item_def todoItemFromSpec_def)

lemma trim_log: "TrimSpace ''t.log'' = ''t.log''" "TrimSpace ''w'' = ''w''" "TrimSpace ''b2'' = ''b2''" "TrimSpace [] = []"
  by (rule rest_TrimSpace; simp add: name_rest_def name_first_def)+

lemma sample_winning: "latestSuccessfulExecutionReceipt sample_item ''r1'' = Some sample_receipt"
  by (simp add: latestSuccessfulExecutionReceipt_def sample_item_def sample_receipt_def Succeeded_def trim_log)

lemma sample_id: "validArtifactID ''sha256-a1''"
  by (simp add: validArtifactID_def Base_def)

lemma sample_transcript:
  "transcriptEvidenceRef sample_env sample_item sample_receipt ''r1'' new_store = (Inr sample_ref, sample_store)"
  using sample_id
  by (simp add: transcriptEvidenceRef_def put_and_project_def sample_receipt_def trim_log Put_def empty_put_def
      new_store_def put_ref_def demo_sha_def createOrVerifyArtifactFile_def createOrVerifyArtifactMetadata_def
      normalizeArtifactParentSourceIDs_def projectArtifactOccurrence_def store_get_def read_metadata_def
      store_verify_def sample_ref_def sample_store_def Let_def)

lemma sample_bound:
  "bindEvidenceResult ''r1'' sample_item (Some sample_receipt)
     ((task_requirement ''7'' ''passed'')\<lparr>er_artifacts := [sample_ref]\<rparr>) = Inr sample_result"
  by (simp add: bindEvidenceResult_def sample_receipt_def trim_log task_requirement_def sample_result_def)
    (simp add: sample_ref_def)

lemma sample_evidence:
  "buildTaskEvidence sample_env ''r1'' sample_item False new_store = (Inr (sample_result, [sample_ref], False), sample_store)"
proof -
  have c: "completion_evidence sample_env ''r1'' sample_item False new_store = (Inr (True, []), new_store)"
    by (simp add: completion_evidence_def)
  have w: "with_transcript sample_env ''r1'' sample_item False (True, []) new_store = (Inr (True, [sample_ref]), sample_store)"
    by (simp add: with_transcript_def sample_winning sample_transcript containsArtifactID_def)
  have "taskArtifactRefs sample_env ''r1'' sample_item False sample_store = (Inr ([], False), sample_store)"
    by (simp add: taskArtifactRefs_def)
  moreover have "bind_or_fail ''r1'' sample_item False
      ((task_requirement ''7'' ''passed'')\<lparr>er_artifacts := [sample_ref]\<rparr>) sample_store =
      (Inr (sample_result, [sample_ref], False), sample_store)"
    by (simp add: bind_or_fail_def sample_winning sample_bound)
  ultimately show ?thesis
    by (simp add: buildTaskEvidence_def c w add_refs_def Let_def)
qed

lemma sample_request_fields [simp]:
  "br_run sample_request = ''r1''" "br_workspace sample_request = ''w''" "\<not> br_strict sample_request"
  "br_recovery sample_request = []" "br_recovery_hash sample_request = []" "br_runs sample_request = (\<lambda>_. [])"
  by (simp_all add: sample_request_def)

lemma sample_binding: "verifyEvidenceBinding sample_manifest sample_result = Inr ()"
  by (simp add: verifyEvidenceBinding_def sample_result_def check_binding_def sample_manifest_def
      verifyEvidenceInputBinding_def in_manifest_def sample_ref_def)

lemma sample_verified: "Verify sample_env sample_manifest sample_store = Inr ()"
proof -
  have f: "\<not> EqualFold ''passed'' ''error''" "\<not> EqualFold ''passed'' ''failed''"
    by (simp_all add: EqualFold.simps ascii_lower_def)
  have p: "task_req ''7'' \<noteq> ''primary_decision_valid''" by (simp add: task_req_def)
  have "verify_result sample_env sample_manifest sample_result = Inr ()"
    using sample_binding f p by (simp add: verify_result_def as_error_def) (simp add: sample_result_def)
  moreover have "store_verify demo_sha sample_ref sample_store = Inr ()"
    using sample_id by (simp add: store_verify_def sample_ref_def sample_store_def demo_sha_def)
  ultimately show ?thesis using p
    by (simp add: Verify_def sample_manifest_def manifest_digest_def demo_sha_def as_error_def)
      (simp add: sample_result_def)
qed

lemma sample_built: "BuildRunManifest sample_env sample_request [sample_item] new_store = (Inr sample_manifest, sample_store)"
proof -
  have r: "evidence_run sample_request sample_item = Inr ''r1''"
    by (simp add: evidence_run_def)
  have v: "verified_resolver plain_env sample_item [sample_item] run = None" for run
    by (simp add: verified_resolver_def VerifiedTaskResolution_def)
  let ?m = "(empty_manifest sample_request)\<lparr>em_artifacts := [sample_ref], em_results := [sample_result]\<rparr>"
  have "build_items sample_env sample_request [sample_item]
      \<lparr>bu_manifest = empty_manifest sample_request, bu_completed = 0, bu_supporting = 0, bu_primary = 0\<rparr> new_store =
      (Inr \<lparr>bu_manifest = ?m, bu_completed = 1, bu_supporting = 1, bu_primary = 0\<rparr>, sample_store)"
    by (simp add: r Let_def sample_evidence empty_manifest_def)
  moreover have "Seal sample_env (closed_manifest sample_env [sample_item]
      \<lparr>bu_manifest = ?m, bu_completed = 1, bu_supporting = 1, bu_primary = 0\<rparr>) = Inr sample_manifest"
    by (simp add: Seal_def closed_manifest_def applyEvidenceResolutions_def apply_resolution_def v Let_def
        empty_manifest_def manifest_digest_def demo_sha_def sample_manifest_def)
      (simp add: sample_result_def)
  ultimately show ?thesis
    using sample_verified by (simp add: BuildRunManifest_def trim_log)
qed

theorem evidence_bound_witness:
  "\<exists>b. er_binding sample_result = Some b \<and> eb_task b = ''7'' \<and> eb_artifacts b = [''sha256-a1'']"
proof -
  have r: "sample_result \<in> set (em_results sample_manifest)" "er_requirement sample_result = task_req ''7''"
    "er_status sample_result = ''passed''" by (simp_all add: sample_manifest_def sample_result_def)
  from evidence_bound [OF sample_verified r] obtain b where "er_binding sample_result = Some b" by blast
  then show ?thesis by (auto simp: sample_result_def)
qed

theorem manifest_accounts_for_all_witness:
  "Verify sample_env sample_manifest sample_store = Inr () \<and> executed sample_env sample_request sample_item"
proof -
  have "distinct (map ru_id [sample_item])" "em_status sample_manifest = ''accepted''" by (simp_all add: sample_manifest_def)
  from manifest_accounts_for_all [OF this(1) sample_built this(2)] show ?thesis by simp
qed

end
