(* ===== verification/Run_Certification.thy ===== *)
theory Run_Certification
  imports Evidence_Safety
begin

text \<open>
  The completion gate of \<open>internal/team/completion_gate.go\<close>, the sole policy that certifies a run, and the way a
  finishing run reaches it: the manifest is built and finalized (\<open>evidence_manifest.go\<close>), the outcome is evaluated over the
  unresolved items (\<open>coordinator_tools.go\<close>), and the gate may only downgrade the result. The two checks of
  a request acceptance (\<open>RequestAcceptanceContractFromSnapshot\<close>, \<open>ValidateRequestAcceptanceBinding\<close>), the semantic
  regression decision and the leaks of terminal sessions are arguments: an error or reason, if any. The learning
  candidates confirmed or rejected alongside, and the warnings that adds, are left out.
\<close>

section \<open>The gate\<close>

datatype gate_reason =
    NotSatisfied | RequestResultMissing | RequestSnapshot string | RequestBinding string | AcceptanceNotPassed
  | ManifestMissing | ManifestStatus string | ManifestNoDigest | ManifestInvalid evidence_error
  | RequirementNotPassed string string | TaskNotDone string task_status | UnresolvedRisk string
  | TerminalLeak string | SemanticReason string | SemanticNotPassed

record semantic_decision =
  sd_configured :: bool
  sd_clear :: bool
  sd_reasons :: "string list"

record ('w, 'p) gate_input =
  gi_result :: "'w run_result option"
  gi_acceptance :: "acceptance_result option"
  gi_evidence :: "'p evidence_manifest option"
  gi_required :: "(string \<times> task_status) list"
  gi_request_required :: bool
  gi_snapshot_error :: "string option"
  gi_binding_error :: "string option"
  gi_risks :: "string list"
  gi_leaks :: "string list"
  gi_store :: "artifact_store option"
  gi_semantic :: semantic_decision

definition task_proved :: "'p evidence_manifest option \<Rightarrow> string \<Rightarrow> task_status \<Rightarrow> bool" where
  "task_proved evidence i st =
     (case taskManifestEvidence evidence i of None \<Rightarrow> False
      | Some proof \<Rightarrow>
          er_status proof = ''passed'' \<and>
          (case er_resolution proof of None \<Rightarrow> False
           | Some t \<Rightarrow> es_original t = st \<and>
               (case evidence of None \<Rightarrow> False | Some m \<Rightarrow> verifyEvidenceResolution m proof = Inr ())))"

definition result_reasons :: "('w, 'p) gate_input \<Rightarrow> gate_reason list" where
  "result_reasons g =
     (case gi_result g of None \<Rightarrow> [NotSatisfied]
      | Some r \<Rightarrow> if rr_outcome r \<noteq> RunOutcomeCompleted \<or> \<not> rr_satisfied r then [NotSatisfied] else []) @
     (if \<not> gi_request_required g then []
      else case gi_result g of None \<Rightarrow> [RequestResultMissing]
        | Some _ \<Rightarrow> (case gi_snapshot_error g of None \<Rightarrow> [] | Some e \<Rightarrow> [RequestSnapshot e])) @
     (case gi_binding_error g of None \<Rightarrow> [] | Some e \<Rightarrow> [RequestBinding e]) @
     (case (case gi_acceptance g of None \<Rightarrow> (case gi_result g of None \<Rightarrow> None | Some r \<Rightarrow> rr_acceptance r) | a \<Rightarrow> a) of
        None \<Rightarrow> [AcceptanceNotPassed] | Some a \<Rightarrow> if IsPassed a then [] else [AcceptanceNotPassed])"

definition manifest_reasons :: "('c, 'r, 'p) evidence_env \<Rightarrow> ('w, 'p) gate_input \<Rightarrow> gate_reason list" where
  "manifest_reasons env g =
     (case gi_evidence g of None \<Rightarrow> [ManifestMissing]
      | Some m \<Rightarrow>
          (if em_status m \<noteq> ''accepted'' then [ManifestStatus (em_status m)] else []) @
          (if TrimSpace (em_hash m) = [] then [ManifestNoDigest] else []) @
          (case gi_store g of None \<Rightarrow> []
           | Some s \<Rightarrow> (case Verify env m s of Inl e \<Rightarrow> [ManifestInvalid e] | Inr _ \<Rightarrow> [])) @
          map (\<lambda>r. RequirementNotPassed (er_requirement r) (er_status r))
            (filter (\<lambda>r. er_status r \<noteq> ''passed'') (em_results m)))"

definition task_reasons :: "('w, 'p) gate_input \<Rightarrow> gate_reason list" where
  "task_reasons g =
     map (\<lambda>(i, st). TaskNotDone i st)
       (filter (\<lambda>(i, st). st \<noteq> TaskDone \<and> \<not> task_proved (gi_evidence g) i st) (gi_required g))"

definition closing_reasons :: "('w, 'p) gate_input \<Rightarrow> gate_reason list" where
  "closing_reasons g =
     map UnresolvedRisk (filter (\<lambda>w. w \<noteq> []) (map TrimSpace (gi_risks g))) @
     map TerminalLeak (filter (\<lambda>w. w \<noteq> []) (map TrimSpace (gi_leaks g))) @
     (if sd_configured (gi_semantic g) \<and> \<not> sd_clear (gi_semantic g)
      then (if sd_reasons (gi_semantic g) = [] then [SemanticNotPassed] else map SemanticReason (sd_reasons (gi_semantic g)))
      else [])"

definition Evaluate :: "('c, 'r, 'p) evidence_env \<Rightarrow> ('w, 'p) gate_input \<Rightarrow> bool \<times> gate_reason list" where
  "Evaluate env g =
     (let reasons = result_reasons g @ manifest_reasons env g @ task_reasons g @ closing_reasons g in
      (reasons = [], reasons))"

section \<open>Applying it\<close>

text \<open>What the coordinator knows when the gate runs; \<open>gw_render\<close> joins the reasons into text.\<close>

record ('c, 'r, 'p, 'w) gate_world =
  gw_workspace :: string
  gw_items :: "('c, 'r, 'p) run_item list"
  gw_manifest :: "'p evidence_manifest option"
  gw_store :: artifact_store
  gw_leaks :: "string list"
  gw_request :: bool
  gw_run :: string
  gw_redact :: "string \<Rightarrow> string"
  gw_snapshot_error :: "'w run_result \<Rightarrow> string option"
  gw_binding_error :: "'w run_result option \<Rightarrow> string option"
  gw_semantic :: semantic_decision
  gw_render :: "gate_reason list \<Rightarrow> string"

definition presented :: "('c, 'r, 'p, 'w) gate_world \<Rightarrow> 'w run_result option \<Rightarrow> 'w run_result option" where
  "presented w result =
     (case result of None \<Rightarrow> None
      | Some r \<Rightarrow> if gw_request w then Some (r\<lparr>rr_run := gw_run w, rr_response := gw_redact w (rr_response r)\<rparr>) else Some r)"

definition gate_of ::
  "('c, 'r, 'p, 'w) gate_world \<Rightarrow> 'w run_result option \<Rightarrow> acceptance_result option \<Rightarrow> ('w, 'p) gate_input" where
  "gate_of w result acceptance =
     \<lparr>gi_result = result, gi_acceptance = acceptance, gi_evidence = gw_manifest w,
      gi_required = map (\<lambda>x. (ru_id x, ru_status x)) (gw_items w), gi_request_required = gw_request w,
      gi_snapshot_error = (case result of None \<Rightarrow> None | Some r \<Rightarrow> gw_snapshot_error w r),
      gi_binding_error = gw_binding_error w result, gi_risks = [], gi_leaks = gw_leaks w,
      gi_store = Some (gw_store w), gi_semantic = gw_semantic w\<rparr>"

definition applyCompletionGate ::
  "('c, 'r, 'p) evidence_env \<Rightarrow> ('c, 'r, 'p, 'w) gate_world \<Rightarrow> 'w run_result option \<Rightarrow> acceptance_result option \<Rightarrow>
   'w run_result option" where
  "applyCompletionGate env w result acceptance =
     (if TrimSpace (gw_workspace w) = [] then result
      else let result = presented w result; (accepted, reasons) = Evaluate env (gate_of w result acceptance) in
        case result of None \<Rightarrow> None
        | Some r \<Rightarrow>
            if rr_outcome r \<noteq> RunOutcomeCompleted \<or> \<not> rr_satisfied r then Some r
            else if accepted then Some r
            else Some (r\<lparr>rr_outcome := RunOutcomePartial, rr_satisfied := False, rr_stop := StopReasonEvidenceIncomplete,
                        rr_exit := 7, rr_reason := gw_render w reasons\<rparr>))"

section \<open>Finishing\<close>

text \<open>
  \<open>finalizeEvidenceManifest\<close>: the manifest of the run, built now if there is none, with the acceptance
  observed; what is left in the coordinator is returned with the error, if any.
\<close>

definition finalizeEvidenceManifest ::
  "('c, 'r, 'p) evidence_env \<Rightarrow> build_request \<Rightarrow> ('c, 'r, 'p) run_item list \<Rightarrow> 'p evidence_manifest option \<Rightarrow>
   acceptance_result option \<Rightarrow> artifact_store \<Rightarrow> (evidence_error + unit) \<times> 'p evidence_manifest option \<times> artifact_store" where
  "finalizeEvidenceManifest env req items prior a s =
     (case prior of
        Some m \<Rightarrow>
          (case FinalizeRunManifest env (br_workspace req) (Some m) a s of (r, kept) \<Rightarrow>
             (case r of Inl e \<Rightarrow> (Inl e, kept, s) | Inr m' \<Rightarrow> (Inr (), Some m', s)))
      | None \<Rightarrow>
          (case BuildRunManifest env (req\<lparr>br_strict := False\<rparr>) items s of
             (Inl e, s') \<Rightarrow> (Inl e, None, s')
           | (Inr m, s') \<Rightarrow>
               (case FinalizeRunManifest env (br_workspace req) (Some m) a s' of (r, kept) \<Rightarrow>
                  (case r of Inl e \<Rightarrow> (Inl e, kept, s') | Inr m' \<Rightarrow> (Inr (), Some m', s')))))"

text \<open>
  The finish of a run with an advisory profile: errors of the manifest are reported and the run goes on to the gate.
  An older manifest stays in place when building fails.
\<close>

definition finish_run ::
  "('c, 'r, 'p) evidence_env \<Rightarrow> ('c, 'r, 'p, 'w) gate_world \<Rightarrow> (('c, 'r, 'p) run_item \<Rightarrow> string) \<Rightarrow> build_request \<Rightarrow>
   acceptance_result option \<Rightarrow> string \<Rightarrow> run_metrics \<Rightarrow> string \<Rightarrow> 'w run_result option" where
  "finish_run env w display req acceptance response metrics mode =
     (let items = gw_items w;
          (built, s) = BuildRunManifest env (req\<lparr>br_strict := False\<rparr>) items (gw_store w);
          prior = (case built of Inl _ \<Rightarrow> gw_manifest w | Inr m \<Rightarrow> Some m);
          (_, manifest, s) = finalizeEvidenceManifest env req items prior acceptance s;
          r = (EvaluateRunOutcome
                 \<lparr>vi_unresolved = unresolved_at_finish (ee_resolution env) display items,
                  vi_acceptance = (case acceptance of None \<Rightarrow> AcceptanceNotConfigured | Some a \<Rightarrow> ac_state a),
                  vi_cancelled = False, vi_stalled = False, vi_budget = False, vi_interrupted = False,
                  vi_failed = False, vi_exit = 0, vi_response = response, vi_reason = [],
                  vi_stats = SummarizeRunStats (ee_resolution env) items, vi_metrics = metrics, vi_mode = mode\<rparr>)
              \<lparr>rr_acceptance := acceptance\<rparr> in
      applyCompletionGate env (w\<lparr>gw_manifest := manifest, gw_store := s\<rparr>) (Some r) acceptance)"

section \<open>What certification means\<close>

lemma evaluate_accepted:
  "fst (Evaluate env g) \<longleftrightarrow>
     result_reasons g = [] \<and> manifest_reasons env g = [] \<and> task_reasons g = [] \<and> closing_reasons g = []"
  by (simp add: Evaluate_def Let_def)

lemma gate_certifies:
  assumes "applyCompletionGate env w (Some r) acceptance = Some r'" "TrimSpace (gw_workspace w) \<noteq> []"
    and "rr_outcome r' = RunOutcomeCompleted" "rr_satisfied r'"
  shows "Some r' = presented w (Some r)" "rr_outcome r = RunOutcomeCompleted" "rr_satisfied r"
    "fst (Evaluate env (gate_of w (presented w (Some r)) acceptance))"
  using assms by (auto simp: applyCompletionGate_def presented_def Let_def split: prod.splits if_splits)

lemma manifest_accepted:
  assumes "manifest_reasons env g = []" "gi_store g = Some s"
  obtains m where "gi_evidence g = Some m" "em_status m = ''accepted''" "Verify env m s = Inr ()"
    "\<forall>r\<in>set (em_results m). er_status r = ''passed''"
  using assms by (auto simp: manifest_reasons_def filter_empty_conv split: option.splits sum.splits if_splits)

lemma tasks_accepted:
  "task_reasons g = [] \<Longrightarrow> (i, st) \<in> set (gi_required g) \<Longrightarrow> st = TaskDone \<or> task_proved (gi_evidence g) i st"
  by (auto simp: task_reasons_def filter_empty_conv)

text \<open>The manifest satisfies a task through another one that passed in its own right.\<close>

definition replaced :: "'p evidence_manifest \<Rightarrow> string \<Rightarrow> bool" where
  "replaced m i \<longleftrightarrow>
     (\<exists>p t q. taskManifestEvidence (Some m) i = Some p \<and> er_status p = ''passed'' \<and> er_resolution p = Some t \<and>
        taskManifestEvidence (Some m) (es_by t) = Some q \<and> er_status q = ''passed'' \<and> er_resolution q = None \<and>
        es_by t \<noteq> i)"

lemma proved_task:
  assumes "task_proved (Some m) i st"
  shows "st \<in> {TaskError, TaskBlocked}"
    "replaced m i"
proof -
  from assms obtain p t where p: "taskManifestEvidence (Some m) i = Some p" "er_status p = ''passed''"
    "er_resolution p = Some t" "es_original t = st" "verifyEvidenceResolution m p = Inr ()"
    by (auto simp: task_proved_def split: option.splits)
  have "er_requirement p = task_req i" using unique_evidence [OF p(1)] by blast
  with p(3,5) obtain q where "es_original t \<in> {TaskError, TaskBlocked}" "es_by t \<noteq> i"
    "taskManifestEvidence (Some m) (es_by t) = Some q" "er_status q = ''passed''" "er_resolution q = None"
    by (auto simp: verifyEvidenceResolution_def split: if_splits option.splits)
  with p show "st \<in> {TaskError, TaskBlocked}" "replaced m i" by (auto simp: replaced_def)
qed

lemma gate_evidence:
  assumes "applyCompletionGate env w (Some r) (Some a) = Some r'" "TrimSpace (gw_workspace w) \<noteq> []"
    and "rr_outcome r' = RunOutcomeCompleted" "rr_satisfied r'"
  shows "rr_outcome r = RunOutcomeCompleted \<and> rr_satisfied r \<and> IsPassed a \<and>
    (\<exists>m. gw_manifest w = Some m \<and> em_status m = ''accepted'' \<and> Verify env m (gw_store w) = Inr () \<and>
       (\<forall>e\<in>set (em_results m). er_status e = ''passed'') \<and>
       (\<forall>x\<in>set (gw_items w).
          ru_status x = TaskDone \<or> ru_status x \<in> {TaskError, TaskBlocked} \<and> replaced m (ru_id x))) \<and>
    (\<forall>l\<in>set (gw_leaks w). TrimSpace l = [])"
proof -
  note g = gate_certifies [OF assms]
  let ?g = "gate_of w (presented w (Some r)) (Some a)"
  from g(4) have parts: "result_reasons ?g = []" "manifest_reasons env ?g = []" "task_reasons ?g = []" "closing_reasons ?g = []"
    by (auto simp: evaluate_accepted)
  have "IsPassed a" using parts(1) by (simp add: result_reasons_def gate_of_def split: if_splits)
  moreover obtain m where m: "gw_manifest w = Some m" "em_status m = ''accepted''" "Verify env m (gw_store w) = Inr ()"
    "\<forall>r\<in>set (em_results m). er_status r = ''passed''"
    by (rule manifest_accepted [OF parts(2), of "gw_store w"]) (simp_all add: gate_of_def)
  moreover have "ru_status x = TaskDone \<or> task_proved (Some m) (ru_id x) (ru_status x)" if "x \<in> set (gw_items w)" for x
    using tasks_accepted [OF parts(3), of "ru_id x" "ru_status x"] that m(1) by (auto simp: gate_of_def)
  moreover have "\<forall>l\<in>set (gw_leaks w). TrimSpace l = []"
    using parts(4) by (auto simp: closing_reasons_def gate_of_def filter_empty_conv)
  ultimately show ?thesis using g(2,3) m proved_task [of m] by blast
qed

text \<open>
  C8. Only evidence certifies. A result that leaves the gate as completed with the goal satisfied entered it as such - the gate
  never upgrades - and then its acceptance passed; an accepted manifest verifies against the store with every requirement
  passed; every task of the list is done, or it failed and the manifest proves its replacement by a task that passed in its
  own right; and no terminal session leaks.
\<close>

theorem only_evidence_certifies:
  assumes "applyCompletionGate env w (Some r) (Some a) = Some r'" "TrimSpace (gw_workspace w) \<noteq> []"
    and "rr_outcome r' = RunOutcomeCompleted" "rr_satisfied r'"
  shows "rr_outcome r = RunOutcomeCompleted \<and> rr_satisfied r \<and> IsPassed a \<and>
    (\<exists>m. gw_manifest w = Some m \<and> em_status m = ''accepted'' \<and> Verify env m (gw_store w) = Inr () \<and>
       (\<forall>e\<in>set (em_results m). er_status e = ''passed'') \<and>
       (\<forall>x\<in>set (gw_items w).
          ru_status x = TaskDone \<or> ru_status x \<in> {TaskError, TaskBlocked} \<and> replaced m (ru_id x))) \<and>
    (\<forall>l\<in>set (gw_leaks w). TrimSpace l = [])"
  by (rule gate_evidence [OF assms])

section \<open>A run that finishes as completed\<close>

lemma finalized_accepted: "finalized_status a st = ''accepted'' \<longleftrightarrow> st = ''accepted'' \<and> (\<exists>x. a = Some x \<and> IsPassed x)"
  by (auto simp: finalized_status_def acceptance_evidence_def IsPassed_def Let_def split: option.splits if_splits)

lemma finalized_empty: "finalized_status a st = [] \<longrightarrow> st = []"
  by (auto simp: finalized_status_def split: if_splits)

lemma finalize_keeps:
  assumes "FinalizeRunManifest env workspace (Some m) a s = (r, kept)" "TrimSpace workspace \<noteq> []"
    and "em_run m \<noteq> []" "em_status m \<noteq> []"
  obtains m' where "kept = Some m'" "em_status m' = finalized_status a (em_status m)"
    "em_results m' = drop_acceptance (em_results m) @ [acceptance_evidence a]" "\<forall>m''. r = Inr m'' \<longrightarrow> m'' = m'"
proof -
  let ?m = "m\<lparr>em_results := drop_acceptance (em_results m) @ [acceptance_evidence a],
              em_status := finalized_status a (em_status m)\<rparr>"
  obtain m' where m': "Seal env ?m = Inr m'" using assms(3) by (auto simp: Seal_def Let_def)
  have "em_status m' = finalized_status a (em_status m)" "em_results m' = em_results ?m"
    using seal_fields [OF m'] finalized_empty [of a "em_status m"] assms(4) by auto
  with assms(1,2) m' show thesis
    by (intro that [of m']) (auto simp: FinalizeRunManifest_def Let_def split: sum.splits)
qed

lemma built_fields:
  assumes "BuildRunManifest env req items s = (Inr m, s')"
  shows "em_run m \<noteq> []" "em_status m \<noteq> []" "TrimSpace (br_workspace req) \<noteq> []"
  using assms seal_fields by (auto simp: BuildRunManifest_def andThen_Inr bindR_eq_Inr closed_manifest_def Let_def Seal_def
      split: if_splits)

text \<open>
  C5. The whole way. When a run with distinct task ids, whose manifest could be built, finishes as completed with the goal
  satisfied, then its exit code is 0, its acceptance gate had passed, and every task of its list was executed with its own
  successful receipt (or decision proof), or had failed and was resolved by a task that was executed itself; the
  manifest kept for the run is accepted, verifies against the store and carries the passed acceptance.
\<close>

theorem completed_run_accounted:
  assumes "distinct (map ru_id (gw_items w))" "TrimSpace (gw_workspace w) \<noteq> []"
    and "BuildRunManifest env (req\<lparr>br_strict := False\<rparr>) (gw_items w) (gw_store w) = (Inr m, s1)"
    and "finish_run env w display req (Some a) response metrics mode = Some r"
    and "rr_outcome r = RunOutcomeCompleted" "rr_satisfied r"
  shows "rr_exit r = 0 \<and> IsPassed a \<and>
    (\<forall>x\<in>set (gw_items w). executed env (req\<lparr>br_strict := False\<rparr>) x \<or> ru_status x \<in> {TaskError, TaskBlocked} \<and>
       (\<exists>y\<in>set (gw_items w). verified_resolver (ee_resolution env) x (gw_items w) (br_run req) = Some y \<and>
          executed env (req\<lparr>br_strict := False\<rparr>) y)) \<and>
    (\<exists>m'. Verify env m' s1 = Inr () \<and> em_status m' = ''accepted'' \<and>
       em_results m' = drop_acceptance (em_results m) @ [acceptance_evidence (Some a)])"
proof -
  let ?req = "req\<lparr>br_strict := False\<rparr>"
  obtain res kept where f: "FinalizeRunManifest env (br_workspace req) (Some m) (Some a) s1 = (res, kept)" by fastforce
  note b = built_fields [OF assms(3)]
  have "TrimSpace (br_workspace req) \<noteq> []" using b(3) by simp
  from finalize_keeps [OF f this b(1,2)] obtain m' where m': "kept = Some m'"
    "em_status m' = finalized_status (Some a) (em_status m)"
    "em_results m' = drop_acceptance (em_results m) @ [acceptance_evidence (Some a)]" "\<forall>m''. res = Inr m'' \<longrightarrow> m'' = m'" by blast
  let ?v = "\<lparr>vi_unresolved = unresolved_at_finish (ee_resolution env) display (gw_items w), vi_acceptance = ac_state a,
      vi_cancelled = False, vi_stalled = False, vi_budget = False, vi_interrupted = False, vi_failed = False, vi_exit = 0,
      vi_response = response, vi_reason = [], vi_stats = SummarizeRunStats (ee_resolution env) (gw_items w),
      vi_metrics = metrics, vi_mode = mode\<rparr>"
  let ?w = "w\<lparr>gw_manifest := Some m', gw_store := s1\<rparr>"
  have "finalizeEvidenceManifest env req (gw_items w) (Some m) (Some a) s1 =
      (case res of Inl e \<Rightarrow> Inl e | Inr _ \<Rightarrow> Inr (), Some m', s1)"
    using m' by (simp add: finalizeEvidenceManifest_def f split: sum.split)
  with assms(3,4) have gate: "applyCompletionGate env ?w (Some ((EvaluateRunOutcome ?v)\<lparr>rr_acceptance := Some a\<rparr>)) (Some a) = Some r"
    by (simp add: finish_run_def Let_def)
  have ws: "TrimSpace (gw_workspace ?w) \<noteq> []" using assms(2) by simp
  note g = gate_certifies [OF gate ws assms(5,6)]
  let ?g = "gate_of ?w (presented ?w (Some ((EvaluateRunOutcome ?v)\<lparr>rr_acceptance := Some a\<rparr>))) (Some a)"
  from g(4) have parts: "result_reasons ?g = []" "manifest_reasons env ?g = []" by (auto simp: evaluate_accepted)
  obtain m2 where m2: "Some m' = Some m2" "em_status m2 = ''accepted''" "Verify env m2 s1 = Inr ()"
    by (rule manifest_accepted [OF parts(2), of s1]) (simp_all add: gate_of_def)
  then have "finalized_status (Some a) (em_status m) = ''accepted''" using m'(2) by simp
  then have accepted: "em_status m = ''accepted''" and passed: "IsPassed a" by (auto simp: finalized_accepted)
  have "clean_input ?v" using g(2) by (simp add: completed_iff_clean)
  then have "rr_exit r = 0"
    using g(1) by (auto simp: presented_def completed_iff_clean split: if_splits)
  moreover have "\<forall>x\<in>set (gw_items w). executed env ?req x \<or> ru_status x \<in> {TaskError, TaskBlocked} \<and>
       (\<exists>y\<in>set (gw_items w). verified_resolver (ee_resolution env) x (gw_items w) (br_run req) = Some y \<and>
          executed env ?req y)"
    using accepted_items [OF assms(1,3) accepted] by simp
  ultimately show ?thesis using passed m2 m' by blast
qed

section \<open>What is never certified\<close>

text \<open>
  A task that was skipped - declined by the user, or left as it is by its recovery policy - is neither unresolved nor
  failed for the evaluation, but no run with one passes the gate: a run whose other tasks are all done and
  whose acceptance passed evaluates to completed and leaves the gate as partial.
\<close>

lemma skipped_never_certified:
  assumes "applyCompletionGate env w (Some r) acceptance = Some r'" "TrimSpace (gw_workspace w) \<noteq> []"
    and "x \<in> set (gw_items w)" "ru_status x = TaskSkipped"
  shows "\<not> (rr_outcome r' = RunOutcomeCompleted \<and> rr_satisfied r')"
proof
  assume c: "rr_outcome r' = RunOutcomeCompleted \<and> rr_satisfied r'"
  note g = gate_certifies [OF assms(1,2)]
  let ?g = "gate_of w (presented w (Some r)) acceptance"
  from g(4) c have parts: "manifest_reasons env ?g = []" "task_reasons ?g = []" by (auto simp: evaluate_accepted)
  obtain m where m: "gi_evidence ?g = Some m"
    by (rule manifest_accepted [OF parts(1), of "gw_store w"]) (simp_all add: gate_of_def)
  have "(ru_id x, TaskSkipped) \<in> set (gi_required ?g)" using assms(3,4) by (force simp: gate_of_def)
  from tasks_accepted [OF parts(2) this] m proved_task(1) [of m "ru_id x" TaskSkipped] show False by auto
qed

text \<open>
  A manifest that once recorded a failed acceptance keeps that status: a later passing observation on the same
  manifest is appended, but the manifest stays failed.
\<close>

lemma late_acceptance_stays_failed:
  assumes "FinalizeRunManifest env workspace (Some m) (Some a) s = (Inr m1, k1)" "EffectiveState a = AcceptanceFailed"
    and "FinalizeRunManifest env workspace (Some m1) (Some a') s' = (Inr m2, k2)" "IsPassed a'"
  shows "em_status m2 = ''failed''"
proof -
  have f: "finalized_status (Some a) st = ''failed''" "finalized_status (Some a') st = st" for st
    using assms(2,4) by (auto simp: finalized_status_def acceptance_evidence_def IsPassed_def)
  have e: "em_status m' = (if finalized_status x (em_status m0) = [] then ''accepted'' else finalized_status x (em_status m0))"
    if "FinalizeRunManifest env workspace (Some m0) x t = (Inr m', k)" for m0 m' x t k
    using that by (auto simp: FinalizeRunManifest_def Let_def dest!: seal_fields split: if_splits sum.splits)
  from e [OF assms(1)] e [OF assms(3)] show ?thesis by (simp add: f)
qed

section \<open>A certified run\<close>

definition sample_acceptance :: acceptance_result where
  "sample_acceptance = \<lparr>ac_request = None, ac_state = AcceptancePassed, ac_passed = True, ac_errors = []\<rparr>"

definition sample_world :: "(unit, string, unit, unit) gate_world" where
  "sample_world =
     \<lparr>gw_workspace = ''w'', gw_items = [sample_item], gw_manifest = None, gw_store = new_store, gw_leaks = [],
      gw_request = False, gw_run = ''r1'', gw_redact = (\<lambda>t. t), gw_snapshot_error = (\<lambda>_. None),
      gw_binding_error = (\<lambda>_. None), gw_semantic = \<lparr>sd_configured = False, sd_clear = True, sd_reasons = []\<rparr>,
      gw_render = (\<lambda>_. [])\<rparr>"

definition sample_final :: "unit evidence_manifest" where
  "sample_final = sample_manifest\<lparr>em_results := [sample_result, acceptance_evidence (Some sample_acceptance)]\<rparr>"

lemma sample_world_fields [simp]:
  "gw_workspace sample_world = ''w''" "gw_items sample_world = [sample_item]" "gw_manifest sample_world = None"
  "gw_store sample_world = new_store" "gw_leaks sample_world = []" "\<not> gw_request sample_world"
  "gw_snapshot_error sample_world = (\<lambda>_. None)" "gw_binding_error sample_world = (\<lambda>_. None)"
  "gw_semantic sample_world = \<lparr>sd_configured = False, sd_clear = True, sd_reasons = []\<rparr>"
  by (simp_all add: sample_world_def)

lemma sample_passed: "IsPassed sample_acceptance" "ac_state sample_acceptance = AcceptancePassed"
  by (simp_all add: IsPassed_def EffectiveState_def sample_acceptance_def)

lemma sample_acceptance_evidence:
  "er_status (acceptance_evidence (Some sample_acceptance)) = ''passed''"
  "er_requirement (acceptance_evidence (Some sample_acceptance)) = ''run:acceptance''"
  "er_proof (acceptance_evidence (Some sample_acceptance)) = None"
  using sample_passed by (auto simp: acceptance_evidence_def IsPassed_def)

lemma sample_final_verified: "Verify sample_env sample_final sample_store = Inr ()"
proof -
  have f: "\<not> EqualFold ''passed'' ''error''" "\<not> EqualFold ''passed'' ''failed''"
    by (simp_all add: EqualFold.simps ascii_lower_def)
  have p: "task_req ''7'' \<noteq> ''primary_decision_valid''" by (simp add: task_req_def)
  have b: "verifyEvidenceBinding sample_final sample_result = Inr ()"
    by (simp add: verifyEvidenceBinding_def sample_result_def check_binding_def sample_final_def sample_manifest_def
        verifyEvidenceInputBinding_def in_manifest_def sample_ref_def)
  have "verify_result sample_env sample_final sample_result = Inr ()"
    using b f p by (simp add: verify_result_def as_error_def) (simp add: sample_result_def)
  moreover have "verify_result sample_env sample_final (acceptance_evidence (Some sample_acceptance)) = Inr ()"
    using f by (simp add: verify_result_def sample_acceptance_evidence task_prefix_def)
  moreover have "store_verify demo_sha sample_ref sample_store = Inr ()"
    using sample_id by (simp add: store_verify_def sample_ref_def sample_store_def demo_sha_def)
  ultimately show ?thesis using p
    by (simp add: Verify_def sample_final_def sample_manifest_def manifest_digest_def demo_sha_def as_error_def
        sample_acceptance_evidence) (simp add: sample_result_def)
qed

lemma sample_finalized:
  "FinalizeRunManifest sample_env ''w'' (Some sample_manifest) (Some sample_acceptance) sample_store =
     (Inr sample_final, Some sample_final)"
proof -
  have d: "drop_acceptance (em_results sample_manifest) = [sample_result]"
    by (simp add: sample_manifest_def sample_result_def task_req_def)
  have st: "finalized_status (Some sample_acceptance) (em_status sample_manifest) = ''accepted''"
    using sample_passed(1) by (auto simp: finalized_accepted sample_manifest_def)
  have "Seal sample_env (sample_manifest\<lparr>em_results := [sample_result, acceptance_evidence (Some sample_acceptance)],
      em_status := ''accepted''\<rparr>) = Inr sample_final"
    by (simp add: Seal_def sample_manifest_def sample_final_def manifest_digest_def demo_sha_def Let_def)
  then show ?thesis using sample_final_verified by (simp add: FinalizeRunManifest_def trim_log d st)
qed

definition sample_completed :: "unit run_result" where
  "sample_completed = (EvaluateRunOutcome
     \<lparr>vi_unresolved = [], vi_acceptance = AcceptancePassed, vi_cancelled = False, vi_stalled = False, vi_budget = False,
      vi_interrupted = False, vi_failed = False, vi_exit = 0, vi_response = ''done'', vi_reason = [],
      vi_stats = SummarizeRunStats plain_env [sample_item], vi_metrics = zero_metrics, vi_mode = ''outcome''\<rparr>)
     \<lparr>rr_acceptance := Some sample_acceptance\<rparr>"

lemma sample_completed_fields: "rr_outcome sample_completed = RunOutcomeCompleted" "rr_satisfied sample_completed"
  by (simp_all add: sample_completed_def completed_iff_clean clean_input_def)

definition sample_gate_world :: "(unit, string, unit, unit) gate_world" where
  "sample_gate_world = sample_world\<lparr>gw_manifest := Some sample_final, gw_store := sample_store\<rparr>"

lemma sample_gate:
  "applyCompletionGate sample_env sample_gate_world (Some sample_completed) (Some sample_acceptance) = Some sample_completed"
proof -
  let ?g = "gate_of sample_gate_world (Some sample_completed) (Some sample_acceptance)"
  have "result_reasons ?g = []" using sample_completed_fields sample_passed
    by (simp add: result_reasons_def gate_of_def sample_gate_world_def)
  moreover have "manifest_reasons sample_env ?g = []" using sample_final_verified
    by (simp add: manifest_reasons_def gate_of_def sample_gate_world_def sample_acceptance_evidence trim_log sample_final_def
        sample_manifest_def) (simp add: sample_result_def)
  moreover have "task_reasons ?g = []"
    by (simp add: task_reasons_def gate_of_def sample_gate_world_def)
  moreover have "closing_reasons ?g = []"
    by (simp add: closing_reasons_def gate_of_def sample_gate_world_def)
  ultimately have "Evaluate sample_env ?g = (True, [])" by (simp add: Evaluate_def Let_def)
  then show ?thesis
    by (simp add: applyCompletionGate_def presented_def sample_gate_world_def trim_log Let_def)
qed

theorem only_evidence_certifies_witness:
  "rr_satisfied sample_completed \<and>
   (\<exists>m. gw_manifest sample_gate_world = Some m \<and> Verify sample_env m (gw_store sample_gate_world) = Inr ())"
proof -
  have "TrimSpace (gw_workspace sample_gate_world) \<noteq> []" by (simp add: sample_gate_world_def trim_log)
  from only_evidence_certifies [OF sample_gate this sample_completed_fields] show ?thesis by blast
qed

theorem completed_run_accounted_witness:
  "\<exists>r. finish_run sample_env sample_world (\<lambda>_. []) sample_request (Some sample_acceptance) ''done'' zero_metrics ''outcome'' =
     Some r \<and> rr_exit r = 0 \<and> executed sample_env sample_request sample_item"
proof -
  have q: "sample_request\<lparr>br_strict := False\<rparr> = sample_request" by (simp add: sample_request_def)
  have u: "unresolved_at_finish plain_env (\<lambda>_. []) [sample_item] = []"
    by (simp add: unresolved_at_finish_def failedTodoItems_def pendingTodoItems_def toTaskReferences_def)
  have f: "finish_run sample_env sample_world (\<lambda>_. []) sample_request (Some sample_acceptance) ''done'' zero_metrics ''outcome'' =
      Some sample_completed"
    using sample_gate
    by (simp add: finish_run_def q sample_built finalizeEvidenceManifest_def sample_finalized u sample_passed(2)
        sample_completed_def sample_gate_world_def Let_def)
  have b: "BuildRunManifest sample_env (sample_request\<lparr>br_strict := False\<rparr>) (gw_items sample_world) (gw_store sample_world) =
      (Inr sample_manifest, sample_store)"
    by (simp add: q sample_built)
  have "distinct (map ru_id (gw_items sample_world))" "TrimSpace (gw_workspace sample_world) \<noteq> []"
    by (simp_all add: trim_log)
  from completed_run_accounted [OF this b f sample_completed_fields] f show ?thesis by (simp add: q)
qed

end
