(* ===== verification/Terminal_Result.thy ===== *)
theory Terminal_Result
  imports Run_Certification Go_Text
begin

text \<open>
  How the elected owner of a terminal decision completes its result (the middle of \<open>finalizeRunPrepared\<close> in
  \<open>internal/team/run_finalizer.go\<close>, with the error of the reliability report from \<open>reliability_eval.go\<close> and the review
  annotations from \<open>coordinator.go\<close>): the acceptance is recorded, a manifest is finalized if the run has none, the completion
  gate runs, and bounded fields are filled. Nothing of this can turn a result into a completed one. The formatted section of a
  request acceptance, the verdicts of input-bound assertions, the number of resolved run inputs, the workset states and the
  outcome of the reliability report are arguments; telemetry is left out.
\<close>

section \<open>Downgrades\<close>

definition downgradeRunForFinalizationError :: "string option \<Rightarrow> 'w run_result \<Rightarrow> 'w run_result" where
  "downgradeRunForFinalizationError err r =
     (case err of None \<Rightarrow> r
      | Some e \<Rightarrow> r\<lparr>rr_outcome := RunOutcomePartial, rr_satisfied := False, rr_stop := StopReasonEvidenceIncomplete,
                     rr_exit := 7, rr_reason := e\<rparr>)"

definition downgradeReliabilityResultForError :: "string option \<Rightarrow> 'w run_result \<Rightarrow> 'w run_result" where
  "downgradeReliabilityResultForError err r =
     (case err of None \<Rightarrow> r
      | Some e \<Rightarrow>
          if Contains e ''load historical reliability report'' then
            r\<lparr>rr_outcome := RunOutcomeBlocked, rr_satisfied := False, rr_stop := StopReasonExternalBlockage, rr_exit := 7,
              rr_reason := e\<rparr>
          else if rr_outcome r \<noteq> RunOutcomeCompleted \<or> \<not> rr_satisfied r then r
          else r\<lparr>rr_outcome := RunOutcomeBlocked, rr_satisfied := False, rr_stop := StopReasonRunFailed, rr_exit := 7,
                 rr_reason := e\<rparr>)"

text \<open>A warning of an auxiliary step; \<open>bounded\<close> is \<open>boundedRunWarning\<close>.\<close>

definition appendRunWarning :: "(string \<Rightarrow> string) \<Rightarrow> string \<times> string \<Rightarrow> 'w run_result \<Rightarrow> 'w run_result" where
  "appendRunWarning bounded stage r =
     (let w = bounded (fst stage @ '': '' @ snd stage) in
      if w = [] \<or> w \<in> set (rr_warnings r) \<or> maxRunWarnings \<le> length (rr_warnings r) then r
      else r\<lparr>rr_warnings := rr_warnings r @ [w]\<rparr>)"

section \<open>The prepared result\<close>

record ('c, 'r, 'p, 'w) finalize_world =
  fw_gate :: "('c, 'r, 'p, 'w) gate_world"
  fw_request :: build_request
  fw_render :: "evidence_error \<Rightarrow> string"
  fw_bounded :: "string \<Rightarrow> string"
  fw_early_warnings :: "(string \<times> string) list"
  fw_late_warnings :: "(string \<times> string) list"
  fw_worksets :: "(string \<times> 'w) list"
  fw_inputs :: int
  fw_section :: "acceptance_result \<Rightarrow> string"
  fw_assertions :: "acceptance_result option \<Rightarrow> bool list"
  fw_advisory :: bool
  fw_has_findings :: "('c, 'r, 'p) run_item \<Rightarrow> bool"
  fw_reliability :: "'w run_result \<Rightarrow> string option"

definition annotateRunCompletionSemantics ::
  "bool \<Rightarrow> (('c, 'r, 'p) run_item \<Rightarrow> bool) \<Rightarrow> ('c, 'r, 'p) run_item list \<Rightarrow> 'w run_result \<Rightarrow> 'w run_result" where
  "annotateRunCompletionSemantics advisory findings items r =
     (let r = r\<lparr>rr_advisory := advisory\<rparr> in
      if items = [] \<or> rr_mode r \<noteq> ''exploratory'' then r
      else r\<lparr>rr_findings := rr_findings r \<or> list_ex (\<lambda>x. ru_status x = TaskDone \<and> ti_typed (ru_task x) \<noteq> None \<and> findings x) items,
             rr_review := list_all (\<lambda>x. ru_status x = TaskDone) items, rr_fixed := False\<rparr>)"

definition with_section :: "(acceptance_result \<Rightarrow> string) \<Rightarrow> 'w run_result \<Rightarrow> 'w run_result" where
  "with_section format r =
     (case rr_acceptance r of None \<Rightarrow> r
      | Some a \<Rightarrow>
          if ac_request a = None \<or> suffix (format a) (rr_response r) then r
          else r\<lparr>rr_response := rr_response r @ format a\<rparr>)"

definition input_metrics :: "int \<Rightarrow> bool list \<Rightarrow> ('c, 'r, 'p) run_item list \<Rightarrow> run_metrics \<Rightarrow> run_metrics" where
  "input_metrics inputs verdicts items m =
     m\<lparr>rm_inputs := inputs, rm_actions := int (length (filter (\<lambda>x. ru_bound x \<noteq> []) items)),
       rm_passed := int (length (filter (\<lambda>v. v) verdicts)), rm_failed := int (length (filter (\<lambda>v. \<not> v) verdicts))\<rparr>"

text \<open>The manifest seen here is the one \<open>finalizeRunPrepared\<close> put into the result, none when it could not be finalized.\<close>

definition prepareTerminalResult ::
  "('c, 'r, 'p, 'w) finalize_world \<Rightarrow> 'p evidence_manifest option \<Rightarrow> 'w run_result \<Rightarrow> 'w run_result" where
  "prepareTerminalResult fw manifest r =
     (let w = fw_gate fw;
          r = (if TrimSpace (rr_run r) = [] then r\<lparr>rr_run := TrimSpace (gw_run w)\<rparr> else r);
          r = r\<lparr>rr_warnings := normalizeRunWarnings (fw_bounded fw) (rr_warnings r)\<rparr>;
          r = (case manifest of None \<Rightarrow> r
               | Some m \<Rightarrow> if TrimSpace (rr_run r) = [] then r\<lparr>rr_run := em_run m\<rparr> else r);
          r = with_section (fw_section fw) (r\<lparr>rr_worksets := fw_worksets fw\<rparr>);
          r = r\<lparr>rr_metrics := input_metrics (fw_inputs fw) (fw_assertions fw (rr_acceptance r)) (gw_items w) (rr_metrics r)\<rparr> in
      annotateRunCompletionSemantics (fw_advisory fw) (fw_has_findings fw) (gw_items w) r)"

text \<open>
  The manifest the gate looks at, with the store then, the one that goes into the result, and the error of building it.
  A manifest the run already has is not finalized a second time.
\<close>

definition terminal_manifest ::
  "('c, 'r, 'p) evidence_env \<Rightarrow> ('c, 'r, 'p, 'w) finalize_world \<Rightarrow> acceptance_result option \<Rightarrow>
   'p evidence_manifest option \<times> 'p evidence_manifest option \<times> artifact_store \<times> string option" where
  "terminal_manifest env fw acceptance =
     (let w = fw_gate fw in
      case gw_manifest w of
        Some m \<Rightarrow> (Some m, Some m, gw_store w, None)
      | None \<Rightarrow>
          if gw_workspace w = [] then (None, None, gw_store w, None)
          else (case finalizeEvidenceManifest env (fw_request fw) (gw_items w) None acceptance (gw_store w) of
                  (Inl e, kept, s) \<Rightarrow> (kept, None, s, Some (''finalize evidence manifest: '' @ fw_render fw e))
                | (Inr _, kept, s) \<Rightarrow> (kept, kept, s, None)))"

definition terminal_result ::
  "('c, 'r, 'p) evidence_env \<Rightarrow> ('c, 'r, 'p, 'w) finalize_world \<Rightarrow> acceptance_result option \<Rightarrow> bool \<Rightarrow> 'w run_result \<Rightarrow> 'w run_result" where
  "terminal_result env fw acceptance active r =
     (let (seen_manifest, manifest, s, err) = terminal_manifest env fw acceptance;
          r = fold (appendRunWarning (fw_bounded fw)) (fw_early_warnings fw) (r\<lparr>rr_acceptance := acceptance\<rparr>);
          r = downgradeRunForFinalizationError err r;
          r = the (applyCompletionGate env ((fw_gate fw)\<lparr>gw_manifest := seen_manifest, gw_store := s\<rparr>) (Some r) acceptance);
          r = prepareTerminalResult fw manifest (fold (appendRunWarning (fw_bounded fw)) (fw_late_warnings fw) r) in
      if active then downgradeReliabilityResultForError (fw_reliability fw r) r else r)"

section \<open>What preparation keeps\<close>

lemma warning_keeps:
  "rr_outcome (appendRunWarning b x r) = rr_outcome r" "rr_satisfied (appendRunWarning b x r) = rr_satisfied r"
  "rr_run (appendRunWarning b x r) = rr_run r" "rr_acceptance (appendRunWarning b x r) = rr_acceptance r"
  by (simp_all add: appendRunWarning_def Let_def)

lemma warnings_keep:
  "rr_outcome (fold (appendRunWarning b) xs r) = rr_outcome r" "rr_satisfied (fold (appendRunWarning b) xs r) = rr_satisfied r"
  "rr_run (fold (appendRunWarning b) xs r) = rr_run r" "rr_acceptance (fold (appendRunWarning b) xs r) = rr_acceptance r"
  by (induction xs arbitrary: r) (simp_all add: warning_keeps)

lemma annotate_keeps:
  "rr_outcome (annotateRunCompletionSemantics a g xs r) = rr_outcome r"
  "rr_satisfied (annotateRunCompletionSemantics a g xs r) = rr_satisfied r"
  "rr_run (annotateRunCompletionSemantics a g xs r) = rr_run r"
  by (simp_all add: annotateRunCompletionSemantics_def Let_def)

lemma section_keeps:
  "rr_outcome (with_section g r) = rr_outcome r" "rr_satisfied (with_section g r) = rr_satisfied r"
  "rr_run (with_section g r) = rr_run r"
  by (simp_all add: with_section_def split: option.splits)

lemma prepared_keeps:
  "rr_outcome (prepareTerminalResult fw m r) = rr_outcome r" "rr_satisfied (prepareTerminalResult fw m r) = rr_satisfied r"
  "TrimSpace (rr_run r) \<noteq> [] \<Longrightarrow> rr_run (prepareTerminalResult fw m r) = rr_run r"
  by (simp_all add: prepareTerminalResult_def Let_def annotate_keeps section_keeps split: option.splits)

lemma reliability_keeps:
  "rr_outcome (downgradeReliabilityResultForError e r) = RunOutcomeCompleted \<Longrightarrow> rr_outcome r = RunOutcomeCompleted"
  "rr_satisfied (downgradeReliabilityResultForError e r) \<Longrightarrow> rr_satisfied r"
  "rr_run (downgradeReliabilityResultForError e r) = rr_run r"
  by (auto simp: downgradeReliabilityResultForError_def split: option.splits if_splits)

lemma gate_some: "\<exists>r'. applyCompletionGate env w (Some r) a = Some r'"
  by (auto simp: applyCompletionGate_def presented_def Let_def split: prod.splits)

lemma gate_run_id: "applyCompletionGate env w (Some r) a = Some r' \<Longrightarrow> rr_run r' = rr_run r \<or> rr_run r' = gw_run w"
  by (auto simp: applyCompletionGate_def presented_def Let_def split: prod.splits if_splits)

text \<open>
  A run the gate certified: with passed acceptance, an accepted manifest that verifies, every requirement passed and every
  task done or replaced.
\<close>

definition evidenced :: "('c, 'r, 'p) evidence_env \<Rightarrow> ('c, 'r, 'p) run_item list \<Rightarrow> acceptance_result option \<Rightarrow> bool" where
  "evidenced env items acceptance \<longleftrightarrow>
     (\<exists>a m s. acceptance = Some a \<and> IsPassed a \<and> em_status m = ''accepted'' \<and> Verify env m s = Inr () \<and>
        (\<forall>e\<in>set (em_results m). er_status e = ''passed'') \<and>
        (\<forall>x\<in>set items. ru_status x = TaskDone \<or> ru_status x \<in> {TaskError, TaskBlocked} \<and> replaced m (ru_id x)))"

lemma gate_needs_acceptance:
  assumes "applyCompletionGate env w (Some r) None = Some r'" "TrimSpace (gw_workspace w) \<noteq> []" "rr_acceptance r = None"
    and "rr_outcome r' = RunOutcomeCompleted" "rr_satisfied r'"
  shows False
proof -
  note g = gate_certifies [OF assms(1,2,4,5)]
  have "rr_acceptance (the (presented w (Some r))) = None" using assms(3) by (simp add: presented_def)
  then show False using g(4) by (auto simp: evaluate_accepted result_reasons_def gate_of_def presented_def split: if_splits)
qed

lemma final_certified:
  assumes "rr_outcome (terminal_result env fw acceptance active r) = RunOutcomeCompleted"
    and "rr_satisfied (terminal_result env fw acceptance active r)" "TrimSpace (gw_workspace (fw_gate fw)) \<noteq> []"
  shows "evidenced env (gw_items (fw_gate fw)) acceptance" "rr_outcome r = RunOutcomeCompleted" "rr_satisfied r"
proof -
  obtain k m s err where tm: "terminal_manifest env fw acceptance = (k, m, s, err)" by (cases "terminal_manifest env fw acceptance")
  let ?w = "(fw_gate fw)\<lparr>gw_manifest := k, gw_store := s\<rparr>"
  let ?r = "downgradeRunForFinalizationError err
      (fold (appendRunWarning (fw_bounded fw)) (fw_early_warnings fw) (r\<lparr>rr_acceptance := acceptance\<rparr>))"
  obtain r' where r': "applyCompletionGate env ?w (Some ?r) acceptance = Some r'" using gate_some by blast
  have c: "rr_outcome r' = RunOutcomeCompleted" "rr_satisfied r'"
    using assms(1,2)
    by (auto simp: terminal_result_def tm r' Let_def prepared_keeps warnings_keep split: if_splits
        dest!: reliability_keeps(1,2))
  have w: "TrimSpace (gw_workspace ?w) \<noteq> []" using assms(3) by simp
  have a: "rr_acceptance ?r = acceptance"
    by (simp add: downgradeRunForFinalizationError_def warnings_keep split: option.splits)
  from gate_certifies(2,3) [OF r' w c] show "rr_outcome r = RunOutcomeCompleted" "rr_satisfied r"
    by (simp_all add: downgradeRunForFinalizationError_def warnings_keep split: option.splits)
  show "evidenced env (gw_items (fw_gate fw)) acceptance"
  proof (cases acceptance)
    case None
    with r' a gate_needs_acceptance [OF _ w _ c] show ?thesis by auto
  next
    case (Some x)
    from gate_evidence [OF r' [unfolded Some] w c] show ?thesis by (auto simp: evidenced_def Some)
  qed
qed

lemma final_run:
  assumes "TrimSpace (rr_run r) \<noteq> []" "rr_run r = gw_run (fw_gate fw)"
  shows "rr_run (terminal_result env fw acceptance active r) = rr_run r"
proof -
  obtain k m s err where tm: "terminal_manifest env fw acceptance = (k, m, s, err)" by (cases "terminal_manifest env fw acceptance")
  let ?w = "(fw_gate fw)\<lparr>gw_manifest := k, gw_store := s\<rparr>"
  let ?r = "downgradeRunForFinalizationError err
      (fold (appendRunWarning (fw_bounded fw)) (fw_early_warnings fw) (r\<lparr>rr_acceptance := acceptance\<rparr>))"
  obtain r' where r': "applyCompletionGate env ?w (Some ?r) acceptance = Some r'" using gate_some by blast
  have "rr_run ?r = rr_run r" by (simp add: downgradeRunForFinalizationError_def warnings_keep split: option.splits)
  with gate_run_id [OF r'] assms(2) have run: "rr_run r' = rr_run r" by auto
  show ?thesis using run assms(1)
    by (simp add: terminal_result_def tm r' Let_def prepared_keeps warnings_keep reliability_keeps(3))
qed

end
