(* ===== verification/Terminal_Lifecycle.thy ===== *)
theory Terminal_Lifecycle
  imports Terminal_Result
begin

text \<open>
  The terminal lifecycle of a coordinator (\<open>internal/team/run_finalizer.go\<close>, its start and end in \<open>execution_events.go\<close>, its repair
  after a restart in \<open>coordinator_eventstore.go\<close> and \<open>terminal_preflight_recovery.go\<close>): any number of
  goroutines - the finish tool, the emergency path of a signal, the end of the invocation - call \<open>finalizeRunPrepared\<close>;
  the first elects its result, prepares it and appends the one \<open>run_finished\<close> event, the others wait. A section under the
  lifecycle mutex is one step, so is the preparation, which touches only the elected object; steps of different goroutines
  interleave. Results are objects with an address. Waiting for a closed channel is a step that is possible once the flag the
  closing writes is set; the two channels of a run are created with it and never reused, since a run begins only when
  no call is under way. Of the event store the model keeps the \<open>run_finished\<close> events, of the session data the recovery fields
  and the result, taken as saved when written. Not modelled: decision-enabled runs, whose preparation is guarded further, callers
  outside an invocation (which get a result without any event), the marker of a wrap-up, and the run id of the task list.
\<close>

section \<open>State\<close>

datatype terminal_state =
    LifecycleOpen | CandidateElected | LifecycleCommitting | LifecycleCommitted | LifecycleRecoveryRequired

datatype terminal_error = PersistenceUnconfirmed | NoRunId | AppendFailed string | DurabilityUnknown | WaitExceeded

record pending_commit =
  pc_run :: string
  pc_key :: string
  pc_branch :: string

record 'w finished_event =
  fe_run :: string
  fe_key :: string
  fe_branch :: string
  fe_result :: "'w run_result"

record 'w terminal_session =
  se_required :: bool
  se_reason :: string
  se_pending :: "pending_commit option"
  se_result :: "'w run_result option"

text \<open>
  \<open>tm_exec\<close> is \<open>executionRunID\<close>, \<open>tm_branch\<close> the active branch, \<open>tm_late\<close> the events of appends whose caller stopped
  waiting while the store's worker went on.
\<close>

record 'w terminal =
  tm_run :: string
  tm_state :: terminal_state
  tm_candidate :: "nat option"
  tm_snapshot :: "'w run_result option"
  tm_prepared :: bool
  tm_error :: "terminal_error option"
  tm_timed_out :: bool
  tm_exec :: string
  tm_branch :: string
  tm_history :: "string list"
  tm_results :: "nat \<Rightarrow> 'w run_result"
  tm_last :: "nat option"
  tm_session :: "'w terminal_session"
  tm_journal :: "'w finished_event list"
  tm_late :: "'w finished_event list"

section \<open>Election\<close>

definition electTerminalCandidate :: "nat \<Rightarrow> 'w terminal \<Rightarrow> (nat option \<times> bool) \<times> 'w terminal" where
  "electTerminalCandidate p t =
     (if tm_run t = [] then ((Some p, True), t)
      else if tm_state t = LifecycleOpen then
        ((Some p, True),
         t\<lparr>tm_candidate := Some p,
           tm_results := (if TrimSpace (rr_run (tm_results t p)) = []
                          then (tm_results t)(p := (tm_results t p)\<lparr>rr_run := TrimSpace (tm_exec t)\<rparr>) else tm_results t),
           tm_state := CandidateElected\<rparr>)
      else ((tm_candidate t, False), t))"

definition finishTerminalPreparation :: "'w terminal \<Rightarrow> 'w terminal" where
  "finishTerminalPreparation t = (if tm_prepared t then t else t\<lparr>tm_prepared := True\<rparr>)"

definition TerminalLifecycleConfirmed :: "'w terminal \<Rightarrow> bool" where
  "TerminalLifecycleConfirmed t \<longleftrightarrow> tm_run t = [] \<or> tm_state t = LifecycleCommitted"

section \<open>Recovery markers\<close>

definition terminalFinishedIdempotencyKey :: "string \<Rightarrow> string" where
  "terminalFinishedIdempotencyKey run = ''run_finished:'' @ TrimSpace run"

definition pending_of :: "string \<Rightarrow> string \<Rightarrow> pending_commit" where
  "pending_of run branch = \<lparr>pc_run = run, pc_key = terminalFinishedIdempotencyKey run, pc_branch = branch\<rparr>"

definition markTerminalRecoveryState :: "string \<Rightarrow> 'w terminal \<Rightarrow> 'w terminal" where
  "markTerminalRecoveryState reason t =
     t\<lparr>tm_session := (tm_session t)\<lparr>se_required := True, se_reason := reason\<rparr>\<rparr>"

definition markTerminalRecoveryPending :: "string \<Rightarrow> pending_commit option \<Rightarrow> 'w terminal \<Rightarrow> 'w terminal" where
  "markTerminalRecoveryPending reason pending t =
     t\<lparr>tm_session := (tm_session t)\<lparr>se_required := True, se_reason := reason, se_pending := pending\<rparr>\<rparr>"

definition markTerminalRecoveryForPending :: "string \<Rightarrow> pending_commit \<Rightarrow> 'w terminal \<Rightarrow> 'w terminal" where
  "markTerminalRecoveryForPending reason pending t =
     (if tm_run t \<noteq> pc_run pending \<or> tm_state t = LifecycleCommitted then t
      else markTerminalRecoveryPending reason (Some pending) t)"

definition markTerminalRecoveryForCandidate :: "string \<Rightarrow> nat \<Rightarrow> 'w terminal \<Rightarrow> 'w terminal" where
  "markTerminalRecoveryForCandidate reason p t =
     (let run = rr_run (tm_results t p) in
      if TrimSpace run = [] \<or> tm_run t \<noteq> run then t
      else markTerminalRecoveryForPending reason (pending_of run (tm_branch t)) t)"

text \<open>\<open>markTerminalRecovery\<close> reads run and state under the mutex first and acts on what it read.\<close>

definition markTerminalRecovery :: "string \<Rightarrow> terminal_state \<Rightarrow> string \<Rightarrow> 'w terminal \<Rightarrow> 'w terminal" where
  "markTerminalRecovery run state reason t =
     (if run \<noteq> [] \<and> state \<noteq> LifecycleCommitted
      then markTerminalRecoveryForPending reason (pending_of run (tm_branch t)) t
      else markTerminalRecoveryState reason t)"

definition clearTerminalRecoveryAfterCommit :: "'w run_result \<Rightarrow> pending_commit \<Rightarrow> 'w terminal \<Rightarrow> 'w terminal" where
  "clearTerminalRecoveryAfterCommit result committed t =
     (if tm_run t \<noteq> pc_run committed then t
      else let s = tm_session t;
               s = (if se_pending s = Some committed then s\<lparr>se_pending := None, se_required := False, se_reason := []\<rparr> else s) in
        t\<lparr>tm_session := s\<lparr>se_result := Some result\<rparr>\<rparr>)"

section \<open>Commit\<close>

datatype commit_action = ReturnWith "terminal_error option" | AwaitPrepared | AwaitDone | AppendCandidate

text \<open>
  \<open>commitTerminalLifecycle\<close> up to where it waits, appends or returns. Between electing and the switch over the state
  nothing it read can change but the state itself, so both are one step.
\<close>

definition commitTerminalLifecycle :: "nat \<Rightarrow> 'w terminal \<Rightarrow> (nat \<times> commit_action) \<times> 'w terminal" where
  "commitTerminalLifecycle p t =
     (case electTerminalCandidate p t of ((c, _), t) \<Rightarrow>
        (case c of None \<Rightarrow> ((p, ReturnWith None), t)
         | Some q \<Rightarrow>
             if tm_run t = [] then ((q, ReturnWith None), t)
             else if TrimSpace (rr_run (tm_results t q)) = [] then
               ((q, ReturnWith (Some NoRunId)),
                markTerminalRecovery (tm_run t) (tm_state t) ''terminal result has no run id'' t)
             else case tm_state t of
               LifecycleCommitted \<Rightarrow> ((q, ReturnWith None), t)
             | LifecycleRecoveryRequired \<Rightarrow>
                 ((q, ReturnWith (Some (case tm_error t of None \<Rightarrow> PersistenceUnconfirmed | Some e \<Rightarrow> e))), t)
             | CandidateElected \<Rightarrow>
                 if \<not> tm_prepared t then ((q, AwaitPrepared), t)
                 else ((q, AppendCandidate), t\<lparr>tm_state := LifecycleCommitting\<rparr>)
             | LifecycleCommitting \<Rightarrow> ((q, AwaitDone), t)
             | LifecycleOpen \<Rightarrow> ((q, ReturnWith (Some PersistenceUnconfirmed)), t)))"

text \<open>The event \<open>appendTerminalCandidate\<close> builds from a detached copy of the candidate.\<close>

definition terminal_event :: "nat \<Rightarrow> 'w terminal \<Rightarrow> 'w finished_event" where
  "terminal_event p t =
     (let r = tm_results t p in
      \<lparr>fe_run = rr_run r, fe_key = terminalFinishedIdempotencyKey (rr_run r), fe_branch = tm_branch t, fe_result = r\<rparr>)"

text \<open>
  The store's answer to a bounded append: done, refused without a trace, or no answer in time. A key that is taken returns the
  earlier event if it has the same content and refuses otherwise.
\<close>

datatype append_answer = Persisted | NotPersisted string | NoAnswer

definition persist :: "'w finished_event \<Rightarrow> 'w finished_event list \<Rightarrow> terminal_error option \<times> 'w finished_event list" where
  "persist e js =
     (case find (\<lambda>x. fe_key x = fe_key e) js of
        None \<Rightarrow> (None, js @ [e])
      | Some x \<Rightarrow> if x = e then (None, js) else (Some (AppendFailed ''idempotency conflict''), js))"

definition bounded_append :: "'w finished_event \<Rightarrow> append_answer \<Rightarrow> 'w terminal \<Rightarrow> terminal_error option \<times> 'w terminal" where
  "bounded_append e answer t =
     (case answer of
        Persisted \<Rightarrow> (case persist e (tm_journal t) of (err, js) \<Rightarrow> (err, t\<lparr>tm_journal := js\<rparr>))
      | NotPersisted m \<Rightarrow> (Some (AppendFailed m), t)
      | NoAnswer \<Rightarrow> (Some DurabilityUnknown, t\<lparr>tm_late := tm_late t @ [e]\<rparr>))"

definition settle_append :: "'w run_result \<Rightarrow> terminal_error option \<Rightarrow> 'w terminal \<Rightarrow> 'w terminal" where
  "settle_append snapshot err t =
     (case err of
        Some e \<Rightarrow> t\<lparr>tm_error := Some e, tm_state := LifecycleRecoveryRequired, tm_timed_out := (e = DurabilityUnknown)\<rparr>
      | None \<Rightarrow> t\<lparr>tm_snapshot := Some snapshot, tm_state := LifecycleCommitted, tm_error := None\<rparr>)"

definition record_append :: "'w finished_event \<Rightarrow> terminal_error option \<Rightarrow> 'w terminal \<Rightarrow> 'w terminal" where
  "record_append e err t =
     (let pending = \<lparr>pc_run = fe_run e, pc_key = fe_key e, pc_branch = fe_branch e\<rparr> in
      case err of
        Some _ \<Rightarrow> markTerminalRecoveryPending ''terminal persistence failure'' (Some pending) t
      | None \<Rightarrow> clearTerminalRecoveryAfterCommit (fe_result e) pending t)"

section \<open>Publishing a result\<close>

definition setLastRunResultInMemory :: "nat \<Rightarrow> 'w terminal \<Rightarrow> 'w terminal" where
  "setLastRunResultInMemory p t = t\<lparr>tm_last := Some p\<rparr>"

text \<open>The fields \<open>SetLastRunResult\<close> refreshes: the workset states, and the review annotations over the items.\<close>

record ('c, 'r, 'p, 'w) publication =
  pu_worksets :: "(string \<times> 'w) list"
  pu_advisory :: bool
  pu_findings :: "('c, 'r, 'p) run_item \<Rightarrow> bool"
  pu_items :: "('c, 'r, 'p) run_item list"

definition SetLastRunResult :: "('c, 'r, 'p, 'w) publication \<Rightarrow> nat \<Rightarrow> 'w terminal \<Rightarrow> 'w terminal" where
  "SetLastRunResult u p t =
     (let t = setLastRunResultInMemory p t in
      if \<not> TerminalLifecycleConfirmed t then t
      else let r = annotateRunCompletionSemantics (pu_advisory u) (pu_findings u) (pu_items u)
                     ((tm_results t p)\<lparr>rr_worksets := pu_worksets u\<rparr>) in
        t\<lparr>tm_results := (tm_results t)(p := r), tm_session := (tm_session t)\<lparr>se_result := Some r\<rparr>\<rparr>)"

section \<open>Begin, end and restart\<close>

definition begin_run :: "string \<Rightarrow> 'w terminal \<Rightarrow> 'w terminal" where
  "begin_run run t =
     t\<lparr>tm_last := None, tm_session := (tm_session t)\<lparr>se_result := None\<rparr>, tm_history := tm_history t @ [run], tm_exec := run,
       tm_run := run, tm_state := LifecycleOpen, tm_candidate := None, tm_snapshot := None, tm_prepared := False,
       tm_error := None, tm_timed_out := False\<rparr>"

definition end_run :: "'w terminal \<Rightarrow> 'w terminal" where
  "end_run t =
     (let t = t\<lparr>tm_exec := []\<rparr> in
      if tm_state t = LifecycleCommitted then
        t\<lparr>tm_run := [], tm_state := LifecycleOpen, tm_candidate := None, tm_snapshot := None, tm_prepared := False,
          tm_error := None, tm_timed_out := False\<rparr>
      else t)"

text \<open>
  \<open>reconcilePendingTerminalCommit\<close>: \<open>visible\<close> selects the events of the active branch's lineage, \<open>aborted\<close> tells whether the
  lineage records the run as aborted before any turn (the loop of \<open>recoverAbortedPreflightTerminal\<close>), whose failed
  result is then appended. The answer is whether a marker was present and whether it was reconciled. The result the code reduces
  from the lineage up to the matching event is taken to be the one in that event.
\<close>

definition aborted_result :: "string \<Rightarrow> 'w run_result" where
  "aborted_result run =
     \<lparr>rr_run = run, rr_outcome = RunOutcomeFailed, rr_satisfied = False, rr_mode = [],
      rr_response = ''The invocation aborted before execution. Existing session tasks and evidence are retained.'',
      rr_reason = ''recovered aborted invocation before execution'',
      rr_warnings = [''The original terminal append was not committed; the aborted preflight checkpoint was recovered as failed.''],
      rr_stop = StopReasonRunFailed, rr_exit = 1, rr_acceptance = None, rr_worksets = [], rr_unresolved = [],
      rr_stats = zero_stats, rr_metrics = zero_metrics, rr_review = False, rr_findings = False, rr_fixed = False,
      rr_advisory = False\<rparr>"

definition matching_finish :: "pending_commit \<Rightarrow> 'w finished_event \<Rightarrow> bool" where
  "matching_finish pending e \<longleftrightarrow> fe_run e = pc_run pending \<and> fe_key e = pc_key pending \<and> fe_branch e = pc_branch pending"

definition recoverAbortedPreflightTerminal ::
  "pending_commit \<Rightarrow> bool \<Rightarrow> append_answer \<Rightarrow> 'w terminal \<Rightarrow> (terminal_error + 'w finished_event option) \<times> 'w terminal" where
  "recoverAbortedPreflightTerminal pending aborted answer t =
     (if pc_key pending \<noteq> terminalFinishedIdempotencyKey (pc_run pending) \<or> pc_branch pending \<noteq> tm_branch t \<or> \<not> aborted
      then (Inr None, t)
      else let e = \<lparr>fe_run = pc_run pending, fe_key = pc_key pending, fe_branch = pc_branch pending,
                     fe_result = aborted_result (pc_run pending)\<rparr> in
        case bounded_append e answer t of
          (None, t) \<Rightarrow> (Inr (Some e), t)
        | (Some err, t) \<Rightarrow> (Inl err, t))"

definition reconcile_with :: "nat \<Rightarrow> 'w run_result \<Rightarrow> 'w terminal \<Rightarrow> 'w terminal" where
  "reconcile_with p r t = setLastRunResultInMemory p
     (t\<lparr>tm_results := (tm_results t)(p := r),
        tm_session := \<lparr>se_required = False, se_reason = [], se_pending = None, se_result = Some r\<rparr>\<rparr>)"

definition reconcilePendingTerminalCommit ::
  "('w finished_event \<Rightarrow> bool) \<Rightarrow> bool \<Rightarrow> bool \<Rightarrow> append_answer \<Rightarrow> nat \<Rightarrow> 'w terminal \<Rightarrow> (bool \<times> bool) \<times> 'w terminal" where
  "reconcilePendingTerminalCommit visible readable aborted answer p t =
     (case se_pending (tm_session t) of
        None \<Rightarrow> ((False, False), t)
      | Some pending \<Rightarrow>
          let invalid = (\<lambda>reason t. ((True, False), markTerminalRecoveryPending reason (Some pending) t)) in
          if TrimSpace (pc_run pending) = [] \<or> TrimSpace (pc_key pending) = [] \<or> TrimSpace (pc_branch pending) = []
            then invalid ''pending terminal commit identity is incomplete'' t
          else if \<not> readable then invalid ''pending terminal commit reconciliation read failed'' t
          else case filter (\<lambda>e. visible e \<and> matching_finish pending e) (tm_journal t) of
              [e] \<Rightarrow>
                if rr_run (fe_result e) \<noteq> pc_run pending
                then invalid ''pending terminal commit run_finished result identity is invalid'' t
                else ((True, True), reconcile_with p (fe_result e) t)
            | [] \<Rightarrow>
                (case recoverAbortedPreflightTerminal pending aborted answer t of
                   (Inl _, t) \<Rightarrow> invalid ''aborted preflight terminal recovery failed'' t
                 | (Inr None, t) \<Rightarrow> invalid ''pending terminal commit has no matching run_finished event'' t
                 | (Inr (Some e), t) \<Rightarrow> ((True, True), reconcile_with p (fe_result e) t))
            | _ \<Rightarrow> invalid ''pending terminal commit matched multiple run_finished events'' t)"

section \<open>Goroutines\<close>

text \<open>
  Where a call stands: \<open>Building\<close> while it prepares as elected owner, \<open>Entering\<close> before \<open>commitTerminalLifecycle\<close>, waiting, in and
  after the append, with the session still to be written (\<open>Recording\<close>), and with the commit's answer (\<open>Returning\<close>). The
  flag tells the owner from the others, which on an error leave the last result alone.
\<close>

datatype 'w call =
    NoCall
  | Building nat
  | Entering nat bool
  | WaitingPrepared nat bool
  | WaitingDone nat bool
  | Appending nat bool "'w finished_event"
  | Appended nat bool "'w finished_event" "terminal_error option"
  | Recording nat bool "'w finished_event" "terminal_error option"
  | Returning nat bool "terminal_error option"
  | Abandoning string terminal_state

definition after_commit :: "nat \<Rightarrow> bool \<Rightarrow> commit_action \<Rightarrow> 'w terminal \<Rightarrow> 'w call" where
  "after_commit p owner act t =
     (case act of
        ReturnWith err \<Rightarrow> Returning p owner err
      | AwaitPrepared \<Rightarrow> WaitingPrepared p owner
      | AwaitDone \<Rightarrow> WaitingDone p owner
      | AppendCandidate \<Rightarrow> Appending p owner (terminal_event p t))"

definition commit_answer :: "'w terminal \<Rightarrow> terminal_error option" where
  "commit_answer t =
     (if tm_state t = LifecycleCommitted then None
      else Some (case tm_error t of None \<Rightarrow> PersistenceUnconfirmed | Some e \<Rightarrow> e))"

definition publish_result ::
  "('c, 'r, 'p, 'w) publication \<Rightarrow> nat \<Rightarrow> bool \<Rightarrow> terminal_error option \<Rightarrow> 'w terminal \<Rightarrow> 'w terminal" where
  "publish_result u p owner err t =
     (case err of None \<Rightarrow> SetLastRunResult u p t
      | Some _ \<Rightarrow> if owner then setLastRunResultInMemory p t else t)"

text \<open>A new process knows the saved session and the journal only; the workers of the old one are gone.\<close>

definition crashed :: "'w terminal \<Rightarrow> 'w terminal" where
  "crashed t =
     t\<lparr>tm_run := [], tm_state := LifecycleOpen, tm_candidate := None, tm_snapshot := None, tm_prepared := False,
       tm_error := None, tm_timed_out := False, tm_exec := [], tm_last := None, tm_late := []\<rparr>"

text \<open>
  The steps. A run begins under a new id once no call is under way, and reconciles a marker it finds; a caller offers a result
  of its own without run id or with the one of the run; the workspace is set, as in every production session; the branch is
  not switched during an invocation nor past a marker (\<open>RefuseBranchSwitchWithPendingTerminalCommit\<close>).
\<close>

inductive terminal_step ::
  "('c, 'r, 'p) evidence_env \<Rightarrow> (nat \<Rightarrow> 'w call) \<times> 'w terminal \<Rightarrow> (nat \<Rightarrow> 'w call) \<times> 'w terminal \<Rightarrow> bool"
  for env where
  begins: "\<forall>i. calls i = NoCall \<Longrightarrow> run \<noteq> [] \<Longrightarrow> TrimSpace run = run \<Longrightarrow> run \<notin> set (tm_history t) \<Longrightarrow>
    terminal_step env (calls, t) (calls, snd (reconcilePendingTerminalCommit visible readable aborted answer p (begin_run run t)))"
| creates: "tm_candidate t \<noteq> Some p \<Longrightarrow>
    terminal_step env (calls, t) (calls, t\<lparr>tm_results := (tm_results t)(p := r)\<rparr>)"
| finalizes: "calls i = NoCall \<Longrightarrow> tm_run t \<noteq> [] \<Longrightarrow> tm_exec t = tm_run t \<Longrightarrow>
    TrimSpace (rr_run (tm_results t p)) = [] \<or> rr_run (tm_results t p) = tm_run t \<Longrightarrow>
    electTerminalCandidate p t = ((Some q, elected), t') \<Longrightarrow>
    terminal_step env (calls, t) (calls(i := if elected then Building q else Entering q False), t')"
| waits_for_owner: "calls i = NoCall \<Longrightarrow> tm_run t \<noteq> [] \<Longrightarrow> tm_state t \<noteq> LifecycleOpen \<Longrightarrow> tm_candidate t = Some p \<Longrightarrow>
    terminal_step env (calls, t) (calls(i := Entering p False), t)"
| builds: "calls i = Building p \<Longrightarrow> TrimSpace (gw_workspace (fw_gate fw)) \<noteq> [] \<Longrightarrow> gw_run (fw_gate fw) = tm_run t \<Longrightarrow>
    terminal_step env (calls, t) (calls(i := Entering p True),
      finishTerminalPreparation
        (t\<lparr>tm_results := (tm_results t)(p := terminal_result env fw acceptance True (tm_results t p))\<rparr>))"
| commits: "calls i = Entering p owner \<Longrightarrow> commitTerminalLifecycle p t = ((q, act), t') \<Longrightarrow>
    terminal_step env (calls, t) (calls(i := after_commit q owner act t'), t')"
| wakes_prepared: "calls i = WaitingPrepared p owner \<Longrightarrow> tm_prepared t \<Longrightarrow>
    terminal_step env (calls, t) (calls(i := Entering p owner), t)"
| wakes_done: "calls i = WaitingDone p owner \<Longrightarrow> tm_state t \<noteq> LifecycleCommitting \<Longrightarrow>
    terminal_step env (calls, t) (calls(i := Returning p owner (commit_answer t)), t)"
| times_out: "calls i \<in> {WaitingPrepared p owner, WaitingDone p owner} \<Longrightarrow>
    terminal_step env (calls, t)
      (calls(i := Returning p owner (Some WaitExceeded)), markTerminalRecoveryForCandidate reason p t)"
| appends: "calls i = Appending p owner e \<Longrightarrow> bounded_append e answer t = (err, t') \<Longrightarrow>
    terminal_step env (calls, t) (calls(i := Appended p owner e err), t')"
| settles: "calls i = Appended p owner e err \<Longrightarrow>
    terminal_step env (calls, t) (calls(i := Recording p owner e err), settle_append (fe_result e) err t)"
| records: "calls i = Recording p owner e err \<Longrightarrow>
    terminal_step env (calls, t) (calls(i := Returning p owner err), record_append e err t)"
| returns: "calls i = Returning p owner err \<Longrightarrow>
    terminal_step env (calls, t) (calls(i := NoCall), publish_result (u :: ('c, 'r, 'p, 'w) publication) p owner err t)"
| arrives: "e \<in> set (tm_late t) \<Longrightarrow>
    terminal_step env (calls, t) (calls, t\<lparr>tm_journal := snd (persist e (tm_journal t)), tm_late := remove1 e (tm_late t)\<rparr>)"
| is_lost: "terminal_step env (calls, t) (calls, t\<lparr>tm_late := remove1 e (tm_late t)\<rparr>)"
| abandons: "calls i = NoCall \<Longrightarrow>
    terminal_step env (calls, t) (calls(i := Abandoning (tm_run t) (tm_state t)), t)"
| marks: "calls i = Abandoning run state \<Longrightarrow>
    terminal_step env (calls, t) (calls(i := NoCall), markTerminalRecovery run state reason t)"
| ends: "\<forall>i. calls i = NoCall \<Longrightarrow> terminal_step env (calls, t) (calls, end_run t)"
| switches: "\<forall>i. calls i = NoCall \<Longrightarrow> tm_exec t = [] \<Longrightarrow> se_pending (tm_session t) = None \<Longrightarrow>
    terminal_step env (calls, t) (calls, t\<lparr>tm_branch := b\<rparr>)"
| crashes: "terminal_step env (calls, t) (\<lambda>_. NoCall, crashed t)"

definition first_terminal :: "string \<Rightarrow> (nat \<Rightarrow> 'w run_result) \<Rightarrow> 'w terminal" where
  "first_terminal branch results =
     \<lparr>tm_run = [], tm_state = LifecycleOpen, tm_candidate = None, tm_snapshot = None, tm_prepared = False, tm_error = None,
      tm_timed_out = False, tm_exec = [], tm_branch = branch, tm_history = [], tm_results = results, tm_last = None,
      tm_session = \<lparr>se_required = False, se_reason = [], se_pending = None, se_result = None\<rparr>, tm_journal = [], tm_late = []\<rparr>"

inductive terminal_reachable ::
  "('c, 'r, 'p) evidence_env \<Rightarrow> (nat \<Rightarrow> 'w call) \<times> 'w terminal \<Rightarrow> bool" for env where
  starts: "terminal_reachable env (\<lambda>_. NoCall, first_terminal branch results)"
| steps: "terminal_reachable env s \<Longrightarrow> terminal_step env s s' \<Longrightarrow> terminal_reachable env s'"

end
