(* ===== verification/Terminal_Safety.thy ===== *)
theory Terminal_Safety
  imports Terminal_Lifecycle
begin

text \<open>
  What holds however the calls of a terminal lifecycle interleave: there is one owner and one event per run, the
  session follows the journal, and the recovery marker is there exactly when the event may be missing.
\<close>

section \<open>The invariant\<close>

text \<open>Results that differ only in the fields \<open>SetLastRunResult\<close> refreshes.\<close>

definition alike :: "'w run_result \<Rightarrow> 'w run_result \<Rightarrow> bool" where
  "alike r r' \<longleftrightarrow> rr_run r = rr_run r' \<and> rr_outcome r = rr_outcome r' \<and> rr_satisfied r = rr_satisfied r'"

lemma alike_refl [simp]: "alike r r"
  by (simp add: alike_def)

text \<open>A result is what the owner's preparation, the completion gate included, made of a candidate of the run.\<close>

definition produced :: "('c, 'r, 'p) evidence_env \<Rightarrow> string \<Rightarrow> 'w run_result \<Rightarrow> bool" where
  "produced env run r \<longleftrightarrow>
     (\<exists>(fw :: ('c, 'r, 'p, 'w) finalize_world) acceptance r0. r = terminal_result env fw acceptance True r0 \<and>
        TrimSpace (gw_workspace (fw_gate fw)) \<noteq> [] \<and> gw_run (fw_gate fw) = run)"

fun call_allowed :: "('c, 'r, 'p) evidence_env \<Rightarrow> 'w terminal \<Rightarrow> 'w call \<Rightarrow> bool" where
  "call_allowed env t NoCall = True"
| "call_allowed env t (Abandoning run state) = True"
| "call_allowed env t (Building p) \<longleftrightarrow>
     tm_run t \<noteq> [] \<and> tm_candidate t = Some p \<and> tm_state t = CandidateElected \<and> \<not> tm_prepared t"
| "call_allowed env t (Entering p b) \<longleftrightarrow> tm_run t \<noteq> [] \<and> tm_candidate t = Some p \<and> tm_state t \<noteq> LifecycleOpen"
| "call_allowed env t (WaitingPrepared p b) \<longleftrightarrow> tm_run t \<noteq> [] \<and> tm_candidate t = Some p \<and> tm_state t \<noteq> LifecycleOpen"
| "call_allowed env t (WaitingDone p b) \<longleftrightarrow> tm_run t \<noteq> [] \<and> tm_candidate t = Some p \<and>
     tm_state t \<notin> {LifecycleOpen, CandidateElected}"
| "call_allowed env t (Appending p b e) \<longleftrightarrow> tm_run t \<noteq> [] \<and> tm_candidate t = Some p \<and> tm_state t = LifecycleCommitting \<and>
     e = terminal_event p t \<and> produced env (tm_run t) (fe_result e)"
| "call_allowed env t (Appended p b e err) \<longleftrightarrow> tm_run t \<noteq> [] \<and> tm_candidate t = Some p \<and> tm_state t = LifecycleCommitting \<and>
     e = terminal_event p t \<and> (err = None \<longrightarrow> e \<in> set (tm_journal t))"
| "call_allowed env t (Recording p b e err) \<longleftrightarrow> tm_run t \<noteq> [] \<and> tm_candidate t = Some p \<and>
     tm_state t = (if err = None then LifecycleCommitted else LifecycleRecoveryRequired) \<and>
     fe_run e = tm_run t \<and> fe_key e = terminalFinishedIdempotencyKey (tm_run t) \<and> fe_branch e = tm_branch t \<and>
     (err = None \<longrightarrow> e \<in> set (tm_journal t))"
| "call_allowed env t (Returning p b err) \<longleftrightarrow> tm_run t \<noteq> [] \<and> tm_candidate t = Some p \<and> tm_state t \<noteq> LifecycleOpen \<and>
     (err = None \<longrightarrow> tm_state t = LifecycleCommitted)"

text \<open>The lifecycle itself.\<close>

definition lifecycle_ok :: "('c, 'r, 'p) evidence_env \<Rightarrow> 'w terminal \<Rightarrow> bool" where
  "lifecycle_ok env t \<longleftrightarrow>
     (tm_exec t = tm_run t \<or> tm_exec t = []) \<and>
     (\<forall>run\<in>set (tm_history t). run \<noteq> [] \<and> TrimSpace run = run) \<and>
     (tm_state t = LifecycleOpen \<longrightarrow> tm_candidate t = None \<and> \<not> tm_prepared t) \<and>
     (tm_state t \<notin> {LifecycleOpen, CandidateElected} \<longrightarrow> tm_prepared t) \<and>
     (tm_run t = [] \<longrightarrow> tm_state t = LifecycleOpen) \<and>
     (tm_run t \<noteq> [] \<longrightarrow> tm_run t \<in> set (tm_history t)) \<and>
     (tm_state t \<noteq> LifecycleOpen \<longrightarrow> (\<exists>p. tm_candidate t = Some p \<and> rr_run (tm_results t p) = tm_run t)) \<and>
     (\<forall>p. tm_state t = CandidateElected \<and> tm_prepared t \<and> tm_candidate t = Some p \<longrightarrow> produced env (tm_run t) (tm_results t p)) \<and>
     (\<forall>p. tm_state t = LifecycleCommitted \<and> tm_candidate t = Some p \<longrightarrow>
        (\<exists>e\<in>set (tm_journal t). fe_run e = tm_run t \<and> tm_snapshot t = Some (fe_result e) \<and> alike (fe_result e) (tm_results t p)))"

definition event_ok :: "('c, 'r, 'p) evidence_env \<Rightarrow> string list \<Rightarrow> 'w finished_event \<Rightarrow> bool" where
  "event_ok env history e \<longleftrightarrow> fe_run e \<in> set history \<and> fe_key e = terminalFinishedIdempotencyKey (fe_run e) \<and>
     rr_run (fe_result e) = fe_run e \<and> (fe_result e = aborted_result (fe_run e) \<or> produced env (fe_run e) (fe_result e))"

definition finished_ok :: "('c, 'r, 'p) evidence_env \<Rightarrow> 'w terminal \<Rightarrow> bool" where
  "finished_ok env t \<longleftrightarrow> distinct (map fe_key (tm_journal t)) \<and>
     (\<forall>e\<in>set (tm_journal t) \<union> set (tm_late t). event_ok env (tm_history t) e)"

definition session_ok :: "'w terminal \<Rightarrow> bool" where
  "session_ok t \<longleftrightarrow>
     (\<forall>r. se_result (tm_session t) = Some r \<longrightarrow> (\<exists>e\<in>set (tm_journal t). alike (fe_result e) r)) \<and>
     (\<forall>pc. se_pending (tm_session t) = Some pc \<longrightarrow>
        pc = pending_of (pc_run pc) (pc_branch pc) \<and> pc_run pc \<in> set (tm_history t) \<and>
        (pc_run pc = tm_run t \<longrightarrow> pc_branch pc = tm_branch t))"

fun in_append :: "'w call \<Rightarrow> bool" where
  "in_append (Appending p b e) = True"
| "in_append (Appended p b e err) = True"
| "in_append c = False"

fun recording :: "'w call \<Rightarrow> bool" where
  "recording (Recording p b e err) = True"
| "recording c = False"

fun preparing :: "'w call \<Rightarrow> bool" where
  "preparing (Building p) = True"
| "preparing c = False"

definition single_parts :: "(nat \<Rightarrow> 'w call) \<Rightarrow> 'w terminal \<Rightarrow> bool" where
  "single_parts calls t \<longleftrightarrow>
     (\<forall>i j. (preparing (calls i) \<and> preparing (calls j) \<or> in_append (calls i) \<and> in_append (calls j) \<or>
             recording (calls i) \<and> recording (calls j)) \<longrightarrow> i = j) \<and>
     (tm_state t = CandidateElected \<and> \<not> tm_prepared t \<longrightarrow> (\<exists>i. preparing (calls i))) \<and>
     (tm_state t = LifecycleCommitting \<longrightarrow> (\<exists>i. in_append (calls i)))"

definition barrier_ok :: "(nat \<Rightarrow> 'w call) \<Rightarrow> 'w terminal \<Rightarrow> bool" where
  "barrier_ok calls t \<longleftrightarrow> (tm_run t \<noteq> [] \<and> (\<forall>i. \<not> recording (calls i)) \<longrightarrow>
     (tm_state t = LifecycleCommitted \<longrightarrow> (\<forall>pc. se_pending (tm_session t) = Some pc \<longrightarrow> pc_run pc \<noteq> tm_run t)) \<and>
     (tm_state t = LifecycleRecoveryRequired \<longrightarrow>
        se_required (tm_session t) \<and> se_pending (tm_session t) = Some (pending_of (tm_run t) (tm_branch t))))"

definition terminal_inv :: "('c, 'r, 'p) evidence_env \<Rightarrow> (nat \<Rightarrow> 'w call) \<times> 'w terminal \<Rightarrow> bool" where
  "terminal_inv env s \<longleftrightarrow>
     (case s of (calls, t) \<Rightarrow>
        (\<forall>i. call_allowed env t (calls i)) \<and> lifecycle_ok env t \<and> finished_ok env t \<and> session_ok t \<and>
        single_parts calls t \<and> barrier_ok calls t)"

lemma terminal_invI:
  assumes "\<And>i. call_allowed env t (calls i)" "lifecycle_ok env t" "finished_ok env t" "session_ok t" "single_parts calls t" "barrier_ok calls t"
  shows "terminal_inv env (calls, t)"
  using assms by (simp add: terminal_inv_def)

lemma terminal_invD:
  assumes "terminal_inv env (calls, t)"
  shows "call_allowed env t (calls i)" "lifecycle_ok env t" "finished_ok env t" "session_ok t" "single_parts calls t" "barrier_ok calls t"
  using assms by (simp_all add: terminal_inv_def)

section \<open>Frames\<close>

text \<open>Two states that agree on the lifecycle; the journal may have grown.\<close>

definition core :: "'w terminal \<Rightarrow> 'w terminal \<Rightarrow> bool" where
  "core t t' \<longleftrightarrow> tm_run t' = tm_run t \<and> tm_state t' = tm_state t \<and> tm_candidate t' = tm_candidate t \<and>
     tm_prepared t' = tm_prepared t \<and> tm_branch t' = tm_branch t \<and> tm_exec t' = tm_exec t \<and> tm_history t' = tm_history t \<and>
     tm_snapshot t' = tm_snapshot t \<and> (\<forall>p. tm_candidate t = Some p \<longrightarrow> tm_results t' p = tm_results t p) \<and>
     set (tm_journal t) \<subseteq> set (tm_journal t')"

lemma call_allowed_core:
  assumes "core t t'" "call_allowed env t c"
  shows "call_allowed env t' c"
  using assms by (cases c) (auto simp: core_def terminal_event_def Let_def)

lemma lifecycle_core:
  assumes "core t t'" "lifecycle_ok env t"
  shows "lifecycle_ok env t'"
proof -
  have s: "tm_run t' = tm_run t" "tm_state t' = tm_state t" "tm_candidate t' = tm_candidate t" "tm_prepared t' = tm_prepared t"
    "tm_exec t' = tm_exec t" "tm_history t' = tm_history t" "tm_snapshot t' = tm_snapshot t"
    and r: "\<And>p. tm_candidate t = Some p \<Longrightarrow> tm_results t' p = tm_results t p" and j: "set (tm_journal t) \<subseteq> set (tm_journal t')"
    using assms(1) by (auto simp: core_def)
  from assms(2) have l: "\<And>p. tm_state t = CandidateElected \<and> tm_prepared t \<and> tm_candidate t = Some p \<Longrightarrow> produced env (tm_run t) (tm_results t p)"
    and k: "\<And>p. tm_state t = LifecycleCommitted \<and> tm_candidate t = Some p \<Longrightarrow>
        (\<exists>e\<in>set (tm_journal t). fe_run e = tm_run t \<and> tm_snapshot t = Some (fe_result e) \<and> alike (fe_result e) (tm_results t p))"
    and e: "tm_state t \<noteq> LifecycleOpen \<Longrightarrow> \<exists>p. tm_candidate t = Some p \<and> rr_run (tm_results t p) = tm_run t"
    by (auto simp: lifecycle_ok_def)
  have "produced env (tm_run t) (tm_results t' p)"
    if "tm_state t = CandidateElected \<and> tm_prepared t \<and> tm_candidate t = Some p" for p
    using l [OF that] r [of p] that by simp
  moreover have "\<exists>e\<in>set (tm_journal t'). fe_run e = tm_run t \<and> tm_snapshot t = Some (fe_result e) \<and> alike (fe_result e) (tm_results t' p)"
    if "tm_state t = LifecycleCommitted \<and> tm_candidate t = Some p" for p
    using k [OF that] r [of p] that j by auto
  moreover have "\<exists>p. tm_candidate t = Some p \<and> rr_run (tm_results t' p) = tm_run t" if "tm_state t \<noteq> LifecycleOpen"
    using e [OF that] r by auto
  ultimately show ?thesis using assms(2) unfolding lifecycle_ok_def s by simp
qed

lemma owners_core: "core t t' \<Longrightarrow> single_parts calls t \<Longrightarrow> single_parts calls t'"
  by (simp add: core_def single_parts_def)

lemma core_inv:
  assumes "terminal_inv env (calls, t)" "core t t'" "finished_ok env t'" "session_ok t'" "barrier_ok calls t'"
  shows "terminal_inv env (calls, t')"
  using terminal_invD [OF assms(1)] call_allowed_core [OF assms(2)] lifecycle_core [OF assms(2)] owners_core [OF assms(2)] assms(3-5)
  by (intro terminal_invI) auto

text \<open>A call that moves without changing its part in ownership.\<close>

definition same_part :: "'w call \<Rightarrow> 'w call \<Rightarrow> bool" where
  "same_part c c' \<longleftrightarrow> preparing c = preparing c' \<and> in_append c = in_append c' \<and> recording c = recording c'"

lemma same_part_upd:
  assumes "same_part (calls i) c"
  shows "preparing ((calls(i := c)) j) = preparing (calls j)" "in_append ((calls(i := c)) j) = in_append (calls j)"
    "recording ((calls(i := c)) j) = recording (calls j)"
  using assms by (simp_all add: same_part_def)

lemma move_inv:
  assumes "terminal_inv env (calls, t)" "same_part (calls i) c" "call_allowed env t c"
  shows "terminal_inv env (calls(i := c), t)"
proof -
  note d = terminal_invD [OF assms(1)]
  have "single_parts (calls(i := c)) t" using d(5) unfolding single_parts_def same_part_upd [of calls, OF assms(2)] .
  moreover have "barrier_ok (calls(i := c)) t" using d(6) unfolding barrier_ok_def same_part_upd [of calls, OF assms(2)] .
  ultimately show ?thesis using d(1-4) assms(3) by (intro terminal_invI) auto
qed

section \<open>Steps\<close>

lemma first_inv: "terminal_inv env (\<lambda>_. NoCall, first_terminal branch results)"
  by (intro terminal_invI)
    (simp_all add: lifecycle_ok_def finished_ok_def session_ok_def single_parts_def barrier_ok_def first_terminal_def)

lemma idle_owners: "\<forall>i. calls i = NoCall \<Longrightarrow> tm_state t = LifecycleOpen \<Longrightarrow> single_parts calls t"
  by (simp add: single_parts_def)

lemma crashed_inv:
  assumes "terminal_inv env (calls, t)"
  shows "terminal_inv env (\<lambda>_. NoCall, crashed t)"
proof (rule terminal_invI)
  note d = terminal_invD [OF assms]
  show "lifecycle_ok env (crashed t)" using d(2) by (simp add: lifecycle_ok_def crashed_def)
  show "finished_ok env (crashed t)" using d(3) by (simp add: finished_ok_def crashed_def)
  show "session_ok (crashed t)" using d(2,4)
    unfolding session_ok_def crashed_def lifecycle_ok_def by auto
qed (simp_all add: idle_owners barrier_ok_def crashed_def)

lemma core_session: "core t (t\<lparr>tm_session := s\<rparr>)"
  by (simp add: core_def)

lemma trim_nothing: "TrimSpace x \<noteq> [] \<Longrightarrow> x \<noteq> []"
  by auto

lemma branch_pending: "pc_run (pending_of run b) = run" "pc_branch (pending_of run b) = b" "pc_key (pending_of run b) = terminalFinishedIdempotencyKey run"
  by (simp_all add: pending_of_def)

lemma mark_inv:
  assumes "terminal_inv env (calls, t)" "tm_run t \<noteq> []" "tm_state t \<noteq> LifecycleCommitted"
  shows "terminal_inv env (calls, markTerminalRecoveryPending reason (Some (pending_of (tm_run t) (tm_branch t))) t)"
proof -
  note d = terminal_invD [OF assms(1)]
  have h: "tm_run t \<in> set (tm_history t)" using d(2) assms(2) by (simp add: lifecycle_ok_def)
  show ?thesis unfolding markTerminalRecoveryPending_def
  proof (rule core_inv [OF assms(1) core_session], goal_cases)
    case 1 show ?case using d(3) by (simp add: finished_ok_def)
  next
    case 2 show ?case using d(4) h by (simp add: session_ok_def branch_pending)
  next
    case 3 show ?case using assms(3) by (simp add: barrier_ok_def)
  qed
qed

lemma mark_state_inv:
  assumes "terminal_inv env (calls, t)"
  shows "terminal_inv env (calls, markTerminalRecoveryState reason t)"
  unfolding markTerminalRecoveryState_def
proof (rule core_inv [OF assms core_session], goal_cases)
  note d = terminal_invD [OF assms]
  case 1 show ?case using d(3) by (simp add: finished_ok_def)
  case 2 show ?case using d(4) by (simp add: session_ok_def)
  case 3 show ?case using d(6) by (simp add: barrier_ok_def)
qed

lemma mark_candidate_inv:
  assumes "terminal_inv env (calls, t)"
  shows "terminal_inv env (calls, markTerminalRecoveryForCandidate reason p t)"
  using assms mark_inv [OF assms, of reason] trim_nothing
  by (auto simp: markTerminalRecoveryForCandidate_def markTerminalRecoveryForPending_def branch_pending Let_def)

lemma mark_seen_inv:
  assumes "terminal_inv env (calls, t)"
  shows "terminal_inv env (calls, markTerminalRecovery run state reason t)"
  using assms mark_inv [OF assms, of reason] mark_state_inv [OF assms]
  by (auto simp: markTerminalRecovery_def markTerminalRecoveryForPending_def branch_pending)

lemma persist_facts:
  assumes "persist e js = (err, js')"
  shows "set js \<subseteq> set js'" "set js' \<subseteq> insert e (set js)" "distinct (map fe_key js) \<Longrightarrow> distinct (map fe_key js')"
    "err = None \<Longrightarrow> e \<in> set js'"
proof -
  have "fe_key e \<notin> fe_key ` set js" if "find (\<lambda>x. fe_key x = fe_key e) js = None"
    using that unfolding find_None_iff by (metis imageE)
  then show "set js \<subseteq> set js'" "set js' \<subseteq> insert e (set js)" "distinct (map fe_key js) \<Longrightarrow> distinct (map fe_key js')"
    "err = None \<Longrightarrow> e \<in> set js'"
    using assms by (auto simp: persist_def find_Some_iff split: option.splits if_splits)
qed

lemma journal_inv:
  assumes "terminal_inv env (calls, t)" "persist e (tm_journal t) = (err, js)" "event_ok env (tm_history t) e"
    and "set late \<subseteq> set (tm_late t)"
  shows "terminal_inv env (calls, t\<lparr>tm_journal := js, tm_late := late\<rparr>)"
proof (rule core_inv [OF assms(1)])
  note d = terminal_invD [OF assms(1)] and p = persist_facts [OF assms(2)]
  show "core t (t\<lparr>tm_journal := js, tm_late := late\<rparr>)" using p(1) by (simp add: core_def)
  show "finished_ok env (t\<lparr>tm_journal := js, tm_late := late\<rparr>)"
    using d(3) p(2,3) assms(3,4) by (auto simp: finished_ok_def)
  show "session_ok (t\<lparr>tm_journal := js, tm_late := late\<rparr>)" using d(4) p(1) by (fastforce simp: session_ok_def)
  show "barrier_ok calls (t\<lparr>tm_journal := js, tm_late := late\<rparr>)" using d(6) by (simp add: barrier_ok_def)
qed

lemma late_inv:
  assumes "terminal_inv env (calls, t)" "\<forall>e\<in>set late. e \<in> set (tm_late t) \<or> event_ok env (tm_history t) e"
  shows "terminal_inv env (calls, t\<lparr>tm_late := late\<rparr>)"
proof (rule core_inv [OF assms(1)])
  note d = terminal_invD [OF assms(1)]
  show "core t (t\<lparr>tm_late := late\<rparr>)" by (simp add: core_def)
  show "finished_ok env (t\<lparr>tm_late := late\<rparr>)" using d(3) assms(2) by (auto simp: finished_ok_def)
  show "session_ok (t\<lparr>tm_late := late\<rparr>)" using d(4) by (simp add: session_ok_def)
  show "barrier_ok calls (t\<lparr>tm_late := late\<rparr>)" using d(6) by (simp add: barrier_ok_def)
qed

lemma append_inv:
  assumes "terminal_inv env (calls, t)" "bounded_append e answer t = (err, t')" "event_ok env (tm_history t) e"
  shows "terminal_inv env (calls, t')" "core t t'" "err = None \<Longrightarrow> e \<in> set (tm_journal t')"
proof -
  have same: "t\<lparr>tm_journal := js, tm_late := tm_late t\<rparr> = t\<lparr>tm_journal := js\<rparr>" for js by simp
  obtain err' js where p: "persist e (tm_journal t) = (err', js)" by fastforce
  note j = journal_inv [OF assms(1) p assms(3) subset_refl, unfolded same]
  note l = late_inv [OF assms(1), of "tm_late t @ [e]"]
  show "terminal_inv env (calls, t')" using assms j l p
    by (cases answer) (auto simp: bounded_append_def)
  show "core t t'" using assms(2) persist_facts(1) [OF p] p
    by (cases answer) (auto simp: bounded_append_def core_def)
  show "err = None \<Longrightarrow> e \<in> set (tm_journal t')" using assms(2) persist_facts(4) [OF p] p
    by (cases answer) (auto simp: bounded_append_def)
qed

lemma create_inv:
  assumes "terminal_inv env (calls, t)" "tm_candidate t \<noteq> Some p"
  shows "terminal_inv env (calls, t\<lparr>tm_results := (tm_results t)(p := r)\<rparr>)"
proof (rule core_inv [OF assms(1)])
  note d = terminal_invD [OF assms(1)]
  show "core t (t\<lparr>tm_results := (tm_results t)(p := r)\<rparr>)" using assms(2) by (auto simp: core_def)
  show "finished_ok env (t\<lparr>tm_results := (tm_results t)(p := r)\<rparr>)" using d(3) by (simp add: finished_ok_def)
  show "session_ok (t\<lparr>tm_results := (tm_results t)(p := r)\<rparr>)" using d(4) by (simp add: session_ok_def)
  show "barrier_ok calls (t\<lparr>tm_results := (tm_results t)(p := r)\<rparr>)" using d(6) by (simp add: barrier_ok_def)
qed

text \<open>Where nobody has elected yet, there are only calls that mark an abandoned run.\<close>

lemma open_calls:
  assumes "terminal_inv env (calls, t)" "tm_state t = LifecycleOpen"
  shows "calls j = NoCall \<or> (\<exists>run state. calls j = Abandoning run state)"
  using terminal_invD(1) [OF assms(1), of j] terminal_invD(2) [OF assms(1)] assms(2)
  by (cases "calls j") (auto simp: lifecycle_ok_def split: if_splits)

lemma elected_inv:
  assumes "terminal_inv env (calls, t)" "calls i = NoCall" "tm_run t \<noteq> []" "tm_exec t = tm_run t" "tm_state t = LifecycleOpen"
    and "TrimSpace (rr_run (tm_results t p)) = [] \<or> rr_run (tm_results t p) = tm_run t"
    and "electTerminalCandidate p t = ((Some q, elected), t')"
  shows "terminal_inv env (calls(i := Building q), t')" "elected"
proof -
  note d = terminal_invD [OF assms(1)] and o = open_calls [OF assms(1,5)]
  have trim: "TrimSpace (tm_run t) = tm_run t" using d(2) assms(3) by (auto simp: lifecycle_ok_def)
  have q: "q = p" "elected" and t': "t' = t\<lparr>tm_candidate := Some p, tm_results := tm_results t', tm_state := CandidateElected\<rparr>"
    and run: "rr_run (tm_results t' p) = tm_run t"
    using assms(3-7) trim by (auto simp: electTerminalCandidate_def split: if_splits)
  have f: "tm_run t' = tm_run t" "tm_exec t' = tm_exec t" "tm_history t' = tm_history t" "tm_state t' = CandidateElected"
    "tm_candidate t' = Some p" "tm_prepared t' = tm_prepared t" "tm_journal t' = tm_journal t" "tm_late t' = tm_late t"
    "tm_session t' = tm_session t" "tm_branch t' = tm_branch t"
    by (subst t', simp)+
  have prep: "\<not> tm_prepared t" using d(2) assms(5) by (simp add: lifecycle_ok_def)
  show "elected" by (fact q)
  show "terminal_inv env (calls(i := Building q), t')"
  proof (rule terminal_invI)
    fix j show "call_allowed env t' ((calls(i := Building q)) j)" using o [of j] assms(3) prep by (auto simp: f q)
  next
    show "lifecycle_ok env t'" using d(2) assms(3) prep run by (simp add: lifecycle_ok_def f)
    show "finished_ok env t'" using d(3) by (simp add: finished_ok_def f)
    show "session_ok t'" using d(4) by (simp add: session_ok_def f)
    have "\<not> preparing (calls j)" "\<not> in_append (calls j)" "\<not> recording (calls j)" for j using o [of j] by auto
    then show "single_parts (calls(i := Building q)) t'" by (auto simp: single_parts_def f split: if_splits)
    show "barrier_ok (calls(i := Building q)) t'" by (simp add: barrier_ok_def f)
  qed
qed

text \<open>What the other calls of a state can be doing.\<close>

lemma elected_calls:
  assumes "terminal_inv env (calls, t)" "tm_state t = CandidateElected"
  shows "\<not> in_append (calls j)" "\<not> recording (calls j)" "tm_prepared t \<Longrightarrow> \<not> preparing (calls j)"
  using terminal_invD(1) [OF assms(1), of j] assms(2) by (cases "calls j"; auto split: if_splits)+

lemma builds_inv:
  assumes "terminal_inv env (calls, t)" "calls i = Building p" "TrimSpace (gw_workspace (fw_gate fw)) \<noteq> []"
    and "gw_run (fw_gate fw) = tm_run t"
  shows "terminal_inv env (calls(i := Entering p True), finishTerminalPreparation
      (t\<lparr>tm_results := (tm_results t)(p := terminal_result env fw acceptance True (tm_results t p))\<rparr>))"
proof -
  note d = terminal_invD [OF assms(1)]
  have c: "tm_run t \<noteq> []" "tm_candidate t = Some p" "tm_state t = CandidateElected" "\<not> tm_prepared t"
    using d(1) [of i] assms(2) by auto
  have run: "rr_run (tm_results t p) = tm_run t" "TrimSpace (tm_run t) = tm_run t"
    using d(2) c by (auto simp: lifecycle_ok_def)
  let ?r = "terminal_result env fw acceptance True (tm_results t p)"
  have r: "rr_run ?r = tm_run t" "produced env (tm_run t) ?r"
    using final_run [of "tm_results t p" fw env acceptance True] run c(1) assms(3,4) by (auto simp: produced_def)
  let ?t = "finishTerminalPreparation (t\<lparr>tm_results := (tm_results t)(p := ?r)\<rparr>)"
  have t': "?t = t\<lparr>tm_results := (tm_results t)(p := ?r), tm_prepared := True\<rparr>"
    using c(4) by (simp add: finishTerminalPreparation_def)
  have b: "\<not> preparing (calls j)" if "j \<noteq> i" for j
    using d(5) assms(2) that unfolding single_parts_def by (metis preparing.simps(1))
  show ?thesis unfolding t'
  proof (rule terminal_invI)
    fix j
    show "call_allowed env (t\<lparr>tm_results := (tm_results t)(p := ?r), tm_prepared := True\<rparr>) ((calls(i := Entering p True)) j)"
      using d(1) [of j] b [of j] elected_calls(1,2) [OF assms(1) c(3), of j] c by (cases "calls j") auto
  next
    show "lifecycle_ok env (t\<lparr>tm_results := (tm_results t)(p := ?r), tm_prepared := True\<rparr>)"
      using d(2) c r by (simp add: lifecycle_ok_def)
    show "finished_ok env (t\<lparr>tm_results := (tm_results t)(p := ?r), tm_prepared := True\<rparr>)" using d(3) by (simp add: finished_ok_def)
    show "session_ok (t\<lparr>tm_results := (tm_results t)(p := ?r), tm_prepared := True\<rparr>)" using d(4) by (simp add: session_ok_def)
    show "single_parts (calls(i := Entering p True)) (t\<lparr>tm_results := (tm_results t)(p := ?r), tm_prepared := True\<rparr>)"
      using b elected_calls(1,2) [OF assms(1) c(3)] c by (auto simp: single_parts_def split: if_splits)
    show "barrier_ok (calls(i := Entering p True)) (t\<lparr>tm_results := (tm_results t)(p := ?r), tm_prepared := True\<rparr>)"
      using c by (simp add: barrier_ok_def)
  qed
qed

lemma committing_inv:
  assumes "terminal_inv env (calls, t)" "calls i = Entering p b" "tm_state t = CandidateElected" "tm_prepared t"
  shows "terminal_inv env (calls(i := Appending p b (terminal_event p (t\<lparr>tm_state := LifecycleCommitting\<rparr>))),
    t\<lparr>tm_state := LifecycleCommitting\<rparr>)"
proof (rule terminal_invI)
  note d = terminal_invD [OF assms(1)] and e = elected_calls [OF assms(1,3)]
  have c: "tm_run t \<noteq> []" "tm_candidate t = Some p" using d(1) [of i] assms(2) by auto
  let ?t = "t\<lparr>tm_state := LifecycleCommitting\<rparr>" and ?c = "Appending p b (terminal_event p (t\<lparr>tm_state := LifecycleCommitting\<rparr>))"
  have pr: "produced env (tm_run t) (tm_results t p)" using d(2) c(2) assms(3,4) by (simp add: lifecycle_ok_def)
  fix j show "call_allowed env ?t ((calls(i := ?c)) j)"
    using d(1) [of j] e [of j] assms(3,4) c pr by (cases "calls j") (auto simp: terminal_event_def Let_def split: if_splits)
next
  note d = terminal_invD [OF assms(1)] and e = elected_calls [OF assms(1,3)]
  let ?t = "t\<lparr>tm_state := LifecycleCommitting\<rparr>" and ?c = "Appending p b (terminal_event p (t\<lparr>tm_state := LifecycleCommitting\<rparr>))"
  have c: "tm_run t \<noteq> []" using d(1) [of i] assms(2) by auto
  show "lifecycle_ok env ?t" using d(2) assms(3,4) c by (simp add: lifecycle_ok_def)
  show "finished_ok env ?t" using d(3) by (simp add: finished_ok_def)
  show "session_ok ?t" using d(4) by (simp add: session_ok_def)
  show "single_parts (calls(i := ?c)) ?t" using e assms(4) by (auto simp: single_parts_def split: if_splits)
  show "barrier_ok (calls(i := ?c)) ?t" by (simp add: barrier_ok_def)
qed

lemma commits_inv:
  assumes "terminal_inv env (calls, t)" "calls i = Entering p b" "commitTerminalLifecycle p t = ((q, act), t')"
  shows "terminal_inv env (calls(i := after_commit q b act t'), t')"
proof -
  note d = terminal_invD [OF assms(1)]
  have c: "tm_run t \<noteq> []" "tm_candidate t = Some p" "tm_state t \<noteq> LifecycleOpen" using d(1) [of i] assms(2) by auto
  have run: "rr_run (tm_results t p) = tm_run t" "TrimSpace (tm_run t) = tm_run t"
    using d(2) c by (auto simp: lifecycle_ok_def)
  have el: "electTerminalCandidate p t = ((Some p, False), t)" using c by (simp add: electTerminalCandidate_def)
  have move: "terminal_inv env (calls(i := x), t)" if "\<not> preparing x" "\<not> in_append x" "\<not> recording x" "call_allowed env t x" for x
    using that assms(2) by (intro move_inv [OF assms(1)]) (simp_all add: same_part_def)
  show ?thesis
  proof (cases "tm_state t = CandidateElected \<and> tm_prepared t")
    case True
    then have "(q, act) = (p, AppendCandidate)" "t' = t\<lparr>tm_state := LifecycleCommitting\<rparr>"
      using assms(3) c run by (auto simp: commitTerminalLifecycle_def el)
    with committing_inv [OF assms(1,2)] True show ?thesis by (simp add: after_commit_def)
  next
    case False
    then show ?thesis using assms(3) c run move
      by (auto simp: commitTerminalLifecycle_def el after_commit_def split: terminal_state.splits if_splits)
  qed
qed

lemma committing_calls:
  assumes "terminal_inv env (calls, t)" "calls i = Appended p b e err" "j \<noteq> i"
  shows "\<not> preparing (calls j)" "\<not> in_append (calls j)" "\<not> recording (calls j)"
    "calls j \<noteq> Returning p' b' None"
proof -
  note d = terminal_invD [OF assms(1)]
  have c: "tm_state t = LifecycleCommitting" using d(1) [of i] assms(2) by auto
  show "\<not> in_append (calls j)" using d(5) assms(2,3) unfolding single_parts_def by (metis in_append.simps(2))
  show "\<not> preparing (calls j)" "\<not> recording (calls j)" "calls j \<noteq> Returning p' b' None"
    using d(1) [of j] c by (cases "calls j"; auto split: if_splits)+
qed

lemma settles_inv:
  assumes "terminal_inv env (calls, t)" "calls i = Appended p b e err"
  shows "terminal_inv env (calls(i := Recording p b e err), settle_append (fe_result e) err t)"
proof -
  note d = terminal_invD [OF assms(1)] and o = committing_calls [OF assms]
  define t' where "t' = settle_append (fe_result e) err t"
  have c: "tm_run t \<noteq> []" "tm_candidate t = Some p" "tm_state t = LifecycleCommitting" "e = terminal_event p t"
    "err = None \<Longrightarrow> e \<in> set (tm_journal t)" using d(1) [of i] assms(2) by auto
  have run: "rr_run (tm_results t p) = tm_run t" using d(2) c by (auto simp: lifecycle_ok_def)
  have f: "tm_run t' = tm_run t" "tm_exec t' = tm_exec t" "tm_history t' = tm_history t" "tm_candidate t' = tm_candidate t"
    "tm_prepared t' = tm_prepared t" "tm_journal t' = tm_journal t" "tm_late t' = tm_late t" "tm_session t' = tm_session t"
    "tm_branch t' = tm_branch t" "tm_results t' = tm_results t"
    "tm_state t' = (if err = None then LifecycleCommitted else LifecycleRecoveryRequired)"
    "err = None \<Longrightarrow> tm_snapshot t' = Some (fe_result e)"
    by (auto simp: t'_def settle_append_def split: option.splits)
  have ev: "fe_run e = tm_run t" "fe_key e = terminalFinishedIdempotencyKey (tm_run t)" "fe_branch e = tm_branch t"
    "fe_result e = tm_results t p" using c(4) run by (simp_all add: terminal_event_def Let_def)
  show ?thesis unfolding t'_def [symmetric]
  proof (rule terminal_invI)
    fix j show "call_allowed env t' ((calls(i := Recording p b e err)) j)"
    proof (cases "j = i")
      case True then show ?thesis using c ev by (simp add: f)
    next
      case False
      then show ?thesis using d(1) [of j] o [OF False] c(3) by (cases "calls j") (auto simp: f)
    qed
  next
    show "lifecycle_ok env t'" using d(2) c f(12) ev by (auto simp: lifecycle_ok_def f(1-11))
    show "finished_ok env t'" using d(3) by (simp add: finished_ok_def f(1-11))
    show "session_ok t'" using d(4) by (simp add: session_ok_def f(1-11))
    show "single_parts (calls(i := Recording p b e err)) t'" using o by (auto simp: single_parts_def f(1-11) split: if_splits)
    show "barrier_ok (calls(i := Recording p b e err)) t'" unfolding barrier_ok_def by (metis fun_upd_same recording.simps(1))
  qed
qed

lemma recorded_inv:
  assumes "terminal_inv env (calls, t)" "calls i = Recording p b e err" "session_ok (t\<lparr>tm_session := s\<rparr>)"
    and "barrier_ok (calls(i := Returning p b err)) (t\<lparr>tm_session := s\<rparr>)"
  shows "terminal_inv env (calls(i := Returning p b err), t\<lparr>tm_session := s\<rparr>)"
proof (rule terminal_invI)
  note d = terminal_invD [OF assms(1)] and k = core_session [of t s]
  fix j show "call_allowed env (t\<lparr>tm_session := s\<rparr>) ((calls(i := Returning p b err)) j)"
    using d(1) [of i] assms(2) call_allowed_core [OF k d(1) [of j]] by auto
next
  note d = terminal_invD [OF assms(1)] and k = core_session [of t s]
  show "lifecycle_ok env (t\<lparr>tm_session := s\<rparr>)" by (rule lifecycle_core [OF k d(2)])
  show "finished_ok env (t\<lparr>tm_session := s\<rparr>)" using d(3) by (simp add: finished_ok_def)
  have u: "preparing ((calls(i := Returning p b err)) j) = preparing (calls j)"
    "in_append ((calls(i := Returning p b err)) j) = in_append (calls j)"
    "recording ((calls(i := Returning p b err)) j) \<Longrightarrow> recording (calls j)" for j
    using assms(2) by (auto split: if_splits)
  show "single_parts (calls(i := Returning p b err)) (t\<lparr>tm_session := s\<rparr>)"
    using owners_core [OF k d(5)] u(3) unfolding single_parts_def u(1,2) by blast
qed (fact assms(3,4))+

lemma records_inv:
  assumes "terminal_inv env (calls, t)" "calls i = Recording p b e err"
  shows "terminal_inv env (calls(i := Returning p b err), record_append e err t)"
proof -
  note d = terminal_invD [OF assms(1)]
  have c: "tm_run t \<noteq> []" "tm_state t = (if err = None then LifecycleCommitted else LifecycleRecoveryRequired)"
    "\<lparr>pc_run = fe_run e, pc_key = fe_key e, pc_branch = fe_branch e\<rparr> = pending_of (tm_run t) (tm_branch t)"
    "err = None \<Longrightarrow> e \<in> set (tm_journal t)" using d(1) [of i] assms(2) by (auto simp: pending_of_def)
  have h: "tm_run t \<in> set (tm_history t)" using d(2) c(1) by (simp add: lifecycle_ok_def)
  show ?thesis
  proof (cases err)
    case None
    let ?s0 = "tm_session t"
    let ?s = "(if se_pending ?s0 = Some (pending_of (tm_run t) (tm_branch t))
                then ?s0\<lparr>se_pending := None, se_required := False, se_reason := []\<rparr> else ?s0)\<lparr>se_result := Some (fe_result e)\<rparr>"
    have "record_append e err t = t\<lparr>tm_session := ?s\<rparr>"
      unfolding record_append_def c(3) by (simp add: None clearTerminalRecoveryAfterCommit_def branch_pending Let_def)
    moreover have "session_ok (t\<lparr>tm_session := ?s\<rparr>)" using d(4) c(4) None alike_refl [of "fe_result e"] by (auto simp: session_ok_def simp del: alike_refl)
    moreover have "barrier_ok (calls(i := Returning p b err)) (t\<lparr>tm_session := ?s\<rparr>)"
      using d(4) c(2) None by (auto simp: barrier_ok_def session_ok_def)
    ultimately show ?thesis using recorded_inv [OF assms] by simp
  next
    case (Some x)
    let ?s = "(tm_session t)\<lparr>se_required := True, se_reason := ''terminal persistence failure'',
                se_pending := Some (pending_of (tm_run t) (tm_branch t))\<rparr>"
    have "record_append e err t = t\<lparr>tm_session := ?s\<rparr>"
      unfolding record_append_def c(3) by (simp add: Some markTerminalRecoveryPending_def)
    moreover have "session_ok (t\<lparr>tm_session := ?s\<rparr>)" using d(4) h by (simp add: session_ok_def branch_pending)
    moreover have "barrier_ok (calls(i := Returning p b err)) (t\<lparr>tm_session := ?s\<rparr>)"
      using c(2) Some by (simp add: barrier_ok_def)
    ultimately show ?thesis using recorded_inv [OF assms] by simp
  qed
qed

lemma published_alike:
  "alike r (annotateRunCompletionSemantics a g xs (r\<lparr>rr_worksets := ws\<rparr>))"
  by (simp add: alike_def annotate_keeps)

lemma alike_trans: "alike x y \<Longrightarrow> alike y z \<Longrightarrow> alike x z"
  by (simp add: alike_def)

lemma committed_calls:
  assumes "terminal_inv env (calls, t)" "tm_state t = LifecycleCommitted"
  shows "\<not> preparing (calls j)" "\<not> in_append (calls j)"
  using terminal_invD(1) [OF assms(1), of j] assms(2) by (cases "calls j"; auto)+

lemma publish_committed_inv:
  assumes "terminal_inv env (calls, t)" "tm_run t \<noteq> []" "tm_candidate t = Some p" "tm_state t = LifecycleCommitted"
  shows "terminal_inv env (calls, SetLastRunResult u p t)"
proof -
  note d = terminal_invD [OF assms(1)]
  define r where "r = annotateRunCompletionSemantics (pu_advisory u) (pu_findings u) (pu_items u)
      ((tm_results t p)\<lparr>rr_worksets := pu_worksets u\<rparr>)"
  have al: "alike (tm_results t p) r" by (simp add: r_def published_alike)
  have t': "SetLastRunResult u p t =
      t\<lparr>tm_last := Some p, tm_results := (tm_results t)(p := r), tm_session := (tm_session t)\<lparr>se_result := Some r\<rparr>\<rparr>"
    using assms(4) by (simp add: SetLastRunResult_def setLastRunResultInMemory_def TerminalLifecycleConfirmed_def r_def Let_def)
  obtain e where e: "e \<in> set (tm_journal t)" "fe_run e = tm_run t" "tm_snapshot t = Some (fe_result e)"
    "alike (fe_result e) (tm_results t p)" using d(2) assms(3,4) by (auto simp: lifecycle_ok_def)
  have "rr_run r = tm_run t" using d(2) assms(3,4) al by (auto simp: lifecycle_ok_def alike_def)
  show ?thesis unfolding t'
  proof (rule terminal_invI, goal_cases)
    case (1 j) show ?case using d(1) [of j] committed_calls [OF assms(1,4), of j] by (cases "calls j") auto
  next
    case 2 show ?case using d(2) assms(2-4) e \<open>rr_run r = tm_run t\<close> alike_trans [OF e(4) al]
      by (auto simp: lifecycle_ok_def)
  next
    case 3 show ?case using d(3) by (simp add: finished_ok_def)
  next
    case 4 show ?case using d(4) e(1) alike_trans [OF e(4) al] by (auto simp: session_ok_def)
  next
    case 5 show ?case using d(5) by (simp add: single_parts_def)
  next
    case 6 show ?case using d(6) by (simp add: barrier_ok_def)
  qed
qed

lemma memory_inv:
  assumes "terminal_inv env (calls, t)"
  shows "terminal_inv env (calls, setLastRunResultInMemory p t)"
  unfolding setLastRunResultInMemory_def
proof (rule core_inv [OF assms])
  note d = terminal_invD [OF assms]
  show "core t (t\<lparr>tm_last := Some p\<rparr>)" by (simp add: core_def)
  show "finished_ok env (t\<lparr>tm_last := Some p\<rparr>)" using d(3) by (simp add: finished_ok_def)
  show "session_ok (t\<lparr>tm_last := Some p\<rparr>)" using d(4) by (simp add: session_ok_def)
  show "barrier_ok calls (t\<lparr>tm_last := Some p\<rparr>)" using d(6) by (simp add: barrier_ok_def)
qed

lemma leave_inv:
  assumes "terminal_inv env (calls, t)" "calls i = Returning p b err \<or> calls i = Abandoning run state"
  shows "terminal_inv env (calls(i := NoCall), t)"
  using assms(2) by (intro move_inv [OF assms(1)]) (auto simp: same_part_def)

lemma returns_inv:
  assumes "terminal_inv env (calls, t)" "calls i = Returning p b err"
  shows "terminal_inv env (calls(i := NoCall), publish_result u p b err t)"
proof -
  have c: "tm_run t \<noteq> []" "tm_candidate t = Some p" "err = None \<longrightarrow> tm_state t = LifecycleCommitted"
    using terminal_invD(1) [OF assms(1), of i] assms(2) by auto
  have l: "terminal_inv env (calls(i := NoCall), t)" using leave_inv assms by blast
  show ?thesis
    using publish_committed_inv [OF l c(1,2)] memory_inv [OF l] l c(3) by (auto simp: publish_result_def split: option.splits)
qed

lemma ends_inv:
  assumes "terminal_inv env (calls, t)" "\<forall>i. calls i = NoCall"
  shows "terminal_inv env (calls, end_run t)"
proof (cases "tm_state t = LifecycleCommitted")
  case True
  note d = terminal_invD [OF assms(1)]
  show ?thesis
  proof (rule terminal_invI, goal_cases)
    case 1 show ?case using assms(2) by simp
  next
    case 2 show ?case using d(2) True by (auto simp: lifecycle_ok_def end_run_def Let_def)
  next
    case 3 show ?case using d(3) True by (simp add: finished_ok_def end_run_def Let_def)
  next
    case 4 show ?case using d(2,4) True by (auto simp: session_ok_def lifecycle_ok_def end_run_def Let_def)
  next
    case 5 show ?case using assms(2) True by (intro idle_owners) (simp_all add: end_run_def Let_def)
  next
    case 6 show ?case using True by (simp add: barrier_ok_def end_run_def Let_def)
  qed
next
  case False
  note d = terminal_invD [OF assms(1)]
  show ?thesis
  proof (rule terminal_invI, goal_cases)
    case 1 show ?case using assms(2) by simp
  next
    case 2 show ?case using d(2) False by (simp add: lifecycle_ok_def end_run_def Let_def)
  next
    case 3 show ?case using d(3) False by (simp add: finished_ok_def end_run_def Let_def)
  next
    case 4 show ?case using d(4) False by (simp add: session_ok_def end_run_def Let_def)
  next
    case 5 show ?case using d(5) False by (simp add: single_parts_def end_run_def Let_def)
  next
    case 6 show ?case using d(6) False by (simp add: barrier_ok_def end_run_def Let_def)
  qed
qed

lemma switches_inv:
  assumes "terminal_inv env (calls, t)" "\<forall>i. calls i = NoCall" "se_pending (tm_session t) = None"
  shows "terminal_inv env (calls, t\<lparr>tm_branch := b\<rparr>)"
proof (rule terminal_invI, goal_cases)
  note d = terminal_invD [OF assms(1)]
  case 1 show ?case using assms(2) by simp
  case 2 show ?case using d(2) by (simp add: lifecycle_ok_def)
  case 3 show ?case using d(3) by (simp add: finished_ok_def)
  case 4 show ?case using d(4) assms(3) by (simp add: session_ok_def)
  case 5 show ?case using d(5) by (simp add: single_parts_def)
  case 6 show ?case using d(6) assms(2,3) by (simp add: barrier_ok_def)
qed

lemma run_begin_inv:
  assumes "terminal_inv env (calls, t)" "\<forall>i. calls i = NoCall" "run \<noteq> []" "TrimSpace run = run" "run \<notin> set (tm_history t)"
  shows "terminal_inv env (calls, begin_run run t)"
proof (rule terminal_invI, goal_cases)
  note d = terminal_invD [OF assms(1)]
  case 1 show ?case using assms(2) by simp
  case 2 show ?case using d(2) assms(3,4) by (auto simp: lifecycle_ok_def begin_run_def)
  case 3 show ?case using d(3) by (auto simp: finished_ok_def begin_run_def event_ok_def)
  case 4 show ?case using d(4) assms(5) by (auto simp: session_ok_def begin_run_def)
  case 5 show ?case using assms(2) by (intro idle_owners) (simp_all add: begin_run_def)
  case 6 show ?case by (simp add: barrier_ok_def begin_run_def)
qed

text \<open>Reconciling a marker of an earlier run before anything is elected.\<close>

lemma keep_marker_inv:
  assumes "terminal_inv env (calls, t)" "tm_state t = LifecycleOpen" "se_pending (tm_session t) = Some pc"
  shows "terminal_inv env (calls, markTerminalRecoveryPending reason (Some pc) t)"
  unfolding markTerminalRecoveryPending_def
proof (rule core_inv [OF assms(1) core_session], goal_cases)
  note d = terminal_invD [OF assms(1)]
  case 1 show ?case using d(3) by (simp add: finished_ok_def)
  case 2 show ?case using d(4) assms(3) by (simp add: session_ok_def)
  case 3 show ?case using assms(2) by (simp add: barrier_ok_def)
qed

lemma adopt_inv:
  assumes "terminal_inv env (calls, t)" "tm_state t = LifecycleOpen" "e \<in> set (tm_journal t)"
  shows "terminal_inv env (calls, reconcile_with p (fe_result e) t)"
proof (rule core_inv [OF assms(1)])
  note d = terminal_invD [OF assms(1)]
  let ?t = "reconcile_with p (fe_result e) t"
  show "core t ?t" using d(2) assms(2) by (simp add: core_def reconcile_with_def setLastRunResultInMemory_def lifecycle_ok_def)
  show "finished_ok env ?t" using d(3) by (simp add: finished_ok_def reconcile_with_def setLastRunResultInMemory_def)
  show "session_ok ?t" using assms(3) alike_refl [of "fe_result e"]
    by (auto simp: session_ok_def reconcile_with_def setLastRunResultInMemory_def simp del: alike_refl)
  show "barrier_ok calls ?t" using assms(2) by (simp add: barrier_ok_def reconcile_with_def setLastRunResultInMemory_def)
qed

lemma recover_inv:
  assumes "terminal_inv env (calls, t)" "tm_state t = LifecycleOpen" "se_pending (tm_session t) = Some pc"
    and "recoverAbortedPreflightTerminal pc aborted answer t = (res, t')"
  shows "terminal_inv env (calls, t')" "tm_state t' = LifecycleOpen" "tm_session t' = tm_session t"
    "res = Inr (Some e) \<Longrightarrow> e \<in> set (tm_journal t')"
proof -
  note d = terminal_invD [OF assms(1)]
  let ?e = "\<lparr>fe_run = pc_run pc, fe_key = pc_key pc, fe_branch = pc_branch pc, fe_result = aborted_result (pc_run pc)\<rparr>"
  have pc: "pc = pending_of (pc_run pc) (pc_branch pc)" "pc_run pc \<in> set (tm_history t)"
    using d(4) assms(3) unfolding session_ok_def by blast+
  have k: "pc_key pc = terminalFinishedIdempotencyKey (pc_run pc)" by (subst pc(1)) (simp add: pending_of_def)
  have ev: "event_ok env (tm_history t) ?e" using pc(2) k by (simp add: event_ok_def aborted_result_def)
  obtain err u where b: "bounded_append ?e answer t = (err, u)" by fastforce
  have u: "tm_state u = LifecycleOpen" "tm_session u = tm_session t" using b assms(2)
    by (auto simp: bounded_append_def split: append_answer.splits prod.splits)
  note a = append_inv [OF assms(1) b ev]
  have "(res = Inr None \<and> t' = t) \<or> (t' = u \<and> (res = Inr (Some ?e) \<and> err = None \<or> (\<exists>x. res = Inl x)))"
    using assms(4) b by (auto simp: recoverAbortedPreflightTerminal_def Let_def split: if_splits option.splits)
  then show "terminal_inv env (calls, t')" "tm_state t' = LifecycleOpen" "tm_session t' = tm_session t"
    "res = Inr (Some e) \<Longrightarrow> e \<in> set (tm_journal t')"
    using a assms(1,2) u by auto
qed

lemma reconcile_inv:
  assumes "terminal_inv env (calls, t)" "tm_state t = LifecycleOpen"
  shows "terminal_inv env (calls, snd (reconcilePendingTerminalCommit visible readable aborted answer p t))"
proof (cases "se_pending (tm_session t)")
  case None
  then show ?thesis using assms(1) by (simp add: reconcilePendingTerminalCommit_def)
next
  case (Some pc)
  note keep = keep_marker_inv [OF assms Some]
  obtain res u where r: "recoverAbortedPreflightTerminal pc aborted answer t = (res, u)" by fastforce
  note rec = recover_inv [OF assms Some r]
  have later: "terminal_inv env (calls, markTerminalRecoveryPending reason (Some pc) u)" for reason
    using keep_marker_inv [OF rec(1,2)] rec(3) Some by simp
  let ?es = "filter (\<lambda>e. visible e \<and> matching_finish pc e) (tm_journal t)"
  have adopt: "terminal_inv env (calls, reconcile_with p (fe_result e) t)" if "?es = [e]" for e
  proof (rule adopt_inv [OF assms])
    have "set ?es \<subseteq> set (tm_journal t)" by auto
    then show "e \<in> set (tm_journal t)" using that by simp
  qed
  have none: "terminal_inv env (calls, snd (case (res, u) of
      (Inl _, t) \<Rightarrow> ((True, False), markTerminalRecoveryPending ''aborted preflight terminal recovery failed'' (Some pc) t)
    | (Inr None, t) \<Rightarrow> ((True, False), markTerminalRecoveryPending ''pending terminal commit has no matching run_finished event'' (Some pc) t)
    | (Inr (Some e), t) \<Rightarrow> ((True, True), reconcile_with p (fe_result e) t)))"
    using later adopt_inv [OF rec(1,2)] rec(4) by (auto split: sum.splits option.splits)
  consider (no) "?es = []" | (one) e where "?es = [e]" | (more) e e' es where "?es = e # e' # es"
    by (cases ?es rule: remdups_adj.cases) auto
  then show ?thesis
  proof cases
    case no
    show ?thesis using keep none unfolding reconcilePendingTerminalCommit_def Some option.case no list.case r Let_def
      by (simp split: sum.splits option.splits)
  next
    case one
    show ?thesis using keep adopt [OF one] unfolding reconcilePendingTerminalCommit_def Some option.case one list.case Let_def
      by simp
  next
    case more
    show ?thesis using keep unfolding reconcilePendingTerminalCommit_def Some option.case more list.case Let_def by simp
  qed
qed

lemma step_inv:
  assumes "terminal_step env s s'" "terminal_inv env s"
  shows "terminal_inv env s'"
  using assms
proof (induction rule: terminal_step.induct)
  case (begins calls run t visible readable aborted answer p)
  have "tm_state (begin_run run t) = LifecycleOpen" by (simp add: begin_run_def)
  then show ?case using reconcile_inv [OF run_begin_inv] begins by blast
next
  case (creates t p calls r)
  then show ?case by (intro create_inv)
next
  case (finalizes calls i t p q elected t')
  show ?case
  proof (cases "tm_state t = LifecycleOpen")
    case True
    then show ?thesis using elected_inv [of env calls t i p q elected t'] finalizes by auto
  next
    case False
    then have "tm_candidate t = Some q" "\<not> elected" "t' = t"
      using finalizes.hyps by (auto simp: electTerminalCandidate_def)
    then show ?thesis using finalizes False by (auto intro!: move_inv simp: same_part_def)
  qed
next
  case (waits_for_owner calls i t p)
  then show ?case by (intro move_inv) (simp_all add: same_part_def)
next
  case (builds calls i p fw t acceptance)
  then show ?case by (intro builds_inv)
next
  case (commits calls i p owner t q act t')
  then show ?case by (intro commits_inv)
next
  case (wakes_prepared calls i p owner t)
  then show ?case using terminal_invD(1) [OF wakes_prepared.prems, of i] by (intro move_inv) (simp_all add: same_part_def)
next
  case (wakes_done calls i p owner t)
  then show ?case using terminal_invD(1) [OF wakes_done.prems, of i]
    by (intro move_inv) (simp_all add: same_part_def commit_answer_def)
next
  case (times_out calls i p owner t reason)
  then have "terminal_inv env (calls(i := Returning p owner (Some WaitExceeded)), t)"
    using terminal_invD(1) [OF times_out.prems, of i] by (intro move_inv) (auto simp: same_part_def)
  then show ?case by (rule mark_candidate_inv)
next
  case (appends calls i p owner e answer t err t')
  have c: "tm_run t \<noteq> []" "tm_candidate t = Some p" "tm_state t = LifecycleCommitting" "e = terminal_event p t"
    "produced env (tm_run t) (fe_result e)" using terminal_invD(1) [OF appends.prems, of i] appends.hyps(1) by auto
  have l: "tm_run t \<in> set (tm_history t)" "rr_run (tm_results t p) = tm_run t"
    using terminal_invD(2) [OF appends.prems] c by (auto simp: lifecycle_ok_def)
  have "event_ok env (tm_history t) e" using c(4,5) l by (simp add: event_ok_def terminal_event_def Let_def)
  note a = append_inv [OF appends.prems appends.hyps(2) this]
  have "call_allowed env t' (Appended p owner e err)"
    using call_allowed_core [OF a(2), of env "Appended p owner e (Some DurabilityUnknown)"] c a(3) by auto
  then show ?case using appends.hyps(1) by (intro move_inv [OF a(1)]) (simp_all only: same_part_def preparing.simps in_append.simps recording.simps)
next
  case (settles calls i p owner e err t)
  then show ?case by (intro settles_inv)
next
  case (records calls i p owner e err t)
  then show ?case by (intro records_inv)
next
  case (returns calls i p owner err u t)
  then show ?case by (intro returns_inv)
next
  case (arrives e t calls)
  obtain err js where p: "persist e (tm_journal t) = (err, js)" by fastforce
  have "event_ok env (tm_history t) e" using terminal_invD(3) [OF arrives.prems] arrives.hyps by (simp add: finished_ok_def)
  from journal_inv [OF arrives.prems p this set_remove1_subset] show ?case by (simp add: p)
next
  case (is_lost calls t e)
  show ?case by (rule late_inv [OF is_lost]) (use notin_set_remove1 in fastforce)
next
  case (abandons calls i t)
  then show ?case by (intro move_inv) (simp_all add: same_part_def)
next
  case (marks calls i run state t reason)
  then show ?case by (intro mark_seen_inv leave_inv) auto
next
  case (ends calls t)
  then show ?case by (intro ends_inv)
next
  case (switches calls t b)
  then show ?case by (intro switches_inv)
next
  case (crashes calls t)
  then show ?case by (intro crashed_inv)
qed

lemma terminal_reachable_inv: "terminal_reachable env s \<Longrightarrow> terminal_inv env s"
  by (induction rule: terminal_reachable.induct) (auto intro: first_inv step_inv)

section \<open>What callers can rely on\<close>

text \<open>
  C9. One owner and one terminal event. However the calls of the coordinator's goroutines interleave, fail, time out or are cut
  off by a crash, no run has two \<open>run_finished\<close> events in the journal; at most one call is preparing a result and at
  most one is appending; and once the lifecycle is committed, the journal holds the event of the run with the
  snapshot taken of the elected candidate, whose outcome and goal satisfaction have not changed since.
\<close>

theorem terminal_once:
  assumes "terminal_reachable env (calls, t)"
  shows "distinct (map fe_run (tm_journal t)) \<and>
    (preparing (calls i) \<and> preparing (calls j) \<or> in_append (calls i) \<and> in_append (calls j) \<longrightarrow> i = j) \<and>
    (tm_state t = LifecycleCommitted \<longrightarrow>
       (\<exists>p. tm_candidate t = Some p \<and>
          (\<exists>e\<in>set (tm_journal t). fe_run e = tm_run t \<and> tm_snapshot t = Some (fe_result e) \<and>
             rr_outcome (fe_result e) = rr_outcome (tm_results t p) \<and> rr_satisfied (fe_result e) = rr_satisfied (tm_results t p))))"
proof -
  note d = terminal_invD [OF terminal_reachable_inv [OF assms]]
  have "map fe_key (tm_journal t) = map terminalFinishedIdempotencyKey (map fe_run (tm_journal t))"
    using d(3) by (auto simp: finished_ok_def event_ok_def)
  then have "distinct (map fe_run (tm_journal t))"
    using d(3) by (metis distinct_map finished_ok_def)
  moreover have "preparing (calls i) \<and> preparing (calls j) \<or> in_append (calls i) \<and> in_append (calls j) \<longrightarrow> i = j"
    using d(5) by (auto simp: single_parts_def)
  moreover have "\<exists>p. tm_candidate t = Some p \<and> (\<exists>e\<in>set (tm_journal t). fe_run e = tm_run t \<and> tm_snapshot t = Some (fe_result e) \<and>
       alike (fe_result e) (tm_results t p))" if "tm_state t = LifecycleCommitted"
    using d(2) that by (auto simp: lifecycle_ok_def)
  ultimately show ?thesis by (auto simp: alike_def)
qed

lemma event_evidenced:
  fixes env :: "('c, 'r, 'p) evidence_env" and e :: "'w finished_event"
  assumes "event_ok env history e" "rr_outcome (fe_result e) = RunOutcomeCompleted" "rr_satisfied (fe_result e)"
  shows "\<exists>(fw :: ('c, 'r, 'p, 'w) finalize_world) acceptance r0. fe_result e = terminal_result env fw acceptance True r0 \<and>
    gw_run (fw_gate fw) = fe_run e \<and> evidenced env (gw_items (fw_gate fw)) acceptance"
proof -
  have "produced env (fe_run e) (fe_result e)" using assms by (auto simp: event_ok_def aborted_result_def)
  then obtain fw :: "('c, 'r, 'p, 'w) finalize_world" and a r where p: "fe_result e = terminal_result env fw a True r"
    "TrimSpace (gw_workspace (fw_gate fw)) \<noteq> []" "gw_run (fw_gate fw) = fe_run e"
    by (auto simp: produced_def)
  from final_certified(1) [OF assms(2,3) [unfolded p(1)] p(2)] p show ?thesis by blast
qed

text \<open>
  C14. A published success is journaled and evidenced. Whatever result the session shows, the journal has the \<open>run_finished\<close> event
  of that run with the same outcome and goal satisfaction; and if it shows a completed run with its goal satisfied, the
  journaled result is what the finalization made of a candidate in a state of the run in which the acceptance had passed, an
  accepted manifest verified with every requirement passed, and every task of the list was done or provably replaced.
\<close>

theorem published_success_evidenced:
  fixes env :: "('c, 'r, 'p) evidence_env" and t :: "'w terminal"
  assumes "terminal_reachable env (calls, t)" "se_result (tm_session t) = Some r"
  shows "\<exists>e\<in>set (tm_journal t). fe_run e = rr_run r \<and> rr_outcome (fe_result e) = rr_outcome r \<and>
    rr_satisfied (fe_result e) = rr_satisfied r \<and>
    (rr_outcome r = RunOutcomeCompleted \<and> rr_satisfied r \<longrightarrow>
      (\<exists>(fw :: ('c, 'r, 'p, 'w) finalize_world) acceptance r0. fe_result e = terminal_result env fw acceptance True r0 \<and>
         gw_run (fw_gate fw) = rr_run r \<and> evidenced env (gw_items (fw_gate fw)) acceptance))"
proof -
  note d = terminal_invD [OF terminal_reachable_inv [OF assms(1)]]
  obtain e where e: "e \<in> set (tm_journal t)" "alike (fe_result e) r"
    using d(4) assms(2) by (auto simp: session_ok_def)
  then have ok: "event_ok env (tm_history t) e" using d(3) by (simp add: finished_ok_def)
  then have "fe_run e = rr_run r" using e(2) by (simp add: event_ok_def alike_def)
  with e event_evidenced [OF ok] show ?thesis unfolding alike_def by (intro bexI [of _ e]) auto
qed

text \<open>
  C15. The recovery marker is exact. When no call is between the append and the session, a committed run has no marker, and a run
  whose append failed or went unanswered has its marker - run, idempotency key, branch - and recovery is required.
\<close>

theorem recovery_marker_exact:
  assumes "terminal_reachable env (calls, t)" "tm_run t \<noteq> []" "\<forall>i. \<not> recording (calls i)"
  shows "(tm_state t = LifecycleCommitted \<longrightarrow>
      (\<forall>pc. se_pending (tm_session t) = Some pc \<longrightarrow> pc_run pc \<noteq> tm_run t)) \<and>
    (tm_state t = LifecycleRecoveryRequired \<longrightarrow>
      se_required (tm_session t) \<and> se_pending (tm_session t) =
        Some \<lparr>pc_run = tm_run t, pc_key = terminalFinishedIdempotencyKey (tm_run t), pc_branch = tm_branch t\<rparr>)"
  using terminal_invD(6) [OF terminal_reachable_inv [OF assms(1)]] assms(2,3)
  by (simp add: barrier_ok_def pending_of_def)

text \<open>
  Nobody waits for nothing. A call that waits for the preparation can be woken or the owner is preparing; one that waits for
  the commit can be woken or a call is appending.
\<close>

theorem waiter_has_owner:
  assumes "terminal_reachable env (calls, t)"
  shows "(calls i = WaitingPrepared p b \<longrightarrow> tm_prepared t \<or> (\<exists>j. preparing (calls j))) \<and>
    (calls i = WaitingDone p b \<longrightarrow> tm_state t \<noteq> LifecycleCommitting \<or> (\<exists>j. in_append (calls j)))"
proof -
  note d = terminal_invD [OF terminal_reachable_inv [OF assms]]
  have "tm_prepared t \<or> (\<exists>j. preparing (calls j))" if "calls i = WaitingPrepared p b"
    using d(1) [of i] d(2,5) that by (auto simp: lifecycle_ok_def single_parts_def)
  moreover have "tm_state t \<noteq> LifecycleCommitting \<or> (\<exists>j. in_append (calls j))"
    using d(5) by (auto simp: single_parts_def)
  ultimately show ?thesis by blast
qed

text \<open>
  C32. Reconciliation never infers success. With a marker present, reconciling either lifts the barrier and adopts the result of a
  journaled event that matches run, key and branch, or keeps the barrier and the result of the session; and the only
  event it may add is the failed result of an aborted run.
\<close>

theorem reconcile_adopts_journal:
  assumes "se_pending (tm_session t) = Some pc"
    and "reconcilePendingTerminalCommit visible readable aborted answer p t = ((present, reconciled), t')"
  shows "present \<and>
    (if reconciled
     then \<exists>e\<in>set (tm_journal t'). matching_finish pc e \<and> se_result (tm_session t') = Some (fe_result e) \<and>
       se_pending (tm_session t') = None \<and> \<not> se_required (tm_session t')
     else se_required (tm_session t') \<and> se_pending (tm_session t') = Some pc \<and>
       se_result (tm_session t') = se_result (tm_session t)) \<and>
    (\<forall>e\<in>set (tm_journal t') \<union> set (tm_late t'). e \<in> set (tm_journal t) \<union> set (tm_late t) \<or>
       aborted \<and> rr_outcome (fe_result e) = RunOutcomeFailed)"
proof -
  let ?es = "filter (\<lambda>e. visible e \<and> matching_finish pc e) (tm_journal t)"
  let ?e = "\<lparr>fe_run = pc_run pc, fe_key = pc_key pc, fe_branch = pc_branch pc, fe_result = aborted_result (pc_run pc)\<rparr>"
  have in_es: "e \<in> set (tm_journal t)" "matching_finish pc e" if "e \<in> set ?es" for e using that by auto
  note defs = reconcile_with_def markTerminalRecoveryPending_def setLastRunResultInMemory_def
  consider (bad) "TrimSpace (pc_run pc) = [] \<or> TrimSpace (pc_key pc) = [] \<or> TrimSpace (pc_branch pc) = [] \<or> \<not> readable"
    | (no) "?es = []" | (one) e where "?es = [e]" | (more) e e' es where "?es = e # e' # es"
    by (cases ?es rule: remdups_adj.cases) auto
  then show ?thesis
  proof cases
    case bad
    then obtain reason where "((present, reconciled), t') = ((True, False), markTerminalRecoveryPending reason (Some pc) t)"
      using assms(2) unfolding reconcilePendingTerminalCommit_def assms(1) option.case Let_def
      by (cases "TrimSpace (pc_run pc) = [] \<or> TrimSpace (pc_key pc) = [] \<or> TrimSpace (pc_branch pc) = []") (simp_all, metis+)
    then show ?thesis by (simp add: defs)
  next
    case one
    then show ?thesis using assms(2) in_es [of e] unfolding reconcilePendingTerminalCommit_def assms(1) option.case one list.case Let_def
      by (auto simp: defs split: if_splits)
  next
    case more
    then show ?thesis using assms(2) unfolding reconcilePendingTerminalCommit_def assms(1) option.case more list.case Let_def
      by (auto simp: defs split: if_splits)
  next
    case no
    obtain err u where b: "bounded_append ?e answer t = (err, u)" by fastforce
    obtain err' js where ps: "persist ?e (tm_journal t) = (err', js)" by fastforce
    have u: "tm_session u = tm_session t" "err = None \<Longrightarrow> ?e \<in> set (tm_journal u)"
      "set (tm_journal u) \<union> set (tm_late u) \<subseteq> insert ?e (set (tm_journal t) \<union> set (tm_late t))"
      using b ps persist_facts(2,4) [OF ps] by (auto simp: bounded_append_def split: append_answer.splits)
    have f: "matching_finish pc ?e" "rr_outcome (fe_result ?e) = RunOutcomeFailed"
      by (simp_all add: matching_finish_def aborted_result_def)
    show ?thesis using assms(2) u f b
      unfolding reconcilePendingTerminalCommit_def assms(1) option.case no list.case Let_def
      by (auto simp: defs recoverAbortedPreflightTerminal_def Let_def assms(1) split: if_splits option.splits)
  qed
qed

section \<open>Runs of the lifecycle\<close>

definition sample_finalize :: "(unit, string, unit, unit) finalize_world" where
  "sample_finalize =
     \<lparr>fw_gate = sample_gate_world, fw_request = sample_request, fw_render = (\<lambda>_. []), fw_bounded = (\<lambda>w. w),
      fw_early_warnings = [], fw_late_warnings = [], fw_worksets = [], fw_inputs = 0, fw_section = (\<lambda>_. []),
      fw_assertions = (\<lambda>_. []), fw_advisory = False, fw_has_findings = (\<lambda>_. False), fw_reliability = (\<lambda>_. None)\<rparr>"

lemma sample_gate_run: "TrimSpace (gw_workspace (fw_gate sample_finalize)) \<noteq> []" "gw_run (fw_gate sample_finalize) = ''r1''"
  by (simp_all add: sample_finalize_def sample_gate_world_def sample_world_def trim_log)

lemma trim_run: "TrimSpace ''r1'' = ''r1''"
  by (rule rest_TrimSpace) (simp add: name_rest_def name_first_def)

text \<open>The owner, alone, up to its append.\<close>

lemma appending_reachable:
  obtains t :: "unit terminal" where "terminal_reachable sample_env ((\<lambda>_. NoCall)(0 := Appending 0 True (terminal_event 0 t)), t)"
    "tm_run t = ''r1''" "tm_state t = LifecycleCommitting" "tm_journal t = []" "tm_candidate t = Some 0"
proof -
  let ?t0 = "first_terminal ''main'' (\<lambda>_. sample_completed) :: unit terminal"
  let ?t1 = "begin_run ''r1'' ?t0"
  have "terminal_step sample_env (\<lambda>_. NoCall, ?t0)
      (\<lambda>_. NoCall, snd (reconcilePendingTerminalCommit (\<lambda>_. True) True False Persisted 0 ?t1))"
    by (rule terminal_step.begins) (simp_all add: trim_run first_terminal_def)
  then have "terminal_step sample_env (\<lambda>_. NoCall, ?t0) (\<lambda>_. NoCall, ?t1)"
    by (simp add: reconcilePendingTerminalCommit_def begin_run_def first_terminal_def)
  from steps [OF starts this] have r1: "terminal_reachable sample_env (\<lambda>_. NoCall, ?t1)" .
  have blank: "rr_run sample_completed = []"
    by (simp add: sample_completed_def EvaluateRunOutcome_def Let_def split: prod.splits)
  obtain t2 where e: "electTerminalCandidate 0 ?t1 = ((Some 0, True), t2)" and
    t2: "tm_run t2 = ''r1''" "tm_journal t2 = []" "tm_prepared t2 = False"
    by (auto simp: electTerminalCandidate_def begin_run_def first_terminal_def)
  have "terminal_step sample_env (\<lambda>_. NoCall, ?t1) ((\<lambda>_. NoCall)(0 := if True then Building 0 else Entering 0 False), t2)"
    by (rule terminal_step.finalizes [OF _ _ _ _ e]) (simp_all add: begin_run_def first_terminal_def blank)
  from steps [OF r1 this] have r2: "terminal_reachable sample_env ((\<lambda>_. NoCall)(0 := Building 0), t2)" by simp
  let ?t3 = "finishTerminalPreparation
      (t2\<lparr>tm_results := (tm_results t2)(0 := terminal_result sample_env sample_finalize (Some sample_acceptance) True (tm_results t2 0))\<rparr>)"
  have "terminal_step sample_env ((\<lambda>_. NoCall)(0 := Building 0), t2) (((\<lambda>_. NoCall)(0 := Building 0))(0 := Entering 0 True), ?t3)"
    by (rule terminal_step.builds) (simp_all add: sample_gate_run t2)
  from steps [OF r2 this] have r3: "terminal_reachable sample_env ((\<lambda>_. NoCall)(0 := Entering 0 True), ?t3)" by simp
  have t3: "tm_run ?t3 = ''r1''" "tm_journal ?t3 = []" "tm_prepared ?t3" by (simp_all add: finishTerminalPreparation_def t2)
  have "tm_candidate t2 = Some 0" "tm_state t2 = CandidateElected"
    using terminal_invD(1) [OF terminal_reachable_inv [OF r2], of 0] by simp_all
  then have c3: "tm_candidate ?t3 = Some 0" "tm_state ?t3 = CandidateElected" by (simp_all add: finishTerminalPreparation_def)
  have "rr_run (tm_results ?t3 0) = ''r1''"
    using terminal_invD(2) [OF terminal_reachable_inv [OF r3]] c3 t3(1) by (simp add: lifecycle_ok_def)
  then have c: "commitTerminalLifecycle 0 ?t3 = ((0, AppendCandidate), ?t3\<lparr>tm_state := LifecycleCommitting\<rparr>)"
    using t3 c3 by (simp add: commitTerminalLifecycle_def electTerminalCandidate_def trim_run)
  have "terminal_step sample_env ((\<lambda>_. NoCall)(0 := Entering 0 True), ?t3)
      (((\<lambda>_. NoCall)(0 := Entering 0 True))(0 := after_commit 0 True AppendCandidate (?t3\<lparr>tm_state := LifecycleCommitting\<rparr>)),
       ?t3\<lparr>tm_state := LifecycleCommitting\<rparr>)"
    by (rule terminal_step.commits [OF _ c]) simp
  from steps [OF r3 this] t3 c3 that [of "?t3\<lparr>tm_state := LifecycleCommitting\<rparr>"] show ?thesis
    by (simp add: after_commit_def)
qed

text \<open>The append answered, settled and recorded.\<close>

lemma record_append_fields:
  "tm_run (record_append e err t) = tm_run t" "tm_state (record_append e err t) = tm_state t"
  "err = None \<Longrightarrow> fe_run e = tm_run t \<Longrightarrow> se_result (tm_session (record_append e err t)) \<noteq> None"
  by (cases err; simp add: record_append_def markTerminalRecoveryPending_def clearTerminalRecoveryAfterCommit_def Let_def)+

lemma recorded_reachable:
  obtains calls and t :: "unit terminal" where "terminal_reachable sample_env (calls, t)" "tm_run t = ''r1''" "\<forall>i. \<not> recording (calls i)"
    "tm_state t = (if answer = Persisted then LifecycleCommitted else LifecycleRecoveryRequired)"
    "answer = Persisted \<longrightarrow> se_result (tm_session t) \<noteq> None"
proof -
  obtain t :: "unit terminal" where t: "terminal_reachable sample_env ((\<lambda>_. NoCall)(0 := Appending 0 True (terminal_event 0 t)), t)"
    "tm_run t = ''r1''" "tm_journal t = []" by (rule appending_reachable)
  let ?e = "terminal_event 0 t"
  obtain err t4 where a: "bounded_append ?e answer t = (err, t4)" by fastforce
  have err: "err = None \<longleftrightarrow> answer = Persisted" "tm_run t4 = ''r1''"
    using a t(2,3) by (auto simp: bounded_append_def persist_def split: append_answer.splits)
  from steps [OF t(1) appends [OF _ a, of _ 0 0 True]]
  have r4: "terminal_reachable sample_env ((\<lambda>_. NoCall)(0 := Appended 0 True ?e err), t4)" by simp
  from steps [OF r4 settles [of _ 0 0 True ?e err]]
  have r5: "terminal_reachable sample_env ((\<lambda>_. NoCall)(0 := Recording 0 True ?e err), settle_append (fe_result ?e) err t4)" by simp
  let ?t5 = "settle_append (fe_result ?e) err t4"
  have c5: "fe_run ?e = tm_run ?t5" "tm_state ?t5 = (if err = None then LifecycleCommitted else LifecycleRecoveryRequired)"
    using terminal_invD(1) [OF terminal_reachable_inv [OF r5], of 0] by simp_all
  have run5: "tm_run ?t5 = ''r1''" using err(2) by (simp add: settle_append_def split: option.splits)
  from steps [OF r5 records [of _ 0 0 True ?e err]]
  have r6: "terminal_reachable sample_env ((\<lambda>_. NoCall)(0 := Returning 0 True err), record_append ?e err ?t5)" by simp
  show ?thesis
  proof (rule that [OF r6])
    show "tm_run (record_append ?e err ?t5) = ''r1''" using run5 by (simp add: record_append_fields)
    show "\<forall>i. \<not> recording (((\<lambda>_. NoCall)(0 := Returning 0 True err)) i)" by simp
    show "tm_state (record_append ?e err ?t5) = (if answer = Persisted then LifecycleCommitted else LifecycleRecoveryRequired)"
      using c5(2) err(1) by (simp add: record_append_fields)
    show "answer = Persisted \<longrightarrow> se_result (tm_session (record_append ?e err ?t5)) \<noteq> None"
      using c5(1) err(1) record_append_fields(3) by blast
  qed
qed

theorem terminal_once_witness:
  "\<exists>calls (t :: unit terminal). terminal_reachable sample_env (calls, t) \<and> distinct (map fe_run (tm_journal t)) \<and>
     (\<exists>e\<in>set (tm_journal t). fe_run e = ''r1'')"
proof -
  obtain calls and t :: "unit terminal" where r: "terminal_reachable sample_env (calls, t)" "tm_run t = ''r1''"
    "tm_state t = (if Persisted = Persisted then LifecycleCommitted else LifecycleRecoveryRequired)"
    by (rule recorded_reachable [of Persisted])
  from terminal_once [OF r(1), of 0 0] r(2,3) have "distinct (map fe_run (tm_journal t)) \<and> (\<exists>e\<in>set (tm_journal t). fe_run e = ''r1'')"
    by auto
  with r(1) show ?thesis by blast
qed

theorem published_success_evidenced_witness:
  "\<exists>calls (t :: unit terminal) r. terminal_reachable sample_env (calls, t) \<and> se_result (tm_session t) = Some r \<and>
     (\<exists>e\<in>set (tm_journal t). fe_run e = rr_run r)"
proof -
  obtain calls and t :: "unit terminal" where r: "terminal_reachable sample_env (calls, t)" "Persisted = Persisted \<longrightarrow> se_result (tm_session t) \<noteq> None"
    by (rule recorded_reachable [of Persisted])
  then obtain x where "se_result (tm_session t) = Some x" by auto
  from published_success_evidenced [OF r(1) this] have "\<exists>e\<in>set (tm_journal t). fe_run e = rr_run x" by blast
  with r(1) \<open>se_result (tm_session t) = Some x\<close> show ?thesis by blast
qed

theorem recovery_marker_exact_witness:
  "\<exists>calls (t :: unit terminal). terminal_reachable sample_env (calls, t) \<and> tm_run t = ''r1'' \<and> se_required (tm_session t) \<and>
     se_pending (tm_session t) \<noteq> None"
proof -
  obtain calls and t :: "unit terminal" where r: "terminal_reachable sample_env (calls, t)" "tm_run t = ''r1''" "\<forall>i. \<not> recording (calls i)"
    "tm_state t = (if NoAnswer = Persisted then LifecycleCommitted else LifecycleRecoveryRequired)"
    by (rule recorded_reachable [of NoAnswer])
  have "tm_run t \<noteq> []" using r(2) by simp
  from recovery_marker_exact [OF r(1) this r(3)] r(4) have "se_required (tm_session t) \<and> se_pending (tm_session t) \<noteq> None" by simp
  with r(1,2) show ?thesis by blast
qed

theorem waiter_has_owner_witness:
  "\<exists>calls (t :: unit terminal). terminal_reachable sample_env (calls, t) \<and> calls 1 = WaitingDone 0 False \<and> (\<exists>j. in_append (calls j))"
proof -
  obtain t :: "unit terminal" where t: "terminal_reachable sample_env ((\<lambda>_. NoCall)(0 := Appending 0 True (terminal_event 0 t)), t)"
    "tm_run t = ''r1''" "tm_state t = LifecycleCommitting" "tm_candidate t = Some 0" by (rule appending_reachable)
  let ?c = "(\<lambda>_ :: nat. NoCall)(0 := Appending 0 True (terminal_event 0 t))"
  have "terminal_step sample_env (?c, t) (?c(1 := Entering 0 False), t)"
    by (rule waits_for_owner) (simp_all add: t)
  note r = steps [OF t(1) this]
  have "rr_run (tm_results t 0) = ''r1''"
    using terminal_invD(2) [OF terminal_reachable_inv [OF r]] t by (simp add: lifecycle_ok_def)
  then have "commitTerminalLifecycle 0 t = ((0, AwaitDone), t)"
    using t by (simp add: commitTerminalLifecycle_def electTerminalCandidate_def trim_run)
  from steps [OF r commits [OF _ this, of _ 1 False]]
  have r2: "terminal_reachable sample_env (?c(1 := WaitingDone 0 False), t)" by (simp add: after_commit_def)
  have w: "(?c(1 := WaitingDone 0 False)) 1 = WaitingDone 0 False" by (rule fun_upd_same)
  from waiter_has_owner [OF r2, THEN conjunct2, THEN mp, OF w] t(3)
  have "\<exists>j. in_append ((?c(1 := WaitingDone 0 False)) j)" by blast
  with w r2 show ?thesis by blast
qed

definition sample_marked :: "unit terminal" where
  "sample_marked = (first_terminal ''main'' (\<lambda>_. sample_completed))
     \<lparr>tm_session := \<lparr>se_required = True, se_reason = [], se_pending = Some (pending_of ''r1'' ''main''), se_result = None\<rparr>\<rparr>"

theorem reconcile_adopts_journal_witness:
  "\<exists>reconciled t'. reconcilePendingTerminalCommit (\<lambda>_. True) True False Persisted 0 sample_marked = ((True, reconciled), t') \<and>
     (reconciled \<or> se_required (tm_session t'))"
proof -
  obtain present reconciled t' where r:
    "reconcilePendingTerminalCommit (\<lambda>_. True) True False Persisted 0 sample_marked = ((present, reconciled), t')"
    by (cases "reconcilePendingTerminalCommit (\<lambda>_. True) True False Persisted 0 sample_marked") auto
  have "se_pending (tm_session sample_marked) = Some (pending_of ''r1'' ''main'')" by (simp add: sample_marked_def)
  from reconcile_adopts_journal [OF this r] have "present" "reconciled \<or> se_required (tm_session t')"
    by (auto split: if_splits)
  with r show ?thesis by auto
qed

section \<open>A mark too late\<close>

text \<open>
  The end of an invocation reads the lifecycle as unconfirmed and then calls \<open>markTerminalRecovery\<close>, which reads it again:
  if the commit happened in between, recovery is required for a committed run, without a marker that anything would clear.
\<close>

lemma late_mark_bars_committed_run:
  assumes "terminal_reachable env (calls, t)" "calls i = NoCall" "tm_state t = LifecycleCommitted"
    and "se_pending (tm_session t) = None"
  shows "\<exists>t'. terminal_reachable env (calls, t') \<and> tm_state t' = LifecycleCommitted \<and> se_required (tm_session t') \<and>
    se_pending (tm_session t') = None"
proof -
  let ?t = "markTerminalRecovery (tm_run t) (tm_state t) ''unconfirmed'' t"
  have r: "terminal_reachable env (calls(i := Abandoning (tm_run t) (tm_state t)), t)"
    by (rule steps [OF assms(1)]) (rule abandons, fact assms(2))
  have "terminal_reachable env ((calls(i := Abandoning (tm_run t) (tm_state t)))(i := NoCall), ?t)"
    by (rule steps [OF r marks]) simp
  moreover have "(calls(i := Abandoning (tm_run t) (tm_state t)))(i := NoCall) = calls" using assms(2) by auto
  ultimately show ?thesis using assms(3,4)
    by (intro exI [of _ ?t]) (simp add: markTerminalRecovery_def markTerminalRecoveryState_def)
qed

end
