(* ===== verification/Spec2Isabelle.thy ===== *)
theory Spec2Isabelle
  imports Dag_Settle Cost_Admission Cost_View Task_Resolution Anti_Thrashing_Replay
    Tool_Sequence_Safety Decision_Safety No_Progress Workset_Safety Criteria_Safety
    Terminal_Safety
begin

text \<open>
  A verification library for the runtime core of hufu: the part of the Go program that decides which
  agent task may run and with which tools, what is written down about it, what it may cost, when it counts as done, and
  when to stop. Everything modelled is under \<open>src/internal\<close>; paths below are relative to it.

  \<^bold>\<open>The program.\<close> A coordinator works on a goal in delegation rounds. A round is a batch of tasks
  with dependencies, order constraints, resource claims and failure edges; a task may first be fanned out into
  one child per item of a workset (\<open>team/fan_out.go\<close>, \<open>workset*.go\<close>). The scheduler
  (\<open>team/dag_scheduler.go\<close>) owns the round's state and starts worker goroutines; a task may bind its worker to a closed
  sequence of tool calls whose inputs may be pinned and rewritten (\<open>team/tool_sequence_policy.go\<close>,
  \<open>team/tool_input_transform.go\<close>). Task occurrences live in
  the todo list (\<open>team/status.go\<close>), which workers and the coordinator update under a mutex. Whether a task or an
  acceptance criterion holds is decided by typed verifiers (\<open>team/verification.go\<close>, \<open>criteria.go\<close>). A
  failure is classified, given a disposition (\<open>team/disposition.go\<close>), tallied in the todo list and
  fed to a run-scoped circuit breaker (\<open>team/anti_thrashing.go\<close>) that may refuse further
  dispatches; a run without objective progress is told to replan and then stopped (\<open>team/no_progress.go\<close>).
  At its end a run gets an outcome (\<open>team/run_result.go\<close>); its evidence - receipts and transcripts of the winning attempts,
  artifacts in a content-addressed store (\<open>team/evidence_store.go\<close>) - is sealed into a manifest
  (\<open>team/evidence_manifest.go\<close>), and the completion gate (\<open>team/completion_gate.go\<close>) may downgrade the outcome.
  Model calls are admitted and settled against a budget by the cost manager
  (\<open>team/cost_manager.go\<close>), whose ledger (\<open>cost\<close>) is the replay of events in the durable, hash-chained
  journal (\<open>team/event_store*.go\<close>, \<open>eventchain\<close>). The primary decision of a logical run is another projection
  of the journal (\<open>team/decision_reducer.go\<close>). After a restart ledger and decision run are replayed from the
  journal and the circuit breaker is rebuilt from the todo list.

  \<^bold>\<open>Theories and code.\<close>
  \<^item> \<open>Prelude\<close>: results as sums (\<open>Inl\<close> the error), \<open>int64\<close> and its wrap-around, the rule collections, and
    the interfaces \<open>ledger\<close>, \<open>idempotent_ledger\<close>, \<open>guarded_machine\<close> and \<open>step_preorder\<close>.
    \<open>Go_Strings\<close>, \<open>Go_Text\<close>: the parts of Go's standard library the code relies on. \<open>Json_Values\<close>: decoded JSON
    and the text \<open>encoding/json\<close> writes.
  \<^item> Cost: \<open>Cost_Money\<close> (\<open>cost/money.go\<close>), \<open>Exec_Target\<close> (\<open>execution/target.go\<close>), \<open>Cost_Calculate\<close>
    (\<open>types.go\<close>, \<open>calculate.go\<close>), \<open>Cost_Catalog\<close>, \<open>Cost_Policy\<close>, \<open>Cost_Events\<close>, \<open>Cost_Projection\<close>,
    \<open>Cost_View\<close> (the files of these names), \<open>Cost_Manager\<close> (\<open>team/cost_manager.go\<close>,
    \<open>cost_events.go\<close>). \<open>Cost_Ledger\<close> proves the invariant of the replay and interprets
    \<open>idempotent_ledger\<close> on \<open>Projection.Apply\<close>; \<open>Cost_Admission\<close> extends the journal's interface to
    \<open>cost_journal\<close> and proves admission and recovery over it.
  \<^item> Journal: \<open>Event_Chain\<close> (\<open>eventchain/chain.go\<close>), \<open>Event_Store\<close> (\<open>team/event_store.go\<close>,
    \<open>event_store_append.go\<close>, \<open>event_store_sqlite.go\<close>), \<open>Event_Journal\<close> (its invariant, and the
    interface \<open>event_journal\<close> with its interpretation on the store).
  \<^item> Decision runs: \<open>Decision_Canonical\<close> (\<open>decision_identity.go\<close>: canonical JSON, digests, derived ids),
    \<open>Decision_Contract\<close> (\<open>decision_runtime_types.go\<close>, \<open>decision_event_contract.go\<close>: events and their validation),
    \<open>Decision_Reducer\<close> (\<open>decision_reducer.go\<close>), \<open>Decision_Safety\<close> (its invariant and histories).
  \<^item> Recovery and claims: \<open>Task_Status\<close> (\<open>CanTransition\<close> of \<open>status.go\<close>, \<open>phase.go\<close>), \<open>Recovery\<close>
    (\<open>disposition.go\<close>, \<open>recovery.go\<close>, \<open>execution_contract.go\<close>), \<open>Resource_Claims\<close>
    (\<open>plan_revision.go\<close>, \<open>invariant_manifest.go\<close>).
  \<^item> Rounds: \<open>Task_Graph\<close> (cycle check, failure-edge check, reset waves and
    \<open>serializeConflictingMutationTasks\<close>), \<open>Dag_Scheduler\<close> (\<open>dag_scheduler.go\<close>: launching, completions,
    retry routes, cancellation), \<open>Dag_Safety\<close> (invariant and potential), \<open>Dag_Rounds\<close> (reachable
    states), \<open>Dag_Settle\<close> (how a round ends).
  \<^item> Tools of a worker: \<open>Tool_Sequence\<close> (\<open>tool_sequence_policy.go\<close>, \<open>tool_input_transform.go\<close> and the part of
    \<open>tool_policy_gate.go\<close> around them),
    \<open>Tool_Sequence_Safety\<close>.
  \<^item> Todo list: \<open>Todo_List\<close> (the operations of \<open>TodoList\<close> and the evidence signatures of
    \<open>task_result.go\<close>), \<open>Todo_Lifecycle\<close> (what runs of operations keep), \<open>Task_Resolution\<close>
    (\<open>ValidateResolution\<close>, \<open>SetTaskResolution\<close>, \<open>VerifiedTaskResolution\<close>).
  \<^item> Verification: \<open>Verifier_Json\<close> (exact comparison, paths and pointers), \<open>Verifier_Spec\<close> (normalisation and
    validation of specifications), \<open>Verifier_Run\<close> (execution), all of \<open>verification.go\<close> and
    \<open>task_result_projection.go\<close>, \<open>task_result_items_projection.go\<close>; \<open>Verifier_Safety\<close> states what passing means.
    \<open>Criteria\<close> (\<open>criteria.go\<close>), \<open>Criteria_Safety\<close>.
  \<^item> Fan-out: \<open>Fan_Out\<close> (\<open>fan_out.go\<close>), \<open>Workset\<close> (\<open>workset.go\<close>, \<open>workset_fanout.go\<close>), \<open>Workset_Group\<close>
    (receipts, \<open>workset_state.go\<close>, \<open>workset_verification.go\<close>), \<open>Workset_Safety\<close>.
  \<^item> Stopping: \<open>Anti_Thrashing\<close> (\<open>anti_thrashing.go\<close>, \<open>systemic_scope.go\<close> and the callers'
    part of \<open>coordinator_failure.go\<close>), \<open>Anti_Thrashing_Safety\<close>, \<open>Anti_Thrashing_Replay\<close>; \<open>No_Progress\<close>
    (\<open>no_progress.go\<close>, the counters in \<open>metrics.go\<close>).

  \<^item> End of a run: \<open>Artifact_Store\<close> (the file store of \<open>evidence_store.go\<close>, as two sorted directories; the interface
    \<open>growing_store\<close> and its interpretation), \<open>Run_Items\<close> (the items with their receipts, unresolved references and
    statistics of \<open>run_result.go\<close>, the lists of \<open>coordinator_tools.go\<close>), \<open>Run_Outcome\<close> (\<open>EvaluateRunOutcome\<close>,
    \<open>AggregateRunResults\<close>), \<open>Evidence_Manifest\<close> (\<open>evidence_manifest.go\<close>, \<open>evidence_resolution.go\<close>, sealing and
    verification of \<open>evidence_store.go\<close>), \<open>Evidence_Safety\<close>, \<open>Run_Certification\<close> (\<open>completion_gate.go\<close>, the
    finish with an advisory profile), \<open>Terminal_Result\<close> (the preparation in \<open>finalizeRunPrepared\<close> of \<open>run_finalizer.go\<close>),
    \<open>Terminal_Lifecycle\<close> (the other operations of \<open>run_finalizer.go\<close>: election, commit, recovery marker, with the repair after a restart
    of \<open>coordinator_eventstore.go\<close>, as a step relation over the goroutines that finish, are signalled or give up),
    \<open>Terminal_Safety\<close> (its invariant).

  \<^bold>\<open>Correspondence.\<close> A struct is a record whose fields carry a prefix of the type, a string enum a
  datatype whose last constructor is any other text, a Go error a constructor without the message's
  wording. A function that locks a mutex is one step of explicit state passing. Amounts and
  occurrence counts are \<open>int64\<close> with the wrap written out; counters that grow by one are unbounded. Maps
  are functions, sets or association lists, chosen so that no result depends on iteration order
  where Go leaves it open. Strings are lists of bytes. SHA-256, the HMAC, the journal's database, JSON decoding, the
  tools' answers, the files and commands a verifier looks at (\<open>world\<close>) and
  whatever the coordinator answers during a completion (\<open>round_view\<close>) are arguments, and so are, for the end of a run,
  the source files artifacts are published from, the validation of decision proofs, the run a recovered task ran in, the
  checks of a request acceptance, the semantic regression decision and the leaks of terminals, over which every
  theorem quantifies; a property that needs the digest or the MAC not to collide on two texts says so.

  \<^bold>\<open>What the lemmas show.\<close>
  \<^item> Journal: under any database fault and any number of writers the rows stay a verified hash chain with one
    event per idempotency key; two verified chains with one head agree on all hashed bytes.
  \<^item> Cost: admission never takes a run over its hard maximum, each successful operation leaves the
    ledger equal to the replay of the journal, replaying redelivered events changes nothing, and the
    totals and views are the sums they claim to be.
  \<^item> Decision runs: whatever the journal holds, the projection is coherent, has one owner at a time, accounts for
    the events it took, and binds a decision only to the opening, preparation and admission whose digests it names; redelivery
    changes nothing.
  \<^item> Rounds: the concurrency limit and the isolation of resource claims hold in every reachable state;
    a round handles a bounded number of completions and leaves nothing pending; in a pass that is neither stopped
    nor cancelled a task is stranded only behind a failed dependency, or behind a task refused in that very pass, which may
    be one it is only ordered after. Claims on workspace paths isolate files, except for names that end in white space.
  \<^item> Tools: a closed sequence runs its slots in order with their pinned and transformed inputs, after a failure only reports
    that admit it run, and a repair
    turn may claim success only after the work, unless the worker gave up early.
  \<^item> Recovery: exactly when a worker is dispatched again, and that unsafe effects never are.
  \<^item> Todo list: between retry resets and projections of a task its status follows the transition relation; ids are unique;
    a result shown was reported under the lease still held, seeded by the coordinator or projected from an event; resolutions
    are acyclic as long as no projection brings one of its own, and need proof, also after a restore.
  \<^item> Verification: a verifier passes exactly when what it asserts is established; a criterion is evaluated once,
    after its dependencies, exactly on acyclic contracts; a pass rests on passes all the way down.
  \<^item> Fan-out: children and receipts match the items one to one; the children of a table have a value for every placeholder, of the items of a
    JSON manifest only the first is checked for it; the group state shows complete exactly when a
    verifier with the default statuses that requires verification passes.
  \<^item> Stopping: every block refuses dispatches, a limit that is reached stops what it is for, and the rebuilt state
    decides as the live one for outcome tasks; for a criterion blocked by the diagnostic limit it does not. Without
    progress there is one replan and then a stop.
  \<^item> End of a run: published artifacts never change; a verified manifest binds each passed requirement to one execution
    and its artifacts; success means exactly that nothing stopped the run, nothing is unresolved and a gate passed; a run that
    ends as completed had every item executed or provably replaced. A skipped task prevents this. A run has at most one
    \<open>run_finished\<close> event, the session follows the journal, the recovery marker is exact, reconciling never
    infers success, and whoever waits for the owner has one.

  \<^bold>\<open>Bounds and termination.\<close> All recursions are total. The graph searches (\<open>dfs\<close>, \<open>bfs\<close>,
  \<open>blocked_search\<close>, \<open>cycle_found\<close>) decrease the number of tasks not yet visited; \<open>eval_loop\<close> the number of criteria
  without a result. A round is a
  sequence of completions; the potential of \<open>Dag_Safety\<close> decreases with each one handled, up to the
  checkpoints counted in \<open>round_ends\<close>. No fuel is used. Where a theorem assumes that a count fits
  \<open>int64\<close>, it says so.

  \<^bold>\<open>Not modelled.\<close> The coordinator's run loop, worker goroutines, model providers, terminal
  sessions, tools and the command line: input and output. JSON and YAML encodings, except where their bytes are hashed or
  compared. SQLite, beyond the outcomes of its calls. In \<open>status.go\<close>: the recording of execution receipts, memory and
  context manifests. \<open>NormalizeFailureError\<close> (regular expressions) and
  \<open>validateResolutionRequirements\<close> (deep equality of contract fields, the assertion runner) are arguments. Of the decision
  subsystem, the engine that calls models, its stages and gates, its index and stores. Fingerprints and the wording of
  messages. Of the evidence, the times of checks, the copy of the manifest in the logs, read budgets and disk errors; of the
  end of a run, the learning candidates, telemetry, and the further guards of decision-enabled runs. \<open>ToLower\<close> is ASCII only, which is all that accepted backend names contain.

  \<^bold>\<open>Plan.\<close> Next: the commit of task creation and of lifecycle transitions (todo list and event store as
  one step), the plan revisions, the remaining rules of \<open>delegation_policy.go\<close>, the re-evaluation of criteria after a
  task, the request acceptance, and the recording of execution receipts.
\<close>

end
